(* ===== verification/Prelude.thy ===== *)
theory Prelude
  imports Main "HOL-Library.Multiset" "HOL-Library.Char_ord" "HOL-Library.List_Lexorder" "HOL-Library.Product_Lexorder"
begin

text \<open>
  What every component of the model shares: JavaScript numbers and strings, the
  insertion-ordered \<open>Map\<close>, and generic facts on lists and stable sorting.

  \<^item> A number that the code requires to be finite is \<^typ>\<open>int\<close>; a number that still
    has to be checked with \<open>Number.isFinite\<close> is a \<open>js_number\<close>.
  \<^item> A string is a list of UTF-16 code units below 256 (\<^typ>\<open>string\<close>), ordered as the
    \<open><\<close> of JavaScript orders them (code unit by code unit).
  \<^item> \<open>toSorted\<close> is stable, and so is \<^const>\<open>sort_key\<close>.
\<close>

named_theorems js_map_simps "how lookups, keys and sizes of a Map react to its operations"
named_theorems reducer_simps "unfolding of the aggregate's reducers"

section \<open>Numbers\<close>

datatype js_number = Finite int | NonFinite

definition is_digit :: "char \<Rightarrow> bool" where
  "is_digit c \<longleftrightarrow> 48 \<le> (of_char c :: nat) \<and> (of_char c :: nat) \<le> 57"

definition digit_char :: "nat \<Rightarrow> char" where
  "digit_char d = char_of (48 + d)"

fun nat_str :: "nat \<Rightarrow> string" where
  "nat_str n = (if n < 10 then [digit_char n]
                else nat_str (n div 10) @ [digit_char (n mod 10)])"

declare nat_str.simps [simp del]

definition int_str :: "int \<Rightarrow> string" where
  "int_str i = (if i < 0 then CHR ''-'' # nat_str (nat (- i)) else nat_str (nat i))"

definition digits_value :: "string \<Rightarrow> nat" where
  "digits_value s = foldl (\<lambda>acc c. acc * 10 + (of_char c - 48)) 0 s"

lemma of_char_digit_char [simp]: "d < 10 \<Longrightarrow> (of_char (digit_char d) :: nat) = 48 + d"
  by (simp add: digit_char_def)

lemma is_digit_digit_char [simp]: "d < 10 \<Longrightarrow> is_digit (digit_char d)"
  by (simp add: is_digit_def)

lemma digits_value_nat_str: "digits_value (nat_str n) = n"
proof (induction n rule: nat_str.induct)
  case (1 n)
  then show ?case
    by (cases "n < 10") (simp_all add: nat_str.simps [of n] digits_value_def)
qed

lemma nat_str_digits: "\<forall>c \<in> set (nat_str n). is_digit c"
proof (induction n rule: nat_str.induct)
  case (1 n)
  then show ?case
    by (cases "n < 10") (simp_all add: nat_str.simps [of n])
qed

lemma nat_str_not_Nil [simp]: "nat_str n \<noteq> []"
  by (subst nat_str.simps) simp

lemma nat_str_hd: "is_digit (hd (nat_str n))"
  using nat_str_digits [of n] nat_str_not_Nil [of n] hd_in_set by blast

text \<open>A rendered number ends where the digits end, so it can be read back from a longer text.\<close>

definition no_digit_first :: "string \<Rightarrow> bool" where
  "no_digit_first r \<longleftrightarrow> (case r of [] \<Rightarrow> True | c # _ \<Rightarrow> \<not> is_digit c)"

lemma takeWhile_nat_str:
  assumes "no_digit_first r"
  shows "takeWhile is_digit (nat_str n @ r) = nat_str n"
proof -
  have "takeWhile is_digit r = []"
    using assms by (cases r) (auto simp: no_digit_first_def)
  then show ?thesis
    using nat_str_digits [of n] by (simp add: takeWhile_append2)
qed

lemma nat_str_append_inject:
  assumes "no_digit_first r" "no_digit_first s" "nat_str m @ r = nat_str n @ s"
  shows "m = n \<and> r = s"
proof -
  have "nat_str m = nat_str n"
    using takeWhile_nat_str [OF assms(1), of m] takeWhile_nat_str [OF assms(2), of n] assms(3)
    by simp
  moreover from this have "m = n"
    by (metis digits_value_nat_str)
  ultimately show ?thesis
    using assms(3) by simp
qed

lemma nat_str_hd_not_minus [simp]: "hd (nat_str n) \<noteq> CHR ''-''"
  using nat_str_hd [of n] by (auto simp: is_digit_def)

lemma int_str_hd_minus: "hd (int_str i @ r) = CHR ''-'' \<longleftrightarrow> i < 0"
  by (simp add: int_str_def)

lemma int_str_append_inject:
  assumes "no_digit_first r" "no_digit_first s" "int_str i @ r = int_str j @ s"
  shows "i = j \<and> r = s"
proof -
  have sign: "i < 0 \<longleftrightarrow> j < 0"
    using int_str_hd_minus [of i r] int_str_hd_minus [of j s] assms(3) by simp
  show ?thesis
  proof (cases "i < 0")
    case True
    with sign assms have "nat_str (nat (- i)) @ r = nat_str (nat (- j)) @ s"
      by (simp add: int_str_def)
    from nat_str_append_inject [OF assms(1,2) this] True sign show ?thesis
      by auto
  next
    case False
    with sign assms have "nat_str (nat i) @ r = nat_str (nat j) @ s"
      by (simp add: int_str_def)
    from nat_str_append_inject [OF assms(1,2) this] False sign show ?thesis
      by auto
  qed
qed

lemma no_digit_first_Nil [simp]: "no_digit_first []"
  by (simp add: no_digit_first_def)

lemma int_str_inject [simp]: "int_str i = int_str j \<longleftrightarrow> i = j"
  using int_str_append_inject [of "[]" "[]" i j] by auto

lemma int_str_hd: "is_digit (hd (int_str i)) \<or> hd (int_str i) = CHR ''-''"
  by (auto simp: int_str_def nat_str_hd)

lemma int_str_not_Nil [simp]: "int_str i \<noteq> []"
  by (simp add: int_str_def)

text \<open>The decimal rendering of a number never contains the NUL the code uses as a separator.\<close>

lemma nul_notin_int_str: "CHR 0x00 \<notin> set (int_str i)"
  using nat_str_digits [of "nat i"] nat_str_digits [of "nat (- i)"]
  by (auto simp: int_str_def is_digit_def)

section \<open>Strings\<close>

text \<open>\<open>String.prototype.trim\<close>: the white space and line terminators below 256.\<close>

definition js_space :: "char \<Rightarrow> bool" where
  "js_space c \<longleftrightarrow> (of_char c :: nat) \<in> {9, 10, 11, 12, 13, 32, 160}"

definition js_trim :: "string \<Rightarrow> string" where
  "js_trim s = rev (dropWhile js_space (rev (dropWhile js_space s)))"

definition js_startsWith :: "string \<Rightarrow> string \<Rightarrow> bool" where
  "js_startsWith s p \<longleftrightarrow> take (length p) s = p"

lemma dropWhile_rev_dropWhile:
  "dropWhile P (rev (dropWhile P (rev (dropWhile P s)))) = rev (dropWhile P (rev (dropWhile P s)))"
proof -
  let ?t = "rev (dropWhile P (rev (dropWhile P s)))"
  obtain u where u: "dropWhile P s = ?t @ u"
    by (metis rev_append rev_rev_ident takeWhile_dropWhile_id)
  have "?t = [] \<or> \<not> P (hd ?t)"
    by (metis append_is_Nil_conv hd_append2 hd_dropWhile u)
  then show ?thesis
    by (simp only: dropWhile_eq_self_iff)
qed

lemma js_trim_idem [simp]: "js_trim (js_trim s) = js_trim s"
  by (simp add: js_trim_def dropWhile_rev_dropWhile)

section \<open>Lists\<close>

lemma append_Cons_last_sep:
  assumes "x \<notin> set bs" "x \<notin> set ds" "as @ x # bs = cs @ x # ds"
  shows "as = cs \<and> bs = ds"
  using assms by (auto simp: append_eq_append_conv2 Cons_eq_append_conv append_eq_Cons_conv)

lemma length_remdups_eq_distinct: "length (remdups xs) = length xs \<longleftrightarrow> distinct xs"
  by (metis card_distinct distinct_card length_remdups_card_conv)

lemma filter_hd_stable: "filter P xs = [] \<Longrightarrow> x \<in> set xs \<Longrightarrow> \<not> P x"
  by (auto simp: filter_empty_conv)

lemma find_SomeD: "find P xs = Some x \<Longrightarrow> x \<in> set xs \<and> P x"
  by (induction xs) (auto split: if_splits)

lemma find_NoneD: "find P xs = None \<Longrightarrow> x \<in> set xs \<Longrightarrow> \<not> P x"
  by (simp add: find_None_iff)

lemma find_distinct_key:
  assumes "distinct (map f xs)" "x \<in> set xs"
  shows "find (\<lambda>y. f y = f x) xs = Some x"
  using assms by (induction xs) (auto simp: rev_image_eqI)

lemma distinct_map_sort_key: "distinct (map f (sort_key g xs)) \<longleftrightarrow> distinct (map f xs)"
  by (metis mset_map mset_sort mset_eq_imp_distinct_iff)

text \<open>Sorting by a key, when the keys are distinct, forgets the order of the input.\<close>

lemma sort_key_distinct_eqI:
  assumes "mset xs = mset ys" "inj_on f (set xs)"
  shows "sort_key f xs = sort_key f ys"
proof (rule properties_for_sort_key)
  show "mset (sort_key f ys) = mset xs"
    using assms(1) by simp
  show "sorted (map f (sort_key f ys))"
    by simp
next
  fix k assume "k \<in> set (sort_key f ys)"
  have eq: "set ys = set xs"
    using assms(1) mset_eq_setD by metis
  with \<open>k \<in> set (sort_key f ys)\<close> have k: "k \<in> set xs" by simp
  have filter_eq: "filter (\<lambda>x. f k = f x) zs = replicate (count (mset zs) k) k"
    if "set zs = set xs" for zs
  proof -
    have "filter (\<lambda>x. f k = f x) zs = filter (\<lambda>x. k = x) zs"
      using assms(2) k that by (intro filter_cong refl) (auto dest: inj_onD)
    then show ?thesis
      by (simp add: replicate_count_mset_eq_filter_eq)
  qed
  show "filter (\<lambda>x. f k = f x) (sort_key f ys) = filter (\<lambda>x. f k = f x) xs"
    using filter_eq [of "sort_key f ys"] filter_eq [of xs] eq assms(1) by simp
qed

lemma sort_key_idem [simp]: "sort_key f (sort_key f xs) = sort_key f xs"
  by (simp add: sort_key_id_if_sorted)

section \<open>Sorting by a comparison\<close>

text \<open>\<open>toSorted\<close> with a comparison function (\<open>le\<close>: the comparison is not positive).\<close>

fun insort_by :: "('a \<Rightarrow> 'a \<Rightarrow> bool) \<Rightarrow> 'a \<Rightarrow> 'a list \<Rightarrow> 'a list" where
  "insort_by le x [] = [x]"
| "insort_by le x (y # ys) = (if le x y then x # y # ys else y # insort_by le x ys)"

definition sort_by :: "('a \<Rightarrow> 'a \<Rightarrow> bool) \<Rightarrow> 'a list \<Rightarrow> 'a list" where
  "sort_by le xs = foldr (insort_by le) xs []"

lemma mset_insort_by [simp]: "mset (insort_by le x ys) = add_mset x (mset ys)"
  by (induction le x ys rule: insort_by.induct) simp_all

lemma mset_sort_by [simp]: "mset (sort_by le xs) = mset xs"
  by (induction xs) (simp_all add: sort_by_def)

lemma set_sort_by [simp]: "set (sort_by le xs) = set xs"
  by (metis mset_sort_by set_mset_mset)

section \<open>Insertion-ordered maps\<close>

text \<open>
  A JavaScript \<open>Map\<close> iterates its entries in the order of their first insertion; setting
  an existing key keeps its place.
\<close>

type_synonym ('k, 'v) jsmap = "('k \<times> 'v) list"

fun jm_set :: "'k \<Rightarrow> 'v \<Rightarrow> ('k, 'v) jsmap \<Rightarrow> ('k, 'v) jsmap" where
  "jm_set k v [] = [(k, v)]"
| "jm_set k v ((k', v') # m) = (if k' = k then (k, v) # m else (k', v') # jm_set k v m)"

abbreviation jm_get :: "('k, 'v) jsmap \<Rightarrow> 'k \<Rightarrow> 'v option" where
  "jm_get m k \<equiv> map_of m k"

definition jm_delete :: "'k \<Rightarrow> ('k, 'v) jsmap \<Rightarrow> ('k, 'v) jsmap" where
  "jm_delete k m = filter (\<lambda>e. fst e \<noteq> k) m"

definition jm_set_all :: "('k \<times> 'v) list \<Rightarrow> ('k, 'v) jsmap \<Rightarrow> ('k, 'v) jsmap" where
  "jm_set_all es m = foldl (\<lambda>acc e. jm_set (fst e) (snd e) acc) m es"

definition jm_of :: "('k \<times> 'v) list \<Rightarrow> ('k, 'v) jsmap" where
  "jm_of es = jm_set_all es []"

definition jm_keys :: "('k, 'v) jsmap \<Rightarrow> 'k list" where
  "jm_keys m = map fst m"

definition jm_values :: "('k, 'v) jsmap \<Rightarrow> 'v list" where
  "jm_values m = map snd m"

definition jm_ok :: "('k, 'v) jsmap \<Rightarrow> bool" where
  "jm_ok m \<longleftrightarrow> distinct (map fst m)"

lemma jm_get_set [simp, js_map_simps]: "jm_get (jm_set k v m) = (jm_get m)(k \<mapsto> v)"
  by (induction k v m rule: jm_set.induct) auto

lemma jm_get_delete [simp, js_map_simps]: "jm_get (jm_delete k m) = (jm_get m)(k := None)"
  by (induction m) (auto simp: jm_delete_def)

lemma jm_set_keys [js_map_simps]: "fst ` set (jm_set k v m) = insert k (fst ` set m)"
  by (induction k v m rule: jm_set.induct) auto

lemma jm_ok_Nil [simp]: "jm_ok []"
  by (simp add: jm_ok_def)

lemma jm_ok_set [simp, intro]: "jm_ok m \<Longrightarrow> jm_ok (jm_set k v m)"
proof (induction k v m rule: jm_set.induct)
  case (2 k v k' v' m)
  then show ?case
    using jm_set_keys [of k v m] by (auto simp: jm_ok_def)
qed (simp add: jm_ok_def)

lemma jm_ok_delete [simp, intro]: "jm_ok m \<Longrightarrow> jm_ok (jm_delete k m)"
  by (auto simp: jm_ok_def jm_delete_def distinct_map inj_on_def)

lemma jm_set_length:
  "length (jm_set k v m) = (if k \<in> fst ` set m then length m else Suc (length m))"
  by (induction k v m rule: jm_set.induct) auto

lemma jm_delete_length_le: "length (jm_delete k m) \<le> length m"
  by (simp add: jm_delete_def)

lemma jm_set_same_keys: "k \<in> fst ` set m \<Longrightarrow> map fst (jm_set k v m) = map fst m"
  by (induction k v m rule: jm_set.induct) auto

lemma jm_set_fresh: "k \<notin> fst ` set m \<Longrightarrow> jm_set k v m = m @ [(k, v)]"
  by (induction k v m rule: jm_set.induct) auto

lemma jm_set_subset: "set (jm_set k v m) \<subseteq> insert (k, v) (set m)"
  by (induction k v m rule: jm_set.induct) auto

lemma jm_set_values_subset: "snd ` set (jm_set k v m) \<subseteq> insert v (snd ` set m)"
  using jm_set_subset [of k v m] by auto

lemma jm_get_in_set: "jm_get m k = Some v \<Longrightarrow> v \<in> snd ` set m"
  by (force dest: map_of_SomeD)

lemma jm_ok_get: "jm_ok m \<Longrightarrow> (k, v) \<in> set m \<longleftrightarrow> jm_get m k = Some v"
  by (simp add: jm_ok_def)

lemma jm_set_all_Nil [simp]: "jm_set_all [] m = m"
  by (simp add: jm_set_all_def)

lemma jm_set_all_Cons [simp]:
  "jm_set_all (e # es) m = jm_set_all es (jm_set (fst e) (snd e) m)"
  by (simp add: jm_set_all_def)

lemma jm_ok_set_all [simp, intro]: "jm_ok m \<Longrightarrow> jm_ok (jm_set_all es m)"
  by (induction es arbitrary: m) auto

lemma jm_ok_of [simp]: "jm_ok (jm_of es)"
  by (simp add: jm_of_def)

lemma jm_set_all_keys: "fst ` set (jm_set_all es m) = fst ` set es \<union> fst ` set m"
  by (induction es arbitrary: m) (auto simp: jm_set_keys)

lemma jm_get_set_all: "jm_get (jm_set_all es m) = jm_get m ++ map_of (rev es)"
  by (induction es arbitrary: m) (auto simp: fun_eq_iff map_add_def split: option.splits)

lemma jm_get_of: "jm_get (jm_of es) = map_of (rev es)"
  by (simp add: jm_of_def jm_get_set_all)

lemma jm_of_keys: "fst ` set (jm_of es) = fst ` set es"
  by (simp add: jm_of_def jm_set_all_keys)

lemma map_of_rev_distinct: "distinct (map fst es) \<Longrightarrow> map_of (rev es) = map_of es"
  by (subst map_of_inject_set) (simp_all add: rev_map [symmetric])

lemma jm_get_of_distinct: "distinct (map fst es) \<Longrightarrow> jm_get (jm_of es) = map_of es"
  by (simp add: jm_get_of map_of_rev_distinct)

text \<open>Maps whose keys are computed from the values, \<open>new Map(xs.map((x) => [f(x), x]))\<close>.\<close>

definition jm_keyed :: "('v \<Rightarrow> 'k) \<Rightarrow> ('k, 'v) jsmap \<Rightarrow> bool" where
  "jm_keyed f m \<longleftrightarrow> (\<forall>e \<in> set m. fst e = f (snd e))"

lemma jm_keyed_Nil [simp]: "jm_keyed f []"
  by (simp add: jm_keyed_def)

lemma jm_keyed_set: "jm_keyed f m \<Longrightarrow> k = f v \<Longrightarrow> jm_keyed f (jm_set k v m)"
  using jm_set_subset [of k v m] by (auto simp: jm_keyed_def)

lemma jm_keyed_set_all:
  "jm_keyed f m \<Longrightarrow> jm_keyed f (jm_set_all (map (\<lambda>x. (f x, x)) xs) m)"
  by (induction xs arbitrary: m) (auto intro: jm_keyed_set)

lemma jm_keyed_of [simp]: "jm_keyed f (jm_of (map (\<lambda>x. (f x, x)) xs))"
  by (simp add: jm_of_def jm_keyed_set_all)

lemma jm_keyed_values: "jm_keyed f m \<Longrightarrow> map f (jm_values m) = map fst m"
  by (auto simp: jm_keyed_def jm_values_def)

lemma jm_keyed_distinct: "jm_keyed f m \<Longrightarrow> jm_ok m \<Longrightarrow> distinct (map f (jm_values m))"
  by (simp only: jm_keyed_values jm_ok_def)

lemma jm_set_all_subset: "set (jm_set_all es m) \<subseteq> set es \<union> set m"
proof (induction es arbitrary: m)
  case (Cons e es)
  have "set (jm_set (fst e) (snd e) m) \<subseteq> insert e (set m)"
    using jm_set_subset [of "fst e" "snd e" m] by simp
  with Cons.IH [of "jm_set (fst e) (snd e) m"] show ?case by auto
qed simp

lemma jm_of_subset: "set (jm_of es) \<subseteq> set es"
  using jm_set_all_subset [of es "[]"] by (simp add: jm_of_def)

lemma jm_get_of_in_set: "jm_get (jm_of es) k = Some v \<Longrightarrow> (k, v) \<in> set es"
  by (auto simp: jm_get_of dest: map_of_SomeD)

end
