(* ===== verification/Stable_Stringify.thy ===== *)
theory Stable_Stringify
  imports Prelude
begin

text \<open>
  The deterministic serializer \<open>stableStringify\<close> of
  \<open>packages/normalization-core/src/stable-stringify.ts\<close>: every persisted hash, size limit
  and change test of the Outcome aggregate goes through it.

  A JavaScript value is a \<open>json\<close>; an object is the list of its own enumerable properties
  in the order of \<open>Object.keys\<close>. Values are trees, so the \<open>"[Circular]"\<close> branch,
  which guards cyclic object graphs only, has no value to apply to.
  The second half proves that the serialization loses nothing but the order of keys: two plain
  values with the same text have the same canonical form.
\<close>

section \<open>JSON.stringify on strings\<close>

definition hex_digit :: "nat \<Rightarrow> char" where
  "hex_digit d = (if d < 10 then char_of (48 + d) else char_of (87 + d))"

definition bslash :: char where "bslash = CHR 0x5C"
definition dquote :: char where "dquote = CHR 0x22"

definition escape_char :: "char \<Rightarrow> string" where
  "escape_char c =
     (if c = dquote \<or> c = bslash then [bslash, c]
      else if c = CHR 0x08 then [bslash, CHR ''b'']
      else if c = CHR 0x09 then [bslash, CHR ''t'']
      else if c = CHR 0x0A then [bslash, CHR ''n'']
      else if c = CHR 0x0C then [bslash, CHR ''f'']
      else if c = CHR 0x0D then [bslash, CHR ''r'']
      else if (of_char c :: nat) < 32 then
        [bslash, CHR ''u'', CHR ''0'', CHR ''0'',
         hex_digit (of_char c div 16), hex_digit (of_char c mod 16)]
      else [c])"

definition quote_string :: "string \<Rightarrow> string" where
  "quote_string s = dquote # concat (map escape_char s) @ [dquote]"

section \<open>Values and their serialization\<close>

datatype non_finite = NaN | PosInfinity | NegInfinity

datatype json =
    JUndefined
  | JNull
  | JBool bool
  | JNum int
  | JNonFinite non_finite
  | JBigint int
  | JOpaque \<comment> \<open>a function or a symbol\<close>
  | JStr string
  | JArr "json list"
  | JObj "(string \<times> json) list"
  | JError string string "string option" \<comment> \<open>name, message and stack of an \<open>Error\<close>\<close>
  | JBytes "char list" \<comment> \<open>a \<open>Uint8Array\<close>\<close>

fun join_comma :: "string list \<Rightarrow> string" where
  "join_comma [] = []"
| "join_comma [x] = x"
| "join_comma (x # y # zs) = x @ CHR '','' # join_comma (y # zs)"

definition non_finite_str :: "non_finite \<Rightarrow> string" where
  "non_finite_str x = (case x of NaN \<Rightarrow> ''NaN'' | PosInfinity \<Rightarrow> ''Infinity''
     | NegInfinity \<Rightarrow> ''-Infinity'')"

definition base64_char :: "nat \<Rightarrow> char" where
  "base64_char n =
     (if n < 26 then char_of (65 + n) else if n < 52 then char_of (71 + n)
      else if n < 62 then char_of (n - 4) else if n = 62 then CHR ''+'' else CHR ''/'')"

fun encodeBase64 :: "char list \<Rightarrow> string" where
  "encodeBase64 [] = []"
| "encodeBase64 [a] = (let n = of_char a * 65536 in
     [base64_char (n div 262144), base64_char (n div 4096 mod 64), CHR ''='', CHR ''=''])"
| "encodeBase64 [a, b] = (let n = of_char a * 65536 + of_char b * 256 in
     [base64_char (n div 262144), base64_char (n div 4096 mod 64),
      base64_char (n div 64 mod 64), CHR ''=''])"
| "encodeBase64 (a # b # c # r) =
     (let n = of_char a * 65536 + of_char b * 256 + of_char c in
      [base64_char (n div 262144), base64_char (n div 4096 mod 64),
       base64_char (n div 64 mod 64), base64_char (n mod 64)]) @ encodeBase64 r"

text \<open>
  Fields of an object, already serialized, in the order of \<open>toSorted\<close>: by the normalized
  key and then by the key itself. With the identity as normalizer this is the default order of
  the keys, the code's first branch.
\<close>

definition preserveString :: "string \<Rightarrow> string" where
  "preserveString value = value"

definition object_text :: "(string \<Rightarrow> string) \<Rightarrow> (string \<times> string) list \<Rightarrow> string" where
  "object_text norm fields =
     CHR ''{'' #
     join_comma (map (\<lambda>(k, s). quote_string (norm k) @ CHR '':'' # s)
       (sort_key (\<lambda>(k, _). (norm k, k)) fields)) @ [CHR ''}'']"

definition array_text :: "string list \<Rightarrow> string" where
  "array_text xs = CHR ''['' # join_comma xs @ [CHR '']'']"

primrec stringifyStableValue :: "(string \<Rightarrow> string) \<Rightarrow> json \<Rightarrow> string" where
  "stringifyStableValue norm JUndefined = ''undefined''"
| "stringifyStableValue norm JNull = ''null''"
| "stringifyStableValue norm (JBool b) = (if b then ''true'' else ''false'')"
| "stringifyStableValue norm (JNum i) = int_str i"
| "stringifyStableValue norm (JNonFinite x) = quote_string (non_finite_str x)"
| "stringifyStableValue norm (JBigint i) = quote_string (int_str i)"
| "stringifyStableValue norm JOpaque = ''null''"
| "stringifyStableValue norm (JStr s) = quote_string (norm s)"
| "stringifyStableValue norm (JArr vs) = array_text (map (stringifyStableValue norm) vs)"
| "stringifyStableValue norm (JObj kvs) =
     object_text norm (map (map_prod id (stringifyStableValue norm)) kvs)"
| "stringifyStableValue norm (JError name message stack) =
     object_text norm
       [(''name'', quote_string (norm name)), (''message'', quote_string (norm message)),
        (''stack'', case stack of None \<Rightarrow> ''undefined'' | Some s \<Rightarrow> quote_string (norm s))]"
| "stringifyStableValue norm (JBytes bs) =
     object_text norm
       [(''type'', quote_string (norm ''Uint8Array'')),
        (''data'', quote_string (norm (encodeBase64 bs)))]"

definition stableStringify :: "json \<Rightarrow> string" where
  "stableStringify v = stringifyStableValue preserveString v"

section \<open>Canonical form\<close>

text \<open>Plain values are the ones \<open>JSON\<close> itself has.\<close>

primrec plain :: "json \<Rightarrow> bool" where
  "plain JUndefined = False"
| "plain JNull = True"
| "plain (JBool b) = True"
| "plain (JNum i) = True"
| "plain (JNonFinite x) = False"
| "plain (JBigint i) = False"
| "plain JOpaque = False"
| "plain (JStr s) = True"
| "plain (JArr vs) = list_all plain vs"
| "plain (JObj kvs) = list_all (\<lambda>kb. snd kb) (map (map_prod id plain) kvs)"
| "plain (JError name message stack) = False"
| "plain (JBytes bs) = False"

primrec canonical :: "json \<Rightarrow> json" where
  "canonical JUndefined = JUndefined"
| "canonical JNull = JNull"
| "canonical (JBool b) = JBool b"
| "canonical (JNum i) = JNum i"
| "canonical (JNonFinite x) = JNonFinite x"
| "canonical (JBigint i) = JBigint i"
| "canonical JOpaque = JOpaque"
| "canonical (JStr s) = JStr s"
| "canonical (JArr vs) = JArr (map canonical vs)"
| "canonical (JObj kvs) = JObj (sort_key fst (map (map_prod id canonical) kvs))"
| "canonical (JError name message stack) = JError name message stack"
| "canonical (JBytes bs) = JBytes bs"

text \<open>The serialization of a canonical value, without any sorting.\<close>

primrec flat_text :: "json \<Rightarrow> string" where
  "flat_text JUndefined = ''undefined''"
| "flat_text JNull = ''null''"
| "flat_text (JBool b) = (if b then ''true'' else ''false'')"
| "flat_text (JNum i) = int_str i"
| "flat_text (JNonFinite x) = quote_string (non_finite_str x)"
| "flat_text (JBigint i) = quote_string (int_str i)"
| "flat_text JOpaque = ''null''"
| "flat_text (JStr s) = quote_string s"
| "flat_text (JArr vs) = array_text (map flat_text vs)"
| "flat_text (JObj kvs) = CHR ''{'' #
     join_comma (map (\<lambda>(k, s). quote_string k @ CHR '':'' # s) (map (map_prod id flat_text) kvs))
     @ [CHR ''}'']"
| "flat_text (JError name message stack) = []"
| "flat_text (JBytes bs) = []"

lemma sort_key_map_fst:
  "sort_key fst (map (map_prod id h) xs) = map (map_prod id h) (sort_key fst xs)"
proof (induction xs)
  case (Cons x xs)
  have "insort_key fst (map_prod id h x) (map (map_prod id h) ys)
      = map (map_prod id h) (insort_key fst x ys)" for ys
    by (induction ys) simp_all
  with Cons show ?case by (simp add: id_def)
qed simp

lemma sort_key_cong_order:
  assumes "\<And>x y. f x \<le> f y \<longleftrightarrow> g x \<le> g y"
  shows "sort_key f xs = sort_key g xs"
proof (induction xs)
  case (Cons x xs)
  have "insort_key f x ys = insort_key g x ys" for ys
    by (induction ys) (simp_all add: assms)
  with Cons show ?case by simp
qed simp

lemma object_text_preserve:
  "object_text preserveString fields =
     CHR ''{'' # join_comma (map (\<lambda>(k, s). quote_string k @ CHR '':'' # s) (sort_key fst fields))
       @ [CHR ''}'']"
proof -
  have "sort_key (\<lambda>(k, _). (preserveString k, k)) fields = sort_key fst fields"
    by (rule sort_key_cong_order) (auto simp: less_eq_prod_def preserveString_def split: prod.splits)
  then show ?thesis by (simp add: object_text_def preserveString_def)
qed

lemma stringify_flat_canonical:
  "plain v \<Longrightarrow> stableStringify v = flat_text (canonical v)"
  unfolding stableStringify_def
proof (induction v)
  case (JArr vs)
  then show ?case by (simp add: list_all_iff cong: map_cong)
next
  case (JObj kvs)
  have "map (map_prod id (stringifyStableValue preserveString)) kvs
      = map (map_prod id flat_text) (map (map_prod id canonical) kvs)"
    using JObj by (force simp: list_all_iff)
  then show ?case
    by (simp add: object_text_preserve sort_key_map_fst del: map_map)
qed (simp_all add: preserveString_def)

section \<open>The text determines the canonical value\<close>

definition hex_value :: "char \<Rightarrow> nat" where
  "hex_value c = (if is_digit c then of_char c - 48 else of_char c - 87)"

fun unescape :: "string \<Rightarrow> (char \<times> string) option" where
  "unescape (x # r) =
     (if x \<noteq> bslash then Some (x, r)
      else case r of
        y # r' \<Rightarrow>
          (if y = CHR ''b'' then Some (CHR 0x08, r') else if y = CHR ''t'' then Some (CHR 0x09, r')
           else if y = CHR ''n'' then Some (CHR 0x0A, r')
           else if y = CHR ''f'' then Some (CHR 0x0C, r')
           else if y = CHR ''r'' then Some (CHR 0x0D, r')
           else if y = CHR ''u'' then
             (case r' of _ # _ # a # b # r'' \<Rightarrow>
                Some (char_of (hex_value a * 16 + hex_value b), r'') | _ \<Rightarrow> None)
           else Some (y, r'))
      | [] \<Rightarrow> None)"
| "unescape [] = None"

lemma hex_value_digit: "d < 16 \<Longrightarrow> hex_value (hex_digit d) = d"
  by (auto simp: hex_value_def hex_digit_def is_digit_def)

lemma unescape_escape: "unescape (escape_char c @ r) = Some (c, r)"
proof -
  have "(of_char c :: nat) < 32 \<Longrightarrow>
      hex_value (hex_digit (of_char c div 16)) * 16 + hex_value (hex_digit (of_char c mod 16))
        = of_char c"
    by (simp add: hex_value_digit)
  then show ?thesis
    by (simp add: escape_char_def bslash_def dquote_def)
qed

lemma escape_char_first: "\<exists>x xs. escape_char c = x # xs \<and> x \<noteq> dquote"
  by (simp add: escape_char_def bslash_def dquote_def)

lemma escaped_inject:
  "concat (map escape_char s) @ dquote # r = concat (map escape_char t) @ dquote # r'
    \<Longrightarrow> s = t \<and> r = r'"
proof (induction s arbitrary: t)
  case Nil
  then show ?case
    using escape_char_first by (cases t) (auto, metis append_Cons list.inject)
next
  case (Cons c s)
  show ?case
  proof (cases t)
    case Nil
    with Cons.prems escape_char_first [of c] show ?thesis by auto
  next
    case t: (Cons d t')
    let ?x = "concat (map escape_char s) @ dquote # r"
    let ?y = "concat (map escape_char t') @ dquote # r'"
    have "escape_char c @ ?x = escape_char d @ ?y"
      using Cons.prems t by simp
    then have "Some (c, ?x) = Some (d, ?y)"
      by (metis unescape_escape)
    with Cons.IH [of t'] t show ?thesis by auto
  qed
qed

lemma quote_string_inject:
  "quote_string s @ r = quote_string t @ r' \<Longrightarrow> s = t \<and> r = r'"
  by (rule escaped_inject) (simp add: quote_string_def)

definition ends_value :: "string \<Rightarrow> bool" where
  "ends_value r \<longleftrightarrow> (case r of [] \<Rightarrow> True | c # _ \<Rightarrow> c \<in> {CHR '','', CHR '']'', CHR ''}''})"

lemma ends_value_simps [simp]:
  "ends_value []" "ends_value (CHR '','' # r)" "ends_value (CHR '']'' # r)" "ends_value (CHR ''}'' # r)"
  by (simp_all add: ends_value_def)

lemma ends_value_no_digit: "ends_value r \<Longrightarrow> no_digit_first r"
  by (auto simp: ends_value_def no_digit_first_def is_digit_def split: list.splits)

lemma join_comma_Cons:
  "join_comma (x # xs) = x @ (if xs = [] then [] else CHR '','' # join_comma xs)"
  by (cases xs) simp_all

lemma join_comma_inject:
  assumes elem: "\<And>x y r s. x \<in> set xs \<Longrightarrow> y \<in> set ys \<Longrightarrow> ends_value r \<Longrightarrow> ends_value s \<Longrightarrow>
      f x @ r = f y @ s \<Longrightarrow> x = y \<and> r = s"
    and start: "\<And>z. z \<in> set xs \<union> set ys \<Longrightarrow> \<exists>c t. f z = c # t \<and> c \<noteq> e"
    and e: "e = CHR '']'' \<or> e = CHR ''}''"
    and eq: "join_comma (map f xs) @ e # r = join_comma (map f ys) @ e # s"
  shows "xs = ys \<and> r = s"
  using elem start eq
proof (induction xs arbitrary: ys)
  case Nil
  show ?case
  proof (cases ys)
    case Nil
    with Nil.prems(3) show ?thesis by simp
  next
    case (Cons y ys')
    with Nil.prems(2) [of y] Nil.prems(3) show ?thesis by (auto simp: join_comma_Cons)
  qed
next
  case (Cons x xs)
  show ?case
  proof (cases ys)
    case Nil
    with Cons.prems(2) [of x] Cons.prems(3) show ?thesis by (auto simp: join_comma_Cons)
  next
    case ys: (Cons y ys')
    let ?r = "(if xs = [] then [] else CHR '','' # join_comma (map f xs)) @ e # r"
    let ?s = "(if ys' = [] then [] else CHR '','' # join_comma (map f ys')) @ e # s"
    have "f x @ ?r = f y @ ?s"
      using Cons.prems(3) ys by (simp add: join_comma_Cons)
    moreover have "ends_value ?r" "ends_value ?s"
      using e by auto
    ultimately have xy: "x = y" "?r = ?s"
      using Cons.prems(1) [of x y ?r ?s] ys by simp_all
    have empty: "xs = [] \<longleftrightarrow> ys' = []"
      using xy(2) e by (auto split: if_splits)
    have "xs = ys' \<and> r = s"
    proof (cases "xs = []")
      case True
      with xy(2) empty show ?thesis by simp
    next
      case False
      with xy(2) empty have "join_comma (map f xs) @ e # r = join_comma (map f ys') @ e # s"
        by simp
      with Cons.prems(1,2) ys show ?thesis by (intro Cons.IH) auto
    qed
    with xy(1) ys show ?thesis by simp
  qed
qed

lemma int_str_Cons: "int_str i = c # t \<Longrightarrow> is_digit c \<or> c = CHR ''-''"
  using int_str_hd [of i] by simp

lemma int_str_append_Cons:
  "int_str i @ r = c # t \<Longrightarrow> is_digit c \<or> c = CHR ''-''"
  using int_str_hd [of i] by (cases "int_str i") auto

lemmas first_char_simps = array_text_def quote_string_def dquote_def is_digit_def

lemma flat_text_start: "plain v \<Longrightarrow> \<exists>c t. flat_text v = c # t \<and> c \<noteq> CHR '']'' \<and> c \<noteq> CHR ''}''"
proof (cases v)
  case (JNum i)
  then show ?thesis
    using int_str_hd [of i] by (cases "int_str i") (auto simp: is_digit_def)
qed (auto simp: first_char_simps)

text \<open>The first character tells which kind of value follows.\<close>

definition kind_of_char :: "char \<Rightarrow> nat" where
  "kind_of_char c =
     (if c = CHR ''n'' then 0 else if c = CHR ''t'' \<or> c = CHR ''f'' then 1
      else if c = dquote then 3 else if c = CHR ''['' then 4 else if c = CHR ''{'' then 5 else 2)"

definition json_kind :: "json \<Rightarrow> nat" where
  "json_kind v = (case v of JNull \<Rightarrow> 0 | JBool _ \<Rightarrow> 1 | JNum _ \<Rightarrow> 2 | JStr _ \<Rightarrow> 3 | JArr _ \<Rightarrow> 4
     | JObj _ \<Rightarrow> 5 | _ \<Rightarrow> 6)"

lemma kind_of_first_char: "plain v \<Longrightarrow> kind_of_char (hd (flat_text v @ r)) = json_kind v"
proof (cases v)
  case (JNum i)
  then show ?thesis
    using int_str_hd [of i] by (auto simp: json_kind_def kind_of_char_def is_digit_def dquote_def)
qed (simp_all add: json_kind_def kind_of_char_def first_char_simps)

lemma flat_text_same_kind:
  "plain v \<Longrightarrow> plain w \<Longrightarrow> flat_text v @ r = flat_text w @ s \<Longrightarrow> json_kind v = json_kind w"
  using kind_of_first_char [of v r] kind_of_first_char [of w s] by simp

lemma flat_text_inject:
  assumes "plain v" "plain w" "ends_value r" "ends_value s" "flat_text v @ r = flat_text w @ s"
  shows "v = w \<and> r = s"
  using assms flat_text_same_kind [OF assms(1,2,5)]
proof (induction v arbitrary: w r s)
  case JNull
  then show ?case by (cases w) (simp_all add: json_kind_def)
next
  case (JBool b)
  then show ?case by (cases w) (auto simp: json_kind_def split: if_splits)
next
  case (JNum i)
  then show ?case
    using int_str_append_inject [OF ends_value_no_digit ends_value_no_digit]
    by (cases w) (auto simp: json_kind_def)
next
  case (JStr t)
  then show ?case
    using quote_string_inject [of t r _ s] by (cases w) (simp_all add: json_kind_def)
next
  case (JArr vs)
  from JArr.prems obtain ws where w: "w = JArr ws"
    by (cases w) (simp_all add: json_kind_def)
  have "vs = ws \<and> r = s"
  proof (rule join_comma_inject)
    show "join_comma (map flat_text vs) @ CHR '']'' # r = join_comma (map flat_text ws) @ CHR '']'' # s"
      using JArr.prems(5) w by (simp add: array_text_def)
    show "\<exists>c t. flat_text z = c # t \<and> c \<noteq> CHR '']''" if "z \<in> set vs \<union> set ws" for z
      using that JArr.prems(1,2) w flat_text_start [of z] by (auto simp: list_all_iff)
    show "x = y \<and> r' = s'"
      if "x \<in> set vs" "y \<in> set ws" "ends_value r'" "ends_value s'"
        "flat_text x @ r' = flat_text y @ s'" for x y r' s'
    proof -
      have "plain x" "plain y"
        using that(1,2) JArr.prems(1,2) w by (simp_all add: list_all_iff)
      with that show ?thesis
        using JArr.IH [of x y r' s'] flat_text_same_kind by blast
    qed
  qed simp
  with w show ?case by simp
next
  case (JObj kvs)
  from JObj.prems obtain ws where w: "w = JObj ws"
    by (cases w) (simp_all add: json_kind_def)
  let ?f = "\<lambda>(k, v). quote_string k @ CHR '':'' # flat_text v"
  have "kvs = ws \<and> r = s"
  proof (rule join_comma_inject)
    show "join_comma (map ?f kvs) @ CHR ''}'' # r = join_comma (map ?f ws) @ CHR ''}'' # s"
      using JObj.prems(5) w by (simp add: o_def case_prod_unfold)
    show "\<exists>c t. ?f z = c # t \<and> c \<noteq> CHR ''}''" if "z \<in> set kvs \<union> set ws" for z
      by (cases z) (simp add: quote_string_def dquote_def)
    show "x = y \<and> r' = s'"
      if xy: "x \<in> set kvs" "y \<in> set ws" "ends_value r'" "ends_value s'" "?f x @ r' = ?f y @ s'"
      for x y r' s'
    proof -
      obtain k v l u where x: "x = (k, v)" and y: "y = (l, u)"
        by (cases x, cases y)
      have "quote_string k @ (CHR '':'' # flat_text v @ r')
          = quote_string l @ (CHR '':'' # flat_text u @ s')"
        using xy(5) x y by simp
      from quote_string_inject [OF this] have k: "k = l" "flat_text v @ r' = flat_text u @ s'"
        by simp_all
      have "plain v" "plain u"
        using JObj.prems(1,2) xy(1,2) x y w by (auto simp: list_all_iff)
      moreover from this k(2) have "json_kind v = json_kind u"
        by (rule flat_text_same_kind)
      ultimately have "v = u \<and> r' = s'"
        using JObj.IH [of "(k, v)" v] xy x k(2) by (auto simp: snds.simps)
      with k x y show ?thesis by simp
    qed
  qed simp
  with w show ?case by simp
qed simp_all

lemma plain_canonical: "plain v \<Longrightarrow> plain (canonical v)"
proof (induction v)
  case (JObj kvs)
  then show ?case by (fastforce simp: list_all_iff)
qed (auto simp: list_all_iff)

text \<open>
  \<open>stableStringify\<close> is injective up to the order of object keys: two plain values have the
  same serialization exactly when their canonical forms agree.
\<close>

theorem stableStringify_inject:
  assumes "plain v" "plain w"
  shows "stableStringify v = stableStringify w \<longleftrightarrow> canonical v = canonical w"
proof
  assume "stableStringify v = stableStringify w"
  then have "flat_text (canonical v) @ [] = flat_text (canonical w) @ []"
    using assms by (simp add: stringify_flat_canonical)
  with plain_canonical [OF assms(1)] plain_canonical [OF assms(2)]
  show "canonical v = canonical w"
    using flat_text_inject ends_value_simps(1) by blast
qed (use assms in \<open>simp add: stringify_flat_canonical\<close>)

end
