(* ===== verification/Outcome_Types.thy ===== *)
theory Outcome_Types
  imports Stable_Stringify
begin

text \<open>
  The Outcome aggregate of \<open>extensions/outcomes\<close>: the types of \<open>src/domain/types.ts\<close> and
  of \<open>packages/outcomes-contract\<close>, the limits of \<open>src/domain/constants.ts\<close>, and the
  values as \<^typ>\<open>json\<close>, the form in which hashes and size limits see them.

  A field that TypeScript marks optional is an \<^typ>\<open>'a option\<close>: \<^const>\<open>None\<close> is an
  absent property. Revisions, generations and timestamps are integers.
\<close>

section \<open>Enumerations\<close>

datatype phase = Draft | Active | Accepted | Cancelled

datatype availability = Available | Unavailable | IdentityConflicted

datatype source_issue =
  WorkboardDisabled | SourceNotFound | SourceForbidden | SourceTimeout | InvalidResponse
  | IdentityConflict

datatype evidence_kind = WorkboardProof | WorkboardArtifact

datatype decision_status = Verified | RejectedDecision

datatype operation_state = Prepared | MayHaveCrossed | Succeeded | Failed | UnknownState

definition phase_str :: "phase \<Rightarrow> string" where
  "phase_str p = (case p of Draft \<Rightarrow> ''draft'' | Active \<Rightarrow> ''active''
     | Accepted \<Rightarrow> ''accepted'' | Cancelled \<Rightarrow> ''cancelled'')"

definition availability_str :: "availability \<Rightarrow> string" where
  "availability_str a = (case a of Available \<Rightarrow> ''available'' | Unavailable \<Rightarrow> ''unavailable''
     | IdentityConflicted \<Rightarrow> ''identity-conflict'')"

definition source_issue_str :: "source_issue \<Rightarrow> string" where
  "source_issue_str e = (case e of WorkboardDisabled \<Rightarrow> ''workboard-disabled''
     | SourceNotFound \<Rightarrow> ''not-found'' | SourceForbidden \<Rightarrow> ''forbidden''
     | SourceTimeout \<Rightarrow> ''timeout'' | InvalidResponse \<Rightarrow> ''invalid-response''
     | IdentityConflict \<Rightarrow> ''identity-conflict'')"

definition evidence_kind_str :: "evidence_kind \<Rightarrow> string" where
  "evidence_kind_str k = (case k of WorkboardProof \<Rightarrow> ''workboard-proof''
     | WorkboardArtifact \<Rightarrow> ''workboard-artifact'')"

definition decision_status_str :: "decision_status \<Rightarrow> string" where
  "decision_status_str s = (case s of Verified \<Rightarrow> ''verified'' | RejectedDecision \<Rightarrow> ''rejected'')"

definition operation_state_str :: "operation_state \<Rightarrow> string" where
  "operation_state_str s = (case s of Prepared \<Rightarrow> ''prepared'' | MayHaveCrossed \<Rightarrow> ''may-have-crossed''
     | Succeeded \<Rightarrow> ''succeeded'' | Failed \<Rightarrow> ''failed'' | UnknownState \<Rightarrow> ''unknown'')"

text \<open>Evidence kinds are compared as the strings they are.\<close>

instantiation evidence_kind :: linorder
begin

definition less_eq_evidence_kind :: "evidence_kind \<Rightarrow> evidence_kind \<Rightarrow> bool" where
  "less_eq_evidence_kind a b \<longleftrightarrow> evidence_kind_str a \<le> evidence_kind_str b"

definition less_evidence_kind :: "evidence_kind \<Rightarrow> evidence_kind \<Rightarrow> bool" where
  "less_evidence_kind a b \<longleftrightarrow> evidence_kind_str a < evidence_kind_str b"

instance
proof
  fix a b :: evidence_kind
  assume "a \<le> b" "b \<le> a"
  then have "evidence_kind_str a = evidence_kind_str b"
    by (simp add: less_eq_evidence_kind_def)
  then show "a = b"
    by (cases a; cases b) (simp_all add: evidence_kind_str_def)
qed (auto simp: less_eq_evidence_kind_def less_evidence_kind_def)

end

section \<open>Records\<close>

record WorkboardRef =
  ref_cardId :: string
  ref_cardCreatedAt :: int
  ref_boardIdAtLink :: string

record Criterion =
  cr_id :: string
  cr_text :: string
  cr_required :: bool
  cr_workRefs :: "WorkboardRef list"

record SourcePair =
  sp_sourceId :: string
  sp_digest :: string

record WorkProjection =
  pj_ref :: WorkboardRef
  pj_availability :: availability
  pj_observedAt :: int
  pj_proofs :: "SourcePair list"
  pj_artifacts :: "SourcePair list"
  pj_currentBoardId :: "string option"
  pj_status :: "string option"
  pj_lastSuccessfulAt :: "int option"
  pj_sourceUpdatedAt :: "int option"
  pj_upstreamStale :: "bool option"
  pj_sourceFingerprint :: "string option"
  pj_errorCode :: "source_issue option"

record OutcomePlanSnapshot =
  pl_outcomeId :: string
  pl_objective :: string
  pl_contractRevision :: int
  pl_planGeneration :: int
  pl_criteria :: "Criterion list"

record Acceptance =
  ac_id :: string
  ac_requestHash :: string
  ac_acceptedRevision :: int
  ac_profileId :: string
  ac_acceptedAt :: int
  ac_planGeneration :: int
  ac_planHash :: string
  ac_closureHash :: string
  ac_acceptedPlan :: OutcomePlanSnapshot

record OutcomeOperation =
  op_id :: string
  op_criterionId :: string
  op_planGeneration :: int
  op_createdRevision :: int
  op_requestHash :: string
  op_state :: operation_state
  op_target :: WorkboardRef
  op_attemptedAt :: "int option"
  op_terminalAt :: "int option"
  op_resultDigest :: "string option"

record EvidenceRef =
  ev_id :: string
  ev_criterionId :: string
  ev_planGeneration :: int
  ev_workRef :: WorkboardRef
  ev_kind :: evidence_kind
  ev_sourceId :: string
  ev_sourceDigest :: string
  ev_observedAt :: int

record HumanDecision =
  de_id :: string
  de_criterionId :: string
  de_planGeneration :: int
  de_decidedRevision :: int
  de_status :: decision_status
  de_requestHash :: string
  de_profileId :: string
  de_planHash :: string
  de_decidedPlan :: OutcomePlanSnapshot
  de_evidenceSetHash :: string
  de_note :: "string option"
  de_decidedAt :: int

record OutcomeRecord =
  rc_id :: string
  rc_createRequestHash :: string
  rc_managerProfileId :: string
  rc_title :: string
  rc_objective :: string
  rc_contractRevision :: int
  rc_revision :: int
  rc_phase :: phase
  rc_planGeneration :: int
  rc_planHash :: "string option"
  rc_criteria :: "Criterion list"
  rc_projections :: "WorkProjection list"
  rc_evidence :: "EvidenceRef list"
  rc_decisions :: "HumanDecision list"
  rc_operations :: "OutcomeOperation list"
  rc_acceptances :: "Acceptance list"
  rc_createdAt :: int
  rc_updatedAt :: int

section \<open>Limits\<close>

definition OUTCOME_MAX_CRITERIA :: nat where "OUTCOME_MAX_CRITERIA = 5"
definition OUTCOME_MAX_WORK_REFS_PER_CRITERION :: nat where
  "OUTCOME_MAX_WORK_REFS_PER_CRITERION = 10"
definition OUTCOME_MAX_DISTINCT_WORK_REFS :: nat where "OUTCOME_MAX_DISTINCT_WORK_REFS = 20"
definition OUTCOME_MAX_RECORD_BYTES :: nat where "OUTCOME_MAX_RECORD_BYTES = 128 * 1024"
definition OUTCOME_PROJECTION_MAX_AGE_MS :: int where
  "OUTCOME_PROJECTION_MAX_AGE_MS = 24 * 60 * 60 * 1000"

lemmas outcome_limits =
  OUTCOME_MAX_CRITERIA_def OUTCOME_MAX_WORK_REFS_PER_CRITERION_def
  OUTCOME_MAX_DISTINCT_WORK_REFS_def

section \<open>Identity of a linked card\<close>

definition NUL :: char where "NUL = CHR 0x00"

definition workRefIdentity :: "WorkboardRef \<Rightarrow> string" where
  "workRefIdentity r = ref_cardId r @ NUL # int_str (ref_cardCreatedAt r)"

text \<open>The identity string is faithful: it separates refs by card and creation time.\<close>

lemma workRefIdentity_eq_iff:
  "workRefIdentity a = workRefIdentity b \<longleftrightarrow>
     ref_cardId a = ref_cardId b \<and> ref_cardCreatedAt a = ref_cardCreatedAt b"
proof
  assume "workRefIdentity a = workRefIdentity b"
  then have "ref_cardId a = ref_cardId b \<and>
      int_str (ref_cardCreatedAt a) = int_str (ref_cardCreatedAt b)"
    using append_Cons_last_sep [OF nul_notin_int_str nul_notin_int_str]
    by (simp add: workRefIdentity_def NUL_def)
  then show "ref_cardId a = ref_cardId b \<and> ref_cardCreatedAt a = ref_cardCreatedAt b"
    by simp
qed (simp add: workRefIdentity_def)

definition linked_identities :: "Criterion list \<Rightarrow> string list" where
  "linked_identities cs = concat (map (\<lambda>c. map workRefIdentity (cr_workRefs c)) cs)"

section \<open>The aggregate as JSON\<close>

definition opt_field :: "string \<Rightarrow> ('a \<Rightarrow> json) \<Rightarrow> 'a option \<Rightarrow> (string \<times> json) list" where
  "opt_field k f x = (case x of None \<Rightarrow> [] | Some v \<Rightarrow> [(k, f v)])"

definition ref_json :: "WorkboardRef \<Rightarrow> json" where
  "ref_json r = JObj [(''owner'', JStr ''workboard''), (''cardId'', JStr (ref_cardId r)),
     (''cardCreatedAt'', JNum (ref_cardCreatedAt r)),
     (''boardIdAtLink'', JStr (ref_boardIdAtLink r))]"

definition criterion_json :: "Criterion \<Rightarrow> json" where
  "criterion_json c = JObj [(''id'', JStr (cr_id c)), (''text'', JStr (cr_text c)),
     (''required'', JBool (cr_required c)), (''workRefs'', JArr (map ref_json (cr_workRefs c)))]"

definition criteria_json :: "Criterion list \<Rightarrow> json" where
  "criteria_json cs = JArr (map criterion_json cs)"

definition pair_json :: "SourcePair \<Rightarrow> json" where
  "pair_json p = JObj [(''sourceId'', JStr (sp_sourceId p)), (''digest'', JStr (sp_digest p))]"

definition projection_json :: "WorkProjection \<Rightarrow> json" where
  "projection_json p = JObj (
     [(''ref'', ref_json (pj_ref p)), (''availability'', JStr (availability_str (pj_availability p))),
      (''observedAt'', JNum (pj_observedAt p)), (''proofs'', JArr (map pair_json (pj_proofs p))),
      (''artifacts'', JArr (map pair_json (pj_artifacts p)))]
     @ opt_field ''currentBoardId'' JStr (pj_currentBoardId p)
     @ opt_field ''status'' JStr (pj_status p)
     @ opt_field ''lastSuccessfulAt'' JNum (pj_lastSuccessfulAt p)
     @ opt_field ''sourceUpdatedAt'' JNum (pj_sourceUpdatedAt p)
     @ opt_field ''upstreamStale'' JBool (pj_upstreamStale p)
     @ opt_field ''sourceFingerprint'' JStr (pj_sourceFingerprint p)
     @ opt_field ''errorCode'' (\<lambda>e. JStr (source_issue_str e)) (pj_errorCode p))"

definition evidence_json :: "EvidenceRef \<Rightarrow> json" where
  "evidence_json e = JObj [(''id'', JStr (ev_id e)), (''criterionId'', JStr (ev_criterionId e)),
     (''planGeneration'', JNum (ev_planGeneration e)), (''workRef'', ref_json (ev_workRef e)),
     (''kind'', JStr (evidence_kind_str (ev_kind e))), (''sourceId'', JStr (ev_sourceId e)),
     (''sourceDigest'', JStr (ev_sourceDigest e)), (''observedAt'', JNum (ev_observedAt e))]"

definition plan_json :: "OutcomePlanSnapshot \<Rightarrow> json" where
  "plan_json p = JObj [(''outcomeId'', JStr (pl_outcomeId p)), (''objective'', JStr (pl_objective p)),
     (''contractRevision'', JNum (pl_contractRevision p)),
     (''planGeneration'', JNum (pl_planGeneration p)),
     (''criteria'', criteria_json (pl_criteria p))]"

definition decision_json :: "HumanDecision \<Rightarrow> json" where
  "decision_json d = JObj (
     [(''id'', JStr (de_id d)), (''criterionId'', JStr (de_criterionId d)),
      (''planGeneration'', JNum (de_planGeneration d)),
      (''decidedRevision'', JNum (de_decidedRevision d)),
      (''status'', JStr (decision_status_str (de_status d))),
      (''requestHash'', JStr (de_requestHash d)), (''profileId'', JStr (de_profileId d)),
      (''planHash'', JStr (de_planHash d)), (''decidedPlan'', plan_json (de_decidedPlan d)),
      (''evidenceSetHash'', JStr (de_evidenceSetHash d)), (''decidedAt'', JNum (de_decidedAt d))]
     @ opt_field ''note'' JStr (de_note d))"

definition operation_json :: "OutcomeOperation \<Rightarrow> json" where
  "operation_json x = JObj (
     [(''id'', JStr (op_id x)), (''kind'', JStr ''workboard-card-start''),
      (''criterionId'', JStr (op_criterionId x)), (''planGeneration'', JNum (op_planGeneration x)),
      (''createdRevision'', JNum (op_createdRevision x)),
      (''requestHash'', JStr (op_requestHash x)),
      (''state'', JStr (operation_state_str (op_state x))), (''target'', ref_json (op_target x))]
     @ opt_field ''attemptedAt'' JNum (op_attemptedAt x)
     @ opt_field ''terminalAt'' JNum (op_terminalAt x)
     @ opt_field ''resultDigest'' JStr (op_resultDigest x))"

definition acceptance_json :: "Acceptance \<Rightarrow> json" where
  "acceptance_json a = JObj
     [(''id'', JStr (ac_id a)), (''requestHash'', JStr (ac_requestHash a)),
      (''acceptedRevision'', JNum (ac_acceptedRevision a)), (''profileId'', JStr (ac_profileId a)),
      (''acceptedAt'', JNum (ac_acceptedAt a)), (''planGeneration'', JNum (ac_planGeneration a)),
      (''planHash'', JStr (ac_planHash a)), (''closureHash'', JStr (ac_closureHash a)),
      (''acceptedPlan'', plan_json (ac_acceptedPlan a))]"

definition record_json :: "OutcomeRecord \<Rightarrow> json" where
  "record_json r = JObj
     [(''schemaVersion'', JNum 1), (''id'', JStr (rc_id r)),
      (''createRequestHash'', JStr (rc_createRequestHash r)),
      (''managerProfileId'', JStr (rc_managerProfileId r)), (''title'', JStr (rc_title r)),
      (''objective'', JStr (rc_objective r)), (''contractRevision'', JNum (rc_contractRevision r)),
      (''revision'', JNum (rc_revision r)), (''phase'', JStr (phase_str (rc_phase r))),
      (''planGeneration'', JNum (rc_planGeneration r)),
      (''planHash'', case rc_planHash r of None \<Rightarrow> JNull | Some h \<Rightarrow> JStr h),
      (''criteria'', criteria_json (rc_criteria r)),
      (''projections'', JArr (map projection_json (rc_projections r))),
      (''evidence'', JArr (map evidence_json (rc_evidence r))),
      (''decisions'', JArr (map decision_json (rc_decisions r))),
      (''operations'', JArr (map operation_json (rc_operations r))),
      (''acceptances'', JArr (map acceptance_json (rc_acceptances r))),
      (''createdAt'', JNum (rc_createdAt r)), (''updatedAt'', JNum (rc_updatedAt r))]"

section \<open>The JSON form determines refs, criteria and plans\<close>

lemma plain_ref_json [simp]: "plain (ref_json r)"
  by (simp add: ref_json_def)

lemma plain_criterion_json [simp]: "plain (criterion_json c)"
  by (simp add: criterion_json_def list_all_iff)

lemma plain_criteria_json [simp]: "plain (criteria_json cs)"
  by (simp add: criteria_json_def list_all_iff)

lemma plain_plan_json [simp]: "plain (plan_json p)"
  by (simp add: plan_json_def)

lemma canonical_ref_json [simp]:
  "canonical (ref_json a) = canonical (ref_json b) \<longleftrightarrow> a = b"
  by (cases a; cases b) (auto simp: ref_json_def)

lemma map_inj_iff: "(\<And>x y. f x = f y \<longleftrightarrow> x = y) \<Longrightarrow> map f xs = map f ys \<longleftrightarrow> xs = ys"
  by (metis inj_def map_injective)

lemma canonical_ref_jsons [simp]:
  "map (canonical \<circ> ref_json) xs = map (canonical \<circ> ref_json) ys \<longleftrightarrow> xs = ys"
  by (rule map_inj_iff) simp

lemma canonical_criterion_json [simp]:
  "canonical (criterion_json a) = canonical (criterion_json b) \<longleftrightarrow> a = b"
  by (cases a; cases b) (auto simp: criterion_json_def)

lemma canonical_criteria_json [simp]:
  "canonical (criteria_json xs) = canonical (criteria_json ys) \<longleftrightarrow> xs = ys"
  by (simp add: criteria_json_def map_inj_iff)

lemma canonical_plan_json [simp]:
  "canonical (plan_json a) = canonical (plan_json b) \<longleftrightarrow> a = b"
  by (cases a; cases b) (auto simp: plan_json_def)

lemma stableStringify_criteria [simp]:
  "stableStringify (criteria_json xs) = stableStringify (criteria_json ys) \<longleftrightarrow> xs = ys"
  by (simp add: stableStringify_inject)

end
