(* ===== verification/Outcome_Schema.thy ===== *)
theory Outcome_Schema
  imports Outcome_Types
begin

text \<open>
  The persistence contract of the Outcome aggregate, \<open>src/domain/schema.ts\<close> and
  \<open>src/domain/hash.ts\<close>: what a stored record must satisfy, the canonical hashes, and the
  128 KiB limit.

  The Zod schemas are read as the predicates they check. Strictness and the types of fields hold
  by construction of the records of \<open>Outcome_Types\<close>; what remains is written out: lengths,
  ranges, patterns, and the custom refinements. \<open>z.number().int()\<close> accepts safe integers
  only. A failed parse throws, which here is \<open>Inl SchemaError\<close>.
  SHA-256 is the parameter \<open>H\<close>: from the UTF-8 text to the hexadecimal digest.
\<close>

datatype outcome_error =
  ServerTimeNotFinite
| SchemaError
| RecordTooLarge
| EvidenceIdentityMismatch
| EvidenceGenerationInvalid
| EvidenceTimeNotFinite

section \<open>Primitive checks\<close>

text \<open>\<open>Array.from\<close> splits by code points; a code unit below 256 is a code point of its own.\<close>

definition code_points :: "string \<Rightarrow> string list" where
  "code_points s = map (\<lambda>c. [c]) s"

definition hasAtMostCodePoints :: "string \<Rightarrow> nat \<Rightarrow> bool" where
  "hasAtMostCodePoints s n \<longleftrightarrow> length s \<le> n \<or> length (code_points s) \<le> n"

definition codePointText :: "nat \<Rightarrow> string \<Rightarrow> bool" where
  "codePointText n s \<longleftrightarrow> 1 \<le> length s \<and> length s \<le> n * 2 \<and> hasAtMostCodePoints s n"

definition codePointString :: "nat \<Rightarrow> string \<Rightarrow> bool" where
  "codePointString n s \<longleftrightarrow> length s \<le> n * 2 \<and> hasAtMostCodePoints s n"

definition min1 :: "string \<Rightarrow> bool" where
  "min1 s \<longleftrightarrow> s \<noteq> []"

definition hex64 :: "string \<Rightarrow> bool" where
  "hex64 s \<longleftrightarrow> length s = 64 \<and>
     list_all (\<lambda>c. (CHR ''0'' \<le> c \<and> c \<le> CHR ''9'') \<or> (CHR ''a'' \<le> c \<and> c \<le> CHR ''f'')) s"

definition MAX_SAFE_INTEGER :: int where "MAX_SAFE_INTEGER = 9007199254740991"

definition nonneg_int :: "int \<Rightarrow> bool" where
  "nonneg_int n \<longleftrightarrow> 0 \<le> n \<and> n \<le> MAX_SAFE_INTEGER"

definition positive_int :: "int \<Rightarrow> bool" where
  "positive_int n \<longleftrightarrow> 0 < n \<and> n \<le> MAX_SAFE_INTEGER"

definition opt_ok :: "('a \<Rightarrow> bool) \<Rightarrow> 'a option \<Rightarrow> bool" where
  "opt_ok P x \<longleftrightarrow> (case x of None \<Rightarrow> True | Some v \<Rightarrow> P v)"

definition valid_ref :: "WorkboardRef \<Rightarrow> bool" where
  "valid_ref r \<longleftrightarrow> min1 (ref_cardId r) \<and> 0 \<le> ref_cardCreatedAt r \<and> min1 (ref_boardIdAtLink r)"

definition valid_criterion :: "Criterion \<Rightarrow> bool" where
  "valid_criterion c \<longleftrightarrow>
     codePointText 160 (cr_id c) \<and> codePointText 1000 (cr_text c) \<and> list_all valid_ref (cr_workRefs c)"

definition valid_pair :: "SourcePair \<Rightarrow> bool" where
  "valid_pair p \<longleftrightarrow> min1 (sp_sourceId p) \<and> min1 (sp_digest p)"

section \<open>Canonical order and hashes\<close>

definition ref_order :: "WorkboardRef \<Rightarrow> string \<times> int \<times> string" where
  "ref_order r = (ref_cardId r, ref_cardCreatedAt r, ref_boardIdAtLink r)"

definition sort_refs :: "Criterion \<Rightarrow> Criterion" where
  "sort_refs c = c\<lparr>cr_workRefs := sort_key ref_order (cr_workRefs c)\<rparr>"

definition canonical_criteria :: "Criterion list \<Rightarrow> Criterion list" where
  "canonical_criteria cs = map sort_refs (sort_key cr_id cs)"

definition hash_text :: "string \<Rightarrow> json \<Rightarrow> string" where
  "hash_text d v = d @ NUL # stableStringify v"

definition canonical_plan :: "OutcomePlanSnapshot \<Rightarrow> OutcomePlanSnapshot" where
  "canonical_plan p = p\<lparr>pl_criteria := canonical_criteria (pl_criteria p)\<rparr>"

definition hashValidatedCanonicalPlan :: "(string \<Rightarrow> string) \<Rightarrow> OutcomePlanSnapshot \<Rightarrow> string" where
  "hashValidatedCanonicalPlan H p =
     H (hash_text ''openclaw:outcome-plan:v1'' (plan_json (canonical_plan p)))"

definition sort_pairs :: "SourcePair list \<Rightarrow> SourcePair list" where
  "sort_pairs ps = sort_key (\<lambda>p. (sp_sourceId p, sp_digest p)) ps"

definition workboardProjectionFingerprint ::
  "(string \<Rightarrow> string) \<Rightarrow> WorkboardRef \<Rightarrow> SourcePair list \<Rightarrow> SourcePair list \<Rightarrow> string \<Rightarrow> string \<Rightarrow> int
    \<Rightarrow> string" where
  "workboardProjectionFingerprint H ref proofs artifacts boardId status updatedAt =
     H (hash_text ''openclaw:workboard-projection:v1'' (JObj
       [(''cardId'', JStr (ref_cardId ref)), (''cardCreatedAt'', JNum (ref_cardCreatedAt ref)),
        (''currentBoardId'', JStr boardId), (''status'', JStr status),
        (''sourceUpdatedAt'', JNum updatedAt),
        (''proofs'', JArr (map pair_json (sort_pairs proofs))),
        (''artifacts'', JArr (map pair_json (sort_pairs artifacts)))]))"

definition evidenceSetHash :: "(string \<Rightarrow> string) \<Rightarrow> string \<Rightarrow> int \<Rightarrow> string list \<Rightarrow> string" where
  "evidenceSetHash H criterionId planGeneration digests =
     H (hash_text ''openclaw:outcome-evidence-set:v1'' (JObj
       [(''criterionId'', JStr criterionId), (''planGeneration'', JNum planGeneration),
        (''sourceDigests'', JArr (map JStr (sort (remdups digests))))]))"

record ClosureCriterion =
  cc_criterionId :: string
  cc_decisionId :: string
  cc_decidedRevision :: int
  cc_evidenceSetHash :: string

definition closure_criterion_json :: "ClosureCriterion \<Rightarrow> json" where
  "closure_criterion_json c = JObj
     [(''criterionId'', JStr (cc_criterionId c)), (''decisionId'', JStr (cc_decisionId c)),
      (''decidedRevision'', JNum (cc_decidedRevision c)),
      (''evidenceSetHash'', JStr (cc_evidenceSetHash c))]"

definition outcomeClosureHash ::
  "(string \<Rightarrow> string) \<Rightarrow> string \<Rightarrow> int \<Rightarrow> string \<Rightarrow> ClosureCriterion list \<Rightarrow> string" where
  "outcomeClosureHash H outcomeId planGeneration planHash required =
     H (hash_text ''openclaw:outcome-closure:v1'' (JObj
       [(''outcomeId'', JStr outcomeId), (''planGeneration'', JNum planGeneration),
        (''planHash'', JStr planHash),
        (''requiredCriteria'',
           JArr (map closure_criterion_json (sort_key cc_criterionId required)))]))"

section \<open>Criteria and plans\<close>

definition criterion_ref_set :: "Criterion \<Rightarrow> string list" where
  "criterion_ref_set c = remdups (map workRefIdentity (cr_workRefs c))"

text \<open>The rules a plan and a stored record share.\<close>

definition valid_criteria :: "Criterion list \<Rightarrow> bool" where
  "valid_criteria cs \<longleftrightarrow>
     list_all valid_criterion cs \<and> 1 \<le> length cs \<and> length cs \<le> OUTCOME_MAX_CRITERIA \<and>
     list_ex cr_required cs \<and>
     length (remdups (map cr_id cs)) = length cs \<and>
     list_all (\<lambda>c. length (criterion_ref_set c) = length (cr_workRefs c) \<and>
       length (criterion_ref_set c) \<le> 10) cs \<and>
     length (remdups (concat (map criterion_ref_set cs))) \<le> 20"

definition valid_plan :: "OutcomePlanSnapshot \<Rightarrow> bool" where
  "valid_plan p \<longleftrightarrow>
     codePointText 160 (pl_outcomeId p) \<and> codePointText 4000 (pl_objective p) \<and>
     positive_int (pl_contractRevision p) \<and> positive_int (pl_planGeneration p) \<and>
     valid_criteria (pl_criteria p)"

definition planHash :: "(string \<Rightarrow> string) \<Rightarrow> OutcomePlanSnapshot \<Rightarrow> outcome_error + string" where
  "planHash H p = (if valid_plan p then Inr (hashValidatedCanonicalPlan H p) else Inl SchemaError)"

definition safePlanHash :: "(string \<Rightarrow> string) \<Rightarrow> OutcomePlanSnapshot \<Rightarrow> string option" where
  "safePlanHash H p = (case planHash H p of Inl _ \<Rightarrow> None | Inr h \<Rightarrow> Some h)"

definition safeValidatedSnapshotPlanHash ::
  "(string \<Rightarrow> string) \<Rightarrow> OutcomePlanSnapshot \<Rightarrow> string option" where
  "safeValidatedSnapshotPlanHash H p = Some (hashValidatedCanonicalPlan H p)"

record CreateRequest =
  rq_id :: string
  rq_title :: string
  rq_objective :: string
  rq_criteria :: "Criterion list"

definition valid_create_request :: "CreateRequest \<Rightarrow> bool" where
  "valid_create_request q \<longleftrightarrow>
     codePointText 160 (rq_id q) \<and> codePointText 160 (rq_title q) \<and>
     codePointText 4000 (rq_objective q) \<and> list_all valid_criterion (rq_criteria q) \<and>
     1 \<le> length (rq_criteria q) \<and> length (rq_criteria q) \<le> OUTCOME_MAX_CRITERIA \<and>
     list_ex cr_required (rq_criteria q) \<and>
     length (remdups (map cr_id (rq_criteria q))) = length (rq_criteria q) \<and>
     \<not> list_ex (\<lambda>c. OUTCOME_MAX_WORK_REFS_PER_CRITERION < length (criterion_ref_set c))
         (rq_criteria q) \<and>
     length (remdups (linked_identities (rq_criteria q))) \<le> OUTCOME_MAX_DISTINCT_WORK_REFS"

definition createRequestHash ::
  "(string \<Rightarrow> string) \<Rightarrow> CreateRequest \<Rightarrow> outcome_error + string" where
  "createRequestHash H q =
     (if valid_create_request q then
        Inr (H (hash_text ''openclaw:outcome-create:v1'' (JObj
          [(''id'', JStr (rq_id q)), (''title'', JStr (rq_title q)),
           (''objective'', JStr (rq_objective q)),
           (''criteria'', criteria_json (canonical_criteria (rq_criteria q)))])))
      else Inl SchemaError)"

section \<open>Members of the record\<close>

definition valid_projection :: "(string \<Rightarrow> string) \<Rightarrow> WorkProjection \<Rightarrow> bool" where
  "valid_projection H p \<longleftrightarrow>
     valid_ref (pj_ref p) \<and> list_all valid_pair (pj_proofs p) \<and> list_all valid_pair (pj_artifacts p) \<and>
     opt_ok min1 (pj_currentBoardId p) \<and> opt_ok min1 (pj_status p) \<and>
     opt_ok hex64 (pj_sourceFingerprint p) \<and>
     (if pj_availability p \<noteq> Available then
        pj_sourceFingerprint p = None \<and>
        \<not> (pj_availability p = IdentityConflicted \<and> pj_errorCode p \<noteq> Some IdentityConflict) \<and>
        \<not> (pj_availability p = Unavailable \<and>
           (pj_errorCode p = None \<or> pj_errorCode p = Some IdentityConflict))
      else
        pj_errorCode p = None \<and>
        (case pj_sourceFingerprint p of None \<Rightarrow> False
         | Some fp \<Rightarrow>
             (case (pj_currentBoardId p, pj_status p, pj_sourceUpdatedAt p) of
                (Some b, Some s, Some u) \<Rightarrow>
                  fp = workboardProjectionFingerprint H (pj_ref p) (pj_proofs p) (pj_artifacts p) b s u
              | _ \<Rightarrow> False)))"

definition valid_evidence :: "EvidenceRef \<Rightarrow> bool" where
  "valid_evidence e \<longleftrightarrow>
     min1 (ev_id e) \<and> min1 (ev_criterionId e) \<and> nonneg_int (ev_planGeneration e) \<and>
     valid_ref (ev_workRef e) \<and> min1 (ev_sourceId e) \<and> min1 (ev_sourceDigest e)"

definition valid_decision :: "HumanDecision \<Rightarrow> bool" where
  "valid_decision d \<longleftrightarrow>
     min1 (de_id d) \<and> min1 (de_criterionId d) \<and> nonneg_int (de_planGeneration d) \<and>
     positive_int (de_decidedRevision d) \<and> hex64 (de_requestHash d) \<and> min1 (de_profileId d) \<and>
     hex64 (de_planHash d) \<and> valid_plan (de_decidedPlan d) \<and> hex64 (de_evidenceSetHash d) \<and>
     opt_ok (codePointString 2000) (de_note d)"

definition valid_operation :: "OutcomeOperation \<Rightarrow> bool" where
  "valid_operation x \<longleftrightarrow>
     min1 (op_id x) \<and> min1 (op_criterionId x) \<and> nonneg_int (op_planGeneration x) \<and>
     positive_int (op_createdRevision x) \<and> hex64 (op_requestHash x) \<and> valid_ref (op_target x) \<and>
     opt_ok min1 (op_resultDigest x)"

definition valid_acceptance :: "Acceptance \<Rightarrow> bool" where
  "valid_acceptance a \<longleftrightarrow>
     min1 (ac_id a) \<and> hex64 (ac_requestHash a) \<and> positive_int (ac_acceptedRevision a) \<and>
     min1 (ac_profileId a) \<and> nonneg_int (ac_planGeneration a) \<and> hex64 (ac_planHash a) \<and>
     hex64 (ac_closureHash a) \<and> valid_plan (ac_acceptedPlan a)"

section \<open>The record\<close>

definition record_plan :: "OutcomeRecord \<Rightarrow> OutcomePlanSnapshot" where
  "record_plan r = \<lparr>pl_outcomeId = rc_id r, pl_objective = rc_objective r,
     pl_contractRevision = rc_contractRevision r, pl_planGeneration = rc_planGeneration r,
     pl_criteria = rc_criteria r\<rparr>"

definition valid_header :: "OutcomeRecord \<Rightarrow> bool" where
  "valid_header r \<longleftrightarrow>
     codePointText 160 (rc_id r) \<and> hex64 (rc_createRequestHash r) \<and> min1 (rc_managerProfileId r) \<and>
     codePointText 160 (rc_title r) \<and> codePointText 4000 (rc_objective r) \<and>
     positive_int (rc_revision r) \<and> positive_int (rc_contractRevision r) \<and>
     nonneg_int (rc_planGeneration r) \<and> opt_ok hex64 (rc_planHash r) \<and>
     rc_contractRevision r \<le> rc_revision r"

definition valid_members :: "(string \<Rightarrow> string) \<Rightarrow> OutcomeRecord \<Rightarrow> bool" where
  "valid_members H r \<longleftrightarrow>
     list_all (valid_projection H) (rc_projections r) \<and>
     list_all valid_evidence (rc_evidence r) \<and> length (rc_evidence r) \<le> 100 \<and>
     list_all valid_decision (rc_decisions r) \<and> length (rc_decisions r) \<le> 100 \<and>
     list_all valid_operation (rc_operations r) \<and> length (rc_operations r) \<le> 20 \<and>
     list_all valid_acceptance (rc_acceptances r) \<and> length (rc_acceptances r) \<le> 20 \<and>
     distinct (map ev_id (rc_evidence r)) \<and> distinct (map de_id (rc_decisions r)) \<and>
     distinct (map op_id (rc_operations r)) \<and> distinct (map ac_id (rc_acceptances r))"

definition valid_phase :: "(string \<Rightarrow> string) \<Rightarrow> OutcomeRecord \<Rightarrow> bool" where
  "valid_phase H r \<longleftrightarrow>
     (case rc_phase r of
        Draft \<Rightarrow> rc_planGeneration r = 0 \<and> rc_planHash r = None
      | Cancelled \<Rightarrow> (rc_planGeneration r = 0 \<and> rc_planHash r = None) \<or>
          (0 < rc_planGeneration r \<and> rc_planHash r = safePlanHash H (record_plan r))
      | _ \<Rightarrow> 1 \<le> rc_planGeneration r \<and> rc_planHash r \<noteq> None \<and>
          rc_planHash r = safePlanHash H (record_plan r))"

definition valid_history :: "(string \<Rightarrow> string) \<Rightarrow> OutcomeRecord \<Rightarrow> bool" where
  "valid_history H r \<longleftrightarrow>
     list_all (\<lambda>d. de_decidedRevision d \<le> rc_revision r) (rc_decisions r) \<and>
     distinct (map de_decidedRevision (rc_decisions r)) \<and>
     list_all (\<lambda>a. ac_acceptedRevision a \<le> rc_revision r) (rc_acceptances r) \<and>
     list_all (\<lambda>d. pl_outcomeId (de_decidedPlan d) = rc_id r \<and>
       pl_planGeneration (de_decidedPlan d) = de_planGeneration d \<and>
       list_ex (\<lambda>c. cr_id c = de_criterionId d) (pl_criteria (de_decidedPlan d)) \<and>
       Some (de_planHash d) = safeValidatedSnapshotPlanHash H (de_decidedPlan d)) (rc_decisions r) \<and>
     list_all (\<lambda>a. pl_outcomeId (ac_acceptedPlan a) = rc_id r \<and>
       pl_planGeneration (ac_acceptedPlan a) = ac_planGeneration a \<and>
       Some (ac_planHash a) = safeValidatedSnapshotPlanHash H (ac_acceptedPlan a)) (rc_acceptances r)"

definition valid_record :: "(string \<Rightarrow> string) \<Rightarrow> OutcomeRecord \<Rightarrow> bool" where
  "valid_record H r \<longleftrightarrow>
     valid_header r \<and> valid_criteria (rc_criteria r) \<and> valid_members H r \<and> valid_phase H r \<and>
     valid_history H r"

text \<open>\<open>Buffer.byteLength\<close> of a UTF-16 string below 256: one byte for ASCII, two above.\<close>

definition utf8_length :: "string \<Rightarrow> nat" where
  "utf8_length s = sum_list (map (\<lambda>c. if (of_char c :: nat) < 128 then 1 else 2) s)"

definition outcomeRecordByteLength :: "OutcomeRecord \<Rightarrow> nat" where
  "outcomeRecordByteLength r = utf8_length (stableStringify (record_json r))"

definition assertOutcomeRecordSize :: "OutcomeRecord \<Rightarrow> outcome_error + unit" where
  "assertOutcomeRecordSize r =
     (if OUTCOME_MAX_RECORD_BYTES < outcomeRecordByteLength r then Inl RecordTooLarge else Inr ())"

definition parseOutcomeRecord ::
  "(string \<Rightarrow> string) \<Rightarrow> OutcomeRecord \<Rightarrow> outcome_error + OutcomeRecord" where
  "parseOutcomeRecord H r =
     (if valid_record H r then
        (case assertOutcomeRecordSize r of Inl e \<Rightarrow> Inl e | Inr _ \<Rightarrow> Inr r)
      else Inl SchemaError)"

section \<open>Facts about canonical order\<close>

lemma sort_refs_sel [simp]:
  "cr_id (sort_refs c) = cr_id c" "cr_text (sort_refs c) = cr_text c"
  "cr_required (sort_refs c) = cr_required c"
  "set (cr_workRefs (sort_refs c)) = set (cr_workRefs c)"
  "length (cr_workRefs (sort_refs c)) = length (cr_workRefs c)"
  by (simp_all add: sort_refs_def)

lemma sort_refs_idem [simp]: "sort_refs (sort_refs c) = sort_refs c"
  by (simp add: sort_refs_def)

lemma sort_key_map_same:
  "(\<And>x. f (g x) = f x) \<Longrightarrow> sort_key f (map g xs) = map g (sort_key f xs)"
proof (induction xs)
  case (Cons x xs)
  have "insort_key f (g x) (map g ys) = map g (insort_key f x ys)" for ys
    by (induction ys) (simp_all add: Cons.prems)
  with Cons show ?case by simp
qed simp

lemma canonical_criteria_map_sort:
  "sort_key cr_id (map sort_refs cs) = canonical_criteria cs"
  by (simp add: canonical_criteria_def sort_key_map_same)

lemma canonical_criteria_idem [simp]:
  "canonical_criteria (canonical_criteria cs) = canonical_criteria cs"
  by (simp add: canonical_criteria_def sort_key_map_same)

lemma canonical_criteria_set: "set (canonical_criteria cs) = sort_refs ` set cs"
  by (simp add: canonical_criteria_def)

lemma canonical_criteria_length [simp]: "length (canonical_criteria cs) = length cs"
  by (simp add: canonical_criteria_def)

lemma canonical_plan_idem [simp]: "canonical_plan (canonical_plan p) = canonical_plan p"
  by (simp add: canonical_plan_def)

lemma criterion_ref_set_facts:
  "set (criterion_ref_set c) = workRefIdentity ` set (cr_workRefs c)"
  "length (criterion_ref_set c) = card (workRefIdentity ` set (cr_workRefs c))"
  by (simp_all add: criterion_ref_set_def length_remdups_card_conv)

lemma criterion_ref_set_sort [simp]:
  "set (criterion_ref_set (sort_refs c)) = set (criterion_ref_set c)"
  "length (criterion_ref_set (sort_refs c)) = length (criterion_ref_set c)"
  by (simp_all add: criterion_ref_set_facts)

lemma valid_criterion_sort [simp]: "valid_criterion (sort_refs c) = valid_criterion c"
  by (simp add: valid_criterion_def list_all_iff)

lemma linked_identities_set:
  "set (linked_identities cs) = (\<Union>c \<in> set cs. workRefIdentity ` set (cr_workRefs c))"
  by (simp add: linked_identities_def)

lemma criterion_refs_distinct:
  "length (criterion_ref_set c) = length (cr_workRefs c) \<longleftrightarrow>
     distinct (map workRefIdentity (cr_workRefs c))"
  using length_remdups_eq_distinct [of "map workRefIdentity (cr_workRefs c)"]
  by (simp add: criterion_ref_set_def)

text \<open>The rules of a plan in terms of sets.\<close>

lemma valid_criteria_iff:
  "valid_criteria cs \<longleftrightarrow>
     (\<forall>c \<in> set cs. valid_criterion c) \<and> cs \<noteq> [] \<and> length cs \<le> 5 \<and>
     (\<exists>c \<in> set cs. cr_required c) \<and> distinct (map cr_id cs) \<and>
     (\<forall>c \<in> set cs. distinct (map workRefIdentity (cr_workRefs c)) \<and> length (cr_workRefs c) \<le> 10) \<and>
     card (set (linked_identities cs)) \<le> 20"
proof -
  have ids: "length (remdups (map cr_id cs)) = length cs \<longleftrightarrow> distinct (map cr_id cs)"
    using length_remdups_eq_distinct [of "map cr_id cs"] by simp
  have refs: "length (remdups (concat (map criterion_ref_set cs))) = card (set (linked_identities cs))"
    by (simp add: length_remdups_card_conv linked_identities_set criterion_ref_set_facts)
  have ne: "1 \<le> length cs \<longleftrightarrow> cs \<noteq> []"
    by (cases cs) simp_all
  show ?thesis
    unfolding valid_criteria_def ids refs ne
    by (auto simp: list_all_iff list_ex_iff criterion_refs_distinct outcome_limits)
       (metis criterion_refs_distinct)+
qed

text \<open>A stored plan may list criteria and refs in any order: the rules do not see it.\<close>

lemma valid_criteria_canonical [simp]:
  "valid_criteria (canonical_criteria cs) = valid_criteria cs"
proof -
  have ids: "length (remdups (map cr_id (canonical_criteria cs))) = length (remdups (map cr_id cs))"
    by (simp add: length_remdups_card_conv canonical_criteria_set image_image)
  have refs: "length (remdups (concat (map criterion_ref_set (canonical_criteria cs))))
      = length (remdups (concat (map criterion_ref_set cs)))"
    by (simp add: length_remdups_card_conv canonical_criteria_set image_image)
  show ?thesis
    unfolding valid_criteria_def ids refs
    by (simp add: list_all_iff list_ex_iff canonical_criteria_set)
qed

lemma valid_plan_canonical [simp]: "valid_plan (canonical_plan p) = valid_plan p"
  by (simp add: valid_plan_def canonical_plan_def)

lemma hashValidated_canonical [simp]:
  "hashValidatedCanonicalPlan H (canonical_plan p) = hashValidatedCanonicalPlan H p"
  by (simp add: hashValidatedCanonicalPlan_def)

lemma planHash_canonical [simp]: "planHash H (canonical_plan p) = planHash H p"
  by (simp add: planHash_def)

lemma safePlanHash_Some:
  "safePlanHash H p = Some h \<longleftrightarrow> valid_plan p \<and> h = hashValidatedCanonicalPlan H p"
  by (auto simp: safePlanHash_def planHash_def)

lemma planHash_Inr:
  "planHash H p = Inr h \<longleftrightarrow> valid_plan p \<and> h = hashValidatedCanonicalPlan H p"
  by (auto simp: planHash_def)

lemma planHash_safe: "planHash H p = Inr h \<Longrightarrow> safePlanHash H p = Some h"
  by (simp add: safePlanHash_def)

section \<open>Domain separation\<close>

lemma hash_text_inject:
  assumes "NUL \<notin> set d" "NUL \<notin> set d'" "hash_text d v = hash_text d' w"
  shows "d = d' \<and> stableStringify v = stableStringify w"
proof -
  have tw: "takeWhile (\<lambda>c. c \<noteq> NUL) (hash_text x u) = x" if "NUL \<notin> set x" for x u
  proof -
    have "\<And>c. c \<in> set x \<Longrightarrow> c \<noteq> NUL" using that by auto
    then show ?thesis by (simp add: hash_text_def takeWhile_append2)
  qed
  from tw [OF assms(1)] tw [OF assms(2)] assms(3) have "d = d'" by metis
  with assms(3) show ?thesis by (simp add: hash_text_def)
qed

text \<open>Equal hashes of plans come from equal canonical plans, or exhibit a collision of \<open>H\<close>.\<close>

definition plan_text :: "OutcomePlanSnapshot \<Rightarrow> string" where
  "plan_text p = hash_text ''openclaw:outcome-plan:v1'' (plan_json (canonical_plan p))"

lemma plan_text_inject: "plan_text p = plan_text q \<longleftrightarrow> canonical_plan p = canonical_plan q"
  by (auto simp: plan_text_def hash_text_def stableStringify_inject)

end
