(* ===== verification/Outcome_Reducer.thy ===== *)
theory Outcome_Reducer
  imports Outcome_Schema
begin

text \<open>
  The contract side of the Outcome aggregate, \<open>src/domain/reducer.ts\<close>, and the routing of a
  public patch, \<open>src/gateway/update-reducer.ts\<close>. Each reducer takes the current record and a
  mutation that names the revision it was made against, and returns a decision; a throw (a
  non-finite server time, or a plan that fails its schema while being hashed) is an \<open>Inl\<close>.

  The interface every caller relies on is the locale \<open>cas_reducer\<close>: an update is made
  against the current revision, consumes exactly one, and keeps the identity of the record.
\<close>

datatype reject_reason = CapacityExceeded

datatype outcome_result =
  Conflict OutcomeRecord
| Noop OutcomeRecord
| Updated OutcomeRecord
| Rejected OutcomeRecord "reject_reason option"

fun result_record :: "outcome_result \<Rightarrow> OutcomeRecord" where
  "result_record (Conflict r) = r"
| "result_record (Noop r) = r"
| "result_record (Updated r) = r"
| "result_record (Rejected r _) = r"

type_synonym outcome_decision = "outcome_error + outcome_result"

section \<open>Guards shared by the reducers\<close>

definition assertOutcomeServerTime :: "js_number \<Rightarrow> outcome_error + int" where
  "assertOutcomeServerTime t = (case t of Finite n \<Rightarrow> Inr n | NonFinite \<Rightarrow> Inl ServerTimeNotFinite)"

definition in_flight_state :: "operation_state \<Rightarrow> bool" where
  "in_flight_state s \<longleftrightarrow> s \<in> {Prepared, UnknownState, MayHaveCrossed}"

definition hasInFlightOperation :: "OutcomeRecord \<Rightarrow> bool" where
  "hasInFlightOperation r \<longleftrightarrow> list_ex (\<lambda>x. in_flight_state (op_state x)) (rc_operations r)"

definition currentOutcomePlanSnapshot :: "OutcomeRecord \<Rightarrow> OutcomePlanSnapshot" where
  "currentOutcomePlanSnapshot r =
     \<lparr>pl_outcomeId = rc_id r, pl_objective = rc_objective r,
      pl_contractRevision = rc_contractRevision r, pl_planGeneration = rc_planGeneration r,
      pl_criteria = map (\<lambda>c. \<lparr>cr_id = cr_id c, cr_text = cr_text c, cr_required = cr_required c,
        cr_workRefs = map (\<lambda>x. \<lparr>ref_cardId = ref_cardId x, ref_cardCreatedAt = ref_cardCreatedAt x,
          ref_boardIdAtLink = ref_boardIdAtLink x\<rparr>) (cr_workRefs c)\<rparr>) (rc_criteria r)\<rparr>"

definition canonicalCriteria :: "Criterion list \<Rightarrow> Criterion list" where
  "canonicalCriteria cs = sort_key cr_id (map sort_refs cs)"

text \<open>\<open>planGeneration === 0 ? null : planHash({...})\<close>\<close>

definition next_plan_hash ::
  "(string \<Rightarrow> string) \<Rightarrow> string \<Rightarrow> string \<Rightarrow> int \<Rightarrow> int \<Rightarrow> Criterion list \<Rightarrow> outcome_error + string option"
where
  "next_plan_hash H outcomeId objective contractRevision planGeneration criteria =
     (if planGeneration = 0 then Inr None
      else case planHash H \<lparr>pl_outcomeId = outcomeId, pl_objective = objective,
               pl_contractRevision = contractRevision, pl_planGeneration = planGeneration,
               pl_criteria = criteria\<rparr> of
             Inl e \<Rightarrow> Inl e | Inr h \<Rightarrow> Inr (Some h))"

section \<open>Contract, activation and title\<close>

record OutcomeContractMutation =
  cm_expectedRevision :: int
  cm_objective :: string
  cm_criteria :: "Criterion list"
  cm_serverTime :: js_number

definition reduceOutcomeContract ::
  "(string \<Rightarrow> string) \<Rightarrow> OutcomeRecord \<Rightarrow> OutcomeContractMutation \<Rightarrow> outcome_decision" where
  "reduceOutcomeContract H cur m =
     (case assertOutcomeServerTime (cm_serverTime m) of Inl e \<Rightarrow> Inl e | Inr now \<Rightarrow>
      if rc_phase cur = Cancelled then Inr (Rejected cur None)
      else if cm_expectedRevision m \<noteq> rc_revision cur then Inr (Conflict cur)
      else if hasInFlightOperation cur then Inr (Rejected cur None)
      else if rc_objective cur = cm_objective m \<and>
              stableStringify (criteria_json (canonicalCriteria (rc_criteria cur))) =
              stableStringify (criteria_json (canonicalCriteria (cm_criteria m)))
        then Inr (Noop cur)
      else
        let planGeneration = (if rc_phase cur = Draft then 0 else rc_planGeneration cur + 1);
            phase = (if rc_phase cur = Accepted then Active else rc_phase cur);
            criteria = canonicalCriteria (cm_criteria m)
        in case next_plan_hash H (rc_id cur) (cm_objective m) (rc_contractRevision cur + 1)
                  planGeneration criteria of
             Inl e \<Rightarrow> Inl e
           | Inr h \<Rightarrow> Inr (Updated (cur\<lparr>rc_objective := cm_objective m, rc_criteria := criteria,
               rc_phase := phase, rc_contractRevision := rc_contractRevision cur + 1,
               rc_planGeneration := planGeneration, rc_planHash := h,
               rc_revision := rc_revision cur + 1, rc_updatedAt := now\<rparr>)))"

definition reduceOutcomeActivate ::
  "(string \<Rightarrow> string) \<Rightarrow> OutcomeRecord \<Rightarrow> int \<Rightarrow> js_number \<Rightarrow> outcome_decision" where
  "reduceOutcomeActivate H cur expectedRevision serverTime =
     (case assertOutcomeServerTime serverTime of Inl e \<Rightarrow> Inl e | Inr now \<Rightarrow>
      if expectedRevision \<noteq> rc_revision cur then Inr (Conflict cur)
      else if rc_phase cur \<noteq> Draft \<or> hasInFlightOperation cur then Inr (Rejected cur None)
      else if list_ex (\<lambda>c. cr_required c \<and> length (cr_workRefs c) = 0) (rc_criteria cur)
        then Inr (Rejected cur None)
      else case planHash H \<lparr>pl_outcomeId = rc_id cur, pl_objective = rc_objective cur,
                  pl_contractRevision = rc_contractRevision cur, pl_planGeneration = 1,
                  pl_criteria = rc_criteria cur\<rparr> of
             Inl e \<Rightarrow> Inl e
           | Inr h \<Rightarrow> Inr (Updated (cur\<lparr>rc_phase := Active, rc_planGeneration := 1,
               rc_planHash := Some h, rc_revision := rc_revision cur + 1, rc_updatedAt := now\<rparr>)))"

record OutcomeMutation =
  tm_expectedRevision :: int
  tm_title :: string
  tm_serverTime :: js_number

definition reduceOutcomeTitle :: "OutcomeRecord \<Rightarrow> OutcomeMutation \<Rightarrow> outcome_decision" where
  "reduceOutcomeTitle cur m =
     (case assertOutcomeServerTime (tm_serverTime m) of Inl e \<Rightarrow> Inl e | Inr now \<Rightarrow>
      if rc_phase cur = Cancelled then Inr (Rejected cur None)
      else if tm_expectedRevision m \<noteq> rc_revision cur then Inr (Conflict cur)
      else if rc_title cur = tm_title m then Inr (Noop cur)
      else Inr (Updated (cur\<lparr>rc_title := tm_title m, rc_revision := rc_revision cur + 1,
             rc_updatedAt := now\<rparr>)))"

section \<open>Patches\<close>

record OutcomePatchMutation =
  pm_expectedRevision :: int
  pm_title :: "string option"
  pm_objective :: "string option"
  pm_criteria :: "Criterion list option"
  pm_serverTime :: js_number

text \<open>The operator \<open>??\<close>.\<close>

definition or_else :: "'a option \<Rightarrow> 'a \<Rightarrow> 'a" where
  "or_else x d = (case x of None \<Rightarrow> d | Some v \<Rightarrow> v)"

definition reduceOutcomePatch ::
  "(string \<Rightarrow> string) \<Rightarrow> OutcomeRecord \<Rightarrow> OutcomePatchMutation \<Rightarrow> outcome_decision" where
  "reduceOutcomePatch H cur m =
     (case assertOutcomeServerTime (pm_serverTime m) of Inl e \<Rightarrow> Inl e | Inr now \<Rightarrow>
      if rc_phase cur = Cancelled then Inr (Rejected cur None)
      else if pm_expectedRevision m \<noteq> rc_revision cur then Inr (Conflict cur)
      else if hasInFlightOperation cur then Inr (Rejected cur None)
      else
        let title = or_else (pm_title m) (rc_title cur);
            objective = or_else (pm_objective m) (rc_objective cur);
            criteria = or_else (pm_criteria m) (rc_criteria cur);
            contractChanged = (objective \<noteq> rc_objective cur \<or>
              stableStringify (criteria_json criteria)
                \<noteq> stableStringify (criteria_json (rc_criteria cur)))
        in if title = rc_title cur \<and> \<not> contractChanged then Inr (Noop cur)
           else if \<not> contractChanged then
             Inr (Updated (cur\<lparr>rc_title := title, rc_revision := rc_revision cur + 1,
               rc_updatedAt := now\<rparr>))
           else
             let planGeneration = (if rc_phase cur = Draft then 0 else rc_planGeneration cur + 1);
                 phase = (if rc_phase cur = Accepted then Active else rc_phase cur);
                 contractRevision = rc_contractRevision cur + 1
             in case next_plan_hash H (rc_id cur) objective contractRevision planGeneration criteria
                of Inl e \<Rightarrow> Inl e
                 | Inr h \<Rightarrow> Inr (Updated (cur\<lparr>rc_title := title, rc_objective := objective,
                     rc_criteria := criteria, rc_phase := phase,
                     rc_contractRevision := contractRevision, rc_planGeneration := planGeneration,
                     rc_planHash := h, rc_revision := rc_revision cur + 1, rc_updatedAt := now\<rparr>)))"

definition reduceGatewayOutcomePatch ::
  "(string \<Rightarrow> string) \<Rightarrow> OutcomeRecord \<Rightarrow> OutcomePatchMutation \<Rightarrow> outcome_decision" where
  "reduceGatewayOutcomePatch H cur m =
     (let hasContract = (pm_objective m \<noteq> None \<or> pm_criteria m \<noteq> None)
      in case pm_title m of
           Some title \<Rightarrow>
             (if \<not> hasContract then
                reduceOutcomeTitle cur \<lparr>tm_expectedRevision = pm_expectedRevision m,
                  tm_title = title, tm_serverTime = pm_serverTime m\<rparr>
              else reduceOutcomePatch H cur m)
         | None \<Rightarrow>
             (if hasContract then
                reduceOutcomeContract H cur \<lparr>cm_expectedRevision = pm_expectedRevision m,
                  cm_objective = or_else (pm_objective m) (rc_objective cur),
                  cm_criteria = or_else (pm_criteria m) (rc_criteria cur),
                  cm_serverTime = pm_serverTime m\<rparr>
              else reduceOutcomePatch H cur m))"

section \<open>Links\<close>

record OutcomeLinkMutation =
  lm_expectedRevision :: int
  lm_criterionId :: string
  lm_ref :: WorkboardRef
  lm_serverTime :: js_number

record OutcomeUnlinkMutation =
  um_expectedRevision :: int
  um_criterionId :: string
  um_cardId :: string
  um_serverTime :: js_number

definition reduceWorkboardRefContract ::
  "(string \<Rightarrow> string) \<Rightarrow> OutcomeRecord \<Rightarrow> int \<Rightarrow> js_number \<Rightarrow> Criterion list \<Rightarrow> outcome_decision" where
  "reduceWorkboardRefContract H cur expectedRevision serverTime criteria =
     reduceOutcomeContract H cur \<lparr>cm_expectedRevision = expectedRevision,
       cm_objective = rc_objective cur, cm_criteria = criteria, cm_serverTime = serverTime\<rparr>"

definition reduceOutcomeLink ::
  "(string \<Rightarrow> string) \<Rightarrow> OutcomeRecord \<Rightarrow> OutcomeLinkMutation \<Rightarrow> outcome_decision" where
  "reduceOutcomeLink H cur m =
     (case assertOutcomeServerTime (lm_serverTime m) of Inl e \<Rightarrow> Inl e | Inr now \<Rightarrow>
      if lm_expectedRevision m \<noteq> rc_revision cur then Inr (Conflict cur)
      else if rc_phase cur = Cancelled \<or> hasInFlightOperation cur then Inr (Rejected cur None)
      else case find (\<lambda>c. cr_id c = lm_criterionId m) (rc_criteria cur) of
        None \<Rightarrow> Inr (Rejected cur None)
      | Some criterion \<Rightarrow>
          let refIdentity = workRefIdentity (lm_ref m)
          in if list_ex (\<lambda>r. workRefIdentity r = refIdentity) (cr_workRefs criterion)
               then Inr (Noop cur)
             else if OUTCOME_MAX_WORK_REFS_PER_CRITERION \<le> length (cr_workRefs criterion)
               then Inr (Rejected cur None)
             else
               let existingRefs = remdups (linked_identities (rc_criteria cur))
               in if refIdentity \<notin> set existingRefs \<and>
                     OUTCOME_MAX_DISTINCT_WORK_REFS \<le> length existingRefs
                    then Inr (Rejected cur None)
                  else reduceWorkboardRefContract H cur (lm_expectedRevision m) (lm_serverTime m)
                    (map (\<lambda>c. if cr_id c = lm_criterionId m
                       then c\<lparr>cr_workRefs := cr_workRefs c @ [lm_ref m]\<rparr> else c)
                      (rc_criteria cur)))"

definition reduceOutcomeUnlink ::
  "(string \<Rightarrow> string) \<Rightarrow> OutcomeRecord \<Rightarrow> OutcomeUnlinkMutation \<Rightarrow> outcome_decision" where
  "reduceOutcomeUnlink H cur m =
     (case assertOutcomeServerTime (um_serverTime m) of Inl e \<Rightarrow> Inl e | Inr now \<Rightarrow>
      if um_expectedRevision m \<noteq> rc_revision cur then Inr (Conflict cur)
      else if rc_phase cur = Cancelled \<or> hasInFlightOperation cur then Inr (Rejected cur None)
      else case find (\<lambda>c. cr_id c = um_criterionId m) (rc_criteria cur) of
        None \<Rightarrow> Inr (Rejected cur None)
      | Some criterion \<Rightarrow>
          if 1 < length (filter (\<lambda>r. ref_cardId r = um_cardId m) (cr_workRefs criterion))
            then Inr (Rejected cur None)
          else
            let workRefs = filter (\<lambda>r. ref_cardId r \<noteq> um_cardId m) (cr_workRefs criterion)
            in if length workRefs = length (cr_workRefs criterion) then Inr (Noop cur)
               else reduceWorkboardRefContract H cur (um_expectedRevision m) (um_serverTime m)
                 (map (\<lambda>c. if cr_id c = um_criterionId m then c\<lparr>cr_workRefs := workRefs\<rparr> else c)
                   (rc_criteria cur)))"

section \<open>Refresh and cancellation\<close>

record OutcomeRefreshMutation =
  rm_expectedRevision :: int
  rm_projections :: "WorkProjection list"
  rm_evidence :: "EvidenceRef list"
  rm_serverTime :: js_number

text \<open>\<open>{...previous, ...projection, proofs: previous.proofs, ...}\<close>\<close>

definition or_prev :: "'a option \<Rightarrow> 'a option \<Rightarrow> 'a option" where
  "or_prev x prev = (case x of None \<Rightarrow> prev | Some v \<Rightarrow> Some v)"

definition merge_projection :: "WorkProjection \<Rightarrow> WorkProjection \<Rightarrow> WorkProjection" where
  "merge_projection previous p =
     \<lparr>pj_ref = pj_ref p, pj_availability = pj_availability p, pj_observedAt = pj_observedAt p,
      pj_proofs = pj_proofs previous, pj_artifacts = pj_artifacts previous,
      pj_currentBoardId = or_prev (pj_currentBoardId p) (pj_currentBoardId previous),
      pj_status = or_prev (pj_status p) (pj_status previous),
      pj_lastSuccessfulAt = or_prev (pj_lastSuccessfulAt p) (pj_lastSuccessfulAt previous),
      pj_sourceUpdatedAt = or_prev (pj_sourceUpdatedAt p) (pj_sourceUpdatedAt previous),
      pj_upstreamStale = or_prev (pj_upstreamStale p) (pj_upstreamStale previous),
      pj_sourceFingerprint = None,
      pj_errorCode = or_prev (pj_errorCode p) (pj_errorCode previous)\<rparr>"

definition cached_projection ::
  "(string, WorkProjection) jsmap \<Rightarrow> WorkProjection \<Rightarrow> WorkProjection" where
  "cached_projection previousProjections p =
     (case jm_get previousProjections (workRefIdentity (pj_ref p)) of
        None \<Rightarrow> p
      | Some previous \<Rightarrow>
          if pj_availability p = Available then p else merge_projection previous p)"

definition merged_evidence :: "EvidenceRef list \<Rightarrow> EvidenceRef list \<Rightarrow> EvidenceRef list" where
  "merged_evidence existing new =
     sort_key ev_id (jm_values
       (jm_set_all (map (\<lambda>e. (ev_id e, e)) new) (jm_of (map (\<lambda>e. (ev_id e, e)) existing))))"

definition reduceOutcomeRefresh ::
  "OutcomeRecord \<Rightarrow> OutcomeRefreshMutation \<Rightarrow> outcome_decision" where
  "reduceOutcomeRefresh cur m =
     (case assertOutcomeServerTime (rm_serverTime m) of Inl e \<Rightarrow> Inl e | Inr now \<Rightarrow>
      if rm_expectedRevision m \<noteq> rc_revision cur then Inr (Conflict cur)
      else if rc_phase cur = Cancelled then Inr (Rejected cur None)
      else
        let linked = remdups (linked_identities (rc_criteria cur));
            projected = map (\<lambda>p. workRefIdentity (pj_ref p)) (rm_projections m)
        in if length (remdups projected) \<noteq> length projected \<or>
              length (remdups projected) \<noteq> length linked \<or>
              list_ex (\<lambda>i. i \<notin> set projected) linked
             then Inr (Rejected cur None)
           else if length (remdups (map ev_id (rm_evidence m))) \<noteq> length (rm_evidence m) \<or>
              list_ex (\<lambda>e. ev_planGeneration e \<noteq> rc_planGeneration cur \<or>
                workRefIdentity (ev_workRef e) \<notin> set linked) (rm_evidence m)
             then Inr (Rejected cur None)
           else
             let evidence = merged_evidence (rc_evidence cur) (rm_evidence m)
             in if 100 < length evidence then Inr (Rejected cur (Some CapacityExceeded))
                else
                  let previousProjections =
                        jm_of (map (\<lambda>p. (workRefIdentity (pj_ref p), p)) (rc_projections cur))
                  in Inr (Updated (cur\<lparr>
                       rc_projections := sort_key (\<lambda>p. ref_order (pj_ref p))
                         (map (cached_projection previousProjections) (rm_projections m)),
                       rc_evidence := evidence, rc_revision := rc_revision cur + 1,
                       rc_updatedAt := now\<rparr>)))"

definition reduceOutcomeCancel :: "OutcomeRecord \<Rightarrow> int \<Rightarrow> js_number \<Rightarrow> outcome_decision" where
  "reduceOutcomeCancel cur expectedRevision serverTime =
     (case assertOutcomeServerTime serverTime of Inl e \<Rightarrow> Inl e | Inr now \<Rightarrow>
      if expectedRevision \<noteq> rc_revision cur then Inr (Conflict cur)
      else if rc_phase cur = Accepted \<or> rc_phase cur = Cancelled then Inr (Rejected cur None)
      else if hasInFlightOperation cur then Inr (Rejected cur None)
      else Inr (Updated (cur\<lparr>rc_phase := Cancelled, rc_revision := rc_revision cur + 1,
             rc_updatedAt := now\<rparr>)))"

section \<open>What an update looks like\<close>

lemma assertOutcomeServerTime_Inr [simp]:
  "assertOutcomeServerTime t = Inr n \<longleftrightarrow> t = Finite n"
  by (cases t) (simp_all add: assertOutcomeServerTime_def)

lemma assertOutcomeServerTime_Finite [simp]: "assertOutcomeServerTime (Finite n) = Inr n"
  by simp

lemma canonicalCriteria_eq: "canonicalCriteria cs = canonical_criteria cs"
  by (simp add: canonicalCriteria_def canonical_criteria_map_sort)

lemma currentOutcomePlanSnapshot_eq: "currentOutcomePlanSnapshot r = record_plan r"
proof -
  have "map (\<lambda>x. \<lparr>ref_cardId = ref_cardId x, ref_cardCreatedAt = ref_cardCreatedAt x,
      ref_boardIdAtLink = ref_boardIdAtLink x\<rparr>) xs = xs" for xs :: "WorkboardRef list"
    by (simp add: map_idI)
  then show ?thesis
    by (simp add: currentOutcomePlanSnapshot_def record_plan_def map_idI)
qed

lemma reduceOutcomeContract_Updated:
  assumes "reduceOutcomeContract H cur m = Inr (Updated r')"
  obtains now h where "cm_serverTime m = Finite now" "rc_phase cur \<noteq> Cancelled"
    "cm_expectedRevision m = rc_revision cur" "\<not> hasInFlightOperation cur"
    "rc_objective cur \<noteq> cm_objective m \<or>
       canonical_criteria (rc_criteria cur) \<noteq> canonical_criteria (cm_criteria m)"
    "next_plan_hash H (rc_id cur) (cm_objective m) (rc_contractRevision cur + 1)
       (if rc_phase cur = Draft then 0 else rc_planGeneration cur + 1)
       (canonical_criteria (cm_criteria m)) = Inr h"
    "r' = cur\<lparr>rc_objective := cm_objective m, rc_criteria := canonical_criteria (cm_criteria m),
       rc_phase := (if rc_phase cur = Accepted then Active else rc_phase cur),
       rc_contractRevision := rc_contractRevision cur + 1,
       rc_planGeneration := (if rc_phase cur = Draft then 0 else rc_planGeneration cur + 1),
       rc_planHash := h, rc_revision := rc_revision cur + 1, rc_updatedAt := now\<rparr>"
  using assms
  by (auto simp: reduceOutcomeContract_def canonicalCriteria_eq Let_def
      split: sum.splits if_splits)

lemma reduceOutcomeActivate_Updated:
  assumes "reduceOutcomeActivate H cur expectedRevision t = Inr (Updated r')"
  obtains now h where "t = Finite now" "expectedRevision = rc_revision cur" "rc_phase cur = Draft"
    "\<not> hasInFlightOperation cur"
    "\<forall>c \<in> set (rc_criteria cur). cr_required c \<longrightarrow> cr_workRefs c \<noteq> []"
    "planHash H ((record_plan cur)\<lparr>pl_planGeneration := 1\<rparr>) = Inr h"
    "r' = cur\<lparr>rc_phase := Active, rc_planGeneration := 1, rc_planHash := Some h,
       rc_revision := rc_revision cur + 1, rc_updatedAt := now\<rparr>"
  using assms
  by (auto simp: reduceOutcomeActivate_def record_plan_def list_ex_iff
      split: sum.splits if_splits)

lemma reduceOutcomeTitle_Updated:
  assumes "reduceOutcomeTitle cur m = Inr (Updated r')"
  obtains now where "tm_serverTime m = Finite now" "rc_phase cur \<noteq> Cancelled"
    "tm_expectedRevision m = rc_revision cur" "rc_title cur \<noteq> tm_title m"
    "r' = cur\<lparr>rc_title := tm_title m, rc_revision := rc_revision cur + 1, rc_updatedAt := now\<rparr>"
  using assms by (auto simp: reduceOutcomeTitle_def split: sum.splits if_splits)

lemma reduceOutcomePatch_Updated:
  assumes "reduceOutcomePatch H cur m = Inr (Updated r')"
  obtains (title) now where "pm_serverTime m = Finite now" "rc_phase cur \<noteq> Cancelled"
    "pm_expectedRevision m = rc_revision cur" "\<not> hasInFlightOperation cur"
    "or_else (pm_objective m) (rc_objective cur) = rc_objective cur"
    "or_else (pm_criteria m) (rc_criteria cur) = rc_criteria cur"
    "r' = cur\<lparr>rc_title := or_else (pm_title m) (rc_title cur),
       rc_revision := rc_revision cur + 1, rc_updatedAt := now\<rparr>"
  | (contract) now h where "pm_serverTime m = Finite now" "rc_phase cur \<noteq> Cancelled"
    "pm_expectedRevision m = rc_revision cur" "\<not> hasInFlightOperation cur"
    "or_else (pm_objective m) (rc_objective cur) \<noteq> rc_objective cur \<or>
     or_else (pm_criteria m) (rc_criteria cur) \<noteq> rc_criteria cur"
    "next_plan_hash H (rc_id cur) (or_else (pm_objective m) (rc_objective cur))
       (rc_contractRevision cur + 1)
       (if rc_phase cur = Draft then 0 else rc_planGeneration cur + 1)
       (or_else (pm_criteria m) (rc_criteria cur)) = Inr h"
    "r' = cur\<lparr>rc_title := or_else (pm_title m) (rc_title cur),
       rc_objective := or_else (pm_objective m) (rc_objective cur),
       rc_criteria := or_else (pm_criteria m) (rc_criteria cur),
       rc_phase := (if rc_phase cur = Accepted then Active else rc_phase cur),
       rc_contractRevision := rc_contractRevision cur + 1,
       rc_planGeneration := (if rc_phase cur = Draft then 0 else rc_planGeneration cur + 1),
       rc_planHash := h, rc_revision := rc_revision cur + 1, rc_updatedAt := now\<rparr>"
  using assms
  by (auto simp: reduceOutcomePatch_def Let_def split: sum.splits if_splits)

lemma reduceOutcomeRefresh_Updated:
  assumes "reduceOutcomeRefresh cur m = Inr (Updated r')"
  obtains now where "rm_serverTime m = Finite now" "rm_expectedRevision m = rc_revision cur"
    "rc_phase cur \<noteq> Cancelled"
    "distinct (map (\<lambda>p. workRefIdentity (pj_ref p)) (rm_projections m))"
    "(\<lambda>p. workRefIdentity (pj_ref p)) ` set (rm_projections m)
       = set (linked_identities (rc_criteria cur))"
    "distinct (map ev_id (rm_evidence m))"
    "\<forall>e \<in> set (rm_evidence m). ev_planGeneration e = rc_planGeneration cur \<and>
       workRefIdentity (ev_workRef e) \<in> set (linked_identities (rc_criteria cur))"
    "length (merged_evidence (rc_evidence cur) (rm_evidence m)) \<le> 100"
    "r' = cur\<lparr>rc_projections := sort_key (\<lambda>p. ref_order (pj_ref p))
         (map (cached_projection
           (jm_of (map (\<lambda>p. (workRefIdentity (pj_ref p), p)) (rc_projections cur))))
           (rm_projections m)),
       rc_evidence := merged_evidence (rc_evidence cur) (rm_evidence m),
       rc_revision := rc_revision cur + 1, rc_updatedAt := now\<rparr>"
proof -
  let ?ids = "map (\<lambda>p. workRefIdentity (pj_ref p)) (rm_projections m)"
  let ?linked = "linked_identities (rc_criteria cur)"
  have same: "set ?ids = set ?linked"
    if "distinct ?ids" "length (remdups ?ids) = length (remdups ?linked)" "set ?linked \<subseteq> set ?ids"
  proof -
    have "card (set ?ids) = card (set ?linked)"
      using that(2) by (simp only: length_remdups_card_conv)
    with that(3) show ?thesis
      by (metis card_subset_eq finite_set)
  qed
  obtain now where eqs: "rm_serverTime m = Finite now" "rm_expectedRevision m = rc_revision cur"
    "rc_phase cur \<noteq> Cancelled"
    and lens: "length (remdups ?ids) = length ?ids" "length (remdups ?ids) = length (remdups ?linked)"
    and sub: "set ?linked \<subseteq> set ?ids"
    and ev: "length (remdups (map ev_id (rm_evidence m))) = length (map ev_id (rm_evidence m))"
      "\<forall>e \<in> set (rm_evidence m). ev_planGeneration e = rc_planGeneration cur \<and>
         workRefIdentity (ev_workRef e) \<in> set ?linked"
      "length (merged_evidence (rc_evidence cur) (rm_evidence m)) \<le> 100"
    and r': "r' = cur\<lparr>rc_projections := sort_key (\<lambda>p. ref_order (pj_ref p))
         (map (cached_projection
           (jm_of (map (\<lambda>p. (workRefIdentity (pj_ref p), p)) (rc_projections cur))))
           (rm_projections m)),
       rc_evidence := merged_evidence (rc_evidence cur) (rm_evidence m),
       rc_revision := rc_revision cur + 1, rc_updatedAt := now\<rparr>"
    using assms
    by (auto simp: reduceOutcomeRefresh_def Let_def list_ex_iff distinct_remdups_id
        split: sum.splits if_splits)
  have d: "distinct ?ids"
    using lens(1) by (simp only: length_remdups_eq_distinct)
  have "(\<lambda>p. workRefIdentity (pj_ref p)) ` set (rm_projections m) = set ?linked"
    using same [OF d lens(2) sub] by simp
  moreover have "distinct (map ev_id (rm_evidence m))"
    using ev(1) by (simp only: length_remdups_eq_distinct)
  ultimately show thesis
    using that [OF eqs d _ _ ev(2,3) r'] by blast
qed

lemma reduceOutcomeCancel_Updated:
  assumes "reduceOutcomeCancel cur expectedRevision t = Inr (Updated r')"
  obtains now where "t = Finite now" "expectedRevision = rc_revision cur"
    "rc_phase cur = Draft \<or> rc_phase cur = Active" "\<not> hasInFlightOperation cur"
    "r' = cur\<lparr>rc_phase := Cancelled, rc_revision := rc_revision cur + 1, rc_updatedAt := now\<rparr>"
  using assms
  by (cases "rc_phase cur") (auto simp: reduceOutcomeCancel_def split: sum.splits if_splits)

section \<open>Every update keeps the stored contract\<close>

text \<open>
  \<open>digest("hex")\<close> of SHA-256 is 64 lower-case hexadecimal characters; this is all the
  model relies on. The revision is bounded below the last safe integer, where JavaScript's
  \<open>+ 1\<close> is exact.
\<close>

definition hex_hash :: "(string \<Rightarrow> string) \<Rightarrow> bool" where
  "hex_hash H \<longleftrightarrow> (\<forall>s. hex64 (H s))"

lemma hex_hash_plan [simp]: "hex_hash H \<Longrightarrow> hex64 (hashValidatedCanonicalPlan H p)"
  by (simp add: hex_hash_def hashValidatedCanonicalPlan_def)

lemma hex64_min1: "hex64 s \<Longrightarrow> min1 s"
  by (auto simp: hex64_def min1_def)

lemma next_plan_hash_Inr:
  "next_plan_hash H i obj cr g cs = Inr h \<longleftrightarrow>
     (if g = 0 then h = None
      else safePlanHash H \<lparr>pl_outcomeId = i, pl_objective = obj, pl_contractRevision = cr,
             pl_planGeneration = g, pl_criteria = cs\<rparr> = h \<and> h \<noteq> None)"
  by (auto simp: next_plan_hash_def safePlanHash_def split: sum.splits)

lemma valid_phase_planned:
  "valid_phase H r \<Longrightarrow> rc_phase r = Active \<or> rc_phase r = Accepted \<Longrightarrow>
     1 \<le> rc_planGeneration r \<and> valid_plan (record_plan r) \<and>
     rc_planHash r = Some (hashValidatedCanonicalPlan H (record_plan r))"
  by (cases "rc_planHash r"; cases "rc_phase r")
     (auto simp: valid_phase_def safePlanHash_Some dest!: sym [of "Some _" "safePlanHash _ _"])

text \<open>One contract step: a new objective and criteria, a new generation, everything else kept.\<close>

lemma valid_record_recontract:
  assumes valid: "valid_record H r" and hex: "hex_hash H"
    and phase: "rc_phase r \<noteq> Cancelled" and rev: "rc_revision r < MAX_SAFE_INTEGER"
    and title: "codePointText 160 t" and obj: "codePointText 4000 obj" and cs: "valid_criteria cs"
    and h: "next_plan_hash H (rc_id r) obj (rc_contractRevision r + 1)
       (if rc_phase r = Draft then 0 else rc_planGeneration r + 1) cs = Inr h"
  shows "valid_record H (r\<lparr>rc_title := t, rc_objective := obj, rc_criteria := cs,
       rc_phase := (if rc_phase r = Accepted then Active else rc_phase r),
       rc_contractRevision := rc_contractRevision r + 1,
       rc_planGeneration := (if rc_phase r = Draft then 0 else rc_planGeneration r + 1),
       rc_planHash := h, rc_revision := rc_revision r + 1, rc_updatedAt := now\<rparr>)"
    (is "valid_record H ?r'")
proof -
  have hdr: "valid_header r" and mem: "valid_members H r" and ph: "valid_phase H r"
    and hist: "valid_history H r"
    using valid by (simp_all add: valid_record_def)
  have gen: "rc_phase r \<noteq> Draft \<Longrightarrow> 1 \<le> rc_planGeneration r"
    using valid_phase_planned [OF ph] phase by (cases "rc_phase r") auto
  have plan: "valid_plan (record_plan ?r') \<and> h = Some (hashValidatedCanonicalPlan H (record_plan ?r'))"
    if "rc_phase r \<noteq> Draft"
    using h gen [OF that] that
    by (auto simp: next_plan_hash_Inr record_plan_def safePlanHash_Some split: if_splits)
  have none: "h = None" if "rc_phase r = Draft"
    using h that by (simp add: next_plan_hash_Inr)
  have "valid_header ?r'"
  proof (cases "rc_phase r = Draft")
    case True
    with hdr title obj rev none show ?thesis
      by (auto simp: valid_header_def positive_int_def nonneg_int_def opt_ok_def)
  next
    case False
    with hdr title obj rev hex plan [OF False] show ?thesis
      by (auto simp: valid_header_def positive_int_def nonneg_int_def opt_ok_def valid_plan_def
          record_plan_def)
  qed
  moreover have "valid_members H ?r'"
    using mem by (simp add: valid_members_def)
  moreover have "valid_phase H ?r'"
  proof (cases "rc_phase r = Draft")
    case True
    with none show ?thesis by (simp add: valid_phase_def)
  next
    case False
    with phase have "rc_phase ?r' = Active"
      by (cases "rc_phase r") simp_all
    with False gen [OF False] plan [OF False] show ?thesis
      by (auto simp: valid_phase_def safePlanHash_def planHash_def)
  qed
  moreover have "valid_history H ?r'"
    using hist by (fastforce simp: valid_history_def list_all_iff)
  ultimately show ?thesis
    using cs by (simp add: valid_record_def)
qed

lemma valid_record_touch:
  assumes "valid_record H r" "rc_revision r < MAX_SAFE_INTEGER" "codePointText 160 t"
  shows "valid_record H (r\<lparr>rc_title := t, rc_revision := rc_revision r + 1, rc_updatedAt := now\<rparr>)"
  using assms
  by (fastforce simp: valid_record_def valid_header_def valid_members_def valid_phase_def
      valid_history_def record_plan_def positive_int_def list_all_iff split: phase.splits)

lemma valid_record_title: "valid_record H r \<Longrightarrow> codePointText 160 (rc_title r)"
  by (simp add: valid_record_def valid_header_def)

lemma valid_record_objective: "valid_record H r \<Longrightarrow> codePointText 4000 (rc_objective r)"
  by (simp add: valid_record_def valid_header_def)

lemma valid_record_criteria: "valid_record H r \<Longrightarrow> valid_criteria (rc_criteria r)"
  by (simp add: valid_record_def)

lemma valid_record_contract:
  assumes "valid_record H cur" "hex_hash H" "rc_revision cur < MAX_SAFE_INTEGER"
    "codePointText 4000 (cm_objective m)" "valid_criteria (cm_criteria m)"
    "reduceOutcomeContract H cur m = Inr (Updated r')"
  shows "valid_record H r'"
  using assms(6)
proof (cases rule: reduceOutcomeContract_Updated)
  case (1 now h)
  have "cur\<lparr>rc_title := rc_title cur\<rparr> = cur" by simp
  moreover note valid_record_recontract
    [OF assms(1,2) 1(2) assms(3) valid_record_title [OF assms(1)] assms(4) _ 1(6), of now]
  ultimately show ?thesis
    using 1(7) assms(5) by simp
qed

lemma valid_record_patch:
  assumes "valid_record H cur" "hex_hash H" "rc_revision cur < MAX_SAFE_INTEGER"
    "opt_ok (codePointText 160) (pm_title m)" "opt_ok (codePointText 4000) (pm_objective m)"
    "opt_ok valid_criteria (pm_criteria m)"
    "reduceOutcomePatch H cur m = Inr (Updated r')"
  shows "valid_record H r'"
proof -
  have t: "codePointText 160 (or_else (pm_title m) (rc_title cur))"
    using assms(4) valid_record_title [OF assms(1)]
    by (simp add: or_else_def opt_ok_def split: option.splits)
  have obj: "codePointText 4000 (or_else (pm_objective m) (rc_objective cur))"
    using assms(5) valid_record_objective [OF assms(1)]
    by (simp add: or_else_def opt_ok_def split: option.splits)
  have cs: "valid_criteria (or_else (pm_criteria m) (rc_criteria cur))"
    using assms(6) valid_record_criteria [OF assms(1)]
    by (simp add: or_else_def opt_ok_def split: option.splits)
  show ?thesis
    using assms(7)
  proof (cases rule: reduceOutcomePatch_Updated)
    case (title now)
    then show ?thesis using valid_record_touch [OF assms(1,3) t] by simp
  next
    case (contract now h)
    from valid_record_recontract [OF assms(1,2) contract(2) assms(3) t obj cs contract(6), of now]
    show ?thesis using contract(7) by simp
  qed
qed

lemma valid_record_activate:
  assumes "valid_record H cur" "hex_hash H" "rc_revision cur < MAX_SAFE_INTEGER"
    "reduceOutcomeActivate H cur e t = Inr (Updated r')"
  shows "valid_record H r'"
  using assms(4)
proof (cases rule: reduceOutcomeActivate_Updated)
  case (1 now h)
  have plan: "record_plan r' = (record_plan cur)\<lparr>pl_planGeneration := 1\<rparr>"
    using 1(7) by (simp add: record_plan_def)
  with 1(6) have "safePlanHash H (record_plan r') = Some h" "hex64 h"
    using assms(2) planHash_safe [OF 1(6)] by (auto simp: planHash_Inr)
  with 1(7) assms(1,3) plan show ?thesis
    by (fastforce simp: valid_record_def valid_header_def valid_members_def valid_phase_def
        valid_history_def positive_int_def nonneg_int_def opt_ok_def MAX_SAFE_INTEGER_def
        list_all_iff)
qed

lemma valid_record_cancel:
  assumes "valid_record H cur" "rc_revision cur < MAX_SAFE_INTEGER"
    "reduceOutcomeCancel cur e t = Inr (Updated r')"
  shows "valid_record H r'"
  using assms(3)
proof (cases rule: reduceOutcomeCancel_Updated)
  case (1 now)
  have plan: "record_plan r' = record_plan cur"
    using 1(5) by (simp add: record_plan_def)
  have "valid_phase H cur"
    using assms(1) by (simp add: valid_record_def)
  with 1(3,5) plan have "valid_phase H r'"
    by (auto simp: valid_phase_def)
  with 1(5) assms(1,2) show ?thesis
    by (fastforce simp: valid_record_def valid_header_def valid_members_def
        valid_history_def positive_int_def list_all_iff)
qed

lemma valid_record_retitle:
  assumes "valid_record H cur" "rc_revision cur < MAX_SAFE_INTEGER" "codePointText 160 (tm_title m)"
    "reduceOutcomeTitle cur m = Inr (Updated r')"
  shows "valid_record H r'"
  using assms(4)
proof (cases rule: reduceOutcomeTitle_Updated)
  case (1 now)
  then show ?thesis
    using valid_record_touch [OF assms(1-3)] by simp
qed

lemma reduceGatewayOutcomePatch_cases:
  obtains (title) t where "pm_title m = Some t"
    "reduceGatewayOutcomePatch H cur m = reduceOutcomeTitle cur
       \<lparr>tm_expectedRevision = pm_expectedRevision m, tm_title = t, tm_serverTime = pm_serverTime m\<rparr>"
  | (contract) "pm_title m = None"
    "reduceGatewayOutcomePatch H cur m = reduceOutcomeContract H cur
       \<lparr>cm_expectedRevision = pm_expectedRevision m,
        cm_objective = or_else (pm_objective m) (rc_objective cur),
        cm_criteria = or_else (pm_criteria m) (rc_criteria cur), cm_serverTime = pm_serverTime m\<rparr>"
  | (both) "reduceGatewayOutcomePatch H cur m = reduceOutcomePatch H cur m"
  unfolding reduceGatewayOutcomePatch_def Let_def
  by (cases "pm_title m"; cases "pm_objective m \<noteq> None \<or> pm_criteria m \<noteq> None")
     (simp_all only: option.case if_True if_False not_True_eq_False not_False_eq_True simp_thms)

lemma valid_record_gateway_patch:
  assumes valid: "valid_record H cur" and hex: "hex_hash H"
    and rev: "rc_revision cur < MAX_SAFE_INTEGER"
    and t: "opt_ok (codePointText 160) (pm_title m)"
    and obj: "opt_ok (codePointText 4000) (pm_objective m)"
    and cs: "opt_ok valid_criteria (pm_criteria m)"
    and upd: "reduceGatewayOutcomePatch H cur m = Inr (Updated r')"
  shows "valid_record H r'"
proof (cases rule: reduceGatewayOutcomePatch_cases [of m H cur])
  case (title t')
  have "reduceOutcomeTitle cur \<lparr>tm_expectedRevision = pm_expectedRevision m, tm_title = t',
      tm_serverTime = pm_serverTime m\<rparr> = Inr (Updated r')"
    using title upd by metis
  moreover have "codePointText 160 t'"
    using title t by (simp add: opt_ok_def)
  ultimately show ?thesis
    by (intro valid_record_retitle [OF valid rev]) simp_all
next
  case contract
  have "codePointText 4000 (or_else (pm_objective m) (rc_objective cur))"
    "valid_criteria (or_else (pm_criteria m) (rc_criteria cur))"
    using obj cs valid_record_objective [OF valid] valid_record_criteria [OF valid]
    by (simp_all add: or_else_def opt_ok_def split: option.splits)
  with valid_record_contract [OF valid hex rev _ _ trans [OF contract(2) [symmetric] upd]]
  show ?thesis by simp
next
  case both
  then show ?thesis
    using valid_record_patch [OF valid hex rev t obj cs] upd by metis
qed

section \<open>Links keep the rules of the criteria\<close>

lemma criterion_by_id:
  assumes "valid_criteria cs" "find (\<lambda>c. cr_id c = i) cs = Some c0" "c \<in> set cs" "cr_id c = i"
  shows "c = c0"
proof -
  have "c0 \<in> set cs" "cr_id c0 = i"
    using find_SomeD [OF assms(2)] by simp_all
  with assms show ?thesis
    by (auto simp: valid_criteria_iff distinct_map dest: inj_onD)
qed

text \<open>Replacing the refs of one criterion, when the new refs obey the rules.\<close>

lemma valid_criteria_replace_refs:
  assumes valid: "valid_criteria cs"
    and new: "\<And>c. c \<in> set cs \<Longrightarrow> cr_id c = i \<Longrightarrow> list_all valid_ref (g c) \<and>
      distinct (map workRefIdentity (g c)) \<and> length (g c) \<le> 10"
    and total: "card (set (linked_identities
      (map (\<lambda>c. if cr_id c = i then c\<lparr>cr_workRefs := g c\<rparr> else c) cs))) \<le> 20"
  shows "valid_criteria (map (\<lambda>c. if cr_id c = i then c\<lparr>cr_workRefs := g c\<rparr> else c) cs)"
proof -
  define f where "f c = (if cr_id c = i then c\<lparr>cr_workRefs := g c\<rparr> else c)" for c
  have ids: "map cr_id (map f cs) = map cr_id cs"
    by (simp add: f_def)
  have req: "cr_required (f c) = cr_required c" for c
    by (simp add: f_def)
  have ok: "valid_criterion (f c) \<and> distinct (map workRefIdentity (cr_workRefs (f c))) \<and>
      length (cr_workRefs (f c)) \<le> 10" if "c \<in> set cs" for c
    using valid that new by (auto simp: f_def valid_criteria_iff valid_criterion_def)
  have "\<exists>c \<in> set (map f cs). cr_required c"
    using valid req by (auto simp: valid_criteria_iff)
  moreover have "map f cs \<noteq> []" "length (map f cs) \<le> 5" "distinct (map cr_id (map f cs))"
    using valid unfolding ids by (simp_all add: valid_criteria_iff)
  moreover have "card (set (linked_identities (map f cs))) \<le> 20"
    using total by (simp add: f_def [abs_def])
  ultimately have "valid_criteria (map f cs)"
    using ok unfolding valid_criteria_iff by auto
  then show ?thesis
    by (simp add: f_def [abs_def])
qed

lemma linked_identities_replace:
  "set (linked_identities (map (\<lambda>c. if cr_id c = i then c\<lparr>cr_workRefs := g c\<rparr> else c) cs))
     \<subseteq> set (linked_identities cs) \<union>
       (\<Union>c \<in> {c \<in> set cs. cr_id c = i}. workRefIdentity ` set (g c))"
  by (auto simp: linked_identities_set split: if_splits)

lemma valid_criteria_add_ref:
  assumes valid: "valid_criteria cs" and ref: "valid_ref x"
    and found: "find (\<lambda>c. cr_id c = i) cs = Some c0"
    and fresh: "workRefIdentity x \<notin> workRefIdentity ` set (cr_workRefs c0)"
    and room: "length (cr_workRefs c0) < 10"
    and total: "workRefIdentity x \<in> set (linked_identities cs) \<or>
      card (set (linked_identities cs)) < 20"
  shows "valid_criteria
    (map (\<lambda>c. if cr_id c = i then c\<lparr>cr_workRefs := cr_workRefs c @ [x]\<rparr> else c) cs)"
proof (rule valid_criteria_replace_refs [OF valid])
  fix c assume c: "c \<in> set cs" "cr_id c = i"
  then have "c = c0"
    using criterion_by_id [OF valid found] by blast
  with c valid ref fresh room
  show "list_all valid_ref (cr_workRefs c @ [x]) \<and>
      distinct (map workRefIdentity (cr_workRefs c @ [x])) \<and> length (cr_workRefs c @ [x]) \<le> 10"
    by (auto simp: valid_criteria_iff valid_criterion_def)
next
  let ?new = "map (\<lambda>c. if cr_id c = i then c\<lparr>cr_workRefs := cr_workRefs c @ [x]\<rparr> else c) cs"
  have "set (linked_identities ?new) \<subseteq> insert (workRefIdentity x) (set (linked_identities cs))"
    using linked_identities_replace [of i "\<lambda>c. cr_workRefs c @ [x]" cs]
    by (auto simp: linked_identities_set)
  then have "card (set (linked_identities ?new))
      \<le> card (insert (workRefIdentity x) (set (linked_identities cs)))"
    by (intro card_mono) simp_all
  also have "\<dots> \<le> 20"
    using total valid by (auto simp: valid_criteria_iff card_insert_if)
  finally show "card (set (linked_identities ?new)) \<le> 20" .
qed

lemma valid_criteria_filter_refs:
  assumes valid: "valid_criteria cs" and found: "find (\<lambda>c. cr_id c = i) cs = Some c0"
  shows "valid_criteria
    (map (\<lambda>c. if cr_id c = i then c\<lparr>cr_workRefs := filter P (cr_workRefs c0)\<rparr> else c) cs)"
proof (rule valid_criteria_replace_refs [OF valid])
  fix c assume c: "c \<in> set cs" "cr_id c = i"
  then have "c = c0"
    using criterion_by_id [OF valid found] by blast
  with c valid have "list_all valid_ref (cr_workRefs c0)"
    "distinct (map workRefIdentity (cr_workRefs c0))" "length (cr_workRefs c0) \<le> 10"
    by (simp_all add: valid_criteria_iff valid_criterion_def)
  then show "list_all valid_ref (filter P (cr_workRefs c0)) \<and>
      distinct (map workRefIdentity (filter P (cr_workRefs c0))) \<and>
      length (filter P (cr_workRefs c0)) \<le> 10"
    by (simp add: list_all_iff distinct_map_filter order_trans [OF length_filter_le])
next
  let ?new = "map (\<lambda>c. if cr_id c = i then c\<lparr>cr_workRefs := filter P (cr_workRefs c0)\<rparr> else c) cs"
  have "workRefIdentity ` set (filter P (cr_workRefs c0)) \<subseteq> set (linked_identities cs)"
    using find_SomeD [OF found] unfolding linked_identities_set by auto
  then have "set (linked_identities ?new) \<subseteq> set (linked_identities cs)"
    by (intro subset_trans [OF linked_identities_replace] Un_least UN_least) simp_all
  then have "card (set (linked_identities ?new)) \<le> card (set (linked_identities cs))"
    by (intro card_mono) simp_all
  with valid show "card (set (linked_identities ?new)) \<le> 20"
    by (simp add: valid_criteria_iff)
qed

lemma reduceOutcomeLink_Updated:
  assumes "reduceOutcomeLink H cur m = Inr (Updated r')"
  obtains c0 where "find (\<lambda>c. cr_id c = lm_criterionId m) (rc_criteria cur) = Some c0"
    "workRefIdentity (lm_ref m) \<notin> workRefIdentity ` set (cr_workRefs c0)"
    "length (cr_workRefs c0) < 10"
    "workRefIdentity (lm_ref m) \<in> set (linked_identities (rc_criteria cur)) \<or>
       card (set (linked_identities (rc_criteria cur))) < 20"
    "reduceOutcomeContract H cur \<lparr>cm_expectedRevision = lm_expectedRevision m,
       cm_objective = rc_objective cur,
       cm_criteria = map (\<lambda>c. if cr_id c = lm_criterionId m
         then c\<lparr>cr_workRefs := cr_workRefs c @ [lm_ref m]\<rparr> else c) (rc_criteria cur),
       cm_serverTime = lm_serverTime m\<rparr> = Inr (Updated r')"
  using assms
  by (auto simp: reduceOutcomeLink_def reduceWorkboardRefContract_def Let_def list_ex_iff
      outcome_limits length_remdups_card_conv not_le image_iff
      split: sum.splits if_splits option.splits intro!: that)

lemma reduceOutcomeUnlink_Updated:
  assumes "reduceOutcomeUnlink H cur m = Inr (Updated r')"
  obtains c0 where "find (\<lambda>c. cr_id c = um_criterionId m) (rc_criteria cur) = Some c0"
    "length (filter (\<lambda>r. ref_cardId r = um_cardId m) (cr_workRefs c0)) = 1"
    "reduceOutcomeContract H cur \<lparr>cm_expectedRevision = um_expectedRevision m,
       cm_objective = rc_objective cur,
       cm_criteria = map (\<lambda>c. if cr_id c = um_criterionId m
         then c\<lparr>cr_workRefs := filter (\<lambda>r. ref_cardId r \<noteq> um_cardId m) (cr_workRefs c0)\<rparr> else c)
         (rc_criteria cur),
       cm_serverTime = um_serverTime m\<rparr> = Inr (Updated r')"
proof -
  have one: "length (filter P xs) = 1"
    if "\<not> 1 < length (filter P xs)" "length (filter (\<lambda>x. \<not> P x) xs) \<noteq> length xs"
    for P :: "WorkboardRef \<Rightarrow> bool" and xs
    using that sum_length_filter_compl [of P xs] by linarith
  show thesis
    using assms
    by (auto simp: reduceOutcomeUnlink_def reduceWorkboardRefContract_def Let_def
        split: sum.splits if_splits option.splits intro!: that one)
qed

lemma valid_record_link:
  assumes "valid_record H cur" "hex_hash H" "rc_revision cur < MAX_SAFE_INTEGER"
    "valid_ref (lm_ref m)" "reduceOutcomeLink H cur m = Inr (Updated r')"
  shows "valid_record H r'"
  using assms(5)
proof (cases rule: reduceOutcomeLink_Updated)
  case (1 c0)
  from valid_criteria_add_ref [OF valid_record_criteria [OF assms(1)] assms(4) 1(1-4)]
    valid_record_contract [OF assms(1-3) _ _ 1(5)] valid_record_objective [OF assms(1)]
  show ?thesis by simp
qed

lemma valid_record_unlink:
  assumes "valid_record H cur" "hex_hash H" "rc_revision cur < MAX_SAFE_INTEGER"
    "reduceOutcomeUnlink H cur m = Inr (Updated r')"
  shows "valid_record H r'"
  using assms(4)
proof (cases rule: reduceOutcomeUnlink_Updated)
  case (1 c0)
  from valid_criteria_filter_refs [OF valid_record_criteria [OF assms(1)] 1(1)]
    valid_record_contract [OF assms(1-3) _ _ 1(3)] valid_record_objective [OF assms(1)]
  show ?thesis by simp
qed

section \<open>A refresh keeps projections and evidence well-formed\<close>

lemma merged_evidence_subset: "set (merged_evidence old new) \<subseteq> set old \<union> set new"
  using jm_set_all_subset [of "map (\<lambda>e. (ev_id e, e)) new" "jm_of (map (\<lambda>e. (ev_id e, e)) old)"]
    jm_of_subset [of "map (\<lambda>e. (ev_id e, e)) old"]
  by (fastforce simp: merged_evidence_def jm_values_def)

lemma merged_evidence_map_keyed:
  "jm_keyed ev_id (jm_set_all (map (\<lambda>e. (ev_id e, e)) new) (jm_of (map (\<lambda>e. (ev_id e, e)) old)))"
  by (simp add: jm_keyed_set_all)

lemma merged_evidence_distinct: "distinct (map ev_id (merged_evidence old new))"
  unfolding merged_evidence_def distinct_map_sort_key
  by (rule jm_keyed_distinct [OF merged_evidence_map_keyed]) simp

lemma merged_evidence_lookup:
  "e \<in> set (merged_evidence old new) \<longleftrightarrow>
     (map_of (rev (map (\<lambda>e. (ev_id e, e)) old)) ++ map_of (rev (map (\<lambda>e. (ev_id e, e)) new)))
       (ev_id e) = Some e"
proof -
  let ?m = "jm_set_all (map (\<lambda>e. (ev_id e, e)) new) (jm_of (map (\<lambda>e. (ev_id e, e)) old))"
  have "e \<in> set (merged_evidence old new) \<longleftrightarrow> (ev_id e, e) \<in> set ?m"
    using merged_evidence_map_keyed [of new old]
    by (force simp: merged_evidence_def jm_values_def jm_keyed_def)
  also have "\<dots> \<longleftrightarrow> jm_get ?m (ev_id e) = Some e"
    by (rule jm_ok_get) simp
  finally show ?thesis
    by (simp add: jm_get_set_all jm_get_of)
qed

lemma merged_evidence_new:
  assumes "distinct (map ev_id new)" "e \<in> set new"
  shows "e \<in> set (merged_evidence old new)"
proof -
  have "map_of (map (\<lambda>e. (ev_id e, e)) new) (ev_id e) = Some e"
    using assms by (intro map_of_is_SomeI) (auto simp: comp_def)
  moreover have "map_of (rev (map (\<lambda>e. (ev_id e, e)) new)) = map_of (map (\<lambda>e. (ev_id e, e)) new)"
    using assms(1) by (intro map_of_rev_distinct) (simp add: comp_def)
  ultimately show ?thesis
    by (simp add: merged_evidence_lookup map_add_def)
qed

lemma merged_evidence_ids:
  "ev_id ` set (merged_evidence old new) = ev_id ` set old \<union> ev_id ` set new"
proof -
  let ?m = "jm_set_all (map (\<lambda>e. (ev_id e, e)) new) (jm_of (map (\<lambda>e. (ev_id e, e)) old))"
  have "ev_id ` set (merged_evidence old new) = set (map ev_id (jm_values ?m))"
    by (simp add: merged_evidence_def)
  also have "\<dots> = fst ` set ?m"
    by (simp add: jm_keyed_values [OF merged_evidence_map_keyed])
  finally show ?thesis
    by (auto simp: jm_set_all_keys jm_of_keys image_image)
qed

lemma valid_merge_projection:
  assumes "valid_projection H previous" "valid_projection H p" "pj_availability p \<noteq> Available"
  shows "valid_projection H (merge_projection previous p)"
  using assms
  by (auto simp: valid_projection_def merge_projection_def or_prev_def opt_ok_def
      split: option.splits if_splits)

lemma valid_cached_projection:
  assumes "\<And>p. p \<in> set ps \<Longrightarrow> valid_projection H p" "valid_projection H p"
  shows "valid_projection H
    (cached_projection (jm_of (map (\<lambda>p. (workRefIdentity (pj_ref p), p)) ps)) p)"
proof -
  have "previous \<in> set ps"
    if "jm_get (jm_of (map (\<lambda>p. (workRefIdentity (pj_ref p), p)) ps)) k = Some previous"
    for k previous
    using jm_get_of_in_set [OF that] by auto
  with assms show ?thesis
    by (auto simp: cached_projection_def valid_merge_projection split: option.splits)
qed

lemma valid_record_refresh:
  assumes "valid_record H cur" "rc_revision cur < MAX_SAFE_INTEGER"
    "list_all (valid_projection H) (rm_projections m)" "list_all valid_evidence (rm_evidence m)"
    "reduceOutcomeRefresh cur m = Inr (Updated r')"
  shows "valid_record H r'"
  using assms(5)
proof (cases rule: reduceOutcomeRefresh_Updated)
  case (1 now)
  have "list_all (valid_projection H) (rc_projections r')"
    using assms(1,3) 1(9)
    by (auto simp: list_all_iff valid_record_def valid_members_def intro!: valid_cached_projection)
  moreover have "list_all valid_evidence (rc_evidence r')"
    using assms(1,4) 1(9) merged_evidence_subset [of "rc_evidence cur" "rm_evidence m"]
    by (auto simp: list_all_iff valid_record_def valid_members_def)
  moreover have "distinct (map ev_id (rc_evidence r'))" "length (rc_evidence r') \<le> 100"
    using 1(8,9) merged_evidence_distinct by simp_all
  ultimately have "valid_members H r'"
    using assms(1) 1(9) by (simp add: valid_record_def valid_members_def)
  moreover have "valid_header r' \<and> valid_criteria (rc_criteria r') \<and> valid_phase H r' \<and>
      valid_history H r'"
    using assms(1,2) 1(9)
    by (fastforce simp: valid_record_def valid_header_def valid_phase_def valid_history_def
        record_plan_def positive_int_def list_all_iff split: phase.splits)
  ultimately show ?thesis
    by (simp add: valid_record_def)
qed

end
