(* ===== verification/Outcome_Closure.thy ===== *)
theory Outcome_Closure
  imports Outcome_Reducer
begin

text \<open>
  The closure rule of an Outcome, \<open>src/assurance/closure.ts\<close>: which evidence is current,
  which decision stands, and when every required criterion is verified.

  A JavaScript comparison of criteria by object identity (\<open>item.criterion === criterion\<close>)
  pairs each criterion with its own entry; the model carries the pairs.
\<close>

definition isStaleOutcomeProjection :: "WorkProjection \<Rightarrow> int \<Rightarrow> bool" where
  "isStaleOutcomeProjection p observedAt \<longleftrightarrow>
     pj_upstreamStale p = Some True \<or>
     (case pj_lastSuccessfulAt p of None \<Rightarrow> True
      | Some t \<Rightarrow> OUTCOME_PROJECTION_MAX_AGE_MS \<le> observedAt - t)"

definition keep_newest ::
  "string list \<Rightarrow> WorkProjection \<Rightarrow> (string, WorkProjection) jsmap \<Rightarrow> (string, WorkProjection) jsmap"
where
  "keep_newest linked p newest =
     (let i = workRefIdentity (pj_ref p)
      in if i \<notin> set linked then newest
         else case jm_get newest i of
           None \<Rightarrow> jm_set i p newest
         | Some previous \<Rightarrow>
             if pj_observedAt previous < pj_observedAt p then jm_set i p newest else newest)"

definition currentOutcomeProjections :: "OutcomeRecord \<Rightarrow> WorkProjection list" where
  "currentOutcomeProjections r =
     jm_values (fold (keep_newest (linked_identities (rc_criteria r))) (rc_projections r) [])"

definition linked_refs :: "Criterion \<Rightarrow> (string, WorkboardRef) jsmap" where
  "linked_refs c = jm_of (map (\<lambda>r. (workRefIdentity r, r)) (cr_workRefs c))"

definition linked_projections ::
  "(string, WorkboardRef) jsmap \<Rightarrow> WorkProjection list \<Rightarrow> (string, WorkProjection) jsmap" where
  "linked_projections linked ps =
     jm_of (map (\<lambda>p. (workRefIdentity (pj_ref p), p))
       (filter (\<lambda>p. jm_get linked (workRefIdentity (pj_ref p)) \<noteq> None) ps))"

definition source_key :: "string \<Rightarrow> evidence_kind \<Rightarrow> string \<Rightarrow> string \<Rightarrow> string" where
  "source_key i k sourceId digest =
     i @ NUL # evidence_kind_str k @ NUL # sourceId @ NUL # digest"

definition projection_sources :: "WorkProjection \<Rightarrow> string list" where
  "projection_sources p =
     map (\<lambda>s. source_key (workRefIdentity (pj_ref p)) WorkboardProof (sp_sourceId s) (sp_digest s))
       (pj_proofs p) @
     map (\<lambda>s. source_key (workRefIdentity (pj_ref p)) WorkboardArtifact (sp_sourceId s) (sp_digest s))
       (pj_artifacts p)"

definition currentOutcomeEvidenceSourceDigests ::
  "OutcomeRecord \<Rightarrow> Criterion \<Rightarrow> WorkProjection list \<Rightarrow> int \<Rightarrow> string list option" where
  "currentOutcomeEvidenceSourceDigests r c projections observedAt =
     (let linked = linked_refs c
      in if length linked = 0 then None
         else
           let linkedProjections = linked_projections linked projections
           in if length linkedProjections \<noteq> length linked \<or>
                 list_ex (\<lambda>p. pj_availability p \<noteq> Available \<or> isStaleOutcomeProjection p observedAt)
                   (jm_values linkedProjections)
                then None
              else
                let sources = concat (map projection_sources (jm_values linkedProjections))
                in Some (map ev_sourceDigest (filter (\<lambda>e.
                     ev_planGeneration e = rc_planGeneration r \<and> ev_criterionId e = cr_id c \<and>
                     jm_get linked (workRefIdentity (ev_workRef e)) \<noteq> None \<and>
                     source_key (workRefIdentity (ev_workRef e)) (ev_kind e) (ev_sourceId e)
                       (ev_sourceDigest e) \<in> set sources) (rc_evidence r))))"

record CurrentDecision =
  cd_decision :: HumanDecision
  cd_sourceDigests :: "string list"

text \<open>\<open>toSorted((a, b) => b.decidedRevision - a.decidedRevision)[0]\<close>\<close>

definition selected_decision :: "OutcomeRecord \<Rightarrow> Criterion \<Rightarrow> HumanDecision option" where
  "selected_decision r c =
     (case sort_key (\<lambda>d. - de_decidedRevision d)
             (filter (\<lambda>d. de_criterionId d = cr_id c \<and> de_planGeneration d = rc_planGeneration r)
               (rc_decisions r)) of
        [] \<Rightarrow> None | d # _ \<Rightarrow> Some d)"

definition currentOutcomeDecision ::
  "(string \<Rightarrow> string) \<Rightarrow> OutcomeRecord \<Rightarrow> Criterion \<Rightarrow> WorkProjection list \<Rightarrow> int
    \<Rightarrow> CurrentDecision option" where
  "currentOutcomeDecision H r c projections observedAt =
     (case currentOutcomeEvidenceSourceDigests r c projections observedAt of None \<Rightarrow> None
      | Some sourceDigests \<Rightarrow>
          (case rc_planHash r of None \<Rightarrow> None
           | Some ph \<Rightarrow>
               let expected = evidenceSetHash H (cr_id c) (rc_planGeneration r) sourceDigests
               in case selected_decision r c of None \<Rightarrow> None
                  | Some d \<Rightarrow>
                      if de_planHash d \<noteq> ph \<or> de_evidenceSetHash d \<noteq> expected then None
                      else Some \<lparr>cd_decision = d, cd_sourceDigests = sourceDigests\<rparr>))"

section \<open>Request hashes\<close>

definition requestHash :: "(string \<Rightarrow> string) \<Rightarrow> string \<Rightarrow> json \<Rightarrow> string" where
  "requestHash H domain v = H (hash_text domain v)"

definition outcomeDecisionRequestHash ::
  "(string \<Rightarrow> string) \<Rightarrow> string \<Rightarrow> string \<Rightarrow> string \<Rightarrow> decision_status \<Rightarrow> string \<Rightarrow> string
    \<Rightarrow> string option \<Rightarrow> string" where
  "outcomeDecisionRequestHash H i decisionId criterionId status ph esh note =
     requestHash H ''openclaw:outcome-decision:v1'' (JObj (
       [(''id'', JStr i), (''decisionId'', JStr decisionId), (''criterionId'', JStr criterionId),
        (''status'', JStr (decision_status_str status)), (''planHash'', JStr ph),
        (''evidenceSetHash'', JStr esh)] @ opt_field ''note'' JStr note))"

definition outcomeAcceptanceRequestHash ::
  "(string \<Rightarrow> string) \<Rightarrow> string \<Rightarrow> string \<Rightarrow> string \<Rightarrow> string \<Rightarrow> string" where
  "outcomeAcceptanceRequestHash H i acceptanceId ph closureHash =
     requestHash H ''openclaw:outcome-accept:v1'' (JObj
       [(''id'', JStr i), (''acceptanceId'', JStr acceptanceId), (''planHash'', JStr ph),
        (''closureHash'', JStr closureHash)])"

section \<open>Closure\<close>

definition closure_criterion :: "Criterion \<Rightarrow> HumanDecision \<Rightarrow> ClosureCriterion" where
  "closure_criterion c d = \<lparr>cc_criterionId = cr_id c, cc_decisionId = de_id d,
     cc_decidedRevision = de_decidedRevision d, cc_evidenceSetHash = de_evidenceSetHash d\<rparr>"

text \<open>The loop over the criteria, which returns at the first required one not verified.\<close>

fun required_criteria ::
  "(Criterion \<times> CurrentDecision option) list \<Rightarrow> ClosureCriterion list option" where
  "required_criteria [] = Some []"
| "required_criteria ((c, current) # rest) =
     (if \<not> cr_required c then required_criteria rest
      else case current of None \<Rightarrow> None
      | Some cd \<Rightarrow>
          if de_status (cd_decision cd) \<noteq> Verified \<or> length (cd_sourceDigests cd) = 0 then None
          else (case required_criteria rest of None \<Rightarrow> None
                | Some cs \<Rightarrow> Some (closure_criterion c (cd_decision cd) # cs)))"

definition deriveOutcomeClosure ::
  "(string \<Rightarrow> string) \<Rightarrow> OutcomeRecord \<Rightarrow> WorkProjection list \<Rightarrow> int \<Rightarrow> string option" where
  "deriveOutcomeClosure H r projections observedAt =
     (case rc_planHash r of None \<Rightarrow> None
      | Some ph \<Rightarrow>
        if rc_phase r = Draft \<or> rc_phase r = Cancelled then None
        else if list_ex (\<lambda>p. pj_availability p \<noteq> Available \<or> pj_status p = Some ''blocked'' \<or>
                  isStaleOutcomeProjection p observedAt) projections \<or>
                list_ex (\<lambda>x. op_state x \<in> {Prepared, MayHaveCrossed, UnknownState}) (rc_operations r)
          then None
        else
          let currentDecisions =
                map (\<lambda>c. (c, currentOutcomeDecision H r c projections observedAt)) (rc_criteria r)
          in if list_ex (\<lambda>(c, current). case current of None \<Rightarrow> False
                   | Some cd \<Rightarrow> de_status (cd_decision cd) = RejectedDecision) currentDecisions
               then None
             else case required_criteria currentDecisions of None \<Rightarrow> None
               | Some requiredCriteria \<Rightarrow>
                   Some (outcomeClosureHash H (rc_id r) (rc_planGeneration r) ph requiredCriteria))"

section \<open>Staleness and the current evidence\<close>

lemma isStale_mono:
  "t1 \<le> t2 \<Longrightarrow> isStaleOutcomeProjection p t1 \<Longrightarrow> isStaleOutcomeProjection p t2"
  by (auto simp: isStaleOutcomeProjection_def split: option.splits)

lemma linked_refs_get:
  "jm_get (linked_refs c) i \<noteq> None \<longleftrightarrow> i \<in> workRefIdentity ` set (cr_workRefs c)"
  unfolding linked_refs_def jm_get_of map_of_eq_None_iff by force

lemma linked_refs_keys: "fst ` set (linked_refs c) = workRefIdentity ` set (cr_workRefs c)"
  by (simp add: linked_refs_def jm_of_keys image_image)

lemma jm_ok_length: "jm_ok m \<Longrightarrow> length m = card (fst ` set m)"
  by (metis jm_ok_def distinct_card length_map set_map)

lemma linked_refs_length: "length (linked_refs c) = card (workRefIdentity ` set (cr_workRefs c))"
  by (simp add: jm_ok_length linked_refs_def flip: linked_refs_keys)

lemma linked_projections_keys:
  "fst ` set (linked_projections (linked_refs c) ps) =
     (\<lambda>p. workRefIdentity (pj_ref p)) ` set ps \<inter> workRefIdentity ` set (cr_workRefs c)"
  unfolding linked_projections_def linked_refs_get by (auto simp: jm_of_keys image_image)

lemma linked_projections_length:
  "length (linked_projections (linked_refs c) ps) = length (linked_refs c) \<longleftrightarrow>
     (\<forall>r \<in> set (cr_workRefs c). workRefIdentity r \<in> (\<lambda>p. workRefIdentity (pj_ref p)) ` set ps)"
proof -
  let ?P = "(\<lambda>p. workRefIdentity (pj_ref p)) ` set ps" and ?L = "workRefIdentity ` set (cr_workRefs c)"
  have ok: "jm_ok (linked_projections (linked_refs c) ps)"
    by (simp add: linked_projections_def)
  have "length (linked_projections (linked_refs c) ps) = card (?P \<inter> ?L)"
    by (simp only: jm_ok_length [OF ok] linked_projections_keys)
  moreover have "card (?P \<inter> ?L) = card ?L \<longleftrightarrow> ?L \<subseteq> ?P"
    using card_subset_eq [of ?L "?P \<inter> ?L"] by (auto simp: Int_absorb1)
  ultimately show ?thesis
    by (auto simp: linked_refs_length)
qed

lemma linked_projections_values:
  assumes "distinct (map (\<lambda>p. workRefIdentity (pj_ref p)) ps)"
  shows "set (jm_values (linked_projections (linked_refs c) ps)) =
     {p \<in> set ps. workRefIdentity (pj_ref p) \<in> workRefIdentity ` set (cr_workRefs c)}"
proof -
  let ?f = "filter (\<lambda>p. jm_get (linked_refs c) (workRefIdentity (pj_ref p)) \<noteq> None) ps"
  let ?es = "map (\<lambda>p. (workRefIdentity (pj_ref p), p)) ?f"
  have d: "distinct (map fst ?es)"
    using assms by (simp add: comp_def distinct_map_filter)
  have "(i, p) \<in> set (jm_of ?es) \<longleftrightarrow> (i, p) \<in> set ?es" for i p
    by (simp only: jm_ok_get [OF jm_ok_of] jm_get_of_distinct [OF d] map_of_eq_Some_iff [OF d])
  then have "set (jm_of ?es) = set ?es"
    by (simp add: set_eq_iff)
  then have "set (jm_values (jm_of ?es)) = set ?f"
    by (simp add: jm_values_def image_image)
  then show ?thesis
    unfolding linked_projections_def linked_refs_get by auto
qed

lemma linked_projections_values_subset:
  "set (jm_values (linked_projections l ps)) \<subseteq> set ps"
  using jm_of_subset [of "map (\<lambda>p. (workRefIdentity (pj_ref p), p))
      (filter (\<lambda>p. jm_get l (workRefIdentity (pj_ref p)) \<noteq> None) ps)"]
  by (fastforce simp: linked_projections_def jm_values_def)

text \<open>A criterion is observed when it is linked and every card of it has a fresh projection.\<close>

definition criterion_observed :: "Criterion \<Rightarrow> WorkProjection list \<Rightarrow> int \<Rightarrow> bool" where
  "criterion_observed c ps t \<longleftrightarrow> cr_workRefs c \<noteq> [] \<and>
     (\<forall>r \<in> set (cr_workRefs c). \<exists>p \<in> set ps. workRefIdentity (pj_ref p) = workRefIdentity r \<and>
        pj_availability p = Available \<and> \<not> isStaleOutcomeProjection p t)"

lemma sourceDigests_observed:
  assumes "distinct (map (\<lambda>p. workRefIdentity (pj_ref p)) ps)"
  shows "currentOutcomeEvidenceSourceDigests r c ps t \<noteq> None \<longleftrightarrow> criterion_observed c ps t"
proof -
  have empty: "length (linked_refs c) = 0 \<longleftrightarrow> cr_workRefs c = []"
    by (simp add: linked_refs_length)
  have unique: "p = q" if "p \<in> set ps" "q \<in> set ps"
    "workRefIdentity (pj_ref p) = workRefIdentity (pj_ref q)" for p q
    using assms that by (auto simp: distinct_map dest: inj_onD)
  have "currentOutcomeEvidenceSourceDigests r c ps t \<noteq> None \<longleftrightarrow> cr_workRefs c \<noteq> [] \<and>
    (\<forall>w \<in> set (cr_workRefs c). workRefIdentity w \<in> (\<lambda>p. workRefIdentity (pj_ref p)) ` set ps) \<and>
    (\<forall>p \<in> set ps. workRefIdentity (pj_ref p) \<in> workRefIdentity ` set (cr_workRefs c) \<longrightarrow>
       pj_availability p = Available \<and> \<not> isStaleOutcomeProjection p t)"
    (is "_ \<longleftrightarrow> ?ne \<and> ?cov \<and> ?fresh")
  proof -
    have "list_ex (\<lambda>p. pj_availability p \<noteq> Available \<or> isStaleOutcomeProjection p t)
        (jm_values (linked_projections (linked_refs c) ps)) \<longleftrightarrow> \<not> ?fresh"
      unfolding list_ex_iff linked_projections_values [OF assms] by blast
    then show ?thesis
      unfolding currentOutcomeEvidenceSourceDigests_def Let_def empty linked_projections_length
      by simp
  qed
  also have "\<dots> \<longleftrightarrow> criterion_observed c ps t"
  proof
    assume l: "?ne \<and> ?cov \<and> ?fresh"
    show "criterion_observed c ps t"
      unfolding criterion_observed_def
    proof (intro conjI ballI)
      fix w assume w: "w \<in> set (cr_workRefs c)"
      with l obtain p where "p \<in> set ps" "workRefIdentity w = workRefIdentity (pj_ref p)"
        by blast
      with l w show "\<exists>p \<in> set ps. workRefIdentity (pj_ref p) = workRefIdentity w \<and>
          pj_availability p = Available \<and> \<not> isStaleOutcomeProjection p t"
        by (metis imageI)
    qed (use l in blast)
  next
    assume o: "criterion_observed c ps t"
    show "?ne \<and> ?cov \<and> ?fresh"
    proof (intro conjI ballI impI)
      show "cr_workRefs c \<noteq> []"
        using o by (simp add: criterion_observed_def)
    next
      fix w assume "w \<in> set (cr_workRefs c)"
      with o show "workRefIdentity w \<in> (\<lambda>p. workRefIdentity (pj_ref p)) ` set ps"
        unfolding criterion_observed_def by (metis image_eqI)
    next
      fix p assume p: "p \<in> set ps" "workRefIdentity (pj_ref p) \<in> workRefIdentity ` set (cr_workRefs c)"
      then obtain w where "w \<in> set (cr_workRefs c)" "workRefIdentity (pj_ref p) = workRefIdentity w"
        by blast
      with o p(1) unique show "pj_availability p = Available" "\<not> isStaleOutcomeProjection p t"
        unfolding criterion_observed_def by metis+
    qed
  qed
  finally show ?thesis .
qed

text \<open>The digests do not depend on the time once every projection is fresh.\<close>

lemma sourceDigests_fresh:
  assumes "\<forall>p \<in> set ps. pj_availability p = Available \<and> \<not> isStaleOutcomeProjection p t1"
    "\<forall>p \<in> set ps. pj_availability p = Available \<and> \<not> isStaleOutcomeProjection p t2"
  shows "currentOutcomeEvidenceSourceDigests r c ps t1 = currentOutcomeEvidenceSourceDigests r c ps t2"
proof -
  have "\<not> list_ex (\<lambda>p. pj_availability p \<noteq> Available \<or> isStaleOutcomeProjection p t)
      (jm_values (linked_projections l ps))"
    if "\<forall>p \<in> set ps. pj_availability p = Available \<and> \<not> isStaleOutcomeProjection p t" for t l
    using that linked_projections_values_subset [of l ps] by (auto simp: list_ex_iff)
  from this [OF assms(1)] this [OF assms(2)] show ?thesis
    by (simp add: currentOutcomeEvidenceSourceDigests_def Let_def)
qed

section \<open>The decision that stands\<close>

lemma sort_key_hd:
  assumes "sort_key f xs = d # ds"
  shows "d \<in> set xs" "x \<in> set xs \<Longrightarrow> f d \<le> f x"
proof -
  have "set (d # ds) = set xs" "sorted (map f (d # ds))"
    using assms by (metis set_sort, metis sorted_sort_key)
  then show "d \<in> set xs" "x \<in> set xs \<Longrightarrow> f d \<le> f x"
    by auto
qed

lemma selected_decision_Some:
  assumes "distinct (map de_decidedRevision (rc_decisions r))"
  shows "selected_decision r c = Some d \<longleftrightarrow>
    d \<in> set (rc_decisions r) \<and> de_criterionId d = cr_id c \<and>
    de_planGeneration d = rc_planGeneration r \<and>
    (\<forall>d' \<in> set (rc_decisions r). de_criterionId d' = cr_id c \<longrightarrow>
       de_planGeneration d' = rc_planGeneration r \<longrightarrow> de_decidedRevision d' \<le> de_decidedRevision d)"
    (is "_ \<longleftrightarrow> ?max d")
proof -
  let ?xs = "filter (\<lambda>d. de_criterionId d = cr_id c \<and> de_planGeneration d = rc_planGeneration r)
    (rc_decisions r)"
  have inj: "x = y" if "x \<in> set (rc_decisions r)" "y \<in> set (rc_decisions r)"
    "de_decidedRevision x = de_decidedRevision y" for x y
    using assms that by (auto simp: distinct_map dest: inj_onD)
  show ?thesis
  proof (cases "sort_key (\<lambda>d. - de_decidedRevision d) ?xs")
    case Nil
    have "?xs = []"
      using arg_cong [OF Nil, of length] by simp
    with Nil show ?thesis
      by (auto simp: selected_decision_def filter_empty_conv)
  next
    case (Cons e es)
    have "?max e"
      using sort_key_hd [OF Cons] by auto
    moreover have "d = e" if "?max d"
    proof (rule inj)
      from that \<open>?max e\<close> show "de_decidedRevision d = de_decidedRevision e"
        by (intro order_antisym) simp_all
    qed (use that \<open>?max e\<close> in simp_all)
    moreover have "selected_decision r c = Some e"
      using Cons by (simp add: selected_decision_def)
    ultimately show ?thesis by (metis option.inject)
  qed
qed

lemma currentOutcomeDecision_Some:
  "currentOutcomeDecision H r c ps t = Some cd \<longleftrightarrow>
     currentOutcomeEvidenceSourceDigests r c ps t = Some (cd_sourceDigests cd) \<and>
     selected_decision r c = Some (cd_decision cd) \<and>
     rc_planHash r = Some (de_planHash (cd_decision cd)) \<and>
     de_evidenceSetHash (cd_decision cd) =
       evidenceSetHash H (cr_id c) (rc_planGeneration r) (cd_sourceDigests cd)"
  by (cases cd) (auto simp: currentOutcomeDecision_def Let_def split: option.splits)

section \<open>When a closure exists\<close>

definition verified_entry :: "Criterion \<times> CurrentDecision option \<Rightarrow> bool" where
  "verified_entry e \<longleftrightarrow> (case e of (c, current) \<Rightarrow> cr_required c \<longrightarrow> (case current of None \<Rightarrow> False
     | Some cd \<Rightarrow> de_status (cd_decision cd) = Verified \<and> cd_sourceDigests cd \<noteq> []))"

lemma required_criteria_eq:
  "required_criteria xs = (if \<forall>e \<in> set xs. verified_entry e
     then Some (map (\<lambda>(c, current). closure_criterion c (cd_decision (the current)))
       (filter (\<lambda>(c, _). cr_required c) xs)) else None)"
  by (induction xs rule: required_criteria.induct)
     (auto simp: verified_entry_def split: option.splits)

definition verified_criterion ::
  "(string \<Rightarrow> string) \<Rightarrow> OutcomeRecord \<Rightarrow> WorkProjection list \<Rightarrow> int \<Rightarrow> Criterion \<Rightarrow> bool" where
  "verified_criterion H r ps t c \<longleftrightarrow> (\<exists>cd. currentOutcomeDecision H r c ps t = Some cd \<and>
     de_status (cd_decision cd) = Verified \<and> cd_sourceDigests cd \<noteq> [])"

definition all_clear :: "OutcomeRecord \<Rightarrow> WorkProjection list \<Rightarrow> int \<Rightarrow> bool" where
  "all_clear r ps t \<longleftrightarrow>
     rc_planHash r \<noteq> None \<and> rc_phase r \<in> {Active, Accepted} \<and> \<not> hasInFlightOperation r \<and>
     (\<forall>p \<in> set ps. pj_availability p = Available \<and> pj_status p \<noteq> Some ''blocked'' \<and>
        \<not> isStaleOutcomeProjection p t)"

definition closed_contract ::
  "(string \<Rightarrow> string) \<Rightarrow> OutcomeRecord \<Rightarrow> WorkProjection list \<Rightarrow> int \<Rightarrow> bool" where
  "closed_contract H r ps t \<longleftrightarrow> all_clear r ps t \<and>
     (\<forall>c \<in> set (rc_criteria r). \<forall>cd. currentOutcomeDecision H r c ps t = Some cd \<longrightarrow>
        de_status (cd_decision cd) \<noteq> RejectedDecision) \<and>
     (\<forall>c \<in> set (rc_criteria r). cr_required c \<longrightarrow> verified_criterion H r ps t c)"

definition closure_of ::
  "(string \<Rightarrow> string) \<Rightarrow> OutcomeRecord \<Rightarrow> WorkProjection list \<Rightarrow> int \<Rightarrow> string" where
  "closure_of H r ps t = outcomeClosureHash H (rc_id r) (rc_planGeneration r) (the (rc_planHash r))
     (map (\<lambda>c. closure_criterion c (cd_decision (the (currentOutcomeDecision H r c ps t))))
       (filter cr_required (rc_criteria r)))"

lemma in_flight_list_ex:
  "list_ex (\<lambda>x. op_state x \<in> {Prepared, MayHaveCrossed, UnknownState}) (rc_operations r) \<longleftrightarrow>
     hasInFlightOperation r"
  by (auto simp: hasInFlightOperation_def in_flight_state_def list_ex_iff)

lemma phase_planned: "\<not> (p = Draft \<or> p = Cancelled) \<longleftrightarrow> p \<in> {Active, Accepted}"
  by (cases p) simp_all

lemma deriveOutcomeClosure_blocked:
  "\<not> all_clear r ps t \<Longrightarrow> deriveOutcomeClosure H r ps t = None"
  unfolding deriveOutcomeClosure_def in_flight_list_ex all_clear_def phase_planned [symmetric]
  by (cases "rc_planHash r") (auto simp: list_ex_iff)

lemma deriveOutcomeClosure_eq:
  "deriveOutcomeClosure H r ps t =
     (if closed_contract H r ps t then Some (closure_of H r ps t) else None)"
proof (cases "all_clear r ps t")
  case False
  then show ?thesis
    by (simp add: deriveOutcomeClosure_blocked closed_contract_def)
next
  case True
  then obtain ph where ph: "rc_planHash r = Some ph"
    by (auto simp: all_clear_def)
  let ?cur = "\<lambda>c. currentOutcomeDecision H r c ps t"
  let ?pairs = "map (\<lambda>c. (c, ?cur c)) (rc_criteria r)"
  let ?rejected = "\<exists>c \<in> set (rc_criteria r). \<exists>cd. ?cur c = Some cd \<and>
    de_status (cd_decision cd) = RejectedDecision"
  let ?verified = "\<forall>c \<in> set (rc_criteria r). cr_required c \<longrightarrow> verified_criterion H r ps t c"
  have rej: "list_ex (\<lambda>(c, current). case current of None \<Rightarrow> False
      | Some cd \<Rightarrow> de_status (cd_decision cd) = RejectedDecision) ?pairs \<longleftrightarrow> ?rejected"
    by (auto simp: list_ex_iff split: option.splits)
  have ver: "(\<forall>e \<in> set ?pairs. verified_entry e) \<longleftrightarrow> ?verified"
    by (auto simp: verified_entry_def verified_criterion_def split: option.splits)
  have req: "required_criteria ?pairs = (if ?verified
      then Some (map (\<lambda>c. closure_criterion c (cd_decision (the (?cur c))))
        (filter cr_required (rc_criteria r))) else None)"
    unfolding required_criteria_eq ver by (simp add: filter_map comp_def)
  have clear: "\<not> (rc_phase r = Draft \<or> rc_phase r = Cancelled)" "\<not> hasInFlightOperation r"
    "\<not> list_ex (\<lambda>p. pj_availability p \<noteq> Available \<or> pj_status p = Some ''blocked'' \<or>
      isStaleOutcomeProjection p t) ps"
    using True by (auto simp: all_clear_def list_ex_iff)
  have "deriveOutcomeClosure H r ps t = (if \<not> ?rejected \<and> ?verified
      then Some (closure_of H r ps t) else None)"
    unfolding deriveOutcomeClosure_def Let_def in_flight_list_ex rej req closure_of_def
    using ph clear by simp
  with True show ?thesis
    by (auto simp: closed_contract_def)
qed

text \<open>A closure can only expire: what is closed now was closed earlier, with the same hash.\<close>

lemma currentOutcomeDecision_fresh:
  assumes "\<forall>p \<in> set ps. pj_availability p = Available \<and> \<not> isStaleOutcomeProjection p t1"
    "\<forall>p \<in> set ps. pj_availability p = Available \<and> \<not> isStaleOutcomeProjection p t2"
  shows "currentOutcomeDecision H r c ps t1 = currentOutcomeDecision H r c ps t2"
  by (simp add: currentOutcomeDecision_def sourceDigests_fresh [OF assms])

lemma closed_contract_earlier:
  assumes "t1 \<le> t2" "closed_contract H r ps t2"
  shows "closed_contract H r ps t1" "closure_of H r ps t1 = closure_of H r ps t2"
proof -
  have later: "\<forall>p \<in> set ps. pj_availability p = Available \<and> \<not> isStaleOutcomeProjection p t2"
    using assms(2) by (simp add: closed_contract_def all_clear_def)
  then have earlier: "\<forall>p \<in> set ps. pj_availability p = Available \<and> \<not> isStaleOutcomeProjection p t1"
    using isStale_mono [OF assms(1)] by blast
  note same = currentOutcomeDecision_fresh [OF earlier later, of H r]
  have "all_clear r ps t1"
    using assms(2) earlier by (simp add: closed_contract_def all_clear_def)
  with assms(2) show "closed_contract H r ps t1"
    by (simp add: closed_contract_def verified_criterion_def same)
  show "closure_of H r ps t1 = closure_of H r ps t2"
    by (simp add: closure_of_def same)
qed

text \<open>The fields a closure reads.\<close>

lemma deriveOutcomeClosure_cong:
  assumes "rc_planHash r = rc_planHash r'" "rc_phase r \<in> {Active, Accepted}"
    "rc_phase r' \<in> {Active, Accepted}" "rc_operations r = rc_operations r'"
    "rc_criteria r = rc_criteria r'" "rc_evidence r = rc_evidence r'"
    "rc_planGeneration r = rc_planGeneration r'" "rc_decisions r = rc_decisions r'"
    "rc_id r = rc_id r'"
  shows "deriveOutcomeClosure H r ps t = deriveOutcomeClosure H r' ps t"
proof -
  have digests: "currentOutcomeEvidenceSourceDigests r c ps t =
      currentOutcomeEvidenceSourceDigests r' c ps t" for c
    unfolding currentOutcomeEvidenceSourceDigests_def assms(6,7) ..
  have cur: "currentOutcomeDecision H r c ps t = currentOutcomeDecision H r' c ps t" for c
    unfolding currentOutcomeDecision_def digests selected_decision_def assms(1,7,8) ..
  have "all_clear r ps t = all_clear r' ps t"
    using assms by (simp add: all_clear_def hasInFlightOperation_def)
  then show ?thesis
    unfolding deriveOutcomeClosure_eq closed_contract_def closure_of_def verified_criterion_def cur
      assms(1,5,7,9) by simp
qed

end
