(* ===== verification/Outcome_Assurance.thy ===== *)
theory Outcome_Assurance
  imports Outcome_Closure
begin

text \<open>
  Human decisions and acceptances, \<open>src/domain/assurance-reducer.ts\<close>. Both are
  identified by a request id and a request hash, so that a retry of a request that was already
  recorded returns the stored record (\<open>replayed\<close>) and an id reused for another request is
  refused. \<open>replayed\<close> is false in every conflict and rejection of the source.
\<close>

datatype assurance_reason =
  OperationConflict | RevisionConflict | InvalidState | ClosureIncomplete | AssuranceCapacity

datatype assurance_result =
  AUpdated OutcomeRecord bool
| AConflict assurance_reason OutcomeRecord
| ARejected assurance_reason OutcomeRecord

type_synonym assurance_decision = "outcome_error + assurance_result"

fun assurance_record :: "assurance_result \<Rightarrow> OutcomeRecord" where
  "assurance_record (AUpdated r _) = r"
| "assurance_record (AConflict _ r) = r"
| "assurance_record (ARejected _ r) = r"

record OutcomeDecisionMutation =
  dm_expectedRevision :: int
  dm_id :: string
  dm_requestHash :: string
  dm_criterionId :: string
  dm_status :: decision_status
  dm_planHash :: string
  dm_evidenceSetHash :: string
  dm_profileId :: string
  dm_note :: "string option"
  dm_projections :: "WorkProjection list option"
  dm_evidence :: "EvidenceRef list option"
  dm_serverTime :: js_number

record OutcomeAcceptanceMutation =
  am_expectedRevision :: int
  am_id :: string
  am_requestHash :: string
  am_planHash :: string
  am_closureHash :: string
  am_profileId :: string
  am_projections :: "WorkProjection list option"
  am_evidence :: "EvidenceRef list option"
  am_serverTime :: js_number

section \<open>The observation a request carries\<close>

text \<open>
  Both reducers first fold the observation of the request, when it has one, into the record:
  \<open>Inr\<close> is the observed record at the revision and update time of the current one.
\<close>

definition observe ::
  "OutcomeRecord \<Rightarrow> WorkProjection list option \<Rightarrow> EvidenceRef list option \<Rightarrow> js_number
    \<Rightarrow> outcome_error + (assurance_reason + OutcomeRecord)" where
  "observe cur projections evidence serverTime =
     (case (projections, evidence) of
        (Some ps, Some es) \<Rightarrow>
          (case reduceOutcomeRefresh cur \<lparr>rm_expectedRevision = rc_revision cur,
                  rm_projections = ps, rm_evidence = es, rm_serverTime = serverTime\<rparr> of
             Inl e \<Rightarrow> Inl e
           | Inr (Updated r) \<Rightarrow> Inr (Inr (r\<lparr>rc_revision := rc_revision cur,
               rc_updatedAt := rc_updatedAt cur\<rparr>))
           | Inr (Rejected _ (Some CapacityExceeded)) \<Rightarrow> Inr (Inl AssuranceCapacity)
           | Inr _ \<Rightarrow> Inr (Inl RevisionConflict))
      | _ \<Rightarrow> Inr (Inr cur))"

section \<open>Decisions\<close>

definition decide_observed ::
  "(string \<Rightarrow> string) \<Rightarrow> OutcomeRecord \<Rightarrow> OutcomeRecord \<Rightarrow> OutcomeDecisionMutation \<Rightarrow> int
    \<Rightarrow> assurance_result" where
  "decide_observed H cur observed m now =
     (if rc_phase observed \<noteq> Active \<and> rc_phase observed \<noteq> Accepted then ARejected InvalidState cur
      else case (find (\<lambda>c. cr_id c = dm_criterionId m) (rc_criteria observed), rc_planHash observed) of
        (Some criterion, Some ph) \<Rightarrow>
          (case currentOutcomeEvidenceSourceDigests observed criterion (rc_projections observed) now of
             None \<Rightarrow> ARejected ClosureIncomplete cur
           | Some sourceDigests \<Rightarrow>
               if dm_planHash m \<noteq> ph \<or> dm_evidenceSetHash m \<noteq>
                    evidenceSetHash H (cr_id criterion) (rc_planGeneration observed) sourceDigests
                 then ARejected RevisionConflict cur
               else if (dm_status m = Verified \<and> length sourceDigests = 0) \<or>
                       (dm_status m = RejectedDecision \<and> dm_note m = None)
                 then ARejected ClosureIncomplete cur
               else if 100 \<le> length (rc_decisions observed) then ARejected AssuranceCapacity cur
               else
                 let decision = \<lparr>de_id = dm_id m, de_criterionId = cr_id criterion,
                       de_planGeneration = rc_planGeneration observed,
                       de_decidedRevision = rc_revision cur + 1, de_status = dm_status m,
                       de_requestHash = dm_requestHash m, de_profileId = dm_profileId m,
                       de_planHash = ph, de_decidedPlan = currentOutcomePlanSnapshot observed,
                       de_evidenceSetHash = dm_evidenceSetHash m, de_note = dm_note m,
                       de_decidedAt = now\<rparr>
                 in AUpdated (observed\<lparr>rc_decisions := rc_decisions observed @ [decision],
                      rc_revision := rc_revision cur + 1, rc_updatedAt := now\<rparr>) False)
      | _ \<Rightarrow> ARejected InvalidState cur)"

definition reduceOutcomeDecision ::
  "(string \<Rightarrow> string) \<Rightarrow> OutcomeRecord \<Rightarrow> OutcomeDecisionMutation \<Rightarrow> assurance_decision" where
  "reduceOutcomeDecision H cur m =
     (case assertOutcomeServerTime (dm_serverTime m) of Inl e \<Rightarrow> Inl e | Inr now \<Rightarrow>
      case find (\<lambda>d. de_id d = dm_id m) (rc_decisions cur) of
        Some previous \<Rightarrow>
          (if de_requestHash previous = dm_requestHash m then Inr (AUpdated cur True)
           else Inr (AConflict OperationConflict cur))
      | None \<Rightarrow>
          if dm_expectedRevision m \<noteq> rc_revision cur then Inr (AConflict RevisionConflict cur)
          else if (dm_projections m = None) \<noteq> (dm_evidence m = None)
            then Inr (ARejected ClosureIncomplete cur)
          else (case observe cur (dm_projections m) (dm_evidence m) (dm_serverTime m) of
              Inl e \<Rightarrow> Inl e
            | Inr (Inl reason) \<Rightarrow> Inr (ARejected reason cur)
            | Inr (Inr observed) \<Rightarrow> Inr (decide_observed H cur observed m now)))"

section \<open>Acceptances\<close>

definition accept_observed ::
  "(string \<Rightarrow> string) \<Rightarrow> OutcomeRecord \<Rightarrow> OutcomeRecord \<Rightarrow> OutcomeAcceptanceMutation \<Rightarrow> int
    \<Rightarrow> assurance_result" where
  "accept_observed H cur observed m now =
     (if rc_phase observed \<noteq> Active \<and> rc_phase observed \<noteq> Accepted then ARejected InvalidState cur
      else case rc_planHash observed of None \<Rightarrow> ARejected InvalidState cur
      | Some ph \<Rightarrow>
          (case deriveOutcomeClosure H observed (rc_projections observed) now of
             None \<Rightarrow> ARejected ClosureIncomplete cur
           | Some closureHash \<Rightarrow>
               if am_planHash m \<noteq> ph \<or> am_closureHash m \<noteq> closureHash
                 then ARejected RevisionConflict cur
               else if list_ex (\<lambda>a. ac_planGeneration a = rc_planGeneration observed \<and>
                       ac_planHash a = ph \<and> ac_closureHash a = closureHash) (rc_acceptances observed)
                 then ARejected InvalidState cur
               else if 20 \<le> length (rc_acceptances observed) then ARejected AssuranceCapacity cur
               else
                 let acceptance = \<lparr>ac_id = am_id m, ac_requestHash = am_requestHash m,
                       ac_acceptedRevision = rc_revision cur + 1, ac_profileId = am_profileId m,
                       ac_acceptedAt = now, ac_planGeneration = rc_planGeneration observed,
                       ac_planHash = ph, ac_closureHash = closureHash,
                       ac_acceptedPlan = currentOutcomePlanSnapshot observed\<rparr>
                 in AUpdated (observed\<lparr>rc_phase := Accepted,
                      rc_acceptances := rc_acceptances observed @ [acceptance],
                      rc_revision := rc_revision cur + 1, rc_updatedAt := now\<rparr>) False))"

definition reduceOutcomeAcceptance ::
  "(string \<Rightarrow> string) \<Rightarrow> OutcomeRecord \<Rightarrow> OutcomeAcceptanceMutation \<Rightarrow> assurance_decision" where
  "reduceOutcomeAcceptance H cur m =
     (case assertOutcomeServerTime (am_serverTime m) of Inl e \<Rightarrow> Inl e | Inr now \<Rightarrow>
      case find (\<lambda>a. ac_id a = am_id m) (rc_acceptances cur) of
        Some previous \<Rightarrow>
          (if ac_requestHash previous = am_requestHash m then Inr (AUpdated cur True)
           else Inr (AConflict OperationConflict cur))
      | None \<Rightarrow>
          if am_expectedRevision m \<noteq> rc_revision cur then Inr (AConflict RevisionConflict cur)
          else if (am_projections m = None) \<noteq> (am_evidence m = None)
            then Inr (ARejected ClosureIncomplete cur)
          else (case observe cur (am_projections m) (am_evidence m) (am_serverTime m) of
              Inl e \<Rightarrow> Inl e
            | Inr (Inl reason) \<Rightarrow> Inr (ARejected reason cur)
            | Inr (Inr observed) \<Rightarrow> Inr (accept_observed H cur observed m now)))"

section \<open>What an update looks like\<close>

lemma observe_Inr:
  assumes "observe cur projections evidence serverTime = Inr (Inr observed)"
  obtains (none) "observed = cur"
  | (refreshed) ps es r where "projections = Some ps" "evidence = Some es"
    "reduceOutcomeRefresh cur \<lparr>rm_expectedRevision = rc_revision cur, rm_projections = ps,
       rm_evidence = es, rm_serverTime = serverTime\<rparr> = Inr (Updated r)"
    "observed = r\<lparr>rc_revision := rc_revision cur, rc_updatedAt := rc_updatedAt cur\<rparr>"
  using assms
  by (auto simp: observe_def split: option.splits sum.splits outcome_result.splits
      reject_reason.splits)

text \<open>An observation touches projections and evidence only.\<close>

lemma observe_keeps:
  assumes "observe cur projections evidence serverTime = Inr (Inr observed)"
  shows "\<exists>ps es. observed = cur\<lparr>rc_projections := ps, rc_evidence := es\<rparr>"
  using assms
proof (cases rule: observe_Inr)
  case none
  then have "observed = cur\<lparr>rc_projections := rc_projections cur, rc_evidence := rc_evidence cur\<rparr>"
    by simp
  then show ?thesis by blast
next
  case (refreshed ps es r)
  from refreshed(3) show ?thesis
  proof (cases rule: reduceOutcomeRefresh_Updated)
    case (1 now)
    then have "observed = cur\<lparr>rc_projections := rc_projections r, rc_evidence := rc_evidence r\<rparr>"
      using refreshed(4) by simp
    then show ?thesis by blast
  qed
qed

lemma reduceOutcomeDecision_Updated:
  assumes "reduceOutcomeDecision H cur m = Inr (AUpdated r' False)"
  obtains now observed criterion ph digests where "dm_serverTime m = Finite now"
    "\<forall>d \<in> set (rc_decisions cur). de_id d \<noteq> dm_id m" "dm_expectedRevision m = rc_revision cur"
    "observe cur (dm_projections m) (dm_evidence m) (dm_serverTime m) = Inr (Inr observed)"
    "rc_phase observed \<in> {Active, Accepted}"
    "find (\<lambda>c. cr_id c = dm_criterionId m) (rc_criteria observed) = Some criterion"
    "rc_planHash observed = Some ph"
    "currentOutcomeEvidenceSourceDigests observed criterion (rc_projections observed) now =
       Some digests"
    "dm_planHash m = ph"
    "dm_evidenceSetHash m =
       evidenceSetHash H (cr_id criterion) (rc_planGeneration observed) digests"
    "dm_status m = Verified \<longrightarrow> digests \<noteq> []" "dm_status m = RejectedDecision \<longrightarrow> dm_note m \<noteq> None"
    "length (rc_decisions observed) < 100"
    "r' = observed\<lparr>rc_decisions := rc_decisions observed @ [\<lparr>de_id = dm_id m,
         de_criterionId = cr_id criterion, de_planGeneration = rc_planGeneration observed,
         de_decidedRevision = rc_revision cur + 1, de_status = dm_status m,
         de_requestHash = dm_requestHash m, de_profileId = dm_profileId m, de_planHash = ph,
         de_decidedPlan = record_plan observed, de_evidenceSetHash = dm_evidenceSetHash m,
         de_note = dm_note m, de_decidedAt = now\<rparr>],
       rc_revision := rc_revision cur + 1, rc_updatedAt := now\<rparr>"
  using assms
  by (auto simp: reduceOutcomeDecision_def decide_observed_def currentOutcomePlanSnapshot_eq Let_def
      find_None_iff not_le split: sum.splits option.splits if_splits)

lemma reduceOutcomeAcceptance_Updated:
  assumes "reduceOutcomeAcceptance H cur m = Inr (AUpdated r' False)"
  obtains now observed ph where "am_serverTime m = Finite now"
    "\<forall>a \<in> set (rc_acceptances cur). ac_id a \<noteq> am_id m" "am_expectedRevision m = rc_revision cur"
    "observe cur (am_projections m) (am_evidence m) (am_serverTime m) = Inr (Inr observed)"
    "rc_phase observed \<in> {Active, Accepted}" "rc_planHash observed = Some ph"
    "deriveOutcomeClosure H observed (rc_projections observed) now = Some (am_closureHash m)"
    "am_planHash m = ph"
    "\<forall>a \<in> set (rc_acceptances observed). ac_planGeneration a = rc_planGeneration observed \<longrightarrow>
       ac_planHash a = ph \<longrightarrow> ac_closureHash a \<noteq> am_closureHash m"
    "length (rc_acceptances observed) < 20"
    "r' = observed\<lparr>rc_phase := Accepted, rc_acceptances := rc_acceptances observed @
         [\<lparr>ac_id = am_id m, ac_requestHash = am_requestHash m,
           ac_acceptedRevision = rc_revision cur + 1, ac_profileId = am_profileId m,
           ac_acceptedAt = now, ac_planGeneration = rc_planGeneration observed, ac_planHash = ph,
           ac_closureHash = am_closureHash m, ac_acceptedPlan = record_plan observed\<rparr>],
       rc_revision := rc_revision cur + 1, rc_updatedAt := now\<rparr>"
  using assms
  by (auto simp: reduceOutcomeAcceptance_def accept_observed_def currentOutcomePlanSnapshot_eq Let_def
      find_None_iff not_le list_ex_iff split: sum.splits option.splits if_splits)

section \<open>Decisions and acceptances keep the stored contract\<close>

lemma valid_phase_cong:
  assumes "rc_phase r' = rc_phase r" "rc_planGeneration r' = rc_planGeneration r"
    "rc_planHash r' = rc_planHash r" "record_plan r' = record_plan r"
  shows "valid_phase H r' = valid_phase H r"
  unfolding valid_phase_def assms ..

lemma valid_record_observe:
  assumes valid: "valid_record H cur" and rev: "rc_revision cur < MAX_SAFE_INTEGER"
    and ps: "opt_ok (list_all (valid_projection H)) projections"
    and es: "opt_ok (list_all valid_evidence) evidence"
    and obs: "observe cur projections evidence serverTime = Inr (Inr observed)"
  shows "valid_record H observed"
  using obs
proof (cases rule: observe_Inr)
  case none
  with valid show ?thesis by simp
next
  case (refreshed ps' es' r)
  have r: "valid_record H r"
    using ps es refreshed(1,2)
    by (intro valid_record_refresh [OF valid rev _ _ refreshed(3)]) (simp_all add: opt_ok_def)
  obtain ps'' es'' where "observed = cur\<lparr>rc_projections := ps'', rc_evidence := es''\<rparr>"
    using observe_keeps [OF obs] by blast
  moreover have "rc_projections observed = rc_projections r" "rc_evidence observed = rc_evidence r"
    using refreshed(4) by simp_all
  ultimately have "observed = cur\<lparr>rc_projections := rc_projections r, rc_evidence := rc_evidence r\<rparr>"
    by simp
  moreover from this have "valid_phase H observed = valid_phase H cur"
    by (intro valid_phase_cong) (simp_all add: record_plan_def)
  ultimately show ?thesis
    using valid r by (simp add: valid_record_def valid_header_def valid_members_def valid_history_def)
qed

lemma valid_record_append_decision:
  assumes "valid_record H r" "rc_revision r < MAX_SAFE_INTEGER" "valid_decision d"
    "de_id d \<notin> de_id ` set (rc_decisions r)" "length (rc_decisions r) < 100"
    "de_decidedRevision d = rc_revision r + 1" "pl_outcomeId (de_decidedPlan d) = rc_id r"
    "pl_planGeneration (de_decidedPlan d) = de_planGeneration d"
    "list_ex (\<lambda>c. cr_id c = de_criterionId d) (pl_criteria (de_decidedPlan d))"
    "de_planHash d = hashValidatedCanonicalPlan H (de_decidedPlan d)"
  shows "valid_record H (r\<lparr>rc_decisions := rc_decisions r @ [d], rc_revision := rc_revision r + 1,
    rc_updatedAt := now\<rparr>)"
proof -
  have "valid_history H r"
    using assms(1) by (simp add: valid_record_def)
  with assms(6-10) have "valid_history H (r\<lparr>rc_decisions := rc_decisions r @ [d],
      rc_revision := rc_revision r + 1, rc_updatedAt := now\<rparr>)"
    by (fastforce simp: valid_history_def list_all_iff safeValidatedSnapshotPlanHash_def)
  moreover have "valid_phase H (r\<lparr>rc_decisions := rc_decisions r @ [d],
      rc_revision := rc_revision r + 1, rc_updatedAt := now\<rparr>) = valid_phase H r"
    by (intro valid_phase_cong) (simp_all add: record_plan_def)
  ultimately show ?thesis
    using assms(1-5)
    by (auto simp: valid_record_def valid_header_def valid_members_def positive_int_def)
qed

lemma valid_record_append_acceptance:
  assumes "valid_record H r" "rc_revision r < MAX_SAFE_INTEGER" "valid_acceptance a"
    "rc_phase r \<in> {Active, Accepted}"
    "ac_id a \<notin> ac_id ` set (rc_acceptances r)" "length (rc_acceptances r) < 20"
    "ac_acceptedRevision a = rc_revision r + 1" "pl_outcomeId (ac_acceptedPlan a) = rc_id r"
    "pl_planGeneration (ac_acceptedPlan a) = ac_planGeneration a"
    "ac_planHash a = hashValidatedCanonicalPlan H (ac_acceptedPlan a)"
  shows "valid_record H (r\<lparr>rc_phase := Accepted, rc_acceptances := rc_acceptances r @ [a],
    rc_revision := rc_revision r + 1, rc_updatedAt := now\<rparr>)"
proof -
  have "valid_history H r"
    using assms(1) by (simp add: valid_record_def)
  with assms(7-10) have "valid_history H (r\<lparr>rc_phase := Accepted,
      rc_acceptances := rc_acceptances r @ [a], rc_revision := rc_revision r + 1, rc_updatedAt := now\<rparr>)"
    by (fastforce simp: valid_history_def list_all_iff safeValidatedSnapshotPlanHash_def)
  moreover have "valid_phase H (r\<lparr>rc_phase := Accepted, rc_acceptances := rc_acceptances r @ [a],
      rc_revision := rc_revision r + 1, rc_updatedAt := now\<rparr>)"
  proof -
    have "valid_phase H r"
      using assms(1) by (simp add: valid_record_def)
    with assms(4) show ?thesis
      unfolding valid_phase_def record_plan_def
      by (cases "rc_phase r"; cases "rc_planHash r") simp_all
  qed
  ultimately show ?thesis
    using assms(1-3,5,6)
    by (auto simp: valid_record_def valid_header_def valid_members_def positive_int_def)
qed

lemma observe_revision:
  assumes "observe cur projections evidence serverTime = Inr (Inr observed)"
  shows "rc_revision observed = rc_revision cur" "rc_id observed = rc_id cur"
    "rc_decisions observed = rc_decisions cur" "rc_acceptances observed = rc_acceptances cur"
    "rc_phase observed = rc_phase cur" "rc_criteria observed = rc_criteria cur"
    "rc_planHash observed = rc_planHash cur" "rc_planGeneration observed = rc_planGeneration cur"
    "rc_managerProfileId observed = rc_managerProfileId cur"
    "rc_contractRevision observed = rc_contractRevision cur"
    "rc_operations observed = rc_operations cur" "rc_createdAt observed = rc_createdAt cur"
    "rc_createRequestHash observed = rc_createRequestHash cur"
    "record_plan observed = record_plan cur"
  using observe_keeps [OF assms] by (auto simp: record_plan_def)

definition valid_decision_request :: "(string \<Rightarrow> string) \<Rightarrow> OutcomeDecisionMutation \<Rightarrow> bool" where
  "valid_decision_request H m \<longleftrightarrow> min1 (dm_id m) \<and> hex64 (dm_requestHash m) \<and> min1 (dm_profileId m) \<and>
     opt_ok (codePointString 2000) (dm_note m) \<and>
     opt_ok (list_all (valid_projection H)) (dm_projections m) \<and>
     opt_ok (list_all valid_evidence) (dm_evidence m)"

definition valid_acceptance_request :: "(string \<Rightarrow> string) \<Rightarrow> OutcomeAcceptanceMutation \<Rightarrow> bool" where
  "valid_acceptance_request H m \<longleftrightarrow> min1 (am_id m) \<and> hex64 (am_requestHash m) \<and> min1 (am_profileId m) \<and>
     opt_ok (list_all (valid_projection H)) (am_projections m) \<and>
     opt_ok (list_all valid_evidence) (am_evidence m)"

lemma valid_record_revision:
  "valid_record H r \<Longrightarrow> 1 \<le> rc_revision r \<and> rc_revision r \<le> MAX_SAFE_INTEGER"
  by (simp add: valid_record_def valid_header_def positive_int_def)

lemma planned_record:
  assumes "valid_record H r" "rc_phase r \<in> {Active, Accepted}" "rc_planHash r = Some ph"
  shows "valid_plan (record_plan r)" "ph = hashValidatedCanonicalPlan H (record_plan r)"
    "nonneg_int (rc_planGeneration r)"
proof -
  have "valid_phase H r" "valid_header r"
    using assms(1) by (simp_all add: valid_record_def)
  with valid_phase_planned [of H r] assms(2,3)
  show "valid_plan (record_plan r)" "ph = hashValidatedCanonicalPlan H (record_plan r)"
    "nonneg_int (rc_planGeneration r)"
    by (auto simp: valid_header_def)
qed

lemma closure_of_hex: "hex_hash H \<Longrightarrow> hex64 (closure_of H r ps t)"
  by (simp add: closure_of_def outcomeClosureHash_def hex_hash_def)

lemma criterion_text_id: "valid_criterion c \<Longrightarrow> min1 (cr_id c)"
  by (auto simp: valid_criterion_def codePointText_def min1_def)

lemma valid_record_decision:
  assumes valid: "valid_record H cur" and hex: "hex_hash H"
    and rev: "rc_revision cur < MAX_SAFE_INTEGER" and req: "valid_decision_request H m"
    and upd: "reduceOutcomeDecision H cur m = Inr (AUpdated r' False)"
  shows "valid_record H r'"
  using upd
proof (cases rule: reduceOutcomeDecision_Updated)
  case (1 now observed c ph digests)
  note keep = observe_revision [OF 1(4)]
  have obs: "valid_record H observed"
    using valid_record_observe [OF valid rev _ _ 1(4)] req by (simp add: valid_decision_request_def)
  note plan = planned_record [OF obs 1(5,7)]
  have c: "c \<in> set (rc_criteria observed)"
    using find_SomeD [OF 1(6)] by simp
  then have "min1 (cr_id c)"
    using obs by (auto simp: valid_record_def valid_criteria_iff intro: criterion_text_id)
  moreover have "positive_int (rc_revision cur + 1)"
    using rev valid_record_revision [OF valid] by (simp add: positive_int_def)
  moreover have "hex64 (dm_evidenceSetHash m)"
    using hex 1(10) by (simp add: hex_hash_def evidenceSetHash_def)
  moreover have "list_ex (\<lambda>x. cr_id x = cr_id c) (pl_criteria (record_plan observed))"
    using c by (auto simp: list_ex_iff record_plan_def)
  ultimately show ?thesis
    unfolding 1(14) keep(1) [symmetric]
    using req hex plan rev 1(2,13) keep
    by (intro valid_record_append_decision [OF obs])
       (auto simp: valid_decision_def valid_decision_request_def record_plan_def)
qed

lemma valid_record_acceptance:
  assumes valid: "valid_record H cur" and hex: "hex_hash H"
    and rev: "rc_revision cur < MAX_SAFE_INTEGER" and req: "valid_acceptance_request H m"
    and upd: "reduceOutcomeAcceptance H cur m = Inr (AUpdated r' False)"
  shows "valid_record H r'"
  using upd
proof (cases rule: reduceOutcomeAcceptance_Updated)
  case (1 now observed ph)
  note keep = observe_revision [OF 1(4)]
  have obs: "valid_record H observed"
    using valid_record_observe [OF valid rev _ _ 1(4)] req by (simp add: valid_acceptance_request_def)
  note plan = planned_record [OF obs 1(5,6)]
  have "positive_int (rc_revision cur + 1)"
    using rev valid_record_revision [OF valid] by (simp add: positive_int_def)
  moreover have "hex64 (am_closureHash m)"
    using 1(7) closure_of_hex [OF hex] unfolding deriveOutcomeClosure_eq
    by (metis option.distinct(1) option.inject)
  ultimately show ?thesis
    unfolding 1(11) keep(1) [symmetric]
    using req hex plan rev 1(2,5,10) keep
    by (intro valid_record_append_acceptance [OF obs])
       (auto simp: valid_acceptance_def valid_acceptance_request_def record_plan_def)
qed

end
