(* ===== verification/Outcome_Lifecycle.thy ===== *)
theory Outcome_Lifecycle
  imports Outcome_Assurance
begin

text \<open>
  The commands of an Outcome as one step function, and the contract all of them obey. The
  contract is the locale \<open>cas_reducer\<close>: a command names the revision it was made against;
  it updates the record only when that is still the current revision, each update consumes exactly
  one revision, and anything but an update leaves the record as it was. The lemmas about lost
  updates and runs are proved there once and interpreted on \<open>outcome_step\<close>.
\<close>

section \<open>The commands\<close>

datatype outcome_command =
  UpdateContract OutcomeContractMutation
| Activate int js_number
| Retitle OutcomeMutation
| Patch OutcomePatchMutation
| GatewayPatch OutcomePatchMutation
| LinkWorkboard OutcomeLinkMutation
| UnlinkWorkboard OutcomeUnlinkMutation
| Refresh OutcomeRefreshMutation
| Cancel int js_number
| Decide OutcomeDecisionMutation
| Accept OutcomeAcceptanceMutation

text \<open>A replayed decision or acceptance answers with the stored record and writes nothing new.\<close>

fun of_assurance :: "assurance_result \<Rightarrow> outcome_result" where
  "of_assurance (AUpdated r replayed) = (if replayed then Noop r else Updated r)"
| "of_assurance (AConflict _ r) = Conflict r"
| "of_assurance (ARejected reason r) =
     Rejected r (if reason = AssuranceCapacity then Some CapacityExceeded else None)"

fun outcome_step :: "(string \<Rightarrow> string) \<Rightarrow> outcome_command \<Rightarrow> OutcomeRecord \<Rightarrow> outcome_decision" where
  "outcome_step H (UpdateContract m) cur = reduceOutcomeContract H cur m"
| "outcome_step H (Activate e t) cur = reduceOutcomeActivate H cur e t"
| "outcome_step H (Retitle m) cur = reduceOutcomeTitle cur m"
| "outcome_step H (Patch m) cur = reduceOutcomePatch H cur m"
| "outcome_step H (GatewayPatch m) cur = reduceGatewayOutcomePatch H cur m"
| "outcome_step H (LinkWorkboard m) cur = reduceOutcomeLink H cur m"
| "outcome_step H (UnlinkWorkboard m) cur = reduceOutcomeUnlink H cur m"
| "outcome_step H (Refresh m) cur = reduceOutcomeRefresh cur m"
| "outcome_step H (Cancel e t) cur = reduceOutcomeCancel cur e t"
| "outcome_step H (Decide m) cur = map_sum id of_assurance (reduceOutcomeDecision H cur m)"
| "outcome_step H (Accept m) cur = map_sum id of_assurance (reduceOutcomeAcceptance H cur m)"

fun expected_revision :: "outcome_command \<Rightarrow> int" where
  "expected_revision (UpdateContract m) = cm_expectedRevision m"
| "expected_revision (Activate e _) = e"
| "expected_revision (Retitle m) = tm_expectedRevision m"
| "expected_revision (Patch m) = pm_expectedRevision m"
| "expected_revision (GatewayPatch m) = pm_expectedRevision m"
| "expected_revision (LinkWorkboard m) = lm_expectedRevision m"
| "expected_revision (UnlinkWorkboard m) = um_expectedRevision m"
| "expected_revision (Refresh m) = rm_expectedRevision m"
| "expected_revision (Cancel e _) = e"
| "expected_revision (Decide m) = dm_expectedRevision m"
| "expected_revision (Accept m) = am_expectedRevision m"

text \<open>What the gateway has checked before a command reaches its reducer.\<close>

fun valid_command :: "(string \<Rightarrow> string) \<Rightarrow> outcome_command \<Rightarrow> bool" where
  "valid_command H (UpdateContract m) \<longleftrightarrow>
     codePointText 4000 (cm_objective m) \<and> valid_criteria (cm_criteria m)"
| "valid_command H (Activate _ _) \<longleftrightarrow> True"
| "valid_command H (Retitle m) \<longleftrightarrow> codePointText 160 (tm_title m)"
| "valid_command H (Patch m) \<longleftrightarrow> opt_ok (codePointText 160) (pm_title m) \<and>
     opt_ok (codePointText 4000) (pm_objective m) \<and> opt_ok valid_criteria (pm_criteria m)"
| "valid_command H (GatewayPatch m) \<longleftrightarrow> opt_ok (codePointText 160) (pm_title m) \<and>
     opt_ok (codePointText 4000) (pm_objective m) \<and> opt_ok valid_criteria (pm_criteria m)"
| "valid_command H (LinkWorkboard m) \<longleftrightarrow> valid_ref (lm_ref m)"
| "valid_command H (UnlinkWorkboard _) \<longleftrightarrow> True"
| "valid_command H (Refresh m) \<longleftrightarrow>
     list_all (valid_projection H) (rm_projections m) \<and> list_all valid_evidence (rm_evidence m)"
| "valid_command H (Cancel _ _) \<longleftrightarrow> True"
| "valid_command H (Decide m) \<longleftrightarrow> valid_decision_request H m"
| "valid_command H (Accept m) \<longleftrightarrow> valid_acceptance_request H m"

section \<open>What every update has in common\<close>

text \<open>
  One update, whichever command made it: the revision advances by one, identity and ownership
  stay, and the histories only grow at their end.
\<close>

definition extends_history :: "OutcomeRecord \<Rightarrow> OutcomeRecord \<Rightarrow> bool" where
  "extends_history old new \<longleftrightarrow>
     (\<exists>ds. rc_decisions new = rc_decisions old @ ds) \<and>
     (\<exists>xs. rc_acceptances new = rc_acceptances old @ xs) \<and>
     rc_operations new = rc_operations old \<and>
     ev_id ` set (rc_evidence old) \<subseteq> ev_id ` set (rc_evidence new)"

definition same_outcome :: "OutcomeRecord \<Rightarrow> OutcomeRecord \<Rightarrow> bool" where
  "same_outcome old new \<longleftrightarrow> rc_id new = rc_id old \<and>
     rc_managerProfileId new = rc_managerProfileId old \<and>
     rc_createRequestHash new = rc_createRequestHash old \<and> rc_createdAt new = rc_createdAt old"

definition phase_step :: "phase \<Rightarrow> phase \<Rightarrow> bool" where
  "phase_step p q \<longleftrightarrow> p \<noteq> Cancelled \<and>
     (q = p \<or> (p = Draft \<and> q = Active) \<or> (p = Active \<and> q = Accepted) \<or>
      (p = Accepted \<and> q = Active) \<or> (p \<in> {Draft, Active} \<and> q = Cancelled))"

definition plan_step :: "OutcomeRecord \<Rightarrow> OutcomeRecord \<Rightarrow> bool" where
  "plan_step old new \<longleftrightarrow>
     (rc_objective new = rc_objective old \<and> rc_criteria new = rc_criteria old \<and>
      rc_contractRevision new = rc_contractRevision old \<and>
      (rc_planGeneration new = rc_planGeneration old \<and> rc_planHash new = rc_planHash old \<or>
       rc_phase old = Draft \<and> rc_phase new = Active \<and> rc_planGeneration new = 1)) \<or>
     (rc_contractRevision new = rc_contractRevision old + 1 \<and>
      rc_phase new = (if rc_phase old = Accepted then Active else rc_phase old) \<and>
      rc_planGeneration new = (if rc_phase old = Draft then 0 else rc_planGeneration old + 1))"

definition update_step :: "OutcomeRecord \<Rightarrow> OutcomeRecord \<Rightarrow> bool" where
  "update_step old new \<longleftrightarrow> rc_revision new = rc_revision old + 1 \<and> same_outcome old new \<and>
     extends_history old new \<and> phase_step (rc_phase old) (rc_phase new) \<and> plan_step old new"

lemmas update_step_simps =
  update_step_def same_outcome_def extends_history_def phase_step_def plan_step_def

lemma contract_update_step:
  assumes "reduceOutcomeContract H cur m = Inr (Updated r')"
  shows "cm_expectedRevision m = rc_revision cur \<and> update_step cur r'"
  using assms by (cases rule: reduceOutcomeContract_Updated) (auto simp: update_step_simps)

lemma activate_update_step:
  assumes "reduceOutcomeActivate H cur e t = Inr (Updated r')"
  shows "e = rc_revision cur \<and> update_step cur r'"
  using assms by (cases rule: reduceOutcomeActivate_Updated) (auto simp: update_step_simps)

lemma title_update_step:
  assumes "reduceOutcomeTitle cur m = Inr (Updated r')"
  shows "tm_expectedRevision m = rc_revision cur \<and> update_step cur r'"
  using assms by (cases rule: reduceOutcomeTitle_Updated) (auto simp: update_step_simps)

lemma patch_update_step:
  assumes "reduceOutcomePatch H cur m = Inr (Updated r')"
  shows "pm_expectedRevision m = rc_revision cur \<and> update_step cur r'"
  using assms by (cases rule: reduceOutcomePatch_Updated) (auto simp: update_step_simps)

lemma gateway_patch_update_step:
  assumes "reduceGatewayOutcomePatch H cur m = Inr (Updated r')"
  shows "pm_expectedRevision m = rc_revision cur \<and> update_step cur r'"
proof (cases rule: reduceGatewayOutcomePatch_cases [of m H cur])
  case (title t)
  then show ?thesis
    using title_update_step [of cur "\<lparr>tm_expectedRevision = pm_expectedRevision m, tm_title = t,
      tm_serverTime = pm_serverTime m\<rparr>" r'] assms by simp
next
  case contract
  from contract_update_step [OF trans [OF contract(2) [symmetric] assms]] show ?thesis by simp
next
  case both
  from patch_update_step [OF trans [OF both [symmetric] assms]] show ?thesis .
qed

lemma link_update_step:
  assumes "reduceOutcomeLink H cur m = Inr (Updated r')"
  shows "lm_expectedRevision m = rc_revision cur \<and> update_step cur r'"
  using assms
proof (cases rule: reduceOutcomeLink_Updated)
  case (1 c0)
  from contract_update_step [OF 1(5)] show ?thesis by simp
qed

lemma unlink_update_step:
  assumes "reduceOutcomeUnlink H cur m = Inr (Updated r')"
  shows "um_expectedRevision m = rc_revision cur \<and> update_step cur r'"
  using assms
proof (cases rule: reduceOutcomeUnlink_Updated)
  case (1 c0)
  from contract_update_step [OF 1(3)] show ?thesis by simp
qed

lemma refresh_update_step:
  assumes "reduceOutcomeRefresh cur m = Inr (Updated r')"
  shows "rm_expectedRevision m = rc_revision cur \<and> update_step cur r'"
  using assms
  by (cases rule: reduceOutcomeRefresh_Updated) (auto simp: update_step_simps merged_evidence_ids)

lemma cancel_update_step:
  assumes "reduceOutcomeCancel cur e t = Inr (Updated r')"
  shows "e = rc_revision cur \<and> update_step cur r'"
  using assms by (cases rule: reduceOutcomeCancel_Updated) (auto simp: update_step_simps)

lemma observe_evidence:
  assumes "observe cur projections evidence serverTime = Inr (Inr observed)"
  shows "ev_id ` set (rc_evidence cur) \<subseteq> ev_id ` set (rc_evidence observed)"
  using assms
proof (cases rule: observe_Inr)
  case (refreshed ps es r)
  from refresh_update_step [OF refreshed(3)] refreshed(4) show ?thesis
    by (simp add: update_step_def extends_history_def)
qed simp

lemma observe_plan_step:
  assumes "observe cur projections evidence serverTime = Inr (Inr observed)"
  shows "rc_objective observed = rc_objective cur"
  using observe_keeps [OF assms] by auto

lemma decision_update_step:
  assumes "reduceOutcomeDecision H cur m = Inr (AUpdated r' False)"
  shows "dm_expectedRevision m = rc_revision cur \<and> update_step cur r'"
  using assms
proof (cases rule: reduceOutcomeDecision_Updated)
  case (1 now observed c ph digests)
  with observe_revision [OF 1(4)] observe_plan_step [OF 1(4)] observe_evidence [OF 1(4)]
  show ?thesis by (auto simp: update_step_simps)
qed

lemma acceptance_update_step:
  assumes "reduceOutcomeAcceptance H cur m = Inr (AUpdated r' False)"
  shows "am_expectedRevision m = rc_revision cur \<and> update_step cur r'"
  using assms
proof (cases rule: reduceOutcomeAcceptance_Updated)
  case (1 now observed ph)
  with observe_revision [OF 1(4)] observe_plan_step [OF 1(4)] observe_evidence [OF 1(4)]
  show ?thesis by (auto simp: update_step_simps)
qed

lemma of_assurance_Updated:
  "map_sum id of_assurance d = Inr (Updated r') \<longleftrightarrow> d = Inr (AUpdated r' False)"
proof (cases d)
  case (Inr x)
  then show ?thesis by (cases x) auto
qed simp

lemma outcome_step_Updated:
  assumes "outcome_step H c cur = Inr (Updated r')"
  shows "expected_revision c = rc_revision cur \<and> update_step cur r'"
  using assms contract_update_step activate_update_step title_update_step patch_update_step
    gateway_patch_update_step link_update_step unlink_update_step refresh_update_step
    cancel_update_step decision_update_step acceptance_update_step
  by (cases c) (simp_all add: of_assurance_Updated)

text \<open>Anything but an update answers with the record that was passed in.\<close>

definition keeps_record :: "OutcomeRecord \<Rightarrow> outcome_decision \<Rightarrow> bool" where
  "keeps_record cur d \<longleftrightarrow>
     (\<forall>x. d = Inr x \<longrightarrow> (\<forall>r'. x \<noteq> Updated r') \<longrightarrow> result_record x = cur)"

lemma keeps_record_simps [simp]:
  "keeps_record cur (Inl e)" "keeps_record cur (Inr (Updated r))"
  "keeps_record cur (Inr (Conflict r)) \<longleftrightarrow> r = cur" "keeps_record cur (Inr (Noop r)) \<longleftrightarrow> r = cur"
  "keeps_record cur (Inr (Rejected r why)) \<longleftrightarrow> r = cur"
  by (simp_all add: keeps_record_def)

lemma keeps_contract: "keeps_record cur (reduceOutcomeContract H cur m)"
  by (auto simp: reduceOutcomeContract_def Let_def split: sum.splits)

lemma keeps_activate: "keeps_record cur (reduceOutcomeActivate H cur e t)"
  by (auto simp: reduceOutcomeActivate_def split: sum.splits)

lemma keeps_title: "keeps_record cur (reduceOutcomeTitle cur m)"
  by (auto simp: reduceOutcomeTitle_def split: sum.splits)

lemma keeps_patch: "keeps_record cur (reduceOutcomePatch H cur m)"
  by (auto simp: reduceOutcomePatch_def Let_def split: sum.splits)

lemma keeps_gateway_patch: "keeps_record cur (reduceGatewayOutcomePatch H cur m)"
  by (cases rule: reduceGatewayOutcomePatch_cases [of m H cur])
     (simp_all only: keeps_title keeps_contract keeps_patch)

lemma keeps_link: "keeps_record cur (reduceOutcomeLink H cur m)"
  by (auto simp: reduceOutcomeLink_def reduceWorkboardRefContract_def Let_def keeps_contract
      split: sum.splits option.splits)

lemma keeps_unlink: "keeps_record cur (reduceOutcomeUnlink H cur m)"
  by (auto simp: reduceOutcomeUnlink_def reduceWorkboardRefContract_def Let_def keeps_contract
      split: sum.splits option.splits)

lemma keeps_refresh: "keeps_record cur (reduceOutcomeRefresh cur m)"
  by (auto simp: reduceOutcomeRefresh_def Let_def split: sum.splits)

lemma keeps_cancel: "keeps_record cur (reduceOutcomeCancel cur e t)"
  by (auto simp: reduceOutcomeCancel_def split: sum.splits)

lemma keeps_assurance_step:
  "keeps_record cur (map_sum id of_assurance (Inr (decide_observed H cur ob dm now)))"
  "keeps_record cur (map_sum id of_assurance (Inr (accept_observed H cur ob am now)))"
  by (auto simp: decide_observed_def accept_observed_def Let_def split: option.splits)

lemma keeps_decision: "keeps_record cur (map_sum id of_assurance (reduceOutcomeDecision H cur m))"
  using keeps_assurance_step(1) [of cur H]
  by (auto simp: reduceOutcomeDecision_def split: sum.splits option.splits)

lemma keeps_acceptance: "keeps_record cur (map_sum id of_assurance (reduceOutcomeAcceptance H cur m))"
  using keeps_assurance_step(2) [of cur H]
  by (auto simp: reduceOutcomeAcceptance_def split: sum.splits option.splits)

lemma outcome_step_keeps: "keeps_record cur (outcome_step H c cur)"
  by (cases c) (simp_all add: keeps_contract keeps_activate keeps_title keeps_patch
      keeps_gateway_patch keeps_link keeps_unlink keeps_refresh keeps_cancel keeps_decision
      keeps_acceptance)

section \<open>The interface of a compare-and-set reducer\<close>

definition commit :: "('m \<Rightarrow> OutcomeRecord \<Rightarrow> outcome_decision) \<Rightarrow> 'm \<Rightarrow> OutcomeRecord \<Rightarrow> OutcomeRecord"
where
  "commit step c cur = (case step c cur of Inr (Updated r') \<Rightarrow> r' | _ \<Rightarrow> cur)"

definition run_commands ::
  "('m \<Rightarrow> OutcomeRecord \<Rightarrow> outcome_decision) \<Rightarrow> 'm list \<Rightarrow> OutcomeRecord \<Rightarrow> OutcomeRecord" where
  "run_commands step cs r = fold (commit step) cs r"

fun commits :: "('m \<Rightarrow> OutcomeRecord \<Rightarrow> outcome_decision) \<Rightarrow> 'm list \<Rightarrow> OutcomeRecord \<Rightarrow> nat" where
  "commits step [] r = 0"
| "commits step (c # cs) r =
     (case step c r of Inr (Updated r') \<Rightarrow> Suc (commits step cs r') | _ \<Rightarrow> commits step cs r)"

lemma run_commands_simps [simp]:
  "run_commands step [] r = r"
  "run_commands step (c # cs) r = run_commands step cs (commit step c r)"
  by (simp_all add: run_commands_def)

lemma commits_le: "commits step cs r \<le> length cs"
  by (induction step cs r rule: commits.induct) (auto split: sum.splits outcome_result.splits)

lemma commit_cases:
  obtains (updated) r' where "step c r = Inr (Updated r')" "commit step c r = r'"
      "commits step (c # cs) r = Suc (commits step cs r')"
  | (kept) "commit step c r = r" "commits step (c # cs) r = commits step cs r"
proof (cases "\<exists>r'. step c r = Inr (Updated r')")
  case True
  then obtain r' where "step c r = Inr (Updated r')" by blast
  then show thesis by (intro updated) (simp_all add: commit_def)
next
  case False
  then show thesis by (intro kept) (auto simp: commit_def split: sum.splits outcome_result.splits)
qed

locale cas_reducer =
  fixes step :: "'m \<Rightarrow> OutcomeRecord \<Rightarrow> outcome_decision"
    and expected :: "'m \<Rightarrow> int"
  assumes update_current: "step c cur = Inr (Updated r') \<Longrightarrow> expected c = rc_revision cur"
    and update_next: "step c cur = Inr (Updated r') \<Longrightarrow>
      rc_revision r' = rc_revision cur + 1 \<and> same_outcome cur r'"
begin

lemma run_revision:
  "rc_revision (run_commands step cs r) = rc_revision r + int (commits step cs r)"
proof (induction cs arbitrary: r)
  case (Cons c cs)
  show ?case
    by (cases rule: commit_cases [of step c r cs]) (simp_all add: Cons update_next)
qed simp

lemma run_same_outcome: "same_outcome r (run_commands step cs r)"
proof (induction cs arbitrary: r)
  case (Cons c cs)
  show ?case
    using Cons [of "commit step c r"]
    by (cases rule: commit_cases [of step c r cs]) (auto simp: same_outcome_def dest: update_next)
qed (simp add: same_outcome_def)

text \<open>Once a command has updated the record, no other command made against that revision can.\<close>

lemma superseded:
  assumes "step c cur = Inr (Updated r1)" "expected c' = expected c"
  shows "step c' (run_commands step cs r1) \<noteq> Inr (Updated r2)"
proof
  assume "step c' (run_commands step cs r1) = Inr (Updated r2)"
  then have "expected c = rc_revision (run_commands step cs r1)"
    using update_current assms(2) by metis
  moreover have "expected c = rc_revision cur" "rc_revision r1 = rc_revision cur + 1"
    using update_current update_next assms(1) by blast+
  ultimately show False
    using run_revision [of cs r1] by simp
qed

end

interpretation oc: cas_reducer "outcome_step H" expected_revision for H
  by unfold_locales (auto dest: outcome_step_Updated simp: update_step_def)

section \<open>Runs of commands\<close>

lemma valid_record_step:
  assumes valid: "valid_record H cur" and hex: "hex_hash H"
    and rev: "rc_revision cur < MAX_SAFE_INTEGER"
    and req: "valid_command H c" and upd: "outcome_step H c cur = Inr (Updated r')"
  shows "valid_record H r'"
proof (cases c)
  case (UpdateContract m)
  then show ?thesis
    using req upd by (auto simp: of_assurance_Updated intro: valid_record_contract [OF valid hex rev])
next
  case (Activate e t)
  then show ?thesis
    using req upd by (auto simp: of_assurance_Updated intro: valid_record_activate [OF valid hex rev])
next
  case (Retitle m)
  then show ?thesis
    using req upd by (auto simp: of_assurance_Updated intro: valid_record_retitle [OF valid rev])
next
  case (Patch m)
  then show ?thesis
    using req upd by (auto simp: of_assurance_Updated intro: valid_record_patch [OF valid hex rev])
next
  case (GatewayPatch m)
  then show ?thesis
    using req upd by (auto simp: of_assurance_Updated intro: valid_record_gateway_patch [OF valid hex rev])
next
  case (LinkWorkboard m)
  then show ?thesis
    using req upd by (auto simp: of_assurance_Updated intro: valid_record_link [OF valid hex rev])
next
  case (UnlinkWorkboard m)
  then show ?thesis
    using req upd by (auto simp: of_assurance_Updated intro: valid_record_unlink [OF valid hex rev])
next
  case (Refresh m)
  then show ?thesis
    using req upd by (auto simp: of_assurance_Updated intro: valid_record_refresh [OF valid rev])
next
  case (Cancel e t)
  then show ?thesis
    using req upd by (auto simp: of_assurance_Updated intro: valid_record_cancel [OF valid rev])
next
  case (Decide m)
  then show ?thesis
    using req upd by (auto simp: of_assurance_Updated intro: valid_record_decision [OF valid hex rev])
next
  case (Accept m)
  then show ?thesis
    using req upd by (auto simp: of_assurance_Updated intro: valid_record_acceptance [OF valid hex rev])
qed

lemma extends_history_refl: "extends_history r r"
  by (simp add: extends_history_def)

lemma extends_history_trans:
  "extends_history a b \<Longrightarrow> extends_history b c \<Longrightarrow> extends_history a c"
  unfolding extends_history_def by fastforce

lemma commit_extends_history: "extends_history r (commit (outcome_step H) c r)"
  by (cases rule: commit_cases [of "outcome_step H" c r "[]"])
     (auto simp: extends_history_refl dest: outcome_step_Updated simp: update_step_def)

lemma commit_cancelled: "rc_phase r = Cancelled \<Longrightarrow> commit (outcome_step H) c r = r"
  by (cases rule: commit_cases [of "outcome_step H" c r "[]"])
     (auto dest!: outcome_step_Updated simp: update_step_def phase_step_def)

lemma commit_generation:
  assumes "valid_record H r"
  shows "rc_planGeneration r \<le> rc_planGeneration (commit (outcome_step H) c r)"
proof -
  have "rc_phase r = Draft \<Longrightarrow> rc_planGeneration r = 0"
    using assms by (simp add: valid_record_def valid_phase_def)
  then show ?thesis
    by (cases rule: commit_cases [of "outcome_step H" c r "[]"])
       (auto dest!: outcome_step_Updated simp: update_step_def plan_step_def split: if_splits)
qed

text \<open>C2: Every update made by a gateway-checked command turns a record that satisfies the
  stored-record schema of \<open>schema.ts\<close> into one that satisfies it again, over any sequence of
  commands, as long as the revision stays below the last safe integer.\<close>

theorem run_keeps_valid:
  assumes "valid_record H r" "hex_hash H" "list_all (valid_command H) cs"
    "rc_revision r + int (length cs) \<le> MAX_SAFE_INTEGER"
  shows "valid_record H (run_commands (outcome_step H) cs r)"
  using assms
proof (induction cs arbitrary: r)
  case (Cons c cs)
  show ?case
  proof (cases rule: commit_cases [of "outcome_step H" c r cs])
    case (updated r')
    have "valid_record H r'"
      using Cons.prems by (intro valid_record_step [OF _ _ _ _ updated(1)]) simp_all
    with Cons updated oc.update_next [OF updated(1)] show ?thesis
      by simp
  qed (use Cons in simp)
qed simp

text \<open>C35: No lost update: once a command made against a revision has updated the record, no
  other command made against the same revision updates it, whatever ran in between.\<close>

theorem no_lost_update:
  assumes "outcome_step H c cur = Inr (Updated r1)" "expected_revision c' = expected_revision c"
  shows "outcome_step H c' (run_commands (outcome_step H) cs r1) \<noteq> Inr (Updated r2)"
  using assms by (rule oc.superseded)

text \<open>The revision counts the committed updates, and identity, owner, create hash and
  creation time never change.\<close>

theorem revision_counts_commits:
  "rc_revision (run_commands (outcome_step H) cs r) = rc_revision r + int (commits (outcome_step H) cs r)
   \<and> same_outcome r (run_commands (outcome_step H) cs r)"
  by (simp add: oc.run_revision oc.run_same_outcome)

text \<open>Decisions and acceptances are append-only, operations are never touched by a
  command, and no evidence id disappears, over any sequence of commands.\<close>

theorem history_append_only:
  "extends_history r (run_commands (outcome_step H) cs r)"
proof (induction cs arbitrary: r)
  case (Cons c cs)
  show ?case
    using extends_history_trans [OF commit_extends_history Cons] by simp
qed (simp add: extends_history_refl)

text \<open>A cancelled Outcome is final: no sequence of commands changes it.\<close>

theorem cancelled_is_final:
  assumes "rc_phase r = Cancelled"
  shows "run_commands (outcome_step H) cs r = r"
  using assms by (induction cs) (simp_all add: commit_cancelled)

text \<open>The phase machine: an update moves draft to active, active to accepted, accepted back
  to active, draft or active to cancelled, or keeps the phase; a changed contract bumps the contract
  revision and, past the draft, the plan generation and takes an accepted Outcome back to
  active, while an unchanged contract keeps objective, criteria and plan hash (or activates).\<close>

theorem update_moves_phase_and_plan:
  assumes "outcome_step H c cur = Inr (Updated r')"
  shows "phase_step (rc_phase cur) (rc_phase r') \<and> plan_step cur r' \<and>
    expected_revision c = rc_revision cur"
  using outcome_step_Updated [OF assms] by (simp add: update_step_def)

text \<open>A command that does not update (conflict, no-op, rejection) answers with the current
  record unchanged.\<close>

theorem refusal_keeps_record:
  assumes "outcome_step H c cur = Inr x" "\<forall>r'. x \<noteq> Updated r'"
  shows "result_record x = cur"
  using outcome_step_keeps [of cur H c] assms by (simp add: keeps_record_def)

end
