(* ===== verification/Outcome_Decisions.thy ===== *)
theory Outcome_Decisions
  imports Outcome_Lifecycle
begin

text \<open>
  What a decision and an acceptance guarantee: replays are idempotent whatever ran in between, a
  decision is the one that stands right after it is recorded, an acceptance always carries the
  closure of the record it accepted, and no closure is accepted twice.
\<close>

section \<open>Replays\<close>

lemma find_append_fresh:
  "(\<forall>x \<in> set xs. \<not> P x) \<Longrightarrow> P y \<Longrightarrow> find P (xs @ y # ys) = Some y"
  by (induction xs) simp_all

lemma run_extends_history: "extends_history r (run_commands (outcome_step H) cs r)"
proof (induction cs arbitrary: r)
  case (Cons c cs)
  show ?case
    using extends_history_trans [OF commit_extends_history Cons] by simp
qed (simp add: extends_history_refl)

lemma decision_recorded:
  assumes "reduceOutcomeDecision H cur m = Inr (AUpdated r' False)"
  shows "\<exists>d. find (\<lambda>d. de_id d = dm_id m)
      (rc_decisions (run_commands (outcome_step H) cs r')) = Some d \<and>
    de_id d = dm_id m \<and> de_requestHash d = dm_requestHash m"
  using assms
proof (cases rule: reduceOutcomeDecision_Updated)
  case (1 now observed c ph digests)
  obtain ds where "rc_decisions (run_commands (outcome_step H) cs r') = rc_decisions r' @ ds"
    using run_extends_history [of r' H cs] by (auto simp: extends_history_def)
  with 1(2,14) observe_revision(3) [OF 1(4)] show ?thesis
    by (simp add: find_append_fresh)
qed

lemma acceptance_recorded:
  assumes "reduceOutcomeAcceptance H cur m = Inr (AUpdated r' False)"
  shows "\<exists>a. find (\<lambda>a. ac_id a = am_id m)
      (rc_acceptances (run_commands (outcome_step H) cs r')) = Some a \<and>
    ac_id a = am_id m \<and> ac_requestHash a = am_requestHash m"
  using assms
proof (cases rule: reduceOutcomeAcceptance_Updated)
  case (1 now observed ph)
  obtain xs where "rc_acceptances (run_commands (outcome_step H) cs r') = rc_acceptances r' @ xs"
    using run_extends_history [of r' H cs] by (auto simp: extends_history_def)
  with 1(2,11) observe_revision(4) [OF 1(4)] show ?thesis
    by (simp add: find_append_fresh)
qed

text \<open>Once a decision was recorded, and whatever commands ran since, the same request
  is answered as a replay of the stored record without touching it, and another request under the
  same id is refused as an operation conflict.\<close>

theorem decision_replays:
  assumes "reduceOutcomeDecision H cur m = Inr (AUpdated r' False)" "dm_id m' = dm_id m"
    "dm_serverTime m' = Finite t" "r = run_commands (outcome_step H) cs r'"
  shows "reduceOutcomeDecision H r m' =
    Inr (if dm_requestHash m' = dm_requestHash m then AUpdated r True
         else AConflict OperationConflict r)"
  using decision_recorded [OF assms(1), of cs] assms(2-4)
  by (auto simp: reduceOutcomeDecision_def)

text \<open>The same for acceptances: a retry of a recorded acceptance is a replay, and its id
  cannot be reused for another request.\<close>

theorem acceptance_replays:
  assumes "reduceOutcomeAcceptance H cur m = Inr (AUpdated r' False)" "am_id m' = am_id m"
    "am_serverTime m' = Finite t" "r = run_commands (outcome_step H) cs r'"
  shows "reduceOutcomeAcceptance H r m' =
    Inr (if am_requestHash m' = am_requestHash m then AUpdated r True
         else AConflict OperationConflict r)"
  using acceptance_recorded [OF assms(1), of cs] assms(2-4)
  by (auto simp: reduceOutcomeAcceptance_def)

section \<open>The decision that stands\<close>

lemma digests_cong:
  assumes "rc_evidence r = rc_evidence r'" "rc_planGeneration r = rc_planGeneration r'"
  shows "currentOutcomeEvidenceSourceDigests r c ps t = currentOutcomeEvidenceSourceDigests r' c ps t"
  unfolding currentOutcomeEvidenceSourceDigests_def assms ..

text \<open>On a stored record, a decision that is recorded is the decision that stands for its
  criterion at that moment; if it rejects the criterion, the Outcome has no closure.\<close>

theorem recorded_decision_stands:
  assumes valid: "valid_record H cur"
    and upd: "reduceOutcomeDecision H cur m = Inr (AUpdated r' False)"
    and now: "dm_serverTime m = Finite t"
  shows "\<exists>c d ds. c \<in> set (rc_criteria r') \<and> cr_id c = dm_criterionId m \<and>
      currentOutcomeDecision H r' c (rc_projections r') t =
        Some \<lparr>cd_decision = d, cd_sourceDigests = ds\<rparr> \<and>
      de_id d = dm_id m \<and> de_status d = dm_status m \<and> de_decidedRevision d = rc_revision r' \<and>
      (dm_status m = RejectedDecision \<longrightarrow> deriveOutcomeClosure H r' (rc_projections r') t = None)"
  using upd
proof (cases rule: reduceOutcomeDecision_Updated)
  case (1 now' observed c ph digests)
  note keep = observe_revision [OF 1(4)]
  have t: "now' = t" using now 1(1) by simp
  have c: "c \<in> set (rc_criteria r')" "cr_id c = dm_criterionId m"
    using find_SomeD [OF 1(6)] 1(14) by simp_all
  let ?d = "last (rc_decisions r')"
  have ds: "rc_decisions r' = rc_decisions cur @ [?d]" and d: "de_id ?d = dm_id m"
      "de_status ?d = dm_status m" "de_decidedRevision ?d = rc_revision r'"
      "de_criterionId ?d = cr_id c" "de_planGeneration ?d = rc_planGeneration r'"
      "rc_planHash r' = Some (de_planHash ?d)" "de_evidenceSetHash ?d = dm_evidenceSetHash m"
      "rc_revision r' = rc_revision cur + 1"
    using 1(7,14) keep(3) by simp_all
  have older: "\<forall>d' \<in> set (rc_decisions cur). de_decidedRevision d' \<le> rc_revision cur"
    and dist: "distinct (map de_decidedRevision (rc_decisions cur))"
    using valid by (simp_all add: valid_record_def valid_history_def list_all_iff)
  have "distinct (map de_decidedRevision (rc_decisions r'))"
    using dist older d(3,8) by (subst ds) auto
  moreover have "\<forall>d' \<in> set (rc_decisions r'). de_decidedRevision d' \<le> de_decidedRevision ?d"
    using older d(3,8) by (subst ds) auto
  moreover have "?d \<in> set (rc_decisions r')"
    by (subst ds) simp
  ultimately have sel: "selected_decision r' c = Some ?d"
    using d by (subst selected_decision_Some) auto
  have dig: "currentOutcomeEvidenceSourceDigests r' c (rc_projections r') t = Some digests"
    using 1(8,14) t digests_cong [of r' observed] by simp
  have cur: "currentOutcomeDecision H r' c (rc_projections r') t =
      Some \<lparr>cd_decision = ?d, cd_sourceDigests = digests\<rparr>"
    using sel dig d 1(10,14) by (subst currentOutcomeDecision_Some) simp
  have "\<not> closed_contract H r' (rc_projections r') t" if "dm_status m = RejectedDecision"
    using cur c(1) d(2) that unfolding closed_contract_def
    by (metis CurrentDecision.select_convs(1))
  with c cur d show ?thesis
    by (auto simp: deriveOutcomeClosure_eq)
qed

section \<open>Acceptance\<close>

lemma acceptance_appended:
  assumes "reduceOutcomeAcceptance H cur m = Inr (AUpdated r' False)" "am_serverTime m = Finite t"
  obtains a where "rc_acceptances r' = rc_acceptances cur @ [a]" "rc_phase r' = Accepted"
    "deriveOutcomeClosure H r' (rc_projections r') t = Some (ac_closureHash a)"
    "ac_acceptedPlan a = record_plan r'" "rc_planHash r' = Some (ac_planHash a)"
    "ac_planGeneration a = rc_planGeneration r'" "ac_acceptedRevision a = rc_revision cur + 1"
    "rc_revision r' = rc_revision cur + 1"
  using assms(1)
proof (cases rule: reduceOutcomeAcceptance_Updated)
  case (1 now observed ph)
  note keep = observe_revision [OF 1(4)]
  have t: "now = t" using assms(2) 1(1) by simp
  have "deriveOutcomeClosure H r' (rc_projections r') t = Some (am_closureHash m)"
    using 1(5,7,11) t deriveOutcomeClosure_cong [of r' observed H] by simp
  moreover have "record_plan r' = record_plan observed"
    using 1(11) by (simp add: record_plan_def)
  ultimately show thesis
    using 1(6,11) keep(4) by (intro that [of "last (rc_acceptances r')"]) simp_all
qed

text \<open>C4: An acceptance is recorded only for a closed contract: the accepted record derives,
  from its own projections at the time of the acceptance, exactly the closure hash the acceptance
  carries, the acceptance embeds the current plan and its hash, and the phase is accepted.\<close>

theorem acceptance_carries_closure:
  assumes "reduceOutcomeAcceptance H cur m = Inr (AUpdated r' False)" "am_serverTime m = Finite t"
  shows "\<exists>a. rc_acceptances r' = rc_acceptances cur @ [a] \<and> rc_phase r' = Accepted \<and>
      deriveOutcomeClosure H r' (rc_projections r') t = Some (ac_closureHash a) \<and>
      closed_contract H r' (rc_projections r') t \<and>
      ac_acceptedPlan a = currentOutcomePlanSnapshot r' \<and> rc_planHash r' = Some (ac_planHash a) \<and>
      ac_planGeneration a = rc_planGeneration r' \<and> ac_acceptedRevision a = rc_revision r'"
proof -
  obtain a where a: "rc_acceptances r' = rc_acceptances cur @ [a]" "rc_phase r' = Accepted"
    "deriveOutcomeClosure H r' (rc_projections r') t = Some (ac_closureHash a)"
    "ac_acceptedPlan a = record_plan r'" "rc_planHash r' = Some (ac_planHash a)"
    "ac_planGeneration a = rc_planGeneration r'" "ac_acceptedRevision a = rc_revision cur + 1"
    "rc_revision r' = rc_revision cur + 1"
    by (rule acceptance_appended [OF assms])
  from a(3) have "closed_contract H r' (rc_projections r') t"
    by (simp add: deriveOutcomeClosure_eq split: if_splits)
  with a show ?thesis by (simp add: currentOutcomePlanSnapshot_eq)
qed

definition accepted_closure :: "Acceptance \<Rightarrow> int \<times> string \<times> string" where
  "accepted_closure a = (ac_planGeneration a, ac_planHash a, ac_closureHash a)"

lemma step_acceptances:
  assumes "outcome_step H c cur = Inr (Updated r')"
  shows "rc_acceptances r' = rc_acceptances cur \<or>
    (\<exists>a. rc_acceptances r' = rc_acceptances cur @ [a] \<and>
       accepted_closure a \<notin> accepted_closure ` set (rc_acceptances cur))"
proof (cases c)
  case (UpdateContract m)
  with assms show ?thesis by (auto elim: reduceOutcomeContract_Updated)
next
  case (Activate e t)
  with assms show ?thesis by (auto elim: reduceOutcomeActivate_Updated)
next
  case (Retitle m)
  with assms show ?thesis by (auto elim: reduceOutcomeTitle_Updated)
next
  case (Patch m)
  with assms show ?thesis by (auto elim: reduceOutcomePatch_Updated)
next
  case (GatewayPatch m)
  with assms show ?thesis
    by (cases rule: reduceGatewayOutcomePatch_cases [of m H cur])
       (auto elim: reduceOutcomeTitle_Updated reduceOutcomeContract_Updated reduceOutcomePatch_Updated)
next
  case (LinkWorkboard m)
  with assms show ?thesis
    by (auto elim!: reduceOutcomeLink_Updated elim: reduceOutcomeContract_Updated)
next
  case (UnlinkWorkboard m)
  with assms show ?thesis
    by (auto elim!: reduceOutcomeUnlink_Updated elim: reduceOutcomeContract_Updated)
next
  case (Refresh m)
  with assms show ?thesis by (auto elim: reduceOutcomeRefresh_Updated)
next
  case (Cancel e t)
  with assms show ?thesis by (auto elim: reduceOutcomeCancel_Updated)
next
  case (Decide m)
  with assms have "reduceOutcomeDecision H cur m = Inr (AUpdated r' False)"
    by (simp add: of_assurance_Updated)
  then show ?thesis
    by (cases rule: reduceOutcomeDecision_Updated) (simp add: observe_revision)
next
  case (Accept m)
  with assms have "reduceOutcomeAcceptance H cur m = Inr (AUpdated r' False)"
    by (simp add: of_assurance_Updated)
  then show ?thesis
  proof (cases rule: reduceOutcomeAcceptance_Updated)
    case (1 now observed ph)
    then show ?thesis
      using observe_revision(4) [OF 1(4)]
      by (auto simp: accepted_closure_def)
  qed
qed

text \<open>No closure is accepted twice: over any sequence of commands the acceptances stay
  pairwise different in plan generation, plan hash and closure hash.\<close>

theorem closures_accepted_once:
  assumes "distinct (map accepted_closure (rc_acceptances r))"
  shows "distinct (map accepted_closure (rc_acceptances (run_commands (outcome_step H) cs r)))"
  using assms
proof (induction cs arbitrary: r)
  case (Cons c cs)
  have "distinct (map accepted_closure (rc_acceptances (commit (outcome_step H) c r)))"
  proof (cases rule: commit_cases [of "outcome_step H" c r "[]"])
    case (updated r')
    with step_acceptances [OF updated(1)] Cons.prems show ?thesis by auto
  qed (use Cons.prems in simp)
  then show ?case using Cons.IH by simp
qed simp

text \<open>A closure can only expire: if the record is closed at some time, it was closed at
  every earlier time for the same projections, with the same closure hash.\<close>

theorem closure_only_expires:
  assumes "t1 \<le> t2" "deriveOutcomeClosure H r ps t2 = Some h"
  shows "deriveOutcomeClosure H r ps t1 = Some h"
  using closed_contract_earlier [OF assms(1), of H r ps] assms(2)
  by (simp add: deriveOutcomeClosure_eq split: if_splits)

text \<open>C1: A closure means what it promises: the Outcome is active or accepted with no
  operation in flight, every projection is available, unblocked and seen within the last 24
  hours, and every required criterion is linked, observed through all of its cards, and verified by
  the latest decision of the current plan generation, which was made on the current plan hash and
  on exactly the evidence that is current, and that evidence is not empty.\<close>

theorem closure_sound:
  assumes valid: "valid_record H r" and ids: "distinct (map (\<lambda>p. workRefIdentity (pj_ref p)) ps)"
    and closed: "deriveOutcomeClosure H r ps t = Some h"
  shows "rc_phase r \<in> {Active, Accepted} \<and> \<not> hasInFlightOperation r \<and>
    (\<forall>p \<in> set ps. pj_availability p = Available \<and> pj_status p \<noteq> Some ''blocked'' \<and>
       (\<exists>s. pj_lastSuccessfulAt p = Some s \<and> t - s < OUTCOME_PROJECTION_MAX_AGE_MS)) \<and>
    (\<forall>c \<in> set (rc_criteria r). cr_required c \<longrightarrow> criterion_observed c ps t \<and>
       (\<exists>d ds. d \<in> set (rc_decisions r) \<and> de_criterionId d = cr_id c \<and> de_status d = Verified \<and>
          de_planGeneration d = rc_planGeneration r \<and> rc_planHash r = Some (de_planHash d) \<and>
          (\<forall>d' \<in> set (rc_decisions r). de_criterionId d' = cr_id c \<longrightarrow>
             de_planGeneration d' = rc_planGeneration r \<longrightarrow>
             de_decidedRevision d' \<le> de_decidedRevision d) \<and>
          currentOutcomeEvidenceSourceDigests r c ps t = Some ds \<and> ds \<noteq> [] \<and>
          de_evidenceSetHash d = evidenceSetHash H (cr_id c) (rc_planGeneration r) ds))"
proof -
  have cc: "closed_contract H r ps t"
    using closed by (simp add: deriveOutcomeClosure_eq split: if_splits)
  have revs: "distinct (map de_decidedRevision (rc_decisions r))"
    using valid by (simp add: valid_record_def valid_history_def)
  have "criterion_observed c ps t \<and>
       (\<exists>d ds. d \<in> set (rc_decisions r) \<and> de_criterionId d = cr_id c \<and> de_status d = Verified \<and>
          de_planGeneration d = rc_planGeneration r \<and> rc_planHash r = Some (de_planHash d) \<and>
          (\<forall>d' \<in> set (rc_decisions r). de_criterionId d' = cr_id c \<longrightarrow>
             de_planGeneration d' = rc_planGeneration r \<longrightarrow>
             de_decidedRevision d' \<le> de_decidedRevision d) \<and>
          currentOutcomeEvidenceSourceDigests r c ps t = Some ds \<and> ds \<noteq> [] \<and>
          de_evidenceSetHash d = evidenceSetHash H (cr_id c) (rc_planGeneration r) ds)"
    if c: "c \<in> set (rc_criteria r)" "cr_required c" for c
  proof -
    obtain cd where cd: "currentOutcomeDecision H r c ps t = Some cd"
      "de_status (cd_decision cd) = Verified" "cd_sourceDigests cd \<noteq> []"
      using cc c by (auto simp: closed_contract_def verified_criterion_def)
    note parts = cd(1) [unfolded currentOutcomeDecision_Some]
    have "criterion_observed c ps t"
      using parts sourceDigests_observed [OF ids, of r c t] by simp
    moreover have "selected_decision r c = Some (cd_decision cd)"
      using parts by blast
    note this [unfolded selected_decision_Some [OF revs]]
    ultimately show ?thesis
      using parts cd(2,3) by blast
  qed
  moreover have "rc_phase r \<in> {Active, Accepted}" "\<not> hasInFlightOperation r"
    "\<forall>p \<in> set ps. pj_availability p = Available \<and> pj_status p \<noteq> Some ''blocked'' \<and>
       \<not> isStaleOutcomeProjection p t"
    using cc by (simp_all add: closed_contract_def all_clear_def)
  moreover from this(3) have "\<forall>p \<in> set ps. \<exists>s. pj_lastSuccessfulAt p = Some s \<and>
      t - s < OUTCOME_PROJECTION_MAX_AGE_MS"
    by (auto simp: isStaleOutcomeProjection_def not_le split: option.splits)
  ultimately show ?thesis by blast
qed

end
