(* ===== verification/Keyed_Store.thy ===== *)
theory Keyed_Store
  imports Prelude
begin

text \<open>
  One namespace of the host's keyed plugin store, \<open>src/plugin-state/plugin-state-store.ts\<close>
  and \<open>plugin-state-store.sqlite.ts\<close>, as the plugins of the repository use it: without an
  expiry and with the overflow policy \<open>reject-new\<close>. Each operation is one SQLite write
  transaction: a callback that throws rolls it back, which here is an \<open>Inl\<close> without a
  state. The live rows are an insertion-ordered map; rows of other namespaces only count against
  the limit of the plugin. The order SQL returns rows in is not modelled: the clients sort.

  The locale \<open>keyed_store\<close> is the contract a client relies on.
\<close>

record store_limits =
  maxEntries :: nat
  maxPluginEntries :: nat
  otherNamespaceEntries :: nat

type_synonym 'v rows = "(string, 'v) jsmap"

datatype 'e store_error = LimitExceeded | Thrown 'e

section \<open>Operations\<close>

definition assertCanInsertPluginStateEntry ::
  "store_limits \<Rightarrow> 'v rows \<Rightarrow> 'e store_error + unit" where
  "assertCanInsertPluginStateEntry lim rows =
     (if maxEntries lim \<le> length rows then Inl LimitExceeded
      else if maxPluginEntries lim \<le> otherNamespaceEntries lim + length rows then Inl LimitExceeded
      else Inr ())"

definition pluginStateRegisterIfAbsent ::
  "store_limits \<Rightarrow> string \<Rightarrow> 'v \<Rightarrow> 'v rows \<Rightarrow> 'e store_error + (bool \<times> 'v rows)" where
  "pluginStateRegisterIfAbsent lim k v rows =
     (case jm_get rows k of Some _ \<Rightarrow> Inr (False, rows)
      | None \<Rightarrow>
          (case assertCanInsertPluginStateEntry lim rows of Inl e \<Rightarrow> Inl e
           | Inr _ \<Rightarrow> Inr (True, jm_set k v rows)))"

text \<open>
  The update callback sees the current value and returns what its caller keeps of the call
  (\<open>'r\<close>) with the value to write, if any.
\<close>

definition pluginStateUpdate ::
  "store_limits \<Rightarrow> string \<Rightarrow> ('v option \<Rightarrow> 'e + ('r \<times> 'v option)) \<Rightarrow> 'v rows
    \<Rightarrow> 'e store_error + ('r \<times> bool \<times> 'v rows)" where
  "pluginStateUpdate lim k f rows =
     (case f (jm_get rows k) of Inl e \<Rightarrow> Inl (Thrown e)
      | Inr (res, None) \<Rightarrow> Inr (res, False, rows)
      | Inr (res, Some v) \<Rightarrow>
          (case (if jm_get rows k = None then assertCanInsertPluginStateEntry lim rows else Inr ()) of
             Inl e \<Rightarrow> Inl e
           | Inr _ \<Rightarrow> Inr (res, True, jm_set k v rows)))"

definition pluginStateLookup :: "string \<Rightarrow> 'v rows \<Rightarrow> 'v option" where
  "pluginStateLookup k rows = jm_get rows k"

definition pluginStateDeleteIf ::
  "string \<Rightarrow> ('v \<Rightarrow> 'e + bool) \<Rightarrow> 'v rows \<Rightarrow> 'e store_error + (bool \<times> 'v rows)" where
  "pluginStateDeleteIf k predicate rows =
     (case jm_get rows k of None \<Rightarrow> Inr (False, rows)
      | Some v \<Rightarrow>
          (case predicate v of Inl e \<Rightarrow> Inl (Thrown e)
           | Inr False \<Rightarrow> Inr (False, rows)
           | Inr True \<Rightarrow> Inr (True, jm_delete k rows)))"

definition pluginStateEntries :: "'v rows \<Rightarrow> (string \<times> 'v) list" where
  "pluginStateEntries rows = rows"

section \<open>The contract\<close>

locale keyed_store =
  fixes ok :: "'s \<Rightarrow> bool"
    and lookup :: "'k \<Rightarrow> 's \<Rightarrow> 'v option"
    and entries :: "'s \<Rightarrow> ('k \<times> 'v) list"
    and registerIfAbsent :: "'k \<Rightarrow> 'v \<Rightarrow> 's \<Rightarrow> 'e store_error + (bool \<times> 's)"
    and update :: "'k \<Rightarrow> ('v option \<Rightarrow> 'e + ('r \<times> 'v option)) \<Rightarrow> 's
      \<Rightarrow> 'e store_error + ('r \<times> bool \<times> 's)"
    and deleteIf :: "'k \<Rightarrow> ('v \<Rightarrow> 'e + bool) \<Rightarrow> 's \<Rightarrow> 'e store_error + (bool \<times> 's)"
  assumes entries_distinct: "ok s \<Longrightarrow> distinct (map fst (entries s))"
    and entries_lookup: "ok s \<Longrightarrow> (k, v) \<in> set (entries s) \<longleftrightarrow> lookup k s = Some v"
    and register_law: "ok s \<Longrightarrow> registerIfAbsent k v s = Inr (b, s') \<Longrightarrow>
      ok s' \<and> b = (lookup k s = None) \<and>
      (\<forall>k'. lookup k' s' = (if b \<and> k' = k then Some v else lookup k' s))"
    and update_law: "ok s \<Longrightarrow> update k f s = Inr (res, b, s') \<Longrightarrow>
      ok s' \<and> (\<exists>next. f (lookup k s) = Inr (res, next) \<and> b = (next \<noteq> None) \<and>
        (\<forall>k'. lookup k' s' = (if next \<noteq> None \<and> k' = k then next else lookup k' s)))"
    and delete_law: "ok s \<Longrightarrow> deleteIf k p s = Inr (b, s') \<Longrightarrow>
      ok s' \<and> b = (\<exists>v. lookup k s = Some v \<and> p v = Inr True) \<and>
      (\<forall>k'. lookup k' s' = (if b \<and> k' = k then None else lookup k' s))"
begin

text \<open>A property of the stored values survives every operation that only writes values with it.\<close>

definition holds :: "('k \<Rightarrow> 'v \<Rightarrow> bool) \<Rightarrow> 's \<Rightarrow> bool" where
  "holds Q s \<longleftrightarrow> ok s \<and> (\<forall>k v. lookup k s = Some v \<longrightarrow> Q k v)"

lemma holds_register:
  assumes "holds Q s" "registerIfAbsent k v s = Inr (b, s')" "b \<Longrightarrow> Q k v"
  shows "holds Q s'"
  using assms register_law [of s k v b s'] by (auto simp: holds_def split: if_splits)

lemma holds_update:
  assumes "holds Q s" "update k f s = Inr (res, b, s')"
    "\<And>old new. lookup k s = old \<Longrightarrow> f old = Inr (res, Some new) \<Longrightarrow> Q k new"
  shows "holds Q s'"
  unfolding holds_def
proof (intro conjI allI impI)
  have "ok s" using assms(1) by (simp add: holds_def)
  note law = update_law [OF this assms(2)]
  then show "ok s'" by blast
  fix k' v assume v: "lookup k' s' = Some v"
  from law obtain new where new: "f (lookup k s) = Inr (res, new)"
    "\<forall>k'. lookup k' s' = (if new \<noteq> None \<and> k' = k then new else lookup k' s)" by blast
  show "Q k' v"
  proof (cases "new \<noteq> None \<and> k' = k")
    case True
    with new v have "f (lookup k s) = Inr (res, Some v)" by simp
    with assms(3) True show ?thesis by blast
  next
    case False
    with new v have "lookup k' s = Some v" by metis
    with assms(1) show ?thesis by (simp add: holds_def)
  qed
qed

lemma holds_delete:
  assumes "holds Q s" "deleteIf k p s = Inr (b, s')"
  shows "holds Q s'"
  using assms delete_law [of s k p b s'] by (auto simp: holds_def split: if_splits)

lemma update_frame:
  assumes "ok s" "update k f s = Inr (res, b, s')" "k' \<noteq> k"
  shows "lookup k' s' = lookup k' s"
  using update_law [OF assms(1,2)] assms(3) by auto

lemma delete_frame:
  assumes "ok s" "deleteIf k p s = Inr (b, s')" "k' \<noteq> k"
  shows "lookup k' s' = lookup k' s"
  using delete_law [OF assms(1,2)] assms(3) by auto

lemma entries_values:
  "ok s \<Longrightarrow> v \<in> snd ` set (entries s) \<longleftrightarrow> (\<exists>k. lookup k s = Some v)"
  using entries_lookup by force

end

section \<open>The store keeps the contract\<close>

lemma pluginStateUpdate_Inr:
  "pluginStateUpdate lim k f rows = Inr (res, b, rows') \<Longrightarrow>
     \<exists>v. f (jm_get rows k) = Inr (res, v) \<and> b = (v \<noteq> None) \<and>
       rows' = (case v of None \<Rightarrow> rows | Some x \<Rightarrow> jm_set k x rows)"
  by (cases "f (jm_get rows k)")
     (auto simp: pluginStateUpdate_def split: sum.split_asm option.split_asm if_split_asm)

interpretation ps: keyed_store jm_ok pluginStateLookup pluginStateEntries
  "pluginStateRegisterIfAbsent lim" "pluginStateUpdate lim" pluginStateDeleteIf for lim
proof (unfold_locales, goal_cases)
  case (1 s)
  then show ?case by (simp add: pluginStateEntries_def jm_ok_def)
next
  case (2 s k v)
  then show ?case by (simp add: pluginStateEntries_def pluginStateLookup_def jm_ok_get)
next
  case (3 s k v b s')
  then show ?case
    by (auto simp: pluginStateRegisterIfAbsent_def pluginStateLookup_def
        split: option.splits sum.splits)
next
  case (4 s k f res b s')
  then obtain v where v: "f (jm_get s k) = Inr (res, v)" "b = (v \<noteq> None)"
    "s' = (case v of None \<Rightarrow> s | Some x \<Rightarrow> jm_set k x s)"
    using pluginStateUpdate_Inr [OF 4(2)] by (elim exE conjE) (rule that)
  have "jm_ok s' \<and> (\<forall>k'. jm_get s' k' = (if v \<noteq> None \<and> k' = k then v else jm_get s k'))"
    unfolding v(3) using 4(1) by (cases v) simp_all
  with v(1,2) show ?case
    unfolding pluginStateLookup_def by blast
next
  case (5 s k p b s')
  then show ?case
    by (auto simp: pluginStateDeleteIf_def pluginStateLookup_def
        split: option.splits sum.splits bool.splits)
qed

text \<open>The row limit of the namespace is never passed.\<close>

lemma jm_set_length_le: "length (jm_set k v m) \<le> (if jm_get m k = None then Suc (length m) else length m)"
  by (induction m) auto

lemma register_within_limit:
  assumes "length rows \<le> maxEntries lim" "pluginStateRegisterIfAbsent lim k v rows = Inr (b, rows')"
  shows "length rows' \<le> maxEntries lim"
  using assms jm_set_length_le [of k v rows]
  by (auto simp: pluginStateRegisterIfAbsent_def assertCanInsertPluginStateEntry_def
      split: option.splits sum.splits if_splits)

lemma update_within_limit:
  assumes "length rows \<le> maxEntries lim" "pluginStateUpdate lim k f rows = Inr (res, b, rows')"
  shows "length rows' \<le> maxEntries lim"
proof (cases "f (jm_get rows k)")
  case (Inr x)
  obtain r v where x: "x = (r, v)" by (cases x)
  show ?thesis
  proof (cases v)
    case None
    with assms Inr x show ?thesis by (simp add: pluginStateUpdate_def)
  next
    case (Some y)
    with assms Inr x jm_set_length_le [of k y rows] show ?thesis
      by (auto simp: pluginStateUpdate_def assertCanInsertPluginStateEntry_def split: if_splits)
  qed
qed (use assms in \<open>simp add: pluginStateUpdate_def\<close>)

end
