(* ===== verification/Outcome_Repository.thy ===== *)
theory Outcome_Repository
  imports Outcome_Lifecycle Keyed_Store
begin

text \<open>
  The repository of Outcomes, \<open>src/store/plugin-state-repository.ts\<close>: the strict
  repository \<open>createOutcomeRepository\<close> with the operations it inherits, over one namespace
  of the host store, and the parts of \<open>src/gateway/methods.ts\<close> that drive it: the record
  a create request stores, the decision callback of a mutation, and the pages of a list.

  A throw is an \<open>Inl\<close>; it leaves the rows as they were, because the store's write
  transaction rolls back or never wrote. Time of day and the capacity callback do not influence
  any result; the warnings are values.
\<close>

datatype repo_error =
  ManagerProfileEmpty
| OwnerMismatch
| CreateConflict
| RegistrationRace
| OutcomeNotFound
| RepositoryCapacity
| HostLimit
| Domain outcome_error

type_synonym outcome_rows = "OutcomeRecord rows"

definition OUTCOME_CAPACITY_WARNING_ENTRIES :: nat where "OUTCOME_CAPACITY_WARNING_ENTRIES = 400"
definition OUTCOME_CAPACITY_WARNING_RECORD_BYTES :: nat where
  "OUTCOME_CAPACITY_WARNING_RECORD_BYTES = 96 * 1024"
definition OUTCOME_CAPACITY_WARNING_WRITE_DURATION_MS :: int where
  "OUTCOME_CAPACITY_WARNING_WRITE_DURATION_MS = 100"
definition OUTCOME_MAX_ENTRIES :: nat where "OUTCOME_MAX_ENTRIES = 500"

section \<open>Errors and warnings\<close>

fun rethrowKnownCapacity :: "outcome_error store_error \<Rightarrow> repo_error" where
  "rethrowKnownCapacity LimitExceeded = RepositoryCapacity"
| "rethrowKnownCapacity (Thrown e) = (if e = RecordTooLarge then RepositoryCapacity else Domain e)"

fun rethrow :: "outcome_error store_error \<Rightarrow> repo_error" where
  "rethrow LimitExceeded = HostLimit"
| "rethrow (Thrown e) = Domain e"

definition assertManagerProfileId :: "string \<Rightarrow> repo_error + unit" where
  "assertManagerProfileId p = (if js_trim p = [] then Inl ManagerProfileEmpty else Inr ())"

datatype capacity_warning = EntryCount nat | RecordBytes nat | WriteDuration int

definition capacitySnapshot :: "nat \<Rightarrow> nat \<times> capacity_warning list" where
  "capacitySnapshot entryCount =
     (entryCount, if OUTCOME_CAPACITY_WARNING_ENTRIES \<le> entryCount then [EntryCount entryCount] else [])"

definition observeCommitted :: "OutcomeRecord \<Rightarrow> int \<Rightarrow> capacity_warning list" where
  "observeCommitted r writeDuration =
     (let bytes = outcomeRecordByteLength r
      in (if OUTCOME_CAPACITY_WARNING_RECORD_BYTES \<le> bytes then [RecordBytes bytes] else []) @
         (if OUTCOME_CAPACITY_WARNING_WRITE_DURATION_MS \<le> writeDuration
          then [WriteDuration writeDuration] else []))"

section \<open>Operations\<close>

definition createOutcome ::
  "(string \<Rightarrow> string) \<Rightarrow> store_limits \<Rightarrow> OutcomeRecord \<Rightarrow> outcome_rows
    \<Rightarrow> repo_error + (bool \<times> outcome_rows)" where
  "createOutcome H lim r rows =
     (case parseOutcomeRecord H r of Inl e \<Rightarrow> Inl (rethrowKnownCapacity (Thrown e))
      | Inr parsed \<Rightarrow>
          (case assertOutcomeRecordSize parsed of Inl e \<Rightarrow> Inl (rethrowKnownCapacity (Thrown e))
           | Inr _ \<Rightarrow>
               (case pluginStateRegisterIfAbsent lim (rc_id parsed) parsed rows of
                  Inl e \<Rightarrow> Inl (rethrowKnownCapacity e)
                | Inr (created, rows') \<Rightarrow> Inr (created, rows'))))"

text \<open>The answer is \<open>{created, replayed, record}\<close>.\<close>

definition createOwned ::
  "(string \<Rightarrow> string) \<Rightarrow> store_limits \<Rightarrow> string \<Rightarrow> OutcomeRecord \<Rightarrow> outcome_rows
    \<Rightarrow> repo_error + ((bool \<times> bool \<times> OutcomeRecord) \<times> outcome_rows)" where
  "createOwned H lim owner r rows =
     (if js_trim owner = [] \<or> rc_managerProfileId r \<noteq> owner then Inl OwnerMismatch
      else case parseOutcomeRecord H r of Inl e \<Rightarrow> Inl (rethrowKnownCapacity (Thrown e))
      | Inr parsed \<Rightarrow>
          (case pluginStateRegisterIfAbsent lim (rc_id parsed) parsed rows of
             Inl e \<Rightarrow> Inl (rethrowKnownCapacity e)
           | Inr (created, rows') \<Rightarrow>
               if created then Inr ((True, False, parsed), rows')
               else (case pluginStateLookup (rc_id parsed) rows' of
                   None \<Rightarrow> Inl RegistrationRace
                 | Some rawExisting \<Rightarrow>
                     (case parseOutcomeRecord H rawExisting of Inl e \<Rightarrow> Inl (Domain e)
                      | Inr existing \<Rightarrow>
                          if rc_managerProfileId existing \<noteq> owner then Inl CreateConflict
                          else if rc_createRequestHash existing \<noteq> rc_createRequestHash parsed
                            then Inl CreateConflict
                          else Inr ((False, True, existing), rows')))))"

definition strict ::
  "(string \<Rightarrow> string) \<Rightarrow> OutcomeRecord option \<Rightarrow> outcome_error + OutcomeRecord option" where
  "strict H value = (case value of None \<Rightarrow> Inr None
     | Some r \<Rightarrow> (case parseOutcomeRecord H r of Inl e \<Rightarrow> Inl e | Inr p \<Rightarrow> Inr (Some p)))"

definition getOutcome ::
  "(string \<Rightarrow> string) \<Rightarrow> string \<Rightarrow> outcome_rows \<Rightarrow> repo_error + OutcomeRecord option" where
  "getOutcome H i rows = map_sum Domain id (strict H (pluginStateLookup i rows))"

definition getOwned ::
  "(string \<Rightarrow> string) \<Rightarrow> string \<Rightarrow> string \<Rightarrow> outcome_rows \<Rightarrow> repo_error + OutcomeRecord option" where
  "getOwned H owner i rows =
     (case assertManagerProfileId owner of Inl e \<Rightarrow> Inl e
      | Inr _ \<Rightarrow>
          (let owned = (case pluginStateLookup i rows of None \<Rightarrow> None
             | Some r \<Rightarrow> if rc_managerProfileId r = owner then Some r else None)
           in map_sum Domain id (strict H owned)))"

text \<open>\<open>toSorted((a, b) => b.updatedAt - a.updatedAt || (a.id < b.id ? -1 : ...))\<close>\<close>

definition list_order :: "OutcomeRecord \<Rightarrow> int \<times> string" where
  "list_order r = (- rc_updatedAt r, rc_id r)"

fun parse_all ::
  "(string \<Rightarrow> string) \<Rightarrow> OutcomeRecord list \<Rightarrow> outcome_error + OutcomeRecord list" where
  "parse_all H [] = Inr []"
| "parse_all H (r # rs) =
     (case parseOutcomeRecord H r of Inl e \<Rightarrow> Inl e
      | Inr p \<Rightarrow> (case parse_all H rs of Inl e \<Rightarrow> Inl e | Inr ps \<Rightarrow> Inr (p # ps)))"

definition listOutcomes ::
  "(string \<Rightarrow> string) \<Rightarrow> outcome_rows \<Rightarrow> repo_error + OutcomeRecord list" where
  "listOutcomes H rows =
     map_sum Domain id (parse_all H (sort_key list_order (map snd (pluginStateEntries rows))))"

definition listOwned ::
  "(string \<Rightarrow> string) \<Rightarrow> string \<Rightarrow> outcome_rows \<Rightarrow> repo_error + OutcomeRecord list" where
  "listOwned H owner rows =
     (case assertManagerProfileId owner of Inl e \<Rightarrow> Inl e
      | Inr _ \<Rightarrow> map_sum Domain id (parse_all H (sort_key list_order
          (filter (\<lambda>r. rc_managerProfileId r = owner) (map snd (pluginStateEntries rows))))))"

definition inspectCapacity :: "outcome_rows \<Rightarrow> nat \<times> capacity_warning list" where
  "inspectCapacity rows = capacitySnapshot (length (pluginStateEntries rows))"

text \<open>
  The strict wrapper around a decision: a record that is too large is not written but reported
  after the transaction, any other invalid record throws inside it.
\<close>

definition strict_next ::
  "(string \<Rightarrow> string) \<Rightarrow> OutcomeRecord option \<Rightarrow> outcome_error + (bool \<times> OutcomeRecord option)" where
  "strict_next H new =
     (case new of None \<Rightarrow> Inr (False, None)
      | Some r \<Rightarrow>
          (case parseOutcomeRecord H r of
             Inr p \<Rightarrow> Inr (False, Some p)
           | Inl e \<Rightarrow> if e = RecordTooLarge then Inr (True, None) else Inl e))"

definition size_checked :: "OutcomeRecord option \<Rightarrow> outcome_error + unit" where
  "size_checked new = (case new of None \<Rightarrow> Inr () | Some r \<Rightarrow> assertOutcomeRecordSize r)"

type_synonym 't decide_fn = "OutcomeRecord \<Rightarrow> outcome_error + ('t \<times> OutcomeRecord option)"

definition transactOutcome ::
  "(string \<Rightarrow> string) \<Rightarrow> store_limits \<Rightarrow> string
    \<Rightarrow> (OutcomeRecord option \<Rightarrow> outcome_error + ('t \<times> OutcomeRecord option)) \<Rightarrow> outcome_rows
    \<Rightarrow> repo_error + ('t \<times> outcome_rows)" where
  "transactOutcome H lim i decide rows =
     (case pluginStateUpdate lim i (\<lambda>current.
         case strict H current of Inl e \<Rightarrow> Inl e
         | Inr cur \<Rightarrow>
             (case decide cur of Inl e \<Rightarrow> Inl e
              | Inr (res, new) \<Rightarrow>
                  (case strict_next H new of Inl e \<Rightarrow> Inl e
                   | Inr (capacityExceeded, new') \<Rightarrow>
                       (case size_checked new' of Inl e \<Rightarrow> Inl e
                        | Inr _ \<Rightarrow> Inr ((res, capacityExceeded), new'))))) rows of
        Inl e \<Rightarrow> Inl (rethrow e)
      | Inr ((res, capacityExceeded), _, rows') \<Rightarrow>
          if capacityExceeded then Inl RepositoryCapacity else Inr (res, rows'))"

definition owned_callback ::
  "(string \<Rightarrow> string) \<Rightarrow> string \<Rightarrow> 't decide_fn \<Rightarrow> OutcomeRecord option
    \<Rightarrow> outcome_error + (('t \<times> bool) option \<times> OutcomeRecord option)" where
  "owned_callback H owner decide current =
     (case current of None \<Rightarrow> Inr (None, None)
      | Some cur \<Rightarrow>
          if rc_managerProfileId cur \<noteq> owner then Inr (None, None)
          else (case parseOutcomeRecord H cur of Inl e \<Rightarrow> Inl e
            | Inr parsed \<Rightarrow>
                (case decide parsed of Inl e \<Rightarrow> Inl e
                 | Inr (res, new) \<Rightarrow>
                     (case strict_next H new of Inl e \<Rightarrow> Inl e
                      | Inr (capacityExceeded, new') \<Rightarrow>
                          (case size_checked new' of Inl e \<Rightarrow> Inl e
                           | Inr _ \<Rightarrow> Inr (Some (res, capacityExceeded), new'))))))"

text \<open>The callback answers \<^const>\<open>None\<close> where the source sets \<open>unavailable\<close>.\<close>

definition transactOwned ::
  "(string \<Rightarrow> string) \<Rightarrow> store_limits \<Rightarrow> string \<Rightarrow> string \<Rightarrow> 't decide_fn \<Rightarrow> outcome_rows
    \<Rightarrow> repo_error + ('t \<times> outcome_rows)" where
  "transactOwned H lim owner i decide rows =
     (case assertManagerProfileId owner of Inl e \<Rightarrow> Inl e
      | Inr _ \<Rightarrow>
          (case pluginStateUpdate lim i (owned_callback H owner decide) rows of
             Inl e \<Rightarrow> Inl (rethrow e)
           | Inr (None, _, rows') \<Rightarrow> Inl OutcomeNotFound
           | Inr (Some (res, capacityExceeded), _, rows') \<Rightarrow>
               if capacityExceeded then Inl RepositoryCapacity else Inr (res, rows')))"

definition deleteOutcomeIf ::
  "(string \<Rightarrow> string) \<Rightarrow> string \<Rightarrow> (OutcomeRecord \<Rightarrow> bool) \<Rightarrow> outcome_rows
    \<Rightarrow> repo_error + (bool \<times> outcome_rows)" where
  "deleteOutcomeIf H i predicate rows =
     (case pluginStateDeleteIf i (\<lambda>current.
         case parseOutcomeRecord H current of Inl e \<Rightarrow> Inl e | Inr p \<Rightarrow> Inr (predicate p)) rows of
        Inl e \<Rightarrow> Inl (rethrow e) | Inr x \<Rightarrow> Inr x)"

definition deleteOwnedIf ::
  "(string \<Rightarrow> string) \<Rightarrow> string \<Rightarrow> string \<Rightarrow> (OutcomeRecord \<Rightarrow> bool) \<Rightarrow> outcome_rows
    \<Rightarrow> repo_error + (bool \<times> outcome_rows)" where
  "deleteOwnedIf H owner i predicate rows =
     (case assertManagerProfileId owner of Inl e \<Rightarrow> Inl e
      | Inr _ \<Rightarrow>
          (case pluginStateDeleteIf i (\<lambda>current.
              case parseOutcomeRecord H current of Inl e \<Rightarrow> Inl e
              | Inr p \<Rightarrow> Inr (rc_managerProfileId p = owner \<and> predicate p)) rows of
             Inl e \<Rightarrow> Inl (rethrow e) | Inr x \<Rightarrow> Inr x))"

section \<open>The gateway methods over it\<close>

text \<open>The record \<open>outcomes.create\<close> stores.\<close>

definition created_record ::
  "(string \<Rightarrow> string) \<Rightarrow> string \<Rightarrow> CreateRequest \<Rightarrow> int \<Rightarrow> outcome_error + OutcomeRecord" where
  "created_record H owner q now =
     (let criteria = map (\<lambda>c. c\<lparr>cr_workRefs := []\<rparr>) (rq_criteria q)
      in case createRequestHash H (q\<lparr>rq_criteria := criteria\<rparr>) of Inl e \<Rightarrow> Inl e
         | Inr h \<Rightarrow> Inr \<lparr>rc_id = rq_id q, rc_createRequestHash = h, rc_managerProfileId = owner,
             rc_title = rq_title q, rc_objective = rq_objective q, rc_contractRevision = 1,
             rc_revision = 1, rc_phase = Draft, rc_planGeneration = 0, rc_planHash = None,
             rc_criteria = criteria, rc_projections = [], rc_evidence = [], rc_decisions = [],
             rc_operations = [], rc_acceptances = [], rc_createdAt = now, rc_updatedAt = now\<rparr>)"

text \<open>\<open>{result: mutation, ...(mutation.kind === "updated" ? {next: mutation.record} : {})}\<close>\<close>

definition mutation_decision :: "outcome_decision \<Rightarrow> outcome_error + (outcome_result \<times> OutcomeRecord option)"
where
  "mutation_decision d =
     (case d of Inl e \<Rightarrow> Inl e
      | Inr (Updated r) \<Rightarrow> Inr (Updated r, Some r)
      | Inr x \<Rightarrow> Inr (x, None))"

definition mutateOwned ::
  "(string \<Rightarrow> string) \<Rightarrow> store_limits \<Rightarrow> string \<Rightarrow> string \<Rightarrow> outcome_command \<Rightarrow> outcome_rows
    \<Rightarrow> repo_error + (outcome_result \<times> outcome_rows)" where
  "mutateOwned H lim owner i c rows =
     transactOwned H lim owner i (\<lambda>cur. mutation_decision (outcome_step H c cur)) rows"

type_synonym cursor = "int \<times> string"

definition after_cursor :: "cursor option \<Rightarrow> OutcomeRecord \<Rightarrow> bool" where
  "after_cursor cur r = (case cur of None \<Rightarrow> True
     | Some (u, i) \<Rightarrow> rc_updatedAt r < u \<or> (rc_updatedAt r = u \<and> i < rc_id r))"

text \<open>One page of \<open>outcomes.list\<close>: the page and the anchor of \<open>nextCursor\<close>.\<close>

definition list_page ::
  "nat option \<Rightarrow> cursor option \<Rightarrow> OutcomeRecord list \<Rightarrow> OutcomeRecord list \<times> cursor option" where
  "list_page limit cur records =
     (let eligible = filter (after_cursor cur) records;
          page = take (or_else limit 25) eligible
      in (page, if length page < length eligible \<and> page \<noteq> []
                then Some (rc_updatedAt (last page), rc_id (last page)) else None))"

text \<open>A client that follows \<open>nextCursor\<close> until there is none, with at most \<open>n\<close> requests.\<close>

fun follow_pages :: "nat \<Rightarrow> nat option \<Rightarrow> cursor option \<Rightarrow> OutcomeRecord list
    \<Rightarrow> OutcomeRecord list list option" where
  "follow_pages 0 limit cur records = None"
| "follow_pages (Suc n) limit cur records =
     (case list_page limit cur records of
        (page, None) \<Rightarrow> Some [page]
      | (page, Some next) \<Rightarrow> map_option (\<lambda>ps. page # ps) (follow_pages n limit (Some next) records))"

section \<open>What the store holds\<close>

definition stored :: "(string \<Rightarrow> string) \<Rightarrow> string \<Rightarrow> OutcomeRecord \<Rightarrow> bool" where
  "stored H k r \<longleftrightarrow> parseOutcomeRecord H r = Inr r \<and> rc_id r = k"

definition store_ok :: "(string \<Rightarrow> string) \<Rightarrow> store_limits \<Rightarrow> outcome_rows \<Rightarrow> bool" where
  "store_ok H lim rows \<longleftrightarrow> jm_ok rows \<and> length rows \<le> maxEntries lim \<and>
     (\<forall>k r. pluginStateLookup k rows = Some r \<longrightarrow> stored H k r)"

lemma store_ok_holds:
  "store_ok H lim rows \<longleftrightarrow> ps.holds (stored H) rows \<and> length rows \<le> maxEntries lim"
  by (auto simp: store_ok_def ps.holds_def)

lemma parseOutcomeRecord_Inr:
  "parseOutcomeRecord H r = Inr p \<longleftrightarrow> p = r \<and> valid_record H r \<and>
     outcomeRecordByteLength r \<le> OUTCOME_MAX_RECORD_BYTES"
  by (auto simp: parseOutcomeRecord_def assertOutcomeRecordSize_def split: sum.splits)

lemma strict_next_Inr:
  "strict_next H new = Inr (cap, new') \<Longrightarrow>
     (case new' of None \<Rightarrow> True | Some p \<Rightarrow> new = Some p \<and> parseOutcomeRecord H p = Inr p \<and> \<not> cap) \<and>
     (\<not> cap \<longrightarrow> new' = new)"
proof (cases new)
  case (Some r)
  assume eq: "strict_next H new = Inr (cap, new')"
  show ?thesis
  proof (cases "parseOutcomeRecord H r")
    case (Inr p)
    then have "p = r" by (simp add: parseOutcomeRecord_Inr)
    with eq Some Inr show ?thesis by (auto simp: strict_next_def)
  qed (use eq Some in \<open>auto simp: strict_next_def split: if_splits\<close>)
qed (auto simp: strict_next_def)

lemma owned_callback_Inr:
  assumes "owned_callback H owner decide current = Inr (res, new)"
  obtains (unavailable) "res = None" "new = None"
      "\<And>cur. current = Some cur \<Longrightarrow> rc_managerProfileId cur \<noteq> owner"
  | (decided) cur x cap new0 where "current = Some cur" "rc_managerProfileId cur = owner"
      "parseOutcomeRecord H cur = Inr cur" "decide cur = Inr (x, new0)"
      "strict_next H new0 = Inr (cap, new)" "res = Some (x, cap)"
  using assms
  by (auto simp: owned_callback_def parseOutcomeRecord_Inr split: option.splits if_splits sum.splits)

lemma transactOwned_Inr:
  assumes "transactOwned H lim owner i decide rows = Inr (x, rows')"
  obtains cur new where "js_trim owner \<noteq> []" "pluginStateLookup i rows = Some cur"
    "rc_managerProfileId cur = owner" "parseOutcomeRecord H cur = Inr cur"
    "decide cur = Inr (x, new)"
    "case new of None \<Rightarrow> True | Some p \<Rightarrow> parseOutcomeRecord H p = Inr p"
    "pluginStateUpdate lim i (owned_callback H owner decide) rows = Inr (Some (x, False), new \<noteq> None, rows')"
    "rows' = (case new of None \<Rightarrow> rows | Some p \<Rightarrow> jm_set i p rows)"
proof -
  obtain b where upd: "js_trim owner \<noteq> []"
    "pluginStateUpdate lim i (owned_callback H owner decide) rows = Inr (Some (x, False), b, rows')"
    using assms by (auto simp: transactOwned_def assertManagerProfileId_def
        split: sum.splits option.splits if_splits)
  then obtain new where new: "owned_callback H owner decide (jm_get rows i) = Inr (Some (x, False), new)"
    "b = (new \<noteq> None)" "rows' = (case new of None \<Rightarrow> rows | Some p \<Rightarrow> jm_set i p rows)"
    using pluginStateUpdate_Inr [OF upd(2)] by blast
  from new(1) show thesis
  proof (cases rule: owned_callback_Inr)
    case (decided cur y cap new0)
    note next_ok = strict_next_Inr [OF decided(5)]
    have "y = x" "cap = False" using decided(6) by simp_all
    with next_ok have "new0 = new" "case new of None \<Rightarrow> True | Some p \<Rightarrow> parseOutcomeRecord H p = Inr p"
      by (auto split: option.splits)
    with decided \<open>y = x\<close> upd new show thesis
      by (intro that) (simp_all add: pluginStateLookup_def)
  qed simp
qed

lemma mutateOwned_Inr:
  assumes "mutateOwned H lim owner i c rows = Inr (res, rows')"
  shows "\<exists>cur. pluginStateLookup i rows = Some cur \<and> rc_managerProfileId cur = owner \<and>
    outcome_step H c cur = Inr res \<and>
    rows' = (case res of Updated r' \<Rightarrow> jm_set i r' rows | _ \<Rightarrow> rows) \<and>
    (\<forall>r'. res = Updated r' \<longrightarrow> parseOutcomeRecord H r' = Inr r')"
  using assms unfolding mutateOwned_def
proof (cases rule: transactOwned_Inr)
  case (1 cur new)
  have "outcome_step H c cur = Inr res \<and> new = (case res of Updated r' \<Rightarrow> Some r' | _ \<Rightarrow> None)"
    using 1(5) by (auto simp: mutation_decision_def split: sum.splits outcome_result.splits)
  with 1 show ?thesis
    by (auto split: outcome_result.splits)
qed

section \<open>Guarantees\<close>

text \<open>C37: The store only ever holds schema-valid records within the size limit, each under
  its own id, and never more of them than its row limit: every committed mutation keeps this,
  whatever command it runs.\<close>

theorem mutation_keeps_store:
  assumes ok: "store_ok H lim rows" and upd: "mutateOwned H lim owner i c rows = Inr (res, rows')"
  shows "store_ok H lim rows'"
proof -
  obtain b x where kv: "pluginStateUpdate lim i
      (owned_callback H owner (\<lambda>cur. mutation_decision (outcome_step H c cur))) rows = Inr (x, b, rows')"
    using upd unfolding mutateOwned_def by (elim transactOwned_Inr)
  obtain cur where cur: "pluginStateLookup i rows = Some cur" "outcome_step H c cur = Inr res"
    "rows' = (case res of Updated r' \<Rightarrow> jm_set i r' rows | _ \<Rightarrow> rows)"
    "\<forall>r'. res = Updated r' \<longrightarrow> parseOutcomeRecord H r' = Inr r'"
    using mutateOwned_Inr [OF upd] by blast
  have "length rows' \<le> maxEntries lim"
    using update_within_limit [OF _ kv] ok by (simp add: store_ok_def)
  moreover have "rc_id cur = i"
    using ok cur(1) by (simp add: store_ok_def stored_def)
  then have "stored H i r'" if "res = Updated r'" for r'
    using cur(2,4) that outcome_step_Updated [of H c cur r']
    by (simp add: stored_def update_step_def same_outcome_def)
  then have "jm_ok rows' \<and> (\<forall>k r. pluginStateLookup k rows' = Some r \<longrightarrow> stored H k r)"
    using ok unfolding cur(3)
    by (cases res) (auto simp: store_ok_def pluginStateLookup_def split: if_splits)
  ultimately show ?thesis by (simp add: store_ok_def)
qed

text \<open>C3: A committed mutation read the stored record of its owner, ran its command on exactly
  that record, and wrote exactly the record of the update, or nothing when the command did not
  update.\<close>

theorem mutation_is_atomic:
  assumes "mutateOwned H lim owner i c rows = Inr (res, rows')"
  shows "\<exists>cur. pluginStateLookup i rows = Some cur \<and> rc_managerProfileId cur = owner \<and>
    outcome_step H c cur = Inr res \<and>
    (\<forall>k. pluginStateLookup k rows' =
       (case res of Updated r' \<Rightarrow> if k = i then Some r' else pluginStateLookup k rows
        | _ \<Rightarrow> pluginStateLookup k rows))"
  using mutateOwned_Inr [OF assms]
  by (auto simp: pluginStateLookup_def split: outcome_result.splits)

text \<open>Owner isolation of writes: no transaction and no deletion of one manager changes a
  record of another one.\<close>

theorem foreign_records_untouched:
  assumes "jm_ok rows" "pluginStateLookup k rows = Some r" "rc_managerProfileId r \<noteq> owner"
    "transactOwned H lim owner i decide rows = Inr (x, rows') \<or>
     deleteOwnedIf H owner i predicate rows = Inr (b, rows')"
  shows "pluginStateLookup k rows' = Some r"
proof (rule disjE [OF assms(4)])
  assume "transactOwned H lim owner i decide rows = Inr (x, rows')"
  then show ?thesis
  proof (cases rule: transactOwned_Inr)
    case (1 cur new)
    with assms(2,3) have "k \<noteq> i" by auto
    with 1(7) show ?thesis
      using ps.update_frame [OF assms(1)] assms(2) by metis
  qed
next
  assume "deleteOwnedIf H owner i predicate rows = Inr (b, rows')"
  then have del: "pluginStateDeleteIf i (\<lambda>current.
      case parseOutcomeRecord H current of Inl e \<Rightarrow> Inl e
      | Inr p \<Rightarrow> Inr (rc_managerProfileId p = owner \<and> predicate p)) rows = Inr (b, rows')"
    by (auto simp: deleteOwnedIf_def split: sum.splits)
  show ?thesis
    using ps.delete_law [OF assms(1) del] assms(2,3)
    by (auto simp: parseOutcomeRecord_def split: if_splits sum.splits)
qed

text \<open>Owner isolation of reads: for a manager, a record of another one is
  indistinguishable from a missing record.\<close>

theorem foreign_is_missing:
  assumes "store_ok H lim rows" "js_trim owner \<noteq> []"
    "\<forall>r. pluginStateLookup i rows = Some r \<longrightarrow> rc_managerProfileId r \<noteq> owner"
  shows "getOwned H owner i rows = Inr None \<and>
    transactOwned H lim' owner i decide rows = Inl OutcomeNotFound \<and>
    deleteOwnedIf H owner i predicate rows = Inr (False, rows)"
proof -
  have "parseOutcomeRecord H r = Inr r" if "pluginStateLookup i rows = Some r" for r
    using assms(1) that by (simp add: store_ok_def stored_def)
  with assms(2,3) show ?thesis
    by (cases "jm_get rows i")
       (auto simp: getOwned_def strict_def assertManagerProfileId_def transactOwned_def
         owned_callback_def pluginStateUpdate_def deleteOwnedIf_def pluginStateDeleteIf_def
         pluginStateLookup_def)
qed

lemma createOwned_created:
  assumes "createOwned H lim owner r rows = Inr ((True, replayed, p), rows')"
  shows "p = r \<and> replayed = False \<and> rc_managerProfileId r = owner \<and> js_trim owner \<noteq> [] \<and>
    parseOutcomeRecord H r = Inr r \<and>
    (pluginStateRegisterIfAbsent lim (rc_id r) r rows :: outcome_error store_error + _) =
      Inr (True, rows')"
  using assms
  by (auto simp: createOwned_def parseOutcomeRecord_Inr split: sum.splits if_splits option.splits)

text \<open>Creation is idempotent: after a record was created, a second create of the same id
  by the same owner with the same request hash answers with the stored record as a replay, and one
  with another owner or another request is refused; neither changes the store.\<close>

theorem create_is_idempotent:
  assumes ok: "jm_ok rows" and created: "createOwned H lim owner r rows = Inr ((True, replayed, p), rows')"
    and again: "parseOutcomeRecord H r2 = Inr r2" "rc_id r2 = rc_id r"
      "rc_managerProfileId r2 = owner2" "js_trim owner2 \<noteq> []"
  shows "createOwned H lim owner2 r2 rows' =
    (if owner2 = owner \<and> rc_createRequestHash r2 = rc_createRequestHash r
     then Inr ((False, True, r), rows') else Inl CreateConflict)"
proof -
  note c = createOwned_created [OF created]
  have "jm_get rows' (rc_id r) = Some r"
    using ps.register_law [OF ok conjunct2 [OF conjunct2 [OF conjunct2 [OF conjunct2 [OF conjunct2 [OF c]]]]]]
    by (simp add: pluginStateLookup_def)
  with c again show ?thesis
    by (auto simp: createOwned_def pluginStateRegisterIfAbsent_def pluginStateLookup_def)
qed

lemma parse_all_stored:
  "(\<forall>r \<in> set rs. parseOutcomeRecord H r = Inr r) \<Longrightarrow> parse_all H rs = Inr rs"
  by (induction rs) simp_all

text \<open>On a sound store, a list answers with exactly the records of its owner, newest
  first and by id among equal times, each once.\<close>

theorem list_is_complete_and_sorted:
  assumes "store_ok H lim rows" "js_trim owner \<noteq> []"
  shows "\<exists>rs. listOwned H owner rows = Inr rs \<and>
    set rs = {r. rc_managerProfileId r = owner \<and> (\<exists>i. pluginStateLookup i rows = Some r)} \<and>
    sorted_wrt (\<lambda>a b. list_order a < list_order b) rs"
proof -
  let ?own = "filter (\<lambda>r. rc_managerProfileId r = owner) (map snd rows)"
  have ok: "jm_ok rows" and st: "\<And>k r. jm_get rows k = Some r \<Longrightarrow> stored H k r"
    using assms(1) by (simp_all add: store_ok_def pluginStateLookup_def)
  have vals: "r \<in> snd ` set rows \<longleftrightarrow> (\<exists>i. jm_get rows i = Some r)" for r
    using ps.entries_values [OF ok] by (simp add: pluginStateEntries_def pluginStateLookup_def)
  have "jm_keyed rc_id rows"
    using st ok by (auto simp: jm_keyed_def jm_ok_get stored_def)
  then have "distinct (map rc_id (map snd rows))"
    using jm_keyed_distinct [OF _ ok] by (simp add: jm_values_def)
  then have "distinct (map rc_id ?own)"
    by (simp add: distinct_map_filter)
  then have "distinct (map snd (map list_order ?own))"
    by (simp add: comp_def list_order_def)
  then have "distinct (map list_order ?own)"
    by (simp only: distinct_map)
  then have d: "distinct (map list_order (sort_key list_order ?own))"
    by (simp add: distinct_map_sort_key)
  have "sorted (map list_order (sort_key list_order ?own))"
    by simp
  with d have "sorted_wrt (<) (map list_order (sort_key list_order ?own))"
    by (simp add: strict_sorted_iff)
  moreover have "parse_all H (sort_key list_order ?own) = Inr (sort_key list_order ?own)"
    using st vals by (intro parse_all_stored) (auto simp: stored_def)
  ultimately show ?thesis
    using assms(2) vals
    by (intro exI [of _ "sort_key list_order ?own"])
       (auto simp: listOwned_def assertManagerProfileId_def pluginStateEntries_def
         pluginStateLookup_def sorted_wrt_map)
qed

lemma after_cursor_order:
  "after_cursor (Some (rc_updatedAt a, rc_id a)) r \<longleftrightarrow> list_order a < list_order r"
  by (auto simp: after_cursor_def list_order_def less_prod_def)

lemma eligible_suffix:
  assumes "sorted_wrt (\<lambda>a b. list_order a < list_order b) (pre @ suf)" "pre \<noteq> []"
  shows "filter (after_cursor (Some (rc_updatedAt (last pre), rc_id (last pre)))) (pre @ suf) = suf"
proof -
  obtain xs a where pre: "pre = xs @ [a]"
    using assms(2) by (cases pre rule: rev_cases) auto
  with assms(1) show ?thesis
    by (auto simp: after_cursor_order sorted_wrt_append filter_empty_conv filter_id_conv
        dest: less_imp_not_less)
qed

lemma follow_pages_suffix:
  assumes "sorted_wrt (\<lambda>a b. list_order a < list_order b) (pre @ suf)" "limit \<noteq> Some 0"
    "filter (after_cursor cur) (pre @ suf) = suf" "length suf < n"
  shows "\<exists>ps. follow_pages n limit cur (pre @ suf) = Some ps \<and> concat ps = suf"
  using assms
proof (induction n arbitrary: pre suf cur)
  case (Suc n)
  let ?l = "or_else limit 25"
  have l: "0 < ?l"
    using Suc.prems(2) by (cases limit) (auto simp: or_else_def)
  show ?case
  proof (cases "?l < length suf")
    case False
    then have "list_page limit cur (pre @ suf) = (suf, None)"
      using Suc.prems(3) by (simp add: list_page_def Let_def)
    then show ?thesis by simp
  next
    case True
    let ?page = "take ?l suf" and ?rest = "drop ?l suf"
    have page: "?page \<noteq> []" using l True by auto
    let ?next = "Some (rc_updatedAt (last ?page), rc_id (last ?page))"
    have lp: "list_page limit cur (pre @ suf) = (?page, ?next)"
      using Suc.prems(3) True page by (simp add: list_page_def Let_def)
    have split: "(pre @ ?page) @ ?rest = pre @ suf" by simp
    have "last (pre @ ?page) = last ?page" using page by simp
    then have elig: "filter (after_cursor ?next) ((pre @ ?page) @ ?rest) = ?rest"
      using eligible_suffix [of "pre @ ?page" ?rest] Suc.prems(1) page unfolding split by simp
    have "\<exists>ps. follow_pages n limit ?next ((pre @ ?page) @ ?rest) = Some ps \<and> concat ps = ?rest"
      by (rule Suc.IH [OF _ Suc.prems(2) elig]) (use Suc.prems(1,4) l True in \<open>simp_all\<close>)
    then obtain ps where "follow_pages n limit ?next (pre @ suf) = Some ps" "concat ps = ?rest"
      unfolding split by blast
    with lp show ?thesis by simp
  qed
qed simp

text \<open>Following the cursors of a sorted list page by page reads every record exactly once
  and in order, whatever the page size, and ends after at most one request per record plus one.\<close>

theorem pages_partition_list:
  assumes "sorted_wrt (\<lambda>a b. list_order a < list_order b) records" "limit \<noteq> Some 0"
  shows "\<exists>pages. follow_pages (Suc (length records)) limit None records = Some pages \<and>
    concat pages = records"
  using follow_pages_suffix [of "[]" records limit None "Suc (length records)"] assms
  by (simp add: after_cursor_def)

end
