(* ===== verification/Outcome_Examples.thy ===== *)
theory Outcome_Examples
  imports Outcome_Decisions Outcome_Repository
begin

text \<open>
  A concrete Outcome on which the properties of this library are applied: one required criterion
  linked to one Workboard card, taken from the draft through activation, a refresh, a verified
  decision and an acceptance. The hash is a stand-in with the shape of a SHA-256 digest.
\<close>

definition ex_hash :: "string \<Rightarrow> string" where
  "ex_hash s = replicate 63 (CHR ''0'') @ [digit_char (length s mod 10)]"

definition ex_digest :: "char \<Rightarrow> string" where
  "ex_digest c = replicate 63 (CHR ''0'') @ [c]"

definition ex_ref :: WorkboardRef where
  "ex_ref = \<lparr>ref_cardId = ''card-1'', ref_cardCreatedAt = 5, ref_boardIdAtLink = ''default''\<rparr>"

definition ex_criterion :: Criterion where
  "ex_criterion = \<lparr>cr_id = ''c1'', cr_text = ''It works'', cr_required = True, cr_workRefs = [ex_ref]\<rparr>"

definition ex_draft :: OutcomeRecord where
  "ex_draft = \<lparr>rc_id = ''o1'', rc_createRequestHash = ex_digest (CHR ''0''), rc_managerProfileId = ''ann'',
     rc_title = ''Ship'', rc_objective = ''Ship it'', rc_contractRevision = 1, rc_revision = 1,
     rc_phase = Draft, rc_planGeneration = 0, rc_planHash = None, rc_criteria = [ex_criterion],
     rc_projections = [], rc_evidence = [], rc_decisions = [], rc_operations = [],
     rc_acceptances = [], rc_createdAt = 1, rc_updatedAt = 1\<rparr>"

definition ex_plan :: OutcomePlanSnapshot where
  "ex_plan = \<lparr>pl_outcomeId = ''o1'', pl_objective = ''Ship it'', pl_contractRevision = 1,
     pl_planGeneration = 1, pl_criteria = [ex_criterion]\<rparr>"

definition ex_active :: OutcomeRecord where
  "ex_active = ex_draft\<lparr>rc_phase := Active, rc_planGeneration := 1,
     rc_planHash := Some (ex_digest (CHR ''1'')), rc_revision := 2,
     rc_updatedAt := 10\<rparr>"

definition ex_pair :: SourcePair where
  "ex_pair = \<lparr>sp_sourceId = ''proof-1'', sp_digest = ex_digest (CHR ''1'')\<rparr>"

definition ex_projection :: WorkProjection where
  "ex_projection = \<lparr>pj_ref = ex_ref, pj_availability = Available, pj_observedAt = 20,
     pj_proofs = [ex_pair], pj_artifacts = [], pj_currentBoardId = Some ''default'',
     pj_status = Some ''done'', pj_lastSuccessfulAt = Some 20, pj_sourceUpdatedAt = Some 15,
     pj_upstreamStale = Some False,
     pj_sourceFingerprint = Some (ex_digest (CHR ''9'')),
     pj_errorCode = None\<rparr>"

definition ex_evidence :: EvidenceRef where
  "ex_evidence = \<lparr>ev_id = ''e1'', ev_criterionId = ''c1'', ev_planGeneration = 1,
     ev_workRef = ex_ref, ev_kind = WorkboardProof, ev_sourceId = ''proof-1'',
     ev_sourceDigest = ex_digest (CHR ''1''), ev_observedAt = 20\<rparr>"

definition ex_refresh :: OutcomeRefreshMutation where
  "ex_refresh = \<lparr>rm_expectedRevision = 2, rm_projections = [ex_projection],
     rm_evidence = [ex_evidence], rm_serverTime = Finite 20\<rparr>"

definition ex_decide :: OutcomeDecisionMutation where
  "ex_decide = \<lparr>dm_expectedRevision = 2, dm_id = ''d1'', dm_requestHash = ex_digest (CHR ''2''),
     dm_criterionId = ''c1'', dm_status = Verified,
     dm_planHash = ex_digest (CHR ''1''),
     dm_evidenceSetHash = ex_digest (CHR ''7''), dm_profileId = ''ann'',
     dm_note = None, dm_projections = Some [ex_projection], dm_evidence = Some [ex_evidence],
     dm_serverTime = Finite 30\<rparr>"

definition ex_decision :: HumanDecision where
  "ex_decision = \<lparr>de_id = ''d1'', de_criterionId = ''c1'', de_planGeneration = 1,
     de_decidedRevision = 3, de_status = Verified, de_requestHash = ex_digest (CHR ''2''),
     de_profileId = ''ann'', de_planHash = ex_digest (CHR ''1''), de_decidedPlan = ex_plan,
     de_evidenceSetHash = ex_digest (CHR ''7''), de_note = None, de_decidedAt = 30\<rparr>"

definition ex_decided :: OutcomeRecord where
  "ex_decided = ex_active\<lparr>rc_projections := [ex_projection], rc_evidence := [ex_evidence],
     rc_decisions := [ex_decision], rc_revision := 3, rc_updatedAt := 30\<rparr>"

definition ex_accept :: OutcomeAcceptanceMutation where
  "ex_accept = \<lparr>am_expectedRevision = 3, am_id = ''a1'', am_requestHash = ex_digest (CHR ''3''),
     am_planHash = ex_digest (CHR ''1''), am_closureHash = ex_digest (CHR ''8''),
     am_profileId = ''ann'', am_projections = None, am_evidence = None, am_serverTime = Finite 40\<rparr>"

fun updates :: "outcome_decision \<Rightarrow> bool" where
  "updates (Inr (Updated _)) = True"
| "updates _ = False"

fun assurance_updates :: "assurance_decision \<Rightarrow> bool" where
  "assurance_updates (Inr (AUpdated _ replayed)) = (\<not> replayed)"
| "assurance_updates _ = False"

lemma updatesE: "updates d \<Longrightarrow> \<exists>r'. d = Inr (Updated r')"
  by (cases d rule: updates.cases) simp_all

lemma assurance_updatesE: "assurance_updates d \<Longrightarrow> \<exists>r'. d = Inr (AUpdated r' False)"
  by (cases d rule: assurance_updates.cases) simp_all

lemma ex_hash_hex: "hex_hash ex_hash"
proof -
  have "CHR ''0'' \<le> digit_char (n mod 10) \<and> digit_char (n mod 10) \<le> CHR ''9''" for n
  proof -
    have "n mod 10 < 10" by simp
    then show ?thesis
      by (auto simp: less_eq_char_def)
  qed
  moreover have "CHR ''0'' \<le> CHR ''9''"
    by (simp add: less_eq_char_def)
  ultimately show ?thesis
    by (simp add: hex_hash_def hex64_def ex_hash_def list_all_iff)
qed

lemma ex_draft_valid: "valid_record ex_hash ex_draft"
  by code_simp

lemma ex_active_valid: "valid_record ex_hash ex_active"
  by code_simp

lemma ex_activates: "updates (outcome_step ex_hash (Activate 1 (Finite 10)) ex_draft)"
  by code_simp

lemma ex_refreshes: "updates (outcome_step ex_hash (Refresh ex_refresh) ex_active)"
  by code_simp

lemma ex_evidence_hash:
  "evidenceSetHash ex_hash ''c1'' 1 [ex_digest (CHR ''1'')] = ex_digest (CHR ''7'')"
  by code_simp

lemma ex_decides: "assurance_updates (reduceOutcomeDecision ex_hash ex_active ex_decide)"
  by code_simp

lemma ex_accepts: "assurance_updates (reduceOutcomeAcceptance ex_hash ex_decided ex_accept)"
  by code_simp

end
