(* ===== verification/Outcome_Workboard.thy ===== *)
theory Outcome_Workboard
  imports Outcome_Lifecycle
begin

text \<open>
  The observation of linked Workboard cards: the adapter \<open>src/adapters/workboard-adapter.ts\<close>
  after its schema, the evidence extraction of \<open>src/assurance/evidence.ts\<close>, and the refresh
  candidate of \<open>src/gateway/workboard-refresh.ts\<close>.

  Timestamps are integers. The WHATWG URL parser is the parameter \<open>U\<close>: from a text to its
  protocol and normalised form, when it parses.
\<close>

section \<open>Cards\<close>

record WorkboardProofItem =
  wp_id :: string
  wp_status :: string
  wp_createdAt :: int
  wp_label :: "string option"
  wp_command :: "string option"
  wp_url :: "string option"
  wp_note :: "string option"

record WorkboardArtifactItem =
  wa_id :: string
  wa_createdAt :: int
  wa_label :: "string option"
  wa_url :: "string option"
  wa_path :: "string option"
  wa_mimeType :: "string option"

record WorkboardCard =
  wc_id :: string
  wc_createdAt :: int
  wc_updatedAt :: int
  wc_status :: string
  wc_boardId :: string
  wc_upstreamStale :: bool
  wc_proofs :: "WorkboardProofItem list"
  wc_artifacts :: "WorkboardArtifactItem list"

text \<open>A card of the response, after the schema: absent metadata is a record of absent fields.\<close>

record CardMetadata =
  md_boardId :: "string option"
  md_proof :: "WorkboardProofItem list option"
  md_artifacts :: "WorkboardArtifactItem list option"
  md_stale :: bool

record ResponseCard =
  rk_id :: string
  rk_status :: string
  rk_createdAt :: int
  rk_updatedAt :: int
  rk_metadata :: "CardMetadata option"

datatype adapter_error = IdentityConflictError | DuplicateProof | DuplicateArtifact

definition read_card :: "ResponseCard \<Rightarrow> adapter_error + WorkboardCard" where
  "read_card c =
     (let proofs = (case rk_metadata c of None \<Rightarrow> [] | Some m \<Rightarrow> or_else (md_proof m) []);
          artifacts = (case rk_metadata c of None \<Rightarrow> [] | Some m \<Rightarrow> or_else (md_artifacts m) [])
      in if length (remdups (map wp_id proofs)) \<noteq> length proofs then Inl DuplicateProof
         else if length (remdups (map wa_id artifacts)) \<noteq> length artifacts then Inl DuplicateArtifact
         else Inr \<lparr>wc_id = rk_id c, wc_createdAt = rk_createdAt c, wc_updatedAt = rk_updatedAt c,
           wc_status = rk_status c,
           wc_boardId = (case rk_metadata c of None \<Rightarrow> ''default''
             | Some m \<Rightarrow> or_else (md_boardId m) ''default''),
           wc_upstreamStale = (case rk_metadata c of None \<Rightarrow> False | Some m \<Rightarrow> md_stale m),
           wc_proofs = proofs, wc_artifacts = artifacts\<rparr>)"

fun read_cards :: "string list \<Rightarrow> ResponseCard list \<Rightarrow> adapter_error + WorkboardCard list" where
  "read_cards seenCardIds [] = Inr []"
| "read_cards seenCardIds (c # cs) =
     (if rk_id c \<in> set seenCardIds then Inl IdentityConflictError
      else case read_card c of Inl e \<Rightarrow> Inl e
      | Inr wcard \<Rightarrow>
          (case read_cards (rk_id c # seenCardIds) cs of Inl e \<Rightarrow> Inl e
           | Inr cards \<Rightarrow> Inr (wcard # cards)))"

definition readWorkboardCards :: "ResponseCard list \<Rightarrow> adapter_error + WorkboardCard list" where
  "readWorkboardCards response = read_cards [] response"

definition findAuthorizedWorkboardCard ::
  "WorkboardCard list \<Rightarrow> string \<Rightarrow> adapter_error + WorkboardCard option" where
  "findAuthorizedWorkboardCard cards cardId =
     (let matches = filter (\<lambda>c. wc_id c = cardId) cards
      in if 1 < length matches then Inl IdentityConflictError
         else Inr (case matches of [] \<Rightarrow> None | c # _ \<Rightarrow> Some c))"

section \<open>Evidence\<close>

definition proofFields :: "WorkboardProofItem \<Rightarrow> json" where
  "proofFields p = JObj (
     [(''id'', JStr (wp_id p)), (''status'', JStr (wp_status p)), (''createdAt'', JNum (wp_createdAt p))]
     @ opt_field ''label'' JStr (wp_label p) @ opt_field ''command'' JStr (wp_command p)
     @ opt_field ''url'' JStr (wp_url p) @ opt_field ''note'' JStr (wp_note p))"

definition artifactFields :: "WorkboardArtifactItem \<Rightarrow> json" where
  "artifactFields a = JObj (
     [(''id'', JStr (wa_id a)), (''createdAt'', JNum (wa_createdAt a))]
     @ opt_field ''label'' JStr (wa_label a) @ opt_field ''url'' JStr (wa_url a)
     @ opt_field ''path'' JStr (wa_path a) @ opt_field ''mimeType'' JStr (wa_mimeType a))"

record EvidenceInput =
  in_criterionId :: string
  in_planGeneration :: int
  in_observedAt :: js_number
  in_workRef :: WorkboardRef
  in_card :: WorkboardCard

definition source_digest ::
  "(string \<Rightarrow> string) \<Rightarrow> WorkboardCard \<Rightarrow> string \<Rightarrow> string \<Rightarrow> json \<Rightarrow> string" where
  "source_digest H wcard sourceId sourceKind canon =
     H (hash_text ''openclaw:workboard-evidence:v1'' (JObj
       [(''cardId'', JStr (wc_id wcard)), (''cardCreatedAt'', JNum (wc_createdAt wcard)),
        (''currentBoardId'', JStr (wc_boardId wcard)), (''sourceKind'', JStr sourceKind),
        (''sourceId'', JStr sourceId), (''canonicalSourceFields'', canon)]))"

definition evidence_id_json ::
  "string \<Rightarrow> int \<Rightarrow> WorkboardCard \<Rightarrow> evidence_kind \<Rightarrow> string \<Rightarrow> string \<Rightarrow> json" where
  "evidence_id_json criterionId generation wcard k sourceId sourceDigest = JObj
     [(''criterionId'', JStr criterionId), (''generation'', JNum generation),
      (''cardId'', JStr (wc_id wcard)), (''cardCreatedAt'', JNum (wc_createdAt wcard)),
      (''kind'', JStr (evidence_kind_str k)), (''sourceId'', JStr sourceId),
      (''sourceDigest'', JStr sourceDigest)]"

definition evidence_id_text ::
  "string \<Rightarrow> int \<Rightarrow> WorkboardCard \<Rightarrow> evidence_kind \<Rightarrow> string \<Rightarrow> string \<Rightarrow> string" where
  "evidence_id_text criterionId generation wcard k sourceId sourceDigest =
     hash_text ''openclaw:outcome-evidence-ref:v1''
       (evidence_id_json criterionId generation wcard k sourceId sourceDigest)"

definition evidenceRef ::
  "(string \<Rightarrow> string) \<Rightarrow> EvidenceInput \<Rightarrow> int \<Rightarrow> evidence_kind \<Rightarrow> string \<Rightarrow> string \<Rightarrow> json \<Rightarrow> EvidenceRef"
where
  "evidenceRef H inp observedAt k sourceId sourceKind canon =
     (let sourceDigest = source_digest H (in_card inp) sourceId sourceKind canon
      in \<lparr>ev_id = H (evidence_id_text (in_criterionId inp) (in_planGeneration inp) (in_card inp)
            k sourceId sourceDigest),
          ev_criterionId = in_criterionId inp, ev_planGeneration = in_planGeneration inp,
          ev_workRef = in_workRef inp, ev_kind = k, ev_sourceId = sourceId,
          ev_sourceDigest = sourceDigest, ev_observedAt = observedAt\<rparr>)"

definition evidence_order :: "EvidenceRef \<Rightarrow> evidence_kind \<times> string \<times> string" where
  "evidence_order e = (ev_kind e, ev_sourceId e, ev_sourceDigest e)"

definition card_evidence :: "(string \<Rightarrow> string) \<Rightarrow> EvidenceInput \<Rightarrow> int \<Rightarrow> EvidenceRef list" where
  "card_evidence H inp observedAt =
     map (\<lambda>p. evidenceRef H inp observedAt WorkboardProof (wp_id p) ''proof'' (proofFields p))
       (wc_proofs (in_card inp)) @
     map (\<lambda>a. evidenceRef H inp observedAt WorkboardArtifact (wa_id a) ''artifact'' (artifactFields a))
       (wc_artifacts (in_card inp))"

definition extractWorkboardEvidence ::
  "(string \<Rightarrow> string) \<Rightarrow> EvidenceInput \<Rightarrow> outcome_error + EvidenceRef list" where
  "extractWorkboardEvidence H inp =
     (if ref_cardId (in_workRef inp) \<noteq> wc_id (in_card inp) \<or>
         ref_cardCreatedAt (in_workRef inp) \<noteq> wc_createdAt (in_card inp)
      then Inl EvidenceIdentityMismatch
      else if in_planGeneration inp < 0 then Inl EvidenceGenerationInvalid
      else case in_observedAt inp of NonFinite \<Rightarrow> Inl EvidenceTimeNotFinite
      | Finite observedAt \<Rightarrow> Inr (sort_key evidence_order (card_evidence H inp observedAt)))"

section \<open>The refresh candidate\<close>

record EvidenceView = EvidenceRef +
  vw_sourceCreatedAt :: int
  vw_label :: "string option"
  vw_proofStatus :: "string option"
  vw_url :: "string option"
  vw_mimeType :: "string option"

record AuthorizedOutcomeSource =
  as_ref :: WorkboardRef
  as_currentBoardId :: string
  as_status :: string
  as_sourceUpdatedAt :: int
  as_upstreamStale :: bool
  as_evidence :: "EvidenceView list"

record RefreshCandidate =
  rf_projections :: "WorkProjection list"
  rf_evidence :: "EvidenceRef list"
  rf_authorizedSources :: "AuthorizedOutcomeSource list"
  rf_visibleHistoricalRefs :: "WorkboardRef list"
  rf_status :: availability
  rf_reason :: "source_issue option"

text \<open>\<open>refs.filter((ref, index) => refs.findIndex(same identity) === index)\<close>\<close>

fun unique_by :: "('a \<Rightarrow> 'k) \<Rightarrow> 'k list \<Rightarrow> 'a list \<Rightarrow> 'a list" where
  "unique_by f seen [] = []"
| "unique_by f seen (x # xs) =
     (if f x \<in> set seen then unique_by f seen xs else x # unique_by f (f x # seen) xs)"

definition uniqueWorkRefs :: "WorkboardRef list \<Rightarrow> WorkboardRef list" where
  "uniqueWorkRefs refs = unique_by workRefIdentity [] refs"

definition plan_refs :: "OutcomePlanSnapshot \<Rightarrow> WorkboardRef list" where
  "plan_refs p = concat (map cr_workRefs (pl_criteria p))"

definition historicalWorkRefs :: "OutcomeRecord \<Rightarrow> WorkboardRef list" where
  "historicalWorkRefs r = uniqueWorkRefs (
     concat (map (\<lambda>d. plan_refs (de_decidedPlan d)) (rc_decisions r)) @
     concat (map (\<lambda>a. plan_refs (ac_acceptedPlan a)) (rc_acceptances r)))"

definition hasOutcomeSourcePresentationRefs :: "OutcomeRecord \<Rightarrow> bool" where
  "hasOutcomeSourcePresentationRefs r \<longleftrightarrow>
     list_ex (\<lambda>c. 0 < length (cr_workRefs c)) (rc_criteria r) \<or> 0 < length (historicalWorkRefs r)"

definition uniqueSourcePairs :: "SourcePair list \<Rightarrow> SourcePair list" where
  "uniqueSourcePairs items =
     sort_pairs (jm_values (jm_of (map (\<lambda>p. (sp_sourceId p @ NUL # sp_digest p, p)) items)))"

definition publicSourceUrl ::
  "(string \<Rightarrow> (string \<times> string) option) \<Rightarrow> string option \<Rightarrow> string option" where
  "publicSourceUrl U v = (case v of None \<Rightarrow> None
     | Some s \<Rightarrow> (case U s of None \<Rightarrow> None
         | Some (protocol, href) \<Rightarrow>
             if protocol = ''http:'' \<or> protocol = ''https:'' then Some href else None))"

definition unavailable_projection :: "WorkboardRef \<Rightarrow> int \<Rightarrow> source_issue \<Rightarrow> WorkProjection" where
  "unavailable_projection ref observedAt reason =
     \<lparr>pj_ref = ref,
      pj_availability = (if reason = IdentityConflict then IdentityConflicted else Unavailable),
      pj_observedAt = observedAt, pj_proofs = [], pj_artifacts = [], pj_currentBoardId = None,
      pj_status = None, pj_lastSuccessfulAt = None, pj_sourceUpdatedAt = None,
      pj_upstreamStale = None, pj_sourceFingerprint = None, pj_errorCode = Some reason\<rparr>"

definition record_refs :: "OutcomeRecord \<Rightarrow> WorkboardRef list" where
  "record_refs r = uniqueWorkRefs (concat (map cr_workRefs (rc_criteria r)))"

definition unavailableRefresh :: "OutcomeRecord \<Rightarrow> int \<Rightarrow> source_issue \<Rightarrow> RefreshCandidate" where
  "unavailableRefresh r observedAt reason =
     \<lparr>rf_projections = map (\<lambda>ref. unavailable_projection ref observedAt reason) (record_refs r),
      rf_evidence = [], rf_authorizedSources = [], rf_visibleHistoricalRefs = [],
      rf_status = (if reason = IdentityConflict then IdentityConflicted else Unavailable),
      rf_reason = Some reason\<rparr>"

definition cards_by_id :: "WorkboardCard list \<Rightarrow> (string, WorkboardCard list) jsmap" where
  "cards_by_id cards =
     fold (\<lambda>c m. jm_set (wc_id c) (or_else (jm_get m (wc_id c)) [] @ [c]) m) cards []"

type_synonym card_match = "(string, WorkboardCard) jsmap \<times> (string, source_issue) jsmap"

definition match_ref ::
  "(string, WorkboardCard list) jsmap \<Rightarrow> WorkboardRef \<Rightarrow> card_match \<Rightarrow> card_match" where
  "match_ref cardsById ref m =
     (let candidates = or_else (jm_get cardsById (ref_cardId ref)) [];
          exact = filter (\<lambda>c. wc_createdAt c = ref_cardCreatedAt ref) candidates
      in case exact of
           wcard # _ \<Rightarrow>
             if length candidates \<noteq> 1 \<or> length exact \<noteq> 1
             then (fst m, jm_set (workRefIdentity ref)
               (if length candidates = 0 then SourceNotFound else IdentityConflict) (snd m))
             else (jm_set (workRefIdentity ref) wcard (fst m), snd m)
         | [] \<Rightarrow> (fst m, jm_set (workRefIdentity ref)
             (if length candidates = 0 then SourceNotFound else IdentityConflict) (snd m)))"

definition match_refs :: "WorkboardCard list \<Rightarrow> WorkboardRef list \<Rightarrow> card_match" where
  "match_refs cards refs = fold (match_ref (cards_by_id cards)) refs ([], [])"

fun append_evidence ::
  "(string \<Rightarrow> string) \<Rightarrow> (string, WorkboardCard) jsmap \<Rightarrow> int \<Rightarrow> js_number
    \<Rightarrow> (Criterion \<times> WorkboardRef) list \<Rightarrow> outcome_error + EvidenceRef list" where
  "append_evidence H matched generation observedAt [] = Inr []"
| "append_evidence H matched generation observedAt ((c, ref) # rest) =
     (case jm_get matched (workRefIdentity ref) of
        None \<Rightarrow> append_evidence H matched generation observedAt rest
      | Some wcard \<Rightarrow>
          (case extractWorkboardEvidence H \<lparr>in_criterionId = cr_id c, in_planGeneration = generation,
                  in_observedAt = observedAt, in_workRef = ref, in_card = wcard\<rparr> of
             Inl e \<Rightarrow> Inl e
           | Inr es \<Rightarrow>
               (case append_evidence H matched generation observedAt rest of Inl e \<Rightarrow> Inl e
                | Inr rest_es \<Rightarrow> Inr (es @ rest_es))))"

definition criterion_links :: "OutcomeRecord \<Rightarrow> (Criterion \<times> WorkboardRef) list" where
  "criterion_links r = concat (map (\<lambda>c. map (Pair c) (cr_workRefs c)) (rc_criteria r))"

definition kind_pairs :: "evidence_kind \<Rightarrow> EvidenceRef list \<Rightarrow> SourcePair list" where
  "kind_pairs k es = uniqueSourcePairs
     (map (\<lambda>e. \<lparr>sp_sourceId = ev_sourceId e, sp_digest = ev_sourceDigest e\<rparr>)
       (filter (\<lambda>e. ev_kind e = k) es))"

definition available_projection ::
  "(string \<Rightarrow> string) \<Rightarrow> EvidenceRef list \<Rightarrow> WorkboardRef \<Rightarrow> WorkboardCard \<Rightarrow> int \<Rightarrow> WorkProjection"
where
  "available_projection H evidence ref wcard observedAt =
     (let cardEvidence = filter (\<lambda>e. workRefIdentity (ev_workRef e) = workRefIdentity ref) evidence;
          proofs = kind_pairs WorkboardProof cardEvidence;
          artifacts = kind_pairs WorkboardArtifact cardEvidence
      in \<lparr>pj_ref = ref, pj_availability = Available, pj_observedAt = observedAt, pj_proofs = proofs,
          pj_artifacts = artifacts, pj_currentBoardId = Some (wc_boardId wcard),
          pj_status = Some (wc_status wcard), pj_lastSuccessfulAt = Some observedAt,
          pj_sourceUpdatedAt = Some (wc_updatedAt wcard),
          pj_upstreamStale = Some (wc_upstreamStale wcard),
          pj_sourceFingerprint = Some (workboardProjectionFingerprint H ref proofs artifacts
            (wc_boardId wcard) (wc_status wcard) (wc_updatedAt wcard)),
          pj_errorCode = None\<rparr>)"

text \<open>The assertion \<open>matchedCards.get(identity)!\<close> fails as \<open>MissingCard\<close>.\<close>

datatype refresh_error = EvidenceError outcome_error | MissingCard

fun build_projections ::
  "(string \<Rightarrow> string) \<Rightarrow> EvidenceRef list \<Rightarrow> card_match \<Rightarrow> int \<Rightarrow> WorkboardRef list
    \<Rightarrow> refresh_error + WorkProjection list" where
  "build_projections H evidence m observedAt [] = Inr []"
| "build_projections H evidence m observedAt (ref # refs) =
     (case (case jm_get (snd m) (workRefIdentity ref) of
              Some reason \<Rightarrow> Inr (unavailable_projection ref observedAt reason)
            | None \<Rightarrow>
                (case jm_get (fst m) (workRefIdentity ref) of None \<Rightarrow> Inl MissingCard
                 | Some wcard \<Rightarrow> Inr (available_projection H evidence ref wcard observedAt))) of
        Inl e \<Rightarrow> Inl e
      | Inr p \<Rightarrow>
          (case build_projections H evidence m observedAt refs of Inl e \<Rightarrow> Inl e
           | Inr ps \<Rightarrow> Inr (p # ps)))"

definition evidence_view ::
  "(string \<Rightarrow> (string \<times> string) option) \<Rightarrow> WorkboardCard \<Rightarrow> EvidenceRef \<Rightarrow> EvidenceView option" where
  "evidence_view U wcard item =
     (if ev_kind item = WorkboardProof then
        (case find (\<lambda>p. wp_id p = ev_sourceId item) (wc_proofs wcard) of None \<Rightarrow> None
         | Some proof \<Rightarrow> Some (EvidenceRef.extend item (EvidenceView.fields
             (wp_createdAt proof) (wp_label proof) (Some (wp_status proof))
             (publicSourceUrl U (wp_url proof)) None)))
      else
        (case find (\<lambda>a. wa_id a = ev_sourceId item) (wc_artifacts wcard) of None \<Rightarrow> None
         | Some artifact \<Rightarrow> Some (EvidenceRef.extend item (EvidenceView.fields
             (wa_createdAt artifact) (wa_label artifact) None
             (publicSourceUrl U (wa_url artifact)) (wa_mimeType artifact)))))"

definition authorized_source ::
  "(string \<Rightarrow> (string \<times> string) option) \<Rightarrow> EvidenceRef list \<Rightarrow> card_match \<Rightarrow> WorkProjection
    \<Rightarrow> AuthorizedOutcomeSource list" where
  "authorized_source U evidence m p =
     (if pj_availability p \<noteq> Available then []
      else case jm_get (fst m) (workRefIdentity (pj_ref p)) of None \<Rightarrow> []
      | Some wcard \<Rightarrow>
          [\<lparr>as_ref = pj_ref p, as_currentBoardId = wc_boardId wcard, as_status = wc_status wcard,
            as_sourceUpdatedAt = wc_updatedAt wcard, as_upstreamStale = wc_upstreamStale wcard,
            as_evidence = List.map_filter (\<lambda>e.
              if workRefIdentity (ev_workRef e) \<noteq> workRefIdentity (pj_ref p) then None
              else evidence_view U wcard e) evidence\<rparr>])"

definition visible_historical :: "(string, WorkboardCard list) jsmap \<Rightarrow> WorkboardRef \<Rightarrow> bool" where
  "visible_historical cardsById ref \<longleftrightarrow>
     (case or_else (jm_get cardsById (ref_cardId ref)) [] of
        [wcard] \<Rightarrow> wc_createdAt wcard = ref_cardCreatedAt ref
      | _ \<Rightarrow> False)"

definition buildRefreshCandidate ::
  "(string \<Rightarrow> string) \<Rightarrow> (string \<Rightarrow> (string \<times> string) option) \<Rightarrow> OutcomeRecord \<Rightarrow> WorkboardCard list
    \<Rightarrow> int \<Rightarrow> refresh_error + RefreshCandidate" where
  "buildRefreshCandidate H U r cards observedAt =
     (let refs = record_refs r;
          m = match_refs cards refs
      in case append_evidence H (fst m) (rc_planGeneration r) (Finite observedAt) (criterion_links r) of
           Inl e \<Rightarrow> Inl (EvidenceError e)
         | Inr evidence \<Rightarrow>
             (case build_projections H evidence m observedAt refs of Inl e \<Rightarrow> Inl e
              | Inr projections \<Rightarrow>
                  let identityConflict =
                        list_ex (\<lambda>p. pj_availability p = IdentityConflicted) projections;
                      unavailableProjection =
                        find (\<lambda>p. pj_availability p = Unavailable) projections
                  in Inr \<lparr>rf_projections = projections, rf_evidence = evidence,
                       rf_authorizedSources =
                         concat (map (authorized_source U evidence m) projections),
                       rf_visibleHistoricalRefs =
                         filter (visible_historical (cards_by_id cards)) (historicalWorkRefs r),
                       rf_status = (if identityConflict then IdentityConflicted
                         else if unavailableProjection = None then Available else Unavailable),
                       rf_reason = (if identityConflict then Some IdentityConflict
                         else case unavailableProjection of None \<Rightarrow> None
                         | Some p \<Rightarrow> pj_errorCode p)\<rparr>))"

section \<open>First occurrences and the cards of a ref\<close>

lemma unique_by_subset: "set (unique_by f seen xs) \<subseteq> set xs"
  by (induction f seen xs rule: unique_by.induct) auto

lemma unique_by_keys: "f ` set (unique_by f seen xs) = f ` set xs - set seen"
  by (induction f seen xs rule: unique_by.induct) auto

lemma unique_by_distinct: "distinct (map f (unique_by f seen xs))"
proof (induction f seen xs rule: unique_by.induct)
  case (2 f seen x xs)
  have "f x \<notin> f ` set (unique_by f (f x # seen) xs)"
    by (simp add: unique_by_keys)
  with 2 show ?case by simp
qed simp

lemma record_refs_facts:
  "distinct (map workRefIdentity (record_refs r))"
  "workRefIdentity ` set (record_refs r) = set (linked_identities (rc_criteria r))"
  "set (record_refs r) \<subseteq> (\<Union>c \<in> set (rc_criteria r). set (cr_workRefs c))"
  using unique_by_subset [of workRefIdentity "[]" "concat (map cr_workRefs (rc_criteria r))"]
  by (auto simp: record_refs_def uniqueWorkRefs_def unique_by_distinct unique_by_keys
      linked_identities_set)

lemma cards_by_id_get:
  "or_else (jm_get (cards_by_id cards) k) [] = filter (\<lambda>c. wc_id c = k) cards"
proof -
  have "or_else (jm_get (fold (\<lambda>c m. jm_set (wc_id c) (or_else (jm_get m (wc_id c)) [] @ [c]) m) cards m) k) []
      = or_else (jm_get m k) [] @ filter (\<lambda>c. wc_id c = k) cards" for m
    by (induction cards arbitrary: m) (simp_all add: or_else_def)
  from this [of "[]"] show ?thesis
    by (simp add: cards_by_id_def or_else_def)
qed

text \<open>The one card a ref identifies.\<close>

definition the_card :: "WorkboardCard list \<Rightarrow> WorkboardRef \<Rightarrow> WorkboardCard option" where
  "the_card cards ref = (case filter (\<lambda>c. wc_id c = ref_cardId ref) cards of
     [c] \<Rightarrow> if wc_createdAt c = ref_cardCreatedAt ref then Some c else None | _ \<Rightarrow> None)"

definition missing_reason :: "WorkboardCard list \<Rightarrow> WorkboardRef \<Rightarrow> source_issue" where
  "missing_reason cards ref =
     (if filter (\<lambda>c. wc_id c = ref_cardId ref) cards = [] then SourceNotFound else IdentityConflict)"

lemma the_card_Some:
  assumes "the_card cards ref = Some c"
  shows "c \<in> set cards \<and> wc_id c = ref_cardId ref \<and> wc_createdAt c = ref_cardCreatedAt ref"
proof -
  have "filter (\<lambda>c. wc_id c = ref_cardId ref) cards = [c]" "wc_createdAt c = ref_cardCreatedAt ref"
    using assms by (auto simp: the_card_def split: list.splits if_splits)
  then have "c \<in> set (filter (\<lambda>c. wc_id c = ref_cardId ref) cards)" by simp
  with \<open>wc_createdAt c = ref_cardCreatedAt ref\<close> show ?thesis by simp
qed

lemma the_card_identity:
  "workRefIdentity a = workRefIdentity b \<Longrightarrow>
     the_card cards a = the_card cards b \<and> missing_reason cards a = missing_reason cards b"
  unfolding workRefIdentity_eq_iff the_card_def missing_reason_def by (elim conjE) (simp only:)

lemma match_ref_eq:
  "match_ref (cards_by_id cards) ref m = (case the_card cards ref of
     Some c \<Rightarrow> (jm_set (workRefIdentity ref) c (fst m), snd m)
   | None \<Rightarrow> (fst m, jm_set (workRefIdentity ref) (missing_reason cards ref) (snd m)))"
proof -
  let ?cs = "filter (\<lambda>c. wc_id c = ref_cardId ref) cards"
  show ?thesis
  proof (cases ?cs)
    case Nil
    then show ?thesis
      by (simp add: match_ref_def Let_def cards_by_id_get the_card_def missing_reason_def)
  next
    case (Cons c cs)
    then show ?thesis
      unfolding match_ref_def Let_def cards_by_id_get the_card_def missing_reason_def
      by (cases cs) (auto split: list.splits)
  qed
qed

lemma match_refs_fold:
  "jm_get (fst (fold (match_ref (cards_by_id cards)) refs m)) (workRefIdentity x) =
     (if workRefIdentity x \<in> workRefIdentity ` set refs \<and> the_card cards x \<noteq> None
      then the_card cards x else jm_get (fst m) (workRefIdentity x)) \<and>
   jm_get (snd (fold (match_ref (cards_by_id cards)) refs m)) (workRefIdentity x) =
     (if workRefIdentity x \<in> workRefIdentity ` set refs \<and> the_card cards x = None
      then Some (missing_reason cards x) else jm_get (snd m) (workRefIdentity x))"
proof (induction refs arbitrary: m)
  case (Cons ref refs)
  let ?m = "match_ref (cards_by_id cards) ref m"
  have step: "jm_get (fst ?m) (workRefIdentity x) =
      (if workRefIdentity x = workRefIdentity ref \<and> the_card cards x \<noteq> None
       then the_card cards x else jm_get (fst m) (workRefIdentity x))"
    "jm_get (snd ?m) (workRefIdentity x) =
      (if workRefIdentity x = workRefIdentity ref \<and> the_card cards x = None
       then Some (missing_reason cards x) else jm_get (snd m) (workRefIdentity x))"
    using the_card_identity [of x ref cards] unfolding match_ref_eq
    by (cases "the_card cards ref"; force)+
  show ?case
    using Cons.IH [of ?m] unfolding step by simp
qed simp

lemma match_refs_in:
  assumes "workRefIdentity x \<in> workRefIdentity ` set refs"
  shows "jm_get (fst (match_refs cards refs)) (workRefIdentity x) = the_card cards x"
    "jm_get (snd (match_refs cards refs)) (workRefIdentity x) =
       (if the_card cards x = None then Some (missing_reason cards x) else None)"
  using match_refs_fold [of cards refs "([], [])" x] assms by (simp_all add: match_refs_def)

section \<open>The candidate in closed form\<close>

definition link_evidence ::
  "(string \<Rightarrow> string) \<Rightarrow> WorkboardCard list \<Rightarrow> int \<Rightarrow> int \<Rightarrow> Criterion \<times> WorkboardRef \<Rightarrow> EvidenceRef list"
where
  "link_evidence H cards generation t l =
     (case the_card cards (snd l) of None \<Rightarrow> []
      | Some c \<Rightarrow> sort_key evidence_order (card_evidence H \<lparr>in_criterionId = cr_id (fst l),
          in_planGeneration = generation, in_observedAt = Finite t, in_workRef = snd l,
          in_card = c\<rparr> t))"

definition candidate_evidence ::
  "(string \<Rightarrow> string) \<Rightarrow> OutcomeRecord \<Rightarrow> WorkboardCard list \<Rightarrow> int \<Rightarrow> EvidenceRef list" where
  "candidate_evidence H r cards t =
     concat (map (link_evidence H cards (rc_planGeneration r) t) (criterion_links r))"

definition candidate_projection ::
  "(string \<Rightarrow> string) \<Rightarrow> EvidenceRef list \<Rightarrow> WorkboardCard list \<Rightarrow> int \<Rightarrow> WorkboardRef \<Rightarrow> WorkProjection"
where
  "candidate_projection H evidence cards t ref =
     (case the_card cards ref of None \<Rightarrow> unavailable_projection ref t (missing_reason cards ref)
      | Some c \<Rightarrow> available_projection H evidence ref c t)"

lemma append_evidence_eq:
  assumes "0 \<le> g" "\<forall>l \<in> set ls. workRefIdentity (snd l) \<in> workRefIdentity ` set refs"
  shows "append_evidence H (fst (match_refs cards refs)) g (Finite t) ls =
    Inr (concat (map (link_evidence H cards g t) ls))"
  using assms(2)
proof (induction ls)
  case (Cons l ls)
  obtain c ref where l: "l = (c, ref)" by (cases l)
  with Cons.prems have get:
    "jm_get (fst (match_refs cards refs)) (workRefIdentity ref) = the_card cards ref"
    by (intro match_refs_in(1)) simp
  show ?case
  proof (cases "the_card cards ref")
    case None
    with Cons l get show ?thesis by (simp add: link_evidence_def)
  next
    case (Some wcard)
    with Cons l get the_card_Some [OF Some] assms(1) show ?thesis
      by (simp add: link_evidence_def extractWorkboardEvidence_def)
  qed
qed simp

lemma build_projections_eq:
  assumes "set rs \<subseteq> set refs"
  shows "build_projections H evidence (match_refs cards refs) t rs =
    Inr (map (candidate_projection H evidence cards t) rs)"
  using assms
proof (induction rs)
  case (Cons ref rs)
  then have "workRefIdentity ref \<in> workRefIdentity ` set refs" by simp
  note m = match_refs_in [OF this, of cards]
  with Cons show ?case
    by (cases "the_card cards ref") (simp_all add: candidate_projection_def)
qed simp

lemma criterion_links_set:
  "set (criterion_links r) = {(c, ref). c \<in> set (rc_criteria r) \<and> ref \<in> set (cr_workRefs c)}"
  by (auto simp: criterion_links_def)

lemma buildRefreshCandidate_eq:
  assumes "0 \<le> rc_planGeneration r"
  shows "\<exists>cand. buildRefreshCandidate H U r cards t = Inr cand \<and>
    rf_evidence cand = candidate_evidence H r cards t \<and>
    rf_projections cand =
      map (candidate_projection H (candidate_evidence H r cards t) cards t) (record_refs r) \<and>
    rf_authorizedSources cand = concat (map (authorized_source U (candidate_evidence H r cards t)
      (match_refs cards (record_refs r))) (rf_projections cand))"
proof -
  have "workRefIdentity (snd l) \<in> workRefIdentity ` set (record_refs r)"
    if "l \<in> set (criterion_links r)" for l
    using that unfolding record_refs_facts(2) criterion_links_set linked_identities_set by fastforce
  then have "append_evidence H (fst (match_refs cards (record_refs r))) (rc_planGeneration r) (Finite t)
      (criterion_links r) = Inr (candidate_evidence H r cards t)"
    unfolding candidate_evidence_def by (intro append_evidence_eq assms ballI) blast
  then show ?thesis
    by (simp add: buildRefreshCandidate_def Let_def build_projections_eq)
qed

section \<open>Valid cards give valid observations\<close>

text \<open>What the schema of the adapter has checked.\<close>

definition valid_response_card :: "ResponseCard \<Rightarrow> bool" where
  "valid_response_card c \<longleftrightarrow> min1 (rk_id c) \<and> min1 (rk_status c) \<and>
     (case rk_metadata c of None \<Rightarrow> True
      | Some m \<Rightarrow> opt_ok min1 (md_boardId m) \<and>
          opt_ok (list_all (\<lambda>p. min1 (wp_id p))) (md_proof m) \<and>
          opt_ok (list_all (\<lambda>a. min1 (wa_id a))) (md_artifacts m))"

definition valid_card :: "WorkboardCard \<Rightarrow> bool" where
  "valid_card c \<longleftrightarrow> min1 (wc_status c) \<and> min1 (wc_boardId c) \<and>
     list_all (\<lambda>p. min1 (wp_id p)) (wc_proofs c) \<and> distinct (map wp_id (wc_proofs c)) \<and>
     list_all (\<lambda>a. min1 (wa_id a)) (wc_artifacts c) \<and> distinct (map wa_id (wc_artifacts c))"

lemma read_card_valid:
  assumes "valid_response_card c" "read_card c = Inr wcard"
  shows "valid_card wcard \<and> wc_id wcard = rk_id c"
proof -
  have d: "length (remdups (map f xs)) = length xs \<longleftrightarrow> distinct (map f xs)" for f :: "'x \<Rightarrow> string" and xs
    using length_remdups_eq_distinct [of "map f xs"] by simp
  have "min1 ''default''" by (simp add: min1_def)
  with assms show ?thesis
    by (auto simp: read_card_def d valid_response_card_def valid_card_def or_else_def opt_ok_def Let_def
        split: option.splits if_splits)
qed

lemma read_cards_valid:
  assumes "list_all valid_response_card cs" "read_cards seen cs = Inr cards"
  shows "list_all valid_card cards \<and> distinct (map wc_id cards) \<and> set (map wc_id cards) \<inter> set seen = {}"
  using assms
proof (induction seen cs arbitrary: cards rule: read_cards.induct)
  case (2 seen c cs)
  obtain wcard rest where r: "rk_id c \<notin> set seen" "read_card c = Inr wcard"
    "read_cards (rk_id c # seen) cs = Inr rest" "cards = wcard # rest"
    using 2(3) by (auto split: if_splits sum.splits)
  have "valid_card wcard \<and> wc_id wcard = rk_id c"
    using read_card_valid [OF _ r(2)] 2(2) by simp
  moreover have "list_all valid_card rest \<and> distinct (map wc_id rest) \<and>
      set (map wc_id rest) \<inter> set (rk_id c # seen) = {}"
    using 2(1) [OF r(1,2) _ r(3)] 2(2) by simp
  ultimately show ?case
    using r(1,4) by auto
qed simp

definition evidence_text :: "EvidenceRef \<Rightarrow> string" where
  "evidence_text e = hash_text ''openclaw:outcome-evidence-ref:v1'' (JObj
     [(''criterionId'', JStr (ev_criterionId e)), (''generation'', JNum (ev_planGeneration e)),
      (''cardId'', JStr (ref_cardId (ev_workRef e))),
      (''cardCreatedAt'', JNum (ref_cardCreatedAt (ev_workRef e))),
      (''kind'', JStr (evidence_kind_str (ev_kind e))), (''sourceId'', JStr (ev_sourceId e)),
      (''sourceDigest'', JStr (ev_sourceDigest e))])"

definition evidence_key :: "EvidenceRef \<Rightarrow> (string \<times> string) \<times> evidence_kind \<times> string" where
  "evidence_key e = ((ev_criterionId e, workRefIdentity (ev_workRef e)), ev_kind e, ev_sourceId e)"

lemma evidence_kind_str_inject [simp]: "evidence_kind_str a = evidence_kind_str b \<longleftrightarrow> a = b"
  by (cases a; cases b) (simp_all add: evidence_kind_str_def)

lemma evidence_text_key: "evidence_text a = evidence_text b \<Longrightarrow> evidence_key a = evidence_key b"
  by (auto simp: evidence_text_def hash_text_def stableStringify_inject evidence_key_def
      workRefIdentity_eq_iff)

lemma card_evidence_facts:
  assumes "e \<in> set (card_evidence H inp t)" "ref_cardId (in_workRef inp) = wc_id (in_card inp)"
    "ref_cardCreatedAt (in_workRef inp) = wc_createdAt (in_card inp)"
  shows "ev_id e = H (evidence_text e)" "ev_criterionId e = in_criterionId inp"
    "ev_planGeneration e = in_planGeneration inp" "ev_workRef e = in_workRef inp"
    "ev_sourceId e \<in> wp_id ` set (wc_proofs (in_card inp)) \<union> wa_id ` set (wc_artifacts (in_card inp))"
    "\<exists>s. ev_sourceDigest e = H s"
  using assms
  by (auto simp: card_evidence_def evidenceRef_def Let_def evidence_text_def evidence_id_text_def
      evidence_id_json_def source_digest_def)

lemma card_evidence_keys:
  assumes "valid_card (in_card inp)"
  shows "distinct (map evidence_key (card_evidence H inp t))"
proof -
  let ?pre = "(in_criterionId inp, workRefIdentity (in_workRef inp))"
  have "map evidence_key (card_evidence H inp t) =
    map (\<lambda>p. (?pre, WorkboardProof, wp_id p)) (wc_proofs (in_card inp)) @
    map (\<lambda>a. (?pre, WorkboardArtifact, wa_id a)) (wc_artifacts (in_card inp))"
    by (simp add: card_evidence_def evidenceRef_def evidence_key_def Let_def)
  moreover have "distinct (map wp_id ps) \<Longrightarrow> distinct (map (\<lambda>p. (?pre, k, wp_id p)) ps)" for k ps
    by (auto simp: distinct_map inj_on_def)
  moreover have "distinct (map wa_id as) \<Longrightarrow> distinct (map (\<lambda>a. (?pre, k, wa_id a)) as)" for k as
    by (auto simp: distinct_map inj_on_def)
  ultimately show ?thesis
    using assms unfolding valid_card_def by auto
qed

lemma link_evidence_facts:
  assumes "e \<in> set (link_evidence H cards g t l)"
  shows "ev_id e = H (evidence_text e)" "ev_criterionId e = cr_id (fst l)"
    "ev_planGeneration e = g" "ev_workRef e = snd l" "\<exists>s. ev_sourceDigest e = H s"
    "\<exists>c \<in> set cards. ev_sourceId e \<in> wp_id ` set (wc_proofs c) \<union> wa_id ` set (wc_artifacts c)"
proof -
  obtain c where c: "the_card cards (snd l) = Some c"
    using assms by (cases "the_card cards (snd l)") (simp_all add: link_evidence_def)
  note id = the_card_Some [OF c]
  have "e \<in> set (card_evidence H \<lparr>in_criterionId = cr_id (fst l), in_planGeneration = g,
      in_observedAt = Finite t, in_workRef = snd l, in_card = c\<rparr> t)"
    using assms c by (simp add: link_evidence_def)
  note facts = card_evidence_facts [OF this]
  show "ev_id e = H (evidence_text e)" "ev_criterionId e = cr_id (fst l)"
    "ev_planGeneration e = g" "ev_workRef e = snd l" "\<exists>s. ev_sourceDigest e = H s"
    "\<exists>c \<in> set cards. ev_sourceId e \<in> wp_id ` set (wc_proofs c) \<union> wa_id ` set (wc_artifacts c)"
    using facts id by auto
qed

lemma link_evidence_keys:
  assumes "list_all valid_card cards"
  shows "distinct (map evidence_key (link_evidence H cards g t l))"
proof (cases "the_card cards (snd l)")
  case (Some c)
  have "valid_card c"
    using the_card_Some [OF Some] assms by (simp add: list_all_iff)
  with Some show ?thesis
    by (simp add: link_evidence_def distinct_map_sort_key card_evidence_keys)
qed (simp add: link_evidence_def)

lemma distinct_concat_keyed:
  assumes "distinct (map p ls)" "\<And>l. l \<in> set ls \<Longrightarrow> distinct (map f (g l))"
    "\<And>l e. l \<in> set ls \<Longrightarrow> e \<in> set (g l) \<Longrightarrow> q (f e) = p l"
  shows "distinct (map f (concat (map g ls)))"
  using assms
proof (induction ls)
  case (Cons l ls)
  have "f ` set (g l) \<inter> f ` set (concat (map g ls)) = {}"
  proof (rule ccontr)
    assume "f ` set (g l) \<inter> f ` set (concat (map g ls)) \<noteq> {}"
    then obtain a l' b where "a \<in> set (g l)" "l' \<in> set ls" "b \<in> set (g l')" "f a = f b"
      by auto
    with Cons.prems(3) [of l a] Cons.prems(3) [of l' b] have "p l = p l'" by simp
    with \<open>l' \<in> set ls\<close> Cons.prems(1) show False by auto
  qed
  with Cons show ?case by simp
qed simp

lemma criterion_links_keys:
  assumes "valid_criteria (rc_criteria r)"
  shows "distinct (map (\<lambda>l. (cr_id (fst l), workRefIdentity (snd l))) (criterion_links r))"
  unfolding criterion_links_def
proof (rule distinct_concat_keyed [where p = cr_id and q = fst])
  show "distinct (map cr_id (rc_criteria r))"
    using assms by (simp add: valid_criteria_iff)
  show "distinct (map (\<lambda>l. (cr_id (fst l), workRefIdentity (snd l))) (map (Pair c) (cr_workRefs c)))"
    if "c \<in> set (rc_criteria r)" for c
  proof -
    have "distinct (map workRefIdentity (cr_workRefs c))"
      using assms that by (simp add: valid_criteria_iff)
    then show ?thesis by (simp add: comp_def distinct_map inj_on_def)
  qed
qed auto

lemma candidate_evidence_keys:
  assumes "valid_criteria (rc_criteria r)" "list_all valid_card cards"
  shows "distinct (map evidence_key (candidate_evidence H r cards t))"
  unfolding candidate_evidence_def
  by (rule distinct_concat_keyed [where q = fst, OF criterion_links_keys [OF assms(1)]])
     (simp_all add: link_evidence_keys [OF assms(2)] evidence_key_def link_evidence_facts)

lemma candidate_evidence_ids:
  assumes "valid_criteria (rc_criteria r)" "list_all valid_card cards"
    "inj_on H (evidence_text ` set (candidate_evidence H r cards t))"
  shows "distinct (map ev_id (candidate_evidence H r cards t))"
proof -
  let ?es = "candidate_evidence H r cards t"
  have "x = y" if "x \<in> set ?es" "y \<in> set ?es" "ev_id x = ev_id y" for x y
  proof -
    have "H (evidence_text x) = H (evidence_text y)"
      using that link_evidence_facts(1) by (auto simp: candidate_evidence_def)
    then have "evidence_key x = evidence_key y"
      using assms(3) that(1,2) by (intro evidence_text_key) (auto dest: inj_onD)
    with candidate_evidence_keys [OF assms(1,2), of H t] that(1,2) show "x = y"
      by (auto simp: distinct_map dest: inj_onD)
  qed
  moreover have "distinct ?es"
    using candidate_evidence_keys [OF assms(1,2), of H t] by (simp add: distinct_map)
  ultimately show ?thesis
    by (simp add: distinct_map inj_on_def)
qed

lemma candidate_evidence_member:
  assumes "e \<in> set (candidate_evidence H r cards t)"
  obtains c ref where "c \<in> set (rc_criteria r)" "ref \<in> set (cr_workRefs c)"
    "e \<in> set (link_evidence H cards (rc_planGeneration r) t (c, ref))"
  using assms by (auto simp: candidate_evidence_def criterion_links_set)

lemma candidate_evidence_valid:
  assumes "valid_record H r" "hex_hash H" "list_all valid_card cards"
    "e \<in> set (candidate_evidence H r cards t)"
  shows "valid_evidence e" "ev_planGeneration e = rc_planGeneration r"
    "workRefIdentity (ev_workRef e) \<in> set (linked_identities (rc_criteria r))"
proof -
  obtain c ref where c: "c \<in> set (rc_criteria r)" "ref \<in> set (cr_workRefs c)"
    and e: "e \<in> set (link_evidence H cards (rc_planGeneration r) t (c, ref))"
    using assms(4) by (rule candidate_evidence_member)
  note facts = link_evidence_facts [OF e]
  have crit: "valid_criterion c" and gen: "nonneg_int (rc_planGeneration r)"
    using assms(1) c(1) by (auto simp: valid_record_def valid_criteria_iff valid_header_def)
  have hex: "min1 (H s)" for s
    using assms(2) by (simp add: hex_hash_def hex64_min1)
  have "min1 (ev_sourceId e)"
    using facts(6) assms(3) by (auto simp: list_all_iff valid_card_def)
  moreover have "min1 (cr_id c)" "valid_ref ref"
    using crit c(2) by (auto simp: valid_criterion_def codePointText_def min1_def list_all_iff)
  ultimately show "valid_evidence e"
    using facts gen hex by (auto simp: valid_evidence_def)
  show "ev_planGeneration e = rc_planGeneration r"
    using facts by simp
  show "workRefIdentity (ev_workRef e) \<in> set (linked_identities (rc_criteria r))"
    using c facts unfolding linked_identities_set by auto
qed

lemma uniqueSourcePairs_subset: "set (uniqueSourcePairs ps) \<subseteq> set ps"
  using jm_of_subset [of "map (\<lambda>p. (sp_sourceId p @ NUL # sp_digest p, p)) ps"]
  by (fastforce simp: uniqueSourcePairs_def sort_pairs_def jm_values_def)

lemma kind_pairs_valid:
  assumes "\<And>e. e \<in> set es \<Longrightarrow> valid_evidence e"
  shows "list_all valid_pair (kind_pairs k es)"
proof -
  have "valid_pair p" if "p \<in> set (kind_pairs k es)" for p
  proof -
    have "p \<in> set (map (\<lambda>e. \<lparr>sp_sourceId = ev_sourceId e, sp_digest = ev_sourceDigest e\<rparr>)
        (filter (\<lambda>e. ev_kind e = k) es))"
      using that uniqueSourcePairs_subset unfolding kind_pairs_def by blast
    then obtain e where "e \<in> set es" "p = \<lparr>sp_sourceId = ev_sourceId e, sp_digest = ev_sourceDigest e\<rparr>"
      by auto
    with assms show ?thesis by (simp add: valid_pair_def valid_evidence_def)
  qed
  then show ?thesis by (simp add: list_all_iff)
qed

lemma candidate_projection_valid:
  assumes "hex_hash H" "list_all valid_card cards" "valid_ref ref"
    "\<And>e. e \<in> set es \<Longrightarrow> valid_evidence e"
  shows "valid_projection H (candidate_projection H es cards t ref)"
proof (cases "the_card cards ref")
  case None
  with assms(3) show ?thesis
    by (simp add: candidate_projection_def unavailable_projection_def valid_projection_def opt_ok_def
        missing_reason_def)
next
  case (Some c)
  have "valid_card c"
    using the_card_Some [OF Some] assms(2) by (simp add: list_all_iff)
  moreover have "hex64 (workboardProjectionFingerprint H a b d e f g)" for a b d e f g
    using assms(1) by (simp add: workboardProjectionFingerprint_def hex_hash_def)
  moreover have "list_all valid_pair (kind_pairs k (filter P es))" for k P
    by (rule kind_pairs_valid) (use assms(4) in auto)
  ultimately show ?thesis
    using Some assms(3)
    by (simp add: candidate_projection_def available_projection_def valid_projection_def
        opt_ok_def valid_card_def Let_def)
qed

lemma candidate_projection_ref [simp]: "pj_ref (candidate_projection H es cards t ref) = ref"
  by (simp add: candidate_projection_def unavailable_projection_def available_projection_def Let_def
      split: option.splits)

section \<open>A fresh observation is always one the reducer takes\<close>

lemma candidate_taken:
  assumes valid: "valid_record H r" and hex: "hex_hash H" and phase: "rc_phase r \<noteq> Cancelled"
    and cards: "readWorkboardCards response = Inr cards" "list_all valid_response_card response"
    and coll: "inj_on H (evidence_text ` set (candidate_evidence H r cards t))"
  shows "\<exists>cand. buildRefreshCandidate H U r cards t = Inr cand \<and>
    valid_command H (Refresh \<lparr>rm_expectedRevision = rc_revision r,
      rm_projections = rf_projections cand, rm_evidence = rf_evidence cand,
      rm_serverTime = Finite t\<rparr>) \<and>
    ((\<exists>r'. reduceOutcomeRefresh r \<lparr>rm_expectedRevision = rc_revision r,
        rm_projections = rf_projections cand, rm_evidence = rf_evidence cand,
        rm_serverTime = Finite t\<rparr> = Inr (Updated r')) \<or>
     reduceOutcomeRefresh r \<lparr>rm_expectedRevision = rc_revision r,
        rm_projections = rf_projections cand, rm_evidence = rf_evidence cand,
        rm_serverTime = Finite t\<rparr> = Inr (Rejected r (Some CapacityExceeded)))"
proof -
  let ?es = "candidate_evidence H r cards t"
  have gen: "0 \<le> rc_planGeneration r" and crit: "valid_criteria (rc_criteria r)"
    using valid by (simp_all add: valid_record_def valid_header_def nonneg_int_def)
  have vc: "list_all valid_card cards"
    using read_cards_valid [OF cards(2)] cards(1) by (simp add: readWorkboardCards_def)
  obtain cand where cand: "buildRefreshCandidate H U r cards t = Inr cand" "rf_evidence cand = ?es"
    "rf_projections cand = map (candidate_projection H ?es cards t) (record_refs r)"
    using buildRefreshCandidate_eq [OF gen, of H U cards t] by blast
  have refs: "valid_ref ref" if "ref \<in> set (record_refs r)" for ref
    using that record_refs_facts(3) [of r] crit
    by (fastforce simp: valid_criteria_iff valid_criterion_def list_all_iff)
  have ev: "valid_evidence e" if "e \<in> set ?es" for e
    using candidate_evidence_valid(1) [OF valid hex vc that] .
  have "list_all (valid_projection H) (rf_projections cand)"
    unfolding cand(3) list_all_iff
    using candidate_projection_valid [OF hex vc refs ev] by auto
  moreover have "list_all valid_evidence (rf_evidence cand)"
    using ev by (simp add: cand(2) list_all_iff)
  moreover have "length (remdups (map ev_id ?es)) = length ?es"
    using candidate_evidence_ids [OF crit vc coll] length_remdups_eq_distinct [of "map ev_id ?es"]
    by simp
  moreover have "\<forall>e \<in> set ?es. ev_planGeneration e = rc_planGeneration r \<and>
      workRefIdentity (ev_workRef e) \<in> set (linked_identities (rc_criteria r))"
    using candidate_evidence_valid(2,3) [OF valid hex vc] by blast
  moreover have ids: "map (\<lambda>p. workRefIdentity (pj_ref p)) (rf_projections cand) =
      map workRefIdentity (record_refs r)"
    by (simp add: cand(3))
  moreover have "(\<lambda>p. workRefIdentity (pj_ref p)) ` set (rf_projections cand) =
      set (linked_identities (rc_criteria r))"
    using arg_cong [OF ids, of set] record_refs_facts(2) [of r] by simp
  moreover have "length (record_refs r) = length (remdups (linked_identities (rc_criteria r)))"
    using distinct_card [OF record_refs_facts(1), of r] record_refs_facts(2) [of r]
    by (simp add: length_remdups_card_conv)
  moreover have "length (remdups (map workRefIdentity (record_refs r))) = length (record_refs r)"
    using record_refs_facts(1) [of r] by (simp add: distinct_remdups_id)
  moreover have "length (rf_projections cand) = length (record_refs r)"
    by (simp add: cand(3))
  ultimately show ?thesis
    using cand(1,2) phase record_refs_facts(1) [of r]
    by (auto simp: reduceOutcomeRefresh_def Let_def list_ex_iff)
qed


end
