(* ===== verification/Outcome_ReadModel.thy ===== *)
theory Outcome_ReadModel
  imports Outcome_Decisions Outcome_Workboard
begin

text \<open>
  What an operator is shown: the guidance of \<open>src/assurance/attention.ts\<close> and the summary
  and detail of \<open>src/domain/read-model.ts\<close>. The two closures \<open>addAttention\<close> and
  \<open>addAction\<close> of the source become functions on the guidance built so far.
\<close>

section \<open>Guidance\<close>

datatype attention_code =
  ContractIncomplete | OwnerUnavailable | StaleSource | BlockedSource | EvidenceMissing
  | VerificationRequired | RejectedCriterion | AcceptanceNeedsReview | UnknownOperation
  | ReadyForAcceptance

datatype next_action =
  DoRefresh | DoReviewEvidence | DoUnlinkWork | DoEditContract | DoLinkWork | DoActivate
  | DoCancel | DoAccept

record guidance =
  gd_attention :: "(attention_code \<times> string option) list"
  gd_nextActions :: "next_action list"

definition addAttention :: "attention_code \<Rightarrow> string option \<Rightarrow> guidance \<Rightarrow> guidance" where
  "addAttention code criterionId g =
     (if list_ex (\<lambda>i. fst i = code \<and> snd i = criterionId) (gd_attention g) then g
      else g\<lparr>gd_attention := gd_attention g @ [(code, criterionId)]\<rparr>)"

definition addAction :: "next_action \<Rightarrow> guidance \<Rightarrow> guidance" where
  "addAction action g =
     (if action \<in> set (gd_nextActions g) then g
      else g\<lparr>gd_nextActions := gd_nextActions g @ [action]\<rparr>)"

definition projections_by_ref :: "WorkProjection list \<Rightarrow> (string, WorkProjection) jsmap" where
  "projections_by_ref ps = jm_of (map (\<lambda>p. (workRefIdentity (pj_ref p), p)) ps)"

text \<open>One linked ref of a criterion; the flag is \<open>sourceIsCurrent\<close>.\<close>

definition ref_guidance ::
  "(string, WorkProjection) jsmap \<Rightarrow> int \<Rightarrow> Criterion \<Rightarrow> WorkboardRef \<Rightarrow> guidance \<times> bool
    \<Rightarrow> guidance \<times> bool" where
  "ref_guidance projectionsByRef observedAt c ref st =
     (let g = fst st;
          unavailable = (addAction DoRefresh (addAttention OwnerUnavailable (Some (cr_id c)) g), False)
      in case jm_get projectionsByRef (workRefIdentity ref) of
           None \<Rightarrow> unavailable
         | Some p \<Rightarrow>
             if pj_availability p \<noteq> Available then unavailable
             else if isStaleOutcomeProjection p observedAt
               then (addAction DoRefresh (addAttention StaleSource (Some (cr_id c)) g), False)
             else if pj_status p = Some ''blocked''
               then (addAction DoRefresh (addAttention BlockedSource (Some (cr_id c)) g), False)
             else st)"

definition criterion_guidance ::
  "(string \<Rightarrow> string) \<Rightarrow> OutcomeRecord \<Rightarrow> WorkProjection list \<Rightarrow> int \<Rightarrow> Criterion \<Rightarrow> guidance \<Rightarrow> guidance"
where
  "criterion_guidance H r projections observedAt c g =
     (let missingRequiredLink = (cr_required c \<and> length (cr_workRefs c) = 0);
          g1 = (if rc_phase r = Draft \<or> missingRequiredLink
            then addAttention ContractIncomplete (Some (cr_id c)) g else g);
          (g2, sourceIsCurrent) = fold (ref_guidance (projections_by_ref projections) observedAt c)
            (cr_workRefs c) (g1, 0 < length (cr_workRefs c))
      in if \<not> sourceIsCurrent then g2
         else case currentOutcomeEvidenceSourceDigests r c projections observedAt of
           None \<Rightarrow> g2
         | Some sourceDigests \<Rightarrow>
             if length sourceDigests = 0 then
               (let g3 = addAction DoRefresh (addAttention EvidenceMissing (Some (cr_id c)) g2)
                in if rc_phase r = Active \<or> rc_phase r = Accepted then addAction DoReviewEvidence g3 else g3)
             else if rc_phase r \<noteq> Active \<and> rc_phase r \<noteq> Accepted then g2
             else
               (let g3 = addAction DoReviewEvidence g2
                in if currentOutcomeDecision H r c projections observedAt = None
                   then addAttention VerificationRequired (Some (cr_id c)) g3 else g3))"

definition hasUncertainOperation :: "OutcomeRecord \<Rightarrow> bool" where
  "hasUncertainOperation r \<longleftrightarrow>
     list_ex (\<lambda>x. op_state x \<in> {Prepared, MayHaveCrossed, UnknownState}) (rc_operations r)"

definition hasCurrentAcceptance :: "OutcomeRecord \<Rightarrow> string option \<Rightarrow> bool" where
  "hasCurrentAcceptance r closureHash \<longleftrightarrow> (case closureHash of None \<Rightarrow> False
     | Some h \<Rightarrow> list_ex (\<lambda>a. ac_planGeneration a = rc_planGeneration r \<and>
         Some (ac_planHash a) = rc_planHash r \<and> ac_closureHash a = h) (rc_acceptances r))"

definition hasCurrentRejectedDecision ::
  "(string \<Rightarrow> string) \<Rightarrow> OutcomeRecord \<Rightarrow> WorkProjection list \<Rightarrow> int \<Rightarrow> bool" where
  "hasCurrentRejectedDecision H r projections observedAt \<longleftrightarrow>
     list_ex (\<lambda>c. case currentOutcomeDecision H r c projections observedAt of None \<Rightarrow> False
       | Some cd \<Rightarrow> de_status (cd_decision cd) = RejectedDecision) (rc_criteria r)"

definition when_do :: "bool \<Rightarrow> ('g \<Rightarrow> 'g) \<Rightarrow> 'g \<Rightarrow> 'g" where
  "when_do b f g = (if b then f g else g)"

definition deriveOutcomeAttention ::
  "(string \<Rightarrow> string) \<Rightarrow> OutcomeRecord \<Rightarrow> WorkProjection list \<Rightarrow> int \<Rightarrow> string option \<Rightarrow> guidance" where
  "deriveOutcomeAttention H r projections observedAt closureHash =
     (if rc_phase r = Cancelled then \<lparr>gd_attention = [], gd_nextActions = []\<rparr>
      else
        let uncertain = hasUncertainOperation r;
            g1 = fold (criterion_guidance H r projections observedAt) (rc_criteria r)
              \<lparr>gd_attention = [], gd_nextActions = []\<rparr>;
            g2 = when_do (list_ex (\<lambda>c. 0 < length (cr_workRefs c)) (rc_criteria r))
              (\<lambda>g. when_do (\<not> uncertain) (addAction DoUnlinkWork) (addAction DoRefresh g)) g1;
            g3 = when_do (\<not> uncertain \<and>
                (rc_phase r = Draft \<or> rc_phase r = Active \<or> rc_phase r = Accepted))
              (\<lambda>g. addAction DoLinkWork (addAction DoEditContract g)) g2;
            g4 = when_do (rc_phase r = Draft \<and>
                list_all (\<lambda>c. 0 < length (cr_workRefs c)) (filter cr_required (rc_criteria r)))
              (addAction DoActivate) g3;
            g5 = when_do ((rc_phase r = Draft \<or> rc_phase r = Active) \<and> \<not> uncertain)
              (addAction DoCancel) g4;
            current = hasCurrentAcceptance r closureHash;
            g6 = when_do (hasCurrentRejectedDecision H r projections observedAt)
              (addAttention RejectedCriterion None) g5;
            g7 = when_do (0 < length (rc_acceptances r) \<and> \<not> current)
              (addAttention AcceptanceNeedsReview None) g6;
            g8 = when_do uncertain (addAttention UnknownOperation None) g7
        in when_do (closureHash \<noteq> None \<and> \<not> current)
             (\<lambda>g. addAction DoAccept (addAction DoReviewEvidence
               (addAttention ReadyForAcceptance None g))) g8)"

section \<open>The summary\<close>

datatype readiness = ReadyUnavailable | ReadyStale | ReadyBlocked | ReadyIncomplete | Ready

datatype acceptance_validity = NoAcceptance | CurrentAcceptance | NeedsReview

record OutcomeSummary =
  sm_id :: string
  sm_title :: string
  sm_phase :: phase
  sm_revision :: int
  sm_updatedAt :: int
  sm_readiness :: readiness
  sm_acceptanceValidity :: acceptance_validity

definition withObservedEvidence :: "OutcomeRecord \<Rightarrow> EvidenceRef list \<Rightarrow> OutcomeRecord" where
  "withObservedEvidence r evidence = r\<lparr>rc_evidence := evidence\<rparr>"

definition latest_acceptance :: "OutcomeRecord \<Rightarrow> Acceptance option" where
  "latest_acceptance r = (case sort_key (\<lambda>a. - ac_acceptedRevision a) (rc_acceptances r) of
     [] \<Rightarrow> None | a # _ \<Rightarrow> Some a)"

definition unavailable_source :: "WorkProjection \<Rightarrow> bool" where
  "unavailable_source p \<longleftrightarrow> pj_availability p \<noteq> Available \<or>
     (case pj_errorCode p of None \<Rightarrow> False | Some e \<Rightarrow>
        e \<in> {WorkboardDisabled, SourceNotFound, SourceForbidden, SourceTimeout, InvalidResponse})"

definition toOutcomeSummary ::
  "(string \<Rightarrow> string) \<Rightarrow> OutcomeRecord \<Rightarrow> int \<Rightarrow> WorkProjection list \<Rightarrow> EvidenceRef list \<Rightarrow> OutcomeSummary"
where
  "toOutcomeSummary H r observedAt projections observedEvidence =
     (let observed = withObservedEvidence r observedEvidence;
          closureHash = deriveOutcomeClosure H observed projections observedAt;
          readiness =
            (if list_ex unavailable_source projections then ReadyUnavailable
             else if list_ex (\<lambda>p. isStaleOutcomeProjection p observedAt) projections then ReadyStale
             else if list_ex (\<lambda>p. pj_status p = Some ''blocked'') projections \<or>
                 hasUncertainOperation observed \<or>
                 hasCurrentRejectedDecision H observed projections observedAt \<or>
                 rc_phase observed = Cancelled then ReadyBlocked
             else if closureHash = None then ReadyIncomplete else Ready);
          validity = (case latest_acceptance observed of None \<Rightarrow> NoAcceptance
            | Some a \<Rightarrow>
                if closureHash \<noteq> None \<and> ac_planGeneration a = rc_planGeneration observed \<and>
                   Some (ac_planHash a) = rc_planHash observed \<and> Some (ac_closureHash a) = closureHash
                then CurrentAcceptance else NeedsReview)
      in \<lparr>sm_id = rc_id observed, sm_title = rc_title observed, sm_phase = rc_phase observed,
          sm_revision = rc_revision observed, sm_updatedAt = rc_updatedAt observed,
          sm_readiness = readiness, sm_acceptanceValidity = validity\<rparr>)"

section \<open>The detail\<close>

record CriterionView =
  cv_id :: string
  cv_text :: string
  cv_required :: bool
  cv_workRefs :: "WorkboardRef list"
  cv_complete :: bool
  cv_evidenceSetHash :: "string option"

record PlanView =
  pv_outcomeId :: string
  pv_objective :: string
  pv_contractRevision :: int
  pv_planGeneration :: int
  pv_criteria :: "CriterionView list"

record WorkView =
  wk_ref :: WorkboardRef
  wk_currentBoardId :: string
  wk_status :: string
  wk_observedAt :: int
  wk_sourceUpdatedAt :: int
  wk_lastSuccessfulAt :: "int option"
  wk_upstreamStale :: bool

record DecisionView =
  dv_id :: string
  dv_criterionId :: string
  dv_status :: decision_status
  dv_evidenceSetHash :: string
  dv_decidedAt :: int
  dv_decidedRevision :: int
  dv_planGeneration :: int
  dv_planHash :: string
  dv_decidedPlan :: PlanView
  dv_note :: "string option"

record AcceptanceView =
  av_id :: string
  av_acceptedAt :: int
  av_acceptedRevision :: int
  av_planGeneration :: int
  av_planHash :: string
  av_closureHash :: string
  av_acceptedPlan :: PlanView

datatype review_reason = ReasonStale | ReasonNotRechecked

record OutcomeDetail =
  dt_summary :: OutcomeSummary
  dt_objective :: string
  dt_contractRevision :: int
  dt_planGeneration :: int
  dt_planHash :: "string option"
  dt_createdAt :: int
  dt_criteria :: "CriterionView list"
  dt_work :: "WorkView list"
  dt_evidence :: "EvidenceView list"
  dt_decisions :: "DecisionView list"
  dt_acceptances :: "AcceptanceView list"
  dt_sourceIssues :: "(string \<times> source_issue) list"
  dt_lastSuccessfulAt :: "int option"
  dt_reviewReason :: "review_reason option"
  dt_observedAt :: int
  dt_recheckAfter :: "int option"
  dt_closureHash :: "string option"
  dt_guidance :: guidance

text \<open>A view of a criterion in a snapshot carries no evidence hash.\<close>

definition toOutcomePlanSnapshotView :: "OutcomePlanSnapshot \<Rightarrow> string list \<Rightarrow> PlanView" where
  "toOutcomePlanSnapshotView plan visible =
     \<lparr>pv_outcomeId = pl_outcomeId plan, pv_objective = pl_objective plan,
      pv_contractRevision = pl_contractRevision plan, pv_planGeneration = pl_planGeneration plan,
      pv_criteria = map (\<lambda>c.
        let workRefs = filter (\<lambda>ref. workRefIdentity ref \<in> set visible) (cr_workRefs c)
        in \<lparr>cv_id = cr_id c, cv_text = cr_text c, cv_required = cr_required c,
            cv_workRefs = workRefs, cv_complete = (length workRefs = length (cr_workRefs c)),
            cv_evidenceSetHash = None\<rparr>) (pl_criteria plan)\<rparr>"

definition currentSourceLastSuccessfulAt :: "OutcomeRecord \<Rightarrow> WorkProjection list \<Rightarrow> int option" where
  "currentSourceLastSuccessfulAt r projections =
     (let linkedIdentities = remdups (linked_identities (rc_criteria r))
      in if length linkedIdentities = 0 then None
         else
           let checks = jm_of (List.map_filter (\<lambda>p.
                 if workRefIdentity (pj_ref p) \<in> set linkedIdentities
                 then map_option (\<lambda>t. (workRefIdentity (pj_ref p), t)) (pj_lastSuccessfulAt p)
                 else None) projections)
           in if length checks = length linkedIdentities
              then Some (fold min (jm_values checks) (hd (jm_values checks))) else None)"

definition sources_by_ref ::
  "AuthorizedOutcomeSource list \<Rightarrow> (string, AuthorizedOutcomeSource) jsmap" where
  "sources_by_ref sources = jm_of (map (\<lambda>s. (workRefIdentity (as_ref s), s)) sources)"

definition criterion_view ::
  "(string \<Rightarrow> string) \<Rightarrow> OutcomeRecord \<Rightarrow> (string, AuthorizedOutcomeSource) jsmap
    \<Rightarrow> (string, WorkProjection) jsmap \<Rightarrow> int \<Rightarrow> Criterion \<Rightarrow> CriterionView" where
  "criterion_view H r sourcesByRef projectionsByRef observedAt c =
     (let visibleRefs = filter (\<lambda>ref. jm_get sourcesByRef (workRefIdentity ref) \<noteq> None) (cr_workRefs c);
          sourcesComplete = (length visibleRefs = length (cr_workRefs c));
          sourcesCurrent = (sourcesComplete \<and> list_all (\<lambda>ref.
            case jm_get projectionsByRef (workRefIdentity ref) of None \<Rightarrow> False
            | Some p \<Rightarrow> pj_availability p = Available \<and> \<not> isStaleOutcomeProjection p observedAt)
            visibleRefs);
          sourceDigests = (if sourcesComplete then concat (map (\<lambda>ref.
              map ev_sourceDigest (filter (\<lambda>e. ev_criterionId e = cr_id c \<and>
                  ev_planGeneration e = rc_planGeneration r)
                (case jm_get sourcesByRef (workRefIdentity ref) of None \<Rightarrow> []
                 | Some s \<Rightarrow> as_evidence s))) visibleRefs) else [])
      in \<lparr>cv_id = cr_id c, cv_text = cr_text c, cv_required = cr_required c,
          cv_workRefs = (if sourcesComplete then visibleRefs else []), cv_complete = sourcesComplete,
          cv_evidenceSetHash =
            (if rc_phase r \<noteq> Draft \<and> rc_phase r \<noteq> Cancelled \<and> sourcesCurrent \<and>
                0 < length (cr_workRefs c)
             then Some (evidenceSetHash H (cr_id c) (rc_planGeneration r) sourceDigests)
             else None)\<rparr>)"

definition work_view ::
  "(string, WorkProjection) jsmap \<Rightarrow> int \<Rightarrow> AuthorizedOutcomeSource \<Rightarrow> WorkView" where
  "work_view projectionsByRef observedAt s =
     \<lparr>wk_ref = as_ref s, wk_currentBoardId = as_currentBoardId s, wk_status = as_status s,
      wk_observedAt = observedAt, wk_sourceUpdatedAt = as_sourceUpdatedAt s,
      wk_lastSuccessfulAt = (case jm_get projectionsByRef (workRefIdentity (as_ref s)) of
         None \<Rightarrow> None | Some p \<Rightarrow> pj_lastSuccessfulAt p),
      wk_upstreamStale = as_upstreamStale s\<rparr>"

definition decision_view :: "string list \<Rightarrow> HumanDecision \<Rightarrow> DecisionView" where
  "decision_view visible d =
     \<lparr>dv_id = de_id d, dv_criterionId = de_criterionId d, dv_status = de_status d,
      dv_evidenceSetHash = de_evidenceSetHash d, dv_decidedAt = de_decidedAt d,
      dv_decidedRevision = de_decidedRevision d, dv_planGeneration = de_planGeneration d,
      dv_planHash = de_planHash d, dv_decidedPlan = toOutcomePlanSnapshotView (de_decidedPlan d) visible,
      dv_note = de_note d\<rparr>"

definition acceptance_view :: "string list \<Rightarrow> Acceptance \<Rightarrow> AcceptanceView" where
  "acceptance_view visible a =
     \<lparr>av_id = ac_id a, av_acceptedAt = ac_acceptedAt a, av_acceptedRevision = ac_acceptedRevision a,
      av_planGeneration = ac_planGeneration a, av_planHash = ac_planHash a,
      av_closureHash = ac_closureHash a,
      av_acceptedPlan = toOutcomePlanSnapshotView (ac_acceptedPlan a) visible\<rparr>"

definition source_issues :: "OutcomeRecord \<Rightarrow> WorkProjection list \<Rightarrow> (string \<times> source_issue) list" where
  "source_issues r projections = unique_by (\<lambda>i. i) [] (concat (map (\<lambda>p.
     case pj_errorCode p of None \<Rightarrow> []
     | Some reason \<Rightarrow> map (\<lambda>c. (cr_id c, reason)) (filter (\<lambda>c.
         list_ex (\<lambda>ref. workRefIdentity ref = workRefIdentity (pj_ref p)) (cr_workRefs c))
         (rc_criteria r))) projections))"

definition recheck_after :: "WorkProjection list \<Rightarrow> int option" where
  "recheck_after projections =
     fold (\<lambda>candidate earliest. case earliest of None \<Rightarrow> Some candidate
         | Some e \<Rightarrow> if candidate < e then Some candidate else Some e)
       (List.map_filter (\<lambda>p. if pj_availability p = Available \<and> pj_upstreamStale p \<noteq> Some True
           then map_option (\<lambda>t. t + OUTCOME_PROJECTION_MAX_AGE_MS) (pj_lastSuccessfulAt p) else None)
         projections) None"

definition view_order :: "EvidenceView \<Rightarrow> string \<times> evidence_kind \<times> string" where
  "view_order e = (ev_criterionId e, ev_kind e, ev_sourceId e)"

definition toOutcomeDetail ::
  "(string \<Rightarrow> string) \<Rightarrow> OutcomeRecord \<Rightarrow> int \<Rightarrow> AuthorizedOutcomeSource list \<Rightarrow> WorkProjection list
    \<Rightarrow> EvidenceRef list \<Rightarrow> WorkboardRef list \<Rightarrow> OutcomeDetail" where
  "toOutcomeDetail H r observedAt sources projections observedEvidence visibleHistoricalRefs =
     (let observed = withObservedEvidence r observedEvidence;
          summary = toOutcomeSummary H r observedAt projections observedEvidence;
          sourcesByRef = sources_by_ref sources;
          visible = jm_keys sourcesByRef @ map workRefIdentity visibleHistoricalRefs;
          projectionsByRef = projections_by_ref projections;
          closureHash = deriveOutcomeClosure H observed projections observedAt
      in \<lparr>dt_summary = summary, dt_objective = rc_objective r,
          dt_contractRevision = rc_contractRevision r, dt_planGeneration = rc_planGeneration r,
          dt_planHash = rc_planHash r, dt_createdAt = rc_createdAt r,
          dt_criteria = map (criterion_view H r sourcesByRef projectionsByRef observedAt) (rc_criteria r),
          dt_work = sort_key (\<lambda>w. workRefIdentity (wk_ref w))
            (map (work_view projectionsByRef observedAt) sources),
          dt_evidence = sort_key view_order
            (filter (\<lambda>e. ev_planGeneration e = rc_planGeneration r) (concat (map as_evidence sources))),
          dt_decisions = map (decision_view visible)
            (sort_key (\<lambda>d. - de_decidedRevision d) (rc_decisions r)),
          dt_acceptances = map (acceptance_view visible)
            (sort_key (\<lambda>a. - ac_acceptedRevision a) (rc_acceptances r)),
          dt_sourceIssues = source_issues r projections,
          dt_lastSuccessfulAt = (if sm_acceptanceValidity summary = CurrentAcceptance
            then currentSourceLastSuccessfulAt observed projections else None),
          dt_reviewReason = (if sm_acceptanceValidity summary = NeedsReview
            then Some (if sm_readiness summary = ReadyStale then ReasonStale else ReasonNotRechecked)
            else None),
          dt_observedAt = observedAt, dt_recheckAfter = recheck_after projections,
          dt_closureHash = closureHash,
          dt_guidance = deriveOutcomeAttention H observed projections observedAt closureHash\<rparr>)"

section \<open>What the guidance offers\<close>

lemma addAction_actions [simp]:
  "x \<in> set (gd_nextActions (addAction a g)) \<longleftrightarrow> x = a \<or> x \<in> set (gd_nextActions g)"
  by (auto simp: addAction_def)

lemma addAttention_actions [simp]: "gd_nextActions (addAttention c i g) = gd_nextActions g"
  by (simp add: addAttention_def)

lemma when_do_actions:
  "x \<in> set (gd_nextActions (when_do b f g)) \<longleftrightarrow>
     (if b then x \<in> set (gd_nextActions (f g)) else x \<in> set (gd_nextActions g))"
  by (simp add: when_do_def)

lemma ref_guidance_actions:
  "x \<noteq> DoRefresh \<Longrightarrow> x \<in> set (gd_nextActions (fst (ref_guidance ps t c ref st))) \<longleftrightarrow>
     x \<in> set (gd_nextActions (fst st))"
  by (auto simp: ref_guidance_def Let_def split: option.splits)

lemma fold_ref_guidance_actions:
  "x \<noteq> DoRefresh \<Longrightarrow> x \<in> set (gd_nextActions (fst (fold (ref_guidance ps t c) refs st))) \<longleftrightarrow>
     x \<in> set (gd_nextActions (fst st))"
  by (induction refs arbitrary: st) (simp_all add: ref_guidance_actions)

lemma criterion_guidance_actions:
  assumes "x \<noteq> DoRefresh" "x \<noteq> DoReviewEvidence"
  shows "x \<in> set (gd_nextActions (criterion_guidance H r ps t c g)) \<longleftrightarrow> x \<in> set (gd_nextActions g)"
proof -
  let ?g1 = "if rc_phase r = Draft \<or> (cr_required c \<and> length (cr_workRefs c) = 0)
    then addAttention ContractIncomplete (Some (cr_id c)) g else g"
  obtain g2 b where g2: "fold (ref_guidance (projections_by_ref ps) t c) (cr_workRefs c)
      (?g1, 0 < length (cr_workRefs c)) = (g2, b)"
    by fastforce
  have "x \<in> set (gd_nextActions g2) \<longleftrightarrow> x \<in> set (gd_nextActions g)"
    using fold_ref_guidance_actions [OF assms(1), of "projections_by_ref ps" t c "cr_workRefs c"
      "(?g1, 0 < length (cr_workRefs c))"] unfolding g2 by simp
  then show ?thesis
    unfolding criterion_guidance_def Let_def g2 using assms
    by (auto split: option.splits)
qed

lemma fold_criterion_guidance_actions:
  assumes "x \<noteq> DoRefresh" "x \<noteq> DoReviewEvidence"
  shows "x \<in> set (gd_nextActions (fold (criterion_guidance H r ps t) cs g)) \<longleftrightarrow>
    x \<in> set (gd_nextActions g)"
  by (induction cs arbitrary: g) (simp_all add: criterion_guidance_actions [OF assms])

lemma uncertain_in_flight: "hasUncertainOperation r = hasInFlightOperation r"
  by (simp only: hasUncertainOperation_def in_flight_list_ex)

lemmas attention_actions = deriveOutcomeAttention_def Let_def when_do_actions
  fold_criterion_guidance_actions uncertain_in_flight

lemma accept_offered:
  "DoAccept \<in> set (gd_nextActions (deriveOutcomeAttention H r ps t closureHash)) \<longleftrightarrow>
     rc_phase r \<noteq> Cancelled \<and> closureHash \<noteq> None \<and> \<not> hasCurrentAcceptance r closureHash"
  by (simp add: attention_actions)

lemma cancel_offered:
  "DoCancel \<in> set (gd_nextActions (deriveOutcomeAttention H r ps t closureHash)) \<longleftrightarrow>
     (rc_phase r = Draft \<or> rc_phase r = Active) \<and> \<not> hasInFlightOperation r"
  by (auto simp: attention_actions)

lemma activate_offered:
  "DoActivate \<in> set (gd_nextActions (deriveOutcomeAttention H r ps t closureHash)) \<longleftrightarrow>
     rc_phase r = Draft \<and> (\<forall>c \<in> set (rc_criteria r). cr_required c \<longrightarrow> cr_workRefs c \<noteq> [])"
  by (auto simp: attention_actions list_all_iff)

lemma edit_offered:
  "DoEditContract \<in> set (gd_nextActions (deriveOutcomeAttention H r ps t closureHash)) \<longleftrightarrow>
     rc_phase r \<noteq> Cancelled \<and> \<not> hasInFlightOperation r"
  by (cases "rc_phase r") (auto simp: attention_actions)

text \<open>The action \<open>accept\<close> is offered exactly when an acceptance of the shown plan and
  closure, under a fresh id and at the current revision, would be recorded, as long as the
  acceptance history has room.\<close>

theorem accept_offered_iff_recorded:
  assumes room: "length (rc_acceptances r) < 20"
    and shown: "closureHash = deriveOutcomeClosure H r (rc_projections r) t"
    and request: "am_serverTime m = Finite t" "am_projections m = None" "am_evidence m = None"
      "am_expectedRevision m = rc_revision r" "am_id m \<notin> ac_id ` set (rc_acceptances r)"
      "Some (am_planHash m) = rc_planHash r \<or> rc_planHash r = None"
      "Some (am_closureHash m) = closureHash \<or> closureHash = None"
  shows "DoAccept \<in> set (gd_nextActions
      (deriveOutcomeAttention H r (rc_projections r) t closureHash)) \<longleftrightarrow>
    (\<exists>r'. reduceOutcomeAcceptance H r m = Inr (AUpdated r' False))"
proof -
  have fresh: "find (\<lambda>a. ac_id a = am_id m) (rc_acceptances r) = None"
    using request(5) unfolding find_None_iff by force
  have red: "reduceOutcomeAcceptance H r m = Inr (accept_observed H r r m t)"
    using request(1-4) fresh by (simp add: reduceOutcomeAcceptance_def observe_def)
  show ?thesis
  proof (cases closureHash)
    case None
    then show ?thesis
      unfolding accept_offered red
      using shown by (auto simp: accept_observed_def split: option.splits)
  next
    case (Some h)
    have cc: "closed_contract H r (rc_projections r) t"
      using shown Some by (simp add: deriveOutcomeClosure_eq split: if_splits)
    then obtain ph where ph: "rc_planHash r = Some ph" "rc_phase r \<in> {Active, Accepted}"
      by (auto simp: closed_contract_def all_clear_def)
    then have m: "am_planHash m = ph" "am_closureHash m = h" "rc_phase r \<noteq> Cancelled"
      using request(6,7) Some by auto
    have der: "deriveOutcomeClosure H r (rc_projections r) t = Some h"
      using shown Some by simp
    have "(\<exists>r'. reduceOutcomeAcceptance H r m = Inr (AUpdated r' False)) \<longleftrightarrow>
        \<not> hasCurrentAcceptance r closureHash"
      unfolding red accept_observed_def hasCurrentAcceptance_def Some der option.case ph(1)
      using ph m room by (auto simp: Let_def)
    then show ?thesis
      unfolding accept_offered using Some m(3) by simp
  qed
qed

lemma edit_taken:
  assumes valid: "valid_record H r" and small: "rc_revision r < MAX_SAFE_INTEGER"
      "rc_planGeneration r < MAX_SAFE_INTEGER"
    and open_phase: "rc_phase r \<noteq> Cancelled" "\<not> hasInFlightOperation r"
    and obj: "codePointText 4000 obj" "obj \<noteq> rc_objective r"
  shows "\<exists>r'. reduceOutcomeContract H r \<lparr>cm_expectedRevision = rc_revision r, cm_objective = obj,
    cm_criteria = rc_criteria r, cm_serverTime = Finite n\<rparr> = Inr (Updated r')"
proof -
  let ?g = "if rc_phase r = Draft then 0 else rc_planGeneration r + 1"
  have hdr: "valid_header r" "valid_criteria (rc_criteria r)" "valid_phase H r"
    using valid by (simp_all add: valid_record_def)
  have "\<exists>h. next_plan_hash H (rc_id r) obj (rc_contractRevision r + 1) ?g
      (canonical_criteria (rc_criteria r)) = Inr h"
  proof (cases "rc_phase r = Draft")
    case True
    then show ?thesis by (simp add: next_plan_hash_def)
  next
    case False
    have "1 \<le> rc_planGeneration r"
      using valid_phase_planned [OF hdr(3)] False open_phase(1) by (cases "rc_phase r") auto
    with False hdr(1,2) small obj(1) show ?thesis
      by (auto simp: next_plan_hash_def planHash_def valid_plan_def positive_int_def valid_header_def)
  qed
  with open_phase obj(2) show ?thesis
    by (auto simp: reduceOutcomeContract_def canonicalCriteria_eq Let_def)
qed

lemma activate_taken:
  assumes valid: "valid_record H r" and draft: "rc_phase r = Draft" "\<not> hasInFlightOperation r"
    "\<forall>c \<in> set (rc_criteria r). cr_required c \<longrightarrow> cr_workRefs c \<noteq> []"
  shows "\<exists>r'. reduceOutcomeActivate H r (rc_revision r) (Finite n) = Inr (Updated r')"
proof -
  have "valid_plan ((record_plan r)\<lparr>pl_planGeneration := 1\<rparr>)"
    using valid by (simp add: valid_record_def valid_header_def valid_plan_def record_plan_def
        positive_int_def MAX_SAFE_INTEGER_def)
  with draft show ?thesis
    by (auto simp: reduceOutcomeActivate_def planHash_def record_plan_def list_ex_iff)
qed

text \<open>C40: The action \<open>cancel\<close> is offered exactly when a cancellation at the current
  revision succeeds; \<open>edit-contract\<close> is offered exactly when a change of the objective would
  be taken; and an offered \<open>activate\<close> succeeds unless an operation is in flight.\<close>

theorem offered_actions_succeed:
  assumes valid: "valid_record H r"
    and small: "rc_revision r < MAX_SAFE_INTEGER" "rc_planGeneration r < MAX_SAFE_INTEGER"
    and obj: "codePointText 4000 obj" "obj \<noteq> rc_objective r"
    and actions: "actions = set (gd_nextActions (deriveOutcomeAttention H r ps t closureHash))"
  shows "(DoCancel \<in> actions \<longleftrightarrow>
      (\<exists>r'. reduceOutcomeCancel r (rc_revision r) (Finite n) = Inr (Updated r'))) \<and>
    (DoEditContract \<in> actions \<longleftrightarrow> (\<exists>r'. reduceOutcomeContract H r
       \<lparr>cm_expectedRevision = rc_revision r, cm_objective = obj, cm_criteria = rc_criteria r,
        cm_serverTime = Finite n\<rparr> = Inr (Updated r'))) \<and>
    (DoActivate \<in> actions \<and> \<not> hasInFlightOperation r \<longrightarrow>
      (\<exists>r'. reduceOutcomeActivate H r (rc_revision r) (Finite n) = Inr (Updated r')))"
proof (intro conjI impI)
  show "DoCancel \<in> actions \<longleftrightarrow>
      (\<exists>r'. reduceOutcomeCancel r (rc_revision r) (Finite n) = Inr (Updated r'))"
    unfolding actions cancel_offered
    by (cases "rc_phase r") (auto simp: reduceOutcomeCancel_def)
  show "DoEditContract \<in> actions \<longleftrightarrow> (\<exists>r'. reduceOutcomeContract H r
       \<lparr>cm_expectedRevision = rc_revision r, cm_objective = obj, cm_criteria = rc_criteria r,
        cm_serverTime = Finite n\<rparr> = Inr (Updated r'))"
    unfolding actions edit_offered
    using edit_taken [OF valid small _ _ obj] reduceOutcomeContract_Updated by metis
  assume "DoActivate \<in> actions \<and> \<not> hasInFlightOperation r"
  then show "\<exists>r'. reduceOutcomeActivate H r (rc_revision r) (Finite n) = Inr (Updated r')"
    unfolding actions activate_offered using activate_taken [OF valid] by blast
qed

section \<open>What the summary says\<close>

lemma withObservedEvidence_same: "withObservedEvidence r (rc_evidence r) = r"
  by (simp add: withObservedEvidence_def)

lemma rejected_closed:
  "closed_contract H r ps t \<Longrightarrow> \<not> hasCurrentRejectedDecision H r ps t"
  by (auto simp: closed_contract_def hasCurrentRejectedDecision_def list_ex_iff split: option.splits)

text \<open>The readiness of a summary is \<open>ready\<close> exactly when the observed record has a
  closure, and an acceptance is shown as current only then.\<close>

theorem ready_iff_closed:
  assumes "list_all (valid_projection H) ps"
  shows "(sm_readiness (toOutcomeSummary H r t ps es) = Ready \<longleftrightarrow>
      deriveOutcomeClosure H (withObservedEvidence r es) ps t \<noteq> None) \<and>
    (sm_acceptanceValidity (toOutcomeSummary H r t ps es) = CurrentAcceptance \<longrightarrow>
      sm_readiness (toOutcomeSummary H r t ps es) = Ready)"
proof -
  let ?o = "withObservedEvidence r es"
  have "\<not> list_ex unavailable_source ps \<and> \<not> list_ex (\<lambda>p. isStaleOutcomeProjection p t) ps \<and>
      \<not> list_ex (\<lambda>p. pj_status p = Some ''blocked'') ps \<and> \<not> hasUncertainOperation ?o \<and>
      \<not> hasCurrentRejectedDecision H ?o ps t \<and> rc_phase ?o \<noteq> Cancelled"
    if "deriveOutcomeClosure H ?o ps t \<noteq> None"
  proof -
    have cc: "closed_contract H ?o ps t"
      using that by (simp add: deriveOutcomeClosure_eq split: if_splits)
    then have clear: "all_clear ?o ps t" by (simp add: closed_contract_def)
    moreover have "pj_errorCode p = None" if "p \<in> set ps" "pj_availability p = Available" for p
      using assms that by (auto simp: list_all_iff valid_projection_def)
    ultimately show ?thesis
      using rejected_closed [OF cc]
      by (auto simp: all_clear_def list_ex_iff unavailable_source_def uncertain_in_flight)
  qed
  then show ?thesis
    by (auto simp: toOutcomeSummary_def Let_def split: option.splits)
qed

lemma latest_acceptance_appended:
  assumes "\<forall>b \<in> set as. ac_acceptedRevision b < ac_acceptedRevision a"
    "rc_acceptances r = as @ [a]"
  shows "latest_acceptance r = Some a"
proof (cases "sort_key (\<lambda>a. - ac_acceptedRevision a) (rc_acceptances r)")
  case Nil
  then have "rc_acceptances r = []"
    by (metis set_empty set_sort)
  with assms(2) show ?thesis by simp
next
  case (Cons b bs)
  note hd = sort_key_hd [OF Cons]
  have "b = a"
    using hd(1) hd(2) [of a] assms by auto
  with Cons show ?thesis by (simp add: latest_acceptance_def)
qed

text \<open>Right after an acceptance was recorded on a stored record, the summary shows the
  Outcome as accepted, ready and currently accepted; after any later change of the contract, the
  acceptance needs review, whatever is observed.\<close>

theorem acceptance_shows_until_edit:
  assumes valid: "valid_record H cur"
    and acc: "reduceOutcomeAcceptance H cur m = Inr (AUpdated r' False)" "am_serverTime m = Finite t"
    and ps: "list_all (valid_projection H) (rc_projections r')"
    and edit: "reduceOutcomeContract H r' cm = Inr (Updated r'')"
  shows "sm_phase (toOutcomeSummary H r' t (rc_projections r') (rc_evidence r')) = Accepted \<and>
    sm_readiness (toOutcomeSummary H r' t (rc_projections r') (rc_evidence r')) = Ready \<and>
    sm_acceptanceValidity (toOutcomeSummary H r' t (rc_projections r') (rc_evidence r')) =
      CurrentAcceptance \<and>
    sm_acceptanceValidity (toOutcomeSummary H r'' t' ps' es') = NeedsReview"
proof -
  obtain a where a: "rc_acceptances r' = rc_acceptances cur @ [a]" "rc_phase r' = Accepted"
    "deriveOutcomeClosure H r' (rc_projections r') t = Some (ac_closureHash a)"
    "ac_acceptedPlan a = record_plan r'" "rc_planHash r' = Some (ac_planHash a)"
    "ac_planGeneration a = rc_planGeneration r'" "ac_acceptedRevision a = rc_revision cur + 1"
    "rc_revision r' = rc_revision cur + 1"
    by (rule acceptance_appended [OF acc])
  have older: "\<forall>b \<in> set (rc_acceptances cur). ac_acceptedRevision b < ac_acceptedRevision a"
    using valid a(7) by (fastforce simp: valid_record_def valid_history_def list_all_iff)
  have latest: "latest_acceptance r' = Some a"
    by (rule latest_acceptance_appended [OF older a(1)])
  have ready: "sm_readiness (toOutcomeSummary H r' t (rc_projections r') (rc_evidence r')) = Ready"
    using ready_iff_closed [OF ps, of r' t "rc_evidence r'"] a(3)
    by (simp add: withObservedEvidence_same)
  have gen: "rc_acceptances r'' = rc_acceptances r'" "rc_planGeneration r'' = rc_planGeneration r' + 1"
    using edit by (cases rule: reduceOutcomeContract_Updated; simp add: a(2))+
  then have "latest_acceptance (withObservedEvidence r'' es') = Some a"
    using latest by (simp add: latest_acceptance_def withObservedEvidence_def)
  with gen ready latest a(2-6) show ?thesis
    by (simp add: toOutcomeSummary_def withObservedEvidence_same Let_def withObservedEvidence_def)
qed

end
