(* ===== verification/Outcome_Presentation.thy ===== *)
theory Outcome_Presentation
  imports Outcome_ReadModel
begin

text \<open>
  The evidence hash an operator is shown and the one a decision must name. The detail view computes
  it from the authorized sources of one observation (\<open>src/domain/read-model.ts\<close>), the decision
  reducer from the record that has taken the same observation (\<open>src/assurance/closure.ts\<close>);
  this theory shows that they agree.
\<close>

section \<open>Sets of digests\<close>

lemma evidenceSetHash_set:
  assumes "set xs = set ys"
  shows "evidenceSetHash H i g xs = evidenceSetHash H i g ys"
proof -
  have "sort (remdups xs) = sort (remdups ys)"
    using assms by (metis sorted_list_of_set_sort_remdups)
  then show ?thesis by (simp add: evidenceSetHash_def)
qed

lemma hex64_no_NUL: "hex64 s \<Longrightarrow> NUL \<notin> set s"
  by (auto simp: hex64_def NUL_def list_all_iff less_eq_char_def)

lemma jm_of_values_set:
  assumes "inj_on f (set xs)"
  shows "set (jm_values (jm_of (map (\<lambda>x. (f x, x)) xs))) = set xs"
proof
  show "set (jm_values (jm_of (map (\<lambda>x. (f x, x)) xs))) \<subseteq> set xs"
    using jm_of_subset [of "map (\<lambda>x. (f x, x)) xs"] by (fastforce simp: jm_values_def)
  show "set xs \<subseteq> set (jm_values (jm_of (map (\<lambda>x. (f x, x)) xs)))"
  proof
    fix x assume x: "x \<in> set xs"
    then have "f x \<in> fst ` set (jm_of (map (\<lambda>x. (f x, x)) xs))"
      by (simp add: jm_of_keys image_image)
    then obtain y where y: "(f x, y) \<in> set (jm_of (map (\<lambda>x. (f x, x)) xs))" by auto
    then have "y \<in> set xs" "f x = f y"
      using jm_of_subset [of "map (\<lambda>x. (f x, x)) xs"] by auto
    with assms x have "y = x" by (auto dest: inj_onD)
    with y show "x \<in> set (jm_values (jm_of (map (\<lambda>x. (f x, x)) xs)))"
      by (force simp: jm_values_def)
  qed
qed

lemma uniqueSourcePairs_set:
  assumes "\<forall>p \<in> set ps. NUL \<notin> set (sp_digest p)"
  shows "set (uniqueSourcePairs ps) = set ps"
proof -
  have "inj_on (\<lambda>p. sp_sourceId p @ NUL # sp_digest p) (set ps)"
  proof (rule inj_onI)
    fix p q assume "p \<in> set ps" "q \<in> set ps"
      "sp_sourceId p @ NUL # sp_digest p = sp_sourceId q @ NUL # sp_digest q"
    with assms append_Cons_last_sep [of NUL "sp_digest p" "sp_digest q"]
    have "sp_sourceId p = sp_sourceId q \<and> sp_digest p = sp_digest q" by blast
    then show "p = q" by (cases p; cases q) simp
  qed
  from jm_of_values_set [OF this] show ?thesis
    by (simp add: uniqueSourcePairs_def sort_pairs_def)
qed

lemma source_key_digest:
  assumes "source_key i k s d = source_key i' k' s' d'" "NUL \<notin> set d" "NUL \<notin> set d'"
  shows "d = d'"
proof -
  have "(i @ NUL # evidence_kind_str k @ NUL # s) @ NUL # d =
      (i' @ NUL # evidence_kind_str k' @ NUL # s') @ NUL # d'"
    using assms(1) by (simp add: source_key_def)
  with assms(2,3) append_Cons_last_sep [of NUL d d'] show ?thesis by blast
qed

section \<open>The evidence of one observation\<close>

lemma link_digests_same_card:
  assumes "workRefIdentity (snd l) = workRefIdentity (snd l')"
  shows "ev_sourceDigest ` set (link_evidence H cards g t l) =
    ev_sourceDigest ` set (link_evidence H cards g t l')"
proof -
  have card: "the_card cards (snd l) = the_card cards (snd l')"
    using the_card_identity [OF assms] by blast
  have "ev_sourceDigest ` set (card_evidence H \<lparr>in_criterionId = i, in_planGeneration = g,
      in_observedAt = o1, in_workRef = w, in_card = c\<rparr> t) =
    ev_sourceDigest ` set (card_evidence H \<lparr>in_criterionId = i', in_planGeneration = g,
      in_observedAt = o1, in_workRef = w', in_card = c\<rparr> t)" for i i' o1 w w' c
    by (simp add: card_evidence_def evidenceRef_def Let_def image_Un image_image)
  with card show ?thesis
    by (cases "the_card cards (snd l')") (simp_all add: link_evidence_def)
qed

text \<open>The digests a criterion has through one observation.\<close>

definition observed_digests ::
  "(string \<Rightarrow> string) \<Rightarrow> OutcomeRecord \<Rightarrow> WorkboardCard list \<Rightarrow> int \<Rightarrow> Criterion \<Rightarrow> string set" where
  "observed_digests H r cards t c =
     (\<Union>ref \<in> set (cr_workRefs c). ev_sourceDigest `
        set (link_evidence H cards (rc_planGeneration r) t (c, ref)))"

lemma criterion_of_evidence:
  assumes "valid_criteria (rc_criteria r)" "c \<in> set (rc_criteria r)"
    "e \<in> set (candidate_evidence H r cards t)"
  shows "ev_criterionId e = cr_id c \<longleftrightarrow> (\<exists>ref \<in> set (cr_workRefs c).
    e \<in> set (link_evidence H cards (rc_planGeneration r) t (c, ref)))"
proof
  assume id: "ev_criterionId e = cr_id c"
  obtain c' ref where e: "c' \<in> set (rc_criteria r)" "ref \<in> set (cr_workRefs c')"
    "e \<in> set (link_evidence H cards (rc_planGeneration r) t (c', ref))"
    using assms(3) by (rule candidate_evidence_member)
  have "cr_id c' = cr_id c"
    using link_evidence_facts(2) [OF e(3)] id by simp
  with assms(1,2) e(1) have "c' = c"
    by (auto simp: valid_criteria_iff distinct_map dest: inj_onD)
  with e show "\<exists>ref \<in> set (cr_workRefs c).
      e \<in> set (link_evidence H cards (rc_planGeneration r) t (c, ref))" by blast
next
  assume "\<exists>ref \<in> set (cr_workRefs c). e \<in> set (link_evidence H cards (rc_planGeneration r) t (c, ref))"
  then show "ev_criterionId e = cr_id c"
    using link_evidence_facts(2) by fastforce
qed

lemma candidate_digest_hex:
  assumes "hex_hash H" "e \<in> set (candidate_evidence H r cards t)"
  shows "NUL \<notin> set (ev_sourceDigest e)"
proof -
  obtain c ref where "e \<in> set (link_evidence H cards (rc_planGeneration r) t (c, ref))"
    using assms(2) by (rule candidate_evidence_member)
  from link_evidence_facts(5) [OF this] assms(1) show ?thesis
    by (metis hex64_no_NUL hex_hash_def)
qed

lemma available_pairs:
  assumes "hex_hash H"
  shows "set (kind_pairs k (filter P (candidate_evidence H r cards t))) =
    (\<lambda>e. \<lparr>sp_sourceId = ev_sourceId e, sp_digest = ev_sourceDigest e\<rparr>) `
      {e \<in> set (candidate_evidence H r cards t). P e \<and> ev_kind e = k}"
proof -
  have "\<forall>p \<in> set (map (\<lambda>e. \<lparr>sp_sourceId = ev_sourceId e, sp_digest = ev_sourceDigest e\<rparr>)
      (filter (\<lambda>e. ev_kind e = k) (filter P (candidate_evidence H r cards t)))). NUL \<notin> set (sp_digest p)"
    using candidate_digest_hex [OF assms] by auto
  from uniqueSourcePairs_set [OF this] show ?thesis
    by (auto simp: kind_pairs_def)
qed

lemma kind_cases: "k = WorkboardProof \<or> k = WorkboardArtifact"
  by (cases k) simp_all

lemma projection_sources_available:
  assumes "hex_hash H" "the_card cards ref = Some wcard"
  shows "set (projection_sources (candidate_projection H (candidate_evidence H r cards t) cards t ref)) =
    {source_key (workRefIdentity ref) (ev_kind e) (ev_sourceId e) (ev_sourceDigest e) | e.
       e \<in> set (candidate_evidence H r cards t) \<and> workRefIdentity (ev_workRef e) = workRefIdentity ref}"
    (is "?L = ?R")
proof -
  let ?es = "candidate_evidence H r cards t"
  let ?P = "\<lambda>e. workRefIdentity (ev_workRef e) = workRefIdentity ref"
  have "?L = (\<lambda>s. source_key (workRefIdentity ref) WorkboardProof (sp_sourceId s) (sp_digest s)) `
      set (kind_pairs WorkboardProof (filter ?P ?es)) \<union>
    (\<lambda>s. source_key (workRefIdentity ref) WorkboardArtifact (sp_sourceId s) (sp_digest s)) `
      set (kind_pairs WorkboardArtifact (filter ?P ?es))"
    using assms(2)
    by (simp add: projection_sources_def candidate_projection_def available_projection_def Let_def)
  also have "\<dots> = ?R"
    unfolding available_pairs [OF assms(1)] image_image
    using kind_cases by (auto simp: image_iff) metis+
  finally show ?thesis .
qed

section \<open>The shown side\<close>

lemma concat_options_distinct:
  assumes "distinct (map k xs)" "\<And>x s. g x = Some s \<Longrightarrow> h s = k x"
  shows "distinct (map h (concat (map (\<lambda>x. case g x of None \<Rightarrow> [] | Some s \<Rightarrow> [s]) xs)))"
    "set (map h (concat (map (\<lambda>x. case g x of None \<Rightarrow> [] | Some s \<Rightarrow> [s]) xs))) \<subseteq> set (map k xs)"
proof -
  have sub: "set (map h (concat (map (\<lambda>x. case g x of None \<Rightarrow> [] | Some s \<Rightarrow> [s]) xs))) \<subseteq> set (map k xs)" for xs
  proof (induction xs)
    case (Cons x xs)
    then show ?case using assms(2) [of x] by (cases "g x") auto
  qed simp
  then show "set (map h (concat (map (\<lambda>x. case g x of None \<Rightarrow> [] | Some s \<Rightarrow> [s]) xs))) \<subseteq> set (map k xs)" .
  show "distinct (map h (concat (map (\<lambda>x. case g x of None \<Rightarrow> [] | Some s \<Rightarrow> [s]) xs)))"
    using assms(1)
  proof (induction xs)
    case (Cons x xs)
    then show ?case using assms(2) [of x] sub [of xs] by (cases "g x") auto
  qed simp
qed

lemma concat_options_get:
  assumes d: "distinct (map k xs)" and k: "\<And>x s. g x = Some s \<Longrightarrow> h s = k x" and x: "x \<in> set xs"
  shows "jm_get (jm_of (map (\<lambda>s. (h s, s))
      (concat (map (\<lambda>x. case g x of None \<Rightarrow> [] | Some s \<Rightarrow> [s]) xs)))) (k x) = g x"
proof -
  define ss where "ss = concat (map (\<lambda>x. case g x of None \<Rightarrow> [] | Some s \<Rightarrow> [s]) xs)"
  have dist: "distinct (map fst (map (\<lambda>s. (h s, s)) ss))"
    using concat_options_distinct(1) [of k xs g h, OF d k] by (simp add: ss_def comp_def)
  have mem: "s \<in> set ss \<longleftrightarrow> (\<exists>y \<in> set xs. g y = Some s)" for s
    unfolding ss_def by (auto split: option.splits) (metis option.inject)+
  have inj: "y = x" if "y \<in> set xs" "k y = k x" for y
    using d x that by (auto simp: distinct_map dest: inj_onD)
  have "jm_get (jm_of (map (\<lambda>s. (h s, s)) ss)) (k x) = g x"
  proof (cases "g x")
    case None
    have "k x \<notin> fst ` set (map (\<lambda>s. (h s, s)) ss)"
    proof
      assume "k x \<in> fst ` set (map (\<lambda>s. (h s, s)) ss)"
      then obtain s where s: "s \<in> set ss" "h s = k x" by auto
      then obtain y where "y \<in> set xs" "g y = Some s" using mem by blast
      with k [of y s] s(2) inj None show False by auto
    qed
    then show ?thesis
      unfolding jm_get_of_distinct [OF dist] None map_of_eq_None_iff .
  next
    case (Some s)
    then have "(k x, s) \<in> set (map (\<lambda>s. (h s, s)) ss)"
      using mem [of s] k [OF Some] x by force
    then show ?thesis
      unfolding jm_get_of_distinct [OF dist] Some map_of_eq_Some_iff [OF dist] .
  qed
  then show ?thesis by (simp add: ss_def)
qed

definition shown_source ::
  "(string \<Rightarrow> (string \<times> string) option) \<Rightarrow> EvidenceRef list \<Rightarrow> WorkboardRef \<Rightarrow> WorkboardCard
    \<Rightarrow> AuthorizedOutcomeSource" where
  "shown_source U es ref wcard = \<lparr>as_ref = ref, as_currentBoardId = wc_boardId wcard,
     as_status = wc_status wcard, as_sourceUpdatedAt = wc_updatedAt wcard,
     as_upstreamStale = wc_upstreamStale wcard,
     as_evidence = List.map_filter (\<lambda>e. if workRefIdentity (ev_workRef e) \<noteq> workRefIdentity ref
       then None else evidence_view U wcard e) es\<rparr>"

lemma authorized_source_eq:
  assumes "ref \<in> set refs"
  shows "authorized_source U es (match_refs cards refs) (candidate_projection H es cards t ref) =
    (case map_option (shown_source U es ref) (the_card cards ref) of None \<Rightarrow> [] | Some s \<Rightarrow> [s])"
proof (cases "the_card cards ref")
  case None
  then show ?thesis
    by (simp add: authorized_source_def candidate_projection_def unavailable_projection_def)
next
  case (Some wcard)
  have "workRefIdentity ref \<in> workRefIdentity ` set refs" using assms by simp
  note m = match_refs_in(1) [OF this, of cards]
  have av: "pj_availability (candidate_projection H es cards t ref) = Available"
    using Some by (simp add: candidate_projection_def available_projection_def Let_def)
  show ?thesis
    using Some m av by (simp add: authorized_source_def shown_source_def)
qed

lemma sources_get:
  assumes "workRefIdentity ref \<in> workRefIdentity ` set (record_refs r)"
  shows "\<exists>ref'. workRefIdentity ref' = workRefIdentity ref \<and>
    jm_get (sources_by_ref (concat (map (authorized_source U es (match_refs cards (record_refs r)))
        (map (candidate_projection H es cards t) (record_refs r))))) (workRefIdentity ref) =
      map_option (shown_source U es ref') (the_card cards ref)"
proof -
  obtain ref' where ref': "ref' \<in> set (record_refs r)" "workRefIdentity ref' = workRefIdentity ref"
    using assms by auto
  let ?g = "\<lambda>x. map_option (shown_source U es x) (the_card cards x)"
  have eq: "concat (map (authorized_source U es (match_refs cards (record_refs r)))
      (map (candidate_projection H es cards t) (record_refs r))) =
    concat (map (\<lambda>x. case ?g x of None \<Rightarrow> [] | Some s \<Rightarrow> [s]) (record_refs r))"
    by (intro arg_cong [where f = concat]) (simp add: authorized_source_eq)
  have "jm_get (sources_by_ref (concat (map (\<lambda>x. case ?g x of None \<Rightarrow> [] | Some s \<Rightarrow> [s]) (record_refs r))))
      (workRefIdentity ref') = ?g ref'"
    unfolding sources_by_ref_def
    by (rule concat_options_get [where k = workRefIdentity, OF record_refs_facts(1) _ ref'(1)])
       (auto simp: shown_source_def)
  with ref'(2) the_card_identity [OF ref'(2), of cards] show ?thesis
    unfolding eq by (intro exI [of _ ref']) simp
qed

lemma evidence_view_fields:
  "evidence_view U wcard e = Some v \<Longrightarrow> ev_sourceDigest v = ev_sourceDigest e \<and>
     ev_criterionId v = ev_criterionId e \<and> ev_planGeneration v = ev_planGeneration e"
  by (auto simp: evidence_view_def EvidenceRef.defs split: if_splits option.splits)

lemma evidence_view_exists:
  assumes "e \<in> set (candidate_evidence H r cards t)"
    "workRefIdentity (ev_workRef e) = workRefIdentity ref" "the_card cards ref = Some wcard"
  shows "evidence_view U wcard e \<noteq> None"
proof -
  obtain c ref' where e: "e \<in> set (link_evidence H cards (rc_planGeneration r) t (c, ref'))"
    using assms(1) by (rule candidate_evidence_member)
  have "the_card cards ref' = Some wcard"
    using link_evidence_facts(4) [OF e] assms(2,3) the_card_identity [of ref' ref cards] by simp
  with e have "e \<in> set (card_evidence H \<lparr>in_criterionId = cr_id c,
      in_planGeneration = rc_planGeneration r, in_observedAt = Finite t, in_workRef = ref',
      in_card = wcard\<rparr> t)"
    by (simp add: link_evidence_def)
  then have "(ev_kind e = WorkboardProof \<and> ev_sourceId e \<in> wp_id ` set (wc_proofs wcard)) \<or>
      (ev_kind e = WorkboardArtifact \<and> ev_sourceId e \<in> wa_id ` set (wc_artifacts wcard))"
    by (auto simp: card_evidence_def evidenceRef_def Let_def)
  then show ?thesis
    by (auto simp: evidence_view_def find_None_iff split: option.splits)
qed

lemma shown_digests:
  assumes "the_card cards ref = Some wcard" "workRefIdentity ref' = workRefIdentity ref"
  shows "set (map ev_sourceDigest (filter (\<lambda>e. ev_criterionId e = i \<and> ev_planGeneration e = rc_planGeneration r)
      (as_evidence (shown_source U (candidate_evidence H r cards t) ref' wcard)))) =
    ev_sourceDigest ` {e \<in> set (candidate_evidence H r cards t). ev_criterionId e = i \<and>
      workRefIdentity (ev_workRef e) = workRefIdentity ref}"
    (is "?L = ?R")
proof
  have gen: "ev_planGeneration e = rc_planGeneration r" if "e \<in> set (candidate_evidence H r cards t)" for e
    using that by (auto elim!: candidate_evidence_member dest: link_evidence_facts(3))
  show "?L \<subseteq> ?R"
    using assms(2) evidence_view_fields
    by (fastforce simp: shown_source_def List.map_filter_def split: if_splits)
  show "?R \<subseteq> ?L"
  proof
    fix d assume "d \<in> ?R"
    then obtain e where e: "e \<in> set (candidate_evidence H r cards t)" "ev_criterionId e = i"
      "workRefIdentity (ev_workRef e) = workRefIdentity ref" "d = ev_sourceDigest e" by auto
    obtain v where v: "evidence_view U wcard e = Some v"
      using evidence_view_exists [OF e(1,3) assms(1)] by auto
    then have "v \<in> set (as_evidence (shown_source U (candidate_evidence H r cards t) ref' wcard))"
      using e(1,3) assms(2) by (force simp: shown_source_def List.map_filter_def)
    then show "d \<in> ?L"
      using evidence_view_fields [OF v] e gen [OF e(1)] by force
  qed
qed

section \<open>The required side\<close>

definition fresh_ref :: "WorkboardCard list \<Rightarrow> WorkboardRef \<Rightarrow> bool" where
  "fresh_ref cards ref \<longleftrightarrow> (\<exists>c. the_card cards ref = Some c \<and> \<not> wc_upstreamStale c)"

lemma candidate_projection_fresh:
  "pj_availability (candidate_projection H es cards t ref) = Available \<and>
     \<not> isStaleOutcomeProjection (candidate_projection H es cards t ref) t \<longleftrightarrow> fresh_ref cards ref"
  by (auto simp: candidate_projection_def unavailable_projection_def available_projection_def Let_def
      isStaleOutcomeProjection_def fresh_ref_def OUTCOME_PROJECTION_MAX_AGE_MS_def split: option.splits)

lemma fresh_ref_identity: "workRefIdentity a = workRefIdentity b \<Longrightarrow> fresh_ref cards a = fresh_ref cards b"
  using the_card_identity [of a b cards] by (simp add: fresh_ref_def)

lemma cached_projection_facts:
  "pj_ref (cached_projection prev p) = pj_ref p"
  "pj_availability (cached_projection prev p) = pj_availability p"
  "pj_availability p = Available \<Longrightarrow> cached_projection prev p = p"
  by (auto simp: cached_projection_def merge_projection_def split: option.splits)

lemma sourceDigests_set:
  assumes "distinct (map (\<lambda>p. workRefIdentity (pj_ref p)) ps)"
    "currentOutcomeEvidenceSourceDigests r c ps t = Some ds"
  shows "set ds = ev_sourceDigest ` {e \<in> set (rc_evidence r).
    ev_planGeneration e = rc_planGeneration r \<and> ev_criterionId e = cr_id c \<and>
    workRefIdentity (ev_workRef e) \<in> workRefIdentity ` set (cr_workRefs c) \<and>
    (\<exists>p \<in> set ps. workRefIdentity (pj_ref p) \<in> workRefIdentity ` set (cr_workRefs c) \<and>
       source_key (workRefIdentity (ev_workRef e)) (ev_kind e) (ev_sourceId e) (ev_sourceDigest e)
         \<in> set (projection_sources p))}"
proof -
  have "ds = map ev_sourceDigest (filter (\<lambda>e.
      ev_planGeneration e = rc_planGeneration r \<and> ev_criterionId e = cr_id c \<and>
      jm_get (linked_refs c) (workRefIdentity (ev_workRef e)) \<noteq> None \<and>
      source_key (workRefIdentity (ev_workRef e)) (ev_kind e) (ev_sourceId e) (ev_sourceDigest e)
        \<in> set (concat (map projection_sources (jm_values (linked_projections (linked_refs c) ps)))))
      (rc_evidence r))"
    using assms(2) unfolding currentOutcomeEvidenceSourceDigests_def Let_def
    by (simp del: not_None_eq set_concat split: if_splits)
  then show ?thesis
    unfolding linked_refs_get set_concat set_map linked_projections_values [OF assms(1)]
    by (intro equalityI subsetI; force)
qed

lemma observed_criterion:
  assumes "rc_projections r' = sort_key ord (map (cached_projection prev)
      (map (candidate_projection H es cards t) (record_refs r)))"
    "c \<in> set (rc_criteria r)"
  shows "criterion_observed c (rc_projections r') t \<longleftrightarrow>
    cr_workRefs c \<noteq> [] \<and> (\<forall>ref \<in> set (cr_workRefs c). fresh_ref cards ref)"
proof -
  have "(\<exists>p \<in> set (rc_projections r'). workRefIdentity (pj_ref p) = workRefIdentity ref \<and>
      pj_availability p = Available \<and> \<not> isStaleOutcomeProjection p t) \<longleftrightarrow> fresh_ref cards ref"
    if "ref \<in> set (cr_workRefs c)" for ref
  proof
    assume "\<exists>p \<in> set (rc_projections r'). workRefIdentity (pj_ref p) = workRefIdentity ref \<and>
      pj_availability p = Available \<and> \<not> isStaleOutcomeProjection p t"
    then obtain x where x: "x \<in> set (record_refs r)" "workRefIdentity x = workRefIdentity ref"
      "pj_availability (candidate_projection H es cards t x) = Available"
      "\<not> isStaleOutcomeProjection (candidate_projection H es cards t x) t"
      using assms(1) by (auto simp: cached_projection_facts)
    then show "fresh_ref cards ref"
      using candidate_projection_fresh [of H es cards t x] fresh_ref_identity [OF x(2)] by blast
  next
    assume fresh: "fresh_ref cards ref"
    have "workRefIdentity ref \<in> workRefIdentity ` set (record_refs r)"
      using that assms(2) unfolding record_refs_facts(2) linked_identities_set by auto
    then obtain x where x: "x \<in> set (record_refs r)" "workRefIdentity x = workRefIdentity ref" by auto
    then have f: "pj_availability (candidate_projection H es cards t x) = Available"
      "\<not> isStaleOutcomeProjection (candidate_projection H es cards t x) t"
      using candidate_projection_fresh [of H es cards t x] fresh_ref_identity [OF x(2)] fresh by blast+
    then have "candidate_projection H es cards t x \<in> set (rc_projections r')"
      using assms(1) x(1) by (auto simp: cached_projection_facts intro!: image_eqI)
    with f x(2) show "\<exists>p \<in> set (rc_projections r'). workRefIdentity (pj_ref p) = workRefIdentity ref \<and>
      pj_availability p = Available \<and> \<not> isStaleOutcomeProjection p t"
      by (intro bexI [of _ "candidate_projection H es cards t x"]) simp_all
  qed
  then show ?thesis
    unfolding criterion_observed_def by blast
qed

section \<open>Both sides agree\<close>

lemma length_filter_all: "length (filter P xs) = length xs \<longleftrightarrow> (\<forall>x \<in> set xs. P x)"
proof (induction xs)
  case (Cons x xs)
  show ?case
  proof (cases "P x")
    case False
    have "length (filter P xs) \<noteq> Suc (length xs)"
      using length_filter_le [of P xs] by linarith
    with False show ?thesis by simp
  qed (use Cons in simp)
qed simp

lemma ref_in_record:
  assumes "c \<in> set (rc_criteria r)" "ref \<in> set (cr_workRefs c)"
  obtains x where "x \<in> set (record_refs r)" "workRefIdentity x = workRefIdentity ref"
    "workRefIdentity ref \<in> workRefIdentity ` set (record_refs r)"
proof -
  have "workRefIdentity ref \<in> workRefIdentity ` set (record_refs r)"
    using assms unfolding record_refs_facts(2) linked_identities_set by auto
  with that show thesis by (metis imageE)
qed

lemma projections_get:
  assumes "x \<in> set (record_refs r)" "workRefIdentity x = workRefIdentity ref"
  shows "jm_get (projections_by_ref (map (candidate_projection H es cards t) (record_refs r)))
    (workRefIdentity ref) = Some (candidate_projection H es cards t x)"
proof -
  let ?l = "map (\<lambda>p. (workRefIdentity (pj_ref p), p)) (map (candidate_projection H es cards t) (record_refs r))"
  have d: "distinct (map fst ?l)"
    using record_refs_facts(1) [of r] by (simp add: comp_def)
  have "(workRefIdentity ref, candidate_projection H es cards t x) \<in> set ?l"
    using assms by (auto intro!: image_eqI [of _ _ x])
  then show ?thesis
    unfolding projections_by_ref_def jm_get_of_distinct [OF d] map_of_eq_Some_iff [OF d] .
qed

lemma observed_digests_eq:
  assumes "valid_criteria (rc_criteria r)" "c \<in> set (rc_criteria r)"
  shows "observed_digests H r cards t c = (\<Union>ref \<in> set (cr_workRefs c). ev_sourceDigest `
    {e \<in> set (candidate_evidence H r cards t). ev_criterionId e = cr_id c \<and>
       workRefIdentity (ev_workRef e) = workRefIdentity ref})"
proof -
  have mem: "e \<in> set (candidate_evidence H r cards t)"
    if "ref \<in> set (cr_workRefs c)" "e \<in> set (link_evidence H cards (rc_planGeneration r) t (c, ref))" for e ref
    using that assms(2) by (force simp: candidate_evidence_def criterion_links_set)
  have "(\<Union>ref \<in> set (cr_workRefs c). set (link_evidence H cards (rc_planGeneration r) t (c, ref))) =
    (\<Union>ref \<in> set (cr_workRefs c). {e \<in> set (candidate_evidence H r cards t).
       ev_criterionId e = cr_id c \<and> workRefIdentity (ev_workRef e) = workRefIdentity ref})"
  proof (intro equalityI subsetI)
    fix e assume "e \<in> (\<Union>ref \<in> set (cr_workRefs c).
      set (link_evidence H cards (rc_planGeneration r) t (c, ref)))"
    then obtain ref where ref: "ref \<in> set (cr_workRefs c)"
      "e \<in> set (link_evidence H cards (rc_planGeneration r) t (c, ref))" by blast
    with mem [OF ref] link_evidence_facts(2,4) [OF ref(2)]
    show "e \<in> (\<Union>ref \<in> set (cr_workRefs c). {e \<in> set (candidate_evidence H r cards t).
       ev_criterionId e = cr_id c \<and> workRefIdentity (ev_workRef e) = workRefIdentity ref})" by auto
  next
    fix e assume "e \<in> (\<Union>ref \<in> set (cr_workRefs c). {e \<in> set (candidate_evidence H r cards t).
       ev_criterionId e = cr_id c \<and> workRefIdentity (ev_workRef e) = workRefIdentity ref})"
    then show "e \<in> (\<Union>ref \<in> set (cr_workRefs c).
      set (link_evidence H cards (rc_planGeneration r) t (c, ref)))"
      using criterion_of_evidence [OF assms, of e H cards t] by auto
  qed
  then have "ev_sourceDigest ` (\<Union>ref \<in> set (cr_workRefs c).
      set (link_evidence H cards (rc_planGeneration r) t (c, ref))) =
    ev_sourceDigest ` (\<Union>ref \<in> set (cr_workRefs c). {e \<in> set (candidate_evidence H r cards t).
       ev_criterionId e = cr_id c \<and> workRefIdentity (ev_workRef e) = workRefIdentity ref})"
    by simp
  then show ?thesis
    unfolding observed_digests_def image_UN .
qed

lemma shown_hash:
  assumes es_def: "es = candidate_evidence H r cards t"
    and crit: "valid_criteria (rc_criteria r)" and c: "c \<in> set (rc_criteria r)"
    and phase: "rc_phase r' \<in> {Active, Accepted}"
    and gen: "rc_planGeneration r' = rc_planGeneration r"
  shows "\<exists>xs. (cr_workRefs c \<noteq> [] \<and> (\<forall>ref \<in> set (cr_workRefs c). fresh_ref cards ref) \<longrightarrow>
      set xs = observed_digests H r cards t c) \<and>
    cv_evidenceSetHash (criterion_view H r'
      (sources_by_ref (concat (map (authorized_source U es (match_refs cards (record_refs r)))
        (map (candidate_projection H es cards t) (record_refs r)))))
      (projections_by_ref (map (candidate_projection H es cards t) (record_refs r))) t c) =
    (if cr_workRefs c \<noteq> [] \<and> (\<forall>ref \<in> set (cr_workRefs c). fresh_ref cards ref)
     then Some (evidenceSetHash H (cr_id c) (rc_planGeneration r) xs) else None)"
proof -
  define src where "src = sources_by_ref (concat (map (authorized_source U es
    (match_refs cards (record_refs r))) (map (candidate_projection H es cards t) (record_refs r))))"
  define prj where "prj = projections_by_ref (map (candidate_projection H es cards t) (record_refs r))"
  define dig where "dig ref = map ev_sourceDigest (filter (\<lambda>e. ev_criterionId e = cr_id c \<and>
      ev_planGeneration e = rc_planGeneration r)
    (case jm_get src (workRefIdentity ref) of None \<Rightarrow> [] | Some s \<Rightarrow> as_evidence s))" for ref
  have srcs: "\<exists>ref'. workRefIdentity ref' = workRefIdentity ref \<and>
      jm_get src (workRefIdentity ref) = map_option (shown_source U es ref') (the_card cards ref)"
    if "ref \<in> set (cr_workRefs c)" for ref
    using sources_get [of ref r U es cards H t] ref_in_record [OF c that] unfolding src_def by metis
  have prjs: "(case jm_get prj (workRefIdentity ref) of None \<Rightarrow> False
      | Some p \<Rightarrow> pj_availability p = Available \<and> \<not> isStaleOutcomeProjection p t) \<longleftrightarrow> fresh_ref cards ref"
    if ref: "ref \<in> set (cr_workRefs c)" for ref
  proof -
    obtain x where x: "x \<in> set (record_refs r)" "workRefIdentity x = workRefIdentity ref"
      using ref_in_record [OF c ref] by metis
    show ?thesis
      unfolding prj_def projections_get [OF x] option.case
      using candidate_projection_fresh [of H es cards t x] fresh_ref_identity [OF x(2)] by simp
  qed
  have visible: "jm_get src (workRefIdentity ref) \<noteq> None \<longleftrightarrow> the_card cards ref \<noteq> None"
    if "ref \<in> set (cr_workRefs c)" for ref
    using srcs [OF that] by (metis None_eq_map_option_iff)
  have digs: "set (dig ref) = ev_sourceDigest ` {e \<in> set es. ev_criterionId e = cr_id c \<and>
      workRefIdentity (ev_workRef e) = workRefIdentity ref}"
    if ref: "ref \<in> set (cr_workRefs c)" "fresh_ref cards ref" for ref
  proof -
    obtain wcard where card: "the_card cards ref = Some wcard"
      using ref(2) by (auto simp: fresh_ref_def)
    obtain ref' where ref': "workRefIdentity ref' = workRefIdentity ref"
      "jm_get src (workRefIdentity ref) = Some (shown_source U es ref' wcard)"
      using srcs [OF ref(1)] card by auto
    show ?thesis
      unfolding dig_def ref'(2) option.case es_def by (rule shown_digests [OF card ref'(1)])
  qed
  let ?vis = "filter (\<lambda>ref. jm_get src (workRefIdentity ref) \<noteq> None) (cr_workRefs c)"
  let ?fresh = "\<forall>ref \<in> set (cr_workRefs c). fresh_ref cards ref"
  have complete: "length ?vis = length (cr_workRefs c) \<longleftrightarrow>
      (\<forall>ref \<in> set (cr_workRefs c). the_card cards ref \<noteq> None)"
    unfolding length_filter_all using visible by blast
  have current: "(length ?vis = length (cr_workRefs c) \<and> list_all (\<lambda>ref.
      case jm_get prj (workRefIdentity ref) of None \<Rightarrow> False
      | Some p \<Rightarrow> pj_availability p = Available \<and> \<not> isStaleOutcomeProjection p t) ?vis) \<longleftrightarrow> ?fresh"
    unfolding complete list_all_iff using prjs visible by (auto simp: fresh_ref_def)
  let ?xs = "concat (map dig ?vis)"
  have all: "?vis = cr_workRefs c" if ?fresh
    using that visible by (auto simp: filter_id_conv fresh_ref_def)
  have "set ?xs = observed_digests H r cards t c" if ?fresh
    unfolding all [OF that] observed_digests_eq [OF crit c] set_concat set_map
    using that digs by (auto simp: es_def)
  moreover have "cv_evidenceSetHash (criterion_view H r' src prj t c) =
      (if cr_workRefs c \<noteq> [] \<and> ?fresh
       then Some (evidenceSetHash H (cr_id c) (rc_planGeneration r) ?xs) else None)"
  proof -
    have "cv_evidenceSetHash (criterion_view H r' src prj t c) =
      (if rc_phase r' \<noteq> Draft \<and> rc_phase r' \<noteq> Cancelled \<and> ?fresh \<and> 0 < length (cr_workRefs c)
       then Some (evidenceSetHash H (cr_id c) (rc_planGeneration r)
         (if length ?vis = length (cr_workRefs c) then ?xs else [])) else None)"
      unfolding criterion_view_def Let_def dig_def [abs_def] CriterionView.select_convs current gen
      by (rule refl)
    moreover have "length ?vis = length (cr_workRefs c)" if ?fresh
      using all [OF that] by simp
    ultimately show ?thesis
      using phase by auto
  qed
  ultimately show ?thesis
    unfolding src_def prj_def by blast
qed

lemma required_digests:
  assumes crit: "valid_criteria (rc_criteria r)" and hex: "hex_hash H" and c: "c \<in> set (rc_criteria r)"
    and nul: "\<forall>e \<in> set (rc_evidence r). NUL \<notin> set (ev_sourceDigest e)"
    and ids: "distinct (map ev_id (candidate_evidence H r cards t))"
    and r': "rc_projections r' = sort_key ord (map (cached_projection prev)
        (map (candidate_projection H (candidate_evidence H r cards t) cards t) (record_refs r)))"
      "rc_evidence r' = merged_evidence (rc_evidence r) (candidate_evidence H r cards t)"
      "rc_planGeneration r' = rc_planGeneration r"
    and fresh: "\<forall>ref \<in> set (cr_workRefs c). fresh_ref cards ref"
    and ds: "currentOutcomeEvidenceSourceDigests r' c (rc_projections r') t = Some ds"
  shows "set ds = observed_digests H r cards t c"
proof -
  let ?es = "candidate_evidence H r cards t"
  let ?p = "candidate_projection H ?es cards t"
  have dist: "distinct (map (\<lambda>p. workRefIdentity (pj_ref p)) (rc_projections r'))"
    using record_refs_facts(1) [of r]
    by (simp add: r'(1) distinct_map_sort_key comp_def cached_projection_facts)
  have proj: "?p x \<in> set (rc_projections r') \<and> (\<exists>w. the_card cards x = Some w)"
    if "x \<in> set (record_refs r)" "workRefIdentity x = workRefIdentity ref" "ref \<in> set (cr_workRefs c)" for x ref
  proof -
    have "fresh_ref cards x"
      using fresh_ref_identity [OF that(2)] fresh that(3) by blast
    then have "pj_availability (?p x) = Available" "\<exists>w. the_card cards x = Some w"
      using candidate_projection_fresh [of H ?es cards t x] by (auto simp: fresh_ref_def)
    then show ?thesis
      using that(1) by (auto simp: r'(1) cached_projection_facts intro!: image_eqI)
  qed
  show ?thesis
  proof
    show "set ds \<subseteq> observed_digests H r cards t c"
    proof
      fix d assume "d \<in> set ds"
      then obtain e p ref where e: "e \<in> set (rc_evidence r')" "d = ev_sourceDigest e"
        and p: "p \<in> set (rc_projections r')" "ref \<in> set (cr_workRefs c)"
          "workRefIdentity (pj_ref p) = workRefIdentity ref"
        and key: "source_key (workRefIdentity (ev_workRef e)) (ev_kind e) (ev_sourceId e)
          (ev_sourceDigest e) \<in> set (projection_sources p)"
        unfolding sourceDigests_set [OF dist ds] by auto
      obtain x where x: "x \<in> set (record_refs r)" "p = cached_projection prev (?p x)"
        using p(1) r'(1) by auto
      have px: "workRefIdentity x = workRefIdentity ref"
        using p(3) x(2) by (simp add: cached_projection_facts)
      obtain w where w: "the_card cards x = Some w" "?p x \<in> set (rc_projections r')"
        using proj [OF x(1) px p(2)] by blast
      have "pj_availability (?p x) = Available"
        using w(1) by (simp add: candidate_projection_def available_projection_def Let_def)
      then have "p = ?p x"
        using x(2) by (simp add: cached_projection_facts)
      with key have "source_key (workRefIdentity (ev_workRef e)) (ev_kind e) (ev_sourceId e)
          (ev_sourceDigest e) \<in> set (projection_sources (?p x))" by simp
      then obtain e0 where e0: "e0 \<in> set ?es" "workRefIdentity (ev_workRef e0) = workRefIdentity x"
        "source_key (workRefIdentity (ev_workRef e)) (ev_kind e) (ev_sourceId e) (ev_sourceDigest e) =
         source_key (workRefIdentity x) (ev_kind e0) (ev_sourceId e0) (ev_sourceDigest e0)"
        unfolding projection_sources_available [OF hex w(1)] by auto
      have "e \<in> set (rc_evidence r) \<or> e \<in> set ?es"
        using e(1) r'(2) merged_evidence_subset [of "rc_evidence r" ?es] by auto
      then have "NUL \<notin> set (ev_sourceDigest e)"
        using nul candidate_digest_hex [OF hex, of e r cards t] by auto
      then have d: "d = ev_sourceDigest e0"
        using source_key_digest [OF e0(3)] candidate_digest_hex [OF hex e0(1)] e(2) by blast
      obtain c0 ref0 where l: "e0 \<in> set (link_evidence H cards (rc_planGeneration r) t (c0, ref0))"
        using e0(1) by (rule candidate_evidence_member)
      have "workRefIdentity ref0 = workRefIdentity ref"
        using link_evidence_facts(4) [OF l] e0(2) px by simp
      then have "d \<in> ev_sourceDigest ` set (link_evidence H cards (rc_planGeneration r) t (c, ref))"
        using link_digests_same_card [of "(c0, ref0)" "(c, ref)" H cards "rc_planGeneration r" t] l d by auto
      with p(2) show "d \<in> observed_digests H r cards t c"
        unfolding observed_digests_def by blast
    qed
  next
    show "observed_digests H r cards t c \<subseteq> set ds"
    proof
      fix d assume "d \<in> observed_digests H r cards t c"
      then obtain ref e where ref: "ref \<in> set (cr_workRefs c)"
        and l: "e \<in> set (link_evidence H cards (rc_planGeneration r) t (c, ref))" "d = ev_sourceDigest e"
        by (auto simp: observed_digests_def)
      note facts = link_evidence_facts [OF l(1)]
      have es: "e \<in> set ?es"
        using ref l(1) c by (force simp: candidate_evidence_def criterion_links_set)
      then have mem: "e \<in> set (rc_evidence r')"
        unfolding r'(2) by (intro merged_evidence_new ids)
      obtain x where x: "x \<in> set (record_refs r)" "workRefIdentity x = workRefIdentity ref"
        using ref_in_record [OF c ref] by metis
      obtain w where w: "the_card cards x = Some w" "?p x \<in> set (rc_projections r')"
        using proj [OF x ref] by blast
      have "source_key (workRefIdentity (ev_workRef e)) (ev_kind e) (ev_sourceId e) (ev_sourceDigest e)
          \<in> set (projection_sources (?p x))"
        unfolding projection_sources_available [OF hex w(1)] using es facts(4) x(2) by auto
      moreover have "workRefIdentity (pj_ref (?p x)) \<in> workRefIdentity ` set (cr_workRefs c)"
        "workRefIdentity (ev_workRef e) \<in> workRefIdentity ` set (cr_workRefs c)"
        using ref x(2) facts(4) by auto
      ultimately show "d \<in> set ds"
        unfolding sourceDigests_set [OF dist ds] l(2)
        using mem facts(2,3) r'(3) w(2)
        by (intro image_eqI [of _ _ e] CollectI conjI bexI [of _ "?p x"]) auto
    qed
  qed
qed

text \<open>The evidence hash the detail shows for a criterion after an observation is exactly the
  one a decision must name on the record that took this observation; it is absent exactly when
  the criterion has no current evidence there. The stored evidence digests are assumed free of the
  separator \<open>\0\<close>, which hexadecimal digests are.\<close>

theorem shown_evidence_hash_is_required:
  assumes valid: "valid_record H r" and hex: "hex_hash H" and phase: "rc_phase r \<in> {Active, Accepted}"
    and nul: "\<forall>e \<in> set (rc_evidence r). NUL \<notin> set (ev_sourceDigest e)"
    and cand: "buildRefreshCandidate H U r cards t = Inr cand"
    and taken: "reduceOutcomeRefresh r \<lparr>rm_expectedRevision = rc_revision r,
      rm_projections = rf_projections cand, rm_evidence = rf_evidence cand,
      rm_serverTime = Finite t\<rparr> = Inr (Updated r')"
    and c: "c \<in> set (rc_criteria r)"
  shows "cv_evidenceSetHash (criterion_view H r' (sources_by_ref (rf_authorizedSources cand))
      (projections_by_ref (rf_projections cand)) t c) =
    map_option (evidenceSetHash H (cr_id c) (rc_planGeneration r'))
      (currentOutcomeEvidenceSourceDigests r' c (rc_projections r') t)"
proof -
  let ?es = "candidate_evidence H r cards t"
  have gen: "0 \<le> rc_planGeneration r" and crit: "valid_criteria (rc_criteria r)"
    using valid by (simp_all add: valid_record_def valid_header_def nonneg_int_def)
  have cd: "rf_evidence cand = ?es"
    "rf_projections cand = map (candidate_projection H ?es cards t) (record_refs r)"
    "rf_authorizedSources cand = concat (map (authorized_source U ?es
      (match_refs cards (record_refs r))) (map (candidate_projection H ?es cards t) (record_refs r)))"
    using buildRefreshCandidate_eq [OF gen, of H U cards t] cand by auto
  from taken obtain prev where upd:
    "rc_projections r' = sort_key (\<lambda>p. ref_order (pj_ref p)) (map (cached_projection prev)
      (map (candidate_projection H ?es cards t) (record_refs r)))"
    "rc_evidence r' = merged_evidence (rc_evidence r) ?es"
    "rc_planGeneration r' = rc_planGeneration r" "rc_phase r' = rc_phase r"
    "distinct (map ev_id ?es)"
    by (cases rule: reduceOutcomeRefresh_Updated) (simp add: cd)
  let ?ok = "cr_workRefs c \<noteq> [] \<and> (\<forall>ref \<in> set (cr_workRefs c). fresh_ref cards ref)"
  have dist: "distinct (map (\<lambda>p. workRefIdentity (pj_ref p)) (rc_projections r'))"
    using record_refs_facts(1) [of r]
    by (simp add: upd(1) distinct_map_sort_key comp_def cached_projection_facts)
  have req: "currentOutcomeEvidenceSourceDigests r' c (rc_projections r') t \<noteq> None \<longleftrightarrow> ?ok"
    unfolding sourceDigests_observed [OF dist] by (rule observed_criterion [OF upd(1) c])
  have "rc_phase r' \<in> {Active, Accepted}"
    using phase upd(4) by simp
  from shown_hash [OF refl crit c this upd(3), of cards H t U] obtain xs where
    xs: "?ok \<longrightarrow> set xs = observed_digests H r cards t c"
    and view: "cv_evidenceSetHash (criterion_view H r' (sources_by_ref (rf_authorizedSources cand))
        (projections_by_ref (rf_projections cand)) t c) =
      (if ?ok then Some (evidenceSetHash H (cr_id c) (rc_planGeneration r) xs) else None)"
    unfolding cd by blast
  show ?thesis
  proof (cases "currentOutcomeEvidenceSourceDigests r' c (rc_projections r') t")
    case None
    with req view show ?thesis by simp
  next
    case (Some ds)
    with req have ok: ?ok by simp
    have "set ds = observed_digests H r cards t c"
      by (rule required_digests [OF crit hex c nul upd(5,1,2,3) _ Some]) (use ok in blast)
    with xs ok have "set xs = set ds" by simp
    then have "evidenceSetHash H (cr_id c) (rc_planGeneration r) xs =
        evidenceSetHash H (cr_id c) (rc_planGeneration r) ds"
      by (rule evidenceSetHash_set)
    with view ok Some upd(3) show ?thesis by simp
  qed
qed

end
