(* ===== verification/Outcome_Witnesses.thy ===== *)
theory Outcome_Witnesses
  imports Outcome_Examples Outcome_Presentation
begin

text \<open>
  The properties of the Outcome theories at concrete inputs: every hypothesis is discharged by
  evaluating the definitions on the fixtures of \<open>Outcome_Examples\<close>, so each of them can be met.
\<close>

definition ex_limits :: store_limits where
  "ex_limits = \<lparr>maxEntries = 500, maxPluginEntries = 1000, otherNamespaceEntries = 0\<rparr>"

definition ex_rows :: outcome_rows where
  "ex_rows = [(''o1'', ex_draft)]"

definition ex_accepted :: OutcomeRecord where
  "ex_accepted = ex_decided\<lparr>rc_phase := Accepted, rc_revision := 4, rc_updatedAt := 40,
     rc_acceptances := [\<lparr>ac_id = ''a1'', ac_requestHash = ex_digest (CHR ''3''), ac_acceptedRevision = 4,
       ac_profileId = ''ann'', ac_acceptedAt = 40, ac_planGeneration = 1,
       ac_planHash = ex_digest (CHR ''1''), ac_closureHash = ex_digest (CHR ''8''),
       ac_acceptedPlan = ex_plan\<rparr>]\<rparr>"

definition ex_edit :: OutcomeContractMutation where
  "ex_edit = \<lparr>cm_expectedRevision = 4, cm_objective = ''Ship more'', cm_criteria = [ex_criterion],
     cm_serverTime = Finite 50\<rparr>"

definition ex_response :: "ResponseCard list" where
  "ex_response = [\<lparr>rk_id = ''card-1'', rk_status = ''done'', rk_createdAt = 5, rk_updatedAt = 15,
     rk_metadata = Some \<lparr>md_boardId = None, md_proof = Some [\<lparr>wp_id = ''proof-1'', wp_status = ''passed'',
       wp_createdAt = 12, wp_label = None, wp_command = None, wp_url = None, wp_note = None\<rparr>],
       md_artifacts = None, md_stale = False\<rparr>\<rparr>]"

definition ex_cards :: "WorkboardCard list" where
  "ex_cards = [\<lparr>wc_id = ''card-1'', wc_createdAt = 5, wc_updatedAt = 15, wc_status = ''done'',
     wc_boardId = ''default'', wc_upstreamStale = False,
     wc_proofs = [\<lparr>wp_id = ''proof-1'', wp_status = ''passed'', wp_createdAt = 12, wp_label = None,
       wp_command = None, wp_url = None, wp_note = None\<rparr>], wc_artifacts = []\<rparr>]"

section \<open>Facts about the fixtures\<close>

lemma ex_decided_valid: "valid_record ex_hash ex_decided"
  by code_simp

lemma ex_projection_valid: "list_all (valid_projection ex_hash) [ex_projection]"
  by code_simp

lemma ex_accepts_exactly:
  "reduceOutcomeAcceptance ex_hash ex_decided ex_accept = Inr (AUpdated ex_accepted False)"
  by code_simp

lemma ex_closed: "deriveOutcomeClosure ex_hash ex_decided [ex_projection] 40 = Some (ex_digest (CHR ''8''))"
  by code_simp

lemma ex_edits: "updates (reduceOutcomeContract ex_hash ex_accepted ex_edit)"
  by code_simp

lemma ex_draft_small: "outcomeRecordByteLength ex_draft < 1000"
  by code_simp

lemma ex_draft_stored: "parseOutcomeRecord ex_hash ex_draft = Inr ex_draft"
  using ex_draft_small by (simp add: parseOutcomeRecord_Inr ex_draft_valid OUTCOME_MAX_RECORD_BYTES_def)

lemma ex_rows_ok: "store_ok ex_hash ex_limits ex_rows"
proof -
  have "jm_ok ex_rows \<and> length ex_rows \<le> maxEntries ex_limits \<and> rc_id ex_draft = ''o1''"
    by code_simp
  then show ?thesis
    using ex_draft_stored
    by (auto simp: store_ok_def stored_def ex_rows_def pluginStateLookup_def split: if_splits)
qed

lemma ex_cards_read: "readWorkboardCards ex_response = Inr ex_cards"
  by (simp add: readWorkboardCards_def ex_response_def ex_cards_def read_card_def or_else_def)

lemma ex_response_valid: "list_all valid_response_card ex_response"
  by code_simp

lemma ex_candidate_evidence: "length (candidate_evidence ex_hash ex_active ex_cards 20) = 1"
  by (simp add: candidate_evidence_def criterion_links_def ex_active_def ex_draft_def ex_criterion_def
      link_evidence_def the_card_def ex_cards_def ex_ref_def card_evidence_def)

lemma inj_on_single: "length xs = 1 \<Longrightarrow> inj_on f (g ` set xs)"
  by (cases xs) auto

lemma not_isl_Inr: "\<not> isl x \<Longrightarrow> \<exists>y. x = Inr y"
  by (cases x) simp_all

lemma ex_accepts_result: "reduceOutcomeAcceptance ex_hash ex_decided ex_accept \<noteq> Inl e"
  by (simp add: ex_accepts_exactly)

lemma ex_refresh_runs: "\<exists>r'. reduceOutcomeDecision ex_hash ex_active ex_decide = Inr (AUpdated r' False)"
  by (rule assurance_updatesE [OF ex_decides])

section \<open>The lifecycle\<close>

theorem run_keeps_valid_witness:
  "valid_record ex_hash
     (run_commands (outcome_step ex_hash) [Activate 1 (Finite 10), Refresh ex_refresh] ex_draft)"
proof (rule run_keeps_valid [OF ex_draft_valid ex_hash_hex])
  show "list_all (valid_command ex_hash) [Activate 1 (Finite 10), Refresh ex_refresh]"
    by code_simp
  show "rc_revision ex_draft + int (length [Activate 1 (Finite 10), Refresh ex_refresh])
      \<le> MAX_SAFE_INTEGER"
    by (simp add: ex_draft_def MAX_SAFE_INTEGER_def)
qed

theorem no_lost_update_witness:
  "\<exists>r1. outcome_step ex_hash (Activate 1 (Finite 10)) ex_draft = Inr (Updated r1) \<and>
     outcome_step ex_hash (Activate 1 (Finite 11))
       (run_commands (outcome_step ex_hash) [Refresh ex_refresh] r1) \<noteq> Inr (Updated ex_active)"
proof -
  obtain r1 where "outcome_step ex_hash (Activate 1 (Finite 10)) ex_draft = Inr (Updated r1)"
    using updatesE [OF ex_activates] by blast
  from this no_lost_update [OF this, of "Activate 1 (Finite 11)" "[Refresh ex_refresh]"] show ?thesis
    by (auto simp del: run_commands_simps)
qed

theorem cancelled_is_final_witness:
  "run_commands (outcome_step ex_hash) [Activate 1 (Finite 10)] (ex_draft\<lparr>rc_phase := Cancelled\<rparr>) =
     ex_draft\<lparr>rc_phase := Cancelled\<rparr>"
  by (rule cancelled_is_final) simp

theorem update_moves_phase_and_plan_witness:
  "\<exists>r'. outcome_step ex_hash (Activate 1 (Finite 10)) ex_draft = Inr (Updated r') \<and>
     phase_step Draft (rc_phase r') \<and> plan_step ex_draft r'"
proof -
  obtain r' where "outcome_step ex_hash (Activate 1 (Finite 10)) ex_draft = Inr (Updated r')"
    using updatesE [OF ex_activates] by blast
  from this update_moves_phase_and_plan [OF this] show ?thesis
    by (auto simp: ex_draft_def)
qed

theorem refusal_keeps_record_witness:
  "result_record (Conflict ex_draft) = ex_draft \<and>
   outcome_step ex_hash (Activate 2 (Finite 10)) ex_draft = Inr (Conflict ex_draft)"
proof -
  have "outcome_step ex_hash (Activate 2 (Finite 10)) ex_draft = Inr (Conflict ex_draft)"
    by (simp add: reduceOutcomeActivate_def ex_draft_def)
  from this refusal_keeps_record [OF this] show ?thesis by blast
qed

section \<open>Decisions and acceptances\<close>

theorem decision_replays_witness:
  "\<exists>r'. reduceOutcomeDecision ex_hash ex_active ex_decide = Inr (AUpdated r' False) \<and>
     reduceOutcomeDecision ex_hash (run_commands (outcome_step ex_hash) [Cancel 3 (Finite 35)] r') ex_decide =
       Inr (AUpdated (run_commands (outcome_step ex_hash) [Cancel 3 (Finite 35)] r') True)"
proof -
  obtain r' where r': "reduceOutcomeDecision ex_hash ex_active ex_decide = Inr (AUpdated r' False)"
    using ex_refresh_runs by blast
  have "dm_serverTime ex_decide = Finite 30" by (simp add: ex_decide_def)
  from decision_replays [OF r' refl this refl] r' show ?thesis
    by (auto simp del: run_commands_simps)
qed

theorem acceptance_replays_witness:
  "reduceOutcomeAcceptance ex_hash (run_commands (outcome_step ex_hash) [UpdateContract ex_edit] ex_accepted)
     (ex_accept\<lparr>am_requestHash := ex_digest (CHR ''4'')\<rparr>) =
   Inr (AConflict OperationConflict
     (run_commands (outcome_step ex_hash) [UpdateContract ex_edit] ex_accepted))"
proof -
  let ?m = "ex_accept\<lparr>am_requestHash := ex_digest (CHR ''4'')\<rparr>"
  have "am_id ?m = am_id ex_accept" "am_serverTime ?m = Finite 40" "am_requestHash ?m \<noteq> am_requestHash ex_accept"
    by (simp_all add: ex_accept_def ex_digest_def)
  then show ?thesis
    using acceptance_replays [OF ex_accepts_exactly, of ?m 40, OF _ _ refl]
    by (simp del: run_commands_simps)
qed

theorem recorded_decision_stands_witness:
  "\<exists>r' c d ds. reduceOutcomeDecision ex_hash ex_active ex_decide = Inr (AUpdated r' False) \<and>
     currentOutcomeDecision ex_hash r' c (rc_projections r') 30 =
       Some \<lparr>cd_decision = d, cd_sourceDigests = ds\<rparr> \<and> de_id d = ''d1'' \<and> de_status d = Verified"
proof -
  obtain r' where r': "reduceOutcomeDecision ex_hash ex_active ex_decide = Inr (AUpdated r' False)"
    using ex_refresh_runs by blast
  have "dm_serverTime ex_decide = Finite 30" "dm_id ex_decide = ''d1''" "dm_status ex_decide = Verified"
    by (simp_all add: ex_decide_def)
  with recorded_decision_stands [OF ex_active_valid r', of 30] r' show ?thesis by metis
qed

theorem acceptance_carries_closure_witness:
  "\<exists>a. rc_acceptances ex_accepted = [a] \<and>
     deriveOutcomeClosure ex_hash ex_accepted (rc_projections ex_accepted) 40 = Some (ac_closureHash a)"
proof -
  have "am_serverTime ex_accept = Finite 40" "rc_acceptances ex_decided = []"
    by (simp_all add: ex_accept_def ex_decided_def ex_active_def ex_draft_def)
  with acceptance_carries_closure [OF ex_accepts_exactly, of 40] show ?thesis by auto
qed

theorem closures_accepted_once_witness:
  "distinct (map accepted_closure (rc_acceptances
     (run_commands (outcome_step ex_hash) [Accept ex_accept, Accept ex_accept] ex_decided)))"
  by (rule closures_accepted_once) (simp add: ex_decided_def ex_active_def ex_draft_def)

theorem closure_only_expires_witness:
  "deriveOutcomeClosure ex_hash ex_decided [ex_projection] 35 = Some (ex_digest (CHR ''8''))"
  by (rule closure_only_expires [OF _ ex_closed]) simp

theorem closure_sound_witness:
  "rc_phase ex_decided \<in> {Active, Accepted} \<and> criterion_observed ex_criterion [ex_projection] 40 \<and>
   (\<exists>d. d \<in> set (rc_decisions ex_decided) \<and> de_status d = Verified)"
proof -
  have "ex_criterion \<in> set (rc_criteria ex_decided)" "cr_required ex_criterion"
    by (simp_all add: ex_decided_def ex_active_def ex_draft_def ex_criterion_def)
  with closure_sound [OF ex_decided_valid _ ex_closed] show ?thesis by auto
qed

section \<open>The repository\<close>

definition ex_created :: OutcomeRecord where
  "ex_created = ex_draft\<lparr>rc_id := ''o2''\<rparr>"

lemma ex_lookup: "pluginStateLookup i ex_rows = (if i = ''o1'' then Some ex_draft else None)"
  by (simp add: pluginStateLookup_def ex_rows_def)

lemma ex_rows_keys: "jm_ok ex_rows"
  using ex_rows_ok by (simp add: store_ok_def)

lemma ex_owner: "rc_managerProfileId ex_draft = ''ann''"
  by (simp add: ex_draft_def)

lemma js_trim_bob: "js_trim ''bob'' \<noteq> []"
  by code_simp

lemma js_trim_ann: "js_trim ''ann'' \<noteq> []"
  by code_simp

definition ex_cancelled :: OutcomeRecord where
  "ex_cancelled = ex_draft\<lparr>rc_phase := Cancelled, rc_revision := 2, rc_updatedAt := 10\<rparr>"

lemma ex_cancelled_stored: "parseOutcomeRecord ex_hash ex_cancelled = Inr ex_cancelled"
proof -
  have "outcomeRecordByteLength ex_cancelled < 1000" "valid_record ex_hash ex_cancelled"
    by code_simp+
  then show ?thesis by (simp add: parseOutcomeRecord_Inr OUTCOME_MAX_RECORD_BYTES_def)
qed

lemma ex_cancels: "reduceOutcomeCancel ex_draft 1 (Finite 10) = Inr (Updated ex_cancelled)"
  by (simp add: reduceOutcomeCancel_def ex_draft_def hasInFlightOperation_def ex_cancelled_def)

lemma ex_mutates: "\<not> isl (mutateOwned ex_hash ex_limits ''ann'' ''o1'' (Cancel 1 (Finite 10)) ex_rows)"
proof -
  have "assertOutcomeRecordSize ex_cancelled = Inr ()"
    using ex_cancelled_stored by (auto simp: parseOutcomeRecord_def split: if_splits sum.splits)
  then show ?thesis
    using js_trim_ann
    by (simp add: mutateOwned_def transactOwned_def assertManagerProfileId_def pluginStateUpdate_def
        owned_callback_def ex_rows_def ex_owner ex_draft_stored mutation_decision_def ex_cancels
        strict_next_def ex_cancelled_stored size_checked_def)
qed

theorem mutation_keeps_store_witness:
  "\<exists>res rows'. mutateOwned ex_hash ex_limits ''ann'' ''o1'' (Cancel 1 (Finite 10)) ex_rows =
     Inr (res, rows') \<and> store_ok ex_hash ex_limits rows'"
proof -
  obtain res rows' where m: "mutateOwned ex_hash ex_limits ''ann'' ''o1'' (Cancel 1 (Finite 10)) ex_rows =
      Inr (res, rows')"
    using not_isl_Inr [OF ex_mutates] by auto
  with mutation_keeps_store [OF ex_rows_ok m] show ?thesis by blast
qed

theorem mutation_is_atomic_witness:
  "\<exists>res rows'. mutateOwned ex_hash ex_limits ''ann'' ''o1'' (Cancel 1 (Finite 10)) ex_rows =
     Inr (res, rows') \<and> outcome_step ex_hash (Cancel 1 (Finite 10)) ex_draft = Inr res"
proof -
  obtain res rows' where m: "mutateOwned ex_hash ex_limits ''ann'' ''o1'' (Cancel 1 (Finite 10)) ex_rows =
      Inr (res, rows')"
    using not_isl_Inr [OF ex_mutates] by auto
  with mutation_is_atomic [OF m] show ?thesis by (auto simp: ex_lookup)
qed

theorem foreign_records_untouched_witness:
  "pluginStateLookup ''o1'' ex_rows = Some ex_draft \<and>
   deleteOwnedIf ex_hash ''bob'' ''o1'' (\<lambda>_. True) ex_rows = Inr (False, ex_rows)"
proof -
  have d: "deleteOwnedIf ex_hash ''bob'' ''o1'' (\<lambda>_. True) ex_rows = Inr (False, ex_rows)"
    using js_trim_bob ex_draft_stored ex_owner
    by (simp add: deleteOwnedIf_def assertManagerProfileId_def pluginStateDeleteIf_def ex_rows_def)
  have "pluginStateLookup ''o1'' ex_rows = Some ex_draft"
    by (rule foreign_records_untouched [OF ex_rows_keys _ _ disjI2 [OF d]])
      (simp_all add: ex_lookup ex_owner)
  with d show ?thesis by simp
qed

theorem foreign_is_missing_witness:
  "getOwned ex_hash ''bob'' ''o1'' ex_rows = Inr None \<and>
   deleteOwnedIf ex_hash ''bob'' ''o1'' (\<lambda>_. True) ex_rows = Inr (False, ex_rows)"
proof -
  have "\<forall>r. pluginStateLookup ''o1'' ex_rows = Some r \<longrightarrow> rc_managerProfileId r \<noteq> ''bob''"
    by (simp add: ex_lookup ex_owner)
  from foreign_is_missing [OF ex_rows_ok js_trim_bob this] show ?thesis by blast
qed

lemma ex_created_stored: "parseOutcomeRecord ex_hash ex_created = Inr ex_created"
proof -
  have "outcomeRecordByteLength ex_created < 1000" "valid_record ex_hash ex_created"
    by code_simp+
  then show ?thesis by (simp add: parseOutcomeRecord_Inr OUTCOME_MAX_RECORD_BYTES_def)
qed

theorem create_is_idempotent_witness:
  "\<exists>rows'. createOwned ex_hash ex_limits ''ann'' ex_created ex_rows =
      Inr ((True, False, ex_created), rows') \<and>
     createOwned ex_hash ex_limits ''ann'' ex_created rows' = Inr ((False, True, ex_created), rows')"
proof -
  have o: "rc_managerProfileId ex_created = ''ann''" "rc_id ex_created = ''o2''"
    by (simp_all add: ex_created_def ex_draft_def)
  then obtain rows' where c: "createOwned ex_hash ex_limits ''ann'' ex_created ex_rows =
      Inr ((True, False, ex_created), rows')"
    using js_trim_ann ex_created_stored
    by (simp add: createOwned_def pluginStateRegisterIfAbsent_def ex_rows_def ex_limits_def
        assertCanInsertPluginStateEntry_def)
  from create_is_idempotent [OF ex_rows_keys c ex_created_stored refl o(1) js_trim_ann] c
  show ?thesis by auto
qed

theorem list_is_complete_and_sorted_witness:
  "\<exists>rs. listOwned ex_hash ''ann'' ex_rows = Inr rs \<and> set rs = {ex_draft}"
proof -
  have "{r. rc_managerProfileId r = ''ann'' \<and> (\<exists>i. pluginStateLookup i ex_rows = Some r)} = {ex_draft}"
    by (auto simp: ex_lookup ex_owner split: if_splits)
  with list_is_complete_and_sorted [OF ex_rows_ok js_trim_ann] show ?thesis by auto
qed

theorem pages_partition_list_witness:
  "\<exists>pages. follow_pages 3 (Some 1) None [ex_created, ex_draft\<lparr>rc_updatedAt := 0\<rparr>] = Some pages \<and>
     concat pages = [ex_created, ex_draft\<lparr>rc_updatedAt := 0\<rparr>]"
proof -
  let ?rs = "[ex_created, ex_draft\<lparr>rc_updatedAt := 0\<rparr>]"
  have "sorted_wrt (\<lambda>a b. list_order a < list_order b) ?rs"
    by (simp add: list_order_def ex_created_def ex_draft_def)
  from pages_partition_list [OF this, of "Some 1"] show ?thesis
    by (simp add: numeral_3_eq_3)
qed

section \<open>Observation, guidance and presentation\<close>

lemma merged_single: "length (merged_evidence [] [e]) = 1"
  by (simp add: merged_evidence_def jm_of_def jm_set_all_def jm_values_def)

theorem accept_offered_iff_recorded_witness:
  "DoAccept \<in> set (gd_nextActions (deriveOutcomeAttention ex_hash ex_decided
     (rc_projections ex_decided) 40 (Some (ex_digest (CHR ''8'')))))"
proof -
  have p: "rc_projections ex_decided = [ex_projection]" "rc_acceptances ex_decided = []"
    "rc_planHash ex_decided = Some (ex_digest (CHR ''1''))" "rc_revision ex_decided = 3"
    by (simp_all add: ex_decided_def ex_active_def ex_draft_def)
  have m: "am_serverTime ex_accept = Finite 40" "am_projections ex_accept = None"
    "am_evidence ex_accept = None" "am_expectedRevision ex_accept = 3"
    "am_planHash ex_accept = ex_digest (CHR ''1'')" "am_closureHash ex_accept = ex_digest (CHR ''8'')"
    by (simp_all add: ex_accept_def)
  have "Some (ex_digest (CHR ''8'')) = deriveOutcomeClosure ex_hash ex_decided (rc_projections ex_decided) 40"
    by (simp add: p ex_closed)
  from accept_offered_iff_recorded [OF _ this m(1-3)] ex_accepts_exactly show ?thesis
    by (auto simp: p m)
qed

theorem offered_actions_succeed_witness:
  "\<exists>r'. reduceOutcomeActivate ex_hash ex_draft (rc_revision ex_draft) (Finite 10) = Inr (Updated r')"
proof -
  have "DoActivate \<in> set (gd_nextActions (deriveOutcomeAttention ex_hash ex_draft [] 10 None))"
    by code_simp
  moreover have "\<not> hasInFlightOperation ex_draft" "codePointText 4000 ''Ship more''"
    "''Ship more'' \<noteq> rc_objective ex_draft" "rc_revision ex_draft < MAX_SAFE_INTEGER"
    "rc_planGeneration ex_draft < MAX_SAFE_INTEGER"
    by (simp_all add: hasInFlightOperation_def ex_draft_def codePointText_def hasAtMostCodePoints_def
        MAX_SAFE_INTEGER_def)
  ultimately show ?thesis
    using offered_actions_succeed [OF ex_draft_valid _ _ _ _ refl] by blast
qed

theorem ready_iff_closed_witness:
  "sm_readiness (toOutcomeSummary ex_hash ex_decided 40 [ex_projection] (rc_evidence ex_decided)) = Ready"
proof -
  have "withObservedEvidence ex_decided (rc_evidence ex_decided) = ex_decided"
    by (simp add: withObservedEvidence_def)
  with ready_iff_closed [OF ex_projection_valid, of ex_decided 40 "rc_evidence ex_decided"] ex_closed
  show ?thesis by simp
qed

theorem acceptance_shows_until_edit_witness:
  "\<exists>r''. reduceOutcomeContract ex_hash ex_accepted ex_edit = Inr (Updated r'') \<and>
     sm_acceptanceValidity (toOutcomeSummary ex_hash ex_accepted 40 (rc_projections ex_accepted)
       (rc_evidence ex_accepted)) = CurrentAcceptance \<and>
     sm_acceptanceValidity (toOutcomeSummary ex_hash r'' 60 [] []) = NeedsReview"
proof -
  obtain r'' where e: "reduceOutcomeContract ex_hash ex_accepted ex_edit = Inr (Updated r'')"
    using updatesE [OF ex_edits] by blast
  have "rc_projections ex_accepted = [ex_projection]" "am_serverTime ex_accept = Finite 40"
    by (simp_all add: ex_accepted_def ex_decided_def ex_accept_def)
  with acceptance_shows_until_edit [OF ex_decided_valid ex_accepts_exactly _ _ e, of 40] ex_projection_valid e
  show ?thesis by auto
qed


theorem shown_evidence_hash_is_required_witness:
  "\<exists>cand r'. buildRefreshCandidate ex_hash (\<lambda>_. None) ex_active ex_cards 20 = Inr cand \<and>
     cv_evidenceSetHash (criterion_view ex_hash r' (sources_by_ref (rf_authorizedSources cand))
       (projections_by_ref (rf_projections cand)) 20 ex_criterion) =
     map_option (evidenceSetHash ex_hash ''c1'' (rc_planGeneration r'))
       (currentOutcomeEvidenceSourceDigests r' ex_criterion (rc_projections r') 20)"
proof -
  have r: "rc_phase ex_active = Active" "rc_evidence ex_active = []" "rc_planGeneration ex_active = 1"
    "ex_criterion \<in> set (rc_criteria ex_active)" "cr_id ex_criterion = ''c1''"
    by (simp_all add: ex_active_def ex_draft_def ex_criterion_def)
  have "inj_on ex_hash (evidence_text ` set (candidate_evidence ex_hash ex_active ex_cards 20))"
    by (rule inj_on_single [OF ex_candidate_evidence])
  from candidate_taken [OF ex_active_valid ex_hash_hex _ ex_cards_read ex_response_valid this,
      where U = "\<lambda>_. None"] r(1)
  obtain cand where cand: "buildRefreshCandidate ex_hash (\<lambda>_. None) ex_active ex_cards 20 = Inr cand"
    and d: "(\<exists>r'. reduceOutcomeRefresh ex_active \<lparr>rm_expectedRevision = rc_revision ex_active,
        rm_projections = rf_projections cand, rm_evidence = rf_evidence cand,
        rm_serverTime = Finite 20\<rparr> = Inr (Updated r')) \<or>
     reduceOutcomeRefresh ex_active \<lparr>rm_expectedRevision = rc_revision ex_active,
        rm_projections = rf_projections cand, rm_evidence = rf_evidence cand,
        rm_serverTime = Finite 20\<rparr> = Inr (Rejected ex_active (Some CapacityExceeded))"
    by auto
  have "rf_evidence cand = candidate_evidence ex_hash ex_active ex_cards 20"
    using buildRefreshCandidate_eq [of ex_active ex_hash "\<lambda>_. None" ex_cards 20] cand r(3) by auto
  then obtain e where "rf_evidence cand = [e]"
    using ex_candidate_evidence by (auto simp: length_Suc_conv)
  then have "\<not> 100 < length (merged_evidence (rc_evidence ex_active) (rf_evidence cand))"
    by (simp add: r(2) merged_single)
  with d obtain r' where r': "reduceOutcomeRefresh ex_active \<lparr>rm_expectedRevision = rc_revision ex_active,
      rm_projections = rf_projections cand, rm_evidence = rf_evidence cand,
      rm_serverTime = Finite 20\<rparr> = Inr (Updated r')"
    by (auto simp: reduceOutcomeRefresh_def Let_def split: if_splits)
  from shown_evidence_hash_is_required [OF ex_active_valid ex_hash_hex _ _ cand r' r(4)] cand r
  show ?thesis by (intro exI [of _ cand] exI [of _ r']) simp
qed

end
