(* ===== verification/Lane_Queue.thy ===== *)
theory Lane_Queue
  imports Prelude
begin

text \<open>
  The queue of one command lane (\<open>src/process/command-queue.state.ts\<close>): three ring buffers, one
  per priority. The rings are modelled as the source has them, a growable array with a head index
  and a length; the locale \<open>fifo\<close> is the contract the lane queue relies on, and the rings
  implement it. The lane queue is then a queue ordered by priority first and age second.
\<close>

section \<open>Ring buffers\<close>

record 'e QueueRing =
  qr_entries :: "'e option list"
  qr_head :: nat
  qr_length :: nat

definition INITIAL_QUEUE_RING_CAPACITY :: nat where
  "INITIAL_QUEUE_RING_CAPACITY = 16"

definition createQueueRing :: "'e QueueRing" where
  "createQueueRing = \<lparr>qr_entries = [], qr_head = 0, qr_length = 0\<rparr>"

text \<open>The slot of the \<open>i\<close>-th entry.\<close>

definition ring_slot :: "'e QueueRing \<Rightarrow> nat \<Rightarrow> nat" where
  "ring_slot ring i = (qr_head ring + i) mod length (qr_entries ring)"

definition grow_ring :: "'e QueueRing \<Rightarrow> 'e QueueRing" where
  "grow_ring ring =
     (if qr_length ring = length (qr_entries ring) then
        let nextCapacity = max INITIAL_QUEUE_RING_CAPACITY (qr_length ring * 2)
        in ring\<lparr>qr_entries := map (\<lambda>index. if index < qr_length ring
               then qr_entries ring ! ring_slot ring index else None) [0..<nextCapacity],
             qr_head := 0\<rparr>
      else ring)"

definition appendQueueRing :: "'e QueueRing \<Rightarrow> 'e \<Rightarrow> 'e QueueRing" where
  "appendQueueRing ring entry =
     (let grown = grow_ring ring
      in grown\<lparr>qr_entries := (qr_entries grown)[ring_slot grown (qr_length grown) := Some entry],
           qr_length := qr_length grown + 1\<rparr>)"

definition peekQueueRing :: "'e QueueRing \<Rightarrow> 'e option" where
  "peekQueueRing ring = (if 0 < qr_length ring then qr_entries ring ! qr_head ring else None)"

definition dequeueQueueRing :: "'e QueueRing \<Rightarrow> 'e option \<times> 'e QueueRing" where
  "dequeueQueueRing ring =
     (if qr_length ring = 0 then (None, ring)
      else
        let entry = qr_entries ring ! qr_head ring;
            entries = (qr_entries ring)[qr_head ring := None];
            len = qr_length ring - 1
        in (entry,
            if len = 0 then \<lparr>qr_entries = [], qr_head = 0, qr_length = 0\<rparr>
            else \<lparr>qr_entries = entries, qr_head = (qr_head ring + 1) mod length entries,
                   qr_length = len\<rparr>))"

section \<open>The contract of a FIFO queue\<close>

text \<open>One pass of \<open>n\<close> dequeues that keeps the entries satisfying \<open>keep\<close>.\<close>

primrec rotate_queue :: "('q \<Rightarrow> 'e option \<times> 'q) \<Rightarrow> ('q \<Rightarrow> 'e \<Rightarrow> 'q) \<Rightarrow> ('e \<Rightarrow> bool) \<Rightarrow> nat \<Rightarrow> 'q \<Rightarrow> 'q"
where
  "rotate_queue deq enq keep 0 q = q"
| "rotate_queue deq enq keep (Suc n) q =
     (case deq q of
        (Some candidate, q') \<Rightarrow>
          rotate_queue deq enq keep n (if keep candidate then enq q' candidate else q')
      | (None, q') \<Rightarrow> rotate_queue deq enq keep n q')"

locale fifo =
  fixes new :: 'q
    and enq :: "'q \<Rightarrow> 'e \<Rightarrow> 'q"
    and deq :: "'q \<Rightarrow> 'e option \<times> 'q"
    and peek :: "'q \<Rightarrow> 'e option"
    and elems :: "'q \<Rightarrow> 'e list"
    and ok :: "'q \<Rightarrow> bool"
  assumes ok_new: "ok new" and elems_new: "elems new = []"
    and ok_enq: "ok q \<Longrightarrow> ok (enq q x)" and elems_enq: "ok q \<Longrightarrow> elems (enq q x) = elems q @ [x]"
    and ok_deq: "ok q \<Longrightarrow> ok (snd (deq q))" and elems_deq: "ok q \<Longrightarrow> elems (snd (deq q)) = tl (elems q)"
    and deq_head: "ok q \<Longrightarrow> fst (deq q) = (case elems q of [] \<Rightarrow> None | x # _ \<Rightarrow> Some x)"
    and peek_head: "ok q \<Longrightarrow> peek q = (case elems q of [] \<Rightarrow> None | x # _ \<Rightarrow> Some x)"
begin

lemma deq_Nil: "ok q \<Longrightarrow> elems q = [] \<Longrightarrow> fst (deq q) = None"
  by (simp add: deq_head)

lemma deq_Cons:
  assumes "ok q" "elems q = x # xs"
  obtains q' where "deq q = (Some x, q')" "ok q'" "elems q' = xs"
  using assms deq_head [of q] ok_deq [of q] elems_deq [of q] by (cases "deq q") auto

lemma rotate_prefix:
  assumes "ok q" "elems q = xs @ ys" "n = length xs"
  shows "ok (rotate_queue deq enq keep n q) \<and>
    elems (rotate_queue deq enq keep n q) = ys @ filter keep xs"
  using assms
proof (induction n arbitrary: q xs ys)
  case (Suc n)
  then obtain x xs' where xs: "xs = x # xs'" "n = length xs'"
    by (cases xs) auto
  then obtain q' where q': "deq q = (Some x, q')" "ok q'" "elems q' = xs' @ ys"
    using deq_Cons [OF Suc.prems(1), of x "xs' @ ys"] Suc.prems(2) by auto
  show ?case
  proof (cases "keep x")
    case True
    have "ok (enq q' x)" "elems (enq q' x) = xs' @ (ys @ [x])"
      using q' by (simp_all add: ok_enq elems_enq)
    from Suc.IH [OF this xs(2)] True q'(1) xs(1) show ?thesis by simp
  next
    case False
    from Suc.IH [OF q'(2,3) xs(2)] False q'(1) xs(1) show ?thesis by simp
  qed
qed simp

lemma rotate_filter:
  assumes "ok q" "n = length (elems q)"
  shows "ok (rotate_queue deq enq keep n q)" "elems (rotate_queue deq enq keep n q) = filter keep (elems q)"
  using rotate_prefix [of q "elems q" "[]" n keep] assms by auto

end

section \<open>The rings implement it\<close>

definition ring_ok :: "'e QueueRing \<Rightarrow> bool" where
  "ring_ok ring \<longleftrightarrow> qr_length ring \<le> length (qr_entries ring) \<and>
     (if qr_entries ring = [] then qr_head ring = 0 else qr_head ring < length (qr_entries ring)) \<and>
     (\<forall>i < qr_length ring. qr_entries ring ! ring_slot ring i \<noteq> None)"

definition ring_list :: "'e QueueRing \<Rightarrow> 'e list" where
  "ring_list ring = map (\<lambda>i. the (qr_entries ring ! ring_slot ring i)) [0..<qr_length ring]"

lemma length_ring_list [simp]: "length (ring_list ring) = qr_length ring"
  by (simp add: ring_list_def)

lemma slot_inj:
  assumes "(h + i) mod n = (h + j) mod n" "i < n" "j < n"
  shows "i = (j::nat)"
  using assms
proof (induction i j rule: linorder_wlog)
  case (le i j)
  then have "n dvd (h + j) - (h + i)"
    using mod_eq_dvd_iff_nat [of "h + i" "h + j" n] by simp
  with le show ?case by (auto dest: dvd_imp_le)
qed simp

lemma ring_okI:
  assumes "l \<le> length es" "if es = [] then h = 0 else h < length es"
    "\<And>i. i < l \<Longrightarrow> es ! ((h + i) mod length es) \<noteq> None"
  shows "ring_ok \<lparr>qr_entries = es, qr_head = h, qr_length = l\<rparr>"
  using assms by (simp add: ring_ok_def ring_slot_def)

lemma ring_slot_less: "qr_entries ring \<noteq> [] \<Longrightarrow> ring_slot ring i < length (qr_entries ring)"
  by (simp add: ring_slot_def)

lemma grow_ring_facts:
  assumes "ring_ok ring"
  shows "ring_ok (grow_ring ring)" "ring_list (grow_ring ring) = ring_list ring"
    "qr_length (grow_ring ring) = qr_length ring"
    "qr_length ring < length (qr_entries (grow_ring ring))"
proof -
  have "ring_ok (grow_ring ring) \<and> ring_list (grow_ring ring) = ring_list ring \<and>
    qr_length (grow_ring ring) = qr_length ring \<and>
    qr_length ring < length (qr_entries (grow_ring ring))"
  proof (cases "qr_length ring = length (qr_entries ring)")
    case True
    let ?n = "max INITIAL_QUEUE_RING_CAPACITY (qr_length ring * 2)"
    have n: "qr_length ring < ?n"
      by (cases "qr_length ring") (simp_all add: INITIAL_QUEUE_RING_CAPACITY_def less_max_iff_disj)
    with True have g: "grow_ring ring = ring\<lparr>qr_entries := map (\<lambda>index. if index < qr_length ring
        then qr_entries ring ! ring_slot ring index else None) [0..<?n], qr_head := 0\<rparr>"
      by (simp add: grow_ring_def Let_def)
    have "ring_slot (grow_ring ring) i = i \<and>
        qr_entries (grow_ring ring) ! i = qr_entries ring ! ring_slot ring i" if "i < qr_length ring" for i
      using that n by (simp add: g ring_slot_def)
    then show ?thesis
      using assms n by (auto simp: ring_ok_def ring_list_def g simp del: upt_Suc)
  next
    case False
    with assms show ?thesis
      by (simp add: grow_ring_def ring_ok_def)
  qed
  then show "ring_ok (grow_ring ring)" "ring_list (grow_ring ring) = ring_list ring"
    "qr_length (grow_ring ring) = qr_length ring"
    "qr_length ring < length (qr_entries (grow_ring ring))" by blast+
qed

lemma append_ring:
  assumes "ring_ok ring"
  shows "ring_ok (appendQueueRing ring x) \<and> ring_list (appendQueueRing ring x) = ring_list ring @ [x]"
proof -
  define g where "g = grow_ring ring"
  note gr = grow_ring_facts [OF assms, folded g_def]
  have ne: "qr_entries g \<noteq> []" using gr(4) by auto
  have a: "appendQueueRing ring x = g\<lparr>qr_entries := (qr_entries g)[ring_slot g (qr_length g) := Some x],
      qr_length := qr_length g + 1\<rparr>"
    by (simp add: appendQueueRing_def g_def Let_def)
  have slot: "ring_slot (appendQueueRing ring x) i = ring_slot g i" for i
    by (simp add: a ring_slot_def)
  have at: "qr_entries (appendQueueRing ring x) ! ring_slot g i =
      (if i = qr_length g then Some x else qr_entries g ! ring_slot g i)" if "i \<le> qr_length g" for i
    using that gr(3,4) ring_slot_less [OF ne] slot_inj [of "qr_head g" i "length (qr_entries g)" "qr_length g"]
    by (auto simp: a ring_slot_def nth_list_update)
  have "ring_ok (appendQueueRing ring x)"
    unfolding ring_ok_def
  proof (intro conjI allI impI)
    show "qr_length (appendQueueRing ring x) \<le> length (qr_entries (appendQueueRing ring x))"
      using gr(3,4) by (simp add: a)
    show "if qr_entries (appendQueueRing ring x) = [] then qr_head (appendQueueRing ring x) = 0
        else qr_head (appendQueueRing ring x) < length (qr_entries (appendQueueRing ring x))"
      using gr(1) ne by (simp add: a ring_ok_def)
    fix i assume "i < qr_length (appendQueueRing ring x)"
    then have "i \<le> qr_length g" by (simp add: a)
    then show "qr_entries (appendQueueRing ring x) ! ring_slot (appendQueueRing ring x) i \<noteq> None"
      unfolding slot at [OF \<open>i \<le> qr_length g\<close>] using gr(1) by (auto simp: ring_ok_def)
  qed
  moreover have "ring_list (appendQueueRing ring x) = ring_list g @ [x]"
  proof -
    have "map (\<lambda>i. the (qr_entries (appendQueueRing ring x) ! ring_slot g i)) [0..<qr_length g] =
        ring_list g"
      unfolding ring_list_def using at by (intro map_cong) auto
    moreover have "qr_length (appendQueueRing ring x) = Suc (qr_length g)" by (simp add: a)
    ultimately show ?thesis
      using at [of "qr_length g"] by (simp add: ring_list_def slot)
  qed
  ultimately show ?thesis using gr(2) by simp
qed

lemma dequeue_ring:
  assumes "ring_ok ring"
  shows "ring_ok (snd (dequeueQueueRing ring)) \<and>
    ring_list (snd (dequeueQueueRing ring)) = tl (ring_list ring) \<and>
    fst (dequeueQueueRing ring) = (case ring_list ring of [] \<Rightarrow> None | x # _ \<Rightarrow> Some x)"
proof (cases "qr_length ring")
  case 0
  with assms show ?thesis by (simp add: dequeueQueueRing_def ring_list_def)
next
  case (Suc l)
  let ?n = "length (qr_entries ring)"
  have n: "qr_entries ring \<noteq> []" "Suc l \<le> ?n" "qr_head ring < ?n"
    using assms Suc by (auto simp: ring_ok_def split: if_splits)
  have rl: "ring_list ring = the (qr_entries ring ! qr_head ring) #
      map (\<lambda>i. the (qr_entries ring ! ring_slot ring (Suc i))) [0..<l]"
    using n(3) Suc by (simp add: ring_list_def ring_slot_def upt_conv_Cons map_Suc_upt [symmetric] del: upt_Suc)
  have hd: "qr_entries ring ! qr_head ring \<noteq> None"
    using assms n(3) Suc by (fastforce simp: ring_ok_def ring_slot_def)
  have keep: "(qr_entries ring)[qr_head ring := None] ! (((qr_head ring + 1) mod ?n + i) mod ?n) =
      qr_entries ring ! ring_slot ring (Suc i)" if "i < l" for i
  proof -
    have "((qr_head ring + 1) mod ?n + i) mod ?n = ring_slot ring (Suc i)"
      by (simp add: ring_slot_def mod_simps)
    moreover have "ring_slot ring (Suc i) \<noteq> qr_head ring"
      using slot_inj [of "qr_head ring" "Suc i" ?n 0] that n by (auto simp: ring_slot_def)
    ultimately show ?thesis by simp
  qed
  show ?thesis
  proof (cases "l = 0")
    case True
    with rl hd Suc show ?thesis
      by (auto simp: dequeueQueueRing_def ring_ok_def ring_list_def)
  next
    case False
    then have d: "dequeueQueueRing ring = (qr_entries ring ! qr_head ring,
        \<lparr>qr_entries = (qr_entries ring)[qr_head ring := None], qr_head = (qr_head ring + 1) mod ?n,
         qr_length = l\<rparr>)"
      using Suc by (simp add: dequeueQueueRing_def Let_def)
    have "ring_ok (snd (dequeueQueueRing ring))"
      unfolding d snd_conv
    proof (rule ring_okI)
      fix i assume "i < l"
      then show "(qr_entries ring)[qr_head ring := None] ! (((qr_head ring + 1) mod ?n + i) mod
          length ((qr_entries ring)[qr_head ring := None])) \<noteq> None"
        using keep assms Suc by (simp add: ring_ok_def)
    qed (use n in auto)
    moreover have "ring_list (snd (dequeueQueueRing ring)) = tl (ring_list ring)"
      unfolding rl using keep by (simp add: d ring_list_def ring_slot_def)
    ultimately show ?thesis
      using rl hd d by auto
  qed
qed

lemma peek_ring:
  assumes "ring_ok ring"
  shows "peekQueueRing ring = (case ring_list ring of [] \<Rightarrow> None | x # _ \<Rightarrow> Some x)"
proof -
  have "peekQueueRing ring = fst (dequeueQueueRing ring)"
    by (simp add: peekQueueRing_def dequeueQueueRing_def Let_def)
  with dequeue_ring [OF assms] show ?thesis by simp
qed

interpretation ring: fifo createQueueRing appendQueueRing dequeueQueueRing peekQueueRing ring_list ring_ok
proof
  show "ring_ok createQueueRing" "ring_list createQueueRing = []"
    by (simp_all add: createQueueRing_def ring_ok_def ring_list_def)
qed (simp_all add: append_ring dequeue_ring peek_ring)

section \<open>Queue entries and priorities\<close>

datatype QueuePriority = Background | Normal | Foreground

fun priority_rank :: "QueuePriority \<Rightarrow> int" where
  "priority_rank Background = -1"
| "priority_rank Normal = 0"
| "priority_rank Foreground = 1"

instantiation QueuePriority :: linorder
begin

definition less_eq_QueuePriority :: "QueuePriority \<Rightarrow> QueuePriority \<Rightarrow> bool" where
  "p \<le> q \<longleftrightarrow> priority_rank p \<le> priority_rank q"

definition less_QueuePriority :: "QueuePriority \<Rightarrow> QueuePriority \<Rightarrow> bool" where
  "p < q \<longleftrightarrow> priority_rank p < priority_rank q"

instance
proof
  fix p q :: QueuePriority
  assume "p \<le> q" "q \<le> p"
  then show "p = q"
    by (cases p; cases q) (simp_all add: less_eq_QueuePriority_def)
qed (auto simp: less_eq_QueuePriority_def less_QueuePriority_def)

end

text \<open>
  An entry is identified by its sequence number, which the queue takes from a global counter; the
  closures it carries (task, settlers, timers) are opaque to the queue and not fields here.
\<close>

record QueueEntry =
  en_queued :: bool
  en_enqueuedAt :: int
  en_sequence :: nat
  en_priority :: QueuePriority
  en_warnAfterMs :: int
  en_queuedAheadAtEnqueue :: nat
  en_activeAheadAtEnqueue :: nat

record LaneQueue =
  lq_background :: "QueueEntry QueueRing"
  lq_normal :: "QueueEntry QueueRing"
  lq_foreground :: "QueueEntry QueueRing"
  lq_length :: nat

definition createLaneQueue :: LaneQueue where
  "createLaneQueue = \<lparr>lq_background = createQueueRing, lq_normal = createQueueRing,
     lq_foreground = createQueueRing, lq_length = 0\<rparr>"

fun getPriorityRing :: "LaneQueue \<Rightarrow> QueuePriority \<Rightarrow> QueueEntry QueueRing" where
  "getPriorityRing q Foreground = lq_foreground q"
| "getPriorityRing q Background = lq_background q"
| "getPriorityRing q Normal = lq_normal q"

fun setPriorityRing :: "LaneQueue \<Rightarrow> QueuePriority \<Rightarrow> QueueEntry QueueRing \<Rightarrow> LaneQueue" where
  "setPriorityRing q Foreground ring = q\<lparr>lq_foreground := ring\<rparr>"
| "setPriorityRing q Background ring = q\<lparr>lq_background := ring\<rparr>"
| "setPriorityRing q Normal ring = q\<lparr>lq_normal := ring\<rparr>"

text \<open>The work queued ahead of the entry, and the queue with the entry.\<close>

definition enqueueLaneQueue :: "LaneQueue \<Rightarrow> QueueEntry \<Rightarrow> nat \<times> LaneQueue" where
  "enqueueLaneQueue q entry =
     (let ring = getPriorityRing q (en_priority entry);
          queuedAhead = qr_length ring +
            (if priority_rank (en_priority entry) \<le> 0 then qr_length (lq_foreground q) else 0) +
            (if priority_rank (en_priority entry) < 0 then qr_length (lq_normal q) else 0)
      in (queuedAhead, (setPriorityRing q (en_priority entry)
            (appendQueueRing ring (entry\<lparr>en_queued := True\<rparr>)))\<lparr>lq_length := lq_length q + 1\<rparr>))"

definition peekLaneQueue :: "LaneQueue \<Rightarrow> QueueEntry option" where
  "peekLaneQueue q =
     (case peekQueueRing (lq_foreground q) of Some e \<Rightarrow> Some e
      | None \<Rightarrow> (case peekQueueRing (lq_normal q) of Some e \<Rightarrow> Some e
         | None \<Rightarrow> peekQueueRing (lq_background q)))"

definition dequeueLaneQueue :: "LaneQueue \<Rightarrow> QueueEntry option \<times> LaneQueue" where
  "dequeueLaneQueue q =
     (let (entry, q') =
        (case dequeueQueueRing (lq_foreground q) of
           (Some e, ring) \<Rightarrow> (Some e, q\<lparr>lq_foreground := ring\<rparr>)
         | (None, _) \<Rightarrow>
             (case dequeueQueueRing (lq_normal q) of
                (Some e, ring) \<Rightarrow> (Some e, q\<lparr>lq_normal := ring\<rparr>)
              | (None, _) \<Rightarrow>
                  (case dequeueQueueRing (lq_background q) of
                     (Some e, ring) \<Rightarrow> (Some e, q\<lparr>lq_background := ring\<rparr>)
                   | (None, _) \<Rightarrow> (None, q))))
      in case entry of None \<Rightarrow> (None, q')
         | Some e \<Rightarrow> (Some (e\<lparr>en_queued := False\<rparr>), q'\<lparr>lq_length := lq_length q' - 1\<rparr>))"

definition removeLaneQueueEntry :: "LaneQueue \<Rightarrow> QueueEntry \<Rightarrow> bool \<times> LaneQueue" where
  "removeLaneQueueEntry q entry =
     (if \<not> en_queued entry then (False, q)
      else
        let ring = getPriorityRing q (en_priority entry);
            count = qr_length ring
        in (True, (setPriorityRing q (en_priority entry)
              (rotate_queue dequeueQueueRing appendQueueRing
                (\<lambda>candidate. en_sequence candidate \<noteq> en_sequence entry) count ring))
              \<lparr>lq_length := lq_length q - 1\<rparr>))"

section \<open>A lane queue is a list ordered by priority and age\<close>

definition lane_list :: "LaneQueue \<Rightarrow> QueueEntry list" where
  "lane_list q = ring_list (lq_foreground q) @ ring_list (lq_normal q) @ ring_list (lq_background q)"

definition priority_ring_ok :: "QueuePriority \<Rightarrow> QueueEntry QueueRing \<Rightarrow> bool" where
  "priority_ring_ok p ring \<longleftrightarrow> ring_ok ring \<and>
     (\<forall>e \<in> set (ring_list ring). en_priority e = p \<and> en_queued e) \<and>
     sorted_wrt (\<lambda>a b. en_sequence a < en_sequence b) (ring_list ring)"

definition lane_queue_ok :: "LaneQueue \<Rightarrow> bool" where
  "lane_queue_ok q \<longleftrightarrow> (\<forall>p. priority_ring_ok p (getPriorityRing q p)) \<and>
     lq_length q = length (lane_list q) \<and> distinct (map en_sequence (lane_list q))"

text \<open>The order in which entries leave a lane: foreground first, then the oldest.\<close>

definition starts_before :: "QueueEntry \<Rightarrow> QueueEntry \<Rightarrow> bool" where
  "starts_before a b \<longleftrightarrow> en_priority b < en_priority a \<or>
     en_priority a = en_priority b \<and> en_sequence a < en_sequence b"

lemma priorities_all: "(\<forall>p. P p) \<longleftrightarrow> P Foreground \<and> P Normal \<and> P Background"
  by (metis QueuePriority.exhaust)

lemma lane_queue_ok_rings:
  assumes "lane_queue_ok q"
  shows "priority_ring_ok Foreground (lq_foreground q)" "priority_ring_ok Normal (lq_normal q)"
    "priority_ring_ok Background (lq_background q)"
  using assms by (simp_all add: lane_queue_ok_def priorities_all)

lemma lane_queue_ok_create [simp]:
  "lane_queue_ok createLaneQueue" "lane_list createLaneQueue = []" "lq_length createLaneQueue = 0"
  by (simp_all add: lane_queue_ok_def lane_list_def createLaneQueue_def priorities_all
      priority_ring_ok_def ring.ok_new ring.elems_new)

lemma priority_ring_sorted:
  assumes "priority_ring_ok p ring"
  shows "sorted_wrt starts_before (ring_list ring)"
proof (rule sorted_wrt_mono_rel)
  show "sorted_wrt (\<lambda>a b. en_sequence a < en_sequence b) (ring_list ring)"
    using assms by (simp add: priority_ring_ok_def)
qed (use assms in \<open>auto simp: priority_ring_ok_def starts_before_def\<close>)

lemma lane_list_sorted:
  assumes "lane_queue_ok q"
  shows "sorted_wrt starts_before (lane_list q)"
proof -
  note rings = lane_queue_ok_rings [OF assms]
  have "starts_before a b" if "en_priority b < en_priority a" for a b
    using that by (simp add: starts_before_def)
  moreover have "\<forall>e \<in> set (ring_list (lq_foreground q)). en_priority e = Foreground"
    "\<forall>e \<in> set (ring_list (lq_normal q)). en_priority e = Normal"
    "\<forall>e \<in> set (ring_list (lq_background q)). en_priority e = Background"
    using rings by (simp_all add: priority_ring_ok_def)
  ultimately show ?thesis
    using priority_ring_sorted [OF rings(1)] priority_ring_sorted [OF rings(2)]
      priority_ring_sorted [OF rings(3)]
    by (auto simp: lane_list_def sorted_wrt_append less_QueuePriority_def)
qed

lemma peekLaneQueue_head:
  assumes "lane_queue_ok q"
  shows "peekLaneQueue q = (case lane_list q of [] \<Rightarrow> None | e # _ \<Rightarrow> Some e)"
  using lane_queue_ok_rings [OF assms]
  by (auto simp: peekLaneQueue_def lane_list_def priority_ring_ok_def ring.peek_head split: list.splits)

lemma dequeueLaneQueue_Nil:
  assumes "lane_queue_ok q" "lane_list q = []"
  shows "dequeueLaneQueue q = (None, q)"
proof -
  have "fst (dequeueQueueRing (lq_foreground q)) = None" "fst (dequeueQueueRing (lq_normal q)) = None"
    "fst (dequeueQueueRing (lq_background q)) = None"
    using lane_queue_ok_rings [OF assms(1)] assms(2)
    by (simp_all add: ring.deq_Nil priority_ring_ok_def lane_list_def)
  then show ?thesis
    by (cases "dequeueQueueRing (lq_foreground q)"; cases "dequeueQueueRing (lq_normal q)";
        cases "dequeueQueueRing (lq_background q)") (simp add: dequeueLaneQueue_def)
qed

lemma priority_ring_tl:
  assumes "priority_ring_ok p ring" "ring_list ring = e # es"
  obtains ring' where "dequeueQueueRing ring = (Some e, ring')" "priority_ring_ok p ring'"
    "ring_list ring' = es"
proof -
  have "ring_ok ring" using assms(1) by (simp add: priority_ring_ok_def)
  from this assms(2) obtain ring' where "dequeueQueueRing ring = (Some e, ring')" "ring_ok ring'"
      "ring_list ring' = es"
    by (rule ring.deq_Cons)
  with assms show thesis
    by (intro that) (auto simp: priority_ring_ok_def)
qed

lemma dequeueLaneQueue_Cons:
  assumes ok: "lane_queue_ok q" and l: "lane_list q = e # es"
  obtains q' where "dequeueLaneQueue q = (Some (e\<lparr>en_queued := False\<rparr>), q')" "lane_queue_ok q'"
    "lane_list q' = es"
proof -
  note rings = lane_queue_ok_rings [OF ok]
  have len: "lq_length q = Suc (length es)" "distinct (map en_sequence (e # es))"
    using ok l by (simp_all add: lane_queue_ok_def)
  have none: "fst (dequeueQueueRing (getPriorityRing q p)) = None"
    if "ring_list (getPriorityRing q p) = []" for p
    using that ok by (simp add: lane_queue_ok_def priority_ring_ok_def ring.deq_Nil)
  show thesis
  proof (cases "ring_list (lq_foreground q)")
    case (Cons x xs)
    with l have e: "x = e" "es = xs @ ring_list (lq_normal q) @ ring_list (lq_background q)"
      by (simp_all add: lane_list_def)
    obtain ring' where "dequeueQueueRing (lq_foreground q) = (Some x, ring')"
      "priority_ring_ok Foreground ring'" "ring_list ring' = xs"
      by (rule priority_ring_tl [OF rings(1) Cons])
    with e len rings show thesis
      by (intro that [of "q\<lparr>lq_foreground := ring', lq_length := lq_length q - 1\<rparr>"])
        (simp_all add: dequeueLaneQueue_def lane_queue_ok_def priorities_all lane_list_def)
  next
    case Nil
    note fg = this
    obtain r0 where f0: "dequeueQueueRing (lq_foreground q) = (None, r0)"
      using none [of Foreground] fg by (cases "dequeueQueueRing (lq_foreground q)") simp
    show thesis
    proof (cases "ring_list (lq_normal q)")
      case (Cons x xs)
      with l fg have e: "x = e" "es = xs @ ring_list (lq_background q)"
        by (simp_all add: lane_list_def)
      obtain ring' where "dequeueQueueRing (lq_normal q) = (Some x, ring')"
        "priority_ring_ok Normal ring'" "ring_list ring' = xs"
        by (rule priority_ring_tl [OF rings(2) Cons])
      with e len rings f0 fg show thesis
        by (intro that [of "q\<lparr>lq_normal := ring', lq_length := lq_length q - 1\<rparr>"])
          (simp_all add: dequeueLaneQueue_def lane_queue_ok_def priorities_all lane_list_def)
    next
      case Nil
      obtain r1 where f1: "dequeueQueueRing (lq_normal q) = (None, r1)"
        using none [of Normal] Nil by (cases "dequeueQueueRing (lq_normal q)") simp
      from l fg Nil have b: "ring_list (lq_background q) = e # es"
        by (simp add: lane_list_def)
      obtain ring' where "dequeueQueueRing (lq_background q) = (Some e, ring')"
        "priority_ring_ok Background ring'" "ring_list ring' = es"
        by (rule priority_ring_tl [OF rings(3) b])
      with len rings f0 f1 fg Nil show thesis
        by (intro that [of "q\<lparr>lq_background := ring', lq_length := lq_length q - 1\<rparr>"])
          (simp_all add: dequeueLaneQueue_def lane_queue_ok_def priorities_all lane_list_def)
    qed
  qed
qed

section \<open>Enqueue and removal\<close>

definition at_least :: "QueuePriority \<Rightarrow> QueueEntry \<Rightarrow> bool" where
  "at_least p e \<longleftrightarrow> p \<le> en_priority e"

lemma at_least_Foreground: "at_least Foreground e \<longleftrightarrow> en_priority e = Foreground"
  and at_least_Normal: "at_least Normal e \<longleftrightarrow> en_priority e \<noteq> Background"
  and at_least_Background: "at_least Background e"
  by (cases "en_priority e"; simp add: at_least_def less_eq_QueuePriority_def)+

lemma lane_filter_at_least:
  assumes "lane_queue_ok q"
  shows "filter (at_least Foreground) (lane_list q) = ring_list (lq_foreground q)"
    "filter (at_least Normal) (lane_list q) = ring_list (lq_foreground q) @ ring_list (lq_normal q)"
    "filter (at_least Background) (lane_list q) = lane_list q"
    "filter (\<lambda>e. \<not> at_least Foreground e) (lane_list q) =
       ring_list (lq_normal q) @ ring_list (lq_background q)"
    "filter (\<lambda>e. \<not> at_least Normal e) (lane_list q) = ring_list (lq_background q)"
  using lane_queue_ok_rings [OF assms]
  by (auto simp: lane_list_def priority_ring_ok_def at_least_Foreground at_least_Normal
      at_least_Background filter_id_conv filter_empty_conv)

lemma enqueueLaneQueue_facts:
  assumes ok: "lane_queue_ok q" and fresh: "\<forall>x \<in> set (lane_list q). en_sequence x < en_sequence e"
  shows "lane_queue_ok (snd (enqueueLaneQueue q e))"
    "lane_list (snd (enqueueLaneQueue q e)) =
      filter (at_least (en_priority e)) (lane_list q) @ [e\<lparr>en_queued := True\<rparr>] @
      filter (\<lambda>x. \<not> at_least (en_priority e) x) (lane_list q)"
    "fst (enqueueLaneQueue q e) = length (filter (at_least (en_priority e)) (lane_list q))"
proof -
  note rings = lane_queue_ok_rings [OF ok] and at_least = lane_filter_at_least [OF ok]
  have len: "lq_length q = length (lane_list q)" "distinct (map en_sequence (lane_list q))"
    using ok by (simp_all add: lane_queue_ok_def)
  have app: "priority_ring_ok (en_priority e) (appendQueueRing ring (e\<lparr>en_queued := True\<rparr>)) \<and>
      ring_list (appendQueueRing ring (e\<lparr>en_queued := True\<rparr>)) = ring_list ring @ [e\<lparr>en_queued := True\<rparr>]"
    if "priority_ring_ok (en_priority e) ring" "set (ring_list ring) \<subseteq> set (lane_list q)" for ring
    using that fresh by (auto simp: priority_ring_ok_def ring.ok_enq ring.elems_enq sorted_wrt_append)
  have sub: "set (ring_list (lq_foreground q)) \<subseteq> set (lane_list q)"
    "set (ring_list (lq_normal q)) \<subseteq> set (lane_list q)"
    "set (ring_list (lq_background q)) \<subseteq> set (lane_list q)"
    by (auto simp: lane_list_def)
  have new: "en_sequence e \<notin> en_sequence ` set (lane_list q)"
    using fresh by auto
  show *: "lane_list (snd (enqueueLaneQueue q e)) =
      filter (at_least (en_priority e)) (lane_list q) @ [e\<lparr>en_queued := True\<rparr>] @
      filter (\<lambda>x. \<not> at_least (en_priority e) x) (lane_list q)"
    using app [of "getPriorityRing q (en_priority e)"] rings sub
    by (cases "en_priority e") (simp_all add: at_least [unfolded lane_list_def] enqueueLaneQueue_def Let_def
        lane_list_def at_least_Background del: filter_append)
  show "fst (enqueueLaneQueue q e) = length (filter (at_least (en_priority e)) (lane_list q))"
    by (cases "en_priority e") (simp_all add: at_least [unfolded lane_list_def] enqueueLaneQueue_def Let_def
        lane_list_def del: filter_append)
  have "length (lane_list (snd (enqueueLaneQueue q e))) = Suc (length (lane_list q))"
    unfolding * using sum_length_filter_compl [of "at_least (en_priority e)" "lane_list q"] by simp
  moreover have "mset (lane_list (snd (enqueueLaneQueue q e))) = mset (lane_list q) + {#e\<lparr>en_queued := True\<rparr>#}"
    unfolding * by (simp add: multiset_partition [symmetric])
  then have "mset (map en_sequence (lane_list (snd (enqueueLaneQueue q e)))) =
      mset (en_sequence e # map en_sequence (lane_list q))"
    by simp
  then have "distinct (map en_sequence (lane_list (snd (enqueueLaneQueue q e))))"
    using len(2) new mset_eq_imp_distinct_iff by fastforce
  ultimately show "lane_queue_ok (snd (enqueueLaneQueue q e))"
    using app [of "getPriorityRing q (en_priority e)"] rings sub len(1)
    by (cases "en_priority e") (simp_all add: lane_queue_ok_def priorities_all enqueueLaneQueue_def Let_def)
qed

lemma filter_key_single:
  assumes "distinct (map f xs)" "e \<in> set xs"
  shows "filter (\<lambda>x. f x = f e) xs = [e]"
  using assms by (induction xs) (auto simp: filter_empty_conv, metis image_eqI)

lemma removeLaneQueueEntry_facts:
  assumes ok: "lane_queue_ok q" and e: "e \<in> set (lane_list q)"
  shows "fst (removeLaneQueueEntry q e)" "lane_queue_ok (snd (removeLaneQueueEntry q e))"
    "lane_list (snd (removeLaneQueueEntry q e)) =
      filter (\<lambda>x. en_sequence x \<noteq> en_sequence e) (lane_list q)"
proof -
  note rings = lane_queue_ok_rings [OF ok]
  let ?keep = "\<lambda>x. en_sequence x \<noteq> en_sequence e"
  let ?rot = "\<lambda>ring. rotate_queue dequeueQueueRing appendQueueRing ?keep (qr_length ring) ring"
  have queued: "en_queued e" and dist: "distinct (map en_sequence (lane_list q))"
    and len: "lq_length q = length (lane_list q)"
    using ok e rings by (auto simp: lane_queue_ok_def lane_list_def priority_ring_ok_def)
  then show "fst (removeLaneQueueEntry q e)"
    by (simp add: removeLaneQueueEntry_def Let_def)
  have rot: "priority_ring_ok p (?rot ring) \<and> ring_list (?rot ring) = filter ?keep (ring_list ring)"
    if "priority_ring_ok p ring" for p ring
    using that ring.rotate_filter [of ring "qr_length ring" ?keep]
    by (auto simp: priority_ring_ok_def sorted_wrt_filter)
  have other: "filter ?keep (ring_list (getPriorityRing q p)) = ring_list (getPriorityRing q p)"
    if "p \<noteq> en_priority e" for p
  proof -
    have "e \<in> set (ring_list (getPriorityRing q (en_priority e)))"
      using e rings by (auto simp: lane_list_def priority_ring_ok_def)
    then have "x \<noteq> e \<longrightarrow> en_sequence x \<noteq> en_sequence e" if "x \<in> set (lane_list q)" for x
      using dist e that by (auto simp: distinct_map inj_on_def)
    moreover have "e \<notin> set (ring_list (getPriorityRing q p))"
      using that rings by (cases p) (auto simp: priority_ring_ok_def)
    moreover have "set (ring_list (getPriorityRing q p)) \<subseteq> set (lane_list q)"
      by (cases p) (auto simp: lane_list_def)
    ultimately show ?thesis
      by (auto simp: filter_id_conv)
  qed
  show *: "lane_list (snd (removeLaneQueueEntry q e)) = filter ?keep (lane_list q)"
    using rot [of "en_priority e" "getPriorityRing q (en_priority e)"] rings queued
      other [of Foreground] other [of Normal] other [of Background]
    by (cases "en_priority e") (auto simp: removeLaneQueueEntry_def Let_def lane_list_def)
  have "length (lane_list q) = Suc (length (filter ?keep (lane_list q)))"
  proof -
    have "filter (\<lambda>x. \<not> ?keep x) (lane_list q) = [e]"
      using filter_key_single [OF dist e] by simp
    then show ?thesis
      using sum_length_filter_compl [of ?keep "lane_list q"] by simp
  qed
  moreover have "distinct (map en_sequence (filter ?keep (lane_list q)))"
    using dist by (simp add: distinct_map_filter)
  ultimately show "lane_queue_ok (snd (removeLaneQueueEntry q e))"
    using rot [of "en_priority e" "getPriorityRing q (en_priority e)"] rings queued len
    unfolding lane_queue_ok_def *
    by (cases "en_priority e") (simp_all add: removeLaneQueueEntry_def Let_def priorities_all)
qed

end
