(* ===== verification/Command_Lanes.thy ===== *)
theory Command_Lanes
  imports Lane_Queue
begin

text \<open>
  The runtime state of the command lanes and the capacity groups over them
  (\<open>src/process/command-queue.state.ts\<close>, \<open>src/process/command-queue.capacity-groups.ts\<close>).

  Lane states are objects that tasks capture and that can be removed from the registry while a
  task still holds them, so they live in a store: \<open>qs_lanes\<close> maps a lane to the address of its
  state. The state also keeps what the closures of started tasks hold (\<open>qs_running\<close>) and, as
  ghost output, the settlements and wait notifications the queue has made.
\<close>

section \<open>State\<close>

record LaneState =
  ls_lane :: string
  ls_queue :: LaneQueue
  ls_activeTaskIds :: "nat list"
  ls_maxConcurrent :: nat
  ls_draining :: bool
  ls_generation :: nat

record LaneGroupState =
  lg_group :: string
  lg_budget :: nat
  lg_members :: "string list"
  lg_reservations :: "(string, nat) jsmap"

text \<open>\<open>CommandLaneTaskMarker\<close> with the captured state and entry.\<close>

record RunningTask =
  rt_lane :: string
  rt_taskId :: nat
  rt_generation :: nat
  rt_state :: nat
  rt_entry :: QueueEntry

datatype settlement = Resolved | RejectedByTask | LaneCleared | QueuedAborted

record QueueState =
  qs_lanes :: "(string, nat) jsmap"
  qs_store :: "nat \<Rightarrow> LaneState"
  qs_nextRef :: nat
  qs_nextTaskId :: nat
  qs_nextQueueSequence :: nat
  qs_groups :: "(string, LaneGroupState) jsmap"
  qs_groupByLane :: "(string, string) jsmap"
  qs_running :: "RunningTask list"
  qs_settled :: "(nat \<times> settlement) list"
  qs_waits :: "(nat \<times> int \<times> nat) list"

definition CommandLane_Main :: string where "CommandLane_Main = ''main''"
definition CommandLane_Cron :: string where "CommandLane_Cron = ''cron''"
definition CommandLane_Subagent :: string where "CommandLane_Subagent = ''subagent''"
definition CommandLane_Nested :: string where "CommandLane_Nested = ''nested''"

definition normalizeLane :: "string \<Rightarrow> string" where
  "normalizeLane lane = (let t = js_trim lane in if t = [] then CommandLane_Main else t)"

definition new_lane_state :: "string \<Rightarrow> LaneState" where
  "new_lane_state lane = \<lparr>ls_lane = lane, ls_queue = createLaneQueue, ls_activeTaskIds = [],
     ls_maxConcurrent = 1, ls_draining = False, ls_generation = 0\<rparr>"

definition initial_queue_state :: QueueState where
  "initial_queue_state = \<lparr>qs_lanes = [], qs_store = (\<lambda>_. new_lane_state []), qs_nextRef = 0,
     qs_nextTaskId = 1, qs_nextQueueSequence = 1, qs_groups = [], qs_groupByLane = [],
     qs_running = [], qs_settled = [], qs_waits = []\<rparr>"

text \<open>The state of a lane that is in the registry.\<close>

definition lane_at :: "QueueState \<Rightarrow> string \<Rightarrow> LaneState option" where
  "lane_at s lane = map_option (qs_store s) (jm_get (qs_lanes s) lane)"

definition set_state :: "nat \<Rightarrow> LaneState \<Rightarrow> QueueState \<Rightarrow> QueueState" where
  "set_state ref st s = s\<lparr>qs_store := (qs_store s)(ref := st)\<rparr>"

definition getLaneState :: "string \<Rightarrow> QueueState \<Rightarrow> nat \<times> QueueState" where
  "getLaneState lane s =
     (case jm_get (qs_lanes s) lane of
        Some existing \<Rightarrow> (existing, s)
      | None \<Rightarrow> (qs_nextRef s, s\<lparr>qs_store := (qs_store s)(qs_nextRef s := new_lane_state lane),
          qs_nextRef := qs_nextRef s + 1, qs_lanes := jm_set lane (qs_nextRef s) (qs_lanes s)\<rparr>))"

section \<open>Capacity groups\<close>

record CommandLaneGroupSpec =
  gs_budget :: int
  gs_members :: "string list"
  gs_reservations :: "(string \<times> int) list"

datatype group_error = IneligibleLane string | ReservesNonMember string | OverReserved nat nat

definition GROUP_INELIGIBLE_LANES :: "string list" where
  "GROUP_INELIGIBLE_LANES =
     [CommandLane_Cron, CommandLane_Main, CommandLane_Subagent, CommandLane_Nested]"

definition GROUP_INELIGIBLE_PREFIXES :: "string list" where
  "GROUP_INELIGIBLE_PREFIXES = [''session:'', ''nested:'', ''context-engine-turn-maintenance:'']"

definition group_eligible :: "string \<Rightarrow> bool" where
  "group_eligible lane \<longleftrightarrow> \<not> List.member GROUP_INELIGIBLE_LANES lane \<and>
     \<not> list_ex (\<lambda>prefix. js_startsWith lane prefix) GROUP_INELIGIBLE_PREFIXES"

definition getLaneGroup :: "QueueState \<Rightarrow> string \<Rightarrow> LaneGroupState option" where
  "getLaneGroup s lane =
     (case jm_get (qs_groupByLane s) lane of None \<Rightarrow> None
      | Some groupId \<Rightarrow> if groupId = [] then None else jm_get (qs_groups s) groupId)"

definition getMemberActiveCount :: "QueueState \<Rightarrow> string \<Rightarrow> nat" where
  "getMemberActiveCount s lane =
     (case lane_at s lane of None \<Rightarrow> 0 | Some st \<Rightarrow> length (ls_activeTaskIds st))"

definition reservation :: "LaneGroupState \<Rightarrow> string \<Rightarrow> nat" where
  "reservation g lane = (case jm_get (lg_reservations g) lane of None \<Rightarrow> 0 | Some n \<Rightarrow> n)"

text \<open>\<open>{active, reserved}\<close>; the subtraction of naturals is \<open>Math.max(0, ...)\<close>.\<close>

definition readGroupCapacity :: "QueueState \<Rightarrow> LaneGroupState \<Rightarrow> nat \<times> nat" where
  "readGroupCapacity s g =
     (sum_list (map (getMemberActiveCount s) (lg_members g)),
      sum_list (map (\<lambda>m. reservation g m - getMemberActiveCount s m) (lg_members g)))"

datatype block_reason = BlockedByLane | GroupBudget | SiblingReservation

definition resolveGroupBlockReason ::
  "QueueState \<Rightarrow> LaneGroupState \<Rightarrow> string \<Rightarrow> nat \<times> nat \<Rightarrow> block_reason option" where
  "resolveGroupBlockReason s g lane capacity =
     (case capacity of (active, reserved) \<Rightarrow>
        if lg_budget g \<le> active then Some GroupBudget
        else if getMemberActiveCount s lane < reservation g lane then None
        else if active + reserved < lg_budget g then None else Some SiblingReservation)"

definition canAdmitInGroup :: "QueueState \<Rightarrow> string \<Rightarrow> bool" where
  "canAdmitInGroup s lane =
     (case getLaneGroup s lane of None \<Rightarrow> True
      | Some g \<Rightarrow> resolveGroupBlockReason s g lane (readGroupCapacity s g) = None)"

text \<open>A JavaScript set built from a list keeps the first occurrences in order.\<close>

definition js_set_of :: "'a list \<Rightarrow> 'a list" where
  "js_set_of xs = rev (remdups (rev xs))"

fun collect_reservations ::
  "string list \<Rightarrow> (string \<times> int) list \<Rightarrow> (string, nat) jsmap \<Rightarrow> nat
    \<Rightarrow> group_error + ((string, nat) jsmap \<times> nat)" where
  "collect_reservations members [] reservations reservedTotal = Inr (reservations, reservedTotal)"
| "collect_reservations members ((rawLane, n) # rest) reservations reservedTotal =
     (let member = normalizeLane rawLane; reserved = nat (max 0 n)
      in if member \<notin> set members then Inl (ReservesNonMember member)
         else collect_reservations members rest (jm_set member reserved reservations)
           (reservedTotal + reserved))"

definition validateCommandLaneGroupSpec ::
  "string \<Rightarrow> CommandLaneGroupSpec \<Rightarrow> group_error + LaneGroupState" where
  "validateCommandLaneGroupSpec groupId spec =
     (let members = map normalizeLane (gs_members spec)
      in case find (\<lambda>m. \<not> group_eligible m) members of
           Some m \<Rightarrow> Inl (IneligibleLane m)
         | None \<Rightarrow>
             (case collect_reservations members (gs_reservations spec) [] 0 of
                Inl e \<Rightarrow> Inl e
              | Inr (reservations, reservedTotal) \<Rightarrow>
                  (let budget = nat (max 0 (gs_budget spec))
                   in if budget < reservedTotal then Inl (OverReserved reservedTotal budget)
                      else Inr \<lparr>lg_group = groupId, lg_budget = budget,
                        lg_members = js_set_of members, lg_reservations = reservations\<rparr>)))"

text \<open>Take a lane out of the group that owned it so far.\<close>

definition detach_member :: "string \<Rightarrow> string \<Rightarrow> QueueState \<Rightarrow> QueueState" where
  "detach_member groupId lane s =
     (case jm_get (qs_groupByLane s) lane of None \<Rightarrow> s
      | Some owner \<Rightarrow>
          if owner \<noteq> [] \<and> owner \<noteq> groupId then
            (case jm_get (qs_groups s) owner of None \<Rightarrow> s
             | Some g \<Rightarrow> s\<lparr>qs_groups := jm_set owner
                 (g\<lparr>lg_members := removeAll lane (lg_members g)\<rparr>) (qs_groups s)\<rparr>)
          else s)"

definition forget_members :: "string list \<Rightarrow> QueueState \<Rightarrow> QueueState" where
  "forget_members lanes s = s\<lparr>qs_groupByLane := fold jm_delete lanes (qs_groupByLane s)\<rparr>"

definition installCommandLaneGroup :: "LaneGroupState \<Rightarrow> QueueState \<Rightarrow> QueueState" where
  "installCommandLaneGroup new s =
     (let s1 = (case jm_get (qs_groups s) (lg_group new) of None \<Rightarrow> s
                | Some previous \<Rightarrow> forget_members (lg_members previous) s);
          s2 = fold (detach_member (lg_group new)) (lg_members new) s1;
          s3 = s2\<lparr>qs_groups := jm_set (lg_group new) new (qs_groups s2)\<rparr>
      in s3\<lparr>qs_groupByLane := fold (\<lambda>m. jm_set m (lg_group new)) (lg_members new)
             (qs_groupByLane s3)\<rparr>)"

text \<open>
  The member whose head goes first: highest priority, then oldest, then by name, among the
  members that can take a task now.
\<close>

definition lane_candidate :: "QueueState \<Rightarrow> LaneGroupState \<Rightarrow> string \<Rightarrow> (string \<times> int \<times> nat) option"
where
  "lane_candidate s g lane =
     (case lane_at s lane of None \<Rightarrow> None
      | Some st \<Rightarrow>
          (case peekLaneQueue (ls_queue st) of None \<Rightarrow> None
           | Some head \<Rightarrow>
               if ls_draining st \<or> ls_maxConcurrent st \<le> length (ls_activeTaskIds st) then None
               else if resolveGroupBlockReason s g lane (readGroupCapacity s g) \<noteq> None then None
               else Some (lane, priority_rank (en_priority head), en_sequence head)))"

fun better_candidate :: "string \<times> int \<times> nat \<Rightarrow> string \<times> int \<times> nat \<Rightarrow> bool" where
  "better_candidate (lane, prio, sequence) (lane', prio', sequence') \<longleftrightarrow>
     prio' < prio \<or> prio = prio' \<and>
       (sequence < sequence' \<or> sequence = sequence' \<and> lane < lane')"

definition select_candidate ::
  "(string \<times> int \<times> nat) option \<Rightarrow> (string \<times> int \<times> nat) option \<Rightarrow> (string \<times> int \<times> nat) option" where
  "select_candidate selected candidate =
     (case candidate of None \<Rightarrow> selected
      | Some c \<Rightarrow>
          (case selected of None \<Rightarrow> Some c
           | Some b \<Rightarrow> if better_candidate c b then Some c else Some b))"

definition resolveNextGroupLane :: "QueueState \<Rightarrow> LaneGroupState \<Rightarrow> string option" where
  "resolveNextGroupLane s g =
     map_option fst (foldl (\<lambda>selected lane. select_candidate selected (lane_candidate s g lane)) None
       (lg_members g))"

end
