(* ===== verification/Command_Queue.thy ===== *)
theory Command_Queue
  imports Command_Lanes
begin

text \<open>
  The operations of the command queue (\<open>src/process/command-queue.ts\<close>): starting queued tasks up to
  the width of their lane and the budget of its group, settling them, clearing and resetting
  lanes, and publishing lane widths and groups in one transaction.

  A started task is opaque: that its promise settled is the operation \<open>settleTask\<close>, which carries
  the outcome and may come in any order. The \<open>onWait\<close> notification is recorded as output and taken
  not to call back into the queue; its clock reads of one operation are one value \<open>now\<close>.
\<close>

section \<open>Lanes\<close>

definition isQuietProbeLane :: "string \<Rightarrow> bool" where
  "isQuietProbeLane lane \<longleftrightarrow> js_startsWith lane ''auth-probe:'' \<or>
     js_startsWith lane ''session:probe-'' \<or>
     js_startsWith lane ''session:temp:setup-inference:probe-setup-inference-''"

definition getLaneDepth :: "LaneState \<Rightarrow> nat" where
  "getLaneDepth st = lq_length (ls_queue st) + length (ls_activeTaskIds st)"

definition scoped_lane :: "string \<Rightarrow> bool" where
  "scoped_lane lane \<longleftrightarrow> js_startsWith lane ''session:'' \<or> js_startsWith lane ''nested:'' \<or>
     js_startsWith lane ''context-engine-turn-maintenance:''"

definition retireIdleScopedCommandLane :: "nat \<Rightarrow> QueueState \<Rightarrow> QueueState" where
  "retireIdleScopedCommandLane ref s =
     (let st = qs_store s ref
      in if ls_draining st \<or> 0 < length (ls_activeTaskIds st) \<or> 0 < lq_length (ls_queue st) \<or>
            ls_maxConcurrent st \<noteq> 1 \<or> \<not> scoped_lane (ls_lane st) then s
         else if jm_get (qs_lanes s) (ls_lane st) = Some ref
           then s\<lparr>qs_lanes := jm_delete (ls_lane st) (qs_lanes s)\<rparr>
         else s)"

text \<open>\<open>completeTask\<close>: whether the task was of the current generation, and the new state.\<close>

definition completeTask :: "nat \<Rightarrow> nat \<Rightarrow> nat \<Rightarrow> QueueState \<Rightarrow> bool \<times> QueueState" where
  "completeTask ref taskId taskGeneration s =
     (let st = qs_store s ref
      in if taskGeneration \<noteq> ls_generation st then (False, s)
         else (True, set_state ref (st\<lparr>ls_activeTaskIds := removeAll taskId (ls_activeTaskIds st)\<rparr>) s))"

definition set_draining :: "nat \<Rightarrow> bool \<Rightarrow> QueueState \<Rightarrow> QueueState" where
  "set_draining ref b s = set_state ref ((qs_store s ref)\<lparr>ls_draining := b\<rparr>) s"

section \<open>Draining\<close>

text \<open>The body of the loop: the task is admitted before anything is called.\<close>

definition start_entry :: "int \<Rightarrow> string \<Rightarrow> nat \<Rightarrow> QueueEntry \<Rightarrow> LaneQueue \<Rightarrow> QueueState \<Rightarrow> QueueState" where
  "start_entry now lane ref entry queue s =
     (let st = qs_store s ref;
          waitedMs = now - en_enqueuedAt entry;
          taskId = qs_nextTaskId s
      in (set_state ref (st\<lparr>ls_queue := queue,
             ls_activeTaskIds := ls_activeTaskIds st @ [taskId]\<rparr>) s)
         \<lparr>qs_nextTaskId := taskId + 1,
          qs_running := qs_running s @ [\<lparr>rt_lane = lane, rt_taskId = taskId,
            rt_generation = ls_generation st, rt_state = ref, rt_entry = entry\<rparr>],
          qs_waits := qs_waits s @ (if en_warnAfterMs entry \<le> waitedMs
            then [(en_sequence entry, waitedMs, en_queuedAheadAtEnqueue entry)] else [])\<rparr>)"

definition may_start :: "nat option \<Rightarrow> string \<Rightarrow> nat \<Rightarrow> nat \<Rightarrow> QueueState \<Rightarrow> bool" where
  "may_start maxStarts lane ref started s \<longleftrightarrow>
     (case maxStarts of None \<Rightarrow> True | Some m \<Rightarrow> started < m) \<and>
     length (ls_activeTaskIds (qs_store s ref)) < ls_maxConcurrent (qs_store s ref) \<and>
     0 < lq_length (ls_queue (qs_store s ref)) \<and> canAdmitInGroup s lane"

text \<open>
  The loop of \<open>drainLane\<close>. A queue whose length disagrees with its rings would make the source
  read \<open>enqueuedAt\<close> of an undefined entry; \<open>lane_queue_ok\<close> excludes it.
\<close>

lemma dequeue_decreases:
  assumes "dequeueLaneQueue q = (Some e, q')"
  shows "lq_length q' = lq_length q - 1"
  using assms by (auto simp: dequeueLaneQueue_def split: prod.splits option.splits)

function drain_loop :: "nat option \<Rightarrow> int \<Rightarrow> string \<Rightarrow> nat \<Rightarrow> nat \<Rightarrow> QueueState \<Rightarrow> nat \<times> QueueState" where
  "drain_loop maxStarts now lane ref started s =
     (if may_start maxStarts lane ref started s then
        (case dequeueLaneQueue (ls_queue (qs_store s ref)) of
           (None, _) \<Rightarrow> (started, s)
         | (Some entry, queue) \<Rightarrow>
             drain_loop maxStarts now lane ref (started + 1) (start_entry now lane ref entry queue s))
      else (started, s))"
  by pat_completeness auto
termination
  by (relation "measure (\<lambda>(_, _, _, ref, _, s). lq_length (ls_queue (qs_store s ref)))")
    (auto simp: start_entry_def set_state_def Let_def may_start_def dest: dequeue_decreases [OF sym])

declare drain_loop.simps [simp del]

definition drainLane :: "nat option \<Rightarrow> int \<Rightarrow> string \<Rightarrow> nat \<Rightarrow> QueueState \<Rightarrow> nat \<times> QueueState" where
  "drainLane maxStarts now lane ref s =
     (if ls_draining (qs_store s ref) then (0, s)
      else
        let (started, s') = drain_loop maxStarts now lane ref 0 (set_draining ref True s)
        in (started, retireIdleScopedCommandLane ref (set_draining ref False s')))"

text \<open>What a drain leaves unchanged, and what it takes from the queue.\<close>

lemma drain_loop_lengths:
  assumes "drain_loop maxStarts now lane ref started s = (started', s')"
  shows "started \<le> started' \<and> qs_lanes s' = qs_lanes s \<and> (\<forall>r. r \<noteq> ref \<longrightarrow> qs_store s' r = qs_store s r) \<and>
    lq_length (ls_queue (qs_store s' ref)) + started' = lq_length (ls_queue (qs_store s ref)) + started"
  using assms
proof (induction maxStarts now lane ref started s rule: drain_loop.induct)
  case (1 maxStarts now lane ref started s)
  show ?case
  proof (cases "may_start maxStarts lane ref started s")
    case True
    show ?thesis
    proof (cases "dequeueLaneQueue (ls_queue (qs_store s ref))")
      case (Pair x q')
      show ?thesis
      proof (cases x)
        case None
        with 1(2) True Pair show ?thesis by (simp add: drain_loop.simps)
      next
        case (Some entry)
        let ?s = "start_entry now lane ref entry q' s"
        have "drain_loop maxStarts now lane ref (started + 1) ?s = (started', s')"
          using 1(2) True Pair Some by (subst (asm) drain_loop.simps) simp
        from 1(1) [OF True Pair [symmetric] Some this]
        have ih: "started + 1 \<le> started' \<and> qs_lanes s' = qs_lanes ?s \<and>
            (\<forall>r. r \<noteq> ref \<longrightarrow> qs_store s' r = qs_store ?s r) \<and>
            lq_length (ls_queue (qs_store s' ref)) + started' =
              lq_length (ls_queue (qs_store ?s ref)) + (started + 1)" .
        have "lq_length q' = lq_length (ls_queue (qs_store s ref)) - 1"
          using dequeue_decreases Pair Some by metis
        moreover have "0 < lq_length (ls_queue (qs_store s ref))"
          using True by (simp add: may_start_def)
        ultimately show ?thesis
          using ih by (simp add: start_entry_def set_state_def Let_def)
      qed
    qed
  next
    case False
    with 1(2) show ?thesis by (simp add: drain_loop.simps)
  qed
qed

definition total_queued :: "QueueState \<Rightarrow> nat" where
  "total_queued s = sum_list (map (\<lambda>e. lq_length (ls_queue (qs_store s (snd e)))) (qs_lanes s))"

lemma sum_list_drop:
  fixes f g :: "'a \<Rightarrow> nat"
  assumes "\<forall>y \<in> set xs. g y \<le> f y" "x \<in> set xs" "g x + k \<le> f x"
  shows "sum_list (map g xs) + k \<le> sum_list (map f xs)"
  using assms
proof (induction xs)
  case (Cons y ys)
  show ?case
  proof (cases "x = y")
    case True
    have "sum_list (map g ys) \<le> sum_list (map f ys)"
      using Cons.prems(1) by (intro sum_list_mono) simp
    with True Cons.prems(3) show ?thesis by simp
  next
    case False
    with Cons have "sum_list (map g ys) + k \<le> sum_list (map f ys)" by simp
    moreover have "g y \<le> f y" using Cons.prems(1) by simp
    ultimately show ?thesis by simp
  qed
qed simp

lemma total_queued_subset: "sum_list (map f (filter P xs)) \<le> (sum_list (map f xs) :: nat)"
  by (induction xs) auto

lemma drainLane_total:
  assumes "drainLane maxStarts now lane ref s = (started, s')" "jm_get (qs_lanes s) lane = Some ref"
  shows "total_queued s' + started \<le> total_queued s"
proof (cases "ls_draining (qs_store s ref)")
  case True
  with assms(1) show ?thesis by (simp add: drainLane_def)
next
  case False
  let ?s0 = "set_draining ref True s"
  obtain n s1 where d: "drain_loop maxStarts now lane ref 0 ?s0 = (n, s1)"
    by (cases "drain_loop maxStarts now lane ref 0 ?s0")
  with False assms(1) have r: "started = n" "s' = retireIdleScopedCommandLane ref (set_draining ref False s1)"
    by (simp_all add: drainLane_def)
  note l = drain_loop_lengths [OF d]
  let ?len = "\<lambda>s e. lq_length (ls_queue (qs_store s (snd e)))"
  have "sum_list (map (?len s1) (qs_lanes s)) + n \<le> total_queued s"
    unfolding total_queued_def
  proof (rule sum_list_drop)
    show "\<forall>e \<in> set (qs_lanes s). ?len s1 e \<le> ?len s e"
    proof
      fix e :: "string \<times> nat" assume "e \<in> set (qs_lanes s)"
      show "?len s1 e \<le> ?len s e"
        using l by (cases "snd e = ref") (auto simp: set_draining_def set_state_def)
    qed
    show "(lane, ref) \<in> set (qs_lanes s)" using assms(2) by (rule map_of_SomeD)
    show "?len s1 (lane, ref) + n \<le> ?len s (lane, ref)"
      using l by (auto simp: set_draining_def set_state_def)
  qed
  moreover have "total_queued (set_draining ref False s1) = sum_list (map (?len s1) (qs_lanes s))"
    using l by (auto simp: total_queued_def set_draining_def set_state_def intro!: arg_cong [where f = sum_list])
  moreover have "total_queued (retireIdleScopedCommandLane ref x) \<le> total_queued x" for x
    by (auto simp: retireIdleScopedCommandLane_def Let_def total_queued_def jm_delete_def
        intro: total_queued_subset)
  ultimately show ?thesis
    using r by (metis add_le_mono1 order_trans)
qed

section \<open>Groups\<close>

lemma foldl_select:
  "foldl (\<lambda>selected lane. select_candidate selected (f lane)) acc xs = Some c \<Longrightarrow>
    acc = Some c \<or> (\<exists>x \<in> set xs. f x = Some c)"
proof (induction xs arbitrary: acc)
  case (Cons x xs)
  then consider "select_candidate acc (f x) = Some c" | "\<exists>y \<in> set xs. f y = Some c"
    by fastforce
  then show ?case
    by cases (auto simp: select_candidate_def split: option.splits if_splits)
qed simp

lemma lane_candidate_Some:
  assumes "lane_candidate s g lane = Some c"
  obtains ref head where "jm_get (qs_lanes s) lane = Some ref"
    "peekLaneQueue (ls_queue (qs_store s ref)) = Some head" "\<not> ls_draining (qs_store s ref)"
    "length (ls_activeTaskIds (qs_store s ref)) < ls_maxConcurrent (qs_store s ref)"
    "resolveGroupBlockReason s g lane (readGroupCapacity s g) = None"
    "c = (lane, priority_rank (en_priority head), en_sequence head)"
  using assms by (auto simp: lane_candidate_def lane_at_def split: option.splits if_splits)

lemma resolveNextGroupLane_Some:
  assumes "resolveNextGroupLane s g = Some lane"
  obtains c where "lane \<in> set (lg_members g)" "lane_candidate s g lane = Some c" "fst c = lane"
proof -
  obtain c where c: "foldl (\<lambda>selected lane. select_candidate selected (lane_candidate s g lane)) None
      (lg_members g) = Some c" "fst c = lane"
    using assms by (auto simp: resolveNextGroupLane_def)
  obtain x where x: "x \<in> set (lg_members g)" "lane_candidate s g x = Some c"
    using foldl_select [OF c(1)] by auto
  then have "fst c = x" by (auto elim: lane_candidate_Some)
  with x c(2) show thesis by (intro that) auto
qed

lemma drain_group_decreases:
  assumes sel: "resolveNextGroupLane s g = Some lane" and st: "(ref, s0) = getLaneState lane s"
    and d: "(started, s1) = drainLane (Some 1) now lane ref s0" and pos: "started \<noteq> 0"
  shows "total_queued s1 < total_queued s"
proof -
  obtain c where "lane_candidate s g lane = Some c"
    using sel by (rule resolveNextGroupLane_Some)
  then obtain r where "jm_get (qs_lanes s) lane = Some r"
    by (rule lane_candidate_Some)
  with st have "jm_get (qs_lanes s) lane = Some ref" "s0 = s"
    by (simp_all add: getLaneState_def)
  with drainLane_total [OF d [symmetric]] pos show ?thesis by simp
qed

text \<open>
  The loop of \<open>drainCommandLaneGroup\<close>. Nothing calls back into it, so the set of draining groups
  is empty whenever it is entered.
\<close>

function drain_group :: "int \<Rightarrow> LaneGroupState \<Rightarrow> QueueState \<Rightarrow> QueueState" where
  "drain_group now g s =
     (if jm_get (qs_groups s) (lg_group g) = Some g then
        (case resolveNextGroupLane s g of None \<Rightarrow> s
         | Some selectedLane \<Rightarrow>
             if selectedLane = [] then s
             else
               let (ref, s0) = getLaneState selectedLane s;
                   (started, s1) = drainLane (Some 1) now selectedLane ref s0
               in if started = 0 then s1 else drain_group now g s1)
      else s)"
  by pat_completeness auto

termination
  by (relation "measure (\<lambda>(_, _, s). total_queued s)") (auto dest: drain_group_decreases)

declare drain_group.simps [simp del]

definition drainReadyCommandLane :: "int \<Rightarrow> string \<Rightarrow> nat option \<Rightarrow> QueueState \<Rightarrow> QueueState" where
  "drainReadyCommandLane now lane completedState s =
     (case getLaneGroup s lane of
        Some g \<Rightarrow> drain_group now g s
      | None \<Rightarrow>
          let (ref, s0) = (case completedState of Some r \<Rightarrow> (r, s) | None \<Rightarrow> getLaneState lane s)
          in snd (drainLane None now lane ref s0))"

section \<open>Enqueueing\<close>

record EnqueueOptions =
  eo_aborted :: bool
  eo_priority :: "string option"
  eo_warnAfterMs :: "int option"

datatype enqueue_result = RejectedAborted | RejectedDraining | Accepted nat bool

definition resolveQueuePriority :: "string option \<Rightarrow> QueuePriority" where
  "resolveQueuePriority p = (if p = Some ''foreground'' then Foreground
     else if p = Some ''background'' then Background else Normal)"

definition enqueueLaneEntry :: "LaneState \<Rightarrow> QueueEntry \<Rightarrow> LaneState" where
  "enqueueLaneEntry st entry =
     (let queuedAhead = fst (enqueueLaneQueue (ls_queue st) entry)
      in st\<lparr>ls_queue := snd (enqueueLaneQueue (ls_queue st)
             (entry\<lparr>en_queuedAheadAtEnqueue := queuedAhead,
                    en_activeAheadAtEnqueue := length (ls_activeTaskIds st)\<rparr>))\<rparr>)"

definition new_entry :: "EnqueueOptions \<Rightarrow> int \<Rightarrow> nat \<Rightarrow> QueueEntry" where
  "new_entry opts now sequence = \<lparr>en_queued = False, en_enqueuedAt = now, en_sequence = sequence,
     en_priority = resolveQueuePriority (eo_priority opts),
     en_warnAfterMs = (case eo_warnAfterMs opts of None \<Rightarrow> 2000 | Some w \<Rightarrow> w),
     en_queuedAheadAtEnqueue = 0, en_activeAheadAtEnqueue = 0\<rparr>"

definition in_queue :: "nat \<Rightarrow> LaneQueue \<Rightarrow> bool" where
  "in_queue sequence q \<longleftrightarrow> list_ex (\<lambda>e. en_sequence e = sequence) (lane_list q)"

text \<open>
  \<open>closed\<close> is the answer of \<open>isGatewaySubordinateWorkAdmissionClosed\<close>; the flag of \<open>Accepted\<close>
  says whether \<open>onQueued\<close> is called, that is, whether the entry is still queued after the drain.
\<close>

definition enqueueCommandInLane ::
  "int \<Rightarrow> bool \<Rightarrow> string \<Rightarrow> EnqueueOptions \<Rightarrow> QueueState \<Rightarrow> enqueue_result \<times> QueueState" where
  "enqueueCommandInLane now closed lane opts s =
     (if eo_aborted opts then (RejectedAborted, s)
      else if closed then (RejectedDraining, s)
      else
        let cleaned = normalizeLane lane;
            (ref, s1) = getLaneState cleaned s;
            sequence = qs_nextQueueSequence s1;
            s2 = s1\<lparr>qs_nextQueueSequence := sequence + 1\<rparr>;
            s3 = set_state ref (enqueueLaneEntry (qs_store s2 ref) (new_entry opts now sequence)) s2;
            s4 = drainReadyCommandLane now cleaned None s3
        in (Accepted sequence (in_queue sequence (ls_queue (qs_store s4 ref))), s4))"

definition settle :: "nat \<Rightarrow> settlement \<Rightarrow> QueueState \<Rightarrow> QueueState" where
  "settle sequence outcome s = s\<lparr>qs_settled := qs_settled s @ [(sequence, outcome)]\<rparr>"

text \<open>The abort listener of a queued entry; \<open>ref\<close> is the lane state it captured.\<close>

definition abortQueued :: "nat \<Rightarrow> nat \<Rightarrow> QueueState \<Rightarrow> QueueState" where
  "abortQueued ref sequence s =
     (case find (\<lambda>e. en_sequence e = sequence) (lane_list (ls_queue (qs_store s ref))) of
        None \<Rightarrow> s
      | Some entry \<Rightarrow>
          let (removed, q) = removeLaneQueueEntry (ls_queue (qs_store s ref)) entry
          in if removed then
               retireIdleScopedCommandLane ref (settle sequence QueuedAborted
                 (set_state ref ((qs_store s ref)\<lparr>ls_queue := q\<rparr>) s))
             else s)"

section \<open>Settling a task\<close>

definition settleTask :: "int \<Rightarrow> nat \<Rightarrow> bool \<Rightarrow> QueueState \<Rightarrow> QueueState" where
  "settleTask now taskId fulfilled s =
     (case find (\<lambda>t. rt_taskId t = taskId) (qs_running s) of
        None \<Rightarrow> s
      | Some t \<Rightarrow>
          let s1 = s\<lparr>qs_running := filter (\<lambda>x. rt_taskId x \<noteq> taskId) (qs_running s)\<rparr>;
              (completedCurrentGeneration, s2) =
                completeTask (rt_state t) taskId (rt_generation t) s1;
              s3 = (if completedCurrentGeneration
                    then drainReadyCommandLane now (rt_lane t) (Some (rt_state t)) s2 else s2)
          in settle (en_sequence (rt_entry t)) (if fulfilled then Resolved else RejectedByTask) s3)"

section \<open>Configuration\<close>

definition lane_width :: "string \<Rightarrow> int \<Rightarrow> nat" where
  "lane_width lane maxConcurrent =
     nat (max (if isQuietProbeLane lane then 1 else 0) maxConcurrent)"

definition setCommandLaneConcurrency :: "int \<Rightarrow> string \<Rightarrow> int \<Rightarrow> QueueState \<Rightarrow> QueueState" where
  "setCommandLaneConcurrency now lane maxConcurrent s =
     (let cleaned = normalizeLane lane;
          (ref, s1) = getLaneState cleaned s;
          s2 = set_state ref ((qs_store s1 ref)\<lparr>ls_maxConcurrent := lane_width cleaned maxConcurrent\<rparr>) s1
      in if 0 < lane_width cleaned maxConcurrent then drainReadyCommandLane now cleaned None s2 else s2)"

record LaneConfiguration =
  cf_lanes :: "(string \<times> int) list"
  cf_groups :: "(string \<times> CommandLaneGroupSpec) list"
  cf_clearGroups :: "string list"

fun validate_groups ::
  "(string \<times> CommandLaneGroupSpec) list \<Rightarrow> group_error + LaneGroupState list" where
  "validate_groups [] = Inr []"
| "validate_groups ((groupId, spec) # rest) =
     (case validateCommandLaneGroupSpec groupId spec of Inl e \<Rightarrow> Inl e
      | Inr g \<Rightarrow> (case validate_groups rest of Inl e \<Rightarrow> Inl e | Inr gs \<Rightarrow> Inr (g # gs)))"

definition touch :: "string list \<Rightarrow> string list \<Rightarrow> string list" where
  "touch lanes touched = js_set_of (touched @ lanes)"

definition publish_lane :: "string \<times> int \<Rightarrow> QueueState \<times> string list \<Rightarrow> QueueState \<times> string list" where
  "publish_lane cfg acc =
     (let lane = normalizeLane (fst cfg);
          (ref, s1) = getLaneState lane (fst acc)
      in (set_state ref ((qs_store s1 ref)\<lparr>ls_maxConcurrent := lane_width lane (snd cfg)\<rparr>) s1,
          touch [lane] (snd acc)))"

definition publish_clear :: "string \<Rightarrow> QueueState \<times> string list \<Rightarrow> QueueState \<times> string list" where
  "publish_clear groupId acc =
     (case jm_get (qs_groups (fst acc)) groupId of None \<Rightarrow> acc
      | Some existing \<Rightarrow>
          ((forget_members (lg_members existing) (fst acc))
             \<lparr>qs_groups := jm_delete groupId (qs_groups (fst acc))\<rparr>,
           touch (lg_members existing) (snd acc)))"

definition group_members :: "QueueState \<Rightarrow> string \<Rightarrow> string list" where
  "group_members s groupId = (case jm_get (qs_groups s) groupId of None \<Rightarrow> [] | Some g \<Rightarrow> lg_members g)"

definition publish_group :: "LaneGroupState \<Rightarrow> QueueState \<times> string list \<Rightarrow> QueueState \<times> string list" where
  "publish_group new acc =
     (let s = fst acc;
          siblings = concat (map (\<lambda>m. group_members s
            (case jm_get (qs_groupByLane s) m of None \<Rightarrow> [] | Some owner \<Rightarrow> owner)) (lg_members new))
      in (installCommandLaneGroup new s,
          touch (group_members s (lg_group new) @ siblings @ lg_members new) (snd acc)))"

definition publish_drain :: "int \<Rightarrow> string \<Rightarrow> QueueState \<Rightarrow> QueueState" where
  "publish_drain now lane s =
     (case lane_at s lane of None \<Rightarrow> s
      | Some st \<Rightarrow>
          if 0 < ls_maxConcurrent st \<and> 0 < lq_length (ls_queue st) \<and> \<not> ls_draining st
          then drainReadyCommandLane now lane None s else s)"

definition publish_install ::
  "LaneConfiguration \<Rightarrow> LaneGroupState list \<Rightarrow> QueueState \<Rightarrow> QueueState \<times> string list" where
  "publish_install cfg validated s =
     fold publish_group validated (fold publish_clear (cf_clearGroups cfg)
       (fold publish_lane (cf_lanes cfg) (s, [])))"

definition publishLaneConfiguration ::
  "int \<Rightarrow> LaneConfiguration \<Rightarrow> QueueState \<Rightarrow> group_error + QueueState" where
  "publishLaneConfiguration now cfg s =
     (case validate_groups (cf_groups cfg) of Inl e \<Rightarrow> Inl e
      | Inr validated \<Rightarrow>
          (case publish_install cfg validated s of
             (installed, touched) \<Rightarrow> Inr (fold (publish_drain now) touched installed)))"

section \<open>Clearing and resetting\<close>

definition ring_total :: "LaneQueue \<Rightarrow> nat" where
  "ring_total q = qr_length (lq_foreground q) + qr_length (lq_normal q) + qr_length (lq_background q)"

lemma dequeue_ring_total:
  assumes "(Some e, q') = dequeueLaneQueue q"
  shows "ring_total q' < ring_total q"
proof -
  have "qr_length ring' < qr_length ring" if "dequeueQueueRing ring = (Some x, ring')"
    for ring ring' :: "QueueEntry QueueRing" and x
    using that by (auto simp: dequeueQueueRing_def Let_def split: if_splits)
  with assms show ?thesis
    by (auto simp: dequeueLaneQueue_def ring_total_def split: prod.splits option.splits)
qed

function dequeue_all :: "LaneQueue \<Rightarrow> QueueEntry list \<times> LaneQueue" where
  "dequeue_all q =
     (case dequeueLaneQueue q of
        (None, q') \<Rightarrow> ([], q')
      | (Some entry, q') \<Rightarrow> (let (entries, q'') = dequeue_all q' in (entry # entries, q'')))"
  by pat_completeness auto
termination
  by (relation "measure ring_total") (auto dest: dequeue_ring_total)

declare dequeue_all.simps [simp del]

definition clearCommandLane :: "string \<Rightarrow> QueueState \<Rightarrow> nat \<times> QueueState" where
  "clearCommandLane lane s =
     (case jm_get (qs_lanes s) (normalizeLane lane) of None \<Rightarrow> (0, s)
      | Some ref \<Rightarrow>
          let st = qs_store s ref;
              (entries, q) = dequeue_all (ls_queue st)
          in (lq_length (ls_queue st),
              fold (\<lambda>e. settle (en_sequence e) LaneCleared) entries (set_state ref (st\<lparr>ls_queue := q\<rparr>) s)))"

definition reset_state :: "LaneState \<Rightarrow> LaneState" where
  "reset_state st = st\<lparr>ls_generation := ls_generation st + 1, ls_activeTaskIds := [], ls_draining := False\<rparr>"

definition resetCommandLane :: "int \<Rightarrow> string \<Rightarrow> QueueState \<Rightarrow> nat \<times> QueueState" where
  "resetCommandLane now lane s =
     (let cleaned = normalizeLane lane
      in case jm_get (qs_lanes s) cleaned of None \<Rightarrow> (0, s)
         | Some ref \<Rightarrow>
             (length (ls_activeTaskIds (qs_store s ref)),
              drainReadyCommandLane now cleaned None (set_state ref (reset_state (qs_store s ref)) s)))"

definition resetAllLanes :: "int \<Rightarrow> QueueState \<Rightarrow> QueueState" where
  "resetAllLanes now s =
     (let refs = jm_values (qs_lanes s);
          s1 = fold (\<lambda>ref s. set_state ref (reset_state (qs_store s ref)) s) refs s;
          lanesToDrain = map (\<lambda>ref. ls_lane (qs_store s1 ref))
            (filter (\<lambda>ref. 0 < lq_length (ls_queue (qs_store s1 ref))) refs)
      in fold (\<lambda>lane. drainReadyCommandLane now lane None) lanesToDrain s1)"

section \<open>Reading the state\<close>

definition getQueueSize :: "string \<Rightarrow> QueueState \<Rightarrow> nat" where
  "getQueueSize lane s =
     (case lane_at s (normalizeLane lane) of None \<Rightarrow> 0 | Some st \<Rightarrow> getLaneDepth st)"

definition getTotalQueueSize :: "QueueState \<Rightarrow> nat" where
  "getTotalQueueSize s = sum_list (map (\<lambda>ref. getLaneDepth (qs_store s ref)) (jm_values (qs_lanes s)))"

definition listCommandLaneTotals :: "QueueState \<Rightarrow> (string \<times> nat \<times> nat) list" where
  "listCommandLaneTotals s = map (\<lambda>ref. let st = qs_store s ref
     in (ls_lane st, length (ls_activeTaskIds st), lq_length (ls_queue st))) (jm_values (qs_lanes s))"

definition getCommandLaneActiveTaskIds :: "string \<Rightarrow> QueueState \<Rightarrow> nat list" where
  "getCommandLaneActiveTaskIds lane s =
     (case lane_at s (normalizeLane lane) of None \<Rightarrow> [] | Some st \<Rightarrow> ls_activeTaskIds st)"

text \<open>A marker is \<open>{lane, taskId, generation}\<close>.\<close>

definition isCommandLaneTaskMarkerCurrent :: "(string \<times> nat \<times> nat) option \<Rightarrow> QueueState \<Rightarrow> bool" where
  "isCommandLaneTaskMarkerCurrent marker s =
     (case marker of None \<Rightarrow> False
      | Some (lane, taskId, generation) \<Rightarrow>
          (case lane_at s (normalizeLane lane) of None \<Rightarrow> False
           | Some st \<Rightarrow> ls_generation st = generation \<and> taskId \<in> set (ls_activeTaskIds st)))"

record CommandLaneSnapshot =
  sn_lane :: string
  sn_queuedCount :: nat
  sn_activeCount :: nat
  sn_maxConcurrent :: nat
  sn_draining :: bool
  sn_generation :: nat
  sn_blockedBy :: "block_reason option"
  sn_group :: "(string \<times> nat \<times> nat \<times> nat) option"

text \<open>The group part is \<open>(group, groupActive, groupBudget, reservedForLane)\<close>.\<close>

definition getCommandLaneSnapshot :: "string \<Rightarrow> QueueState \<Rightarrow> CommandLaneSnapshot" where
  "getCommandLaneSnapshot lane s =
     (let resolved = normalizeLane lane;
          st = (case lane_at s resolved of None \<Rightarrow> new_lane_state resolved | Some x \<Rightarrow> x);
          activeCount = length (ls_activeTaskIds st);
          g = getLaneGroup s (ls_lane st)
      in \<lparr>sn_lane = ls_lane st, sn_queuedCount = lq_length (ls_queue st), sn_activeCount = activeCount,
          sn_maxConcurrent = ls_maxConcurrent st, sn_draining = ls_draining st,
          sn_generation = ls_generation st,
          sn_blockedBy = (if ls_maxConcurrent st \<le> activeCount then Some BlockedByLane
            else case g of None \<Rightarrow> None
              | Some g \<Rightarrow> resolveGroupBlockReason s g (ls_lane st) (readGroupCapacity s g)),
          sn_group = map_option (\<lambda>g. (lg_group g, fst (readGroupCapacity s g), lg_budget g,
            reservation g (ls_lane st))) g\<rparr>)"

section \<open>The queue as a machine\<close>

datatype queue_op =
  OpEnqueue bool string EnqueueOptions
| OpAbort nat nat
| OpSettle nat bool
| OpSetConcurrency string int
| OpPublish LaneConfiguration
| OpClear string
| OpReset string
| OpResetAll

fun queue_step :: "int \<times> queue_op \<Rightarrow> QueueState \<Rightarrow> QueueState" where
  "queue_step (now, OpEnqueue closed lane opts) s = snd (enqueueCommandInLane now closed lane opts s)"
| "queue_step (now, OpAbort ref sequence) s = abortQueued ref sequence s"
| "queue_step (now, OpSettle taskId fulfilled) s = settleTask now taskId fulfilled s"
| "queue_step (now, OpSetConcurrency lane n) s = setCommandLaneConcurrency now lane n s"
| "queue_step (now, OpPublish cfg) s =
     (case publishLaneConfiguration now cfg s of Inl _ \<Rightarrow> s | Inr s' \<Rightarrow> s')"
| "queue_step (now, OpClear lane) s = snd (clearCommandLane lane s)"
| "queue_step (now, OpReset lane) s = snd (resetCommandLane now lane s)"
| "queue_step (now, OpResetAll) s = resetAllLanes now s"

definition run_queue :: "(int \<times> queue_op) list \<Rightarrow> QueueState \<Rightarrow> QueueState" where
  "run_queue ops s = fold queue_step ops s"

end
