(* ===== verification/Command_Queue_Wf.thy ===== *)
theory Command_Queue_Wf
  imports Command_Queue
begin

text \<open>
  Draining as a nondeterministic scheduler: \<open>sched_step\<close> admits one task where the source's guards
  allow it, and every drain is a run of it. Well-formedness (\<open>queue_wf\<close>) ties the registry, the
  lane states and the running tasks together and is kept by every operation.
\<close>

section \<open>The scheduler a drain refines\<close>

inductive sched_step :: "QueueState \<Rightarrow> QueueState \<Rightarrow> bool" where
  admit: "jm_get (qs_lanes s) lane = Some ref \<Longrightarrow>
    length (ls_activeTaskIds (qs_store s ref)) < ls_maxConcurrent (qs_store s ref) \<Longrightarrow>
    canAdmitInGroup s lane \<Longrightarrow>
    dequeueLaneQueue (ls_queue (qs_store s ref)) = (Some entry, queue) \<Longrightarrow>
    sched_step s (start_entry now lane ref entry queue s)"
| flag: "sched_step s (set_draining ref b s)"
| retire: "sched_step s (retireIdleScopedCommandLane ref s)"
| create: "sched_step s (snd (getLaneState lane s))"

inductive_cases sched_stepE: "sched_step s s'"

abbreviation sched_steps :: "QueueState \<Rightarrow> QueueState \<Rightarrow> bool" where
  "sched_steps \<equiv> sched_step\<^sup>*\<^sup>*"

lemma start_entry_lanes [simp]:
  "qs_lanes (start_entry now lane ref entry queue s) = qs_lanes s"
  "qs_nextRef (start_entry now lane ref entry queue s) = qs_nextRef s"
  "qs_groups (start_entry now lane ref entry queue s) = qs_groups s"
  "qs_groupByLane (start_entry now lane ref entry queue s) = qs_groupByLane s"
  by (simp_all add: start_entry_def set_state_def Let_def)

lemma set_draining_simps [simp]:
  "qs_lanes (set_draining ref b s) = qs_lanes s" "qs_nextRef (set_draining ref b s) = qs_nextRef s"
  "qs_groups (set_draining ref b s) = qs_groups s"
  "qs_groupByLane (set_draining ref b s) = qs_groupByLane s"
  by (simp_all add: set_draining_def set_state_def)

lemma drain_loop_steps:
  "jm_get (qs_lanes s) lane = Some ref \<Longrightarrow>
    sched_steps s (snd (drain_loop maxStarts now lane ref started s)) \<and>
    qs_lanes (snd (drain_loop maxStarts now lane ref started s)) = qs_lanes s"
proof (induction maxStarts now lane ref started s rule: drain_loop.induct)
  case (1 maxStarts now lane ref started s)
  show ?case
  proof (cases "may_start maxStarts lane ref started s")
    case True
    show ?thesis
    proof (cases "dequeueLaneQueue (ls_queue (qs_store s ref))")
      case (Pair x q')
      show ?thesis
      proof (cases x)
        case None
        with True Pair show ?thesis by (simp add: drain_loop.simps)
      next
        case (Some entry)
        let ?s = "start_entry now lane ref entry q' s"
        have "sched_step s ?s"
          using True Pair Some 1(2) by (intro admit) (simp_all add: may_start_def)
        moreover have "sched_steps ?s (snd (drain_loop maxStarts now lane ref (started + 1) ?s)) \<and>
            qs_lanes (snd (drain_loop maxStarts now lane ref (started + 1) ?s)) = qs_lanes ?s"
          using 1(1) [OF True Pair [symmetric] Some] 1(2) by simp
        moreover have "drain_loop maxStarts now lane ref started s =
            drain_loop maxStarts now lane ref (started + 1) ?s"
          using True Pair Some by (subst drain_loop.simps) simp
        ultimately show ?thesis by (auto intro: converse_rtranclp_into_rtranclp)
      qed
    qed
  next
    case False
    then show ?thesis by (simp add: drain_loop.simps)
  qed
qed

lemma drainLane_steps:
  assumes "jm_get (qs_lanes s) lane = Some ref"
  shows "sched_steps s (snd (drainLane maxStarts now lane ref s))"
proof (cases "ls_draining (qs_store s ref)")
  case False
  let ?s0 = "set_draining ref True s"
  let ?d = "drain_loop maxStarts now lane ref 0 ?s0"
  have "sched_step s ?s0" by (rule flag)
  moreover have "sched_steps ?s0 (snd ?d)"
    using drain_loop_steps [of ?s0 lane ref] assms by simp
  moreover have "sched_step (snd ?d) (set_draining ref False (snd ?d))" by (rule flag)
  moreover have "sched_step (set_draining ref False (snd ?d))
      (retireIdleScopedCommandLane ref (set_draining ref False (snd ?d)))" by (rule retire)
  ultimately have "sched_steps s (retireIdleScopedCommandLane ref (set_draining ref False (snd ?d)))"
    by (meson rtranclp.rtrancl_into_rtrancl converse_rtranclp_into_rtranclp)
  with False show ?thesis by (simp add: drainLane_def case_prod_beta)
qed (simp add: drainLane_def)

lemma getLaneState_registered:
  "jm_get (qs_lanes (snd (getLaneState lane s))) lane = Some (fst (getLaneState lane s))"
  by (simp add: getLaneState_def split: option.splits)

lemma drain_group_steps: "sched_steps s (drain_group now g s)"
proof (induction now g s rule: drain_group.induct)
  case (1 now g s)
  show ?case
  proof (cases "jm_get (qs_groups s) (lg_group g) = Some g")
    case reg: True
    show ?thesis
    proof (cases "resolveNextGroupLane s g")
      case (Some lane)
      show ?thesis
      proof (cases "lane = []")
        case False
        obtain ref s0 where st: "getLaneState lane s = (ref, s0)"
          by (cases "getLaneState lane s")
        obtain started s1 where d: "drainLane (Some 1) now lane ref s0 = (started, s1)"
          by (cases "drainLane (Some 1) now lane ref s0")
        have "sched_step s s0" using create [of s lane] st by simp
        moreover have "sched_steps s0 s1"
          using drainLane_steps [of s0 lane ref "Some 1" now] getLaneState_registered [of lane s] st d
          by simp
        ultimately have "sched_steps s s1" by (rule converse_rtranclp_into_rtranclp)
        moreover have "sched_steps s1 (drain_group now g s1)" if "started \<noteq> 0"
          using 1 [OF reg Some False st [symmetric] refl d [symmetric] refl that] .
        moreover have "drain_group now g s = (if started = 0 then s1 else drain_group now g s1)"
          using reg Some False st d by (subst drain_group.simps) simp
        ultimately show ?thesis by (auto intro: rtranclp_trans)
      qed (use reg Some in \<open>simp add: drain_group.simps\<close>)
    qed (use reg in \<open>simp add: drain_group.simps\<close>)
  qed (simp add: drain_group.simps)
qed

lemma drainReady_steps:
  assumes "completedState = None \<or> (\<exists>ref. completedState = Some ref \<and> jm_get (qs_lanes s) lane = Some ref)"
  shows "sched_steps s (drainReadyCommandLane now lane completedState s)"
proof (cases "getLaneGroup s lane")
  case None
  have "sched_steps s (snd (drainLane None now lane (fst (getLaneState lane s)) (snd (getLaneState lane s))))"
    using create [of s lane] drainLane_steps [OF getLaneState_registered [of lane s]]
    by (rule converse_rtranclp_into_rtranclp)
  moreover have "sched_steps s (snd (drainLane None now lane ref s))"
    if "jm_get (qs_lanes s) lane = Some ref" for ref
    by (rule drainLane_steps [OF that])
  ultimately show ?thesis
    using None assms by (auto simp: drainReadyCommandLane_def split: prod.split)
next
  case (Some g)
  then show ?thesis by (simp add: drainReadyCommandLane_def drain_group_steps)
qed

section \<open>Well-formed states\<close>

definition registered :: "QueueState \<Rightarrow> nat \<Rightarrow> bool" where
  "registered s r \<longleftrightarrow> jm_get (qs_lanes s) (ls_lane (qs_store s r)) = Some r"

text \<open>The running tasks that still own a slot of a lane state.\<close>

definition tasks_of :: "RunningTask list \<Rightarrow> nat \<Rightarrow> LaneState \<Rightarrow> RunningTask list" where
  "tasks_of running r st =
     filter (\<lambda>t. rt_state t = r \<and> rt_generation t = ls_generation st) running"

definition lane_wf :: "QueueState \<Rightarrow> nat \<Rightarrow> bool" where
  "lane_wf s r \<longleftrightarrow> (let st = qs_store s r in
     lane_queue_ok (ls_queue st) \<and>
     (\<forall>e \<in> set (lane_list (ls_queue st)). en_sequence e < qs_nextQueueSequence s) \<and>
     ls_activeTaskIds st = map rt_taskId (tasks_of (qs_running s) r st) \<and>
     (\<not> registered s r \<longrightarrow> lane_list (ls_queue st) = [] \<and> ls_activeTaskIds st = []))"

definition task_wf :: "QueueState \<Rightarrow> RunningTask \<Rightarrow> bool" where
  "task_wf s t \<longleftrightarrow> rt_taskId t < qs_nextTaskId s \<and> rt_state t < qs_nextRef s \<and>
     rt_lane t = ls_lane (qs_store s (rt_state t)) \<and>
     rt_generation t \<le> ls_generation (qs_store s (rt_state t))"

definition queue_wf :: "QueueState \<Rightarrow> bool" where
  "queue_wf s \<longleftrightarrow> jm_ok (qs_lanes s) \<and>
     (\<forall>l r. jm_get (qs_lanes s) l = Some r \<longrightarrow> r < qs_nextRef s \<and> ls_lane (qs_store s r) = l) \<and>
     (\<forall>r. lane_wf s r) \<and> (\<forall>t \<in> set (qs_running s). task_wf s t) \<and>
     distinct (map rt_taskId (qs_running s))"

lemma queue_wf_initial: "queue_wf initial_queue_state"
  by (simp add: queue_wf_def initial_queue_state_def lane_wf_def tasks_of_def new_lane_state_def Let_def)

lemma queue_wf_registered:
  assumes "queue_wf s" "jm_get (qs_lanes s) lane = Some ref"
  shows "registered s ref" "ls_lane (qs_store s ref) = lane" "ref < qs_nextRef s"
  using assms by (auto simp: queue_wf_def registered_def)

lemma queue_wf_lane:
  assumes "queue_wf s"
  shows "lane_queue_ok (ls_queue (qs_store s r))"
    "e \<in> set (lane_list (ls_queue (qs_store s r))) \<Longrightarrow> en_sequence e < qs_nextQueueSequence s"
    "ls_activeTaskIds (qs_store s r) = map rt_taskId (tasks_of (qs_running s) r (qs_store s r))"
    "\<not> registered s r \<Longrightarrow> lane_list (ls_queue (qs_store s r)) = []"
    "\<not> registered s r \<Longrightarrow> ls_activeTaskIds (qs_store s r) = []"
    "lq_length (ls_queue (qs_store s r)) = length (lane_list (ls_queue (qs_store s r)))"
  using assms by (auto simp: queue_wf_def lane_wf_def lane_queue_ok_def Let_def)

text \<open>
  A change of one registered lane state: everything else of well-formedness follows from what
  happened to that state.
\<close>

lemma queue_wf_update:
  assumes wf: "queue_wf s" and reg: "registered s ref"
    and st: "ls_lane st = ls_lane (qs_store s ref)" "ls_generation (qs_store s ref) \<le> ls_generation st"
    and q: "lane_queue_ok (ls_queue st)" "\<forall>e \<in> set (lane_list (ls_queue st)). en_sequence e < sequence"
      "qs_nextQueueSequence s \<le> sequence"
    and act: "ls_activeTaskIds st = map rt_taskId (tasks_of running ref st)"
    and others: "\<forall>r. r \<noteq> ref \<longrightarrow> tasks_of running r (qs_store s r) = tasks_of (qs_running s) r (qs_store s r)"
    and tasks: "distinct (map rt_taskId running)" "qs_nextTaskId s \<le> taskId"
      "\<forall>t \<in> set running. t \<in> set (qs_running s) \<or> (rt_taskId t < taskId \<and> rt_state t = ref \<and>
        rt_lane t = ls_lane st \<and> rt_generation t \<le> ls_generation st)"
    and s': "s' = (set_state ref st s)\<lparr>qs_nextTaskId := taskId, qs_nextQueueSequence := sequence,
      qs_running := running, qs_settled := settled, qs_waits := waits\<rparr>"
  shows "queue_wf s'"
proof -
  have regs: "registered s' r = registered s r" for r
    using st(1) by (simp add: registered_def s' set_state_def)
  have ref: "ref < qs_nextRef s"
    using wf reg by (auto simp: queue_wf_def registered_def)
  have "lane_wf s' r" for r
  proof (cases "r = ref")
    case True
    with reg regs [of ref] q act show ?thesis
      by (simp add: lane_wf_def s' set_state_def Let_def)
  next
    case False
    have "lane_wf s r" using wf by (simp add: queue_wf_def)
    with False regs [of r] others q(3) show ?thesis
      by (auto simp: lane_wf_def s' set_state_def Let_def)
  qed
  moreover have "task_wf s' t" if "t \<in> set running" for t
  proof (cases "t \<in> set (qs_running s)")
    case True
    then have "task_wf s t" using wf by (simp add: queue_wf_def)
    with st tasks(2) show ?thesis
      by (auto simp: task_wf_def s' set_state_def)
  next
    case False
    with that tasks(3) ref show ?thesis
      by (auto simp: task_wf_def s' set_state_def)
  qed
  moreover have "jm_ok (qs_lanes s')"
    "\<forall>l r. jm_get (qs_lanes s') l = Some r \<longrightarrow> r < qs_nextRef s' \<and> ls_lane (qs_store s' r) = l"
    using wf st(1) by (auto simp: queue_wf_def s' set_state_def)
  ultimately show ?thesis
    using tasks(1) by (simp add: queue_wf_def s' set_state_def)
qed

lemma tasks_of_append [simp]: "tasks_of (xs @ ys) r st = tasks_of xs r st @ tasks_of ys r st"
  by (simp add: tasks_of_def)

lemma start_entry_wf:
  assumes wf: "queue_wf s" and l: "jm_get (qs_lanes s) lane = Some ref"
    and d: "dequeueLaneQueue (ls_queue (qs_store s ref)) = (Some entry, queue)"
  shows "queue_wf (start_entry now lane ref entry queue s)"
proof -
  note ref = queue_wf_registered [OF wf l] and lane = queue_wf_lane [OF wf, where r = ref]
  obtain e es where es: "lane_list (ls_queue (qs_store s ref)) = e # es"
    using dequeueLaneQueue_Nil [OF lane(1)] d by (cases "lane_list (ls_queue (qs_store s ref))") auto
  have q: "lane_queue_ok queue" "lane_list queue = es"
    using dequeueLaneQueue_Cons [OF lane(1) es] d by auto
  have new: "rt_taskId t < qs_nextTaskId s" if "t \<in> set (qs_running s)" for t
    using that wf by (auto simp: queue_wf_def task_wf_def)
  let ?st = "(qs_store s ref)\<lparr>ls_queue := queue,
      ls_activeTaskIds := ls_activeTaskIds (qs_store s ref) @ [qs_nextTaskId s]\<rparr>"
  show ?thesis
  proof (rule queue_wf_update [OF wf ref(1)])
    show "start_entry now lane ref entry queue s = (set_state ref ?st s)
        \<lparr>qs_nextTaskId := qs_nextTaskId s + 1, qs_nextQueueSequence := qs_nextQueueSequence s,
         qs_running := qs_running s @ [\<lparr>rt_lane = lane, rt_taskId = qs_nextTaskId s,
            rt_generation = ls_generation (qs_store s ref), rt_state = ref, rt_entry = entry\<rparr>],
         qs_settled := qs_settled s,
         qs_waits := qs_waits s @ (if en_warnAfterMs entry \<le> now - en_enqueuedAt entry
            then [(en_sequence entry, now - en_enqueuedAt entry, en_queuedAheadAtEnqueue entry)]
            else [])\<rparr>"
      by (simp add: start_entry_def set_state_def Let_def)
    show "ls_activeTaskIds ?st = map rt_taskId (tasks_of (qs_running s @
        [\<lparr>rt_lane = lane, rt_taskId = qs_nextTaskId s,
          rt_generation = ls_generation (qs_store s ref), rt_state = ref, rt_entry = entry\<rparr>]) ref ?st)"
      using lane(3) by (simp add: tasks_of_def)
    show "distinct (map rt_taskId (qs_running s @
        [\<lparr>rt_lane = lane, rt_taskId = qs_nextTaskId s,
          rt_generation = ls_generation (qs_store s ref), rt_state = ref, rt_entry = entry\<rparr>]))"
      using wf by (auto simp: queue_wf_def dest: new)
  qed (use q lane(2) es ref new in \<open>auto simp: tasks_of_def\<close>)
qed

lemma set_draining_wf: "queue_wf s \<Longrightarrow> queue_wf (set_draining ref b s)"
  by (auto simp: queue_wf_def lane_wf_def task_wf_def registered_def tasks_of_def set_draining_def
      set_state_def Let_def)

lemma retire_wf:
  assumes wf: "queue_wf s"
  shows "queue_wf (retireIdleScopedCommandLane ref s)"
proof (cases "retireIdleScopedCommandLane ref s = s")
  case False
  then have r: "ls_activeTaskIds (qs_store s ref) = []" "lq_length (ls_queue (qs_store s ref)) = 0"
    "jm_get (qs_lanes s) (ls_lane (qs_store s ref)) = Some ref"
    and s': "retireIdleScopedCommandLane ref s =
      s\<lparr>qs_lanes := jm_delete (ls_lane (qs_store s ref)) (qs_lanes s)\<rparr>"
    by (auto simp: retireIdleScopedCommandLane_def Let_def split: if_splits)
  have "lane_list (ls_queue (qs_store s ref)) = []"
    using r(2) queue_wf_lane(6) [OF wf, where r = ref] by simp
  moreover have "registered (retireIdleScopedCommandLane ref s) r \<longleftrightarrow> registered s r \<and> r \<noteq> ref" for r
    using r(3) by (auto simp: registered_def s')
  ultimately have "lane_wf (retireIdleScopedCommandLane ref s) r" for r
    using wf r(1) by (cases "r = ref") (auto simp: queue_wf_def lane_wf_def s' Let_def)
  with wf show ?thesis
    by (auto simp: queue_wf_def task_wf_def s')
qed (use wf in simp)

lemma create_wf:
  assumes wf: "queue_wf s"
  shows "queue_wf (snd (getLaneState lane s))"
proof (cases "jm_get (qs_lanes s) lane")
  case None
  have none: "tasks_of (qs_running s) (qs_nextRef s) st = []" for st
    using wf by (auto simp: queue_wf_def task_wf_def tasks_of_def filter_empty_conv)
  have s': "snd (getLaneState lane s) = s\<lparr>qs_store := (qs_store s)(qs_nextRef s := new_lane_state lane),
      qs_nextRef := qs_nextRef s + 1, qs_lanes := jm_set lane (qs_nextRef s) (qs_lanes s)\<rparr>"
    using None by (simp add: getLaneState_def)
  have "registered (snd (getLaneState lane s)) r \<longleftrightarrow> registered s r \<or> r = qs_nextRef s" for r
  proof -
    have "\<not> registered s (qs_nextRef s)"
      using wf by (auto simp: queue_wf_def registered_def)
    then show ?thesis
      using None by (auto simp: registered_def s' new_lane_state_def)
  qed
  then have "lane_wf (snd (getLaneState lane s)) r" for r
    using wf none by (cases "r = qs_nextRef s") (auto simp: queue_wf_def lane_wf_def s' Let_def new_lane_state_def)
  moreover have "\<forall>l r. jm_get (qs_lanes s) l = Some r \<longrightarrow> r < qs_nextRef s \<and> ls_lane (qs_store s r) = l"
    "\<forall>t \<in> set (qs_running s). task_wf s t"
    using wf by (simp_all add: queue_wf_def)
  then have "\<forall>l r. jm_get (qs_lanes (snd (getLaneState lane s))) l = Some r \<longrightarrow>
      r < qs_nextRef (snd (getLaneState lane s)) \<and> ls_lane (qs_store (snd (getLaneState lane s)) r) = l"
    "\<forall>t \<in> set (qs_running s). task_wf (snd (getLaneState lane s)) t"
    by (auto simp: s' new_lane_state_def task_wf_def less_Suc_eq)
  ultimately show ?thesis
    using wf by (simp add: queue_wf_def) (simp add: s')
qed (use wf in \<open>simp add: getLaneState_def\<close>)

lemma sched_step_wf: "sched_step s s' \<Longrightarrow> queue_wf s \<Longrightarrow> queue_wf s'"
  by (induction rule: sched_step.induct) (simp_all add: start_entry_wf set_draining_wf retire_wf create_wf)

lemma sched_steps_wf: "sched_steps s s' \<Longrightarrow> queue_wf s \<Longrightarrow> queue_wf s'"
  by (induction rule: rtranclp_induct) (simp_all add: sched_step_wf)

lemma drainReady_wf:
  assumes "queue_wf s"
    "completedState = None \<or> (\<exists>ref. completedState = Some ref \<and> jm_get (qs_lanes s) lane = Some ref)"
  shows "queue_wf (drainReadyCommandLane now lane completedState s)"
  using sched_steps_wf [OF drainReady_steps [OF assms(2)] assms(1)] .

section \<open>Every operation keeps it\<close>

text \<open>Well-formedness does not look at the groups.\<close>

definition core where
  "core s = (qs_lanes s, qs_store s, qs_nextRef s, qs_nextTaskId s, qs_nextQueueSequence s,
     qs_running s, qs_settled s)"

lemma queue_wf_core: "core s = core s' \<Longrightarrow> queue_wf s = queue_wf s'"
  by (simp add: core_def queue_wf_def lane_wf_def task_wf_def registered_def Let_def)

lemma core_groups [simp]:
  "core (s\<lparr>qs_groups := gs\<rparr>) = core s" "core (s\<lparr>qs_groupByLane := m\<rparr>) = core s"
  by (simp_all add: core_def)

lemma core_forget_members [simp]: "core (forget_members lanes s) = core s"
  by (simp add: forget_members_def)

lemma core_detach_member [simp]: "core (detach_member groupId lane s) = core s"
  by (simp add: detach_member_def split: option.split)

lemma core_detach_members [simp]: "core (fold (detach_member groupId) lanes s) = core s"
  by (induction lanes arbitrary: s) simp_all

lemma core_install [simp]: "core (installCommandLaneGroup g s) = core s"
  by (simp add: installCommandLaneGroup_def Let_def split: option.split)

lemma core_publish_group [simp]: "core (fst (publish_group g acc)) = core (fst acc)"
  by (simp add: publish_group_def Let_def)

lemma core_publish_clear [simp]: "core (fst (publish_clear groupId acc)) = core (fst acc)"
  by (simp add: publish_clear_def split: option.split)

lemma getLaneState_wf:
  assumes "queue_wf s" "getLaneState lane s = (ref, s1)"
  shows "queue_wf s1" "jm_get (qs_lanes s1) lane = Some ref" "registered s1 ref"
proof -
  show *: "queue_wf s1" "jm_get (qs_lanes s1) lane = Some ref"
    using create_wf [OF assms(1), of lane] getLaneState_registered [of lane s] assms(2) by simp_all
  show "registered s1 ref" by (rule queue_wf_registered(1) [OF *])
qed

text \<open>The cases of \<open>queue_wf_update\<close> where no task is started or settled.\<close>

lemma queue_wf_set_state:
  assumes "queue_wf s" "registered s ref" "ls_lane st = ls_lane (qs_store s ref)"
    "ls_generation st = ls_generation (qs_store s ref)" "lane_queue_ok (ls_queue st)"
    "\<forall>e \<in> set (lane_list (ls_queue st)). en_sequence e < sequence" "qs_nextQueueSequence s \<le> sequence"
    "ls_activeTaskIds st = ls_activeTaskIds (qs_store s ref)"
  shows "queue_wf ((set_state ref st s)\<lparr>qs_nextQueueSequence := sequence, qs_settled := settled\<rparr>)"
proof (rule queue_wf_update [OF assms(1-3)])
  show "(set_state ref st s)\<lparr>qs_nextQueueSequence := sequence, qs_settled := settled\<rparr> =
      (set_state ref st s)\<lparr>qs_nextTaskId := qs_nextTaskId s, qs_nextQueueSequence := sequence,
        qs_running := qs_running s, qs_settled := settled, qs_waits := qs_waits s\<rparr>"
    by (simp add: set_state_def)
qed (use assms queue_wf_lane(3) [OF assms(1), of ref] in \<open>auto simp: queue_wf_def tasks_of_def\<close>)

lemma set_state_same [simp]:
  "(set_state ref st s)\<lparr>qs_nextQueueSequence := qs_nextQueueSequence s, qs_settled := qs_settled s\<rparr> =
    set_state ref st s"
  by (simp add: set_state_def)

lemma queue_wf_set_width:
  assumes "queue_wf s" "registered s ref"
  shows "queue_wf (set_state ref ((qs_store s ref)\<lparr>ls_maxConcurrent := n\<rparr>) s)"
  using queue_wf_set_state [OF assms, of "(qs_store s ref)\<lparr>ls_maxConcurrent := n\<rparr>" "qs_nextQueueSequence s"
      "qs_settled s"] queue_wf_lane [OF assms(1), where r = ref] by simp

lemma tasks_of_reset:
  assumes "queue_wf s"
  shows "tasks_of (qs_running s) ref (reset_state (qs_store s ref)) = []"
proof -
  have "rt_generation t \<noteq> ls_generation (qs_store s ref) + 1"
    if "t \<in> set (qs_running s)" "rt_state t = ref" for t
    using that assms by (fastforce simp: queue_wf_def task_wf_def)
  then show ?thesis
    by (auto simp: tasks_of_def reset_state_def filter_empty_conv)
qed

lemma queue_wf_reset:
  assumes "queue_wf s" "registered s ref"
  shows "queue_wf (set_state ref (reset_state (qs_store s ref)) s)"
proof (rule queue_wf_update [OF assms])
  show "set_state ref (reset_state (qs_store s ref)) s = (set_state ref (reset_state (qs_store s ref)) s)
      \<lparr>qs_nextTaskId := qs_nextTaskId s, qs_nextQueueSequence := qs_nextQueueSequence s,
        qs_running := qs_running s, qs_settled := qs_settled s, qs_waits := qs_waits s\<rparr>"
    by (simp add: set_state_def)
qed (use assms queue_wf_lane [OF assms(1), where r = ref] tasks_of_reset [OF assms(1)] in
  \<open>auto simp: queue_wf_def reset_state_def\<close>)

lemma enqueueLaneEntry_facts:
  assumes "lane_queue_ok (ls_queue st)" "\<forall>x \<in> set (lane_list (ls_queue st)). en_sequence x < en_sequence e"
  shows "lane_queue_ok (ls_queue (enqueueLaneEntry st e))"
    "mset (map en_sequence (lane_list (ls_queue (enqueueLaneEntry st e)))) =
      mset (map en_sequence (lane_list (ls_queue st))) + {#en_sequence e#}"
    "ls_lane (enqueueLaneEntry st e) = ls_lane st"
    "ls_activeTaskIds (enqueueLaneEntry st e) = ls_activeTaskIds st"
    "ls_generation (enqueueLaneEntry st e) = ls_generation st"
    "ls_draining (enqueueLaneEntry st e) = ls_draining st"
    "ls_maxConcurrent (enqueueLaneEntry st e) = ls_maxConcurrent st"
proof -
  let ?e = "e\<lparr>en_queuedAheadAtEnqueue := fst (enqueueLaneQueue (ls_queue st) e),
    en_activeAheadAtEnqueue := length (ls_activeTaskIds st)\<rparr>"
  have "\<forall>x \<in> set (lane_list (ls_queue st)). en_sequence x < en_sequence ?e" using assms(2) by simp
  note f = enqueueLaneQueue_facts [OF assms(1) this]
  show "lane_queue_ok (ls_queue (enqueueLaneEntry st e))"
    using f(1) by (simp add: enqueueLaneEntry_def Let_def)
  have "mset (lane_list (snd (enqueueLaneQueue (ls_queue st) ?e))) =
      mset (lane_list (ls_queue st)) + {#?e\<lparr>en_queued := True\<rparr>#}"
    unfolding f(2) by (simp add: multiset_partition [symmetric])
  then show "mset (map en_sequence (lane_list (ls_queue (enqueueLaneEntry st e)))) =
      mset (map en_sequence (lane_list (ls_queue st))) + {#en_sequence e#}"
    by (simp add: enqueueLaneEntry_def Let_def)
qed (simp_all add: enqueueLaneEntry_def Let_def)

lemma enqueue_wf:
  assumes "queue_wf s" "registered s ref" "en_sequence e = qs_nextQueueSequence s"
  shows "queue_wf (set_state ref (enqueueLaneEntry (qs_store s ref) e)
    (s\<lparr>qs_nextQueueSequence := qs_nextQueueSequence s + 1\<rparr>))"
proof -
  note lane = queue_wf_lane [OF assms(1), where r = ref]
  have fresh: "\<forall>x \<in> set (lane_list (ls_queue (qs_store s ref))). en_sequence x < en_sequence e"
    using lane(2) assms(3) by simp
  note f = enqueueLaneEntry_facts [OF lane(1) this]
  have "set (map en_sequence (lane_list (ls_queue (enqueueLaneEntry (qs_store s ref) e)))) =
      insert (en_sequence e) (set (map en_sequence (lane_list (ls_queue (qs_store s ref)))))"
    using arg_cong [OF f(2), of set_mset] by simp
  then have "\<forall>x \<in> set (lane_list (ls_queue (enqueueLaneEntry (qs_store s ref) e))).
      en_sequence x < qs_nextQueueSequence s + 1"
    using fresh assms(3) by (auto dest!: equalityD1 simp: subset_iff) fastforce
  then have "queue_wf ((set_state ref (enqueueLaneEntry (qs_store s ref) e) s)
      \<lparr>qs_nextQueueSequence := qs_nextQueueSequence s + 1, qs_settled := qs_settled s\<rparr>)"
    by (intro queue_wf_set_state [OF assms(1,2) f(3,5,1) _ _ f(4)]) simp_all
  moreover have "set_state ref st (s\<lparr>qs_nextQueueSequence := n\<rparr>) =
      (set_state ref st s)\<lparr>qs_nextQueueSequence := n, qs_settled := qs_settled s\<rparr>" for st n
    by (cases s) (simp add: set_state_def)
  ultimately show ?thesis by simp
qed

lemma dequeue_all_facts:
  assumes "lane_queue_ok q"
  shows "map en_sequence (fst (dequeue_all q)) = map en_sequence (lane_list q) \<and>
    lane_queue_ok (snd (dequeue_all q)) \<and> lane_list (snd (dequeue_all q)) = []"
  using assms
proof (induction q rule: dequeue_all.induct)
  case (1 q)
  show ?case
  proof (cases "lane_list q")
    case Nil
    with dequeueLaneQueue_Nil [OF 1(2)] 1(2) show ?thesis by (simp add: dequeue_all.simps)
  next
    case (Cons e es)
    then obtain q' where d: "dequeueLaneQueue q = (Some (e\<lparr>en_queued := False\<rparr>), q')" "lane_queue_ok q'"
        "lane_list q' = es"
      using dequeueLaneQueue_Cons [OF 1(2)] by metis
    from 1(1) [OF d(1) [symmetric] refl d(2)] d Cons show ?thesis
      by (subst (1 2 3) dequeue_all.simps) (simp add: case_prod_beta Let_def)
  qed
qed

lemma fold_settle:
  "fold (\<lambda>e. settle (en_sequence e) outcome) es s =
    s\<lparr>qs_settled := qs_settled s @ map (\<lambda>e. (en_sequence e, outcome)) es\<rparr>"
  by (induction es arbitrary: s) (simp_all add: settle_def)

lemma clear_wf:
  assumes "queue_wf s"
  shows "queue_wf (snd (clearCommandLane lane s))"
proof (cases "jm_get (qs_lanes s) (normalizeLane lane)")
  case (Some ref)
  let ?q = "dequeue_all (ls_queue (qs_store s ref))"
  have "registered s ref" by (rule queue_wf_registered(1) [OF assms Some])
  moreover have "lane_queue_ok (snd ?q)" "lane_list (snd ?q) = []"
    using dequeue_all_facts [OF queue_wf_lane(1) [OF assms]] by blast+
  ultimately have "queue_wf ((set_state ref ((qs_store s ref)\<lparr>ls_queue := snd ?q\<rparr>) s)
      \<lparr>qs_nextQueueSequence := qs_nextQueueSequence s, qs_settled := settled\<rparr>)" for settled
    by (intro queue_wf_set_state [OF assms]) simp_all
  moreover have "snd (clearCommandLane lane s) = (set_state ref ((qs_store s ref)\<lparr>ls_queue := snd ?q\<rparr>) s)
      \<lparr>qs_nextQueueSequence := qs_nextQueueSequence s,
       qs_settled := qs_settled s @ map (\<lambda>e. (en_sequence e, LaneCleared)) (fst ?q)\<rparr>"
    using Some by (simp add: clearCommandLane_def Let_def case_prod_beta fold_settle set_state_def)
  ultimately show ?thesis by simp
qed (use assms in \<open>simp add: clearCommandLane_def\<close>)

end
