(* ===== verification/Command_Queue_Run.thy ===== *)
theory Command_Queue_Run
  imports Command_Queue_Wf
begin

text \<open>
  Runs of the queue: every operation keeps the state well-formed, and every accepted task is, at
  any time, in exactly one place: queued in one lane, running, or settled.
\<close>

section \<open>Well-formedness of every operation\<close>

lemma queue_wf_settle [simp]: "queue_wf (settle sequence outcome s) = queue_wf s"
  by (simp add: settle_def queue_wf_def lane_wf_def task_wf_def registered_def Let_def)

lemma queue_wf_queued_registered:
  "queue_wf s \<Longrightarrow> e \<in> set (lane_list (ls_queue (qs_store s ref))) \<Longrightarrow> registered s ref"
  by (auto dest: queue_wf_lane(4) [where r = ref])

lemma removeLaneQueueEntry_wf:
  assumes wf: "queue_wf s" and e: "e \<in> set (lane_list (ls_queue (qs_store s ref)))"
  shows "queue_wf (set_state ref ((qs_store s ref)\<lparr>ls_queue :=
    snd (removeLaneQueueEntry (ls_queue (qs_store s ref)) e)\<rparr>) s)"
proof -
  note lane = queue_wf_lane [OF wf, where r = ref]
  note f = removeLaneQueueEntry_facts [OF lane(1) e]
  have "queue_wf ((set_state ref ((qs_store s ref)\<lparr>ls_queue :=
      snd (removeLaneQueueEntry (ls_queue (qs_store s ref)) e)\<rparr>) s)
      \<lparr>qs_nextQueueSequence := qs_nextQueueSequence s, qs_settled := qs_settled s\<rparr>)"
    using f lane(2) by (intro queue_wf_set_state [OF wf queue_wf_queued_registered [OF wf e]]) auto
  then show ?thesis by simp
qed

lemma abortQueued_wf:
  assumes "queue_wf s"
  shows "queue_wf (abortQueued ref sequence s)"
proof (cases "find (\<lambda>e. en_sequence e = sequence) (lane_list (ls_queue (qs_store s ref)))")
  case (Some e)
  then have "e \<in> set (lane_list (ls_queue (qs_store s ref)))"
    by (auto simp: find_Some_iff)
  from removeLaneQueueEntry_wf [OF assms this] Some assms show ?thesis
    by (auto simp: abortQueued_def case_prod_beta Let_def intro: retire_wf)
qed (use assms in \<open>simp add: abortQueued_def\<close>)

text \<open>Removing a task from the running ones only touches the lane state that owns its slot.\<close>

lemma tasks_of_remove:
  assumes "distinct (map rt_taskId running)" "t \<in> set running"
    "rt_state t \<noteq> r \<or> rt_generation t \<noteq> ls_generation st"
  shows "tasks_of (filter (\<lambda>x. rt_taskId x \<noteq> rt_taskId t) running) r st = tasks_of running r st"
proof -
  have "x = t" if "x \<in> set running" "rt_taskId x = rt_taskId t" for x
    using assms(1,2) that by (auto simp: distinct_map inj_on_def)
  with assms(3) show ?thesis
    by (auto simp: tasks_of_def intro!: filter_cong)
qed

lemma removeAll_map: "removeAll (f x) (map f xs) = map f (filter (\<lambda>y. f y \<noteq> f x) xs)"
  by (induction xs) auto

lemma tasks_of_member:
  assumes "queue_wf s" "t \<in> set (qs_running s)" "rt_generation t = ls_generation (qs_store s (rt_state t))"
  shows "rt_taskId t \<in> set (ls_activeTaskIds (qs_store s (rt_state t)))" "registered s (rt_state t)"
proof -
  have "t \<in> set (tasks_of (qs_running s) (rt_state t) (qs_store s (rt_state t)))"
    using assms by (simp add: tasks_of_def)
  then show *: "rt_taskId t \<in> set (ls_activeTaskIds (qs_store s (rt_state t)))"
    unfolding queue_wf_lane(3) [OF assms(1)] by simp
  show "registered s (rt_state t)"
    using * queue_wf_lane(5) [OF assms(1), of "rt_state t"] by fastforce
qed

text \<open>The state in which a task has given up its slot, before the lanes are drained again.\<close>

definition settle_slot :: "RunningTask \<Rightarrow> QueueState \<Rightarrow> QueueState" where
  "settle_slot t s = snd (completeTask (rt_state t) (rt_taskId t) (rt_generation t)
     (s\<lparr>qs_running := filter (\<lambda>x. rt_taskId x \<noteq> rt_taskId t) (qs_running s)\<rparr>))"

lemma settleTask_unfold:
  assumes "find (\<lambda>t. rt_taskId t = taskId) (qs_running s) = Some t"
  shows "settleTask now taskId fulfilled s =
    settle (en_sequence (rt_entry t)) (if fulfilled then Resolved else RejectedByTask)
      (if rt_generation t = ls_generation (qs_store s (rt_state t))
       then drainReadyCommandLane now (rt_lane t) (Some (rt_state t)) (settle_slot t s)
       else settle_slot t s)" "t \<in> set (qs_running s)" "rt_taskId t = taskId"
proof -
  show "t \<in> set (qs_running s)" and id: "rt_taskId t = taskId"
    using assms by (auto simp: find_Some_iff)
  show "settleTask now taskId fulfilled s =
    settle (en_sequence (rt_entry t)) (if fulfilled then Resolved else RejectedByTask)
      (if rt_generation t = ls_generation (qs_store s (rt_state t))
       then drainReadyCommandLane now (rt_lane t) (Some (rt_state t)) (settle_slot t s)
       else settle_slot t s)"
    using assms id by (simp add: settleTask_def settle_slot_def completeTask_def Let_def)
qed

lemma settle_slot_simps [simp]:
  "qs_lanes (settle_slot t s) = qs_lanes s" "qs_nextRef (settle_slot t s) = qs_nextRef s"
  "qs_nextQueueSequence (settle_slot t s) = qs_nextQueueSequence s"
  "qs_groups (settle_slot t s) = qs_groups s" "qs_groupByLane (settle_slot t s) = qs_groupByLane s"
  "qs_settled (settle_slot t s) = qs_settled s"
  "qs_running (settle_slot t s) = filter (\<lambda>x. rt_taskId x \<noteq> rt_taskId t) (qs_running s)"
  "ls_queue (qs_store (settle_slot t s) r) = ls_queue (qs_store s r)"
  "ls_lane (qs_store (settle_slot t s) r) = ls_lane (qs_store s r)"
  "ls_maxConcurrent (qs_store (settle_slot t s) r) = ls_maxConcurrent (qs_store s r)"
  "ls_draining (qs_store (settle_slot t s) r) = ls_draining (qs_store s r)"
  "ls_generation (qs_store (settle_slot t s) r) = ls_generation (qs_store s r)"
  by (simp_all add: settle_slot_def completeTask_def set_state_def Let_def)

lemma settle_slot_wf:
  assumes wf: "queue_wf s" and t: "t \<in> set (qs_running s)"
  shows "queue_wf (settle_slot t s)"
proof (cases "rt_generation t = ls_generation (qs_store s (rt_state t))")
  case True
  let ?ref = "rt_state t" and ?running = "filter (\<lambda>x. rt_taskId x \<noteq> rt_taskId t) (qs_running s)"
  let ?st = "(qs_store s ?ref)\<lparr>ls_activeTaskIds :=
    removeAll (rt_taskId t) (ls_activeTaskIds (qs_store s ?ref))\<rparr>"
  note lane = queue_wf_lane [OF wf, where r = ?ref]
  have dist: "distinct (map rt_taskId (qs_running s))" using wf by (simp add: queue_wf_def)
  show ?thesis
  proof (rule queue_wf_update [OF wf tasks_of_member(2) [OF wf t True]])
    show "settle_slot t s = (set_state ?ref ?st s)\<lparr>qs_nextTaskId := qs_nextTaskId s,
        qs_nextQueueSequence := qs_nextQueueSequence s, qs_running := ?running,
        qs_settled := qs_settled s, qs_waits := qs_waits s\<rparr>"
      using True by (simp add: settle_slot_def completeTask_def set_state_def Let_def)
    have "tasks_of ?running ?ref ?st =
        filter (\<lambda>x. rt_taskId x \<noteq> rt_taskId t) (tasks_of (qs_running s) ?ref (qs_store s ?ref))"
      by (simp add: tasks_of_def) (metis (no_types, lifting) conj_commute)
    then show "ls_activeTaskIds ?st = map rt_taskId (tasks_of ?running ?ref ?st)"
      by (simp add: lane(3) removeAll_map)
    show "\<forall>r. r \<noteq> ?ref \<longrightarrow>
        tasks_of ?running r (qs_store s r) = tasks_of (qs_running s) r (qs_store s r)"
      using tasks_of_remove [OF dist t] by auto
  qed (use lane dist in \<open>auto simp: distinct_map inj_on_def\<close>)
next
  case False
  have dist: "distinct (map rt_taskId (qs_running s))" using wf by (simp add: queue_wf_def)
  have s': "settle_slot t s = s\<lparr>qs_running := filter (\<lambda>x. rt_taskId x \<noteq> rt_taskId t) (qs_running s)\<rparr>"
    using False by (simp add: settle_slot_def completeTask_def Let_def)
  have "tasks_of (filter (\<lambda>x. rt_taskId x \<noteq> rt_taskId t) (qs_running s)) r (qs_store s r) =
      tasks_of (qs_running s) r (qs_store s r)" for r
    using False by (intro tasks_of_remove [OF dist t]) auto
  with wf dist show ?thesis
    by (auto simp: s' queue_wf_def lane_wf_def task_wf_def registered_def Let_def distinct_map inj_on_def)
qed

lemma settleTask_wf:
  assumes wf: "queue_wf s"
  shows "queue_wf (settleTask now taskId fulfilled s)"
proof (cases "find (\<lambda>t. rt_taskId t = taskId) (qs_running s)")
  case (Some t)
  note u = settleTask_unfold [OF Some]
  have "rt_lane t = ls_lane (qs_store s (rt_state t))"
    using wf u(2) by (simp add: queue_wf_def task_wf_def)
  then have "jm_get (qs_lanes (settle_slot t s)) (rt_lane t) = Some (rt_state t)"
    if "rt_generation t = ls_generation (qs_store s (rt_state t))"
    using tasks_of_member(2) [OF wf u(2) that] by (simp add: registered_def)
  then show ?thesis
    using settle_slot_wf [OF wf u(2)] by (simp add: u(1) drainReady_wf)
qed (use wf in \<open>simp add: settleTask_def\<close>)

lemma set_width_wf:
  assumes "queue_wf s" "getLaneState lane s = (ref, s1)"
  shows "queue_wf (set_state ref ((qs_store s1 ref)\<lparr>ls_maxConcurrent := n\<rparr>) s1)"
  using getLaneState_wf [OF assms] by (intro queue_wf_set_width)

lemma setCommandLaneConcurrency_wf:
  "queue_wf s \<Longrightarrow> queue_wf (setCommandLaneConcurrency now lane n s)"
  by (auto simp: setCommandLaneConcurrency_def Let_def split: prod.split intro!: drainReady_wf set_width_wf)

lemma enqueueCommandInLane_wf:
  assumes "queue_wf s"
  shows "queue_wf (snd (enqueueCommandInLane now closed lane opts s))"
proof -
  obtain ref s1 where l: "getLaneState (normalizeLane lane) s = (ref, s1)"
    by (cases "getLaneState (normalizeLane lane) s")
  note g = getLaneState_wf [OF assms l]
  have "queue_wf (set_state ref (enqueueLaneEntry (qs_store s1 ref)
      (new_entry opts now (qs_nextQueueSequence s1)))
      (s1\<lparr>qs_nextQueueSequence := qs_nextQueueSequence s1 + 1\<rparr>))"
    by (rule enqueue_wf [OF g(1,3)]) (simp add: new_entry_def)
  with assms l show ?thesis
    by (simp add: enqueueCommandInLane_def Let_def drainReady_wf)
qed

lemma publish_install_wf:
  assumes "queue_wf s"
  shows "queue_wf (fst (publish_install cfg validated s))"
proof -
  have "queue_wf (fst (publish_lane l acc))" if "queue_wf (fst acc)" for l acc
    using that by (auto simp: publish_lane_def Let_def split: prod.split intro: set_width_wf)
  then have "queue_wf (fst (fold publish_lane lanes acc))" if "queue_wf (fst acc)" for lanes acc
    using that by (induction lanes arbitrary: acc) simp_all
  moreover have "core (fst (fold publish_clear gs acc)) = core (fst acc)" for gs acc
    by (induction gs arbitrary: acc) simp_all
  moreover have "core (fst (fold publish_group gs acc)) = core (fst acc)" for gs acc
    by (induction gs arbitrary: acc) simp_all
  ultimately have "core (fst (publish_install cfg validated s)) =
      core (fst (fold publish_lane (cf_lanes cfg) (s, [])))"
    "queue_wf (fst (fold publish_lane (cf_lanes cfg) (s, [])))"
    using assms by (simp_all add: publish_install_def)
  then show ?thesis using queue_wf_core by blast
qed

lemma publish_drains_wf: "queue_wf s \<Longrightarrow> queue_wf (fold (publish_drain now) lanes s)"
  by (induction lanes arbitrary: s) (auto simp: publish_drain_def drainReady_wf split: option.split)

lemma publishLaneConfiguration_unfold:
  assumes "publishLaneConfiguration now cfg s = Inr s'"
  obtains validated where "validate_groups (cf_groups cfg) = Inr validated"
    "s' = fold (publish_drain now) (snd (publish_install cfg validated s))
       (fst (publish_install cfg validated s))"
  using assms by (auto simp: publishLaneConfiguration_def split: sum.splits prod.splits)

lemma publishLaneConfiguration_wf:
  "queue_wf s \<Longrightarrow> publishLaneConfiguration now cfg s = Inr s' \<Longrightarrow> queue_wf s'"
  by (elim publishLaneConfiguration_unfold) (simp add: publish_install_wf publish_drains_wf)

lemma resetCommandLane_wf:
  assumes "queue_wf s"
  shows "queue_wf (snd (resetCommandLane now lane s))"
  using assms
  by (auto simp: resetCommandLane_def Let_def split: option.split
      intro!: drainReady_wf queue_wf_reset dest: queue_wf_registered(1))

text \<open>\<open>resetAllLanes\<close> resets every registered state before it drains any.\<close>

abbreviation reset_refs :: "nat list \<Rightarrow> QueueState \<Rightarrow> QueueState" where
  "reset_refs \<equiv> fold (\<lambda>ref s. set_state ref (reset_state (qs_store s ref)) s)"

lemma reset_refs_wf:
  "queue_wf s \<Longrightarrow> \<forall>ref \<in> set refs. registered s ref \<Longrightarrow> queue_wf (reset_refs refs s)"
proof (induction refs arbitrary: s)
  case (Cons ref refs)
  have "registered (set_state ref (reset_state (qs_store s ref)) s) r = registered s r" for r
    by (simp add: registered_def set_state_def reset_state_def)
  with Cons show ?case by (simp add: queue_wf_reset)
qed simp

lemma queue_wf_values: "queue_wf s \<Longrightarrow> ref \<in> set (jm_values (qs_lanes s)) \<Longrightarrow> registered s ref"
  by (auto simp: queue_wf_def registered_def jm_values_def jm_ok_get)

lemma drains_wf: "queue_wf s \<Longrightarrow> queue_wf (fold (\<lambda>lane. drainReadyCommandLane now lane None) lanes s)"
  by (induction lanes arbitrary: s) (simp_all add: drainReady_wf)

lemma resetAllLanes_wf: "queue_wf s \<Longrightarrow> queue_wf (resetAllLanes now s)"
  by (simp add: resetAllLanes_def Let_def drains_wf reset_refs_wf queue_wf_values)

lemma queue_step_wf: "queue_wf s \<Longrightarrow> queue_wf (queue_step op s)"
  by (induction op s rule: queue_step.induct)
    (auto simp: enqueueCommandInLane_wf abortQueued_wf settleTask_wf setCommandLaneConcurrency_wf
      clear_wf resetCommandLane_wf resetAllLanes_wf split: sum.split intro: publishLaneConfiguration_wf)

section \<open>No task is lost or run twice\<close>

definition queued_seqs :: "LaneState \<Rightarrow> nat multiset" where
  "queued_seqs st = mset (map en_sequence (lane_list (ls_queue st)))"

definition running_seqs :: "QueueState \<Rightarrow> nat multiset" where
  "running_seqs s = mset (map (\<lambda>t. en_sequence (rt_entry t)) (qs_running s))"

text \<open>Every lane state ever created counts, so that no task can hide in a retired one.\<close>

definition pending_seqs :: "QueueState \<Rightarrow> nat multiset" where
  "pending_seqs s = (\<Sum>r<qs_nextRef s. queued_seqs (qs_store s r)) + running_seqs s"

definition accepted_seqs :: "QueueState \<Rightarrow> nat multiset" where
  "accepted_seqs s = pending_seqs s + mset (map fst (qs_settled s))"

lemma queued_store_update:
  assumes "(ref :: nat) < n"
  shows "(\<Sum>r<n. queued_seqs ((store(ref := st)) r)) + queued_seqs (store ref) =
    (\<Sum>r<n. queued_seqs (store r)) + queued_seqs st"
proof -
  have "(\<Sum>r<n. queued_seqs (f r)) = queued_seqs (f ref) + (\<Sum>r\<in>{..<n} - {ref}. queued_seqs (f r))" for f
    using assms by (intro sum.remove) simp_all
  note split = this
  have "(\<Sum>r\<in>{..<n} - {ref}. queued_seqs ((store(ref := st)) r)) =
      (\<Sum>r\<in>{..<n} - {ref}. queued_seqs (store r))"
    by (intro sum.cong) auto
  then show ?thesis
    unfolding split [of "store(ref := st)"] split [of store] by simp
qed

lemma pending_set_state:
  assumes "ref < qs_nextRef s" "queued_seqs st = queued_seqs (qs_store s ref)"
  shows "pending_seqs (set_state ref st s) = pending_seqs s"
  using queued_store_update [OF assms(1), of "qs_store s" st] assms(2)
  by (simp add: pending_seqs_def running_seqs_def set_state_def)

lemma start_entry_pending:
  assumes wf: "queue_wf s" and l: "jm_get (qs_lanes s) lane = Some ref"
    and d: "dequeueLaneQueue (ls_queue (qs_store s ref)) = (Some entry, queue)"
  shows "pending_seqs (start_entry now lane ref entry queue s) = pending_seqs s"
proof -
  note ref = queue_wf_registered [OF wf l] and lane = queue_wf_lane [OF wf, where r = ref]
  obtain e es where es: "lane_list (ls_queue (qs_store s ref)) = e # es"
    using dequeueLaneQueue_Nil [OF lane(1)] d by (cases "lane_list (ls_queue (qs_store s ref))") auto
  obtain q' where "dequeueLaneQueue (ls_queue (qs_store s ref)) = (Some (e\<lparr>en_queued := False\<rparr>), q')"
    "lane_list q' = es"
    by (rule dequeueLaneQueue_Cons [OF lane(1) es])
  with d have q: "lane_list queue = es" "en_sequence entry = en_sequence e" by auto
  let ?st = "(qs_store s ref)\<lparr>ls_queue := queue,
      ls_activeTaskIds := ls_activeTaskIds (qs_store s ref) @ [qs_nextTaskId s]\<rparr>"
  have "queued_seqs (qs_store s ref) = queued_seqs ?st + {#en_sequence entry#}"
    using es q by (simp add: queued_seqs_def)
  then show ?thesis
    using queued_store_update [OF ref(3), of "qs_store s" ?st]
    by (simp add: pending_seqs_def running_seqs_def start_entry_def set_state_def Let_def)
qed

lemma retire_fields [simp]:
  "qs_store (retireIdleScopedCommandLane ref s) = qs_store s"
  "qs_nextRef (retireIdleScopedCommandLane ref s) = qs_nextRef s"
  "qs_running (retireIdleScopedCommandLane ref s) = qs_running s"
  "qs_settled (retireIdleScopedCommandLane ref s) = qs_settled s"
  "qs_nextQueueSequence (retireIdleScopedCommandLane ref s) = qs_nextQueueSequence s"
  "qs_groups (retireIdleScopedCommandLane ref s) = qs_groups s"
  "qs_groupByLane (retireIdleScopedCommandLane ref s) = qs_groupByLane s"
  by (simp_all add: retireIdleScopedCommandLane_def Let_def)

lemma getLaneState_pending [simp]: "pending_seqs (snd (getLaneState lane s)) = pending_seqs s"
proof (cases "jm_get (qs_lanes s) lane")
  case None
  have "(\<Sum>r<qs_nextRef s. queued_seqs (((qs_store s)(qs_nextRef s := st)) r)) =
      (\<Sum>r<qs_nextRef s. queued_seqs (qs_store s r))" for st
    by (intro sum.cong) auto
  with None show ?thesis
    by (simp add: getLaneState_def pending_seqs_def running_seqs_def)
      (simp add: queued_seqs_def new_lane_state_def lane_queue_ok_create)
qed (simp add: getLaneState_def)

lemma getLaneState_fields [simp]:
  "qs_settled (snd (getLaneState lane s)) = qs_settled s"
  "qs_running (snd (getLaneState lane s)) = qs_running s"
  "qs_nextQueueSequence (snd (getLaneState lane s)) = qs_nextQueueSequence s"
  "qs_groups (snd (getLaneState lane s)) = qs_groups s"
  "qs_groupByLane (snd (getLaneState lane s)) = qs_groupByLane s"
  by (simp_all add: getLaneState_def split: option.split)

text \<open>What no drain touches.\<close>

lemma sched_step_kept:
  assumes "sched_step s s'"
  shows "qs_settled s' = qs_settled s" "qs_nextQueueSequence s' = qs_nextQueueSequence s"
    "qs_groups s' = qs_groups s" "qs_groupByLane s' = qs_groupByLane s"
  using assms
  by (induction rule: sched_step.induct)
    (simp_all add: start_entry_def set_draining_def set_state_def Let_def)

lemma sched_steps_kept:
  assumes "sched_steps s s'"
  shows "qs_settled s' = qs_settled s" "qs_nextQueueSequence s' = qs_nextQueueSequence s"
    "qs_groups s' = qs_groups s" "qs_groupByLane s' = qs_groupByLane s"
  using assms by (induction rule: rtranclp_induct) (simp_all add: sched_step_kept)

lemma set_draining_pending [simp]: "pending_seqs (set_draining ref b s) = pending_seqs s"
proof -
  have "queued_seqs (((qs_store s)(ref := (qs_store s ref)\<lparr>ls_draining := b\<rparr>)) r) =
      queued_seqs (qs_store s r)" for r
    by (simp add: queued_seqs_def)
  then show ?thesis
    by (simp add: set_draining_def set_state_def pending_seqs_def running_seqs_def)
qed

lemma sched_step_pending: "sched_step s s' \<Longrightarrow> queue_wf s \<Longrightarrow> pending_seqs s' = pending_seqs s"
proof (induction rule: sched_step.induct)
  case (retire s ref)
  then show ?case by (simp add: pending_seqs_def running_seqs_def)
qed (simp_all add: start_entry_pending)

lemma sched_steps_accepted:
  "sched_steps s s' \<Longrightarrow> queue_wf s \<Longrightarrow> accepted_seqs s' = accepted_seqs s"
  by (induction rule: rtranclp_induct)
    (auto simp: accepted_seqs_def sched_step_pending sched_step_kept dest: sched_steps_wf)

lemma drainReady_accepted:
  assumes "queue_wf s"
    "completedState = None \<or> (\<exists>ref. completedState = Some ref \<and> jm_get (qs_lanes s) lane = Some ref)"
  shows "accepted_seqs (drainReadyCommandLane now lane completedState s) = accepted_seqs s"
    "qs_nextQueueSequence (drainReadyCommandLane now lane completedState s) = qs_nextQueueSequence s"
  using sched_steps_accepted [OF drainReady_steps [OF assms(2)] assms(1)]
    sched_steps_kept(2) [OF drainReady_steps [OF assms(2)]] by simp_all

definition conserved :: "QueueState \<Rightarrow> bool" where
  "conserved s \<longleftrightarrow> 0 < qs_nextQueueSequence s \<and>
     accepted_seqs s = mset [1..<qs_nextQueueSequence s]"

lemma conserved_cong:
  "accepted_seqs s' = accepted_seqs s \<Longrightarrow> qs_nextQueueSequence s' = qs_nextQueueSequence s \<Longrightarrow>
    conserved s \<Longrightarrow> conserved s'"
  by (simp add: conserved_def)

lemma drainReady_conserved:
  assumes "queue_wf s" "conserved s"
    "completedState = None \<or> (\<exists>ref. completedState = Some ref \<and> jm_get (qs_lanes s) lane = Some ref)"
  shows "conserved (drainReadyCommandLane now lane completedState s)"
  using conserved_cong [OF drainReady_accepted [OF assms(1,3)] assms(2)] .

lemma accepted_set_state:
  "ref < qs_nextRef s \<Longrightarrow> queued_seqs st = queued_seqs (qs_store s ref) \<Longrightarrow>
    accepted_seqs (set_state ref st s) = accepted_seqs s"
  by (simp add: accepted_seqs_def pending_set_state) (simp add: set_state_def)

lemma conserved_set_state:
  "conserved s \<Longrightarrow> ref < qs_nextRef s \<Longrightarrow> ls_queue st = ls_queue (qs_store s ref) \<Longrightarrow>
    conserved (set_state ref st s)"
  by (rule conserved_cong [OF accepted_set_state]) (simp_all add: queued_seqs_def, simp add: set_state_def)

lemma getLaneState_conserved: "conserved s \<Longrightarrow> conserved (snd (getLaneState lane s))"
  by (simp add: conserved_def accepted_seqs_def)

lemma registered_allocated: "queue_wf s \<Longrightarrow> registered s ref \<Longrightarrow> ref < qs_nextRef s"
  by (auto simp: registered_def queue_wf_def)

lemma core_accepted: "core s = core s' \<Longrightarrow> accepted_seqs s = accepted_seqs s'"
  by (simp add: core_def accepted_seqs_def pending_seqs_def running_seqs_def)

text \<open>Moving sequence numbers of one lane's queue to the settled ones.\<close>

lemma accepted_settle_queued:
  assumes "ref < qs_nextRef s" "queued_seqs (qs_store s ref) = queued_seqs st + mset (map fst outcomes)"
  shows "accepted_seqs ((set_state ref st s)\<lparr>qs_settled := qs_settled s @ outcomes\<rparr>) = accepted_seqs s"
  using queued_store_update [OF assms(1), of "qs_store s" st] assms(2)
  by (simp add: accepted_seqs_def pending_seqs_def running_seqs_def set_state_def)

lemma abortQueued_conserved:
  assumes wf: "queue_wf s" and c: "conserved s"
  shows "conserved (abortQueued ref sequence s)"
proof (cases "find (\<lambda>e. en_sequence e = sequence) (lane_list (ls_queue (qs_store s ref)))")
  case (Some e)
  then have e: "e \<in> set (lane_list (ls_queue (qs_store s ref)))" "en_sequence e = sequence"
    by (auto simp: find_Some_iff)
  note lane = queue_wf_lane [OF wf, where r = ref]
  note f = removeLaneQueueEntry_facts [OF lane(1) e(1)]
  let ?st = "(qs_store s ref)\<lparr>ls_queue := snd (removeLaneQueueEntry (ls_queue (qs_store s ref)) e)\<rparr>"
  have single: "filter (\<lambda>x. en_sequence x = en_sequence e) (lane_list (ls_queue (qs_store s ref))) = [e]"
    using lane(1) e(1) by (intro filter_key_single) (simp_all add: lane_queue_ok_def)
  have "queued_seqs (qs_store s ref) = queued_seqs ?st + mset (map fst [(sequence, QueuedAborted)])"
    using arg_cong [OF multiset_partition [of "mset (lane_list (ls_queue (qs_store s ref)))"
        "\<lambda>x. en_sequence x = en_sequence e"], of "image_mset en_sequence"] single f(3) e(2)
    by (simp add: queued_seqs_def flip: mset_filter)
  from accepted_settle_queued [OF registered_allocated [OF wf queue_wf_queued_registered [OF wf e(1)]] this]
  have "accepted_seqs (settle sequence QueuedAborted (set_state ref ?st s)) = accepted_seqs s"
    by (simp add: settle_def) (simp add: set_state_def)
  then have "accepted_seqs (abortQueued ref sequence s) = accepted_seqs s"
    using Some f(1)
    by (simp add: abortQueued_def case_prod_beta Let_def accepted_seqs_def pending_seqs_def running_seqs_def)
  moreover have "qs_nextQueueSequence (abortQueued ref sequence s) = qs_nextQueueSequence s"
    by (simp add: abortQueued_def case_prod_beta Let_def settle_def set_state_def split: option.split)
  ultimately show ?thesis using c conserved_cong by blast
qed (use c in \<open>simp add: abortQueued_def\<close>)

lemma settle_slot_accepted:
  assumes wf: "queue_wf s" and t: "t \<in> set (qs_running s)"
  shows "accepted_seqs (settle_slot t s) + {#en_sequence (rt_entry t)#} = accepted_seqs s"
proof -
  have "filter (\<lambda>x. rt_taskId x = rt_taskId t) (qs_running s) = [t]"
    using wf t by (intro filter_key_single) (simp_all add: queue_wf_def)
  then have "running_seqs s = running_seqs (settle_slot t s) + {#en_sequence (rt_entry t)#}"
    using arg_cong [OF multiset_partition [of "mset (qs_running s)" "\<lambda>x. rt_taskId x = rt_taskId t"],
        of "image_mset (\<lambda>t. en_sequence (rt_entry t))"]
    by (simp add: running_seqs_def flip: mset_filter)
  moreover have "queued_seqs (qs_store (settle_slot t s) r) = queued_seqs (qs_store s r)" for r
    by (simp add: queued_seqs_def)
  ultimately show ?thesis
    by (simp add: accepted_seqs_def pending_seqs_def)
qed

lemma settleTask_conserved:
  assumes wf: "queue_wf s" and c: "conserved s"
  shows "conserved (settleTask now taskId fulfilled s)"
proof (cases "find (\<lambda>t. rt_taskId t = taskId) (qs_running s)")
  case (Some t)
  note u = settleTask_unfold [OF Some]
  have "rt_lane t = ls_lane (qs_store s (rt_state t))"
    using wf u(2) by (simp add: queue_wf_def task_wf_def)
  then have *: "jm_get (qs_lanes (settle_slot t s)) (rt_lane t) = Some (rt_state t)"
    if "rt_generation t = ls_generation (qs_store s (rt_state t))"
    using tasks_of_member(2) [OF wf u(2) that] by (simp add: registered_def)
  note d = drainReady_accepted [OF settle_slot_wf [OF wf u(2)], of "Some (rt_state t)" "rt_lane t"]
  let ?s = "if rt_generation t = ls_generation (qs_store s (rt_state t))
       then drainReadyCommandLane now (rt_lane t) (Some (rt_state t)) (settle_slot t s)
       else settle_slot t s"
  have "accepted_seqs ?s = accepted_seqs (settle_slot t s)"
    "qs_nextQueueSequence ?s = qs_nextQueueSequence s"
    using d * by simp_all
  moreover have "accepted_seqs (settle x y s') = accepted_seqs s' + {#x#}"
    "qs_nextQueueSequence (settle x y s') = qs_nextQueueSequence s'" for x y s'
    by (simp_all add: settle_def accepted_seqs_def pending_seqs_def running_seqs_def)
  ultimately show ?thesis
    unfolding u(1) using settle_slot_accepted [OF wf u(2)] c by (simp only: conserved_def)
qed (use c in \<open>simp add: settleTask_def\<close>)

lemma enqueue_conserved:
  assumes wf: "queue_wf s" and c: "conserved s" and reg: "registered s ref"
    and e: "en_sequence e = qs_nextQueueSequence s"
  shows "conserved (set_state ref (enqueueLaneEntry (qs_store s ref) e)
    (s\<lparr>qs_nextQueueSequence := qs_nextQueueSequence s + 1\<rparr>))"
proof -
  let ?st = "enqueueLaneEntry (qs_store s ref) e" and ?n = "qs_nextQueueSequence s"
  note lane = queue_wf_lane [OF wf, where r = ref]
  have "queued_seqs ?st = queued_seqs (qs_store s ref) + {#?n#}"
    using enqueueLaneEntry_facts(2) [OF lane(1), of e] lane(2) e by (simp add: queued_seqs_def)
  then have "accepted_seqs (set_state ref ?st (s\<lparr>qs_nextQueueSequence := ?n + 1\<rparr>)) =
      accepted_seqs s + {#?n#}"
    using queued_store_update [OF registered_allocated [OF wf reg], of "qs_store s" ?st]
    by (simp add: accepted_seqs_def pending_seqs_def running_seqs_def set_state_def)
  moreover have "mset [1..<?n + 1] = mset [1..<?n] + {#?n#}"
    using c by (simp add: conserved_def upt_Suc_append del: mset_upt)
  ultimately show ?thesis
    using c by (simp add: conserved_def del: mset_upt) (simp add: set_state_def)
qed

lemma enqueueCommandInLane_conserved:
  assumes wf: "queue_wf s" and c: "conserved s"
  shows "conserved (snd (enqueueCommandInLane now closed lane opts s))"
proof -
  obtain ref s1 where l: "getLaneState (normalizeLane lane) s = (ref, s1)"
    by (cases "getLaneState (normalizeLane lane) s")
  note g = getLaneState_wf [OF wf l]
  have c1: "conserved s1" using getLaneState_conserved [OF c, of "normalizeLane lane"] l by simp
  let ?e = "new_entry opts now (qs_nextQueueSequence s1)"
  have e: "en_sequence ?e = qs_nextQueueSequence s1" by (simp add: new_entry_def)
  have "conserved (drainReadyCommandLane now (normalizeLane lane) None
      (set_state ref (enqueueLaneEntry (qs_store s1 ref) ?e)
        (s1\<lparr>qs_nextQueueSequence := qs_nextQueueSequence s1 + 1\<rparr>)))"
    using drainReady_conserved [OF enqueue_wf [OF g(1,3) e] enqueue_conserved [OF g(1) c1 g(3) e]] by simp
  with c l show ?thesis
    by (simp add: enqueueCommandInLane_def Let_def)
qed

lemma set_width_conserved:
  assumes "queue_wf s" "conserved s" "getLaneState lane s = (ref, s1)"
  shows "conserved (set_state ref ((qs_store s1 ref)\<lparr>ls_maxConcurrent := n\<rparr>) s1)"
  using getLaneState_wf [OF assms(1,3)] getLaneState_conserved [OF assms(2), of lane] assms(3)
  by (intro conserved_set_state) (simp_all add: registered_allocated)

lemma setCommandLaneConcurrency_conserved:
  "queue_wf s \<Longrightarrow> conserved s \<Longrightarrow> conserved (setCommandLaneConcurrency now lane n s)"
  by (auto simp: setCommandLaneConcurrency_def Let_def split: prod.split
      intro!: drainReady_conserved set_width_wf set_width_conserved)

lemma core_conserved:
  assumes "core s = core s'"
  shows "conserved s = conserved s'"
proof -
  have "qs_nextQueueSequence s = qs_nextQueueSequence s'" using assms by (simp add: core_def)
  with core_accepted [OF assms] show ?thesis by (simp add: conserved_def)
qed

lemma drains_conserved:
  assumes "queue_wf s" "conserved s"
  shows "conserved (fold (\<lambda>lane. drainReadyCommandLane now lane None) lanes s)"
  using assms by (induction lanes arbitrary: s) (simp_all add: drainReady_wf drainReady_conserved)

lemma publish_drains_conserved:
  "queue_wf s \<Longrightarrow> conserved s \<Longrightarrow> conserved (fold (publish_drain now) lanes s)"
  by (induction lanes arbitrary: s)
    (auto simp: publish_drain_def drainReady_wf drainReady_conserved split: option.split)

lemma publish_lanes_conserved:
  "queue_wf (fst acc) \<Longrightarrow> conserved (fst acc) \<Longrightarrow> conserved (fst (fold publish_lane lanes acc))"
proof (induction lanes arbitrary: acc)
  case (Cons l lanes)
  have "queue_wf (fst (publish_lane l acc))" "conserved (fst (publish_lane l acc))"
    using Cons.prems
    by (auto simp: publish_lane_def Let_def split: prod.split intro: set_width_wf set_width_conserved)
  with Cons.IH show ?case by simp
qed simp

lemma publish_groups_core:
  "core (fst (fold publish_group gs (fold publish_clear cs acc))) = core (fst acc)"
proof -
  have clear: "core (fst (fold publish_clear cs acc)) = core (fst acc)" for acc
    by (induction cs arbitrary: acc) simp_all
  have "core (fst (fold publish_group gs acc)) = core (fst acc)" for acc
    by (induction gs arbitrary: acc) simp_all
  with clear show ?thesis by simp
qed

lemma publish_install_conserved:
  assumes "queue_wf s" "conserved s"
  shows "conserved (fst (publish_install cfg validated s))"
  unfolding publish_install_def
  using publish_lanes_conserved [of "(s, [])"] assms core_conserved [OF publish_groups_core] by simp

lemma publishLaneConfiguration_conserved:
  "queue_wf s \<Longrightarrow> conserved s \<Longrightarrow> publishLaneConfiguration now cfg s = Inr s' \<Longrightarrow> conserved s'"
  by (elim publishLaneConfiguration_unfold)
    (simp add: publish_install_wf publish_install_conserved publish_drains_conserved)

lemma clear_conserved:
  assumes wf: "queue_wf s" and c: "conserved s"
  shows "conserved (snd (clearCommandLane lane s))"
proof (cases "jm_get (qs_lanes s) (normalizeLane lane)")
  case (Some ref)
  let ?q = "dequeue_all (ls_queue (qs_store s ref))"
  let ?outcomes = "map (\<lambda>e. (en_sequence e, LaneCleared)) (fst ?q)"
  note q = dequeue_all_facts [OF queue_wf_lane(1) [OF wf, of ref]]
  have s': "snd (clearCommandLane lane s) = (set_state ref ((qs_store s ref)\<lparr>ls_queue := snd ?q\<rparr>) s)
      \<lparr>qs_settled := qs_settled s @ ?outcomes\<rparr>"
    using Some by (simp add: clearCommandLane_def Let_def case_prod_beta fold_settle set_state_def)
  have "queued_seqs (qs_store s ref) =
      queued_seqs ((qs_store s ref)\<lparr>ls_queue := snd ?q\<rparr>) + mset (map fst ?outcomes)"
    using q by (simp add: queued_seqs_def o_def)
  from accepted_settle_queued [OF queue_wf_registered(3) [OF wf Some] this]
  show ?thesis
    using c unfolding s' by (simp add: conserved_def) (simp add: set_state_def)
qed (use c in \<open>simp add: clearCommandLane_def\<close>)

lemma reset_refs_conserved:
  "conserved s \<Longrightarrow> \<forall>ref \<in> set refs. ref < qs_nextRef s \<Longrightarrow> conserved (reset_refs refs s)"
proof (induction refs arbitrary: s)
  case (Cons ref refs)
  have "conserved (set_state ref (reset_state (qs_store s ref)) s)"
    using Cons.prems by (intro conserved_set_state) (simp_all add: reset_state_def)
  with Cons show ?case by (simp add: set_state_def)
qed simp

lemma resetCommandLane_conserved:
  assumes "queue_wf s" "conserved s"
  shows "conserved (snd (resetCommandLane now lane s))"
proof (cases "jm_get (qs_lanes s) (normalizeLane lane)")
  case (Some ref)
  note r = queue_wf_registered [OF assms(1) Some]
  have "conserved (set_state ref (reset_state (qs_store s ref)) s)"
    using reset_refs_conserved [of s "[ref]"] assms(2) r(3) by simp
  with Some show ?thesis
    by (simp add: resetCommandLane_def Let_def drainReady_conserved queue_wf_reset [OF assms(1) r(1)])
qed (use assms in \<open>simp add: resetCommandLane_def\<close>)

lemma resetAllLanes_conserved:
  assumes "queue_wf s" "conserved s"
  shows "conserved (resetAllLanes now s)"
proof -
  have "conserved (reset_refs (jm_values (qs_lanes s)) s)"
    using assms by (intro reset_refs_conserved) (auto dest: queue_wf_values registered_allocated)
  then show ?thesis
    using assms(1) by (simp add: resetAllLanes_def Let_def drains_conserved reset_refs_wf queue_wf_values)
qed

lemma queue_step_conserved: "queue_wf s \<Longrightarrow> conserved s \<Longrightarrow> conserved (queue_step op s)"
  by (induction op s rule: queue_step.induct)
    (auto simp: enqueueCommandInLane_conserved abortQueued_conserved settleTask_conserved
      setCommandLaneConcurrency_conserved clear_conserved resetCommandLane_conserved
      resetAllLanes_conserved split: sum.split intro: publishLaneConfiguration_conserved)

lemma run_queue_invariants:
  assumes "queue_wf s" "conserved s"
  shows "queue_wf (run_queue ops s)" "conserved (run_queue ops s)"
  using assms
  by (induction ops arbitrary: s) (simp_all add: run_queue_def queue_step_wf queue_step_conserved)

lemma conserved_initial: "conserved initial_queue_state"
  by (simp add: conserved_def accepted_seqs_def pending_seqs_def running_seqs_def initial_queue_state_def)

end
