(* ===== verification/Command_Groups.thy ===== *)
theory Command_Groups
  imports Command_Queue_Run
begin

text \<open>
  The registry of capacity groups: its invariant (a lane is in at most one group, members are
  eligible, the reservations of a group fit its budget), that validation and installation of
  groups keep it, and what the admission rule means for the load of a group.
\<close>

section \<open>The registry\<close>

definition group_valid :: "LaneGroupState \<Rightarrow> bool" where
  "group_valid g \<longleftrightarrow> lg_group g \<noteq> [] \<and> distinct (lg_members g) \<and>
     list_all (\<lambda>m. group_eligible m \<and> m \<noteq> []) (lg_members g) \<and>
     sum_list (map (reservation g) (lg_members g)) \<le> lg_budget g"

definition group_registry_ok :: "QueueState \<Rightarrow> bool" where
  "group_registry_ok s \<longleftrightarrow>
     (\<forall>G g. jm_get (qs_groups s) G = Some g \<longrightarrow> lg_group g = G \<and> group_valid g \<and>
        (\<forall>m. m \<in> set (lg_members g) \<longleftrightarrow> jm_get (qs_groupByLane s) m = Some G)) \<and>
     (\<forall>m G. jm_get (qs_groupByLane s) m = Some G \<longrightarrow> jm_get (qs_groups s) G \<noteq> None)"

lemma registry_group:
  assumes "group_registry_ok s" "jm_get (qs_groups s) G = Some g"
  shows "lg_group g = G" "group_valid g" "G \<noteq> []"
    "m \<in> set (lg_members g) \<longleftrightarrow> jm_get (qs_groupByLane s) m = Some G"
  using assms by (auto simp: group_registry_ok_def group_valid_def)

lemma registry_owner:
  assumes "group_registry_ok s" "jm_get (qs_groupByLane s) m = Some G"
  obtains g where "jm_get (qs_groups s) G = Some g" "G \<noteq> []"
  using assms registry_group(3) by (fastforce simp: group_registry_ok_def)

text \<open>A lane has the group that lists it, and no other.\<close>

lemma getLaneGroup_iff:
  assumes "group_registry_ok s"
  shows "getLaneGroup s lane = Some g \<longleftrightarrow>
    jm_get (qs_groups s) (lg_group g) = Some g \<and> lane \<in> set (lg_members g)"
proof (cases "jm_get (qs_groupByLane s) lane")
  case None
  then show ?thesis
    using registry_group(4) [OF assms] by (auto simp: getLaneGroup_def)
next
  case (Some G)
  obtain g' where g': "jm_get (qs_groups s) G = Some g'" "G \<noteq> []"
    by (rule registry_owner [OF assms Some])
  have "getLaneGroup s lane = Some g'" using Some g' by (simp add: getLaneGroup_def)
  moreover have "lg_group g' = G" "lane \<in> set (lg_members g')"
    using registry_group(1,4) [OF assms g'(1)] Some by simp_all
  moreover have "g = g'" if "jm_get (qs_groups s) (lg_group g) = Some g" "lane \<in> set (lg_members g)"
    using registry_group(4) [OF assms that(1), of lane] that Some g'(1) by simp
  ultimately show ?thesis using g'(1) by auto
qed

section \<open>Validation\<close>

lemma sum_list_point:
  "distinct xs \<Longrightarrow> sum_list (map (\<lambda>x. if x = y then n else 0) xs) \<le> (n :: nat)"
  by (induction xs) (auto simp: sum_list_eq_0_iff)

definition reserved_in :: "(string, nat) jsmap \<Rightarrow> string \<Rightarrow> nat" where
  "reserved_in r m = (case jm_get r m of None \<Rightarrow> 0 | Some n \<Rightarrow> n)"

lemma collect_reservations_total:
  "collect_reservations members specs r acc = Inr (r', acc') \<Longrightarrow> distinct xs \<Longrightarrow>
    sum_list (map (reserved_in r) xs) \<le> acc \<Longrightarrow> sum_list (map (reserved_in r') xs) \<le> acc'"
proof (induction members specs r acc rule: collect_reservations.induct)
  case (2 members rawLane n rest r acc)
  let ?m = "normalizeLane rawLane" and ?n = "nat (max 0 n)"
  have "sum_list (map (reserved_in (jm_set ?m ?n r)) xs) \<le>
      sum_list (map (\<lambda>x. reserved_in r x + (if x = ?m then ?n else 0)) xs)"
    by (intro sum_list_mono) (simp add: reserved_in_def)
  also have "\<dots> \<le> acc + ?n"
    using 2(3,4) sum_list_point [of xs ?m ?n] by (simp add: sum_list_addf)
  finally show ?case
    using 2(1) [OF refl refl _ _ 2(3)] 2(2) by (simp add: Let_def split: if_splits)
qed simp

lemma normalizeLane_nonempty: "normalizeLane lane \<noteq> []"
  by (simp add: normalizeLane_def CommandLane_Main_def Let_def)

lemma validate_spec_valid:
  assumes v: "validateCommandLaneGroupSpec groupId spec = Inr g" and id: "groupId \<noteq> []"
  shows "group_valid g" "lg_group g = groupId"
    "set (lg_members g) = set (map normalizeLane (gs_members spec))"
    "lg_budget g = nat (max 0 (gs_budget spec))"
proof -
  let ?members = "map normalizeLane (gs_members spec)"
  have find: "find (\<lambda>m. \<not> group_eligible m) ?members = None"
    using v by (auto simp: validateCommandLaneGroupSpec_def Let_def split: option.splits)
  obtain r acc where c: "collect_reservations ?members (gs_reservations spec) [] 0 = Inr (r, acc)"
    "acc \<le> nat (max 0 (gs_budget spec))"
    and g: "g = \<lparr>lg_group = groupId, lg_budget = nat (max 0 (gs_budget spec)),
      lg_members = js_set_of ?members, lg_reservations = r\<rparr>"
    using v find
    by (auto simp: validateCommandLaneGroupSpec_def Let_def split: sum.splits prod.splits if_splits)
  have members: "distinct (js_set_of ?members)" "set (js_set_of ?members) = set ?members"
    by (simp_all add: js_set_of_def)
  have "sum_list (map (reserved_in r) (js_set_of ?members)) \<le> acc"
    by (rule collect_reservations_total [OF c(1) members(1)]) (simp add: reserved_in_def)
  moreover have "reservation g = reserved_in r"
    by (simp add: g reservation_def reserved_in_def fun_eq_iff)
  moreover have "list_all (\<lambda>m. group_eligible m \<and> m \<noteq> []) (js_set_of ?members)"
    using find normalizeLane_nonempty members(2) by (fastforce simp: find_None_iff list_all_iff)
  ultimately show "group_valid g"
    using members c(2) id by (simp add: group_valid_def g)
  show "lg_group g = groupId" "set (lg_members g) = set ?members"
    "lg_budget g = nat (max 0 (gs_budget spec))"
    using members by (simp_all add: g)
qed

lemma validate_groups_valid:
  assumes "validate_groups groups = Inr gs" "\<forall>G \<in> fst ` set groups. G \<noteq> []"
  shows "\<forall>g \<in> set gs. group_valid g"
  using assms
  by (induction groups arbitrary: gs rule: validate_groups.induct)
    (auto split: sum.splits dest: validate_spec_valid(1))

section \<open>Installation\<close>

lemma fold_jm_delete: "jm_get (fold jm_delete ks m) k = (if k \<in> set ks then None else jm_get m k)"
  by (induction ks arbitrary: m) auto

lemma fold_jm_set: "jm_get (fold (\<lambda>k. jm_set k v) ks m) k = (if k \<in> set ks then Some v else jm_get m k)"
  by (induction ks arbitrary: m) auto

lemma detach_member_fields [simp]:
  "qs_groupByLane (detach_member G lane s) = qs_groupByLane s"
  by (simp add: detach_member_def split: option.split)

lemma detach_members_fields [simp]:
  "qs_groupByLane (fold (detach_member G) lanes s) = qs_groupByLane s"
  by (induction lanes arbitrary: s) simp_all

definition without_members :: "string list \<Rightarrow> LaneGroupState \<Rightarrow> LaneGroupState" where
  "without_members lanes g = g\<lparr>lg_members := filter (\<lambda>m. m \<notin> set lanes) (lg_members g)\<rparr>"

text \<open>Detaching lanes takes them out of the members of the groups that own them.\<close>

lemma detach_members_groups:
  assumes "\<forall>m. jm_get (qs_groupByLane s) m \<noteq> Some []"
    "\<forall>H g m. H \<noteq> G \<longrightarrow> jm_get (qs_groups s) H = Some g \<longrightarrow> m \<in> set (lg_members g) \<longrightarrow>
      jm_get (qs_groupByLane s) m = Some H"
  shows "jm_get (qs_groups (fold (detach_member G) lanes s)) H =
    (if H = G then jm_get (qs_groups s) H else map_option (without_members lanes) (jm_get (qs_groups s) H))"
  using assms
proof (induction lanes arbitrary: s)
  case Nil
  show ?case by (cases "jm_get (qs_groups s) H") (auto simp: without_members_def)
next
  case (Cons lane lanes)
  have step: "jm_get (qs_groups (detach_member G lane s)) H =
      (if H = G then jm_get (qs_groups s) H else map_option (without_members [lane]) (jm_get (qs_groups s) H))" for H
  proof (cases "H \<noteq> G \<and> jm_get (qs_groupByLane s) lane = Some H")
    case True
    with Cons.prems(1) have "H \<noteq> []" "H \<noteq> G" "jm_get (qs_groupByLane s) lane = Some H" by auto
    then have "detach_member G lane s = (case jm_get (qs_groups s) H of None \<Rightarrow> s
        | Some g \<Rightarrow> s\<lparr>qs_groups := jm_set H (g\<lparr>lg_members := removeAll lane (lg_members g)\<rparr>) (qs_groups s)\<rparr>)"
      by (simp add: detach_member_def)
    moreover have "removeAll lane xs = filter (\<lambda>m. m \<noteq> lane) xs" for xs :: "string list"
      by (induction xs) auto
    ultimately show ?thesis
      using True by (auto simp: without_members_def split: option.split)
  next
    case False
    have "without_members [lane] g = g" if "jm_get (qs_groups s) H = Some g" "H \<noteq> G" for g
    proof -
      have "lane \<notin> set (lg_members g)" using False that Cons.prems(2) by blast
      then have "filter (\<lambda>m. m \<noteq> lane) (lg_members g) = lg_members g" by (auto simp: filter_id_conv)
      then show ?thesis by (simp add: without_members_def)
    qed
    moreover have "jm_get (qs_groups (detach_member G lane s)) H = jm_get (qs_groups s) H"
      using False by (auto simp: detach_member_def split: option.split)
    ultimately show ?thesis by (cases "jm_get (qs_groups s) H") auto
  qed
  have "\<forall>H g m. H \<noteq> G \<longrightarrow> jm_get (qs_groups (detach_member G lane s)) H = Some g \<longrightarrow>
      m \<in> set (lg_members g) \<longrightarrow> jm_get (qs_groupByLane (detach_member G lane s)) m = Some H"
    using Cons.prems(2) by (auto simp: step without_members_def)
  with Cons.prems(1) have ih: "jm_get (qs_groups (fold (detach_member G) lanes (detach_member G lane s))) H =
    (if H = G then jm_get (qs_groups (detach_member G lane s)) H
     else map_option (without_members lanes) (jm_get (qs_groups (detach_member G lane s)) H))"
    by (intro Cons.IH) simp_all
  have "without_members lanes (without_members [lane] g) = without_members (lane # lanes) g" for g
    by (simp add: without_members_def)
  with ih step [of H] step [of G] show ?case
    by (simp add: option.map_comp o_def)
qed

text \<open>The registry after an installation, as one formula.\<close>

lemma install_groups:
  assumes ok: "group_registry_ok s"
  shows "jm_get (qs_groups (installCommandLaneGroup new s)) H = (if H = lg_group new then Some new
      else map_option (without_members (lg_members new)) (jm_get (qs_groups s) H))"
    "jm_get (qs_groupByLane (installCommandLaneGroup new s)) m =
      (if m \<in> set (lg_members new) then Some (lg_group new)
       else if jm_get (qs_groupByLane s) m = Some (lg_group new) then None
       else jm_get (qs_groupByLane s) m)"
proof -
  let ?G = "lg_group new"
  define s1 where "s1 = (case jm_get (qs_groups s) ?G of None \<Rightarrow> s
    | Some previous \<Rightarrow> forget_members (lg_members previous) s)"
  have groups: "qs_groups s1 = qs_groups s"
    by (simp add: s1_def forget_members_def split: option.split)
  have owner: "jm_get (qs_groupByLane s1) m =
      (if jm_get (qs_groupByLane s) m = Some ?G then None else jm_get (qs_groupByLane s) m)" for m
  proof (cases "jm_get (qs_groups s) ?G")
    case None
    then have "jm_get (qs_groupByLane s) m \<noteq> Some ?G"
      using registry_owner [OF ok] by (metis option.distinct(1))
    with None show ?thesis by (simp add: s1_def)
  next
    case (Some g)
    with registry_group(4) [OF ok Some, of m] show ?thesis
      by (auto simp: s1_def forget_members_def fold_jm_delete)
  qed
  have "\<forall>m. jm_get (qs_groupByLane s1) m \<noteq> Some []"
    using ok by (auto simp: owner elim: registry_owner)
  moreover have "\<forall>H g m. H \<noteq> ?G \<longrightarrow> jm_get (qs_groups s1) H = Some g \<longrightarrow> m \<in> set (lg_members g) \<longrightarrow>
      jm_get (qs_groupByLane s1) m = Some H"
    using registry_group(4) [OF ok] by (auto simp: owner groups)
  ultimately have detach: "jm_get (qs_groups (fold (detach_member ?G) (lg_members new) s1)) H =
    (if H = ?G then jm_get (qs_groups s1) H
     else map_option (without_members (lg_members new)) (jm_get (qs_groups s1) H))"
    by (rule detach_members_groups)
  show "jm_get (qs_groups (installCommandLaneGroup new s)) H = (if H = lg_group new then Some new
      else map_option (without_members (lg_members new)) (jm_get (qs_groups s) H))"
    using detach by (simp add: installCommandLaneGroup_def Let_def groups s1_def [symmetric])
  show "jm_get (qs_groupByLane (installCommandLaneGroup new s)) m =
      (if m \<in> set (lg_members new) then Some (lg_group new)
       else if jm_get (qs_groupByLane s) m = Some (lg_group new) then None
       else jm_get (qs_groupByLane s) m)"
    by (simp add: installCommandLaneGroup_def Let_def s1_def [symmetric] fold_jm_set owner)
qed

lemma without_members_valid:
  assumes "group_valid g"
  shows "group_valid (without_members lanes g)"
proof -
  have "reservation (without_members lanes g) = reservation g"
    by (simp add: fun_eq_iff reservation_def without_members_def)
  then have "sum_list (map (reservation (without_members lanes g)) (lg_members (without_members lanes g)))
      \<le> sum_list (map (reservation g) (lg_members g))"
    using total_queued_subset by (simp add: without_members_def)
  with assms show ?thesis
    by (auto simp: group_valid_def without_members_def list_all_iff)
qed

lemma install_registry_ok:
  assumes ok: "group_registry_ok s" and new: "group_valid new"
  shows "group_registry_ok (installCommandLaneGroup new s)"
proof -
  note i = install_groups [OF ok, of new]
  have "lg_group g = H \<and> group_valid g \<and>
      (\<forall>m. m \<in> set (lg_members g) \<longleftrightarrow> jm_get (qs_groupByLane (installCommandLaneGroup new s)) m = Some H)"
    if g: "jm_get (qs_groups (installCommandLaneGroup new s)) H = Some g" for H g
  proof (cases "H = lg_group new")
    case True
    with g have "g = new" by (simp add: i)
    with True new show ?thesis by (simp add: i)
  next
    case False
    with g obtain g0 where g0: "jm_get (qs_groups s) H = Some g0" "g = without_members (lg_members new) g0"
      by (auto simp: i)
    note r = registry_group [OF ok g0(1)]
    have "m \<in> set (lg_members g) \<longleftrightarrow>
        jm_get (qs_groupByLane (installCommandLaneGroup new s)) m = Some H" for m
      using False r(4) [of m] by (auto simp: i g0(2) without_members_def)
    moreover have "lg_group g = H" using r(1) g0(2) by (simp add: without_members_def)
    ultimately show ?thesis using r(2) g0(2) by (simp add: without_members_valid)
  qed
  moreover have "jm_get (qs_groups (installCommandLaneGroup new s)) H \<noteq> None"
    if "jm_get (qs_groupByLane (installCommandLaneGroup new s)) m = Some H" for m H
    using that ok by (auto simp: i group_registry_ok_def split: if_splits)
  ultimately show ?thesis
    unfolding group_registry_ok_def by blast
qed

lemma clear_registry_ok:
  assumes ok: "group_registry_ok (fst acc)"
  shows "group_registry_ok (fst (publish_clear G acc))"
proof (cases "jm_get (qs_groups (fst acc)) G")
  case (Some g)
  let ?s = "fst (publish_clear G acc)"
  note r = registry_group [OF ok]
  have "jm_get (qs_groups ?s) = (jm_get (qs_groups (fst acc)))(G := None)"
    "jm_get (qs_groupByLane ?s) m = (if jm_get (qs_groupByLane (fst acc)) m = Some G then None
      else jm_get (qs_groupByLane (fst acc)) m)" for m
    using Some r(4) [OF Some, of m] by (auto simp: publish_clear_def forget_members_def fold_jm_delete)
  with ok show ?thesis
    by (auto simp: group_registry_ok_def)
qed (use ok in \<open>simp add: publish_clear_def\<close>)

end
