(* ===== verification/Command_Admission.thy ===== *)
theory Command_Admission
  imports Command_Groups
begin

text \<open>
  What admission guarantees: the load of a group (running tasks plus the unused part of the
  reservations) never grows past its budget, a lane never runs more than its width, a lane below
  its reservation is admitted at once, and no operation leaves an admissible task waiting.
\<close>

section \<open>Load of a group\<close>

definition group_load :: "QueueState \<Rightarrow> LaneGroupState \<Rightarrow> nat" where
  "group_load s g = sum_list (map (\<lambda>m. max (getMemberActiveCount s m) (reservation g m)) (lg_members g))"

lemma group_load_capacity: "fst (readGroupCapacity s g) + snd (readGroupCapacity s g) = group_load s g"
proof -
  have "a + (b - a) = max a b" for a b :: nat by simp
  then show ?thesis
    by (simp add: readGroupCapacity_def group_load_def sum_list_addf [symmetric])
qed

definition group_active :: "QueueState \<Rightarrow> LaneGroupState \<Rightarrow> nat" where
  "group_active s g = sum_list (map (getMemberActiveCount s) (lg_members g))"

lemma group_active_capacity: "fst (readGroupCapacity s g) = group_active s g"
  by (simp add: readGroupCapacity_def group_active_def)

lemma admits_iff:
  "resolveGroupBlockReason s g lane (readGroupCapacity s g) = None \<longleftrightarrow> group_active s g < lg_budget g \<and>
    (getMemberActiveCount s lane < reservation g lane \<or> group_load s g < lg_budget g)"
  using group_load_capacity [of s g] group_active_capacity [of s g]
  by (cases "readGroupCapacity s g") (auto simp: resolveGroupBlockReason_def)

lemma admits_antimono:
  assumes "\<forall>m. getMemberActiveCount s m \<le> getMemberActiveCount s' m"
    "resolveGroupBlockReason s' g lane (readGroupCapacity s' g) = None"
  shows "resolveGroupBlockReason s g lane (readGroupCapacity s g) = None"
proof -
  have "group_active s g \<le> group_active s' g" "group_load s g \<le> group_load s' g"
    using assms(1) unfolding group_active_def group_load_def
    by (auto intro!: sum_list_mono max.mono)
  with assms show ?thesis
    unfolding admits_iff by (meson le_less_trans)
qed

text \<open>A reservation is worth a slot: within budget, a member below its reservation is admitted.\<close>

lemma reserved_member_admitted:
  assumes "lane \<in> set (lg_members g)" "group_load s g \<le> lg_budget g"
    "getMemberActiveCount s lane < reservation g lane"
  shows "resolveGroupBlockReason s g lane (readGroupCapacity s g) = None"
proof -
  have "group_active s g + 1 \<le> group_load s g"
    unfolding group_active_def group_load_def
    using assms(1,3) by (intro sum_list_drop [where x = lane]) auto
  with assms(2,3) show ?thesis by (simp add: admits_iff)
qed

section \<open>What one scheduling step does to the counts\<close>

lemma lane_at_ref: "lane_at s lane = Some st \<longleftrightarrow>
    (\<exists>ref. jm_get (qs_lanes s) lane = Some ref \<and> st = qs_store s ref)"
  by (auto simp: lane_at_def)

lemma getMemberActiveCount_ref:
  "getMemberActiveCount s lane =
    (case jm_get (qs_lanes s) lane of None \<Rightarrow> 0 | Some ref \<Rightarrow> length (ls_activeTaskIds (qs_store s ref)))"
  by (simp add: getMemberActiveCount_def lane_at_def split: option.split)

lemma start_entry_counts:
  assumes wf: "queue_wf s" and l: "jm_get (qs_lanes s) lane = Some ref"
  shows "getMemberActiveCount (start_entry now lane ref entry queue s) m =
    getMemberActiveCount s m + (if m = lane then 1 else 0)"
proof -
  have "r \<noteq> ref" if "jm_get (qs_lanes s) m = Some r" "m \<noteq> lane" for r
    using that queue_wf_registered(2) [OF wf] l by metis
  with l show ?thesis
    by (auto simp: getMemberActiveCount_ref start_entry_def set_state_def Let_def split: option.split)
qed

lemma set_draining_counts [simp]: "getMemberActiveCount (set_draining ref b s) = getMemberActiveCount s"
  by (auto simp: fun_eq_iff getMemberActiveCount_ref set_draining_def set_state_def split: option.split)

lemma retire_counts [simp]:
  "getMemberActiveCount (retireIdleScopedCommandLane ref s) = getMemberActiveCount s"
  by (auto simp: fun_eq_iff getMemberActiveCount_ref retireIdleScopedCommandLane_def Let_def split: option.split)

lemma getLaneState_counts [simp]:
  assumes "queue_wf s"
  shows "getMemberActiveCount (snd (getLaneState lane s)) = getMemberActiveCount s"
proof
  fix m
  have "r \<noteq> qs_nextRef s" if "jm_get (qs_lanes s) m = Some r" for r
    using queue_wf_registered(3) [OF assms that] by simp
  then show "getMemberActiveCount (snd (getLaneState lane s)) m = getMemberActiveCount s m"
    by (auto simp: getMemberActiveCount_ref getLaneState_def new_lane_state_def split: option.split)
qed

lemma sched_step_counts:
  assumes "sched_step s s'" "queue_wf s"
  obtains "getMemberActiveCount s' = getMemberActiveCount s"
  | lane where "canAdmitInGroup s lane"
    "\<forall>m. getMemberActiveCount s' m = getMemberActiveCount s m + (if m = lane then 1 else 0)"
  using assms by cases (auto simp: start_entry_counts)

lemma sched_step_counts_mono:
  assumes "sched_step s s'" "queue_wf s"
  shows "getMemberActiveCount s m \<le> getMemberActiveCount s' m"
  by (rule sched_step_counts [OF assms]) auto

section \<open>The budget of a group\<close>

lemma registry_kept:
  "qs_groups s' = qs_groups s \<Longrightarrow> qs_groupByLane s' = qs_groupByLane s \<Longrightarrow>
    group_registry_ok s' = group_registry_ok s"
  by (simp add: group_registry_ok_def)

lemma sum_list_one_more:
  assumes "distinct xs" "\<forall>x \<in> set xs. x \<noteq> y \<longrightarrow> f x = g x" "f y \<le> g y + (1 :: nat)"
  shows "sum_list (map f xs) \<le> sum_list (map g xs) + 1"
proof -
  have "sum_list (map f xs) \<le> sum_list (map (\<lambda>x. g x + (if x = y then 1 else 0)) xs)"
    using assms(2,3) by (intro sum_list_mono) auto
  also have "\<dots> \<le> sum_list (map g xs) + 1"
    using sum_list_point [OF assms(1), of y 1] by (simp add: sum_list_addf)
  finally show ?thesis .
qed

lemma sched_step_load:
  assumes step: "sched_step s s'" and wf: "queue_wf s" and ok: "group_registry_ok s"
    and g: "jm_get (qs_groups s) G = Some g"
  shows "group_load s' g \<le> max (group_load s g) (lg_budget g)"
  using sched_step_counts [OF step wf]
proof cases
  case 1
  then show ?thesis by (simp add: group_load_def)
next
  case (2 lane)
  note r = registry_group [OF ok g]
  have "distinct (lg_members g)" using r(2) by (simp add: group_valid_def)
  show ?thesis
  proof (cases "lane \<in> set (lg_members g)")
    case True
    have "getLaneGroup s lane = Some g"
      using getLaneGroup_iff [OF ok] r(1) g True by simp
    with 2(1) have adm: "getMemberActiveCount s lane < reservation g lane \<or> group_load s g < lg_budget g"
      by (simp add: canAdmitInGroup_def admits_iff)
    show ?thesis
    proof (cases "getMemberActiveCount s lane < reservation g lane")
      case True
      then have "group_load s' g = group_load s g"
        unfolding group_load_def using 2(2)
        by (intro arg_cong [where f = sum_list] map_cong) auto
      then show ?thesis by simp
    next
      case False
      have "group_load s' g \<le> group_load s g + 1"
        unfolding group_load_def using 2(2) \<open>distinct (lg_members g)\<close>
        by (intro sum_list_one_more [where y = lane]) auto
      with adm False show ?thesis by simp
    qed
  next
    case False
    then have "group_load s' g = group_load s g"
      unfolding group_load_def using 2(2)
      by (intro arg_cong [where f = sum_list] map_cong) auto
    then show ?thesis by simp
  qed
qed

lemma sched_steps_load:
  assumes "sched_steps s s'" "queue_wf s" "group_registry_ok s" "jm_get (qs_groups s) G = Some g"
  shows "group_load s' g \<le> max (group_load s g) (lg_budget g)"
  using assms
proof (induction rule: rtranclp_induct)
  case (step s' s'')
  note k = sched_steps_kept(3,4) [OF step.hyps(1)]
  have "group_load s'' g \<le> max (group_load s' g) (lg_budget g)"
    using step.prems k by (intro sched_step_load [OF step.hyps(2) sched_steps_wf [OF step.hyps(1)]])
      (simp_all add: registry_kept [OF k])
  with step.IH step.prems show ?case by simp
qed simp

section \<open>The width of a lane\<close>

definition lane_load_ok :: "QueueState \<Rightarrow> QueueState \<Rightarrow> bool" where
  "lane_load_ok s s' \<longleftrightarrow> (\<forall>r. length (ls_activeTaskIds (qs_store s' r)) \<le>
     max (length (ls_activeTaskIds (qs_store s r))) (ls_maxConcurrent (qs_store s' r)))"

lemma sched_step_width:
  assumes "sched_step s s'" "queue_wf s"
  shows "lane_load_ok s s'" "r < qs_nextRef s \<Longrightarrow> ls_maxConcurrent (qs_store s' r) = ls_maxConcurrent (qs_store s r)"
    "qs_nextRef s \<le> qs_nextRef s'"
  using assms(1)
  by (induction rule: sched_step.induct) (auto simp: lane_load_ok_def start_entry_def set_draining_def set_state_def Let_def
    getLaneState_def new_lane_state_def split: option.split)

lemma unregistered_inactive: "queue_wf s \<Longrightarrow> qs_nextRef s \<le> r \<Longrightarrow> ls_activeTaskIds (qs_store s r) = []"
  using queue_wf_lane(5) [of s r] registered_allocated [of s r] by fastforce

lemma sched_steps_width:
  assumes "sched_steps s s'" "queue_wf s"
  shows "lane_load_ok s s'"
  using assms
proof (induction rule: rtranclp_induct)
  case base
  then show ?case by (simp add: lane_load_ok_def)
next
  case (step s' s'')
  have wf: "queue_wf s'" by (rule sched_steps_wf [OF step.hyps(1) step.prems])
  note w = sched_step_width [OF step.hyps(2) wf] and ih = step.IH [OF step.prems]
  have "length (ls_activeTaskIds (qs_store s'' r)) \<le>
      max (length (ls_activeTaskIds (qs_store s r))) (ls_maxConcurrent (qs_store s'' r))" for r
  proof (cases "r < qs_nextRef s'")
    case True
    have "length (ls_activeTaskIds (qs_store s'' r)) \<le>
        max (length (ls_activeTaskIds (qs_store s' r))) (ls_maxConcurrent (qs_store s'' r))"
      "length (ls_activeTaskIds (qs_store s' r)) \<le>
        max (length (ls_activeTaskIds (qs_store s r))) (ls_maxConcurrent (qs_store s' r))"
      using w(1) ih by (simp_all add: lane_load_ok_def)
    with w(2) [OF True] show ?thesis by simp
  next
    case False
    have "length (ls_activeTaskIds (qs_store s'' r)) \<le>
        max (length (ls_activeTaskIds (qs_store s' r))) (ls_maxConcurrent (qs_store s'' r))"
      using w(1) by (simp add: lane_load_ok_def)
    with unregistered_inactive [OF wf, of r] False show ?thesis by simp
  qed
  then show ?case by (simp add: lane_load_ok_def)
qed

section \<open>Every operation is a release of slots followed by scheduling\<close>

definition releases :: "QueueState \<Rightarrow> QueueState \<Rightarrow> bool" where
  "releases s s1 \<longleftrightarrow>
     (\<forall>r. length (ls_activeTaskIds (qs_store s1 r)) \<le> length (ls_activeTaskIds (qs_store s r))) \<and>
     (\<forall>m. getMemberActiveCount s1 m \<le> getMemberActiveCount s m)"

lemma releases_refl [simp]: "releases s s"
  by (simp add: releases_def)

lemma releases_trans: "releases s s1 \<Longrightarrow> releases s1 s2 \<Longrightarrow> releases s s2"
  unfolding releases_def by (meson order_trans)

lemma releases_set_state:
  assumes "length (ls_activeTaskIds st) \<le> length (ls_activeTaskIds (qs_store s ref))"
    "qs_lanes s1 = qs_lanes s" "qs_store s1 = (qs_store s)(ref := st)"
  shows "releases s s1"
  using assms by (auto simp: releases_def getMemberActiveCount_ref split: option.split)

lemma releases_getLaneState:
  assumes "queue_wf s"
  shows "releases s (snd (getLaneState lane s))"
  using getLaneState_counts [OF assms, of lane]
  by (auto simp: releases_def getLaneState_def new_lane_state_def split: option.split)

lemma releases_core: "core s = core s1 \<Longrightarrow> releases s s1"
  by (simp add: core_def releases_def getMemberActiveCount_def lane_at_def)

definition same_lanes :: "QueueState \<Rightarrow> QueueState \<Rightarrow> bool" where
  "same_lanes s s' \<longleftrightarrow> qs_store s' = qs_store s \<and> qs_lanes s' = qs_lanes s \<and>
     qs_groups s' = qs_groups s \<and> qs_groupByLane s' = qs_groupByLane s"

lemma same_lanes_counts: "same_lanes s s' \<Longrightarrow> getMemberActiveCount s' = getMemberActiveCount s"
  by (rule ext) (simp add: same_lanes_def getMemberActiveCount_def lane_at_def)

definition planned :: "bool \<Rightarrow> QueueState \<Rightarrow> QueueState \<Rightarrow> bool" where
  "planned regroups s s' \<longleftrightarrow> (\<exists>s1 s2. queue_wf s1 \<and> releases s s1 \<and> sched_steps s1 s2 \<and> same_lanes s2 s' \<and>
     (\<not> regroups \<longrightarrow> qs_groups s1 = qs_groups s \<and> qs_groupByLane s1 = qs_groupByLane s))"

lemma plannedI:
  assumes "queue_wf s1" "releases s s1" "sched_steps s1 s2" "same_lanes s2 s'"
    "regroups \<or> qs_groups s1 = qs_groups s \<and> qs_groupByLane s1 = qs_groupByLane s"
  shows "planned regroups s s'"
  using assms unfolding planned_def by blast

lemma plannedE:
  assumes "planned regroups s s'"
  obtains s1 s2 where "queue_wf s1" "releases s s1" "sched_steps s1 s2" "same_lanes s2 s'"
    "regroups \<or> qs_groups s1 = qs_groups s \<and> qs_groupByLane s1 = qs_groupByLane s"
  using assms by (auto simp: planned_def)

lemma same_lanes_refl [simp]: "same_lanes s s"
  by (simp add: same_lanes_def)

lemma planned_refl: "queue_wf s \<Longrightarrow> planned regroups s s"
  by (rule plannedI [of s _ s]) simp_all

lemma drains_steps: "sched_steps s (fold (\<lambda>lane. drainReadyCommandLane now lane None) lanes s)"
proof (induction lanes arbitrary: s)
  case (Cons lane lanes)
  show ?case
    using rtranclp_trans [OF drainReady_steps [where completedState = None] Cons.IH] by simp
qed simp

lemma publish_drains_steps: "sched_steps s (fold (publish_drain now) lanes s)"
proof (induction lanes arbitrary: s)
  case (Cons lane lanes)
  have "sched_steps s (publish_drain now lane s)"
    by (simp add: publish_drain_def drainReady_steps split: option.split)
  from rtranclp_trans [OF this Cons.IH] show ?case by simp
qed simp

lemma enqueueCommandInLane_planned:
  assumes wf: "queue_wf s"
  shows "planned b s (snd (enqueueCommandInLane now closed lane opts s))"
proof (cases "eo_aborted opts \<or> closed")
  case True
  with wf show ?thesis by (auto simp: enqueueCommandInLane_def planned_refl)
next
  case False
  obtain ref s1 where l: "getLaneState (normalizeLane lane) s = (ref, s1)"
    by (cases "getLaneState (normalizeLane lane) s")
  note g = getLaneState_wf [OF wf l]
  have s1: "s1 = snd (getLaneState (normalizeLane lane) s)" using l by simp
  let ?e = "new_entry opts now (qs_nextQueueSequence s1)"
  let ?s3 = "set_state ref (enqueueLaneEntry (qs_store s1 ref) ?e)
      (s1\<lparr>qs_nextQueueSequence := qs_nextQueueSequence s1 + 1\<rparr>)"
  have "releases s1 ?s3"
    by (rule releases_set_state [of "enqueueLaneEntry (qs_store s1 ref) ?e" _ ref])
      (simp_all add: set_state_def enqueueLaneEntry_def Let_def)
  then have rel: "releases s ?s3"
    unfolding s1 by (rule releases_trans [OF releases_getLaneState [OF wf]])
  have wf3: "queue_wf ?s3" by (rule enqueue_wf [OF g(1,3)]) (simp add: new_entry_def)
  have steps: "sched_steps ?s3 (snd (enqueueCommandInLane now closed lane opts s))"
    using False l by (simp add: enqueueCommandInLane_def Let_def drainReady_steps)
  show ?thesis
    by (rule plannedI [OF wf3 rel steps same_lanes_refl]) (simp add: set_state_def s1)
qed

lemma abortQueued_planned:
  assumes wf: "queue_wf s"
  shows "planned b s (abortQueued ref sequence s)"
proof (cases "find (\<lambda>e. en_sequence e = sequence) (lane_list (ls_queue (qs_store s ref)))")
  case (Some e)
  then have e: "e \<in> set (lane_list (ls_queue (qs_store s ref)))"
    by (auto simp: find_Some_iff)
  let ?st = "(qs_store s ref)\<lparr>ls_queue := snd (removeLaneQueueEntry (ls_queue (qs_store s ref)) e)\<rparr>"
  let ?s1 = "settle sequence QueuedAborted (set_state ref ?st s)"
  have "fst (removeLaneQueueEntry (ls_queue (qs_store s ref)) e)"
    by (rule removeLaneQueueEntry_facts(1) [OF queue_wf_lane(1) [OF wf] e])
  then have s': "abortQueued ref sequence s = retireIdleScopedCommandLane ref ?s1"
    using Some by (simp add: abortQueued_def case_prod_beta Let_def)
  show ?thesis
  proof (rule plannedI [of ?s1])
    show "queue_wf ?s1" using removeLaneQueueEntry_wf [OF wf e] by simp
    show "releases s ?s1"
      by (rule releases_set_state [of ?st _ ref]) (simp_all add: settle_def set_state_def)
    show "sched_steps ?s1 (abortQueued ref sequence s)"
      unfolding s' by (rule r_into_rtranclp) (rule retire)
  qed (simp_all add: settle_def set_state_def)
qed (use wf in \<open>simp add: abortQueued_def planned_refl\<close>)

lemma settle_slot_releases: "releases s (settle_slot t s)"
proof (rule releases_set_state [of "qs_store (settle_slot t s) (rt_state t)" _ "rt_state t"])
  show "qs_store (settle_slot t s) = (qs_store s)(rt_state t := qs_store (settle_slot t s) (rt_state t))"
    "length (ls_activeTaskIds (qs_store (settle_slot t s) (rt_state t))) \<le>
      length (ls_activeTaskIds (qs_store s (rt_state t)))"
    by (auto simp: settle_slot_def completeTask_def set_state_def Let_def fun_eq_iff
        intro: length_removeAll_less_eq)
qed simp

lemma settled_lane:
  assumes wf: "queue_wf s" and t: "t \<in> set (qs_running s)"
    and c: "rt_generation t = ls_generation (qs_store s (rt_state t))"
  shows "jm_get (qs_lanes s) (rt_lane t) = Some (rt_state t)"
proof -
  have "rt_lane t = ls_lane (qs_store s (rt_state t))"
    using wf t by (simp add: queue_wf_def task_wf_def)
  with tasks_of_member(2) [OF wf t c] show ?thesis by (simp add: registered_def)
qed

lemma settleTask_planned:
  assumes wf: "queue_wf s"
  shows "planned b s (settleTask now taskId fulfilled s)"
proof (cases "find (\<lambda>t. rt_taskId t = taskId) (qs_running s)")
  case (Some t)
  note u = settleTask_unfold [OF Some]
  let ?s2 = "if rt_generation t = ls_generation (qs_store s (rt_state t))
       then drainReadyCommandLane now (rt_lane t) (Some (rt_state t)) (settle_slot t s)
       else settle_slot t s"
  show ?thesis
  proof (rule plannedI [OF settle_slot_wf [OF wf u(2)] settle_slot_releases, of ?s2])
    show "sched_steps (settle_slot t s) ?s2"
      using settled_lane [OF wf u(2)] by (auto intro: drainReady_steps)
    show "same_lanes ?s2 (settleTask now taskId fulfilled s)"
      unfolding u(1) by (simp add: same_lanes_def settle_def)
  qed simp
qed (use wf in \<open>simp add: settleTask_def planned_refl\<close>)

lemma set_width_releases:
  assumes "queue_wf s" "getLaneState lane s = (ref, s1)"
  shows "releases s (set_state ref ((qs_store s1 ref)\<lparr>ls_maxConcurrent := n\<rparr>) s1)"
proof -
  have "releases s s1" using releases_getLaneState [OF assms(1), of lane] assms(2) by simp
  moreover have "releases s1 (set_state ref ((qs_store s1 ref)\<lparr>ls_maxConcurrent := n\<rparr>) s1)"
    by (rule releases_set_state [of "(qs_store s1 ref)\<lparr>ls_maxConcurrent := n\<rparr>" _ ref])
      (simp_all add: set_state_def)
  ultimately show ?thesis by (rule releases_trans)
qed

lemma setCommandLaneConcurrency_planned:
  assumes wf: "queue_wf s"
  shows "planned b s (setCommandLaneConcurrency now lane n s)"
proof -
  obtain ref s1 where l: "getLaneState (normalizeLane lane) s = (ref, s1)"
    by (cases "getLaneState (normalizeLane lane) s")
  let ?s2 = "set_state ref ((qs_store s1 ref)\<lparr>ls_maxConcurrent := lane_width (normalizeLane lane) n\<rparr>) s1"
  have "sched_steps ?s2 (setCommandLaneConcurrency now lane n s)"
    using l by (simp add: setCommandLaneConcurrency_def Let_def drainReady_steps)
  moreover have "qs_groups s1 = qs_groups s" "qs_groupByLane s1 = qs_groupByLane s"
    using getLaneState_fields(4,5) [of "normalizeLane lane" s] l by simp_all
  ultimately show ?thesis
    by (intro plannedI [OF set_width_wf [OF wf l] set_width_releases [OF wf l] _ same_lanes_refl])
      (simp_all add: set_state_def)
qed

lemma publish_lanes_releases:
  "queue_wf (fst acc) \<Longrightarrow> releases (fst acc) (fst (fold publish_lane lanes acc))"
proof (induction lanes arbitrary: acc)
  case (Cons l lanes)
  have "queue_wf (fst (publish_lane l acc))" "releases (fst acc) (fst (publish_lane l acc))"
    using Cons.prems
    by (auto simp: publish_lane_def Let_def split: prod.split intro: set_width_wf set_width_releases)
  with Cons.IH [of "publish_lane l acc"] show ?case by (auto intro: releases_trans)
qed simp

lemma publish_install_releases:
  assumes "queue_wf s"
  shows "releases s (fst (publish_install cfg validated s))"
  unfolding publish_install_def
  using publish_lanes_releases [of "(s, [])" "cf_lanes cfg"] assms
  by (intro releases_trans [OF _ releases_core [OF publish_groups_core [symmetric]]]) simp

lemma publishLaneConfiguration_planned:
  assumes wf: "queue_wf s" and p: "publishLaneConfiguration now cfg s = Inr s'"
  shows "planned True s s'"
proof -
  obtain validated where s': "s' = fold (publish_drain now) (snd (publish_install cfg validated s))
       (fst (publish_install cfg validated s))"
    by (rule publishLaneConfiguration_unfold [OF p])
  show ?thesis
    unfolding s'
    by (rule plannedI [OF publish_install_wf [OF wf] publish_install_releases [OF wf]
          publish_drains_steps same_lanes_refl]) simp
qed

lemma clear_planned:
  assumes wf: "queue_wf s"
  shows "planned b s (snd (clearCommandLane lane s))"
proof (cases "jm_get (qs_lanes s) (normalizeLane lane)")
  case (Some ref)
  let ?st = "(qs_store s ref)\<lparr>ls_queue := snd (dequeue_all (ls_queue (qs_store s ref)))\<rparr>"
  have "releases s (snd (clearCommandLane lane s))"
    using Some by (intro releases_set_state [of ?st _ ref])
      (simp_all add: clearCommandLane_def Let_def case_prod_beta fold_settle set_state_def)
  with clear_wf [OF wf] show ?thesis
    by (rule plannedI [OF _ _ rtranclp.rtrancl_refl same_lanes_refl])
      (simp add: clearCommandLane_def Let_def case_prod_beta fold_settle set_state_def split: option.split)
qed (use wf in \<open>simp add: clearCommandLane_def planned_refl\<close>)

lemma reset_releases: "releases s (set_state ref (reset_state (qs_store s ref)) s)"
  by (rule releases_set_state [of "reset_state (qs_store s ref)" _ ref])
    (simp_all add: set_state_def reset_state_def)

lemma reset_refs_releases: "releases s (reset_refs refs s)"
proof (induction refs arbitrary: s)
  case (Cons ref refs)
  show ?case using releases_trans [OF reset_releases Cons.IH] by simp
qed simp

lemma reset_refs_fields [simp]:
  "qs_lanes (reset_refs refs s) = qs_lanes s" "qs_groups (reset_refs refs s) = qs_groups s"
  "qs_groupByLane (reset_refs refs s) = qs_groupByLane s"
  by (induction refs arbitrary: s) (simp_all add: set_state_def)

lemma resetCommandLane_planned:
  assumes wf: "queue_wf s"
  shows "planned b s (snd (resetCommandLane now lane s))"
proof (cases "jm_get (qs_lanes s) (normalizeLane lane)")
  case (Some ref)
  have "sched_steps (set_state ref (reset_state (qs_store s ref)) s) (snd (resetCommandLane now lane s))"
    using Some by (simp add: resetCommandLane_def Let_def drainReady_steps)
  from plannedI [OF queue_wf_reset [OF wf queue_wf_registered(1) [OF wf Some]] reset_releases this
      same_lanes_refl] show ?thesis
    by (simp add: set_state_def)
qed (use wf in \<open>simp add: resetCommandLane_def planned_refl\<close>)

lemma resetAllLanes_planned:
  assumes wf: "queue_wf s"
  shows "planned b s (resetAllLanes now s)"
proof -
  let ?s1 = "reset_refs (jm_values (qs_lanes s)) s"
  have "queue_wf ?s1" by (simp add: reset_refs_wf [OF wf] queue_wf_values [OF wf])
  moreover have "sched_steps ?s1 (resetAllLanes now s)"
    by (simp add: resetAllLanes_def Let_def drains_steps)
  ultimately show ?thesis
    by (rule plannedI [OF _ reset_refs_releases _ same_lanes_refl]) simp
qed

fun is_publish :: "int \<times> queue_op \<Rightarrow> bool" where
  "is_publish (now, OpPublish cfg) = True"
| "is_publish _ = False"

lemma queue_step_planned: "queue_wf s \<Longrightarrow> planned (is_publish op) s (queue_step op s)"
  by (induction op s rule: queue_step.induct)
    (auto simp: enqueueCommandInLane_planned abortQueued_planned settleTask_planned
      setCommandLaneConcurrency_planned clear_planned resetCommandLane_planned
      resetAllLanes_planned planned_refl split: sum.split intro: publishLaneConfiguration_planned)

section \<open>Width and budget across any operation\<close>

lemma queue_step_width:
  assumes "queue_wf s"
  shows "lane_load_ok s (queue_step op s)"
proof -
  obtain s1 s2 where p: "queue_wf s1" "releases s s1" "sched_steps s1 s2" "same_lanes s2 (queue_step op s)"
    by (rule plannedE [OF queue_step_planned [OF assms]])
  have "length (ls_activeTaskIds (qs_store s2 r)) \<le>
      max (length (ls_activeTaskIds (qs_store s r))) (ls_maxConcurrent (qs_store s2 r))" for r
  proof -
    have "length (ls_activeTaskIds (qs_store s2 r)) \<le>
        max (length (ls_activeTaskIds (qs_store s1 r))) (ls_maxConcurrent (qs_store s2 r))"
      using sched_steps_width [OF p(3,1)] by (simp add: lane_load_ok_def)
    moreover have "length (ls_activeTaskIds (qs_store s1 r)) \<le> length (ls_activeTaskIds (qs_store s r))"
      using p(2) by (simp add: releases_def)
    ultimately show ?thesis by simp
  qed
  then show ?thesis
    using p(4) by (simp add: lane_load_ok_def same_lanes_def)
qed

lemma queue_step_load:
  assumes wf: "queue_wf s" and ok: "group_registry_ok s" and np: "\<not> is_publish op"
    and g: "jm_get (qs_groups s) G = Some g"
  shows "group_load (queue_step op s) g \<le> max (group_load s g) (lg_budget g)"
    "qs_groups (queue_step op s) = qs_groups s" "qs_groupByLane (queue_step op s) = qs_groupByLane s"
proof -
  obtain s1 s2 where p: "queue_wf s1" "releases s s1" "sched_steps s1 s2" "same_lanes s2 (queue_step op s)"
    "is_publish op \<or> qs_groups s1 = qs_groups s \<and> qs_groupByLane s1 = qs_groupByLane s"
    by (rule plannedE [OF queue_step_planned [OF wf]])
  have kept: "qs_groups s1 = qs_groups s" "qs_groupByLane s1 = qs_groupByLane s"
    using np p(5) by blast+
  note k = sched_steps_kept(3,4) [OF p(3)]
  have "group_registry_ok s1" using ok registry_kept [OF kept] by simp
  then have "group_load s2 g \<le> max (group_load s1 g) (lg_budget g)"
    using g kept(1) by (intro sched_steps_load [OF p(3,1)]) simp_all
  moreover have "group_load s1 g \<le> group_load s g"
    unfolding group_load_def using p(2) by (intro sum_list_mono max.mono) (simp_all add: releases_def)
  moreover have "group_load (queue_step op s) g = group_load s2 g"
    using same_lanes_counts [OF p(4)] by (simp add: group_load_def)
  ultimately show "group_load (queue_step op s) g \<le> max (group_load s g) (lg_budget g)" by simp
  show "qs_groups (queue_step op s) = qs_groups s" "qs_groupByLane (queue_step op s) = qs_groupByLane s"
    using p(4) kept k by (simp_all add: same_lanes_def)
qed

end
