(* ===== verification/Command_Quiescence.thy ===== *)
theory Command_Quiescence
  imports Command_Admission
begin

text \<open>
  The queue is work conserving: between operations no lane is being drained, and no lane has a
  queued task that its width and the budget of its group would admit.
\<close>

section \<open>Admissible lanes\<close>

definition admissible :: "QueueState \<Rightarrow> string \<Rightarrow> bool" where
  "admissible s lane \<longleftrightarrow>
     (case lane_at s lane of None \<Rightarrow> False
      | Some st \<Rightarrow> 0 < lq_length (ls_queue st) \<and>
          length (ls_activeTaskIds st) < ls_maxConcurrent st \<and> canAdmitInGroup s lane)"

definition quiescent :: "QueueState \<Rightarrow> bool" where
  "quiescent s \<longleftrightarrow> list_all (\<lambda>lane. \<not> admissible s lane) (jm_keys (qs_lanes s))"

definition idle :: "QueueState \<Rightarrow> bool" where
  "idle s \<longleftrightarrow> (\<forall>r. \<not> ls_draining (qs_store s r))"

lemma admissible_ref: "admissible s lane \<longleftrightarrow> (\<exists>ref. jm_get (qs_lanes s) lane = Some ref \<and>
    0 < lq_length (ls_queue (qs_store s ref)) \<and>
    length (ls_activeTaskIds (qs_store s ref)) < ls_maxConcurrent (qs_store s ref) \<and> canAdmitInGroup s lane)"
  by (auto simp: admissible_def lane_at_def split: option.split)

lemma quiescent_iff: "quiescent s \<longleftrightarrow> (\<forall>lane. \<not> admissible s lane)"
proof -
  have "lane \<in> set (jm_keys (qs_lanes s))" if "admissible s lane" for lane
    using that by (auto simp: admissible_ref jm_keys_def dest!: map_of_SomeD intro: rev_image_eqI)
  then show ?thesis by (auto simp: quiescent_def list_all_iff)
qed

lemma canAdmit_antimono:
  assumes "getLaneGroup s' lane = getLaneGroup s lane"
    "\<forall>m. getMemberActiveCount s m \<le> getMemberActiveCount s' m" "canAdmitInGroup s' lane"
  shows "canAdmitInGroup s lane"
  using assms admits_antimono [OF assms(2)] by (auto simp: canAdmitInGroup_def split: option.splits)

lemma getLaneGroup_cong:
  "qs_groups s' = qs_groups s \<Longrightarrow> qs_groupByLane s' = qs_groupByLane s \<Longrightarrow>
    getLaneGroup s' lane = getLaneGroup s lane"
  by (simp add: getLaneGroup_def split: option.split)

lemma dequeue_Some_length:
  assumes "lane_queue_ok q" "dequeueLaneQueue q = (Some e, q')"
  shows "0 < lq_length q"
proof -
  have "lane_list q \<noteq> []" using dequeueLaneQueue_Nil [OF assms(1)] assms(2) by auto
  then show ?thesis using assms(1) by (simp add: lane_queue_ok_def)
qed

lemma dequeue_nonempty:
  assumes "lane_queue_ok q" "0 < lq_length q"
  obtains e q' where "dequeueLaneQueue q = (Some e, q')"
proof -
  obtain e es where l: "lane_list q = e # es"
    using assms by (cases "lane_list q") (auto simp: lane_queue_ok_def)
  show thesis
    by (rule dequeueLaneQueue_Cons [OF assms(1) l]) (rule that)
qed

text \<open>Scheduling never makes a lane admissible.\<close>

lemma sched_step_inadmissible:
  assumes step: "sched_step s s'" and wf: "queue_wf s" and l: "\<not> admissible s l"
  shows "\<not> admissible s' l"
proof
  assume a: "admissible s' l"
  have counts: "\<forall>m. getMemberActiveCount s m \<le> getMemberActiveCount s' m"
    using sched_step_counts_mono [OF step wf] by simp
  have "canAdmitInGroup s' l" using a by (auto simp: admissible_ref)
  then have adm: "canAdmitInGroup s l"
    using canAdmit_antimono [OF getLaneGroup_cong [OF sched_step_kept(3,4) [OF step]] counts] by simp
  from step show False
  proof cases
    case (admit lane ref entry queue now)
    show False
    proof (cases "l = lane")
      case True
      then show ?thesis
        using admit l dequeue_Some_length [OF queue_wf_lane(1) [OF wf] admit(5)]
        by (auto simp: admissible_ref)
    next
      case False
      then have "r \<noteq> ref" if "jm_get (qs_lanes s) l = Some r" for r
        using that queue_wf_registered(2) [OF wf] admit(2) by metis
      then show ?thesis
        using a l adm unfolding admit(1)
        by (auto simp: admissible_ref start_entry_def set_state_def Let_def)
    qed
  next
    case (flag ref b)
    then show ?thesis
      using a l adm by (auto simp: admissible_ref set_draining_def set_state_def split: if_splits)
  next
    case (retire ref)
    then show ?thesis
      using a l adm by (auto simp: admissible_ref retireIdleScopedCommandLane_def Let_def split: if_splits)
  next
    case (create lane)
    have "r \<noteq> qs_nextRef s" if "jm_get (qs_lanes s) l = Some r" for r
      using queue_wf_registered(3) [OF wf that] by simp
    then show ?thesis
      using a l adm unfolding create
      by (auto simp: admissible_ref getLaneState_def new_lane_state_def createLaneQueue_def
          split: option.splits if_splits)
  qed
qed

lemma sched_steps_inadmissible:
  assumes "sched_steps s s'" "queue_wf s" "\<not> admissible s l"
  shows "\<not> admissible s' l"
  using assms
  by (induction rule: rtranclp_induct) (auto dest: sched_steps_wf sched_step_inadmissible)

section \<open>A drain leaves nothing admissible behind\<close>

lemma drain_loop_unfold:
  assumes "may_start maxStarts lane ref started s"
    "dequeueLaneQueue (ls_queue (qs_store s ref)) = (Some entry, queue)"
  shows "drain_loop maxStarts now lane ref started s =
    drain_loop maxStarts now lane ref (started + 1) (start_entry now lane ref entry queue s)"
  using assms by (subst drain_loop.simps) simp

lemma drain_loop_stops:
  "queue_wf s \<Longrightarrow> jm_get (qs_lanes s) lane = Some ref \<Longrightarrow>
    \<not> may_start maxStarts lane ref (fst (drain_loop maxStarts now lane ref started s))
        (snd (drain_loop maxStarts now lane ref started s))"
proof (induction maxStarts now lane ref started s rule: drain_loop.induct)
  case (1 maxStarts now lane ref started s)
  show ?case
  proof (cases "may_start maxStarts lane ref started s")
    case True
    then obtain e q where d: "dequeueLaneQueue (ls_queue (qs_store s ref)) = (Some e, q)"
      using dequeue_nonempty [OF queue_wf_lane(1) [OF 1(2)]] by (auto simp: may_start_def)
    have "\<not> may_start maxStarts lane ref
        (fst (drain_loop maxStarts now lane ref (started + 1) (start_entry now lane ref e q s)))
        (snd (drain_loop maxStarts now lane ref (started + 1) (start_entry now lane ref e q s)))"
      by (rule 1(1) [OF True d [symmetric] refl start_entry_wf [OF 1(2,3) d]]) (simp add: 1(3))
    then show ?thesis by (simp add: drain_loop_unfold [OF True d])
  next
    case False
    then show ?thesis by (simp add: drain_loop.simps)
  qed
qed

lemma drain_loop_draining:
  "ls_draining (qs_store (snd (drain_loop maxStarts now lane ref started s)) r) = ls_draining (qs_store s r)"
proof (induction maxStarts now lane ref started s rule: drain_loop.induct)
  case (1 maxStarts now lane ref started s)
  have start: "ls_draining (qs_store (start_entry now lane ref e q s) r) = ls_draining (qs_store s r)" for e q
    by (simp add: start_entry_def set_state_def Let_def)
  show ?case
  proof (cases "may_start maxStarts lane ref started s")
    case True
    show ?thesis
    proof (cases "dequeueLaneQueue (ls_queue (qs_store s ref))")
      case (Pair x q)
      with True 1 start show ?thesis
        by (cases x) (simp_all add: drain_loop_unfold, simp add: drain_loop.simps)
    qed
  qed (simp add: drain_loop.simps)
qed

lemma drainLane_idle:
  assumes "idle s"
  shows "idle (snd (drainLane maxStarts now lane ref s))"
proof -
  have "idle (set_draining ref False (snd (drain_loop maxStarts now lane ref 0 (set_draining ref True s))))"
    using assms drain_loop_draining [of maxStarts now lane ref 0 "set_draining ref True s"]
    by (simp add: idle_def) (simp add: set_draining_def set_state_def)
  then show ?thesis
    using assms by (simp add: drainLane_def case_prod_beta) (simp add: idle_def)
qed

lemma drainLane_inadmissible:
  assumes wf: "queue_wf s" and l: "jm_get (qs_lanes s) lane = Some ref" and idle: "idle s"
  shows "\<not> admissible (snd (drainLane None now lane ref s)) lane"
proof -
  let ?s0 = "set_draining ref True s"
  let ?d = "snd (drain_loop None now lane ref 0 ?s0)"
  have wf0: "queue_wf ?s0" by (rule set_draining_wf [OF wf])
  have "\<not> may_start None lane ref (fst (drain_loop None now lane ref 0 ?s0)) ?d"
    using l by (intro drain_loop_stops [OF wf0]) simp
  moreover have d: "sched_steps ?s0 ?d" "qs_lanes ?d = qs_lanes s"
    using drain_loop_steps [of ?s0 lane ref] l by simp_all
  ultimately have "\<not> admissible ?d lane"
    using l by (auto simp: may_start_def admissible_ref)
  then have "\<not> admissible (retireIdleScopedCommandLane ref (set_draining ref False ?d)) lane"
    by (intro sched_step_inadmissible [OF sched_step.retire] sched_step_inadmissible [OF sched_step.flag]
        set_draining_wf sched_steps_wf [OF d(1) wf0])
  then show ?thesis
    using idle by (simp add: drainLane_def case_prod_beta idle_def)
qed

lemma drainLane_starts:
  assumes wf: "queue_wf s" and l: "jm_get (qs_lanes s) lane = Some ref" and idle: "idle s"
    and a: "admissible s lane"
  shows "fst (drainLane (Some 1) now lane ref s) \<noteq> 0"
proof -
  let ?s0 = "set_draining ref True s"
  have "getLaneGroup s lane = getLaneGroup ?s0 lane" by (rule getLaneGroup_cong) simp_all
  from canAdmit_antimono [OF this] have "canAdmitInGroup ?s0 lane"
    using a by (auto simp: admissible_ref)
  then have m: "may_start (Some 1) lane ref 0 ?s0"
    using a l by (auto simp: may_start_def admissible_ref set_draining_def set_state_def)
  then have len: "0 < lq_length (ls_queue (qs_store ?s0 ref))" by (simp add: may_start_def)
  obtain e q where d: "dequeueLaneQueue (ls_queue (qs_store ?s0 ref)) = (Some e, q)"
    by (rule dequeue_nonempty [OF queue_wf_lane(1) [OF set_draining_wf [OF wf]] len])
  obtain n s1 where r: "drain_loop (Some 1) now lane ref (0 + 1) (start_entry now lane ref e q ?s0) = (n, s1)"
    by (cases "drain_loop (Some 1) now lane ref (0 + 1) (start_entry now lane ref e q ?s0)")
  have "1 \<le> n" using drain_loop_lengths [OF r] by simp
  moreover have "fst (drainLane (Some 1) now lane ref s) = n"
    using drain_loop_unfold [OF m d, of now] r idle
    by (simp add: drainLane_def idle_def case_prod_beta)
  ultimately show ?thesis by simp
qed

section \<open>Draining a group\<close>

lemma foldl_select_None:
  "foldl (\<lambda>selected lane. select_candidate selected (f lane)) selected lanes = None \<longleftrightarrow>
    selected = None \<and> (\<forall>lane \<in> set lanes. f lane = None)"
  by (induction lanes arbitrary: selected) (auto simp: select_candidate_def split: option.splits)

lemma lane_candidate_admissible:
  assumes wf: "queue_wf s" and idle: "idle s" and g: "getLaneGroup s lane = Some g"
  shows "lane_candidate s g lane = None \<longleftrightarrow> \<not> admissible s lane"
proof -
  have "lq_length (ls_queue (qs_store s ref)) = 0 \<longleftrightarrow> peekLaneQueue (ls_queue (qs_store s ref)) = None" for ref
    using queue_wf_lane(1,6) [OF wf, of ref] by (simp add: peekLaneQueue_head split: list.split)
  then show ?thesis
    using idle g
    by (auto simp: lane_candidate_def admissible_def lane_at_def canAdmitInGroup_def idle_def
        simp flip: neq0_conv split: option.splits)
qed

lemma resolveNext_None:
  assumes "queue_wf s" "idle s" "group_registry_ok s" "jm_get (qs_groups s) (lg_group g) = Some g"
    "resolveNextGroupLane s g = None" "m \<in> set (lg_members g)"
  shows "\<not> admissible s m"
proof -
  have "lane_candidate s g m = None"
    using assms(5,6) by (auto simp: resolveNextGroupLane_def foldl_select_None)
  moreover have "getLaneGroup s m = Some g" using assms(4,6) getLaneGroup_iff [OF assms(3)] by simp
  ultimately show ?thesis using lane_candidate_admissible [OF assms(1,2)] by simp
qed

lemma resolveNext_Some:
  assumes "queue_wf s" "idle s" "group_registry_ok s" "jm_get (qs_groups s) (lg_group g) = Some g"
    "resolveNextGroupLane s g = Some lane"
  shows "admissible s lane" "lane \<noteq> []"
proof -
  obtain c where c: "lane \<in> set (lg_members g)" "lane_candidate s g lane = Some c"
    by (rule resolveNextGroupLane_Some [OF assms(5)])
  have "getLaneGroup s lane = Some g" using assms(4) c(1) getLaneGroup_iff [OF assms(3)] by simp
  then show "admissible s lane"
    using lane_candidate_admissible [OF assms(1,2)] c(2) by fastforce
  show "lane \<noteq> []"
    using registry_group(2) [OF assms(3,4)] c(1) by (auto simp: group_valid_def list_all_iff)
qed

lemma drain_group_quiet:
  "queue_wf s \<Longrightarrow> idle s \<Longrightarrow> group_registry_ok s \<Longrightarrow> jm_get (qs_groups s) (lg_group g) = Some g \<Longrightarrow>
    idle (drain_group now g s) \<and> (\<forall>m \<in> set (lg_members g). \<not> admissible (drain_group now g s) m)"
proof (induction now g s rule: drain_group.induct)
  case (1 now g s)
  note prems = 1(2-5)
  show ?case
  proof (cases "resolveNextGroupLane s g")
    case None
    have "drain_group now g s = s" using None by (simp add: drain_group.simps)
    then show ?thesis using resolveNext_None [OF prems None] prems(2) by simp
  next
    case (Some lane)
    note sel = resolveNext_Some [OF prems Some]
    obtain ref where ref: "jm_get (qs_lanes s) lane = Some ref"
      using sel(1) by (auto simp: admissible_ref)
    then have st: "getLaneState lane s = (ref, s)" by (simp add: getLaneState_def)
    obtain started s1 where d: "drainLane (Some 1) now lane ref s = (started, s1)"
      by (cases "drainLane (Some 1) now lane ref s")
    have pos: "started \<noteq> 0" using drainLane_starts [OF prems(1) ref prems(2) sel(1), of now] d by simp
    have steps: "sched_steps s s1" using drainLane_steps [OF ref] d by (metis snd_conv)
    note k = sched_steps_kept(3,4) [OF steps]
    have "idle s1" using drainLane_idle [OF prems(2)] d by (metis snd_conv)
    moreover have "group_registry_ok s1" using registry_kept [OF k] prems(3) by simp
    ultimately have "idle (drain_group now g s1) \<and>
        (\<forall>m \<in> set (lg_members g). \<not> admissible (drain_group now g s1) m)"
      using 1(1) [OF prems(4) Some sel(2) st [symmetric] refl d [symmetric] refl pos]
        sched_steps_wf [OF steps prems(1)] prems(4) k(1) by simp
    moreover have "drain_group now g s = drain_group now g s1"
      using prems(4) Some sel(2) st d pos by (subst drain_group.simps) simp
    ultimately show ?thesis by simp
  qed
qed

text \<open>The lanes a drain is responsible for: the lane itself, or the members of its group.\<close>

definition drained_with :: "QueueState \<Rightarrow> string \<Rightarrow> string \<Rightarrow> bool" where
  "drained_with s lane m \<longleftrightarrow> m = lane \<or> (\<exists>g. getLaneGroup s lane = Some g \<and> m \<in> set (lg_members g))"

lemma getLaneState_idle: "idle s \<Longrightarrow> idle (snd (getLaneState lane s))"
  by (simp add: idle_def getLaneState_def new_lane_state_def split: option.split)

lemma drainReady_quiet:
  assumes wf: "queue_wf s" and idle: "idle s" and ok: "group_registry_ok s"
    and c: "completedState = None \<or> (\<exists>ref. completedState = Some ref \<and> jm_get (qs_lanes s) lane = Some ref)"
  shows "idle (drainReadyCommandLane now lane completedState s)"
    "drained_with s lane m \<or> \<not> admissible s m \<Longrightarrow>
      \<not> admissible (drainReadyCommandLane now lane completedState s) m"
proof -
  let ?s' = "drainReadyCommandLane now lane completedState s"
  have steps: "sched_steps s ?s'" by (rule drainReady_steps [OF c])
  have "idle ?s' \<and> (\<forall>m. drained_with s lane m \<longrightarrow> \<not> admissible ?s' m)"
  proof (cases "getLaneGroup s lane")
    case None
    obtain ref s0 where s0: "(case completedState of Some r \<Rightarrow> (r, s) | None \<Rightarrow> getLaneState lane s) = (ref, s0)"
      by fastforce
    have "queue_wf s0" "idle s0" "jm_get (qs_lanes s0) lane = Some ref"
      using s0 c wf idle getLaneState_wf [OF wf, of lane] getLaneState_idle [OF idle, of lane]
      by (auto split: option.splits)
    moreover have "?s' = snd (drainLane None now lane ref s0)"
      using None s0 by (simp add: drainReadyCommandLane_def)
    ultimately show ?thesis
      using None drainLane_inadmissible drainLane_idle by (simp add: drained_with_def)
  next
    case (Some g)
    with getLaneGroup_iff [OF ok] have g: "jm_get (qs_groups s) (lg_group g) = Some g"
      "lane \<in> set (lg_members g)" by simp_all
    then show ?thesis
      using drain_group_quiet [OF wf idle ok g(1), of now] Some
      by (auto simp: drainReadyCommandLane_def drained_with_def)
  qed
  then show "idle ?s'" "drained_with s lane m \<or> \<not> admissible s m \<Longrightarrow> \<not> admissible ?s' m"
    using sched_steps_inadmissible [OF steps wf] by auto
qed

section \<open>Every operation ends at rest\<close>

definition at_rest :: "QueueState \<Rightarrow> bool" where
  "at_rest s \<longleftrightarrow> queue_wf s \<and> idle s \<and> group_registry_ok s \<and> (\<forall>lane. \<not> admissible s lane)"

lemma at_rest_steps:
  assumes "at_rest s" "sched_steps s s'" "idle s'"
  shows "at_rest s'"
  using assms sched_steps_wf [OF assms(2)] sched_steps_inadmissible [OF assms(2)]
    registry_kept [OF sched_steps_kept(3,4) [OF assms(2)]]
  by (simp add: at_rest_def)

lemma getLaneState_at_rest: "at_rest s \<Longrightarrow> at_rest (snd (getLaneState lane s))"
  by (rule at_rest_steps [of s])
    (auto simp: at_rest_def intro: getLaneState_idle sched_step.create)

lemma canAdmit_cong:
  assumes "getLaneGroup s' lane = getLaneGroup s lane"
    "\<And>g m. getLaneGroup s lane = Some g \<Longrightarrow> m \<in> set (lg_members g) \<Longrightarrow>
      getMemberActiveCount s' m = getMemberActiveCount s m"
    "getMemberActiveCount s' lane = getMemberActiveCount s lane"
  shows "canAdmitInGroup s' lane = canAdmitInGroup s lane"
proof (cases "getLaneGroup s lane")
  case (Some g)
  have "group_active s' g = group_active s g" "group_load s' g = group_load s g"
    unfolding group_active_def group_load_def
    using assms(2) [OF Some] by (auto intro!: arg_cong [where f = sum_list])
  then show ?thesis
    using assms(1,3) Some by (simp add: canAdmitInGroup_def admits_iff)
qed (use assms(1) in \<open>simp add: canAdmitInGroup_def\<close>)

text \<open>A change of one lane's state.\<close>

definition edits :: "QueueState \<Rightarrow> nat \<Rightarrow> QueueState \<Rightarrow> bool" where
  "edits s ref s1 \<longleftrightarrow> qs_lanes s1 = qs_lanes s \<and> qs_groups s1 = qs_groups s \<and>
     qs_groupByLane s1 = qs_groupByLane s \<and> (\<forall>r. r \<noteq> ref \<longrightarrow> qs_store s1 r = qs_store s r) \<and>
     ls_draining (qs_store s1 ref) = ls_draining (qs_store s ref)"

lemma edits_counts:
  assumes "queue_wf s" "jm_get (qs_lanes s) lane = Some ref" "edits s ref s1" "m \<noteq> lane"
  shows "getMemberActiveCount s1 m = getMemberActiveCount s m"
    "jm_get (qs_lanes s1) m = jm_get (qs_lanes s) m"
    "jm_get (qs_lanes s) m = Some r \<Longrightarrow> qs_store s1 r = qs_store s r"
proof -
  have "r \<noteq> ref" if "jm_get (qs_lanes s) m = Some r" for r
    using that assms(2,4) queue_wf_registered(2) [OF assms(1)] by metis
  then show "getMemberActiveCount s1 m = getMemberActiveCount s m"
    "jm_get (qs_lanes s) m = Some r \<Longrightarrow> qs_store s1 r = qs_store s r"
    using assms(3) by (auto simp: getMemberActiveCount_ref edits_def split: option.split)
  show "jm_get (qs_lanes s1) m = jm_get (qs_lanes s) m" using assms(3) by (simp add: edits_def)
qed

lemma edits_idle: "idle s \<Longrightarrow> edits s ref s1 \<Longrightarrow> idle s1"
  unfolding idle_def edits_def by metis

lemma edits_group: "edits s ref s1 \<Longrightarrow> getLaneGroup s1 lane = getLaneGroup s lane"
  by (rule getLaneGroup_cong) (simp_all add: edits_def)

lemma edits_registry: "edits s ref s1 \<Longrightarrow> group_registry_ok s1 = group_registry_ok s"
  by (rule registry_kept) (simp_all add: edits_def)

lemma edits_inadmissible:
  assumes wf: "queue_wf s" and ok: "group_registry_ok s" and l: "jm_get (qs_lanes s) lane = Some ref"
    and e: "edits s ref s1" and m: "m \<noteq> lane" "\<not> admissible s m"
    and away: "\<not> drained_with s lane m \<or> getMemberActiveCount s1 lane = getMemberActiveCount s lane"
  shows "\<not> admissible s1 m"
proof
  assume a: "admissible s1 m"
  have "canAdmitInGroup s1 m = canAdmitInGroup s m"
  proof (rule canAdmit_cong [OF edits_group [OF e]])
    fix g x assume g: "getLaneGroup s m = Some g" "x \<in> set (lg_members g)"
    show "getMemberActiveCount s1 x = getMemberActiveCount s x"
    proof (cases "x = lane")
      case True
      then have "drained_with s lane m"
        using g getLaneGroup_iff [OF ok] by (auto simp: drained_with_def)
      with away True show ?thesis by simp
    qed (use edits_counts(1) [OF wf l e] in simp)
  qed (rule edits_counts(1) [OF wf l e m(1)])
  with a m(2) edits_counts(2,3) [OF wf l e m(1)] show False
    by (auto simp: admissible_ref)
qed

lemma edit_then_drain:
  assumes rest: "at_rest s" and l: "jm_get (qs_lanes s) lane = Some ref"
    and e: "edits s ref s1" and wf1: "queue_wf s1"
    and c: "completedState = None \<or> completedState = Some ref"
  shows "at_rest (drainReadyCommandLane now lane completedState s1)"
proof -
  note r = rest [unfolded at_rest_def]
  have l1: "jm_get (qs_lanes s1) lane = Some ref" using l e by (simp add: edits_def)
  have c1: "completedState = None \<or> (\<exists>r. completedState = Some r \<and> jm_get (qs_lanes s1) lane = Some r)"
    using c l1 by auto
  have idle1: "idle s1" using edits_idle [OF _ e] r by simp
  have ok1: "group_registry_ok s1" using edits_registry [OF e] r by simp
  note q = drainReady_quiet [OF wf1 idle1 ok1 c1, where now = now]
  have "drained_with s1 lane m \<or> \<not> admissible s1 m" for m
  proof (cases "drained_with s1 lane m")
    case False
    then have "m \<noteq> lane" "\<not> drained_with s lane m"
      by (auto simp: drained_with_def edits_group [OF e])
    then show ?thesis using edits_inadmissible [OF _ _ l e] r by blast
  qed simp
  then have "\<forall>m. \<not> admissible (drainReadyCommandLane now lane completedState s1) m"
    using q(2) by blast
  with q(1) drainReady_wf [OF wf1 c1] show ?thesis
    using ok1 registry_kept [OF sched_steps_kept(3,4) [OF drainReady_steps [OF c1]]]
    by (simp add: at_rest_def)
qed

text \<open>An edit that only takes work away from a lane needs no drain.\<close>

lemma edit_at_rest:
  assumes rest: "at_rest s" and l: "jm_get (qs_lanes s) lane = Some ref"
    and e: "edits s ref s1" and wf1: "queue_wf s1"
    and act: "ls_activeTaskIds (qs_store s1 ref) = ls_activeTaskIds (qs_store s ref)"
    and less: "\<not> admissible s1 lane"
  shows "at_rest s1"
proof -
  note r = rest [unfolded at_rest_def]
  have "getMemberActiveCount s1 lane = getMemberActiveCount s lane"
    using l e act by (simp add: getMemberActiveCount_ref edits_def)
  then have "\<not> admissible s1 m" for m
    using edits_inadmissible [OF _ _ l e] r less by (cases "m = lane") blast+
  then show ?thesis
    using r wf1 edits_idle [OF _ e] edits_registry [OF e] by (simp add: at_rest_def)
qed

lemma same_lanes_at_rest:
  assumes "same_lanes s s'" "queue_wf s'" "at_rest s"
  shows "at_rest s'"
proof -
  have "getLaneGroup s' lane = getLaneGroup s lane" for lane
    using assms(1) by (intro getLaneGroup_cong) (simp_all add: same_lanes_def)
  then have "admissible s' lane = admissible s lane" for lane
    using assms(1) canAdmit_cong [of s' lane s] same_lanes_counts [OF assms(1)]
    by (simp add: admissible_ref same_lanes_def)
  moreover have "group_registry_ok s' = group_registry_ok s" "idle s' = idle s"
    using assms(1) registry_kept [of s' s] by (simp_all add: same_lanes_def idle_def)
  ultimately show ?thesis using assms(2,3) by (simp add: at_rest_def)
qed

lemma enqueueCommandInLane_at_rest:
  assumes rest: "at_rest s"
  shows "at_rest (snd (enqueueCommandInLane now closed lane opts s))"
proof (cases "eo_aborted opts \<or> closed")
  case True
  with rest show ?thesis by (auto simp: enqueueCommandInLane_def)
next
  case False
  obtain ref s1 where l: "getLaneState (normalizeLane lane) s = (ref, s1)"
    by (cases "getLaneState (normalizeLane lane) s")
  have wf: "queue_wf s" using rest by (simp add: at_rest_def)
  note g = getLaneState_wf [OF wf l]
  have rest1: "at_rest s1" using getLaneState_at_rest [OF rest, of "normalizeLane lane"] l by simp
  let ?e = "new_entry opts now (qs_nextQueueSequence s1)"
  let ?s3 = "set_state ref (enqueueLaneEntry (qs_store s1 ref) ?e)
      (s1\<lparr>qs_nextQueueSequence := qs_nextQueueSequence s1 + 1\<rparr>)"
  have "edits s1 ref ?s3"
    by (simp add: edits_def set_state_def enqueueLaneEntry_def Let_def)
  moreover have "queue_wf ?s3" by (rule enqueue_wf [OF g(1,3)]) (simp add: new_entry_def)
  ultimately have "at_rest (drainReadyCommandLane now (normalizeLane lane) None ?s3)"
    by (intro edit_then_drain [OF rest1 g(2)]) simp_all
  then show ?thesis
    using False l by (simp add: enqueueCommandInLane_def Let_def)
qed

lemma retire_at_rest:
  assumes "at_rest s"
  shows "at_rest (retireIdleScopedCommandLane ref s)"
  by (rule at_rest_steps [OF assms r_into_rtranclp [of sched_step, OF sched_step.retire]])
    (use assms in \<open>simp add: at_rest_def idle_def\<close>)

lemma abortQueued_at_rest:
  assumes rest: "at_rest s"
  shows "at_rest (abortQueued ref sequence s)"
proof (cases "find (\<lambda>e. en_sequence e = sequence) (lane_list (ls_queue (qs_store s ref)))")
  case (Some e)
  then have e: "e \<in> set (lane_list (ls_queue (qs_store s ref)))"
    by (auto simp: find_Some_iff)
  have wf: "queue_wf s" using rest by (simp add: at_rest_def)
  let ?q = "ls_queue (qs_store s ref)" and ?lane = "ls_lane (qs_store s ref)"
  let ?st = "(qs_store s ref)\<lparr>ls_queue := snd (removeLaneQueueEntry ?q e)\<rparr>"
  let ?s1 = "settle sequence QueuedAborted (set_state ref ?st s)"
  note f = removeLaneQueueEntry_facts [OF queue_wf_lane(1) [OF wf] e]
  have l: "jm_get (qs_lanes s) ?lane = Some ref"
    using queue_wf_queued_registered [OF wf e] by (simp add: registered_def)
  have ed: "edits s ref ?s1" by (simp add: edits_def settle_def set_state_def)
  have "\<not> admissible ?s1 ?lane"
  proof
    assume a: "admissible ?s1 ?lane"
    have "getMemberActiveCount ?s1 = getMemberActiveCount s"
      by (rule ext) (simp add: getMemberActiveCount_ref settle_def set_state_def split: option.split)
    then have "canAdmitInGroup s ?lane"
      using a canAdmit_cong [OF edits_group [OF ed], of ?lane] by (auto simp: admissible_ref)
    moreover have "0 < lq_length ?q"
      using e queue_wf_lane(6) [OF wf, of ref] by (auto simp: length_pos_if_in_set)
    ultimately have "admissible s ?lane"
      using a l by (auto simp: admissible_ref settle_def set_state_def)
    with rest show False by (simp add: at_rest_def)
  qed
  moreover have "queue_wf ?s1" using removeLaneQueueEntry_wf [OF wf e] by simp
  ultimately have "at_rest ?s1"
    by (intro edit_at_rest [OF rest l ed]) (simp_all add: settle_def set_state_def)
  then have "at_rest (retireIdleScopedCommandLane ref ?s1)"
    by (rule retire_at_rest)
  with Some f(1) show ?thesis
    by (simp add: abortQueued_def case_prod_beta Let_def)
qed (use rest in \<open>simp add: abortQueued_def\<close>)

lemma settle_at_rest:
  assumes "at_rest s"
  shows "at_rest (settle sequence outcome s)"
proof (rule same_lanes_at_rest [OF _ _ assms])
  show "same_lanes s (settle sequence outcome s)" by (simp add: same_lanes_def settle_def)
  show "queue_wf (settle sequence outcome s)" using assms by (simp add: at_rest_def)
qed

lemma settle_slot_edits: "edits s (rt_state t) (settle_slot t s)"
  by (simp add: edits_def) (simp add: settle_slot_def completeTask_def set_state_def Let_def)

lemma settleTask_at_rest:
  assumes rest: "at_rest s"
  shows "at_rest (settleTask now taskId fulfilled s)"
proof (cases "find (\<lambda>t. rt_taskId t = taskId) (qs_running s)")
  case (Some t)
  have wf: "queue_wf s" using rest by (simp add: at_rest_def)
  note u = settleTask_unfold [OF Some]
  let ?s2 = "if rt_generation t = ls_generation (qs_store s (rt_state t))
       then drainReadyCommandLane now (rt_lane t) (Some (rt_state t)) (settle_slot t s)
       else settle_slot t s"
  have "at_rest ?s2"
  proof (cases "rt_generation t = ls_generation (qs_store s (rt_state t))")
    case True
    with edit_then_drain [OF rest settled_lane [OF wf u(2) True] settle_slot_edits settle_slot_wf [OF wf u(2)]]
    show ?thesis by simp
  next
    case False
    then have "same_lanes s (settle_slot t s)"
      by (simp add: same_lanes_def settle_slot_def completeTask_def Let_def)
    then have "at_rest (settle_slot t s)"
      by (rule same_lanes_at_rest [OF _ settle_slot_wf [OF wf u(2)] rest])
    with False show ?thesis by simp
  qed
  then show ?thesis
    unfolding u(1) by (rule settle_at_rest)
qed (use rest in \<open>simp add: settleTask_def\<close>)

lemma width_edits: "edits s ref (set_state ref ((qs_store s ref)\<lparr>ls_maxConcurrent := n\<rparr>) s)"
  by (simp add: edits_def set_state_def)

lemma zero_width_at_rest:
  assumes "at_rest s" "jm_get (qs_lanes s) lane = Some ref"
  shows "at_rest (set_state ref ((qs_store s ref)\<lparr>ls_maxConcurrent := 0\<rparr>) s)"
proof (rule edit_at_rest [OF assms width_edits])
  show "queue_wf (set_state ref ((qs_store s ref)\<lparr>ls_maxConcurrent := 0\<rparr>) s)"
    using assms queue_wf_registered(1) by (intro queue_wf_set_width) (auto simp: at_rest_def)
  show "\<not> admissible (set_state ref ((qs_store s ref)\<lparr>ls_maxConcurrent := 0\<rparr>) s) lane"
    using assms(2) by (simp add: admissible_ref set_state_def)
qed (simp add: set_state_def)

lemma setCommandLaneConcurrency_at_rest:
  assumes rest: "at_rest s"
  shows "at_rest (setCommandLaneConcurrency now lane n s)"
proof -
  obtain ref s1 where l: "getLaneState (normalizeLane lane) s = (ref, s1)"
    by (cases "getLaneState (normalizeLane lane) s")
  have wf: "queue_wf s" using rest by (simp add: at_rest_def)
  note g = getLaneState_wf [OF wf l]
  have rest1: "at_rest s1" using getLaneState_at_rest [OF rest, of "normalizeLane lane"] l by simp
  show ?thesis
    using l edit_then_drain [OF rest1 g(2) width_edits queue_wf_set_width [OF g(1,3)], of None now]
      zero_width_at_rest [OF rest1 g(2)]
    by (auto simp: setCommandLaneConcurrency_def Let_def)
qed

lemma clear_at_rest:
  assumes rest: "at_rest s"
  shows "at_rest (snd (clearCommandLane lane s))"
proof (cases "jm_get (qs_lanes s) (normalizeLane lane)")
  case (Some ref)
  have wf: "queue_wf s" using rest by (simp add: at_rest_def)
  let ?q = "dequeue_all (ls_queue (qs_store s ref))"
  have q: "lane_queue_ok (snd ?q)" "lane_list (snd ?q) = []"
    using dequeue_all_facts [OF queue_wf_lane(1) [OF wf]] by blast+
  have s': "snd (clearCommandLane lane s) = (set_state ref ((qs_store s ref)\<lparr>ls_queue := snd ?q\<rparr>) s)
      \<lparr>qs_settled := qs_settled s @ map (\<lambda>e. (en_sequence e, LaneCleared)) (fst ?q)\<rparr>"
    using Some by (simp add: clearCommandLane_def Let_def case_prod_beta fold_settle set_state_def)
  show ?thesis
  proof (rule edit_at_rest [OF rest Some _ clear_wf [OF wf]])
    show "\<not> admissible (snd (clearCommandLane lane s)) (normalizeLane lane)"
      using Some q unfolding s' by (simp add: admissible_ref set_state_def lane_queue_ok_def)
  qed (simp_all add: s' edits_def set_state_def)
qed (use rest in \<open>simp add: clearCommandLane_def\<close>)

lemma resetCommandLane_at_rest:
  assumes rest: "at_rest s"
  shows "at_rest (snd (resetCommandLane now lane s))"
proof (cases "jm_get (qs_lanes s) (normalizeLane lane)")
  case (Some ref)
  have wf: "queue_wf s" and "idle s" using rest by (simp_all add: at_rest_def)
  then have "edits s ref (set_state ref (reset_state (qs_store s ref)) s)"
    by (simp add: edits_def set_state_def reset_state_def idle_def)
  from edit_then_drain [OF rest Some this queue_wf_reset [OF wf queue_wf_registered(1) [OF wf Some]], of None now]
  show ?thesis using Some by (simp add: resetCommandLane_def Let_def)
qed (use rest in \<open>simp add: resetCommandLane_def\<close>)

section \<open>Operations on many lanes\<close>

definition calm :: "QueueState \<Rightarrow> bool" where
  "calm s \<longleftrightarrow> queue_wf s \<and> idle s \<and> group_registry_ok s"

lemma calm_at_rest: "at_rest s \<longleftrightarrow> calm s \<and> (\<forall>lane. \<not> admissible s lane)"
  by (auto simp: at_rest_def calm_def)

text \<open>One drain: calm stays calm, the lane is done, no other lane becomes admissible.\<close>

definition drains_lane :: "(string \<Rightarrow> QueueState \<Rightarrow> QueueState) \<Rightarrow> bool" where
  "drains_lane f \<longleftrightarrow> (\<forall>lane s. calm s \<longrightarrow> calm (f lane s) \<and> \<not> admissible (f lane s) lane \<and>
     (\<forall>m. admissible (f lane s) m \<longrightarrow> admissible s m))"

lemma drainReady_drains_lane: "drains_lane (\<lambda>lane. drainReadyCommandLane now lane None)"
proof -
  have "calm (drainReadyCommandLane now lane None s) \<and> \<not> admissible (drainReadyCommandLane now lane None s) lane \<and>
     (\<forall>m. admissible (drainReadyCommandLane now lane None s) m \<longrightarrow> admissible s m)" if "calm s" for lane s
  proof -
    have c: "queue_wf s" "idle s" "group_registry_ok s" using that by (simp_all add: calm_def)
    note q = drainReady_quiet [OF c, where completedState = None and lane = lane and now = now]
    have "sched_steps s (drainReadyCommandLane now lane None s)" by (simp add: drainReady_steps)
    from registry_kept [OF sched_steps_kept(3,4) [OF this]]
    have "calm (drainReadyCommandLane now lane None s)"
      using c q(1) by (simp add: calm_def drainReady_wf)
    with q(2) show ?thesis by (auto simp: drained_with_def)
  qed
  then show ?thesis by (simp add: drains_lane_def)
qed

lemma publish_drain_drains_lane: "drains_lane (publish_drain now)"
proof -
  have "calm (publish_drain now lane s) \<and> \<not> admissible (publish_drain now lane s) lane \<and>
     (\<forall>m. admissible (publish_drain now lane s) m \<longrightarrow> admissible s m)" if c: "calm s" for lane s
  proof (cases "\<exists>st. lane_at s lane = Some st \<and> 0 < ls_maxConcurrent st \<and> 0 < lq_length (ls_queue st)")
    case True
    then obtain ref where "lane_at s lane = Some (qs_store s ref)"
      "0 < ls_maxConcurrent (qs_store s ref)" "0 < lq_length (ls_queue (qs_store s ref))"
      by (auto simp: lane_at_def)
    then have "publish_drain now lane s = drainReadyCommandLane now lane None s"
      using c by (auto simp: publish_drain_def calm_def idle_def)
    with drainReady_drains_lane [of now] c show ?thesis by (simp add: drains_lane_def)
  next
    case False
    then have "publish_drain now lane s = s" "\<not> admissible s lane"
      by (auto simp: publish_drain_def admissible_def split: option.split)
    with c show ?thesis by simp
  qed
  then show ?thesis by (simp add: drains_lane_def)
qed

lemma drains_at_rest:
  assumes "drains_lane f" "calm s" "\<forall>m. admissible s m \<longrightarrow> m \<in> set lanes"
  shows "at_rest (fold f lanes s)"
  using assms(2,3)
proof (induction lanes arbitrary: s)
  case Nil
  then show ?case by (simp add: calm_at_rest)
next
  case (Cons lane lanes)
  from assms(1) Cons.prems(1) have "calm (f lane s)" "\<not> admissible (f lane s) lane"
    "\<forall>m. admissible (f lane s) m \<longrightarrow> admissible s m" by (simp_all add: drains_lane_def)
  with Cons show ?case by fastforce
qed

lemma reset_refs_draining:
  "(idle s \<longrightarrow> idle (reset_refs refs s)) \<and>
    (\<forall>r. ls_lane (qs_store (reset_refs refs s) r) = ls_lane (qs_store s r))"
proof (induction refs arbitrary: s)
  case (Cons ref refs)
  have "idle s \<longrightarrow> idle (set_state ref (reset_state (qs_store s ref)) s)"
    "ls_lane (qs_store (set_state ref (reset_state (qs_store s ref)) s) r) = ls_lane (qs_store s r)" for r
    by (simp_all add: idle_def set_state_def reset_state_def)
  with Cons [of "set_state ref (reset_state (qs_store s ref)) s"] show ?case by simp
qed simp

lemma resetAllLanes_at_rest:
  assumes rest: "at_rest s"
  shows "at_rest (resetAllLanes now s)"
proof -
  let ?refs = "jm_values (qs_lanes s)"
  let ?s1 = "reset_refs ?refs s"
  let ?lanes = "map (\<lambda>ref. ls_lane (qs_store ?s1 ref))
    (filter (\<lambda>ref. 0 < lq_length (ls_queue (qs_store ?s1 ref))) ?refs)"
  have r: "queue_wf s" "idle s" "group_registry_ok s" using rest by (simp_all add: at_rest_def)
  have "calm ?s1"
    using r reset_refs_wf [of s ?refs] queue_wf_values [OF r(1)] reset_refs_draining
      registry_kept [of ?s1 s] by (simp add: calm_def)
  moreover have "m \<in> set ?lanes" if a: "admissible ?s1 m" for m
  proof -
    obtain ref where ref: "jm_get (qs_lanes s) m = Some ref" "0 < lq_length (ls_queue (qs_store ?s1 ref))"
      using a by (auto simp: admissible_ref)
    have "ref \<in> set ?refs" using jm_get_in_set [OF ref(1)] by (simp add: jm_values_def)
    moreover have "ls_lane (qs_store ?s1 ref) = m"
      using queue_wf_registered(2) [OF r(1) ref(1)] using reset_refs_draining by simp
    ultimately show ?thesis using ref(2) by force
  qed
  ultimately show ?thesis
    using drains_at_rest [OF drainReady_drains_lane, of ?s1 ?lanes now]
    by (simp add: resetAllLanes_def Let_def)
qed

section \<open>Publishing a configuration\<close>

text \<open>A lane that a step of the installation may have made admissible is recorded as touched.\<close>

definition records :: "QueueState \<times> string list \<Rightarrow> QueueState \<times> string list \<Rightarrow> bool" where
  "records acc acc' \<longleftrightarrow> calm (fst acc') \<and> set (snd acc) \<subseteq> set (snd acc') \<and>
     (\<forall>m. m \<notin> set (snd acc') \<longrightarrow> admissible (fst acc') m \<longrightarrow> admissible (fst acc) m)"

lemma records_trans: "records acc acc1 \<Longrightarrow> records acc1 acc2 \<Longrightarrow> records acc acc2"
  unfolding records_def by blast

lemma set_touch [simp]: "set (touch lanes touched) = set touched \<union> set lanes"
  by (auto simp: touch_def js_set_of_def)

lemma core_counts: "core s' = core s \<Longrightarrow> getMemberActiveCount s' = getMemberActiveCount s"
  by (rule ext) (simp add: core_def getMemberActiveCount_def lane_at_def)

lemma regroup_admissible:
  assumes "core s' = core s" "getLaneGroup s' m = getLaneGroup s m"
  shows "admissible s' m = admissible s m"
  using assms(1) canAdmit_cong [OF assms(2)] core_counts [OF assms(1)]
  by (simp add: admissible_ref core_def)

lemma core_calm:
  assumes "core s' = core s" "calm s" "group_registry_ok s'"
  shows "calm s'"
  using assms queue_wf_core [OF assms(1)] by (simp add: calm_def idle_def core_def)

lemma publish_lane_records:
  assumes c: "calm (fst acc)"
  shows "records acc (publish_lane l acc)"
proof -
  let ?lane = "normalizeLane (fst l)" and ?s = "fst acc"
  obtain ref s1 where st: "getLaneState ?lane ?s = (ref, s1)" by (cases "getLaneState ?lane ?s")
  let ?n = "lane_width ?lane (snd l)"
  let ?s2 = "set_state ref ((qs_store s1 ref)\<lparr>ls_maxConcurrent := ?n\<rparr>) s1"
  have p: "publish_lane l acc = (?s2, touch [?lane] (snd acc))"
    using st by (simp add: publish_lane_def Let_def)
  have wf: "queue_wf ?s" and idle: "idle ?s" and ok: "group_registry_ok ?s"
    using c by (simp_all add: calm_def)
  note g = getLaneState_wf [OF wf st]
  have s1: "s1 = snd (getLaneState ?lane ?s)" using st by simp
  have ok1: "group_registry_ok s1" using registry_kept [of s1 ?s] ok by (simp add: s1)
  have "idle s1" using getLaneState_idle [OF idle] by (simp add: s1)
  then have "calm ?s2"
    using edits_idle [OF _ width_edits] edits_registry [OF width_edits] ok1 queue_wf_set_width [OF g(1,3)]
    by (simp add: calm_def)
  moreover have "admissible ?s m" if "m \<noteq> ?lane" "admissible ?s2 m" for m
  proof (rule ccontr)
    assume "\<not> admissible ?s m"
    then have "\<not> admissible s1 m"
      unfolding s1 by (rule sched_step_inadmissible [OF sched_step.create wf])
    moreover have "getMemberActiveCount ?s2 ?lane = getMemberActiveCount s1 ?lane"
      by (simp add: getMemberActiveCount_ref set_state_def split: option.split)
    ultimately show False
      using edits_inadmissible [OF g(1) ok1 g(2) width_edits that(1)] that(2) by blast
  qed
  ultimately show ?thesis by (auto simp: records_def p)
qed

lemma publish_clear_records:
  assumes c: "calm (fst acc)"
  shows "records acc (publish_clear G acc)"
proof (cases "jm_get (qs_groups (fst acc)) G")
  case (Some g)
  have ok: "group_registry_ok (fst acc)" using c by (simp add: calm_def)
  let ?s' = "fst (publish_clear G acc)"
  have "getLaneGroup ?s' m = getLaneGroup (fst acc) m" if "m \<notin> set (lg_members g)" for m
    using that registry_group(4) [OF ok Some, of m] Some
    by (auto simp: getLaneGroup_def publish_clear_def forget_members_def fold_jm_delete split: option.split)
  then have "admissible ?s' m = admissible (fst acc) m" if "m \<notin> set (lg_members g)" for m
    using that by (intro regroup_admissible) simp_all
  moreover have "set (snd (publish_clear G acc)) = set (snd acc) \<union> set (lg_members g)"
    using Some by (simp add: publish_clear_def)
  moreover have "calm ?s'" using c clear_registry_ok [OF ok] by (intro core_calm [OF _ c]) simp_all
  ultimately show ?thesis by (simp add: records_def)
qed (use c in \<open>simp add: publish_clear_def records_def\<close>)

lemma install_getLaneGroup:
  assumes ok: "group_registry_ok s" and new: "m \<notin> set (lg_members new)"
    and old: "jm_get (qs_groupByLane s) m \<noteq> Some (lg_group new)"
    and siblings: "\<forall>x \<in> set (lg_members new). jm_get (qs_groupByLane s) m \<noteq> None \<longrightarrow>
      jm_get (qs_groupByLane s) x \<noteq> jm_get (qs_groupByLane s) m"
  shows "getLaneGroup (installCommandLaneGroup new s) m = getLaneGroup s m"
proof (cases "jm_get (qs_groupByLane s) m")
  case None
  with new show ?thesis by (simp add: getLaneGroup_def install_groups [OF ok])
next
  case (Some H)
  obtain h where h: "jm_get (qs_groups s) H = Some h" by (rule registry_owner [OF ok Some])
  have "filter (\<lambda>x. x \<notin> set (lg_members new)) (lg_members h) = lg_members h"
    using siblings Some registry_group(4) [OF ok h] by (auto simp: filter_id_conv)
  then have "without_members (lg_members new) h = h" by (simp add: without_members_def)
  with Some old new h show ?thesis by (simp add: getLaneGroup_def install_groups [OF ok])
qed

lemma publish_group_records:
  assumes c: "calm (fst acc)" and v: "group_valid new"
  shows "records acc (publish_group new acc)"
proof -
  let ?s = "fst acc" and ?s' = "fst (publish_group new acc)"
  have ok: "group_registry_ok ?s" using c by (simp add: calm_def)
  have s': "?s' = installCommandLaneGroup new ?s" by (simp add: publish_group_def Let_def)
  have members: "m \<in> set (group_members ?s G)" if G: "jm_get (qs_groupByLane ?s) m = Some G" for m G
  proof -
    obtain g where g: "jm_get (qs_groups ?s) G = Some g" by (rule registry_owner [OF ok G])
    with registry_group(4) [OF ok g] G show ?thesis by (simp add: group_members_def)
  qed
  have "admissible ?s' m = admissible ?s m" if m: "m \<notin> set (snd (publish_group new acc))" for m
  proof -
    have t: "m \<notin> set (group_members ?s (lg_group new))" "m \<notin> set (lg_members new)"
      "\<forall>x \<in> set (lg_members new). m \<notin> set (group_members ?s
         (case jm_get (qs_groupByLane ?s) x of None \<Rightarrow> [] | Some owner \<Rightarrow> owner))"
      using m by (auto simp: publish_group_def Let_def)
    have "getLaneGroup (installCommandLaneGroup new ?s) m = getLaneGroup ?s m"
    proof (rule install_getLaneGroup [OF ok t(2)])
      show "jm_get (qs_groupByLane ?s) m \<noteq> Some (lg_group new)" using members t(1) by blast
      show "\<forall>x \<in> set (lg_members new). jm_get (qs_groupByLane ?s) m \<noteq> None \<longrightarrow>
          jm_get (qs_groupByLane ?s) x \<noteq> jm_get (qs_groupByLane ?s) m"
        using members t(3) by (auto split: option.splits)
    qed
    then show ?thesis unfolding s' by (intro regroup_admissible) simp_all
  qed
  moreover have "calm ?s'"
    unfolding s' using install_registry_ok [OF ok v] by (intro core_calm [OF _ c]) simp_all
  moreover have "set (snd acc) \<subseteq> set (snd (publish_group new acc))"
    by (auto simp: publish_group_def Let_def)
  ultimately show ?thesis by (simp add: records_def)
qed

lemma records_refl: "calm (fst acc) \<Longrightarrow> records acc acc"
  by (simp add: records_def)

lemma records_fold:
  assumes "\<And>x acc. x \<in> set xs \<Longrightarrow> calm (fst acc) \<Longrightarrow> records acc (f x acc)" "calm (fst acc)"
  shows "records acc (fold f xs acc)"
  using assms
proof (induction xs arbitrary: acc)
  case (Cons x xs)
  have r: "records acc (f x acc)" using Cons.prems by simp
  then have "calm (fst (f x acc))" by (simp add: records_def)
  with Cons have "records (f x acc) (fold f xs (f x acc))" by simp
  with r show ?case by (auto intro: records_trans)
qed (simp add: records_refl)

definition configuration_ok :: "LaneConfiguration \<Rightarrow> bool" where
  "configuration_ok cfg \<longleftrightarrow> list_all (\<lambda>g. fst g \<noteq> []) (cf_groups cfg)"

lemma publish_install_records:
  assumes c: "calm s" and v: "\<forall>g \<in> set validated. group_valid g"
  shows "records (s, []) (publish_install cfg validated s)"
proof -
  let ?l = "fold publish_lane (cf_lanes cfg) (s, [])"
  let ?c = "fold publish_clear (cf_clearGroups cfg) ?l"
  have l: "records (s, []) ?l" using c by (intro records_fold publish_lane_records) simp_all
  then have "records ?l ?c" by (intro records_fold publish_clear_records) (simp_all add: records_def)
  moreover from this have "records ?c (fold publish_group validated ?c)"
    using v by (intro records_fold publish_group_records) (simp_all add: records_def)
  ultimately show ?thesis
    using l unfolding publish_install_def by (meson records_trans)
qed

lemma publishLaneConfiguration_at_rest:
  assumes rest: "at_rest s" and p: "publishLaneConfiguration now cfg s = Inr s'" and ok: "configuration_ok cfg"
  shows "at_rest s'"
proof -
  obtain validated where v: "validate_groups (cf_groups cfg) = Inr validated"
    and s': "s' = fold (publish_drain now) (snd (publish_install cfg validated s))
       (fst (publish_install cfg validated s))"
    by (rule publishLaneConfiguration_unfold [OF p])
  have "\<forall>g \<in> set validated. group_valid g"
    using validate_groups_valid [OF v] ok by (auto simp: configuration_ok_def list_all_iff)
  with rest have r: "records (s, []) (publish_install cfg validated s)"
    by (intro publish_install_records) (simp_all add: calm_at_rest)
  show ?thesis
    unfolding s'
    using r rest by (intro drains_at_rest [OF publish_drain_drains_lane])
      (auto simp: records_def calm_at_rest)
qed

fun op_ok :: "int \<times> queue_op \<Rightarrow> bool" where
  "op_ok (now, OpPublish cfg) = configuration_ok cfg"
| "op_ok _ = True"

lemma queue_step_at_rest: "at_rest s \<Longrightarrow> op_ok op \<Longrightarrow> at_rest (queue_step op s)"
  by (induction op s rule: queue_step.induct)
    (auto simp: enqueueCommandInLane_at_rest abortQueued_at_rest settleTask_at_rest
      setCommandLaneConcurrency_at_rest clear_at_rest resetCommandLane_at_rest resetAllLanes_at_rest
      split: sum.split intro: publishLaneConfiguration_at_rest)

lemma at_rest_initial: "at_rest initial_queue_state"
  using queue_wf_initial
  by (simp add: at_rest_def idle_def group_registry_ok_def admissible_ref)
    (simp add: initial_queue_state_def new_lane_state_def)

lemma run_queue_at_rest: "at_rest s \<Longrightarrow> list_all op_ok ops \<Longrightarrow> at_rest (run_queue ops s)"
  by (induction ops arbitrary: s) (simp_all add: run_queue_def queue_step_at_rest)

end
