(* ===== verification/Command_Queue_Claims.thy ===== *)
theory Command_Queue_Claims
  imports Command_Quiescence
begin

text \<open>
  What the command queue promises: in which order and how many tasks a drain starts, which lane of
  a group goes first, and the invariants of all runs from the initial state.
\<close>

section \<open>Order and number of the tasks a drain starts\<close>

definition started_since :: "QueueState \<Rightarrow> QueueState \<Rightarrow> nat list" where
  "started_since s s' = map (\<lambda>t. en_sequence (rt_entry t)) (drop (length (qs_running s)) (qs_running s'))"

definition queued_at :: "QueueState \<Rightarrow> nat \<Rightarrow> nat list" where
  "queued_at s ref = map en_sequence (lane_list (ls_queue (qs_store s ref)))"

lemma drain_loop_prefix:
  "queue_wf s \<Longrightarrow> jm_get (qs_lanes s) lane = Some ref \<Longrightarrow>
    drain_loop maxStarts now lane ref started s = (started', s') \<Longrightarrow>
    \<exists>new. qs_running s' = qs_running s @ new \<and> length new + started = started' \<and>
      map (\<lambda>t. en_sequence (rt_entry t)) new @ queued_at s' ref = queued_at s ref \<and>
      qs_nextTaskId s' = qs_nextTaskId s + length new"
proof (induction maxStarts now lane ref started s rule: drain_loop.induct)
  case (1 maxStarts now lane ref started s)
  show ?case
  proof (cases "may_start maxStarts lane ref started s")
    case True
    note lane = queue_wf_lane [OF 1(2), where r = ref]
    have "lane_list (ls_queue (qs_store s ref)) \<noteq> []" using True lane(6) by (auto simp: may_start_def)
    then obtain e es where es: "lane_list (ls_queue (qs_store s ref)) = e # es"
      by (cases "lane_list (ls_queue (qs_store s ref))") auto
    obtain q where d: "dequeueLaneQueue (ls_queue (qs_store s ref)) = (Some (e\<lparr>en_queued := False\<rparr>), q)"
      "lane_list q = es"
      by (rule dequeueLaneQueue_Cons [OF lane(1) es])
    let ?s = "start_entry now lane ref (e\<lparr>en_queued := False\<rparr>) q s"
    have "drain_loop maxStarts now lane ref (started + 1) ?s = (started', s')"
      using 1(4) drain_loop_unfold [OF True d(1), of now] by simp
    from 1(1) [OF True d(1) [symmetric] refl start_entry_wf [OF 1(2,3) d(1)] _ this] 1(3)
    obtain new where new: "qs_running s' = qs_running ?s @ new" "length new + (started + 1) = started'"
      "map (\<lambda>t. en_sequence (rt_entry t)) new @ queued_at s' ref = queued_at ?s ref"
      "qs_nextTaskId s' = qs_nextTaskId ?s + length new" by auto
    let ?t = "\<lparr>rt_lane = lane, rt_taskId = qs_nextTaskId s, rt_generation = ls_generation (qs_store s ref),
      rt_state = ref, rt_entry = e\<lparr>en_queued := False\<rparr>\<rparr>"
    have "qs_running ?s = qs_running s @ [?t]" "queued_at ?s ref = map en_sequence es"
      "qs_nextTaskId ?s = qs_nextTaskId s + 1"
      using d(2) by (simp_all add: start_entry_def set_state_def Let_def queued_at_def)
    with new es show ?thesis
      by (intro exI [where x = "?t # new"]) (simp add: queued_at_def)
  next
    case False
    with 1(4) show ?thesis by (auto simp: drain_loop.simps)
  qed
qed

lemma drainLane_prefix:
  assumes wf: "queue_wf s" and l: "jm_get (qs_lanes s) lane = Some ref"
    and d: "drainLane maxStarts now lane ref s = (n, s')"
  shows "started_since s s' @ queued_at s' ref = queued_at s ref" "length (started_since s s') = n"
    "qs_nextTaskId s' = qs_nextTaskId s + n"
proof -
  have "started_since s s' @ queued_at s' ref = queued_at s ref \<and> length (started_since s s') = n \<and>
    qs_nextTaskId s' = qs_nextTaskId s + n"
  proof (cases "ls_draining (qs_store s ref)")
    case True
    with d show ?thesis by (simp add: drainLane_def started_since_def)
  next
    case False
    let ?s0 = "set_draining ref True s"
    obtain n1 s1 where r: "drain_loop maxStarts now lane ref 0 ?s0 = (n1, s1)"
      by (cases "drain_loop maxStarts now lane ref 0 ?s0")
    have l0: "jm_get (qs_lanes ?s0) lane = Some ref" using l by simp
    obtain new where new: "qs_running s1 = qs_running ?s0 @ new" "length new + 0 = n1"
      "map (\<lambda>t. en_sequence (rt_entry t)) new @ queued_at s1 ref = queued_at ?s0 ref"
      "qs_nextTaskId s1 = qs_nextTaskId ?s0 + length new"
      using drain_loop_prefix [OF set_draining_wf [OF wf] l0 r] by blast
    have "n = n1" and s': "s' = retireIdleScopedCommandLane ref (set_draining ref False s1)"
      using d r False by (simp_all add: drainLane_def)
    moreover have "qs_nextTaskId (retireIdleScopedCommandLane ref x) = qs_nextTaskId x" for x
      by (simp add: retireIdleScopedCommandLane_def Let_def)
    ultimately show ?thesis
      using new by (simp add: started_since_def queued_at_def set_draining_def set_state_def)
  qed
  then show "started_since s s' @ queued_at s' ref = queued_at s ref" "length (started_since s s') = n"
    "qs_nextTaskId s' = qs_nextTaskId s + n" by simp_all
qed

section \<open>Which lane of a group goes first\<close>

lemma better_trans: "better_candidate a b \<Longrightarrow> better_candidate b c \<Longrightarrow> better_candidate a c"
  by (cases a; cases b; cases c) auto

lemma better_irrefl: "\<not> better_candidate a a"
  by (cases a) auto

lemma better_linear: "better_candidate a b \<or> a = b \<or> better_candidate b a"
  by (cases a; cases b) auto

lemma select_no_worse:
  assumes "selected = Some b \<or> candidate = Some b"
  obtains n where "select_candidate selected candidate = Some n" "n = b \<or> better_candidate n b"
proof (cases selected; cases candidate)
  fix x y assume "selected = Some x" "candidate = Some y"
  then show thesis
    using assms better_linear [of y x] that
    by (cases "better_candidate y x") (auto simp: select_candidate_def)
qed (use assms that in \<open>auto simp: select_candidate_def\<close>)

lemma foldl_select_best:
  "foldl (\<lambda>selected lane. select_candidate selected (f lane)) start lanes = Some c \<Longrightarrow>
    start = Some b \<or> (\<exists>lane \<in> set lanes. f lane = Some b) \<Longrightarrow> \<not> better_candidate b c"
proof (induction lanes arbitrary: start b)
  case Nil
  then show ?case by (auto simp: better_irrefl)
next
  case (Cons lane lanes)
  have next_fold: "foldl (\<lambda>selected lane. select_candidate selected (f lane))
      (select_candidate start (f lane)) lanes = Some c"
    using Cons.prems(1) by simp
  show ?case
  proof (cases "\<exists>lane \<in> set lanes. f lane = Some b")
    case True
    then show ?thesis using Cons.IH [OF next_fold] by blast
  next
    case False
    with Cons.prems(2) have "start = Some b \<or> f lane = Some b" by auto
    then obtain n where n: "select_candidate start (f lane) = Some n" "n = b \<or> better_candidate n b"
      by (rule select_no_worse)
    have "\<not> better_candidate n c" using Cons.IH [OF next_fold] n(1) by blast
    with n(2) show ?thesis using better_trans by blast
  qed
qed

section \<open>A drain starts only what was queued\<close>

lemma drainLane_budget:
  assumes "queue_wf s" "jm_get (qs_lanes s) lane = Some ref" "drainLane maxStarts now lane ref s = (n, s')"
  shows "qs_nextTaskId s' + total_queued s' \<le> qs_nextTaskId s + total_queued s"
  using drainLane_total [OF assms(3,2)] drainLane_prefix(3) [OF assms] by simp

lemma getLaneState_budget:
  "qs_nextTaskId (snd (getLaneState lane s)) + total_queued (snd (getLaneState lane s)) \<le>
    qs_nextTaskId s + total_queued s" if "queue_wf s"
proof (cases "jm_get (qs_lanes s) lane")
  case None
  have "jm_set lane (qs_nextRef s) (qs_lanes s) = qs_lanes s @ [(lane, qs_nextRef s)]"
    using None by (intro jm_set_fresh) (simp add: map_of_eq_None_iff)
  moreover have "snd e \<noteq> qs_nextRef s" if "e \<in> set (qs_lanes s)" for e
  proof -
    have "jm_ok (qs_lanes s)" using \<open>queue_wf s\<close> by (simp add: queue_wf_def)
    then have "jm_get (qs_lanes s) (fst e) = Some (snd e)" using that by (simp flip: jm_ok_get)
    from queue_wf_registered(3) [OF \<open>queue_wf s\<close> this] show ?thesis by simp
  qed
  ultimately have "total_queued (snd (getLaneState lane s)) = total_queued s"
    using None by (auto simp: total_queued_def getLaneState_def new_lane_state_def createLaneQueue_def
        intro!: arg_cong [where f = sum_list])
  with None show ?thesis by (simp add: getLaneState_def)
qed (simp add: getLaneState_def)

lemma drain_group_budget:
  "queue_wf s \<Longrightarrow> qs_nextTaskId (drain_group now g s) + total_queued (drain_group now g s) \<le>
    qs_nextTaskId s + total_queued s"
proof (induction now g s rule: drain_group.induct)
  case (1 now g s)
  show ?case
  proof (cases "\<exists>lane. jm_get (qs_groups s) (lg_group g) = Some g \<and> resolveNextGroupLane s g = Some lane \<and> lane \<noteq> []")
    case True
    then obtain lane where reg: "jm_get (qs_groups s) (lg_group g) = Some g" "resolveNextGroupLane s g = Some lane"
      "lane \<noteq> []" by blast
    obtain ref s0 where st: "getLaneState lane s = (ref, s0)" by (cases "getLaneState lane s")
    obtain n s1 where d: "drainLane (Some 1) now lane ref s0 = (n, s1)"
      by (cases "drainLane (Some 1) now lane ref s0")
    note w = getLaneState_wf [OF 1(2) st]
    have "qs_nextTaskId s1 + total_queued s1 \<le> qs_nextTaskId s + total_queued s"
      using drainLane_budget [OF w(1,2) d] getLaneState_budget [OF 1(2), of lane] st by simp
    moreover have "queue_wf s1"
      using sched_steps_wf [OF drainLane_steps [OF w(2), of "Some 1" now] w(1)] d by simp
    moreover have "drain_group now g s = (if n = 0 then s1 else drain_group now g s1)"
      using reg st d by (subst drain_group.simps) simp
    ultimately show ?thesis
      using 1(1) [OF reg st [symmetric] refl d [symmetric] refl] by (cases "n = 0") simp_all
  next
    case False
    then have "drain_group now g s = s" by (subst drain_group.simps) (auto split: option.split)
    then show ?thesis by simp
  qed
qed

lemma drainReady_budget:
  assumes "queue_wf s"
  shows "qs_nextTaskId (drainReadyCommandLane now lane None s) +
      total_queued (drainReadyCommandLane now lane None s) \<le> qs_nextTaskId s + total_queued s"
proof (cases "getLaneGroup s lane")
  case None
  obtain ref s0 where st: "getLaneState lane s = (ref, s0)" by (cases "getLaneState lane s")
  obtain n s1 where d: "drainLane None now lane ref s0 = (n, s1)" by (cases "drainLane None now lane ref s0")
  note w = getLaneState_wf [OF assms st]
  show ?thesis
    using None st d drainLane_budget [OF w(1,2) d] getLaneState_budget [OF assms, of lane]
    by (simp add: drainReadyCommandLane_def)
qed (simp add: drainReadyCommandLane_def drain_group_budget [OF assms])

section \<open>The claims\<close>

abbreviation reachable_queue :: "(int \<times> queue_op) list \<Rightarrow> QueueState" where
  "reachable_queue ops \<equiv> run_queue ops initial_queue_state"

lemma reachable_at_rest: "list_all op_ok ops \<Longrightarrow> at_rest (reachable_queue ops)"
  by (rule run_queue_at_rest [OF at_rest_initial])

text \<open>C38: Whatever operations run, in whatever order tasks settle: the registry, the lane states,
  the ring buffers and the running tasks stay consistent. Every queue of a lane state is a
  well-formed priority queue holding only sequence numbers already handed out; the active task ids
  of a lane are exactly the running tasks of its current generation; a state that left the
  registry has neither queued nor active tasks.\<close>

theorem queue_stays_well_formed:
  "queue_wf (run_queue ops initial_queue_state)"
  by (rule run_queue_invariants(1) [OF queue_wf_initial conserved_initial])

text \<open>C5: No accepted task is lost and none runs twice: after any operations the sequence numbers
  of the queued entries (over all lane states ever created), of the running tasks and of the
  settled tasks are together exactly the numbers handed out so far, each once.\<close>

theorem no_task_lost_or_duplicated:
  "accepted_seqs (run_queue ops initial_queue_state) =
    mset [1..<qs_nextQueueSequence (run_queue ops initial_queue_state)]"
  using run_queue_invariants(2) [OF queue_wf_initial conserved_initial] by (simp add: conserved_def)

text \<open>C6: The queue is work conserving: between operations no registered lane has a queued task
  that the width of the lane and the budget of its group would admit.\<close>

theorem queue_is_work_conserving:
  assumes "list_all op_ok ops"
  shows "quiescent (run_queue ops initial_queue_state)"
  using reachable_at_rest [OF assms] by (simp add: at_rest_def quiescent_iff)

text \<open>A reservation is a guarantee: while the load of a group is within its budget, a member
  with fewer running tasks than its reservation (and than its own width) has nothing queued,
  whatever the other members of the group are doing.\<close>

theorem reserved_lane_never_waits:
  assumes "list_all op_ok ops" "getLaneGroup (run_queue ops initial_queue_state) lane = Some g"
    "group_load (run_queue ops initial_queue_state) g \<le> lg_budget g"
    "lane_at (run_queue ops initial_queue_state) lane = Some st"
    "length (ls_activeTaskIds st) < reservation g lane" "length (ls_activeTaskIds st) < ls_maxConcurrent st"
  shows "lq_length (ls_queue st) = 0"
proof -
  let ?s = "run_queue ops initial_queue_state"
  have rest: "at_rest ?s" by (rule reachable_at_rest [OF assms(1)])
  then have "lane \<in> set (lg_members g)"
    using assms(2) getLaneGroup_iff by (simp add: at_rest_def)
  moreover have "getMemberActiveCount ?s lane < reservation g lane"
    using assms(4,5) by (simp add: getMemberActiveCount_def)
  ultimately have "canAdmitInGroup ?s lane"
    using reserved_member_admitted [OF _ assms(3)] assms(2) by (simp add: canAdmitInGroup_def)
  moreover have "\<not> admissible ?s lane" using rest by (simp add: at_rest_def)
  ultimately show ?thesis using assms(4,6) by (simp add: admissible_def)
qed

text \<open>C7: Capacity is respected by every operation other than publishing a new configuration: a
  group whose load (running tasks plus unused reservations) is within its budget stays within it,
  so the group never runs more tasks than its budget, and no lane state comes to run more tasks
  than it ran before or than its width allows.\<close>

theorem capacity_is_respected:
  assumes "list_all op_ok ops" "jm_get (qs_groups (run_queue ops initial_queue_state)) G = Some g"
    "group_load (run_queue ops initial_queue_state) g \<le> lg_budget g" "\<not> is_publish op"
  shows "group_load (queue_step op (run_queue ops initial_queue_state)) g \<le> lg_budget g \<and>
    group_active (queue_step op (run_queue ops initial_queue_state)) g \<le> lg_budget g \<and>
    jm_get (qs_groups (queue_step op (run_queue ops initial_queue_state))) G = Some g \<and>
    lane_load_ok (run_queue ops initial_queue_state) (queue_step op (run_queue ops initial_queue_state))"
proof -
  let ?s = "run_queue ops initial_queue_state"
  have wf: "queue_wf ?s" and ok: "group_registry_ok ?s"
    using reachable_at_rest [OF assms(1)] by (simp_all add: at_rest_def)
  note l = queue_step_load [OF wf ok assms(4,2)]
  have load: "group_load (queue_step op ?s) g \<le> lg_budget g" using l(1) assms(3) by simp
  moreover have "group_active (queue_step op ?s) g \<le> group_load (queue_step op ?s) g"
    unfolding group_active_def group_load_def by (intro sum_list_mono) simp
  ultimately show ?thesis
    using l(2) assms(2) queue_step_width [OF wf] by simp
qed

text \<open>The group registry is a partition: a lane is a member of at most one group, lookup
  finds that group, its members are eligible lanes, and its reservations fit its budget, after any
  sequence of publications, clears and moves of lanes between groups.\<close>

theorem lane_in_one_group:
  assumes "list_all op_ok ops" "jm_get (qs_groups (run_queue ops initial_queue_state)) G = Some g"
    "lane \<in> set (lg_members g)"
  shows "getLaneGroup (run_queue ops initial_queue_state) lane = Some g \<and> group_eligible lane \<and>
    sum_list (map (reservation g) (lg_members g)) \<le> lg_budget g \<and>
    (\<forall>H h. jm_get (qs_groups (run_queue ops initial_queue_state)) H = Some h \<longrightarrow>
       lane \<in> set (lg_members h) \<longrightarrow> H = G)"
proof -
  have ok: "group_registry_ok (run_queue ops initial_queue_state)"
    using reachable_at_rest [OF assms(1)] by (simp add: at_rest_def)
  note r = registry_group [OF ok assms(2)]
  have "H = G" if "jm_get (qs_groups (run_queue ops initial_queue_state)) H = Some h"
    "lane \<in> set (lg_members h)" for H h
    using registry_group(4) [OF ok that(1), of lane] r(4) [of lane] that(2) assms(3) by simp
  moreover have "getLaneGroup (run_queue ops initial_queue_state) lane = Some g"
    using getLaneGroup_iff [OF ok] r(1) assms(2,3) by simp
  moreover have "group_eligible lane" "sum_list (map (reservation g) (lg_members g)) \<le> lg_budget g"
    using r(2) assms(3) by (simp_all add: group_valid_def list_all_iff)
  ultimately show ?thesis by blast
qed

text \<open>A drain of a lane starts the front of its queue in order: exactly the first tasks by
  priority and, within one priority, by age, and leaves the rest in place.\<close>

theorem drain_starts_in_order:
  assumes "queue_wf s" "jm_get (qs_lanes s) lane = Some ref" "drainLane maxStarts now lane ref s = (n, s')"
  shows "started_since s s' = take n (queued_at s ref) \<and> queued_at s' ref = drop n (queued_at s ref) \<and>
    sorted_wrt starts_before (lane_list (ls_queue (qs_store s ref)))"
proof -
  note p = drainLane_prefix [OF assms]
  have "take n (queued_at s ref) = started_since s s'" "drop n (queued_at s ref) = queued_at s' ref"
    using p(2) unfolding p(1) [symmetric] by simp_all
  then show ?thesis
    using lane_list_sorted [OF queue_wf_lane(1) [OF assms(1)]] by simp
qed

text \<open>The arbiter of a group picks the best member: the lane it returns can take a task now,
  and no other member that can has a head of higher priority, or of the same priority and older;
  it returns none only when no member can take a task.\<close>

theorem arbiter_picks_first:
  "case resolveNextGroupLane s g of
     None \<Rightarrow> \<forall>m \<in> set (lg_members g). lane_candidate s g m = None
   | Some lane \<Rightarrow> lane \<in> set (lg_members g) \<and>
       (\<exists>c. lane_candidate s g lane = Some c \<and>
         (\<forall>m \<in> set (lg_members g). \<forall>c'. lane_candidate s g m = Some c' \<longrightarrow> \<not> better_candidate c' c))"
proof (cases "resolveNextGroupLane s g")
  case None
  then have "\<forall>m \<in> set (lg_members g). lane_candidate s g m = None"
    by (simp add: resolveNextGroupLane_def foldl_select_None)
  with None show ?thesis by simp
next
  case (Some lane)
  then obtain c where c: "foldl (\<lambda>selected lane. select_candidate selected (lane_candidate s g lane)) None
      (lg_members g) = Some c" "fst c = lane"
    by (auto simp: resolveNextGroupLane_def)
  obtain m where m: "m \<in> set (lg_members g)" "lane_candidate s g m = Some c"
    using foldl_select [OF c(1)] by auto
  then have "m = lane" using c(2) by (auto elim: lane_candidate_Some)
  moreover have "\<not> better_candidate c' c" if "x \<in> set (lg_members g)" "lane_candidate s g x = Some c'" for x c'
    using foldl_select_best [OF c(1)] that by blast
  ultimately show ?thesis using Some m by auto
qed


end
