(* ===== verification/Command_Queue_Witnesses.thy ===== *)
theory Command_Queue_Witnesses
  imports Command_Queue_Claims
begin

text \<open>
  The claims on the command queue at concrete inputs: two lanes share a group of budget 2 in which
  the second one has a reservation of 1, so the second task of the first lane waits.
\<close>

definition example_configuration :: LaneConfiguration where
  "example_configuration = \<lparr>cf_lanes = [(''a'', 5), (''b'', 5)],
     cf_groups = [(''g'', \<lparr>gs_budget = 2, gs_members = [''a'', ''b''], gs_reservations = [(''b'', 1)]\<rparr>)],
     cf_clearGroups = []\<rparr>"

definition example_options :: EnqueueOptions where
  "example_options = \<lparr>eo_aborted = False, eo_priority = None, eo_warnAfterMs = None\<rparr>"

definition example_urgent :: EnqueueOptions where
  "example_urgent = \<lparr>eo_aborted = False, eo_priority = Some ''foreground'', eo_warnAfterMs = None\<rparr>"

definition example_queue_ops :: "(int \<times> queue_op) list" where
  "example_queue_ops = [(0, OpPublish example_configuration),
     (1, OpEnqueue False ''a'' example_options), (2, OpEnqueue False ''a'' example_options)]"

definition example_group :: LaneGroupState where
  "example_group = \<lparr>lg_group = ''g'', lg_budget = 2, lg_members = [''a'', ''b''],
     lg_reservations = [(''b'', 1)]\<rparr>"

lemma example_lanes:
  "normalizeLane ''a'' = ''a''" "normalizeLane ''b'' = ''b''"
  "lane_width ''a'' 5 = 5" "lane_width ''b'' 5 = 5" "lane_width ''a'' 0 = 0" "lane_width ''b'' 0 = 0"
  "\<not> scoped_lane ''a''" "\<not> scoped_lane ''b''"
  by code_simp+

lemma example_validated: "validate_groups (cf_groups example_configuration) = Inr [example_group]"
  by code_simp

lemmas queue_evaluation = run_queue_def publish_install_def publish_lane_def example_lanes Let_def
  getLaneState_def initial_queue_state_def set_state_def publish_group_def group_members_def
  installCommandLaneGroup_def detach_member_def touch_def js_set_of_def publish_drain_def lane_at_def
  new_lane_state_def createLaneQueue_def enqueueCommandInLane_def enqueueLaneEntry_def new_entry_def
  resolveQueuePriority_def drainReadyCommandLane_def getLaneGroup_def drain_group.simps
  drain_loop.simps drainLane_def set_draining_def may_start_def canAdmitInGroup_def
  resolveNextGroupLane_def lane_candidate_def resolveGroupBlockReason_def readGroupCapacity_def
  getMemberActiveCount_def reservation_def select_candidate_def start_entry_def
  retireIdleScopedCommandLane_def enqueueLaneQueue_def dequeueLaneQueue_def createQueueRing_def
  appendQueueRing_def grow_ring_def INITIAL_QUEUE_RING_CAPACITY_def dequeueQueueRing_def ring_slot_def
  peekLaneQueue_def peekQueueRing_def setCommandLaneConcurrency_def example_options_def
  example_urgent_def example_group_def

text \<open>The state after the three operations: one task of \<open>a\<close> runs, one is queued.\<close>

lemma example_run:
  "qs_lanes (run_queue example_queue_ops initial_queue_state) = [(''a'', 0), (''b'', 1)]"
  "qs_groups (run_queue example_queue_ops initial_queue_state) = [(''g'', example_group)]"
  "qs_groupByLane (run_queue example_queue_ops initial_queue_state) = [(''a'', ''g''), (''b'', ''g'')]"
  "ls_activeTaskIds (qs_store (run_queue example_queue_ops initial_queue_state) 0) = [1]"
  "lq_length (ls_queue (qs_store (run_queue example_queue_ops initial_queue_state) 0)) = 1"
  "ls_activeTaskIds (qs_store (run_queue example_queue_ops initial_queue_state) (Suc 0)) = []"
  "ls_maxConcurrent (qs_store (run_queue example_queue_ops initial_queue_state) (Suc 0)) = 5"
proof -
  have "publishLaneConfiguration 0 example_configuration initial_queue_state = Inr (initial_queue_state
    \<lparr>qs_lanes := [(''a'', 0), (''b'', 1)],
     qs_store := (qs_store initial_queue_state)(0 := (new_lane_state ''a'')\<lparr>ls_maxConcurrent := 5\<rparr>,
       1 := (new_lane_state ''b'')\<lparr>ls_maxConcurrent := 5\<rparr>), qs_nextRef := 2,
     qs_groups := [(''g'', example_group)], qs_groupByLane := [(''a'', ''g''), (''b'', ''g'')]\<rparr>)"
    unfolding publishLaneConfiguration_def example_validated
    by (simp add: queue_evaluation example_configuration_def)
  then show "qs_lanes (run_queue example_queue_ops initial_queue_state) = [(''a'', 0), (''b'', 1)]"
    "qs_groups (run_queue example_queue_ops initial_queue_state) = [(''g'', example_group)]"
    "qs_groupByLane (run_queue example_queue_ops initial_queue_state) = [(''a'', ''g''), (''b'', ''g'')]"
    "ls_activeTaskIds (qs_store (run_queue example_queue_ops initial_queue_state) 0) = [1]"
    "lq_length (ls_queue (qs_store (run_queue example_queue_ops initial_queue_state) 0)) = 1"
    "ls_activeTaskIds (qs_store (run_queue example_queue_ops initial_queue_state) (Suc 0)) = []"
    "ls_maxConcurrent (qs_store (run_queue example_queue_ops initial_queue_state) (Suc 0)) = 5"
    by (simp_all add: queue_evaluation example_queue_ops_def)
qed

lemma example_ops_ok: "list_all op_ok example_queue_ops"
  by (simp add: example_queue_ops_def example_configuration_def configuration_ok_def)

lemma example_group_lookup:
  "jm_get (qs_groups (run_queue example_queue_ops initial_queue_state)) ''g'' = Some example_group"
  "getLaneGroup (run_queue example_queue_ops initial_queue_state) ''b'' = Some example_group"
  "group_load (run_queue example_queue_ops initial_queue_state) example_group = 2"
  by (simp_all add: getLaneGroup_def group_load_def getMemberActiveCount_ref example_run)
    (simp add: example_group_def reservation_def example_run)

theorem queue_is_work_conserving_witness:
  "quiescent (run_queue example_queue_ops initial_queue_state)"
  by (rule queue_is_work_conserving [OF example_ops_ok])

theorem reserved_lane_never_waits_witness:
  "reservation example_group ''b'' = 1 \<and>
    lq_length (ls_queue (qs_store (run_queue example_queue_ops initial_queue_state) 1)) = 0"
proof
  show r: "reservation example_group ''b'' = 1" by (simp add: reservation_def example_group_def)
  show "lq_length (ls_queue (qs_store (run_queue example_queue_ops initial_queue_state) 1)) = 0"
    by (rule reserved_lane_never_waits [OF example_ops_ok example_group_lookup(2)])
      (simp_all add: example_group_lookup(3) lane_at_def example_run r, simp add: example_group_def)
qed

theorem capacity_is_respected_witness:
  "group_active (queue_step (3, OpEnqueue False ''b'' example_options)
    (run_queue example_queue_ops initial_queue_state)) example_group \<le> 2"
  using capacity_is_respected [OF example_ops_ok example_group_lookup(1), of "(3, OpEnqueue False ''b'' example_options)"]
    example_group_lookup(3) by (simp add: example_group_def)

theorem lane_in_one_group_witness:
  "getLaneGroup (run_queue example_queue_ops initial_queue_state) ''a'' = Some example_group \<and>
    group_eligible ''a''"
  using lane_in_one_group [OF example_ops_ok example_group_lookup(1), of "''a''"]
  by (simp add: example_group_def)

text \<open>A lane of width 0 collects a normal and then a foreground task; widened to 1 it can start one.\<close>

definition example_paused_ops :: "(int \<times> queue_op) list" where
  "example_paused_ops = [(0, OpSetConcurrency ''a'' 0), (1, OpEnqueue False ''a'' example_options),
     (2, OpEnqueue False ''a'' example_urgent)]"

definition example_widened :: QueueState where
  "example_widened = set_state 0 ((qs_store (run_queue example_paused_ops initial_queue_state) 0)
     \<lparr>ls_maxConcurrent := 1\<rparr>) (run_queue example_paused_ops initial_queue_state)"

lemma example_paused:
  "qs_lanes (run_queue example_paused_ops initial_queue_state) = [(''a'', 0)]"
  "qs_groupByLane (run_queue example_paused_ops initial_queue_state) = []"
  "ls_activeTaskIds (qs_store (run_queue example_paused_ops initial_queue_state) 0) = []"
  "ls_draining (qs_store (run_queue example_paused_ops initial_queue_state) 0) = False"
  "map en_sequence (lane_list (ls_queue (qs_store (run_queue example_paused_ops initial_queue_state) 0))) = [2, 1]"
  by (simp_all add: example_paused_ops_def queue_evaluation lane_list_def ring_list_def)

lemma example_widened_wf:
  "queue_wf example_widened" "jm_get (qs_lanes example_widened) ''a'' = Some 0"
  "queued_at example_widened 0 = [2, 1]"
proof -
  have wf: "queue_wf (run_queue example_paused_ops initial_queue_state)"
    by (rule run_queue_invariants(1) [OF queue_wf_initial conserved_initial])
  have "jm_get (qs_lanes (run_queue example_paused_ops initial_queue_state)) ''a'' = Some 0"
    by (simp add: example_paused)
  from queue_wf_set_width [OF wf queue_wf_registered(1) [OF wf this]]
  show "queue_wf example_widened" by (simp add: example_widened_def)
  show "jm_get (qs_lanes example_widened) ''a'' = Some 0" "queued_at example_widened 0 = [2, 1]"
    by (simp_all add: example_widened_def set_state_def example_paused queued_at_def)
qed

lemma example_drain: "fst (drainLane (Some 1) 3 ''a'' 0 example_widened) = 1"
  by (simp add: example_widened_def example_paused_ops_def queue_evaluation)

theorem drain_starts_in_order_witness:
  "started_since example_widened (snd (drainLane (Some 1) 3 ''a'' 0 example_widened)) = [2] \<and>
    queued_at (snd (drainLane (Some 1) 3 ''a'' 0 example_widened)) 0 = [1]"
proof -
  have "drainLane (Some 1) 3 ''a'' 0 example_widened =
      (1, snd (drainLane (Some 1) 3 ''a'' 0 example_widened))"
    using example_drain by (metis prod.collapse)
  from drain_starts_in_order [OF example_widened_wf(1,2) this] show ?thesis
    by (simp add: example_widened_wf(3))
qed

text \<open>Two lanes of width 0 with a task each, in an improvised group that could take both.\<close>

definition example_rivals :: QueueState where
  "example_rivals = (let s = run_queue [(0, OpSetConcurrency ''a'' 0), (0, OpSetConcurrency ''b'' 0),
       (1, OpEnqueue False ''a'' example_options), (2, OpEnqueue False ''b'' example_urgent)]
       initial_queue_state
     in s\<lparr>qs_store := (\<lambda>r. (qs_store s r)\<lparr>ls_maxConcurrent := 1\<rparr>)\<rparr>)"

lemma example_rivals_candidates:
  "lane_candidate example_rivals example_group ''a'' = Some (''a'', 0, 1)"
  "lane_candidate example_rivals example_group ''b'' = Some (''b'', 1, 2)"
  by (simp_all add: example_rivals_def queue_evaluation)

theorem arbiter_picks_first_witness:
  "resolveNextGroupLane example_rivals example_group = Some ''b''"
proof -
  have m: "lg_members example_group = [''a'', ''b'']" by (simp add: example_group_def)
  show ?thesis
    using arbiter_picks_first [where s = example_rivals and g = example_group]
    by (auto simp: m example_rivals_candidates split: option.splits)
qed


end
