(* ===== verification/Auth_Rate_Limit.thy ===== *)
theory Auth_Rate_Limit
  imports Prelude
begin

text \<open>
  The sliding-window limiter of failed gateway authentications
  (\<open>src/gateway/auth-rate-limit.ts\<close>) and the option coercions it uses
  (\<open>packages/normalization-core/src/number-coercion.ts\<close>).

  The two questions about addresses, \<open>resolveClientIp\<close> of a bare remote address and
  \<open>isLoopbackAddress\<close>, are answered by the library ipaddr.js and are parameters (\<open>ClientNet\<close>).
  Every operation reads the clock once; the waiting of a penalised request is modelled by the
  registration of the request under its key and the operation of the key's timer.
\<close>

section \<open>Options\<close>

record RateLimitConfig =
  rc_maxAttempts :: "int option"
  rc_windowMs :: "int option"
  rc_lockoutMs :: "int option"
  rc_exemptLoopback :: "bool option"
  rc_maxEntries :: "int option"

record RateLimitOptions =
  ro_maxAttempts :: int
  ro_windowMs :: int
  ro_lockoutMs :: int
  ro_exemptLoopback :: bool
  ro_maxEntries :: int

definition MAX_TIMER_TIMEOUT_MS :: int where "MAX_TIMER_TIMEOUT_MS = 2147000000"

definition resolveTimerTimeoutMs :: "int option \<Rightarrow> int \<Rightarrow> int \<Rightarrow> int" where
  "resolveTimerTimeoutMs valueMs fallbackMs minMs =
     (let value = (case valueMs of Some v \<Rightarrow> v | None \<Rightarrow> fallbackMs)
      in min (max value (max 0 minMs)) MAX_TIMER_TIMEOUT_MS)"

definition resolveIntegerOption :: "int option \<Rightarrow> int \<Rightarrow> int option \<Rightarrow> int option \<Rightarrow> int" where
  "resolveIntegerOption value fallback minimum maximum =
     (let candidate = (case value of Some v \<Rightarrow> v | None \<Rightarrow> fallback);
          minBounded = (case minimum of None \<Rightarrow> candidate | Some m \<Rightarrow> max m candidate)
      in case maximum of None \<Rightarrow> minBounded | Some m \<Rightarrow> min m minBounded)"

definition DEFAULT_MAX_ATTEMPTS :: int where "DEFAULT_MAX_ATTEMPTS = 10"
definition DEFAULT_WINDOW_MS :: int where "DEFAULT_WINDOW_MS = 60000"
definition DEFAULT_LOCKOUT_MS :: int where "DEFAULT_LOCKOUT_MS = 300000"
definition DEFAULT_MAX_ENTRIES :: int where "DEFAULT_MAX_ENTRIES = 10000"
definition LOOPBACK_FAILURE_DELAY_BASE_MS :: int where "LOOPBACK_FAILURE_DELAY_BASE_MS = 250"
definition LOOPBACK_FAILURE_DELAY_MAX_MS :: int where "LOOPBACK_FAILURE_DELAY_MAX_MS = 5000"

text \<open>\<open>Math.ceil(Math.log2(5000 / 250)) + 1\<close>, that is, one more than the doublings to the cap.\<close>

definition LOOPBACK_FAILURE_HISTORY_LIMIT :: nat where "LOOPBACK_FAILURE_HISTORY_LIMIT = 6"

definition createAuthRateLimiter :: "RateLimitConfig \<Rightarrow> RateLimitOptions" where
  "createAuthRateLimiter config =
     \<lparr>ro_maxAttempts = (case rc_maxAttempts config of Some n \<Rightarrow> n | None \<Rightarrow> DEFAULT_MAX_ATTEMPTS),
      ro_windowMs = resolveTimerTimeoutMs (rc_windowMs config) DEFAULT_WINDOW_MS 0,
      ro_lockoutMs = resolveTimerTimeoutMs (rc_lockoutMs config) DEFAULT_LOCKOUT_MS 0,
      ro_exemptLoopback = (case rc_exemptLoopback config of Some b \<Rightarrow> b | None \<Rightarrow> True),
      ro_maxEntries = resolveIntegerOption (rc_maxEntries config) DEFAULT_MAX_ENTRIES (Some 1) None\<rparr>"

section \<open>Client identities\<close>

record ClientNet =
  cn_resolveClientIp :: "string option \<Rightarrow> string option"
  cn_isLoopbackAddress :: "string \<Rightarrow> bool"

definition BROWSER_ORIGIN_RATE_LIMIT_KEY_PREFIX :: string where
  "BROWSER_ORIGIN_RATE_LIMIT_KEY_PREFIX = ''browser-origin:''"

definition IDENTITY_RATE_LIMIT_KEY_PREFIX :: string where
  "IDENTITY_RATE_LIMIT_KEY_PREFIX = ''identity:''"

definition normalizeRateLimitClientIp :: "ClientNet \<Rightarrow> string option \<Rightarrow> string" where
  "normalizeRateLimitClientIp net ip =
     (let resolved = (case cn_resolveClientIp net ip of Some r \<Rightarrow> r | None \<Rightarrow> ''unknown'')
      in case ip of None \<Rightarrow> resolved
         | Some raw \<Rightarrow>
             if js_startsWith raw BROWSER_ORIGIN_RATE_LIMIT_KEY_PREFIX \<or>
                js_startsWith raw IDENTITY_RATE_LIMIT_KEY_PREFIX then raw else resolved)"

definition buildRateLimitIdentityKey :: "string \<Rightarrow> string \<Rightarrow> string" where
  "buildRateLimitIdentityKey namespace identity =
     IDENTITY_RATE_LIMIT_KEY_PREFIX @ namespace @ '':'' @ identity"

definition AUTH_RATE_LIMIT_SCOPE_DEFAULT :: string where "AUTH_RATE_LIMIT_SCOPE_DEFAULT = ''default''"

definition normalizeScope :: "string option \<Rightarrow> string" where
  "normalizeScope scope =
     (let t = js_trim (case scope of Some s \<Rightarrow> s | None \<Rightarrow> AUTH_RATE_LIMIT_SCOPE_DEFAULT)
      in if t = [] then AUTH_RATE_LIMIT_SCOPE_DEFAULT else t)"

text \<open>\<open>{key, ip}\<close>.\<close>

definition resolveKey :: "ClientNet \<Rightarrow> string option \<Rightarrow> string option \<Rightarrow> string \<times> string" where
  "resolveKey net rawIp rawScope =
     (let ip = normalizeRateLimitClientIp net rawIp
      in (normalizeScope rawScope @ '':'' @ ip, ip))"

definition isExempt :: "ClientNet \<Rightarrow> RateLimitOptions \<Rightarrow> string \<Rightarrow> bool" where
  "isExempt net opts ip \<longleftrightarrow> ro_exemptLoopback opts \<and> cn_isLoopbackAddress net ip"

definition isAuthRateLimitClientExempt :: "ClientNet \<Rightarrow> RateLimitOptions \<Rightarrow> string option \<Rightarrow> bool" where
  "isAuthRateLimitClientExempt net opts ip \<longleftrightarrow> isExempt net opts (normalizeRateLimitClientIp net ip)"

section \<open>State\<close>

record RateLimitEntry =
  re_attempts :: "int list"
  re_lockedUntil :: "int option"

record PenaltyWaiters =
  pw_deadline :: int
  pw_resolvers :: "nat list"

record RateLimiter =
  rl_entries :: "(string, RateLimitEntry) jsmap"
  rl_penaltyUntil :: "(string, int) jsmap"
  rl_waiters :: "(string, PenaltyWaiters) jsmap"
  rl_overflowLockedUntil :: "int option"
  rl_released :: "nat list"

record RateLimitCheckResult =
  cr_allowed :: bool
  cr_remaining :: int
  cr_retryAfterMs :: int

definition empty_limiter :: RateLimiter where
  "empty_limiter = \<lparr>rl_entries = [], rl_penaltyUntil = [], rl_waiters = [],
     rl_overflowLockedUntil = None, rl_released = []\<rparr>"

text \<open>An instant that is unset or 0 counts as absent.\<close>

definition before :: "int \<Rightarrow> int option \<Rightarrow> bool" where
  "before now until = (case until of None \<Rightarrow> False | Some u \<Rightarrow> u \<noteq> 0 \<and> now < u)"

definition expired :: "int \<Rightarrow> int option \<Rightarrow> bool" where
  "expired now until = (case until of None \<Rightarrow> False | Some u \<Rightarrow> u \<noteq> 0 \<and> u \<le> now)"

definition slideWindow :: "RateLimitOptions \<Rightarrow> int \<Rightarrow> RateLimitEntry \<Rightarrow> RateLimitEntry" where
  "slideWindow opts now entry =
     entry\<lparr>re_attempts := filter (\<lambda>ts. now - ro_windowMs opts < ts) (re_attempts entry)\<rparr>"

section \<open>Pruning and the cap on entries\<close>

text \<open>What the loop over the entries leaves of one: nothing, or the entry itself or slid.\<close>

definition prune_entry ::
  "RateLimitOptions \<Rightarrow> int \<Rightarrow> string \<times> RateLimitEntry \<Rightarrow> (string \<times> RateLimitEntry) list" where
  "prune_entry opts now e =
     (if before now (re_lockedUntil (snd e)) then [e]
      else let slid = slideWindow opts now (snd e)
           in if re_attempts slid = [] then [] else [(fst e, slid)])"

definition pruneExpiredEntries :: "RateLimitOptions \<Rightarrow> int \<Rightarrow> RateLimiter \<Rightarrow> RateLimiter" where
  "pruneExpiredEntries opts now st = st
     \<lparr>rl_entries := concat (map (prune_entry opts now) (rl_entries st)),
      rl_penaltyUntil := filter (\<lambda>(key, until). now < until) (rl_penaltyUntil st)\<rparr>"

definition full :: "RateLimitOptions \<Rightarrow> RateLimiter \<Rightarrow> bool" where
  "full opts st \<longleftrightarrow> ro_maxEntries opts \<le> int (length (rl_entries st))"

definition checkOverflowLock ::
  "RateLimitOptions \<Rightarrow> int \<Rightarrow> RateLimiter \<Rightarrow> RateLimitCheckResult option \<times> RateLimiter" where
  "checkOverflowLock opts now st =
     (if before now (rl_overflowLockedUntil st) then
        let st1 = (if full opts st then pruneExpiredEntries opts now st else st)
        in if \<not> full opts st1 then (None, st1\<lparr>rl_overflowLockedUntil := None\<rparr>)
           else (Some \<lparr>cr_allowed = False, cr_remaining = 0,
                   cr_retryAfterMs = the (rl_overflowLockedUntil st1) - now\<rparr>, st1)
      else if expired now (rl_overflowLockedUntil st) then (None, st\<lparr>rl_overflowLockedUntil := None\<rparr>)
      else (None, st))"

text \<open>Whether there is room for one more entry, and the state with the room made.\<close>

definition enforceMaxEntries :: "RateLimitOptions \<Rightarrow> int \<Rightarrow> RateLimiter \<Rightarrow> bool \<times> RateLimiter" where
  "enforceMaxEntries opts now st =
     (if \<not> full opts st then (True, st)
      else
        let st1 = pruneExpiredEntries opts now st
        in if \<not> full opts st1 then (True, st1)
           else case find (\<lambda>(key, entry). \<not> before now (re_lockedUntil entry)) (rl_entries st1) of
                  Some (key, _) \<Rightarrow> (True, st1\<lparr>rl_entries := jm_delete key (rl_entries st1)\<rparr>)
                | None \<Rightarrow> (False, st1))"

section \<open>Checking and recording\<close>

definition check ::
  "ClientNet \<Rightarrow> RateLimitOptions \<Rightarrow> int \<Rightarrow> string option \<Rightarrow> string option \<Rightarrow> RateLimiter
    \<Rightarrow> RateLimitCheckResult \<times> RateLimiter" where
  "check net opts now rawIp rawScope st =
     (let (key, ip) = resolveKey net rawIp rawScope;
          open_result = \<lparr>cr_allowed = True, cr_remaining = ro_maxAttempts opts, cr_retryAfterMs = 0\<rparr>
      in if isExempt net opts ip then (open_result, st)
         else case jm_get (rl_entries st) key of
             None \<Rightarrow>
               (case checkOverflowLock opts now st of
                  (Some lock, st') \<Rightarrow> (lock, st')
                | (None, st') \<Rightarrow> (open_result, st'))
           | Some entry \<Rightarrow>
               if before now (re_lockedUntil entry) then
                 (\<lparr>cr_allowed = False, cr_remaining = 0,
                   cr_retryAfterMs = the (re_lockedUntil entry) - now\<rparr>, st)
               else
                 let entry1 = (if expired now (re_lockedUntil entry)
                       then entry\<lparr>re_lockedUntil := None, re_attempts := []\<rparr> else entry);
                     entry2 = slideWindow opts now entry1;
                     remaining = max 0 (ro_maxAttempts opts - int (length (re_attempts entry2)))
                 in (\<lparr>cr_allowed = 0 < remaining, cr_remaining = remaining, cr_retryAfterMs = 0\<rparr>,
                     st\<lparr>rl_entries := jm_set key entry2 (rl_entries st)\<rparr>))"

text \<open>The new attempt counts in the window; the exempt history is capped, the other locks.\<close>

definition count_failure :: "RateLimitOptions \<Rightarrow> bool \<Rightarrow> int \<Rightarrow> RateLimitEntry \<Rightarrow> RateLimitEntry" where
  "count_failure opts exempt now entry =
     (let slid = slideWindow opts now entry;
          attempts = re_attempts slid @ [now]
      in if exempt \<and> LOOPBACK_FAILURE_HISTORY_LIMIT < length attempts
           then slid\<lparr>re_attempts := drop (length attempts - LOOPBACK_FAILURE_HISTORY_LIMIT) attempts\<rparr>
         else if \<not> exempt \<and> ro_maxAttempts opts \<le> int (length attempts)
           then slid\<lparr>re_attempts := attempts, re_lockedUntil := Some (now + ro_lockoutMs opts)\<rparr>
         else slid\<lparr>re_attempts := attempts\<rparr>)"

definition recordFailure ::
  "ClientNet \<Rightarrow> RateLimitOptions \<Rightarrow> int \<Rightarrow> string option \<Rightarrow> string option \<Rightarrow> RateLimiter \<Rightarrow> RateLimiter"
where
  "recordFailure net opts now rawIp rawScope st =
     (let (key, ip) = resolveKey net rawIp rawScope;
          exempt = isExempt net opts ip
      in case jm_get (rl_entries st) key of
           Some entry \<Rightarrow>
             if before now (re_lockedUntil entry) then st
             else st\<lparr>rl_entries := jm_set key (count_failure opts exempt now entry) (rl_entries st)\<rparr>
         | None \<Rightarrow>
             (case enforceMaxEntries opts now st of
                (False, st1) \<Rightarrow> st1\<lparr>rl_overflowLockedUntil :=
                  Some (max (case rl_overflowLockedUntil st1 of Some u \<Rightarrow> u | None \<Rightarrow> 0)
                    (now + ro_lockoutMs opts))\<rparr>
              | (True, st1) \<Rightarrow> st1\<lparr>rl_entries := jm_set key (count_failure opts exempt now
                  \<lparr>re_attempts = [], re_lockedUntil = None\<rparr>) (rl_entries st1)\<rparr>))"

section \<open>The delay of exempt clients\<close>

text \<open>The count is at least 1 wherever the source computes a penalty.\<close>

definition penaltyMs :: "nat \<Rightarrow> int" where
  "penaltyMs failureCount = min (LOOPBACK_FAILURE_DELAY_BASE_MS * 2 ^ min (failureCount - 1) 30)
     LOOPBACK_FAILURE_DELAY_MAX_MS"

definition penalty_deadline :: "int \<Rightarrow> int \<Rightarrow> int option \<Rightarrow> int" where
  "penalty_deadline now penalty until =
     min (max (case until of Some u \<Rightarrow> u | None \<Rightarrow> 0) (now + penalty)) (now + LOOPBACK_FAILURE_DELAY_MAX_MS)"

definition recordFailureAndDelay ::
  "ClientNet \<Rightarrow> RateLimitOptions \<Rightarrow> int \<Rightarrow> nat \<Rightarrow> string option \<Rightarrow> string option \<Rightarrow> RateLimiter \<Rightarrow> RateLimiter"
where
  "recordFailureAndDelay net opts now request rawIp rawScope st =
     (let (key, ip) = resolveKey net rawIp rawScope;
          st1 = recordFailure net opts now rawIp rawScope st
      in if \<not> isExempt net opts ip then st1\<lparr>rl_released := rl_released st1 @ [request]\<rparr>
         else
           let failureCount = (case jm_get (rl_entries st1) key of
                 Some entry \<Rightarrow> length (re_attempts entry) | None \<Rightarrow> 1);
               deadline = penalty_deadline now (penaltyMs failureCount) (jm_get (rl_penaltyUntil st1) key);
               waiters = (case jm_get (rl_waiters st1) key of
                   Some existing \<Rightarrow>
                     existing\<lparr>pw_resolvers := pw_resolvers existing @ [request],
                       pw_deadline := (if pw_deadline existing < deadline then deadline
                         else pw_deadline existing)\<rparr>
                 | None \<Rightarrow> \<lparr>pw_deadline = deadline, pw_resolvers = [request]\<rparr>)
           in st1\<lparr>rl_penaltyUntil := jm_set key deadline (rl_penaltyUntil st1),
                  rl_waiters := jm_set key waiters (rl_waiters st1)\<rparr>)"

definition releaseLoopbackWaiters :: "string \<Rightarrow> RateLimiter \<Rightarrow> RateLimiter" where
  "releaseLoopbackWaiters key st =
     (case jm_get (rl_waiters st) key of None \<Rightarrow> st
      | Some waiters \<Rightarrow> st\<lparr>rl_waiters := jm_delete key (rl_waiters st),
          rl_released := rl_released st @ pw_resolvers waiters\<rparr>)"

text \<open>The timer of a key fires at or after the deadline it was last armed for.\<close>

definition penalty_timer :: "int \<Rightarrow> string \<Rightarrow> RateLimiter \<Rightarrow> RateLimiter" where
  "penalty_timer now key st =
     (case jm_get (rl_waiters st) key of None \<Rightarrow> st
      | Some waiters \<Rightarrow> if pw_deadline waiters \<le> now then releaseLoopbackWaiters key st else st)"

definition reset_limit ::
  "ClientNet \<Rightarrow> string option \<Rightarrow> string option \<Rightarrow> RateLimiter \<Rightarrow> RateLimiter" where
  "reset_limit net rawIp rawScope st =
     (let key = fst (resolveKey net rawIp rawScope)
      in st\<lparr>rl_entries := jm_delete key (rl_entries st),
            rl_penaltyUntil := jm_delete key (rl_penaltyUntil st)\<rparr>)"

definition size_limiter :: "RateLimiter \<Rightarrow> nat" where
  "size_limiter st = length (rl_entries st)"

definition dispose :: "RateLimiter \<Rightarrow> RateLimiter" where
  "dispose st = fold releaseLoopbackWaiters (jm_keys (rl_waiters st))
     (st\<lparr>rl_entries := [], rl_penaltyUntil := [], rl_overflowLockedUntil := None\<rparr>)"

section \<open>The limiter as a machine\<close>

datatype limiter_op =
  RlCheck "string option" "string option"
| RlFailure "string option" "string option"
| RlFailureDelay nat "string option" "string option"
| RlReset "string option" "string option"
| RlPrune
| RlTimer string
| RlDispose

fun limiter_step :: "ClientNet \<Rightarrow> RateLimitOptions \<Rightarrow> int \<times> limiter_op \<Rightarrow> RateLimiter \<Rightarrow> RateLimiter" where
  "limiter_step net opts (now, RlCheck ip scope) st = snd (check net opts now ip scope st)"
| "limiter_step net opts (now, RlFailure ip scope) st = recordFailure net opts now ip scope st"
| "limiter_step net opts (now, RlFailureDelay n ip scope) st = recordFailureAndDelay net opts now n ip scope st"
| "limiter_step net opts (now, RlReset ip scope) st = reset_limit net ip scope st"
| "limiter_step net opts (now, RlPrune) st = pruneExpiredEntries opts now st"
| "limiter_step net opts (now, RlTimer key) st = penalty_timer now key st"
| "limiter_step net opts (now, RlDispose) st = dispose st"

definition run_limiter ::
  "ClientNet \<Rightarrow> RateLimitOptions \<Rightarrow> (int \<times> limiter_op) list \<Rightarrow> RateLimiter \<Rightarrow> RateLimiter" where
  "run_limiter net opts ops st = fold (limiter_step net opts) ops st"

end
