(* ===== verification/Auth_Rate_Claims.thy ===== *)
theory Auth_Rate_Claims
  imports Auth_Rate_Limit
begin

text \<open>
  What the limiter guarantees: its table is bounded, a lockout cannot be lifted early by any
  traffic (not by flooding the table, not by other keys), and an exempt client is never denied but
  waits for a bounded, escalating time.
\<close>

section \<open>The table is bounded\<close>

definition limiter_ok :: "RateLimitOptions \<Rightarrow> RateLimiter \<Rightarrow> bool" where
  "limiter_ok opts st \<longleftrightarrow> jm_ok (rl_entries st) \<and> int (length (rl_entries st)) \<le> ro_maxEntries opts"

lemma createAuthRateLimiter_max: "1 \<le> ro_maxEntries (createAuthRateLimiter config)"
  by (simp add: createAuthRateLimiter_def resolveIntegerOption_def split: option.split)

lemma concat_keyed:
  assumes "\<And>x. fst ` set (f x) \<subseteq> {fst x}" "\<And>x. length (f x) \<le> 1"
  shows "fst ` set (concat (map f es)) \<subseteq> fst ` set es" "length (concat (map f es)) \<le> length es"
    "distinct (map fst es) \<Longrightarrow> distinct (map fst (concat (map f es)))"
proof -
  have keys: "fst ` set (concat (map f es)) \<subseteq> fst ` set es" for es
  proof (induction es)
    case (Cons x es)
    have "fst ` set (concat (map f (x # es))) = fst ` set (f x) \<union> fst ` set (concat (map f es))"
      by (simp add: image_Un)
    with Cons assms(1) [of x] show ?case by (simp only: list.set) blast
  qed simp
  then show "fst ` set (concat (map f es)) \<subseteq> fst ` set es" .
  show "length (concat (map f es)) \<le> length es"
  proof (induction es)
    case (Cons x es)
    with assms(2) [of x] show ?case by simp
  qed simp
  have single: "distinct (map fst (f x))" for x
    using assms(2) [of x] by (cases "f x") auto
  show "distinct (map fst es) \<Longrightarrow> distinct (map fst (concat (map f es)))"
  proof (induction es)
    case (Cons x es)
    then have "fst x \<notin> fst ` set es" "distinct (map fst (concat (map f es)))" by simp_all
    moreover have "k \<notin> fst ` set (concat (map f es))" if "k \<in> fst ` set (f x)" for k
      using that subsetD [OF assms(1) [of x], of k] subsetD [OF keys [of es], of k] calculation(1) by auto
    then have "set (map fst (f x)) \<inter> set (map fst (concat (map f es))) = {}"
      by (simp only: set_map disjoint_iff) blast
    ultimately show ?case
      using single [of x] by (simp only: list.map concat.simps map_append distinct_append)
  qed simp
qed

lemma prune_entry_keyed:
  "fst ` set (prune_entry opts now e) \<subseteq> {fst e}" "length (prune_entry opts now e) \<le> 1"
  by (simp_all add: prune_entry_def Let_def)

lemma prune_keys:
  "length (rl_entries (pruneExpiredEntries opts now st)) \<le> length (rl_entries st)"
  "jm_ok (rl_entries st) \<Longrightarrow> jm_ok (rl_entries (pruneExpiredEntries opts now st))"
  using concat_keyed(2,3) [OF prune_entry_keyed]
  by (simp_all add: pruneExpiredEntries_def jm_ok_def)

lemma prune_ok: "limiter_ok opts st \<Longrightarrow> limiter_ok opts (pruneExpiredEntries opts now st)"
  using prune_keys [where opts = opts and now = now and st = st] by (simp add: limiter_ok_def)

lemma prune_overflow [simp]:
  "rl_overflowLockedUntil (pruneExpiredEntries opts now st) = rl_overflowLockedUntil st"
  "rl_waiters (pruneExpiredEntries opts now st) = rl_waiters st"
  by (simp_all add: pruneExpiredEntries_def)

lemma limiter_ok_entries:
  "rl_entries st' = rl_entries st \<Longrightarrow> limiter_ok opts st' = limiter_ok opts st"
  by (simp add: limiter_ok_def)

lemma limiter_ok_set_existing:
  "limiter_ok opts st \<Longrightarrow> jm_get (rl_entries st) key = Some e \<Longrightarrow>
    limiter_ok opts (st\<lparr>rl_entries := jm_set key e' (rl_entries st)\<rparr>)"
  by (auto simp: limiter_ok_def jm_set_length dest!: map_of_SomeD intro: rev_image_eqI)

lemma enforceMaxEntries_room:
  assumes "limiter_ok opts st" "enforceMaxEntries opts now st = (b, st1)"
  shows "limiter_ok opts st1" "b \<Longrightarrow> \<not> full opts st1"
    "rl_overflowLockedUntil st1 = rl_overflowLockedUntil st" "rl_waiters st1 = rl_waiters st"
proof -
  let ?p = "pruneExpiredEntries opts now st"
  have p: "limiter_ok opts ?p" by (rule prune_ok [OF assms(1)])
  have del: "limiter_ok opts (?p\<lparr>rl_entries := jm_delete key (rl_entries ?p)\<rparr>) \<and>
      \<not> full opts (?p\<lparr>rl_entries := jm_delete key (rl_entries ?p)\<rparr>)"
    if "(key, e) \<in> set (rl_entries ?p)" for key e
  proof -
    have "length (jm_delete key (rl_entries ?p)) < length (rl_entries ?p)"
      unfolding jm_delete_def using that by (intro length_filter_less) auto
    then show ?thesis using p by (simp add: limiter_ok_def full_def)
  qed
  show "limiter_ok opts st1" "b \<Longrightarrow> \<not> full opts st1"
    "rl_overflowLockedUntil st1 = rl_overflowLockedUntil st" "rl_waiters st1 = rl_waiters st"
    using assms p del
    by (auto simp: enforceMaxEntries_def Let_def find_Some_iff split: if_splits option.splits
        dest!: nth_mem)
qed

lemma recordFailure_ok:
  assumes "limiter_ok opts st"
  shows "limiter_ok opts (recordFailure net opts now rawIp rawScope st)"
proof -
  obtain key ip where k: "resolveKey net rawIp rawScope = (key, ip)"
    by (cases "resolveKey net rawIp rawScope")
  show ?thesis
  proof (cases "jm_get (rl_entries st) key")
    case None
    obtain b st1 where e: "enforceMaxEntries opts now st = (b, st1)"
      by (cases "enforceMaxEntries opts now st")
    note r = enforceMaxEntries_room [OF assms e]
    have "limiter_ok opts (st1\<lparr>rl_entries := jm_set key x (rl_entries st1)\<rparr>)" if b for x
      using r(1) r(2) [OF that] by (auto simp: limiter_ok_def full_def jm_set_length)
    with r(1) None k e show ?thesis
      by (cases b) (simp_all add: recordFailure_def limiter_ok_entries [of "st1\<lparr>rl_overflowLockedUntil := u\<rparr>" st1 for u])
  next
    case (Some e)
    with assms k show ?thesis
      by (simp add: recordFailure_def limiter_ok_set_existing)
  qed
qed

lemma checkOverflowLock_ok:
  "limiter_ok opts st \<Longrightarrow> limiter_ok opts (snd (checkOverflowLock opts now st))"
  using prune_ok [of opts st now] by (simp add: checkOverflowLock_def Let_def) (simp add: limiter_ok_def)

lemma check_ok:
  assumes "limiter_ok opts st"
  shows "limiter_ok opts (snd (check net opts now rawIp rawScope st))"
  using assms checkOverflowLock_ok [OF assms, of now]
  by (auto simp: check_def Let_def case_prod_beta limiter_ok_set_existing split: option.split prod.split)

lemma releaseLoopbackWaiters_entries [simp]:
  "rl_entries (releaseLoopbackWaiters key st) = rl_entries st"
  by (simp add: releaseLoopbackWaiters_def split: option.split)

lemma dispose_entries [simp]: "rl_entries (dispose st) = []"
proof -
  have "rl_entries (fold releaseLoopbackWaiters keys s) = rl_entries s" for keys s
    by (induction keys arbitrary: s) simp_all
  then show ?thesis by (simp add: dispose_def)
qed

lemma limiter_step_ok:
  assumes "limiter_ok opts st" "1 \<le> ro_maxEntries opts"
  shows "limiter_ok opts (limiter_step net opts op st)"
  using assms
proof (induction net opts op st rule: limiter_step.induct)
  case (3 net opts now n ip scope st)
  then show ?case
    using recordFailure_ok [of opts st net now ip scope]
    by (simp add: recordFailureAndDelay_def Let_def case_prod_beta limiter_ok_def)
next
  case (4 net opts now ip scope st)
  have "length (jm_delete key (rl_entries st)) \<le> length (rl_entries st)" for key
    by (rule jm_delete_length_le)
  with 4 show ?case
    by (auto simp: limiter_ok_def reset_limit_def Let_def intro: order_trans [rotated])
next
  case (6 net opts now key st)
  then show ?case by (simp add: penalty_timer_def limiter_ok_def split: option.split)
next
  case (7 net opts now st)
  then show ?case by (simp add: limiter_ok_def)
qed (simp_all add: check_ok recordFailure_ok prune_ok)

lemma run_limiter_ok:
  "limiter_ok opts st \<Longrightarrow> 1 \<le> ro_maxEntries opts \<Longrightarrow> limiter_ok opts (run_limiter net opts ops st)"
  by (induction ops arbitrary: st) (simp_all add: run_limiter_def limiter_step_ok)

section \<open>A lockout holds\<close>

text \<open>The entry of a key is locked until \<open>u\<close>.\<close>

definition locked_until :: "RateLimiter \<Rightarrow> string \<Rightarrow> int \<Rightarrow> bool" where
  "locked_until st key u \<longleftrightarrow> (\<exists>entry. jm_get (rl_entries st) key = Some entry \<and>
     re_lockedUntil entry = Some u \<and> u \<noteq> 0)"

lemma map_of_concat_keep:
  assumes "distinct (map fst es)" "map_of es key = Some e" "f (key, e) = [(key, e)]"
    "\<And>x. fst ` set (f x) \<subseteq> {fst x}"
  shows "map_of (concat (map f es)) key = Some e"
  using assms(1,2)
proof (induction es)
  case (Cons x es)
  show ?case
  proof (cases "fst x = key")
    case True
    with Cons.prems have "x = (key, e)" by (cases x) simp
    then show ?thesis using assms(3) by simp
  next
    case False
    then have "map_of (f x) key = None"
      using assms(4) [of x] by (auto simp: map_of_eq_None_iff)
    with Cons False show ?thesis by (cases x) (simp add: map_add_def)
  qed
qed simp

lemma prune_locked:
  assumes "locked_until st key u" "now < u" "jm_ok (rl_entries st)"
  shows "locked_until (pruneExpiredEntries opts now st) key u"
proof -
  obtain e where e: "jm_get (rl_entries st) key = Some e" "re_lockedUntil e = Some u" "u \<noteq> 0"
    using assms(1) by (auto simp: locked_until_def)
  have "map_of (rl_entries (pruneExpiredEntries opts now st)) key = Some e"
  proof -
    have "prune_entry opts now (key, e) = [(key, e)]"
      using e assms(2) by (simp add: prune_entry_def before_def)
    from map_of_concat_keep [OF _ e(1) this prune_entry_keyed(1)] show ?thesis
      using assms(3) by (simp add: pruneExpiredEntries_def jm_ok_def)
  qed
  with e show ?thesis by (simp add: locked_until_def)
qed

lemma enforceMaxEntries_locked:
  assumes "locked_until st key u" "now < u" "jm_ok (rl_entries st)"
  shows "locked_until (snd (enforceMaxEntries opts now st)) key u"
proof -
  let ?p = "pruneExpiredEntries opts now st"
  have p: "locked_until ?p key u" by (rule prune_locked [OF assms])
  have ok: "jm_ok (rl_entries ?p)" by (rule prune_keys(2) [OF assms(3)])
  have "k \<noteq> key" if "(k, e) \<in> set (rl_entries ?p)" "\<not> before now (re_lockedUntil e)" for k e
    using that p assms(2) ok by (auto simp: locked_until_def before_def jm_ok_get split: option.splits)
  moreover have "(k, e) \<in> set (rl_entries ?p) \<and> \<not> before now (re_lockedUntil e)"
    if "find (\<lambda>(key, entry). \<not> before now (re_lockedUntil entry)) (rl_entries ?p) = Some (k, e)" for k e
    using that by (auto simp: find_Some_iff) (metis nth_mem)
  ultimately have "locked_until (?p\<lparr>rl_entries := jm_delete k (rl_entries ?p)\<rparr>) key u"
    if "find (\<lambda>(key, entry). \<not> before now (re_lockedUntil entry)) (rl_entries ?p) = Some (k, e)" for k e
    using that p by (fastforce simp: locked_until_def)
  with assms(1) p show ?thesis
    by (auto simp: enforceMaxEntries_def Let_def split: option.split)
qed

lemma locked_set_other: "locked_until st key u \<Longrightarrow> k \<noteq> key \<Longrightarrow>
    locked_until (st\<lparr>rl_entries := jm_set k x (rl_entries st)\<rparr>) key u"
  by (simp add: locked_until_def)

lemma locked_entries: "rl_entries st' = rl_entries st \<Longrightarrow> locked_until st' key u = locked_until st key u"
  by (simp add: locked_until_def)

text \<open>What ends a lockout early: resetting the key after a success, or disposing of the limiter.\<close>

fun lifts :: "ClientNet \<Rightarrow> string \<Rightarrow> limiter_op \<Rightarrow> bool" where
  "lifts net key (RlReset ip scope) \<longleftrightarrow> fst (resolveKey net ip scope) = key"
| "lifts net key RlDispose \<longleftrightarrow> True"
| "lifts net key _ \<longleftrightarrow> False"

lemma locked_not_lifted:
  "locked_until st key u \<Longrightarrow> now < u \<Longrightarrow> jm_get (rl_entries st) key = Some e \<Longrightarrow> before now (re_lockedUntil e)"
  by (auto simp: locked_until_def before_def)

lemma check_locked:
  assumes l: "locked_until st key u" "now < u" and ok: "jm_ok (rl_entries st)"
  shows "locked_until (snd (check net opts now rawIp rawScope st)) key u"
proof -
  obtain k ip where k: "resolveKey net rawIp rawScope = (k, ip)" by (cases "resolveKey net rawIp rawScope")
  have overflow: "locked_until (snd (checkOverflowLock opts now st)) key u"
    using l prune_locked [OF l ok, of opts]
    by (auto simp: checkOverflowLock_def Let_def locked_until_def)
  show ?thesis
  proof (cases "jm_get (rl_entries st) k")
    case None
    with k l overflow show ?thesis by (auto simp: check_def Let_def split: option.split prod.split)
  next
    case (Some e)
    show ?thesis
    proof (cases "before now (re_lockedUntil e)")
      case False
      then have "k \<noteq> key" using locked_not_lifted [OF l] Some by auto
      with k l Some False show ?thesis by (auto simp: check_def Let_def locked_set_other)
    qed (use k l Some in \<open>simp add: check_def Let_def\<close>)
  qed
qed

lemma recordFailure_locked:
  assumes l: "locked_until st key u" "now < u" and ok: "jm_ok (rl_entries st)"
  shows "locked_until (recordFailure net opts now rawIp rawScope st) key u"
proof -
  obtain k ip where k: "resolveKey net rawIp rawScope = (k, ip)" by (cases "resolveKey net rawIp rawScope")
  show ?thesis
  proof (cases "jm_get (rl_entries st) k")
    case None
    then have other: "k \<noteq> key" using l(1) by (auto simp: locked_until_def)
    obtain b st1 where e: "enforceMaxEntries opts now st = (b, st1)" by (cases "enforceMaxEntries opts now st")
    have "locked_until st1 key u" using enforceMaxEntries_locked [OF l ok, of opts] e by simp
    with k None e other show ?thesis
      by (cases b) (auto simp: recordFailure_def locked_set_other, simp add: locked_until_def)
  next
    case (Some e)
    show ?thesis
    proof (cases "before now (re_lockedUntil e)")
      case False
      then have "k \<noteq> key" using locked_not_lifted [OF l] Some by auto
      with k l Some False show ?thesis by (simp add: recordFailure_def locked_set_other)
    qed (use k l Some in \<open>simp add: recordFailure_def\<close>)
  qed
qed

lemma limiter_step_locked:
  assumes "locked_until st key u" "now < u" "jm_ok (rl_entries st)" "\<not> lifts net key op"
  shows "locked_until (limiter_step net opts (now, op) st) key u"
proof (cases op)
  case (RlFailureDelay n ip scope)
  have "rl_entries (recordFailureAndDelay net opts now n ip scope st) =
      rl_entries (recordFailure net opts now ip scope st)"
    by (simp add: recordFailureAndDelay_def Let_def case_prod_beta)
  with RlFailureDelay recordFailure_locked [OF assms(1-3)] show ?thesis by (simp add: locked_until_def)
next
  case (RlReset ip scope)
  with assms show ?thesis by (simp add: reset_limit_def Let_def locked_until_def)
next
  case (RlTimer k)
  have "rl_entries (penalty_timer now k st) = rl_entries st"
    by (simp add: penalty_timer_def split: option.split)
  with RlTimer assms(1) show ?thesis by (simp add: locked_until_def)
qed (use assms in \<open>simp_all add: check_locked recordFailure_locked prune_locked\<close>)

lemma run_limiter_locked:
  assumes "locked_until st key u" "limiter_ok opts st" "1 \<le> ro_maxEntries opts"
    "\<forall>(t, op) \<in> set ops. t < u \<and> \<not> lifts net key op"
  shows "locked_until (run_limiter net opts ops st) key u"
  using assms
proof (induction ops arbitrary: st)
  case (Cons x ops)
  obtain t op where x: "x = (t, op)" by (cases x)
  have "locked_until (limiter_step net opts (t, op) st) key u"
    using Cons.prems x by (intro limiter_step_locked) (auto simp: limiter_ok_def)
  with Cons x limiter_step_ok [OF Cons.prems(2,3)] show ?case by (simp add: run_limiter_def)
qed (simp add: run_limiter_def)

lemma check_denies:
  assumes "locked_until st (fst (resolveKey net ip scope)) u" "now < u"
    "\<not> isExempt net opts (snd (resolveKey net ip scope))"
  shows "fst (check net opts now ip scope st) =
    \<lparr>cr_allowed = False, cr_remaining = 0, cr_retryAfterMs = u - now\<rparr>"
proof -
  obtain e where "jm_get (rl_entries st) (fst (resolveKey net ip scope)) = Some e"
    "re_lockedUntil e = Some u" "u \<noteq> 0"
    using assms(1) by (auto simp: locked_until_def)
  with assms(2,3) show ?thesis
    by (simp add: check_def case_prod_beta before_def)
qed

section \<open>Failures in a window lock the key\<close>

lemma slide_recent:
  assumes "\<forall>t \<in> set (re_attempts e). now - ro_windowMs opts < t"
  shows "slideWindow opts now e = e"
  using assms by (simp add: slideWindow_def filter_id_conv)

text \<open>The entry after failures that all fall in one window.\<close>

definition counted :: "RateLimitOptions \<Rightarrow> int list \<Rightarrow> RateLimitEntry" where
  "counted opts ts = \<lparr>re_attempts = ts, re_lockedUntil =
     (if ro_maxAttempts opts \<le> int (length ts) then Some (last ts + ro_lockoutMs opts) else None)\<rparr>"

lemma record_counts:
  assumes key: "resolveKey net ip scope = (key, client)" and exempt: "\<not> isExempt net opts client"
    and fresh: "jm_get (rl_entries st) key = None" "\<not> full opts st"
    and ts: "sorted ts" "ts \<noteq> []" "int (length ts) \<le> ro_maxAttempts opts" "last ts - hd ts < ro_windowMs opts"
  shows "jm_get (rl_entries (fold (\<lambda>t. recordFailure net opts t ip scope) ts st)) key = Some (counted opts ts) \<and>
    (limiter_ok opts st \<longrightarrow> limiter_ok opts (fold (\<lambda>t. recordFailure net opts t ip scope) ts st))"
  using ts
proof (induction ts rule: rev_induct)
  case (snoc t ts)
  let ?st = "fold (\<lambda>t. recordFailure net opts t ip scope) ts st"
  show ?case
  proof (cases "ts = []")
    case True
    have "slideWindow opts t \<lparr>re_attempts = [], re_lockedUntil = None\<rparr> =
        \<lparr>re_attempts = [], re_lockedUntil = None\<rparr>" by (simp add: slideWindow_def)
    with True key exempt fresh show ?thesis
      by (simp add: recordFailure_ok) (simp add: recordFailure_def enforceMaxEntries_def count_failure_def counted_def)
  next
    case False
    have hd: "hd ts \<le> x" if "x \<in> set ts" for x
      using that snoc.prems(1) by (cases ts) (auto simp: sorted_append)
    have "last ts \<le> t" using snoc.prems(1) False by (simp add: sorted_append)
    moreover have "t - hd ts < ro_windowMs opts" using snoc.prems(4) False by simp
    ultimately have "last ts - hd ts < ro_windowMs opts" by linarith
    moreover have "sorted ts" "int (length ts) \<le> ro_maxAttempts opts"
      using snoc.prems by (simp_all add: sorted_append)
    ultimately have ih: "jm_get (rl_entries ?st) key = Some (counted opts ts) \<and>
        (limiter_ok opts st \<longrightarrow> limiter_ok opts ?st)"
      using snoc.IH False by simp
    have counted: "counted opts ts = \<lparr>re_attempts = ts, re_lockedUntil = None\<rparr>"
      using snoc.prems(3) by (simp add: counted_def)
    have "slideWindow opts t (counted opts ts) = counted opts ts"
      using snoc.prems(4) hd False by (intro slide_recent) (fastforce simp: counted)
    with ih counted key exempt show ?thesis
      by (simp add: recordFailure_ok) (simp add: recordFailure_def before_def count_failure_def counted_def)
  qed
qed simp

section \<open>The wait of exempt clients\<close>

definition waiters_within :: "int \<Rightarrow> RateLimiter \<Rightarrow> bool" where
  "waiters_within t st \<longleftrightarrow> (\<forall>key w. jm_get (rl_waiters st) key = Some w \<longrightarrow>
     pw_deadline w \<le> t + LOOPBACK_FAILURE_DELAY_MAX_MS)"

lemma waiters_later: "waiters_within t st \<Longrightarrow> t \<le> t' \<Longrightarrow> waiters_within t' st"
  by (fastforce simp: waiters_within_def)

lemma waiters_cong: "rl_waiters st' = rl_waiters st \<Longrightarrow> waiters_within t st' = waiters_within t st"
  by (simp add: waiters_within_def)

lemma enforceMaxEntries_waiters: "rl_waiters (snd (enforceMaxEntries opts now st)) = rl_waiters st"
  by (simp add: enforceMaxEntries_def Let_def split: option.split prod.split)

lemma recordFailure_waiters [simp]:
  "rl_waiters (recordFailure net opts now ip scope st) = rl_waiters st"
  using enforceMaxEntries_waiters [of opts now st]
  by (cases "enforceMaxEntries opts now st")
    (simp add: recordFailure_def case_prod_beta Let_def split: option.split bool.split)

lemma check_waiters [simp]: "rl_waiters (snd (check net opts now ip scope st)) = rl_waiters st"
proof -
  have "rl_waiters (snd (checkOverflowLock opts now st)) = rl_waiters st"
    by (simp add: checkOverflowLock_def Let_def)
  then show ?thesis
    by (cases "checkOverflowLock opts now st")
      (simp add: check_def case_prod_beta Let_def split: option.split)
qed

lemma penaltyMs_bounds:
  "LOOPBACK_FAILURE_DELAY_BASE_MS \<le> penaltyMs n" "penaltyMs n \<le> LOOPBACK_FAILURE_DELAY_MAX_MS"
  by (simp_all add: penaltyMs_def LOOPBACK_FAILURE_DELAY_BASE_MS_def LOOPBACK_FAILURE_DELAY_MAX_MS_def)

lemma penalty_deadline_bounds:
  assumes "p \<le> LOOPBACK_FAILURE_DELAY_MAX_MS"
  shows "now + p \<le> penalty_deadline now p until"
    "penalty_deadline now p until \<le> now + LOOPBACK_FAILURE_DELAY_MAX_MS"
  using assms by (auto simp: penalty_deadline_def)

definition failure_count :: "RateLimiter \<Rightarrow> string \<Rightarrow> nat" where
  "failure_count st key = (case jm_get (rl_entries st) key of None \<Rightarrow> 1 | Some e \<Rightarrow> length (re_attempts e))"

lemma delay_registers:
  assumes key: "resolveKey net ip scope = (key, client)" and exempt: "isExempt net opts client"
    and w: "waiters_within now st"
  shows "\<exists>w. jm_get (rl_waiters (recordFailureAndDelay net opts now n ip scope st)) key = Some w \<and>
      n \<in> set (pw_resolvers w) \<and>
      now + penaltyMs (failure_count (recordFailure net opts now ip scope st) key) \<le> pw_deadline w \<and>
      pw_deadline w \<le> now + LOOPBACK_FAILURE_DELAY_MAX_MS"
    "waiters_within now (recordFailureAndDelay net opts now n ip scope st)"
proof -
  let ?st1 = "recordFailure net opts now ip scope st"
  let ?d = "penalty_deadline now (penaltyMs (failure_count ?st1 key)) (jm_get (rl_penaltyUntil ?st1) key)"
  let ?w = "case jm_get (rl_waiters st) key of
       Some existing \<Rightarrow> existing\<lparr>pw_resolvers := pw_resolvers existing @ [n],
         pw_deadline := (if pw_deadline existing < ?d then ?d else pw_deadline existing)\<rparr>
     | None \<Rightarrow> \<lparr>pw_deadline = ?d, pw_resolvers = [n]\<rparr>"
  have st': "rl_waiters (recordFailureAndDelay net opts now n ip scope st) = jm_set key ?w (rl_waiters st)"
    unfolding failure_count_def using key exempt by (simp add: recordFailureAndDelay_def Let_def)
  note d = penalty_deadline_bounds [OF penaltyMs_bounds(2), of now "failure_count ?st1 key"
      "jm_get (rl_penaltyUntil ?st1) key"]
  have le: "pw_deadline ?w \<le> now + LOOPBACK_FAILURE_DELAY_MAX_MS"
    using d(2) w by (auto simp: waiters_within_def split: option.split)
  moreover have "n \<in> set (pw_resolvers ?w)" by (simp split: option.split)
  moreover have "?d \<le> pw_deadline ?w" by (simp split: option.split)
  ultimately show "\<exists>w. jm_get (rl_waiters (recordFailureAndDelay net opts now n ip scope st)) key = Some w \<and>
      n \<in> set (pw_resolvers w) \<and>
      now + penaltyMs (failure_count (recordFailure net opts now ip scope st) key) \<le> pw_deadline w \<and>
      pw_deadline w \<le> now + LOOPBACK_FAILURE_DELAY_MAX_MS"
    using d(1) unfolding st' by (intro exI [of _ ?w]) simp
  show "waiters_within now (recordFailureAndDelay net opts now n ip scope st)"
    using le w unfolding waiters_within_def st' by simp
qed

lemma delay_not_exempt:
  "\<not> isExempt net opts (snd (resolveKey net ip scope)) \<Longrightarrow>
    rl_waiters (recordFailureAndDelay net opts now n ip scope st) = rl_waiters st"
  by (simp add: recordFailureAndDelay_def Let_def case_prod_beta)

lemma release_waiters:
  "rl_waiters (releaseLoopbackWaiters key st) = (case jm_get (rl_waiters st) key of None \<Rightarrow> rl_waiters st
     | Some _ \<Rightarrow> jm_delete key (rl_waiters st))"
  by (simp add: releaseLoopbackWaiters_def split: option.split)

lemma release_within: "waiters_within t st \<Longrightarrow> waiters_within t (releaseLoopbackWaiters key st)"
  by (auto simp: waiters_within_def release_waiters split: option.splits)

lemma limiter_step_within:
  assumes "waiters_within now st"
  shows "waiters_within now (limiter_step net opts (now, op) st)"
proof (cases op)
  case (RlFailureDelay n ip scope)
  obtain key client where k: "resolveKey net ip scope = (key, client)" by (cases "resolveKey net ip scope")
  show ?thesis
    using delay_registers(2) [OF k _ assms] delay_not_exempt [of net opts ip scope now n st] assms k RlFailureDelay
    by (cases "isExempt net opts client") (simp_all add: waiters_within_def)
next
  case RlDispose
  have "waiters_within now (fold releaseLoopbackWaiters keys s)" if "waiters_within now s" for keys s
    using that by (induction keys arbitrary: s) (simp_all add: release_within)
  from this [of "st\<lparr>rl_entries := [], rl_penaltyUntil := [], rl_overflowLockedUntil := None\<rparr>"
      "jm_keys (rl_waiters st)"] RlDispose assms show ?thesis
    by (simp add: dispose_def) (simp add: waiters_within_def)
next
  case (RlTimer key)
  with assms release_within [OF assms] show ?thesis
    by (simp add: penalty_timer_def split: option.split)
next
  case (RlReset ip scope)
  with assms show ?thesis by (simp add: reset_limit_def waiters_within_def Let_def)
qed (use assms in \<open>simp_all add: waiters_within_def\<close>)

lemma run_limiter_within:
  assumes "waiters_within t0 st" "sorted (t0 # map fst ops @ [now])"
  shows "waiters_within now (run_limiter net opts ops st)"
  using assms
proof (induction ops arbitrary: st t0)
  case Nil
  then show ?case by (simp add: run_limiter_def waiters_later)
next
  case (Cons x ops)
  obtain t op where x: "x = (t, op)" by (cases x)
  have "waiters_within t (limiter_step net opts (t, op) st)"
    using Cons.prems x by (intro limiter_step_within waiters_later [OF Cons.prems(1)]) simp
  from Cons.IH [OF this] Cons.prems(2) x show ?case by (simp add: run_limiter_def)
qed

section \<open>The claims\<close>

lemma limiter_ok_empty: "limiter_ok (createAuthRateLimiter config) empty_limiter"
  using createAuthRateLimiter_max [of config] by (simp add: limiter_ok_def empty_limiter_def)

text \<open>C17: The table of the limiter is bounded: whatever requests arrive, at whatever times, it holds
  at most the configured number of entries, one for each key.\<close>

theorem limiter_stays_bounded:
  "int (length (rl_entries (run_limiter net (createAuthRateLimiter config) ops empty_limiter))) \<le>
     ro_maxEntries (createAuthRateLimiter config) \<and>
   distinct (jm_keys (rl_entries (run_limiter net (createAuthRateLimiter config) ops empty_limiter)))"
  using run_limiter_ok [OF limiter_ok_empty createAuthRateLimiter_max]
  by (simp add: limiter_ok_def jm_ok_def jm_keys_def)

text \<open>C16: A lockout is enforced: once a client that is not exempt has failed the maximum number of
  times within one window, it is denied with the exact time left until the lockout ends, whatever
  else the limiter is asked in between, floods of other clients included; only a reset of the
  same key or disposing of the limiter lifts it.\<close>

theorem lockout_is_enforced:
  assumes "\<not> isExempt net (createAuthRateLimiter config) (snd (resolveKey net ip scope))"
    "jm_get (rl_entries (run_limiter net (createAuthRateLimiter config) earlier empty_limiter))
       (fst (resolveKey net ip scope)) = None"
    "\<not> full (createAuthRateLimiter config) (run_limiter net (createAuthRateLimiter config) earlier empty_limiter)"
    "sorted failures" "failures \<noteq> []"
    "int (length failures) = ro_maxAttempts (createAuthRateLimiter config)"
    "last failures - hd failures < ro_windowMs (createAuthRateLimiter config)"
    "until = last failures + ro_lockoutMs (createAuthRateLimiter config)" "until \<noteq> 0"
    "\<forall>(t, op) \<in> set later. t < until \<and> \<not> lifts net (fst (resolveKey net ip scope)) op" "now < until"
  shows "fst (check net (createAuthRateLimiter config) now ip scope
      (run_limiter net (createAuthRateLimiter config) later
        (run_limiter net (createAuthRateLimiter config) (map (\<lambda>t. (t, RlFailure ip scope)) failures)
          (run_limiter net (createAuthRateLimiter config) earlier empty_limiter)))) =
    \<lparr>cr_allowed = False, cr_remaining = 0, cr_retryAfterMs = until - now\<rparr>"
proof -
  let ?opts = "createAuthRateLimiter config"
  let ?st = "run_limiter net ?opts earlier empty_limiter"
  let ?failed = "run_limiter net ?opts (map (\<lambda>t. (t, RlFailure ip scope)) failures) ?st"
  obtain key client where k: "resolveKey net ip scope = (key, client)" by (cases "resolveKey net ip scope")
  have ok: "limiter_ok ?opts ?st" by (rule run_limiter_ok [OF limiter_ok_empty createAuthRateLimiter_max])
  have failed: "?failed = fold (\<lambda>t. recordFailure net ?opts t ip scope) failures ?st"
  proof -
    have "(\<lambda>t. limiter_step net ?opts (t, RlFailure ip scope)) = (\<lambda>t. recordFailure net ?opts t ip scope)"
      by (intro ext) simp
    then show ?thesis by (simp add: run_limiter_def fold_map comp_def)
  qed
  have "jm_get (rl_entries ?failed) key = Some (counted ?opts failures) \<and> limiter_ok ?opts ?failed"
    unfolding failed using record_counts [OF k _ _ assms(3,4,5)] assms(1,2,6,7) ok k by simp
  then have "locked_until ?failed key until" "limiter_ok ?opts ?failed"
    using assms(6,8,9) by (simp_all add: locked_until_def counted_def)
  from run_limiter_locked [OF this createAuthRateLimiter_max] assms(10) k
  have "locked_until (run_limiter net ?opts later ?failed) key until" by simp
  with check_denies [of _ net ip scope until now ?opts] assms(1,11) k show ?thesis by simp
qed

text \<open>Exempt (loopback) clients are never denied, but every failure of theirs waits: the request
  is registered under its key with a deadline at least the penalty of its failure count, which is
  at least 250 ms, and at most 5 seconds ahead, however many requests wait on the same key.\<close>

theorem loopback_wait_is_bounded:
  assumes "isExempt net (createAuthRateLimiter config) (snd (resolveKey net ip scope))"
    "sorted (map fst ops @ [now])"
  shows "cr_allowed (fst (check net (createAuthRateLimiter config) now ip scope
      (run_limiter net (createAuthRateLimiter config) ops empty_limiter))) \<and>
    (\<exists>w. jm_get (rl_waiters (recordFailureAndDelay net (createAuthRateLimiter config) now request ip scope
        (run_limiter net (createAuthRateLimiter config) ops empty_limiter))) (fst (resolveKey net ip scope)) = Some w \<and>
      request \<in> set (pw_resolvers w) \<and>
      now + penaltyMs (failure_count (recordFailure net (createAuthRateLimiter config) now ip scope
        (run_limiter net (createAuthRateLimiter config) ops empty_limiter)) (fst (resolveKey net ip scope)))
        \<le> pw_deadline w \<and>
      now + 250 \<le> pw_deadline w \<and> pw_deadline w \<le> now + 5000)"
proof -
  let ?opts = "createAuthRateLimiter config"
  let ?st = "run_limiter net ?opts ops empty_limiter"
  obtain key client where k: "resolveKey net ip scope = (key, client)" by (cases "resolveKey net ip scope")
  have "waiters_within (hd (map fst ops @ [now])) empty_limiter"
    by (simp add: waiters_within_def empty_limiter_def)
  moreover have "sorted (hd (map fst ops @ [now]) # map fst ops @ [now])"
    using assms(2) by (cases "map fst ops @ [now]") auto
  ultimately have w: "waiters_within now ?st" by (rule run_limiter_within)
  have "cr_allowed (fst (check net ?opts now ip scope ?st))"
    using assms(1) k by (simp add: check_def)
  moreover have "isExempt net ?opts client" using assms(1) k by simp
  note d = delay_registers(1) [OF k this w, of request]
  then obtain x where "jm_get (rl_waiters (recordFailureAndDelay net ?opts now request ip scope ?st)) key = Some x"
    "request \<in> set (pw_resolvers x)"
    "now + penaltyMs (failure_count (recordFailure net ?opts now ip scope ?st) key) \<le> pw_deadline x"
    "pw_deadline x \<le> now + LOOPBACK_FAILURE_DELAY_MAX_MS" by blast
  moreover have "250 \<le> penaltyMs (failure_count (recordFailure net ?opts now ip scope ?st) key)"
    using penaltyMs_bounds(1) by (simp add: LOOPBACK_FAILURE_DELAY_BASE_MS_def)
  ultimately show ?thesis
    using k by (fastforce simp: LOOPBACK_FAILURE_DELAY_MAX_MS_def)
qed

end
