(* ===== verification/Auth_Rate_Witnesses.thy ===== *)
theory Auth_Rate_Witnesses
  imports Auth_Rate_Claims
begin

text \<open>
  The claims on the limiter at a concrete configuration (two attempts in a second, a lockout of
  five seconds, three entries), with addresses that resolve to themselves.
\<close>

definition example_config :: RateLimitConfig where
  "example_config = \<lparr>rc_maxAttempts = Some 2, rc_windowMs = Some 1000, rc_lockoutMs = Some 5000,
     rc_exemptLoopback = None, rc_maxEntries = Some 3\<rparr>"

definition example_net :: ClientNet where
  "example_net = \<lparr>cn_resolveClientIp = (\<lambda>ip. ip), cn_isLoopbackAddress = (\<lambda>ip. ip = ''::1'')\<rparr>"

definition example_earlier :: "(int \<times> limiter_op) list" where
  "example_earlier = [(0, RlFailure (Some ''b'') None), (5, RlCheck (Some ''a'') None)]"

definition example_flood :: "(int \<times> limiter_op) list" where
  "example_flood = map (\<lambda>c. (30, RlFailure (Some [c]) None)) [CHR ''c'', CHR ''d'', CHR ''e'', CHR ''f''] @
     [(40, RlPrune), (50, RlFailure (Some ''a'') None), (60, RlReset (Some ''b'') None)]"

lemma example_options:
  "ro_maxAttempts (createAuthRateLimiter example_config) = 2"
  "ro_windowMs (createAuthRateLimiter example_config) = 1000"
  "ro_lockoutMs (createAuthRateLimiter example_config) = 5000"
  by code_simp+

lemma example_keys:
  "resolveKey example_net (Some ''a'') None = (''default:a'', ''a'')"
  "resolveKey example_net (Some ''b'') None = (''default:b'', ''b'')"
  "resolveKey example_net (Some ''::1'') None = (''default:::1'', ''::1'')"
  by code_simp+

lemma example_exempt:
  "\<not> isExempt example_net (createAuthRateLimiter example_config) ''a''"
  "isExempt example_net (createAuthRateLimiter example_config) ''::1''"
  by code_simp+

lemma example_start:
  "jm_get (rl_entries (run_limiter example_net (createAuthRateLimiter example_config) example_earlier
    empty_limiter)) ''default:a'' = None"
  "\<not> full (createAuthRateLimiter example_config)
    (run_limiter example_net (createAuthRateLimiter example_config) example_earlier empty_limiter)"
  by code_simp+

theorem lockout_is_enforced_witness:
  "fst (check example_net (createAuthRateLimiter example_config) 70 (Some ''a'') None
    (run_limiter example_net (createAuthRateLimiter example_config) example_flood
      (run_limiter example_net (createAuthRateLimiter example_config)
        (map (\<lambda>t. (t, RlFailure (Some ''a'') None)) [10, 20])
        (run_limiter example_net (createAuthRateLimiter example_config) example_earlier empty_limiter)))) =
    \<lparr>cr_allowed = False, cr_remaining = 0, cr_retryAfterMs = 4950\<rparr>"
proof -
  have "\<forall>(t, op) \<in> set example_flood. t < 5020 \<and> \<not> lifts example_net ''default:a'' op"
    by (simp add: example_flood_def example_keys)
  then show ?thesis
    using lockout_is_enforced [where net = example_net and config = example_config and ip = "Some ''a''"
        and scope = None and earlier = example_earlier and failures = "[10, 20]" and until = 5020
        and later = example_flood and now = 70]
    by (simp add: example_options example_keys example_exempt example_start)
qed

theorem loopback_wait_is_bounded_witness:
  "\<exists>w. jm_get (rl_waiters (recordFailureAndDelay example_net (createAuthRateLimiter example_config) 100 7
      (Some ''::1'') None (run_limiter example_net (createAuthRateLimiter example_config)
        [(10, RlFailureDelay 6 (Some ''::1'') None)] empty_limiter))) ''default:::1'' = Some w \<and>
    7 \<in> set (pw_resolvers w) \<and> 350 \<le> pw_deadline w \<and> pw_deadline w \<le> 5100"
  using loopback_wait_is_bounded [where net = example_net and config = example_config and ip = "Some ''::1''"
      and scope = None and ops = "[(10, RlFailureDelay 6 (Some ''::1'') None)]" and now = 100 and request = 7]
  by (auto simp: example_keys example_exempt)

end
