(* ===== verification/Js_Date.thy ===== *)
theory Js_Date
  imports Prelude
begin

text \<open>
  The dates of JavaScript the stores persist: \<open>new Date(t).toISOString()\<close> for the instants of the years
  1970 to 9999, with the calendar functions of ECMAScript (\<open>DayFromYear\<close>, \<open>YearFromTime\<close>,
  \<open>MonthFromTime\<close>, \<open>DateFromTime\<close>), and \<open>Date.parse\<close>. What \<open>Date.parse\<close> makes of a text that
  \<open>toISOString\<close> does not write depends on the engine and is the parameter \<open>other\<close>.
\<close>

section \<open>The calendar\<close>

definition MS_PER_DAY :: int where "MS_PER_DAY = 86400000"

text \<open>The first instant after the year 9999.\<close>

definition END_OF_TIME :: int where "END_OF_TIME = 253402300800000"

definition day_from_year :: "int \<Rightarrow> int" where
  "day_from_year y = 365 * (y - 1970) + (y - 1969) div 4 - (y - 1901) div 100 + (y - 1601) div 400"

text \<open>The year of a day: the estimate by the mean length of a year is off by one at most.\<close>

definition year_from_day :: "int \<Rightarrow> int" where
  "year_from_day d = (let y = 1970 + 400 * d div 146097
     in if d < day_from_year y then y - 1 else if day_from_year (y + 1) \<le> d then y + 1 else y)"

definition leap_year :: "int \<Rightarrow> bool" where
  "leap_year y \<longleftrightarrow> y mod 4 = 0 \<and> (y mod 100 \<noteq> 0 \<or> y mod 400 = 0)"

definition month_starts :: "int \<Rightarrow> int list" where
  "month_starts y = (if leap_year y then [0, 31, 60, 91, 121, 152, 182, 213, 244, 274, 305, 335]
     else [0, 31, 59, 90, 120, 151, 181, 212, 243, 273, 304, 334])"

text \<open>The month (from 0) of a day of the year, and the day (from 1) of a month.\<close>

definition month_of :: "int \<Rightarrow> int \<Rightarrow> nat" where
  "month_of y r = length (takeWhile (\<lambda>s. s \<le> r) (tl (month_starts y)))"

definition day_of_month :: "int \<Rightarrow> int \<Rightarrow> int" where
  "day_of_month y r = r - month_starts y ! month_of y r + 1"

section \<open>Writing and reading an instant\<close>

fun pad_digits :: "nat \<Rightarrow> int \<Rightarrow> string" where
  "pad_digits 0 n = []"
| "pad_digits (Suc k) n = pad_digits k (n div 10) @ [digit_char (nat (n mod 10))]"

text \<open>\<open>toISOString\<close>: \<open>YYYY-MM-DDTHH:mm:ss.sssZ\<close>.\<close>

definition toISOString :: "int \<Rightarrow> string" where
  "toISOString t =
     (let d = t div MS_PER_DAY; ms = t mod MS_PER_DAY; y = year_from_day d; r = d - day_from_year y
      in pad_digits 4 y @ ''-'' @ pad_digits 2 (int (month_of y r) + 1) @ ''-'' @
         pad_digits 2 (day_of_month y r) @ ''T'' @ pad_digits 2 (ms div 3600000) @ '':'' @
         pad_digits 2 (ms div 60000 mod 60) @ '':'' @ pad_digits 2 (ms div 1000 mod 60) @
         ''.'' @ pad_digits 3 (ms mod 1000) @ ''Z'')"

definition field :: "nat \<Rightarrow> nat \<Rightarrow> string \<Rightarrow> int" where
  "field i n s = foldl (\<lambda>acc c. acc * 10 + (of_char c - 48)) 0 (take n (drop i s))"

definition read_iso :: "string \<Rightarrow> int" where
  "read_iso s = (let y = field 0 4 s
     in (day_from_year y + month_starts y ! (nat (field 5 2 s - 1) mod 12) + field 8 2 s - 1) * MS_PER_DAY +
        field 11 2 s * 3600000 + field 14 2 s * 60000 + field 17 2 s * 1000 + field 20 3 s)"

text \<open>\<open>asDateTimestampMs(Date.parse(s))\<close>: \<open>None\<close> is \<open>undefined\<close>.\<close>

definition parseDateStringTimestampMs :: "(string \<Rightarrow> int option) \<Rightarrow> string \<Rightarrow> int option" where
  "parseDateStringTimestampMs other s =
     (if 0 \<le> read_iso s \<and> read_iso s < END_OF_TIME \<and> toISOString (read_iso s) = s then Some (read_iso s)
      else other s)"

section \<open>Reading back what was written\<close>

lemma pad_digits_length [simp]: "length (pad_digits k n) = k"
  by (induction k arbitrary: n) simp_all

lemma of_char_digit: "0 \<le> d \<Longrightarrow> d < 10 \<Longrightarrow> (of_char (digit_char (nat d)) :: int) = 48 + d"
proof -
  assume "0 \<le> d" "d < 10"
  then have "(of_char (digit_char (nat d)) :: nat) = 48 + nat d" by (intro of_char_digit_char) simp
  then have "int (of_char (digit_char (nat d))) = 48 + d" using \<open>0 \<le> d\<close> by simp
  then show ?thesis by (simp add: of_nat_of_char)
qed

lemma pad_digits_value:
  "0 \<le> n \<Longrightarrow> n < 10 ^ k \<Longrightarrow> foldl (\<lambda>acc c. acc * 10 + (of_char c - 48)) 0 (pad_digits k n) = (n :: int)"
proof (induction k arbitrary: n)
  case (Suc k)
  then have "n div 10 < 10 ^ k" by (simp add: int_div_less_self div_less_iff_less_mult)
  with Suc.IH [of "n div 10"] Suc.prems(1) of_char_digit [of "n mod 10"] show ?case by simp
qed simp

lemma pad_digits_chars: "\<forall>c \<in> set (pad_digits k n). is_digit c"
  by (induction k arbitrary: n) (simp_all add: nat_less_iff)

lemma div_bounds:
  fixes x k :: int
  assumes "0 < k"
  shows "k * (x div k) \<le> x" "x \<le> k * (x div k) + (k - 1)"
  using mult_div_mod_eq [of k x] pos_mod_bound [OF assms, of x] pos_mod_sign [OF assms, of x]
  by linarith+

text \<open>400 years have 146097 days, and the years are spread evenly over them up to two days.\<close>

lemma year_bounds:
  "146097 * q - 506 \<le> 400 * day_from_year (1970 + q)" "400 * day_from_year (1970 + q) \<le> 146097 * q + 589"
proof -
  have "day_from_year (1970 + q) = 365 * q + (q + 1) div 4 - (q + 69) div 100 + (q + 369) div 400"
    by (simp add: day_from_year_def add.commute)
  with div_bounds [of 4 "q + 1"] div_bounds [of 100 "q + 69"] div_bounds [of 400 "q + 369"]
  show "146097 * q - 506 \<le> 400 * day_from_year (1970 + q)"
    "400 * day_from_year (1970 + q) \<le> 146097 * q + 589"
    by linarith+
qed

lemma day_in_year:
  "0 \<le> d - day_from_year (year_from_day d)" "d - day_from_year (year_from_day d) < 369"
proof -
  define q where "q = 400 * d div 146097"
  have q: "146097 * q \<le> 400 * d" "400 * d \<le> 146097 * q + 146096"
    using div_bounds [of 146097 "400 * d"] by (simp_all add: q_def)
  define a b c where "a = day_from_year (1970 + (q - 1))" and "b = day_from_year (1970 + q)"
    and "c = day_from_year (1970 + (q + 1))"
  have "146097 * q - 146603 \<le> 400 * a" "400 * a \<le> 146097 * q - 145508"
    "146097 * q - 506 \<le> 400 * b" "400 * b \<le> 146097 * q + 589"
    "146097 * q + 145591 \<le> 400 * c" "400 * c \<le> 146097 * q + 146686"
    using year_bounds [of "q - 1"] year_bounds [of q] year_bounds [of "q + 1"]
    by (simp_all add: a_def b_def c_def algebra_simps)
  note bounds = q this
  consider (before) "d < b" "day_from_year (year_from_day d) = a"
    | (after) "c \<le> d" "day_from_year (year_from_day d) = c"
    | (exact) "b \<le> d" "d < c" "day_from_year (year_from_day d) = b"
    by (simp add: year_from_day_def Let_def q_def a_def b_def c_def algebra_simps) fastforce
  note year = this
  from year show "0 \<le> d - day_from_year (year_from_day d)"
    by cases (use bounds in linarith)+
  from year show "d - day_from_year (year_from_day d) < 369"
    by cases (use bounds in linarith)+
qed

lemma year_range:
  assumes "0 \<le> d" "d < END_OF_TIME div MS_PER_DAY"
  shows "0 \<le> year_from_day d" "year_from_day d < 10000"
proof -
  let ?y = "year_from_day d"
  have d: "d \<le> 2932896" using assms(2) by (simp add: END_OF_TIME_def MS_PER_DAY_def)
  have b: "146097 * (?y - 1970) - 506 \<le> 400 * day_from_year ?y"
    "400 * day_from_year ?y \<le> 146097 * (?y - 1970) + 589"
    using year_bounds [of "?y - 1970"] by simp_all
  show "0 \<le> ?y"
  proof (rule ccontr)
    assume "\<not> 0 \<le> ?y"
    then have "146097 * (?y - 1970) \<le> - 287900000" by simp
    with b(2) day_in_year [of d] assms(1) show False by linarith
  qed
  show "?y < 10000"
  proof (rule ccontr)
    assume "\<not> ?y < 10000"
    then have "1173158910 \<le> 146097 * (?y - 1970)" by simp
    with b(1) day_in_year [of d] d show False by linarith
  qed
qed

lemma month_range: "month_of y r < 12"
proof -
  have "length (takeWhile (\<lambda>s. s \<le> r) (tl (month_starts y))) \<le> length (tl (month_starts y))"
    by (rule length_takeWhile_le)
  also have "\<dots> = 11" by (simp add: month_starts_def)
  finally show ?thesis by (simp add: month_of_def)
qed

text \<open>The month of a day starts at or before it, and at most 35 days before it.\<close>

lemma day_of_month_range:
  assumes "0 \<le> r" "r < 369"
  shows "1 \<le> day_of_month y r" "day_of_month y r < 100"
  using assms by (simp_all add: day_of_month_def month_of_def month_starts_def)

lemma take_pad [simp]: "take n (pad_digits n k @ s) = pad_digits n k"
  by simp

lemma read_iso_fields:
  assumes "0 \<le> y" "y < 10000" "m < 12" "0 \<le> d" "d < 100" "0 \<le> h" "h < 100" "0 \<le> mi" "mi < 100"
    "0 \<le> sec" "sec < 100" "0 \<le> ms" "ms < 1000"
  shows "read_iso (pad_digits 4 y @ ''-'' @ pad_digits 2 (int m + 1) @ ''-'' @ pad_digits 2 d @
      ''T'' @ pad_digits 2 h @ '':'' @ pad_digits 2 mi @ '':'' @ pad_digits 2 sec @
      ''.'' @ pad_digits 3 ms @ ''Z'') =
    (day_from_year y + month_starts y ! m + d - 1) * MS_PER_DAY + h * 3600000 + mi * 60000 + sec * 1000 + ms"
proof -
  have "nat (int m + 1 - 1) mod 12 = m" using assms(3) by simp
  then show ?thesis
    using assms by (simp add: read_iso_def field_def Let_def pad_digits_value del: pad_digits.simps)
qed

lemma clock_sum:
  fixes a b c e f g h :: int
  shows "a = b * 1000 + c \<Longrightarrow> b = e * 60 + f \<Longrightarrow> e = g * 60 + h \<Longrightarrow>
    a = g * 3600000 + h * 60000 + f * 1000 + c"
  by simp

theorem read_iso_toISOString:
  assumes "0 \<le> t" "t < END_OF_TIME"
  shows "read_iso (toISOString t) = t"
proof -
  define d ms where "d = t div MS_PER_DAY" and "ms = t mod MS_PER_DAY"
  define y r where "y = year_from_day d" and "r = d - day_from_year y"
  have t: "t = d * MS_PER_DAY + ms" by (simp add: d_def ms_def)
  have ms: "0 \<le> ms" "ms < 86400000"
    by (simp_all add: ms_def MS_PER_DAY_def)
  have d: "0 \<le> d" "d < END_OF_TIME div MS_PER_DAY"
    using assms by (simp_all add: d_def MS_PER_DAY_def END_OF_TIME_def)
  have clock: "ms = ms div 3600000 * 3600000 + ms div 60000 mod 60 * 60000 + ms div 1000 mod 60 * 1000 + ms mod 1000"
  proof -
    have "ms div 60000 = ms div 1000 div 60" "ms div 3600000 = ms div 1000 div 60 div 60"
      by (simp_all add: zdiv_zmult2_eq [symmetric])
    then show ?thesis
      by (simp add: clock_sum [OF div_mult_mod_eq [of ms 1000, symmetric]
            div_mult_mod_eq [of "ms div 1000" 60, symmetric]
            div_mult_mod_eq [of "ms div 1000 div 60" 60, symmetric], symmetric])
  qed
  have ranges: "0 \<le> y" "y < 10000" "month_of y r < 12" "0 \<le> day_of_month y r" "day_of_month y r < 100"
    "0 \<le> ms div 3600000" "ms div 3600000 < 100"
    using year_range [OF d] month_range day_of_month_range [of r y] day_in_year [of d] ms
    by (simp_all add: y_def r_def)
  have "read_iso (toISOString t) = (day_from_year y + month_starts y ! month_of y r + day_of_month y r - 1) *
      MS_PER_DAY + ms div 3600000 * 3600000 + ms div 60000 mod 60 * 60000 + ms div 1000 mod 60 * 1000 + ms mod 1000"
    unfolding toISOString_def Let_def d_def [symmetric] ms_def [symmetric] y_def [symmetric] r_def [symmetric]
    by (rule read_iso_fields) (use ranges in \<open>simp_all add: pos_mod_bound less_trans [OF pos_mod_bound]\<close>)
  also have "day_from_year y + month_starts y ! month_of y r + day_of_month y r - 1 = d"
    by (simp add: day_of_month_def r_def)
  also have "d * MS_PER_DAY + ms div 3600000 * 3600000 + ms div 60000 mod 60 * 60000 +
      ms div 1000 mod 60 * 1000 + ms mod 1000 = t"
    by (simp only: t add.assoc, subst (5) clock, simp only: add.assoc)
  finally show ?thesis .
qed

theorem parse_toISOString [simp]:
  "0 \<le> t \<Longrightarrow> t < END_OF_TIME \<Longrightarrow> parseDateStringTimestampMs other (toISOString t) = Some t"
  by (simp add: parseDateStringTimestampMs_def read_iso_toISOString)

lemma toISOString_shape: "toISOString t \<noteq> []" "\<forall>c \<in> set (toISOString t). \<not> js_space c"
proof -
  have digit: "\<not> js_space c" if "is_digit c" for c
    using that by (auto simp: is_digit_def js_space_def)
  show "toISOString t \<noteq> []" by (simp add: toISOString_def Let_def)
  show "\<forall>c \<in> set (toISOString t). \<not> js_space c"
    using pad_digits_chars digit by (auto simp: toISOString_def Let_def js_space_def ball_Un)
qed

end
