(* ===== verification/Session_Text.thy ===== *)
theory Session_Text
  imports Prelude
begin

text \<open>
  The string operations the session keys are built and taken apart with: the coercions of
  \<open>packages/normalization-core/src/string-coerce.ts\<close>, and the methods of JavaScript strings the
  key code calls (\<open>toLowerCase\<close>, \<open>split\<close>, \<open>join\<close>, \<open>slice\<close>, \<open>includes\<close>, \<open>indexOf\<close>,
  \<open>lastIndexOf\<close>) on code units below 256. A value that may be \<open>undefined\<close> or \<open>null\<close> is an option.
\<close>

named_theorems text_simps "how trimming, folding and splitting react to concatenation"

section \<open>Case folding and trimming\<close>

text \<open>Folding maps the capital letters of Latin-1 (all but the multiplication sign).\<close>

definition js_lower_char :: "char \<Rightarrow> char" where
  "js_lower_char c = (let n = of_char c :: nat
     in if 65 \<le> n \<and> n \<le> 90 \<or> 192 \<le> n \<and> n \<le> 222 \<and> n \<noteq> 215 then char_of (n + 32) else c)"

definition js_lower :: "string \<Rightarrow> string" where
  "js_lower s = map js_lower_char s"

lemma js_lower_char_code:
  "of_char (js_lower_char c) = (let n = of_char c :: nat
     in if 65 \<le> n \<and> n \<le> 90 \<or> 192 \<le> n \<and> n \<le> 222 \<and> n \<noteq> 215 then n + 32 else n)"
  by (simp add: js_lower_char_def Let_def)

lemma js_lower_char_idem [simp]: "js_lower_char (js_lower_char c) = js_lower_char c"
  by (subst js_lower_char_def) (auto simp: js_lower_char_code Let_def)

lemma js_space_lower [simp]: "js_space (js_lower_char c) = js_space c"
  by (auto simp: js_space_def js_lower_char_code Let_def)

lemma js_lower_char_colon [simp]: "js_lower_char c = CHR '':'' \<longleftrightarrow> c = CHR '':''"
proof -
  have eq: "x = y \<longleftrightarrow> (of_char x :: nat) = of_char y" for x y :: char
    by simp
  show ?thesis by (simp only: eq js_lower_char_code) (simp add: Let_def)
qed

lemma js_lower_idem [simp]: "js_lower (js_lower s) = js_lower s"
  by (simp add: js_lower_def)

lemma js_lower_length [simp, text_simps]: "length (js_lower s) = length s"
  by (simp add: js_lower_def)

lemma js_lower_append [text_simps]: "js_lower (s @ t) = js_lower s @ js_lower t"
  by (simp add: js_lower_def)

lemma js_lower_Nil_iff [simp]: "js_lower s = [] \<longleftrightarrow> s = []" "js_lower [] = []"
  by (simp_all add: js_lower_def)

lemma js_lower_drop: "js_lower (drop n s) = drop n (js_lower s)"
  and js_lower_take: "js_lower (take n s) = take n (js_lower s)"
  by (simp_all add: js_lower_def drop_map take_map)

lemma dropWhile_space_lower: "dropWhile js_space (js_lower s) = js_lower (dropWhile js_space s)"
  by (simp add: js_lower_def dropWhile_map o_def)

lemma js_trim_lower: "js_trim (js_lower s) = js_lower (js_trim s)"
proof -
  have "rev (js_lower t) = js_lower (rev t)" for t by (simp add: js_lower_def rev_map)
  then show ?thesis by (simp add: js_trim_def dropWhile_space_lower)
qed

text \<open>A text is trimmed when neither end is white space.\<close>

definition trimmed :: "string \<Rightarrow> bool" where
  "trimmed s \<longleftrightarrow> s = [] \<or> \<not> js_space (hd s) \<and> \<not> js_space (last s)"

lemma js_trim_trimmed: "trimmed s \<Longrightarrow> js_trim s = s"
proof (cases "s = []")
  case False
  assume "trimmed s"
  with False have "dropWhile js_space s = s" "dropWhile js_space (rev s) = rev s"
    by (simp_all add: trimmed_def dropWhile_eq_self_iff hd_rev)
  then show ?thesis by (simp add: js_trim_def)
qed (simp add: js_trim_def)

lemma js_trim_Nil [simp]: "js_trim [] = []"
  by (simp add: js_trim_def)

lemma trimmed_js_trim: "trimmed (js_trim s)"
proof -
  let ?t = "js_trim s"
  have "dropWhile js_space ?t = ?t"
    by (simp add: js_trim_def dropWhile_rev_dropWhile)
  moreover have "dropWhile js_space (rev ?t) = rev ?t"
    by (simp add: js_trim_def)
  ultimately show ?thesis
    by (auto simp: trimmed_def dropWhile_eq_self_iff hd_rev)
qed

lemma js_trim_eq_self_iff: "js_trim s = s \<longleftrightarrow> trimmed s"
  using js_trim_trimmed trimmed_js_trim by metis

lemma trimmed_append: "s \<noteq> [] \<Longrightarrow> t \<noteq> [] \<Longrightarrow> \<not> js_space (hd s) \<Longrightarrow> \<not> js_space (last t) \<Longrightarrow> trimmed (s @ t)"
  by (simp add: trimmed_def)

definition no_space :: "string \<Rightarrow> bool" where
  "no_space s \<longleftrightarrow> (\<forall>c \<in> set s. \<not> js_space c)"

lemma no_space_trimmed: "no_space s \<Longrightarrow> trimmed s"
  by (cases "s = []") (auto simp: no_space_def trimmed_def)

lemma no_space_simps [simp, text_simps]:
  "no_space []" "no_space (s @ t) \<longleftrightarrow> no_space s \<and> no_space t"
  "no_space (c # s) \<longleftrightarrow> \<not> js_space c \<and> no_space s"
  "no_space (js_lower s) \<longleftrightarrow> no_space s"
  by (auto simp: no_space_def js_lower_def)

lemma no_space_take_drop: "no_space s \<Longrightarrow> no_space (take n s)" "no_space s \<Longrightarrow> no_space (drop n s)"
  by (auto simp: no_space_def dest: in_set_takeD in_set_dropD)

lemma js_trim_no_space [simp]: "no_space s \<Longrightarrow> js_trim s = s"
  by (simp add: no_space_trimmed js_trim_trimmed)

section \<open>Coercions\<close>

definition normalizeNullableString :: "string option \<Rightarrow> string option" where
  "normalizeNullableString value = (case value of None \<Rightarrow> None
     | Some s \<Rightarrow> let t = js_trim s in if t \<noteq> [] then Some t else None)"

definition normalizeOptionalString :: "string option \<Rightarrow> string option" where
  "normalizeOptionalString value = normalizeNullableString value"

definition normalizeOptionalLowercaseString :: "string option \<Rightarrow> string option" where
  "normalizeOptionalLowercaseString value = map_option js_lower (normalizeOptionalString value)"

definition normalizeLowercaseStringOrEmpty :: "string option \<Rightarrow> string" where
  "normalizeLowercaseStringOrEmpty value =
     (case normalizeOptionalLowercaseString value of Some s \<Rightarrow> s | None \<Rightarrow> [])"

text \<open>\<open>(value ?? "").trim()\<close>.\<close>

definition trim_or_empty :: "string option \<Rightarrow> string" where
  "trim_or_empty value = js_trim (case value of Some s \<Rightarrow> s | None \<Rightarrow> [])"

lemma normalizeOptionalString_Some [simp]:
  "normalizeOptionalString (Some s) = (if js_trim s = [] then None else Some (js_trim s))"
  "normalizeOptionalString None = None"
  by (simp_all add: normalizeOptionalString_def normalizeNullableString_def Let_def)

lemma normalizeLowercaseStringOrEmpty_Some [simp]:
  "normalizeLowercaseStringOrEmpty (Some s) = js_lower (js_trim s)"
  "normalizeLowercaseStringOrEmpty None = []"
  by (simp_all add: normalizeLowercaseStringOrEmpty_def normalizeOptionalLowercaseString_def)

lemma trim_or_empty_simps [simp]: "trim_or_empty (Some s) = js_trim s" "trim_or_empty None = []"
  by (simp_all add: trim_or_empty_def)

section \<open>Searching and slicing\<close>

definition js_slice :: "string \<Rightarrow> nat \<Rightarrow> nat \<Rightarrow> string" where
  "js_slice s start stop = take (stop - start) (drop start s)"

fun js_includes :: "string \<Rightarrow> string \<Rightarrow> bool" where
  "js_includes [] p \<longleftrightarrow> p = []"
| "js_includes (c # s) p \<longleftrightarrow> js_startsWith (c # s) p \<or> js_includes s p"

fun js_lastIndexOf :: "string \<Rightarrow> string \<Rightarrow> nat option" where
  "js_lastIndexOf [] p = (if p = [] then Some 0 else None)"
| "js_lastIndexOf (c # s) p = (case js_lastIndexOf s p of Some i \<Rightarrow> Some (Suc i)
     | None \<Rightarrow> if js_startsWith (c # s) p then Some 0 else None)"

text \<open>The first index at or after \<open>from\<close> that holds the code unit.\<close>

fun js_indexOf_unit :: "string \<Rightarrow> char \<Rightarrow> nat \<Rightarrow> nat option" where
  "js_indexOf_unit [] c from = None"
| "js_indexOf_unit (x # s) c 0 =
     (if x = c then Some 0 else map_option Suc (js_indexOf_unit s c 0))"
| "js_indexOf_unit (x # s) c (Suc from) = map_option Suc (js_indexOf_unit s c from)"

lemma js_startsWith_iff: "js_startsWith s p \<longleftrightarrow> (\<exists>r. s = p @ r)"
  unfolding js_startsWith_def by (metis append_eq_conv_conj append_take_drop_id)

lemma js_startsWith_append [simp]: "js_startsWith (p @ s) p"
  by (simp add: js_startsWith_def)

lemma js_includes_iff: "js_includes s p \<longleftrightarrow> (\<exists>u v. s = u @ p @ v)"
proof (induction s)
  case (Cons c s)
  show ?case
    unfolding js_includes.simps Cons.IH js_startsWith_iff
    by (auto simp: Cons_eq_append_conv)
qed auto

lemma js_lastIndexOf_None_iff: "js_lastIndexOf s p = None \<longleftrightarrow> \<not> js_includes s p"
  by (induction s) (auto split: option.split)

lemma js_lastIndexOf_append:
  assumes "p \<noteq> []" "\<not> js_includes (tl p @ v) p"
  shows "js_lastIndexOf (u @ p @ v) p = Some (length u)"
proof (induction u)
  case Nil
  obtain c q where p: "p = c # q" using assms(1) by (cases p) auto
  have "js_lastIndexOf (q @ v) p = None"
    using assms(2) p by (simp add: js_lastIndexOf_None_iff)
  moreover have "js_startsWith (p @ v) p" by simp
  ultimately show ?case by (simp add: p)
qed simp

lemma js_indexOf_unit_skip:
  assumes "c \<notin> set b"
  shows "js_indexOf_unit (a @ b @ c # r) c (length a) = Some (length a + length b)"
proof -
  have "js_indexOf_unit (b @ c # r) c 0 = Some (length b)"
    using assms by (induction b) auto
  then show ?thesis by (induction a) auto
qed

lemma drop_length_append: "length a = n \<Longrightarrow> drop n (a @ b) = b"
  by simp

section \<open>Splitting and joining\<close>

fun js_split :: "char \<Rightarrow> string \<Rightarrow> string list" where
  "js_split c [] = [[]]"
| "js_split c (x # s) = (if x = c then [] # js_split c s
     else case js_split c s of p # ps \<Rightarrow> (x # p) # ps | [] \<Rightarrow> [[x]])"

fun js_join :: "char \<Rightarrow> string list \<Rightarrow> string" where
  "js_join c [] = []"
| "js_join c [p] = p"
| "js_join c (p # q # ps) = p @ c # js_join c (q # ps)"

lemma js_split_not_Nil [simp]: "js_split c s \<noteq> []"
  by (cases s) (auto split: list.split)

lemma js_join_Cons: "ps \<noteq> [] \<Longrightarrow> js_join c (p # ps) = p @ c # js_join c ps"
  by (cases ps) auto

lemma js_join_split [simp]: "js_join c (js_split c s) = s"
proof (induction s)
  case (Cons x s)
  obtain p ps where "js_split c s = p # ps" by (meson js_split_not_Nil neq_Nil_conv)
  with Cons show ?case by (cases ps) auto
qed simp

lemma js_split_sep [simp, text_simps]: "c \<notin> set a \<Longrightarrow> js_split c (a @ c # s) = a # js_split c s"
  by (induction a) auto

lemma js_split_last [simp]: "c \<notin> set a \<Longrightarrow> js_split c a = [a]"
  by (induction a) auto

lemma js_split_parts: "p \<in> set (js_split c s) \<Longrightarrow> c \<notin> set p"
  by (induction s arbitrary: p) (auto split: if_splits list.splits)

end
