(* ===== verification/Session_Key_Parse.thy ===== *)
theory Session_Key_Parse
  imports Session_Text
begin

text \<open>
  The reading side of session keys (\<open>src/sessions/session-key-utils.ts\<close>,
  \<open>src/shared/incognito-session-key.ts\<close>): the canonical form of a key, which folds its case but
  preserves the peer ids a channel owns, and the parsers that classify and take apart a key. Each
  regular expression of the source is a function here that consumes what the expression matches;
  in every one of them the alternatives a backtracking matcher would try are exclusive.
\<close>

section \<open>Case-preserving peers\<close>

datatype preserved_span_kind = SegmentSpan | TailSpan

record CasePreservingPeerDescriptor =
  cp_channel :: string
  cp_peerKinds :: "string list"
  cp_span :: preserved_span_kind
  cp_unscoped :: bool

definition CASE_PRESERVING_PEERS :: "CasePreservingPeerDescriptor list" where
  "CASE_PRESERVING_PEERS =
     [\<lparr>cp_channel = ''signal'', cp_peerKinds = [''group''], cp_span = SegmentSpan, cp_unscoped = True\<rparr>,
      \<lparr>cp_channel = ''matrix'', cp_peerKinds = [''channel'', ''group''], cp_span = TailSpan, cp_unscoped = True\<rparr>]"

record CasePreservingPeerPattern =
  pp_span :: preserved_span_kind
  pp_prefix :: string
  pp_unscoped :: bool

definition CASE_PRESERVING_PEER_PATTERNS :: "CasePreservingPeerPattern list" where
  "CASE_PRESERVING_PEER_PATTERNS = concat (map (\<lambda>d. map (\<lambda>peerKind.
       \<lparr>pp_span = cp_span d, pp_prefix = cp_channel d @ '':'' @ peerKind @ '':'',
        pp_unscoped = (cp_span d = TailSpan \<and> cp_unscoped d)\<rparr>) (cp_peerKinds d)) CASE_PRESERVING_PEERS)"

definition findCasePreservingPeerDescriptor ::
  "string option \<Rightarrow> string option \<Rightarrow> CasePreservingPeerDescriptor option" where
  "findCasePreservingPeerDescriptor channel peerKind =
     (let c = normalizeLowercaseStringOrEmpty channel; k = normalizeLowercaseStringOrEmpty peerKind
      in find (\<lambda>d. cp_channel d = c \<and> k \<in> set (cp_peerKinds d)) CASE_PRESERVING_PEERS)"

text \<open>The walk over the segments past every \<open>agent:<id>\<close> wrapper.\<close>

fun skip_agent_parts :: "string list \<Rightarrow> string list" where
  "skip_agent_parts (a # b # c # parts) =
     (if normalizeOptionalLowercaseString (Some a) = Some ''agent'' then skip_agent_parts (c # parts)
      else a # b # c # parts)"
| "skip_agent_parts parts = parts"

definition nth_part :: "string list \<Rightarrow> nat \<Rightarrow> string option" where
  "nth_part parts i = (if i < length parts then Some (parts ! i) else None)"

definition requiresFoldedSessionKeyAliasProof :: "string option \<Rightarrow> bool" where
  "requiresFoldedSessionKeyAliasProof sessionKey =
     (case normalizeOptionalString sessionKey of None \<Rightarrow> False
      | Some raw \<Rightarrow>
          let parts = js_split CHR '':'' raw;
              skipped = skip_agent_parts parts;
              hasAgentWrapper = length skipped < length parts;
              body = (if hasAgentWrapper
                then dropWhile (\<lambda>p. normalizeOptionalString (Some p) = None) skipped else skipped)
          in case findCasePreservingPeerDescriptor (nth_part body 0) (nth_part body 1) of
               Some d \<Rightarrow> cp_span d = TailSpan | None \<Rightarrow> False)"

definition normalizeSessionPeerId :: "string option \<Rightarrow> string option \<Rightarrow> string option \<Rightarrow> string" where
  "normalizeSessionPeerId channel peerKind rawPeerId =
     (let peerId = trim_or_empty rawPeerId
      in if peerId = [] then []
         else if findCasePreservingPeerDescriptor channel peerKind \<noteq> None then peerId
         else normalizeLowercaseStringOrEmpty (Some peerId))"

section \<open>Preserved spans\<close>

record PreservedSpan =
  ps_start :: nat
  ps_end :: nat
  ps_trim :: bool

definition mayContainCasePreservingPeer :: "string \<Rightarrow> bool" where
  "mayContainCasePreservingPeer raw =
     list_ex (\<lambda>d. js_includes (js_lower raw) (cp_channel d @ '':'')) CASE_PRESERVING_PEERS"

text \<open>A literal of an expression with the flag \<open>i\<close>; the literals are written in lower case.\<close>

definition starts_ci :: "string \<Rightarrow> string \<Rightarrow> bool" where
  "starts_ci s p \<longleftrightarrow> js_startsWith (js_lower s) p"

text \<open>\<open>(^|:)prefix([^:]+)\<close> at index \<open>i\<close>: the bounds of the second group.\<close>

definition segment_at :: "string \<Rightarrow> string \<Rightarrow> nat \<Rightarrow> (nat \<times> nat) option" where
  "segment_at prefix raw i =
     (let segment = takeWhile (\<lambda>c. c \<noteq> CHR '':'') (drop (i + length prefix) raw)
      in if starts_ci (drop i raw) prefix \<and> segment \<noteq> []
         then Some (i + length prefix, i + length prefix + length segment) else None)"

definition segment_match :: "string \<Rightarrow> string \<Rightarrow> nat \<Rightarrow> (nat \<times> nat) option" where
  "segment_match prefix raw i =
     (case if i = 0 then segment_at prefix raw 0 else None of
        Some m \<Rightarrow> Some m
      | None \<Rightarrow> if i < length raw \<and> raw ! i = CHR '':'' then segment_at prefix raw (Suc i) else None)"

lemma segment_at_bounds: "segment_at prefix raw i = Some (a, b) \<Longrightarrow> i \<le> a \<and> a < b \<and> b \<le> length raw"
proof -
  assume "segment_at prefix raw i = Some (a, b)"
  moreover have "length (takeWhile (\<lambda>c. c \<noteq> CHR '':'') (drop k raw)) \<le> length raw - k" for k
    by (metis length_drop length_takeWhile_le)
  ultimately show ?thesis
    by (auto simp: segment_at_def Let_def split: if_splits)
       (metis (no_types, lifting) drop_eq_Nil le_add_diff_inverse length_takeWhile_le length_drop nat_add_left_cancel_le
         nle_le takeWhile.simps(1))
qed

lemma segment_match_bounds: "segment_match prefix raw i = Some (a, b) \<Longrightarrow> i \<le> a \<and> a < b \<and> b \<le> length raw"
  by (auto simp: segment_match_def dest!: segment_at_bounds split: option.splits if_splits)

text \<open>\<open>matchAll\<close>: leftmost matches, each search resuming where the last match ended.\<close>

function segment_spans :: "string \<Rightarrow> string \<Rightarrow> nat \<Rightarrow> PreservedSpan list" where
  "segment_spans prefix raw i =
     (if length raw \<le> i then []
      else case segment_match prefix raw i of
             None \<Rightarrow> segment_spans prefix raw (Suc i)
           | Some (a, b) \<Rightarrow> \<lparr>ps_start = a, ps_end = b, ps_trim = True\<rparr> # segment_spans prefix raw b)"
  by pat_completeness auto
termination
  by (relation "measure (\<lambda>(prefix, raw, i). length raw - i)") (auto dest!: segment_match_bounds)

declare segment_spans.simps [simp del]

text \<open>One \<open>agent:[^:]*:\<close>, and as many as there are.\<close>

definition strip_agent_wrapper :: "string \<Rightarrow> string option" where
  "strip_agent_wrapper s =
     (if starts_ci s ''agent:'' then
        (case dropWhile (\<lambda>c. c \<noteq> CHR '':'') (drop 6 s) of [] \<Rightarrow> None | _ # r \<Rightarrow> Some r)
      else None)"

lemma strip_agent_wrapper_length: "strip_agent_wrapper s = Some r \<Longrightarrow> length r < length s"
proof -
  assume "strip_agent_wrapper s = Some r"
  then obtain c where "dropWhile (\<lambda>c. c \<noteq> CHR '':'') (drop 6 s) = c # r"
    by (auto simp: strip_agent_wrapper_def split: if_splits list.splits)
  then show ?thesis
    using length_dropWhile_le [of "\<lambda>c. c \<noteq> CHR '':''" "drop 6 s"] by simp
qed

function strip_agent_wrappers :: "string \<Rightarrow> string" where
  "strip_agent_wrappers s =
     (case strip_agent_wrapper s of None \<Rightarrow> s | Some r \<Rightarrow> strip_agent_wrappers r)"
  by pat_completeness auto
termination
  by (relation "measure length") (auto dest: strip_agent_wrapper_length)

declare strip_agent_wrappers.simps [simp del]

text \<open>The length of the match of \<open>^(?:agent:[^:]*:)+:*prefix\<close>.\<close>

definition tail_pattern_match :: "string \<Rightarrow> string \<Rightarrow> nat option" where
  "tail_pattern_match prefix raw =
     (if strip_agent_wrapper raw = None then None
      else let r = dropWhile (\<lambda>c. c = CHR '':'') (strip_agent_wrappers raw)
           in if starts_ci r prefix then Some (length raw - length r + length prefix) else None)"

definition unscoped_pattern_match :: "string \<Rightarrow> string \<Rightarrow> nat option" where
  "unscoped_pattern_match prefix raw = (if starts_ci raw prefix then Some (length prefix) else None)"

definition THREAD_MARKER :: string where "THREAD_MARKER = '':thread:''"

definition tail_spans :: "string \<Rightarrow> nat \<Rightarrow> PreservedSpan list" where
  "tail_spans raw tailStart =
     (let tail = drop tailStart raw
      in case js_lastIndexOf (normalizeLowercaseStringOrEmpty (Some tail)) THREAD_MARKER of
           None \<Rightarrow> [\<lparr>ps_start = tailStart, ps_end = length raw, ps_trim = False\<rparr>]
         | Some markerIndex \<Rightarrow>
             let threadIdStart = tailStart + markerIndex + length THREAD_MARKER
             in \<lparr>ps_start = tailStart, ps_end = tailStart + markerIndex, ps_trim = False\<rparr> #
                (if threadIdStart < length raw
                 then [\<lparr>ps_start = threadIdStart, ps_end = length raw, ps_trim = False\<rparr>] else []))"

definition pattern_spans :: "string \<Rightarrow> CasePreservingPeerPattern \<Rightarrow> PreservedSpan list" where
  "pattern_spans raw descriptor =
     (case pp_span descriptor of
        SegmentSpan \<Rightarrow> segment_spans (pp_prefix descriptor) raw 0
      | TailSpan \<Rightarrow>
          (case (case tail_pattern_match (pp_prefix descriptor) raw of
                   Some n \<Rightarrow> Some n
                 | None \<Rightarrow> if pp_unscoped descriptor
                     then unscoped_pattern_match (pp_prefix descriptor) raw else None) of
             None \<Rightarrow> []
           | Some n \<Rightarrow> if length raw \<le> n then [] else tail_spans raw n))"

definition collectCasePreservedSpans :: "string \<Rightarrow> PreservedSpan list" where
  "collectCasePreservedSpans raw = concat (map (pattern_spans raw) CASE_PRESERVING_PEER_PATTERNS)"

section \<open>The canonical form of a key\<close>

text \<open>The text from \<open>cursor\<close> on: folded outside the spans, kept inside, overlapping spans skipped.\<close>

fun emit_spans :: "string \<Rightarrow> nat \<Rightarrow> PreservedSpan list \<Rightarrow> string" where
  "emit_spans raw cursor [] = normalizeLowercaseStringOrEmpty (Some (drop cursor raw))"
| "emit_spans raw cursor (span # spans) =
     (if ps_start span < cursor then emit_spans raw cursor spans
      else let preserved = js_slice raw (ps_start span) (ps_end span)
           in normalizeLowercaseStringOrEmpty (Some (js_slice raw cursor (ps_start span))) @
              (if ps_trim span then js_trim preserved else preserved) @
              emit_spans raw (ps_end span) spans)"

definition canonical_session_key :: "string \<Rightarrow> string" where
  "canonical_session_key raw =
     (if \<not> mayContainCasePreservingPeer raw then js_lower raw
      else emit_spans raw 0 (sort_key ps_start
        (filter (\<lambda>span. ps_start span < ps_end span) (collectCasePreservedSpans raw))))"

definition NORMALIZED_SESSION_KEY_CACHE_MAX_ENTRIES :: nat where
  "NORMALIZED_SESSION_KEY_CACHE_MAX_ENTRIES = 2048"

definition NORMALIZED_SESSION_KEY_CACHE_MAX_LENGTH :: nat where
  "NORMALIZED_SESSION_KEY_CACHE_MAX_LENGTH = 4096"

type_synonym session_key_cache = "(string, string) jsmap"

definition pruneMapToMaxSize :: "('k, 'v) jsmap \<Rightarrow> nat \<Rightarrow> ('k, 'v) jsmap" where
  "pruneMapToMaxSize m maxSize = (if maxSize = 0 then [] else drop (length m - maxSize) m)"

definition readNormalizedSessionKeyCache :: "session_key_cache \<Rightarrow> string \<Rightarrow> string option" where
  "readNormalizedSessionKeyCache cache raw =
     (if length raw \<le> NORMALIZED_SESSION_KEY_CACHE_MAX_LENGTH then jm_get cache raw else None)"

definition writeNormalizedSessionKeyCache ::
  "session_key_cache \<Rightarrow> string \<Rightarrow> string \<Rightarrow> session_key_cache" where
  "writeNormalizedSessionKeyCache cache raw normalized =
     (if NORMALIZED_SESSION_KEY_CACHE_MAX_LENGTH < length raw then cache
      else pruneMapToMaxSize (jm_set raw normalized cache) NORMALIZED_SESSION_KEY_CACHE_MAX_ENTRIES)"

text \<open>The function as the source runs it, on its cache.\<close>

definition normalize_session_key_cached ::
  "session_key_cache \<Rightarrow> string option \<Rightarrow> string \<times> session_key_cache" where
  "normalize_session_key_cached cache sessionKey =
     (case normalizeOptionalString sessionKey of None \<Rightarrow> ([], cache)
      | Some raw \<Rightarrow>
          (case readNormalizedSessionKeyCache cache raw of
             Some cached \<Rightarrow> (cached, cache)
           | None \<Rightarrow> let normalized = canonical_session_key raw
               in (normalized, writeNormalizedSessionKeyCache cache raw normalized)))"

text \<open>What it returns on every cache it has filled itself (\<open>cached_key_is_canonical\<close>).\<close>

definition normalizeSessionKeyPreservingOpaquePeerIds :: "string option \<Rightarrow> string" where
  "normalizeSessionKeyPreservingOpaquePeerIds sessionKey =
     (case normalizeOptionalString sessionKey of None \<Rightarrow> [] | Some raw \<Rightarrow> canonical_session_key raw)"

definition session_cache_ok :: "session_key_cache \<Rightarrow> bool" where
  "session_cache_ok cache \<longleftrightarrow> (\<forall>(raw, normalized) \<in> set cache. normalized = canonical_session_key raw)"

lemma pruneMapToMaxSize_subset: "set (pruneMapToMaxSize m n) \<subseteq> set m"
  by (auto simp: pruneMapToMaxSize_def dest: in_set_dropD)

lemma pruneMapToMaxSize_length: "length (pruneMapToMaxSize m n) \<le> n"
  unfolding pruneMapToMaxSize_def by (simp, arith)

lemma cached_key_is_canonical:
  assumes "session_cache_ok cache"
  shows "fst (normalize_session_key_cached cache key) = normalizeSessionKeyPreservingOpaquePeerIds key"
    "session_cache_ok (snd (normalize_session_key_cached cache key))"
proof -
  have hit: "v = canonical_session_key raw" if "jm_get cache raw = Some v" for raw v
    using assms map_of_SomeD [OF that] by (auto simp: session_cache_ok_def)
  show "fst (normalize_session_key_cached cache key) = normalizeSessionKeyPreservingOpaquePeerIds key"
    by (auto simp: normalize_session_key_cached_def normalizeSessionKeyPreservingOpaquePeerIds_def Let_def
      readNormalizedSessionKeyCache_def dest: hit split: option.split if_splits)
  have set: "session_cache_ok (jm_set raw (canonical_session_key raw) cache)" for raw
    using assms jm_set_subset [of raw "canonical_session_key raw" cache] by (auto simp: session_cache_ok_def)
  have "session_cache_ok (writeNormalizedSessionKeyCache cache raw (canonical_session_key raw))" for raw
    using assms set [of raw] pruneMapToMaxSize_subset [of "jm_set raw (canonical_session_key raw) cache"]
    by (auto simp: writeNormalizedSessionKeyCache_def session_cache_ok_def)
  then show "session_cache_ok (snd (normalize_session_key_cached cache key))"
    using assms by (auto simp: normalize_session_key_cached_def Let_def split: option.split)
qed

section \<open>Parsers\<close>

record ParsedAgentSessionKey =
  pa_agentId :: string
  pa_rest :: string

definition parseAgentSessionKey :: "string option \<Rightarrow> ParsedAgentSessionKey option" where
  "parseAgentSessionKey sessionKey =
     (let raw = normalizeSessionKeyPreservingOpaquePeerIds sessionKey
      in if raw = [] then None
         else if \<not> js_startsWith raw ''agent:'' then None
         else case js_indexOf_unit raw CHR '':'' 6 of
             None \<Rightarrow> None
           | Some agentIdEnd \<Rightarrow>
               let agentId = normalizeOptionalString (Some (js_slice raw 6 agentIdEnd));
                   rest = drop (agentIdEnd + 1) raw
               in case agentId of
                    None \<Rightarrow> None
                  | Some agent \<Rightarrow> if rest = [] \<or> js_startsWith rest '':'' then None
                      else Some \<lparr>pa_agentId = agent, pa_rest = rest\<rparr>)"

text \<open>\<open>^cron:[^:]+:run:[^:]+(?::|$)\<close> on the segments of the text.\<close>

definition cron_run_parts :: "string list \<Rightarrow> bool" where
  "cron_run_parts parts \<longleftrightarrow> 4 \<le> length parts \<and> parts ! 0 = ''cron'' \<and> parts ! 1 \<noteq> [] \<and>
     parts ! 2 = ''run'' \<and> parts ! 3 \<noteq> []"

definition isCronRunSessionKey :: "string option \<Rightarrow> bool" where
  "isCronRunSessionKey sessionKey =
     (case parseAgentSessionKey sessionKey of None \<Rightarrow> False
      | Some parsed \<Rightarrow> cron_run_parts (js_split CHR '':'' (pa_rest parsed)))"

text \<open>\<open>{baseSessionKey, runId}\<close>.\<close>

definition parseCronRunScopeSuffix :: "string option \<Rightarrow> string option \<times> string option" where
  "parseCronRunScopeSuffix sessionKey =
     (case normalizeOptionalString sessionKey of None \<Rightarrow> (None, None)
      | Some raw \<Rightarrow>
          (case parseAgentSessionKey (Some raw) of
             None \<Rightarrow> (Some raw, None)
           | Some parsed \<Rightarrow>
               let parts = js_split CHR '':'' (pa_rest parsed)
               in if \<not> (cron_run_parts parts \<and> length parts = 4) then (Some raw, None)
                  else case js_lastIndexOf (js_lower raw) '':run:'' of
                      Some markerIndex \<Rightarrow>
                        (Some (js_slice raw 0 markerIndex), Some (drop (markerIndex + 5) raw))
                    | None \<Rightarrow> (Some (take (length raw - 1) raw), Some (drop 4 raw))))"

definition starts_with_lower :: "string option \<Rightarrow> string \<Rightarrow> bool" where
  "starts_with_lower value p =
     (case normalizeOptionalLowercaseString value of None \<Rightarrow> False | Some s \<Rightarrow> js_startsWith s p)"

definition isCronSessionKey :: "string option \<Rightarrow> bool" where
  "isCronSessionKey sessionKey =
     (case parseAgentSessionKey sessionKey of None \<Rightarrow> False
      | Some parsed \<Rightarrow> starts_with_lower (Some (pa_rest parsed)) ''cron:'')"

definition isSubagentSessionKey :: "string option \<Rightarrow> bool" where
  "isSubagentSessionKey sessionKey =
     (case normalizeOptionalString sessionKey of None \<Rightarrow> False
      | Some raw \<Rightarrow>
          if starts_with_lower (Some raw) ''subagent:'' then True
          else starts_with_lower (map_option pa_rest (parseAgentSessionKey (Some raw))) ''subagent:'')"

text \<open>The number of matches of \<open>(^|:)subagent:\<close>, each search resuming after the last match.\<close>

fun count_subagent :: "bool \<Rightarrow> string \<Rightarrow> nat" where
  "count_subagent atStart [] = 0"
| "count_subagent atStart (c # s) =
     (if atStart \<and> js_startsWith (c # s) ''subagent:'' then Suc (count_subagent False (drop 8 s))
      else if c = CHR '':'' \<and> js_startsWith s ''subagent:'' then Suc (count_subagent False (drop 9 s))
      else count_subagent False s)"

definition getSubagentDepth :: "string option \<Rightarrow> nat" where
  "getSubagentDepth sessionKey =
     (case normalizeOptionalLowercaseString sessionKey of None \<Rightarrow> 0
      | Some raw \<Rightarrow>
          let scoped = (case parseAgentSessionKey (Some raw) of Some parsed \<Rightarrow> pa_rest parsed | None \<Rightarrow> raw)
          in count_subagent True (js_lower scoped))"

definition isAcpSessionKey :: "string option \<Rightarrow> bool" where
  "isAcpSessionKey sessionKey =
     (case normalizeOptionalString sessionKey of None \<Rightarrow> False
      | Some raw \<Rightarrow>
          if js_startsWith (normalizeLowercaseStringOrEmpty (Some raw)) ''acp:'' then True
          else starts_with_lower (map_option pa_rest (parseAgentSessionKey (Some raw))) ''acp:'')"

datatype session_dispatch_kind = AgentDispatch | AcpDispatch

definition resolveSessionDispatchKind :: "string option \<Rightarrow> bool \<Rightarrow> session_dispatch_kind" where
  "resolveSessionDispatchKind sessionKey entryHasAcp =
     (if entryHasAcp \<or> isAcpSessionKey sessionKey then AcpDispatch else AgentDispatch)"

text \<open>\<open>{baseSessionKey, threadId}\<close>.\<close>

definition parseThreadSessionSuffix :: "string option \<Rightarrow> string option \<times> string option" where
  "parseThreadSessionSuffix sessionKey =
     (case normalizeOptionalString sessionKey of None \<Rightarrow> (None, None)
      | Some raw \<Rightarrow>
          (case js_lastIndexOf (normalizeLowercaseStringOrEmpty (Some raw)) THREAD_MARKER of
             None \<Rightarrow> (Some raw, None)
           | Some markerIndex \<Rightarrow>
               (Some (js_slice raw 0 markerIndex),
                normalizeOptionalString (Some (drop (markerIndex + length THREAD_MARKER) raw)))))"

record ParsedSessionDeliveryRoute =
  dr_accountId :: "string option"
  dr_channel :: string
  dr_peerId :: string
  dr_peerKind :: string
  dr_threadId :: "string option"

definition SESSION_DELIVERY_PEER_KINDS :: "string list" where
  "SESSION_DELIVERY_PEER_KINDS = [''channel'', ''direct'', ''dm'', ''group'']"

definition join_from :: "nat \<Rightarrow> string list \<Rightarrow> string" where
  "join_from n parts = js_join CHR '':'' (drop n parts)"

definition parse_delivery_parts ::
  "string option \<Rightarrow> string list \<Rightarrow> ParsedSessionDeliveryRoute option" where
  "parse_delivery_parts threadId parts =
     (if parts ! 0 = ''agent'' \<or> length parts < 3 then None
      else case normalizeOptionalLowercaseString (Some (parts ! 0)) of
        None \<Rightarrow> None
      | Some channel \<Rightarrow>
          if 4 \<le> length parts \<and> (parts ! 2 = ''direct'' \<or> parts ! 2 = ''dm'') then
            (case (normalizeOptionalString (Some (parts ! 1)), normalizeOptionalString (Some (parts ! 3)),
                normalizeOptionalString (Some (join_from 3 parts))) of
               (Some accountId, Some _, Some peerId) \<Rightarrow>
                 Some \<lparr>dr_accountId = Some accountId, dr_channel = channel, dr_peerId = peerId,
                   dr_peerKind = parts ! 2, dr_threadId = threadId\<rparr>
             | _ \<Rightarrow> None)
          else if parts ! 1 \<notin> set SESSION_DELIVERY_PEER_KINDS then None
          else
            (case (normalizeOptionalString (Some (parts ! 2)), normalizeOptionalString (Some (join_from 2 parts))) of
               (Some _, Some peerId) \<Rightarrow>
                 Some \<lparr>dr_accountId = None, dr_channel = channel, dr_peerId = peerId,
                   dr_peerKind = parts ! 1, dr_threadId = threadId\<rparr>
             | _ \<Rightarrow> None))"

definition parseSessionDeliveryRoute :: "string option \<Rightarrow> ParsedSessionDeliveryRoute option" where
  "parseSessionDeliveryRoute sessionKey =
     (let (baseSessionKey, threadId) = parseThreadSessionSuffix sessionKey
      in case parseAgentSessionKey (case baseSessionKey of Some b \<Rightarrow> Some b | None \<Rightarrow> sessionKey) of
           None \<Rightarrow> None
         | Some parsed \<Rightarrow> parse_delivery_parts threadId (js_split CHR '':'' (pa_rest parsed)))"

record RawSessionConversationRef =
  cv_channel :: string
  cv_kind :: string
  cv_rawId :: string
  cv_prefix :: string

definition parseRawSessionConversationRef :: "string option \<Rightarrow> RawSessionConversationRef option" where
  "parseRawSessionConversationRef sessionKey =
     (case normalizeOptionalString sessionKey of None \<Rightarrow> None
      | Some raw \<Rightarrow>
          let rawParts = js_split CHR '':'' raw;
              hasAgentWrapper = (normalizeOptionalLowercaseString (nth_part rawParts 0) = Some ''agent'');
              bodyStartIndex = (if hasAgentWrapper then 2 else 0);
              parts = drop bodyStartIndex rawParts
          in if hasAgentWrapper \<and> (normalizeOptionalString (nth_part rawParts 1) = None \<or> length rawParts < 3)
             then None
             else if normalizeOptionalLowercaseString (nth_part parts 0) = Some ''agent'' then None
             else if length parts < 3 \<or> normalizeOptionalString (nth_part parts 2) = None then None
             else case (normalizeOptionalLowercaseString (nth_part parts 0),
                 normalizeOptionalLowercaseString (nth_part parts 1)) of
                 (Some channel, Some kind) \<Rightarrow>
                   if kind \<noteq> ''group'' \<and> kind \<noteq> ''channel'' then None
                   else (case (normalizeOptionalString (Some (join_from 2 parts)),
                       normalizeOptionalString (Some (js_join CHR '':'' (take (bodyStartIndex + 2) rawParts)))) of
                       (Some rawId, Some prefix) \<Rightarrow> Some \<lparr>cv_channel = channel, cv_kind = kind,
                         cv_rawId = rawId, cv_prefix = prefix\<rparr>
                     | _ \<Rightarrow> None)
               | _ \<Rightarrow> None)"

text \<open>\<open>^(?:dashboard|subagent|internal-session-effects):incognito-[^:]+$\<close>.\<close>

definition isIncognitoSessionKey :: "string option \<Rightarrow> bool" where
  "isIncognitoSessionKey sessionKey =
     (let raw = js_lower (trim_or_empty sessionKey); parts = js_split CHR '':'' raw
      in if raw = [] then False
         else if length parts < 3 \<or> parts ! 0 \<noteq> ''agent'' \<or> parts ! 1 = [] then False
         else length parts = 4 \<and>
           parts ! 2 \<in> set [''dashboard'', ''subagent'', ''internal-session-effects''] \<and>
           js_startsWith (parts ! 3) ''incognito-'' \<and> 10 < length (parts ! 3))"

end
