(* ===== verification/Session_Key_Build.thy ===== *)
theory Session_Key_Build
  imports Session_Key_Parse
begin

text \<open>
  The writing side of session keys: agent ids (\<open>packages/normalization-core/src/agent-id.ts\<close>),
  account ids (\<open>src/routing/account-id.ts\<close>) and the keys built from route targets
  (\<open>src/routing/session-key.ts\<close>).
\<close>

section \<open>Agent and account ids\<close>

definition id_alnum :: "char \<Rightarrow> bool" where
  "id_alnum c \<longleftrightarrow> (let n = of_char c :: nat in 48 \<le> n \<and> n \<le> 57 \<or> 97 \<le> n \<and> n \<le> 122)"

definition id_char :: "char \<Rightarrow> bool" where
  "id_char c \<longleftrightarrow> id_alnum c \<or> c = CHR ''_'' \<or> c = CHR ''-''"

text \<open>\<open>^[a-z0-9][a-z0-9_-]{0,63}$\<close> with the flag \<open>i\<close>.\<close>

definition VALID_ID_RE :: "string \<Rightarrow> bool" where
  "VALID_ID_RE s \<longleftrightarrow> (case js_lower s of [] \<Rightarrow> False
     | c # r \<Rightarrow> id_alnum c \<and> list_all id_char r \<and> length r \<le> 63)"

text \<open>\<open>replace(/[^a-z0-9_-]+/g, "-")\<close>: each maximal run of other characters becomes one dash.\<close>

fun replace_invalid :: "bool \<Rightarrow> string \<Rightarrow> string" where
  "replace_invalid inRun [] = []"
| "replace_invalid inRun (c # s) =
     (if id_char c then c # replace_invalid False s
      else if inRun then replace_invalid True s
      else CHR ''-'' # replace_invalid True s)"

definition strip_leading_dashes :: "string \<Rightarrow> string" where
  "strip_leading_dashes s = dropWhile (\<lambda>c. c = CHR ''-'') s"

definition strip_trailing_dashes :: "string \<Rightarrow> string" where
  "strip_trailing_dashes s = rev (dropWhile (\<lambda>c. c = CHR ''-'') (rev s))"

text \<open>The rewriting agent ids and account ids share.\<close>

definition sanitize_id :: "string \<Rightarrow> string" where
  "sanitize_id normalized =
     take 64 (strip_trailing_dashes (strip_leading_dashes (replace_invalid False normalized)))"

definition normalizeAgentIdStrict :: "string option \<Rightarrow> string option" where
  "normalizeAgentIdStrict value =
     (let trimmed = trim_or_empty value;
          normalized = normalizeLowercaseStringOrEmpty (Some trimmed)
      in if VALID_ID_RE trimmed then Some normalized
         else let agentId = sanitize_id normalized in if agentId \<noteq> [] then Some agentId else None)"

definition DEFAULT_AGENT_ID :: string where "DEFAULT_AGENT_ID = ''main''"

definition normalizeAgentId :: "string option \<Rightarrow> string" where
  "normalizeAgentId value = (case normalizeAgentIdStrict value of Some a \<Rightarrow> a | None \<Rightarrow> DEFAULT_AGENT_ID)"

definition isValidAgentId :: "string option \<Rightarrow> bool" where
  "isValidAgentId value \<longleftrightarrow> trim_or_empty value \<noteq> [] \<and> VALID_ID_RE (trim_or_empty value)"

definition DEFAULT_ACCOUNT_ID :: string where "DEFAULT_ACCOUNT_ID = ''default''"

definition isBlockedObjectKey :: "string \<Rightarrow> bool" where
  "isBlockedObjectKey key \<longleftrightarrow> key \<in> set [''__proto__'', ''prototype'', ''constructor'']"

definition canonicalizeAccountId :: "string \<Rightarrow> string" where
  "canonicalizeAccountId value =
     (let normalized = normalizeLowercaseStringOrEmpty (Some value)
      in if VALID_ID_RE value then normalized else sanitize_id normalized)"

definition normalizeCanonicalAccountId :: "string \<Rightarrow> string option" where
  "normalizeCanonicalAccountId value =
     (let canonical = canonicalizeAccountId value
      in if canonical = [] \<or> isBlockedObjectKey canonical then None else Some canonical)"

definition normalizeAccountId :: "string option \<Rightarrow> string" where
  "normalizeAccountId value =
     (let trimmed = trim_or_empty value
      in if trimmed = [] then DEFAULT_ACCOUNT_ID
         else case normalizeCanonicalAccountId trimmed of Some a \<Rightarrow> a | None \<Rightarrow> DEFAULT_ACCOUNT_ID)"

definition normalizeOptionalAccountId :: "string option \<Rightarrow> string option" where
  "normalizeOptionalAccountId value =
     (let trimmed = trim_or_empty value
      in if trimmed = [] then None else normalizeCanonicalAccountId trimmed)"

section \<open>Session keys\<close>

definition DEFAULT_MAIN_KEY :: string where "DEFAULT_MAIN_KEY = ''main''"

definition normalizeToken :: "string option \<Rightarrow> string" where
  "normalizeToken value = normalizeLowercaseStringOrEmpty value"

definition normalizeMainKey :: "string option \<Rightarrow> string" where
  "normalizeMainKey value =
     (let k = normalizeLowercaseStringOrEmpty value in if k = [] then DEFAULT_MAIN_KEY else k)"

definition buildAgentMainSessionKey :: "string option \<Rightarrow> string option \<Rightarrow> string" where
  "buildAgentMainSessionKey agentId mainKey =
     ''agent:'' @ normalizeAgentId agentId @ '':'' @ normalizeMainKey mainKey"

datatype chat_type = ChatDirect | ChatGroup | ChatChannel

fun chat_type_text :: "chat_type \<Rightarrow> string" where
  "chat_type_text ChatDirect = ''direct''"
| "chat_type_text ChatGroup = ''group''"
| "chat_type_text ChatChannel = ''channel''"

datatype dm_scope = DmMain | DmPerPeer | DmPerChannelPeer | DmPerAccountChannelPeer

type_synonym identity_links = "(string \<times> string list) list"

text \<open>The links are the entries of the object in enumeration order.\<close>

definition resolveLinkedDirectPeerId :: "identity_links option \<Rightarrow> string \<Rightarrow> string \<Rightarrow> string option" where
  "resolveLinkedDirectPeerId identityLinks rawChannel rawPeerId =
     (case identityLinks of None \<Rightarrow> None
      | Some links \<Rightarrow>
          let peerId = js_trim rawPeerId; channel = normalizeToken (Some rawChannel);
              rawCandidate = normalizeToken (Some peerId);
              scopedCandidate = normalizeToken (Some (channel @ '':'' @ peerId));
              candidates = (if rawCandidate = [] then [] else [rawCandidate]) @
                (if channel = [] \<or> scopedCandidate = [] then [] else [scopedCandidate])
          in if peerId = [] \<or> candidates = [] then None
             else map_option (js_trim \<circ> fst) (find (\<lambda>(canonical, ids). js_trim canonical \<noteq> [] \<and>
               list_ex (\<lambda>id. normalizeToken (Some id) \<noteq> [] \<and> normalizeToken (Some id) \<in> set candidates) ids)
               links))"

record PeerSessionParams =
  sp_agentId :: string
  sp_mainKey :: "string option"
  sp_channel :: string
  sp_accountId :: "string option"
  sp_peerKind :: "chat_type option"
  sp_peerId :: "string option"
  sp_identityLinks :: "identity_links option"
  sp_dmScope :: "dm_scope option"
  sp_groupScopeMain :: bool

definition or_unknown :: "string \<Rightarrow> string" where
  "or_unknown s = (if s = [] then ''unknown'' else s)"

definition direct_peer :: "PeerSessionParams \<Rightarrow> dm_scope \<Rightarrow> string" where
  "direct_peer p dmScope =
     (let peerId = trim_or_empty (sp_peerId p);
          linkedPeerId = (if dmScope = DmMain then None
            else resolveLinkedDirectPeerId (sp_identityLinks p) (sp_channel p) peerId)
      in normalizeLowercaseStringOrEmpty (Some (case linkedPeerId of
           Some linked \<Rightarrow> if linked = [] then peerId else linked | None \<Rightarrow> peerId)))"

definition buildAgentPeerSessionKey :: "PeerSessionParams \<Rightarrow> string" where
  "buildAgentPeerSessionKey p =
     (let peerKind = (case sp_peerKind p of Some k \<Rightarrow> k | None \<Rightarrow> ChatDirect);
          head = ''agent:'' @ normalizeAgentId (Some (sp_agentId p)) @ '':'';
          channel = or_unknown (normalizeLowercaseStringOrEmpty (Some (sp_channel p)));
          main = buildAgentMainSessionKey (Some (sp_agentId p)) (sp_mainKey p)
      in if peerKind = ChatDirect then
           let dmScope = (case sp_dmScope p of Some s \<Rightarrow> s | None \<Rightarrow> DmMain);
               peerId = direct_peer p dmScope
           in if dmScope = DmPerAccountChannelPeer \<and> peerId \<noteq> [] then
                head @ channel @ '':'' @ normalizeAccountId (sp_accountId p) @ '':direct:'' @ peerId
              else if dmScope = DmPerChannelPeer \<and> peerId \<noteq> [] then
                head @ channel @ '':direct:'' @ peerId
              else if dmScope = DmPerPeer \<and> peerId \<noteq> [] then head @ ''direct:'' @ peerId
              else main
         else if sp_groupScopeMain p then main
         else head @ channel @ '':'' @ chat_type_text peerKind @ '':'' @
           or_unknown (normalizeSessionPeerId (Some (sp_channel p)) (Some (chat_type_text peerKind)) (sp_peerId p)))"

definition buildGroupHistoryKey ::
  "string \<Rightarrow> string option \<Rightarrow> chat_type \<Rightarrow> string \<Rightarrow> string" where
  "buildGroupHistoryKey rawChannel accountId peerKind peerId =
     (let channel = or_unknown (normalizeToken (Some rawChannel))
      in channel @ '':'' @ normalizeAccountId accountId @ '':'' @ chat_type_text peerKind @ '':'' @
         or_unknown (normalizeSessionPeerId (Some channel) (Some (chat_type_text peerKind)) (Some peerId)))"

text \<open>\<open>{sessionKey, parentSessionKey}\<close>.\<close>

definition resolveThreadSessionKeys ::
  "string \<Rightarrow> string option \<Rightarrow> string option \<Rightarrow> bool option \<Rightarrow> (string \<Rightarrow> string) option
    \<Rightarrow> string \<times> string option" where
  "resolveThreadSessionKeys baseSessionKey rawThreadId parentSessionKey useSuffix normalizeThreadId =
     (let threadId = trim_or_empty rawThreadId
      in if threadId = [] then (baseSessionKey, None)
         else
           let normalizedThread = (case normalizeThreadId of Some f \<Rightarrow> f threadId
                 | None \<Rightarrow> normalizeLowercaseStringOrEmpty (Some threadId))
           in (if case useSuffix of Some b \<Rightarrow> b | None \<Rightarrow> True
               then baseSessionKey @ '':thread:'' @ normalizedThread else baseSessionKey,
               parentSessionKey))"

datatype session_key_shape = ShapeMissing | ShapeAgent | ShapeLegacyOrAlias | ShapeMalformedAgent

definition classifySessionKeyShape :: "string option \<Rightarrow> session_key_shape" where
  "classifySessionKeyShape sessionKey =
     (let raw = trim_or_empty sessionKey
      in if raw = [] then ShapeMissing
         else if parseAgentSessionKey (Some raw) \<noteq> None then ShapeAgent
         else if js_startsWith (normalizeLowercaseStringOrEmpty (Some raw)) ''agent:'' then ShapeMalformedAgent
         else ShapeLegacyOrAlias)"

datatype session_key_error = MalformedAgentSessionKey | NoAgentIdInSessionKey

definition resolveAgentIdFromSessionKey ::
  "string option \<Rightarrow> string option \<Rightarrow> session_key_error + string" where
  "resolveAgentIdFromSessionKey sessionKey configuredDefaultAgentId =
     (case parseAgentSessionKey sessionKey of
        Some parsed \<Rightarrow> Inr (normalizeAgentId (Some (pa_agentId parsed)))
      | None \<Rightarrow>
          if classifySessionKeyShape sessionKey = ShapeMalformedAgent then Inl MalformedAgentSessionKey
          else
            let configuredDefault = trim_or_empty configuredDefaultAgentId
            in if configuredDefault \<noteq> [] then Inr (normalizeAgentId (Some configuredDefault))
               else Inl NoAgentIdInSessionKey)"

definition toAgentRequestSessionKey :: "string option \<Rightarrow> string option" where
  "toAgentRequestSessionKey storeKey =
     (let raw = trim_or_empty storeKey
      in if raw = [] then None
         else Some (case parseAgentSessionKey (Some raw) of Some parsed \<Rightarrow> pa_rest parsed | None \<Rightarrow> raw))"

definition agentSessionKeysMatchByRequestKey :: "string option \<Rightarrow> string option \<Rightarrow> bool" where
  "agentSessionKeysMatchByRequestKey left right =
     (let leftRaw = trim_or_empty left; rightRaw = trim_or_empty right
      in leftRaw \<noteq> [] \<and> rightRaw \<noteq> [] \<and>
         (leftRaw = rightRaw \<or> toAgentRequestSessionKey (Some leftRaw) = toAgentRequestSessionKey (Some rightRaw)))"

definition toAgentStoreSessionKey :: "string \<Rightarrow> string option \<Rightarrow> string option \<Rightarrow> string" where
  "toAgentStoreSessionKey agentId requestKey mainKey =
     (let raw = trim_or_empty requestKey; lowered = normalizeLowercaseStringOrEmpty (Some raw)
      in if raw = [] \<or> lowered = DEFAULT_MAIN_KEY then buildAgentMainSessionKey (Some agentId) mainKey
         else case parseAgentSessionKey (Some raw) of
             Some parsed \<Rightarrow> ''agent:'' @ pa_agentId parsed @ '':'' @ pa_rest parsed
           | None \<Rightarrow>
               let normalized = normalizeSessionKeyPreservingOpaquePeerIds (Some raw)
               in if js_startsWith lowered ''agent:'' then normalized
                  else ''agent:'' @ normalizeAgentId (Some agentId) @ '':'' @ normalized)"

definition isUnscopedSessionKeySentinel :: "string option \<Rightarrow> bool" where
  "isUnscopedSessionKeySentinel sessionKey \<longleftrightarrow>
     normalizeLowercaseStringOrEmpty sessionKey \<in> set [''global'', ''unknown'']"

definition scopeLegacySessionKeyToAgent ::
  "string option \<Rightarrow> string option \<Rightarrow> string option \<Rightarrow> string option" where
  "scopeLegacySessionKeyToAgent rawAgentId sessionKey mainKey =
     (let raw = trim_or_empty sessionKey; agentId = trim_or_empty rawAgentId
      in if raw = [] then None
         else if agentId = [] \<or> classifySessionKeyShape (Some raw) \<noteq> ShapeLegacyOrAlias then Some raw
         else Some (toAgentStoreSessionKey agentId (Some raw) mainKey))"

definition normalizeOptionalAgentId :: "string option \<Rightarrow> string option" where
  "normalizeOptionalAgentId value =
     map_option (\<lambda>trimmed. normalizeAgentId (Some trimmed)) (normalizeOptionalString value)"

definition resolveEventSessionKey :: "string \<Rightarrow> string option \<Rightarrow> bool \<Rightarrow> string" where
  "resolveEventSessionKey sessionKey mainKey globalScope =
     (case parseAgentSessionKey (Some sessionKey) of None \<Rightarrow> sessionKey
      | Some parsed \<Rightarrow>
          if \<not> isCronRunSessionKey (Some sessionKey) then sessionKey
          else if globalScope then ''global''
          else buildAgentMainSessionKey (Some (pa_agentId parsed)) mainKey)"

text \<open>What is added to the wake options.\<close>

datatype wake_scope = WakeUnscoped | WakeAgent string | WakeSession string

definition scopedHeartbeatWakeOptions :: "string \<Rightarrow> string option \<Rightarrow> bool \<Rightarrow> wake_scope" where
  "scopedHeartbeatWakeOptions sessionKey mainKey globalScope =
     (case parseAgentSessionKey (Some sessionKey) of None \<Rightarrow> WakeUnscoped
      | Some parsed \<Rightarrow>
          if isCronRunSessionKey (Some sessionKey) then
            if globalScope then WakeAgent (pa_agentId parsed)
            else WakeSession (buildAgentMainSessionKey (Some (pa_agentId parsed)) mainKey)
          else WakeSession sessionKey)"

end
