(* ===== verification/Pairing_Store.thy ===== *)
theory Pairing_Store
  imports Js_Date Session_Key_Build
begin

text \<open>
  The pairing store (\<open>src/pairing/pairing-store.ts\<close>, \<open>pairing-store-sqlite.ts\<close>,
  \<open>pairing-store-keys.ts\<close>): a sender who is not known to a channel account gets a code; whoever holds the
  code, or the opaque id of the request, approves it, which puts the sender on the allow list of the
  account.

  The state is two SQLite tables with their primary keys. A write of a duplicate key fails and a failed
  transaction changes nothing. The text of the column \<open>meta_json\<close> is kept as the record it denotes
  (\<open>None\<close> if it denotes none; a value that is not a string is \<open>None\<close>). Plain objects are association lists
  without a duplicate key; of the members they inherit, the two whose names are lower case matter.

  Parameters: \<open>other\<close>, what \<open>Date.parse\<close> does with texts \<open>toISOString\<close> does not write; \<open>digest\<close>,
  SHA-256 in base64url; \<open>collate\<close>, \<open>localeCompare\<close>; the adapter of the channel. The random numbers of an operation
  are a sequence \<open>draw\<close>. An operation reads the clock up to three times (\<open>Clock\<close>).
\<close>

section \<open>Lists by key\<close>

text \<open>\<open>m.get(k) ?? []\<close>, and pushing a value to the list of a key.\<close>

definition jm_list :: "('k, 'v list) jsmap \<Rightarrow> 'k \<Rightarrow> 'v list" where
  "jm_list m k = (case jm_get m k of Some l \<Rightarrow> l | None \<Rightarrow> [])"

definition jm_push :: "'k \<Rightarrow> 'v \<Rightarrow> ('k, 'v list) jsmap \<Rightarrow> ('k, 'v list) jsmap" where
  "jm_push k v m = jm_set k (jm_list m k @ [v]) m"

section \<open>Requests, tables and errors\<close>

type_synonym string_record = "(string, string) jsmap"
type_synonym loose_record = "(string \<times> string option) list"

record PairingRequest =
  pr_id :: string
  pr_code :: string
  pr_createdAt :: string
  pr_lastSeenAt :: string
  pr_meta :: "string_record option"

record request_row =
  rr_channel_key :: string
  rr_account_id :: string
  rr_request_id :: string
  rr_code :: string
  rr_created_at :: string
  rr_last_seen_at :: string
  rr_meta_json :: "loose_record option"

record allow_row =
  ar_channel_key :: string
  ar_account_id :: string
  ar_entry :: string
  ar_sort_order :: nat
  ar_updated_at :: int

record pairing_db =
  db_requests :: "request_row list"
  db_allow :: "allow_row list"

record ChannelPairingState =
  ps_requests :: "PairingRequest list"
  ps_allowFrom :: "(string, string list) jsmap"

datatype pairing_error = Invalid_Key string | Code_Exhausted nat | Type_Error | Constraint_Failed

record Clock =
  ck_iso :: int
  ck_now :: int
  ck_write :: int

section \<open>Keys\<close>

definition describePairingKeyInput :: "string \<Rightarrow> string" where
  "describePairingKeyInput value = (let trimmed = js_trim value
     in if trimmed \<noteq> [] then ''string length '' @ nat_str (length trimmed) else ''empty string'')"

definition invalidPairingKeyError :: "string \<Rightarrow> string \<Rightarrow> string \<Rightarrow> pairing_error" where
  "invalidPairingKeyError kind reason value =
     Invalid_Key (''invalid pairing '' @ kind @ '': '' @ reason @ ''; got '' @ describePairingKeyInput value)"

definition path_char :: "char \<Rightarrow> bool" where
  "path_char c \<longleftrightarrow> c \<in> set [CHR 0x5C, CHR ''/'', CHR '':'', CHR ''*'', CHR ''?'', CHR 0x22, CHR ''<'', CHR ''>'', CHR ''|'']"

fun replace_dotdot :: "string \<Rightarrow> string" where
  "replace_dotdot (c # d # s) =
     (if c = CHR ''.'' \<and> d = CHR ''.'' then CHR ''_'' # replace_dotdot s else c # replace_dotdot (d # s))"
| "replace_dotdot s = s"

definition normalizePairingKey :: "string \<Rightarrow> string \<Rightarrow> pairing_error + string" where
  "normalizePairingKey value kind =
     (let raw = normalizeLowercaseStringOrEmpty (Some value)
      in if raw = [] then Inl (invalidPairingKeyError kind ''expected non-empty string'' value)
         else let safe = replace_dotdot (map (\<lambda>c. if path_char c then CHR ''_'' else c) raw)
              in if safe = [] \<or> safe = ''_'' then Inl (invalidPairingKeyError kind ''sanitized key is empty'' value)
                 else Inr safe)"

definition safeChannelKey :: "string \<Rightarrow> pairing_error + string" where
  "safeChannelKey channel = normalizePairingKey channel ''channel''"

definition safeAccountKey :: "string \<Rightarrow> pairing_error + string" where
  "safeAccountKey accountId = normalizePairingKey accountId ''account id''"

definition uniqueStrings :: "string list \<Rightarrow> string list" where
  "uniqueStrings values = rev (remdups (rev values))"

definition normalizeStringEntries :: "string list \<Rightarrow> string list" where
  "normalizeStringEntries xs = filter (\<lambda>e. e \<noteq> []) (map js_trim xs)"

definition dedupePreserveOrder :: "string list \<Rightarrow> string list" where
  "dedupePreserveOrder entries = uniqueStrings (normalizeStringEntries entries)"

definition resolveAllowFromAccountId :: "string option \<Rightarrow> string" where
  "resolveAllowFromAccountId accountId = (let a = normalizeLowercaseStringOrEmpty accountId
     in if a \<noteq> [] then a else DEFAULT_ACCOUNT_ID)"

text \<open>Looking up such a name in a plain object finds a member of \<open>Object.prototype\<close>.\<close>

definition inherited_member :: "string \<Rightarrow> bool" where
  "inherited_member name \<longleftrightarrow> name = ''constructor'' \<or> name = ''__proto__''"

section \<open>Persisted requests\<close>

text \<open>Assigning to the member \<open>__proto__\<close> does not create one.\<close>

definition normalizePersistedPairingMeta :: "loose_record \<Rightarrow> string_record option" where
  "normalizePersistedPairingMeta value =
     (let out = foldl (\<lambda>out (key, entry). case normalizeOptionalString entry of
            Some normalized \<Rightarrow> if key = ''__proto__'' then out else jm_set key normalized out
          | None \<Rightarrow> out) [] value
      in if out \<noteq> [] then Some out else None)"

definition loose :: "string_record \<Rightarrow> loose_record" where
  "loose = map (\<lambda>(k, v). (k, Some v))"

definition normalizePersistedPairingRequest ::
  "(string \<Rightarrow> int option) \<Rightarrow> PairingRequest \<Rightarrow> PairingRequest option" where
  "normalizePersistedPairingRequest other value =
     (case (normalizeOptionalString (Some (pr_id value)), normalizeOptionalString (Some (pr_code value)),
            normalizeOptionalString (Some (pr_createdAt value))) of
        (Some i, Some code, Some createdAt) \<Rightarrow>
          let lastSeenAt = (case normalizeOptionalString (Some (pr_lastSeenAt value)) of
                Some t \<Rightarrow> t | None \<Rightarrow> createdAt)
          in if parseDateStringTimestampMs other createdAt = None \<or>
                parseDateStringTimestampMs other lastSeenAt = None then None
             else Some \<lparr>pr_id = i, pr_code = code, pr_createdAt = createdAt, pr_lastSeenAt = lastSeenAt,
                    pr_meta = Option.bind (pr_meta value) (normalizePersistedPairingMeta \<circ> loose)\<rparr>
      | _ \<Rightarrow> None)"

definition meta_accountId :: "PairingRequest \<Rightarrow> string option" where
  "meta_accountId entry = Option.bind (pr_meta entry) (\<lambda>m. jm_get m ''accountId'')"

definition resolvePairingRequestAccountId :: "PairingRequest \<Rightarrow> string" where
  "resolvePairingRequestAccountId entry = (let a = resolveAllowFromAccountId (meta_accountId entry)
     in if a \<noteq> [] then a else DEFAULT_ACCOUNT_ID)"

section \<open>Reading and writing the state of a channel\<close>

definition with_account :: "string \<Rightarrow> string_record option \<Rightarrow> string_record" where
  "with_account accountId meta = jm_set ''accountId'' accountId (case meta of Some m \<Rightarrow> m | None \<Rightarrow> [])"

definition read_request :: "(string \<Rightarrow> int option) \<Rightarrow> request_row \<Rightarrow> PairingRequest option" where
  "read_request other row =
     (let meta = Option.bind (rr_meta_json row) normalizePersistedPairingMeta
      in normalizePersistedPairingRequest other
           \<lparr>pr_id = rr_request_id row, pr_code = rr_code row, pr_createdAt = rr_created_at row,
            pr_lastSeenAt = rr_last_seen_at row,
            pr_meta = Some (with_account (resolveAllowFromAccountId (Some (rr_account_id row))) meta)\<rparr>)"

text \<open>\<open>(allowFrom[accountId] ??= []).push(row.entry)\<close>, which throws on an inherited member.\<close>

definition push_allow ::
  "allow_row \<Rightarrow> pairing_error + (string, string list) jsmap \<Rightarrow> pairing_error + (string, string list) jsmap" where
  "push_allow row acc = (case acc of Inl e \<Rightarrow> Inl e | Inr allowFrom \<Rightarrow>
     let accountId = resolveAllowFromAccountId (Some (ar_account_id row))
     in if inherited_member accountId then Inl Type_Error
        else Inr (jm_push accountId (ar_entry row) allowFrom))"

definition readChannelPairingStateFromDatabase ::
  "(string \<Rightarrow> int option) \<Rightarrow> string \<Rightarrow> pairing_db \<Rightarrow> pairing_error + ChannelPairingState" where
  "readChannelPairingStateFromDatabase other channel db = (case safeChannelKey channel of Inl e \<Rightarrow> Inl e
     | Inr channelKey \<Rightarrow>
         let requestRows = sort_key (\<lambda>r. (rr_created_at r, rr_account_id r, rr_request_id r))
               (filter (\<lambda>r. rr_channel_key r = channelKey) (db_requests db));
             allowRows = sort_key (\<lambda>r. (ar_account_id r, ar_sort_order r, ar_entry r))
               (filter (\<lambda>r. ar_channel_key r = channelKey) (db_allow db))
         in case foldl (\<lambda>acc row. push_allow row acc) (Inr []) allowRows of Inl e \<Rightarrow> Inl e
            | Inr allowFrom \<Rightarrow>
                Inr \<lparr>ps_requests = List.map_filter (read_request other) requestRows, ps_allowFrom = allowFrom\<rparr>)"

definition same_request_key :: "request_row \<Rightarrow> request_row \<Rightarrow> bool" where
  "same_request_key r s \<longleftrightarrow> rr_channel_key r = rr_channel_key s \<and> rr_account_id r = rr_account_id s \<and>
     rr_request_id r = rr_request_id s"

definition same_allow_key :: "allow_row \<Rightarrow> allow_row \<Rightarrow> bool" where
  "same_allow_key r s \<longleftrightarrow> ar_channel_key r = ar_channel_key s \<and> ar_account_id r = ar_account_id s \<and>
     ar_entry r = ar_entry s"

text \<open>Inserting rows one by one; the primary key must be new.\<close>

fun insert_rows :: "('r \<Rightarrow> 'r \<Rightarrow> bool) \<Rightarrow> 'r list \<Rightarrow> 'r list \<Rightarrow> pairing_error + 'r list" where
  "insert_rows same [] table = Inr table"
| "insert_rows same (r # rs) table =
     (if list_ex (same r) table then Inl Constraint_Failed else insert_rows same rs (table @ [r]))"

definition request_row_of :: "string \<Rightarrow> PairingRequest \<Rightarrow> request_row" where
  "request_row_of channelKey normalized =
     \<lparr>rr_channel_key = channelKey, rr_account_id = resolvePairingRequestAccountId normalized,
      rr_request_id = pr_id normalized, rr_code = pr_code normalized, rr_created_at = pr_createdAt normalized,
      rr_last_seen_at = pr_lastSeenAt normalized, rr_meta_json = map_option loose (pr_meta normalized)\<rparr>"

definition stored_entries :: "string list \<Rightarrow> string list" where
  "stored_entries entries = dedupePreserveOrder
     (filter (\<lambda>entry. entry \<noteq> [] \<and> entry \<noteq> ''*'') (map js_trim entries))"

definition allow_rows_of :: "string \<Rightarrow> int \<Rightarrow> string \<times> string list \<Rightarrow> allow_row list" where
  "allow_rows_of channelKey updatedAt e =
     map (\<lambda>(sortOrder, entry).
       \<lparr>ar_channel_key = channelKey, ar_account_id = resolveAllowFromAccountId (Some (fst e)),
        ar_entry = entry, ar_sort_order = sortOrder, ar_updated_at = updatedAt\<rparr>)
       (enumerate 0 (stored_entries (snd e)))"

definition writeChannelPairingStateToDatabase ::
  "(string \<Rightarrow> int option) \<Rightarrow> int \<Rightarrow> string \<Rightarrow> ChannelPairingState \<Rightarrow> pairing_db \<Rightarrow> pairing_error + pairing_db" where
  "writeChannelPairingStateToDatabase other updatedAt channel state db =
     (case safeChannelKey channel of Inl e \<Rightarrow> Inl e | Inr channelKey \<Rightarrow>
        let requestTable = filter (\<lambda>r. rr_channel_key r \<noteq> channelKey) (db_requests db);
            allowTable = filter (\<lambda>r. ar_channel_key r \<noteq> channelKey) (db_allow db);
            requestRows = map (request_row_of channelKey)
              (List.map_filter (normalizePersistedPairingRequest other) (ps_requests state));
            allowRows = concat (map (allow_rows_of channelKey updatedAt) (ps_allowFrom state))
        in case insert_rows same_request_key requestRows requestTable of Inl e \<Rightarrow> Inl e
           | Inr requestTable \<Rightarrow> (case insert_rows same_allow_key allowRows allowTable of Inl e \<Rightarrow> Inl e
               | Inr allowTable \<Rightarrow> Inr \<lparr>db_requests = requestTable, db_allow = allowTable\<rparr>))"

text \<open>
  A write transaction on the state of a channel: \<open>update\<close> returns its result and, if it writes, the
  new state. An error rolls the transaction back.
\<close>

definition channel_transaction ::
  "(string \<Rightarrow> int option) \<Rightarrow> int \<Rightarrow> string \<Rightarrow>
   (ChannelPairingState \<Rightarrow> pairing_error + ('a \<times> ChannelPairingState option)) \<Rightarrow>
   pairing_db \<Rightarrow> (pairing_error + 'a) \<times> pairing_db" where
  "channel_transaction other updatedAt channel update db =
     (case readChannelPairingStateFromDatabase other channel db of Inl e \<Rightarrow> (Inl e, db)
      | Inr state \<Rightarrow> (case update state of Inl e \<Rightarrow> (Inl e, db)
          | Inr (r, None) \<Rightarrow> (Inr r, db)
          | Inr (r, Some state') \<Rightarrow>
              (case writeChannelPairingStateToDatabase other updatedAt channel state' db of
                 Inl e \<Rightarrow> (Inl e, db) | Inr db' \<Rightarrow> (Inr r, db'))))"

definition updateChannelPairingStateSnapshot ::
  "(string \<Rightarrow> int option) \<Rightarrow> int \<Rightarrow> string \<Rightarrow> (ChannelPairingState \<Rightarrow> 'a \<times> ChannelPairingState) \<Rightarrow>
   pairing_db \<Rightarrow> (pairing_error + 'a) \<times> pairing_db" where
  "updateChannelPairingStateSnapshot other updatedAt channel update =
     channel_transaction other updatedAt channel
       (\<lambda>state. let (r, state') = update state in Inr (r, Some state'))"

section \<open>Expiry and the cap on pending requests\<close>

definition CHANNEL_PAIRING_PENDING_TTL_MS :: int where "CHANNEL_PAIRING_PENDING_TTL_MS = 60 * 60 * 1000"

definition CHANNEL_PAIRING_PENDING_MAX :: nat where "CHANNEL_PAIRING_PENDING_MAX = 3"

definition isExpired :: "(string \<Rightarrow> int option) \<Rightarrow> int \<Rightarrow> PairingRequest \<Rightarrow> bool" where
  "isExpired other nowMs entry = (case parseDateStringTimestampMs other (pr_createdAt entry) of
     None \<Rightarrow> True | Some createdAt \<Rightarrow> CHANNEL_PAIRING_PENDING_TTL_MS < nowMs - createdAt)"

definition pruneExpiredRequests ::
  "(string \<Rightarrow> int option) \<Rightarrow> PairingRequest list \<Rightarrow> int \<Rightarrow> PairingRequest list \<times> bool" where
  "pruneExpiredRequests other reqs nowMs =
     (filter (\<lambda>req. \<not> isExpired other nowMs req) reqs, list_ex (isExpired other nowMs) reqs)"

definition resolveLastSeenAt :: "(string \<Rightarrow> int option) \<Rightarrow> PairingRequest \<Rightarrow> int" where
  "resolveLastSeenAt other entry = (case parseDateStringTimestampMs other (pr_lastSeenAt entry) of
     Some t \<Rightarrow> t
   | None \<Rightarrow> (case parseDateStringTimestampMs other (pr_createdAt entry) of Some t \<Rightarrow> t | None \<Rightarrow> 0))"

definition normalizePairingAccountId :: "string option \<Rightarrow> string" where
  "normalizePairingAccountId accountId = normalizeLowercaseStringOrEmpty accountId"

definition requestMatchesAccountId :: "PairingRequest \<Rightarrow> string \<Rightarrow> bool" where
  "requestMatchesAccountId entry normalizedAccountId \<longleftrightarrow>
     normalizedAccountId = [] \<or> resolvePairingRequestAccountId entry = normalizedAccountId"

definition group_by_account ::
  "PairingRequest list \<Rightarrow> (string, (nat \<times> PairingRequest) list) jsmap" where
  "group_by_account reqs = foldl (\<lambda>grouped (index, entry).
     jm_push (resolvePairingRequestAccountId entry) (index, entry) grouped) [] (enumerate 0 reqs)"

definition dropped_of :: "(string \<Rightarrow> int option) \<Rightarrow> nat \<Rightarrow> (nat \<times> PairingRequest) list \<Rightarrow> nat list" where
  "dropped_of other maxPending entries =
     (if length entries \<le> maxPending then []
      else map fst (take (length entries - maxPending)
             (sort_key (\<lambda>e. resolveLastSeenAt other (snd e)) entries)))"

definition pruneExcessRequestsByAccount ::
  "(string \<Rightarrow> int option) \<Rightarrow> PairingRequest list \<Rightarrow> nat \<Rightarrow> PairingRequest list \<times> bool" where
  "pruneExcessRequestsByAccount other reqs maxPending =
     (if maxPending = 0 \<or> length reqs \<le> maxPending then (reqs, False)
      else let droppedIndexes = concat (map (dropped_of other maxPending) (jm_values (group_by_account reqs)))
           in if droppedIndexes = [] then (reqs, False)
              else (map snd (filter (\<lambda>(index, _). index \<notin> set droppedIndexes) (enumerate 0 reqs)), True))"

section \<open>Pairing codes\<close>

definition PAIRING_CODE_LENGTH :: nat where "PAIRING_CODE_LENGTH = 8"
definition PAIRING_CODE_ALPHABET :: string where "PAIRING_CODE_ALPHABET = ''ABCDEFGHJKLMNPQRSTUVWXYZ23456789''"
definition PAIRING_CODE_MAX_ATTEMPTS :: nat where "PAIRING_CODE_MAX_ATTEMPTS = 500"

text \<open>
  \<open>draw i\<close> is the \<open>i\<close>-th \<open>crypto.randomInt(0, 32)\<close> of the operation: some number below 32.
\<close>

definition randomCode :: "(nat \<Rightarrow> nat) \<Rightarrow> nat \<Rightarrow> string" where
  "randomCode draw attempt = map (\<lambda>i. PAIRING_CODE_ALPHABET !
     (draw (attempt * PAIRING_CODE_LENGTH + i) mod length PAIRING_CODE_ALPHABET)) [0..<PAIRING_CODE_LENGTH]"

function generate_from :: "string list \<Rightarrow> (nat \<Rightarrow> nat) \<Rightarrow> nat \<Rightarrow> pairing_error + string" where
  "generate_from existing draw attempt =
     (if attempt < PAIRING_CODE_MAX_ATTEMPTS then
        let code = randomCode draw attempt
        in if code \<notin> set existing then Inr code else generate_from existing draw (attempt + 1)
      else Inl (Code_Exhausted (length (remdups existing))))"
  by pat_completeness auto
termination by (relation "measure (\<lambda>(_, _, attempt). PAIRING_CODE_MAX_ATTEMPTS - attempt)") auto

declare generate_from.simps [simp del]

definition generateUniqueCode :: "string list \<Rightarrow> (nat \<Rightarrow> nat) \<Rightarrow> pairing_error + string" where
  "generateUniqueCode existing draw = generate_from existing draw 0"

text \<open>
  \<open>toUpperCase\<close> on code units below 256. The two letters whose capital lies outside (the micro sign and
  y with diaeresis) stay, which no comparison of two such texts can tell.
\<close>

definition js_upper :: "string \<Rightarrow> string" where
  "js_upper s = concat (map (\<lambda>c. let n = of_char c :: nat
     in if n = 223 then ''SS''
        else if 97 \<le> n \<and> n \<le> 122 \<or> 224 \<le> n \<and> n \<le> 254 \<and> n \<noteq> 247 then [char_of (n - 32)] else [c]) s)"

section \<open>Allow lists\<close>

record ChannelPairingAdapter =
  ca_normalizeAllowEntry :: "(string \<Rightarrow> string) option"
  ca_resolveApprovalStoreEntry :: "(string \<Rightarrow> string_record option \<Rightarrow> string option) option"

text \<open>A value that may be a number is given by its text.\<close>

definition normalizeId :: "string \<Rightarrow> string" where
  "normalizeId value = (case normalizeOptionalString (Some value) of Some s \<Rightarrow> s | None \<Rightarrow> [])"

definition normalizeAllowEntry :: "ChannelPairingAdapter option \<Rightarrow> string \<Rightarrow> string" where
  "normalizeAllowEntry pairingAdapter entry =
     (let trimmed = js_trim entry
      in if trimmed = [] \<or> trimmed = ''*'' then []
         else let normalized = (case Option.bind pairingAdapter ca_normalizeAllowEntry of
                    Some f \<Rightarrow> f trimmed | None \<Rightarrow> trimmed);
                  normalizedEntry = (case normalizeOptionalString (Some normalized) of Some s \<Rightarrow> s | None \<Rightarrow> [])
              in if normalizedEntry = ''*'' then [] else normalizedEntry)"

definition normalizeAllowFromInput :: "ChannelPairingAdapter option \<Rightarrow> string \<Rightarrow> string" where
  "normalizeAllowFromInput pairingAdapter entry = normalizeAllowEntry pairingAdapter (normalizeId entry)"

text \<open>\<open>state.allowFrom?.[accountId] ?? []\<close>; on an inherited member the list operations throw.\<close>

definition allow_list :: "string \<Rightarrow> ChannelPairingState \<Rightarrow> pairing_error + string list" where
  "allow_list accountId state = (case jm_get (ps_allowFrom state) accountId of
     Some entries \<Rightarrow> Inr entries
   | None \<Rightarrow> if inherited_member accountId then Inl Type_Error else Inr [])"

definition readAllowFromState ::
  "(string \<Rightarrow> int option) \<Rightarrow> string \<Rightarrow> string option \<Rightarrow> pairing_db \<Rightarrow> pairing_error + string list" where
  "readAllowFromState other channel accountId db =
     (case readChannelPairingStateFromDatabase other channel db of Inl e \<Rightarrow> Inl e
      | Inr state \<Rightarrow> allow_list (resolveAllowFromAccountId accountId) state)"

definition update_allow_state ::
  "string \<Rightarrow> string \<Rightarrow> (string list \<Rightarrow> string \<Rightarrow> string list option) \<Rightarrow> ChannelPairingState \<Rightarrow>
   pairing_error + ((bool \<times> string list) \<times> ChannelPairingState option)" where
  "update_allow_state accountId normalized apply_entry state =
     (case allow_list accountId state of Inl e \<Rightarrow> Inl e
      | Inr current \<Rightarrow>
          if normalized = [] then Inr ((False, current), None)
          else (case apply_entry current normalized of
              None \<Rightarrow> Inr ((False, current), None)
            | Some next_list \<Rightarrow> Inr ((True, next_list),
                Some (state\<lparr>ps_allowFrom := jm_set accountId next_list (ps_allowFrom state)\<rparr>))))"

definition updateAllowFromStoreEntry ::
  "(string \<Rightarrow> int option) \<Rightarrow> int \<Rightarrow> string \<Rightarrow> ChannelPairingAdapter option \<Rightarrow> string \<Rightarrow> string option \<Rightarrow>
   (string list \<Rightarrow> string \<Rightarrow> string list option) \<Rightarrow> pairing_db \<Rightarrow> (pairing_error + (bool \<times> string list)) \<times> pairing_db" where
  "updateAllowFromStoreEntry other updatedAt channel adapter entry accountId apply_entry =
     channel_transaction other updatedAt channel
       (update_allow_state (resolveAllowFromAccountId accountId) (normalizeAllowFromInput adapter entry) apply_entry)"

definition add_entry :: "string list \<Rightarrow> string \<Rightarrow> string list option" where
  "add_entry current normalized = (if normalized \<in> set current then None else Some (current @ [normalized]))"

definition remove_entry :: "string list \<Rightarrow> string \<Rightarrow> string list option" where
  "remove_entry current normalized = (let next_list = filter (\<lambda>entry. entry \<noteq> normalized) current
     in if length next_list = length current then None else Some next_list)"

definition addChannelAllowFromStoreEntry ::
  "(string \<Rightarrow> int option) \<Rightarrow> int \<Rightarrow> string \<Rightarrow> ChannelPairingAdapter option \<Rightarrow> string \<Rightarrow> string option \<Rightarrow>
   pairing_db \<Rightarrow> (pairing_error + (bool \<times> string list)) \<times> pairing_db" where
  "addChannelAllowFromStoreEntry other updatedAt channel adapter entry accountId =
     updateAllowFromStoreEntry other updatedAt channel adapter entry accountId add_entry"

definition removeChannelAllowFromStoreEntry ::
  "(string \<Rightarrow> int option) \<Rightarrow> int \<Rightarrow> string \<Rightarrow> ChannelPairingAdapter option \<Rightarrow> string \<Rightarrow> string option \<Rightarrow>
   pairing_db \<Rightarrow> (pairing_error + (bool \<times> string list)) \<times> pairing_db" where
  "removeChannelAllowFromStoreEntry other updatedAt channel adapter entry accountId =
     updateAllowFromStoreEntry other updatedAt channel adapter entry accountId remove_entry"

section \<open>Listing and upserting requests\<close>

definition request_order :: "(string \<Rightarrow> string \<Rightarrow> int) \<Rightarrow> PairingRequest \<Rightarrow> PairingRequest \<Rightarrow> int" where
  "request_order collate left right =
     (let createdOrder = collate (pr_createdAt left) (pr_createdAt right);
          accountOrder = collate (resolvePairingRequestAccountId left) (resolvePairingRequestAccountId right)
      in if createdOrder \<noteq> 0 then createdOrder
         else if accountOrder \<noteq> 0 then accountOrder else collate (pr_id left) (pr_id right))"

definition list_state ::
  "(string \<Rightarrow> int option) \<Rightarrow> (string \<Rightarrow> string \<Rightarrow> int) \<Rightarrow> int \<Rightarrow> string option \<Rightarrow> ChannelPairingState \<Rightarrow>
   pairing_error + (PairingRequest list \<times> ChannelPairingState option)" where
  "list_state other collate nowMs accountId state =
     (let (expired, expiredRemoved) = pruneExpiredRequests other (ps_requests state) nowMs;
          (capped, cappedRemoved) = pruneExcessRequestsByAccount other expired CHANNEL_PAIRING_PENDING_MAX;
          normalizedAccountId = normalizePairingAccountId accountId
      in Inr (sort_by (\<lambda>l r. request_order collate l r \<le> 0)
                (filter (\<lambda>entry. requestMatchesAccountId entry normalizedAccountId) capped),
              if expiredRemoved \<or> cappedRemoved then Some (state\<lparr>ps_requests := capped\<rparr>) else None))"

definition listChannelPairingRequests ::
  "(string \<Rightarrow> int option) \<Rightarrow> (string \<Rightarrow> string \<Rightarrow> int) \<Rightarrow> Clock \<Rightarrow> string \<Rightarrow> string option \<Rightarrow>
   pairing_db \<Rightarrow> (pairing_error + PairingRequest list) \<times> pairing_db" where
  "listChannelPairingRequests other collate clock channel accountId =
     channel_transaction other (ck_write clock) channel (list_state other collate (ck_now clock) accountId)"

definition base_meta :: "loose_record \<Rightarrow> string_record" where
  "base_meta meta = jm_of (filter (\<lambda>(_, value). value \<noteq> [])
     (map (\<lambda>(key, value). (key, case normalizeOptionalString value of Some s \<Rightarrow> s | None \<Rightarrow> [])) meta))"

text \<open>The request is refreshed, refused because the account has enough pending ones, or added.\<close>

definition upsert_state ::
  "(string \<Rightarrow> int option) \<Rightarrow> (nat \<Rightarrow> nat) \<Rightarrow> Clock \<Rightarrow> string \<Rightarrow> string \<Rightarrow> loose_record option \<Rightarrow>
   ChannelPairingState \<Rightarrow> pairing_error + ((string \<times> bool) \<times> ChannelPairingState option)" where
  "upsert_state other draw clock requestId account params_meta state =
     (let now = toISOString (ck_iso clock); i = normalizeId requestId;
          accountId = (if normalizePairingAccountId (Some account) \<noteq> [] then normalizePairingAccountId (Some account)
                       else DEFAULT_ACCOUNT_ID);
          meta = with_account accountId (map_option base_meta params_meta);
          (requests, expiredRemoved) = pruneExpiredRequests other (ps_requests state) (ck_now clock);
          existingCodes = map (\<lambda>request. js_upper (case normalizeOptionalString (Some (pr_code request)) of
            Some c \<Rightarrow> c | None \<Rightarrow> [])) requests
      in case find (\<lambda>(_, request). pr_id request = i \<and> requestMatchesAccountId request accountId)
                (enumerate 0 requests) of
           Some (existingIndex, existing) \<Rightarrow>
             (case (case normalizeOptionalString (Some (pr_code existing)) of
                      Some c \<Rightarrow> Inr c | None \<Rightarrow> generateUniqueCode existingCodes draw) of Inl e \<Rightarrow> Inl e
              | Inr code \<Rightarrow>
                  let requests = requests[existingIndex := \<lparr>pr_id = i, pr_code = code,
                        pr_createdAt = pr_createdAt existing, pr_lastSeenAt = now, pr_meta = Some meta\<rparr>]
                  in Inr ((code, False), Some (state\<lparr>ps_requests :=
                       fst (pruneExcessRequestsByAccount other requests CHANNEL_PAIRING_PENDING_MAX)\<rparr>)))
         | None \<Rightarrow>
             let (requests, cappedRemoved) = pruneExcessRequestsByAccount other requests CHANNEL_PAIRING_PENDING_MAX;
                 accountRequestCount = length (filter (\<lambda>request. requestMatchesAccountId request accountId) requests)
             in if 0 < CHANNEL_PAIRING_PENDING_MAX \<and> CHANNEL_PAIRING_PENDING_MAX \<le> accountRequestCount
                then Inr (([], False), if expiredRemoved \<or> cappedRemoved
                            then Some (state\<lparr>ps_requests := requests\<rparr>) else None)
                else (case generateUniqueCode existingCodes draw of Inl e \<Rightarrow> Inl e
                  | Inr code \<Rightarrow> Inr ((code, True), Some (state\<lparr>ps_requests := requests @
                      [\<lparr>pr_id = i, pr_code = code, pr_createdAt = now, pr_lastSeenAt = now, pr_meta = Some meta\<rparr>]\<rparr>))))"

definition upsertChannelPairingRequest ::
  "(string \<Rightarrow> int option) \<Rightarrow> (nat \<Rightarrow> nat) \<Rightarrow> Clock \<Rightarrow> string \<Rightarrow> string \<Rightarrow> string \<Rightarrow> loose_record option \<Rightarrow>
   pairing_db \<Rightarrow> (pairing_error + (string \<times> bool)) \<times> pairing_db" where
  "upsertChannelPairingRequest other draw clock channel requestId account meta =
     channel_transaction other (ck_write clock) channel (upsert_state other draw clock requestId account meta)"

section \<open>Approving and dismissing\<close>

definition resolveChannelPairingRequestId :: "(string \<Rightarrow> string) \<Rightarrow> string \<Rightarrow> PairingRequest \<Rightarrow> string" where
  "resolveChannelPairingRequestId digest channel request =
     take 32 (digest (channel @ [CHR 0x00] @ resolvePairingRequestAccountId request @ [CHR 0x00] @
       pr_id request @ [CHR 0x00] @ pr_createdAt request))"

text \<open>The allow lists after the approval of an entry.\<close>

definition approve_entry ::
  "ChannelPairingAdapter option \<Rightarrow> string option \<Rightarrow> PairingRequest \<Rightarrow> ChannelPairingState \<Rightarrow>
   pairing_error + ChannelPairingState" where
  "approve_entry adapter accountId entry state =
     (let allowAccountId = resolveAllowFromAccountId
            (case normalizeOptionalString accountId of Some a \<Rightarrow> Some a
             | None \<Rightarrow> normalizeOptionalString (meta_accountId entry));
          approvalEntry = (case Option.bind adapter ca_resolveApprovalStoreEntry of
            Some f \<Rightarrow> f (pr_id entry) (pr_meta entry) | None \<Rightarrow> Some (pr_id entry));
          normalizedAllow = (case approvalEntry of None \<Rightarrow> [] | Some e \<Rightarrow> normalizeAllowFromInput adapter e)
      in if normalizedAllow = [] then Inr state
         else (case allow_list allowAccountId state of Inl e \<Rightarrow> Inl e
           | Inr currentAllow \<Rightarrow>
               if normalizedAllow \<in> set currentAllow then Inr state
               else Inr (state\<lparr>ps_allowFrom :=
                      jm_set allowAccountId (currentAllow @ [normalizedAllow]) (ps_allowFrom state)\<rparr>)))"

definition resolve_state ::
  "(string \<Rightarrow> int option) \<Rightarrow> int \<Rightarrow> ChannelPairingAdapter option \<Rightarrow> string option \<Rightarrow> (PairingRequest \<Rightarrow> bool) \<Rightarrow> bool \<Rightarrow>
   ChannelPairingState \<Rightarrow> pairing_error + ((string \<times> PairingRequest) option \<times> ChannelPairingState option)" where
  "resolve_state other nowMs adapter account matches approve state =
     (let (requests, removed) = pruneExpiredRequests other (ps_requests state) nowMs;
          accountId = normalizePairingAccountId account
      in case find (\<lambda>(_, request). requestMatchesAccountId request accountId \<and> matches request)
                (enumerate 0 requests) of
           None \<Rightarrow> Inr (None, if removed then Some (state\<lparr>ps_requests := requests\<rparr>) else None)
         | Some (index, entry) \<Rightarrow>
             let state = state\<lparr>ps_requests := take index requests @ drop (Suc index) requests\<rparr>
             in (case (if approve then approve_entry adapter account entry state else Inr state) of
                   Inl e \<Rightarrow> Inl e | Inr state \<Rightarrow> Inr (Some (pr_id entry, entry), Some state)))"

definition resolveChannelPairingRequest ::
  "(string \<Rightarrow> int option) \<Rightarrow> Clock \<Rightarrow> string \<Rightarrow> ChannelPairingAdapter option \<Rightarrow> string option \<Rightarrow>
   (PairingRequest \<Rightarrow> bool) \<Rightarrow> bool \<Rightarrow> pairing_db \<Rightarrow>
   (pairing_error + (string \<times> PairingRequest) option) \<times> pairing_db" where
  "resolveChannelPairingRequest other clock channel adapter accountId matches approve =
     channel_transaction other (ck_write clock) channel
       (resolve_state other (ck_now clock) adapter accountId matches approve)"

definition approveChannelPairingCode ::
  "(string \<Rightarrow> int option) \<Rightarrow> Clock \<Rightarrow> string \<Rightarrow> ChannelPairingAdapter option \<Rightarrow> string \<Rightarrow> string option \<Rightarrow>
   pairing_db \<Rightarrow> (pairing_error + (string \<times> PairingRequest) option) \<times> pairing_db" where
  "approveChannelPairingCode other clock channel adapter code accountId db =
     (let code = js_upper (case normalizeNullableString (Some code) of Some c \<Rightarrow> c | None \<Rightarrow> [])
      in if code = [] then (Inr None, db)
         else resolveChannelPairingRequest other clock channel adapter accountId
                (\<lambda>request. js_upper (pr_code request) = code) True db)"

definition approveChannelPairingRequest ::
  "(string \<Rightarrow> int option) \<Rightarrow> (string \<Rightarrow> string) \<Rightarrow> Clock \<Rightarrow> string \<Rightarrow> ChannelPairingAdapter option \<Rightarrow> string \<Rightarrow> string \<Rightarrow>
   pairing_db \<Rightarrow> (pairing_error + (string \<times> PairingRequest) option) \<times> pairing_db" where
  "approveChannelPairingRequest other digest clock channel adapter requestId accountId db =
     (case normalizeOptionalString (Some requestId) of None \<Rightarrow> (Inr None, db)
      | Some requestId \<Rightarrow> resolveChannelPairingRequest other clock channel adapter (Some accountId)
          (\<lambda>request. resolveChannelPairingRequestId digest channel request = requestId) True db)"

definition dismissChannelPairingRequest ::
  "(string \<Rightarrow> int option) \<Rightarrow> (string \<Rightarrow> string) \<Rightarrow> Clock \<Rightarrow> string \<Rightarrow> string \<Rightarrow> string \<Rightarrow>
   pairing_db \<Rightarrow> (pairing_error + (string \<times> PairingRequest) option) \<times> pairing_db" where
  "dismissChannelPairingRequest other digest clock channel requestId accountId db =
     (case normalizeOptionalString (Some requestId) of None \<Rightarrow> (Inr None, db)
      | Some requestId \<Rightarrow> resolveChannelPairingRequest other clock channel None (Some accountId)
          (\<lambda>request. resolveChannelPairingRequestId digest channel request = requestId) False db)"

end
