(* ===== verification/Pairing_Laws.thy ===== *)
theory Pairing_Laws
  imports Pairing_Store
begin

text \<open>
  What is stored is the image of a well-formed state: the tables of a channel are exactly the rows of a
  list of requests and of allow lists (\<open>stored\<close>). Reading gives this state back up to the order of the
  requests, writing a well-formed state never violates a primary key, and the locale \<open>channel_update\<close>
  carries this to every transaction whose update keeps the state well formed.
\<close>

section \<open>Lists by key\<close>

lemma jm_list_push [simp]: "jm_list (jm_push k v m) k' = (if k' = k then jm_list m k @ [v] else jm_list m k')"
  by (simp add: jm_list_def jm_push_def)

lemma jm_push_ok [simp, intro]: "jm_ok m \<Longrightarrow> jm_ok (jm_push k v m)"
  by (simp add: jm_push_def)

lemma jm_push_keys: "fst ` set (jm_push k v m) = insert k (fst ` set m)"
  by (simp add: jm_push_def jm_set_keys)

lemma jm_list_set [simp]: "jm_list (jm_set k l m) k' = (if k' = k then l else jm_list m k')"
  by (simp add: jm_list_def)

lemma jm_list_member: "jm_ok m \<Longrightarrow> (k, l) \<in> set m \<Longrightarrow> jm_list m k = l"
  by (simp add: jm_list_def jm_ok_get)

text \<open>Pushing all values of a list under their keys files each under its key, in order.\<close>

lemma push_all:
  "jm_list (foldl (\<lambda>m x. jm_push (f x) (g x) m) m xs) k = jm_list m k @ map g (filter (\<lambda>x. f x = k) xs)"
  by (induction xs arbitrary: m) simp_all

lemma push_all_ok: "jm_ok m \<Longrightarrow> jm_ok (foldl (\<lambda>m x. jm_push (f x) (g x) m) m xs)"
  by (induction xs arbitrary: m) simp_all

lemma push_all_keys:
  "fst ` set (foldl (\<lambda>m x. jm_push (f x) (g x) m) m xs) = fst ` set m \<union> f ` set xs"
  by (induction xs arbitrary: m) (auto simp: jm_push_keys)

lemma jm_set_same_value: "jm_ok m \<Longrightarrow> jm_get m k = Some v \<Longrightarrow> jm_set k v m = m"
  by (induction k v m rule: jm_set.induct) (auto simp: jm_ok_def split: if_splits)

lemma jm_get_filter: "jm_get (filter (\<lambda>e. P (fst e)) m) k = (if P k then jm_get m k else None)"
  by (induction m) auto

section \<open>Well-formed requests\<close>

definition account_ok :: "string \<Rightarrow> bool" where
  "account_ok a \<longleftrightarrow> a \<noteq> [] \<and> trimmed a \<and> js_lower a = a"

definition text_ok :: "string \<Rightarrow> bool" where
  "text_ok s \<longleftrightarrow> s \<noteq> [] \<and> trimmed s"

definition meta_ok :: "string_record \<Rightarrow> bool" where
  "meta_ok m \<longleftrightarrow> jm_ok m \<and> (\<forall>e \<in> set m. text_ok (snd e)) \<and>
     (\<exists>a. jm_get m ''accountId'' = Some a \<and> account_ok a)"

definition code_ok :: "string \<Rightarrow> bool" where
  "code_ok c \<longleftrightarrow> length c = PAIRING_CODE_LENGTH \<and> set c \<subseteq> set PAIRING_CODE_ALPHABET"

definition request_ok :: "(string \<Rightarrow> int option) \<Rightarrow> PairingRequest \<Rightarrow> bool" where
  "request_ok other r \<longleftrightarrow> text_ok (pr_id r) \<and> code_ok (pr_code r) \<and> text_ok (pr_createdAt r) \<and>
     text_ok (pr_lastSeenAt r) \<and> parseDateStringTimestampMs other (pr_createdAt r) \<noteq> None \<and>
     parseDateStringTimestampMs other (pr_lastSeenAt r) \<noteq> None \<and> (\<exists>m. pr_meta r = Some m \<and> meta_ok m)"

text \<open>What is left of a request after writing and reading it.\<close>

definition clean :: "PairingRequest \<Rightarrow> PairingRequest" where
  "clean r = r\<lparr>pr_meta := map_option (filter (\<lambda>e. fst e \<noteq> ''__proto__'')) (pr_meta r)\<rparr>"

lemma text_ok_normal [simp]: "text_ok s \<Longrightarrow> normalizeOptionalString (Some s) = Some s"
  by (simp add: text_ok_def js_trim_trimmed)

lemma account_ok_resolve: "account_ok (resolveAllowFromAccountId a)"
proof -
  have default: "account_ok DEFAULT_ACCOUNT_ID" by code_simp
  have "account_ok (js_lower (js_trim s))" if "js_trim s \<noteq> []" for s
    using that trimmed_js_trim [of s] by (simp add: account_ok_def js_trim_eq_self_iff [symmetric] js_trim_lower)
  with default show ?thesis
    by (cases a) (auto simp: resolveAllowFromAccountId_def Let_def)
qed

lemma account_ok_resolved [simp]: "account_ok a \<Longrightarrow> resolveAllowFromAccountId (Some a) = a"
  by (simp add: account_ok_def resolveAllowFromAccountId_def Let_def js_trim_trimmed)

lemma account_ok_text [simp]: "account_ok a \<Longrightarrow> text_ok a"
  by (simp add: account_ok_def text_ok_def)

lemma code_ok_text [simp]:
  assumes "code_ok c"
  shows "text_ok c" "js_upper c = c"
proof -
  have letters: "\<forall>x \<in> set PAIRING_CODE_ALPHABET. \<not> js_space x \<and> js_upper [x] = [x]"
    by (simp add: PAIRING_CODE_ALPHABET_def js_space_def js_upper_def)
  with assms have "no_space c" by (auto simp: code_ok_def no_space_def)
  moreover have "c \<noteq> []" using assms by (auto simp: code_ok_def PAIRING_CODE_LENGTH_def)
  ultimately show "text_ok c" by (simp add: text_ok_def no_space_trimmed)
  have "js_upper (x # s) = js_upper [x] @ js_upper s" for x s by (simp add: js_upper_def)
  then show "js_upper c = c"
    using assms letters unfolding code_ok_def
  proof (induction c arbitrary: )
    case (Cons x s)
    have "set s \<subseteq> set PAIRING_CODE_ALPHABET \<Longrightarrow> js_upper s = s" for s
      using letters \<open>\<And>x s. js_upper (x # s) = js_upper [x] @ js_upper s\<close>
      by (induction s) (auto simp: js_upper_def)
    with Cons.prems show ?case by blast
  qed (simp add: js_upper_def)
qed

section \<open>Normalising keeps well-formed requests\<close>

lemma normalize_meta_fold:
  "distinct (map fst (acc @ m)) \<Longrightarrow> \<forall>e \<in> set m. text_ok (snd e) \<Longrightarrow>
   foldl (\<lambda>out (key, entry). case normalizeOptionalString entry of
       Some normalized \<Rightarrow> if key = ''__proto__'' then out else jm_set key normalized out
     | None \<Rightarrow> out) acc (loose m) = acc @ filter (\<lambda>e. fst e \<noteq> ''__proto__'') m"
proof (induction m arbitrary: acc)
  case (Cons e m)
  obtain k v where e: "e = (k, v)" by (cases e)
  have "k \<notin> fst ` set acc" using Cons.prems(1) e by auto
  moreover have "distinct (map fst (acc @ m))" using Cons.prems(1) e by auto
  ultimately show ?case
    using Cons.prems Cons.IH [of "acc @ [(k, v)]"] Cons.IH [of acc]
    by (auto simp: e loose_def jm_set_fresh simp del: normalizeOptionalString_Some)
qed (simp add: loose_def)

lemma normalize_meta:
  assumes "meta_ok m"
  shows "normalizePersistedPairingMeta (loose m) = Some (filter (\<lambda>e. fst e \<noteq> ''__proto__'') m)"
proof -
  from assms obtain a where "jm_get m ''accountId'' = Some a" by (auto simp: meta_ok_def)
  then have "(''accountId'', a) \<in> set (filter (\<lambda>e. fst e \<noteq> ''__proto__'') m)"
    by (simp add: map_of_SomeD)
  then have "filter (\<lambda>e. fst e \<noteq> ''__proto__'') m \<noteq> []" by force
  with normalize_meta_fold [of "[]" m] assms show ?thesis
    by (simp add: normalizePersistedPairingMeta_def meta_ok_def jm_ok_def Let_def)
qed

lemma meta_ok_clean: "meta_ok m \<Longrightarrow> meta_ok (filter (\<lambda>e. fst e \<noteq> ''__proto__'') m)"
  by (auto simp: meta_ok_def jm_ok_def distinct_map_filter jm_get_filter [of "\<lambda>k. k \<noteq> ''__proto__''"])

lemma clean_clean [simp]: "clean (clean r) = clean r"
  by (cases "pr_meta r") (simp_all add: clean_def)

lemma clean_sel [simp]:
  "pr_id (clean r) = pr_id r" "pr_code (clean r) = pr_code r" "pr_createdAt (clean r) = pr_createdAt r"
  "pr_lastSeenAt (clean r) = pr_lastSeenAt r"
  by (simp_all add: clean_def)

lemma request_ok_clean [simp]: "request_ok other r \<Longrightarrow> request_ok other (clean r)"
  by (auto simp: request_ok_def clean_def meta_ok_clean)

lemma request_account:
  assumes "request_ok other r"
  shows "account_ok (resolvePairingRequestAccountId r)"
    "meta_accountId r = Some (resolvePairingRequestAccountId r)"
    "resolvePairingRequestAccountId (clean r) = resolvePairingRequestAccountId r"
proof -
  from assms obtain m a where m: "pr_meta r = Some m" "meta_ok m" "jm_get m ''accountId'' = Some a" "account_ok a"
    by (auto simp: request_ok_def meta_ok_def)
  then have "jm_get (filter (\<lambda>e. fst e \<noteq> ''__proto__'') m) ''accountId'' = Some a"
    by (simp add: jm_get_filter [of "\<lambda>k. k \<noteq> ''__proto__''"])
  with m show "account_ok (resolvePairingRequestAccountId r)"
    "meta_accountId r = Some (resolvePairingRequestAccountId r)"
    "resolvePairingRequestAccountId (clean r) = resolvePairingRequestAccountId r"
    by (simp_all add: resolvePairingRequestAccountId_def meta_accountId_def Let_def account_ok_def [of a] clean_def)
qed

lemma normalize_request:
  assumes "request_ok other r"
  shows "normalizePersistedPairingRequest other r = Some (clean r)"
proof -
  from assms obtain m where "pr_meta r = Some m" "meta_ok m" by (auto simp: request_ok_def)
  with assms show ?thesis
    by (simp add: normalizePersistedPairingRequest_def request_ok_def normalize_meta clean_def Let_def
        del: normalizeOptionalString_Some)
qed

text \<open>A row that was written is read back as the request it was written for.\<close>

lemma read_written:
  assumes "request_ok other r" "clean r = r"
  shows "read_request other (request_row_of k r) = Some r"
proof -
  from assms(1) obtain m where m: "pr_meta r = Some m" "meta_ok m" by (auto simp: request_ok_def)
  have fixed: "filter (\<lambda>e. fst e \<noteq> ''__proto__'') m = m"
    using assms(2) m(1) by (cases r) (simp add: clean_def)
  note acc = request_account [OF assms(1)]
  have "jm_get m ''accountId'' = Some (resolvePairingRequestAccountId r)"
    using acc(2) m(1) by (simp add: meta_accountId_def)
  with m(2) have "with_account (resolvePairingRequestAccountId r) (Some m) = m"
    by (simp add: with_account_def jm_set_same_value meta_ok_def)
  with m fixed acc(1) have "read_request other (request_row_of k r) = normalizePersistedPairingRequest other
      \<lparr>pr_id = pr_id r, pr_code = pr_code r, pr_createdAt = pr_createdAt r,
       pr_lastSeenAt = pr_lastSeenAt r, pr_meta = Some m\<rparr>"
    by (simp add: read_request_def request_row_of_def normalize_meta Let_def)
  also have "\<lparr>pr_id = pr_id r, pr_code = pr_code r, pr_createdAt = pr_createdAt r,
      pr_lastSeenAt = pr_lastSeenAt r, pr_meta = Some m\<rparr> = r"
    using m(1) by (cases r) simp
  finally show ?thesis using normalize_request [OF assms(1)] assms(2) by simp
qed

section \<open>Well-formed states and what is stored of them\<close>

definition account_count :: "string \<Rightarrow> PairingRequest list \<Rightarrow> nat" where
  "account_count a rs = length (filter (\<lambda>r. resolvePairingRequestAccountId r = a) rs)"

definition entry_ok :: "string \<Rightarrow> bool" where
  "entry_ok e \<longleftrightarrow> text_ok e \<and> e \<noteq> ''*''"

definition requests_ok :: "(string \<Rightarrow> int option) \<Rightarrow> PairingRequest list \<Rightarrow> bool" where
  "requests_ok other rs \<longleftrightarrow> (\<forall>r \<in> set rs. request_ok other r) \<and>
     distinct (map (\<lambda>r. (resolvePairingRequestAccountId r, pr_id r)) rs) \<and> distinct (map pr_code rs) \<and>
     (\<forall>a. account_count a rs \<le> CHANNEL_PAIRING_PENDING_MAX)"

definition allow_ok :: "(string, string list) jsmap \<Rightarrow> bool" where
  "allow_ok m \<longleftrightarrow> jm_ok m \<and> (\<forall>e \<in> set m. account_ok (fst e) \<and> \<not> inherited_member (fst e) \<and>
     distinct (snd e) \<and> (\<forall>x \<in> set (snd e). entry_ok x))"

definition state_ok :: "(string \<Rightarrow> int option) \<Rightarrow> ChannelPairingState \<Rightarrow> bool" where
  "state_ok other S \<longleftrightarrow> requests_ok other (ps_requests S) \<and> allow_ok (ps_allowFrom S)"

definition requests_of :: "string \<Rightarrow> pairing_db \<Rightarrow> request_row list" where
  "requests_of k db = filter (\<lambda>r. rr_channel_key r = k) (db_requests db)"

definition allows_of :: "string \<Rightarrow> pairing_db \<Rightarrow> allow_row list" where
  "allows_of k db = filter (\<lambda>r. ar_channel_key r = k) (db_allow db)"

definition stored :: "string \<Rightarrow> ChannelPairingState \<Rightarrow> pairing_db \<Rightarrow> bool" where
  "stored k S db \<longleftrightarrow> requests_of k db = map (request_row_of k) (ps_requests S) \<and>
     (\<exists>t. allows_of k db = concat (map (allow_rows_of k t) (ps_allowFrom S)))"

definition db_ok :: "(string \<Rightarrow> int option) \<Rightarrow> pairing_db \<Rightarrow> bool" where
  "db_ok other db \<longleftrightarrow> (\<forall>k. \<exists>S. state_ok other S \<and> map clean (ps_requests S) = ps_requests S \<and> stored k S db)"

text \<open>The two are the same to a reader: the same requests in some order, the same allow lists.\<close>

definition same_state :: "ChannelPairingState \<Rightarrow> ChannelPairingState \<Rightarrow> bool" where
  "same_state S T \<longleftrightarrow> mset (ps_requests S) = mset (ps_requests T) \<and>
     jm_list (ps_allowFrom S) = jm_list (ps_allowFrom T)"

lemma distinct_sub_mset:
  assumes "mset xs \<subseteq># mset ys" "distinct ys"
  shows "distinct xs"
proof -
  obtain zs where "mset zs = mset ys - mset xs" using ex_mset by blast
  with assms(1) have "mset ys = mset (xs @ zs)" by simp
  with assms(2) have "distinct (xs @ zs)" using mset_eq_imp_distinct_iff by blast
  then show ?thesis by simp
qed

lemma requests_ok_sub:
  assumes "requests_ok other rs" "mset xs \<subseteq># mset rs"
  shows "requests_ok other xs"
proof -
  have image: "image_mset f (mset xs) \<subseteq># image_mset f (mset rs)" for f :: "PairingRequest \<Rightarrow> 'b"
    using assms(2) by (rule image_mset_subseteq_mono)
  have distinct: "distinct (map f xs)" if "distinct (map f rs)" for f :: "PairingRequest \<Rightarrow> 'b"
    using that image [of f] distinct_sub_mset [of "map f xs" "map f rs"] by simp
  have "account_count a xs \<le> account_count a rs" for a
    using size_mset_mono [OF multiset_filter_mono [OF assms(2), of "\<lambda>r. resolvePairingRequestAccountId r = a"]]
    by (simp add: account_count_def flip: mset_filter)
  moreover have "set xs \<subseteq> set rs" using assms(2) by (metis set_mset_mono set_mset_mset)
  ultimately show ?thesis
    using assms(1) distinct unfolding requests_ok_def by (meson le_trans subsetD)
qed

lemma requests_ok_filter: "requests_ok other rs \<Longrightarrow> requests_ok other (filter P rs)"
  by (erule requests_ok_sub) (simp add: multiset_filter_subset)

lemma stored_entries_ok [simp]:
  assumes "\<forall>e \<in> set es. entry_ok e" "distinct es"
  shows "stored_entries es = es"
proof -
  have trim: "map js_trim es = es"
    using assms(1) by (intro map_idI) (simp add: entry_ok_def text_ok_def js_trim_trimmed)
  moreover have "filter (\<lambda>e. e \<noteq> [] \<and> e \<noteq> ''*'') es = es" "filter (\<lambda>e. e \<noteq> []) es = es"
    using assms(1) by (auto simp: entry_ok_def text_ok_def filter_id_conv)
  ultimately show ?thesis
    using assms(2)
    by (simp add: stored_entries_def dedupePreserveOrder_def normalizeStringEntries_def uniqueStrings_def
        distinct_remdups_id)
qed

section \<open>Reading what is stored\<close>

lemma map_filter_all: "\<forall>x \<in> set xs. f x = Some (g x) \<Longrightarrow> List.map_filter f xs = map g xs"
  by (induction xs) (simp_all add: map_filter_simps)

lemma map_filter_image: "\<forall>x \<in> set xs. f (g x) = Some x \<Longrightarrow> List.map_filter f (map g xs) = xs"
  by (induction xs) (simp_all add: map_filter_simps)

lemma mset_map_filter: "mset xs = mset ys \<Longrightarrow> mset (List.map_filter f xs) = mset (List.map_filter f ys)"
  unfolding List.map_filter_def mset_map mset_filter by simp

lemma push_allow_all:
  assumes "\<forall>r \<in> set rs. account_ok (ar_account_id r) \<and> \<not> inherited_member (ar_account_id r)"
  shows "foldl (\<lambda>acc row. push_allow row acc) (Inr m) rs =
    Inr (foldl (\<lambda>m r. jm_push (ar_account_id r) (ar_entry r) m) m rs)"
  using assms by (induction rs arbitrary: m) (simp_all add: push_allow_def Let_def)

lemma allow_rows_entries: "map ar_entry (allow_rows_of k t e) = stored_entries (snd e)"
  by (simp add: allow_rows_of_def case_prod_beta comp_def)

lemma allow_rows_account:
  "account_ok (fst e) \<Longrightarrow> r \<in> set (allow_rows_of k t e) \<Longrightarrow> ar_account_id r = fst e \<and> ar_channel_key r = k"
  by (auto simp: allow_rows_of_def)

text \<open>The rows of one account come back in their order.\<close>

lemma allow_rows_sorted:
  assumes "account_ok (fst e)"
  shows "sort_key (\<lambda>r. (ar_account_id r, ar_sort_order r, ar_entry r)) (allow_rows_of k t e) = allow_rows_of k t e"
proof (rule sort_key_id_if_sorted)
  have "sorted_wrt (\<lambda>r s. ar_sort_order r < ar_sort_order s) (allow_rows_of k t e)"
    by (simp add: allow_rows_of_def sorted_wrt_map case_prod_beta sorted_wrt_iff_nth_less nth_enumerate_eq)
  then have "sorted_wrt (\<lambda>r s. (ar_account_id r, ar_sort_order r, ar_entry r) \<le>
      (ar_account_id s, ar_sort_order s, ar_entry s)) (allow_rows_of k t e)"
    by (rule sorted_wrt_mono_rel [rotated]) (use allow_rows_account [OF assms] in auto)
  then show "sorted (map (\<lambda>r. (ar_account_id r, ar_sort_order r, ar_entry r)) (allow_rows_of k t e))"
    by (simp add: sorted_map)
qed

lemma filter_account_rows:
  assumes "allow_ok m"
  shows "filter (\<lambda>r. ar_account_id r = a) (concat (map (allow_rows_of k t) m)) =
    (case jm_get m a of Some es \<Rightarrow> allow_rows_of k t (a, es) | None \<Rightarrow> [])"
proof -
  have "jm_ok m" "\<forall>e \<in> set m. account_ok (fst e)" using assms by (simp_all add: allow_ok_def)
  then show ?thesis
  proof (induction m)
    case (Cons e m)
    have own: "filter (\<lambda>r. ar_account_id r = a) (allow_rows_of k t e) = (if fst e = a then allow_rows_of k t e else [])"
      using Cons.prems(2) allow_rows_account [of e _ k t] by (auto simp: filter_id_conv filter_empty_conv)
    have "jm_get m a = None" if "fst e = a"
      using Cons.prems(1) that by (auto simp: jm_ok_def map_of_eq_None_iff)
    with own Cons show ?case by (cases e) (auto simp: jm_ok_def)
  qed simp
qed

lemma read_stored:
  assumes "state_ok other S" "map clean (ps_requests S) = ps_requests S" "stored k S db" "safeChannelKey ch = Inr k"
  shows "\<exists>T. readChannelPairingStateFromDatabase other ch db = Inr T \<and> state_ok other T \<and>
    map clean (ps_requests T) = ps_requests T \<and> same_state T S"
proof -
  let ?rs = "sort_key (\<lambda>r. (rr_created_at r, rr_account_id r, rr_request_id r)) (requests_of k db)"
  let ?as = "sort_key (\<lambda>r. (ar_account_id r, ar_sort_order r, ar_entry r)) (allows_of k db)"
  let ?reqs = "List.map_filter (read_request other) ?rs"
  let ?allow = "foldl (\<lambda>m r. jm_push (ar_account_id r) (ar_entry r) m) [] ?as"
  from assms(1) have ok: "requests_ok other (ps_requests S)" "allow_ok (ps_allowFrom S)"
    by (simp_all add: state_ok_def)
  have clean: "clean r = r" if "r \<in> set (ps_requests S)" for r
    using assms(2) that by (metis map_eq_conv map_ident)
  from assms(3) obtain t where rows: "requests_of k db = map (request_row_of k) (ps_requests S)"
      "allows_of k db = concat (map (allow_rows_of k t) (ps_allowFrom S))"
    by (auto simp: stored_def)
  have "List.map_filter (read_request other) (requests_of k db) = ps_requests S"
  proof -
    have "\<forall>r \<in> set (ps_requests S). read_request other (request_row_of k r) = Some r"
      using ok(1) clean read_written by (auto simp: requests_ok_def)
    then show ?thesis by (simp add: rows(1) map_filter_image)
  qed
  then have reqs: "mset ?reqs = mset (ps_requests S)"
    using mset_map_filter [of ?rs "requests_of k db" "read_request other"] by simp
  have accounts: "account_ok (ar_account_id r) \<and> \<not> inherited_member (ar_account_id r)" if "r \<in> set ?as" for r
    using that ok(2) allow_rows_account by (fastforce simp: rows(2) allow_ok_def)
  have entries: "jm_list ?allow a = jm_list (ps_allowFrom S) a" for a
  proof (cases "jm_get (ps_allowFrom S) a")
    case None
    then show ?thesis using ok(2)
      by (simp add: push_all filter_sort rows(2) filter_account_rows) (simp add: jm_list_def)
  next
    case (Some es)
    have e: "account_ok a" "distinct es" "\<forall>x \<in> set es. entry_ok x"
      using ok(2) map_of_SomeD [OF Some] by (auto simp: allow_ok_def)
    have "map ar_entry (filter (\<lambda>r. ar_account_id r = a) ?as) = map ar_entry (allow_rows_of k t (a, es))"
      using ok(2) Some e(1) allow_rows_sorted [of "(a, es)"]
      by (simp add: filter_sort rows(2) filter_account_rows)
    with e show ?thesis
      by (simp add: push_all allow_rows_entries) (simp add: jm_list_def Some)
  qed
  have allow: "allow_ok ?allow"
    unfolding allow_ok_def
  proof (intro conjI ballI)
    show jm: "jm_ok ?allow" by (intro push_all_ok) simp
    fix e assume e: "e \<in> set ?allow"
    have "fst e \<in> ar_account_id ` set ?as" using e push_all_keys [of ar_account_id ar_entry "[]" ?as] by auto
    with accounts show "account_ok (fst e)" "\<not> inherited_member (fst e)" by auto
    have "snd e = jm_list (ps_allowFrom S) (fst e)"
      using jm_list_member [OF jm, of "fst e" "snd e"] e entries by simp
    moreover have "distinct (jm_list (ps_allowFrom S) a) \<and> (\<forall>x \<in> set (jm_list (ps_allowFrom S) a). entry_ok x)" for a
      using ok(2) by (cases "jm_get (ps_allowFrom S) a") (fastforce simp: jm_list_def allow_ok_def dest: map_of_SomeD)+
    ultimately show "distinct (snd e)" "x \<in> set (snd e) \<Longrightarrow> entry_ok x" for x by auto
  qed
  have "readChannelPairingStateFromDatabase other ch db = Inr \<lparr>ps_requests = ?reqs, ps_allowFrom = ?allow\<rparr>"
    using accounts
    by (simp add: readChannelPairingStateFromDatabase_def assms(4) push_allow_all requests_of_def [symmetric]
        allows_of_def [symmetric] Let_def)
  moreover have "requests_ok other ?reqs"
    using requests_ok_sub [OF ok(1)] reqs by simp
  moreover have "map clean ?reqs = ?reqs"
    using clean reqs by (intro map_idI) (metis set_mset_mset)
  ultimately show ?thesis
    using allow reqs entries by (auto simp: state_ok_def same_state_def)
qed

section \<open>Writing a well-formed state\<close>

lemma insert_rows_new:
  assumes "\<And>r s. same r s \<longleftrightarrow> key r = key s" "distinct (map key rs)" "\<forall>r \<in> set rs. \<forall>s \<in> set table. key r \<noteq> key s"
  shows "insert_rows same rs table = Inr (table @ rs)"
  using assms(2,3)
proof (induction rs arbitrary: table)
  case (Cons r rs)
  have "\<not> list_ex (same r) table" using Cons.prems by (auto simp: list_ex_iff assms(1))
  moreover have "insert_rows same rs (table @ [r]) = Inr ((table @ [r]) @ rs)"
    using Cons.prems by (intro Cons.IH) (auto simp: image_iff)
  ultimately show ?case by simp
qed simp

lemma distinct_concat_keys:
  assumes "distinct (map f es)" "\<forall>e \<in> set es. distinct (map g (h e))"
    "\<forall>e \<in> set es. \<forall>r \<in> set (h e). \<phi> (g r) = f e"
  shows "distinct (map g (concat (map h es)))"
  using assms
proof (induction es)
  case (Cons e es)
  have "g r \<noteq> g s" if "r \<in> set (h e)" "s \<in> set (h x)" "x \<in> set es" for r s x
    using Cons.prems that by (metis (no_types, lifting) distinct.simps(2) image_eqI list.set_intros list.set_map list.simps(9))
  with Cons show ?case by auto
qed simp

text \<open>The key of an allow row, without the channel.\<close>

definition allow_key :: "allow_row \<Rightarrow> string \<times> string" where
  "allow_key r = (ar_account_id r, ar_entry r)"

lemma allow_rows_distinct:
  assumes "allow_ok m"
  shows "distinct (map allow_key (concat (map (allow_rows_of k t) m)))"
proof (rule distinct_concat_keys [where f = fst and \<phi> = fst])
  show "distinct (map fst m)" using assms by (simp add: allow_ok_def jm_ok_def)
  show "\<forall>e \<in> set m. \<forall>r \<in> set (allow_rows_of k t e). fst (allow_key r) = fst e"
    using assms allow_rows_account by (auto simp: allow_ok_def allow_key_def)
  show "\<forall>e \<in> set m. distinct (map allow_key (allow_rows_of k t e))"
  proof
    fix e assume e: "e \<in> set m"
    then have "distinct (map ar_entry (allow_rows_of k t e))"
      using assms by (simp add: allow_rows_entries allow_ok_def)
    then show "distinct (map allow_key (allow_rows_of k t e))"
      by (auto simp: distinct_map inj_on_def allow_key_def)
  qed
qed

text \<open>The state as it comes back.\<close>

definition clean_state :: "ChannelPairingState \<Rightarrow> ChannelPairingState" where
  "clean_state S = S\<lparr>ps_requests := map clean (ps_requests S)\<rparr>"

lemma requests_ok_clean:
  assumes "requests_ok other rs"
  shows "requests_ok other (map clean rs)"
proof -
  have acc: "resolvePairingRequestAccountId (clean r) = resolvePairingRequestAccountId r" if "r \<in> set rs" for r
    using assms that request_account(3) by (auto simp: requests_ok_def)
  have "map (\<lambda>r. (resolvePairingRequestAccountId r, pr_id r)) (map clean rs) =
      map (\<lambda>r. (resolvePairingRequestAccountId r, pr_id r)) rs"
    unfolding map_map by (rule map_cong [OF refl]) (simp add: acc)
  moreover have "account_count a (map clean rs) = account_count a rs" for a
    using acc by (simp add: account_count_def filter_map comp_def cong: filter_cong)
  moreover have "map pr_code (map clean rs) = map pr_code rs" by simp
  moreover have "\<forall>r \<in> set (map clean rs). request_ok other r" using assms by (simp add: requests_ok_def)
  ultimately show ?thesis using assms unfolding requests_ok_def by metis
qed

lemma state_ok_clean: "state_ok other S \<Longrightarrow> state_ok other (clean_state S)"
  by (simp add: state_ok_def clean_state_def requests_ok_clean)

text \<open>A request that cannot be normalised is not written.\<close>

definition persistent :: "(string \<Rightarrow> int option) \<Rightarrow> ChannelPairingState \<Rightarrow> ChannelPairingState" where
  "persistent other S = S\<lparr>ps_requests :=
     filter (\<lambda>r. normalizePersistedPairingRequest other r \<noteq> None) (ps_requests S)\<rparr>"

lemma persistent_ok: "state_ok other S \<Longrightarrow> persistent other S = S"
  by (cases S) (auto simp: persistent_def state_ok_def requests_ok_def normalize_request filter_id_conv)

lemma persistent_rows:
  assumes "requests_ok other (ps_requests (persistent other S))"
  shows "List.map_filter (normalizePersistedPairingRequest other) (ps_requests S) =
    map clean (ps_requests (persistent other S))"
proof -
  have "List.map_filter f xs = List.map_filter f (filter (\<lambda>x. f x \<noteq> None) xs)"
    for f :: "PairingRequest \<Rightarrow> PairingRequest option" and xs
    by (induction xs) (auto simp: map_filter_simps)
  then show ?thesis
    using assms map_filter_all [of "ps_requests (persistent other S)" "normalizePersistedPairingRequest other" clean]
    by (simp add: persistent_def requests_ok_def normalize_request)
qed

theorem write_state:
  assumes "state_ok other (persistent other S)" "db_ok other db" "safeChannelKey ch = Inr k"
  shows "\<exists>db'. writeChannelPairingStateToDatabase other t ch S db = Inr db' \<and> db_ok other db' \<and>
    stored k (clean_state (persistent other S)) db' \<and>
    (\<forall>j. j \<noteq> k \<longrightarrow> requests_of j db' = requests_of j db \<and> allows_of j db' = allows_of j db)"
proof -
  let ?table = "filter (\<lambda>r. rr_channel_key r \<noteq> k) (db_requests db)"
  let ?allows = "filter (\<lambda>r. ar_channel_key r \<noteq> k) (db_allow db)"
  let ?rs = "map (request_row_of k) (map clean (ps_requests (persistent other S)))"
  let ?as = "concat (map (allow_rows_of k t) (ps_allowFrom S))"
  let ?db = "\<lparr>db_requests = ?table @ ?rs, db_allow = ?allows @ ?as\<rparr>"
  from assms(1) have ok: "requests_ok other (ps_requests (persistent other S))" "allow_ok (ps_allowFrom S)"
    by (simp_all add: state_ok_def persistent_def)
  have channel: "ar_channel_key r = k" if "r \<in> set ?as" for r
    using that by (auto simp: allow_rows_of_def)
  note norm = persistent_rows [OF ok(1)]
  have requests: "insert_rows same_request_key ?rs ?table = Inr (?table @ ?rs)"
  proof (rule insert_rows_new [where key = "\<lambda>r. (rr_channel_key r, rr_account_id r, rr_request_id r)"])
    have "distinct (map (\<lambda>r. (resolvePairingRequestAccountId r, pr_id r)) (map clean (ps_requests (persistent other S))))"
      using requests_ok_clean [OF ok(1)] by (simp add: requests_ok_def)
    then show "distinct (map (\<lambda>r. (rr_channel_key r, rr_account_id r, rr_request_id r)) ?rs)"
      by (simp add: comp_def request_row_of_def distinct_map inj_on_def)
  qed (auto simp: same_request_key_def request_row_of_def)
  have allows: "insert_rows same_allow_key ?as ?allows = Inr (?allows @ ?as)"
  proof (rule insert_rows_new [where key = "\<lambda>r. (ar_channel_key r, allow_key r)"])
    have "distinct (map allow_key ?as)" by (rule allow_rows_distinct [OF ok(2)])
    then show "distinct (map (\<lambda>r. (ar_channel_key r, allow_key r)) ?as)"
      by (auto simp: distinct_map inj_on_def)
  qed (use channel in \<open>auto simp: same_allow_key_def allow_key_def\<close>)
  have written: "writeChannelPairingStateToDatabase other t ch S db = Inr ?db"
    using requests allows by (simp add: writeChannelPairingStateToDatabase_def assms(3) norm Let_def)
  have others: "requests_of j ?db = requests_of j db \<and> allows_of j ?db = allows_of j db" if "j \<noteq> k" for j
    using that channel by (auto simp: requests_of_def allows_of_def request_row_of_def filter_empty_conv
        filter_map intro!: filter_cong)
  have "requests_of k ?db = ?rs" "allows_of k ?db = ?as"
    using channel by (auto simp: requests_of_def allows_of_def request_row_of_def filter_id_conv filter_map comp_def
        intro: filter_True)
  then have own: "stored k (clean_state (persistent other S)) ?db"
    by (auto simp: stored_def clean_state_def persistent_def)
  have "db_ok other ?db"
    unfolding db_ok_def
  proof
    fix j
    show "\<exists>S. state_ok other S \<and> map clean (ps_requests S) = ps_requests S \<and> stored j S ?db"
    proof (cases "j = k")
      case True
      have "map clean (ps_requests (clean_state T)) = ps_requests (clean_state T)" for T
        by (simp add: clean_state_def comp_def)
      with own True state_ok_clean [OF assms(1)] show ?thesis by blast
    next
      case False
      then show ?thesis using assms(2) others [OF False] unfolding db_ok_def stored_def by metis
    qed
  qed
  with written own others show ?thesis by blast
qed

section \<open>Transactions\<close>

text \<open>What the store holds for a channel.\<close>

definition view :: "(string \<Rightarrow> int option) \<Rightarrow> string \<Rightarrow> pairing_db \<Rightarrow> ChannelPairingState" where
  "view other ch db = (case readChannelPairingStateFromDatabase other ch db of
     Inr S \<Rightarrow> S | Inl e \<Rightarrow> \<lparr>ps_requests = [], ps_allowFrom = []\<rparr>)"

lemma read_view:
  assumes "db_ok other db" "safeChannelKey ch = Inr k"
  shows "readChannelPairingStateFromDatabase other ch db = Inr (view other ch db)"
    "state_ok other (view other ch db)" "map clean (ps_requests (view other ch db)) = ps_requests (view other ch db)"
proof -
  from assms(1) obtain S where "state_ok other S" "map clean (ps_requests S) = ps_requests S" "stored k S db"
    by (auto simp: db_ok_def)
  from read_stored [OF this assms(2)]
  show "readChannelPairingStateFromDatabase other ch db = Inr (view other ch db)"
    "state_ok other (view other ch db)" "map clean (ps_requests (view other ch db)) = ps_requests (view other ch db)"
    by (auto simp: view_def)
qed

lemma read_blank: "safeChannelKey ch = Inl e \<Longrightarrow> readChannelPairingStateFromDatabase other ch db = Inl e"
  by (simp add: readChannelPairingStateFromDatabase_def)

lemma safe_key_error: "safeChannelKey ch \<noteq> Inl Constraint_Failed"
  by (simp add: safeChannelKey_def normalizePairingKey_def invalidPairingKeyError_def Let_def)

lemma view_other_channel:
  "safeChannelKey ch = Inr j \<Longrightarrow> requests_of j db' = requests_of j db \<Longrightarrow> allows_of j db' = allows_of j db \<Longrightarrow>
   view other ch db' = view other ch db"
  by (simp add: view_def readChannelPairingStateFromDatabase_def requests_of_def allows_of_def Let_def)

lemma view_stored:
  assumes "db_ok other db" "state_ok other S" "map clean (ps_requests S) = ps_requests S" "stored k S db"
    "safeChannelKey ch = Inr k"
  shows "same_state (view other ch db) S"
  using read_stored [OF assms(2-5)] by (auto simp: view_def)

text \<open>
  A transaction computes on the state the store holds for its channel, replaces it by what the
  update wrote, and leaves the other channels.
\<close>

lemma transaction_blank: "safeChannelKey ch = Inl e \<Longrightarrow> channel_transaction other t ch update db = (Inl e, db)"
  by (simp add: channel_transaction_def read_blank)

lemma transaction_stays:
  assumes "db_ok other db" "safeChannelKey ch = Inr k"
  shows "update (view other ch db) = Inl e \<Longrightarrow> channel_transaction other t ch update db = (Inl e, db)"
    "update (view other ch db) = Inr (r, None) \<Longrightarrow> channel_transaction other t ch update db = (Inr r, db)"
  using read_view(1) [OF assms] by (simp_all add: channel_transaction_def)

lemma transaction_writes:
  assumes "db_ok other db" "safeChannelKey ch = Inr k" "update (view other ch db) = Inr (r, Some S)"
    "state_ok other (persistent other S)"
  obtains db' where "channel_transaction other t ch update db = (Inr r, db')" "db_ok other db'"
    "same_state (view other ch db') (clean_state (persistent other S))"
    "\<And>j. j \<noteq> k \<Longrightarrow> requests_of j db' = requests_of j db \<and> allows_of j db' = allows_of j db"
proof -
  from write_state [OF assms(4,1,2), of t] obtain db' where db':
    "writeChannelPairingStateToDatabase other t ch S db = Inr db'" "db_ok other db'"
    "stored k (clean_state (persistent other S)) db'"
    "\<forall>j. j \<noteq> k \<longrightarrow> requests_of j db' = requests_of j db \<and> allows_of j db' = allows_of j db"
    by auto
  have "map clean (ps_requests (clean_state T)) = ps_requests (clean_state T)" for T
    by (simp add: clean_state_def comp_def)
  with view_stored [OF db'(2) state_ok_clean [OF assms(4)] _ db'(3) assms(2)]
  have "same_state (view other ch db') (clean_state (persistent other S))" by blast
  with db' read_view(1) [OF assms(1,2)] assms(3) that [of db'] show ?thesis
    by (simp add: channel_transaction_def)
qed

text \<open>The state an update leaves.\<close>

definition after :: "(string \<Rightarrow> int option) \<Rightarrow>
    (ChannelPairingState \<Rightarrow> pairing_error + ('a \<times> ChannelPairingState option)) \<Rightarrow> ChannelPairingState \<Rightarrow> ChannelPairingState" where
  "after other update S = (case update S of Inr (_, Some S') \<Rightarrow> clean_state (persistent other S') | _ \<Rightarrow> S)"

lemma same_state_refl [simp]: "same_state S S"
  by (simp add: same_state_def)

lemma view_key: "safeChannelKey ch = safeChannelKey ch' \<Longrightarrow> view other ch db = view other ch' db"
  by (simp add: view_def readChannelPairingStateFromDatabase_def)

text \<open>
  An update whose written state is well formed where it is enabled, and that does not itself
  report a violated key: its transactions keep the store well formed, violate no key, and touch one channel.
\<close>

locale channel_update =
  fixes other :: "string \<Rightarrow> int option"
    and enabled :: bool
    and update :: "ChannelPairingState \<Rightarrow> pairing_error + ('a \<times> ChannelPairingState option)"
  assumes keeps: "enabled \<Longrightarrow> state_ok other S \<Longrightarrow> update S = Inr (r, Some S') \<Longrightarrow> state_ok other (persistent other S')"
    and legal: "state_ok other S \<Longrightarrow> update S \<noteq> Inl Constraint_Failed"
begin

lemma transaction_ok:
  assumes "enabled" "db_ok other db"
  shows "db_ok other (snd (channel_transaction other t ch update db))"
    "fst (channel_transaction other t ch update db) \<noteq> Inl Constraint_Failed"
    "safeChannelKey ch = Inr k \<Longrightarrow> j \<noteq> k \<Longrightarrow>
       requests_of j (snd (channel_transaction other t ch update db)) = requests_of j db \<and>
       allows_of j (snd (channel_transaction other t ch update db)) = allows_of j db"
proof -
  let ?res = "channel_transaction other t ch update db"
  have "db_ok other (snd ?res) \<and> fst ?res \<noteq> Inl Constraint_Failed \<and>
    (\<forall>k j. safeChannelKey ch = Inr k \<longrightarrow> j \<noteq> k \<longrightarrow> requests_of j (snd ?res) = requests_of j db \<and>
       allows_of j (snd ?res) = allows_of j db)"
  proof (cases "safeChannelKey ch")
    case (Inl e)
    with assms(2) safe_key_error [of ch] show ?thesis by (auto simp: transaction_blank)
  next
    case (Inr k)
    note stays = transaction_stays [OF assms(2) Inr, of update _ t]
    note ok = read_view(2) [OF assms(2) Inr]
    show ?thesis
    proof (cases "update (view other ch db)")
      case (Inl e)
      with stays(1) [OF Inl] legal [OF ok] assms(2) show ?thesis by auto
    next
      case result: (Inr res)
      obtain r w where res: "res = (r, w)" by (cases res)
      show ?thesis
      proof (cases w)
        case None
        with result res stays(2) assms(2) show ?thesis by simp
      next
        case (Some S')
        with result res have u: "update (view other ch db) = Inr (r, Some S')" by simp
        from transaction_writes [where update = update and t = t, OF assms(2) Inr u keeps [OF assms(1) ok u]]
        obtain db' where "?res = (Inr r, db')" "db_ok other db'"
          "\<And>j. j \<noteq> k \<Longrightarrow> requests_of j db' = requests_of j db \<and> allows_of j db' = allows_of j db"
          by blast
        with Inr show ?thesis by simp
      qed
    qed
  qed
  then show "db_ok other (snd ?res)" "fst ?res \<noteq> Inl Constraint_Failed"
    "safeChannelKey ch = Inr k \<Longrightarrow> j \<noteq> k \<Longrightarrow> requests_of j (snd ?res) = requests_of j db \<and>
       allows_of j (snd ?res) = allows_of j db"
    by blast+
qed

lemma transaction_result:
  assumes "enabled" "db_ok other db" "safeChannelKey ch = Inr k"
  shows "fst (channel_transaction other t ch update db) = map_sum id fst (update (view other ch db))"
proof (cases "update (view other ch db)")
  case (Inl e)
  with transaction_stays(1) [where update = update, OF assms(2,3) Inl] show ?thesis by simp
next
  case (Inr res)
  obtain r w where res: "res = (r, w)" by (cases res)
  show ?thesis
  proof (cases w)
    case None
    with Inr res transaction_stays(2) [where update = update and r = r and t = t, OF assms(2,3)] show ?thesis by simp
  next
    case (Some S')
    with Inr res have u: "update (view other ch db) = Inr (r, Some S')" by simp
    from transaction_writes [where update = update and t = t,
        OF assms(2,3) u keeps [OF assms(1) read_view(2) [OF assms(2,3)] u]] u
    show ?thesis by (metis fst_conv map_sum.simps(2))
  qed
qed

text \<open>What a reader of a channel sees after the transaction.\<close>

lemma transaction_view:
  assumes "enabled" "db_ok other db" "safeChannelKey ch' = Inr k'"
  shows "same_state (view other ch' (snd (channel_transaction other t ch update db)))
    (if safeChannelKey ch = Inr k' then after other update (view other ch' db) else view other ch' db)"
proof (cases "safeChannelKey ch")
  case (Inl e)
  then show ?thesis by (simp add: transaction_blank)
next
  case (Inr k)
  show ?thesis
  proof (cases "k = k'")
    case False
    then have "k' \<noteq> k" by simp
    from transaction_ok(3) [OF assms(1,2) Inr this, of t]
    have "view other ch' (snd (channel_transaction other t ch update db)) = view other ch' db"
      by (intro view_other_channel [OF assms(3)]; elim conjE)
    with Inr False show ?thesis by simp
  next
    case True
    with Inr assms(3) have key: "safeChannelKey ch' = safeChannelKey ch" by simp
    note eq = view_key [OF key]
    show ?thesis
    proof (cases "\<exists>r S'. update (view other ch db) = Inr (r, Some S')")
      case True
      then obtain r S' where u: "update (view other ch db) = Inr (r, Some S')" by blast
      from transaction_writes [where update = update and t = t,
          OF assms(2) Inr u keeps [OF assms(1) read_view(2) [OF assms(2) Inr] u]]
      obtain db' where "channel_transaction other t ch update db = (Inr r, db')"
        "same_state (view other ch db') (clean_state (persistent other S'))"
        by blast
      with u \<open>k = k'\<close> Inr show ?thesis by (simp add: eq after_def)
    next
      case False
      then consider e where "update (view other ch db) = Inl e" | r where "update (view other ch db) = Inr (r, None)"
        by (metis option.exhaust sum.exhaust surj_pair)
      then have "snd (channel_transaction other t ch update db) = db"
        by cases (simp_all add: transaction_stays [OF assms(2) Inr])
      moreover have "after other update (view other ch db) = view other ch db"
        using False by (auto simp: after_def split: sum.split option.split)
      ultimately show ?thesis by (simp add: eq)
    qed
  qed
qed

end

end
