(* ===== verification/Pairing_Updates.thy ===== *)
theory Pairing_Updates
  imports Pairing_Laws
begin

text \<open>
  Every operation of the pairing store on the state of a channel: what it leaves of the requests and the allow
  lists, and that it keeps the state well formed; the locale \<open>channel_update\<close> is interpreted for each.
\<close>

section \<open>Pruning\<close>

lemma prune_expired [simp]:
  "fst (pruneExpiredRequests other reqs now) = filter (\<lambda>r. \<not> isExpired other now r) reqs"
  by (simp add: pruneExpiredRequests_def)

lemma group_lists:
  "jm_list (group_by_account reqs) a = filter (\<lambda>(i, r). resolvePairingRequestAccountId r = a) (enumerate 0 reqs)"
  "jm_ok (group_by_account reqs)"
proof -
  have g: "group_by_account reqs = foldl (\<lambda>m x. jm_push (resolvePairingRequestAccountId (snd x)) (id x) m) [] (enumerate 0 reqs)"
    by (simp add: group_by_account_def case_prod_unfold)
  show "jm_list (group_by_account reqs) a = filter (\<lambda>(i, r). resolvePairingRequestAccountId r = a) (enumerate 0 reqs)"
    unfolding g push_all by (simp add: jm_list_def case_prod_unfold)
  show "jm_ok (group_by_account reqs)"
    unfolding g by (rule push_all_ok) simp
qed

lemma length_filter_enumerate: "length (filter (\<lambda>(i, r). P r) (enumerate n xs)) = length (filter P xs)"
  by (induction xs arbitrary: n) simp_all

lemma group_values:
  assumes "l \<in> set (jm_values (group_by_account reqs))"
  obtains a where "l = filter (\<lambda>(i, r). resolvePairingRequestAccountId r = a) (enumerate 0 reqs)"
    "length l = account_count a reqs"
proof -
  from assms obtain a where "(a, l) \<in> set (group_by_account reqs)" by (auto simp: jm_values_def)
  with jm_list_member [OF group_lists(2)] have "l = jm_list (group_by_account reqs) a" by metis
  with that [of a] show ?thesis
    by (simp add: group_lists(1) account_count_def length_filter_enumerate)
qed

text \<open>Where no account has more than the cap, nothing is dropped.\<close>

lemma prune_excess_id:
  assumes "\<forall>a. account_count a reqs \<le> n"
  shows "pruneExcessRequestsByAccount other reqs n = (reqs, False)"
proof -
  have "dropped_of other n l = []" if "l \<in> set (jm_values (group_by_account reqs))" for l
    using group_values [OF that] assms by (metis dropped_of_def)
  then have "concat (map (dropped_of other n) (jm_values (group_by_account reqs))) = []" by simp
  then show ?thesis by (simp add: pruneExcessRequestsByAccount_def del: concat_eq_Nil_conv)
qed

lemma prune_excess_ok [simp]:
  "requests_ok other rs \<Longrightarrow> pruneExcessRequestsByAccount other rs CHANNEL_PAIRING_PENDING_MAX = (rs, False)"
  by (rule prune_excess_id) (simp add: requests_ok_def)

lemma list_state_eq:
  assumes "state_ok other S"
  shows "list_state other collate now account S =
    (let live = filter (\<lambda>r. \<not> isExpired other now r) (ps_requests S)
     in Inr (sort_by (\<lambda>l r. request_order collate l r \<le> 0)
               (filter (\<lambda>r. requestMatchesAccountId r (normalizePairingAccountId account)) live),
             if list_ex (isExpired other now) (ps_requests S) then Some (S\<lparr>ps_requests := live\<rparr>) else None))"
proof -
  have "requests_ok other (filter (\<lambda>r. \<not> isExpired other now r) (ps_requests S))"
    using assms by (simp add: state_ok_def requests_ok_filter)
  then show ?thesis
    by (simp add: list_state_def pruneExpiredRequests_def Let_def)
qed

lemma state_ok_requests:
  "state_ok other S \<Longrightarrow> requests_ok other xs \<Longrightarrow> state_ok other (S\<lparr>ps_requests := xs\<rparr>)"
  by (simp add: state_ok_def)

interpretation list_update: channel_update other True "list_state other collate now account"
  for other collate now account
proof
  fix S S' r
  assume ok: "state_ok other S" and u: "list_state other collate now account S = Inr (r, Some S')"
  from u have "S' = S\<lparr>ps_requests := filter (\<lambda>r. \<not> isExpired other now r) (ps_requests S)\<rparr>"
    by (simp add: list_state_eq [OF ok] Let_def split: if_splits)
  with ok have "state_ok other S'"
    by (simp add: state_ok_requests requests_ok_filter state_ok_def)
  then show "state_ok other (persistent other S')" by (simp add: persistent_ok)
qed (simp add: list_state_eq Let_def)

section \<open>Allow lists\<close>

lemma allow_list_eq:
  assumes "allow_ok (ps_allowFrom S)"
  shows "allow_list a S = (if inherited_member a then Inl Type_Error else Inr (jm_list (ps_allowFrom S) a))"
proof (cases "jm_get (ps_allowFrom S) a")
  case (Some es)
  with assms map_of_SomeD [OF Some] have "\<not> inherited_member a" by (auto simp: allow_ok_def)
  with Some show ?thesis by (simp add: allow_list_def jm_list_def)
qed (simp add: allow_list_def jm_list_def)

lemma allow_ok_list:
  assumes "allow_ok m"
  shows "distinct (jm_list m a)" "\<forall>x \<in> set (jm_list m a). entry_ok x"
  using assms by (cases "jm_get m a"; fastforce simp: jm_list_def allow_ok_def dest: map_of_SomeD)+

lemma allow_ok_set:
  assumes "allow_ok m" "account_ok a" "\<not> inherited_member a" "distinct es" "\<forall>x \<in> set es. entry_ok x"
  shows "allow_ok (jm_set a es m)"
  using assms jm_set_subset [of a es m] unfolding allow_ok_def by auto

lemma normalized_entry_ok:
  assumes "normalizeAllowFromInput adapter e \<noteq> []"
  shows "entry_ok (normalizeAllowFromInput adapter e)"
  using assms trimmed_js_trim
  by (auto simp: normalizeAllowFromInput_def normalizeAllowEntry_def Let_def entry_ok_def text_ok_def split: if_splits)

lemma allow_ok_add:
  assumes "allow_ok m" "account_ok a" "\<not> inherited_member a" "entry_ok e" "e \<notin> set (jm_list m a)"
  shows "allow_ok (jm_set a (jm_list m a @ [e]) m)"
  using assms allow_ok_list [OF assms(1)] by (intro allow_ok_set) auto

lemma update_allow_eq:
  assumes "state_ok other S"
  shows "update_allow_state a e f S =
    (if inherited_member a then Inl Type_Error
     else let current = jm_list (ps_allowFrom S) a
          in case (if e = [] then None else f current e) of None \<Rightarrow> Inr ((False, current), None)
             | Some l \<Rightarrow> Inr ((True, l), Some (S\<lparr>ps_allowFrom := jm_set a l (ps_allowFrom S)\<rparr>)))"
  using assms by (simp add: update_allow_state_def allow_list_eq state_ok_def Let_def)

lemma update_allow_keeps:
  assumes ok: "state_ok other S" and a: "account_ok a"
    and f: "\<And>l. f current e = Some l \<Longrightarrow> e \<noteq> [] \<Longrightarrow> distinct current \<Longrightarrow> \<forall>x \<in> set current. entry_ok x \<Longrightarrow>
        distinct l \<and> (\<forall>x \<in> set l. entry_ok x)"
    and current: "current = jm_list (ps_allowFrom S) a"
    and u: "update_allow_state a e f S = Inr (r, Some S')"
  shows "state_ok other (persistent other S')"
proof -
  from u obtain l where l: "\<not> inherited_member a" "e \<noteq> []" "f current e = Some l"
      "S' = S\<lparr>ps_allowFrom := jm_set a l (ps_allowFrom S)\<rparr>"
    by (auto simp: update_allow_eq [OF ok] Let_def current split: if_splits option.splits)
  from ok have allow: "allow_ok (ps_allowFrom S)" by (simp add: state_ok_def)
  with f [OF l(3,2)] allow_ok_list [OF allow, of a] current l(1) a
  have "allow_ok (jm_set a l (ps_allowFrom S))" by (intro allow_ok_set) auto
  with ok l(4) have "state_ok other S'" by (simp add: state_ok_def)
  then show ?thesis by (simp add: persistent_ok)
qed

interpretation add_update: channel_update other True
    "update_allow_state (resolveAllowFromAccountId account) (normalizeAllowFromInput adapter e) add_entry"
  for other account adapter e
proof
  fix S S' r
  assume ok: "state_ok other S" and u: "update_allow_state (resolveAllowFromAccountId account)
      (normalizeAllowFromInput adapter e) add_entry S = Inr (r, Some S')"
  show "state_ok other (persistent other S')"
    by (rule update_allow_keeps [OF ok account_ok_resolve _ refl u])
      (auto simp: add_entry_def normalized_entry_ok split: if_splits)
qed (simp add: update_allow_eq Let_def split: option.split)

interpretation remove_update: channel_update other True
    "update_allow_state (resolveAllowFromAccountId account) (normalizeAllowFromInput adapter e) remove_entry"
  for other account adapter e
proof
  fix S S' r
  assume ok: "state_ok other S" and u: "update_allow_state (resolveAllowFromAccountId account)
      (normalizeAllowFromInput adapter e) remove_entry S = Inr (r, Some S')"
  show "state_ok other (persistent other S')"
    by (rule update_allow_keeps [OF ok account_ok_resolve _ refl u])
      (auto simp: remove_entry_def Let_def split: if_splits)
qed (simp add: update_allow_eq Let_def split: option.split)

section \<open>Resolving a request\<close>

text \<open>The first request that matches, and the list without it.\<close>

lemma find_enumerate:
  "find (\<lambda>(_, r). P r) (enumerate n xs) = Some (i, x) \<Longrightarrow>
   n \<le> i \<and> i - n < length xs \<and> xs ! (i - n) = x \<and> P x"
proof (induction xs arbitrary: n)
  case (Cons y ys)
  show ?case
  proof (cases "P y")
    case False
    with Cons.prems have "Suc n \<le> i \<and> i - Suc n < length ys \<and> ys ! (i - Suc n) = x \<and> P x"
      by (intro Cons.IH) simp
    moreover from this have "i - n = Suc (i - Suc n)" by arith
    ultimately show ?thesis by simp
  qed (use Cons.prems in auto)
qed simp

lemma find_enumerate_None: "find (\<lambda>(_, r). P r) (enumerate n xs) = None \<longleftrightarrow> (\<forall>x \<in> set xs. \<not> P x)"
  by (induction xs arbitrary: n) auto

lemma find_live:
  assumes "find (\<lambda>(_, r). P r) (enumerate 0 xs) = Some (i, x)"
  shows "i < length xs" "xs ! i = x" "x \<in> set xs" "P x"
    "mset (take i xs @ drop (Suc i) xs) = mset xs - {#x#}"
    "mset (take i xs @ drop (Suc i) xs) \<subseteq># mset xs"
proof -
  from find_enumerate [OF assms] show i: "i < length xs" "xs ! i = x" "P x" by simp_all
  then show "x \<in> set xs" by auto
  have "xs = take i xs @ x # drop (Suc i) xs" using i id_take_nth_drop by metis
  then have "mset xs = mset (take i xs @ x # drop (Suc i) xs)" by simp
  then show "mset (take i xs @ drop (Suc i) xs) = mset xs - {#x#}"
    "mset (take i xs @ drop (Suc i) xs) \<subseteq># mset xs" by simp_all
qed

text \<open>The entry an approval adds to the allow list of the request's account; empty if none.\<close>

definition approval_entry :: "ChannelPairingAdapter option \<Rightarrow> PairingRequest \<Rightarrow> string" where
  "approval_entry adapter r =
     (case (case Option.bind adapter ca_resolveApprovalStoreEntry of
        Some f \<Rightarrow> f (pr_id r) (pr_meta r) | None \<Rightarrow> Some (pr_id r)) of
        None \<Rightarrow> [] | Some e \<Rightarrow> normalizeAllowFromInput adapter e)"

definition extend_list :: "string list \<Rightarrow> string \<Rightarrow> string list" where
  "extend_list l e = (if e = [] \<or> e \<in> set l then l else l @ [e])"

lemma approval_account:
  assumes "request_ok other r" "requestMatchesAccountId r (normalizePairingAccountId account)"
  shows "resolveAllowFromAccountId (case normalizeOptionalString account of Some a \<Rightarrow> Some a
    | None \<Rightarrow> normalizeOptionalString (meta_accountId r)) = resolvePairingRequestAccountId r"
proof (cases "normalizeOptionalString account")
  case None
  with request_account [OF assms(1)] show ?thesis by (simp add: account_ok_def js_trim_trimmed del: account_ok_resolved)
    (simp add: account_ok_def)
next
  case (Some a)
  then obtain s where s: "account = Some s" "a = js_trim s" "js_trim s \<noteq> []"
    by (cases account) (auto split: if_splits)
  have "js_trim (js_trim s) = js_trim s" using trimmed_js_trim js_trim_trimmed by blast
  with s assms(2) show ?thesis
    by (simp add: requestMatchesAccountId_def normalizePairingAccountId_def resolveAllowFromAccountId_def Let_def)
qed

lemma approve_entry_eq:
  assumes "state_ok other S" "request_ok other r" "requestMatchesAccountId r (normalizePairingAccountId account)"
  shows "approve_entry adapter account r (S\<lparr>ps_requests := xs\<rparr>) =
    (let a = resolvePairingRequestAccountId r; e = approval_entry adapter r; l = jm_list (ps_allowFrom S) a
     in if e = [] then Inr (S\<lparr>ps_requests := xs\<rparr>) else if inherited_member a then Inl Type_Error
        else if e \<in> set l then Inr (S\<lparr>ps_requests := xs\<rparr>)
        else Inr (S\<lparr>ps_requests := xs, ps_allowFrom := jm_set a (l @ [e]) (ps_allowFrom S)\<rparr>))"
  using assms(1) approval_account [OF assms(2,3)]
  by (auto simp: approve_entry_def approval_entry_def allow_list_eq state_ok_def Let_def)

lemma approval_entry_ok: "approval_entry adapter r \<noteq> [] \<Longrightarrow> entry_ok (approval_entry adapter r)"
  by (auto simp: approval_entry_def normalized_entry_ok split: option.splits)

text \<open>What resolving does to a well-formed state.\<close>

lemma resolve_state_Some:
  assumes ok: "state_ok other S"
    and u: "resolve_state other now adapter account matches approve S = Inr (Some (i, r), w)"
  obtains S' where "w = Some S'" "state_ok other S'" "i = pr_id r" "r \<in> set (ps_requests S)"
    "\<not> isExpired other now r" "requestMatchesAccountId r (normalizePairingAccountId account)" "matches r"
    "mset (ps_requests S') = mset (filter (\<lambda>r. \<not> isExpired other now r) (ps_requests S)) - {#r#}"
    "\<And>a. jm_list (ps_allowFrom S') a = (if approve \<and> a = resolvePairingRequestAccountId r
       then extend_list (jm_list (ps_allowFrom S) a) (approval_entry adapter r) else jm_list (ps_allowFrom S) a)"
proof -
  let ?live = "filter (\<lambda>r. \<not> isExpired other now r) (ps_requests S)"
  let ?P = "\<lambda>r. requestMatchesAccountId r (normalizePairingAccountId account) \<and> matches r"
  from ok have reqs: "requests_ok other ?live" by (simp add: state_ok_def requests_ok_filter)
  from u obtain j where f: "find (\<lambda>(_, r). ?P r) (enumerate 0 ?live) = Some (j, r)"
    by (auto simp: resolve_state_def pruneExpiredRequests_def Let_def split: option.splits sum.splits)
  note live = find_live [OF f]
  let ?xs = "take j ?live @ drop (Suc j) ?live"
  have r: "request_ok other r" using reqs live(3) by (simp add: requests_ok_def)
  have rest: "requests_ok other ?xs" by (rule requests_ok_sub [OF reqs live(6)])
  from u f obtain S' where S': "w = Some S'" "i = pr_id r"
    "(if approve then approve_entry adapter account r (S\<lparr>ps_requests := ?xs\<rparr>) else Inr (S\<lparr>ps_requests := ?xs\<rparr>)) = Inr S'"
    by (auto simp: resolve_state_def pruneExpiredRequests_def Let_def split: option.splits sum.splits)
  let ?a = "resolvePairingRequestAccountId r" let ?e = "approval_entry adapter r"
  let ?l = "jm_list (ps_allowFrom S) ?a"
  have kept: "ps_requests S' = ?xs"
    and allow: "ps_allowFrom S' = (if approve \<and> ?e \<noteq> [] \<and> ?e \<notin> set ?l
      then jm_set ?a (?l @ [?e]) (ps_allowFrom S) else ps_allowFrom S)"
    and plain: "approve \<and> ?e \<noteq> [] \<Longrightarrow> \<not> inherited_member ?a"
    using S'(3) live(4) by (auto simp: approve_entry_eq [OF ok r] Let_def split: if_splits)
  have "allow_ok (ps_allowFrom S')"
    using ok allow plain allow_ok_add [of "ps_allowFrom S" ?a ?e] request_account(1) [OF r] approval_entry_ok
    by (auto simp: state_ok_def)
  then have "state_ok other S'" using kept rest by (simp add: state_ok_def)
  moreover have "jm_list (ps_allowFrom S') a = (if approve \<and> a = ?a
       then extend_list (jm_list (ps_allowFrom S) a) ?e else jm_list (ps_allowFrom S) a)" for a
    by (auto simp: allow extend_list_def)
  ultimately show ?thesis
    using that S'(1,2) live kept by auto
qed

lemma resolve_state_None:
  assumes ok: "state_ok other S"
    and u: "resolve_state other now adapter account matches approve S = Inr (None, w)"
  shows "w = (if list_ex (isExpired other now) (ps_requests S)
      then Some (S\<lparr>ps_requests := filter (\<lambda>r. \<not> isExpired other now r) (ps_requests S)\<rparr>) else None)"
    "\<forall>r \<in> set (ps_requests S). \<not> isExpired other now r \<longrightarrow>
      \<not> (requestMatchesAccountId r (normalizePairingAccountId account) \<and> matches r)"
  using u
  by (auto simp: resolve_state_def pruneExpiredRequests_def Let_def find_enumerate_None split: option.splits sum.splits)

interpretation resolve_update: channel_update other True "resolve_state other now adapter account matches approve"
  for other now adapter account matches approve
proof
  fix S S' r
  assume ok: "state_ok other S" and u: "resolve_state other now adapter account matches approve S = Inr (r, Some S')"
  have "state_ok other S'"
  proof (cases r)
    case None
    with u have "resolve_state other now adapter account matches approve S = Inr (None, Some S')" by simp
    from resolve_state_None(1) [OF ok this]
    have "S' = S\<lparr>ps_requests := filter (\<lambda>r. \<not> isExpired other now r) (ps_requests S)\<rparr>"
      by (simp split: if_splits)
    with ok show ?thesis by (simp add: state_ok_requests requests_ok_filter state_ok_def)
  next
    case (Some x)
    with u show ?thesis by (cases x) (auto elim: resolve_state_Some [OF ok])
  qed
  then show "state_ok other (persistent other S')" by (simp add: persistent_ok)
next
  fix S assume ok: "state_ok other S"
  have "approve_entry adapter account r T \<noteq> Inl Constraint_Failed" for r T
    by (auto simp: approve_entry_def allow_list_def Let_def split: option.splits sum.splits if_splits)
  then show "resolve_state other now adapter account matches approve S \<noteq> Inl Constraint_Failed"
    by (auto simp: resolve_state_def Let_def split: prod.splits option.splits sum.splits if_splits)
qed

section \<open>Codes\<close>

lemma randomCode_ok: "code_ok (randomCode draw n)"
proof -
  have "PAIRING_CODE_ALPHABET ! (m mod length PAIRING_CODE_ALPHABET) \<in> set PAIRING_CODE_ALPHABET" for m
    by (rule nth_mem) (simp add: PAIRING_CODE_ALPHABET_def)
  then show ?thesis by (auto simp: code_ok_def randomCode_def)
qed

text \<open>A generated code is well formed and new, or all attempts were taken.\<close>

lemma generate_from_result:
  "case generate_from existing draw n of Inr c \<Rightarrow> code_ok c \<and> c \<notin> set existing
   | Inl e \<Rightarrow> e = Code_Exhausted (length (remdups existing)) \<and>
       (\<forall>m. n \<le> m \<and> m < PAIRING_CODE_MAX_ATTEMPTS \<longrightarrow> randomCode draw m \<in> set existing)"
proof (induction existing draw n rule: generate_from.induct)
  case (1 existing draw n)
  show ?case
  proof (cases "n < PAIRING_CODE_MAX_ATTEMPTS \<and> randomCode draw n \<in> set existing")
    case True
    then have step: "generate_from existing draw n = generate_from existing draw (n + 1)"
      by (simp add: generate_from.simps [of existing draw n])
    from True 1 have "case generate_from existing draw (n + 1) of Inr c \<Rightarrow> code_ok c \<and> c \<notin> set existing
      | Inl e \<Rightarrow> e = Code_Exhausted (length (remdups existing)) \<and>
         (\<forall>m. n + 1 \<le> m \<and> m < PAIRING_CODE_MAX_ATTEMPTS \<longrightarrow> randomCode draw m \<in> set existing)"
      by blast
    moreover have "(\<forall>m. n \<le> m \<and> m < PAIRING_CODE_MAX_ATTEMPTS \<longrightarrow> randomCode draw m \<in> set existing) \<longleftrightarrow>
      (\<forall>m. n + 1 \<le> m \<and> m < PAIRING_CODE_MAX_ATTEMPTS \<longrightarrow> randomCode draw m \<in> set existing)"
      using True by (metis Suc_eq_plus1 le_eq_less_or_eq less_eq_Suc_le)
    ultimately show ?thesis by (auto simp: step split: sum.splits)
  next
    case False
    then show ?thesis
      by (auto simp: generate_from.simps [of existing draw n] randomCode_ok Let_def)
  qed
qed

lemma generated_code: "generateUniqueCode existing draw = Inr c \<Longrightarrow> code_ok c \<and> c \<notin> set existing"
  using generate_from_result [where existing = existing and draw = draw and n = 0] by (simp add: generateUniqueCode_def)

lemma generate_error: "generateUniqueCode existing draw \<noteq> Inl Constraint_Failed"
  using generate_from_result [where existing = existing and draw = draw and n = 0] by (auto simp: generateUniqueCode_def)

section \<open>Upserting a request\<close>

definition clock_ok :: "Clock \<Rightarrow> bool" where
  "clock_ok clock \<longleftrightarrow> 0 \<le> ck_iso clock \<and> ck_iso clock < END_OF_TIME"

text \<open>The account and the record of a request.\<close>

definition upsert_account :: "string \<Rightarrow> string" where
  "upsert_account account = (if normalizePairingAccountId (Some account) \<noteq> []
     then normalizePairingAccountId (Some account) else DEFAULT_ACCOUNT_ID)"

definition upsert_meta :: "string \<Rightarrow> loose_record option \<Rightarrow> string_record" where
  "upsert_meta account params_meta = with_account (upsert_account account) (map_option base_meta params_meta)"

lemma upsert_account_eq: "upsert_account account = resolveAllowFromAccountId (Some account)"
  by (simp add: upsert_account_def normalizePairingAccountId_def resolveAllowFromAccountId_def Let_def)

lemma upsert_account_ok: "account_ok (upsert_account account)"
  by (simp add: upsert_account_eq account_ok_resolve)

lemma upsert_meta_ok:
  "meta_ok (upsert_meta account meta)" "jm_get (upsert_meta account meta) ''accountId'' = Some (upsert_account account)"
proof -
  have base: "jm_ok (base_meta m) \<and> (\<forall>e \<in> set (base_meta m). text_ok (snd e))" for m
  proof -
    have "text_ok (snd e)" if "e \<in> set (base_meta m)" for e
    proof -
      have "e \<in> set (filter (\<lambda>(_, value). value \<noteq> []) (map (\<lambda>(key, value).
          (key, case normalizeOptionalString value of Some s \<Rightarrow> s | None \<Rightarrow> [])) m))"
        using that jm_of_subset unfolding base_meta_def by blast
      then show ?thesis
        using trimmed_js_trim by (auto simp: text_ok_def normalizeOptionalString_def normalizeNullableString_def
            Let_def split: option.splits if_splits)
    qed
    then show ?thesis by (simp add: base_meta_def)
  qed
  then have meta: "jm_ok (case map_option base_meta meta of Some m \<Rightarrow> m | None \<Rightarrow> [])"
    "\<forall>e \<in> set (case map_option base_meta meta of Some m \<Rightarrow> m | None \<Rightarrow> []). text_ok (snd e)"
    by (cases meta; use base in simp)+
  show get: "jm_get (upsert_meta account meta) ''accountId'' = Some (upsert_account account)"
    by (simp add: upsert_meta_def with_account_def)
  define m where "m = (case map_option base_meta meta of Some m \<Rightarrow> m | None \<Rightarrow> [])"
  have "upsert_meta account meta = jm_set ''accountId'' (upsert_account account) m"
    by (simp add: upsert_meta_def with_account_def m_def)
  moreover have "text_ok (snd e)" if "e \<in> set (jm_set ''accountId'' (upsert_account account) m)" for e
  proof -
    from that jm_set_subset [of "''accountId''" "upsert_account account" m]
    have "e = (''accountId'', upsert_account account) \<or> e \<in> set m" by blast
    then show ?thesis
    proof
      assume "e \<in> set m"
      with meta(2) show ?thesis unfolding m_def by blast
    qed (use upsert_account_ok [of account] in simp)
  qed
  ultimately show "meta_ok (upsert_meta account meta)"
    using meta(1) get upsert_account_ok [of account] by (simp add: meta_ok_def m_def)
qed

lemma iso_text_ok: "text_ok (toISOString t)"
  using toISOString_shape [of t] by (simp add: text_ok_def trimmed_def)

text \<open>The request an upsert leaves behind.\<close>

definition upserted :: "string \<Rightarrow> string \<Rightarrow> string \<Rightarrow> string \<Rightarrow> loose_record option \<Rightarrow> Clock \<Rightarrow> PairingRequest" where
  "upserted i code createdAt account meta clock =
     \<lparr>pr_id = i, pr_code = code, pr_createdAt = createdAt, pr_lastSeenAt = toISOString (ck_iso clock),
      pr_meta = Some (upsert_meta account meta)\<rparr>"

lemma upserted_account [simp]:
  "resolvePairingRequestAccountId (upserted i code createdAt account meta clock) = upsert_account account"
  using upsert_account_ok [of account]
  by (simp add: resolvePairingRequestAccountId_def meta_accountId_def upserted_def upsert_meta_ok Let_def account_ok_def [of "upsert_account account"])

lemma upserted_sel:
  "pr_id (upserted i code createdAt account meta clock) = i"
  "pr_code (upserted i code createdAt account meta clock) = code"
  "pr_createdAt (upserted i code createdAt account meta clock) = createdAt"
  by (simp_all add: upserted_def)

lemma upserted_ok:
  assumes "text_ok i" "code_ok code" "text_ok createdAt" "parseDateStringTimestampMs other createdAt \<noteq> None" "clock_ok clock"
  shows "request_ok other (upserted i code createdAt account meta clock)"
  using assms by (simp add: request_ok_def upserted_def upsert_meta_ok iso_text_ok clock_ok_def)

text \<open>The three ways an upsert of a well-formed state goes.\<close>

abbreviation live_requests :: "(string \<Rightarrow> int option) \<Rightarrow> Clock \<Rightarrow> ChannelPairingState \<Rightarrow> PairingRequest list" where
  "live_requests other clock S \<equiv> filter (\<lambda>r. \<not> isExpired other (ck_now clock) r) (ps_requests S)"

definition pending_of :: "string \<Rightarrow> string \<Rightarrow> PairingRequest \<Rightarrow> bool" where
  "pending_of account i r \<longleftrightarrow> pr_id r = i \<and> resolvePairingRequestAccountId r = upsert_account account"

lemma matches_upsert_account:
  "requestMatchesAccountId r (upsert_account account) \<longleftrightarrow> resolvePairingRequestAccountId r = upsert_account account"
  using upsert_account_ok [of account] by (simp add: requestMatchesAccountId_def account_ok_def)

lemma existing_codes:
  assumes "requests_ok other rs"
  shows "map (\<lambda>request. js_upper (case normalizeOptionalString (Some (pr_code request)) of
    Some c \<Rightarrow> c | None \<Rightarrow> [])) rs = map pr_code rs"
  using assms by (intro map_cong [OF refl]) (simp add: requests_ok_def request_ok_def del: normalizeOptionalString_Some)

lemma upsert_state_eq:
  fixes clock :: Clock and other :: "string \<Rightarrow> int option"
  assumes ok: "state_ok other S"
  defines "live \<equiv> live_requests other clock S"
  shows "upsert_state other draw clock requestId account meta S =
    (case find (\<lambda>(_, r). pending_of account (normalizeId requestId) r) (enumerate 0 live) of
       Some (j, r) \<Rightarrow> Inr ((pr_code r, False), Some (S\<lparr>ps_requests := fst (pruneExcessRequestsByAccount other
           (live[j := upserted (pr_id r) (pr_code r) (pr_createdAt r) account meta clock]) CHANNEL_PAIRING_PENDING_MAX)\<rparr>))
     | None \<Rightarrow>
         if CHANNEL_PAIRING_PENDING_MAX \<le> account_count (upsert_account account) live
         then Inr (([], False), if list_ex (isExpired other (ck_now clock)) (ps_requests S)
             then Some (S\<lparr>ps_requests := live\<rparr>) else None)
         else (case generateUniqueCode (map pr_code live) draw of Inl e \<Rightarrow> Inl e
           | Inr code \<Rightarrow> Inr ((code, True), Some (S\<lparr>ps_requests := live @
               [upserted (normalizeId requestId) code (toISOString (ck_iso clock)) account meta clock]\<rparr>))))"
proof -
  have reqs: "requests_ok other live"
    using ok by (simp add: live_def state_ok_def requests_ok_filter)
  have test: "(\<lambda>(_, r). pr_id r = normalizeId requestId \<and> requestMatchesAccountId r (upsert_account account)) =
      (\<lambda>(_ :: nat, r). pending_of account (normalizeId requestId) r)"
    by (simp add: fun_eq_iff pending_of_def matches_upsert_account)
  have code: "normalizeOptionalString (Some (pr_code r)) = Some (pr_code r)"
    if "find (\<lambda>(_, r). pending_of account (normalizeId requestId) r) (enumerate 0 live) = Some (j, r)" for j r
    using find_live(3) [OF that] reqs by (simp add: requests_ok_def request_ok_def del: normalizeOptionalString_Some)
  have own: "pr_id r = normalizeId requestId"
    if "find (\<lambda>(_, r). pending_of account (normalizeId requestId) r) (enumerate 0 live) = Some (j, r)" for j r
    using find_live(4) [OF that] by (simp add: pending_of_def)
  have positive: "0 < CHANNEL_PAIRING_PENDING_MAX" by (simp add: CHANNEL_PAIRING_PENDING_MAX_def)
  show ?thesis
    unfolding upsert_state_def Let_def pruneExpiredRequests_def prod.case upsert_account_def [symmetric]
      upsert_meta_def [symmetric] live_def [symmetric] test existing_codes [OF reqs]
    using prune_excess_ok [OF reqs] positive
    by (auto simp: code own upserted_def account_count_def matches_upsert_account simp del: normalizeOptionalString_Some
        split: option.split sum.split)
qed

text \<open>Replacing a pending request by its refreshed version keeps accounts, ids and codes.\<close>

lemma requests_ok_refresh:
  assumes "requests_ok other rs" "j < length rs" "request_ok other r"
    "resolvePairingRequestAccountId r = resolvePairingRequestAccountId (rs ! j)" "pr_id r = pr_id (rs ! j)"
    "pr_code r = pr_code (rs ! j)"
  shows "requests_ok other (rs[j := r])"
proof -
  have same: "map f (rs[j := r]) = map f rs" if "f r = f (rs ! j)" for f :: "PairingRequest \<Rightarrow> 'b"
    using assms(2) that by (simp add: map_update list_update_same_conv)
  have count: "account_count a xs = length (filter (\<lambda>y. y = a) (map resolvePairingRequestAccountId xs))" for a xs
    by (simp add: account_count_def filter_map comp_def)
  have "account_count a (rs[j := r]) = account_count a rs" for a
    unfolding count same [of resolvePairingRequestAccountId, OF assms(4)] by (rule refl)
  moreover have "map (\<lambda>r. (resolvePairingRequestAccountId r, pr_id r)) (rs[j := r]) =
      map (\<lambda>r. (resolvePairingRequestAccountId r, pr_id r)) rs" "map pr_code (rs[j := r]) = map pr_code rs"
    using assms(4-6) by (intro same; simp)+
  moreover have "\<forall>x \<in> set (rs[j := r]). request_ok other x"
    using assms(1,3) set_update_subset_insert [of rs j r] by (auto simp: requests_ok_def)
  ultimately show ?thesis using assms(1) unfolding requests_ok_def by metis
qed

lemma requests_ok_add:
  assumes "requests_ok other rs" "request_ok other r" "pr_code r \<notin> pr_code ` set rs"
    "\<forall>x \<in> set rs. \<not> (pr_id x = pr_id r \<and> resolvePairingRequestAccountId x = resolvePairingRequestAccountId r)"
    "account_count (resolvePairingRequestAccountId r) rs < CHANNEL_PAIRING_PENDING_MAX"
  shows "requests_ok other (rs @ [r])"
proof -
  have "account_count a (rs @ [r]) \<le> CHANNEL_PAIRING_PENDING_MAX" for a
    using assms(1,5) by (auto simp: requests_ok_def account_count_def)
  then show ?thesis using assms(1-4) by (auto simp: requests_ok_def)
qed

text \<open>What an upsert does to a well-formed state.\<close>

lemma upsert_state_cases:
  assumes ok: "state_ok other S" and clock: "clock_ok clock"
    and u: "upsert_state other draw clock requestId account meta S = Inr ((code, created), w)"
  defines "live \<equiv> live_requests other clock S"
  obtains
    (refreshed) j where "j < length live" "pending_of account (normalizeId requestId) (live ! j)"
      "code = pr_code (live ! j)" "\<not> created"
      "w = Some (S\<lparr>ps_requests := live[j := upserted (normalizeId requestId) code (pr_createdAt (live ! j)) account meta clock]\<rparr>)"
      "requests_ok other (live[j := upserted (normalizeId requestId) code (pr_createdAt (live ! j)) account meta clock])"
  | (full) "code = []" "\<not> created" "CHANNEL_PAIRING_PENDING_MAX \<le> account_count (upsert_account account) live"
      "\<forall>r \<in> set live. \<not> pending_of account (normalizeId requestId) r"
      "w = (if list_ex (isExpired other (ck_now clock)) (ps_requests S) then Some (S\<lparr>ps_requests := live\<rparr>) else None)"
  | (added) "code_ok code" "code \<notin> pr_code ` set live" "created"
      "account_count (upsert_account account) live < CHANNEL_PAIRING_PENDING_MAX"
      "\<forall>r \<in> set live. \<not> pending_of account (normalizeId requestId) r"
      "w = Some (S\<lparr>ps_requests := live @ [upserted (normalizeId requestId) code (toISOString (ck_iso clock)) account meta clock]\<rparr>)"
proof (cases "find (\<lambda>(_, r). pending_of account (normalizeId requestId) r) (enumerate 0 live)")
  case (Some x)
  obtain j r where x: "x = (j, r)" by (cases x)
  note live = find_live [OF Some [unfolded x]]
  have reqs: "requests_ok other live" using ok by (simp add: live_def state_ok_def requests_ok_filter)
  then have r: "request_ok other r" using live(3) by (simp add: requests_ok_def)
  have own: "pr_id r = normalizeId requestId" "resolvePairingRequestAccountId r = upsert_account account"
    using live(4) by (simp_all add: pending_of_def)
  let ?r = "upserted (pr_id r) (pr_code r) (pr_createdAt r) account meta clock"
  have "request_ok other ?r" using r clock by (intro upserted_ok) (simp_all add: request_ok_def)
  then have refreshed: "requests_ok other (live[j := ?r])"
    using live(1,2) own by (intro requests_ok_refresh [OF reqs]) (simp_all add: upserted_sel)
  have "pruneExcessRequestsByAccount other (live[j := ?r]) CHANNEL_PAIRING_PENDING_MAX = (live[j := ?r], False)"
    by (rule prune_excess_ok [OF refreshed])
  with u Some x have "code = pr_code r" "\<not> created" "w = Some (S\<lparr>ps_requests := live[j := ?r]\<rparr>)"
    by (auto simp: upsert_state_eq [OF ok] live_def [symmetric])
  with that(1) [of j] live own refreshed show ?thesis by auto
next
  case None
  then have none: "\<forall>r \<in> set live. \<not> pending_of account (normalizeId requestId) r"
    by (simp add: find_enumerate_None)
  show ?thesis
  proof (cases "CHANNEL_PAIRING_PENDING_MAX \<le> account_count (upsert_account account) live")
    case True
    with u None that(2) none show ?thesis unfolding live_def by (auto simp: upsert_state_eq [OF ok])
  next
    case False
    with u None obtain c where "generateUniqueCode (map pr_code live) draw = Inr c" "code = c" "created"
      "w = Some (S\<lparr>ps_requests := live @ [upserted (normalizeId requestId) c (toISOString (ck_iso clock)) account meta clock]\<rparr>)"
      by (auto simp: upsert_state_eq [OF ok] live_def [symmetric] split: sum.splits)
    with that(3) none False generated_code show ?thesis by fastforce
  qed
qed

lemma upsert_keeps:
  assumes ok: "state_ok other S" and clock: "clock_ok clock"
    and u: "upsert_state other draw clock requestId account meta S = Inr (r, Some S')"
  shows "state_ok other (persistent other S')"
proof -
  let ?live = "live_requests other clock S"
  have live: "requests_ok other ?live" using ok by (simp add: state_ok_def requests_ok_filter)
  from u obtain code created where r: "upsert_state other draw clock requestId account meta S = Inr ((code, created), Some S')"
    by (cases r) simp
  from ok clock r show ?thesis
  proof (cases rule: upsert_state_cases)
    case (refreshed j)
    then have "state_ok other S'" using ok by (simp add: state_ok_requests)
    then show ?thesis by (simp add: persistent_ok)
  next
    case full
    then have "state_ok other S'" using ok live by (auto simp: state_ok_requests split: if_splits)
    then show ?thesis by (simp add: persistent_ok)
  next
    case added
    let ?r = "upserted (normalizeId requestId) code (toISOString (ck_iso clock)) account meta clock"
    show ?thesis
    proof (cases "normalizeId requestId = []")
      case True
      then have "normalizePersistedPairingRequest other ?r = None"
        by (simp add: normalizePersistedPairingRequest_def upserted_def)
      then have "persistent other S' = persistent other (S\<lparr>ps_requests := ?live\<rparr>)"
        using added(6) by (simp add: persistent_def)
      also have "\<dots> = S\<lparr>ps_requests := ?live\<rparr>"
        by (intro persistent_ok state_ok_requests ok live)
      finally show ?thesis using ok live by (simp add: state_ok_requests)
    next
      case False
      then have "text_ok (normalizeId requestId)"
        using trimmed_js_trim by (auto simp: normalizeId_def text_ok_def split: if_splits)
      then have "request_ok other ?r"
        using added(1) clock by (intro upserted_ok) (simp_all add: iso_text_ok clock_ok_def)
      then have "requests_ok other (?live @ [?r])"
        using added(2,4,5) by (intro requests_ok_add [OF live]) (simp_all add: upserted_sel pending_of_def)
      then have "state_ok other S'" using ok added(6) by (simp add: state_ok_requests)
      then show ?thesis by (simp add: persistent_ok)
    qed
  qed
qed

interpretation upsert_update: channel_update other "clock_ok clock" "upsert_state other draw clock requestId account meta"
  for other draw clock requestId account meta
proof
  show "upsert_state other draw clock requestId account meta S \<noteq> Inl Constraint_Failed"
    if "state_ok other S" for S
    using generate_error by (auto simp: upsert_state_eq [OF that] split: option.splits sum.splits)
qed (rule upsert_keeps)

end
