(* ===== verification/Pairing_Claims.thy ===== *)
theory Pairing_Claims
  imports Pairing_Updates
begin

text \<open>
  The pairing store over any sequence of operations, on any channels, by any callers: its properties.
\<close>

section \<open>Runs\<close>

datatype pairing_op =
    List_Requests Clock string "string option"
  | Upsert_Request "nat \<Rightarrow> nat" Clock string string string "loose_record option"
  | Approve_Code Clock string "ChannelPairingAdapter option" string "string option"
  | Approve_Request Clock string "ChannelPairingAdapter option" string string
  | Dismiss_Request Clock string string string
  | Add_Allow int string "ChannelPairingAdapter option" string "string option"
  | Remove_Allow int string "ChannelPairingAdapter option" string "string option"

definition outcome :: "(pairing_error + 'a) \<times> pairing_db \<Rightarrow> pairing_error option \<times> pairing_db" where
  "outcome r = (case fst r of Inl e \<Rightarrow> Some e | Inr _ \<Rightarrow> None, snd r)"

definition pairing_step ::
  "(string \<Rightarrow> int option) \<Rightarrow> (string \<Rightarrow> string) \<Rightarrow> (string \<Rightarrow> string \<Rightarrow> int) \<Rightarrow> pairing_op \<Rightarrow> pairing_db \<Rightarrow>
   pairing_error option \<times> pairing_db" where
  "pairing_step other digest collate op db = (case op of
     List_Requests clock ch acc \<Rightarrow> outcome (listChannelPairingRequests other collate clock ch acc db)
   | Upsert_Request draw clock ch i acc meta \<Rightarrow> outcome (upsertChannelPairingRequest other draw clock ch i acc meta db)
   | Approve_Code clock ch adapter code acc \<Rightarrow> outcome (approveChannelPairingCode other clock ch adapter code acc db)
   | Approve_Request clock ch adapter i acc \<Rightarrow>
       outcome (approveChannelPairingRequest other digest clock ch adapter i acc db)
   | Dismiss_Request clock ch i acc \<Rightarrow> outcome (dismissChannelPairingRequest other digest clock ch i acc db)
   | Add_Allow t ch adapter e acc \<Rightarrow> outcome (addChannelAllowFromStoreEntry other t ch adapter e acc db)
   | Remove_Allow t ch adapter e acc \<Rightarrow> outcome (removeChannelAllowFromStoreEntry other t ch adapter e acc db))"

definition pairing_run ::
  "(string \<Rightarrow> int option) \<Rightarrow> (string \<Rightarrow> string) \<Rightarrow> (string \<Rightarrow> string \<Rightarrow> int) \<Rightarrow> pairing_op list \<Rightarrow> pairing_db \<Rightarrow> pairing_db" where
  "pairing_run other digest collate ops db = foldl (\<lambda>db op. snd (pairing_step other digest collate op db)) db ops"

definition empty_pairing :: pairing_db where
  "empty_pairing = \<lparr>db_requests = [], db_allow = []\<rparr>"

text \<open>The clock an upsert reads is between the years 1970 and 9999.\<close>

definition op_ok :: "pairing_op \<Rightarrow> bool" where
  "op_ok op \<longleftrightarrow> (case op of Upsert_Request draw clock ch i acc meta \<Rightarrow> clock_ok clock | _ \<Rightarrow> True)"

lemma pairing_run_simps [simp]:
  "pairing_run other digest collate [] db = db"
  "pairing_run other digest collate (ops @ [op]) db =
     snd (pairing_step other digest collate op (pairing_run other digest collate ops db))"
  by (simp_all add: pairing_run_def)

lemma pairing_run_append:
  "pairing_run other digest collate (ops @ ops') db =
     pairing_run other digest collate ops' (pairing_run other digest collate ops db)"
  by (simp add: pairing_run_def)

lemmas pairing_operations = listChannelPairingRequests_def upsertChannelPairingRequest_def
  resolveChannelPairingRequest_def addChannelAllowFromStoreEntry_def removeChannelAllowFromStoreEntry_def
  updateAllowFromStoreEntry_def

lemma outcome_simps [simp]: "snd (outcome r) = snd r" "fst (outcome r) = Some e \<longleftrightarrow> fst r = Inl e"
  by (auto simp: outcome_def split: sum.splits)

lemma step_ok:
  assumes "db_ok other db" "op_ok op"
  shows "db_ok other (snd (pairing_step other digest collate op db))"
    "fst (pairing_step other digest collate op db) \<noteq> Some Constraint_Failed"
proof -
  have "db_ok other (snd (pairing_step other digest collate op db)) \<and>
    fst (pairing_step other digest collate op db) \<noteq> Some Constraint_Failed"
    using assms list_update.transaction_ok(1,2) upsert_update.transaction_ok(1,2) resolve_update.transaction_ok(1,2)
      add_update.transaction_ok(1,2) remove_update.transaction_ok(1,2)
    by (cases op) (auto simp: pairing_step_def op_ok_def pairing_operations approveChannelPairingCode_def
        approveChannelPairingRequest_def dismissChannelPairingRequest_def Let_def split: option.splits)
  then show "db_ok other (snd (pairing_step other digest collate op db))"
    "fst (pairing_step other digest collate op db) \<noteq> Some Constraint_Failed" by simp_all
qed

lemma empty_ok: "db_ok other empty_pairing"
  unfolding db_ok_def
proof
  fix k
  have "state_ok other \<lparr>ps_requests = [], ps_allowFrom = []\<rparr>"
    by (simp add: state_ok_def requests_ok_def allow_ok_def account_count_def)
  moreover have "stored k \<lparr>ps_requests = [], ps_allowFrom = []\<rparr> empty_pairing"
    by (simp add: stored_def requests_of_def allows_of_def empty_pairing_def)
  ultimately show "\<exists>S. state_ok other S \<and> map clean (ps_requests S) = ps_requests S \<and> stored k S empty_pairing"
    by (intro exI [of _ "\<lparr>ps_requests = [], ps_allowFrom = []\<rparr>"]) simp
qed

lemma run_ok:
  "list_all op_ok ops \<Longrightarrow> db_ok other db \<Longrightarrow> db_ok other (pairing_run other digest collate ops db)"
  by (induction ops rule: rev_induct) (simp_all add: step_ok)

section \<open>What operations leave\<close>

definition clean_requests :: "ChannelPairingState \<Rightarrow> bool" where
  "clean_requests S \<longleftrightarrow> (\<forall>r \<in> set (ps_requests S). clean r = r)"

lemma clean_state_id: "clean_requests S \<Longrightarrow> clean_state S = S"
  by (cases S) (simp add: clean_state_def clean_requests_def map_idI)

lemma after_None: "update S = Inr (r, None) \<Longrightarrow> after other update S = S"
  "update S = Inl e \<Longrightarrow> after other update S = S"
  by (simp_all add: after_def)

lemma after_Some: "update S = Inr (r, Some S') \<Longrightarrow> state_ok other S' \<Longrightarrow> clean_requests S' \<Longrightarrow>
    after other update S = S'"
  by (simp add: after_def persistent_ok clean_state_id)

lemma view_clean: "db_ok other db \<Longrightarrow> safeChannelKey ch = Inr k \<Longrightarrow> clean_requests (view other ch db)"
  using read_view(3) [of other db ch k] map_eq_conv [of clean "ps_requests (view other ch db)" "\<lambda>r. r"]
  by (simp add: clean_requests_def)

lemma after_pruned:
  assumes "state_ok other S" "clean_requests S"
    "update S = Inr (r, if list_ex (isExpired other now) (ps_requests S)
       then Some (S\<lparr>ps_requests := filter (\<lambda>r. \<not> isExpired other now r) (ps_requests S)\<rparr>) else None)"
  shows "after other update S = S\<lparr>ps_requests := filter (\<lambda>r. \<not> isExpired other now r) (ps_requests S)\<rparr>"
proof (cases "list_ex (isExpired other now) (ps_requests S)")
  case True
  with assms show ?thesis
    by (intro after_Some) (auto simp: state_ok_def requests_ok_filter clean_requests_def)
next
  case False
  then have "filter (\<lambda>r. \<not> isExpired other now r) (ps_requests S) = ps_requests S"
    by (simp add: filter_id_conv list_ex_iff)
  with assms(3) False show ?thesis by (simp add: after_None)
qed

text \<open>Operations that do not issue codes leave only requests that were pending.\<close>

lemma after_list:
  assumes "state_ok other S" "clean_requests S"
  shows "after other (list_state other collate now account) S =
    S\<lparr>ps_requests := filter (\<lambda>r. \<not> isExpired other now r) (ps_requests S)\<rparr>"
  using assms by (intro after_pruned [OF assms]) (simp add: list_state_eq [OF assms(1)] Let_def)

lemma after_resolve:
  fixes other now adapter account matches approve
  assumes ok: "state_ok other S" and clean: "clean_requests S"
  defines "T \<equiv> after other (resolve_state other now adapter account matches approve) S"
  obtains
    (resolved) r where "resolve_state other now adapter account matches approve S = Inr (Some (pr_id r, r), Some T)"
      "r \<in> set (ps_requests S)" "\<not> isExpired other now r"
      "requestMatchesAccountId r (normalizePairingAccountId account)" "matches r"
      "mset (ps_requests T) = mset (filter (\<lambda>r. \<not> isExpired other now r) (ps_requests S)) - {#r#}"
      "\<And>a. jm_list (ps_allowFrom T) a = (if approve \<and> a = resolvePairingRequestAccountId r
         then extend_list (jm_list (ps_allowFrom S) a) (approval_entry adapter r) else jm_list (ps_allowFrom S) a)"
  | (unresolved) w where "resolve_state other now adapter account matches approve S = Inr (None, w)"
      "T = S\<lparr>ps_requests := filter (\<lambda>r. \<not> isExpired other now r) (ps_requests S)\<rparr>"
      "\<forall>r \<in> set (ps_requests S). \<not> isExpired other now r \<longrightarrow>
        \<not> (requestMatchesAccountId r (normalizePairingAccountId account) \<and> matches r)"
  | (failed) e where "resolve_state other now adapter account matches approve S = Inl e" "T = S"
proof (cases "resolve_state other now adapter account matches approve S")
  case (Inl e)
  with failed show ?thesis by (simp add: T_def after_None)
next
  case (Inr res)
  obtain x w where res: "res = (x, w)" by (cases res)
  show ?thesis
  proof (cases x)
    case None
    with Inr res have u: "resolve_state other now adapter account matches approve S = Inr (None, w)" by simp
    note none = resolve_state_None [OF ok u]
    from after_pruned [OF ok clean, of _ None now] u none(1)
    have "T = S\<lparr>ps_requests := filter (\<lambda>r. \<not> isExpired other now r) (ps_requests S)\<rparr>" by (simp add: T_def)
    with u none(2) unresolved show ?thesis by blast
  next
    case (Some y)
    obtain i r where "y = (i, r)" by (cases y)
    with Inr res Some have u: "resolve_state other now adapter account matches approve S = Inr (Some (i, r), w)" by simp
    from ok u show ?thesis
    proof (rule resolve_state_Some)
      fix S' assume S': "w = Some S'" "state_ok other S'" "i = pr_id r" "r \<in> set (ps_requests S)"
        "\<not> isExpired other now r" "requestMatchesAccountId r (normalizePairingAccountId account)" "matches r"
        "mset (ps_requests S') = mset (filter (\<lambda>r. \<not> isExpired other now r) (ps_requests S)) - {#r#}"
        "\<And>a. jm_list (ps_allowFrom S') a = (if approve \<and> a = resolvePairingRequestAccountId r
           then extend_list (jm_list (ps_allowFrom S) a) (approval_entry adapter r) else jm_list (ps_allowFrom S) a)"
      have "set (ps_requests S') \<subseteq> set (ps_requests S)"
      proof
        fix x assume "x \<in> set (ps_requests S')"
        then have "x \<in># mset (filter (\<lambda>r. \<not> isExpired other now r) (ps_requests S)) - {#r#}"
          using S'(8) by (metis set_mset_mset)
        then show "x \<in> set (ps_requests S)" by (auto dest: in_diffD)
      qed
      with clean have "clean_requests S'" by (auto simp: clean_requests_def)
      with after_Some [of _ S _ S'] u S' have "T = S'" by (simp add: T_def)
      with u S' resolved show ?thesis by blast
    qed
  qed
qed

lemma after_resolve_requests:
  assumes "state_ok other S" "clean_requests S"
  shows "set (ps_requests (after other (resolve_state other now adapter account matches approve) S)) \<subseteq> set (ps_requests S)"
  using assms
proof (rule after_resolve [where now = now and adapter = adapter and account = account and matches = matches and approve = approve])
  fix r assume "mset (ps_requests (after other (resolve_state other now adapter account matches approve) S)) =
    mset (filter (\<lambda>r. \<not> isExpired other now r) (ps_requests S)) - {#r#}"
  then show ?thesis by (auto dest!: in_diffD simp flip: set_mset_mset)
qed auto

lemma after_allow:
  assumes ok: "state_ok other S" "clean_requests S" and f: "\<And>l x. f l e = Some x \<Longrightarrow> e \<noteq> [] \<Longrightarrow> distinct l \<Longrightarrow>
      \<forall>x \<in> set l. entry_ok x \<Longrightarrow> distinct x \<and> (\<forall>y \<in> set x. entry_ok y)" and a: "account_ok a"
  shows "ps_requests (after other (update_allow_state a e f) S) = ps_requests S"
    "jm_list (ps_allowFrom (after other (update_allow_state a e f) S)) a' =
      (case (if inherited_member a \<or> a' \<noteq> a \<or> e = [] then None else f (jm_list (ps_allowFrom S) a) e) of
         Some l \<Rightarrow> l | None \<Rightarrow> jm_list (ps_allowFrom S) a')"
proof -
  let ?u = "update_allow_state a e f" let ?l = "jm_list (ps_allowFrom S) a"
  have "ps_requests (after other ?u S) = ps_requests S \<and> jm_list (ps_allowFrom (after other ?u S)) a' =
      (case (if inherited_member a \<or> a' \<noteq> a \<or> e = [] then None else f ?l e) of
         Some l \<Rightarrow> l | None \<Rightarrow> jm_list (ps_allowFrom S) a')"
  proof (cases "inherited_member a \<or> e = [] \<or> f ?l e = None")
    case True
    then have "after other ?u S = S" by (auto simp: after_def update_allow_eq [OF ok(1)] Let_def)
    with True show ?thesis by auto
  next
    case False
    then obtain l where l: "\<not> inherited_member a" "e \<noteq> []" "f ?l e = Some l" by auto
    then have u: "?u S = Inr ((True, l), Some (S\<lparr>ps_allowFrom := jm_set a l (ps_allowFrom S)\<rparr>))"
      by (simp add: update_allow_eq [OF ok(1)] Let_def)
    have allow: "allow_ok (ps_allowFrom S)" using ok(1) by (simp add: state_ok_def)
    have "allow_ok (jm_set a l (ps_allowFrom S))"
      using f [OF l(3,2) allow_ok_list [OF allow]] l(1) a allow by (intro allow_ok_set) auto
    then have "after other ?u S = S\<lparr>ps_allowFrom := jm_set a l (ps_allowFrom S)\<rparr>"
      using ok by (intro after_Some [where update = ?u, OF u]) (auto simp: state_ok_def clean_requests_def)
    with l show ?thesis by simp
  qed
  then show "ps_requests (after other ?u S) = ps_requests S"
    "jm_list (ps_allowFrom (after other ?u S)) a' =
      (case (if inherited_member a \<or> a' \<noteq> a \<or> e = [] then None else f ?l e) of
         Some l \<Rightarrow> l | None \<Rightarrow> jm_list (ps_allowFrom S) a')" by simp_all
qed

section \<open>What a step leaves of a channel\<close>

lemma same_state_sets:
  "same_state S T \<Longrightarrow> set (ps_requests S) = set (ps_requests T)"
  "same_state S T \<Longrightarrow> jm_list (ps_allowFrom S) = jm_list (ps_allowFrom T)"
  by (auto simp: same_state_def dest: mset_eq_setD)

lemma if_subset: "(c \<Longrightarrow> A \<subseteq> B) \<Longrightarrow> (if c then A else B) \<subseteq> B"
  by simp

definition issues_code :: "pairing_op \<Rightarrow> bool" where
  "issues_code op \<longleftrightarrow> (case op of Upsert_Request _ _ _ _ _ _ \<Rightarrow> True | _ \<Rightarrow> False)"

lemma resolve_shrinks:
  assumes "db_ok other db" "safeChannelKey ch' = Inr k"
  shows "set (ps_requests (view other ch' (snd (channel_transaction other t ch
      (resolve_state other now adapter account matches approve) db)))) \<subseteq> set (ps_requests (view other ch' db))"
  using same_state_sets(1) [OF resolve_update.transaction_view [OF TrueI assms]]
    after_resolve_requests [OF read_view(2) [OF assms] view_clean [OF assms]]
  by (simp split: if_splits)

lemma step_shrinks:
  assumes "db_ok other db" "safeChannelKey ch' = Inr k" "\<not> issues_code op"
  shows "set (ps_requests (view other ch' (snd (pairing_step other digest collate op db)))) \<subseteq>
    set (ps_requests (view other ch' db))"
proof -
  note ok = read_view(2) [OF assms(1,2)] view_clean [OF assms(1,2)]
  note entries = add_entry_def remove_entry_def Let_def
  show ?thesis
  proof (cases op)
    case (List_Requests clock ch acc)
    then show ?thesis
      using same_state_sets(1) [OF list_update.transaction_view [OF TrueI assms(1,2)]]
      by (auto simp: pairing_step_def pairing_operations after_list [OF ok] split: if_splits)
  next
    case (Add_Allow t ch adapter e acc)
    then show ?thesis
      using same_state_sets(1) [OF add_update.transaction_view [OF TrueI assms(1,2)]]
      by (simp add: pairing_step_def pairing_operations split: if_splits)
        (subst after_allow(1) [OF ok _ account_ok_resolve];
          auto simp: entries normalized_entry_ok split: if_splits)
  next
    case (Remove_Allow t ch adapter e acc)
    then show ?thesis
      using same_state_sets(1) [OF remove_update.transaction_view [OF TrueI assms(1,2)]]
      by (simp add: pairing_step_def pairing_operations split: if_splits)
        (subst after_allow(1) [OF ok _ account_ok_resolve];
          auto simp: entries split: if_splits)
  qed (use assms(3) resolve_shrinks [OF assms(1,2)] in \<open>auto simp: issues_code_def pairing_step_def
      resolveChannelPairingRequest_def approveChannelPairingCode_def approveChannelPairingRequest_def
      dismissChannelPairingRequest_def Let_def split: option.splits\<close>)
qed

lemma run_shrinks:
  assumes "db_ok other db" "safeChannelKey ch = Inr k" "\<forall>op \<in> set ops. \<not> issues_code op"
  shows "set (ps_requests (view other ch (pairing_run other digest collate ops db))) \<subseteq> set (ps_requests (view other ch db))
    \<and> db_ok other (pairing_run other digest collate ops db)"
  using assms(3)
proof (induction ops rule: rev_induct)
  case (snoc op ops)
  then have "op_ok op" by (cases op) (simp_all add: issues_code_def op_ok_def)
  with snoc step_shrinks [OF _ assms(2)] step_ok(1) show ?case by (simp add: subset_trans) blast
qed (use assms(1) in simp)

section \<open>Who is on an allow list\<close>

text \<open>The operation puts the entry on the allow list of the account of the channel with good reason.\<close>

definition grants ::
  "(string \<Rightarrow> int option) \<Rightarrow> (string \<Rightarrow> string) \<Rightarrow> pairing_db \<Rightarrow> string \<Rightarrow> string \<Rightarrow> string \<Rightarrow> pairing_op \<Rightarrow> bool" where
  "grants other digest db channel a e op = (case op of
     Add_Allow t ch adapter entry acc \<Rightarrow> safeChannelKey ch = safeChannelKey channel \<and>
       resolveAllowFromAccountId acc = a \<and> normalizeAllowFromInput adapter entry = e
   | Approve_Code clock ch adapter code acc \<Rightarrow> safeChannelKey ch = safeChannelKey channel \<and>
       (\<exists>r \<in> set (ps_requests (view other channel db)). \<not> isExpired other (ck_now clock) r \<and>
          resolvePairingRequestAccountId r = a \<and> requestMatchesAccountId r (normalizePairingAccountId acc) \<and>
          js_upper (pr_code r) = js_upper (js_trim code) \<and> approval_entry adapter r = e)
   | Approve_Request clock ch adapter i acc \<Rightarrow> safeChannelKey ch = safeChannelKey channel \<and>
       (\<exists>r \<in> set (ps_requests (view other channel db)). \<not> isExpired other (ck_now clock) r \<and>
          resolvePairingRequestAccountId r = a \<and> requestMatchesAccountId r (normalizePairingAccountId (Some acc)) \<and>
          resolveChannelPairingRequestId digest ch r = js_trim i \<and> approval_entry adapter r = e)
   | _ \<Rightarrow> False)"

lemma after_upsert_allow:
  assumes "state_ok other S" "clock_ok clock"
  shows "ps_allowFrom (after other (upsert_state other draw clock requestId account meta) S) = ps_allowFrom S"
proof -
  have "ps_allowFrom S' = ps_allowFrom S" if u: "upsert_state other draw clock requestId account meta S = Inr (r, Some S')" for r S'
  proof -
    from u obtain code created where "upsert_state other draw clock requestId account meta S = Inr ((code, created), Some S')"
      by (cases r) simp
    from assms this show ?thesis by (cases rule: upsert_state_cases) (auto split: if_splits)
  qed
  then show ?thesis
    by (auto simp: after_def clean_state_def persistent_def split: sum.splits option.splits)
qed

lemma resolve_grants:
  assumes "db_ok other db" "safeChannelKey ch' = Inr k"
    "e \<in> set (jm_list (ps_allowFrom (view other ch' (snd (channel_transaction other t ch
       (resolve_state other now adapter account matches approve) db)))) a)"
    "e \<notin> set (jm_list (ps_allowFrom (view other ch' db)) a)"
  shows "approve \<and> safeChannelKey ch = Inr k \<and> (\<exists>r \<in> set (ps_requests (view other ch' db)). \<not> isExpired other now r \<and>
     resolvePairingRequestAccountId r = a \<and> requestMatchesAccountId r (normalizePairingAccountId account) \<and>
     matches r \<and> approval_entry adapter r = e)"
proof -
  let ?S = "view other ch' db" let ?u = "resolve_state other now adapter account matches approve"
  note ok = read_view(2) [OF assms(1,2)] view_clean [OF assms(1,2)]
  have ch: "safeChannelKey ch = Inr k" and e: "e \<in> set (jm_list (ps_allowFrom (after other ?u ?S)) a)"
    using assms(3,4) same_state_sets(2) [OF resolve_update.transaction_view [OF TrueI assms(1,2)]]
    by (simp_all split: if_splits)
  from ok show ?thesis
  proof (rule after_resolve [where now = now and adapter = adapter and account = account and matches = matches and approve = approve])
    fix r assume r: "r \<in> set (ps_requests ?S)" "\<not> isExpired other now r"
      "requestMatchesAccountId r (normalizePairingAccountId account)" "matches r"
      "\<And>a. jm_list (ps_allowFrom (after other ?u ?S)) a = (if approve \<and> a = resolvePairingRequestAccountId r
         then extend_list (jm_list (ps_allowFrom ?S) a) (approval_entry adapter r) else jm_list (ps_allowFrom ?S) a)"
    then have "approve \<and> a = resolvePairingRequestAccountId r \<and> e = approval_entry adapter r"
      using e assms(4) by (auto simp: extend_list_def split: if_splits)
    with r(1-4) ch show ?thesis by blast
  qed (use e assms(4) in auto)
qed

lemma step_grants:
  assumes "db_ok other db" "op_ok op" "safeChannelKey ch' = Inr k"
    "e \<in> set (jm_list (ps_allowFrom (view other ch' (snd (pairing_step other digest collate op db)))) a)"
    "e \<notin> set (jm_list (ps_allowFrom (view other ch' db)) a)"
  shows "grants other digest db ch' a e op"
proof -
  note ok = read_view(2) [OF assms(1,3)] view_clean [OF assms(1,3)]
  note entries = add_entry_def remove_entry_def Let_def
  show ?thesis
  proof (cases op)
    case (List_Requests clock ch acc)
    then show ?thesis
      using assms(4,5) same_state_sets(2) [OF list_update.transaction_view [OF TrueI assms(1,3)]]
      by (simp add: pairing_step_def pairing_operations after_list [OF ok] split: if_splits)
  next
    case (Upsert_Request draw clock ch i acc meta)
    with assms(2) have clock: "clock_ok clock" by (simp add: op_ok_def)
    with Upsert_Request show ?thesis
      using assms(4,5) same_state_sets(2) [OF upsert_update.transaction_view [OF clock assms(1,3)]]
      by (simp add: pairing_step_def pairing_operations after_upsert_allow [OF ok(1) clock] split: if_splits)
  next
    case (Add_Allow t ch adapter x acc)
    have added: "y = normalizeAllowFromInput adapter x \<and> a = resolveAllowFromAccountId acc"
      if "y \<in> set (jm_list (ps_allowFrom (after other (update_allow_state (resolveAllowFromAccountId acc)
            (normalizeAllowFromInput adapter x) add_entry) (view other ch' db))) a)"
        "y \<notin> set (jm_list (ps_allowFrom (view other ch' db)) a)" for y
      using that by (subst (asm) after_allow(2) [OF ok _ account_ok_resolve])
        (auto simp: entries normalized_entry_ok split: if_splits)
    from Add_Allow show ?thesis
      using assms(3-5) same_state_sets(2) [OF add_update.transaction_view [OF TrueI assms(1,3)]] added [of e]
      by (auto simp: pairing_step_def pairing_operations grants_def split: if_splits)
  next
    case (Remove_Allow t ch adapter x acc)
    have removed: "set (jm_list (ps_allowFrom (after other (update_allow_state (resolveAllowFromAccountId acc)
            (normalizeAllowFromInput adapter x) remove_entry) (view other ch' db))) a) \<subseteq>
        set (jm_list (ps_allowFrom (view other ch' db)) a)"
      by (subst after_allow(2) [OF ok _ account_ok_resolve]) (auto simp: entries split: if_splits)
    from Remove_Allow show ?thesis
      using assms(4,5) same_state_sets(2) [OF remove_update.transaction_view [OF TrueI assms(1,3)]] removed
      by (auto simp: pairing_step_def pairing_operations split: if_splits)
  qed (use assms(3-5) resolve_grants [OF assms(1,3)] in \<open>fastforce simp: pairing_step_def grants_def
      resolveChannelPairingRequest_def approveChannelPairingCode_def approveChannelPairingRequest_def
      dismissChannelPairingRequest_def normalizeNullableString_def Let_def split: option.splits if_splits\<close>)+
qed

section \<open>The properties\<close>

lemma read_allow:
  assumes "db_ok other db" "safeChannelKey channel = Inr k"
  shows "readAllowFromState other channel account db =
    (if inherited_member (resolveAllowFromAccountId account) then Inl Type_Error
     else Inr (jm_list (ps_allowFrom (view other channel db)) (resolveAllowFromAccountId account)))"
  using read_view(1,2) [OF assms] allow_list_eq by (simp add: readAllowFromState_def state_ok_def)

lemma read_allow_key: "readAllowFromState other channel account db = Inr l \<Longrightarrow> \<exists>k. safeChannelKey channel = Inr k"
  by (cases "safeChannelKey channel") (simp_all add: readAllowFromState_def read_blank)

lemmas reachable_ok = run_ok [OF _ empty_ok]

text \<open>C30: After any operations, whatever their inputs, reading a channel succeeds, its requests are well formed
  with pairwise different codes, no account has two requests of one sender or more than three requests,
  and its allow lists have no duplicate, no blank entry and no wildcard. No operation ever
  violates a primary key of the tables.\<close>

theorem pairing_store_stays_valid:
  assumes "list_all op_ok ops" "op_ok op" "safeChannelKey channel = Inr key"
  shows "(\<exists>S. readChannelPairingStateFromDatabase other channel (pairing_run other digest collate ops empty_pairing) = Inr S \<and>
      requests_ok other (ps_requests S) \<and> allow_ok (ps_allowFrom S)) \<and>
    fst (pairing_step other digest collate op (pairing_run other digest collate ops empty_pairing)) \<noteq> Some Constraint_Failed"
  using read_view(1,2) [OF reachable_ok [OF assms(1)] assms(3)] step_ok(2) [OF reachable_ok [OF assms(1)] assms(2)]
  by (auto simp: state_ok_def)

text \<open>C11: Nobody is on an allow list without approval. Behind every entry of the allow list of an account is an
  operation that put it there and after which it stayed: an explicit addition to the list of this account, or the
  approval, by its code or its id, of a request that was pending in this account and had not expired.\<close>

theorem allow_entries_were_granted:
  assumes "list_all op_ok ops" "readAllowFromState other channel account (pairing_run other digest collate ops empty_pairing) = Inr l"
    "e \<in> set l"
  shows "\<exists>before op since. ops = before @ op # since \<and>
    grants other digest (pairing_run other digest collate before empty_pairing) channel (resolveAllowFromAccountId account) e op \<and>
    (\<forall>n \<le> length since. \<exists>l. readAllowFromState other channel account
       (pairing_run other digest collate (before @ op # take n since) empty_pairing) = Inr l \<and> e \<in> set l)"
  using assms
proof (induction ops arbitrary: l rule: rev_induct)
  case Nil
  then obtain k where key: "safeChannelKey channel = Inr k" using read_allow_key by blast
  have "view other channel empty_pairing = \<lparr>ps_requests = [], ps_allowFrom = []\<rparr>"
    by (simp add: view_def readChannelPairingStateFromDatabase_def key empty_pairing_def map_filter_simps Let_def)
  with Nil read_allow [OF empty_ok key, where account = account] show ?case
    by (auto simp: jm_list_def split: if_splits)
next
  case (snoc op ops)
  let ?db = "pairing_run other digest collate ops empty_pairing"
  let ?a = "resolveAllowFromAccountId account"
  obtain k where key: "safeChannelKey channel = Inr k" using snoc.prems(2) read_allow_key by blast
  have ops: "list_all op_ok ops" "op_ok op" using snoc.prems(1) by simp_all
  note ok = reachable_ok [OF ops(1), of other digest collate]
  have plain: "\<not> inherited_member ?a"
    and now: "l = jm_list (ps_allowFrom (view other channel (snd (pairing_step other digest collate op ?db)))) ?a"
    using snoc.prems(2) read_allow [OF step_ok(1) [OF ok ops(2), of digest collate] key, where account = account]
    by (auto split: if_splits)
  note was = read_allow [OF ok key, where account = account]
  show ?case
  proof (cases "e \<in> set (jm_list (ps_allowFrom (view other channel ?db)) ?a)")
    case False
    with step_grants [OF ok ops(2) key _ False, of digest collate] snoc.prems(3) now
    have "grants other digest ?db channel ?a e op" by simp
    moreover have "\<forall>n \<le> length []. \<exists>l. readAllowFromState other channel account
       (pairing_run other digest collate (ops @ op # take n []) empty_pairing) = Inr l \<and> e \<in> set l"
      using snoc.prems(2,3) by simp
    ultimately show ?thesis by blast
  next
    case True
    from snoc.IH [OF ops(1), of "jm_list (ps_allowFrom (view other channel ?db)) ?a"] True was plain
    obtain before op' since where IH: "ops = before @ op' # since"
      "grants other digest (pairing_run other digest collate before empty_pairing) channel ?a e op'"
      "\<forall>n \<le> length since. \<exists>l. readAllowFromState other channel account
         (pairing_run other digest collate (before @ op' # take n since) empty_pairing) = Inr l \<and> e \<in> set l"
      by auto
    have "\<exists>l. readAllowFromState other channel account
       (pairing_run other digest collate (before @ op' # take n (since @ [op])) empty_pairing) = Inr l \<and> e \<in> set l"
      if "n \<le> length (since @ [op])" for n
    proof (cases "n \<le> length since")
      case False
      with that have "take n (since @ [op]) = since @ [op]" by simp
      with IH(1) snoc.prems(2,3) show ?thesis by (simp flip: append_Cons append_assoc)
    qed (use IH(3) in simp)
    with IH(1,2) show ?thesis
      by (intro exI [of _ before] exI [of _ op'] exI [of _ "since @ [op]"]) simp
  qed
qed

lemma js_upper_Nil [simp]: "js_upper [] = []"
  by (simp add: js_upper_def)

lemma approve_code_eq:
  "approveChannelPairingCode other clock channel adapter code account db =
    (if js_upper (js_trim code) = [] then (Inr None, db)
     else channel_transaction other (ck_write clock) channel (resolve_state other (ck_now clock) adapter account
       (\<lambda>r. js_upper (pr_code r) = js_upper (js_trim code)) True) db)"
  by (simp add: approveChannelPairingCode_def resolveChannelPairingRequest_def normalizeNullableString_def Let_def)

lemma resolve_transaction_Some:
  assumes "db_ok other db" "safeChannelKey ch = Inr k"
    "channel_transaction other t ch (resolve_state other now adapter account matches approve) db = (Inr (Some (i, r)), db')"
  shows "i = pr_id r" "r \<in> set (ps_requests (view other ch db))" "\<not> isExpired other now r"
    "requestMatchesAccountId r (normalizePairingAccountId account)" "matches r" "db_ok other db'"
    "mset (ps_requests (view other ch db')) =
      mset (filter (\<lambda>r. \<not> isExpired other now r) (ps_requests (view other ch db))) - {#r#}"
    "jm_list (ps_allowFrom (view other ch db')) a = (if approve \<and> a = resolvePairingRequestAccountId r
       then extend_list (jm_list (ps_allowFrom (view other ch db)) a) (approval_entry adapter r)
       else jm_list (ps_allowFrom (view other ch db)) a)"
proof -
  let ?u = "resolve_state other now adapter account matches approve" let ?S = "view other ch db"
  note S = read_view(2) [OF assms(1,2)] view_clean [OF assms(1,2)]
  have res: "map_sum id fst (?u ?S) = Inr (Some (i, r))"
    using resolve_update.transaction_result [OF TrueI assms(1,2), of t now adapter account matches approve] assms(3) by simp
  show "db_ok other db'"
    using resolve_update.transaction_ok(1) [OF TrueI assms(1), of t ch now adapter account matches approve] assms(3) by simp
  have same: "same_state (view other ch db') (after other ?u ?S)"
    using resolve_update.transaction_view [OF TrueI assms(1,2), of t ch now adapter account matches approve] assms(2,3)
    by simp
  from res obtain w where u: "?u ?S = Inr (Some (i, r), w)"
    by (cases "?u ?S") auto
  from S(1) u obtain S' where S': "w = Some S'" "state_ok other S'" "i = pr_id r" "r \<in> set (ps_requests ?S)"
    "\<not> isExpired other now r" "requestMatchesAccountId r (normalizePairingAccountId account)" "matches r"
    by (rule resolve_state_Some)
  then show "i = pr_id r" "r \<in> set (ps_requests ?S)" "\<not> isExpired other now r"
    "requestMatchesAccountId r (normalizePairingAccountId account)" "matches r" by simp_all
  have "mset (ps_requests (after other ?u ?S)) = mset (filter (\<lambda>r. \<not> isExpired other now r) (ps_requests ?S)) - {#r#} \<and>
    (\<forall>a. jm_list (ps_allowFrom (after other ?u ?S)) a = (if approve \<and> a = resolvePairingRequestAccountId r
       then extend_list (jm_list (ps_allowFrom ?S) a) (approval_entry adapter r) else jm_list (ps_allowFrom ?S) a))"
    using S
  proof (rule after_resolve [where now = now and adapter = adapter and account = account and matches = matches
        and approve = approve], goal_cases)
    case (1 r')
    then have "r' = r" using u by simp
    with 1(6,7) show ?case by blast
  next
    case (2 w)
    then show ?case using u by simp
  next
    case (3 e)
    then show ?case using u by simp
  qed
  with same show "mset (ps_requests (view other ch db')) =
      mset (filter (\<lambda>r. \<not> isExpired other now r) (ps_requests (view other ch db))) - {#r#}"
    "jm_list (ps_allowFrom (view other ch db')) a = (if approve \<and> a = resolvePairingRequestAccountId r
       then extend_list (jm_list (ps_allowFrom (view other ch db)) a) (approval_entry adapter r)
       else jm_list (ps_allowFrom (view other ch db)) a)"
    by (simp_all add: same_state_def)
qed

lemma resolve_transaction_None:
  assumes "db_ok other db" "safeChannelKey ch = Inr k" "\<forall>r \<in> set (ps_requests (view other ch db)). \<not> matches r"
  shows "fst (channel_transaction other t ch (resolve_state other now adapter account matches approve) db) = Inr None"
proof -
  have "find (\<lambda>(_, r). requestMatchesAccountId r (normalizePairingAccountId account) \<and> matches r)
      (enumerate 0 (filter (\<lambda>r. \<not> isExpired other now r) (ps_requests (view other ch db)))) = None"
    using assms(3) by (simp add: find_enumerate_None)
  then show ?thesis
    by (subst resolve_update.transaction_result [OF TrueI assms(1,2)])
      (simp add: resolve_state_def pruneExpiredRequests_def Let_def)
qed

lemma upper_code: "requests_ok other rs \<Longrightarrow> r \<in> set rs \<Longrightarrow> js_upper (pr_code r) = pr_code r"
  by (simp add: requests_ok_def request_ok_def)

text \<open>No other pending request has the code of the one taken out.\<close>

lemma remaining_code:
  assumes "requests_ok other rs" "r \<in> set rs" "x \<in># mset (filter P rs) - {#r#}"
  shows "pr_code x \<noteq> pr_code r" "x \<in> set rs"
proof -
  have d: "distinct rs" "inj_on pr_code (set rs)"
    using assms(1) by (simp_all add: requests_ok_def distinct_map)
  then have "count (mset (filter P rs)) x \<le> 1"
    by (metis count_le_replicate_mset_subset_eq distinct_count_atmost_1 distinct_filter le_refl less_or_eq_imp_le not_one_le_zero nle_le zero_le_one)
  with assms(3) have "x \<noteq> r" by (auto simp: in_diff_count)
  moreover show "x \<in> set rs" using assms(3) by (auto dest: in_diffD)
  ultimately show "pr_code x \<noteq> pr_code r" using d(2) assms(2) by (auto simp: inj_on_def)
qed

text \<open>C12: A code is good for one approval of a pending, unexpired request of the account it is used for. Once it
  was approved no caller can use the code again, until a new request is issued a code.\<close>

theorem approval_is_single_use:
  assumes "list_all op_ok ops"
    "approveChannelPairingCode other clock channel adapter code account
       (pairing_run other digest collate ops empty_pairing) = (Inr (Some (i, r)), db)"
    "\<forall>op \<in> set later. \<not> issues_code op"
  shows "i = pr_id r \<and> r \<in> set (ps_requests (view other channel (pairing_run other digest collate ops empty_pairing))) \<and>
    \<not> isExpired other (ck_now clock) r \<and> pr_code r = js_upper (js_trim code) \<and>
    requestMatchesAccountId r (normalizePairingAccountId account) \<and>
    fst (approveChannelPairingCode other clock' channel adapter' code account'
      (pairing_run other digest collate later db)) = Inr None"
proof -
  let ?db = "pairing_run other digest collate ops empty_pairing" let ?c = "js_upper (js_trim code)"
  note ok = reachable_ok [OF assms(1), of other digest collate]
  have code: "?c \<noteq> []" and tr: "channel_transaction other (ck_write clock) channel
      (resolve_state other (ck_now clock) adapter account (\<lambda>r. js_upper (pr_code r) = ?c) True) ?db = (Inr (Some (i, r)), db)"
    using assms(2) by (simp_all add: approve_code_eq split: if_splits)
  obtain k where key: "safeChannelKey channel = Inr k"
    using tr by (cases "safeChannelKey channel") (simp_all add: transaction_blank)
  note res = resolve_transaction_Some [OF ok key tr]
  have reqs: "requests_ok other (ps_requests (view other channel ?db))"
    using read_view(2) [OF ok key] by (simp add: state_ok_def)
  note own = upper_code [OF reqs]
  have gone: "js_upper (pr_code x) \<noteq> ?c" if "x \<in> set (ps_requests (view other channel db))" for x
    using remaining_code [OF reqs res(2) that [unfolded set_mset_mset [symmetric] res(7)]] res(2,5) own by auto
  let ?later = "pairing_run other digest collate later db"
  have later: "db_ok other ?later" "set (ps_requests (view other channel ?later)) \<subseteq> set (ps_requests (view other channel db))"
    using run_shrinks [OF res(6) key assms(3)] by simp_all
  have "fst (approveChannelPairingCode other clock' channel adapter' code account' ?later) = Inr None"
    using later(2) gone code by (auto simp: approve_code_eq intro!: resolve_transaction_None [OF later(1) key])
  with res own show ?thesis by auto
qed

lemma same_code:
  "requests_ok other rs \<Longrightarrow> r \<in> set rs \<Longrightarrow> x \<in> set rs \<Longrightarrow> pr_code x = pr_code r \<Longrightarrow> x = r"
  by (auto simp: requests_ok_def distinct_map inj_on_def)

text \<open>A live request is found by its code.\<close>

lemma resolve_finds:
  assumes ok: "state_ok other S" and r: "r \<in> set (ps_requests S)" "\<not> isExpired other now r"
    "requestMatchesAccountId r (normalizePairingAccountId account)" "pr_code r = c"
    and plain: "\<not> inherited_member (resolvePairingRequestAccountId r)"
  shows "\<exists>w. resolve_state other now adapter account (\<lambda>r. js_upper (pr_code r) = c) True S = Inr (Some (pr_id r, r), w)"
proof -
  let ?P = "\<lambda>r. requestMatchesAccountId r (normalizePairingAccountId account) \<and> js_upper (pr_code r) = c"
  let ?live = "filter (\<lambda>r. \<not> isExpired other now r) (ps_requests S)"
  have reqs: "requests_ok other (ps_requests S)" using ok by (simp add: state_ok_def)
  have "find (\<lambda>(_, r). ?P r) (enumerate 0 ?live) \<noteq> None"
    using r upper_code [OF reqs r(1)] by (auto simp: find_enumerate_None)
  then obtain j x where f: "find (\<lambda>(_, r). ?P r) (enumerate 0 ?live) = Some (j, x)" by auto
  have "x \<in> set (ps_requests S)" "js_upper (pr_code x) = c" using find_live(3,4) [OF f] by simp_all
  then have "x = r" using same_code [OF reqs r(1)] upper_code [OF reqs] r(4) by metis
  moreover have "request_ok other r" using reqs r(1) by (simp add: requests_ok_def)
  ultimately show ?thesis
    using f plain approve_entry_eq [OF ok _ r(3)]
    by (auto simp: resolve_state_def pruneExpiredRequests_def Let_def)
qed

text \<open>After an upsert that created a request, the store of the channel holds it.\<close>

lemma created_request:
  assumes "db_ok other db" "safeChannelKey ch = Inr k" "clock_ok clock" "normalizeId sender \<noteq> []"
    "upsertChannelPairingRequest other draw clock ch sender account meta db = (Inr (code, True), db')"
  obtains r where "r \<in> set (ps_requests (view other ch db'))" "db_ok other db'" "pr_id r = normalizeId sender"
    "pr_code r = code" "pr_createdAt r = toISOString (ck_iso clock)" "resolvePairingRequestAccountId r = upsert_account account"
proof -
  let ?u = "upsert_state other draw clock sender account meta" let ?S = "view other ch db"
  let ?r = "upserted (normalizeId sender) code (toISOString (ck_iso clock)) account meta clock"
  note S = read_view(2) [OF assms(1,2)]
  have tr: "channel_transaction other (ck_write clock) ch ?u db = (Inr (code, True), db')"
    using assms(5) by (simp add: upsertChannelPairingRequest_def)
  then have res: "map_sum id fst (?u ?S) = Inr (code, True)"
    using upsert_update.transaction_result [OF assms(3,1,2), of "ck_write clock" draw sender account meta] by simp
  have db': "db_ok other db'"
    using upsert_update.transaction_ok(1) [OF assms(3,1), of "ck_write clock" ch draw sender account meta] tr by simp
  have same: "same_state (view other ch db') (after other ?u ?S)"
    using upsert_update.transaction_view [OF assms(3,1,2), of "ck_write clock" ch draw sender account meta] tr assms(2) by simp
  from res obtain w where u: "?u ?S = Inr ((code, True), w)" by (cases "?u ?S") auto
  from S assms(3) u obtain xs where added: "code_ok code" "w = Some (?S\<lparr>ps_requests := xs @ [?r]\<rparr>)"
    by (rule upsert_state_cases) auto
  have "text_ok (normalizeId sender)"
    using assms(4) trimmed_js_trim by (auto simp: normalizeId_def text_ok_def split: if_splits)
  then have ok: "request_ok other ?r"
    using added(1) assms(3) by (intro upserted_ok) (simp_all add: iso_text_ok clock_ok_def)
  then have "clean ?r \<in> set (ps_requests (after other ?u ?S))"
    using u added(2) by (simp add: after_def clean_state_def persistent_def normalize_request)
  then have "clean ?r \<in> set (ps_requests (view other ch db'))" by (simp add: same_state_sets(1) [OF same])
  from that [OF this db'] request_account(3) [OF ok] show ?thesis by (simp add: upserted_sel)
qed

lemma redeem_created:
  assumes "db_ok other db0" "clock_ok clock" "normalizeId sender \<noteq> []"
    "upsertChannelPairingRequest other draw clock channel sender account meta db0 = (Inr (code, True), db)"
    "js_upper (js_trim typed) = code" "ck_now clock' \<le> ck_iso clock + CHANNEL_PAIRING_PENDING_TTL_MS"
    "\<not> inherited_member (resolveAllowFromAccountId (Some account))"
  shows "\<exists>r db' l. approveChannelPairingCode other clock' channel adapter typed (Some account) db =
      (Inr (Some (normalizeId sender, r)), db') \<and>
    readAllowFromState other channel (Some account) db' = Inr l \<and>
    (approval_entry adapter r \<noteq> [] \<longrightarrow> approval_entry adapter r \<in> set l)"
proof -
  note ok = assms(1)
  obtain k where key: "safeChannelKey channel = Inr k"
    using assms(4) by (cases "safeChannelKey channel") (simp_all add: upsertChannelPairingRequest_def transaction_blank)
  from created_request [OF ok key assms(2-4)] obtain r where r: "r \<in> set (ps_requests (view other channel db))"
    "db_ok other db" "pr_id r = normalizeId sender" "pr_code r = code"
    "pr_createdAt r = toISOString (ck_iso clock)" "resolvePairingRequestAccountId r = upsert_account account" .
  note S = read_view(2) [OF r(2) key]
  have live: "\<not> isExpired other (ck_now clock') r"
    using assms(2,6) by (simp add: isExpired_def r(5) clock_ok_def)
  have account: "requestMatchesAccountId r (normalizePairingAccountId (Some account))"
    by (simp add: requestMatchesAccountId_def r(6) upsert_account_def)
  let ?u = "resolve_state other (ck_now clock') adapter (Some account) (\<lambda>r. js_upper (pr_code r) = code) True"
  obtain w where u: "?u (view other channel db) = Inr (Some (pr_id r, r), w)"
    using resolve_finds [OF S r(1) live account r(4)] assms(7) by (auto simp: r(6) upsert_account_eq)
  obtain db' where tr: "channel_transaction other (ck_write clock') channel ?u db = (Inr (Some (pr_id r, r)), db')"
    using resolve_update.transaction_result [OF TrueI r(2) key, of "ck_write clock'"] u by (metis fst_conv map_sum.simps(2) surj_pair)
  note res = resolve_transaction_Some [OF r(2) key tr]
  have "code \<noteq> []"
    using S r(1,4) by (auto simp: state_ok_def requests_ok_def request_ok_def code_ok_def PAIRING_CODE_LENGTH_def)
  then have "approveChannelPairingCode other clock' channel adapter typed (Some account) db =
      (Inr (Some (normalizeId sender, r)), db')"
    using tr assms(5) r(3) by (simp add: approve_code_eq)
  moreover have "readAllowFromState other channel (Some account) db' =
      Inr (extend_list (jm_list (ps_allowFrom (view other channel db)) (upsert_account account)) (approval_entry adapter r))"
    using read_allow [OF res(6) key, where account = "Some account"] res(8) assms(7) r(6)
    by (simp add: upsert_account_eq)
  ultimately show ?thesis by (auto simp: extend_list_def)
qed


end
