(* ===== verification/Pairing_Cap.thy ===== *)
theory Pairing_Cap
  imports Pairing_Updates
begin

text \<open>
  The cap on pending requests, for any list of requests (a store of an older version may hold more than
  the cap): each account keeps its most recently seen requests.
\<close>

abbreviation entries_of :: "string \<Rightarrow> PairingRequest list \<Rightarrow> (nat \<times> PairingRequest) list" where
  "entries_of a reqs \<equiv> filter (\<lambda>(i, r). resolvePairingRequestAccountId r = a) (enumerate 0 reqs)"

definition dropped_indexes :: "(string \<Rightarrow> int option) \<Rightarrow> nat \<Rightarrow> PairingRequest list \<Rightarrow> nat set" where
  "dropped_indexes other n reqs = {i. \<exists>a. i \<in> set (dropped_of other n (entries_of a reqs))}"

lemma dropped_indexes_eq:
  "set (concat (map (dropped_of other n) (jm_values (group_by_account reqs)))) = dropped_indexes other n reqs"
proof -
  have "\<exists>l \<in> set (jm_values (group_by_account reqs)). l = entries_of a reqs"
    if "dropped_of other n (entries_of a reqs) \<noteq> []" for a
  proof -
    from that have "jm_list (group_by_account reqs) a \<noteq> []" by (auto simp: group_lists(1) dropped_of_def)
    then obtain l where "jm_get (group_by_account reqs) a = Some l" "jm_list (group_by_account reqs) a = l"
      by (auto simp: jm_list_def split: option.splits)
    then show ?thesis by (auto simp: jm_values_def group_lists(1) dest: map_of_SomeD intro!: image_eqI [of _ snd "(a, l)"])
  qed
  then show ?thesis
    by (auto simp: dropped_indexes_def elim!: group_values) (metis empty_iff empty_set)+
qed

lemma dropped_few: "length reqs \<le> n \<Longrightarrow> dropped_indexes other n reqs = {}"
proof -
  assume "length reqs \<le> n"
  then have "length (entries_of a reqs) \<le> n" for a
    using length_filter_le [of "\<lambda>(i, r). resolvePairingRequestAccountId r = a" "enumerate 0 reqs"] by simp
  then show ?thesis by (auto simp: dropped_indexes_def dropped_of_def)
qed

lemma kept_eq:
  assumes "0 < n"
  shows "fst (pruneExcessRequestsByAccount other reqs n) =
    map snd (filter (\<lambda>e. fst e \<notin> dropped_indexes other n reqs) (enumerate 0 reqs))"
proof -
  let ?l = "concat (map (dropped_of other n) (jm_values (group_by_account reqs)))"
  let ?D = "dropped_indexes other n reqs"
  have all: "map snd (filter (\<lambda>e. fst e \<notin> ?D) (enumerate 0 reqs)) = reqs" if "?D = {}" using that by simp
  consider (few) "length reqs \<le> n" | (none) "\<not> length reqs \<le> n" "?l = []" | (some) "\<not> length reqs \<le> n" "?l \<noteq> []"
    by blast
  then show ?thesis
  proof cases
    case few
    with all [OF dropped_few] show ?thesis by (simp add: pruneExcessRequestsByAccount_def)
  next
    case none
    then have "?D = {}" using dropped_indexes_eq [of other n reqs] by simp
    with all none show ?thesis by (simp add: pruneExcessRequestsByAccount_def)
  next
    case some
    then show ?thesis
      using assms unfolding pruneExcessRequestsByAccount_def Let_def dropped_indexes_eq [symmetric]
      by (simp add: case_prod_unfold del: set_concat concat_eq_Nil_conv)
  qed
qed

text \<open>Of one account, sorting by last sight and taking the tail keeps what filtering keeps.\<close>

lemma distinct_filter_drop:
  assumes "distinct (map f s)"
  shows "filter (\<lambda>x. f x \<notin> f ` set (take m s)) s = drop m s"
proof -
  have "distinct (map f (take m s) @ map f (drop m s))" using assms by (simp flip: map_append)
  then have "filter (\<lambda>x. f x \<notin> f ` set (take m s)) (drop m s) = drop m s"
    by (auto simp: filter_id_conv)
  moreover have "filter (\<lambda>x. f x \<notin> f ` set (take m s)) (take m s) = []"
    by (simp add: filter_empty_conv)
  ultimately have "filter (\<lambda>x. f x \<notin> f ` set (take m s)) (take m s @ drop m s) = drop m s"
    by (simp only: filter_append append_Nil)
  then show ?thesis by (simp only: append_take_drop_id)
qed

lemma sorted_take_drop:
  assumes "x \<in> set (take m (sort_key f xs))" "y \<in> set (drop m (sort_key f xs))"
  shows "f x \<le> f y"
proof -
  have "sorted (map f (take m (sort_key f xs)) @ map f (drop m (sort_key f xs)))"
    by (simp flip: map_append)
  with assms show ?thesis unfolding sorted_append by auto
qed

lemma dropped_own:
  assumes "(i, r) \<in> set (enumerate 0 reqs)" "resolvePairingRequestAccountId r = a"
  shows "i \<in> dropped_indexes other n reqs \<longleftrightarrow> i \<in> set (dropped_of other n (entries_of a reqs))"
proof -
  have "a' = a" if "i \<in> set (dropped_of other n (entries_of a' reqs))" for a'
  proof -
    from that obtain r' where "(i, r') \<in> set (entries_of a' reqs)"
      by (auto simp: dropped_of_def split: if_splits dest!: in_set_takeD)
    with assms show ?thesis by (auto simp: in_set_enumerate_eq)
  qed
  then show ?thesis by (auto simp: dropped_indexes_def)
qed

lemma account_entries:
  fixes other n reqs a
  defines "s \<equiv> sort_key (\<lambda>e. resolveLastSeenAt other (snd e)) (entries_of a reqs)"
    and "m \<equiv> length (entries_of a reqs) - n"
  shows "mset (filter (\<lambda>e. fst e \<notin> dropped_indexes other n reqs) (entries_of a reqs)) = mset (drop m s)"
    "set (filter (\<lambda>e. fst e \<in> dropped_indexes other n reqs) (entries_of a reqs)) \<subseteq> set (take m s)"
proof -
  have own: "fst e \<in> dropped_indexes other n reqs \<longleftrightarrow> fst e \<in> fst ` set (take m s)" if "e \<in> set (entries_of a reqs)" for e
  proof -
    have "set (dropped_of other n (entries_of a reqs)) = fst ` set (take m s)"
      by (simp add: dropped_of_def s_def m_def)
    moreover obtain i r where "e = (i, r)" by (cases e)
    moreover from this that have "i \<in> dropped_indexes other n reqs \<longleftrightarrow> i \<in> set (dropped_of other n (entries_of a reqs))"
      by (intro dropped_own [where r = r]) auto
    ultimately show ?thesis by simp
  qed
  have dist: "distinct (map fst s)"
    by (simp add: s_def distinct_map_sort_key distinct_map_filter)
  have "mset (filter (\<lambda>e. fst e \<notin> dropped_indexes other n reqs) (entries_of a reqs)) =
      mset (filter (\<lambda>e. fst e \<notin> fst ` set (take m s)) (entries_of a reqs))"
    using own by (intro arg_cong [of _ _ mset] filter_cong) auto
  also have "\<dots> = mset (filter (\<lambda>e. fst e \<notin> fst ` set (take m s)) s)"
    by (simp only: mset_filter) (simp add: s_def)
  also have "\<dots> = mset (drop m s)" using distinct_filter_drop [OF dist] by simp
  finally show "mset (filter (\<lambda>e. fst e \<notin> dropped_indexes other n reqs) (entries_of a reqs)) = mset (drop m s)" .
  show "set (filter (\<lambda>e. fst e \<in> dropped_indexes other n reqs) (entries_of a reqs)) \<subseteq> set (take m s)"
  proof
    fix e assume "e \<in> set (filter (\<lambda>e. fst e \<in> dropped_indexes other n reqs) (entries_of a reqs))"
    then have e: "e \<in> set (entries_of a reqs)" "fst e \<in> fst ` set (take m s)" using own by auto
    then obtain x where x: "x \<in> set (take m s)" "fst x = fst e" by auto
    have "x \<in> set s" using x(1) by (rule in_set_takeD)
    moreover have "e \<in> set s" using e(1) by (simp add: s_def)
    ultimately have "x = e" using dist x(2) by (auto simp: distinct_map inj_on_def)
    with x(1) show "e \<in> set (take m s)" by simp
  qed
qed

text \<open>Capping a list of requests keeps some of them: of each account the cap, or all it has if they are fewer,
  and no request it drops was seen later than one of the same account it keeps.\<close>

theorem cap_keeps_most_recent:
  assumes "0 < maxPending"
  shows "let kept = fst (pruneExcessRequestsByAccount other reqs maxPending)
    in mset kept \<subseteq># mset reqs \<and> account_count a kept = min maxPending (account_count a reqs) \<and>
       (\<forall>d \<in># mset reqs - mset kept. \<forall>r \<in> set kept. resolvePairingRequestAccountId r = resolvePairingRequestAccountId d \<longrightarrow>
          resolveLastSeenAt other d \<le> resolveLastSeenAt other r)"
proof -
  let ?D = "dropped_indexes other maxPending reqs" let ?E = "enumerate 0 reqs"
  let ?kept = "map snd (filter (\<lambda>e. fst e \<notin> ?D) ?E)" let ?gone = "map snd (filter (\<lambda>e. fst e \<in> ?D) ?E)"
  have "mset ?E = mset (filter (\<lambda>e. fst e \<notin> ?D) ?E) + mset (filter (\<lambda>e. fst e \<in> ?D) ?E)"
    using multiset_partition [of "mset ?E" "\<lambda>e. fst e \<notin> ?D"] by simp
  then have "image_mset snd (mset ?E) = mset ?kept + mset ?gone"
    by (simp only: image_mset_union mset_map)
  moreover have "image_mset snd (mset ?E) = mset reqs" by (simp flip: mset_map)
  ultimately have split: "mset reqs = mset ?kept + mset ?gone" by simp
  have own: "account_count a (map snd (filter P ?E)) = length (filter P (entries_of a reqs))" for a P
    by (simp add: account_count_def filter_map comp_def case_prod_beta conj_commute)
  have "length (filter (\<lambda>e. fst e \<notin> ?D) (entries_of a reqs)) =
      length (entries_of a reqs) - (length (entries_of a reqs) - maxPending)"
    using mset_eq_length [OF account_entries(1) [where other = other and n = maxPending and reqs = reqs and a = a]]
    by simp
  then have "account_count a ?kept = min maxPending (account_count a reqs)"
    using own [of a "\<lambda>e. fst e \<notin> ?D"] own [of a "\<lambda>_. True"] by simp
  moreover have "resolveLastSeenAt other d \<le> resolveLastSeenAt other r"
    if "d \<in> set ?gone" "r \<in> set ?kept" and same: "resolvePairingRequestAccountId r = resolvePairingRequestAccountId d" for d r
  proof -
    let ?a = "resolvePairingRequestAccountId d"
    let ?s = "sort_key (\<lambda>e. resolveLastSeenAt other (snd e)) (entries_of ?a reqs)"
    let ?m = "length (entries_of ?a reqs) - maxPending"
    from that obtain i j where "(i, d) \<in> set (filter (\<lambda>e. fst e \<in> ?D) (entries_of ?a reqs))"
      "(j, r) \<in> set (filter (\<lambda>e. fst e \<notin> ?D) (entries_of ?a reqs))" by auto
    then have "(i, d) \<in> set (take ?m ?s)" "(j, r) \<in> set (drop ?m ?s)"
      using account_entries [where other = other and n = maxPending and reqs = reqs and a = ?a] by (blast, metis mset_eq_setD)
    then show ?thesis using sorted_take_drop by fastforce
  qed
  ultimately show ?thesis
    using kept_eq [OF assms, of other reqs] split by (simp add: Let_def)
qed

end
