(* ===== verification/Pairing_Witnesses.thy ===== *)
theory Pairing_Witnesses
  imports Pairing_Claims Pairing_Cap
begin

text \<open>The properties of the pairing store at concrete runs.\<close>

definition ex_clock :: Clock where
  "ex_clock = \<lparr>ck_iso = 1700000000000, ck_now = 1700000000001, ck_write = 1700000000002\<rparr>"

definition ex_digest :: "string \<Rightarrow> string" where "ex_digest s = s"
definition ex_collate :: "string \<Rightarrow> string \<Rightarrow> int" where
  "ex_collate a b = (if a < b then - 1 else if a = b then 0 else 1)"

abbreviation no_date :: "string \<Rightarrow> int option" where "no_date \<equiv> \<lambda>_. None"

text \<open>The sender 42 asks for pairing with the account \<open>Work\<close>; every random number is 0.\<close>

definition ex_ask :: pairing_op where
  "ex_ask = Upsert_Request (\<lambda>_. 0) ex_clock ''telegram'' ''42'' ''Work'' None"

definition ex_request :: PairingRequest where
  "ex_request = \<lparr>pr_id = ''42'', pr_code = ''AAAAAAAA'', pr_createdAt = ''2023-11-14T22:13:20.000Z'',
     pr_lastSeenAt = ''2023-11-14T22:13:20.000Z'', pr_meta = Some [(''accountId'', ''work'')]\<rparr>"

abbreviation ex_run :: "pairing_op list \<Rightarrow> pairing_db" where
  "ex_run ops \<equiv> pairing_run no_date ex_digest ex_collate ops empty_pairing"

abbreviation ex_approve :: "pairing_db \<Rightarrow> (pairing_error + (string \<times> PairingRequest) option) \<times> pairing_db" where
  "ex_approve \<equiv> approveChannelPairingCode no_date ex_clock ''telegram'' None '' aaaaaaaa '' (Some ''Work'')"

lemma ex_hypotheses: "list_all op_ok [ex_ask]" "safeChannelKey ''telegram'' = Inr ''telegram''" "clock_ok ex_clock"
  by (code_simp, code_simp, code_simp)

lemma ex_issued: "fst (upsertChannelPairingRequest no_date (\<lambda>_. 0) ex_clock ''telegram'' ''42'' ''Work'' None empty_pairing) =
    Inr (''AAAAAAAA'', True)"
  by code_simp

lemma ex_typed: "normalizeId ''42'' = ''42''" "js_upper (js_trim '' aaaaaaaa '') = ''AAAAAAAA''"
  "ck_now ex_clock \<le> ck_iso ex_clock + CHANNEL_PAIRING_PENDING_TTL_MS"
  "\<not> inherited_member (resolveAllowFromAccountId (Some ''Work''))"
  by (code_simp, code_simp, code_simp, code_simp)

lemma ex_asked:
  "upsertChannelPairingRequest no_date (\<lambda>_. 0) ex_clock ''telegram'' ''42'' ''Work'' None empty_pairing =
     (Inr (''AAAAAAAA'', True), ex_run [ex_ask])"
  using ex_issued by (simp add: prod_eq_iff pairing_run_def pairing_step_def ex_ask_def)

lemma ex_approved: "\<exists>r db. ex_approve (ex_run [ex_ask]) = (Inr (Some (''42'', r)), db)"
  using redeem_created [OF empty_ok ex_hypotheses(3) _ ex_asked ex_typed(2-4), where adapter = None] ex_typed(1)
  by auto

lemma ex_allowed: "readAllowFromState no_date ''telegram'' (Some ''work'')
    (ex_run [Add_Allow 0 ''telegram'' None '' 42'' (Some ''Work'')]) = Inr [''42'']"
  by code_simp

section \<open>The witnesses\<close>

theorem pairing_store_stays_valid_witness:
  "(\<exists>S. readChannelPairingStateFromDatabase no_date ''telegram'' (ex_run [ex_ask]) = Inr S \<and>
      requests_ok no_date (ps_requests S) \<and> allow_ok (ps_allowFrom S)) \<and>
   fst (pairing_step no_date ex_digest ex_collate ex_ask (ex_run [ex_ask])) \<noteq> Some Constraint_Failed"
  using pairing_store_stays_valid [OF ex_hypotheses(1) _ ex_hypotheses(2), of ex_ask no_date ex_digest ex_collate]
    ex_hypotheses(1) by simp

theorem allow_entries_were_granted_witness:
  "\<exists>before op since. [Add_Allow 0 ''telegram'' None '' 42'' (Some ''Work'')] = before @ op # since \<and>
    grants no_date ex_digest (ex_run before) ''telegram'' (resolveAllowFromAccountId (Some ''work'')) ''42'' op"
  using allow_entries_were_granted [OF _ ex_allowed, of "''42''"] by (fastforce simp: op_ok_def)

theorem approval_is_single_use_witness:
  "\<exists>r db. ex_approve (ex_run [ex_ask]) = (Inr (Some (''42'', r)), db) \<and>
    fst (ex_approve (pairing_run no_date ex_digest ex_collate
      [Approve_Code ex_clock ''telegram'' None ''x'' None] db)) = Inr None"
proof -
  obtain r db where "ex_approve (ex_run [ex_ask]) = (Inr (Some (''42'', r)), db)" using ex_approved by blast
  from this approval_is_single_use [OF ex_hypotheses(1) this, of "[Approve_Code ex_clock ''telegram'' None ''x'' None]"
      ex_clock None "Some ''Work''"]
  show ?thesis by (auto simp: issues_code_def)
qed


theorem cap_keeps_most_recent_witness:
  "let kept = fst (pruneExcessRequestsByAccount no_date [ex_request, ex_request] 1)
   in mset kept \<subseteq># mset [ex_request, ex_request] \<and>
      account_count ''work'' kept = min 1 (account_count ''work'' [ex_request, ex_request])"
  using cap_keeps_most_recent [of 1 no_date "[ex_request, ex_request]" "''work''"] by (simp add: Let_def)

end
