(* ===== verification/Session_Key_Laws.thy ===== *)
theory Session_Key_Laws
  imports Session_Key_Build
begin

text \<open>
  Laws of the two sides of session keys: normalized ids are made of harmless characters, the
  canonical form leaves a key alone that is folded already or carries a preserved peer id, and the
  parser of agent keys undoes their construction.
\<close>

section \<open>Normalized ids\<close>

text \<open>What a key relies on of the ids it is built from.\<close>

locale id_normalizer =
  fixes norm :: "string option \<Rightarrow> string"
  assumes norm_not_Nil: "norm v \<noteq> []"
    and norm_chars: "list_all id_char (norm v)"
begin

lemma norm_char: "c \<in> set (norm v) \<Longrightarrow> id_char c"
  using norm_chars [of v] by (simp add: list_all_iff)

lemma norm_no_colon: "CHR '':'' \<notin> set (norm v)"
  using norm_char [of "CHR '':''" v] by (auto simp: id_char_def id_alnum_def)

lemma norm_no_space: "no_space (norm v)"
  unfolding no_space_def
proof
  fix c assume "c \<in> set (norm v)"
  then have "id_char c" by (rule norm_char)
  then show "\<not> js_space c"
    by (auto simp: id_char_def id_alnum_def js_space_def Let_def)
qed

lemma norm_lower: "js_lower (norm v) = norm v"
  unfolding js_lower_def
proof (rule map_idI)
  fix c assume "c \<in> set (norm v)"
  then have "id_char c" by (rule norm_char)
  then show "js_lower_char c = c"
    by (auto simp: id_char_def id_alnum_def js_lower_char_def Let_def)
qed

end

lemma replace_invalid_chars: "list_all id_char (replace_invalid b s)"
  by (induction b s rule: replace_invalid.induct) (auto simp: id_char_def)

lemma list_all_dropWhile: "list_all P s \<Longrightarrow> list_all P (dropWhile Q s)"
  by (auto simp: list_all_iff dest: set_dropWhileD)

lemma sanitize_id_chars: "list_all id_char (sanitize_id s)"
  using replace_invalid_chars [of False s]
  by (auto simp: sanitize_id_def strip_leading_dashes_def strip_trailing_dashes_def list_all_iff
      dest!: in_set_takeD set_dropWhileD)

lemma valid_id_chars: "VALID_ID_RE s \<Longrightarrow> list_all id_char (js_lower s) \<and> s \<noteq> []"
  by (cases s) (auto simp: VALID_ID_RE_def js_lower_def id_char_def)

lemma normalizeAgentId_chars: "normalizeAgentId v \<noteq> [] \<and> list_all id_char (normalizeAgentId v)"
  using valid_id_chars [of "trim_or_empty v"] sanitize_id_chars
  by (auto simp: normalizeAgentId_def normalizeAgentIdStrict_def Let_def DEFAULT_AGENT_ID_def id_char_def
      id_alnum_def trim_or_empty_def split: option.split)

lemma normalizeAccountId_chars: "normalizeAccountId v \<noteq> [] \<and> list_all id_char (normalizeAccountId v)"
  using valid_id_chars [of "trim_or_empty v"] sanitize_id_chars
  by (auto simp: normalizeAccountId_def normalizeCanonicalAccountId_def canonicalizeAccountId_def Let_def
      DEFAULT_ACCOUNT_ID_def id_char_def id_alnum_def trim_or_empty_def split: option.split)

interpretation agent_id: id_normalizer normalizeAgentId
  using normalizeAgentId_chars by unfold_locales auto

interpretation account_id: id_normalizer normalizeAccountId
  using normalizeAccountId_chars by unfold_locales auto

section \<open>Segments\<close>

lemma js_split_append: "js_split c (u @ c # v) = js_split c u @ js_split c v"
proof (induction u)
  case (Cons x u)
  obtain p ps where "js_split c u = p # ps" by (meson js_split_not_Nil neq_Nil_conv)
  with Cons show ?case by simp
qed simp

lemma js_split_last_part: "c \<notin> set w \<Longrightarrow> \<exists>x. last (js_split c (u @ w)) = x @ w"
proof (induction u)
  case Nil
  then show ?case by (intro exI [of _ "[]"]) simp
next
  case (Cons y u)
  then obtain x where x: "last (js_split c (u @ w)) = x @ w" by auto
  obtain p ps where s: "js_split c (u @ w) = p # ps" by (meson js_split_not_Nil neq_Nil_conv)
  from x s show ?case by (cases "ps = []") (auto intro: exI [of _ "y # x"])
qed

lemma js_split_hd_not_Nil: "s \<noteq> [] \<Longrightarrow> hd s \<noteq> c \<Longrightarrow> hd (js_split c s) \<noteq> []"
  by (cases s) (auto split: list.split)

lemma js_split_two: "js_split c s = p # q # r \<Longrightarrow> s = p @ c # js_join c (q # r)"
  using js_join_split [of c s] by (metis js_join.simps(3))

section \<open>The canonical form\<close>

lemma js_slice_append: "i \<le> j \<Longrightarrow> js_slice s i j @ drop j s = drop i s"
  by (simp add: js_slice_def) (metis add.commute append_take_drop_id drop_drop le_add_diff_inverse)

lemma no_space_slice: "no_space s \<Longrightarrow> no_space (js_slice s i j)"
  by (simp add: js_slice_def no_space_take_drop)

lemma js_lower_slice: "js_lower s = s \<Longrightarrow> js_lower (js_slice s i j) = js_slice s i j"
  by (simp add: js_slice_def js_lower_take js_lower_drop)

lemma emit_spans_lower:
  assumes "no_space raw" "js_lower raw = raw" "\<forall>s \<in> set spans. ps_start s < ps_end s"
  shows "emit_spans raw cursor spans = drop cursor raw"
  using assms(3)
proof (induction spans arbitrary: cursor)
  case Nil
  then show ?case using assms by (simp add: no_space_take_drop js_lower_drop)
next
  case (Cons s spans)
  have fixed: "js_lower (js_slice raw i j) = js_slice raw i j" "js_trim (js_slice raw i j) = js_slice raw i j" for i j
    using assms by (simp_all add: no_space_slice js_lower_slice)
  from Cons show ?case
    by (auto simp: fixed js_slice_append Let_def)
qed

lemma collected_sorted_props:
  "s \<in> set (sort_key ps_start (filter (\<lambda>span. ps_start span < ps_end span) spans)) \<longleftrightarrow>
     s \<in> set spans \<and> ps_start s < ps_end s"
  by auto

lemma canonical_lower:
  assumes "no_space raw" "js_lower raw = raw"
  shows "canonical_session_key raw = raw"
  using assms emit_spans_lower [OF assms, of _ 0] by (simp add: canonical_session_key_def)

text \<open>A span that reaches from the end of a folded head to the end of the key.\<close>

lemma emit_spans_tail:
  assumes "no_space raw" "raw = head @ peer" "js_lower head = head"
    and spans: "\<forall>s \<in> set spans. length head \<le> ps_start s \<and> ps_start s < ps_end s \<and> ps_end s \<le> length raw \<and>
      (ps_start s = length head \<longrightarrow> ps_end s = length raw)"
    and "sorted (map ps_start spans)" "\<exists>s \<in> set spans. ps_start s = length head"
  shows "emit_spans raw 0 spans = raw"
proof -
  obtain s0 rest where r: "spans = s0 # rest" using assms(6) by (cases spans) auto
  have "ps_start s0 = length head"
    using assms(4-6) r by (auto simp: dest: order_antisym)
  then have s0: "ps_start s0 = length head" "ps_end s0 = length raw"
    using spans r by auto
  have skip: "emit_spans raw (length raw) ss = []" if "\<forall>s \<in> set ss. ps_start s < length raw" for ss
    using that by (induction ss) simp_all
  have "\<forall>s \<in> set rest. ps_start s < length raw"
    using spans r by fastforce
  moreover have "js_slice raw 0 (length head) = head" "js_slice raw (length head) (length raw) = peer"
    using assms(2) by (simp_all add: js_slice_def)
  moreover have "no_space head" "no_space peer" using assms(1,2) by simp_all
  ultimately show ?thesis
    using s0 r skip [of rest] assms(2,3) by simp
qed

lemma segment_spans_step:
  "length raw \<le> i \<Longrightarrow> segment_spans prefix raw i = []"
  "i < length raw \<Longrightarrow> segment_match prefix raw i = None \<Longrightarrow>
    segment_spans prefix raw i = segment_spans prefix raw (Suc i)"
  "i < length raw \<Longrightarrow> segment_match prefix raw i = Some (a, b) \<Longrightarrow>
    segment_spans prefix raw i = \<lparr>ps_start = a, ps_end = b, ps_trim = True\<rparr> # segment_spans prefix raw b"
  by (simp_all add: segment_spans.simps [of prefix raw i])

lemma segment_spans_bounds:
  "s \<in> set (segment_spans prefix raw i) \<Longrightarrow>
    \<exists>j. segment_match prefix raw j = Some (ps_start s, ps_end s)"
proof (induction prefix raw i rule: segment_spans.induct)
  case (1 prefix raw i)
  show ?case
  proof (cases "i < length raw")
    case False
    with 1(3) show ?thesis by (simp add: segment_spans_step)
  next
    case True
    show ?thesis
    proof (cases "segment_match prefix raw i")
      case None
      with True 1(1) 1(3) show ?thesis by (simp add: segment_spans_step(2) [OF True None])
    next
      case (Some m)
      obtain a b where m: "m = (a, b)" by (cases m)
      from 1(3) consider "s = \<lparr>ps_start = a, ps_end = b, ps_trim = True\<rparr>" | "s \<in> set (segment_spans prefix raw b)"
        by (auto simp: segment_spans_step(3) [OF True Some [unfolded m]])
      then show ?thesis
      proof cases
        case 1
        with Some m show ?thesis by (intro exI [of _ i]) simp
      next
        case 2
        from 1(2) [OF _ Some m [symmetric]] True 2 show ?thesis by simp
      qed
    qed
  qed
qed

lemma segment_spans_skip:
  assumes "\<And>j. i \<le> j \<Longrightarrow> j < k \<Longrightarrow> segment_match prefix raw j = None" "i \<le> k" "k \<le> length raw"
  shows "segment_spans prefix raw i = segment_spans prefix raw k"
  using assms
proof (induction "k - i" arbitrary: i)
  case (Suc n)
  then have "i < k" by simp
  with Suc.prems have "segment_spans prefix raw i = segment_spans prefix raw (Suc i)"
    by (intro segment_spans_step(2)) auto
  also have "\<dots> = segment_spans prefix raw k"
    using Suc.hyps(2) Suc.prems \<open>i < k\<close> by (intro Suc.hyps(1)) auto
  finally show ?case .
qed simp

text \<open>Where a segment starts, the prefix ends.\<close>

lemma segment_match_text:
  assumes "segment_match prefix raw j = Some (a, b)"
  shows "\<exists>u v. js_lower raw = u @ prefix @ v \<and> a = length u + length prefix"
proof -
  obtain i where at: "segment_at prefix raw i = Some (a, b)"
    using assms by (auto simp: segment_match_def split: option.splits if_splits)
  then have i: "starts_ci (drop i raw) prefix" "a = i + length prefix"
    by (auto simp: segment_at_def Let_def split: if_splits)
  obtain v where v: "drop i (js_lower raw) = prefix @ v"
    using i(1) by (auto simp: starts_ci_def js_startsWith_iff js_lower_drop)
  let ?u = "take i (js_lower raw)"
  have "js_lower raw = ?u @ prefix @ v"
    using append_take_drop_id [of i "js_lower raw"] v by simp
  moreover have "i \<le> length raw"
    using segment_at_bounds [OF at] by simp
  then have "a = length ?u + length prefix" using i(2) by simp
  ultimately show ?thesis by blast
qed

end
