(* ===== verification/Session_Key_Canonical.thy ===== *)
theory Session_Key_Canonical
  imports Session_Key_Laws
begin

text \<open>
  The canonical form of a key \<open>agent:<id>:<channel>:<kind>:<peer>\<close> whose peer id the channel owns:
  the spans found in it are exactly the peer id, so the key is left as it is.
\<close>

definition key_head :: "string \<Rightarrow> string \<Rightarrow> string \<Rightarrow> string" where
  "key_head agent channel kind = ''agent:'' @ agent @ '':'' @ channel @ '':'' @ kind @ '':''"

definition plain_part :: "string \<Rightarrow> bool" where
  "plain_part s \<longleftrightarrow> CHR '':'' \<notin> set s"

lemma plain_literals [simp]:
  "plain_part ''agent''" "plain_part ''matrix''" "plain_part ''signal''" "plain_part ''group''"
  "plain_part ''channel''" "plain_part ''direct''"
  by (simp_all add: plain_part_def)

lemma split_colon [simp]: "plain_part a \<Longrightarrow> js_split CHR '':'' (a @ CHR '':'' # s) = a # js_split CHR '':'' s"
  by (simp add: plain_part_def)

lemma key_head_split:
  assumes "plain_part agent" "plain_part channel" "plain_part kind"
  shows "js_split CHR '':'' (key_head agent channel kind @ s) =
    ''agent'' # agent # channel # kind # js_split CHR '':'' s"
  using assms by (simp add: key_head_def)

text \<open>Where \<open>signal:group:\<close> can occur in a head.\<close>

lemma signal_in_head:
  assumes plain: "plain_part agent" "plain_part channel" "plain_part kind"
    and eq: "key_head agent channel kind = u @ ''signal:group:'' @ v" and "channel \<noteq> ''group''"
  shows "v = [] \<and> kind = ''group'' \<and> (\<exists>x. channel = x @ ''signal'')"
proof -
  let ?xs = "js_split CHR '':'' (u @ ''signal'')"
  have "js_split CHR '':'' (u @ ''signal:group:'' @ v) = ?xs @ js_split CHR '':'' (''group:'' @ v)"
    using js_split_append [of "CHR '':''" "u @ ''signal''" "''group:'' @ v"] by simp
  then have s: "?xs @ ''group'' # js_split CHR '':'' v = [''agent'', agent, channel, kind, []]"
    using key_head_split [OF plain, of "[]"] eq by simp
  obtain x where x: "last ?xs = x @ ''signal''"
    using js_split_last_part [of "CHR '':''" "''signal''" u] by auto
  have len: "length x + 6 = length (x @ ''signal'')" by simp
  have short: "x @ ''signal'' \<noteq> ''agent''"
  proof
    assume "x @ ''signal'' = ''agent''"
    then have "length (x @ ''signal'') = length ''agent''" by (rule arg_cong)
    then show False by simp
  qed
  from s consider "?xs = [''agent'']" | "?xs = [''agent'', agent]" "channel = ''group''"
    | "?xs = [''agent'', agent, channel]" "kind = ''group''" "js_split CHR '':'' v = [[]]"
    by (auto simp: append_eq_Cons_conv)
  then show ?thesis
  proof cases
    case 1
    with x short show ?thesis by simp
  next
    case 2
    with assms(5) show ?thesis by simp
  next
    case 3
    have "v = js_join CHR '':'' (js_split CHR '':'' v)" by simp
    then have "v = []" using 3(3) by (metis js_join.simps(2))
    with 3 x show ?thesis by auto
  qed
qed

lemma segment_match_shape:
  assumes "segment_match prefix raw j = Some (a, b)"
  shows "a \<le> Suc j + length prefix" "b = a + length (takeWhile (\<lambda>c. c \<noteq> CHR '':'') (drop a raw))"
  using assms by (auto simp: segment_match_def segment_at_def Let_def split: option.splits if_splits)

lemma append_prefix: "xs @ ys = p @ v \<Longrightarrow> length p \<le> length xs \<Longrightarrow> xs = p @ drop (length p) xs"
  by (metis append_eq_append_conv_if append_take_drop_id)

lemma signal_match_start:
  assumes plain: "plain_part agent" "plain_part channel" "plain_part kind" "channel \<noteq> ''group''"
    and lower: "js_lower (key_head agent channel kind) = key_head agent channel kind"
    and m: "segment_match ''signal:group:'' (key_head agent channel kind @ peer) j = Some (a, b)"
  shows "length (key_head agent channel kind) \<le> a"
    "a = length (key_head agent channel kind) \<Longrightarrow> kind = ''group'' \<and> (\<exists>x. channel = x @ ''signal'')"
proof -
  let ?h = "key_head agent channel kind"
  obtain u v where uv: "?h @ js_lower peer = u @ ''signal:group:'' @ v" "a = length u + length ''signal:group:''"
    using segment_match_text [OF m] lower by (auto simp: js_lower_append)
  have within: "\<exists>v'. ?h = u @ ''signal:group:'' @ v' \<and> length ?h = a + length v'" if "a \<le> length ?h"
  proof -
    from uv(1) have "?h @ js_lower peer = (u @ ''signal:group:'') @ v" by simp
    moreover have "length (u @ ''signal:group:'') \<le> length ?h"
      using that uv(2) by simp
    ultimately have "?h = (u @ ''signal:group:'') @ drop (length (u @ ''signal:group:'')) ?h"
      by (rule append_prefix)
    then show ?thesis
      using uv(2) that by (intro exI [of _ "drop (length (u @ ''signal:group:'')) ?h"]) simp
  qed
  show "length ?h \<le> a"
  proof (rule ccontr)
    assume "\<not> length ?h \<le> a"
    with within obtain v' where v': "?h = u @ ''signal:group:'' @ v'" "length ?h = a + length v'" by auto
    from signal_in_head [OF plain(1-3) v'(1) plain(4)] v'(2) \<open>\<not> length ?h \<le> a\<close> show False by simp
  qed
  show "kind = ''group'' \<and> (\<exists>x. channel = x @ ''signal'')" if "a = length ?h"
  proof -
    from within that obtain v' where v': "?h = u @ ''signal:group:'' @ v'" by auto
    from signal_in_head [OF plain(1-3) v' plain(4)] show ?thesis by simp
  qed
qed

lemma strip_head:
  assumes "plain_part agent"
  shows "strip_agent_wrapper (key_head agent channel kind @ peer) = Some (channel @ '':'' @ kind @ '':'' @ peer)"
proof -
  have "dropWhile (\<lambda>c. c \<noteq> CHR '':'') (agent @ CHR '':'' # r) = CHR '':'' # r" for r
    using assms by (auto simp: plain_part_def dropWhile_append3)
  then show ?thesis
    by (simp add: strip_agent_wrapper_def key_head_def starts_ci_def js_startsWith_def js_lower_def)
       (simp add: js_lower_char_def)
qed

lemma strip_wrappers_head:
  assumes "plain_part agent" "channel = ''matrix'' \<or> channel = ''signal''"
  shows "strip_agent_wrappers (key_head agent channel kind @ peer) = channel @ '':'' @ kind @ '':'' @ peer"
proof -
  have "strip_agent_wrapper (channel @ '':'' @ kind @ '':'' @ peer) = None"
    using assms(2) by (auto simp: strip_agent_wrapper_def starts_ci_def js_startsWith_def js_lower_def js_lower_char_def)
  then show ?thesis
    using strip_head [OF assms(1), of channel kind peer]
    by (simp add: strip_agent_wrappers.simps)
qed

lemma dropWhile_colon_literal:
  "dropWhile (\<lambda>c. c = CHR '':'') (''matrix'' @ s) = ''matrix'' @ s"
  "dropWhile (\<lambda>c. c = CHR '':'') (''signal'' @ s) = ''signal'' @ s"
  by simp_all

lemma starts_ci_literal: "js_lower p = p \<Longrightarrow> starts_ci (p @ s) p"
  by (simp add: starts_ci_def js_lower_append)

lemma key_head_length: "length (key_head agent channel kind) = 9 + length agent + length channel + length kind"
  by (simp add: key_head_def)

text \<open>Which pattern with an opaque tail matches.\<close>

lemma tail_match_head:
  assumes "plain_part agent" "kind = ''group'' \<or> kind = ''channel''" "pk = ''group'' \<or> pk = ''channel''"
  shows "tail_pattern_match (''matrix:'' @ pk @ '':'') (key_head agent ''matrix'' kind @ peer) =
      (if pk = kind then Some (length (key_head agent ''matrix'' kind)) else None)"
    "tail_pattern_match (''matrix:'' @ pk @ '':'') (key_head agent ''signal'' kind @ peer) = None"
    "unscoped_pattern_match (''matrix:'' @ pk @ '':'') (key_head agent channel kind @ peer) = None"
proof -
  note strip = strip_head [OF assms(1)] strip_wrappers_head [OF assms(1)]
  show "tail_pattern_match (''matrix:'' @ pk @ '':'') (key_head agent ''matrix'' kind @ peer) =
      (if pk = kind then Some (length (key_head agent ''matrix'' kind)) else None)"
    using assms(2,3)
    by (auto simp: tail_pattern_match_def strip Let_def starts_ci_def js_startsWith_def js_lower_def
        js_lower_char_def key_head_length)
  show "tail_pattern_match (''matrix:'' @ pk @ '':'') (key_head agent ''signal'' kind @ peer) = None"
    by (simp add: tail_pattern_match_def strip Let_def starts_ci_def js_startsWith_def js_lower_def
        js_lower_char_def)
  show "unscoped_pattern_match (''matrix:'' @ pk @ '':'') (key_head agent channel kind @ peer) = None"
    by (simp add: unscoped_pattern_match_def starts_ci_def js_startsWith_def js_lower_def
        js_lower_char_def key_head_def)
qed

lemma patterns_eval:
  "CASE_PRESERVING_PEER_PATTERNS =
     [\<lparr>pp_span = SegmentSpan, pp_prefix = ''signal:group:'', pp_unscoped = False\<rparr>,
      \<lparr>pp_span = TailSpan, pp_prefix = ''matrix:channel:'', pp_unscoped = True\<rparr>,
      \<lparr>pp_span = TailSpan, pp_prefix = ''matrix:group:'', pp_unscoped = True\<rparr>]"
  by (simp add: CASE_PRESERVING_PEER_PATTERNS_def CASE_PRESERVING_PEERS_def)

lemma collected_matrix:
  assumes "plain_part agent" "kind = ''group'' \<or> kind = ''channel''"
    and "peer \<noteq> []" "no_space peer" "\<not> js_includes (js_lower peer) THREAD_MARKER"
  shows "set (collectCasePreservedSpans (key_head agent ''matrix'' kind @ peer)) =
    insert \<lparr>ps_start = length (key_head agent ''matrix'' kind),
        ps_end = length (key_head agent ''matrix'' kind @ peer), ps_trim = False\<rparr>
      (set (segment_spans ''signal:group:'' (key_head agent ''matrix'' kind @ peer) 0))"
proof -
  note tm = tail_match_head [OF assms(1,2), of "''channel''", simplified]
    tail_match_head [OF assms(1,2), of "''group''", simplified]
  have "js_lastIndexOf (js_lower peer) THREAD_MARKER = None"
    using assms(5) by (simp add: js_lastIndexOf_None_iff)
  with assms(2-4) show ?thesis
    by (auto simp: collectCasePreservedSpans_def patterns_eval pattern_spans_def tm tail_spans_def)
qed

lemma collected_signal:
  assumes "plain_part agent"
  shows "collectCasePreservedSpans (key_head agent ''signal'' ''group'' @ peer) =
    segment_spans ''signal:group:'' (key_head agent ''signal'' ''group'' @ peer) 0"
proof -
  note tm = tail_match_head [OF assms(1), of "''group''" "''channel''", simplified]
    tail_match_head [OF assms(1), of "''group''" "''group''", simplified]
  show ?thesis
    by (simp add: collectCasePreservedSpans_def patterns_eval pattern_spans_def tm)
qed

section \<open>Keys that carry a preserved peer id\<close>

definition preserved_peer :: "string \<Rightarrow> string \<Rightarrow> string \<Rightarrow> bool" where
  "preserved_peer channel kind peer \<longleftrightarrow>
     channel = ''matrix'' \<and> (kind = ''group'' \<or> kind = ''channel'') \<and> \<not> js_includes (js_lower peer) THREAD_MARKER \<or>
     channel = ''signal'' \<and> kind = ''group'' \<and> plain_part peer"

definition carries_preserved :: "string \<Rightarrow> string \<Rightarrow> string \<Rightarrow> string \<Rightarrow> bool" where
  "carries_preserved agent channel kind peer \<longleftrightarrow> plain_part agent \<and> preserved_peer channel kind peer \<and>
     peer \<noteq> [] \<and> no_space (key_head agent channel kind @ peer) \<and>
     js_lower (key_head agent channel kind) = key_head agent channel kind"

abbreviation agent_key :: "string \<Rightarrow> string \<Rightarrow> string \<Rightarrow> string \<Rightarrow> string" where
  "agent_key agent channel kind peer \<equiv> key_head agent channel kind @ peer"

lemma carries_preservedD:
  assumes "carries_preserved agent channel kind peer"
  shows plain: "plain_part agent" "plain_part channel" "plain_part kind" "channel \<noteq> ''group''"
    and preserved: "preserved_peer channel kind peer" and peer: "peer \<noteq> []"
    and space: "no_space (key_head agent channel kind @ peer)"
    and head: "js_lower (key_head agent channel kind) = key_head agent channel kind"
  using assms by (auto simp: carries_preserved_def preserved_peer_def)

lemma preserved_may:
  assumes ok: "carries_preserved agent channel kind peer"
  shows "mayContainCasePreservingPeer (agent_key agent channel kind peer)"
proof -
  note plain = carries_preservedD(1-4) [OF ok] and preserved = carries_preservedD(5) [OF ok]
    and peer = carries_preservedD(6) [OF ok] and space = carries_preservedD(7) [OF ok]
    and head = carries_preservedD(8) [OF ok]
  have "js_lower (agent_key agent channel kind peer) = (''agent:'' @ agent @ '':'') @ (channel @ '':'') @ (kind @ '':'' @ js_lower peer)"
    by (simp only: js_lower_append head) (simp add: key_head_def)
  then have "js_includes (js_lower (agent_key agent channel kind peer)) (channel @ '':'')"
    unfolding js_includes_iff by blast
  then show ?thesis
    using preserved by (auto simp: preserved_peer_def mayContainCasePreservingPeer_def CASE_PRESERVING_PEERS_def)
qed

lemma signal_span_bounds:
  assumes ok: "carries_preserved agent channel kind peer"
    and s: "s \<in> set (segment_spans ''signal:group:'' (agent_key agent channel kind peer) 0)"
  shows "length (key_head agent channel kind) \<le> ps_start s \<and> ps_start s < ps_end s \<and> ps_end s \<le> length (agent_key agent channel kind peer) \<and>
    (ps_start s = length (key_head agent channel kind) \<longrightarrow> ps_end s = length (agent_key agent channel kind peer))"
proof -
  let ?raw = "agent_key agent channel kind peer"
  note plain = carries_preservedD(1-4) [OF ok] and preserved = carries_preservedD(5) [OF ok]
    and peer = carries_preservedD(6) [OF ok] and space = carries_preservedD(7) [OF ok]
    and head = carries_preservedD(8) [OF ok]
  obtain j where j: "segment_match ''signal:group:'' ?raw j = Some (ps_start s, ps_end s)"
    using segment_spans_bounds [OF s] by blast
  note start = signal_match_start [OF plain head j]
  have "ps_end s = length ?raw" if "ps_start s = length (key_head agent channel kind)"
  proof -
    from start(2) [OF that] have "channel = ''signal''"
      using preserved by (auto simp: preserved_peer_def)
    then have "takeWhile (\<lambda>c. c \<noteq> CHR '':'') peer = peer"
      using preserved by (auto simp: preserved_peer_def plain_part_def takeWhile_eq_all_conv)
    with segment_match_shape(2) [OF j] that show ?thesis by simp
  qed
  with start(1) segment_match_bounds [OF j] show ?thesis by auto
qed

lemma signal_span_found:
  assumes ok: "carries_preserved agent channel kind peer"
    and assms: "channel = ''signal''"
  shows "\<exists>s \<in> set (segment_spans ''signal:group:'' (agent_key agent channel kind peer) 0). ps_start s = length (key_head agent channel kind)"
proof -
  let ?raw = "agent_key agent channel kind peer"
  note plain = carries_preservedD(1-4) [OF ok] and preserved = carries_preservedD(5) [OF ok]
    and peer = carries_preservedD(6) [OF ok] and space = carries_preservedD(7) [OF ok]
    and head = carries_preservedD(8) [OF ok]
  let ?h = "key_head agent channel kind" and ?k = "6 + length agent"
  have kind: "kind = ''group''" and p: "plain_part peer"
    using preserved assms by (auto simp: preserved_peer_def)
  have len: "length ?h = ?k + 14" by (simp add: key_head_length assms kind)
  have "segment_match ''signal:group:'' ?raw j = None" if "j < ?k" for j
  proof (rule ccontr)
    assume "segment_match ''signal:group:'' ?raw j \<noteq> None"
    then obtain a b where j: "segment_match ''signal:group:'' ?raw j = Some (a, b)" by auto
    from segment_match_shape(1) [OF this] that have "a < length ?h" by (simp add: len)
    with signal_match_start(1) [OF plain head j] show False by simp
  qed
  then have skip: "segment_spans ''signal:group:'' ?raw 0 = segment_spans ''signal:group:'' ?raw ?k"
    by (intro segment_spans_skip) (simp_all add: key_head_length)
  let ?start = "''agent:'' @ agent @ '':''"
  have key: "?raw = ?start @ ''signal:group:'' @ peer"
    by (simp add: key_head_def assms kind)
  have len_start: "length ?start = Suc ?k" by simp
  have drops: "drop (Suc ?k) ?raw = ''signal:group:'' @ peer"
    using append_eq_conv_conj [THEN iffD1, OF key [symmetric]] unfolding len_start by (simp only:)
  have colon: "?raw ! ?k = CHR '':''"
    by (simp add: key_head_def nth_append)
  have "drop (Suc ?k + 13) ?raw =
      drop 13 (drop (Suc ?k) ?raw)"
    by (simp only: drop_drop add.commute)
  then have "drop (Suc ?k + 13) ?raw = peer"
    by (simp only: drops) simp
  moreover have whole: "takeWhile (\<lambda>c. c \<noteq> CHR '':'') peer = peer"
    using p by (auto simp: takeWhile_eq_all_conv plain_part_def)
  ultimately have "segment_at ''signal:group:'' ?raw (Suc ?k) = Some (Suc ?k + 13, Suc ?k + 13 + length peer)"
    using peer drops
    by (simp add: whole segment_at_def Let_def starts_ci_def js_startsWith_def js_lower_def js_lower_char_def)
  then have "segment_match ''signal:group:'' ?raw ?k = Some (length ?h, length ?raw)"
    using colon by (simp add: segment_match_def key_head_length assms kind)
  then have "segment_spans ''signal:group:'' ?raw ?k =
      \<lparr>ps_start = length ?h, ps_end = length ?raw, ps_trim = True\<rparr> # segment_spans ''signal:group:'' ?raw (length ?raw)"
    by (intro segment_spans_step(3)) (simp_all add: key_head_length)
  with skip show ?thesis by simp
qed

lemma preserved_spans:
  assumes ok: "carries_preserved agent channel kind peer"
  defines "h \<equiv> length (key_head agent channel kind)"
  shows "(\<forall>s \<in> set (collectCasePreservedSpans (agent_key agent channel kind peer)). h \<le> ps_start s \<and> ps_start s < ps_end s \<and>
      ps_end s \<le> length (agent_key agent channel kind peer) \<and> (ps_start s = h \<longrightarrow> ps_end s = length (agent_key agent channel kind peer))) \<and>
    (\<exists>s \<in> set (collectCasePreservedSpans (agent_key agent channel kind peer)). ps_start s = h)"
proof -
  let ?raw = "agent_key agent channel kind peer"
  note plain = carries_preservedD(1-4) [OF ok] and preserved = carries_preservedD(5) [OF ok]
    and peer = carries_preservedD(6) [OF ok] and space = carries_preservedD(7) [OF ok]
    and head = carries_preservedD(8) [OF ok]
  show ?thesis
  proof (cases "channel = ''signal''")
    case True
    then have "collectCasePreservedSpans ?raw = segment_spans ''signal:group:'' ?raw 0"
      using preserved collected_signal [OF plain(1)] by (auto simp: preserved_peer_def )
    with signal_span_bounds [OF ok] signal_span_found [OF ok True] show ?thesis by (simp add: h_def)
  next
    case False
    then have m: "channel = ''matrix''" "kind = ''group'' \<or> kind = ''channel''"
        "\<not> js_includes (js_lower peer) THREAD_MARKER"
      using preserved by (auto simp: preserved_peer_def)
    have "no_space peer" using space by simp
    from collected_matrix [OF plain(1) m(2) peer this m(3)] m(1)
    have c: "set (collectCasePreservedSpans ?raw) = insert \<lparr>ps_start = h, ps_end = length ?raw, ps_trim = False\<rparr>
        (set (segment_spans ''signal:group:'' ?raw 0))"
      by (simp add: h_def)
    have "h < length ?raw" using peer by (simp add: h_def)
    with signal_span_bounds [OF ok] show ?thesis by (simp add: c h_def)
  qed
qed

lemma canonical_preserved:
  assumes ok: "carries_preserved agent channel kind peer"
  shows "canonical_session_key (agent_key agent channel kind peer) = (agent_key agent channel kind peer)"
proof -
  note plain = carries_preservedD(1-4) [OF ok] and preserved = carries_preservedD(5) [OF ok]
    and peer = carries_preservedD(6) [OF ok] and space = carries_preservedD(7) [OF ok]
    and head = carries_preservedD(8) [OF ok]
  let ?spans = "sort_key ps_start (filter (\<lambda>span. ps_start span < ps_end span) (collectCasePreservedSpans (agent_key agent channel kind peer)))"
  have "emit_spans (agent_key agent channel kind peer) 0 ?spans = (agent_key agent channel kind peer)"
  proof (rule emit_spans_tail)
    show "no_space (agent_key agent channel kind peer)" using space by simp
    show "agent_key agent channel kind peer = key_head agent channel kind @ peer" by simp
    show "js_lower (key_head agent channel kind) = key_head agent channel kind" by (rule head)
    show "sorted (map ps_start ?spans)" by simp
  qed (use preserved_spans [OF ok] in auto)
  then show ?thesis by (simp add: canonical_session_key_def preserved_may [OF ok])
qed

end
