(* ===== verification/Session_Key_Claims.thy ===== *)
theory Session_Key_Claims
  imports Session_Key_Canonical
begin

text \<open>
  The round trip of session keys: the parser of delivery routes reads back, from the key of a
  conversation and its thread suffix, the channel, account, peer and thread it was built from.
\<close>

section \<open>Reading a key back\<close>

lemma parse_agent_key:
  assumes "canonical_session_key (''agent:'' @ agent @ '':'' @ rest) = ''agent:'' @ agent @ '':'' @ rest"
    and "plain_part agent" "agent \<noteq> []" "rest \<noteq> []" "hd rest \<noteq> CHR '':''" "no_space agent" "no_space rest"
  shows "parseAgentSessionKey (Some (''agent:'' @ agent @ '':'' @ rest)) =
    Some \<lparr>pa_agentId = agent, pa_rest = rest\<rparr>"
proof -
  let ?raw = "''agent:'' @ agent @ '':'' @ rest"
  have space: "no_space ?raw" using assms(6,7) by (simp add: js_space_def)
  then have trim: "js_trim ?raw = ?raw" by (rule js_trim_no_space)
  have norm: "normalizeSessionKeyPreservingOpaquePeerIds (Some ?raw) = ?raw"
    using assms(1) trim by (simp add: normalizeSessionKeyPreservingOpaquePeerIds_def)
  have six: "length ''agent:'' = 6" by simp
  have index: "js_indexOf_unit ?raw CHR '':'' 6 = Some (6 + length agent)"
    using js_indexOf_unit_skip [of "CHR '':''" agent "''agent:''" rest, unfolded six] assms(2)
    by (simp only: plain_part_def append_Cons append_Nil simp_thms)
  have rest: "drop (6 + length agent + 1) ?raw = rest" "js_slice ?raw 6 (6 + length agent) = agent"
    using drop_length_append [of "''agent:'' @ agent @ '':''" "6 + length agent + 1" rest]
    by (simp_all add: js_slice_def)
  have start: "js_startsWith ?raw ''agent:''" "\<not> js_startsWith rest '':''"
    using assms(4,5) by (auto simp: js_startsWith_iff)
  show ?thesis
    unfolding parseAgentSessionKey_def norm Let_def index option.case rest
    using start assms(3,4,6) by simp
qed

text \<open>The two shapes of a key that names a peer.\<close>

lemma parse_head_key:
  assumes "canonical_session_key (key_head agent channel kind @ peer) = key_head agent channel kind @ peer"
    and "plain_part agent" "agent \<noteq> []" "no_space (key_head agent channel kind @ peer)"
    and "plain_part channel" "channel \<noteq> []" "plain_part kind"
  shows "\<exists>parsed. parseAgentSessionKey (Some (key_head agent channel kind @ peer)) = Some parsed \<and>
    js_split CHR '':'' (pa_rest parsed) = channel # kind # js_split CHR '':'' peer"
proof -
  let ?rest = "channel @ '':'' @ kind @ '':'' @ peer"
  have "parseAgentSessionKey (Some (''agent:'' @ agent @ '':'' @ ?rest)) = Some \<lparr>pa_agentId = agent, pa_rest = ?rest\<rparr>"
  proof (rule parse_agent_key)
    show "canonical_session_key (''agent:'' @ agent @ '':'' @ ?rest) = ''agent:'' @ agent @ '':'' @ ?rest"
      using assms(1) by (simp add: key_head_def)
    show "hd ?rest \<noteq> CHR '':''"
      using assms(5,6) by (cases channel) (auto simp: plain_part_def)
  qed (use assms in \<open>auto simp: key_head_def\<close>)
  with assms(5,7) show ?thesis by (simp add: key_head_def)
qed

lemma thread_suffix:
  assumes "no_space (base @ '':thread:'' @ thread)" "thread \<noteq> []"
    "\<not> js_includes (js_lower (''thread:'' @ thread)) '':thread:''"
  shows "parseThreadSessionSuffix (Some (base @ '':thread:'' @ thread)) = (Some base, Some thread)"
proof -
  let ?raw = "base @ '':thread:'' @ thread"
  have lower: "js_lower ?raw = js_lower base @ THREAD_MARKER @ js_lower thread"
    "tl THREAD_MARKER @ js_lower thread = js_lower (''thread:'' @ thread)"
    by (simp_all only: js_lower_append THREAD_MARKER_def) (simp_all add: js_lower_def js_lower_char_def)
  have "js_lastIndexOf (js_lower ?raw) THREAD_MARKER = Some (length (js_lower base))"
    unfolding lower(1) using assms(3) lower(2)
    by (intro js_lastIndexOf_append) (simp_all add: THREAD_MARKER_def)
  moreover have "js_trim ?raw = ?raw" "js_trim thread = thread"
    using assms(1) js_trim_no_space by simp_all
  ultimately show ?thesis
    using assms(2) by (simp add: parseThreadSessionSuffix_def js_slice_def THREAD_MARKER_def)
qed

lemma no_thread_suffix:
  assumes "no_space base" "base \<noteq> []" "\<not> js_includes (js_lower base) '':thread:''"
  shows "parseThreadSessionSuffix (Some base) = (Some base, None)"
  using assms by (simp add: parseThreadSessionSuffix_def THREAD_MARKER_def [symmetric] js_lastIndexOf_None_iff [symmetric])

lemma delivery_parts_peer:
  assumes "channel \<noteq> ''agent''" "channel \<noteq> []" "no_space channel" "js_lower channel = channel"
    and "kind \<in> set SESSION_DELIVERY_PEER_KINDS" "peer \<noteq> []" "hd peer \<noteq> CHR '':''" "no_space peer"
    and "\<not> js_startsWith peer ''direct:''" "\<not> js_startsWith peer ''dm:''"
  shows "parse_delivery_parts threadId (channel # kind # js_split CHR '':'' peer) =
    Some \<lparr>dr_accountId = None, dr_channel = channel, dr_peerId = peer, dr_peerKind = kind, dr_threadId = threadId\<rparr>"
proof -
  obtain p ps where s: "js_split CHR '':'' peer = p # ps" by (meson js_split_not_Nil neq_Nil_conv)
  have join: "js_join CHR '':'' (p # ps) = peer" using s js_join_split [of "CHR '':''" peer] by simp
  have "ps \<noteq> [] \<Longrightarrow> peer = p @ CHR '':'' # js_join CHR '':'' ps"
    using join by (simp add: js_join_Cons)
  then have direct: "Suc 0 \<le> length ps \<Longrightarrow> p \<noteq> ''direct'' \<and> p \<noteq> ''dm''"
    using assms(9,10) by (cases "ps = []") (auto simp: js_startsWith_iff)
  have "p \<noteq> []" using js_split_hd_not_Nil [OF assms(6,7)] s by simp
  moreover have "no_space p"
    using join assms(8) by (cases ps) auto
  ultimately have first: "js_trim p \<noteq> []" by simp
  show ?thesis
    using assms(1-6,8) direct first join
    by (auto simp: parse_delivery_parts_def s join_from_def normalizeOptionalLowercaseString_def)
qed

lemma delivery_parts_account:
  assumes "channel \<noteq> ''agent''" "channel \<noteq> []" "no_space channel" "js_lower channel = channel"
    and "account \<noteq> []" "no_space account" "peer \<noteq> []" "hd peer \<noteq> CHR '':''" "no_space peer"
  shows "parse_delivery_parts threadId (channel # account # ''direct'' # js_split CHR '':'' peer) =
    Some \<lparr>dr_accountId = Some account, dr_channel = channel, dr_peerId = peer, dr_peerKind = ''direct'',
      dr_threadId = threadId\<rparr>"
proof -
  obtain p ps where s: "js_split CHR '':'' peer = p # ps" by (meson js_split_not_Nil neq_Nil_conv)
  have join: "js_join CHR '':'' (p # ps) = peer" using s js_join_split [of "CHR '':''" peer] by simp
  have "p \<noteq> []" using js_split_hd_not_Nil [OF assms(7,8)] s by simp
  moreover have "no_space p"
    using join assms(9) by (cases ps) auto
  ultimately have first: "js_trim p \<noteq> []" by simp
  show ?thesis
    using assms(1-7,9) first join
    by (auto simp: parse_delivery_parts_def s join_from_def normalizeOptionalLowercaseString_def)
qed

section \<open>Keys as they are built\<close>

text \<open>The delivery route a conversation stands for, where its key names the peer.\<close>

definition addressed_route :: "PeerSessionParams \<Rightarrow> string option \<Rightarrow> ParsedSessionDeliveryRoute option" where
  "addressed_route p threadId =
     (let channel = or_unknown (normalizeLowercaseStringOrEmpty (Some (sp_channel p)));
          route = \<lparr>dr_accountId = None, dr_channel = channel, dr_peerId = direct_peer p DmPerChannelPeer,
            dr_peerKind = ''direct'', dr_threadId = threadId\<rparr>
      in case sp_peerKind p of
           Some ChatGroup \<Rightarrow> if sp_groupScopeMain p then None
             else Some (route\<lparr>dr_peerKind := ''group'', dr_peerId := or_unknown (normalizeSessionPeerId
               (Some (sp_channel p)) (Some ''group'') (sp_peerId p))\<rparr>)
         | Some ChatChannel \<Rightarrow> if sp_groupScopeMain p then None
             else Some (route\<lparr>dr_peerKind := ''channel'', dr_peerId := or_unknown (normalizeSessionPeerId
               (Some (sp_channel p)) (Some ''channel'') (sp_peerId p))\<rparr>)
         | _ \<Rightarrow>
             (case sp_dmScope p of
                Some DmPerChannelPeer \<Rightarrow> Some route
              | Some DmPerAccountChannelPeer \<Rightarrow> Some (route\<lparr>dr_accountId := Some (normalizeAccountId (sp_accountId p))\<rparr>)
              | _ \<Rightarrow> None))"

definition session_thread :: "string option \<Rightarrow> (string \<Rightarrow> string) option \<Rightarrow> string option" where
  "session_thread threadId normalizeThreadId =
     (if trim_or_empty threadId = [] then None
      else Some (case normalizeThreadId of Some f \<Rightarrow> f (trim_or_empty threadId)
        | None \<Rightarrow> normalizeLowercaseStringOrEmpty (Some (trim_or_empty threadId))))"

text \<open>A route whose parts a key can carry: the channel is one segment, the peer id starts with a
  segment that is not a kind of direct message, and a Signal group id is one segment.\<close>

definition keyable_route :: "ParsedSessionDeliveryRoute \<Rightarrow> bool" where
  "keyable_route r \<longleftrightarrow>
     plain_part (dr_channel r) \<and> no_space (dr_channel r) \<and> dr_channel r \<noteq> ''agent'' \<and>
     dr_peerId r \<noteq> [] \<and> no_space (dr_peerId r) \<and> hd (dr_peerId r) \<noteq> CHR '':'' \<and>
     \<not> js_startsWith (dr_peerId r) ''direct:'' \<and> \<not> js_startsWith (dr_peerId r) ''dm:'' \<and>
     (dr_channel r = ''signal'' \<longrightarrow> dr_peerKind r = ''group'' \<longrightarrow> plain_part (dr_peerId r))"

definition route_key :: "string \<Rightarrow> ParsedSessionDeliveryRoute \<Rightarrow> string" where
  "route_key agent r = (case dr_accountId r of
     None \<Rightarrow> key_head agent (dr_channel r) (dr_peerKind r) @ dr_peerId r
   | Some account \<Rightarrow> key_head agent (dr_channel r) account @ ''direct:'' @ dr_peerId r)"

lemma direct_peer_scope: "s \<noteq> DmMain \<Longrightarrow> direct_peer p s = direct_peer p DmPerChannelPeer"
  by (simp add: direct_peer_def)

lemma built_route_key:
  assumes "addressed_route p t = Some r" "dr_peerId r \<noteq> []"
  shows "buildAgentPeerSessionKey p = route_key (normalizeAgentId (Some (sp_agentId p))) r"
  using assms direct_peer_scope [of DmPerAccountChannelPeer p]
  by (auto simp: addressed_route_def buildAgentPeerSessionKey_def route_key_def key_head_def Let_def
      split: option.splits chat_type.splits dm_scope.splits if_splits)

text \<open>Of which shape a route is, and when its peer id keeps its case.\<close>

lemma or_unknown_lower: "js_lower s = s \<Longrightarrow> js_lower (or_unknown s) = or_unknown s"
  by (simp add: or_unknown_def js_lower_def js_lower_char_def)

lemma session_peer_id_case:
  "js_lower (or_unknown (normalizeSessionPeerId channel kind peer)) = or_unknown (normalizeSessionPeerId channel kind peer) \<or>
   findCasePreservingPeerDescriptor channel kind \<noteq> None"
  by (auto simp: normalizeSessionPeerId_def Let_def or_unknown_lower)

lemma addressed_routeE:
  assumes "addressed_route p t = Some r"
  obtains (direct) "r = \<lparr>dr_accountId = None,
      dr_channel = or_unknown (normalizeLowercaseStringOrEmpty (Some (sp_channel p))),
      dr_peerId = direct_peer p DmPerChannelPeer, dr_peerKind = ''direct'', dr_threadId = t\<rparr>"
  | (account) "r = \<lparr>dr_accountId = Some (normalizeAccountId (sp_accountId p)),
      dr_channel = or_unknown (normalizeLowercaseStringOrEmpty (Some (sp_channel p))),
      dr_peerId = direct_peer p DmPerChannelPeer, dr_peerKind = ''direct'', dr_threadId = t\<rparr>"
  | (room) kind where "kind = ''group'' \<or> kind = ''channel''" "r = \<lparr>dr_accountId = None,
      dr_channel = or_unknown (normalizeLowercaseStringOrEmpty (Some (sp_channel p))),
      dr_peerId = or_unknown (normalizeSessionPeerId (Some (sp_channel p)) (Some kind) (sp_peerId p)),
      dr_peerKind = kind, dr_threadId = t\<rparr>"
proof -
  consider "sp_peerKind p = Some ChatGroup" | "sp_peerKind p = Some ChatChannel"
    | "sp_peerKind p = None \<or> sp_peerKind p = Some ChatDirect"
    by (metis chat_type.exhaust option.exhaust)
  then show thesis
  proof cases
    case 1
    with assms show thesis
      by (intro room [of "''group''"]) (simp_all add: addressed_route_def Let_def split: if_splits)
  next
    case 2
    with assms show thesis
      by (intro room [of "''channel''"]) (simp_all add: addressed_route_def Let_def split: if_splits)
  next
    case 3
    show thesis
    proof (cases "sp_dmScope p = Some DmPerChannelPeer")
      case True
      with 3 assms show thesis by (intro direct) (auto simp: addressed_route_def Let_def)
    next
      case False
      with 3 assms have "sp_dmScope p = Some DmPerAccountChannelPeer"
        by (auto simp: addressed_route_def Let_def split: option.splits dm_scope.splits)
      with 3 assms show thesis by (intro account) (auto simp: addressed_route_def Let_def)
    qed
  qed
qed

lemma or_unknown_not_Nil [simp]: "or_unknown s \<noteq> []"
  by (simp add: or_unknown_def)

lemma descriptor_of_channel:
  "findCasePreservingPeerDescriptor (Some channel) kind \<noteq> None \<Longrightarrow>
    findCasePreservingPeerDescriptor (Some (or_unknown (js_lower (js_trim channel)))) kind \<noteq> None"
  by (auto simp: findCasePreservingPeerDescriptor_def Let_def CASE_PRESERVING_PEERS_def or_unknown_def js_trim_lower
      split: if_splits)

lemma addressed_route_parts:
  assumes "addressed_route p t = Some r"
  shows "dr_threadId r = t" "js_lower (dr_channel r) = dr_channel r" "dr_channel r \<noteq> []"
    "dr_peerKind r \<in> set [''direct'', ''group'', ''channel'']"
    "dr_accountId r = Some a \<Longrightarrow> a = normalizeAccountId (sp_accountId p) \<and> dr_peerKind r = ''direct''"
  using assms by (auto elim!: addressed_routeE simp: or_unknown_lower)

lemma addressed_route_case:
  assumes "addressed_route p t = Some r" "js_lower (dr_peerId r) \<noteq> dr_peerId r"
  shows "dr_accountId r = None \<and> (dr_peerKind r = ''group'' \<or> dr_peerKind r = ''channel'') \<and>
    findCasePreservingPeerDescriptor (Some (dr_channel r)) (Some (dr_peerKind r)) \<noteq> None"
  using assms(1)
proof (cases rule: addressed_routeE)
  case (room kind)
  with assms(2) session_peer_id_case [of "Some (sp_channel p)" "Some kind" "sp_peerId p"]
  have "findCasePreservingPeerDescriptor (Some (sp_channel p)) (Some kind) \<noteq> None" by auto
  from descriptor_of_channel [OF this] room show ?thesis by auto
qed (use assms(2) in \<open>simp_all add: direct_peer_def Let_def\<close>)

lemma descriptor_kinds:
  assumes "findCasePreservingPeerDescriptor (Some channel) (Some kind) \<noteq> None" "js_lower channel = channel"
    "no_space channel" "kind = ''group'' \<or> kind = ''channel''"
  shows "channel = ''matrix'' \<or> channel = ''signal'' \<and> kind = ''group''"
proof -
  have "js_lower (js_trim channel) = channel" using assms by simp
  moreover have "js_lower (js_trim kind) = kind"
    using assms(4) by (auto simp: js_lower_def js_lower_char_def js_trim_def js_space_def)
  ultimately show ?thesis using assms(1)
    by (auto simp: findCasePreservingPeerDescriptor_def Let_def CASE_PRESERVING_PEERS_def split: if_splits)
qed

lemma key_head_no_space:
  "no_space (key_head agent channel kind) \<longleftrightarrow> no_space agent \<and> no_space channel \<and> no_space kind"
  by (simp add: key_head_def js_space_def)

lemma key_head_lower:
  assumes "js_lower agent = agent" "js_lower channel = channel" "js_lower kind = kind"
  shows "js_lower (key_head agent channel kind) = key_head agent channel kind"
  using assms by (simp only: key_head_def js_lower_append) (simp add: js_lower_def js_lower_char_def)

lemma kind_literals:
  assumes "kind \<in> set [''direct'', ''group'', ''channel'']"
  shows "plain_part kind" "no_space kind" "js_lower kind = kind" "kind \<in> set SESSION_DELIVERY_PEER_KINDS"
  using assms by (auto simp: js_space_def js_lower_def js_lower_char_def SESSION_DELIVERY_PEER_KINDS_def)

lemma route_key_canonical:
  fixes agent :: "string option"
  assumes r: "addressed_route p t = Some r" and k: "keyable_route r"
    and no_thread: "\<not> js_includes (js_lower (route_key (normalizeAgentId agent) r)) '':thread:''"
  shows "canonical_session_key (route_key (normalizeAgentId agent) r) = route_key (normalizeAgentId agent) r"
    "no_space (route_key (normalizeAgentId agent) r)"
proof -
  note parts = addressed_route_parts [OF r]
  note kind = kind_literals [OF parts(4)]
  let ?key = "route_key (normalizeAgentId agent) r"
  have clean: "no_space (dr_channel r)" "no_space (dr_peerId r)" "dr_peerId r \<noteq> []"
    using k by (simp_all add: keyable_route_def)
  show space: "no_space ?key"
    using clean kind agent_id.norm_no_space account_id.norm_no_space parts(5)
    by (auto simp: route_key_def key_head_no_space js_space_def split: option.split)
  show "canonical_session_key ?key = ?key"
  proof (cases "js_lower (dr_peerId r) = dr_peerId r")
    case True
    have "js_lower (''direct:'' @ dr_peerId r) = ''direct:'' @ dr_peerId r"
      using True by (simp only: js_lower_append) (simp add: js_lower_def js_lower_char_def)
    moreover have "js_lower a = a" if "dr_accountId r = Some a" for a
      using parts(5) [OF that] account_id.norm_lower by simp
    ultimately have "js_lower ?key = ?key"
      using True kind parts(2) key_head_lower [OF agent_id.norm_lower parts(2)]
      by (cases "dr_accountId r") (simp_all only: route_key_def js_lower_append option.case)
    with space show ?thesis by (rule canonical_lower)
  next
    case False
    from addressed_route_case [OF r False] have c: "dr_accountId r = None"
      "dr_peerKind r = ''group'' \<or> dr_peerKind r = ''channel''"
      "findCasePreservingPeerDescriptor (Some (dr_channel r)) (Some (dr_peerKind r)) \<noteq> None" by simp_all
    have key: "?key = agent_key (normalizeAgentId agent) (dr_channel r) (dr_peerKind r) (dr_peerId r)"
      using c(1) by (simp add: route_key_def)
    have "\<not> js_includes (js_lower (dr_peerId r)) THREAD_MARKER"
      using no_thread unfolding key js_includes_iff THREAD_MARKER_def js_lower_append
      by (metis append_assoc)
    with descriptor_kinds [OF c(3) parts(2) clean(1) c(2)] c(2) k
    have "preserved_peer (dr_channel r) (dr_peerKind r) (dr_peerId r)"
      by (auto simp: preserved_peer_def keyable_route_def)
    moreover have "plain_part (normalizeAgentId agent)"
      by (simp add: plain_part_def agent_id.norm_no_colon)
    ultimately have "carries_preserved (normalizeAgentId agent) (dr_channel r) (dr_peerKind r) (dr_peerId r)"
      using clean space key_head_lower [OF agent_id.norm_lower parts(2) kind(3)]
      by (simp add: carries_preserved_def key)
    then show ?thesis unfolding key by (rule canonical_preserved)
  qed
qed

lemma route_key_parses:
  fixes agent :: "string option"
  assumes r: "addressed_route p t = Some r" and k: "keyable_route r"
    and no_thread: "\<not> js_includes (js_lower (route_key (normalizeAgentId agent) r)) '':thread:''"
  shows "\<exists>parsed. parseAgentSessionKey (Some (route_key (normalizeAgentId agent) r)) = Some parsed \<and>
    parse_delivery_parts t' (js_split CHR '':'' (pa_rest parsed)) = Some (r\<lparr>dr_threadId := t'\<rparr>)"
proof -
  note parts = addressed_route_parts [OF r]
  note kind = kind_literals [OF parts(4)]
  note canonical = route_key_canonical [OF r k no_thread]
  have plain: "plain_part (normalizeAgentId agent)" "plain_part (normalizeAccountId a)" for a
    by (simp_all add: plain_part_def agent_id.norm_no_colon account_id.norm_no_colon)
  have clean: "plain_part (dr_channel r)" "no_space (dr_channel r)" "dr_channel r \<noteq> ''agent''"
    "dr_peerId r \<noteq> []" "no_space (dr_peerId r)" "hd (dr_peerId r) \<noteq> CHR '':''"
    "\<not> js_startsWith (dr_peerId r) ''direct:''" "\<not> js_startsWith (dr_peerId r) ''dm:''"
    using k by (simp_all add: keyable_route_def)
  show ?thesis
  proof (cases "dr_accountId r")
    case None
    then have key: "route_key (normalizeAgentId agent) r = agent_key (normalizeAgentId agent) (dr_channel r) (dr_peerKind r) (dr_peerId r)"
      by (simp add: route_key_def)
    from parse_head_key [OF canonical(1) [unfolded key] plain(1) agent_id.norm_not_Nil canonical(2) [unfolded key]
        clean(1) parts(3) kind(1)]
      delivery_parts_peer [OF clean(3) parts(3) clean(2) parts(2) kind(4) clean(4,6,5,7,8), of t'] None
    show ?thesis unfolding key by (cases r) auto
  next
    case (Some a)
    then have a: "a = normalizeAccountId (sp_accountId p)" "dr_peerKind r = ''direct''"
      using parts(5) by simp_all
    have key: "route_key (normalizeAgentId agent) r = agent_key (normalizeAgentId agent) (dr_channel r) a (''direct:'' @ dr_peerId r)"
      using Some by (simp add: route_key_def)
    have split: "js_split CHR '':'' (''direct:'' @ dr_peerId r) = ''direct'' # js_split CHR '':'' (dr_peerId r)"
      by simp
    from parse_head_key [OF canonical(1) [unfolded key] plain(1) agent_id.norm_not_Nil canonical(2) [unfolded key]
        clean(1) parts(3) plain(2) [of "sp_accountId p", folded a(1)], unfolded split]
      delivery_parts_account [OF clean(3) parts(3) clean(2) parts(2) account_id.norm_not_Nil account_id.norm_no_space
        clean(4,6,5), of t' "sp_accountId p"] Some a
    show ?thesis unfolding key by (cases r) auto
  qed
qed


end
