(* ===== verification/Session_Key_Witnesses.thy ===== *)
theory Session_Key_Witnesses
  imports Session_Key_Claims
begin

text \<open>
  The round trip at a Matrix room with a thread, and three keys on which the code does not do what
  it means to.
\<close>

definition example_room :: PeerSessionParams where
  "example_room = \<lparr>sp_agentId = ''Ops'', sp_mainKey = None, sp_channel = '' Matrix'', sp_accountId = None,
     sp_peerKind = Some ChatChannel, sp_peerId = Some ''!RoomA:Server'', sp_identityLinks = None,
     sp_dmScope = None, sp_groupScopeMain = False\<rparr>"

definition example_route :: ParsedSessionDeliveryRoute where
  "example_route = \<lparr>dr_accountId = None, dr_channel = ''matrix'', dr_peerId = ''!RoomA:Server'',
     dr_peerKind = ''channel'', dr_threadId = Some ''Ev:T''\<rparr>"

lemma example_room_evaluation:
  "session_thread (Some '' Ev:T'') (Some (\<lambda>t. t)) = Some ''Ev:T''"
  "addressed_route example_room (Some ''Ev:T'') = Some example_route"
  "keyable_route example_route"
  "buildAgentPeerSessionKey example_room = ''agent:ops:matrix:channel:!RoomA:Server''"
  "\<not> js_includes (js_lower ''agent:ops:matrix:channel:!RoomA:Server'') '':thread:''"
  "no_space ''Ev:T'' \<and> \<not> js_includes (js_lower (''thread:'' @ ''Ev:T'')) '':thread:''"
  by code_simp+


section \<open>Keys that go wrong\<close>

text \<open>The marker index is taken in the trimmed tail but used in the tail, so that a blank in front
  of a room id shifts it and a letter of the opaque room id is folded.\<close>

lemma blank_before_room_folds_it:
  "normalizeSessionKeyPreservingOpaquePeerIds (Some ''agent:ops:matrix:channel: R:thread:E'') =
    ''agent:ops:matrix:channel: r:thread:E''"
  by code_simp

text \<open>The id of an agent can be the thread marker's word, which the suffix parser then finds.\<close>

lemma agent_named_thread_has_no_route:
  "parseSessionDeliveryRoute (Some (buildAgentPeerSessionKey
    (example_room\<lparr>sp_agentId := ''thread'', sp_channel := ''telegram'', sp_peerId := Some ''12''\<rparr>))) = None"
  by code_simp

text \<open>Cutting an id to its 64 characters can leave a trailing dash, which the next normalization
  removes: the agent of a key is not the agent the key was built for.\<close>

lemma long_agent_id_not_stable:
  "normalizeAgentId (Some (''_'' @ replicate 62 CHR ''a'' @ ''-x'')) = ''_'' @ replicate 62 CHR ''a'' @ ''-''"
  "normalizeAgentId (Some (''_'' @ replicate 62 CHR ''a'' @ ''-'')) = ''_'' @ replicate 62 CHR ''a''"
  by code_simp+

end
