(* ===== verification/Route_Config.thy ===== *)
theory Route_Config
  imports Session_Key_Build
begin

text \<open>
  What route resolution reads of the configuration: the agent roster and the agent that owns work
  nobody claims (\<open>src/agents/agent-scope-config.ts\<close>), and the bindings of conversations to agents
  with their scopes (\<open>src/config/types.agents.ts\<close>, \<open>src/config/bindings.ts\<close>,
  \<open>src/routing/binding-scope.ts\<close>, \<open>src/routing/peer-kind-match.ts\<close>, \<open>src/channels/chat-type.ts\<close>).

  A roster is the list of its well-shaped entries, from either of the two representations, or
  absent. Batched roster facts are a memo of the same values and are not modelled.
\<close>

section \<open>Agent roster\<close>

record AgentEntry =
  ae_id :: "string option"
  ae_default :: bool

record AgentRoster =
  ar_entries :: "AgentEntry list option"
  ar_explicitOwnership :: bool
  ar_retainedLegacyDefault :: "string option"

datatype agent_selection_error =
  NoAgentsConfigured
| AgentSelectionRequired "string list"

definition listAgentEntries :: "AgentRoster \<Rightarrow> AgentEntry list" where
  "listAgentEntries roster = (case ar_entries roster of None \<Rightarrow> [] | Some entries \<Rightarrow> entries)"

definition hasAgentRosterProperty :: "AgentRoster \<Rightarrow> bool" where
  "hasAgentRosterProperty roster \<longleftrightarrow> ar_entries roster \<noteq> None"

definition listAgentIds :: "AgentRoster \<Rightarrow> string list" where
  "listAgentIds roster =
     (if listAgentEntries roster = [] \<and> \<not> hasAgentRosterProperty roster then [DEFAULT_AGENT_ID]
      else fold (\<lambda>entry ids. let i = normalizeAgentId (ae_id entry)
          in if i \<in> set ids then ids else ids @ [i]) (listAgentEntries roster) [])"

definition tryResolveSoleAgentId :: "AgentRoster \<Rightarrow> string option" where
  "tryResolveSoleAgentId roster =
     (case listAgentEntries roster of
        [] \<Rightarrow> if \<not> hasAgentRosterProperty roster then Some DEFAULT_AGENT_ID else None
      | [entry] \<Rightarrow> Some (normalizeAgentId (ae_id entry))
      | _ \<Rightarrow> None)"

definition resolveSoleAgentId :: "AgentRoster \<Rightarrow> agent_selection_error + string" where
  "resolveSoleAgentId roster =
     (case tryResolveSoleAgentId roster of
        Some sole \<Rightarrow> Inr sole
      | None \<Rightarrow> let agentIds = listAgentIds roster
          in if agentIds = [] then Inl NoAgentsConfigured else Inl (AgentSelectionRequired agentIds))"

definition tryResolveRawLegacyDefaultAgentId :: "AgentRoster \<Rightarrow> string option" where
  "tryResolveRawLegacyDefaultAgentId roster =
     (if ar_explicitOwnership roster then None
      else case filter ae_default (listAgentEntries roster) of
             [entry] \<Rightarrow> Some (normalizeAgentId (ae_id entry)) | _ \<Rightarrow> None)"

definition tryResolveDefaultAgentId :: "AgentRoster \<Rightarrow> string option" where
  "tryResolveDefaultAgentId roster =
     (case tryResolveRawLegacyDefaultAgentId roster of
        Some agent \<Rightarrow> Some agent | None \<Rightarrow> tryResolveSoleAgentId roster)"

definition resolveDefaultAgentId :: "AgentRoster \<Rightarrow> agent_selection_error + string" where
  "resolveDefaultAgentId roster =
     (case tryResolveRawLegacyDefaultAgentId roster of
        Some agent \<Rightarrow> Inr agent | None \<Rightarrow> resolveSoleAgentId roster)"

definition tryResolveLegacyCompatibilityAgentId :: "AgentRoster \<Rightarrow> string option" where
  "tryResolveLegacyCompatibilityAgentId roster =
     (case ar_retainedLegacyDefault roster of
        Some retained \<Rightarrow>
          if retained \<noteq> [] \<and> retained \<in> set (listAgentIds roster) then Some retained
          else tryResolveDefaultAgentId roster
      | None \<Rightarrow> tryResolveDefaultAgentId roster)"

section \<open>Bindings\<close>

datatype group_scope = GroupMain | GroupPerGroup

record BindingPeer =
  bp_kind :: "string option"
  bp_id :: "string option"

record AgentBindingMatch =
  bm_channel :: string
  bm_accountId :: "string option"
  bm_peer :: "BindingPeer option"
  bm_guildId :: "string option"
  bm_teamId :: "string option"
  bm_roles :: "string list option"

record AgentRouteBinding =
  rb_agentId :: string
  rb_match :: AgentBindingMatch
  rb_dmScope :: "dm_scope option"
  rb_groupScope :: "group_scope option"

text \<open>A configured binding is a route or belongs to the agent client protocol.\<close>

datatype AgentBinding = RouteBinding AgentRouteBinding | AcpBinding

record RouteConfig =
  cfg_roster :: AgentRoster
  cfg_bindings :: "AgentBinding list"
  cfg_dmScope :: "dm_scope option"
  cfg_groupScope :: "group_scope option"
  cfg_mainKey :: "string option"
  cfg_identityLinks :: "identity_links option"

definition listRouteBindings :: "RouteConfig \<Rightarrow> AgentRouteBinding list" where
  "listRouteBindings cfg =
     concat (map (\<lambda>b. case b of RouteBinding r \<Rightarrow> [r] | AcpBinding \<Rightarrow> []) (cfg_bindings cfg))"

definition normalizeChatType :: "string option \<Rightarrow> chat_type option" where
  "normalizeChatType raw =
     (case normalizeOptionalLowercaseString raw of
        None \<Rightarrow> None
      | Some value \<Rightarrow>
          if value = ''direct'' \<or> value = ''dm'' then Some ChatDirect
          else if value = ''group'' then Some ChatGroup
          else if value = ''channel'' then Some ChatChannel
          else None)"

definition peerKindMatches :: "chat_type \<Rightarrow> chat_type \<Rightarrow> bool" where
  "peerKindMatches bindingKind scopeKind \<longleftrightarrow>
     bindingKind = scopeKind \<or>
     bindingKind = ChatGroup \<and> scopeKind = ChatChannel \<or>
     bindingKind = ChatChannel \<and> scopeKind = ChatGroup"

definition normalizeRouteBindingId :: "string option \<Rightarrow> string" where
  "normalizeRouteBindingId value = trim_or_empty value"

definition normalizeRouteBindingRoles :: "string list option \<Rightarrow> string list option" where
  "normalizeRouteBindingRoles value =
     (case value of Some roles \<Rightarrow> if roles \<noteq> [] then Some roles else None | None \<Rightarrow> None)"

text \<open>A constraint is absent when it is missing or empty.\<close>

definition scopeIdMatches :: "string option \<Rightarrow> string \<Rightarrow> string \<Rightarrow> bool" where
  "scopeIdMatches constraint exact groupSpace =
     (case constraint of None \<Rightarrow> True
      | Some c \<Rightarrow> c = [] \<or> c = exact \<or> c = groupSpace)"

definition hasAnyRouteBindingRole :: "string list \<Rightarrow> string list option \<Rightarrow> bool" where
  "hasAnyRouteBindingRole roles memberRoleIds =
     (case memberRoleIds of None \<Rightarrow> False
      | Some members \<Rightarrow> list_ex (\<lambda>role. role \<in> set members) roles)"

record RouteBindingScope =
  bs_guildId :: "string option"
  bs_teamId :: "string option"
  bs_groupSpace :: "string option"
  bs_memberRoleIds :: "string list option"

definition routeBindingScopeMatches ::
  "string option \<Rightarrow> string option \<Rightarrow> string list option \<Rightarrow> RouteBindingScope \<Rightarrow> bool" where
  "routeBindingScopeMatches guildConstraint teamConstraint roleConstraint scope =
     (let guildId = normalizeRouteBindingId (bs_guildId scope);
          teamId = normalizeRouteBindingId (bs_teamId scope);
          groupSpace = normalizeRouteBindingId (bs_groupSpace scope)
      in scopeIdMatches guildConstraint guildId groupSpace \<and>
         scopeIdMatches teamConstraint teamId groupSpace \<and>
         (case normalizeRouteBindingRoles roleConstraint of None \<Rightarrow> True
          | Some roles \<Rightarrow> hasAnyRouteBindingRole roles (bs_memberRoleIds scope)))"

end
