(* ===== verification/Route_Resolve.thy ===== *)
theory Route_Resolve
  imports Route_Config Stable_Stringify
begin

text \<open>
  Resolution of the agent and session of a conversation (\<open>src/routing/resolve-route.ts\<close>): bindings
  are normalized and bucketed by channel and account, indexed by what they constrain, and searched
  tier by tier, from the peer itself to the whole channel. The tables kept per configuration (agent
  lookup, evaluated bindings and their index) are memos of pure functions and are recomputed here;
  the cache of resolved routes is modelled, with its key and its cap. Log lines are left out, except
  that verbose logging turns the cache off.
\<close>

section \<open>Routes\<close>

record RoutePeer =
  rp_kind :: chat_type
  rp_id :: string

record ResolveAgentRouteInput =
  ri_channel :: string
  ri_defaultAgentId :: "string option"
  ri_accountId :: "string option"
  ri_peer :: "RoutePeer option"
  ri_dmScope :: "dm_scope option"
  ri_groupScope :: "group_scope option"
  ri_parentPeer :: "RoutePeer option"
  ri_guildId :: "string option"
  ri_teamId :: "string option"
  ri_memberRoleIds :: "string list option"

datatype last_route_policy = LastRouteMain | LastRouteSession

datatype matched_by =
  BindingPeer | BindingPeerParent | BindingPeerWildcard | BindingGuildRoles | BindingGuild
| BindingTeam | BindingAccount | BindingChannel | DefaultRoute

record ResolvedAgentRoute =
  rr_agentId :: string
  rr_channel :: string
  rr_accountId :: string
  rr_dmScope :: dm_scope
  rr_groupScope :: group_scope
  rr_sessionKey :: string
  rr_mainSessionKey :: string
  rr_lastRoutePolicy :: last_route_policy
  rr_matchedBy :: matched_by

definition deriveLastRoutePolicy :: "string \<Rightarrow> string \<Rightarrow> last_route_policy" where
  "deriveLastRoutePolicy sessionKey mainSessionKey =
     (if sessionKey = mainSessionKey then LastRouteMain else LastRouteSession)"

definition resolveInboundLastRouteSessionKey :: "ResolvedAgentRoute \<Rightarrow> string \<Rightarrow> string" where
  "resolveInboundLastRouteSessionKey route sessionKey =
     (if rr_lastRoutePolicy route = LastRouteMain then rr_mainSessionKey route else sessionKey)"

definition buildAgentSessionKey ::
  "string \<Rightarrow> string option \<Rightarrow> string \<Rightarrow> string option \<Rightarrow> RoutePeer option \<Rightarrow> dm_scope option
    \<Rightarrow> group_scope option \<Rightarrow> identity_links option \<Rightarrow> string" where
  "buildAgentSessionKey agentId mainKey rawChannel accountId peer dmScope groupScope identityLinks =
     buildAgentPeerSessionKey
       \<lparr>sp_agentId = agentId,
        sp_mainKey = Some (case mainKey of Some k \<Rightarrow> k | None \<Rightarrow> DEFAULT_MAIN_KEY),
        sp_channel = or_unknown (normalizeLowercaseStringOrEmpty (Some rawChannel)),
        sp_accountId = accountId,
        sp_peerKind = Some (case peer of Some p \<Rightarrow> rp_kind p | None \<Rightarrow> ChatDirect),
        sp_peerId = map_option (\<lambda>p. or_unknown (normalizeRouteBindingId (Some (rp_id p)))) peer,
        sp_identityLinks = identityLinks,
        sp_dmScope = dmScope,
        sp_groupScopeMain = (groupScope = Some GroupMain)\<rparr>"

section \<open>Choosing the agent\<close>

definition sanitizeAgentId :: "string option \<Rightarrow> string" where
  "sanitizeAgentId value = normalizeAgentId value"

definition agents_by_normalized_id :: "AgentRoster \<Rightarrow> (string, string) jsmap" where
  "agents_by_normalized_id roster = fold (\<lambda>agent m.
       let rawId = trim_or_empty (ae_id agent)
       in if rawId = [] then m else jm_set (normalizeAgentId (Some rawId)) (sanitizeAgentId (Some rawId)) m)
     (listAgentEntries roster) []"

definition pickFirstExistingAgentId :: "AgentRoster \<Rightarrow> string \<Rightarrow> agent_selection_error + string" where
  "pickFirstExistingAgentId roster agentId =
     (let byNormalizedId = agents_by_normalized_id roster; trimmed = js_trim agentId
      in if trimmed = [] then
           (case tryResolveLegacyCompatibilityAgentId roster of
              Some sole \<Rightarrow> Inr (sanitizeAgentId (Some sole))
            | None \<Rightarrow> map_sum id (\<lambda>a. sanitizeAgentId (Some a)) (resolveDefaultAgentId roster))
         else
           let normalized = normalizeAgentId (Some trimmed)
           in case jm_get byNormalizedId normalized of
                Some resolved \<Rightarrow> Inr resolved
              | None \<Rightarrow>
                  if normalized = DEFAULT_AGENT_ID then Inr DEFAULT_AGENT_ID
                  else if length byNormalizedId = 0 then Inr (sanitizeAgentId (Some trimmed))
                  else Inl (AgentSelectionRequired (jm_values byNormalizedId)))"

section \<open>Normalized bindings\<close>

datatype NormalizedPeerConstraint =
  PeerNone | PeerInvalid | PeerWildcard chat_type | PeerValid chat_type string

record NormalizedBindingMatch =
  nm_accountPattern :: string
  nm_peer :: NormalizedPeerConstraint
  nm_guildId :: "string option"
  nm_teamId :: "string option"
  nm_roles :: "string list option"

definition normalizePeerConstraint :: "BindingPeer option \<Rightarrow> NormalizedPeerConstraint" where
  "normalizePeerConstraint peer =
     (case peer of None \<Rightarrow> PeerNone
      | Some p \<Rightarrow>
          let i = normalizeRouteBindingId (bp_id p)
          in case normalizeChatType (bp_kind p) of
               None \<Rightarrow> PeerInvalid
             | Some kind \<Rightarrow> if i = [] then PeerInvalid
                 else if i = ''*'' then PeerWildcard kind else PeerValid kind i)"

definition or_null :: "string \<Rightarrow> string option" where
  "or_null s = (if s = [] then None else Some s)"

definition normalizeBindingMatch :: "AgentBindingMatch \<Rightarrow> NormalizedBindingMatch" where
  "normalizeBindingMatch m =
     \<lparr>nm_accountPattern = trim_or_empty (bm_accountId m),
      nm_peer = normalizePeerConstraint (bm_peer m),
      nm_guildId = or_null (normalizeRouteBindingId (bm_guildId m)),
      nm_teamId = or_null (normalizeRouteBindingId (bm_teamId m)),
      nm_roles = normalizeRouteBindingRoles (bm_roles m)\<rparr>"

record EvaluatedBinding =
  eb_binding :: AgentRouteBinding
  eb_match :: NormalizedBindingMatch
  eb_order :: nat

record EvaluatedBindingsByChannel =
  ebc_byAccount :: "(string, EvaluatedBinding list) jsmap"
  ebc_byAnyAccount :: "EvaluatedBinding list"

text \<open>Appending to the list of a key, which is created on its first use.\<close>

definition push_to :: "string \<Rightarrow> 'v \<Rightarrow> (string, 'v list) jsmap \<Rightarrow> (string, 'v list) jsmap" where
  "push_to key v m = jm_set key ((case jm_get m key of Some existing \<Rightarrow> existing | None \<Rightarrow> []) @ [v]) m"

definition add_evaluated ::
  "AgentRouteBinding \<Rightarrow> nat \<times> (string, EvaluatedBindingsByChannel) jsmap
    \<Rightarrow> nat \<times> (string, EvaluatedBindingsByChannel) jsmap" where
  "add_evaluated binding acc =
     (case acc of (order, byChannel) \<Rightarrow>
        let channel = normalizeLowercaseStringOrEmpty (Some (bm_channel (rb_match binding)));
            m = normalizeBindingMatch (rb_match binding);
            evaluated = \<lparr>eb_binding = binding, eb_match = m, eb_order = order\<rparr>;
            bucket = (case jm_get byChannel channel of Some b \<Rightarrow> b
              | None \<Rightarrow> \<lparr>ebc_byAccount = [], ebc_byAnyAccount = []\<rparr>)
        in if channel = [] \<or> nm_peer m = PeerInvalid then (order, byChannel)
           else if nm_accountPattern m = ''*'' then
             (order + 1, jm_set channel
               (bucket\<lparr>ebc_byAnyAccount := ebc_byAnyAccount bucket @ [evaluated]\<rparr>) byChannel)
           else
             (order + 1, jm_set channel
               (bucket\<lparr>ebc_byAccount := push_to (normalizeAccountId (Some (nm_accountPattern m))) evaluated
                 (ebc_byAccount bucket)\<rparr>) byChannel))"

definition buildEvaluatedBindingsByChannel ::
  "RouteConfig \<Rightarrow> (string, EvaluatedBindingsByChannel) jsmap" where
  "buildEvaluatedBindingsByChannel cfg = snd (fold add_evaluated (listRouteBindings cfg) (0, []))"

fun mergeEvaluatedBindingsInSourceOrder ::
  "EvaluatedBinding list \<Rightarrow> EvaluatedBinding list \<Rightarrow> EvaluatedBinding list" where
  "mergeEvaluatedBindingsInSourceOrder [] anyAccount = anyAccount"
| "mergeEvaluatedBindingsInSourceOrder accountScoped [] = accountScoped"
| "mergeEvaluatedBindingsInSourceOrder (a # accountScoped) (b # anyAccount) =
     (if eb_order a \<le> eb_order b
      then a # mergeEvaluatedBindingsInSourceOrder accountScoped (b # anyAccount)
      else b # mergeEvaluatedBindingsInSourceOrder (a # accountScoped) anyAccount)"

section \<open>The index\<close>

record EvaluatedBindingsIndex =
  ix_byPeer :: "(string, EvaluatedBinding list) jsmap"
  ix_byPeerWildcard :: "EvaluatedBinding list"
  ix_byGuildWithRoles :: "(string, EvaluatedBinding list) jsmap"
  ix_byGuild :: "(string, EvaluatedBinding list) jsmap"
  ix_byTeam :: "(string, EvaluatedBinding list) jsmap"
  ix_byAccount :: "EvaluatedBinding list"
  ix_byChannel :: "EvaluatedBinding list"

definition pushToIndexMap ::
  "string option \<Rightarrow> EvaluatedBinding \<Rightarrow> (string, EvaluatedBinding list) jsmap
    \<Rightarrow> (string, EvaluatedBinding list) jsmap" where
  "pushToIndexMap key binding m =
     (case key of None \<Rightarrow> m | Some k \<Rightarrow> if k = [] then m else push_to k binding m)"

definition peerLookupKey :: "chat_type \<Rightarrow> string \<Rightarrow> string" where
  "peerLookupKey kind i = chat_type_text (if kind = ChatChannel then ChatGroup else kind) @ '':'' @ i"

definition index_binding :: "EvaluatedBinding \<Rightarrow> EvaluatedBindingsIndex \<Rightarrow> EvaluatedBindingsIndex" where
  "index_binding binding ix =
     (let m = eb_match binding
      in case nm_peer m of
           PeerValid kind i \<Rightarrow> ix\<lparr>ix_byPeer := pushToIndexMap (Some (peerLookupKey kind i)) binding (ix_byPeer ix)\<rparr>
         | PeerWildcard _ \<Rightarrow> ix\<lparr>ix_byPeerWildcard := ix_byPeerWildcard ix @ [binding]\<rparr>
         | _ \<Rightarrow>
             if nm_guildId m \<noteq> None \<and> nm_roles m \<noteq> None then
               ix\<lparr>ix_byGuildWithRoles := pushToIndexMap (nm_guildId m) binding (ix_byGuildWithRoles ix)\<rparr>
             else if nm_guildId m \<noteq> None \<and> nm_roles m = None then
               ix\<lparr>ix_byGuild := pushToIndexMap (nm_guildId m) binding (ix_byGuild ix)\<rparr>
             else if nm_teamId m \<noteq> None then
               ix\<lparr>ix_byTeam := pushToIndexMap (nm_teamId m) binding (ix_byTeam ix)\<rparr>
             else if nm_accountPattern m \<noteq> ''*'' then ix\<lparr>ix_byAccount := ix_byAccount ix @ [binding]\<rparr>
             else ix\<lparr>ix_byChannel := ix_byChannel ix @ [binding]\<rparr>)"

definition buildEvaluatedBindingsIndex :: "EvaluatedBinding list \<Rightarrow> EvaluatedBindingsIndex" where
  "buildEvaluatedBindingsIndex bindings = fold index_binding bindings
     \<lparr>ix_byPeer = [], ix_byPeerWildcard = [], ix_byGuildWithRoles = [], ix_byGuild = [], ix_byTeam = [],
      ix_byAccount = [], ix_byChannel = []\<rparr>"

definition index_get :: "(string, EvaluatedBinding list) jsmap \<Rightarrow> string \<Rightarrow> EvaluatedBinding list" where
  "index_get m key = (case jm_get m key of Some bindings \<Rightarrow> bindings | None \<Rightarrow> [])"

definition getPeerIndexedBindings :: "EvaluatedBindingsIndex \<Rightarrow> RoutePeer option \<Rightarrow> EvaluatedBinding list" where
  "getPeerIndexedBindings ix peer =
     (case peer of None \<Rightarrow> [] | Some p \<Rightarrow> index_get (ix_byPeer ix) (peerLookupKey (rp_kind p) (rp_id p)))"

definition getEvaluatedBindingsForChannelAccount ::
  "RouteConfig \<Rightarrow> string \<Rightarrow> string \<Rightarrow> EvaluatedBinding list" where
  "getEvaluatedBindingsForChannelAccount cfg channel accountId =
     (let channelBindings = jm_get (buildEvaluatedBindingsByChannel cfg) channel;
          accountScoped = (case channelBindings of None \<Rightarrow> []
            | Some b \<Rightarrow> index_get (ebc_byAccount b) accountId);
          anyAccount = (case channelBindings of None \<Rightarrow> [] | Some b \<Rightarrow> ebc_byAnyAccount b)
      in mergeEvaluatedBindingsInSourceOrder accountScoped anyAccount)"

definition getEvaluatedBindingIndexForChannelAccount ::
  "RouteConfig \<Rightarrow> string \<Rightarrow> string \<Rightarrow> EvaluatedBindingsIndex" where
  "getEvaluatedBindingIndexForChannelAccount cfg channel accountId =
     buildEvaluatedBindingsIndex (getEvaluatedBindingsForChannelAccount cfg channel accountId)"

definition listChannelAccountRouteBindings ::
  "RouteConfig \<Rightarrow> string \<Rightarrow> string option \<Rightarrow> AgentRouteBinding list" where
  "listChannelAccountRouteBindings cfg channel accountId =
     map eb_binding (getEvaluatedBindingsForChannelAccount cfg
       (normalizeLowercaseStringOrEmpty (Some channel)) (normalizeAccountId accountId))"

definition listExactDirectMessageBindingPeerIds ::
  "RouteConfig \<Rightarrow> string \<Rightarrow> string option \<Rightarrow> string list" where
  "listExactDirectMessageBindingPeerIds cfg channel accountId =
     concat (map (\<lambda>key. if js_startsWith key ''direct:'' then [drop 7 key] else [])
       (jm_keys (ix_byPeer (getEvaluatedBindingIndexForChannelAccount cfg
         (normalizeLowercaseStringOrEmpty (Some channel)) (normalizeAccountId accountId)))))"

section \<open>Resolution\<close>

text \<open>The normalized input.\<close>

record RouteQuery =
  rq_channel :: string
  rq_defaultAgentId :: string
  rq_accountId :: string
  rq_peer :: "RoutePeer option"
  rq_parentPeer :: "RoutePeer option"
  rq_guildId :: string
  rq_teamId :: string
  rq_memberRoleIds :: "string list"
  rq_dmScope :: dm_scope
  rq_groupScope :: group_scope

definition or_else :: "'a option \<Rightarrow> 'a option \<Rightarrow> 'a option" where
  "or_else x y = (case x of Some _ \<Rightarrow> x | None \<Rightarrow> y)"

definition normalize_peer :: "RoutePeer option \<Rightarrow> RoutePeer option" where
  "normalize_peer peer = map_option (\<lambda>p. p\<lparr>rp_id := normalizeRouteBindingId (Some (rp_id p))\<rparr>) peer"

definition normalize_route_input :: "RouteConfig \<Rightarrow> ResolveAgentRouteInput \<Rightarrow> RouteQuery" where
  "normalize_route_input cfg input =
     \<lparr>rq_channel = normalizeLowercaseStringOrEmpty (Some (ri_channel input)),
      rq_defaultAgentId = normalizeLowercaseStringOrEmpty (ri_defaultAgentId input),
      rq_accountId = normalizeAccountId (ri_accountId input),
      rq_peer = normalize_peer (ri_peer input),
      rq_parentPeer = normalize_peer (ri_parentPeer input),
      rq_guildId = normalizeRouteBindingId (ri_guildId input),
      rq_teamId = normalizeRouteBindingId (ri_teamId input),
      rq_memberRoleIds = (case ri_memberRoleIds input of Some roles \<Rightarrow> roles | None \<Rightarrow> []),
      rq_dmScope = (case or_else (ri_dmScope input) (cfg_dmScope cfg) of Some s \<Rightarrow> s | None \<Rightarrow> DmMain),
      rq_groupScope = (case or_else (ri_groupScope input) (cfg_groupScope cfg) of
        Some s \<Rightarrow> s | None \<Rightarrow> GroupPerGroup)\<rparr>"

definition matchesBindingScope :: "NormalizedBindingMatch \<Rightarrow> RoutePeer option \<Rightarrow> RouteQuery \<Rightarrow> bool" where
  "matchesBindingScope m scopePeer q =
     ((case nm_peer m of
         PeerValid kind i \<Rightarrow> (case scopePeer of None \<Rightarrow> False
           | Some p \<Rightarrow> peerKindMatches kind (rp_kind p) \<and> rp_id p = i)
       | PeerWildcard kind \<Rightarrow> (case scopePeer of None \<Rightarrow> False
           | Some p \<Rightarrow> peerKindMatches kind (rp_kind p))
       | _ \<Rightarrow> True) \<and>
      routeBindingScopeMatches (nm_guildId m) (nm_teamId m) (nm_roles m)
        \<lparr>bs_guildId = Some (rq_guildId q), bs_teamId = Some (rq_teamId q), bs_groupSpace = None,
         bs_memberRoleIds = Some (rq_memberRoleIds q)\<rparr>)"

record RouteTier =
  ti_matchedBy :: matched_by
  ti_enabled :: bool
  ti_scopePeer :: "RoutePeer option"
  ti_candidates :: "EvaluatedBinding list"

definition present_peer :: "RoutePeer option \<Rightarrow> RoutePeer option" where
  "present_peer peer = (case peer of Some p \<Rightarrow> if rp_id p = [] then None else Some p | None \<Rightarrow> None)"

definition route_tiers :: "EvaluatedBindingsIndex \<Rightarrow> RouteQuery \<Rightarrow> RouteTier list" where
  "route_tiers ix q =
     (let peer = rq_peer q; parentPeer = rq_parentPeer q; guildId = rq_guildId q; teamId = rq_teamId q
      in [\<lparr>ti_matchedBy = BindingPeer, ti_enabled = (peer \<noteq> None), ti_scopePeer = peer,
           ti_candidates = getPeerIndexedBindings ix peer\<rparr>,
          \<lparr>ti_matchedBy = BindingPeerParent, ti_enabled = (present_peer parentPeer \<noteq> None),
           ti_scopePeer = present_peer parentPeer, ti_candidates = getPeerIndexedBindings ix parentPeer\<rparr>,
          \<lparr>ti_matchedBy = BindingPeerWildcard, ti_enabled = (peer \<noteq> None), ti_scopePeer = peer,
           ti_candidates = ix_byPeerWildcard ix\<rparr>,
          \<lparr>ti_matchedBy = BindingGuildRoles, ti_enabled = (guildId \<noteq> [] \<and> 0 < length (rq_memberRoleIds q)),
           ti_scopePeer = peer,
           ti_candidates = (if guildId \<noteq> [] then index_get (ix_byGuildWithRoles ix) guildId else [])\<rparr>,
          \<lparr>ti_matchedBy = BindingGuild, ti_enabled = (guildId \<noteq> []), ti_scopePeer = peer,
           ti_candidates = (if guildId \<noteq> [] then index_get (ix_byGuild ix) guildId else [])\<rparr>,
          \<lparr>ti_matchedBy = BindingTeam, ti_enabled = (teamId \<noteq> []), ti_scopePeer = peer,
           ti_candidates = (if teamId \<noteq> [] then index_get (ix_byTeam ix) teamId else [])\<rparr>,
          \<lparr>ti_matchedBy = BindingAccount, ti_enabled = True, ti_scopePeer = peer,
           ti_candidates = ix_byAccount ix\<rparr>,
          \<lparr>ti_matchedBy = BindingChannel, ti_enabled = True, ti_scopePeer = peer,
           ti_candidates = ix_byChannel ix\<rparr>])"

definition tier_match :: "RouteQuery \<Rightarrow> RouteTier \<Rightarrow> EvaluatedBinding option" where
  "tier_match q tier =
     (if \<not> ti_enabled tier then None
      else find (\<lambda>candidate. matchesBindingScope (eb_match candidate) (ti_scopePeer tier) q) (ti_candidates tier))"

fun first_match :: "RouteQuery \<Rightarrow> RouteTier list \<Rightarrow> (matched_by \<times> EvaluatedBinding) option" where
  "first_match q [] = None"
| "first_match q (tier # tiers) =
     (case tier_match q tier of Some matched \<Rightarrow> Some (ti_matchedBy tier, matched) | None \<Rightarrow> first_match q tiers)"

definition choose_route ::
  "RouteConfig \<Rightarrow> RouteQuery \<Rightarrow> string \<Rightarrow> matched_by \<Rightarrow> dm_scope option \<Rightarrow> group_scope option
    \<Rightarrow> agent_selection_error + ResolvedAgentRoute" where
  "choose_route cfg q agentId matchedBy dmOverride groupOverride =
     (case pickFirstExistingAgentId (cfg_roster cfg) agentId of
        Inl e \<Rightarrow> Inl e
      | Inr resolvedAgentId \<Rightarrow>
          let effectiveDmScope = (case dmOverride of Some s \<Rightarrow> s | None \<Rightarrow> rq_dmScope q);
              effectiveGroupScope = (case groupOverride of Some s \<Rightarrow> s | None \<Rightarrow> rq_groupScope q);
              sessionKey = buildAgentSessionKey resolvedAgentId (cfg_mainKey cfg) (rq_channel q)
                (Some (rq_accountId q)) (rq_peer q) (Some effectiveDmScope) (Some effectiveGroupScope)
                (cfg_identityLinks cfg);
              mainSessionKey = normalizeLowercaseStringOrEmpty
                (Some (buildAgentMainSessionKey (Some resolvedAgentId) (cfg_mainKey cfg)))
          in Inr \<lparr>rr_agentId = resolvedAgentId, rr_channel = rq_channel q, rr_accountId = rq_accountId q,
               rr_dmScope = effectiveDmScope, rr_groupScope = effectiveGroupScope, rr_sessionKey = sessionKey,
               rr_mainSessionKey = mainSessionKey,
               rr_lastRoutePolicy = deriveLastRoutePolicy sessionKey mainSessionKey,
               rr_matchedBy = matchedBy\<rparr>)"

definition choose_default :: "RouteConfig \<Rightarrow> RouteQuery \<Rightarrow> agent_selection_error + ResolvedAgentRoute" where
  "choose_default cfg q =
     (case (if rq_defaultAgentId q \<noteq> [] then Some (rq_defaultAgentId q)
         else tryResolveLegacyCompatibilityAgentId (cfg_roster cfg)) of
        Some agent \<Rightarrow> choose_route cfg q agent DefaultRoute None None
      | None \<Rightarrow>
          (case resolveDefaultAgentId (cfg_roster cfg) of
             Inl e \<Rightarrow> Inl e
           | Inr agent \<Rightarrow> choose_route cfg q agent DefaultRoute None None))"

definition choose_match ::
  "RouteConfig \<Rightarrow> RouteQuery \<Rightarrow> (matched_by \<times> AgentRouteBinding) option
    \<Rightarrow> agent_selection_error + ResolvedAgentRoute" where
  "choose_match cfg q matched =
     (case matched of
        Some (matchedBy, binding) \<Rightarrow>
          choose_route cfg q (rb_agentId binding) matchedBy (rb_dmScope binding) (rb_groupScope binding)
      | None \<Rightarrow> choose_default cfg q)"

definition resolve_route_query :: "RouteConfig \<Rightarrow> RouteQuery \<Rightarrow> agent_selection_error + ResolvedAgentRoute" where
  "resolve_route_query cfg q =
     choose_match cfg q (map_option (map_prod id eb_binding) (first_match q
       (route_tiers (getEvaluatedBindingIndexForChannelAccount cfg (rq_channel q) (rq_accountId q)) q)))"

section \<open>The cache of routes\<close>

definition formatRouteCachePeer :: "RoutePeer option \<Rightarrow> string" where
  "formatRouteCachePeer peer =
     (case peer of None \<Rightarrow> ''-'' | Some p \<Rightarrow> chat_type_text (rp_kind p) @ '':'' @ rp_id p)"

fun dm_scope_text :: "dm_scope \<Rightarrow> string" where
  "dm_scope_text DmMain = ''main''"
| "dm_scope_text DmPerPeer = ''per-peer''"
| "dm_scope_text DmPerChannelPeer = ''per-channel-peer''"
| "dm_scope_text DmPerAccountChannelPeer = ''per-account-channel-peer''"

fun group_scope_text :: "group_scope \<Rightarrow> string" where
  "group_scope_text GroupMain = ''main''"
| "group_scope_text GroupPerGroup = ''per-group''"

text \<open>\<open>JSON.stringify\<close> of strings and arrays is the text of plain values.\<close>

definition buildResolvedRouteCacheKey :: "RouteQuery \<Rightarrow> string" where
  "buildResolvedRouteCacheKey q = flat_text (JArr
     [JStr (rq_channel q), JStr (rq_defaultAgentId q), JStr (rq_accountId q),
      JStr (formatRouteCachePeer (rq_peer q)), JStr (formatRouteCachePeer (rq_parentPeer q)),
      JStr (rq_guildId q), JStr (rq_teamId q), JArr (map JStr (sort (rq_memberRoleIds q))),
      JStr (dm_scope_text (rq_dmScope q)), JStr (group_scope_text (rq_groupScope q))])"

definition MAX_RESOLVED_ROUTE_CACHE_KEYS :: nat where "MAX_RESOLVED_ROUTE_CACHE_KEYS = 4000"

type_synonym route_cache = "(string, ResolvedAgentRoute) jsmap"

definition store_route :: "string \<Rightarrow> ResolvedAgentRoute \<Rightarrow> route_cache \<Rightarrow> route_cache" where
  "store_route key route cache =
     (let stored = jm_set key route cache
      in if MAX_RESOLVED_ROUTE_CACHE_KEYS < length stored then [(key, route)] else stored)"

definition resolveAgentRoute ::
  "bool \<Rightarrow> RouteConfig \<Rightarrow> ResolveAgentRouteInput \<Rightarrow> route_cache
    \<Rightarrow> (agent_selection_error + ResolvedAgentRoute) \<times> route_cache" where
  "resolveAgentRoute verbose cfg input cache =
     (let q = normalize_route_input cfg input; key = buildResolvedRouteCacheKey q
      in if verbose \<or> cfg_identityLinks cfg \<noteq> None then (resolve_route_query cfg q, cache)
         else case jm_get cache key of
             Some cachedRoute \<Rightarrow> (Inr cachedRoute, cache)
           | None \<Rightarrow>
               (case resolve_route_query cfg q of
                  Inl e \<Rightarrow> (Inl e, cache)
                | Inr route \<Rightarrow> (Inr route, store_route key route cache)))"

text \<open>A sequence of lookups; each may be made with verbose logging on.\<close>

definition run_lookups ::
  "RouteConfig \<Rightarrow> (bool \<times> ResolveAgentRouteInput) list \<Rightarrow> route_cache \<Rightarrow> route_cache" where
  "run_lookups cfg lookups cache =
     fold (\<lambda>(verbose, input) c. snd (resolveAgentRoute verbose cfg input c)) lookups cache"

end
