(* ===== verification/Route_Claims.thy ===== *)
theory Route_Claims
  imports Route_Resolve
begin

text \<open>
  Route resolution against its specification: the first binding, in the order of the configuration,
  of the most specific tier that applies; and the cache of routes, which never changes an answer.
\<close>

section \<open>The tables of a channel\<close>

fun evaluated_list :: "nat \<Rightarrow> AgentRouteBinding list \<Rightarrow> EvaluatedBinding list" where
  "evaluated_list n [] = []"
| "evaluated_list n (b # bs) =
     (if normalizeLowercaseStringOrEmpty (Some (bm_channel (rb_match b))) = [] \<or>
         nm_peer (normalizeBindingMatch (rb_match b)) = PeerInvalid then evaluated_list n bs
      else \<lparr>eb_binding = b, eb_match = normalizeBindingMatch (rb_match b), eb_order = n\<rparr> # evaluated_list (Suc n) bs)"

definition binding_channel :: "EvaluatedBinding \<Rightarrow> string" where
  "binding_channel e = normalizeLowercaseStringOrEmpty (Some (bm_channel (rb_match (eb_binding e))))"

definition any_account :: "EvaluatedBinding \<Rightarrow> bool" where
  "any_account e \<longleftrightarrow> nm_accountPattern (eb_match e) = ''*''"

definition account_of :: "EvaluatedBinding \<Rightarrow> string" where
  "account_of e = normalizeAccountId (Some (nm_accountPattern (eb_match e)))"

definition any_bucket :: "(string, EvaluatedBindingsByChannel) jsmap \<Rightarrow> string \<Rightarrow> EvaluatedBinding list" where
  "any_bucket m c = (case jm_get m c of None \<Rightarrow> [] | Some b \<Rightarrow> ebc_byAnyAccount b)"

definition account_bucket ::
  "(string, EvaluatedBindingsByChannel) jsmap \<Rightarrow> string \<Rightarrow> string \<Rightarrow> EvaluatedBinding list" where
  "account_bucket m c a = (case jm_get m c of None \<Rightarrow> [] | Some b \<Rightarrow> index_get (ebc_byAccount b) a)"

lemma index_get_push [simp]:
  "index_get (push_to k v m) key = index_get m key @ (if key = k then [v] else [])"
  by (auto simp: index_get_def push_to_def split: option.split)

lemma evaluated_buckets:
  "any_bucket (snd (fold add_evaluated bs (n, m))) c =
     any_bucket m c @ filter (\<lambda>e. binding_channel e = c \<and> any_account e) (evaluated_list n bs) \<and>
   account_bucket (snd (fold add_evaluated bs (n, m))) c a =
     account_bucket m c a @
     filter (\<lambda>e. binding_channel e = c \<and> \<not> any_account e \<and> account_of e = a) (evaluated_list n bs)"
proof (induction bs arbitrary: n m)
  case (Cons b bs)
  obtain n' m' where s: "add_evaluated b (n, m) = (n', m')" by (cases "add_evaluated b (n, m)")
  have "n' = (if evaluated_list n [b] = [] then n else Suc n) \<and>
      any_bucket m' c = any_bucket m c @ filter (\<lambda>e. binding_channel e = c \<and> any_account e) (evaluated_list n [b]) \<and>
      account_bucket m' c a = account_bucket m c a @
        filter (\<lambda>e. binding_channel e = c \<and> \<not> any_account e \<and> account_of e = a) (evaluated_list n [b])"
    using s
    by (auto simp: add_evaluated_def Let_def any_bucket_def account_bucket_def binding_channel_def any_account_def
        account_of_def index_get_def [of "[]"] split: if_splits option.splits)
  moreover have "evaluated_list n (b # bs) = evaluated_list n [b] @ evaluated_list n' bs"
    using calculation by simp
  ultimately show ?case
    using Cons.IH [of n' m'] s by (simp del: evaluated_list.simps)
qed simp

text \<open>Merging two disjoint selections of a list in source order is one selection of it.\<close>

lemma merge_first:
  "(\<forall>y \<in> set bs. eb_order x \<le> eb_order y) \<Longrightarrow>
    mergeEvaluatedBindingsInSourceOrder (x # as) bs = x # mergeEvaluatedBindingsInSourceOrder as bs"
  "(\<forall>y \<in> set as. eb_order x < eb_order y) \<Longrightarrow>
    mergeEvaluatedBindingsInSourceOrder as (x # bs) = x # mergeEvaluatedBindingsInSourceOrder as bs"
  by (cases bs; cases as; force)+

lemma merge_filters:
  assumes "sorted_wrt (\<lambda>x y. eb_order x < eb_order y) es" "\<And>e. \<not> (P e \<and> Q e)"
  shows "mergeEvaluatedBindingsInSourceOrder (filter P es) (filter Q es) = filter (\<lambda>e. P e \<or> Q e) es"
  using assms(1)
proof (induction es)
  case (Cons e es)
  from Cons.prems have later: "\<forall>y \<in> set es. eb_order e < eb_order y" by simp
  from Cons have IH: "mergeEvaluatedBindingsInSourceOrder (filter P es) (filter Q es) = filter (\<lambda>e. P e \<or> Q e) es"
    by simp
  consider "P e" "\<not> Q e" | "\<not> P e" "Q e" | "\<not> P e" "\<not> Q e" using assms(2) by blast
  then show ?case
  proof cases
    case 1
    with IH later show ?thesis by (simp add: merge_first(1) less_imp_le)
  next
    case 2
    with IH later show ?thesis by (simp add: merge_first(2))
  qed (use IH in simp)
qed simp

lemma evaluated_list_sorted:
  "sorted_wrt (\<lambda>x y. eb_order x < eb_order y) (evaluated_list n bs) \<and> (\<forall>e \<in> set (evaluated_list n bs). n \<le> eb_order e)"
proof (induction bs arbitrary: n)
  case (Cons b bs)
  from Cons.IH [of n] Cons.IH [of "Suc n"] show ?case
    by (auto simp: Suc_le_eq intro: less_imp_le)
qed simp

definition covers :: "string \<Rightarrow> string \<Rightarrow> EvaluatedBinding \<Rightarrow> bool" where
  "covers channel account e \<longleftrightarrow> binding_channel e = channel \<and> (any_account e \<or> account_of e = account)"

lemma bindings_for_channel_account:
  "getEvaluatedBindingsForChannelAccount cfg channel account =
    filter (covers channel account) (evaluated_list 0 (listRouteBindings cfg))"
proof -
  let ?es = "evaluated_list 0 (listRouteBindings cfg)"
  have "getEvaluatedBindingsForChannelAccount cfg channel account =
      mergeEvaluatedBindingsInSourceOrder
        (account_bucket (buildEvaluatedBindingsByChannel cfg) channel account)
        (any_bucket (buildEvaluatedBindingsByChannel cfg) channel)"
    by (simp add: getEvaluatedBindingsForChannelAccount_def Let_def any_bucket_def account_bucket_def)
  also have "\<dots> = mergeEvaluatedBindingsInSourceOrder
      (filter (\<lambda>e. binding_channel e = channel \<and> \<not> any_account e \<and> account_of e = account) ?es)
      (filter (\<lambda>e. binding_channel e = channel \<and> any_account e) ?es)"
    using evaluated_buckets [where bs = "listRouteBindings cfg" and n = 0 and m = "[]" and c = channel and a = account]
    by (simp add: buildEvaluatedBindingsByChannel_def any_bucket_def [of "[]"] account_bucket_def [of "[]"])
  also have "\<dots> = filter (\<lambda>e. (binding_channel e = channel \<and> \<not> any_account e \<and> account_of e = account) \<or>
      (binding_channel e = channel \<and> any_account e)) ?es"
    by (rule merge_filters) (use evaluated_list_sorted in auto)
  also have "\<dots> = filter (covers channel account) ?es"
    by (rule filter_cong) (auto simp: covers_def)
  finally show ?thesis .
qed

section \<open>The index\<close>

lemma index_get_pushToIndexMap [simp]:
  "index_get (pushToIndexMap k v m) key = index_get m key @ (if k = Some key \<and> key \<noteq> [] then [v] else [])"
  by (auto simp: pushToIndexMap_def split: option.split)

definition unpeered :: "NormalizedBindingMatch \<Rightarrow> bool" where
  "unpeered m \<longleftrightarrow> nm_peer m = PeerNone \<or> nm_peer m = PeerInvalid"

definition peer_key :: "NormalizedBindingMatch \<Rightarrow> string option" where
  "peer_key m = (case nm_peer m of PeerValid kind i \<Rightarrow> Some (peerLookupKey kind i) | _ \<Rightarrow> None)"

lemma peerLookupKey_not_Nil [simp]: "peerLookupKey kind i \<noteq> []"
  by (simp add: peerLookupKey_def)

lemma index_fold:
  "index_get (ix_byPeer (fold index_binding es ix)) key = index_get (ix_byPeer ix) key @
     filter (\<lambda>e. peer_key (eb_match e) = Some key) es"
  "ix_byPeerWildcard (fold index_binding es ix) = ix_byPeerWildcard ix @
     filter (\<lambda>e. \<exists>k. nm_peer (eb_match e) = PeerWildcard k) es"
  "key \<noteq> [] \<Longrightarrow> index_get (ix_byGuildWithRoles (fold index_binding es ix)) key = index_get (ix_byGuildWithRoles ix) key @
     filter (\<lambda>e. unpeered (eb_match e) \<and> nm_guildId (eb_match e) = Some key \<and> nm_roles (eb_match e) \<noteq> None) es"
  "key \<noteq> [] \<Longrightarrow> index_get (ix_byGuild (fold index_binding es ix)) key = index_get (ix_byGuild ix) key @
     filter (\<lambda>e. unpeered (eb_match e) \<and> nm_guildId (eb_match e) = Some key \<and> nm_roles (eb_match e) = None) es"
  "key \<noteq> [] \<Longrightarrow> index_get (ix_byTeam (fold index_binding es ix)) key = index_get (ix_byTeam ix) key @
     filter (\<lambda>e. unpeered (eb_match e) \<and> nm_guildId (eb_match e) = None \<and> nm_teamId (eb_match e) = Some key) es"
  "ix_byAccount (fold index_binding es ix) = ix_byAccount ix @
     filter (\<lambda>e. unpeered (eb_match e) \<and> nm_guildId (eb_match e) = None \<and> nm_teamId (eb_match e) = None \<and> \<not> any_account e) es"
  "ix_byChannel (fold index_binding es ix) = ix_byChannel ix @
     filter (\<lambda>e. unpeered (eb_match e) \<and> nm_guildId (eb_match e) = None \<and> nm_teamId (eb_match e) = None \<and> any_account e) es"
proof (induction es arbitrary: ix)
  case (Cons e es)
  {
    case 1 show ?case
      using Cons.IH(1) by (auto simp: index_binding_def Let_def peer_key_def split: NormalizedPeerConstraint.split)
  next
    case 2 show ?case
      using Cons.IH(2) by (auto simp: index_binding_def Let_def split: NormalizedPeerConstraint.split)
  next
    case 3 then show ?case
      using Cons.IH(3) by (auto simp: index_binding_def Let_def unpeered_def split: NormalizedPeerConstraint.split)
  next
    case 4 then show ?case
      using Cons.IH(4) by (auto simp: index_binding_def Let_def unpeered_def split: NormalizedPeerConstraint.split)
  next
    case 5 then show ?case
      using Cons.IH(5) by (auto simp: index_binding_def Let_def unpeered_def split: NormalizedPeerConstraint.split)
  next
    case 6 then show ?case
      using Cons.IH(6)
      by (auto simp: index_binding_def Let_def unpeered_def any_account_def split: NormalizedPeerConstraint.split)
  next
    case 7 then show ?case
      using Cons.IH(7)
      by (auto simp: index_binding_def Let_def unpeered_def any_account_def split: NormalizedPeerConstraint.split)
  }
qed simp_all

section \<open>The specification\<close>

text \<open>A binding is considered on a channel and account when it names the channel, has a matchable
  peer constraint or none, and names the account or all accounts.\<close>

definition binding_considered :: "RouteQuery \<Rightarrow> AgentRouteBinding \<Rightarrow> bool" where
  "binding_considered q b \<longleftrightarrow>
     (let m = normalizeBindingMatch (rb_match b); channel = normalizeLowercaseStringOrEmpty (Some (bm_channel (rb_match b)))
      in channel \<noteq> [] \<and> channel = rq_channel q \<and> nm_peer m \<noteq> PeerInvalid \<and>
         (nm_accountPattern m = ''*'' \<or> normalizeAccountId (Some (nm_accountPattern m)) = rq_accountId q))"

definition peer_fits :: "NormalizedBindingMatch \<Rightarrow> RoutePeer \<Rightarrow> bool" where
  "peer_fits m p \<longleftrightarrow> (\<exists>kind. nm_peer m = PeerValid kind (rp_id p) \<and> peerKindMatches kind (rp_kind p))"

definition scope_fits :: "NormalizedBindingMatch \<Rightarrow> RouteQuery \<Rightarrow> bool" where
  "scope_fits m q \<longleftrightarrow>
     (\<forall>g. nm_guildId m = Some g \<longrightarrow> rq_guildId q = g) \<and>
     (\<forall>t. nm_teamId m = Some t \<longrightarrow> rq_teamId q = t) \<and>
     (\<forall>roles. nm_roles m = Some roles \<longrightarrow> set roles \<inter> set (rq_memberRoleIds q) \<noteq> {})"

text \<open>What makes a binding a candidate of a tier, beside its scope.\<close>

fun tier_fits :: "matched_by \<Rightarrow> NormalizedBindingMatch \<Rightarrow> RouteQuery \<Rightarrow> bool" where
  "tier_fits BindingPeer m q \<longleftrightarrow> (\<exists>p. rq_peer q = Some p \<and> peer_fits m p)"
| "tier_fits BindingPeerParent m q \<longleftrightarrow> (\<exists>p. rq_parentPeer q = Some p \<and> rp_id p \<noteq> [] \<and> peer_fits m p)"
| "tier_fits BindingPeerWildcard m q \<longleftrightarrow>
     (\<exists>p kind. rq_peer q = Some p \<and> nm_peer m = PeerWildcard kind \<and> peerKindMatches kind (rp_kind p))"
| "tier_fits BindingGuildRoles m q \<longleftrightarrow> nm_peer m = PeerNone \<and> nm_guildId m \<noteq> None \<and> nm_roles m \<noteq> None"
| "tier_fits BindingGuild m q \<longleftrightarrow> nm_peer m = PeerNone \<and> nm_guildId m \<noteq> None \<and> nm_roles m = None"
| "tier_fits BindingTeam m q \<longleftrightarrow> nm_peer m = PeerNone \<and> nm_guildId m = None \<and> nm_teamId m \<noteq> None"
| "tier_fits BindingAccount m q \<longleftrightarrow> nm_peer m = PeerNone \<and> nm_guildId m = None \<and> nm_teamId m = None \<and>
     nm_accountPattern m \<noteq> ''*''"
| "tier_fits BindingChannel m q \<longleftrightarrow> nm_peer m = PeerNone \<and> nm_guildId m = None \<and> nm_teamId m = None \<and>
     nm_accountPattern m = ''*''"
| "tier_fits DefaultRoute m q \<longleftrightarrow> False"

definition tier_order :: "matched_by list" where
  "tier_order = [BindingPeer, BindingPeerParent, BindingPeerWildcard, BindingGuildRoles, BindingGuild,
     BindingTeam, BindingAccount, BindingChannel]"

definition tier_binding :: "RouteConfig \<Rightarrow> RouteQuery \<Rightarrow> matched_by \<Rightarrow> AgentRouteBinding option" where
  "tier_binding cfg q tier = find (\<lambda>b. binding_considered q b \<and>
     tier_fits tier (normalizeBindingMatch (rb_match b)) q \<and> scope_fits (normalizeBindingMatch (rb_match b)) q)
     (listRouteBindings cfg)"

text \<open>The first binding of the first tier that has one.\<close>

fun most_specific ::
  "RouteConfig \<Rightarrow> RouteQuery \<Rightarrow> matched_by list \<Rightarrow> (matched_by \<times> AgentRouteBinding) option" where
  "most_specific cfg q [] = None"
| "most_specific cfg q (tier # tiers) =
     (case tier_binding cfg q tier of Some b \<Rightarrow> Some (tier, b) | None \<Rightarrow> most_specific cfg q tiers)"

section \<open>The tiers meet the specification\<close>

lemma find_filter: "find P (filter Q xs) = find (\<lambda>x. Q x \<and> P x) xs"
  by (induction xs) auto

lemma find_cong_set: "(\<And>x. x \<in> set xs \<Longrightarrow> P x = Q x) \<Longrightarrow> find P xs = find Q xs"
  by (induction xs) auto

text \<open>What holds of every evaluated binding.\<close>

lemma evaluated_list_facts:
  "e \<in> set (evaluated_list n bs) \<Longrightarrow> eb_match e = normalizeBindingMatch (rb_match (eb_binding e)) \<and>
    nm_peer (eb_match e) \<noteq> PeerInvalid"
proof (induction bs arbitrary: n)
  case (Cons b bs)
  from Cons.IH [of n] Cons.IH [of "Suc n"] Cons.prems show ?case
    by (auto split: if_splits)
qed simp

lemma find_evaluated:
  "map_option eb_binding (find (\<lambda>e. covers (rq_channel q) (rq_accountId q) e \<and> R (eb_match e)) (evaluated_list n bs)) =
    find (\<lambda>b. binding_considered q b \<and> R (normalizeBindingMatch (rb_match b))) bs"
  by (induction bs arbitrary: n)
     (auto simp: covers_def binding_considered_def binding_channel_def any_account_def account_of_def Let_def)

lemma normalized_match_facts:
  "nm_guildId (normalizeBindingMatch m) = Some g \<Longrightarrow> g \<noteq> []"
  "nm_teamId (normalizeBindingMatch m) = Some t \<Longrightarrow> t \<noteq> []"
  "nm_roles (normalizeBindingMatch m) = Some roles \<Longrightarrow> roles \<noteq> []"
  by (auto simp: normalizeBindingMatch_def or_null_def normalizeRouteBindingRoles_def split: option.splits if_splits)

definition trimmed_query :: "RouteQuery \<Rightarrow> bool" where
  "trimmed_query q \<longleftrightarrow> js_trim (rq_guildId q) = rq_guildId q \<and> js_trim (rq_teamId q) = rq_teamId q"

lemma scopeIdMatches_iff:
  "(\<And>x. c = Some x \<Longrightarrow> x \<noteq> []) \<Longrightarrow> scopeIdMatches c v [] \<longleftrightarrow> (\<forall>x. c = Some x \<longrightarrow> v = x)"
  by (auto simp: scopeIdMatches_def split: option.split)

lemma scope_fits_iff:
  assumes "trimmed_query q" "m = normalizeBindingMatch x"
  shows "routeBindingScopeMatches (nm_guildId m) (nm_teamId m) (nm_roles m)
      \<lparr>bs_guildId = Some (rq_guildId q), bs_teamId = Some (rq_teamId q), bs_groupSpace = None,
       bs_memberRoleIds = Some (rq_memberRoleIds q)\<rparr> \<longleftrightarrow> scope_fits m q"
proof -
  note facts = normalized_match_facts [of x, folded assms(2)]
  have roles: "(case normalizeRouteBindingRoles (nm_roles m) of None \<Rightarrow> True
      | Some roles \<Rightarrow> hasAnyRouteBindingRole roles (Some (rq_memberRoleIds q))) \<longleftrightarrow>
    (\<forall>roles. nm_roles m = Some roles \<longrightarrow> set roles \<inter> set (rq_memberRoleIds q) \<noteq> {})"
    using facts(3)
    by (auto simp: normalizeRouteBindingRoles_def hasAnyRouteBindingRole_def list_ex_iff split: option.split)
  show ?thesis
    unfolding routeBindingScopeMatches_def normalizeRouteBindingId_def Let_def RouteBindingScope.select_convs
      trim_or_empty_simps roles scope_fits_def
    using assms(1) scopeIdMatches_iff [of "nm_guildId m" "rq_guildId q"] facts(1)
      scopeIdMatches_iff [of "nm_teamId m" "rq_teamId q"] facts(2)
    by (simp add: trimmed_query_def)
qed

lemma peer_key_fits: "peer_fits m p \<Longrightarrow> peer_key m = Some (peerLookupKey (rp_kind p) (rp_id p))"
  by (auto simp: peer_fits_def peer_key_def peerLookupKey_def peerKindMatches_def)

definition evaluated_ok :: "EvaluatedBinding list \<Rightarrow> bool" where
  "evaluated_ok es \<longleftrightarrow> (\<forall>e \<in> set es. (\<exists>x. eb_match e = normalizeBindingMatch x) \<and> nm_peer (eb_match e) \<noteq> PeerInvalid)"

lemma evaluated_ok_filter: "evaluated_ok (filter P (evaluated_list n bs))"
  using evaluated_list_facts by (fastforce simp: evaluated_ok_def)

text \<open>Which bindings of the evaluated list a tier is to find.\<close>

definition tier_finds :: "RouteQuery \<Rightarrow> matched_by \<Rightarrow> NormalizedBindingMatch \<Rightarrow> bool" where
  "tier_finds q tier m \<longleftrightarrow> tier_fits tier m q \<and> scope_fits m q"

lemma matches_scope:
  assumes "trimmed_query q" "evaluated_ok es" "e \<in> set es"
  shows "nm_peer (eb_match e) = PeerNone \<Longrightarrow> matchesBindingScope (eb_match e) p q \<longleftrightarrow> scope_fits (eb_match e) q"
    "nm_peer (eb_match e) = PeerWildcard k \<Longrightarrow> matchesBindingScope (eb_match e) (Some peer) q \<longleftrightarrow>
      peerKindMatches k (rp_kind peer) \<and> scope_fits (eb_match e) q"
    "peer_key (eb_match e) = Some key \<Longrightarrow> matchesBindingScope (eb_match e) (Some peer) q \<longleftrightarrow>
      peer_fits (eb_match e) peer \<and> scope_fits (eb_match e) q"
    "unpeered (eb_match e) \<longleftrightarrow> nm_peer (eb_match e) = PeerNone"
    "nm_guildId (eb_match e) = Some g \<Longrightarrow> g \<noteq> []" "nm_teamId (eb_match e) = Some t \<Longrightarrow> t \<noteq> []"
proof -
  from assms(2,3) obtain x where x: "eb_match e = normalizeBindingMatch x" "nm_peer (eb_match e) \<noteq> PeerInvalid"
    by (auto simp: evaluated_ok_def)
  note scope = scope_fits_iff [OF assms(1) x(1)]
  show "nm_peer (eb_match e) = PeerNone \<Longrightarrow> matchesBindingScope (eb_match e) p q \<longleftrightarrow> scope_fits (eb_match e) q"
    "nm_peer (eb_match e) = PeerWildcard k \<Longrightarrow> matchesBindingScope (eb_match e) (Some peer) q \<longleftrightarrow>
      peerKindMatches k (rp_kind peer) \<and> scope_fits (eb_match e) q"
    by (simp_all add: matchesBindingScope_def scope)
  show "peer_key (eb_match e) = Some key \<Longrightarrow> matchesBindingScope (eb_match e) (Some peer) q \<longleftrightarrow>
      peer_fits (eb_match e) peer \<and> scope_fits (eb_match e) q"
    by (auto simp: matchesBindingScope_def scope peer_key_def peer_fits_def split: NormalizedPeerConstraint.splits)
  show "unpeered (eb_match e) \<longleftrightarrow> nm_peer (eb_match e) = PeerNone"
    using x(2) by (auto simp: unpeered_def)
  show "nm_guildId (eb_match e) = Some g \<Longrightarrow> g \<noteq> []" "nm_teamId (eb_match e) = Some t \<Longrightarrow> t \<noteq> []"
    using normalized_match_facts [of x] x(1) by auto
qed

lemma index_of:
  "index_get (ix_byPeer (buildEvaluatedBindingsIndex es)) key = filter (\<lambda>e. peer_key (eb_match e) = Some key) es"
  "ix_byPeerWildcard (buildEvaluatedBindingsIndex es) = filter (\<lambda>e. \<exists>k. nm_peer (eb_match e) = PeerWildcard k) es"
  "key \<noteq> [] \<Longrightarrow> index_get (ix_byGuildWithRoles (buildEvaluatedBindingsIndex es)) key =
     filter (\<lambda>e. unpeered (eb_match e) \<and> nm_guildId (eb_match e) = Some key \<and> nm_roles (eb_match e) \<noteq> None) es"
  "key \<noteq> [] \<Longrightarrow> index_get (ix_byGuild (buildEvaluatedBindingsIndex es)) key =
     filter (\<lambda>e. unpeered (eb_match e) \<and> nm_guildId (eb_match e) = Some key \<and> nm_roles (eb_match e) = None) es"
  "key \<noteq> [] \<Longrightarrow> index_get (ix_byTeam (buildEvaluatedBindingsIndex es)) key =
     filter (\<lambda>e. unpeered (eb_match e) \<and> nm_guildId (eb_match e) = None \<and> nm_teamId (eb_match e) = Some key) es"
  "ix_byAccount (buildEvaluatedBindingsIndex es) = filter (\<lambda>e. unpeered (eb_match e) \<and>
     nm_guildId (eb_match e) = None \<and> nm_teamId (eb_match e) = None \<and> \<not> any_account e) es"
  "ix_byChannel (buildEvaluatedBindingsIndex es) = filter (\<lambda>e. unpeered (eb_match e) \<and>
     nm_guildId (eb_match e) = None \<and> nm_teamId (eb_match e) = None \<and> any_account e) es"
  by (simp_all add: buildEvaluatedBindingsIndex_def index_fold index_get_def [of "[]"])

text \<open>A tier that selects by \<open>Q\<close> finds what the specification asks for.\<close>

lemma tier_finds_filtered:
  assumes "\<And>e. e \<in> set es \<Longrightarrow> Q e \<and> matchesBindingScope (eb_match e) p q \<longleftrightarrow> tier_finds q tier (eb_match e)"
  shows "find (\<lambda>e. matchesBindingScope (eb_match e) p q) (filter Q es) = find (\<lambda>e. tier_finds q tier (eb_match e)) es"
  unfolding find_filter by (rule find_cong_set) (use assms in simp)

lemma find_False [simp]: "find (\<lambda>e. False) es = None"
  by (induction es) simp_all

lemma no_tier_finds:
  "(\<And>e. e \<in> set es \<Longrightarrow> \<not> tier_finds q tier (eb_match e)) \<Longrightarrow> find (\<lambda>e. tier_finds q tier (eb_match e)) es = None"
  by (simp add: find_None_iff)

lemma peer_tier:
  assumes "trimmed_query q" "evaluated_ok es"
    and "\<And>m. tier_fits tier m q \<longleftrightarrow> (\<exists>p. peer = Some p \<and> peer_fits m p)"
  shows "find (\<lambda>e. matchesBindingScope (eb_match e) peer q)
      (getPeerIndexedBindings (buildEvaluatedBindingsIndex es) peer) = find (\<lambda>e. tier_finds q tier (eb_match e)) es"
proof (cases peer)
  case None
  then show ?thesis
    using assms(3) by (simp add: getPeerIndexedBindings_def no_tier_finds tier_finds_def)
next
  case (Some p)
  then show ?thesis
    unfolding getPeerIndexedBindings_def index_of option.case Some
    by (intro tier_finds_filtered)
       (use assms(3) matches_scope(3) [OF assms(1,2)] peer_key_fits in \<open>auto simp: tier_finds_def Some\<close>)
qed

text \<open>The tiers one by one.\<close>

lemma tier_matches:
  assumes q: "trimmed_query q" and es: "evaluated_ok es"
  shows "map (\<lambda>t. (ti_matchedBy t, tier_match q t)) (route_tiers (buildEvaluatedBindingsIndex es) q) =
    map (\<lambda>t. (t, find (\<lambda>e. tier_finds q t (eb_match e)) es)) tier_order"
proof -
  let ?ix = "buildEvaluatedBindingsIndex es"
  let ?find = "\<lambda>p. find (\<lambda>e. matchesBindingScope (eb_match e) p q)"
  let ?finds = "\<lambda>t. find (\<lambda>e. tier_finds q t (eb_match e)) es"
  note scope = matches_scope [OF q es]
  have peer: "?find (rq_peer q) (getPeerIndexedBindings ?ix (rq_peer q)) = ?finds BindingPeer"
    by (rule peer_tier [OF q es]) simp
  have same: "present_peer x = Some p \<Longrightarrow> x = Some p \<and> rp_id p \<noteq> []" for x p
    by (auto simp: present_peer_def split: option.splits if_splits)
  have parent: "?find (Some p) (getPeerIndexedBindings ?ix (rq_parentPeer q)) = ?finds BindingPeerParent"
    if "present_peer (rq_parentPeer q) = Some p" for p
  proof -
    have "?find (Some p) (getPeerIndexedBindings ?ix (Some p)) = ?finds BindingPeerParent"
      by (rule peer_tier [OF q es]) (use same [OF that] in auto)
    then show ?thesis using same [OF that] by simp
  qed
  have wildcard: "?find (Some p) (ix_byPeerWildcard ?ix) = ?finds BindingPeerWildcard" if "rq_peer q = Some p" for p
    unfolding index_of by (intro tier_finds_filtered) (use that scope(2) in \<open>auto simp: tier_finds_def\<close>)
  have roles: "?find p (index_get (ix_byGuildWithRoles ?ix) (rq_guildId q)) = ?finds BindingGuildRoles"
    and guild: "?find p (index_get (ix_byGuild ?ix) (rq_guildId q)) = ?finds BindingGuild"
    if "rq_guildId q \<noteq> []" for p
    unfolding index_of(3,4) [OF that]
    by (intro tier_finds_filtered; use scope(1,4) in \<open>auto simp: tier_finds_def scope_fits_def\<close>)+
  have team: "?find p (index_get (ix_byTeam ?ix) (rq_teamId q)) = ?finds BindingTeam"
    if "rq_teamId q \<noteq> []" for p
    unfolding index_of(5) [OF that]
    by (intro tier_finds_filtered) (use scope(1,4) in \<open>auto simp: tier_finds_def scope_fits_def\<close>)
  have account: "?find p (ix_byAccount ?ix) = ?finds BindingAccount"
    and channel: "?find p (ix_byChannel ?ix) = ?finds BindingChannel" for p
    unfolding index_of(6,7)
    by (intro tier_finds_filtered; use scope(1,4) in \<open>auto simp: tier_finds_def any_account_def\<close>)+
  have off: "rq_peer q = None \<Longrightarrow> ?finds BindingPeer = None" "rq_peer q = None \<Longrightarrow> ?finds BindingPeerWildcard = None"
    "present_peer (rq_parentPeer q) = None \<Longrightarrow> ?finds BindingPeerParent = None"
    "rq_guildId q = [] \<or> rq_memberRoleIds q = [] \<Longrightarrow> ?finds BindingGuildRoles = None"
    "rq_guildId q = [] \<Longrightarrow> ?finds BindingGuild = None" "rq_teamId q = [] \<Longrightarrow> ?finds BindingTeam = None"
    by (rule no_tier_finds, use scope(5,6) in \<open>force simp: tier_finds_def scope_fits_def present_peer_def
      split: option.splits if_splits\<close>)+
  show ?thesis
    using peer parent wildcard roles guild team account channel off
    by (auto simp: route_tiers_def tier_order_def tier_match_def Let_def)
qed

lemma first_match_specific:
  assumes "map (\<lambda>t. (ti_matchedBy t, tier_match q t)) tiers = map (\<lambda>t. (t, found t)) order"
    "\<And>t. map_option eb_binding (found t) = tier_binding cfg q t"
  shows "map_option (map_prod id eb_binding) (first_match q tiers) = most_specific cfg q order"
  using assms(1)
proof (induction tiers arbitrary: order)
  case (Cons tier tiers)
  then obtain t ts where o: "order = t # ts" by (cases order) auto
  with Cons show ?case
    using assms(2) [of t] by (auto split: option.split)
qed simp

lemma trimmed_route_input: "trimmed_query (normalize_route_input cfg input)"
  by (simp add: trimmed_query_def normalize_route_input_def normalizeRouteBindingId_def trim_or_empty_def)

lemma resolve_most_specific:
  assumes "trimmed_query q"
  shows "resolve_route_query cfg q = choose_match cfg q (most_specific cfg q tier_order)"
proof -
  let ?es = "getEvaluatedBindingsForChannelAccount cfg (rq_channel q) (rq_accountId q)"
  have "evaluated_ok ?es"
    unfolding bindings_for_channel_account by (rule evaluated_ok_filter)
  from tier_matches [OF assms this]
  have "map_option (map_prod id eb_binding) (first_match q (route_tiers (buildEvaluatedBindingsIndex ?es) q)) =
      most_specific cfg q tier_order"
  proof (rule first_match_specific)
    show "map_option eb_binding (find (\<lambda>e. tier_finds q t (eb_match e)) ?es) = tier_binding cfg q t" for t
      using find_evaluated [of q "tier_finds q t" 0 "listRouteBindings cfg"]
      by (simp add: bindings_for_channel_account find_filter tier_binding_def tier_finds_def conj_commute conj_left_commute)
  qed
  then show ?thesis
    by (simp add: resolve_route_query_def getEvaluatedBindingIndexForChannelAccount_def)
qed

text \<open>C19: Route resolution picks the most specific binding: on an empty cache, the channel and account
  buckets, the merge, the index and the tier search together choose the first binding in
  configuration order that is considered for the channel and account, fits the scope, and belongs to
  the first tier that has one, from the peer itself over its parent, wildcards, guild with roles,
  guild, team and account to the channel; without any, the default agent answers.\<close>

theorem route_is_most_specific:
  "fst (resolveAgentRoute verbose cfg input []) =
    choose_match cfg (normalize_route_input cfg input)
      (most_specific cfg (normalize_route_input cfg input) tier_order)"
  by (simp add: resolveAgentRoute_def Let_def resolve_most_specific trimmed_route_input split: sum.split)

section \<open>The cache of routes\<close>

lemma chat_type_text_inject: "chat_type_text k @ CHR '':'' # s = chat_type_text k' @ CHR '':'' # s' \<longleftrightarrow> k = k' \<and> s = s'"
  by (cases k; cases k') auto

lemma formatRouteCachePeer_inject: "formatRouteCachePeer p = formatRouteCachePeer p' \<longleftrightarrow> p = p'"
proof -
  have dash: "chat_type_text k @ CHR '':'' # s \<noteq> ''-''" "''-'' \<noteq> chat_type_text k @ CHR '':'' # s" for k s
    by (cases k; simp)+
  have same: "rp_kind a = rp_kind b \<and> rp_id a = rp_id b \<longleftrightarrow> a = b" for a b :: RoutePeer
    by (cases a; cases b) simp
  show ?thesis
    by (cases p; cases p') (simp_all add: formatRouteCachePeer_def dash chat_type_text_inject same)
qed

lemma scope_text_inject:
  "dm_scope_text a = dm_scope_text b \<longleftrightarrow> a = b" "group_scope_text g = group_scope_text h \<longleftrightarrow> g = h"
  by (cases a; cases b; simp) (cases g; cases h; simp)

text \<open>Queries with the same key differ at most in the order of the roles, which no answer depends on.\<close>

lemma cache_key_inject:
  assumes "buildResolvedRouteCacheKey q = buildResolvedRouteCacheKey q'"
  shows "mset (rq_memberRoleIds q) = mset (rq_memberRoleIds q') \<and> q\<lparr>rq_memberRoleIds := []\<rparr> = q'\<lparr>rq_memberRoleIds := []\<rparr>"
proof -
  let ?v = "\<lambda>q. JArr [JStr (rq_channel q), JStr (rq_defaultAgentId q), JStr (rq_accountId q),
      JStr (formatRouteCachePeer (rq_peer q)), JStr (formatRouteCachePeer (rq_parentPeer q)),
      JStr (rq_guildId q), JStr (rq_teamId q), JArr (map JStr (sort (rq_memberRoleIds q))),
      JStr (dm_scope_text (rq_dmScope q)), JStr (group_scope_text (rq_groupScope q))]"
  have "?v q = ?v q'"
    using flat_text_inject [of "?v q" "?v q'" "[]" "[]"] assms
    by (simp add: buildResolvedRouteCacheKey_def list_all_iff)
  then have eq: "rq_channel q = rq_channel q'" "rq_defaultAgentId q = rq_defaultAgentId q'"
    "rq_accountId q = rq_accountId q'" "rq_peer q = rq_peer q'" "rq_parentPeer q = rq_parentPeer q'"
    "rq_guildId q = rq_guildId q'" "rq_teamId q = rq_teamId q'"
    "map JStr (sort (rq_memberRoleIds q)) = map JStr (sort (rq_memberRoleIds q'))"
    "rq_dmScope q = rq_dmScope q'" "rq_groupScope q = rq_groupScope q'"
    by (simp_all add: formatRouteCachePeer_inject scope_text_inject)
  have "sort (rq_memberRoleIds q) = sort (rq_memberRoleIds q')"
    using eq(8) by (auto intro!: injD [OF list.inj_map, of JStr] injI)
  then have "mset (rq_memberRoleIds q) = mset (rq_memberRoleIds q')"
    by (metis mset_sort)
  with eq show ?thesis by (cases q; cases q') simp
qed

lemma same_key_same_route:
  assumes "buildResolvedRouteCacheKey q = buildResolvedRouteCacheKey q'" "trimmed_query q" "trimmed_query q'"
  shows "resolve_route_query cfg q = resolve_route_query cfg q'"
proof -
  from cache_key_inject [OF assms(1)]
  have roles: "set (rq_memberRoleIds q) = set (rq_memberRoleIds q')"
    and rest: "q\<lparr>rq_memberRoleIds := []\<rparr> = q'\<lparr>rq_memberRoleIds := []\<rparr>"
    by (auto dest: mset_eq_setD)
  obtain r where q': "q' = q\<lparr>rq_memberRoleIds := r\<rparr>"
    using rest by (cases q; cases q') auto
  with roles have r: "set r = set (rq_memberRoleIds q)" by simp
  have "tier_fits t m q' = tier_fits t m q" "scope_fits m q' = scope_fits m q" "binding_considered q' b = binding_considered q b"
    for t m b
    by (cases t; simp add: q') (simp_all add: q' r scope_fits_def binding_considered_def)
  then have "tier_binding cfg q' t = tier_binding cfg q t" for t
    by (simp add: tier_binding_def)
  then have "most_specific cfg q' ts = most_specific cfg q ts" for ts
    by (induction ts) (simp_all split: option.split)
  moreover have fields: "rq_dmScope q' = rq_dmScope q" "rq_groupScope q' = rq_groupScope q"
    "rq_channel q' = rq_channel q" "rq_accountId q' = rq_accountId q" "rq_peer q' = rq_peer q"
    "rq_defaultAgentId q' = rq_defaultAgentId q"
    by (simp_all add: q')
  have choose: "choose_route cfg q' = choose_route cfg q"
    unfolding choose_route_def fields by (rule refl)
  have "choose_match cfg q' = choose_match cfg q"
    unfolding choose_match_def choose_default_def fields choose by (rule refl)
  ultimately show ?thesis
    unfolding resolve_most_specific [OF assms(2)] resolve_most_specific [OF assms(3)] by simp
qed

definition route_cache_ok :: "RouteConfig \<Rightarrow> route_cache \<Rightarrow> bool" where
  "route_cache_ok cfg cache \<longleftrightarrow> length cache \<le> MAX_RESOLVED_ROUTE_CACHE_KEYS \<and>
     (\<forall>(key, route) \<in> set cache. \<exists>q. trimmed_query q \<and> key = buildResolvedRouteCacheKey q \<and>
       resolve_route_query cfg q = Inr route)"

lemma cached_route:
  assumes "route_cache_ok cfg cache" "jm_get cache (buildResolvedRouteCacheKey q) = Some route" "trimmed_query q"
  shows "resolve_route_query cfg q = Inr route"
proof -
  from assms(1) map_of_SomeD [OF assms(2)] obtain q' where "trimmed_query q'"
    "buildResolvedRouteCacheKey q = buildResolvedRouteCacheKey q'" "resolve_route_query cfg q' = Inr route"
    by (auto simp: route_cache_ok_def)
  with same_key_same_route [of q q' cfg] assms(3) show ?thesis by simp
qed

lemma store_route_ok:
  assumes "route_cache_ok cfg cache" "trimmed_query q" "resolve_route_query cfg q = Inr route"
  shows "route_cache_ok cfg (store_route (buildResolvedRouteCacheKey q) route cache)"
proof -
  let ?key = "buildResolvedRouteCacheKey q"
  have one: "1 \<le> MAX_RESOLVED_ROUTE_CACHE_KEYS" by (simp add: MAX_RESOLVED_ROUTE_CACHE_KEYS_def)
  have "\<exists>q'. trimmed_query q' \<and> k = buildResolvedRouteCacheKey q' \<and> resolve_route_query cfg q' = Inr r"
    if "(k, r) \<in> insert (?key, route) (set cache)" for k r
    using that assms by (auto simp: route_cache_ok_def)
  with jm_set_subset [of ?key route cache] one show ?thesis
    by (auto simp: route_cache_ok_def store_route_def Let_def)
qed

lemma resolveAgentRoute_cached:
  assumes "route_cache_ok cfg cache"
  shows "fst (resolveAgentRoute verbose cfg input cache) = resolve_route_query cfg (normalize_route_input cfg input)"
    "route_cache_ok cfg (snd (resolveAgentRoute verbose cfg input cache))"
  using assms cached_route [OF assms _ trimmed_route_input] store_route_ok [OF assms trimmed_route_input]
  by (auto simp: resolveAgentRoute_def Let_def split: option.split sum.split)

lemma run_lookups_ok: "route_cache_ok cfg cache \<Longrightarrow> route_cache_ok cfg (run_lookups cfg lookups cache)"
  using resolveAgentRoute_cached(2)
  by (induction lookups arbitrary: cache) (auto simp: run_lookups_def split: prod.split)

text \<open>C20: The cache of routes never changes an answer: after any lookups on a configuration, a lookup
  answers (or fails) exactly as on an empty cache, and the cache holds at most its maximal number of
  routes. Requests that differ in any part that matters have different keys, whatever characters
  their ids contain; the order of the roles does not matter.\<close>

theorem route_cache_is_transparent:
  "fst (resolveAgentRoute verbose cfg input (run_lookups cfg lookups [])) =
     fst (resolveAgentRoute verbose cfg input []) \<and>
   length (run_lookups cfg lookups []) \<le> MAX_RESOLVED_ROUTE_CACHE_KEYS"
proof -
  have empty: "route_cache_ok cfg []" by (simp add: route_cache_ok_def)
  from run_lookups_ok [OF this] have "route_cache_ok cfg (run_lookups cfg lookups [])" .
  with resolveAgentRoute_cached(1) [OF this] resolveAgentRoute_cached(1) [OF empty] show ?thesis
    by (simp add: route_cache_ok_def)
qed

end
