(* ===== verification/Gateway_Admission.thy ===== *)
theory Gateway_Admission
  imports Prelude
begin

text \<open>
  Process-wide admission of root work with reversible host suspension
  (\<open>src/process/gateway-work-admission.ts\<close>): the state, and one definition per operation.

  Objects with an identity live in append-only stores and are named by their position: root
  records (\<open>ga_roots\<close>), the closures that release a reference (\<open>ga_handles\<close>) and continuation
  scopes (\<open>ga_scopes\<close>). The \<open>AsyncLocalStorage\<close> value of the caller is an argument, the root
  of the calling async chain or none. Suspension and restart leases are closures over the
  generation they were created with, and that number is what names them. An abort controller is
  a number too; \<open>ga_aborted\<close> holds the reason of each aborted one.

  A call that waits is a promise with an id. It is either in \<open>ga_waiters\<close>
  (\<open>suspendOpenWaiters\<close>), in \<open>ga_resumed\<close> (resolved, its loop not yet re-entered: the
  microtask queue) or in \<open>ga_settled\<close> with its result. What a body does between the begin and the
  release of its root is any sequence of other operations.
\<close>

section \<open>State\<close>

datatype suspend_phase = Accepting | Preparing | Draining | Prepared

datatype draining_error = GatewayDrainingError string | OtherError string

record GatewayRootWorkAdmission =
  gr_origin :: string
  gr_references :: int
  gr_released :: bool
  gr_retiredByReset :: bool

record ReleaseHandle =
  rh_root :: nat
  rh_leaseReleased :: bool

record ContinuationScope =
  cs_root :: nat
  cs_released :: bool
  cs_releaseAdmission :: "nat option"

record RootWorkLease =
  rw_ownsRoot :: bool
  rw_release :: "nat option"
  rw_context :: "nat option"

text \<open>The closures the two callers of \<open>tryBeginGatewaySuspendAdmission\<close> pass for invalidation.\<close>

datatype suspend_callback = Coordinator_Invalidated nat | Thaw_Restart_Invalidated nat

datatype admission_effect =
    Log_Info string
  | Invoke suspend_callback
  | Notify nat suspend_phase

datatype waiting_call =
    Fence_Settlement
  | Root_When_Open "nat option" string
  | Independent_Root string

datatype call_result =
    Fence_Settled
  | Rejected draining_error
  | Admitted RootWorkLease

record GatewayWorkAdmissionState =
  ga_restartDraining :: bool
  ga_controller :: nat
  ga_aborted :: "(nat, draining_error) jsmap"
  ga_restartSignalPending :: bool
  ga_restartSignalGeneration :: nat
  ga_suspendPhase :: suspend_phase
  ga_suspendGeneration :: nat
  ga_suspendInvalidated :: "suspend_callback option"
  ga_activeRootWork :: "nat list"
  ga_waiters :: "(nat \<times> waiting_call) list"
  ga_listeners :: "nat list"
  ga_roots :: "GatewayRootWorkAdmission list"
  ga_handles :: "ReleaseHandle list"
  ga_scopes :: "ContinuationScope list"
  ga_resumed :: "(nat \<times> waiting_call) list"
  ga_settled :: "(nat \<times> call_result) list"
  ga_nextCall :: nat
  ga_effects :: "admission_effect list"

definition initial_admission :: GatewayWorkAdmissionState where
  "initial_admission = \<lparr>ga_restartDraining = False, ga_controller = 0, ga_aborted = [],
     ga_restartSignalPending = False, ga_restartSignalGeneration = 0, ga_suspendPhase = Accepting,
     ga_suspendGeneration = 0, ga_suspendInvalidated = None, ga_activeRootWork = [],
     ga_waiters = [], ga_listeners = [], ga_roots = [], ga_handles = [], ga_scopes = [],
     ga_resumed = [], ga_settled = [], ga_nextCall = 0, ga_effects = []\<rparr>"

definition emit :: "admission_effect \<Rightarrow> GatewayWorkAdmissionState \<Rightarrow> GatewayWorkAdmissionState" where
  "emit e st = st\<lparr>ga_effects := ga_effects st @ [e]\<rparr>"

definition logAdmissionClosed :: "string \<Rightarrow> GatewayWorkAdmissionState \<Rightarrow> GatewayWorkAdmissionState" where
  "logAdmissionClosed reason = emit (Log_Info (''admission closed: '' @ reason))"

definition logAdmissionReopened :: "string \<Rightarrow> GatewayWorkAdmissionState \<Rightarrow> GatewayWorkAdmissionState" where
  "logAdmissionReopened reason = emit (Log_Info (''admission reopened: '' @ reason))"

text \<open>\<open>AbortController.abort\<close>: the first reason stays.\<close>

definition abort_controller ::
  "nat \<Rightarrow> draining_error \<Rightarrow> GatewayWorkAdmissionState \<Rightarrow> GatewayWorkAdmissionState" where
  "abort_controller c reason st =
     (if jm_get (ga_aborted st) c = None then st\<lparr>ga_aborted := jm_set c reason (ga_aborted st)\<rparr> else st)"

section \<open>Roots and the closures that release them\<close>

text \<open>\<open>replaceAll(/\s+/g, " ")\<close>: one blank where a run of white space ends.\<close>

fun collapse_spaces :: "string \<Rightarrow> string" where
  "collapse_spaces [] = []"
| "collapse_spaces (c # s) =
     (if \<not> js_space c then c # collapse_spaces s
      else if s \<noteq> [] \<and> js_space (hd s) then collapse_spaces s
      else CHR '' '' # collapse_spaces s)"

definition GATEWAY_ROOT_WORK_ORIGIN_MAX_CHARS :: nat where
  "GATEWAY_ROOT_WORK_ORIGIN_MAX_CHARS = 80"

definition normalized_origin :: "string \<Rightarrow> string" where
  "normalized_origin origin =
     (let n = take GATEWAY_ROOT_WORK_ORIGIN_MAX_CHARS (collapse_spaces (js_trim origin))
      in if n = [] then ''gateway'' else n)"

definition createGatewayRootWorkRelease ::
  "nat \<Rightarrow> GatewayWorkAdmissionState \<Rightarrow> nat \<times> GatewayWorkAdmissionState" where
  "createGatewayRootWorkRelease root st =
     (length (ga_handles st),
      st\<lparr>ga_handles := ga_handles st @ [\<lparr>rh_root = root, rh_leaseReleased = False\<rparr>]\<rparr>)"

definition createGatewayRootWorkAdmission ::
  "string \<Rightarrow> GatewayWorkAdmissionState \<Rightarrow> RootWorkLease \<times> GatewayWorkAdmissionState" where
  "createGatewayRootWorkAdmission origin st =
     (let root = length (ga_roots st);
          admission = \<lparr>gr_origin = normalized_origin origin, gr_references = 1,
                       gr_released = False, gr_retiredByReset = False\<rparr>;
          (release, st') = createGatewayRootWorkRelease root
            (st\<lparr>ga_roots := ga_roots st @ [admission],
                ga_activeRootWork := ga_activeRootWork st @ [root]\<rparr>)
      in (\<lparr>rw_ownsRoot = True, rw_release = Some release, rw_context = Some root\<rparr>, st'))"

definition set_root ::
  "nat \<Rightarrow> (GatewayRootWorkAdmission \<Rightarrow> GatewayRootWorkAdmission) \<Rightarrow>
    GatewayWorkAdmissionState \<Rightarrow> GatewayWorkAdmissionState" where
  "set_root root f st = st\<lparr>ga_roots := (ga_roots st)[root := f (ga_roots st ! root)]\<rparr>"

definition release_handle :: "nat \<Rightarrow> GatewayWorkAdmissionState \<Rightarrow> GatewayWorkAdmissionState" where
  "release_handle h st =
     (let hd = ga_handles st ! h; root = rh_root hd; admission = ga_roots st ! root
      in if rh_leaseReleased hd \<or> gr_released admission then st
         else let st = st\<lparr>ga_handles := (ga_handles st)[h := hd\<lparr>rh_leaseReleased := True\<rparr>]\<rparr>;
                  references = gr_references admission - 1;
                  st = set_root root (gr_references_update (\<lambda>_. references)) st
              in if 0 < references then st
                 else (set_root root (gr_released_update (\<lambda>_. True)) st)
                   \<lparr>ga_activeRootWork := filter (\<lambda>r. r \<noteq> root) (ga_activeRootWork st)\<rparr>)"

section \<open>Waking, notifying, and the fences\<close>

definition resolveSuspendOpenWaiters :: "GatewayWorkAdmissionState \<Rightarrow> GatewayWorkAdmissionState" where
  "resolveSuspendOpenWaiters st =
     st\<lparr>ga_resumed := ga_resumed st @ ga_waiters st, ga_waiters := []\<rparr>"

definition notifyGatewaySuspendAdmission :: "GatewayWorkAdmissionState \<Rightarrow> GatewayWorkAdmissionState" where
  "notifyGatewaySuspendAdmission st =
     foldl (\<lambda>s l. emit (Notify l (ga_suspendPhase st)) s) st (ga_listeners st)"

definition onGatewaySuspendAdmissionChange ::
  "nat \<Rightarrow> GatewayWorkAdmissionState \<Rightarrow> GatewayWorkAdmissionState" where
  "onGatewaySuspendAdmissionChange l st =
     st\<lparr>ga_listeners := (if l \<in> set (ga_listeners st) then ga_listeners st else ga_listeners st @ [l])\<rparr>"

definition unsubscribe_listener :: "nat \<Rightarrow> GatewayWorkAdmissionState \<Rightarrow> GatewayWorkAdmissionState" where
  "unsubscribe_listener l st = st\<lparr>ga_listeners := filter (\<lambda>k. k \<noteq> l) (ga_listeners st)\<rparr>"

definition invoke_callback ::
  "suspend_callback option \<Rightarrow> GatewayWorkAdmissionState \<Rightarrow> GatewayWorkAdmissionState" where
  "invoke_callback cb st = (case cb of None \<Rightarrow> st | Some c \<Rightarrow> emit (Invoke c) st)"

definition invalidateSuspendAdmission :: "GatewayWorkAdmissionState \<Rightarrow> GatewayWorkAdmissionState" where
  "invalidateSuspendAdmission st =
     (let callback = ga_suspendInvalidated st;
          wasClosed = (ga_suspendPhase st \<noteq> Accepting);
          st = st\<lparr>ga_suspendInvalidated := None, ga_suspendPhase := Accepting,
                  ga_suspendGeneration := ga_suspendGeneration st + 1\<rparr>;
          st = resolveSuspendOpenWaiters st;
          st = (if wasClosed \<and> \<not> ga_restartDraining st then logAdmissionReopened ''suspend phase'' st else st);
          st = invoke_callback callback st
      in if wasClosed then notifyGatewaySuspendAdmission st else st)"

definition clearRestartSignalFence :: "GatewayWorkAdmissionState \<Rightarrow> bool \<times> GatewayWorkAdmissionState" where
  "clearRestartSignalFence st =
     (if ga_restartDraining st \<or> \<not> ga_restartSignalPending st then (False, st)
      else let st = st\<lparr>ga_restartSignalPending := False,
                       ga_restartSignalGeneration := ga_restartSignalGeneration st + 1\<rparr>;
               st = resolveSuspendOpenWaiters st
           in (True, if ga_suspendPhase st = Accepting then logAdmissionReopened ''restart-signal fence'' st
                     else emit (Log_Info ''restart-signal fence cleared; suspension remains closed'') st))"

definition isGatewayWorkAdmissionClosed :: "GatewayWorkAdmissionState \<Rightarrow> bool" where
  "isGatewayWorkAdmissionClosed st \<longleftrightarrow>
     ga_restartDraining st \<or> ga_restartSignalPending st \<or> ga_suspendPhase st \<noteq> Accepting"

definition isGatewaySubordinateWorkAdmissionClosed :: "nat option \<Rightarrow> GatewayWorkAdmissionState \<Rightarrow> bool" where
  "isGatewaySubordinateWorkAdmissionClosed current st \<longleftrightarrow>
     (if ga_restartDraining st \<or> ga_restartSignalPending st then True
      else case current of
             Some root \<Rightarrow> gr_released (ga_roots st ! root)
           | None \<Rightarrow> ga_suspendPhase st \<noteq> Accepting)"

definition isGatewayRestartDraining :: "GatewayWorkAdmissionState \<Rightarrow> bool" where
  "isGatewayRestartDraining st \<longleftrightarrow> ga_restartDraining st \<or> ga_restartSignalPending st"

definition getGatewayRestartDrainSignal :: "GatewayWorkAdmissionState \<Rightarrow> nat" where
  "getGatewayRestartDrainSignal st = ga_controller st"

definition isGatewayRestartDrainError :: "draining_error \<Rightarrow> GatewayWorkAdmissionState \<Rightarrow> bool" where
  "isGatewayRestartDrainError e st \<longleftrightarrow>
     (case e of GatewayDrainingError _ \<Rightarrow> isGatewayRestartDraining st | OtherError _ \<Rightarrow> False)"

definition markGatewayRestartDraining :: "GatewayWorkAdmissionState \<Rightarrow> GatewayWorkAdmissionState" where
  "markGatewayRestartDraining st =
     (if ga_restartDraining st then st
      else let st = st\<lparr>ga_restartSignalPending := False,
                       ga_restartSignalGeneration := ga_restartSignalGeneration st + 1,
                       ga_restartDraining := True\<rparr>;
               st = abort_controller (ga_controller st)
                      (GatewayDrainingError ''gateway is draining for restart'') st;
               st = resolveSuspendOpenWaiters st;
               st = logAdmissionClosed ''restart drain'' st
           in if ga_suspendPhase st \<noteq> Accepting then invalidateSuspendAdmission st else st)"

text \<open>The lease is the generation it may roll back; no lease while another fence is up.\<close>

definition beginGatewayRestartSignalAdmission ::
  "GatewayWorkAdmissionState \<Rightarrow> nat option \<times> GatewayWorkAdmissionState" where
  "beginGatewayRestartSignalAdmission st =
     (if ga_restartDraining st \<or> ga_restartSignalPending st then (None, st)
      else let generation = ga_restartSignalGeneration st + 1;
               st = st\<lparr>ga_restartSignalPending := True, ga_restartSignalGeneration := generation\<rparr>
           in (Some generation, logAdmissionClosed ''restart-signal fence'' st))"

definition restart_signal_rollback ::
  "nat \<Rightarrow> GatewayWorkAdmissionState \<Rightarrow> bool \<times> GatewayWorkAdmissionState" where
  "restart_signal_rollback generation st =
     (if \<not> ga_restartSignalPending st \<or> ga_restartSignalGeneration st \<noteq> generation then (False, st)
      else clearRestartSignalFence st)"

definition rollbackGatewayRestartSignalFence ::
  "GatewayWorkAdmissionState \<Rightarrow> bool \<times> GatewayWorkAdmissionState" where
  "rollbackGatewayRestartSignalFence st = clearRestartSignalFence st"

section \<open>Admission of roots\<close>

definition create_lease ::
  "string \<Rightarrow> GatewayWorkAdmissionState \<Rightarrow> RootWorkLease option \<times> GatewayWorkAdmissionState" where
  "create_lease origin st =
     (let (lease, st') = createGatewayRootWorkAdmission origin st in (Some lease, st'))"

definition live_root :: "nat option \<Rightarrow> GatewayWorkAdmissionState \<Rightarrow> bool" where
  "live_root current st \<longleftrightarrow>
     (case current of None \<Rightarrow> False | Some root \<Rightarrow> \<not> gr_released (ga_roots st ! root))"

definition tryBeginGatewayRootWorkAdmission ::
  "nat option \<Rightarrow> string \<Rightarrow> GatewayWorkAdmissionState \<Rightarrow> RootWorkLease option \<times> GatewayWorkAdmissionState" where
  "tryBeginGatewayRootWorkAdmission current origin st =
     (if live_root current st
      then (Some \<lparr>rw_ownsRoot = False, rw_release = None, rw_context = current\<rparr>, st)
      else if ga_restartDraining st \<or> ga_restartSignalPending st \<or> ga_suspendPhase st \<noteq> Accepting
      then (None, st)
      else create_lease origin st)"

definition tryBeginGatewayRestartStartupRootWorkAdmission ::
  "GatewayWorkAdmissionState \<Rightarrow> RootWorkLease option \<times> GatewayWorkAdmissionState" where
  "tryBeginGatewayRestartStartupRootWorkAdmission st =
     (if \<not> ga_restartDraining st \<and> \<not> ga_restartSignalPending st \<or> ga_suspendPhase st \<noteq> Accepting
      then (None, st) else create_lease ''restart-startup'' st)"

definition tryBeginGatewayPreparedRestartRootWorkAdmission ::
  "GatewayWorkAdmissionState \<Rightarrow> RootWorkLease option \<times> GatewayWorkAdmissionState" where
  "tryBeginGatewayPreparedRestartRootWorkAdmission st =
     (if ga_restartDraining st \<or> ga_restartSignalPending st \<or> ga_suspendPhase st \<noteq> Prepared \<or>
         0 < length (ga_activeRootWork st)
      then (None, st) else create_lease ''restart-prepared'' st)"

definition tryBeginGatewayIndependentRootWorkAdmission ::
  "string \<Rightarrow> GatewayWorkAdmissionState \<Rightarrow> RootWorkLease option \<times> GatewayWorkAdmissionState" where
  "tryBeginGatewayIndependentRootWorkAdmission origin st =
     (if ga_restartDraining st \<or> ga_restartSignalPending st \<or> ga_suspendPhase st \<noteq> Accepting
      then (None, st) else create_lease origin st)"

section \<open>Calls that wait\<close>

definition settle_call ::
  "nat \<Rightarrow> call_result \<Rightarrow> GatewayWorkAdmissionState \<Rightarrow> GatewayWorkAdmissionState" where
  "settle_call call result st = st\<lparr>ga_settled := ga_settled st @ [(call, result)]\<rparr>"

definition await_open ::
  "nat \<Rightarrow> waiting_call \<Rightarrow> GatewayWorkAdmissionState \<Rightarrow> GatewayWorkAdmissionState" where
  "await_open call w st = st\<lparr>ga_waiters := ga_waiters st @ [(call, w)]\<rparr>"

definition settle_or_wait ::
  "nat \<Rightarrow> waiting_call \<Rightarrow> RootWorkLease option \<times> GatewayWorkAdmissionState \<Rightarrow> GatewayWorkAdmissionState" where
  "settle_or_wait call w attempt =
     (case fst attempt of
        Some lease \<Rightarrow> settle_call call (Admitted lease) (snd attempt)
      | None \<Rightarrow> await_open call w (snd attempt))"

text \<open>One pass through the loop of a waiting call, up to its return, its error or its \<open>await\<close>.\<close>

definition waitForGatewayRestartFenceSettlement ::
  "nat \<Rightarrow> GatewayWorkAdmissionState \<Rightarrow> GatewayWorkAdmissionState" where
  "waitForGatewayRestartFenceSettlement call st =
     (if \<not> ga_restartSignalPending st then settle_call call Fence_Settled st
      else await_open call Fence_Settlement st)"

definition beginGatewayRootWorkAdmissionWhenOpen ::
  "nat \<Rightarrow> nat option \<Rightarrow> string \<Rightarrow> GatewayWorkAdmissionState \<Rightarrow> GatewayWorkAdmissionState" where
  "beginGatewayRootWorkAdmissionWhenOpen call current origin st =
     (if ga_restartDraining st
      then settle_call call
             (Rejected (GatewayDrainingError ''Gateway is draining; new tasks are not accepted'')) st
      else settle_or_wait call (Root_When_Open current origin)
             (tryBeginGatewayRootWorkAdmission current origin st))"

definition runWithGatewayIndependentRootWorkAdmission ::
  "nat \<Rightarrow> string \<Rightarrow> GatewayWorkAdmissionState \<Rightarrow> GatewayWorkAdmissionState" where
  "runWithGatewayIndependentRootWorkAdmission call origin st =
     (if ga_restartDraining st
      then settle_call call (Rejected (GatewayDrainingError ''gateway is draining for restart'')) st
      else settle_or_wait call (Independent_Root origin)
             (tryBeginGatewayIndependentRootWorkAdmission origin st))"

fun iterate_call :: "nat \<Rightarrow> waiting_call \<Rightarrow> GatewayWorkAdmissionState \<Rightarrow> GatewayWorkAdmissionState" where
  "iterate_call call Fence_Settlement st = waitForGatewayRestartFenceSettlement call st"
| "iterate_call call (Root_When_Open current origin) st =
     beginGatewayRootWorkAdmissionWhenOpen call current origin st"
| "iterate_call call (Independent_Root origin) st =
     runWithGatewayIndependentRootWorkAdmission call origin st"

definition start_call :: "waiting_call \<Rightarrow> GatewayWorkAdmissionState \<Rightarrow> GatewayWorkAdmissionState" where
  "start_call w st = iterate_call (ga_nextCall st) w (st\<lparr>ga_nextCall := ga_nextCall st + 1\<rparr>)"

text \<open>The event loop resumes the call whose promise was resolved first.\<close>

definition resume_call :: "GatewayWorkAdmissionState \<Rightarrow> GatewayWorkAdmissionState" where
  "resume_call st =
     (case ga_resumed st of [] \<Rightarrow> st
      | (call, w) # rest \<Rightarrow> iterate_call call w (st\<lparr>ga_resumed := rest\<rparr>))"

section \<open>Detached work and continuations\<close>

text \<open>\<open>None\<close>: the body runs at once in the inherited context; otherwise the call that is started.\<close>

definition runWithGatewayRootWorkReadmission ::
  "nat option \<Rightarrow> GatewayWorkAdmissionState \<Rightarrow> waiting_call option" where
  "runWithGatewayRootWorkReadmission current st =
     (case current of None \<Rightarrow> None
      | Some root \<Rightarrow> if gr_retiredByReset (ga_roots st ! root)
                     then Some (Independent_Root ''runtime:readmission'') else None)"

definition runWithGatewayIndependentRootWorkContinuation ::
  "nat option \<Rightarrow> string \<Rightarrow> GatewayWorkAdmissionState \<Rightarrow> RootWorkLease option \<times> GatewayWorkAdmissionState" where
  "runWithGatewayIndependentRootWorkContinuation current origin st =
     (if \<not> live_root current st then (None, start_call (Independent_Root origin) st)
      else create_lease origin st)"

definition createGatewayRootWorkAdmissionContinuationScope ::
  "bool \<Rightarrow> nat option \<Rightarrow> GatewayWorkAdmissionState \<Rightarrow> nat option \<times> GatewayWorkAdmissionState" where
  "createGatewayRootWorkAdmissionContinuationScope retainRoot current st =
     (case current of None \<Rightarrow> (None, st)
      | Some root \<Rightarrow>
          if gr_released (ga_roots st ! root) \<or> root \<notin> set (ga_activeRootWork st) then (None, st)
          else let (handle, st) =
                     (if retainRoot
                      then let st = set_root root (\<lambda>r. r\<lparr>gr_references := gr_references r + 1\<rparr>) st;
                               (h, st) = createGatewayRootWorkRelease root st
                           in (Some h, st)
                      else (None, st))
               in (Some (length (ga_scopes st)),
                   st\<lparr>ga_scopes := ga_scopes st @
                     [\<lparr>cs_root = root, cs_released = False, cs_releaseAdmission = handle\<rparr>]\<rparr>))"

definition captureGatewayRootWorkAdmissionContinuationScope ::
  "nat option \<Rightarrow> GatewayWorkAdmissionState \<Rightarrow> nat option \<times> GatewayWorkAdmissionState" where
  "captureGatewayRootWorkAdmissionContinuationScope =
     createGatewayRootWorkAdmissionContinuationScope False"

definition retainGatewayRootWorkAdmissionContinuationScope ::
  "nat option \<Rightarrow> GatewayWorkAdmissionState \<Rightarrow> nat option \<times> GatewayWorkAdmissionState" where
  "retainGatewayRootWorkAdmissionContinuationScope =
     createGatewayRootWorkAdmissionContinuationScope True"

definition scope_release :: "nat \<Rightarrow> GatewayWorkAdmissionState \<Rightarrow> GatewayWorkAdmissionState" where
  "scope_release c st =
     (let scope = ga_scopes st ! c
      in if cs_released scope then st
         else let st = st\<lparr>ga_scopes := (ga_scopes st)[c := scope\<lparr>cs_released := True\<rparr>]\<rparr>
              in case cs_releaseAdmission scope of None \<Rightarrow> st | Some h \<Rightarrow> release_handle h st)"

text \<open>The body runs with the root as its context until the returned handle is released.\<close>

definition scope_run ::
  "nat \<Rightarrow> GatewayWorkAdmissionState \<Rightarrow> (draining_error + nat) \<times> GatewayWorkAdmissionState" where
  "scope_run c st =
     (let scope = ga_scopes st ! c; root = cs_root scope
      in if cs_released scope \<or> gr_released (ga_roots st ! root) \<or> root \<notin> set (ga_activeRootWork st)
         then (Inl (GatewayDrainingError ''gateway root work continuation is no longer active''), st)
         else let st = set_root root (\<lambda>r. r\<lparr>gr_references := gr_references r + 1\<rparr>) st;
                  (h, st) = createGatewayRootWorkRelease root st
              in (Inr h, st))"

text \<open>\<open>AsyncLocalStorage.exit\<close>: the body sees no root.\<close>

definition runOutsideGatewayRootWorkAdmission :: "nat option \<Rightarrow> nat option" where
  "runOutsideGatewayRootWorkAdmission current = None"

section \<open>The inventory of roots\<close>

definition getActiveGatewayRootWorkCount :: "bool \<Rightarrow> nat option \<Rightarrow> GatewayWorkAdmissionState \<Rightarrow> int" where
  "getActiveGatewayRootWorkCount excludeCurrent current st =
     (let count = int (length (ga_activeRootWork st));
          counted = (case current of None \<Rightarrow> False
                     | Some root \<Rightarrow> \<not> gr_released (ga_roots st ! root) \<and> root \<in> set (ga_activeRootWork st))
      in max 0 (if excludeCurrent \<and> counted then count - 1 else count))"

fun count_origin :: "string \<Rightarrow> (string, nat) jsmap \<Rightarrow> (string, nat) jsmap" where
  "count_origin origin counts =
     jm_set origin ((case jm_get counts origin of None \<Rightarrow> 0 | Some n \<Rightarrow> n) + 1) counts"

text \<open>The order of strings of \<open>localeCompare\<close> is a parameter (\<open>le\<close>: not after).\<close>

definition getActiveGatewayRootWorkHolders ::
  "(string \<Rightarrow> string \<Rightarrow> bool) \<Rightarrow> bool \<Rightarrow> nat option \<Rightarrow> GatewayWorkAdmissionState \<Rightarrow> string list" where
  "getActiveGatewayRootWorkHolders le excludeCurrent current st =
     (let shown = filter (\<lambda>root. \<not> (excludeCurrent \<and> Some root = current)) (ga_activeRootWork st);
          counts = foldl (\<lambda>m root. count_origin (gr_origin (ga_roots st ! root)) m) [] shown
      in map (\<lambda>(origin, n). if 1 < n then origin @ '' ('' @ nat_str n @ '')'' else origin)
           (sort_by (\<lambda>l r. le (fst l) (fst r)) counts))"

section \<open>Suspension leases\<close>

definition tryBeginGatewaySuspendAdmission ::
  "suspend_callback \<Rightarrow> GatewayWorkAdmissionState \<Rightarrow> nat option \<times> GatewayWorkAdmissionState" where
  "tryBeginGatewaySuspendAdmission onInvalidated st =
     (if ga_restartDraining st \<or> ga_restartSignalPending st \<or> ga_suspendPhase st \<noteq> Accepting
      then (None, st)
      else let generation = ga_suspendGeneration st + 1;
               st = st\<lparr>ga_suspendPhase := Preparing, ga_suspendGeneration := generation,
                       ga_suspendInvalidated := Some onInvalidated\<rparr>;
               st = logAdmissionClosed ''suspend phase'' st
           in (Some generation, notifyGatewaySuspendAdmission st))"

definition suspend_transition ::
  "suspend_phase \<Rightarrow> suspend_phase \<Rightarrow> nat \<Rightarrow> GatewayWorkAdmissionState \<Rightarrow> bool \<times> GatewayWorkAdmissionState" where
  "suspend_transition expected next generation st =
     (if ga_suspendGeneration st \<noteq> generation \<or> ga_suspendPhase st \<noteq> expected then (False, st)
      else let st = st\<lparr>ga_suspendPhase := next\<rparr>;
               st = (if next = Accepting
                     then logAdmissionReopened ''suspend phase''
                            (resolveSuspendOpenWaiters (st\<lparr>ga_suspendInvalidated := None\<rparr>))
                     else st)
           in (True, notifyGatewaySuspendAdmission st))"

definition or_transition ::
  "('s \<Rightarrow> bool \<times> 's) \<Rightarrow> ('s \<Rightarrow> bool \<times> 's) \<Rightarrow> 's \<Rightarrow> bool \<times> 's" where
  "or_transition f g st = (let (ok, st') = f st in if ok then (True, st') else g st')"

datatype suspend_op = Lease_Drain | Lease_Commit | Lease_Rollback | Lease_Release

fun suspend_lease :: "suspend_op \<Rightarrow> nat \<Rightarrow> GatewayWorkAdmissionState \<Rightarrow> bool \<times> GatewayWorkAdmissionState" where
  "suspend_lease Lease_Drain g = suspend_transition Preparing Draining g"
| "suspend_lease Lease_Commit g =
     or_transition (suspend_transition Preparing Prepared g) (suspend_transition Draining Prepared g)"
| "suspend_lease Lease_Rollback g = suspend_transition Preparing Accepting g"
| "suspend_lease Lease_Release g =
     or_transition (suspend_transition Draining Accepting g) (suspend_transition Prepared Accepting g)"

declare suspend_lease.simps [simp del]

section \<open>Lifecycle reset\<close>

definition retire_root :: "GatewayRootWorkAdmission \<Rightarrow> GatewayRootWorkAdmission" where
  "retire_root r = r\<lparr>gr_references := 0, gr_retiredByReset := True, gr_released := True\<rparr>"

definition resetGatewayWorkAdmission :: "GatewayWorkAdmissionState \<Rightarrow> GatewayWorkAdmissionState" where
  "resetGatewayWorkAdmission st =
     (let st = abort_controller (ga_controller st) (GatewayDrainingError ''gateway runtime reset'') st;
          st = foldl (\<lambda>s root. set_root root retire_root s) st (ga_activeRootWork st);
          st = st\<lparr>ga_activeRootWork := [], ga_restartDraining := False,
                  ga_controller := ga_controller st + 1, ga_restartSignalPending := False,
                  ga_restartSignalGeneration := ga_restartSignalGeneration st + 1\<rparr>;
          st = (if ga_suspendPhase st \<noteq> Accepting then invalidateSuspendAdmission st
                else st\<lparr>ga_suspendGeneration := ga_suspendGeneration st + 1, ga_suspendInvalidated := None\<rparr>)
      in resolveSuspendOpenWaiters st)"

end
