(* ===== verification/Gateway_Admission_Laws.thy ===== *)
theory Gateway_Admission_Laws
  imports Gateway_Admission
begin

text \<open>
  Runs of the admission state: the events its callers can cause, each guarded by the existence of
  the objects it names, and the invariants every event keeps. References are counted by the
  handles not yet released; calls that wait are blocked by a fence that is still up; each call
  waits, is resumed or is settled, exactly once.
\<close>

section \<open>Events\<close>

datatype admission_event =
    Subscribe nat
  | Unsubscribe nat
  | Mark_Restart_Draining
  | Signal_Begin
  | Signal_Rollback nat
  | Fence_Rollback
  | Try_Root "nat option" string
  | Try_Startup
  | Try_Prepared_Restart
  | Try_Independent string
  | Start_Call waiting_call
  | Resume_Call
  | Readmission "nat option"
  | Continuation "nat option" string
  | New_Scope bool "nat option"
  | Scope_Release nat
  | Scope_Run nat
  | Release_Handle nat
  | Suspend_Begin suspend_callback
  | Suspend_Lease suspend_op nat
  | Reset_Admission

fun apply_event :: "admission_event \<Rightarrow> GatewayWorkAdmissionState \<Rightarrow> GatewayWorkAdmissionState" where
  "apply_event (Subscribe l) st = onGatewaySuspendAdmissionChange l st"
| "apply_event (Unsubscribe l) st = unsubscribe_listener l st"
| "apply_event Mark_Restart_Draining st = markGatewayRestartDraining st"
| "apply_event Signal_Begin st = snd (beginGatewayRestartSignalAdmission st)"
| "apply_event (Signal_Rollback g) st = snd (restart_signal_rollback g st)"
| "apply_event Fence_Rollback st = snd (rollbackGatewayRestartSignalFence st)"
| "apply_event (Try_Root current origin) st = snd (tryBeginGatewayRootWorkAdmission current origin st)"
| "apply_event Try_Startup st = snd (tryBeginGatewayRestartStartupRootWorkAdmission st)"
| "apply_event Try_Prepared_Restart st = snd (tryBeginGatewayPreparedRestartRootWorkAdmission st)"
| "apply_event (Try_Independent origin) st = snd (tryBeginGatewayIndependentRootWorkAdmission origin st)"
| "apply_event (Start_Call w) st = start_call w st"
| "apply_event Resume_Call st = resume_call st"
| "apply_event (Readmission current) st =
     (case runWithGatewayRootWorkReadmission current st of None \<Rightarrow> st | Some w \<Rightarrow> start_call w st)"
| "apply_event (Continuation current origin) st =
     snd (runWithGatewayIndependentRootWorkContinuation current origin st)"
| "apply_event (New_Scope retain current) st =
     snd (createGatewayRootWorkAdmissionContinuationScope retain current st)"
| "apply_event (Scope_Release c) st = scope_release c st"
| "apply_event (Scope_Run c) st = snd (scope_run c st)"
| "apply_event (Release_Handle h) st = release_handle h st"
| "apply_event (Suspend_Begin cb) st = snd (tryBeginGatewaySuspendAdmission cb st)"
| "apply_event (Suspend_Lease oper g) st = snd (suspend_lease oper g st)"
| "apply_event Reset_Admission st = resetGatewayWorkAdmission st"

definition context_ok :: "nat option \<Rightarrow> GatewayWorkAdmissionState \<Rightarrow> bool" where
  "context_ok current st \<longleftrightarrow> (case current of None \<Rightarrow> True | Some root \<Rightarrow> root < length (ga_roots st))"

fun event_ok :: "admission_event \<Rightarrow> GatewayWorkAdmissionState \<Rightarrow> bool" where
  "event_ok (Try_Root current origin) st = context_ok current st"
| "event_ok (Start_Call (Root_When_Open current origin)) st = context_ok current st"
| "event_ok (Readmission current) st = context_ok current st"
| "event_ok (Continuation current origin) st = context_ok current st"
| "event_ok (New_Scope retain current) st = context_ok current st"
| "event_ok (Scope_Release c) st = (c < length (ga_scopes st))"
| "event_ok (Scope_Run c) st = (c < length (ga_scopes st))"
| "event_ok (Release_Handle h) st = (h < length (ga_handles st))"
| "event_ok _ st = True"

definition admission_step :: "admission_event \<Rightarrow> GatewayWorkAdmissionState \<Rightarrow> GatewayWorkAdmissionState" where
  "admission_step e st = (if event_ok e st then apply_event e st else st)"

definition admission_run :: "admission_event list \<Rightarrow> GatewayWorkAdmissionState \<Rightarrow> GatewayWorkAdmissionState" where
  "admission_run es st = foldl (\<lambda>s e. admission_step e s) st es"

lemma admission_run_Nil [simp]: "admission_run [] st = st"
  by (simp add: admission_run_def)

lemma admission_run_Cons [simp]: "admission_run (e # es) st = admission_run es (admission_step e st)"
  by (simp add: admission_run_def)

lemma admission_run_append: "admission_run (es @ fs) st = admission_run fs (admission_run es st)"
  by (simp add: admission_run_def)

text \<open>What every guarded event keeps, every run keeps.\<close>

lemma admission_run_invariant:
  assumes step: "\<And>e s. P s \<Longrightarrow> event_ok e s \<Longrightarrow> P (apply_event e s)" and "P st"
  shows "P (admission_run es st)"
  using \<open>P st\<close> by (induction es arbitrary: st) (simp_all add: admission_step_def step)

section \<open>Unfolding\<close>

lemma notify_eq: "notifyGatewaySuspendAdmission st =
    st\<lparr>ga_effects := ga_effects st @ map (\<lambda>l. Notify l (ga_suspendPhase st)) (ga_listeners st)\<rparr>"
proof -
  have "foldl (\<lambda>s l. emit (Notify l p) s) s ls = s\<lparr>ga_effects := ga_effects s @ map (\<lambda>l. Notify l p) ls\<rparr>"
    for p s ls
    by (induction ls arbitrary: s) (simp_all add: emit_def)
  then show ?thesis by (simp add: notifyGatewaySuspendAdmission_def)
qed

lemma retire_eq:
  "foldl (\<lambda>s root. set_root root retire_root s) st rs =
     st\<lparr>ga_roots := foldl (\<lambda>xs r. xs[r := retire_root (xs ! r)]) (ga_roots st) rs\<rparr>"
  by (induction rs arbitrary: st) (simp_all add: set_root_def)

lemma retire_length [simp]:
  "length (foldl (\<lambda>xs r. xs[r := retire_root (xs ! r)]) xs rs) = length xs"
  by (induction rs arbitrary: xs) simp_all

lemma retire_nth:
  "distinct rs \<Longrightarrow> i < length xs \<Longrightarrow>
    foldl (\<lambda>xs r. xs[r := retire_root (xs ! r)]) xs rs ! i = (if i \<in> set rs then retire_root (xs ! i) else xs ! i)"
proof (induction rs arbitrary: xs)
  case (Cons a rs)
  then show ?case by (cases "a = i") auto
qed simp

lemma retire_root_simps [simp]:
  "gr_released (retire_root r)" "gr_retiredByReset (retire_root r)" "gr_references (retire_root r) = 0"
  by (simp_all add: retire_root_def)

lemmas fence_unfold =
  emit_def logAdmissionClosed_def logAdmissionReopened_def abort_controller_def
  resolveSuspendOpenWaiters_def notify_eq invoke_callback_def invalidateSuspendAdmission_def
  clearRestartSignalFence_def markGatewayRestartDraining_def beginGatewayRestartSignalAdmission_def
  restart_signal_rollback_def rollbackGatewayRestartSignalFence_def
  onGatewaySuspendAdmissionChange_def unsubscribe_listener_def
  tryBeginGatewaySuspendAdmission_def suspend_transition_def or_transition_def

lemmas root_unfold =
  createGatewayRootWorkRelease_def createGatewayRootWorkAdmission_def create_lease_def set_root_def
  tryBeginGatewayRootWorkAdmission_def tryBeginGatewayRestartStartupRootWorkAdmission_def
  tryBeginGatewayPreparedRestartRootWorkAdmission_def tryBeginGatewayIndependentRootWorkAdmission_def

lemmas call_unfold =
  settle_call_def await_open_def settle_or_wait_def waitForGatewayRestartFenceSettlement_def
  beginGatewayRootWorkAdmissionWhenOpen_def runWithGatewayIndependentRootWorkAdmission_def

text \<open>A failed transition changes nothing, so each lease operation is one transition or none.\<close>

fun lease_from :: "suspend_op \<Rightarrow> suspend_phase set" where
  "lease_from Lease_Drain = {Preparing}"
| "lease_from Lease_Commit = {Preparing, Draining}"
| "lease_from Lease_Rollback = {Preparing}"
| "lease_from Lease_Release = {Draining, Prepared}"

fun lease_to :: "suspend_op \<Rightarrow> suspend_phase" where
  "lease_to Lease_Drain = Draining"
| "lease_to Lease_Commit = Prepared"
| "lease_to Lease_Rollback = Accepting"
| "lease_to Lease_Release = Accepting"

lemma suspend_lease_eq:
  "suspend_lease oper g st =
     (if ga_suspendGeneration st = g \<and> ga_suspendPhase st \<in> lease_from oper
      then suspend_transition (ga_suspendPhase st) (lease_to oper) g st else (False, st))"
  by (cases oper) (auto simp: suspend_lease.simps or_transition_def suspend_transition_def Let_def)

section \<open>References are counted by open handles\<close>

definition open_handles :: "GatewayWorkAdmissionState \<Rightarrow> nat \<Rightarrow> nat" where
  "open_handles st r = length (filter (\<lambda>h. rh_root h = r \<and> \<not> rh_leaseReleased h) (ga_handles st))"

definition scope_ok :: "GatewayWorkAdmissionState \<Rightarrow> ContinuationScope \<Rightarrow> bool" where
  "scope_ok st c \<longleftrightarrow> cs_root c < length (ga_roots st) \<and>
     (\<forall>h. cs_releaseAdmission c = Some h \<longrightarrow> h < length (ga_handles st))"

definition root_ok :: "GatewayWorkAdmissionState \<Rightarrow> nat \<Rightarrow> bool" where
  "root_ok st r \<longleftrightarrow> (let root = ga_roots st ! r in
     (gr_retiredByReset root \<longrightarrow> gr_released root) \<and>
     (if gr_released root then gr_references root = 0
      else gr_references root = int (open_handles st r) \<and> 0 < gr_references root))"

definition roots_ok :: "GatewayWorkAdmissionState \<Rightarrow> bool" where
  "roots_ok st \<longleftrightarrow>
     distinct (ga_activeRootWork st) \<and>
     (\<forall>r. r \<in> set (ga_activeRootWork st) \<longleftrightarrow> r < length (ga_roots st) \<and> \<not> gr_released (ga_roots st ! r)) \<and>
     (\<forall>r < length (ga_roots st). root_ok st r) \<and>
     (\<forall>h \<in> set (ga_handles st). rh_root h < length (ga_roots st)) \<and>
     (\<forall>c \<in> set (ga_scopes st). scope_ok st c)"

definition same_roots :: "GatewayWorkAdmissionState \<Rightarrow> GatewayWorkAdmissionState \<Rightarrow> bool" where
  "same_roots st st' \<longleftrightarrow> ga_roots st' = ga_roots st \<and> ga_activeRootWork st' = ga_activeRootWork st \<and>
     ga_handles st' = ga_handles st \<and> ga_scopes st' = ga_scopes st"

lemma roots_ok_cong: "same_roots st st' \<Longrightarrow> roots_ok st' = roots_ok st"
  by (simp add: same_roots_def roots_ok_def root_ok_def scope_ok_def open_handles_def)

lemma roots_ok_frame [simp]:
  "roots_ok (st\<lparr>ga_nextCall := n\<rparr>) = roots_ok st" "roots_ok (st\<lparr>ga_resumed := ws\<rparr>) = roots_ok st"
  by (rule roots_ok_cong, simp add: same_roots_def)+

lemma root_ok_scopes [simp]:
  "open_handles (st\<lparr>ga_scopes := cs\<rparr>) r = open_handles st r" "root_ok (st\<lparr>ga_scopes := cs\<rparr>) r = root_ok st r"
  by (simp_all add: root_ok_def open_handles_def)

lemma open_handles_new:
  "open_handles (st\<lparr>ga_handles := ga_handles st @ [\<lparr>rh_root = q, rh_leaseReleased = False\<rparr>]\<rparr>) r =
     open_handles st r + (if r = q then 1 else 0)"
  by (simp add: open_handles_def)

lemma roots_ok_create:
  assumes "roots_ok st"
  shows "roots_ok (snd (create_lease origin st))"
proof -
  let ?n = "length (ga_roots st)"
  have "filter (\<lambda>h. rh_root h = ?n \<and> \<not> rh_leaseReleased h) (ga_handles st) = []"
    using assms by (auto simp: roots_ok_def filter_empty_conv)
  with assms show ?thesis
    by (auto simp: roots_ok_def root_unfold root_ok_def scope_ok_def open_handles_def nth_append Let_def
        less_Suc_eq split: if_splits)
qed

text \<open>One more reference and its handle, as the scopes take them.\<close>

definition add_reference :: "nat \<Rightarrow> GatewayWorkAdmissionState \<Rightarrow> nat \<times> GatewayWorkAdmissionState" where
  "add_reference root st =
     createGatewayRootWorkRelease root (set_root root (\<lambda>r. r\<lparr>gr_references := gr_references r + 1\<rparr>) st)"

lemma roots_ok_add_reference:
  assumes "roots_ok st" "root < length (ga_roots st)" "\<not> gr_released (ga_roots st ! root)"
  shows "roots_ok (snd (add_reference root st))"
  using assms
  by (auto simp: roots_ok_def add_reference_def root_unfold root_ok_def scope_ok_def open_handles_def
      nth_list_update Let_def)

lemma length_filter_update:
  assumes "i < length xs" "P (xs ! i)" "\<not> P y"
  shows "length (filter P (xs[i := y])) = length (filter P xs) - 1"
    and "0 < length (filter P xs)"
proof -
  have "xs = take i xs @ xs ! i # drop (Suc i) xs"
    using assms(1) by (rule id_take_nth_drop)
  then have "filter P xs = filter P (take i xs) @ xs ! i # filter P (drop (Suc i) xs)"
    using assms(2) by (metis filter.simps(2) filter_append)
  moreover have "filter P (xs[i := y]) = filter P (take i xs) @ filter P (drop (Suc i) xs)"
    using assms(1,3) by (simp add: upd_conv_take_nth_drop)
  ultimately show "length (filter P (xs[i := y])) = length (filter P xs) - 1" "0 < length (filter P xs)"
    by simp_all
qed

lemma open_handles_release:
  assumes "h < length (ga_handles st)" "\<not> rh_leaseReleased (ga_handles st ! h)"
  shows "open_handles (st\<lparr>ga_handles := (ga_handles st)[h := (ga_handles st ! h)\<lparr>rh_leaseReleased := True\<rparr>]\<rparr>) r =
     (if r = rh_root (ga_handles st ! h) then open_handles st r - 1 else open_handles st r)"
proof (cases "r = rh_root (ga_handles st ! h)")
  case True
  with assms show ?thesis
    by (simp add: open_handles_def length_filter_update(1))
next
  case False
  let ?P = "\<lambda>k. rh_root k = r \<and> \<not> rh_leaseReleased k"
  have "filter ?P ((ga_handles st)[h := (ga_handles st ! h)\<lparr>rh_leaseReleased := True\<rparr>]) = filter ?P (ga_handles st)"
    using False assms(1) by (subst (3) id_take_nth_drop [OF assms(1)]) (simp add: upd_conv_take_nth_drop)
  with False show ?thesis by (simp add: open_handles_def)
qed

lemma roots_ok_release:
  assumes ok: "roots_ok st" and h: "h < length (ga_handles st)"
  shows "roots_ok (release_handle h st)"
proof (cases "rh_leaseReleased (ga_handles st ! h) \<or> gr_released (ga_roots st ! rh_root (ga_handles st ! h))")
  case True
  then show ?thesis using ok by (auto simp: release_handle_def Let_def)
next
  case False
  let ?hd = "ga_handles st ! h" and ?root = "rh_root (ga_handles st ! h)"
  let ?hs = "(ga_handles st)[h := ?hd\<lparr>rh_leaseReleased := True\<rparr>]"
  let ?n = "gr_references (ga_roots st ! ?root) - 1"
  let ?r1 = "(ga_roots st ! ?root)\<lparr>gr_references := ?n\<rparr>"
  from ok h have root: "?root < length (ga_roots st)"
    by (auto simp: roots_ok_def)
  have held: "0 < open_handles st ?root"
    using False h length_filter_update(2) [of h "ga_handles st" "\<lambda>k. rh_root k = ?root \<and> \<not> rh_leaseReleased k"
        "?hd\<lparr>rh_leaseReleased := True\<rparr>"]
    by (simp add: open_handles_def)
  have count: "length (filter (\<lambda>k. rh_root k = r \<and> \<not> rh_leaseReleased k) ?hs) =
      (if r = ?root then open_handles st r - 1 else open_handles st r)" for r
    using open_handles_release [OF h, of r] False by (simp add: open_handles_def)
  have roots: "\<forall>k \<in> set ?hs. rh_root k < length (ga_roots st)"
    using ok root by (auto simp: roots_ok_def dest!: subsetD [OF set_update_subset_insert])
  have refs: "gr_references (ga_roots st ! ?root) = int (open_handles st ?root)"
    using ok root False by (auto simp: roots_ok_def root_ok_def Let_def)
  show ?thesis
  proof (cases "0 < ?n")
    case True
    with False have eq: "release_handle h st = st\<lparr>ga_handles := ?hs, ga_roots := (ga_roots st)[?root := ?r1]\<rparr>"
      by (simp add: release_handle_def set_root_def Let_def)
    show ?thesis
      unfolding eq using ok root roots refs held False True
      by (auto simp: roots_ok_def root_ok_def scope_ok_def count nth_list_update Let_def
          open_handles_def [of "_\<lparr>ga_handles := _, ga_roots := _\<rparr>"])
  next
    case none: False
    with False root have eq: "release_handle h st = st\<lparr>ga_handles := ?hs,
        ga_roots := (ga_roots st)[?root := ?r1\<lparr>gr_released := True\<rparr>],
        ga_activeRootWork := filter (\<lambda>r. r \<noteq> ?root) (ga_activeRootWork st)\<rparr>"
      by (simp add: release_handle_def set_root_def Let_def)
    show ?thesis
      unfolding eq using ok root roots refs held False none
      by (auto simp: roots_ok_def root_ok_def scope_ok_def count nth_list_update Let_def
          open_handles_def [of "_\<lparr>ga_handles := _, ga_roots := _, ga_activeRootWork := _\<rparr>"])
  qed
qed

lemma roots_ok_retire:
  assumes "roots_ok st" "\<forall>r \<in> set rs. r < length (ga_roots st)" "distinct rs" "set rs = set (ga_activeRootWork st)"
  shows "roots_ok (st\<lparr>ga_roots := foldl (\<lambda>xs r. xs[r := retire_root (xs ! r)]) (ga_roots st) rs, ga_activeRootWork := []\<rparr>)"
  using assms by (auto simp: roots_ok_def root_ok_def scope_ok_def open_handles_def retire_nth Let_def)

lemma same_roots_refl [simp]: "same_roots st st"
  by (simp add: same_roots_def)

lemma same_roots_fence [simp]:
  "same_roots st (markGatewayRestartDraining st)"
  "same_roots st (snd (beginGatewayRestartSignalAdmission st))"
  "same_roots st (snd (restart_signal_rollback g st))"
  "same_roots st (snd (rollbackGatewayRestartSignalFence st))"
  "same_roots st (onGatewaySuspendAdmissionChange l st)"
  "same_roots st (unsubscribe_listener l st)"
  "same_roots st (snd (tryBeginGatewaySuspendAdmission cb st))"
  "same_roots st (snd (suspend_transition p q g st))"
  "same_roots st (invalidateSuspendAdmission st)"
  "same_roots st (resolveSuspendOpenWaiters st)"
  by (auto simp: same_roots_def fence_unfold Let_def split: option.split)

lemma same_roots_trans: "same_roots a b \<Longrightarrow> same_roots b c \<Longrightarrow> same_roots a c"
  by (simp add: same_roots_def)

lemma same_roots_lease [simp]: "same_roots st (snd (suspend_lease oper g st))"
  by (simp add: suspend_lease_eq)

lemma roots_ok_reset:
  assumes "roots_ok st"
  shows "roots_ok (resetGatewayWorkAdmission st)"
proof -
  let ?s = "abort_controller (ga_controller st) (GatewayDrainingError ''gateway runtime reset'') st"
  let ?r = "?s\<lparr>ga_roots := foldl (\<lambda>xs r. xs[r := retire_root (xs ! r)]) (ga_roots ?s) (ga_activeRootWork ?s),
    ga_activeRootWork := []\<rparr>"
  have "same_roots st ?s" by (simp add: same_roots_def abort_controller_def)
  with assms have "roots_ok ?s" by (simp add: roots_ok_cong)
  then have "roots_ok ?r" by (intro roots_ok_retire) (auto simp: roots_ok_def)
  moreover have "same_roots ?r (resetGatewayWorkAdmission st)"
    by (auto simp: same_roots_def resetGatewayWorkAdmission_def retire_eq fence_unfold Let_def split: option.split)
  ultimately show ?thesis by (simp add: roots_ok_cong)
qed

lemma roots_ok_try:
  assumes "roots_ok st"
  shows "roots_ok (snd (tryBeginGatewayRootWorkAdmission current origin st))"
    "roots_ok (snd (tryBeginGatewayRestartStartupRootWorkAdmission st))"
    "roots_ok (snd (tryBeginGatewayPreparedRestartRootWorkAdmission st))"
    "roots_ok (snd (tryBeginGatewayIndependentRootWorkAdmission origin st))"
  using assms roots_ok_create [OF assms]
  by (simp_all add: tryBeginGatewayRootWorkAdmission_def tryBeginGatewayRestartStartupRootWorkAdmission_def
      tryBeginGatewayPreparedRestartRootWorkAdmission_def tryBeginGatewayIndependentRootWorkAdmission_def)

lemma same_roots_settle:
  "same_roots (snd attempt) (settle_or_wait call w attempt)"
  "same_roots st (settle_call call res st)" "same_roots st (await_open call w st)"
  by (simp_all add: same_roots_def settle_or_wait_def settle_call_def await_open_def split: option.split)

lemma roots_ok_iterate:
  assumes "roots_ok st"
  shows "roots_ok (iterate_call call w st)"
proof (cases w)
  case Fence_Settlement
  with assms show ?thesis
    by (simp add: waitForGatewayRestartFenceSettlement_def roots_ok_cong [OF same_roots_settle(2)]
        roots_ok_cong [OF same_roots_settle(3)])
next
  case (Root_When_Open current origin)
  with assms roots_ok_try(1) [OF assms] show ?thesis
    by (simp add: beginGatewayRootWorkAdmissionWhenOpen_def roots_ok_cong [OF same_roots_settle(1)]
        roots_ok_cong [OF same_roots_settle(2)])
next
  case (Independent_Root origin)
  with assms roots_ok_try(4) [OF assms] show ?thesis
    by (simp add: runWithGatewayIndependentRootWorkAdmission_def roots_ok_cong [OF same_roots_settle(1)]
        roots_ok_cong [OF same_roots_settle(2)])
qed

lemma roots_ok_start: "roots_ok st \<Longrightarrow> roots_ok (start_call w st)"
  by (simp add: start_call_def roots_ok_iterate)

lemma roots_ok_resume: "roots_ok st \<Longrightarrow> roots_ok (resume_call st)"
  by (auto simp: resume_call_def intro!: roots_ok_iterate split: list.split)

lemma roots_ok_new_scope:
  assumes "roots_ok st"
  shows "roots_ok (snd (createGatewayRootWorkAdmissionContinuationScope retain current st))"
proof (cases "\<exists>root. current = Some root \<and> \<not> gr_released (ga_roots st ! root) \<and> root \<in> set (ga_activeRootWork st)")
  case True
  then obtain root where root: "current = Some root" "\<not> gr_released (ga_roots st ! root)"
    "root \<in> set (ga_activeRootWork st)" by blast
  with assms have len: "root < length (ga_roots st)" by (auto simp: roots_ok_def)
  let ?s = "snd (add_reference root st)"
  have ok: "roots_ok ?s" by (rule roots_ok_add_reference [OF assms len root(2)])
  have "roots_ok (s\<lparr>ga_scopes := ga_scopes s @ [\<lparr>cs_root = root, cs_released = False, cs_releaseAdmission = h\<rparr>]\<rparr>)"
    if "roots_ok s" "root < length (ga_roots s)" "\<forall>i. h = Some i \<longrightarrow> i < length (ga_handles s)" for s h
    using that by (auto simp: roots_ok_def scope_ok_def)
  from this [OF ok, of "Some (length (ga_handles st))"] this [OF assms len, of None] root len show ?thesis
    by (cases retain)
       (simp_all add: createGatewayRootWorkAdmissionContinuationScope_def add_reference_def root_unfold Let_def)
next
  case False
  with assms show ?thesis
    by (auto simp: createGatewayRootWorkAdmissionContinuationScope_def split: option.split)
qed

lemma roots_ok_scope_run:
  assumes "roots_ok st"
  shows "roots_ok (snd (scope_run c st))"
  using assms roots_ok_add_reference [OF assms, of "cs_root (ga_scopes st ! c)"]
  by (auto simp: scope_run_def add_reference_def roots_ok_def [of st] Let_def split: prod.split)

lemma roots_ok_scope_release:
  assumes ok: "roots_ok st" and c: "c < length (ga_scopes st)"
  shows "roots_ok (scope_release c st)"
proof -
  let ?s = "st\<lparr>ga_scopes := (ga_scopes st)[c := (ga_scopes st ! c)\<lparr>cs_released := True\<rparr>]\<rparr>"
  have scope: "scope_ok st (ga_scopes st ! c)"
    using assms by (simp add: roots_ok_def)
  have "roots_ok ?s"
    using ok scope c
    by (auto simp: roots_ok_def scope_ok_def dest!: subsetD [OF set_update_subset_insert])
  with ok scope show ?thesis
    by (auto simp: scope_release_def scope_ok_def Let_def intro!: roots_ok_release split: option.split)
qed

theorem roots_ok_event:
  assumes "roots_ok st" "event_ok e st"
  shows "roots_ok (apply_event e st)"
proof (cases e)
  case (Continuation current origin)
  with assms show ?thesis
    by (auto simp: runWithGatewayIndependentRootWorkContinuation_def roots_ok_create roots_ok_start)
qed (use assms in \<open>auto simp: roots_ok_cong [OF same_roots_fence(1)] roots_ok_cong [OF same_roots_fence(2)]
    roots_ok_cong [OF same_roots_fence(3)] roots_ok_cong [OF same_roots_fence(4)]
    roots_ok_cong [OF same_roots_fence(5)] roots_ok_cong [OF same_roots_fence(6)]
    roots_ok_cong [OF same_roots_fence(7)] roots_ok_cong [OF same_roots_lease]
    roots_ok_try roots_ok_start roots_ok_resume roots_ok_new_scope roots_ok_scope_release
    roots_ok_scope_run roots_ok_release roots_ok_reset split: option.split\<close>)

lemma roots_ok_initial [simp]: "roots_ok initial_admission"
  by (simp add: roots_ok_def initial_admission_def)

lemma roots_ok_run: "roots_ok st \<Longrightarrow> roots_ok (admission_run es st)"
  by (rule admission_run_invariant [of roots_ok]) (rule roots_ok_event)

end
