(* ===== verification/Gateway_Admission_Calls.thy ===== *)
theory Gateway_Admission_Calls
  imports Gateway_Admission_Laws
begin

text \<open>
  The fences and the calls that wait behind them: what the phases, the two fences and the drain
  signal agree on, that each call waits behind a fence that is really up, and that a lease of a
  past generation is inert.
\<close>

section \<open>Fences\<close>

definition same_fences :: "GatewayWorkAdmissionState \<Rightarrow> GatewayWorkAdmissionState \<Rightarrow> bool" where
  "same_fences st st' \<longleftrightarrow>
     ga_restartDraining st' = ga_restartDraining st \<and> ga_controller st' = ga_controller st \<and>
     ga_aborted st' = ga_aborted st \<and> ga_restartSignalPending st' = ga_restartSignalPending st \<and>
     ga_restartSignalGeneration st' = ga_restartSignalGeneration st \<and>
     ga_suspendPhase st' = ga_suspendPhase st \<and> ga_suspendGeneration st' = ga_suspendGeneration st \<and>
     ga_suspendInvalidated st' = ga_suspendInvalidated st"

definition same_calls :: "GatewayWorkAdmissionState \<Rightarrow> GatewayWorkAdmissionState \<Rightarrow> bool" where
  "same_calls st st' \<longleftrightarrow> ga_waiters st' = ga_waiters st \<and> ga_resumed st' = ga_resumed st \<and>
     ga_settled st' = ga_settled st \<and> ga_nextCall st' = ga_nextCall st"

text \<open>\<open>signal.aborted\<close> of a controller.\<close>

definition signal_aborted :: "GatewayWorkAdmissionState \<Rightarrow> nat \<Rightarrow> bool" where
  "signal_aborted st c \<longleftrightarrow> jm_get (ga_aborted st) c \<noteq> None"

definition fences_ok :: "GatewayWorkAdmissionState \<Rightarrow> bool" where
  "fences_ok st \<longleftrightarrow>
     (ga_restartDraining st \<longrightarrow> \<not> ga_restartSignalPending st \<and> ga_suspendPhase st = Accepting) \<and>
     (ga_suspendInvalidated st = None \<longleftrightarrow> ga_suspendPhase st = Accepting) \<and>
     (signal_aborted st (ga_controller st) \<longleftrightarrow> ga_restartDraining st) \<and>
     (\<forall>c. signal_aborted st c \<longrightarrow> c \<le> ga_controller st)"

lemma fences_ok_cong: "same_fences st st' \<Longrightarrow> fences_ok st' = fences_ok st"
  by (simp add: same_fences_def fences_ok_def signal_aborted_def)

lemma same_fences_refl [simp]: "same_fences st st" "same_calls st st"
  by (simp_all add: same_fences_def same_calls_def)

lemma same_fences_trans:
  "same_fences a b \<Longrightarrow> same_fences b c \<Longrightarrow> same_fences a c"
  "same_calls a b \<Longrightarrow> same_calls b c \<Longrightarrow> same_calls a c"
  by (simp_all add: same_fences_def same_calls_def)

lemma root_ops_frame [simp]:
  "same_fences st (snd (create_lease origin st))" "same_calls st (snd (create_lease origin st))"
  "same_fences st (snd (tryBeginGatewayRootWorkAdmission current origin st))"
  "same_calls st (snd (tryBeginGatewayRootWorkAdmission current origin st))"
  "same_fences st (snd (tryBeginGatewayRestartStartupRootWorkAdmission st))"
  "same_calls st (snd (tryBeginGatewayRestartStartupRootWorkAdmission st))"
  "same_fences st (snd (tryBeginGatewayPreparedRestartRootWorkAdmission st))"
  "same_calls st (snd (tryBeginGatewayPreparedRestartRootWorkAdmission st))"
  "same_fences st (snd (tryBeginGatewayIndependentRootWorkAdmission origin st))"
  "same_calls st (snd (tryBeginGatewayIndependentRootWorkAdmission origin st))"
  by (simp_all add: same_fences_def same_calls_def root_unfold Let_def)

lemma handle_ops_frame [simp]:
  "same_fences st (release_handle h st)" "same_calls st (release_handle h st)"
  "same_fences st (snd (scope_run c st))" "same_calls st (snd (scope_run c st))"
  "same_fences st (snd (createGatewayRootWorkAdmissionContinuationScope retain current st))"
  "same_calls st (snd (createGatewayRootWorkAdmissionContinuationScope retain current st))"
  by (simp_all add: same_fences_def same_calls_def release_handle_def scope_run_def root_unfold
      createGatewayRootWorkAdmissionContinuationScope_def Let_def split: option.split)

lemma scope_release_frame [simp]: "same_fences st (scope_release c st)" "same_calls st (scope_release c st)"
  by (auto simp: same_fences_def same_calls_def scope_release_def release_handle_def root_unfold Let_def
      split: option.split)

text \<open>A pass through the loop of a call leaves the fences alone.\<close>

lemma iterate_fences [simp]: "same_fences st (iterate_call call w st)"
proof -
  have "same_fences st (settle_or_wait call v attempt)" if "same_fences st (snd attempt)" for v attempt
    using that by (auto simp: settle_or_wait_def settle_call_def await_open_def same_fences_def split: option.split)
  moreover have "same_fences st (settle_call call res st)" "same_fences st (await_open call w st)" for res w
    by (simp_all add: settle_call_def await_open_def same_fences_def)
  ultimately show ?thesis
    by (cases w) (simp_all add: waitForGatewayRestartFenceSettlement_def
        beginGatewayRootWorkAdmissionWhenOpen_def runWithGatewayIndependentRootWorkAdmission_def)
qed

lemma start_resume_fences [simp]:
  "same_fences st (start_call w st)" "same_fences st (resume_call st)"
proof -
  have "same_fences st (st\<lparr>ga_nextCall := n\<rparr>)" "same_fences st (st\<lparr>ga_resumed := ws\<rparr>)" for n ws
    by (simp_all add: same_fences_def)
  from this [THEN same_fences_trans(1), OF iterate_fences]
  show "same_fences st (start_call w st)" "same_fences st (resume_call st)"
    by (auto simp: start_call_def resume_call_def split: list.split)
qed

lemma continuation_fences [simp]:
  "same_fences st (snd (runWithGatewayIndependentRootWorkContinuation current origin st))"
  by (simp add: runWithGatewayIndependentRootWorkContinuation_def)

definition fence_event :: "admission_event \<Rightarrow> bool" where
  "fence_event e \<longleftrightarrow> (case e of
     Mark_Restart_Draining \<Rightarrow> True | Signal_Begin \<Rightarrow> True | Signal_Rollback _ \<Rightarrow> True | Fence_Rollback \<Rightarrow> True
   | Suspend_Begin _ \<Rightarrow> True | Suspend_Lease _ _ \<Rightarrow> True | Reset_Admission \<Rightarrow> True | _ \<Rightarrow> False)"

lemma other_events_keep_fences: "\<not> fence_event e \<Longrightarrow> same_fences st (apply_event e st)"
proof (cases e)
  case (Subscribe l)
  then show ?thesis by (simp add: onGatewaySuspendAdmissionChange_def same_fences_def)
next
  case (Unsubscribe l)
  then show ?thesis by (simp add: unsubscribe_listener_def same_fences_def)
next
  case (Readmission current)
  then show ?thesis by (simp split: option.split)
next
  case (Continuation current origin)
  then show ?thesis by simp
qed (simp_all add: fence_event_def)

lemma invalidate_fields [simp]:
  "ga_restartDraining (invalidateSuspendAdmission st) = ga_restartDraining st"
  "ga_controller (invalidateSuspendAdmission st) = ga_controller st"
  "ga_aborted (invalidateSuspendAdmission st) = ga_aborted st"
  "ga_restartSignalPending (invalidateSuspendAdmission st) = ga_restartSignalPending st"
  "ga_restartSignalGeneration (invalidateSuspendAdmission st) = ga_restartSignalGeneration st"
  "ga_suspendPhase (invalidateSuspendAdmission st) = Accepting"
  "ga_suspendGeneration (invalidateSuspendAdmission st) = ga_suspendGeneration st + 1"
  "ga_suspendInvalidated (invalidateSuspendAdmission st) = None"
  "ga_waiters (invalidateSuspendAdmission st) = []"
  "ga_resumed (invalidateSuspendAdmission st) = ga_resumed st @ ga_waiters st"
  "ga_settled (invalidateSuspendAdmission st) = ga_settled st"
  "ga_nextCall (invalidateSuspendAdmission st) = ga_nextCall st"
  by (simp_all add: invalidateSuspendAdmission_def resolveSuspendOpenWaiters_def emit_def
      logAdmissionReopened_def invoke_callback_def notify_eq Let_def split: option.split)

lemma mark_fields [simp]:
  "ga_restartDraining (markGatewayRestartDraining st)"
  "ga_controller (markGatewayRestartDraining st) = ga_controller st"
  "ga_restartSignalPending (markGatewayRestartDraining st) = (ga_restartDraining st \<and> ga_restartSignalPending st)"
  "ga_restartSignalGeneration (markGatewayRestartDraining st) =
     ga_restartSignalGeneration st + (if ga_restartDraining st then 0 else 1)"
  "ga_suspendPhase (markGatewayRestartDraining st) =
     (if ga_restartDraining st then ga_suspendPhase st else Accepting)"
  "ga_suspendGeneration (markGatewayRestartDraining st) =
     ga_suspendGeneration st + (if ga_restartDraining st \<or> ga_suspendPhase st = Accepting then 0 else 1)"
  "ga_suspendInvalidated (markGatewayRestartDraining st) =
     (if ga_restartDraining st \<or> ga_suspendPhase st = Accepting then ga_suspendInvalidated st else None)"
  "ga_waiters (markGatewayRestartDraining st) = (if ga_restartDraining st then ga_waiters st else [])"
  "ga_resumed (markGatewayRestartDraining st) =
     ga_resumed st @ (if ga_restartDraining st then [] else ga_waiters st)"
  "ga_settled (markGatewayRestartDraining st) = ga_settled st"
  "ga_nextCall (markGatewayRestartDraining st) = ga_nextCall st"
  by (simp_all add: markGatewayRestartDraining_def abort_controller_def resolveSuspendOpenWaiters_def emit_def
      logAdmissionClosed_def Let_def)

lemma mark_aborted [simp]: "signal_aborted (markGatewayRestartDraining st) c \<longleftrightarrow>
    signal_aborted st c \<or> \<not> ga_restartDraining st \<and> c = ga_controller st"
  by (auto simp: signal_aborted_def markGatewayRestartDraining_def abort_controller_def
      resolveSuspendOpenWaiters_def emit_def logAdmissionClosed_def Let_def)

lemma fences_ok_mark: "fences_ok st \<Longrightarrow> fences_ok (markGatewayRestartDraining st)"
  by (auto simp: fences_ok_def)

lemma clear_fields [simp]:
  "ga_restartDraining (snd (clearRestartSignalFence st)) = ga_restartDraining st"
  "ga_controller (snd (clearRestartSignalFence st)) = ga_controller st"
  "ga_aborted (snd (clearRestartSignalFence st)) = ga_aborted st"
  "ga_restartSignalPending (snd (clearRestartSignalFence st)) =
     (ga_restartDraining st \<and> ga_restartSignalPending st)"
  "ga_restartSignalGeneration st \<le> ga_restartSignalGeneration (snd (clearRestartSignalFence st))"
  "ga_suspendPhase (snd (clearRestartSignalFence st)) = ga_suspendPhase st"
  "ga_suspendGeneration (snd (clearRestartSignalFence st)) = ga_suspendGeneration st"
  "ga_suspendInvalidated (snd (clearRestartSignalFence st)) = ga_suspendInvalidated st"
  "ga_waiters (snd (clearRestartSignalFence st)) =
     (if ga_restartDraining st \<or> \<not> ga_restartSignalPending st then ga_waiters st else [])"
  "ga_resumed (snd (clearRestartSignalFence st)) = ga_resumed st @
     (if ga_restartDraining st \<or> \<not> ga_restartSignalPending st then [] else ga_waiters st)"
  "ga_settled (snd (clearRestartSignalFence st)) = ga_settled st"
  "ga_nextCall (snd (clearRestartSignalFence st)) = ga_nextCall st"
  by (simp_all add: clearRestartSignalFence_def resolveSuspendOpenWaiters_def emit_def
      logAdmissionReopened_def Let_def)

lemma rollback_eq:
  "snd (restart_signal_rollback g st) =
     (if ga_restartSignalPending st \<and> ga_restartSignalGeneration st = g
      then snd (clearRestartSignalFence st) else st)"
  by (simp add: restart_signal_rollback_def)

lemma signal_fields [simp]:
  "ga_restartDraining (snd (beginGatewayRestartSignalAdmission st)) = ga_restartDraining st"
  "ga_controller (snd (beginGatewayRestartSignalAdmission st)) = ga_controller st"
  "ga_aborted (snd (beginGatewayRestartSignalAdmission st)) = ga_aborted st"
  "ga_restartSignalPending (snd (beginGatewayRestartSignalAdmission st)) =
     (\<not> ga_restartDraining st \<or> ga_restartSignalPending st)"
  "ga_restartSignalGeneration st \<le> ga_restartSignalGeneration (snd (beginGatewayRestartSignalAdmission st))"
  "ga_suspendPhase (snd (beginGatewayRestartSignalAdmission st)) = ga_suspendPhase st"
  "ga_suspendGeneration (snd (beginGatewayRestartSignalAdmission st)) = ga_suspendGeneration st"
  "ga_suspendInvalidated (snd (beginGatewayRestartSignalAdmission st)) = ga_suspendInvalidated st"
  "ga_waiters (snd (beginGatewayRestartSignalAdmission st)) = ga_waiters st"
  "ga_resumed (snd (beginGatewayRestartSignalAdmission st)) = ga_resumed st"
  "ga_settled (snd (beginGatewayRestartSignalAdmission st)) = ga_settled st"
  "ga_nextCall (snd (beginGatewayRestartSignalAdmission st)) = ga_nextCall st"
  by (simp_all add: beginGatewayRestartSignalAdmission_def emit_def logAdmissionClosed_def Let_def)

lemma suspend_fields [simp]:
  "ga_restartDraining (snd (tryBeginGatewaySuspendAdmission cb st)) = ga_restartDraining st"
  "ga_controller (snd (tryBeginGatewaySuspendAdmission cb st)) = ga_controller st"
  "ga_aborted (snd (tryBeginGatewaySuspendAdmission cb st)) = ga_aborted st"
  "ga_restartSignalPending (snd (tryBeginGatewaySuspendAdmission cb st)) = ga_restartSignalPending st"
  "ga_restartSignalGeneration (snd (tryBeginGatewaySuspendAdmission cb st)) = ga_restartSignalGeneration st"
  "ga_suspendPhase (snd (tryBeginGatewaySuspendAdmission cb st)) =
     (if isGatewayWorkAdmissionClosed st then ga_suspendPhase st else Preparing)"
  "ga_suspendGeneration (snd (tryBeginGatewaySuspendAdmission cb st)) =
     ga_suspendGeneration st + (if isGatewayWorkAdmissionClosed st then 0 else 1)"
  "ga_suspendInvalidated (snd (tryBeginGatewaySuspendAdmission cb st)) =
     (if isGatewayWorkAdmissionClosed st then ga_suspendInvalidated st else Some cb)"
  "ga_waiters (snd (tryBeginGatewaySuspendAdmission cb st)) = ga_waiters st"
  "ga_resumed (snd (tryBeginGatewaySuspendAdmission cb st)) = ga_resumed st"
  "ga_settled (snd (tryBeginGatewaySuspendAdmission cb st)) = ga_settled st"
  "ga_nextCall (snd (tryBeginGatewaySuspendAdmission cb st)) = ga_nextCall st"
  by (auto simp: tryBeginGatewaySuspendAdmission_def isGatewayWorkAdmissionClosed_def emit_def
      logAdmissionClosed_def notify_eq Let_def)

lemma lease_from_closed [simp]: "Accepting \<notin> lease_from oper"
  by (cases oper) simp_all

definition lease_applies :: "suspend_op \<Rightarrow> nat \<Rightarrow> GatewayWorkAdmissionState \<Rightarrow> bool" where
  "lease_applies oper g st \<longleftrightarrow> ga_suspendGeneration st = g \<and> ga_suspendPhase st \<in> lease_from oper"

lemma lease_result: "fst (suspend_lease oper g st) = lease_applies oper g st"
  by (simp add: suspend_lease_eq lease_applies_def suspend_transition_def Let_def)

lemma lease_fails: "\<not> lease_applies oper g st \<Longrightarrow> suspend_lease oper g st = (False, st)"
  by (auto simp: suspend_lease_eq lease_applies_def)

lemma lease_fields [simp]:
  "ga_restartDraining (snd (suspend_lease oper g st)) = ga_restartDraining st"
  "ga_controller (snd (suspend_lease oper g st)) = ga_controller st"
  "ga_aborted (snd (suspend_lease oper g st)) = ga_aborted st"
  "ga_restartSignalPending (snd (suspend_lease oper g st)) = ga_restartSignalPending st"
  "ga_restartSignalGeneration (snd (suspend_lease oper g st)) = ga_restartSignalGeneration st"
  "ga_suspendPhase (snd (suspend_lease oper g st)) =
     (if lease_applies oper g st then lease_to oper else ga_suspendPhase st)"
  "ga_suspendGeneration (snd (suspend_lease oper g st)) = ga_suspendGeneration st"
  "ga_suspendInvalidated (snd (suspend_lease oper g st)) =
     (if lease_applies oper g st \<and> lease_to oper = Accepting then None else ga_suspendInvalidated st)"
  "ga_waiters (snd (suspend_lease oper g st)) =
     (if lease_applies oper g st \<and> lease_to oper = Accepting then [] else ga_waiters st)"
  "ga_resumed (snd (suspend_lease oper g st)) = ga_resumed st @
     (if lease_applies oper g st \<and> lease_to oper = Accepting then ga_waiters st else [])"
  "ga_settled (snd (suspend_lease oper g st)) = ga_settled st"
  "ga_nextCall (snd (suspend_lease oper g st)) = ga_nextCall st"
  by (auto simp: suspend_lease_eq suspend_transition_def lease_applies_def emit_def notify_eq
      logAdmissionReopened_def resolveSuspendOpenWaiters_def Let_def)

lemma lease_applies_closed: "lease_applies oper g st \<Longrightarrow> ga_suspendPhase st \<noteq> Accepting"
  by (auto simp: lease_applies_def)

lemma reset_fields [simp]:
  "ga_restartDraining (resetGatewayWorkAdmission st) = False"
  "ga_controller (resetGatewayWorkAdmission st) = ga_controller st + 1"
  "ga_restartSignalPending (resetGatewayWorkAdmission st) = False"
  "ga_restartSignalGeneration (resetGatewayWorkAdmission st) = ga_restartSignalGeneration st + 1"
  "ga_suspendPhase (resetGatewayWorkAdmission st) = Accepting"
  "ga_suspendGeneration (resetGatewayWorkAdmission st) = ga_suspendGeneration st + 1"
  "ga_suspendInvalidated (resetGatewayWorkAdmission st) = None"
  "ga_waiters (resetGatewayWorkAdmission st) = []"
  "ga_resumed (resetGatewayWorkAdmission st) = ga_resumed st @ ga_waiters st"
  "ga_settled (resetGatewayWorkAdmission st) = ga_settled st"
  "ga_nextCall (resetGatewayWorkAdmission st) = ga_nextCall st"
  by (simp_all add: resetGatewayWorkAdmission_def retire_eq abort_controller_def
      resolveSuspendOpenWaiters_def Let_def)

lemma reset_aborted [simp]: "signal_aborted (resetGatewayWorkAdmission st) c \<longleftrightarrow>
    signal_aborted st c \<or> c = ga_controller st"
  by (auto simp: signal_aborted_def resetGatewayWorkAdmission_def retire_eq abort_controller_def
      resolveSuspendOpenWaiters_def Let_def)

text \<open>Only the fields above matter to \<open>signal_aborted\<close>.\<close>

lemma signal_aborted_frame [simp]:
  "signal_aborted (snd (clearRestartSignalFence st)) = signal_aborted st"
  "signal_aborted (snd (beginGatewayRestartSignalAdmission st)) = signal_aborted st"
  "signal_aborted (snd (tryBeginGatewaySuspendAdmission cb st)) = signal_aborted st"
  "signal_aborted (snd (suspend_lease oper g st)) = signal_aborted st"
  by (simp_all add: fun_eq_iff signal_aborted_def)

lemma fences_ok_fence_event:
  assumes "fences_ok st" "fence_event e"
  shows "fences_ok (apply_event e st)"
  using assms
  by (cases e) (auto simp: fence_event_def fences_ok_def rollback_eq rollbackGatewayRestartSignalFence_def
      isGatewayWorkAdmissionClosed_def lease_applies_def)

lemma fences_ok_event: "fences_ok st \<Longrightarrow> fences_ok (apply_event e st)"
  using fences_ok_fence_event fences_ok_cong [OF other_events_keep_fences] by blast

lemma fences_ok_initial [simp]: "fences_ok initial_admission"
  by (simp add: fences_ok_def initial_admission_def signal_aborted_def)

lemma fences_ok_run: "fences_ok st \<Longrightarrow> fences_ok (admission_run es st)"
  by (rule admission_run_invariant [of fences_ok]) (rule fences_ok_event)

section \<open>Calls that wait\<close>

definition blocked :: "GatewayWorkAdmissionState \<Rightarrow> waiting_call \<Rightarrow> bool" where
  "blocked st w \<longleftrightarrow> (case w of
     Fence_Settlement \<Rightarrow> ga_restartSignalPending st
   | _ \<Rightarrow> \<not> ga_restartDraining st \<and> (ga_restartSignalPending st \<or> ga_suspendPhase st \<noteq> Accepting))"

definition waiters_blocked :: "GatewayWorkAdmissionState \<Rightarrow> bool" where
  "waiters_blocked st \<longleftrightarrow> (\<forall>(call, w) \<in> set (ga_waiters st). blocked st w)"

definition call_ids :: "GatewayWorkAdmissionState \<Rightarrow> nat list" where
  "call_ids st = map fst (ga_waiters st) @ map fst (ga_resumed st) @ map fst (ga_settled st)"

definition calls_ok :: "GatewayWorkAdmissionState \<Rightarrow> bool" where
  "calls_ok st \<longleftrightarrow> mset (call_ids st) = mset [0..<ga_nextCall st] \<and> waiters_blocked st"

lemma calls_ok_cong: "same_fences st st' \<Longrightarrow> same_calls st st' \<Longrightarrow> calls_ok st' = calls_ok st"
  by (auto simp: same_fences_def same_calls_def calls_ok_def call_ids_def waiters_blocked_def blocked_def
      split: waiting_call.split)

lemma settle_or_wait_effect:
  assumes "same_calls st (snd attempt)"
  obtains "fst attempt = None" "same_calls (await_open call w st) (settle_or_wait call w attempt)"
  | lease where "same_calls (settle_call call (Admitted lease) st) (settle_or_wait call w attempt)"
  using assms by (cases "fst attempt")
    (auto simp: settle_or_wait_def settle_call_def await_open_def same_calls_def split: option.splits)

lemma iterate_effect:
  obtains "blocked st w" "same_calls (await_open call w st) (iterate_call call w st)"
  | res where "same_calls (settle_call call res st) (iterate_call call w st)"
proof (cases w)
  case Fence_Settlement
  then show ?thesis
    using that(1) that(2) [of Fence_Settled]
    by (cases "ga_restartSignalPending st")
       (simp_all add: waitForGatewayRestartFenceSettlement_def blocked_def)
next
  case (Root_When_Open current origin)
  show ?thesis
  proof (cases "ga_restartDraining st")
    case False
    let ?a = "tryBeginGatewayRootWorkAdmission current origin st"
    have none: "fst ?a = None \<Longrightarrow> ga_restartSignalPending st \<or> ga_suspendPhase st \<noteq> Accepting"
      using False by (auto simp: root_unfold Let_def split: if_splits)
    show ?thesis
      using that False none settle_or_wait_effect [of st ?a call w] Root_When_Open
      by (simp add: blocked_def beginGatewayRootWorkAdmissionWhenOpen_def) metis
  next
    case True
    then show ?thesis
      using that(2) Root_When_Open by (auto simp: beginGatewayRootWorkAdmissionWhenOpen_def intro: same_fences_refl(2))
  qed
next
  case (Independent_Root origin)
  show ?thesis
  proof (cases "ga_restartDraining st")
    case False
    let ?a = "tryBeginGatewayIndependentRootWorkAdmission origin st"
    have none: "fst ?a = None \<Longrightarrow> ga_restartSignalPending st \<or> ga_suspendPhase st \<noteq> Accepting"
      using False by (auto simp: root_unfold Let_def split: if_splits)
    show ?thesis
      using that False none settle_or_wait_effect [of st ?a call w] Independent_Root
      by (simp add: blocked_def runWithGatewayIndependentRootWorkAdmission_def) metis
  next
    case True
    then show ?thesis
      using that(2) Independent_Root by (auto simp: runWithGatewayIndependentRootWorkAdmission_def intro: same_fences_refl(2))
  qed
qed

lemma blocked_cong: "same_fences st st' \<Longrightarrow> blocked st' w = blocked st w"
  by (simp add: same_fences_def blocked_def split: waiting_call.split)

lemma calls_ok_iterate:
  assumes "mset (call # call_ids st) = mset [0..<ga_nextCall st]" "waiters_blocked st"
  shows "calls_ok (iterate_call call w st)"
proof (cases rule: iterate_effect [of st w call])
  case 1
  then show ?thesis
    using assms blocked_cong [OF iterate_fences]
    by (auto simp: calls_ok_def call_ids_def waiters_blocked_def same_calls_def await_open_def)
next
  case (2 res)
  then show ?thesis
    using assms blocked_cong [OF iterate_fences]
    by (auto simp: calls_ok_def call_ids_def waiters_blocked_def same_calls_def settle_call_def)
qed

lemma blocked_frame [simp]:
  "blocked (st\<lparr>ga_nextCall := n\<rparr>) = blocked st" "blocked (st\<lparr>ga_resumed := ws\<rparr>) = blocked st"
  by (simp_all add: fun_eq_iff blocked_def split: waiting_call.split)

lemma calls_ok_start: "calls_ok st \<Longrightarrow> calls_ok (start_call w st)"
  unfolding start_call_def
  by (rule calls_ok_iterate) (auto simp: calls_ok_def call_ids_def waiters_blocked_def)

lemma calls_ok_resume:
  assumes "calls_ok st"
  shows "calls_ok (resume_call st)"
proof (cases "ga_resumed st")
  case (Cons e rest)
  then show ?thesis
    using assms calls_ok_iterate [of "fst e" "st\<lparr>ga_resumed := rest\<rparr>" "snd e"]
    by (cases e) (simp add: resume_call_def calls_ok_def call_ids_def waiters_blocked_def)
qed (simp add: resume_call_def assms)

lemma calls_ok_wake:
  assumes "calls_ok st" "ga_waiters st' = []" "ga_resumed st' = ga_resumed st @ ga_waiters st"
    "ga_settled st' = ga_settled st" "ga_nextCall st' = ga_nextCall st"
  shows "calls_ok st'"
  using assms by (simp add: calls_ok_def call_ids_def waiters_blocked_def union_ac)

lemma calls_ok_keep:
  assumes "calls_ok st" "same_calls st st'" "\<forall>w. blocked st w \<longrightarrow> blocked st' w"
  shows "calls_ok st'"
  using assms by (auto simp: calls_ok_def call_ids_def waiters_blocked_def same_calls_def)

lemma idle_fence_ops:
  "ga_restartDraining st \<Longrightarrow> markGatewayRestartDraining st = st"
  "ga_restartDraining st \<or> \<not> ga_restartSignalPending st \<Longrightarrow> snd (clearRestartSignalFence st) = st"
  by (auto simp: markGatewayRestartDraining_def clearRestartSignalFence_def)

lemma calls_ok_fence_event:
  assumes ok: "calls_ok st" and e: "fence_event e"
  shows "calls_ok (apply_event e st)"
proof (cases e)
  case Mark_Restart_Draining
  then show ?thesis
    using ok by (cases "ga_restartDraining st")
      (auto simp: idle_fence_ops intro: calls_ok_wake)
next
  case Signal_Begin
  have "blocked st w \<longrightarrow> blocked (snd (beginGatewayRestartSignalAdmission st)) w" for w
    by (auto simp: blocked_def split: waiting_call.split)
  with Signal_Begin show ?thesis
    by (simp add: calls_ok_keep [OF ok] same_calls_def)
next
  case (Signal_Rollback g)
  then show ?thesis
    using ok by (cases "ga_restartDraining st \<or> \<not> ga_restartSignalPending st")
      (auto simp: rollback_eq idle_fence_ops intro: calls_ok_wake)
next
  case Fence_Rollback
  then show ?thesis
    using ok by (cases "ga_restartDraining st \<or> \<not> ga_restartSignalPending st")
      (auto simp: rollbackGatewayRestartSignalFence_def idle_fence_ops intro: calls_ok_wake)
next
  case (Suspend_Begin cb)
  have "blocked st w \<longrightarrow> blocked (snd (tryBeginGatewaySuspendAdmission cb st)) w" for w
    by (auto simp: blocked_def isGatewayWorkAdmissionClosed_def split: waiting_call.split)
  with Suspend_Begin show ?thesis
    by (simp add: calls_ok_keep [OF ok] same_calls_def)
next
  case (Suspend_Lease oper g)
  have "blocked st w \<longrightarrow> blocked (snd (suspend_lease oper g st)) w" if "lease_to oper \<noteq> Accepting" for w
    using that by (auto simp: blocked_def split: waiting_call.split)
  with Suspend_Lease ok show ?thesis
    by (cases "lease_applies oper g st"; cases "lease_to oper = Accepting")
       (auto simp: lease_fails same_calls_def intro: calls_ok_wake calls_ok_keep)
next
  case Reset_Admission
  then show ?thesis by (auto intro: calls_ok_wake [OF ok])
qed (use e in \<open>simp_all add: fence_event_def\<close>)

definition call_event :: "admission_event \<Rightarrow> bool" where
  "call_event e \<longleftrightarrow> (case e of Start_Call _ \<Rightarrow> True | Resume_Call \<Rightarrow> True | Readmission _ \<Rightarrow> True
     | Continuation _ _ \<Rightarrow> True | _ \<Rightarrow> False)"

lemma other_events_keep_calls:
  assumes "\<not> fence_event e" "\<not> call_event e"
  shows "same_calls st (apply_event e st)"
proof (cases e)
  case (Subscribe l)
  then show ?thesis by (simp add: onGatewaySuspendAdmissionChange_def same_calls_def)
next
  case (Unsubscribe l)
  then show ?thesis by (simp add: unsubscribe_listener_def same_calls_def)
qed (use assms in \<open>simp_all add: fence_event_def call_event_def\<close>)

lemma calls_ok_call_event:
  assumes "calls_ok st" "call_event e"
  shows "calls_ok (apply_event e st)"
proof (cases e)
  case (Continuation current origin)
  with assms show ?thesis
    by (auto simp: runWithGatewayIndependentRootWorkContinuation_def calls_ok_start
        calls_ok_cong [OF root_ops_frame(1,2)])
qed (use assms in \<open>auto simp: call_event_def calls_ok_start calls_ok_resume split: option.split\<close>)

lemma calls_ok_event: "calls_ok st \<Longrightarrow> calls_ok (apply_event e st)"
  using calls_ok_fence_event calls_ok_call_event
    calls_ok_cong [OF other_events_keep_fences other_events_keep_calls] by blast

lemma calls_ok_initial [simp]: "calls_ok initial_admission"
  by (simp add: calls_ok_def call_ids_def waiters_blocked_def initial_admission_def)

lemma calls_ok_run: "calls_ok st \<Longrightarrow> calls_ok (admission_run es st)"
  by (rule admission_run_invariant [of calls_ok]) (rule calls_ok_event)

section \<open>The contexts of calls that wait exist\<close>

definition waiting_context :: "waiting_call \<Rightarrow> nat option" where
  "waiting_context w = (case w of Root_When_Open current _ \<Rightarrow> current | _ \<Rightarrow> None)"

definition pending_calls :: "GatewayWorkAdmissionState \<Rightarrow> (nat \<times> waiting_call) set" where
  "pending_calls st = set (ga_waiters st) \<union> set (ga_resumed st)"

definition contexts_ok :: "GatewayWorkAdmissionState \<Rightarrow> bool" where
  "contexts_ok st \<longleftrightarrow> (\<forall>(call, w) \<in> pending_calls st. context_ok (waiting_context w) st)"

lemma context_ok_mono:
  "context_ok current st \<Longrightarrow> length (ga_roots st) \<le> length (ga_roots st') \<Longrightarrow> context_ok current st'"
  by (auto simp: context_ok_def split: option.splits)

lemma contexts_okI:
  assumes "contexts_ok st" "pending_calls st' \<subseteq> pending_calls st" "length (ga_roots st) \<le> length (ga_roots st')"
  shows "contexts_ok st'"
  using assms context_ok_mono [OF _ assms(3)] by (fastforce simp: contexts_ok_def)

lemma pending_fence_event:
  assumes "fence_event e"
  shows "pending_calls (apply_event e st) = pending_calls st"
  using assms by (cases e) (auto simp: fence_event_def pending_calls_def rollback_eq
      rollbackGatewayRestartSignalFence_def split: if_splits)

lemma same_roots_fence_event: "fence_event e \<Longrightarrow> e \<noteq> Reset_Admission \<Longrightarrow> same_roots st (apply_event e st)"
  by (cases e) (simp_all add: fence_event_def)

lemma create_roots_length [simp]:
  "length (ga_roots (snd (create_lease origin st))) = length (ga_roots st) + 1"
  by (simp add: root_unfold Let_def)

lemma set_root_length [simp]: "length (ga_roots (set_root r f st)) = length (ga_roots st)"
  by (simp add: set_root_def)

lemma release_roots_length [simp]: "length (ga_roots (release_handle h st)) = length (ga_roots st)"
  by (simp add: release_handle_def Let_def)

lemma try_roots_length [simp]:
  "length (ga_roots st) \<le> length (ga_roots (snd (tryBeginGatewayRootWorkAdmission current origin st)))"
  "length (ga_roots st) \<le> length (ga_roots (snd (tryBeginGatewayRestartStartupRootWorkAdmission st)))"
  "length (ga_roots st) \<le> length (ga_roots (snd (tryBeginGatewayPreparedRestartRootWorkAdmission st)))"
  "length (ga_roots st) \<le> length (ga_roots (snd (tryBeginGatewayIndependentRootWorkAdmission origin st)))"
  by (simp_all add: tryBeginGatewayRootWorkAdmission_def tryBeginGatewayRestartStartupRootWorkAdmission_def
      tryBeginGatewayPreparedRestartRootWorkAdmission_def tryBeginGatewayIndependentRootWorkAdmission_def)

lemma settle_or_wait_roots [simp]: "ga_roots (settle_or_wait call w attempt) = ga_roots (snd attempt)"
  by (simp add: settle_or_wait_def settle_call_def await_open_def split: option.split)

lemma iterate_roots_length [simp]: "length (ga_roots st) \<le> length (ga_roots (iterate_call call w st))"
  by (cases w) (simp_all add: call_unfold(1,2) waitForGatewayRestartFenceSettlement_def
      beginGatewayRootWorkAdmissionWhenOpen_def runWithGatewayIndependentRootWorkAdmission_def)

lemma call_roots_length [simp]:
  "length (ga_roots st) \<le> length (ga_roots (start_call w st))" "length (ga_roots st) \<le> length (ga_roots (resume_call st))"
proof -
  show "length (ga_roots st) \<le> length (ga_roots (start_call w st))"
    using iterate_roots_length [of "st\<lparr>ga_nextCall := ga_nextCall st + 1\<rparr>"] by (simp add: start_call_def)
  show "length (ga_roots st) \<le> length (ga_roots (resume_call st))"
    using iterate_roots_length [of "st\<lparr>ga_resumed := tl (ga_resumed st)\<rparr>"]
    by (auto simp: resume_call_def split: list.split)
qed

lemma scope_roots_length [simp]:
  "length (ga_roots (scope_release c st)) = length (ga_roots st)"
  "length (ga_roots (snd (scope_run c st))) = length (ga_roots st)"
  "length (ga_roots (snd (createGatewayRootWorkAdmissionContinuationScope retain current st))) = length (ga_roots st)"
  by (simp_all add: scope_release_def scope_run_def createGatewayRootWorkAdmissionContinuationScope_def
      createGatewayRootWorkRelease_def Let_def split: option.split)

lemma roots_length_event: "length (ga_roots st) \<le> length (ga_roots (apply_event e st))"
proof (cases "fence_event e")
  case True
  have "length (ga_roots (resetGatewayWorkAdmission st)) = length (ga_roots st)"
    by (simp add: resetGatewayWorkAdmission_def retire_eq abort_controller_def invalidateSuspendAdmission_def
        resolveSuspendOpenWaiters_def notify_eq emit_def logAdmissionReopened_def invoke_callback_def Let_def
        split: option.split)
  with same_roots_fence_event [OF True, of st] show ?thesis
    by (cases "e = Reset_Admission") (auto simp: same_roots_def)
next
  case False
  then show ?thesis
    by (cases e) (auto simp: fence_event_def onGatewaySuspendAdmissionChange_def unsubscribe_listener_def
        runWithGatewayIndependentRootWorkContinuation_def split: option.split)
qed

lemma pending_iterate: "pending_calls (iterate_call call w st) \<subseteq> insert (call, w) (pending_calls st)"
  by (rule iterate_effect [of st w call])
     (auto simp: pending_calls_def same_calls_def await_open_def settle_call_def)

lemma contexts_ok_iterate:
  assumes "contexts_ok st" "context_ok (waiting_context w) st"
  shows "contexts_ok (iterate_call call w st)"
  using assms pending_iterate [of call w st] context_ok_mono [OF _ iterate_roots_length [of st call w]]
  by (fastforce simp: contexts_ok_def)

lemma context_ok_frame [simp]:
  "context_ok c (st\<lparr>ga_nextCall := n\<rparr>) = context_ok c st" "context_ok c (st\<lparr>ga_resumed := ws\<rparr>) = context_ok c st"
  by (simp_all add: context_ok_def split: option.split)

lemma contexts_ok_start:
  "contexts_ok st \<Longrightarrow> context_ok (waiting_context w) st \<Longrightarrow> contexts_ok (start_call w st)"
  unfolding start_call_def by (rule contexts_ok_iterate) (auto simp: contexts_ok_def pending_calls_def)

lemma contexts_ok_resume:
  assumes "contexts_ok st"
  shows "contexts_ok (resume_call st)"
proof (cases "ga_resumed st")
  case (Cons e rest)
  then show ?thesis
    using assms contexts_ok_iterate [of "st\<lparr>ga_resumed := rest\<rparr>" "snd e" "fst e"]
    by (cases e) (auto simp: resume_call_def contexts_ok_def pending_calls_def)
qed (simp add: resume_call_def assms)

lemma contexts_ok_event:
  assumes "contexts_ok st" "event_ok e st"
  shows "contexts_ok (apply_event e st)"
proof -
  consider "fence_event e" | "call_event e" | "\<not> fence_event e" "\<not> call_event e" by blast
  then show ?thesis
  proof cases
    case 1
    then show ?thesis
      by (intro contexts_okI [OF assms(1)]) (simp_all add: pending_fence_event roots_length_event)
  next
    case 3
    from other_events_keep_calls [OF this, of st] show ?thesis
      by (intro contexts_okI [OF assms(1)]) (simp_all add: pending_calls_def same_calls_def roots_length_event)
  next
    case 2
    show ?thesis
    proof (cases e)
      case (Continuation current origin)
      have "contexts_ok (snd (create_lease origin st))"
        by (rule contexts_okI [OF assms(1)]) (use root_ops_frame(2) [of st origin] in \<open>simp_all add: pending_calls_def same_calls_def\<close>)
      with Continuation assms show ?thesis
        by (simp add: runWithGatewayIndependentRootWorkContinuation_def contexts_ok_start waiting_context_def context_ok_def)
    next
      case (Start_Call w)
      then show ?thesis
        using assms by (cases w) (simp_all add: contexts_ok_start waiting_context_def context_ok_def)
    next
      case (Readmission current)
      then show ?thesis
        using assms by (auto simp: runWithGatewayRootWorkReadmission_def contexts_ok_start waiting_context_def
            context_ok_def split: option.split)
    qed (use 2 assms in \<open>simp_all add: call_event_def contexts_ok_resume\<close>)
  qed
qed


end
