(* ===== verification/Gateway_Active_Work.thy ===== *)
theory Gateway_Active_Work
  imports Gateway_Admission Command_Queue Session_Text
begin

text \<open>
  The inventory of process activity that restart and suspension decide on
  (\<open>src/infra/gateway-active-work.ts\<close>, \<open>src/tasks/task-restart-blocker.ts\<close>).

  The thirteen counted sources are the fields of one record in the code; here they are a datatype,
  and a record of numbers is a function on it. The command queue and the root admission answer for
  theirs; the other subsystems' numbers are inputs.
\<close>

section \<open>Sources\<close>

datatype work_source =
    Src_queueSize | Src_pendingReplies | Src_embeddedRuns | Src_backgroundExecSessions | Src_cronRuns
  | Src_activeTasks | Src_rootRequests | Src_sessionAdmissions | Src_sessionMutations | Src_chatRuns
  | Src_queuedTurns | Src_terminalPersistence | Src_terminalSessions

definition work_sources :: "work_source list" where
  "work_sources = [Src_queueSize, Src_pendingReplies, Src_embeddedRuns, Src_backgroundExecSessions,
     Src_cronRuns, Src_activeTasks, Src_rootRequests, Src_sessionAdmissions, Src_sessionMutations,
     Src_chatRuns, Src_queuedTurns, Src_terminalPersistence, Src_terminalSessions]"

record ActiveTaskRestartBlocker =
  tb_taskId :: string
  tb_status :: string
  tb_runtime :: string
  tb_runId :: "string option"
  tb_label :: "string option"
  tb_title :: "string option"

text \<open>The inspectors a caller may override; what \<open>None\<close> leaves is the default.\<close>

record ActiveWorkInspectors =
  ai_counts :: "work_source \<Rightarrow> js_number option"
  ai_taskBlockers :: "ActiveTaskRestartBlocker list option"
  ai_rootRequestHolders :: "string list option"

record DefaultInspectors =
  di_counts :: "work_source \<Rightarrow> js_number"
  di_taskBlockers :: "ActiveTaskRestartBlocker list"
  di_rootRequestHolders :: "string list"

text \<open>What the subsystems outside the model report; two of the sources count cron runs.\<close>

record ProcessActivity =
  pa_pendingReplies :: js_number
  pa_embeddedRuns :: js_number
  pa_backgroundExecSessions :: js_number
  pa_activeCronJobs :: int
  pa_visibleCronTaskRuns :: int
  pa_taskBlockers :: "ActiveTaskRestartBlocker list"
  pa_sessionAdmissions :: js_number
  pa_sessionMutations :: js_number

definition defaultInspectors ::
  "(string \<Rightarrow> string \<Rightarrow> bool) \<Rightarrow> QueueState \<Rightarrow> nat option \<Rightarrow> GatewayWorkAdmissionState \<Rightarrow>
    ProcessActivity \<Rightarrow> DefaultInspectors" where
  "defaultInspectors le lanes current st pa =
     \<lparr>di_counts = (\<lambda>src. case src of
        Src_queueSize \<Rightarrow> Finite (int (getTotalQueueSize lanes))
      | Src_pendingReplies \<Rightarrow> pa_pendingReplies pa
      | Src_embeddedRuns \<Rightarrow> pa_embeddedRuns pa
      | Src_backgroundExecSessions \<Rightarrow> pa_backgroundExecSessions pa
      | Src_cronRuns \<Rightarrow> Finite (max (pa_activeCronJobs pa) (pa_visibleCronTaskRuns pa))
      | Src_activeTasks \<Rightarrow> Finite (int (length (pa_taskBlockers pa)))
      | Src_rootRequests \<Rightarrow> Finite (getActiveGatewayRootWorkCount True current st)
      | Src_sessionAdmissions \<Rightarrow> pa_sessionAdmissions pa
      | Src_sessionMutations \<Rightarrow> pa_sessionMutations pa
      | Src_chatRuns \<Rightarrow> Finite 0
      | Src_queuedTurns \<Rightarrow> Finite 0
      | Src_terminalPersistence \<Rightarrow> Finite 0
      | Src_terminalSessions \<Rightarrow> Finite 0),
      di_taskBlockers = pa_taskBlockers pa,
      di_rootRequestHolders = getActiveGatewayRootWorkHolders le True current st\<rparr>"

definition normalizeCount :: "js_number \<Rightarrow> nat" where
  "normalizeCount value = (case value of Finite i \<Rightarrow> if 0 < i then nat i else 0 | NonFinite \<Rightarrow> 0)"

section \<open>Blockers\<close>

record GatewayActiveWorkBlocker =
  bl_kind :: string
  bl_count :: nat
  bl_message :: string
  bl_task :: "ActiveTaskRestartBlocker option"

record GatewayActiveWorkSnapshot =
  as_idle :: bool
  as_counts :: "work_source \<Rightarrow> nat"
  as_totalActive :: nat
  as_blockers :: "GatewayActiveWorkBlocker list"

fun join_with :: "string \<Rightarrow> string list \<Rightarrow> string" where
  "join_with sep [] = []"
| "join_with sep [x] = x"
| "join_with sep (x # y # ys) = x @ sep @ join_with sep (y # ys)"

definition labelled :: "string \<Rightarrow> string option \<Rightarrow> string list" where
  "labelled label value = (case value of Some v \<Rightarrow> if v = [] then [] else [label @ v] | None \<Rightarrow> [])"

definition formatActiveTaskRestartBlocker :: "ActiveTaskRestartBlocker \<Rightarrow> string" where
  "formatActiveTaskRestartBlocker task = join_with '' ''
     ([''taskId='' @ tb_taskId task] @ labelled ''runId='' (tb_runId task) @
      [''status='' @ tb_status task, ''runtime='' @ tb_runtime task] @
      labelled ''label='' (tb_label task) @
      (case tb_title task of Some t \<Rightarrow> if t = [] then [] else [''title='' @ take 80 t] | None \<Rightarrow> []))"

definition count_blocker :: "nat \<Rightarrow> string \<Rightarrow> string \<Rightarrow> GatewayActiveWorkBlocker list" where
  "count_blocker n kind message =
     (if 0 < n then [\<lparr>bl_kind = kind, bl_count = n, bl_message = message, bl_task = None\<rparr>] else [])"

definition counted :: "nat \<Rightarrow> string \<Rightarrow> string" where
  "counted n what = nat_str n @ '' '' @ what"

text \<open>The names shown behind the root requests: at most eight, sorted, and how many more.\<close>

definition root_holder_suffix :: "string list \<Rightarrow> string" where
  "root_holder_suffix holders =
     (let names = take 8 (sort holders);
          names = (if length names < length holders
                   then names @ [''+'' @ nat_str (length holders - length names) @ '' more''] else names)
      in if names = [] then [] else '': '' @ join_with '', '' names)"

definition task_blockers :: "nat \<Rightarrow> ActiveTaskRestartBlocker list \<Rightarrow> GatewayActiveWorkBlocker list" where
  "task_blockers activeTasks taskBlockers =
     (if activeTasks = 0 then []
      else if taskBlockers = []
      then count_blocker activeTasks ''task'' (counted activeTasks ''active background task run(s)'')
      else let shown = take 8 taskBlockers; omitted = activeTasks - length shown
           in map (\<lambda>task. \<lparr>bl_kind = ''task'', bl_count = 1,
                     bl_message = formatActiveTaskRestartBlocker task, bl_task = Some task\<rparr>) shown @
              count_blocker omitted ''task'' (counted omitted ''additional active background task run(s)''))"

definition createGatewayActiveWorkSnapshot ::
  "DefaultInspectors \<Rightarrow> ActiveWorkInspectors \<Rightarrow> bool \<Rightarrow> GatewayActiveWorkSnapshot" where
  "createGatewayActiveWorkSnapshot defaults inspectors ignoreTerminalSessions =
     (let counts = (\<lambda>src. normalizeCount (case ai_counts inspectors src of Some n \<Rightarrow> n | None \<Rightarrow> di_counts defaults src));
          totalActive = sum_list (map counts work_sources) -
            (if ignoreTerminalSessions then counts Src_terminalSessions else 0);
          holders = (if ai_counts inspectors Src_rootRequests \<noteq> None \<and> ai_rootRequestHolders inspectors = None then []
                     else case ai_rootRequestHolders inspectors of Some hs \<Rightarrow> hs | None \<Rightarrow> di_rootRequestHolders defaults);
          taskBlockers = (case ai_taskBlockers inspectors of Some ts \<Rightarrow> ts | None \<Rightarrow> di_taskBlockers defaults);
          add = (\<lambda>src kind what. count_blocker (counts src) kind (counted (counts src) what));
          blockers =
            add Src_queueSize ''queue'' ''queued or active operation(s)'' @
            add Src_pendingReplies ''reply'' ''pending reply delivery operation(s)'' @
            add Src_embeddedRuns ''embedded-run'' ''active embedded run(s)'' @
            add Src_backgroundExecSessions ''background-exec'' ''active background exec session(s)'' @
            add Src_cronRuns ''cron-run'' ''active cron run(s)'' @
            add Src_rootRequests ''root-request'' (''active gateway request(s)'' @ root_holder_suffix holders) @
            add Src_sessionAdmissions ''session-admission'' ''admitted session turn(s)'' @
            add Src_sessionMutations ''session-mutation'' ''active session lifecycle mutation(s)'' @
            add Src_chatRuns ''chat-run'' ''active chat run(s)'' @
            add Src_queuedTurns ''queued-turn'' ''queued chat turn(s)'' @
            add Src_terminalPersistence ''terminal-persistence'' ''pending terminal session write(s)'' @
            (if ignoreTerminalSessions then []
             else add Src_terminalSessions ''terminal-session'' ''open terminal session(s)'') @
            task_blockers (counts Src_activeTasks) taskBlockers
      in \<lparr>as_idle = (totalActive = 0), as_counts = counts, as_totalActive = totalActive,
          as_blockers = blockers\<rparr>)"

section \<open>Counts and blockers agree\<close>

definition blocked_count :: "GatewayActiveWorkBlocker list \<Rightarrow> nat" where
  "blocked_count bs = sum_list (map bl_count bs)"

lemma blocked_count_append [simp]: "blocked_count (bs @ cs) = blocked_count bs + blocked_count cs"
  by (simp add: blocked_count_def)

lemma blocked_count_count [simp]: "blocked_count (count_blocker n kind message) = n"
  by (simp add: blocked_count_def count_blocker_def)

lemma blocked_count_Nil [simp]: "blocked_count [] = 0"
  by (simp add: blocked_count_def)

lemma blocked_count_tasks:
  "blocked_count (task_blockers n tasks) = (if n = 0 then 0 else max n (min 8 (length tasks)))"
  by (auto simp: task_blockers_def Let_def blocked_count_def [of "map _ _"] comp_def sum_list_triv)

lemma count_blocker_positive [simp]: "list_all (\<lambda>b. 0 < bl_count b) (count_blocker n kind message)"
  by (simp add: count_blocker_def)

lemma task_blockers_positive [simp]: "list_all (\<lambda>b. 0 < bl_count b) (task_blockers n tasks)"
  by (auto simp: task_blockers_def Let_def list_all_iff [of _ "map _ _"])

lemma blocked_count_zero: "list_all (\<lambda>b. 0 < bl_count b) bs \<Longrightarrow> blocked_count bs = 0 \<longleftrightarrow> bs = []"
  by (cases bs) (auto simp: blocked_count_def)

lemma snapshot_blocked_count:
  "\<exists>tasks. blocked_count (as_blockers (createGatewayActiveWorkSnapshot d i ign)) =
     as_totalActive (createGatewayActiveWorkSnapshot d i ign) +
       (blocked_count (task_blockers (as_counts (createGatewayActiveWorkSnapshot d i ign) Src_activeTasks) tasks) -
        as_counts (createGatewayActiveWorkSnapshot d i ign) Src_activeTasks)"
  by (rule exI [of _ "case ai_taskBlockers i of Some ts \<Rightarrow> ts | None \<Rightarrow> di_taskBlockers d"])
     (simp add: createGatewayActiveWorkSnapshot_def Let_def work_sources_def blocked_count_tasks)

text \<open>The summary and the detail of an inventory agree: it is idle exactly when no blocker is
  listed, every listed blocker counts something, and the blockers together account for all the
  activity counted.\<close>

theorem blockers_account_for_activity:
  "let s = createGatewayActiveWorkSnapshot defaults inspectors ignoreTerminal
   in (as_idle s \<longleftrightarrow> as_blockers s = []) \<and> list_all (\<lambda>b. 0 < bl_count b) (as_blockers s) \<and>
      as_totalActive s \<le> blocked_count (as_blockers s)"
proof -
  let ?s = "createGatewayActiveWorkSnapshot defaults inspectors ignoreTerminal"
  have pos: "list_all (\<lambda>b. 0 < bl_count b) (as_blockers ?s)"
    by (simp add: createGatewayActiveWorkSnapshot_def Let_def)
  obtain tasks where count: "blocked_count (as_blockers ?s) = as_totalActive ?s +
      (blocked_count (task_blockers (as_counts ?s Src_activeTasks) tasks) - as_counts ?s Src_activeTasks)"
    using snapshot_blocked_count by blast
  have "as_counts ?s Src_activeTasks \<le> as_totalActive ?s"
    by (simp add: createGatewayActiveWorkSnapshot_def Let_def work_sources_def)
  with count have "blocked_count (as_blockers ?s) = 0 \<longleftrightarrow> as_totalActive ?s = 0"
    by (auto simp: blocked_count_tasks)
  moreover have "as_idle ?s \<longleftrightarrow> as_totalActive ?s = 0"
    by (simp add: createGatewayActiveWorkSnapshot_def Let_def)
  ultimately show ?thesis
    using pos count blocked_count_zero [OF pos] by (simp add: Let_def)
qed

section \<open>Waiting for the inventory to empty\<close>

definition GATEWAY_ACTIVE_WORK_POLL_MS :: int where "GATEWAY_ACTIVE_WORK_POLL_MS = 250"

record ActiveWorkWaitResult =
  ww_drained :: bool
  ww_snapshot :: GatewayActiveWorkSnapshot

text \<open>
  Each poll is a snapshot with the clock read after it. \<open>None\<close>: the loop is still waiting when the
  polls that have taken place are used up.
\<close>

fun wait_polls ::
  "int option \<Rightarrow> (GatewayActiveWorkSnapshot \<times> int) list \<Rightarrow> ActiveWorkWaitResult option" where
  "wait_polls deadlineAt [] = None"
| "wait_polls deadlineAt ((snapshot, now) # polls) =
     (if as_idle snapshot then Some \<lparr>ww_drained = True, ww_snapshot = snapshot\<rparr>
      else case deadlineAt of
             Some deadline \<Rightarrow> if deadline - now \<le> 0 then Some \<lparr>ww_drained = False, ww_snapshot = snapshot\<rparr>
                              else wait_polls deadlineAt polls
           | None \<Rightarrow> wait_polls deadlineAt polls)"

definition waitForGatewayActiveWork ::
  "js_number option \<Rightarrow> int \<Rightarrow> (GatewayActiveWorkSnapshot \<times> int) list \<Rightarrow> ActiveWorkWaitResult option" where
  "waitForGatewayActiveWork timeoutMs started polls =
     wait_polls (case timeoutMs of Some (Finite t) \<Rightarrow> Some (started + max 0 t) | _ \<Rightarrow> None) polls"

definition poll_delay :: "int option \<Rightarrow> int" where
  "poll_delay remainingMs =
     (case remainingMs of Some r \<Rightarrow> min GATEWAY_ACTIVE_WORK_POLL_MS r | None \<Rightarrow> GATEWAY_ACTIVE_WORK_POLL_MS)"

text \<open>A wait with a timeout returns by the first poll at or past its deadline; it reports success only
  on an idle snapshot.\<close>

lemma wait_polls_returns:
  "(snapshot, now) \<in> set polls \<Longrightarrow> as_idle snapshot \<or> (\<exists>d. deadlineAt = Some d \<and> d \<le> now) \<Longrightarrow>
    \<exists>r. wait_polls deadlineAt polls = Some r"
  by (induction polls) (auto split: option.split)

lemma wait_polls_result:
  "wait_polls deadlineAt polls = Some r \<Longrightarrow> ww_drained r = as_idle (ww_snapshot r) \<and>
    (ww_snapshot r \<in> fst ` set polls) \<and> (\<not> ww_drained r \<longrightarrow> deadlineAt \<noteq> None)"
  by (induction polls) (auto split: if_splits option.splits)

end
