(* ===== verification/Gateway_Suspend.thy ===== *)
theory Gateway_Suspend
  imports Gateway_Admission_Calls Gateway_Active_Work
begin

text \<open>
  The coordinator of host suspension (\<open>src/infra/gateway-suspend-coordinator.ts\<close>): prepare, status
  and resume of a suspension, its expiry, the retries of a scheduler that fails to resume, and the
  reset of a lifecycle, over the admission state whose lease it holds.

  Entries are objects with an identity and live in an append-only store. The callbacks given by the
  caller return or throw, which is an input of the operation (they do not call back into the
  coordinator or the admission); \<open>sc_schedulerPaused\<close> records what the pause and resume callbacks
  that returned did to the scheduler. A timer of an entry is the generation it was set for and its
  delay; it fires as an event, at any time after it was set, and is gone then.
\<close>

section \<open>State\<close>

definition GATEWAY_SUSPEND_TTL_MS :: int where "GATEWAY_SUSPEND_TTL_MS = 120000"
definition GATEWAY_SUSPEND_RETRY_AFTER_MS :: int where "GATEWAY_SUSPEND_RETRY_AFTER_MS = 20000"
definition GATEWAY_SCHEDULER_RECOVERY_RETRY_MS :: int where "GATEWAY_SCHEDULER_RECOVERY_RETRY_MS = 1000"

datatype terminal_policy = Preserve | Terminate

datatype held_phase = Held_Draining GatewayActiveWorkSnapshot | Held_Ready GatewayActiveWorkSnapshot

record HeldGatewaySuspension =
  hs_requestId :: string
  hs_terminalPolicy :: terminal_policy
  hs_drain :: bool
  hs_suspensionId :: string
  hs_expiresAtMs :: int
  hs_phase :: held_phase

datatype coordinator_kind = Held HeldGatewaySuspension | Recovering

text \<open>\<open>ce_reopen\<close> and \<open>ce_lease\<close>: which operation of which lease \<open>reopenAdmission\<close> is.\<close>

record CoordinatorEntry =
  ce_owner :: nat
  ce_lease :: nat
  ce_reopen :: suspend_op
  ce_timer :: "(nat \<times> int) option"
  ce_timerGeneration :: nat
  ce_kind :: coordinator_kind

record SuspendCoordinator =
  sc_admission :: GatewayWorkAdmissionState
  sc_entries :: "CoordinatorEntry list"
  sc_current :: "nat option"
  sc_retiredForLifecycleReset :: "nat option"
  sc_nextOwner :: nat
  sc_invalidated :: "nat list"
  sc_schedulerPaused :: bool
  sc_warnings :: "string list"

definition initial_coordinator :: SuspendCoordinator where
  "initial_coordinator = \<lparr>sc_admission = initial_admission, sc_entries = [], sc_current = None,
     sc_retiredForLifecycleReset = None, sc_nextOwner = 0, sc_invalidated = [],
     sc_schedulerPaused = False, sc_warnings = []\<rparr>"

datatype suspend_error = Callback_Failed | Suspend_Error string

datatype suspend_result =
    Result_Recovering int
  | Result_Conflict int
  | Result_Busy string int nat "GatewayActiveWorkBlocker list"
  | Result_Draining string int int nat "GatewayActiveWorkBlocker list"
  | Result_Ready string int nat "GatewayActiveWorkBlocker list"

datatype status_result =
    Status_Recovering int
  | Status_Running
  | Status_Conflict int
  | Status_Draining int nat "GatewayActiveWorkBlocker list" int
  | Status_Ready int

datatype resume_result =
    Resume_Failed int
  | Resume_Mismatch
  | Resume_Running bool

definition warn :: "string \<Rightarrow> SuspendCoordinator \<Rightarrow> SuspendCoordinator" where
  "warn message sc = sc\<lparr>sc_warnings := sc_warnings sc @ [message]\<rparr>"

definition entry_at :: "SuspendCoordinator \<Rightarrow> nat \<Rightarrow> CoordinatorEntry" where
  "entry_at sc e = sc_entries sc ! e"

definition set_entry :: "nat \<Rightarrow> CoordinatorEntry \<Rightarrow> SuspendCoordinator \<Rightarrow> SuspendCoordinator" where
  "set_entry e x sc = sc\<lparr>sc_entries := (sc_entries sc)[e := x]\<rparr>"

definition lease_op :: "suspend_op \<Rightarrow> nat \<Rightarrow> SuspendCoordinator \<Rightarrow> bool \<times> SuspendCoordinator" where
  "lease_op oper g sc =
     (let (ok, st) = suspend_lease oper g (sc_admission sc) in (ok, sc\<lparr>sc_admission := st\<rparr>))"

text \<open>\<open>pauseScheduling()\<close> and \<open>resumeScheduling()\<close>, when they return.\<close>

definition set_scheduler :: "bool \<Rightarrow> SuspendCoordinator \<Rightarrow> SuspendCoordinator" where
  "set_scheduler paused sc = sc\<lparr>sc_schedulerPaused := paused\<rparr>"

section \<open>Timers and recovery\<close>

definition clear_timer :: "CoordinatorEntry \<Rightarrow> CoordinatorEntry" where
  "clear_timer x = x\<lparr>ce_timerGeneration := ce_timerGeneration x + 1, ce_timer := None\<rparr>"

definition schedule :: "int \<Rightarrow> CoordinatorEntry \<Rightarrow> CoordinatorEntry" where
  "schedule delayMs x = (let x = clear_timer x in x\<lparr>ce_timer := Some (ce_timerGeneration x, delayMs)\<rparr>)"

definition clearEntryTimer :: "nat \<Rightarrow> SuspendCoordinator \<Rightarrow> SuspendCoordinator" where
  "clearEntryTimer e sc = set_entry e (clear_timer (entry_at sc e)) sc"

definition scheduleEntry :: "nat \<Rightarrow> int \<Rightarrow> SuspendCoordinator \<Rightarrow> SuspendCoordinator" where
  "scheduleEntry e delayMs sc = set_entry e (schedule delayMs (entry_at sc e)) sc"

definition scheduleRecoveryRetry :: "nat \<Rightarrow> SuspendCoordinator \<Rightarrow> SuspendCoordinator" where
  "scheduleRecoveryRetry e = scheduleEntry e GATEWAY_SCHEDULER_RECOVERY_RETRY_MS"

definition new_coordinator_entry ::
  "nat \<Rightarrow> nat \<Rightarrow> suspend_op \<Rightarrow> coordinator_kind \<Rightarrow> SuspendCoordinator \<Rightarrow> nat \<times> SuspendCoordinator" where
  "new_coordinator_entry owner g reopen knd sc =
     (length (sc_entries sc), sc\<lparr>sc_entries := sc_entries sc @
        [\<lparr>ce_owner = owner, ce_lease = g, ce_reopen = reopen, ce_timer = None, ce_timerGeneration = 0,
          ce_kind = knd\<rparr>]\<rparr>)"

definition armSchedulerRecovery ::
  "nat \<Rightarrow> nat \<Rightarrow> suspend_op \<Rightarrow> SuspendCoordinator \<Rightarrow> nat \<times> SuspendCoordinator" where
  "armSchedulerRecovery owner g reopen sc =
     (let (e, sc) = new_coordinator_entry owner g reopen Recovering sc in (e, scheduleRecoveryRetry e sc))"

definition enterSchedulerRecovery :: "nat \<Rightarrow> SuspendCoordinator \<Rightarrow> SuspendCoordinator" where
  "enterSchedulerRecovery e sc =
     (if sc_current sc \<noteq> Some e then sc
      else case ce_kind (entry_at sc e) of
             Recovering \<Rightarrow> scheduleRecoveryRetry e sc
           | Held _ \<Rightarrow>
               let sc = clearEntryTimer e sc; x = entry_at sc e;
                   (r, sc) = new_coordinator_entry (ce_owner x) (ce_lease x) (ce_reopen x) Recovering sc
               in scheduleRecoveryRetry r (sc\<lparr>sc_current := Some r\<rparr>))"

text \<open>\<open>resumes\<close>: the entry's \<open>resumeScheduling\<close> returns.\<close>

definition resumeAndReopen :: "nat \<Rightarrow> bool \<Rightarrow> SuspendCoordinator \<Rightarrow> bool \<times> SuspendCoordinator" where
  "resumeAndReopen e resumes sc =
     (if \<not> resumes then (False, enterSchedulerRecovery e (warn ''gateway scheduler recovery failed: '' sc))
      else let sc = set_scheduler False sc
           in if sc_current sc \<noteq> Some e then (True, sc)
              else let (reopened, sc) = lease_op (ce_reopen (entry_at sc e)) (ce_lease (entry_at sc e)) sc
                   in if \<not> reopened
                      then (False, enterSchedulerRecovery e
                              (warn ''gateway scheduler recovery could not reopen admission'' sc))
                      else (True, (clearEntryTimer e sc)\<lparr>sc_current := None\<rparr>))"

definition held_of :: "CoordinatorEntry \<Rightarrow> HeldGatewaySuspension option" where
  "held_of x = (case ce_kind x of Held h \<Rightarrow> Some h | Recovering \<Rightarrow> None)"

text \<open>The current entry after a held one past its expiry was resumed (\<open>now\<close>: its clock).\<close>

definition normalizeExpiredHeldSuspension ::
  "nat \<Rightarrow> HeldGatewaySuspension \<Rightarrow> int \<Rightarrow> bool \<Rightarrow> SuspendCoordinator \<Rightarrow> nat option \<times> SuspendCoordinator" where
  "normalizeExpiredHeldSuspension e held now resumes sc =
     (if now < hs_expiresAtMs held then (Some e, sc)
      else let sc = snd (resumeAndReopen e resumes sc) in (sc_current sc, sc))"

definition resumeSchedulingBeforeReopen ::
  "nat \<Rightarrow> nat \<Rightarrow> suspend_op \<Rightarrow> bool \<Rightarrow> SuspendCoordinator \<Rightarrow> bool \<times> SuspendCoordinator" where
  "resumeSchedulingBeforeReopen owner g reopen resumes sc =
     (if owner \<in> set (sc_invalidated sc) then (True, sc)
      else if \<not> resumes
      then let sc = warn ''gateway scheduler resume failed during suspension rollback: '' sc;
               (e, sc) = armSchedulerRecovery owner g reopen sc
           in (False, sc\<lparr>sc_current := Some e\<rparr>)
      else let sc = set_scheduler False sc
           in (True, if owner \<in> set (sc_invalidated sc) then sc else snd (lease_op reopen g sc)))"

definition armExpiry ::
  "nat \<Rightarrow> nat \<Rightarrow> HeldGatewaySuspension \<Rightarrow> SuspendCoordinator \<Rightarrow> nat \<times> SuspendCoordinator" where
  "armExpiry owner g held sc =
     (let (e, sc) = new_coordinator_entry owner g Lease_Release (Held held) sc
      in (e, scheduleEntry e GATEWAY_SUSPEND_TTL_MS sc))"

definition update_held ::
  "nat \<Rightarrow> HeldGatewaySuspension \<Rightarrow> SuspendCoordinator \<Rightarrow> SuspendCoordinator" where
  "update_held e held sc = set_entry e ((entry_at sc e)\<lparr>ce_kind := Held held\<rparr>) sc"

definition renewHeldSuspension ::
  "nat \<Rightarrow> HeldGatewaySuspension \<Rightarrow> int \<Rightarrow> SuspendCoordinator \<Rightarrow> HeldGatewaySuspension \<times> SuspendCoordinator" where
  "renewHeldSuspension e held nowMs sc =
     (let held = held\<lparr>hs_expiresAtMs := nowMs + GATEWAY_SUSPEND_TTL_MS\<rparr>
      in (held, scheduleEntry e GATEWAY_SUSPEND_TTL_MS (update_held e held sc)))"

text \<open>\<open>inspect\<close>: the snapshot for a terminal policy, or none when an inspector throws.\<close>

type_synonym inspection = "bool \<Rightarrow> GatewayActiveWorkSnapshot option"

definition refreshHeldSuspension ::
  "nat \<Rightarrow> HeldGatewaySuspension \<Rightarrow> inspection \<Rightarrow> SuspendCoordinator \<Rightarrow>
    (suspend_error + held_phase) \<times> SuspendCoordinator" where
  "refreshHeldSuspension e held inspect sc =
     (case hs_phase held of
        Held_Ready _ \<Rightarrow> (Inr (hs_phase held), sc)
      | Held_Draining _ \<Rightarrow>
          (case inspect (hs_terminalPolicy held = Terminate) of
             None \<Rightarrow> (Inl Callback_Failed, sc)
           | Some snapshot \<Rightarrow>
               if \<not> as_idle snapshot
               then (Inr (Held_Draining snapshot), update_held e (held\<lparr>hs_phase := Held_Draining snapshot\<rparr>) sc)
               else let (committed, sc) = lease_op Lease_Commit (ce_lease (entry_at sc e)) sc
                    in if \<not> committed
                       then (Inl (Suspend_Error ''gateway suspension admission changed during drain completion''), sc)
                       else (Inr (Held_Ready snapshot), update_held e (held\<lparr>hs_phase := Held_Ready snapshot\<rparr>) sc)))"

definition heldPrepareResult :: "HeldGatewaySuspension \<Rightarrow> held_phase \<Rightarrow> suspend_result" where
  "heldPrepareResult held phase = (case phase of
     Held_Draining s \<Rightarrow> Result_Draining (hs_suspensionId held) (hs_expiresAtMs held)
       GATEWAY_SUSPEND_RETRY_AFTER_MS (as_totalActive s) (as_blockers s)
   | Held_Ready s \<Rightarrow> Result_Ready (hs_suspensionId held) (hs_expiresAtMs held) (as_totalActive s) (as_blockers s))"

section \<open>Invalidation by the admission\<close>

definition invalidate_owner :: "nat \<Rightarrow> SuspendCoordinator \<Rightarrow> SuspendCoordinator" where
  "invalidate_owner owner sc =
     (let sc = sc\<lparr>sc_invalidated := sc_invalidated sc @ [owner]\<rparr>
      in case sc_current sc of None \<Rightarrow> sc
         | Some e \<Rightarrow>
             if ce_owner (entry_at sc e) \<noteq> owner then sc
             else (clearEntryTimer e sc)\<lparr>sc_current := None, sc_retiredForLifecycleReset := Some e\<rparr>)"

definition deliver_effect :: "admission_effect \<Rightarrow> SuspendCoordinator \<Rightarrow> SuspendCoordinator" where
  "deliver_effect x sc = (case x of Invoke (Coordinator_Invalidated owner) \<Rightarrow> invalidate_owner owner sc | _ \<Rightarrow> sc)"

text \<open>An operation of the admission, with the callbacks it invoked.\<close>

definition run_admission ::
  "(GatewayWorkAdmissionState \<Rightarrow> GatewayWorkAdmissionState) \<Rightarrow> SuspendCoordinator \<Rightarrow> SuspendCoordinator" where
  "run_admission f sc =
     (let st = sc_admission sc; st' = f st
      in foldl (\<lambda>s x. deliver_effect x s) (sc\<lparr>sc_admission := st'\<rparr>)
           (drop (length (ga_effects st)) (ga_effects st')))"

section \<open>Prepare, status, resume\<close>

record SuspendPrepareParams =
  sp_requestId :: string
  sp_terminalPolicy :: "terminal_policy option"
  sp_drain :: "bool option"

text \<open>What the caller's functions do in one call: the two clocks, the callbacks that return, the id.\<close>

record SuspendCallbacks =
  cb_nowMs :: int
  cb_heldNowMs :: int
  cb_heldResumes :: bool
  cb_pauses :: bool
  cb_resumes :: bool
  cb_inspect :: inspection
  cb_suspensionId :: string

definition prepare_failed ::
  "nat \<Rightarrow> nat \<Rightarrow> bool \<Rightarrow> suspend_error \<Rightarrow> SuspendCallbacks \<Rightarrow> SuspendCoordinator \<Rightarrow>
    (suspend_error + suspend_result) \<times> SuspendCoordinator" where
  "prepare_failed owner g schedulingPaused err cb sc =
     (if schedulingPaused
      then let (resumed, sc) = resumeSchedulingBeforeReopen owner g Lease_Rollback (cb_resumes cb) sc
           in if \<not> resumed then (Inr (Result_Recovering GATEWAY_SCHEDULER_RECOVERY_RETRY_MS), sc)
              else (Inl err, sc)
      else (Inl err, snd (lease_op Lease_Rollback g sc)))"

text \<open>The part of prepare that holds a fresh lease of generation \<open>g\<close>.\<close>

definition prepare_under_lease ::
  "nat \<Rightarrow> nat \<Rightarrow> SuspendPrepareParams \<Rightarrow> terminal_policy \<Rightarrow> bool \<Rightarrow> SuspendCallbacks \<Rightarrow>
    SuspendCoordinator \<Rightarrow> (suspend_error + suspend_result) \<times> SuspendCoordinator" where
  "prepare_under_lease owner g params terminalPolicy drain cb sc =
     (if \<not> cb_pauses cb then prepare_failed owner g False Callback_Failed cb sc
      else let sc = set_scheduler True sc
           in case cb_inspect cb (terminalPolicy = Terminate) of
                None \<Rightarrow> prepare_failed owner g True Callback_Failed cb sc
              | Some snapshot \<Rightarrow>
                  if \<not> as_idle snapshot \<and> \<not> drain
                  then let (resumed, sc) = resumeSchedulingBeforeReopen owner g Lease_Rollback (cb_resumes cb) sc
                       in if \<not> resumed then (Inr (Result_Recovering GATEWAY_SCHEDULER_RECOVERY_RETRY_MS), sc)
                          else (Inr (Result_Busy ''active-work'' GATEWAY_SUSPEND_RETRY_AFTER_MS
                                  (as_totalActive snapshot) (as_blockers snapshot)), sc)
                  else let (moved, sc) = lease_op (if as_idle snapshot then Lease_Commit else Lease_Drain) g sc
                       in if \<not> moved
                          then prepare_failed owner g True
                                 (Suspend_Error ''gateway suspension admission changed during preparation'') cb sc
                          else let held = \<lparr>hs_requestId = sp_requestId params, hs_terminalPolicy = terminalPolicy,
                                     hs_drain = drain, hs_suspensionId = cb_suspensionId cb,
                                     hs_expiresAtMs = cb_nowMs cb + GATEWAY_SUSPEND_TTL_MS,
                                     hs_phase = (if as_idle snapshot then Held_Ready snapshot
                                                 else Held_Draining snapshot)\<rparr>;
                                   (e, sc) = armExpiry owner g held sc
                               in (Inr (heldPrepareResult held (hs_phase held)), sc\<lparr>sc_current := Some e\<rparr>))"

definition prepare_fresh ::
  "SuspendPrepareParams \<Rightarrow> terminal_policy \<Rightarrow> bool \<Rightarrow> SuspendCallbacks \<Rightarrow>
    SuspendCoordinator \<Rightarrow> (suspend_error + suspend_result) \<times> SuspendCoordinator" where
  "prepare_fresh params terminalPolicy drain cb sc =
     (let owner = sc_nextOwner sc;
          (lease, st) = tryBeginGatewaySuspendAdmission (Coordinator_Invalidated owner) (sc_admission sc);
          sc = sc\<lparr>sc_nextOwner := owner + 1, sc_admission := st\<rparr>
      in case lease of
           None \<Rightarrow> (case cb_inspect cb (terminalPolicy = Terminate) of
                      None \<Rightarrow> (Inl Callback_Failed, sc)
                    | Some snapshot \<Rightarrow>
                        (Inr (Result_Busy ''gateway-draining'' GATEWAY_SUSPEND_RETRY_AFTER_MS
                           (as_totalActive snapshot) (as_blockers snapshot)), sc))
         | Some g \<Rightarrow> prepare_under_lease owner g params terminalPolicy drain cb sc)"

text \<open>The current entry once an expired one is out of the way; \<open>None\<close>: none is left.\<close>

definition current_entry :: "int \<Rightarrow> bool \<Rightarrow> SuspendCoordinator \<Rightarrow> nat option \<times> SuspendCoordinator" where
  "current_entry now resumes sc = (case sc_current sc of
     None \<Rightarrow> (None, sc)
   | Some e \<Rightarrow> (case held_of (entry_at sc e) of
       None \<Rightarrow> (Some e, sc)
     | Some held \<Rightarrow> normalizeExpiredHeldSuspension e held now resumes sc))"

definition prepareGatewaySuspend ::
  "SuspendPrepareParams \<Rightarrow> SuspendCallbacks \<Rightarrow> SuspendCoordinator \<Rightarrow>
    (suspend_error + suspend_result) \<times> SuspendCoordinator" where
  "prepareGatewaySuspend params cb sc =
     (let terminalPolicy = (case sp_terminalPolicy params of Some p \<Rightarrow> p | None \<Rightarrow> Preserve);
          drain = (sp_drain params = Some True);
          (existing, sc) = current_entry (cb_heldNowMs cb) (cb_heldResumes cb) sc
      in case existing of
           None \<Rightarrow> prepare_fresh params terminalPolicy drain cb sc
         | Some e \<Rightarrow> (case held_of (entry_at sc e) of
             None \<Rightarrow> (Inr (Result_Recovering GATEWAY_SCHEDULER_RECOVERY_RETRY_MS), sc)
           | Some held \<Rightarrow>
               if hs_requestId held \<noteq> sp_requestId params \<or> hs_terminalPolicy held \<noteq> terminalPolicy \<or>
                  hs_drain held \<noteq> drain
               then (Inr (Result_Conflict (hs_expiresAtMs held)), sc)
               else let (held, sc) = renewHeldSuspension e held (cb_nowMs cb) sc;
                        (phase, sc) = refreshHeldSuspension e held (cb_inspect cb) sc
                    in (case phase of Inl err \<Rightarrow> Inl err | Inr ph \<Rightarrow> Inr (heldPrepareResult held ph), sc)))"

definition getGatewaySuspendStatus ::
  "string \<Rightarrow> SuspendCallbacks \<Rightarrow> SuspendCoordinator \<Rightarrow> (suspend_error + status_result) \<times> SuspendCoordinator" where
  "getGatewaySuspendStatus suspensionId cb sc =
     (let (existing, sc) = current_entry (cb_heldNowMs cb) (cb_heldResumes cb) sc
      in case existing of
           None \<Rightarrow> (Inr Status_Running, sc)
         | Some e \<Rightarrow> (case held_of (entry_at sc e) of
             None \<Rightarrow> (Inr (Status_Recovering GATEWAY_SCHEDULER_RECOVERY_RETRY_MS), sc)
           | Some held \<Rightarrow>
               if hs_suspensionId held \<noteq> suspensionId then (Inr (Status_Conflict (hs_expiresAtMs held)), sc)
               else let (phase, sc) = refreshHeldSuspension e held (cb_inspect cb) sc
                    in (case phase of
                          Inl err \<Rightarrow> Inl err
                        | Inr (Held_Draining s) \<Rightarrow> Inr (Status_Draining (hs_expiresAtMs held)
                            (as_totalActive s) (as_blockers s) GATEWAY_SUSPEND_RETRY_AFTER_MS)
                        | Inr (Held_Ready s) \<Rightarrow> Inr (Status_Ready (hs_expiresAtMs held)), sc)))"

text \<open>The entry's \<open>resumeScheduling\<close> is called once, by the expiry or by the resume itself.\<close>

definition resumeGatewaySuspend ::
  "string \<Rightarrow> SuspendCallbacks \<Rightarrow> SuspendCoordinator \<Rightarrow> resume_result \<times> SuspendCoordinator" where
  "resumeGatewaySuspend suspensionId cb sc =
     (let (existing, sc) = current_entry (cb_heldNowMs cb) (cb_heldResumes cb) sc
      in case existing of
           None \<Rightarrow> (Resume_Running False, sc)
         | Some e \<Rightarrow> (case held_of (entry_at sc e) of
             None \<Rightarrow> (Resume_Failed GATEWAY_SCHEDULER_RECOVERY_RETRY_MS, sc)
           | Some held \<Rightarrow>
               if hs_suspensionId held \<noteq> suspensionId then (Resume_Mismatch, sc)
               else let (reopened, sc) = resumeAndReopen e (cb_heldResumes cb) sc
                    in (if reopened then Resume_Running True
                        else Resume_Failed GATEWAY_SCHEDULER_RECOVERY_RETRY_MS, sc)))"

section \<open>Timers firing and the reset of a lifecycle\<close>

text \<open>Both timer callbacks resume the entry if it is still current, and only for the generation the
  timer was set for.\<close>

definition fire_timer :: "nat \<Rightarrow> bool \<Rightarrow> SuspendCoordinator \<Rightarrow> SuspendCoordinator" where
  "fire_timer e resumes sc = (case ce_timer (entry_at sc e) of
     None \<Rightarrow> sc
   | Some (generation, _) \<Rightarrow>
       let sc = set_entry e ((entry_at sc e)\<lparr>ce_timer := None\<rparr>) sc
       in if ce_timerGeneration (entry_at sc e) = generation \<and> sc_current sc = Some e
          then snd (resumeAndReopen e resumes sc) else sc)"

definition reset_entry :: "(nat \<Rightarrow> bool) \<Rightarrow> nat \<Rightarrow> SuspendCoordinator \<Rightarrow> SuspendCoordinator" where
  "reset_entry resumes e sc =
     (let sc = clearEntryTimer e sc;
          sc = (if resumes e then set_scheduler False sc
                else warn ''gateway scheduler resume failed during lifecycle reset: '' sc)
      in snd (lease_op (ce_reopen (entry_at sc e)) (ce_lease (entry_at sc e)) sc))"

definition resetGatewaySuspendCoordinator :: "(nat \<Rightarrow> bool) \<Rightarrow> SuspendCoordinator \<Rightarrow> SuspendCoordinator" where
  "resetGatewaySuspendCoordinator resumes sc =
     (let current = sc_current sc; retired = sc_retiredForLifecycleReset sc;
          sc = sc\<lparr>sc_current := None, sc_retiredForLifecycleReset := None\<rparr>;
          entries = (if current \<noteq> None \<and> current \<noteq> retired then [current, retired]
                     else [if current \<noteq> None then current else retired])
      in foldl (\<lambda>s x. case x of None \<Rightarrow> s | Some e \<Rightarrow> reset_entry resumes e s) sc entries)"

end
