(* ===== verification/Gateway_Suspend_Laws.thy ===== *)
theory Gateway_Suspend_Laws
  imports Gateway_Suspend
begin

text \<open>
  The coordinator and the admission agree: whoever is the current entry holds the suspension lease
  of the current generation, in the phase its kind says, with its timer armed; and a lease whose
  callback is the coordinator's belongs to the current entry. Every event of the coordinator, and
  every event of the other users of the admission, keeps that.
\<close>

section \<open>Agreement\<close>

definition phase_matches :: "coordinator_kind \<Rightarrow> suspend_phase \<Rightarrow> bool" where
  "phase_matches knd p \<longleftrightarrow> (case knd of
     Recovering \<Rightarrow> True
   | Held h \<Rightarrow> (case hs_phase h of Held_Draining _ \<Rightarrow> p = Draining | Held_Ready _ \<Rightarrow> p = Prepared))"

definition entry_holds :: "SuspendCoordinator \<Rightarrow> CoordinatorEntry \<Rightarrow> bool" where
  "entry_holds sc x \<longleftrightarrow>
     ga_suspendInvalidated (sc_admission sc) = Some (Coordinator_Invalidated (ce_owner x)) \<and>
     ce_lease x = ga_suspendGeneration (sc_admission sc) \<and>
     ga_suspendPhase (sc_admission sc) \<in> lease_from (ce_reopen x) \<and>
     lease_to (ce_reopen x) = Accepting \<and>
     phase_matches (ce_kind x) (ga_suspendPhase (sc_admission sc)) \<and>
     (held_of x \<noteq> None \<longrightarrow> ce_reopen x = Lease_Release)"

definition armed :: "CoordinatorEntry \<Rightarrow> bool" where
  "armed x \<longleftrightarrow> (\<exists>delay. ce_timer x = Some (ce_timerGeneration x, delay))"

definition coordinator_core :: "SuspendCoordinator \<Rightarrow> bool" where
  "coordinator_core sc \<longleftrightarrow>
     fences_ok (sc_admission sc) \<and>
     (\<forall>e. sc_current sc = Some e \<longrightarrow> e < length (sc_entries sc) \<and> entry_holds sc (entry_at sc e)) \<and>
     (sc_current sc = None \<longrightarrow>
        (\<forall>owner. ga_suspendInvalidated (sc_admission sc) \<noteq> Some (Coordinator_Invalidated owner))) \<and>
     (\<forall>e. sc_retiredForLifecycleReset sc = Some e \<longrightarrow> e < length (sc_entries sc)) \<and>
     (\<forall>owner \<in> set (sc_invalidated sc). owner < sc_nextOwner sc) \<and>
     (\<forall>owner. ga_suspendInvalidated (sc_admission sc) = Some (Coordinator_Invalidated owner) \<longrightarrow>
        owner < sc_nextOwner sc)"

definition timer_armed :: "SuspendCoordinator \<Rightarrow> bool" where
  "timer_armed sc \<longleftrightarrow> (\<forall>e. sc_current sc = Some e \<longrightarrow> armed (entry_at sc e))"

definition coordinator_ok :: "SuspendCoordinator \<Rightarrow> bool" where
  "coordinator_ok sc \<longleftrightarrow> coordinator_core sc \<and> timer_armed sc"

section \<open>Parts\<close>

lemma clear_timer_simps [simp]:
  "ce_owner (clear_timer x) = ce_owner x" "ce_lease (clear_timer x) = ce_lease x"
  "ce_reopen (clear_timer x) = ce_reopen x" "ce_kind (clear_timer x) = ce_kind x"
  "ce_timer (clear_timer x) = None"
  by (simp_all add: clear_timer_def)

lemma schedule_simps [simp]:
  "ce_owner (schedule d x) = ce_owner x" "ce_lease (schedule d x) = ce_lease x"
  "ce_reopen (schedule d x) = ce_reopen x" "ce_kind (schedule d x) = ce_kind x"
  "armed (schedule d x)"
  by (simp_all add: schedule_def armed_def Let_def)

lemma entry_holds_same:
  assumes "entry_holds sc x" "sc_admission sc' = sc_admission sc" "ce_owner y = ce_owner x" "ce_lease y = ce_lease x"
    "ce_reopen y = ce_reopen x" "ce_kind y = ce_kind x \<or> ce_kind y = Recovering"
  shows "entry_holds sc' y"
  using assms by (auto simp: entry_holds_def phase_matches_def held_of_def)

lemma entry_at_set [simp]:
  "e < length (sc_entries sc) \<Longrightarrow> entry_at (set_entry e x sc) e = x"
  "sc_current (set_entry e x sc) = sc_current sc" "sc_admission (set_entry e x sc) = sc_admission sc"
  "length (sc_entries (set_entry e x sc)) = length (sc_entries sc)"
  "sc_retiredForLifecycleReset (set_entry e x sc) = sc_retiredForLifecycleReset sc"
  "sc_invalidated (set_entry e x sc) = sc_invalidated sc" "sc_nextOwner (set_entry e x sc) = sc_nextOwner sc"
  "sc_schedulerPaused (set_entry e x sc) = sc_schedulerPaused sc"
  by (simp_all add: set_entry_def entry_at_def)

lemma entry_at_frame [simp]:
  "entry_at (sc\<lparr>sc_current := c\<rparr>) e = entry_at sc e"
  "entry_at (sc\<lparr>sc_admission := st\<rparr>) e = entry_at sc e"
  "entry_at (sc\<lparr>sc_schedulerPaused := p\<rparr>) e = entry_at sc e"
  "entry_at (sc\<lparr>sc_warnings := ws\<rparr>) e = entry_at sc e"
  "entry_at (sc\<lparr>sc_retiredForLifecycleReset := r\<rparr>) e = entry_at sc e"
  "entry_at (sc\<lparr>sc_invalidated := os\<rparr>) e = entry_at sc e"
  "entry_at (sc\<lparr>sc_nextOwner := k\<rparr>) e = entry_at sc e"
  by (simp_all add: entry_at_def)

lemma warn_scheduler_frame [simp]:
  "coordinator_core (warn m sc) = coordinator_core sc" "coordinator_core (set_scheduler b sc) = coordinator_core sc"
  "timer_armed (warn m sc) = timer_armed sc" "timer_armed (set_scheduler b sc) = timer_armed sc"
  "sc_current (warn m sc) = sc_current sc" "sc_current (set_scheduler b sc) = sc_current sc"
  "sc_entries (warn m sc) = sc_entries sc" "sc_entries (set_scheduler b sc) = sc_entries sc"
  "sc_admission (warn m sc) = sc_admission sc" "sc_admission (set_scheduler b sc) = sc_admission sc"
  "sc_schedulerPaused (warn m sc) = sc_schedulerPaused sc" "sc_schedulerPaused (set_scheduler b sc) = b"
  "sc_retiredForLifecycleReset (warn m sc) = sc_retiredForLifecycleReset sc"
  "sc_retiredForLifecycleReset (set_scheduler b sc) = sc_retiredForLifecycleReset sc"
  "sc_nextOwner (warn m sc) = sc_nextOwner sc" "sc_nextOwner (set_scheduler b sc) = sc_nextOwner sc"
  "sc_invalidated (warn m sc) = sc_invalidated sc" "sc_invalidated (set_scheduler b sc) = sc_invalidated sc"
  "entry_at (warn m sc) e = entry_at sc e" "entry_at (set_scheduler b sc) e = entry_at sc e"
  by (simp_all add: warn_def set_scheduler_def coordinator_core_def timer_armed_def entry_at_def entry_holds_def)

text \<open>Changing the current entry's timer, or its kind in step with the phase, keeps the agreement.\<close>

lemma core_set_entry:
  assumes "coordinator_core sc" "e < length (sc_entries sc)"
    "sc_current sc = Some e \<Longrightarrow> entry_holds sc x"
  shows "coordinator_core (set_entry e x sc)"
proof -
  have "entry_at (set_entry e x sc) r = (if r = e then x else entry_at sc r)" for r
    using assms(2) by (simp add: entry_at_def set_entry_def)
  moreover have "entry_holds (set_entry e x sc) y = entry_holds sc y" for y
    by (simp add: entry_holds_def)
  ultimately show ?thesis
    using assms by (auto simp: coordinator_core_def)
qed

lemma core_timer:
  assumes "coordinator_core sc" "e < length (sc_entries sc)"
  shows "coordinator_core (clearEntryTimer e sc)" "coordinator_core (scheduleEntry e d sc)"
    "coordinator_core (set_entry e ((entry_at sc e)\<lparr>ce_timer := t\<rparr>) sc)"
proof -
  have "sc_current sc = Some e \<Longrightarrow> entry_holds sc (entry_at sc e)"
    using assms(1) by (simp add: coordinator_core_def)
  then have "sc_current sc = Some e \<Longrightarrow> entry_holds sc y" if "ce_owner y = ce_owner (entry_at sc e)"
    "ce_lease y = ce_lease (entry_at sc e)" "ce_reopen y = ce_reopen (entry_at sc e)"
    "ce_kind y = ce_kind (entry_at sc e)" for y
    using that entry_holds_same by metis
  then show "coordinator_core (clearEntryTimer e sc)" "coordinator_core (scheduleEntry e d sc)"
    "coordinator_core (set_entry e ((entry_at sc e)\<lparr>ce_timer := t\<rparr>) sc)"
    unfolding clearEntryTimer_def scheduleEntry_def by (intro core_set_entry assms; simp)+
qed

lemma schedule_armed: "e < length (sc_entries sc) \<Longrightarrow> armed (entry_at (scheduleEntry e d sc) e)"
  by (simp add: scheduleEntry_def)

section \<open>Recovery\<close>

text \<open>A recovering entry for the same lease may take over.\<close>

lemma new_recovering:
  assumes core: "coordinator_core sc" and cb: "ga_suspendInvalidated (sc_admission sc) = Some (Coordinator_Invalidated owner)"
    and g: "g = ga_suspendGeneration (sc_admission sc)"
    and p: "ga_suspendPhase (sc_admission sc) \<in> lease_from reopen" "lease_to reopen = Accepting"
  shows "coordinator_ok (scheduleRecoveryRetry (fst (new_coordinator_entry owner g reopen Recovering sc))
     ((snd (new_coordinator_entry owner g reopen Recovering sc))\<lparr>sc_current := Some (fst (new_coordinator_entry owner g reopen Recovering sc))\<rparr>))"
proof -
  let ?e = "length (sc_entries sc)"
  let ?x = "\<lparr>ce_owner = owner, ce_lease = g, ce_reopen = reopen, ce_timer = None, ce_timerGeneration = 0, ce_kind = Recovering\<rparr>"
  let ?sc = "sc\<lparr>sc_entries := sc_entries sc @ [?x], sc_current := Some ?e\<rparr>"
  have "entry_at ?sc ?e = ?x" by (simp add: entry_at_def)
  with assms have ok: "coordinator_core ?sc"
    by (auto simp: coordinator_core_def entry_holds_def phase_matches_def held_of_def)
  have "coordinator_core (scheduleRecoveryRetry ?e ?sc)"
    unfolding scheduleRecoveryRetry_def by (rule core_timer [OF ok]) simp
  moreover have "timer_armed (scheduleRecoveryRetry ?e ?sc)"
    using schedule_armed [of ?e ?sc] by (simp add: timer_armed_def scheduleRecoveryRetry_def scheduleEntry_def)
  ultimately show ?thesis
    by (simp add: new_coordinator_entry_def coordinator_ok_def)
qed

lemma current_holds:
  assumes "coordinator_core sc" "sc_current sc = Some e"
  shows "e < length (sc_entries sc)" "entry_holds sc (entry_at sc e)"
  using assms by (simp_all add: coordinator_core_def)

lemma enterSchedulerRecovery_ok:
  assumes core: "coordinator_core sc" and cur: "sc_current sc = Some e"
  shows "coordinator_ok (enterSchedulerRecovery e sc)"
    and "sc_admission (enterSchedulerRecovery e sc) = sc_admission sc"
    and "sc_schedulerPaused (enterSchedulerRecovery e sc) = sc_schedulerPaused sc"
    and "sc_current (enterSchedulerRecovery e sc) \<noteq> None"
    and "sc_retiredForLifecycleReset (enterSchedulerRecovery e sc) = sc_retiredForLifecycleReset sc"
proof -
  note holds = current_holds [OF assms]
  show "coordinator_ok (enterSchedulerRecovery e sc)"
  proof (cases "ce_kind (entry_at sc e)")
    case Recovering
    have "timer_armed (scheduleRecoveryRetry e sc)"
      using schedule_armed [OF holds(1)] cur by (simp add: timer_armed_def scheduleRecoveryRetry_def scheduleEntry_def)
    with Recovering cur core_timer(2) [OF core holds(1)] show ?thesis
      by (simp add: enterSchedulerRecovery_def coordinator_ok_def scheduleRecoveryRetry_def)
  next
    case (Held h)
    let ?sc = "clearEntryTimer e sc" and ?x = "clear_timer (entry_at sc e)"
    have "coordinator_ok (scheduleRecoveryRetry (fst (new_coordinator_entry (ce_owner ?x) (ce_lease ?x) (ce_reopen ?x) Recovering ?sc))
        ((snd (new_coordinator_entry (ce_owner ?x) (ce_lease ?x) (ce_reopen ?x) Recovering ?sc))
          \<lparr>sc_current := Some (fst (new_coordinator_entry (ce_owner ?x) (ce_lease ?x) (ce_reopen ?x) Recovering ?sc))\<rparr>))"
      using holds(2) by (intro new_recovering core_timer core holds(1)) (simp_all add: entry_holds_def clearEntryTimer_def)
    with Held cur holds(1) show ?thesis
      by (simp add: enterSchedulerRecovery_def Let_def clearEntryTimer_def case_prod_beta)
  qed
  show "sc_admission (enterSchedulerRecovery e sc) = sc_admission sc"
    "sc_schedulerPaused (enterSchedulerRecovery e sc) = sc_schedulerPaused sc"
    "sc_current (enterSchedulerRecovery e sc) \<noteq> None"
    "sc_retiredForLifecycleReset (enterSchedulerRecovery e sc) = sc_retiredForLifecycleReset sc"
    using cur by (simp_all add: enterSchedulerRecovery_def scheduleRecoveryRetry_def scheduleEntry_def
        clearEntryTimer_def new_coordinator_entry_def Let_def split: coordinator_kind.split)
qed

section \<open>Resuming\<close>

lemma fences_ok_lease: "fences_ok st \<Longrightarrow> fences_ok (snd (suspend_lease oper g st))"
  using fences_ok_event [of st "Suspend_Lease oper g"] by simp

lemma lease_op_applies:
  assumes "lease_applies oper g (sc_admission sc)"
  shows "lease_op oper g sc = (True, sc\<lparr>sc_admission := snd (suspend_lease oper g (sc_admission sc))\<rparr>)"
  using assms lease_result [of oper g "sc_admission sc"] by (auto simp: lease_op_def split: prod.split)

lemma lease_op_frame [simp]:
  "sc_current (snd (lease_op oper g sc)) = sc_current sc" "sc_entries (snd (lease_op oper g sc)) = sc_entries sc"
  "sc_retiredForLifecycleReset (snd (lease_op oper g sc)) = sc_retiredForLifecycleReset sc"
  "sc_schedulerPaused (snd (lease_op oper g sc)) = sc_schedulerPaused sc"
  "sc_invalidated (snd (lease_op oper g sc)) = sc_invalidated sc"
  "sc_nextOwner (snd (lease_op oper g sc)) = sc_nextOwner sc"
  "entry_at (snd (lease_op oper g sc)) e = entry_at sc e"
  "sc_admission (snd (lease_op oper g sc)) = snd (suspend_lease oper g (sc_admission sc))"
  by (simp_all add: lease_op_def split: prod.split)

lemma no_current_ok:
  "coordinator_core sc \<Longrightarrow> sc_current sc = None \<Longrightarrow> coordinator_ok sc"
  by (simp add: coordinator_ok_def timer_armed_def)

lemma core_without_current:
  assumes "fences_ok (sc_admission sc)" "ga_suspendInvalidated (sc_admission sc) = None" "sc_current sc = None"
    "\<forall>e. sc_retiredForLifecycleReset sc = Some e \<longrightarrow> e < length (sc_entries sc)"
    "\<forall>owner \<in> set (sc_invalidated sc). owner < sc_nextOwner sc"
  shows "coordinator_ok sc"
  using assms by (simp add: coordinator_ok_def coordinator_core_def timer_armed_def)

lemma resumeAndReopen_succeeds:
  assumes core: "coordinator_core sc" and cur: "sc_current sc = Some e"
  shows "fst (resumeAndReopen e True sc)" "sc_current (snd (resumeAndReopen e True sc)) = None"
    "ga_suspendPhase (sc_admission (snd (resumeAndReopen e True sc))) = Accepting"
    "ga_restartDraining (sc_admission (snd (resumeAndReopen e True sc))) = ga_restartDraining (sc_admission sc)"
    "\<not> sc_schedulerPaused (snd (resumeAndReopen e True sc))"
    "sc_retiredForLifecycleReset (snd (resumeAndReopen e True sc)) = sc_retiredForLifecycleReset sc"
    "coordinator_ok (snd (resumeAndReopen e True sc))"
proof -
  note holds = current_holds [OF assms]
  let ?x = "entry_at sc e"
  have applies: "lease_applies (ce_reopen ?x) (ce_lease ?x) (sc_admission sc)" "lease_to (ce_reopen ?x) = Accepting"
    using holds(2) by (simp_all add: entry_holds_def lease_applies_def)
  let ?sc = "snd (lease_op (ce_reopen ?x) (ce_lease ?x) (set_scheduler False sc))"
  have eq: "resumeAndReopen e True sc = (True, (clearEntryTimer e ?sc)\<lparr>sc_current := None\<rparr>)"
    using cur applies by (simp add: resumeAndReopen_def lease_op_applies)
  show "fst (resumeAndReopen e True sc)" "sc_current (snd (resumeAndReopen e True sc)) = None"
    "ga_suspendPhase (sc_admission (snd (resumeAndReopen e True sc))) = Accepting"
    "ga_restartDraining (sc_admission (snd (resumeAndReopen e True sc))) = ga_restartDraining (sc_admission sc)"
    "\<not> sc_schedulerPaused (snd (resumeAndReopen e True sc))"
    "sc_retiredForLifecycleReset (snd (resumeAndReopen e True sc)) = sc_retiredForLifecycleReset sc"
    using applies by (simp_all add: eq clearEntryTimer_def)
  show "coordinator_ok (snd (resumeAndReopen e True sc))"
    unfolding eq using core applies
    by (intro core_without_current) (simp_all add: clearEntryTimer_def coordinator_core_def fences_ok_lease)
qed

lemma resumeAndReopen_fails:
  assumes core: "coordinator_core sc" and cur: "sc_current sc = Some e"
  shows "\<not> fst (resumeAndReopen e False sc)" "sc_current (snd (resumeAndReopen e False sc)) \<noteq> None"
    "sc_admission (snd (resumeAndReopen e False sc)) = sc_admission sc"
    "sc_schedulerPaused (snd (resumeAndReopen e False sc)) = sc_schedulerPaused sc"
    "sc_retiredForLifecycleReset (snd (resumeAndReopen e False sc)) = sc_retiredForLifecycleReset sc"
    "coordinator_ok (snd (resumeAndReopen e False sc))"
  using enterSchedulerRecovery_ok [of "warn ''gateway scheduler recovery failed: '' sc" e] assms
  by (simp_all add: resumeAndReopen_def)

definition scheduler_ok :: "SuspendCoordinator \<Rightarrow> bool" where
  "scheduler_ok sc \<longleftrightarrow>
     (sc_schedulerPaused sc \<longrightarrow> sc_current sc \<noteq> None \<or> sc_retiredForLifecycleReset sc \<noteq> None)"

text \<open>What an operation keeps: the agreement, the account of the scheduler, and (\<open>same_lifecycle\<close>)
  the restart drain and the retired entry.\<close>

definition same_lifecycle :: "SuspendCoordinator \<Rightarrow> SuspendCoordinator \<Rightarrow> bool" where
  "same_lifecycle sc sc' \<longleftrightarrow>
     ga_restartDraining (sc_admission sc') = ga_restartDraining (sc_admission sc) \<and>
     sc_retiredForLifecycleReset sc' = sc_retiredForLifecycleReset sc"

definition keeps :: "SuspendCoordinator \<Rightarrow> SuspendCoordinator \<Rightarrow> bool" where
  "keeps sc sc' \<longleftrightarrow> coordinator_ok sc' \<and> (scheduler_ok sc \<longrightarrow> scheduler_ok sc') \<and> same_lifecycle sc sc'"

lemma keeps_refl [simp]: "keeps sc sc \<longleftrightarrow> coordinator_ok sc"
  by (auto simp: keeps_def same_lifecycle_def)

lemma keeps_trans: "keeps a b \<Longrightarrow> keeps b c \<Longrightarrow> keeps a c"
  by (auto simp: keeps_def same_lifecycle_def)

lemma keeps_ok: "keeps sc sc' \<Longrightarrow> coordinator_ok sc'"
  by (simp add: keeps_def)

lemma resumeAndReopen_keeps:
  assumes "coordinator_core sc" "sc_current sc = Some e"
  shows "keeps sc (snd (resumeAndReopen e resumes sc))"
  using resumeAndReopen_succeeds [OF assms] resumeAndReopen_fails [OF assms]
  by (cases resumes) (auto simp: keeps_def scheduler_ok_def same_lifecycle_def)

lemma current_entry_keeps:
  assumes "coordinator_ok sc"
  shows "keeps sc (snd (current_entry now resumes sc))"
    and "sc_current (snd (current_entry now resumes sc)) = fst (current_entry now resumes sc)"
proof -
  from assms have core: "coordinator_core sc" by (simp add: coordinator_ok_def)
  show "keeps sc (snd (current_entry now resumes sc))"
    using assms resumeAndReopen_keeps [OF core]
    by (auto simp: current_entry_def normalizeExpiredHeldSuspension_def Let_def split: option.split)
  show "sc_current (snd (current_entry now resumes sc)) = fst (current_entry now resumes sc)"
    by (auto simp: current_entry_def normalizeExpiredHeldSuspension_def Let_def split: option.split)
qed

section \<open>Held entries\<close>

lemma renew_keeps:
  assumes ok: "coordinator_ok sc" and cur: "sc_current sc = Some e" and held: "ce_kind (entry_at sc e) = Held held"
  shows "keeps sc (snd (renewHeldSuspension e held now sc))"
    "sc_current (snd (renewHeldSuspension e held now sc)) = Some e"
    "ce_kind (entry_at (snd (renewHeldSuspension e held now sc)) e) = Held (fst (renewHeldSuspension e held now sc))"
proof -
  from ok have core: "coordinator_core sc" by (simp add: coordinator_ok_def)
  note holds = current_holds [OF core cur]
  let ?h = "held\<lparr>hs_expiresAtMs := now + GATEWAY_SUSPEND_TTL_MS\<rparr>"
  let ?sc = "update_held e ?h sc"
  have core': "coordinator_core ?sc"
    unfolding update_held_def using core holds held
    by (intro core_set_entry) (auto simp: entry_holds_def phase_matches_def held_of_def)
  have eq: "renewHeldSuspension e held now sc = (?h, scheduleEntry e GATEWAY_SUSPEND_TTL_MS ?sc)"
    by (simp add: renewHeldSuspension_def Let_def)
  have len: "e < length (sc_entries ?sc)" using holds(1) by (simp add: update_held_def)
  show "sc_current (snd (renewHeldSuspension e held now sc)) = Some e"
    "ce_kind (entry_at (snd (renewHeldSuspension e held now sc)) e) = Held (fst (renewHeldSuspension e held now sc))"
    using cur holds(1) by (simp_all add: eq update_held_def scheduleEntry_def)
  show "keeps sc (snd (renewHeldSuspension e held now sc))"
    using core_timer(2) [OF core' len] schedule_armed [OF len] cur
    by (simp add: eq keeps_def coordinator_ok_def timer_armed_def scheduler_ok_def same_lifecycle_def
        scheduleEntry_def update_held_def)
qed

text \<open>The commit of a drained suspension cannot fail: the entry holds the lease.\<close>

lemma refresh_keeps:
  assumes ok: "coordinator_ok sc" and cur: "sc_current sc = Some e" and held: "ce_kind (entry_at sc e) = Held held"
  shows "keeps sc (snd (refreshHeldSuspension e held inspect sc))"
    "\<And>m. fst (refreshHeldSuspension e held inspect sc) \<noteq> Inl (Suspend_Error m)"
proof -
  from ok have core: "coordinator_core sc" by (simp add: coordinator_ok_def)
  note holds = current_holds [OF core cur]
  have keeps_update: "keeps sc (update_held e h' sc')"
    if "h' = held\<lparr>hs_phase := ph\<rparr>" "sc' = sc\<lparr>sc_admission := st\<rparr>" "fences_ok st"
      "ga_suspendInvalidated st = ga_suspendInvalidated (sc_admission sc)"
      "ga_suspendGeneration st = ga_suspendGeneration (sc_admission sc)"
      "ga_restartDraining st = ga_restartDraining (sc_admission sc)"
      "phase_matches (Held h') (ga_suspendPhase st)" for h' sc' ph st
  proof -
    have "ga_suspendPhase st \<in> lease_from Lease_Release"
      using that(7) by (auto simp: phase_matches_def split: held_phase.splits)
    with that holds held core have core': "coordinator_core (update_held e h' sc')"
      unfolding that(2) update_held_def coordinator_core_def
      by (auto simp: entry_holds_def phase_matches_def held_of_def cur)
    have "timer_armed (update_held e h' sc')"
      using ok cur holds(1) that(2) by (simp add: coordinator_ok_def timer_armed_def update_held_def armed_def)
    with core' that(2,6) cur show ?thesis
      by (simp add: keeps_def coordinator_ok_def scheduler_ok_def same_lifecycle_def update_held_def)
  qed
  show "keeps sc (snd (refreshHeldSuspension e held inspect sc))"
    "\<And>m. fst (refreshHeldSuspension e held inspect sc) \<noteq> Inl (Suspend_Error m)"
  proof (atomize (full), cases "hs_phase held")
    case (Held_Ready s)
    then show "keeps sc (snd (refreshHeldSuspension e held inspect sc)) \<and>
      (\<forall>m. fst (refreshHeldSuspension e held inspect sc) \<noteq> Inl (Suspend_Error m))"
      using ok by (simp add: refreshHeldSuspension_def)
  next
    case (Held_Draining s)
    with holds(2) held have draining: "ga_suspendPhase (sc_admission sc) = Draining"
      by (simp add: entry_holds_def phase_matches_def)
    with holds(2) have applies: "lease_applies Lease_Commit (ce_lease (entry_at sc e)) (sc_admission sc)"
      by (simp add: lease_applies_def entry_holds_def)
    let ?st = "snd (suspend_lease Lease_Commit (ce_lease (entry_at sc e)) (sc_admission sc))"
    have committed: "keeps sc (update_held e (held\<lparr>hs_phase := Held_Ready snap\<rparr>) (sc\<lparr>sc_admission := ?st\<rparr>))" for snap
      using core applies by (intro keeps_update [OF refl refl])
        (simp_all add: coordinator_core_def fences_ok_lease phase_matches_def)
    have waiting: "keeps sc (update_held e (held\<lparr>hs_phase := Held_Draining snap\<rparr>) (sc\<lparr>sc_admission := sc_admission sc\<rparr>))" for snap
      using core draining by (intro keeps_update [OF refl refl]) (simp_all add: coordinator_core_def phase_matches_def)
    show "keeps sc (snd (refreshHeldSuspension e held inspect sc)) \<and>
      (\<forall>m. fst (refreshHeldSuspension e held inspect sc) \<noteq> Inl (Suspend_Error m))"
      using Held_Draining ok committed waiting lease_op_applies [OF applies]
      by (simp add: refreshHeldSuspension_def split: option.split)
  qed
qed

section \<open>Prepare\<close>

text \<open>Between the lease and the entry: the lease is held, and no entry is current.\<close>

definition in_flight :: "nat \<Rightarrow> nat \<Rightarrow> SuspendCoordinator \<Rightarrow> bool" where
  "in_flight owner g sc \<longleftrightarrow>
     fences_ok (sc_admission sc) \<and> sc_current sc = None \<and>
     ga_suspendInvalidated (sc_admission sc) = Some (Coordinator_Invalidated owner) \<and>
     ga_suspendGeneration (sc_admission sc) = g \<and> ga_suspendPhase (sc_admission sc) = Preparing \<and>
     owner < sc_nextOwner sc \<and> owner \<notin> set (sc_invalidated sc) \<and>
     (\<forall>e. sc_retiredForLifecycleReset sc = Some e \<longrightarrow> e < length (sc_entries sc)) \<and>
     (\<forall>owner \<in> set (sc_invalidated sc). owner < sc_nextOwner sc)"

lemma in_flight_frame [simp]:
  "in_flight owner g (set_scheduler b sc) = in_flight owner g sc" "in_flight owner g (warn m sc) = in_flight owner g sc"
  by (simp_all add: in_flight_def)

lemma in_flight_applies:
  assumes "in_flight owner g sc" "Preparing \<in> lease_from oper"
  shows "lease_applies oper g (sc_admission sc)"
  using assms by (simp add: in_flight_def lease_applies_def)

lemma rollback_in_flight:
  assumes "in_flight owner g sc"
  shows "coordinator_ok (snd (lease_op Lease_Rollback g sc))"
    "same_lifecycle sc (snd (lease_op Lease_Rollback g sc))"
  using assms in_flight_applies [OF assms, of Lease_Rollback]
  by (auto intro!: core_without_current simp: in_flight_def fences_ok_lease same_lifecycle_def)

lemma before_reopen_all:
  assumes flight: "in_flight owner g sc"
  shows "let r = resumeSchedulingBeforeReopen owner g Lease_Rollback resumes sc
    in fst r = resumes \<and> coordinator_ok (snd r) \<and> same_lifecycle sc (snd r) \<and> scheduler_ok (snd r)"
proof -
  let ?w = "warn ''gateway scheduler resume failed during suspension rollback: '' sc"
  let ?n = "new_coordinator_entry owner g Lease_Rollback Recovering ?w"
  have owner: "owner \<notin> set (sc_invalidated sc)" using flight by (simp add: in_flight_def)
  show ?thesis
  proof (cases resumes)
    case True
    then show ?thesis
      using owner rollback_in_flight [of owner g "set_scheduler False sc"] flight
      by (simp add: resumeSchedulingBeforeReopen_def scheduler_ok_def same_lifecycle_def Let_def)
  next
    case False
    let ?e = "length (sc_entries sc)"
    let ?sc = "(snd ?n)\<lparr>sc_current := Some ?e\<rparr>"
    have eq: "resumeSchedulingBeforeReopen owner g Lease_Rollback resumes sc = (False, scheduleRecoveryRetry ?e ?sc)"
      using False owner by (simp add: resumeSchedulingBeforeReopen_def armSchedulerRecovery_def Let_def
          new_coordinator_entry_def scheduleRecoveryRetry_def scheduleEntry_def set_entry_def entry_at_def)
    have entry: "entry_at ?sc ?e = \<lparr>ce_owner = owner, ce_lease = g, ce_reopen = Lease_Rollback, ce_timer = None,
        ce_timerGeneration = 0, ce_kind = Recovering\<rparr>"
      by (simp add: new_coordinator_entry_def entry_at_def)
    have core: "coordinator_core ?sc"
      using flight entry
      by (auto simp: in_flight_def coordinator_core_def entry_holds_def phase_matches_def held_of_def
          new_coordinator_entry_def)
    have "?e < length (sc_entries ?sc)" by (simp add: new_coordinator_entry_def)
    from core_timer(2) [OF core this] schedule_armed [OF this]
    show ?thesis
      unfolding eq using False by (simp add: Let_def coordinator_ok_def timer_armed_def same_lifecycle_def scheduler_ok_def
          scheduleRecoveryRetry_def scheduleEntry_def new_coordinator_entry_def)
  qed
qed

lemma before_reopen_ok:
  assumes "in_flight owner g sc"
  shows "coordinator_ok (snd (resumeSchedulingBeforeReopen owner g Lease_Rollback resumes sc))"
    "same_lifecycle sc (snd (resumeSchedulingBeforeReopen owner g Lease_Rollback resumes sc))"
    "scheduler_ok (snd (resumeSchedulingBeforeReopen owner g Lease_Rollback resumes sc))"
    "fst (resumeSchedulingBeforeReopen owner g Lease_Rollback resumes sc) = resumes"
  using before_reopen_all [OF assms, of resumes] by (simp_all add: Let_def)

lemma prepare_failed_ok:
  assumes "in_flight owner g sc"
  shows "coordinator_ok (snd (prepare_failed owner g paused err cb sc))"
    "same_lifecycle sc (snd (prepare_failed owner g paused err cb sc))"
    "paused \<or> scheduler_ok sc \<Longrightarrow> scheduler_ok (snd (prepare_failed owner g paused err cb sc))"
    "fst (prepare_failed owner g paused err cb sc) = Inl err' \<Longrightarrow> err' = err"
  using before_reopen_ok [OF assms, of "cb_resumes cb"] rollback_in_flight [OF assms] assms
  by (cases paused; cases "cb_resumes cb"; simp add: prepare_failed_def case_prod_beta scheduler_ok_def [of "snd (lease_op _ _ _)"]
      scheduler_ok_def [of sc] in_flight_def split: if_splits)+

lemma arm_expiry_ok:
  assumes flight: "in_flight owner g sc0" and sc: "sc = snd (lease_op (if as_idle snap then Lease_Commit else Lease_Drain) g sc0)"
    and held: "hs_phase held = (if as_idle snap then Held_Ready snap else Held_Draining snap)"
  shows "coordinator_ok ((snd (armExpiry owner g held sc))\<lparr>sc_current := Some (fst (armExpiry owner g held sc))\<rparr>)"
    "same_lifecycle sc0 ((snd (armExpiry owner g held sc))\<lparr>sc_current := Some (fst (armExpiry owner g held sc))\<rparr>)"
proof -
  let ?e = "length (sc_entries sc)"
  let ?sc = "(snd (new_coordinator_entry owner g Lease_Release (Held held) sc))\<lparr>sc_current := Some ?e\<rparr>"
  let ?oper = "if as_idle snap then Lease_Commit else Lease_Drain"
  have eq: "(snd (armExpiry owner g held sc))\<lparr>sc_current := Some (fst (armExpiry owner g held sc))\<rparr> =
      scheduleEntry ?e GATEWAY_SUSPEND_TTL_MS ?sc"
    by (simp add: armExpiry_def new_coordinator_entry_def scheduleEntry_def set_entry_def entry_at_def)
  have applies: "lease_applies ?oper g (sc_admission sc0)"
    by (rule in_flight_applies [OF flight]) simp
  have entry: "entry_at ?sc ?e = \<lparr>ce_owner = owner, ce_lease = g, ce_reopen = Lease_Release, ce_timer = None,
      ce_timerGeneration = 0, ce_kind = Held held\<rparr>"
    by (simp add: new_coordinator_entry_def entry_at_def)
  have len: "?e < length (sc_entries ?sc)" by (simp add: new_coordinator_entry_def)
  have core: "coordinator_core ?sc"
    using flight applies entry held
    by (auto simp: sc in_flight_def coordinator_core_def entry_holds_def phase_matches_def held_of_def
        new_coordinator_entry_def fences_ok_lease)
  from core_timer(2) [OF core len] schedule_armed [OF len]
  show "coordinator_ok ((snd (armExpiry owner g held sc))\<lparr>sc_current := Some (fst (armExpiry owner g held sc))\<rparr>)"
    unfolding eq by (simp add: coordinator_ok_def timer_armed_def scheduleEntry_def new_coordinator_entry_def)
  show "same_lifecycle sc0 ((snd (armExpiry owner g held sc))\<lparr>sc_current := Some (fst (armExpiry owner g held sc))\<rparr>)"
    unfolding eq by (simp add: same_lifecycle_def sc scheduleEntry_def new_coordinator_entry_def)
qed

definition prepare_ok ::
  "bool \<Rightarrow> SuspendCoordinator \<Rightarrow> (suspend_error + suspend_result) \<times> SuspendCoordinator \<Rightarrow> bool" where
  "prepare_ok b sc r \<longleftrightarrow> coordinator_ok (snd r) \<and> same_lifecycle sc (snd r) \<and> (b \<longrightarrow> scheduler_ok (snd r)) \<and>
     (\<forall>m. fst r \<noteq> Inl (Suspend_Error m))"

lemma prepare_failed_prepare_ok:
  assumes "in_flight owner g sc" "paused \<or> (b \<longrightarrow> scheduler_ok sc)" "\<forall>m. err \<noteq> Suspend_Error m"
  shows "prepare_ok b sc (prepare_failed owner g paused err cb sc)"
  using assms(2,3) prepare_failed_ok(1-3) [OF assms(1), of paused err cb] prepare_failed_ok(4) [OF assms(1)]
  unfolding prepare_ok_def by blast

lemma prepare_under_lease_ok:
  assumes flight: "in_flight owner g sc" and sched: "b \<longrightarrow> scheduler_ok sc"
  shows "prepare_ok b sc (prepare_under_lease owner g params pol drain cb sc)"
proof (cases "cb_pauses cb")
  case False
  then show ?thesis
    using prepare_failed_prepare_ok [OF flight, of False b Callback_Failed] sched
    by (simp add: prepare_under_lease_def)
next
  case True
  let ?sc = "set_scheduler True sc"
  have f: "in_flight owner g ?sc" using flight by simp
  have same: "same_lifecycle ?sc = same_lifecycle sc" by (simp add: fun_eq_iff same_lifecycle_def)
  show ?thesis
  proof (cases "cb_inspect cb (pol = Terminate)")
    case None
    then show ?thesis
      using True prepare_failed_prepare_ok [OF f, of True b Callback_Failed cb]
      by (simp add: prepare_under_lease_def prepare_ok_def same)
  next
    case (Some snap)
    show ?thesis
    proof (cases "\<not> as_idle snap \<and> \<not> drain")
      case busy: True
      then show ?thesis
        using True Some before_reopen_ok [OF f, of "cb_resumes cb"]
        by (cases "cb_resumes cb")
           (simp_all add: prepare_under_lease_def prepare_ok_def same case_prod_beta)
    next
      case False
      let ?oper = "if as_idle snap then Lease_Commit else Lease_Drain"
      have applies: "lease_applies ?oper g (sc_admission ?sc)"
        by (rule in_flight_applies [OF f]) simp
      obtain sc' where moved: "lease_op ?oper g ?sc = (True, sc')" and sc': "sc' = snd (lease_op ?oper g ?sc)"
        using lease_op_applies [OF applies] by simp
      let ?held = "\<lparr>hs_requestId = sp_requestId params, hs_terminalPolicy = pol, hs_drain = drain,
        hs_suspensionId = cb_suspensionId cb, hs_expiresAtMs = cb_nowMs cb + GATEWAY_SUSPEND_TTL_MS,
        hs_phase = (if as_idle snap then Held_Ready snap else Held_Draining snap)\<rparr>"
      let ?r = "armExpiry owner g ?held sc'"
      have eq: "prepare_under_lease owner g params pol drain cb sc =
          (Inr (heldPrepareResult ?held (hs_phase ?held)), (snd ?r)\<lparr>sc_current := Some (fst ?r)\<rparr>)"
        unfolding prepare_under_lease_def using True Some False moved
        by (cases "as_idle snap") (simp_all add: case_prod_beta Let_def)
      show ?thesis
        unfolding eq prepare_ok_def
        using arm_expiry_ok [OF f sc', of ?held] by (simp add: same scheduler_ok_def)
    qed
  qed
qed

lemma begin_in_flight:
  assumes ok: "coordinator_ok sc" and cur: "sc_current sc = None"
    and lease: "tryBeginGatewaySuspendAdmission (Coordinator_Invalidated (sc_nextOwner sc)) (sc_admission sc) = (Some g, st)"
  shows "in_flight (sc_nextOwner sc) g (sc\<lparr>sc_nextOwner := sc_nextOwner sc + 1, sc_admission := st\<rparr>)"
proof -
  have st: "st = snd (tryBeginGatewaySuspendAdmission (Coordinator_Invalidated (sc_nextOwner sc)) (sc_admission sc))"
    using lease by simp
  have opened: "\<not> isGatewayWorkAdmissionClosed (sc_admission sc)" "g = ga_suspendGeneration (sc_admission sc) + 1"
    using lease by (auto simp: tryBeginGatewaySuspendAdmission_def isGatewayWorkAdmissionClosed_def Let_def split: if_splits)
  have "fences_ok st"
    unfolding st using fences_ok_event [of "sc_admission sc" "Suspend_Begin (Coordinator_Invalidated (sc_nextOwner sc))"] ok
    by (simp add: coordinator_ok_def coordinator_core_def)
  with ok cur opened show ?thesis
    by (auto simp: in_flight_def st coordinator_ok_def coordinator_core_def less_Suc_eq)
qed

lemma prepare_fresh_ok:
  assumes ok: "coordinator_ok sc" and cur: "sc_current sc = None" and sched: "b \<longrightarrow> scheduler_ok sc"
  shows "prepare_ok b sc (prepare_fresh params pol drain cb sc)"
proof -
  let ?t = "tryBeginGatewaySuspendAdmission (Coordinator_Invalidated (sc_nextOwner sc)) (sc_admission sc)"
  let ?sc = "sc\<lparr>sc_nextOwner := sc_nextOwner sc + 1, sc_admission := snd ?t\<rparr>"
  have same: "same_lifecycle ?sc = same_lifecycle sc" by (simp add: fun_eq_iff same_lifecycle_def)
  show ?thesis
  proof (cases "fst ?t")
    case None
    then have "snd ?t = sc_admission sc"
      by (auto simp: tryBeginGatewaySuspendAdmission_def Let_def split: if_splits)
    with ok cur have "coordinator_ok ?sc" "same_lifecycle sc ?sc"
      by (auto simp: coordinator_ok_def coordinator_core_def timer_armed_def same_lifecycle_def less_Suc_eq)
    with None sched show ?thesis
      by (auto simp: prepare_fresh_def prepare_ok_def Let_def case_prod_beta scheduler_ok_def split: option.split)
  next
    case (Some g)
    then have "?t = (Some g, snd ?t)" by (metis prod.collapse)
    from begin_in_flight [OF ok cur this] have "in_flight (sc_nextOwner sc) g ?sc" .
    moreover have "b \<longrightarrow> scheduler_ok ?sc" using sched by (simp add: scheduler_ok_def)
    ultimately have "prepare_ok b ?sc (prepare_under_lease (sc_nextOwner sc) g params pol drain cb ?sc)"
      by (rule prepare_under_lease_ok)
    with Some show ?thesis
      by (simp add: prepare_fresh_def Let_def case_prod_beta prepare_ok_def same_lifecycle_def)
  qed
qed

end
