(* ===== verification/Gateway_Suspend_System.thy ===== *)
theory Gateway_Suspend_System
  imports Gateway_Suspend_Laws
begin

text \<open>
  Whole operations of the coordinator, the events of the other users of the admission with the
  invalidations they deliver, and the restart of a lifecycle: each keeps the agreement, the account
  of the scheduler, and the order of retired entries and restart drains.
\<close>

section \<open>Prepare, status and resume keep the agreement\<close>

lemma held_of_Some: "held_of x = Some h \<longleftrightarrow> ce_kind x = Held h"
  by (simp add: held_of_def split: coordinator_kind.split)

lemma prepare_ok_trans: "keeps a c \<Longrightarrow> prepare_ok b c r \<Longrightarrow> prepare_ok b a r"
  by (auto simp: keeps_def prepare_ok_def same_lifecycle_def)

lemma keeps_prepare_ok:
  "keeps sc (snd r) \<Longrightarrow> b \<longrightarrow> scheduler_ok sc \<Longrightarrow> \<forall>m. fst r \<noteq> Inl (Suspend_Error m) \<Longrightarrow> prepare_ok b sc r"
  by (simp add: keeps_def prepare_ok_def)

lemma renew_refresh_keeps:
  fixes now :: int
  assumes "coordinator_ok sc" "sc_current sc = Some e" "ce_kind (entry_at sc e) = Held held"
  defines "r \<equiv> renewHeldSuspension e held now sc"
  shows "keeps sc (snd (refreshHeldSuspension e (fst r) inspect (snd r)))"
    "\<And>m. fst (refreshHeldSuspension e (fst r) inspect (snd r)) \<noteq> Inl (Suspend_Error m)"
proof -
  note renewed = renew_keeps [OF assms(1-3), of now, folded r_def]
  note refreshed = refresh_keeps [OF keeps_ok [OF renewed(1)] renewed(2,3)]
  show "keeps sc (snd (refreshHeldSuspension e (fst r) inspect (snd r)))"
    by (rule keeps_trans [OF renewed(1) refreshed(1)])
  show "fst (refreshHeldSuspension e (fst r) inspect (snd r)) \<noteq> Inl (Suspend_Error m)" for m
    by (rule refreshed(2))
qed

lemma prepare_keeps:
  assumes ok: "coordinator_ok sc"
  shows "prepare_ok (scheduler_ok sc) sc (prepareGatewaySuspend params cb sc)"
proof -
  let ?c = "current_entry (cb_heldNowMs cb) (cb_heldResumes cb) sc"
  let ?sc = "snd ?c"
  let ?pol = "case sp_terminalPolicy params of Some p \<Rightarrow> p | None \<Rightarrow> Preserve"
  let ?drain = "sp_drain params = Some True"
  note first = current_entry_keeps [OF ok, of "cb_heldNowMs cb" "cb_heldResumes cb"]
  from first(1) have ok': "coordinator_ok ?sc" and sched': "scheduler_ok sc \<longrightarrow> scheduler_ok ?sc"
    by (simp_all add: keeps_def)
  show ?thesis
  proof (rule prepare_ok_trans [OF first(1)])
    show "prepare_ok (scheduler_ok sc) ?sc (prepareGatewaySuspend params cb sc)"
    proof (cases "fst ?c")
      case None
      with prepare_fresh_ok [OF ok' _ sched', of params ?pol ?drain cb] first(2) show ?thesis
        by (simp add: prepareGatewaySuspend_def case_prod_beta Let_def)
    next
      case (Some e)
      with first(2) have cur: "sc_current ?sc = Some e" by simp
      have stay: "prepare_ok (scheduler_ok sc) ?sc (Inr res, ?sc)" for res
        using ok' sched' by (simp add: prepare_ok_def same_lifecycle_def)
      show ?thesis
      proof (cases "held_of (entry_at ?sc e)")
        case None
        with Some stay show ?thesis by (simp add: prepareGatewaySuspend_def case_prod_beta Let_def)
      next
        case (Some held)
        then have "ce_kind (entry_at ?sc e) = Held held" by (simp add: held_of_Some)
        note both = renew_refresh_keeps [OF ok' cur this, of "cb_nowMs cb" "cb_inspect cb"]
        show ?thesis
          using \<open>fst ?c = Some e\<close> Some stay both sched'
          by (simp add: prepareGatewaySuspend_def case_prod_beta Let_def)
             (auto intro!: keeps_prepare_ok split: sum.splits)
      qed
    qed
  qed
qed

lemma status_keeps:
  assumes ok: "coordinator_ok sc"
  shows "keeps sc (snd (getGatewaySuspendStatus i cb sc))"
    "\<And>m. fst (getGatewaySuspendStatus i cb sc) \<noteq> Inl (Suspend_Error m)"
proof -
  let ?c = "current_entry (cb_heldNowMs cb) (cb_heldResumes cb) sc"
  let ?sc = "snd ?c"
  note first = current_entry_keeps [OF ok, of "cb_heldNowMs cb" "cb_heldResumes cb"]
  note refreshed = refresh_keeps [OF keeps_ok [OF first(1)]]
  have "keeps sc (snd (getGatewaySuspendStatus i cb sc)) \<and>
      (\<forall>m. fst (getGatewaySuspendStatus i cb sc) \<noteq> Inl (Suspend_Error m))"
  proof (cases "fst ?c")
    case None
    with first(1) show ?thesis by (simp add: getGatewaySuspendStatus_def case_prod_beta Let_def)
  next
    case (Some e)
    with first(2) have cur: "sc_current ?sc = Some e" by simp
    show ?thesis
    proof (cases "held_of (entry_at ?sc e)")
      case None
      with Some first(1) show ?thesis by (simp add: getGatewaySuspendStatus_def case_prod_beta Let_def)
    next
      case (Some held)
      then have "ce_kind (entry_at ?sc e) = Held held" by (simp add: held_of_Some)
      note r = refreshed [OF cur this, of "cb_inspect cb"]
      from keeps_trans [OF first(1) r(1)] r(2) \<open>fst ?c = Some e\<close> Some first(1) show ?thesis
        by (auto simp: getGatewaySuspendStatus_def case_prod_beta Let_def split: sum.split held_phase.split)
    qed
  qed
  then show "keeps sc (snd (getGatewaySuspendStatus i cb sc))"
    "\<And>m. fst (getGatewaySuspendStatus i cb sc) \<noteq> Inl (Suspend_Error m)" by simp_all
qed

lemma resume_keeps:
  assumes ok: "coordinator_ok sc"
  shows "keeps sc (snd (resumeGatewaySuspend i cb sc))"
proof -
  let ?c = "current_entry (cb_heldNowMs cb) (cb_heldResumes cb) sc"
  note first = current_entry_keeps [OF ok, of "cb_heldNowMs cb" "cb_heldResumes cb"]
  have core: "coordinator_core (snd ?c)" using keeps_ok [OF first(1)] by (simp add: coordinator_ok_def)
  have "keeps sc (snd (resumeAndReopen e (cb_heldResumes cb) (snd ?c)))" if "fst ?c = Some e" for e
    using that first(2) by (intro keeps_trans [OF first(1) resumeAndReopen_keeps [OF core]]) simp
  with first(1) show ?thesis
    by (simp add: resumeGatewaySuspend_def case_prod_beta Let_def split: option.split)
qed

lemma fire_timer_keeps:
  assumes ok: "coordinator_ok sc" and e: "e < length (sc_entries sc)"
  shows "keeps sc (fire_timer e resumes sc)"
proof (cases "ce_timer (entry_at sc e)")
  case None
  with ok show ?thesis by (simp add: fire_timer_def)
next
  case (Some t)
  let ?sc = "set_entry e ((entry_at sc e)\<lparr>ce_timer := None\<rparr>) sc"
  from ok have core: "coordinator_core ?sc" by (simp add: coordinator_ok_def core_timer(3) e)
  have same: "same_lifecycle sc ?sc" "scheduler_ok sc \<longrightarrow> scheduler_ok ?sc"
    by (simp_all add: same_lifecycle_def scheduler_ok_def)
  show ?thesis
  proof (cases "ce_timerGeneration (entry_at sc e) = fst t \<and> sc_current sc = Some e")
    case True
    then have cur: "sc_current ?sc = Some e" by simp
    from resumeAndReopen_keeps [OF core cur, of resumes] same True Some e show ?thesis
      by (auto simp: fire_timer_def keeps_def same_lifecycle_def Let_def split: prod.split)
  next
    case False
    have "timer_armed ?sc"
    proof (cases "sc_current sc = Some e")
      case True
      with ok Some False show ?thesis
        by (auto simp: coordinator_ok_def timer_armed_def armed_def)
    next
      case other: False
      then show ?thesis
        using ok by (auto simp: coordinator_ok_def timer_armed_def entry_at_def set_entry_def)
    qed
    with core same False Some e show ?thesis
      by (auto simp: fire_timer_def keeps_def coordinator_ok_def Let_def split: prod.split)
  qed
qed

section \<open>The other users of the admission\<close>

definition invoked :: "admission_effect list \<Rightarrow> nat list" where
  "invoked xs = concat (map (\<lambda>x. case x of Invoke (Coordinator_Invalidated owner) \<Rightarrow> [owner] | _ \<Rightarrow> []) xs)"

lemma invoked_simps [simp]:
  "invoked [] = []" "invoked (xs @ ys) = invoked xs @ invoked ys" "invoked (Log_Info m # xs) = invoked xs"
  "invoked (Invoke (Coordinator_Invalidated owner) # xs) = owner # invoked xs"
  "invoked (Invoke (Thaw_Restart_Invalidated k) # xs) = invoked xs"
  "invoked (map (\<lambda>l. Notify l p) ls) = []"
  by (induction ls) (simp_all add: invoked_def)

lemma deliver_invoked:
  "foldl (\<lambda>s x. deliver_effect x s) sc xs = foldl (\<lambda>s owner. invalidate_owner owner s) sc (invoked xs)"
  by (induction xs arbitrary: sc)
     (auto simp: invoked_def deliver_effect_def split: admission_effect.split suspend_callback.split)

definition quiet :: "GatewayWorkAdmissionState \<Rightarrow> GatewayWorkAdmissionState \<Rightarrow> bool" where
  "quiet st st' \<longleftrightarrow> (\<exists>xs. ga_effects st' = ga_effects st @ xs \<and> invoked xs = [])"

lemma quiet_same: "ga_effects st' = ga_effects st \<Longrightarrow> quiet st st'"
  by (simp add: quiet_def)

lemma run_admission_quiet:
  assumes "quiet (sc_admission sc) (f (sc_admission sc))"
  shows "run_admission f sc = sc\<lparr>sc_admission := f (sc_admission sc)\<rparr>"
  using assms by (auto simp: quiet_def run_admission_def deliver_invoked Let_def)

lemma create_effects [simp]: "ga_effects (snd (create_lease origin st)) = ga_effects st"
  by (simp add: root_unfold Let_def)

lemma settle_or_wait_effects [simp]: "ga_effects (settle_or_wait call w attempt) = ga_effects (snd attempt)"
  by (simp add: settle_or_wait_def settle_call_def await_open_def split: option.split)

lemma try_effects [simp]:
  "ga_effects (snd (tryBeginGatewayRootWorkAdmission current origin st)) = ga_effects st"
  "ga_effects (snd (tryBeginGatewayRestartStartupRootWorkAdmission st)) = ga_effects st"
  "ga_effects (snd (tryBeginGatewayPreparedRestartRootWorkAdmission st)) = ga_effects st"
  "ga_effects (snd (tryBeginGatewayIndependentRootWorkAdmission origin st)) = ga_effects st"
  by (simp_all add: tryBeginGatewayRootWorkAdmission_def tryBeginGatewayRestartStartupRootWorkAdmission_def
      tryBeginGatewayPreparedRestartRootWorkAdmission_def tryBeginGatewayIndependentRootWorkAdmission_def)

lemma iterate_effects [simp]: "ga_effects (iterate_call call w st) = ga_effects st"
  by (cases w) (simp_all add: settle_call_def await_open_def waitForGatewayRestartFenceSettlement_def
      beginGatewayRootWorkAdmissionWhenOpen_def runWithGatewayIndependentRootWorkAdmission_def)

lemma call_effects [simp]:
  "ga_effects (start_call w st) = ga_effects st" "ga_effects (resume_call st) = ga_effects st"
  by (simp_all add: start_call_def resume_call_def split: list.split)

lemma handle_effects [simp]:
  "ga_effects (release_handle h st) = ga_effects st" "ga_effects (snd (scope_run c st)) = ga_effects st"
  "ga_effects (scope_release c st) = ga_effects st"
  "ga_effects (snd (createGatewayRootWorkAdmissionContinuationScope retain current st)) = ga_effects st"
  by (simp_all add: release_handle_def scope_run_def scope_release_def set_root_def createGatewayRootWorkRelease_def
      createGatewayRootWorkAdmissionContinuationScope_def Let_def split: option.split)

definition invalidating :: "admission_event \<Rightarrow> GatewayWorkAdmissionState \<Rightarrow> bool" where
  "invalidating e st \<longleftrightarrow> ga_suspendPhase st \<noteq> Accepting \<and>
     (e = Mark_Restart_Draining \<and> \<not> ga_restartDraining st \<or> e = Reset_Admission)"

lemma other_events_quiet: "\<not> fence_event e \<Longrightarrow> quiet st (apply_event e st)"
  by (rule quiet_same, cases e) (auto simp: fence_event_def onGatewaySuspendAdmissionChange_def unsubscribe_listener_def
      runWithGatewayIndependentRootWorkContinuation_def split: option.split)

lemma fence_events_quiet:
  assumes "fence_event e" "\<not> invalidating e st"
  shows "quiet st (apply_event e st)"
proof (cases e)
  case Mark_Restart_Draining
  with assms show ?thesis
    by (auto simp: quiet_def invalidating_def markGatewayRestartDraining_def abort_controller_def
        resolveSuspendOpenWaiters_def logAdmissionClosed_def emit_def Let_def)
next
  case (Suspend_Lease oper g)
  then show ?thesis
    by (auto simp: quiet_def suspend_lease_eq suspend_transition_def logAdmissionReopened_def emit_def
        resolveSuspendOpenWaiters_def notify_eq Let_def)
next
  case (Suspend_Begin cb)
  then show ?thesis
    by (auto simp: quiet_def tryBeginGatewaySuspendAdmission_def logAdmissionClosed_def emit_def notify_eq Let_def)
next
  case Reset_Admission
  with assms show ?thesis
    by (auto simp: quiet_def invalidating_def resetGatewayWorkAdmission_def retire_eq abort_controller_def
        resolveSuspendOpenWaiters_def Let_def)
qed (use assms in \<open>auto simp: fence_event_def quiet_def beginGatewayRestartSignalAdmission_def rollback_eq
    rollbackGatewayRestartSignalFence_def clearRestartSignalFence_def logAdmissionClosed_def
    logAdmissionReopened_def resolveSuspendOpenWaiters_def emit_def Let_def\<close>)

lemma invalidate_invokes:
  assumes "ga_suspendInvalidated st = Some cb"
  shows "\<exists>xs. ga_effects (invalidateSuspendAdmission st) = ga_effects st @ xs \<and> invoked xs = invoked [Invoke cb]"
  using assms by (cases cb) (simp_all add: invalidateSuspendAdmission_def resolveSuspendOpenWaiters_def emit_def
      logAdmissionReopened_def invoke_callback_def notify_eq Let_def)

lemma invalidating_invokes:
  assumes "invalidating e st" "ga_suspendInvalidated st = Some cb"
  shows "\<exists>xs. ga_effects (apply_event e st) = ga_effects st @ xs \<and> invoked xs = invoked [Invoke cb]"
proof (cases "e = Reset_Admission")
  case True
  let ?s = "abort_controller (ga_controller st) (GatewayDrainingError ''gateway runtime reset'') st"
  let ?r = "?s\<lparr>ga_roots := foldl (\<lambda>xs r. xs[r := retire_root (xs ! r)]) (ga_roots ?s) (ga_activeRootWork ?s),
      ga_activeRootWork := [], ga_restartDraining := False, ga_controller := ga_controller ?s + 1,
      ga_restartSignalPending := False, ga_restartSignalGeneration := ga_restartSignalGeneration ?s + 1\<rparr>"
  have fields: "ga_suspendInvalidated ?r = Some cb" "ga_effects ?r = ga_effects st" "ga_suspendPhase ?s \<noteq> Accepting"
    using assms by (simp_all add: abort_controller_def invalidating_def)
  have "ga_effects (apply_event e st) = ga_effects (invalidateSuspendAdmission ?r)"
    using True fields(3) by (simp add: resetGatewayWorkAdmission_def retire_eq resolveSuspendOpenWaiters_def Let_def)
  with invalidate_invokes [OF fields(1)] fields(2) show ?thesis by simp
next
  case False
  with assms(1) have mark: "e = Mark_Restart_Draining" "\<not> ga_restartDraining st" "ga_suspendPhase st \<noteq> Accepting"
    by (auto simp: invalidating_def)
  let ?r = "logAdmissionClosed ''restart drain'' (resolveSuspendOpenWaiters (abort_controller (ga_controller st)
      (GatewayDrainingError ''gateway is draining for restart'')
      (st\<lparr>ga_restartSignalPending := False, ga_restartSignalGeneration := ga_restartSignalGeneration st + 1,
          ga_restartDraining := True\<rparr>)))"
  have fields: "ga_suspendInvalidated ?r = Some cb" "ga_suspendPhase ?r \<noteq> Accepting"
    "\<exists>m. ga_effects ?r = ga_effects st @ [Log_Info m]"
    using assms(2) mark by (simp_all add: abort_controller_def resolveSuspendOpenWaiters_def logAdmissionClosed_def emit_def)
  have "apply_event e st = invalidateSuspendAdmission ?r"
    using mark fields(2) by (simp add: markGatewayRestartDraining_def)
  with invalidate_invokes [OF fields(1)] fields(3) show ?thesis by auto
qed

text \<open>What the others may do: a suspension of their own is another callback, and its lease is not the
  one the coordinator holds; the lifecycle is reset only by the restart below.\<close>

definition foreign_ok :: "admission_event \<Rightarrow> SuspendCoordinator \<Rightarrow> bool" where
  "foreign_ok e sc \<longleftrightarrow> event_ok e (sc_admission sc) \<and> (case e of
     Suspend_Begin (Coordinator_Invalidated _) \<Rightarrow> False
   | Suspend_Lease _ g \<Rightarrow> sc_current sc = None \<or> g \<noteq> ga_suspendGeneration (sc_admission sc)
   | Reset_Admission \<Rightarrow> False
   | _ \<Rightarrow> True)"

definition admission_event :: "admission_event \<Rightarrow> SuspendCoordinator \<Rightarrow> SuspendCoordinator" where
  "admission_event e = run_admission (apply_event e)"

definition lifecycle_ok :: "SuspendCoordinator \<Rightarrow> bool" where
  "lifecycle_ok sc \<longleftrightarrow> (sc_retiredForLifecycleReset sc \<noteq> None \<longrightarrow> ga_restartDraining (sc_admission sc))"

lemma core_admission:
  assumes ok: "coordinator_ok sc" and fences: "fences_ok st"
    and same: "ga_suspendInvalidated st = ga_suspendInvalidated (sc_admission sc)"
      "sc_current sc \<noteq> None \<longrightarrow> ga_suspendGeneration st = ga_suspendGeneration (sc_admission sc) \<and>
         ga_suspendPhase st = ga_suspendPhase (sc_admission sc)"
  shows "coordinator_ok (sc\<lparr>sc_admission := st\<rparr>)"
  using assms by (auto simp: coordinator_ok_def coordinator_core_def timer_armed_def entry_holds_def)

lemma core_no_current:
  assumes ok: "coordinator_ok sc" and cur: "sc_current sc = None" and fences: "fences_ok st"
    and cb: "\<forall>owner. ga_suspendInvalidated st \<noteq> Some (Coordinator_Invalidated owner)"
  shows "coordinator_ok (sc\<lparr>sc_admission := st\<rparr>)"
  using assms by (auto simp: coordinator_ok_def coordinator_core_def timer_armed_def)

lemma accepting_no_current:
  assumes "coordinator_core sc" "ga_suspendPhase (sc_admission sc) = Accepting"
  shows "sc_current sc = None"
  using assms by (cases "sc_current sc") (auto simp: coordinator_core_def entry_holds_def)

lemma quiet_event_ok:
  assumes ok: "coordinator_ok sc" and e: "foreign_ok e sc" "\<not> invalidating e (sc_admission sc)" "e \<noteq> Reset_Admission"
  shows "coordinator_ok (sc\<lparr>sc_admission := apply_event e (sc_admission sc)\<rparr>)"
proof -
  let ?st = "sc_admission sc"
  from ok have core: "coordinator_core sc" by (simp add: coordinator_ok_def)
  have fences: "fences_ok ?st" and fences': "fences_ok (apply_event e ?st)"
    using core fences_ok_event by (simp_all add: coordinator_core_def)
  show ?thesis
  proof (cases "fence_event e")
    case False
    from other_events_keep_fences [OF this, of ?st] show ?thesis
      by (intro core_admission [OF ok fences']) (simp_all add: same_fences_def)
  next
    case True
    show ?thesis
    proof (cases e)
      case (Suspend_Begin cb)
      then obtain k where cb: "cb = Thaw_Restart_Invalidated k"
        using e(1) by (cases cb) (auto simp: foreign_ok_def)
      show ?thesis
      proof (cases "isGatewayWorkAdmissionClosed ?st")
        case True
        with Suspend_Begin show ?thesis by (intro core_admission [OF ok fences']) simp_all
      next
        case False
        then have "sc_current sc = None"
          using accepting_no_current [OF core] by (simp add: isGatewayWorkAdmissionClosed_def)
        with False Suspend_Begin cb show ?thesis
          by (intro core_no_current [OF ok _ fences']) simp_all
      qed
    next
      case (Suspend_Lease oper g)
      show ?thesis
      proof (cases "lease_applies oper g ?st")
        case True
        with e(1) Suspend_Lease have cur: "sc_current sc = None"
          by (auto simp: foreign_ok_def lease_applies_def)
        with core True Suspend_Lease show ?thesis
          by (intro core_no_current [OF ok cur fences']) (simp add: coordinator_core_def)
      next
        case False
        with Suspend_Lease show ?thesis by (intro core_admission [OF ok fences']) simp_all
      qed
    next
      case Mark_Restart_Draining
      with e(2) fences show ?thesis
        by (intro core_admission [OF ok fences']) (auto simp: invalidating_def fences_ok_def)
    qed (use True e ok fences' in \<open>auto simp: fence_event_def rollback_eq
        rollbackGatewayRestartSignalFence_def intro!: core_admission\<close>)
  qed
qed

text \<open>An invalidated suspension of the coordinator is retired; the scheduler stays as it was.\<close>

lemma invalidate_retires:
  assumes ok: "coordinator_ok sc" and st: "fences_ok st" "ga_suspendInvalidated st = None"
    and cb: "ga_suspendInvalidated (sc_admission sc) = Some cb"
  defines "sc' \<equiv> foldl (\<lambda>s owner. invalidate_owner owner s) (sc\<lparr>sc_admission := st\<rparr>) (invoked [Invoke cb])"
  shows "coordinator_ok sc'" "sc_admission sc' = st" "sc_schedulerPaused sc' = sc_schedulerPaused sc"
    "sc_current sc' = None" "sc_retiredForLifecycleReset sc' =
       (if sc_current sc = None then sc_retiredForLifecycleReset sc else sc_current sc)"
proof -
  from ok have core: "coordinator_core sc" by (simp add: coordinator_ok_def)
  consider (none) "sc_current sc = None" "invoked [Invoke cb] = []"
    | (own) e where "sc_current sc = Some e" "invoked [Invoke cb] = [ce_owner (entry_at sc e)]" "e < length (sc_entries sc)"
      "ce_owner (entry_at sc e) < sc_nextOwner sc"
  proof (cases "sc_current sc")
    case None
    with core cb have "\<forall>owner. cb \<noteq> Coordinator_Invalidated owner" by (auto simp: coordinator_core_def)
    with None that(1) show ?thesis by (cases cb) auto
  next
    case (Some e)
    with core cb have "cb = Coordinator_Invalidated (ce_owner (entry_at sc e))" "e < length (sc_entries sc)"
      "ce_owner (entry_at sc e) < sc_nextOwner sc"
      by (auto simp: coordinator_core_def entry_holds_def)
    with Some that(2) show ?thesis by simp
  qed
  then have all: "coordinator_ok sc' \<and> sc_admission sc' = st \<and> sc_schedulerPaused sc' = sc_schedulerPaused sc \<and>
      sc_current sc' = None \<and> sc_retiredForLifecycleReset sc' =
       (if sc_current sc = None then sc_retiredForLifecycleReset sc else sc_current sc)"
  proof cases
    case none
    with core st have "coordinator_ok (sc\<lparr>sc_admission := st\<rparr>)"
      by (intro core_no_current [OF ok]) simp_all
    with none show ?thesis by (simp add: sc'_def)
  next
    case own
    then have eq: "sc' = (clearEntryTimer e (sc\<lparr>sc_admission := st,
        sc_invalidated := sc_invalidated sc @ [ce_owner (entry_at sc e)]\<rparr>))
        \<lparr>sc_current := None, sc_retiredForLifecycleReset := Some e\<rparr>"
      by (simp add: sc'_def invalidate_owner_def Let_def)
    have "coordinator_ok sc'"
      unfolding eq using core st own
      by (intro core_without_current) (auto simp: clearEntryTimer_def coordinator_core_def)
    with own show ?thesis by (simp add: eq clearEntryTimer_def)
  qed
  then show "coordinator_ok sc'" "sc_admission sc' = st" "sc_schedulerPaused sc' = sc_schedulerPaused sc"
    "sc_current sc' = None" "sc_retiredForLifecycleReset sc' =
       (if sc_current sc = None then sc_retiredForLifecycleReset sc else sc_current sc)"
    by simp_all
qed

lemma run_invalidating:
  assumes "invalidating e (sc_admission sc)" "ga_suspendInvalidated (sc_admission sc) = Some cb"
  shows "run_admission (apply_event e) sc =
    foldl (\<lambda>s owner. invalidate_owner owner s) (sc\<lparr>sc_admission := apply_event e (sc_admission sc)\<rparr>) (invoked [Invoke cb])"
proof -
  obtain xs where "ga_effects (apply_event e (sc_admission sc)) = ga_effects (sc_admission sc) @ xs"
    "invoked xs = invoked [Invoke cb]"
    using invalidating_invokes [OF assms] by blast
  then show ?thesis by (simp add: run_admission_def deliver_invoked Let_def)
qed

lemma invalidating_fields:
  assumes "invalidating e st"
  shows "ga_suspendInvalidated (apply_event e st) = None"
    "e = Mark_Restart_Draining \<Longrightarrow> ga_restartDraining (apply_event e st)"
  using assms by (auto simp: invalidating_def)

lemma closed_has_callback:
  assumes "coordinator_ok sc" "ga_suspendPhase (sc_admission sc) \<noteq> Accepting"
  obtains cb where "ga_suspendInvalidated (sc_admission sc) = Some cb"
  using assms by (auto simp: coordinator_ok_def coordinator_core_def fences_ok_def)

lemma foreign_keeps_draining:
  assumes "foreign_ok e sc" "ga_restartDraining (sc_admission sc)"
  shows "ga_restartDraining (apply_event e (sc_admission sc))"
proof (cases "fence_event e")
  case True
  with assms show ?thesis
    by (cases e) (auto simp: fence_event_def foreign_ok_def rollback_eq rollbackGatewayRestartSignalFence_def)
next
  case False
  from other_events_keep_fences [OF this, of "sc_admission sc"] assms show ?thesis
    by (simp add: same_fences_def)
qed

lemma admission_event_ok:
  assumes ok: "coordinator_ok sc" and e: "foreign_ok e sc"
  shows "coordinator_ok (admission_event e sc)"
    "scheduler_ok sc \<Longrightarrow> scheduler_ok (admission_event e sc)"
    "lifecycle_ok sc \<Longrightarrow> lifecycle_ok (admission_event e sc)"
proof -
  have not_reset: "e \<noteq> Reset_Admission" using e by (auto simp: foreign_ok_def)
  let ?st = "apply_event e (sc_admission sc)"
  have "coordinator_ok (admission_event e sc) \<and> (scheduler_ok sc \<longrightarrow> scheduler_ok (admission_event e sc)) \<and>
      (lifecycle_ok sc \<longrightarrow> lifecycle_ok (admission_event e sc))"
  proof (cases "invalidating e (sc_admission sc)")
    case False
    have "quiet (sc_admission sc) ?st"
      using fence_events_quiet other_events_quiet False by (cases "fence_event e") blast+
    then have "admission_event e sc = sc\<lparr>sc_admission := ?st\<rparr>"
      by (simp add: admission_event_def run_admission_quiet)
    with quiet_event_ok [OF ok e False not_reset] foreign_keeps_draining [OF e] show ?thesis
      by (auto simp: scheduler_ok_def lifecycle_ok_def)
  next
    case True
    then obtain cb where cb: "ga_suspendInvalidated (sc_admission sc) = Some cb"
      using closed_has_callback [OF ok] by (auto simp: invalidating_def)
    have fences: "fences_ok ?st"
      using ok fences_ok_event by (simp add: coordinator_ok_def coordinator_core_def)
    note retired = invalidate_retires [OF ok fences invalidating_fields(1) [OF True] cb]
    have mark: "e = Mark_Restart_Draining" using True not_reset by (auto simp: invalidating_def)
    show ?thesis
      unfolding admission_event_def run_invalidating [OF True cb]
      using retired mark by (auto simp: scheduler_ok_def lifecycle_ok_def)
  qed
  then show "coordinator_ok (admission_event e sc)"
    "scheduler_ok sc \<Longrightarrow> scheduler_ok (admission_event e sc)"
    "lifecycle_ok sc \<Longrightarrow> lifecycle_ok (admission_event e sc)" by simp_all
qed

section \<open>The restart of a lifecycle\<close>

text \<open>In the order of the run loop: the coordinator's entries first, then the admission
  (\<open>resetAllLanes\<close>).\<close>

definition restart_lifecycle :: "bool \<Rightarrow> SuspendCoordinator \<Rightarrow> SuspendCoordinator" where
  "restart_lifecycle resumes sc =
     run_admission (apply_event Reset_Admission) (resetGatewaySuspendCoordinator (\<lambda>_. resumes) sc)"

definition between_lifecycles :: "SuspendCoordinator \<Rightarrow> bool" where
  "between_lifecycles sc \<longleftrightarrow> fences_ok (sc_admission sc) \<and> sc_current sc = None \<and>
     sc_retiredForLifecycleReset sc = None \<and> (\<forall>owner \<in> set (sc_invalidated sc). owner < sc_nextOwner sc)"

lemma reset_entry_ok:
  assumes "between_lifecycles sc" "e < length (sc_entries sc)"
  shows "between_lifecycles (reset_entry f e sc)" "length (sc_entries (reset_entry f e sc)) = length (sc_entries sc)"
    "sc_schedulerPaused (reset_entry f e sc) = (sc_schedulerPaused sc \<and> \<not> f e)"
    "sc_admission (reset_entry f e sc) =
       snd (suspend_lease (ce_reopen (entry_at sc e)) (ce_lease (entry_at sc e)) (sc_admission sc))"
    "entry_at (reset_entry f e sc) r = (if r = e then clear_timer (entry_at sc e) else entry_at sc r)"
  using assms by (simp_all add: reset_entry_def between_lifecycles_def clearEntryTimer_def fences_ok_lease Let_def)
    (simp_all add: entry_at_def set_entry_def)

lemma lease_keeps_none:
  "ga_suspendInvalidated st = None \<Longrightarrow> ga_suspendInvalidated (snd (suspend_lease oper g st)) = None"
  by simp

definition coordinator_free :: "GatewayWorkAdmissionState \<Rightarrow> bool" where
  "coordinator_free st \<longleftrightarrow> (\<forall>owner. ga_suspendInvalidated st \<noteq> Some (Coordinator_Invalidated owner))"

lemma lease_keeps_free: "coordinator_free st \<Longrightarrow> coordinator_free (snd (suspend_lease oper g st))"
  by (simp add: coordinator_free_def)

lemma reset_coordinator_ok:
  assumes ok: "coordinator_ok sc"
  shows "between_lifecycles (resetGatewaySuspendCoordinator f sc)"
    "coordinator_free (sc_admission (resetGatewaySuspendCoordinator f sc))"
    "(\<forall>e. f e) \<Longrightarrow> scheduler_ok sc \<Longrightarrow> \<not> sc_schedulerPaused (resetGatewaySuspendCoordinator f sc)"
proof -
  from ok have core: "coordinator_core sc" by (simp add: coordinator_ok_def)
  let ?s = "sc\<lparr>sc_current := None, sc_retiredForLifecycleReset := None\<rparr>"
  have start: "between_lifecycles ?s"
    using core by (simp add: between_lifecycles_def coordinator_core_def)
  have one: "between_lifecycles (case x of None \<Rightarrow> s | Some e \<Rightarrow> reset_entry f e s)"
    "coordinator_free (sc_admission s) \<Longrightarrow> coordinator_free (sc_admission (case x of None \<Rightarrow> s | Some e \<Rightarrow> reset_entry f e s))"
    "sc_schedulerPaused (case x of None \<Rightarrow> s | Some e \<Rightarrow> reset_entry f e s) =
       (sc_schedulerPaused s \<and> (case x of None \<Rightarrow> True | Some e \<Rightarrow> \<not> f e))"
    if "between_lifecycles s" "\<forall>e. x = Some e \<longrightarrow> e < length (sc_entries s)" for s x
    using that reset_entry_ok [OF that(1)] by (auto simp: lease_keeps_free split: option.split)
  have retired: "sc_retiredForLifecycleReset sc = Some e \<Longrightarrow> e < length (sc_entries sc)" for e
    using core by (simp add: coordinator_core_def)
  have all: "between_lifecycles (resetGatewaySuspendCoordinator f sc) \<and>
    coordinator_free (sc_admission (resetGatewaySuspendCoordinator f sc)) \<and>
    ((\<forall>e. f e) \<longrightarrow> scheduler_ok sc \<longrightarrow> \<not> sc_schedulerPaused (resetGatewaySuspendCoordinator f sc))"
  proof (cases "sc_current sc")
    case None
    then have "coordinator_free (sc_admission ?s)"
      using core by (simp add: coordinator_core_def coordinator_free_def)
    with None one [OF start, of "sc_retiredForLifecycleReset sc"] retired show ?thesis
      by (cases "sc_retiredForLifecycleReset sc")
         (auto simp: resetGatewaySuspendCoordinator_def scheduler_ok_def Let_def)
  next
    case (Some c)
    note holds = current_holds [OF core Some]
    let ?r = "reset_entry f c ?s"
    have len: "c < length (sc_entries ?s)" using holds(1) by simp
    have "lease_applies (ce_reopen (entry_at sc c)) (ce_lease (entry_at sc c)) (sc_admission sc)"
      "lease_to (ce_reopen (entry_at sc c)) = Accepting"
      using holds(2) by (simp_all add: entry_holds_def lease_applies_def)
    then have free: "coordinator_free (sc_admission ?r)"
      using reset_entry_ok(4) [OF start len] by (simp add: coordinator_free_def)
    note first = reset_entry_ok(1-3) [OF start len, of f]
    show ?thesis
    proof (cases "sc_retiredForLifecycleReset sc = Some c")
      case True
      with Some first free show ?thesis
        by (simp add: resetGatewaySuspendCoordinator_def Let_def)
    next
      case False
      with Some first free one [OF first(1), of "sc_retiredForLifecycleReset sc"] retired show ?thesis
        by (simp add: resetGatewaySuspendCoordinator_def Let_def)
    qed
  qed
  then show "between_lifecycles (resetGatewaySuspendCoordinator f sc)"
    "coordinator_free (sc_admission (resetGatewaySuspendCoordinator f sc))"
    "(\<forall>e. f e) \<Longrightarrow> scheduler_ok sc \<Longrightarrow> \<not> sc_schedulerPaused (resetGatewaySuspendCoordinator f sc)"
    by simp_all
qed

lemma restart_lifecycle_ok:
  assumes ok: "coordinator_ok sc"
  shows "coordinator_ok (restart_lifecycle resumes sc)" "lifecycle_ok (restart_lifecycle resumes sc)"
    "resumes \<Longrightarrow> scheduler_ok sc \<Longrightarrow> scheduler_ok (restart_lifecycle resumes sc)"
proof -
  let ?s = "resetGatewaySuspendCoordinator (\<lambda>_. resumes) sc"
  let ?st = "apply_event Reset_Admission (sc_admission ?s)"
  note reset = reset_coordinator_ok [OF ok, of "\<lambda>_. resumes"]
  have ok': "coordinator_ok ?s"
    using reset(1,2) by (simp add: between_lifecycles_def coordinator_free_def coordinator_ok_def
        coordinator_core_def timer_armed_def)
  have fences: "fences_ok ?st"
    using reset(1) fences_ok_event [of "sc_admission ?s" Reset_Admission] by (simp add: between_lifecycles_def)
  have st: "ga_suspendInvalidated ?st = None" by simp
  have "restart_lifecycle resumes sc = ?s\<lparr>sc_admission := ?st\<rparr>"
  proof (cases "invalidating Reset_Admission (sc_admission ?s)")
    case False
    from fence_events_quiet [OF _ this] show ?thesis
      by (simp add: restart_lifecycle_def run_admission_quiet fence_event_def)
  next
    case True
    then obtain cb where cb: "ga_suspendInvalidated (sc_admission ?s) = Some cb"
      using closed_has_callback [OF ok'] by (auto simp: invalidating_def)
    with reset(2) have "invoked [Invoke cb] = []"
      by (cases cb) (simp_all add: coordinator_free_def)
    then show ?thesis
      by (simp add: restart_lifecycle_def run_invalidating [OF True cb])
  qed
  moreover have "coordinator_ok (?s\<lparr>sc_admission := ?st\<rparr>)"
    using reset(1) by (intro core_no_current [OF ok' _ fences]) (simp_all add: between_lifecycles_def)
  ultimately show "coordinator_ok (restart_lifecycle resumes sc)" "lifecycle_ok (restart_lifecycle resumes sc)"
    "resumes \<Longrightarrow> scheduler_ok sc \<Longrightarrow> scheduler_ok (restart_lifecycle resumes sc)"
    using reset(1,3) by (simp_all add: lifecycle_ok_def between_lifecycles_def scheduler_ok_def)
qed

end
