(* ===== verification/Gateway_Admission_Claims.thy ===== *)
theory Gateway_Admission_Claims
  imports Gateway_Admission_Calls
begin

text \<open>
  What the admission of root work guarantees over whole runs: counted references, no lost wakeup,
  a prepared gateway that stays idle, and leases that act once.
\<close>

section \<open>Leases that end for good\<close>

text \<open>A lease names a generation. Once it is dead for a state it is dead ever after, and a dead
  lease changes nothing.\<close>

locale one_shot_lease =
  fixes dead :: "nat \<Rightarrow> 's \<Rightarrow> bool" and act :: "'a \<Rightarrow> nat \<Rightarrow> 's \<Rightarrow> bool \<times> 's" and step :: "'e \<Rightarrow> 's \<Rightarrow> 's"
  assumes dead_act: "dead g s \<Longrightarrow> act a g s = (False, s)"
    and dead_step: "dead g s \<Longrightarrow> dead g (step e s)"
begin

lemma dead_run: "dead g s \<Longrightarrow> dead g (foldl (\<lambda>s e. step e s) s es)"
  by (induction es arbitrary: s) (simp_all add: dead_step)

lemma inert: "dead g s \<Longrightarrow> act a g (foldl (\<lambda>s e. step e s) s es) = (False, foldl (\<lambda>s e. step e s) s es)"
  by (rule dead_act) (rule dead_run)

end

definition suspend_lease_dead :: "nat \<Rightarrow> GatewayWorkAdmissionState \<Rightarrow> bool" where
  "suspend_lease_dead g st \<longleftrightarrow>
     g < ga_suspendGeneration st \<or> g = ga_suspendGeneration st \<and> ga_suspendPhase st = Accepting"

definition restart_lease_dead :: "nat \<Rightarrow> GatewayWorkAdmissionState \<Rightarrow> bool" where
  "restart_lease_dead g st \<longleftrightarrow>
     g < ga_restartSignalGeneration st \<or> g = ga_restartSignalGeneration st \<and> \<not> ga_restartSignalPending st"

lemma suspend_dead_event:
  assumes "suspend_lease_dead g st"
  shows "suspend_lease_dead g (apply_event e st)"
proof (cases "fence_event e")
  case True
  with assms show ?thesis
    by (cases e) (auto simp: fence_event_def suspend_lease_dead_def rollback_eq
        rollbackGatewayRestartSignalFence_def lease_applies_def isGatewayWorkAdmissionClosed_def)
next
  case False
  from other_events_keep_fences [OF this, of st] assms show ?thesis
    by (simp add: suspend_lease_dead_def same_fences_def)
qed

lemma clear_generation:
  "ga_restartSignalGeneration (snd (clearRestartSignalFence st)) = ga_restartSignalGeneration st +
     (if ga_restartDraining st \<or> \<not> ga_restartSignalPending st then 0 else 1)"
  by (simp add: clearRestartSignalFence_def resolveSuspendOpenWaiters_def emit_def
      logAdmissionReopened_def Let_def)

lemma signal_generation:
  "ga_restartSignalGeneration (snd (beginGatewayRestartSignalAdmission st)) = ga_restartSignalGeneration st +
     (if ga_restartDraining st \<or> ga_restartSignalPending st then 0 else 1)"
  by (simp add: beginGatewayRestartSignalAdmission_def emit_def logAdmissionClosed_def Let_def)

lemma restart_dead_event:
  assumes "restart_lease_dead g st"
  shows "restart_lease_dead g (apply_event e st)"
proof (cases "fence_event e")
  case True
  with assms show ?thesis
    by (cases e) (auto simp: fence_event_def restart_lease_dead_def rollback_eq clear_generation
        signal_generation rollbackGatewayRestartSignalFence_def)
next
  case False
  from other_events_keep_fences [OF this, of st] assms show ?thesis
    by (simp add: restart_lease_dead_def same_fences_def)
qed

interpretation suspension: one_shot_lease suspend_lease_dead suspend_lease admission_step
proof
  show "suspend_lease a g s = (False, s)" if "suspend_lease_dead g s" for g s a
    using that by (intro lease_fails) (auto simp: suspend_lease_dead_def lease_applies_def)
  show "suspend_lease_dead g (admission_step e s)" if "suspend_lease_dead g s" for g s e
    using that by (simp add: admission_step_def suspend_dead_event)
qed

interpretation restart_signal: one_shot_lease restart_lease_dead "\<lambda>_ :: unit. restart_signal_rollback" admission_step
proof
  show "restart_signal_rollback g s = (False, s)" if "restart_lease_dead g s" for g s
    using that by (auto simp: restart_lease_dead_def restart_signal_rollback_def)
  show "restart_lease_dead g (admission_step e s)" if "restart_lease_dead g s" for g s e
    using that by (simp add: admission_step_def restart_dead_event)
qed

section \<open>An idle gateway that is prepared\<close>

text \<open>What may let work in again: the end of the suspension, a restart, a reset of the lifecycle.\<close>

definition opening_event :: "admission_event \<Rightarrow> bool" where
  "opening_event e \<longleftrightarrow> (case e of Mark_Restart_Draining \<Rightarrow> True | Reset_Admission \<Rightarrow> True
     | Try_Prepared_Restart \<Rightarrow> True | Suspend_Lease oper _ \<Rightarrow> oper = Lease_Release | _ \<Rightarrow> False)"

definition prepared_idle :: "GatewayWorkAdmissionState \<Rightarrow> bool" where
  "prepared_idle st \<longleftrightarrow> ga_suspendPhase st = Prepared \<and> ga_activeRootWork st = [] \<and>
     roots_ok st \<and> contexts_ok st"

lemma no_live_root:
  assumes "prepared_idle st" "context_ok current st"
  shows "\<not> live_root current st"
  using assms by (auto simp: prepared_idle_def roots_ok_def live_root_def context_ok_def split: option.splits)

lemma release_idle:
  assumes "roots_ok st" "ga_activeRootWork st = []" "h < length (ga_handles st)"
  shows "release_handle h st = st"
  using assms by (auto simp: roots_ok_def release_handle_def Let_def)

lemma prepared_iterate_active:
  assumes "prepared_idle st" "context_ok (waiting_context w) st"
  shows "ga_activeRootWork (iterate_call call w st) = []"
  using assms no_live_root [OF assms(1)]
  by (cases w) (auto simp: call_unfold tryBeginGatewayRootWorkAdmission_def waiting_context_def
      tryBeginGatewayIndependentRootWorkAdmission_def prepared_idle_def)

lemma prepared_start_active:
  assumes "prepared_idle st" "context_ok (waiting_context w) st"
  shows "ga_activeRootWork (start_call w st) = []"
proof -
  have "prepared_idle (st\<lparr>ga_nextCall := n\<rparr>)" for n
    using assms(1) by (simp add: prepared_idle_def contexts_ok_def pending_calls_def)
  with assms(2) show ?thesis by (simp add: start_call_def prepared_iterate_active)
qed

lemma prepared_resume_active:
  assumes "prepared_idle st"
  shows "ga_activeRootWork (resume_call st) = []"
proof (cases "ga_resumed st")
  case (Cons e rest)
  have "prepared_idle (st\<lparr>ga_resumed := rest\<rparr>)" "context_ok (waiting_context (snd e)) st"
    using assms Cons by (auto simp: prepared_idle_def contexts_ok_def pending_calls_def)
  with Cons show ?thesis by (cases e) (simp add: resume_call_def prepared_iterate_active)
qed (use assms in \<open>simp add: resume_call_def prepared_idle_def\<close>)

lemma prepared_active:
  assumes p: "prepared_idle st" and ok: "event_ok e st" and e: "\<not> opening_event e"
  shows "ga_activeRootWork (apply_event e st) = []"
proof (cases "fence_event e")
  case True
  with e p same_roots_fence_event [OF True, of st] show ?thesis
    by (cases "e = Reset_Admission") (auto simp: same_roots_def opening_event_def prepared_idle_def)
next
  case False
  note idle = p [unfolded prepared_idle_def]
  show ?thesis
  proof (cases e)
    case (Start_Call w)
    with p ok show ?thesis
      by (cases w) (simp_all add: prepared_start_active waiting_context_def context_ok_def)
  next
    case (Readmission current)
    with p ok show ?thesis
      by (auto simp: runWithGatewayRootWorkReadmission_def prepared_start_active waiting_context_def
          context_ok_def prepared_idle_def split: option.split)
  next
    case (Continuation current origin)
    with p ok no_live_root [OF p, of current] show ?thesis
      by (simp add: runWithGatewayIndependentRootWorkContinuation_def prepared_start_active
          waiting_context_def context_ok_def [of None])
  next
    case (Scope_Release c)
    let ?s = "st\<lparr>ga_scopes := (ga_scopes st)[c := (ga_scopes st ! c)\<lparr>cs_released := True\<rparr>]\<rparr>"
    have "ga_activeRootWork (release_handle h ?s) = []" for h
      using idle by (simp add: release_handle_def set_root_def Let_def)
    with Scope_Release idle show ?thesis
      by (simp add: scope_release_def Let_def split: option.split)
  next
    case (Scope_Run c)
    with idle show ?thesis by (simp add: scope_run_def Let_def)
  next
    case (New_Scope retain current)
    with idle show ?thesis
      by (simp add: createGatewayRootWorkAdmissionContinuationScope_def split: option.split)
  next
    case (Try_Root current origin)
    with idle ok no_live_root [OF p, of current] show ?thesis
      by (simp add: tryBeginGatewayRootWorkAdmission_def)
  qed (use False e ok idle in \<open>simp_all add: fence_event_def opening_event_def
      onGatewaySuspendAdmissionChange_def unsubscribe_listener_def release_idle prepared_resume_active [OF p]
      tryBeginGatewayRestartStartupRootWorkAdmission_def tryBeginGatewayIndependentRootWorkAdmission_def\<close>)
qed

lemma lease_from_prepared: "Prepared \<in> lease_from oper \<longleftrightarrow> oper = Lease_Release"
  by (cases oper) simp_all

lemma prepared_idle_event:
  assumes p: "prepared_idle st" and ok: "event_ok e st" and e: "\<not> opening_event e"
  shows "prepared_idle (apply_event e st)"
proof -
  have "ga_suspendPhase (apply_event e st) = Prepared"
  proof (cases "fence_event e")
    case True
    with p e show ?thesis
      by (cases e) (auto simp: fence_event_def opening_event_def prepared_idle_def rollback_eq
          rollbackGatewayRestartSignalFence_def isGatewayWorkAdmissionClosed_def lease_applies_def
          lease_from_prepared)
  next
    case False
    from other_events_keep_fences [OF this, of st] p show ?thesis
      by (simp add: same_fences_def prepared_idle_def)
  qed
  with assms prepared_active [OF assms] show ?thesis
    by (simp add: prepared_idle_def roots_ok_event contexts_ok_event)
qed

section \<open>Microtasks\<close>

definition run_microtasks :: "GatewayWorkAdmissionState \<Rightarrow> GatewayWorkAdmissionState" where
  "run_microtasks st = (resume_call ^^ length (ga_resumed st)) st"

text \<open>Nothing can block any call: no reversible fence is up, or the drain answers every call.\<close>

definition unblocked :: "GatewayWorkAdmissionState \<Rightarrow> bool" where
  "unblocked st \<longleftrightarrow> \<not> ga_restartSignalPending st \<and> (ga_restartDraining st \<or> ga_suspendPhase st = Accepting)"

lemma unblocked_not_blocked: "unblocked st \<Longrightarrow> \<not> blocked st w"
  by (auto simp: unblocked_def blocked_def split: waiting_call.split)

lemma unblocked_resume [simp]: "unblocked (resume_call st) = unblocked st"
  using start_resume_fences(2) [of st] by (simp add: unblocked_def same_fences_def)

lemma resume_settles:
  assumes "unblocked st" "ga_resumed st \<noteq> []"
  shows "length (ga_resumed (resume_call st)) = length (ga_resumed st) - 1"
    and "ga_waiters (resume_call st) = ga_waiters st"
proof -
  obtain call w rest where eq: "ga_resumed st = (call, w) # rest"
    using assms(2) by (cases "ga_resumed st") auto
  let ?s = "st\<lparr>ga_resumed := rest\<rparr>"
  have "\<not> blocked ?s w"
    using unblocked_not_blocked [OF assms(1)] by simp
  then obtain res where "same_calls (settle_call call res ?s) (iterate_call call w ?s)"
    using iterate_effect [of ?s w call] by blast
  with eq show "length (ga_resumed (resume_call st)) = length (ga_resumed st) - 1"
    "ga_waiters (resume_call st) = ga_waiters st"
    by (simp_all add: resume_call_def same_calls_def settle_call_def)
qed

lemma run_microtasks_settles:
  assumes "unblocked st"
  shows "ga_resumed (run_microtasks st) = [] \<and> ga_waiters (run_microtasks st) = ga_waiters st"
proof -
  have "length (ga_resumed s) = n \<Longrightarrow> unblocked s \<Longrightarrow>
      ga_resumed ((resume_call ^^ n) s) = [] \<and> ga_waiters ((resume_call ^^ n) s) = ga_waiters s" for n s
  proof (induction n arbitrary: s)
    case (Suc n)
    have "ga_resumed s \<noteq> []" using Suc.prems(1) by auto
    with Suc resume_settles [OF Suc.prems(2)] show ?case
      by (simp add: funpow_Suc_right del: funpow.simps)
  qed simp
  with assms show ?thesis by (simp add: run_microtasks_def)
qed

lemma run_microtasks_calls_ok: "calls_ok st \<Longrightarrow> calls_ok (run_microtasks st)"
proof -
  have "calls_ok st \<Longrightarrow> calls_ok ((resume_call ^^ n) st)" for n
    by (induction n) (simp_all add: calls_ok_resume)
  then show "calls_ok st \<Longrightarrow> calls_ok (run_microtasks st)" by (simp add: run_microtasks_def)
qed

lemma unblocked_no_waiters: "unblocked st \<Longrightarrow> calls_ok st \<Longrightarrow> ga_waiters st = []"
  using unblocked_not_blocked by (cases "ga_waiters st") (auto simp: calls_ok_def waiters_blocked_def)

section \<open>Properties\<close>

lemma reachable_ok:
  "roots_ok (admission_run es initial_admission)" "fences_ok (admission_run es initial_admission)"
  "calls_ok (admission_run es initial_admission)"
  by (rule roots_ok_run, simp) (rule fences_ok_run, simp, rule calls_ok_run, simp)

lemma reachable_contexts: "contexts_ok (admission_run es initial_admission)"
proof (rule admission_run_invariant [of contexts_ok])
  show "contexts_ok initial_admission"
    by (simp add: contexts_ok_def pending_calls_def initial_admission_def)
qed (rule contexts_ok_event)

text \<open>After any run a root is active exactly while it is not released; its reference count is
  the number of its handles that were not released, so releasing a handle twice, or after a reset
  retired the root, counts for nothing; a retired root is released and holds no reference.\<close>

theorem root_references_are_counted:
  "roots_ok (admission_run es initial_admission)"
  by (rule reachable_ok)

text \<open>C8: No wakeup is lost. Whatever happened before, once no reversible fence is up (or the
  restart drain has begun) the resumed calls, run one after the other as the event loop does, leave
  no call waiting: each call ever started is settled, exactly once.\<close>

theorem no_lost_wakeup:
  assumes "unblocked (admission_run es initial_admission)"
  shows "let st = run_microtasks (admission_run es initial_admission)
    in ga_waiters st = [] \<and> ga_resumed st = [] \<and>
       mset (map fst (ga_settled st)) = mset [0..<ga_nextCall st]"
proof -
  let ?st = "admission_run es initial_admission"
  from run_microtasks_settles [OF assms] unblocked_no_waiters [OF assms reachable_ok(3)]
  have "ga_waiters (run_microtasks ?st) = [] \<and> ga_resumed (run_microtasks ?st) = []" by simp
  moreover from run_microtasks_calls_ok [OF reachable_ok(3)]
  have "mset (call_ids (run_microtasks ?st)) = mset [0..<ga_nextCall (run_microtasks ?st)]"
    by (simp only: calls_ok_def)
  ultimately show ?thesis by (simp add: call_ids_def Let_def)
qed

text \<open>C9: Once a suspension is prepared over an idle gateway, no root becomes active, and the phase
  stays, until the lease is released, the prepared restart is admitted, a restart drains or the
  lifecycle is reset: requests, timers, detached continuations, retained scopes, resumed calls and
  the other operations of leases all leave the gateway idle.\<close>

theorem prepared_gateway_stays_idle:
  assumes "ga_suspendPhase (admission_run es initial_admission) = Prepared"
    "ga_activeRootWork (admission_run es initial_admission) = []"
    "\<forall>e \<in> set later. \<not> opening_event e"
  shows "ga_suspendPhase (admission_run (es @ later) initial_admission) = Prepared \<and>
    ga_activeRootWork (admission_run (es @ later) initial_admission) = []"
proof -
  have step: "prepared_idle (admission_step e st)" if "prepared_idle st" "\<not> opening_event e" for e st
    using that by (simp add: admission_step_def prepared_idle_event)
  have run: "prepared_idle (admission_run later st)"
    if "prepared_idle st" "\<forall>e \<in> set later. \<not> opening_event e" for st later
    using that by (induction later arbitrary: st) (simp_all add: step)
  have "prepared_idle (admission_run es initial_admission)"
    by (simp add: prepared_idle_def assms reachable_ok reachable_contexts)
  from run [OF this assms(3)] show ?thesis
    by (simp add: prepared_idle_def admission_run_append)
qed

text \<open>A suspension lease ends for good. After it was rolled back or released, or after a restart
  drain or a lifecycle reset superseded it, no run makes any of its operations succeed or change
  anything, whatever leases follow.\<close>

theorem ended_lease_is_inert:
  assumes "g \<le> ga_suspendGeneration st"
    "(\<exists>oper. lease_to oper = Accepting \<and> suspend_lease oper g st = (True, ended)) \<or>
     \<not> ga_restartDraining st \<and> ended = markGatewayRestartDraining st \<or>
     ended = resetGatewayWorkAdmission st"
  shows "suspend_lease oper' g (admission_run es ended) = (False, admission_run es ended)"
proof -
  have "suspend_lease_dead g ended"
    if "suspend_lease oper g st = (True, ended)" "lease_to oper = Accepting" for oper
    using that lease_result [of oper g st] lease_fields(6,7) [of oper g st]
    by (simp add: suspend_lease_dead_def lease_applies_def)
  with assms have "suspend_lease_dead g ended"
    by (auto simp: suspend_lease_dead_def)
  from suspension.inert [OF this] show ?thesis
    by (simp add: admission_run_def)
qed

lemma ended_restart_lease_is_inert:
  "restart_lease_dead g st \<Longrightarrow> restart_signal_rollback g (admission_run es st) = (False, admission_run es st)"
  using restart_signal.inert [of g st es] by (simp add: admission_run_def)

end
