(* ===== verification/Gateway_Suspend_Claims.thy ===== *)
theory Gateway_Suspend_Claims
  imports Gateway_Suspend_System Gateway_Admission_Claims
begin

text \<open>
  Runs of the coordinator together with every other user of the admission, and what they guarantee:
  the two always agree, a suspension always ends, and admission is open only while the scheduler
  runs.
\<close>

section \<open>Runs\<close>

datatype suspend_event =
    Other_Admission admission_event
  | Prepare SuspendPrepareParams SuspendCallbacks
  | Status string SuspendCallbacks
  | Resume string SuspendCallbacks
  | Timer nat bool
  | Restart_Lifecycle bool

fun suspend_step :: "suspend_event \<Rightarrow> SuspendCoordinator \<Rightarrow> SuspendCoordinator" where
  "suspend_step (Other_Admission e) sc = (if foreign_ok e sc then admission_event e sc else sc)"
| "suspend_step (Prepare params cb) sc = snd (prepareGatewaySuspend params cb sc)"
| "suspend_step (Status i cb) sc = snd (getGatewaySuspendStatus i cb sc)"
| "suspend_step (Resume i cb) sc = snd (resumeGatewaySuspend i cb sc)"
| "suspend_step (Timer e resumes) sc = (if e < length (sc_entries sc) then fire_timer e resumes sc else sc)"
| "suspend_step (Restart_Lifecycle resumes) sc = restart_lifecycle resumes sc"

definition suspend_run :: "suspend_event list \<Rightarrow> SuspendCoordinator" where
  "suspend_run es = foldl (\<lambda>s e. suspend_step e s) initial_coordinator es"

lemma suspend_run_snoc: "suspend_run (es @ [e]) = suspend_step e (suspend_run es)"
  by (simp add: suspend_run_def)

definition scheduler_restarts :: "suspend_event \<Rightarrow> bool" where
  "scheduler_restarts e \<longleftrightarrow> (case e of Restart_Lifecycle resumes \<Rightarrow> resumes | _ \<Rightarrow> True)"

lemma keeps_lifecycle: "same_lifecycle sc sc' \<Longrightarrow> lifecycle_ok sc \<Longrightarrow> lifecycle_ok sc'"
  by (simp add: same_lifecycle_def lifecycle_ok_def)

lemma keeps_step:
  "keeps sc sc' \<Longrightarrow> coordinator_ok sc' \<and> (lifecycle_ok sc \<longrightarrow> lifecycle_ok sc') \<and>
    (scheduler_ok sc \<longrightarrow> scheduler_ok sc')"
  by (auto simp: keeps_def intro: keeps_lifecycle)

lemma suspend_step_ok:
  assumes ok: "coordinator_ok sc"
  shows "coordinator_ok (suspend_step e sc)"
    "lifecycle_ok sc \<Longrightarrow> lifecycle_ok (suspend_step e sc)"
    "scheduler_restarts e \<Longrightarrow> scheduler_ok sc \<Longrightarrow> scheduler_ok (suspend_step e sc)"
proof -
  have "coordinator_ok (suspend_step e sc) \<and> (lifecycle_ok sc \<longrightarrow> lifecycle_ok (suspend_step e sc)) \<and>
      (scheduler_restarts e \<longrightarrow> scheduler_ok sc \<longrightarrow> scheduler_ok (suspend_step e sc))"
  proof (cases e)
    case (Other_Admission x)
    with ok admission_event_ok [OF ok, of x] show ?thesis by simp
  next
    case (Prepare params cb)
    with prepare_keeps [OF ok, of params cb] show ?thesis
      by (auto simp: prepare_ok_def intro: keeps_lifecycle)
  next
    case (Status i cb)
    with keeps_step [OF status_keeps(1) [OF ok]] show ?thesis by simp
  next
    case (Resume i cb)
    with keeps_step [OF resume_keeps [OF ok]] show ?thesis by simp
  next
    case (Timer r resumes)
    with ok keeps_step [OF fire_timer_keeps [OF ok]] show ?thesis by simp
  next
    case (Restart_Lifecycle resumes)
    with restart_lifecycle_ok [OF ok, of resumes] show ?thesis
      by (cases resumes) (simp_all add: scheduler_restarts_def)
  qed
  then show "coordinator_ok (suspend_step e sc)"
    "lifecycle_ok sc \<Longrightarrow> lifecycle_ok (suspend_step e sc)"
    "scheduler_restarts e \<Longrightarrow> scheduler_ok sc \<Longrightarrow> scheduler_ok (suspend_step e sc)" by simp_all
qed

lemma initial_coordinator_ok [simp]:
  "coordinator_ok initial_coordinator" "lifecycle_ok initial_coordinator" "scheduler_ok initial_coordinator"
  by (simp_all add: coordinator_ok_def coordinator_core_def timer_armed_def lifecycle_ok_def scheduler_ok_def
      initial_coordinator_def) (simp add: initial_admission_def)

lemma suspend_run_ok:
  "coordinator_ok (suspend_run es)" "lifecycle_ok (suspend_run es)"
  "list_all scheduler_restarts es \<Longrightarrow> scheduler_ok (suspend_run es)"
proof -
  have "coordinator_ok (suspend_run es) \<and> lifecycle_ok (suspend_run es) \<and>
      (list_all scheduler_restarts es \<longrightarrow> scheduler_ok (suspend_run es))"
  proof (induction es rule: rev_induct)
    case Nil
    then show ?case by (simp add: suspend_run_def)
  next
    case (snoc e es)
    with suspend_step_ok [of "suspend_run es" e] show ?case by (simp add: suspend_run_snoc)
  qed
  then show "coordinator_ok (suspend_run es)" "lifecycle_ok (suspend_run es)"
    "list_all scheduler_restarts es \<Longrightarrow> scheduler_ok (suspend_run es)" by simp_all
qed

section \<open>Properties\<close>

text \<open>C32: The coordinator and the admission always agree: the current entry holds the suspension
  lease of the current generation with its own invalidation callback registered, in the phase its
  kind says (draining, prepared, or any closed phase while it recovers), with its timer armed; and
  without a current entry no callback of the coordinator is registered.\<close>

theorem coordinator_and_admission_agree:
  "coordinator_ok (suspend_run es)"
  by (rule suspend_run_ok)


text \<open>C33: A suspension always ends. Whenever an entry is current its timer is armed; if the scheduler
  resumes when the timer fires, admission is accepting, no entry is current and the scheduler runs;
  if it does not, an entry is current again, hence armed for another attempt.\<close>

theorem suspension_always_ends:
  assumes "sc_current (suspend_run es) = Some e"
  shows "armed (entry_at (suspend_run es) e) \<and>
    (let sc = fire_timer e True (suspend_run es)
     in ga_suspendPhase (sc_admission sc) = Accepting \<and> sc_current sc = None \<and> \<not> sc_schedulerPaused sc) \<and>
    sc_current (fire_timer e False (suspend_run es)) \<noteq> None"
proof -
  let ?sc = "suspend_run es"
  let ?s = "set_entry e ((entry_at ?sc e)\<lparr>ce_timer := None\<rparr>) ?sc"
  have core: "coordinator_core ?sc" and armed: "armed (entry_at ?sc e)"
    using suspend_run_ok(1) [of es] assms by (simp_all add: coordinator_ok_def timer_armed_def)
  have len: "e < length (sc_entries ?sc)" by (rule current_holds(1) [OF core assms])
  from armed obtain delay where "ce_timer (entry_at ?sc e) = Some (ce_timerGeneration (entry_at ?sc e), delay)"
    by (auto simp: armed_def)
  with assms len have fire: "fire_timer e resumes ?sc = snd (resumeAndReopen e resumes ?s)" for resumes
    by (simp add: fire_timer_def)
  have core': "coordinator_core ?s" and cur': "sc_current ?s = Some e"
    using core_timer(3) [OF core len] assms by simp_all
  from armed resumeAndReopen_succeeds(2,3,5) [OF core' cur'] resumeAndReopen_fails(2) [OF core' cur'] show ?thesis
    by (simp add: fire Let_def)
qed

text \<open>C10: Fail-closed scheduling. As long as lifecycle restarts bring the scheduler back, admission is
  never open with the scheduler paused: a suspension that ends, expires, fails to prepare or is
  retried reopens admission only after the scheduler resumed, and a restart drain that supersedes it
  keeps the gateway draining until the restart.\<close>

theorem open_only_while_scheduler_runs:
  assumes "list_all scheduler_restarts es" "sc_schedulerPaused (suspend_run es)"
  shows "ga_suspendPhase (sc_admission (suspend_run es)) \<noteq> Accepting \<or>
    ga_restartDraining (sc_admission (suspend_run es))"
proof -
  have "sc_current (suspend_run es) \<noteq> None \<or> sc_retiredForLifecycleReset (suspend_run es) \<noteq> None"
    using suspend_run_ok(3) [OF assms(1)] assms(2) by (simp add: scheduler_ok_def)
  with suspend_run_ok(1,2) [of es] accepting_no_current [of "suspend_run es"] show ?thesis
    by (auto simp: coordinator_ok_def lifecycle_ok_def)
qed

end
