(* ===== verification/Gateway_Witnesses.thy ===== *)
theory Gateway_Witnesses
  imports Gateway_Suspend_Claims
begin

text \<open>
  Concrete runs of the admission and of the coordinator on which the properties with hypotheses
  apply.
\<close>

text \<open>A call waits behind a suspension, the suspension ends, and the call is resumed.\<close>

definition wakeup_run :: "admission_event list" where
  "wakeup_run = [Suspend_Begin (Thaw_Restart_Invalidated 0), Start_Call (Independent_Root ''cron  tick ''),
     Start_Call (Root_When_Open None ''rpc''), Suspend_Lease Lease_Commit 1, Suspend_Lease Lease_Release 1]"

lemma wakeup_unblocked: "unblocked (admission_run wakeup_run initial_admission)"
  by code_simp

theorem no_lost_wakeup_witness:
  "let st = run_microtasks (admission_run wakeup_run initial_admission)
   in ga_waiters st = [] \<and> ga_resumed st = [] \<and> mset (map fst (ga_settled st)) = mset [0..<ga_nextCall st]"
  by (rule no_lost_wakeup [OF wakeup_unblocked])

text \<open>The gateway is prepared and idle; a timer, a detached continuation and a new scope are tried.\<close>

definition idle_run :: "admission_event list" where
  "idle_run = [Try_Root None ''rpc'', Release_Handle 0, Suspend_Begin (Thaw_Restart_Invalidated 0),
     Suspend_Lease Lease_Commit 1]"

definition idle_later :: "admission_event list" where
  "idle_later = [Try_Root (Some 0) ''timer'', Continuation (Some 0) ''detached'', New_Scope True (Some 0),
     Signal_Begin, Try_Startup, Fence_Rollback, Suspend_Lease Lease_Rollback 1]"

lemma idle_hypotheses:
  "ga_suspendPhase (admission_run idle_run initial_admission) = Prepared"
  "ga_activeRootWork (admission_run idle_run initial_admission) = []"
  "\<forall>e \<in> set idle_later. \<not> opening_event e"
  by code_simp+

theorem prepared_gateway_stays_idle_witness:
  "ga_suspendPhase (admission_run (idle_run @ idle_later) initial_admission) = Prepared \<and>
   ga_activeRootWork (admission_run (idle_run @ idle_later) initial_admission) = []"
  by (rule prepared_gateway_stays_idle [OF idle_hypotheses])

text \<open>A prepared lease is released; its later operations are inert under any events.\<close>

definition prepared_state :: GatewayWorkAdmissionState where
  "prepared_state = admission_run idle_run initial_admission"

lemma prepared_state_facts:
  "1 \<le> ga_suspendGeneration prepared_state" "fst (suspend_lease Lease_Release 1 prepared_state)"
  by code_simp+

theorem ended_lease_is_inert_witness:
  "let ended = snd (suspend_lease Lease_Release 1 prepared_state);
       st = admission_run [Suspend_Begin (Thaw_Restart_Invalidated 1)] ended
   in suspend_lease Lease_Commit 1 st = (False, st)"
proof -
  let ?ended = "snd (suspend_lease Lease_Release 1 prepared_state)"
  have "lease_to Lease_Release = Accepting \<and> suspend_lease Lease_Release 1 prepared_state = (True, ?ended)"
    using prepared_state_facts(2) by (metis lease_to.simps(4) prod.collapse)
  then show ?thesis
    unfolding Let_def by (intro ended_lease_is_inert [OF prepared_state_facts(1)]) blast
qed

section \<open>The coordinator\<close>

definition idle_snapshot :: GatewayActiveWorkSnapshot where
  "idle_snapshot = \<lparr>as_idle = True, as_counts = (\<lambda>_. 0), as_totalActive = 0, as_blockers = []\<rparr>"

definition suspend_callbacks :: SuspendCallbacks where
  "suspend_callbacks = \<lparr>cb_nowMs = 1000, cb_heldNowMs = 1000, cb_heldResumes = True, cb_pauses = True,
     cb_resumes = True, cb_inspect = (\<lambda>_. Some idle_snapshot), cb_suspensionId = ''s1''\<rparr>"

definition prepare_run :: "suspend_event list" where
  "prepare_run = [Prepare \<lparr>sp_requestId = ''r1'', sp_terminalPolicy = None, sp_drain = None\<rparr> suspend_callbacks]"

lemma prepare_run_facts:
  "sc_current (suspend_run prepare_run) = Some 0" "sc_schedulerPaused (suspend_run prepare_run)"
  "list_all scheduler_restarts prepare_run"
  by code_simp+

theorem suspension_always_ends_witness:
  "armed (entry_at (suspend_run prepare_run) 0) \<and>
   (let sc = fire_timer 0 True (suspend_run prepare_run)
    in ga_suspendPhase (sc_admission sc) = Accepting \<and> sc_current sc = None \<and> \<not> sc_schedulerPaused sc) \<and>
   sc_current (fire_timer 0 False (suspend_run prepare_run)) \<noteq> None"
  by (rule suspension_always_ends [OF prepare_run_facts(1)])

theorem open_only_while_scheduler_runs_witness:
  "\<not> (ga_suspendPhase (sc_admission (suspend_run prepare_run)) = Accepting \<and>
      \<not> ga_restartDraining (sc_admission (suspend_run prepare_run)))"
  using open_only_while_scheduler_runs [OF prepare_run_facts(3,2)] by simp

end
