(* ===== verification/Cron_Time.thy ===== *)
theory Cron_Time
  imports Js_Date Session_Text
begin

text \<open>
  The instants of a schedule: the checks of \<open>packages/normalization-core/src/number-coercion.ts\<close> on
  milliseconds, the ISO forms of \<open>src/shared/iso-time.ts\<close>, the absolute times of
  \<open>src/cron/parse.ts\<close>, and a wall time read in a time zone
  (\<open>src/infra/format-time/parse-offsetless-zoned-datetime.ts\<close>).

  A number of milliseconds is a whole number. \<open>Date.parse\<close> of a text with an offset is the parameter
  \<open>dateParse\<close>; the wall time the \<open>Intl\<close> formatter shows at an instant is the parameter \<open>wall\<close>
  (\<open>None\<close> if it throws).
\<close>

section \<open>Milliseconds\<close>

definition MAX_DATE_TIMESTAMP_MS :: int where "MAX_DATE_TIMESTAMP_MS = 8640000000000000"

definition isFiniteTimestamp :: "int \<Rightarrow> bool" where
  "isFiniteTimestamp t \<longleftrightarrow> - MAX_DATE_TIMESTAMP_MS \<le> t \<and> t \<le> MAX_DATE_TIMESTAMP_MS"

definition asDateTimestampMs :: "int \<Rightarrow> int option" where
  "asDateTimestampMs t = (if isFiniteTimestamp t then Some t else None)"

text \<open>\<open>parseStrictInteger\<close> on a text: an optional sign and decimal digits, within the safe integers.\<close>

definition MAX_SAFE_INT :: int where "MAX_SAFE_INT = 9007199254740991"

definition all_digits :: "string \<Rightarrow> bool" where
  "all_digits s \<longleftrightarrow> s \<noteq> [] \<and> list_all is_digit s"

definition digits_int :: "string \<Rightarrow> int" where
  "digits_int s = foldl (\<lambda>acc c. acc * 10 + (of_char c - 48)) 0 s"

definition parseStrictInteger :: "string \<Rightarrow> int option" where
  "parseStrictInteger value =
     (let s = js_trim value;
          body = (case s of c # r \<Rightarrow> if c = CHR ''+'' \<or> c = CHR ''-'' then r else s | [] \<Rightarrow> []);
          n = (if js_startsWith s ''-'' then - digits_int body else digits_int body)
      in if all_digits body \<and> \<bar>n\<bar> \<le> MAX_SAFE_INT then Some n else None)"

definition parseStrictPositiveInteger :: "string \<Rightarrow> int option" where
  "parseStrictPositiveInteger value =
     (case parseStrictInteger value of Some n \<Rightarrow> if 0 < n then Some n else None | None \<Rightarrow> None)"

definition parseStrictNonNegativeInteger :: "string \<Rightarrow> int option" where
  "parseStrictNonNegativeInteger value =
     (case parseStrictInteger value of Some n \<Rightarrow> if 0 \<le> n then Some n else None | None \<Rightarrow> None)"

section \<open>The calendar without a limit on the year\<close>

definition GREGORIAN_CYCLE_MS :: int where "GREGORIAN_CYCLE_MS = 146097 * 86400000"

text \<open>\<open>x % n\<close> has the sign of \<open>x\<close>.\<close>

definition js_rem :: "int \<Rightarrow> int \<Rightarrow> int" where
  "js_rem x n = (if x < 0 then - (- x mod n) else x mod n)"

text \<open>\<open>setUTCFullYear\<close> and \<open>setUTCHours\<close> carry what exceeds a field into the next one.\<close>

definition utc_day :: "int \<Rightarrow> int \<Rightarrow> int \<Rightarrow> int" where
  "utc_day year monthIndex day =
     (let y = year + monthIndex div 12
      in day_from_year y + month_starts y ! nat (monthIndex mod 12) + day - 1)"

definition getUtcCalendarTimeMs :: "int \<Rightarrow> int \<Rightarrow> int \<Rightarrow> int \<Rightarrow> int \<Rightarrow> int \<Rightarrow> int \<Rightarrow> int" where
  "getUtcCalendarTimeMs year monthIndex day hour minute second millisecond =
     (let yearInCycle = js_rem year 400
      in utc_day yearInCycle monthIndex day * MS_PER_DAY +
         hour * 3600000 + minute * 60000 + second * 1000 + millisecond +
         ((year - yearInCycle) div 400) * GREGORIAN_CYCLE_MS)"

section \<open>The ISO forms\<close>

record iso_clock =
  ic_hour :: int
  ic_minute :: int
  ic_second :: "int option"
  ic_fraction :: "string option"
  ic_offset :: "string option"

record iso_match =
  im_year :: int
  im_month :: int
  im_day :: int
  im_clock :: "iso_clock option"

text \<open>Exactly \<open>n\<close> digits at the start of a text, and the text after them.\<close>

definition take_digits :: "nat \<Rightarrow> string \<Rightarrow> (string \<times> string) option" where
  "take_digits n s = (if length s < n \<or> \<not> list_all is_digit (take n s) then None
     else Some (take n s, drop n s))"

text \<open>\<open>Some\<close> the text after a given character.\<close>

definition after_char :: "char \<Rightarrow> string \<Rightarrow> string option" where
  "after_char c s = (case s of x # r \<Rightarrow> if x = c then Some r else None | [] \<Rightarrow> None)"

text \<open>\<open>([Zz]|[+-]\d{2}:?\d{2})?$\<close>: the outer \<open>None\<close> is no match.\<close>

definition iso_offset :: "string \<Rightarrow> string option option" where
  "iso_offset s = (case s of
       [] \<Rightarrow> Some None
     | x # r \<Rightarrow>
         if x = CHR ''Z'' \<or> x = CHR ''z'' then (if r = [] then Some (Some s) else None)
         else if x = CHR ''+'' \<or> x = CHR ''-'' then
           (case take_digits 2 r of None \<Rightarrow> None
            | Some (_, r2) \<Rightarrow>
                (case take_digits 2 (case after_char (CHR '':'') r2 of Some r3 \<Rightarrow> r3 | None \<Rightarrow> r2) of
                   None \<Rightarrow> None
                 | Some (_, r4) \<Rightarrow> if r4 = [] then Some (Some s) else None))
         else None)"

text \<open>\<open>(?::(\d{2})(\.\d+)?)?\<close> and the offset.\<close>

definition iso_seconds :: "string \<Rightarrow> (int option \<times> string option \<times> string option) option" where
  "iso_seconds s = (case after_char (CHR '':'') s of
       None \<Rightarrow> map_option (\<lambda>off. (None, None, off)) (iso_offset s)
     | Some r \<Rightarrow>
         (case take_digits 2 r of None \<Rightarrow> None
          | Some (sec, r2) \<Rightarrow>
              (case after_char (CHR ''.'') r2 of
                 Some r3 \<Rightarrow>
                   (let frac = takeWhile is_digit r3
                    in if frac = [] then None
                       else map_option (\<lambda>off. (Some (digits_int sec), Some frac, off))
                              (iso_offset (dropWhile is_digit r3)))
               | None \<Rightarrow> map_option (\<lambda>off. (Some (digits_int sec), None, off)) (iso_offset r2))))"

definition iso_time :: "string \<Rightarrow> iso_clock option" where
  "iso_time s = (case take_digits 2 s of None \<Rightarrow> None
     | Some (h, r) \<Rightarrow>
         (case after_char (CHR '':'') r of None \<Rightarrow> None
          | Some r2 \<Rightarrow>
              (case take_digits 2 r2 of None \<Rightarrow> None
               | Some (m, r3) \<Rightarrow>
                   map_option (\<lambda>(sec, frac, off).
                     \<lparr>ic_hour = digits_int h, ic_minute = digits_int m, ic_second = sec,
                      ic_fraction = frac, ic_offset = off\<rparr>) (iso_seconds r3))))"

text \<open>\<open>[+-]\d{6}|\d{4}\<close>, but not \<open>-000000\<close>.\<close>

definition iso_year :: "string \<Rightarrow> (int \<times> string) option" where
  "iso_year s = (if js_startsWith s ''-000000'' then None
     else case s of
         [] \<Rightarrow> None
       | c # r \<Rightarrow>
           if c = CHR ''+'' \<or> c = CHR ''-'' then
             map_option (\<lambda>(ds, r2). ((if c = CHR ''-'' then - digits_int ds else digits_int ds), r2))
               (take_digits 6 r)
           else map_option (\<lambda>(ds, r2). (digits_int ds, r2)) (take_digits 4 s))"

definition dash_two :: "string \<Rightarrow> (int \<times> string) option" where
  "dash_two s = (case after_char (CHR ''-'') s of None \<Rightarrow> None
     | Some r \<Rightarrow> map_option (\<lambda>(ds, r2). (digits_int ds, r2)) (take_digits 2 r))"

definition ISO_ABSOLUTE_RE :: "string \<Rightarrow> iso_match option" where
  "ISO_ABSOLUTE_RE raw = (case iso_year raw of None \<Rightarrow> None
     | Some (y, r) \<Rightarrow>
         (case dash_two r of None \<Rightarrow> None
          | Some (mo, r2) \<Rightarrow>
              (case dash_two r2 of None \<Rightarrow> None
               | Some (d, r3) \<Rightarrow>
                   (case r3 of
                      [] \<Rightarrow> Some \<lparr>im_year = y, im_month = mo, im_day = d, im_clock = None\<rparr>
                    | t # r4 \<Rightarrow>
                        if t = CHR ''T'' \<or> t = CHR ''t'' then
                          map_option (\<lambda>clock. \<lparr>im_year = y, im_month = mo, im_day = d,
                                               im_clock = Some clock\<rparr>) (iso_time r4)
                        else None))))"

definition normalizeUtcIso :: "string \<Rightarrow> string" where
  "normalizeUtcIso raw = (case ISO_ABSOLUTE_RE raw of
       Some m \<Rightarrow>
         (case im_clock m of
            None \<Rightarrow> raw @ ''T00:00:00Z''
          | Some clock \<Rightarrow> if ic_offset clock = None then raw @ ''Z'' else raw)
     | None \<Rightarrow> raw)"

definition fraction_ms :: "string option \<Rightarrow> int" where
  "fraction_ms f = (case f of Some ds \<Rightarrow> digits_int (take 3 (ds @ ''000'')) | None \<Rightarrow> 0)"

text \<open>The fields a \<open>Date\<close> shows for an instant: year, month from 0, day, hour, minute, second, millisecond.\<close>

definition utc_fields :: "int \<Rightarrow> int \<times> int \<times> int \<times> int \<times> int \<times> int \<times> int" where
  "utc_fields t = (let d = t div MS_PER_DAY; ms = t mod MS_PER_DAY; y = year_from_day d;
                       r = d - day_from_year y
     in (y, int (month_of y r), day_of_month y r, ms div 3600000, ms div 60000 mod 60,
         ms div 1000 mod 60, ms mod 1000))"

definition parseIsoCalendarTimeMs :: "string \<Rightarrow> int option" where
  "parseIsoCalendarTimeMs raw = (case ISO_ABSOLUTE_RE raw of None \<Rightarrow> None
     | Some m \<Rightarrow>
         (let clock = im_clock m;
              hour = (case clock of Some c \<Rightarrow> ic_hour c | None \<Rightarrow> 0);
              minute = (case clock of Some c \<Rightarrow> ic_minute c | None \<Rightarrow> 0);
              second = (case clock of Some c \<Rightarrow> (case ic_second c of Some s \<Rightarrow> s | None \<Rightarrow> 0) | None \<Rightarrow> 0);
              fraction = (case clock of Some c \<Rightarrow> ic_fraction c | None \<Rightarrow> None);
              millisecond = fraction_ms fraction;
              hasZeroFraction = (case fraction of Some ds \<Rightarrow> list_all (\<lambda>c. c = CHR ''0'') ds | None \<Rightarrow> True);
              isEndOfDay = (hour = 24 \<and> minute = 0 \<and> second = 0 \<and> hasZeroFraction);
              yearInCycle = js_rem (im_year m) 400;
              shownHour = (if isEndOfDay then 0 else hour);
              probe = getUtcCalendarTimeMs yearInCycle (im_month m - 1) (im_day m) shownHour minute second
                        millisecond
          in if utc_fields probe \<noteq>
                 (yearInCycle, im_month m - 1, im_day m, shownHour, minute, second, millisecond)
             then None
             else Some (getUtcCalendarTimeMs (im_year m) (im_month m - 1) (im_day m) hour minute second
                          millisecond)))"

definition hasValidIsoCalendarComponents :: "string \<Rightarrow> bool" where
  "hasValidIsoCalendarComponents raw \<longleftrightarrow> parseIsoCalendarTimeMs raw \<noteq> None"

section \<open>Absolute times and wall times\<close>

definition parseAbsoluteTimeMs :: "(string \<Rightarrow> int option) \<Rightarrow> string \<Rightarrow> int option" where
  "parseAbsoluteTimeMs dateParse input =
     (let raw = js_trim input
      in if raw = [] then None
         else if all_digits raw then
           (case parseStrictPositiveInteger raw of
              Some n \<Rightarrow> if isFiniteTimestamp n then Some n else None
            | None \<Rightarrow> None)
         else if \<not> hasValidIsoCalendarComponents raw then None
         else (case dateParse (normalizeUtcIso raw) of
                 Some t \<Rightarrow> asDateTimestampMs t
               | None \<Rightarrow> None))"

text \<open>
  \<open>parseOffsetlessIsoDateTimeInTimeZone\<close>, from the wall time \<open>naiveMs\<close> its text denotes to the
  instant its result denotes: the first instant at which the zone shows that wall time.
\<close>

definition zoned_candidates :: "(int \<Rightarrow> int option) \<Rightarrow> int \<Rightarrow> int list \<Rightarrow> int option list" where
  "zoned_candidates wall naiveMs probes =
     List.map (\<lambda>probe. map_option (\<lambda>w. naiveMs - (w - probe)) (wall probe)) probes"

definition parseOffsetlessInTimeZone :: "(int \<Rightarrow> int option) \<Rightarrow> int \<Rightarrow> int option" where
  "parseOffsetlessInTimeZone wall naiveMs =
     (let probes = filter isFiniteTimestamp [naiveMs - 86400000, naiveMs, naiveMs + 86400000];
          candidates = zoned_candidates wall naiveMs probes;
          checked = filter isFiniteTimestamp (List.map the candidates);
          matching = filter (\<lambda>c. wall c = Some naiveMs) checked
      in if None \<in> set candidates \<or> (\<exists>c \<in> set checked. wall c = None) then None
         else if matching = [] then None
         else Some (Min (set matching)))"

lemma isFiniteTimestamp_as [simp]: "asDateTimestampMs t = Some u \<longleftrightarrow> u = t \<and> isFiniteTimestamp t"
  by (auto simp: asDateTimestampMs_def)

lemma parseAbsolute_valid: "parseAbsoluteTimeMs dp s = Some t \<Longrightarrow> isFiniteTimestamp t"
  by (auto simp: parseAbsoluteTimeMs_def Let_def split: if_splits option.splits)

lemma parseOffsetless_valid:
  assumes "parseOffsetlessInTimeZone wall n = Some t"
  shows "isFiniteTimestamp t" "wall t = Some n"
proof -
  from assms obtain S where S: "t = Min S" "finite S" "S \<noteq> {}" "\<forall>c \<in> S. isFiniteTimestamp c \<and> wall c = Some n"
    by (fastforce simp: parseOffsetlessInTimeZone_def Let_def split: if_splits)
  from Min_in [OF S(2,3)] S show "isFiniteTimestamp t" "wall t = Some n"
    by auto
qed

end
