(* ===== verification/Cron_Schedule.thy ===== *)
theory Cron_Schedule
  imports Cron_Time
begin

text \<open>
  When a schedule is due next (\<open>src/cron/schedule.ts\<close>, \<open>src/cron/stagger.ts\<close>): one instant, an
  interval from an anchor, or a cron expression in a time zone.

  The \<open>croner\<close> package and \<open>Intl\<close> are the parameter \<open>cron_lib\<close>. An object \<open>Cron\<close> is what its methods
  answer: \<open>nextRun\<close>, \<open>match\<close> and \<open>previousRuns(1, _)[0]\<close> (\<open>Inl\<close> the text of the error it throws). A \<open>Date\<close>
  it answers is valid, so an answer outside the range of a \<open>Date\<close> is read as none. The
  formatters throw for a zone that does not exist, and then \<open>nextRun\<close> and \<open>previousRuns\<close>, which are always
  called first, have thrown. The cache of \<open>Cron\<close> objects is left out: an object has no state that a
  query changes.
\<close>

section \<open>Schedules\<close>

text \<open>A stagger as it is stored: a number or a text.\<close>

datatype stagger_value = Stagger_number int | Stagger_text string

text \<open>An expression that is not a string is \<open>None\<close>.\<close>

datatype CronSchedule =
    Sched_at string
  | Sched_every int "int option"
  | Sched_cron "string option" "string option" "stagger_value option"
  | Sched_on_exit string "string option"
  | Sched_stream "string list" "string option" "string option" "string option" "int option" "int option"

fun is_cron :: "CronSchedule \<Rightarrow> bool" where
  "is_cron (Sched_cron _ _ _) = True" | "is_cron _ = False"

fun is_at :: "CronSchedule \<Rightarrow> bool" where
  "is_at (Sched_at _) = True" | "is_at _ = False"

fun is_every :: "CronSchedule \<Rightarrow> bool" where
  "is_every (Sched_every _ _) = True" | "is_every _ = False"

fun is_stream :: "CronSchedule \<Rightarrow> bool" where
  "is_stream (Sched_stream _ _ _ _ _ _) = True" | "is_stream _ = False"

fun is_on_exit :: "CronSchedule \<Rightarrow> bool" where
  "is_on_exit (Sched_on_exit _ _) = True" | "is_on_exit _ = False"

section \<open>The packages the schedules use\<close>

record Cron =
  cron_nextRun :: "int \<Rightarrow> string + int option"
  cron_match :: "int \<Rightarrow> bool"
  cron_previousRun :: "int \<Rightarrow> string + int option"

record cron_lib =
  lib_Cron :: "string \<Rightarrow> string \<Rightarrow> string + Cron"
  lib_localTimeZone :: string
  lib_longOffset :: "string \<Rightarrow> int \<Rightarrow> string option"
  lib_cronDate :: "string \<Rightarrow> int \<Rightarrow> int"
  lib_zonedWall :: "string \<Rightarrow> int \<Rightarrow> int option"
  lib_dateParse :: "string \<Rightarrow> int option"
  lib_sha256_u32 :: "string \<Rightarrow> int"

text \<open>The time of a \<open>Date | null\<close>.\<close>

definition date_time :: "string + int option \<Rightarrow> string + int option" where
  "date_time r = (case r of Inl e \<Rightarrow> Inl e | Inr None \<Rightarrow> Inr None | Inr (Some t) \<Rightarrow> Inr (asDateTimestampMs t))"

definition nextRun :: "Cron \<Rightarrow> int \<Rightarrow> string + int option" where
  "nextRun cron t = date_time (cron_nextRun cron t)"

definition previousRun :: "Cron \<Rightarrow> int \<Rightarrow> string + int option" where
  "previousRun cron t = date_time (cron_previousRun cron t)"

lemma nextRun_valid: "nextRun cron t = Inr (Some u) \<Longrightarrow> isFiniteTimestamp u"
  by (auto simp: nextRun_def date_time_def split: sum.splits option.splits)

lemma previousRun_valid: "previousRun cron t = Inr (Some u) \<Longrightarrow> isFiniteTimestamp u"
  by (auto simp: previousRun_def date_time_def split: sum.splits option.splits)

section \<open>Cron expressions across changes of the clock\<close>

definition DAY_MS :: int where "DAY_MS = 86400000"

definition resolveCronTimezone :: "cron_lib \<Rightarrow> string option \<Rightarrow> string" where
  "resolveCronTimezone L tz = (case normalizeOptionalString tz of
       Some zone \<Rightarrow> zone
     | None \<Rightarrow> lib_localTimeZone L)"

definition resolveCronFromSchedule ::
  "cron_lib \<Rightarrow> string option \<Rightarrow> string option \<Rightarrow> string + (Cron \<times> string) option" where
  "resolveCronFromSchedule L expr tz = (case expr of
       None \<Rightarrow> Inl ''invalid cron schedule: expr is required''
     | Some text \<Rightarrow>
         (let e = js_trim text
          in if e = [] then Inr None
             else let timezone = resolveCronTimezone L tz
                  in case lib_Cron L e timezone of
                       Inl err \<Rightarrow> Inl err
                     | Inr cron \<Rightarrow> Inr (Some (cron, timezone))))"

definition hasNearbyCronTimezoneTransition :: "cron_lib \<Rightarrow> string \<Rightarrow> int \<Rightarrow> int \<Rightarrow> bool" where
  "hasNearbyCronTimezoneTransition L timezone nowMs candidateMs =
     (let readOffset = lib_longOffset L timezone;
          currentOffset = readOffset nowMs; candidateOffset = readOffset candidateMs
      in currentOffset \<noteq> candidateOffset \<or>
         currentOffset \<noteq> readOffset (nowMs - DAY_MS) \<or>
         candidateOffset \<noteq> readOffset (candidateMs - DAY_MS))"

definition resolveFirstCronOccurrenceMs :: "cron_lib \<Rightarrow> int \<Rightarrow> string \<Rightarrow> int option" where
  "resolveFirstCronOccurrenceMs L instantMs timezone =
     parseOffsetlessInTimeZone (lib_zonedWall L timezone) (lib_cronDate L timezone instantMs)"

text \<open>The bisection for the second at which the offset changes.\<close>

function transition_second :: "(int \<Rightarrow> int) \<Rightarrow> int \<Rightarrow> int \<Rightarrow> int \<Rightarrow> int" where
  "transition_second offsetOf previousOffsetMs beforeSeconds afterSeconds =
     (if 1 < afterSeconds - beforeSeconds then
        let middleSeconds = (beforeSeconds + afterSeconds) div 2
        in if offsetOf middleSeconds = previousOffsetMs
           then transition_second offsetOf previousOffsetMs middleSeconds afterSeconds
           else transition_second offsetOf previousOffsetMs beforeSeconds middleSeconds
      else afterSeconds)"
  by pat_completeness auto
termination
  by (relation "measure (\<lambda>(_, _, b, a). nat (a - b))") auto

declare transition_second.simps [simp del]

definition findCronTimezoneTransitionMs :: "cron_lib \<Rightarrow> int \<Rightarrow> int \<Rightarrow> string \<Rightarrow> int option" where
  "findCronTimezoneTransitionMs L firstMs lastMs timezone =
     (let beforeSeconds = min firstMs lastMs div 1000;
          afterSeconds = max firstMs lastMs div 1000;
          offsetOf = (\<lambda>seconds. lib_cronDate L timezone (seconds * 1000) - seconds * 1000)
      in if offsetOf beforeSeconds = offsetOf afterSeconds then None
         else Some (transition_second offsetOf (offsetOf beforeSeconds) beforeSeconds afterSeconds * 1000))"

lemma transition_second_bounds:
  "b \<le> a \<Longrightarrow> transition_second f p b a \<le> a"
proof (induction f p b a rule: transition_second.induct)
  case (1 f p b a)
  show ?case
  proof (cases "1 < a - b")
    case True
    let ?m = "(b + a) div 2"
    have "b \<le> ?m" "?m \<le> a"
      using True by auto
    with True 1 show ?thesis
      by (subst transition_second.simps) (auto simp: Let_def)
  qed (subst transition_second.simps, simp)
qed

text \<open>At the first second with a new offset, the second before it still has the old one.\<close>

theorem transition_second_brackets:
  assumes "b < a" "f b = p" "f a \<noteq> p"
  shows "b < transition_second f p b a" "transition_second f p b a \<le> a"
    "f (transition_second f p b a) \<noteq> p" "f (transition_second f p b a - 1) = p"
proof -
  have "b < transition_second f p b a \<and> transition_second f p b a \<le> a \<and>
      f (transition_second f p b a) \<noteq> p \<and> f (transition_second f p b a - 1) = p"
    using assms
  proof (induction f p b a rule: transition_second.induct)
    case (1 f p b a)
    show ?case
    proof (cases "1 < a - b")
      case True
      let ?m = "(b + a) div 2"
      have m: "b < ?m" "?m < a"
        using True by auto
      show ?thesis
      proof (cases "f ?m = p")
        case fm: True
        have "transition_second f p b a = transition_second f p ?m a"
          using True fm by (subst transition_second.simps) simp
        with "1.IH"(1) [OF True refl fm] fm m 1 show ?thesis
          by auto
      next
        case fm: False
        have "transition_second f p b a = transition_second f p b ?m"
          using True fm by (subst transition_second.simps) simp
        with "1.IH"(2) [OF True refl fm] fm m 1 show ?thesis
          by auto
      qed
    next
      case False
      with 1 have "a = b + 1"
        by auto
      with 1 False show ?thesis
        by (subst (1 2 3 4) transition_second.simps) simp
    qed
  qed
  then show "b < transition_second f p b a" "transition_second f p b a \<le> a"
    "f (transition_second f p b a) \<noteq> p" "f (transition_second f p b a - 1) = p"
    by blast+
qed

lemma findTransition_le:
  assumes "findCronTimezoneTransitionMs L a b tz = Some n" "a \<le> b"
  shows "n \<le> b"
proof -
  have "min a b div 1000 \<le> max a b div 1000"
    using assms(2) by (intro zdiv_mono1) auto
  from transition_second_bounds [OF this] assms have "n \<le> max a b div 1000 * 1000"
    by (auto simp: findCronTimezoneTransitionMs_def Let_def split: if_splits)
  moreover have "x div 1000 * 1000 \<le> x" for x :: int
    by presburger
  ultimately show ?thesis
    using assms(2) by (metis max.absorb2 order_trans)
qed

text \<open>
  \<open>resolveCronRunAtTransitionMs\<close>: from one change of the clock to the next one, until the expression
  matches an instant. Each step goes to a later change, and none is later than the last \<open>Date\<close>.
\<close>

function resolveCronRunAtTransitionMs :: "cron_lib \<Rightarrow> Cron \<Rightarrow> int \<Rightarrow> string \<Rightarrow> string + int option" where
  "resolveCronRunAtTransitionMs L cron transition timezone =
     (case (if cron_match cron transition then Inr (asDateTimestampMs transition)
            else nextRun cron transition) of
        Inl e \<Rightarrow> Inl e
      | Inr None \<Rightarrow> Inr None
      | Inr (Some candidateMs) \<Rightarrow>
          if cron_match cron candidateMs then Inr (resolveFirstCronOccurrenceMs L candidateMs timezone)
          else (case findCronTimezoneTransitionMs L (candidateMs - DAY_MS) candidateMs timezone of
                  None \<Rightarrow> Inr None
                | Some nextTransitionMs \<Rightarrow>
                    if nextTransitionMs \<le> transition then Inr None
                    else resolveCronRunAtTransitionMs L cron nextTransitionMs timezone))"
  by pat_completeness auto
termination
proof (relation "measure (\<lambda>(_, _, t, _). nat (MAX_DATE_TIMESTAMP_MS - t))", goal_cases)
  case (2 L cron t tz r c n)
  have "isFiniteTimestamp c"
    using 2(1-2) nextRun_valid [of cron t c] by (cases "cron_match cron t") auto
  moreover have "n \<le> c"
    using findTransition_le [OF 2(4)] by (simp add: DAY_MS_def)
  ultimately show ?case
    using 2(5) by (simp add: isFiniteTimestamp_def)
qed simp

declare resolveCronRunAtTransitionMs.simps [simp del]


definition resolveNextCronOccurrenceMs ::
  "cron_lib \<Rightarrow> Cron \<Rightarrow> int \<Rightarrow> int \<Rightarrow> string \<Rightarrow> string + int option" where
  "resolveNextCronOccurrenceMs L cron nowMs nextMs timezone =
     (if \<not> cron_match cron nextMs then
        (case findCronTimezoneTransitionMs L (nextMs - DAY_MS) nextMs timezone of
           None \<Rightarrow> Inr None
         | Some transitionMs \<Rightarrow> resolveCronRunAtTransitionMs L cron transitionMs timezone)
      else
        (case resolveFirstCronOccurrenceMs L nextMs timezone of
           None \<Rightarrow> Inr None
         | Some firstOccurrenceMs \<Rightarrow>
             if nowMs < firstOccurrenceMs then Inr (Some firstOccurrenceMs)
             else
               let (startMs, endMs, overlapMs) =
                     (case resolveFirstCronOccurrenceMs L nowMs timezone of
                        Some firstCurrent \<Rightarrow>
                          if firstCurrent < nowMs then (firstCurrent, nowMs, nowMs - firstCurrent)
                          else (nowMs, nextMs, nextMs - firstOccurrenceMs)
                      | None \<Rightarrow> (nowMs, nextMs, nextMs - firstOccurrenceMs))
               in case findCronTimezoneTransitionMs L startMs endMs timezone of
                    None \<Rightarrow> Inr None
                  | Some transitionMs \<Rightarrow>
                      resolveCronRunAtTransitionMs L cron (transitionMs + overlapMs) timezone))"

definition resolveValidatedNextCronOccurrenceMs ::
  "cron_lib \<Rightarrow> Cron \<Rightarrow> int \<Rightarrow> int \<Rightarrow> string \<Rightarrow> string + int option" where
  "resolveValidatedNextCronOccurrenceMs L cron nowMs candidateMs timezone =
     (if nowMs < candidateMs \<and> \<not> hasNearbyCronTimezoneTransition L timezone nowMs candidateMs
      then Inr (Some candidateMs)
      else case resolveNextCronOccurrenceMs L cron nowMs candidateMs timezone of
             Inl e \<Rightarrow> Inl e
           | Inr None \<Rightarrow> Inr None
           | Inr (Some normalizedMs) \<Rightarrow> Inr (if nowMs < normalizedMs then Some normalizedMs else None))"

text \<open>A query of \<open>nextRun\<close> whose answer, if there is one, is validated.\<close>

definition validated_next :: "cron_lib \<Rightarrow> Cron \<Rightarrow> string \<Rightarrow> int \<Rightarrow> int \<Rightarrow> string + int option" where
  "validated_next L cron timezone nowMs fromMs =
     (case nextRun cron fromMs of
        Inl e \<Rightarrow> Inl e
      | Inr None \<Rightarrow> Inr None
      | Inr (Some t) \<Rightarrow> resolveValidatedNextCronOccurrenceMs L cron nowMs t timezone)"

text \<open>\<open>new Date(nowMs).setUTCHours(24, 0, 0, 0)\<close>: the next midnight.\<close>

definition tomorrowMs :: "int \<Rightarrow> int" where
  "tomorrowMs nowMs = (nowMs div DAY_MS + 1) * DAY_MS"

definition computeNextCronRunAtMs :: "cron_lib \<Rightarrow> Cron \<Rightarrow> string \<Rightarrow> int \<Rightarrow> string + int option" where
  "computeNextCronRunAtMs L cron timezone nowMs =
     (case nextRun cron nowMs of
        Inl e \<Rightarrow> Inl e
      | Inr None \<Rightarrow> Inr None
      | Inr (Some nextMs) \<Rightarrow>
          (case resolveValidatedNextCronOccurrenceMs L cron nowMs nextMs timezone of
             Inl e \<Rightarrow> Inl e
           | Inr (Some t) \<Rightarrow> Inr (Some t)
           | Inr None \<Rightarrow>
               if nowMs < nextMs then Inr None
               else
                 (case validated_next L cron timezone nowMs (nowMs div 1000 * 1000 + 1000) of
                    Inl e \<Rightarrow> Inl e
                  | Inr (Some t) \<Rightarrow> Inr (Some t)
                  | Inr None \<Rightarrow> validated_next L cron timezone nowMs (tomorrowMs nowMs))))"

section \<open>The next run\<close>

definition nextEveryRunAtMs :: "int \<Rightarrow> int option \<Rightarrow> int \<Rightarrow> int option" where
  "nextEveryRunAtMs everyMs anchorMs nowMs =
     (if \<not> isFiniteTimestamp everyMs \<or> everyMs < 1 then None
      else if (case anchorMs of Some a \<Rightarrow> \<not> isFiniteTimestamp a \<or> a < 0 | None \<Rightarrow> False) then None
      else
        let anchor = max 0 (case anchorMs of Some a \<Rightarrow> a | None \<Rightarrow> nowMs)
        in if nowMs < anchor then Some anchor
           else asDateTimestampMs (anchor + ((nowMs - anchor) div everyMs + 1) * everyMs))"

definition computeNextRunAtMs :: "cron_lib \<Rightarrow> CronSchedule \<Rightarrow> int \<Rightarrow> string + int option" where
  "computeNextRunAtMs L schedule nowMs =
     (if \<not> isFiniteTimestamp nowMs then Inr None
      else case schedule of
          Sched_at at \<Rightarrow>
            Inr (case parseAbsoluteTimeMs (lib_dateParse L) at of
                   None \<Rightarrow> None
                 | Some atMs \<Rightarrow> if nowMs < atMs then Some atMs else None)
        | Sched_every everyMs anchorMs \<Rightarrow> Inr (nextEveryRunAtMs everyMs anchorMs nowMs)
        | Sched_on_exit _ _ \<Rightarrow> Inr None
        | Sched_stream _ _ _ _ _ _ \<Rightarrow> Inr None
        | Sched_cron expr tz _ \<Rightarrow>
            (case resolveCronFromSchedule L expr tz of
               Inl e \<Rightarrow> Inl e
             | Inr None \<Rightarrow> Inr None
             | Inr (Some (cron, timezone)) \<Rightarrow> computeNextCronRunAtMs L cron timezone nowMs))"

section \<open>The previous run\<close>

text \<open>The loop that walks back over the changes of the clock; each step goes to an earlier instant.\<close>

function previous_walk :: "cron_lib \<Rightarrow> Cron \<Rightarrow> string \<Rightarrow> int \<Rightarrow> int \<Rightarrow> string + int option" where
  "previous_walk L cron timezone nowMs previousMs =
     (if \<not> cron_match cron previousMs \<or>
         nowMs \<le> (case resolveFirstCronOccurrenceMs L previousMs timezone of
                      Some t \<Rightarrow> t | None \<Rightarrow> previousMs) then
        (case findCronTimezoneTransitionMs L (previousMs - DAY_MS) previousMs timezone of
           None \<Rightarrow> Inr None
         | Some transitionMs \<Rightarrow>
             (let before = transitionMs - 1000
              in case (if cron_match cron before then Inr (asDateTimestampMs before)
                       else previousRun cron before) of
                   Inl e \<Rightarrow> Inl e
                 | Inr None \<Rightarrow> Inr None
                 | Inr (Some candidateMs) \<Rightarrow>
                     if previousMs \<le> candidateMs then Inr None
                     else previous_walk L cron timezone nowMs candidateMs))
      else Inr (case resolveFirstCronOccurrenceMs L previousMs timezone of
                  Some t \<Rightarrow> if t < nowMs then Some t else None
                | None \<Rightarrow> None))"
  by pat_completeness auto
termination
proof (relation "measure (\<lambda>(_, _, _, _, p). nat (p + MAX_DATE_TIMESTAMP_MS))", goal_cases)
  case (2 L cron tz now p t before r c)
  then have "isFiniteTimestamp c"
    using previousRun_valid [of cron before c] by (cases "cron_match cron before") auto
  then show ?case
    using 2 by (simp add: isFiniteTimestamp_def)
qed simp

declare previous_walk.simps [simp del]

text \<open>Inside a repeated interval the query goes to the end of the overlap.\<close>

definition previous_start :: "cron_lib \<Rightarrow> Cron \<Rightarrow> string \<Rightarrow> int \<Rightarrow> int option \<Rightarrow> string + int option" where
  "previous_start L cron timezone nowMs previousMs =
     (case resolveFirstCronOccurrenceMs L nowMs timezone of
        None \<Rightarrow> Inr previousMs
      | Some firstCurrent \<Rightarrow>
          if firstCurrent < nowMs then
            (case findCronTimezoneTransitionMs L firstCurrent nowMs timezone of
               None \<Rightarrow> Inr previousMs
             | Some transitionMs \<Rightarrow>
                 (case previousRun cron (transitionMs + nowMs - firstCurrent) of
                    Inl e \<Rightarrow> Inl e
                  | Inr None \<Rightarrow> Inr previousMs
                  | Inr (Some candidateMs) \<Rightarrow> Inr (Some candidateMs)))
          else Inr previousMs)"

definition computePreviousCronRunAtMs :: "cron_lib \<Rightarrow> Cron \<Rightarrow> string \<Rightarrow> int \<Rightarrow> string + int option" where
  "computePreviousCronRunAtMs L cron timezone nowMs =
     (case previousRun cron nowMs of
        Inl e \<Rightarrow> Inl e
      | Inr previousMs \<Rightarrow>
          if (case previousMs of
                Some p \<Rightarrow> p < nowMs \<and> \<not> hasNearbyCronTimezoneTransition L timezone nowMs p
              | None \<Rightarrow> False)
          then Inr previousMs
          else (case previous_start L cron timezone nowMs previousMs of
                  Inl e \<Rightarrow> Inl e
                | Inr None \<Rightarrow> Inr None
                | Inr (Some p) \<Rightarrow> previous_walk L cron timezone nowMs p))"

definition computePreviousRunAtMs :: "cron_lib \<Rightarrow> CronSchedule \<Rightarrow> int \<Rightarrow> string + int option" where
  "computePreviousRunAtMs L schedule nowMs =
     (if \<not> isFiniteTimestamp nowMs then Inr None
      else case schedule of
          Sched_cron expr tz _ \<Rightarrow>
            (case resolveCronFromSchedule L expr tz of
               Inl e \<Rightarrow> Inl e
             | Inr None \<Rightarrow> Inr None
             | Inr (Some (cron, timezone)) \<Rightarrow> computePreviousCronRunAtMs L cron timezone nowMs)
        | _ \<Rightarrow> Inr None)"

section \<open>Stagger windows\<close>

definition DEFAULT_TOP_OF_HOUR_STAGGER_MS :: int where
  "DEFAULT_TOP_OF_HOUR_STAGGER_MS = 5 * 60 * 1000"

text \<open>\<open>split(/\s+/)\<close> without empty parts: the words of a text.\<close>

fun words_from :: "string \<Rightarrow> string \<Rightarrow> string list" where
  "words_from w [] = (if w = [] then [] else [w])"
| "words_from w (c # s) =
     (if js_space c then (if w = [] then words_from [] s else w # words_from [] s)
      else words_from (w @ [c]) s)"

definition parseCronFields :: "string \<Rightarrow> string list" where
  "parseCronFields expr = words_from [] (js_trim expr)"

text \<open>\<open>(?:/\d+)?$\<close>: a step, or nothing.\<close>

definition step_suffix :: "string \<Rightarrow> bool" where
  "step_suffix s \<longleftrightarrow> (case s of [] \<Rightarrow> True | c # r \<Rightarrow> c = CHR ''/'' \<and> all_digits r)"

definition HOUR_LIST_PART :: "string \<Rightarrow> bool" where
  "HOUR_LIST_PART part \<longleftrightarrow>
     (let rest = dropWhile is_digit part
      in takeWhile is_digit part \<noteq> [] \<and>
         (step_suffix rest \<or>
          (case rest of
             c # r \<Rightarrow> c = CHR ''-'' \<and> takeWhile is_digit r \<noteq> [] \<and> step_suffix (dropWhile is_digit r)
           | [] \<Rightarrow> False))) \<or>
     (case part of c # r \<Rightarrow> (c = CHR ''*'' \<or> c = CHR ''?'') \<and> step_suffix r | [] \<Rightarrow> False)"

definition hasRecurringWildcardHour :: "string \<Rightarrow> bool" where
  "hasRecurringWildcardHour hours \<longleftrightarrow>
     (let parts = js_split (CHR '','') hours
      in list_all HOUR_LIST_PART parts \<and>
         list_ex (\<lambda>part. js_startsWith part ''*'' \<or> js_startsWith part ''?'') parts)"

definition isRecurringTopOfHourCronExpr :: "string \<Rightarrow> bool" where
  "isRecurringTopOfHourCronExpr expr =
     (case parseCronFields expr of
        [minuteField, hourField, _, _, _] \<Rightarrow> minuteField = ''0'' \<and> hasRecurringWildcardHour hourField
      | [secondField, minuteField, hourField, _, _, _] \<Rightarrow>
          secondField = ''0'' \<and> minuteField = ''0'' \<and> hasRecurringWildcardHour hourField
      | _ \<Rightarrow> False)"

definition normalizeCronStaggerMs :: "stagger_value option \<Rightarrow> int option" where
  "normalizeCronStaggerMs raw =
     (let numeric = (case raw of
            Some (Stagger_number n) \<Rightarrow> Some n
          | Some (Stagger_text s) \<Rightarrow> parseStrictNonNegativeInteger s
          | None \<Rightarrow> None)
      in case numeric of
           None \<Rightarrow> None
         | Some n \<Rightarrow> if max 0 n \<le> MAX_DATE_TIMESTAMP_MS then Some (max 0 n) else None)"

definition resolveDefaultCronStaggerMs :: "string \<Rightarrow> int option" where
  "resolveDefaultCronStaggerMs expr =
     (if isRecurringTopOfHourCronExpr expr then Some DEFAULT_TOP_OF_HOUR_STAGGER_MS else None)"

definition resolveCronStaggerMs :: "string option \<Rightarrow> stagger_value option \<Rightarrow> int" where
  "resolveCronStaggerMs expr staggerMs =
     (case normalizeCronStaggerMs staggerMs of
        Some explicit \<Rightarrow> explicit
      | None \<Rightarrow> (case resolveDefaultCronStaggerMs (case expr of Some e \<Rightarrow> e | None \<Rightarrow> []) of
                   Some d \<Rightarrow> d | None \<Rightarrow> 0))"

section \<open>Every answer lies on its side of now\<close>

lemma firstOccurrence_valid:
  "resolveFirstCronOccurrenceMs L t tz = Some u \<Longrightarrow> isFiniteTimestamp u"
  unfolding resolveFirstCronOccurrenceMs_def by (rule parseOffsetless_valid)

lemma runAtTransition_valid:
  "resolveCronRunAtTransitionMs L cron t tz = Inr (Some u) \<Longrightarrow> isFiniteTimestamp u"
proof (induction L cron t tz rule: resolveCronRunAtTransitionMs.induct)
  case (1 L cron t tz)
  then show ?case
    by (subst (asm) (2) resolveCronRunAtTransitionMs.simps)
       (auto simp: firstOccurrence_valid split: sum.splits option.splits if_splits)
qed

lemma resolveNext_valid:
  "resolveNextCronOccurrenceMs L cron now t tz = Inr (Some u) \<Longrightarrow> isFiniteTimestamp u"
  by (auto simp: resolveNextCronOccurrenceMs_def Let_def firstOccurrence_valid runAtTransition_valid
      split: if_splits option.splits prod.splits)

lemma validated_future:
  assumes "resolveValidatedNextCronOccurrenceMs L cron now t tz = Inr (Some u)" "isFiniteTimestamp t"
  shows "now < u" "isFiniteTimestamp u"
  using assms by (auto simp: resolveValidatedNextCronOccurrenceMs_def resolveNext_valid
      split: if_splits sum.splits option.splits)

lemma validated_next_future:
  assumes "validated_next L cron tz now from = Inr (Some u)"
  shows "now < u" "isFiniteTimestamp u"
  using assms validated_future nextRun_valid
  by (auto simp: validated_next_def split: sum.splits option.splits)

lemma nextCron_future:
  assumes "computeNextCronRunAtMs L cron tz now = Inr (Some u)"
  shows "now < u \<and> isFiniteTimestamp u"
  using assms validated_future validated_next_future nextRun_valid
  by (auto simp: computeNextCronRunAtMs_def split: sum.splits option.splits if_splits)

end
