(* ===== verification/Cron_Jobs.thy ===== *)
theory Cron_Jobs
  imports Cron_Schedule
begin

text \<open>
  The scheduling state of a cron job (\<open>src/cron/service/jobs-scheduling.ts\<close>, \<open>auto-disable.ts\<close>): when it
  runs next, how long a failure holds it back, when it is disabled, and the repair of the stored state
  on the ticks of the timer.

  The records keep the fields of \<open>CronJob\<close> and \<open>CronJobState\<close> (\<open>src/cron/types.ts\<close>) that the scheduler reads or
  writes. An operation on a job answers the job it leaves, whether it changed it, and the
  notifications it queues (a notification is the fact its text reports). What an operation reads
  from the service is the record \<open>cron_ctx\<close>: the packages, the reservations of queued runs, the
  jobs active in the process, the clock as one reading, and the random identities.
\<close>

section \<open>Jobs\<close>

datatype run_status = Run_ok | Run_error | Run_skipped

datatype disable_reason = Consecutive_failures | Schedule_errors

record auto_disabled =
  ad_reason :: disable_reason
  ad_atMs :: int
  ad_consecutiveErrors :: int

datatype delivery_status = Delivered | Not_delivered | Delivery_unknown | Not_requested

record delivery_facts =
  df_lastDelivered :: "bool option"
  df_lastDeliveryStatus :: "delivery_status option"
  df_deliverySuppressionReason :: "string option"
  df_lastDeliveryError :: "string option"
  df_lastFailureNotificationDelivered :: "bool option"
  df_lastFailureNotificationDeliveryStatus :: "delivery_status option"
  df_lastFailureNotificationDeliveryError :: "string option"

record trigger_facts =
  tf_lastTriggerEvalAtMs :: "int option"
  tf_triggerEvalCount :: "int option"
  tf_lastTriggerFireAtMs :: "int option"
  tf_triggerState :: "string option"

record CronJobState =
  st_nextRunAtMs :: "int option"
  st_scheduleActivatedAtMs :: "int option"
  st_startupCatchupAtMs :: "int option"
  st_pacedNextRunAtMs :: "int option"
  st_forcePreservedNextRunAtMs :: "int option"
  st_queuedAtMs :: "int option"
  st_runningAtMs :: "int option"
  st_lastRunAtMs :: "int option"
  st_lastRunStatus :: "run_status option"
  st_lastStatus :: "run_status option"
  st_lastError :: "string option"
  st_lastErrorReason :: "string option"
  st_lastDurationMs :: "int option"
  st_consecutiveErrors :: "int option"
  st_consecutiveSkipped :: "int option"
  st_autoDisabled :: "auto_disabled option"
  st_lastFailureAlertAtMs :: "int option"
  st_scheduleErrorCount :: "int option"
  st_streamSourceIdentity :: "string option"
  st_trigger :: trigger_facts
  st_delivery :: delivery_facts

datatype CronPayload =
    Payload_systemEvent string
  | Payload_agentTurn string
  | Payload_command
  | Payload_script
  | Payload_heartbeat
  | Payload_skillCollectionReview

record CronTrigger =
  ct_script :: string
  ct_once :: "bool option"

record CronPacing =
  cp_min :: "string option"
  cp_max :: "string option"

record CronJob =
  cj_id :: string
  cj_name :: string
  cj_enabled :: "bool option"
  cj_deleteAfterRun :: bool
  cj_createdAtMs :: int
  cj_updatedAtMs :: int
  cj_schedule :: CronSchedule
  cj_pacing :: "CronPacing option"
  cj_mainSession :: bool
  cj_wakeNow :: bool
  cj_payload :: CronPayload
  cj_bestEffort :: bool
  cj_ownFailureAlert :: bool
  cj_trigger :: "CronTrigger option"
  cj_state :: CronJobState

record run_reservation =
  rv_markerAtMs :: int
  rv_preserveWhenDisabled :: bool

record cron_ctx =
  cx_lib :: cron_lib
  cx_reservation :: "string \<Rightarrow> run_reservation option"
  cx_active :: "string \<Rightarrow> bool"
  cx_clock :: int
  cx_uuid :: "string \<Rightarrow> string"

datatype cron_note =
    Note_auto_disabled string disable_reason int
  | Note_failure_alert string run_status int
  | Note_delivery_alert string

text \<open>Writing the state of a job.\<close>

definition set_state :: "(CronJobState \<Rightarrow> CronJobState) \<Rightarrow> CronJob \<Rightarrow> CronJob" where
  "set_state f job = job\<lparr>cj_state := f (cj_state job)\<rparr>"

definition set_next :: "int option \<Rightarrow> CronJob \<Rightarrow> CronJob" where
  "set_next t = set_state (\<lambda>s. s\<lparr>st_nextRunAtMs := t\<rparr>)"

abbreviation nextRunAtMs :: "CronJob \<Rightarrow> int option" where
  "nextRunAtMs job \<equiv> st_nextRunAtMs (cj_state job)"

section \<open>Error backoff\<close>

definition DEFAULT_ERROR_BACKOFF_SCHEDULE_MS :: "int list" where
  "DEFAULT_ERROR_BACKOFF_SCHEDULE_MS = [30000, 60000, 5 * 60000, 15 * 60000, 60 * 60000]"

definition hasScheduledNextRunAtMs :: "int option \<Rightarrow> bool" where
  "hasScheduledNextRunAtMs value \<longleftrightarrow> (case value of Some t \<Rightarrow> isFiniteTimestamp t \<and> 0 < t | None \<Rightarrow> False)"

definition resolveJobLastRunStatus :: "CronJob \<Rightarrow> run_status option" where
  "resolveJobLastRunStatus job = (case st_lastRunStatus (cj_state job) of
       Some s \<Rightarrow> Some s
     | None \<Rightarrow> st_lastStatus (cj_state job))"

definition errorBackoffMs :: "int \<Rightarrow> int list \<Rightarrow> int" where
  "errorBackoffMs consecutiveErrors scheduleMs =
     scheduleMs ! nat (max 0 (min (consecutiveErrors - 1) (int (length scheduleMs) - 1)))"

definition resolveJobErrorBackoffUntilMs :: "CronJob \<Rightarrow> int option" where
  "resolveJobErrorBackoffUntilMs job =
     (case st_lastRunAtMs (cj_state job) of
        Some lastRunAtMs \<Rightarrow>
          if resolveJobLastRunStatus job \<noteq> Some Run_error \<or> \<not> isFiniteTimestamp lastRunAtMs then None
          else
            let consecutiveErrors = (case st_consecutiveErrors (cj_state job) of Some n \<Rightarrow> max 1 n | None \<Rightarrow> 1);
                lastDurationMs = (case st_lastDurationMs (cj_state job) of Some d \<Rightarrow> max 0 d | None \<Rightarrow> 0)
            in asDateTimestampMs (lastRunAtMs + lastDurationMs +
                 errorBackoffMs consecutiveErrors DEFAULT_ERROR_BACKOFF_SCHEDULE_MS)
      | None \<Rightarrow> None)"

section \<open>Staggered cron slots\<close>

text \<open>The offset of a job; the cache in front of the digest does not change it.\<close>

definition resolveStableCronOffsetMs :: "cron_lib \<Rightarrow> string \<Rightarrow> int \<Rightarrow> int" where
  "resolveStableCronOffsetMs L jobId staggerMs =
     (if staggerMs \<le> 1 then 0 else lib_sha256_u32 L jobId mod staggerMs)"

text \<open>The attempts of the two loops, at most four, over a source of slots.\<close>

primrec staggered_next :: "nat \<Rightarrow> (int \<Rightarrow> string + int option) \<Rightarrow> int \<Rightarrow> int \<Rightarrow> int \<Rightarrow> string + int option" where
  "staggered_next 0 next offsetMs nowMs cursorMs = Inr None"
| "staggered_next (Suc attempts) next offsetMs nowMs cursorMs =
     (case next cursorMs of
        Inl e \<Rightarrow> Inl e
      | Inr None \<Rightarrow> Inr None
      | Inr (Some baseNext) \<Rightarrow>
          if isFiniteTimestamp (baseNext + offsetMs) \<and> nowMs < baseNext + offsetMs
          then Inr (Some (baseNext + offsetMs))
          else staggered_next attempts next offsetMs nowMs (max (cursorMs + 1) (baseNext + 1000)))"

primrec staggered_previous ::
  "nat \<Rightarrow> (int \<Rightarrow> string + int option) \<Rightarrow> int \<Rightarrow> int \<Rightarrow> int \<Rightarrow> string + int option" where
  "staggered_previous 0 previous offsetMs nowMs cursorMs = Inr None"
| "staggered_previous (Suc attempts) previous offsetMs nowMs cursorMs =
     (case previous cursorMs of
        Inl e \<Rightarrow> Inl e
      | Inr None \<Rightarrow> Inr None
      | Inr (Some basePrevious) \<Rightarrow>
          if isFiniteTimestamp (basePrevious + offsetMs) \<and> basePrevious + offsetMs \<le> nowMs
          then Inr (Some (basePrevious + offsetMs))
          else staggered_previous attempts previous offsetMs nowMs (max 0 (basePrevious - 1000)))"

definition job_offset :: "cron_lib \<Rightarrow> CronJob \<Rightarrow> string option \<Rightarrow> stagger_value option \<Rightarrow> int" where
  "job_offset L job expr staggerMs =
     resolveStableCronOffsetMs L (cj_id job) (resolveCronStaggerMs expr staggerMs)"

definition computeStaggeredCronNextRunAtMs :: "cron_lib \<Rightarrow> CronJob \<Rightarrow> int \<Rightarrow> string + int option" where
  "computeStaggeredCronNextRunAtMs L job nowMs = (case cj_schedule job of
       Sched_cron expr tz staggerMs \<Rightarrow>
         (let offsetMs = job_offset L job expr staggerMs
          in if offsetMs \<le> 0 then computeNextRunAtMs L (cj_schedule job) nowMs
             else staggered_next 4 (computeNextRunAtMs L (cj_schedule job)) offsetMs nowMs
                    (max 0 (nowMs - offsetMs)))
     | _ \<Rightarrow> computeNextRunAtMs L (cj_schedule job) nowMs)"

definition computeStaggeredCronPreviousRunAtMs :: "cron_lib \<Rightarrow> CronJob \<Rightarrow> int \<Rightarrow> string + int option" where
  "computeStaggeredCronPreviousRunAtMs L job nowMs = (case cj_schedule job of
       Sched_cron expr tz staggerMs \<Rightarrow>
         (let offsetMs = job_offset L job expr staggerMs
          in if offsetMs \<le> 0 then computePreviousRunAtMs L (cj_schedule job) nowMs
             else staggered_previous 4 (computePreviousRunAtMs L (cj_schedule job)) offsetMs nowMs
                    (max 0 (nowMs - offsetMs)))
     | _ \<Rightarrow> Inr None)"

definition computeStaggeredCronPreviousRunAtOrBeforeMs :: "cron_lib \<Rightarrow> CronJob \<Rightarrow> int \<Rightarrow> string + int option" where
  "computeStaggeredCronPreviousRunAtOrBeforeMs L job nowMs =
     (case computeStaggeredCronPreviousRunAtMs L job nowMs of
        Inl e \<Rightarrow> Inl e
      | Inr previous \<Rightarrow>
          if \<not> isFiniteTimestamp (nowMs + 1000) then Inr previous
          else (case computeStaggeredCronPreviousRunAtMs L job (nowMs + 1000) of
                  Inl e \<Rightarrow> Inl e
                | Inr boundary \<Rightarrow>
                    Inr (case boundary of
                           Some b \<Rightarrow>
                             if isFiniteTimestamp b \<and> b \<le> nowMs \<and>
                                (case previous of Some p \<Rightarrow> \<not> isFiniteTimestamp p \<or> p < b | None \<Rightarrow> True)
                             then boundary else previous
                         | None \<Rightarrow> previous)))"

definition isStaggeredCronRunAtMs :: "cron_lib \<Rightarrow> CronJob \<Rightarrow> int \<Rightarrow> string + bool" where
  "isStaggeredCronRunAtMs L job runAtMs =
     (if \<not> is_cron (cj_schedule job) \<or> \<not> isFiniteTimestamp runAtMs then Inr False
      else case computeStaggeredCronPreviousRunAtOrBeforeMs L job runAtMs of
             Inl e \<Rightarrow> Inl e
           | Inr previous \<Rightarrow> Inr (previous = Some runAtMs))"

definition isPendingErrorBackoffSlot :: "CronJob \<Rightarrow> int \<Rightarrow> int \<Rightarrow> bool" where
  "isPendingErrorBackoffSlot job slot nowMs = (case resolveJobErrorBackoffUntilMs job of
       Some backoffUntilMs \<Rightarrow> nowMs < backoffUntilMs \<and> slot \<le> backoffUntilMs
     | None \<Rightarrow> False)"

definition is_agentTurn :: "CronPayload \<Rightarrow> bool" where
  "is_agentTurn p = (case p of Payload_agentTurn _ \<Rightarrow> True | _ \<Rightarrow> False)"

text \<open>A future slot that the schedule does not have; an error of the schedule leaves the slot.\<close>

definition isStaleFutureCronSlot :: "cron_lib \<Rightarrow> CronJob \<Rightarrow> int \<Rightarrow> bool" where
  "isStaleFutureCronSlot L job nowMs = (case nextRunAtMs job of
       None \<Rightarrow> False
     | Some slot \<Rightarrow>
         if \<not> is_cron (cj_schedule job) \<or> \<not> hasScheduledNextRunAtMs (nextRunAtMs job) \<or> slot \<le> nowMs \<or>
            st_queuedAtMs (cj_state job) \<noteq> None \<or> st_runningAtMs (cj_state job) \<noteq> None
         then False
         else if isPendingErrorBackoffSlot job slot nowMs then False
         else (case computeStaggeredCronNextRunAtMs L job nowMs of
                 Inr (Some naturalNext) \<Rightarrow>
                   if \<not> isFiniteTimestamp naturalNext then False
                   else (case isStaggeredCronRunAtMs L job slot of
                           Inr False \<Rightarrow>
                             if slot < naturalNext then \<not> is_agentTurn (cj_payload job)
                             else if slot = naturalNext then False
                             else (case computeStaggeredCronNextRunAtMs L job naturalNext of
                                     Inr (Some followingNaturalNext) \<Rightarrow>
                                       isFiniteTimestamp followingNaturalNext \<and>
                                       (let naturalIntervalMs = followingNaturalNext - naturalNext
                                        in 0 < naturalIntervalMs \<and>
                                           followingNaturalNext + naturalIntervalMs \<le> slot)
                                   | _ \<Rightarrow> False)
                         | _ \<Rightarrow> False)
               | _ \<Rightarrow> False))"

section \<open>The next run of a job\<close>

definition resolveEveryAnchorMs :: "int option \<Rightarrow> int \<Rightarrow> int" where
  "resolveEveryAnchorMs anchorMs fallbackAnchorMs =
     (case Option.bind anchorMs asDateTimestampMs of
        Some a \<Rightarrow> max 0 a
      | None \<Rightarrow> if isFiniteTimestamp fallbackAnchorMs then max 0 fallbackAnchorMs else 0)"

definition hasInvalidExplicitEveryAnchor :: "int option \<Rightarrow> bool" where
  "hasInvalidExplicitEveryAnchor anchorMs =
     (case anchorMs of Some a \<Rightarrow> \<not> isFiniteTimestamp a \<or> a < 0 | None \<Rightarrow> False)"

definition isJobEnabled :: "CronJob \<Rightarrow> bool" where
  "isJobEnabled job = (case cj_enabled job of Some b \<Rightarrow> b | None \<Rightarrow> True)"

definition fallback_anchor :: "CronJob \<Rightarrow> int \<Rightarrow> int" where
  "fallback_anchor job nowMs = (if isFiniteTimestamp (cj_createdAtMs job) then cj_createdAtMs job else nowMs)"

definition nextEveryJobRunAtMs :: "cron_lib \<Rightarrow> CronJob \<Rightarrow> int \<Rightarrow> int option \<Rightarrow> int \<Rightarrow> int option" where
  "nextEveryJobRunAtMs L job everyMs anchorMs nowMs =
     (if hasInvalidExplicitEveryAnchor anchorMs \<or> \<not> isFiniteTimestamp everyMs \<or> everyMs < 1 then None
      else
        let anchor = resolveEveryAnchorMs anchorMs (fallback_anchor job nowMs);
            next = (case computeNextRunAtMs L (Sched_every everyMs (Some anchor)) nowMs of
                      Inr (Some t) \<Rightarrow> asDateTimestampMs t | _ \<Rightarrow> None)
        in case st_lastRunAtMs (cj_state job) of
             Some lastRunAtMs \<Rightarrow>
               if isFiniteTimestamp lastRunAtMs \<and> anchor \<le> lastRunAtMs then
                 (if \<not> isFiniteTimestamp (lastRunAtMs + everyMs) then None
                  else if nowMs < lastRunAtMs + everyMs then Some (lastRunAtMs + everyMs)
                  else next)
               else next
           | None \<Rightarrow> next)"

definition computeJobNextRunAtMs :: "cron_lib \<Rightarrow> CronJob \<Rightarrow> int \<Rightarrow> string + int option" where
  "computeJobNextRunAtMs L job nowMs =
     (if \<not> isJobEnabled job then Inr None
      else case cj_schedule job of
          Sched_every everyMs anchorMs \<Rightarrow> Inr (nextEveryJobRunAtMs L job everyMs anchorMs nowMs)
        | Sched_at at \<Rightarrow>
            (let atMs = parseAbsoluteTimeMs (lib_dateParse L) at
             in case st_lastRunAtMs (cj_state job) of
                  Some lastRunAtMs \<Rightarrow>
                    if resolveJobLastRunStatus job = Some Run_ok \<and> lastRunAtMs \<noteq> 0 then
                      Inr (case atMs of Some t \<Rightarrow> if lastRunAtMs < t then Some t else None | None \<Rightarrow> None)
                    else Inr atMs
                | None \<Rightarrow> Inr atMs)
        | _ \<Rightarrow>
            (case computeStaggeredCronNextRunAtMs L job nowMs of
               Inl e \<Rightarrow> Inl e
             | Inr None \<Rightarrow>
                 if is_cron (cj_schedule job)
                 then computeStaggeredCronNextRunAtMs L job (nowMs div 1000 * 1000 + 1000)
                 else Inr None
             | Inr (Some t) \<Rightarrow> Inr (asDateTimestampMs t)))"

definition computeJobPreviousRunAtOrBeforeMs :: "cron_lib \<Rightarrow> CronJob \<Rightarrow> int \<Rightarrow> string + int option" where
  "computeJobPreviousRunAtOrBeforeMs L job nowMs =
     (if \<not> isJobEnabled job \<or> \<not> is_cron (cj_schedule job) then Inr None
      else case computeStaggeredCronPreviousRunAtOrBeforeMs L job nowMs of
             Inl e \<Rightarrow> Inl e
           | Inr p \<Rightarrow> Inr (Option.bind p asDateTimestampMs))"

section \<open>Automatic disabling\<close>

definition isSystemOwnedCronPayloadKind :: "CronPayload \<Rightarrow> bool" where
  "isSystemOwnedCronPayloadKind p =
     (case p of Payload_heartbeat \<Rightarrow> True | Payload_skillCollectionReview \<Rightarrow> True | _ \<Rightarrow> False)"

definition MAX_CONSECUTIVE_RUN_FAILURES :: int where "MAX_CONSECUTIVE_RUN_FAILURES = 10"

definition autoDisableCronJob ::
  "disable_reason \<Rightarrow> int \<Rightarrow> int \<Rightarrow> CronJob \<Rightarrow> bool \<times> CronJob \<times> cron_note list" where
  "autoDisableCronJob reason atMs consecutiveErrors job =
     (if isSystemOwnedCronPayloadKind (cj_payload job) then (False, job, [])
      else if cj_enabled job \<noteq> Some True \<or> st_autoDisabled (cj_state job) \<noteq> None then (False, job, [])
      else (True,
            set_state (\<lambda>s. s\<lparr>st_nextRunAtMs := None,
                st_autoDisabled := Some \<lparr>ad_reason = reason, ad_atMs = atMs,
                                         ad_consecutiveErrors = consecutiveErrors\<rparr>\<rparr>)
              (job\<lparr>cj_enabled := Some False\<rparr>),
            [Note_auto_disabled (cj_id job) reason consecutiveErrors]))"

definition maybeAutoDisableCronJobAfterRunFailure ::
  "int \<Rightarrow> CronJob \<Rightarrow> bool \<times> CronJob \<times> cron_note list" where
  "maybeAutoDisableCronJobAfterRunFailure atMs job =
     (let consecutiveErrors = (case st_consecutiveErrors (cj_state job) of Some n \<Rightarrow> n | None \<Rightarrow> 0)
      in if \<not> is_cron (cj_schedule job) \<and> \<not> is_every (cj_schedule job) \<or>
            consecutiveErrors < MAX_CONSECUTIVE_RUN_FAILURES
         then (False, job, [])
         else autoDisableCronJob Consecutive_failures atMs consecutiveErrors job)"

definition MAX_SCHEDULE_ERRORS :: int where "MAX_SCHEDULE_ERRORS = 3"

definition recordScheduleComputeError :: "cron_ctx \<Rightarrow> string \<Rightarrow> CronJob \<Rightarrow> CronJob \<times> cron_note list" where
  "recordScheduleComputeError C err job =
     (let errorCount = (case st_scheduleErrorCount (cj_state job) of Some n \<Rightarrow> n | None \<Rightarrow> 0) + 1;
          job1 = set_state (\<lambda>s. s\<lparr>st_scheduleErrorCount := Some errorCount, st_nextRunAtMs := None,
                                  st_lastError := Some (''schedule error: '' @ err)\<rparr>) job
      in if MAX_SCHEDULE_ERRORS \<le> errorCount
         then snd (autoDisableCronJob Schedule_errors (cx_clock C) errorCount job1)
         else (job1, []))"

end
