(* ===== verification/Cron_Maintenance.thy ===== *)
theory Cron_Maintenance
  imports Cron_Jobs
begin

text \<open>
  The repair of the stored schedule and the choice of the jobs to run
  (\<open>src/cron/service/jobs-scheduling.ts\<close>, \<open>timer-runnable.ts\<close>, \<open>isScheduledTerminalOneShotRetry\<close> of
  \<open>timer-trigger.ts\<close>).
\<close>

section \<open>Normalizing a job before it is looked at\<close>

definition CRON_STUCK_RUN_MS :: int where "CRON_STUCK_RUN_MS = 2 * 60 * 60000"

definition ownsCronRunMarker :: "cron_ctx \<Rightarrow> string \<Rightarrow> int \<Rightarrow> bool \<Rightarrow> bool" where
  "ownsCronRunMarker C jobId markerAtMs requireForce = (case cx_reservation C jobId of
       Some r \<Rightarrow> rv_markerAtMs r = markerAtMs \<and> (\<not> requireForce \<or> rv_preserveWhenDisabled r)
     | None \<Rightarrow> False)"

definition blank :: "string option \<Rightarrow> bool" where
  "blank s = (case s of Some t \<Rightarrow> js_trim t = [] | None \<Rightarrow> True)"

definition with_stream_identity :: "cron_ctx \<Rightarrow> CronJob \<Rightarrow> CronJob" where
  "with_stream_identity C job =
     (if is_stream (cj_schedule job) \<and> blank (st_streamSourceIdentity (cj_state job))
      then set_state (\<lambda>s. s\<lparr>st_streamSourceIdentity := Some (cx_uuid C (cj_id job))\<rparr>) job
      else job)"

definition with_every_anchor :: "int \<Rightarrow> CronJob \<Rightarrow> CronJob" where
  "with_every_anchor nowMs job = (case cj_schedule job of
       Sched_every everyMs anchorMs \<Rightarrow>
         (if hasInvalidExplicitEveryAnchor anchorMs then job
          else let normalizedAnchorMs = resolveEveryAnchorMs anchorMs (fallback_anchor job nowMs)
               in if anchorMs = Some normalizedAnchorMs then job
                  else set_state (\<lambda>s. s\<lparr>st_pacedNextRunAtMs := None, st_forcePreservedNextRunAtMs := None\<rparr>)
                         (job\<lparr>cj_schedule := Sched_every everyMs (Some normalizedAnchorMs)\<rparr>))
     | _ \<Rightarrow> job)"

text \<open>A disabled job keeps only the markers of a forced run.\<close>

definition normalize_disabled :: "cron_ctx \<Rightarrow> CronJob \<Rightarrow> CronJob" where
  "normalize_disabled C job =
     (let s = cj_state job;
          keepQueued = (case st_queuedAtMs s of Some m \<Rightarrow> ownsCronRunMarker C (cj_id job) m True | None \<Rightarrow> True);
          keepRunning = (case st_runningAtMs s of
              Some m \<Rightarrow> ownsCronRunMarker C (cj_id job) m True \<or> cx_active C (cj_id job)
            | None \<Rightarrow> True)
      in set_state (\<lambda>s. s\<lparr>st_startupCatchupAtMs := None, st_pacedNextRunAtMs := None,
             st_forcePreservedNextRunAtMs := None, st_nextRunAtMs := None,
             st_queuedAtMs := (if keepQueued then st_queuedAtMs s else None),
             st_runningAtMs := (if keepRunning then st_runningAtMs s else None)\<rparr>) job)"

definition clear_invalid_next :: "CronJob \<Rightarrow> CronJob" where
  "clear_invalid_next job =
     (if hasScheduledNextRunAtMs (nextRunAtMs job) then job else set_next None job)"

definition clear_force_preserved :: "CronJob \<Rightarrow> CronJob" where
  "clear_force_preserved job = (case st_forcePreservedNextRunAtMs (cj_state job) of
       Some t \<Rightarrow>
         (if \<not> isFiniteTimestamp t \<or> nextRunAtMs job \<noteq> Some t
          then set_state (\<lambda>s. s\<lparr>st_forcePreservedNextRunAtMs := None\<rparr>) job else job)
     | None \<Rightarrow> job)"

definition marker_stuck :: "cron_ctx \<Rightarrow> int \<Rightarrow> string \<Rightarrow> int option \<Rightarrow> bool" where
  "marker_stuck C nowMs jobId marker = (case marker of
       Some m \<Rightarrow> CRON_STUCK_RUN_MS < \<bar>nowMs - m\<bar> \<and> \<not> ownsCronRunMarker C jobId m False
     | None \<Rightarrow> False)"

definition clear_stuck_queued :: "cron_ctx \<Rightarrow> int \<Rightarrow> CronJob \<Rightarrow> CronJob" where
  "clear_stuck_queued C nowMs job =
     (if marker_stuck C nowMs (cj_id job) (st_queuedAtMs (cj_state job))
      then set_state (\<lambda>s. s\<lparr>st_queuedAtMs := None\<rparr>) job else job)"

text \<open>The answer: whether something changed, and whether the job is left alone for this tick.\<close>

definition normalizeJobTickState :: "cron_ctx \<Rightarrow> int \<Rightarrow> CronJob \<Rightarrow> (bool \<times> bool) \<times> CronJob" where
  "normalizeJobTickState C nowMs job =
     (let job1 = with_every_anchor nowMs (with_stream_identity C job)
      in if \<not> isJobEnabled job1 then
           (let job2 = normalize_disabled C job1 in ((job2 \<noteq> job, True), job2))
         else
           let job2 = clear_stuck_queued C nowMs (clear_force_preserved (clear_invalid_next job1))
           in if marker_stuck C nowMs (cj_id job2) (st_runningAtMs (cj_state job2)) then
                let job3 = set_state (\<lambda>s. s\<lparr>st_runningAtMs := None\<rparr>) job2;
                    alreadyExecutedSlot =
                      (case (nextRunAtMs job3, st_lastRunAtMs (cj_state job3)) of
                         (Some nextRunMs, Some lastRun) \<Rightarrow>
                           hasScheduledNextRunAtMs (Some nextRunMs) \<and> isFiniteTimestamp lastRun \<and> nextRunMs \<le> lastRun
                       | _ \<Rightarrow> False)
                in ((True, \<not> alreadyExecutedSlot), job3)
              else ((job2 \<noteq> job, False), job2))"

section \<open>Recomputing the next run\<close>

definition recomputeJobNextRunAtMs ::
  "cron_ctx \<Rightarrow> bool \<Rightarrow> int \<Rightarrow> CronJob \<Rightarrow> bool \<times> CronJob \<times> cron_note list" where
  "recomputeJobNextRunAtMs C skipScheduleErrorHandling nowMs job =
     (case computeJobNextRunAtMs (cx_lib C) job nowMs of
        Inl err \<Rightarrow>
          if skipScheduleErrorHandling then (False, job, [])
          else (True, recordScheduleComputeError C err job)
      | Inr computed \<Rightarrow>
          let newNext = (if \<not> is_at (cj_schedule job) \<and> resolveJobLastRunStatus job = Some Run_error
                         then (case (computed, resolveJobErrorBackoffUntilMs job) of
                                 (Some t, Some backoffFloor) \<Rightarrow> Some (max t backoffFloor)
                               | _ \<Rightarrow> computed)
                         else computed);
              hadErrors = (case st_scheduleErrorCount (cj_state job) of Some n \<Rightarrow> n \<noteq> 0 | None \<Rightarrow> False);
              job1 = set_next newNext job
          in (nextRunAtMs job \<noteq> newNext \<or> hadErrors,
              (if hadErrors then set_state (\<lambda>s. s\<lparr>st_scheduleErrorCount := None\<rparr>) job1 else job1), []))"

definition hasForcePreservedNextRun :: "CronJob \<Rightarrow> bool" where
  "hasForcePreservedNextRun job = (case st_forcePreservedNextRunAtMs (cj_state job) of
       Some t \<Rightarrow> isFiniteTimestamp t \<and> hasScheduledNextRunAtMs (nextRunAtMs job) \<and> nextRunAtMs job = Some t
     | None \<Rightarrow> False)"

definition isDueOrMissing :: "int \<Rightarrow> CronJob \<Rightarrow> bool" where
  "isDueOrMissing nowMs job = (case nextRunAtMs job of
       Some t \<Rightarrow> \<not> hasScheduledNextRunAtMs (Some t) \<or> t \<le> nowMs
     | None \<Rightarrow> True)"

definition recomputeNextRunOf :: "cron_ctx \<Rightarrow> CronJob \<Rightarrow> bool \<times> CronJob \<times> cron_note list" where
  "recomputeNextRunOf C job =
     (let nowMs = cx_clock C; ((changed, skip), job1) = normalizeJobTickState C nowMs job
      in if skip then (changed, job1, [])
         else if \<not> hasForcePreservedNextRun job1 \<and>
                 (isDueOrMissing nowMs job1 \<or> isStaleFutureCronSlot (cx_lib C) job1 nowMs)
         then (let (again, job2, notes) = recomputeJobNextRunAtMs C False nowMs job1
               in (changed \<or> again, job2, notes))
         else (changed, job1, []))"

text \<open>The jobs of a store are walked one by one; no job sees what happened to another.\<close>

definition walk_jobs ::
  "(CronJob \<Rightarrow> bool \<times> CronJob \<times> cron_note list) \<Rightarrow> CronJob list option \<Rightarrow>
   bool \<times> CronJob list option \<times> cron_note list" where
  "walk_jobs step jobs = (case jobs of
       None \<Rightarrow> (False, None, [])
     | Some js \<Rightarrow>
         (let rs = List.map step js
          in (list_ex fst rs, Some (List.map (\<lambda>r. fst (snd r)) rs), concat (List.map (\<lambda>r. snd (snd r)) rs))))"

definition recomputeNextRuns ::
  "cron_ctx \<Rightarrow> CronJob list option \<Rightarrow> bool \<times> CronJob list option \<times> cron_note list" where
  "recomputeNextRuns C jobs = walk_jobs (recomputeNextRunOf C) jobs"

section \<open>Maintenance\<close>

definition hasActiveCronRun :: "cron_ctx \<Rightarrow> CronJob \<Rightarrow> bool" where
  "hasActiveCronRun C job \<longleftrightarrow> st_queuedAtMs (cj_state job) \<noteq> None \<or> st_runningAtMs (cj_state job) \<noteq> None \<or>
     cx_active C (cj_id job)"

record CronMaintenanceOptions =
  mo_recomputeExpired :: bool
  mo_nowMs :: "int option"
  mo_repairFutureCronNextRunAtMs :: bool
  mo_preserveExpiredPacedNextRunJobId :: "string option"
  mo_skipScheduleErrorHandling :: bool

definition isExpiredCronScheduleRepairCandidate :: "cron_ctx \<Rightarrow> int \<Rightarrow> CronJob \<Rightarrow> bool" where
  "isExpiredCronScheduleRepairCandidate C nowMs job = (case nextRunAtMs job of
       None \<Rightarrow> False
     | Some t \<Rightarrow>
         hasScheduledNextRunAtMs (Some t) \<and> t \<le> nowMs \<and> \<not> hasActiveCronRun C job \<and>
         st_startupCatchupAtMs (cj_state job) \<noteq> Some t \<and>
         st_forcePreservedNextRunAtMs (cj_state job) \<noteq> Some t \<and>
         ((case st_lastRunAtMs (cj_state job) of Some l \<Rightarrow> isFiniteTimestamp l \<and> t \<le> l | None \<Rightarrow> False) \<or>
          (case resolveJobErrorBackoffUntilMs job of Some u \<Rightarrow> nowMs < u \<and> t < u | None \<Rightarrow> False)))"

definition needsCronTimerMaintenance :: "cron_ctx \<Rightarrow> int \<Rightarrow> CronJob \<Rightarrow> bool" where
  "needsCronTimerMaintenance C nowMs job \<longleftrightarrow>
     isExpiredCronScheduleRepairCandidate C nowMs job \<or>
     isStaleFutureCronSlot (cx_lib C) job nowMs \<or>
     (\<not> is_stream (cj_schedule job) \<and> \<not> is_on_exit (cj_schedule job) \<and> isJobEnabled job \<and>
      \<not> hasScheduledNextRunAtMs (nextRunAtMs job) \<and> \<not> hasActiveCronRun C job)"

text \<open>A slot of its own kind that still is the next run of the job.\<close>

definition pending_slot :: "int option \<Rightarrow> CronJob \<Rightarrow> bool" where
  "pending_slot t job \<longleftrightarrow> (case t of
       Some x \<Rightarrow> isFiniteTimestamp x \<and> hasScheduledNextRunAtMs (nextRunAtMs job) \<and> nextRunAtMs job = Some x
     | None \<Rightarrow> False)"

definition recomputeSingleJobForMaintenance ::
  "cron_ctx \<Rightarrow> CronMaintenanceOptions \<Rightarrow> CronJob \<Rightarrow> bool \<times> CronJob \<times> cron_note list" where
  "recomputeSingleJobForMaintenance C opts job =
     (let nowMs = (case mo_nowMs opts of Some t \<Rightarrow> t | None \<Rightarrow> cx_clock C);
          ((changed, skip), job1) = normalizeJobTickState C nowMs job
      in if skip then (changed, job1, [])
         else
           let startupCatchupAtMs = st_startupCatchupAtMs (cj_state job1);
               pacedNextRunAtMs = st_pacedNextRunAtMs (cj_state job1);
               forcePreserved = hasForcePreservedNextRun job1;
               hasPendingStartupCatchup = pending_slot startupCatchupAtMs job1;
               hasPendingPacedNextRun = (pending_slot pacedNextRunAtMs job1 \<and>
                 (nowMs < the pacedNextRunAtMs \<or> mo_preserveExpiredPacedNextRunJobId opts = Some (cj_id job)));
               clearCatchup = (startupCatchupAtMs \<noteq> None \<and> \<not> hasPendingStartupCatchup);
               clearPaced = (pacedNextRunAtMs \<noteq> None \<and> \<not> hasPendingPacedNextRun);
               job2 = set_state (\<lambda>s. s\<lparr>
                   st_startupCatchupAtMs := (if hasPendingStartupCatchup then startupCatchupAtMs else None),
                   st_pacedNextRunAtMs := (if hasPendingPacedNextRun then pacedNextRunAtMs else None)\<rparr>) job1;
               changed2 = (changed \<or> clearCatchup \<or> clearPaced);
               recompute = (\<not> hasScheduledNextRunAtMs (nextRunAtMs job2) \<or>
                 (mo_repairFutureCronNextRunAtMs opts \<and> \<not> hasPendingStartupCatchup \<and>
                  \<not> hasPendingPacedNextRun \<and> \<not> forcePreserved \<and>
                  isStaleFutureCronSlot (cx_lib C) job2 nowMs) \<or>
                 (mo_recomputeExpired opts \<and> isExpiredCronScheduleRepairCandidate C nowMs job2))
           in if recompute
              then (let (again, job3, notes) =
                          recomputeJobNextRunAtMs C (mo_skipScheduleErrorHandling opts) nowMs job2
                    in (again \<or> changed2, job3, notes))
              else (changed2, job2, []))"

definition recomputeNextRunsForMaintenance ::
  "cron_ctx \<Rightarrow> CronMaintenanceOptions \<Rightarrow> CronJob list option \<Rightarrow>
   bool \<times> CronJob list option \<times> cron_note list" where
  "recomputeNextRunsForMaintenance C opts jobs = walk_jobs (recomputeSingleJobForMaintenance C opts) jobs"

section \<open>The timer's summary\<close>

record cron_summary =
  su_jobCount :: nat
  su_enabledCount :: nat
  su_nextWakeAtMs :: "int option"

definition summarize_job :: "CronJob \<Rightarrow> cron_summary \<Rightarrow> cron_summary" where
  "summarize_job job s =
     \<lparr>su_jobCount = su_jobCount s + 1,
      su_enabledCount = (if cj_enabled job = Some True then su_enabledCount s + 1 else su_enabledCount s),
      su_nextWakeAtMs =
        (case nextRunAtMs job of
           Some t \<Rightarrow>
             if isJobEnabled job \<and> hasScheduledNextRunAtMs (Some t)
             then Some (case su_nextWakeAtMs s of None \<Rightarrow> t | Some w \<Rightarrow> min w t)
             else su_nextWakeAtMs s
         | None \<Rightarrow> su_nextWakeAtMs s)\<rparr>"

definition summarizeCronJobSchedule :: "CronJob list option \<Rightarrow> cron_summary" where
  "summarizeCronJobSchedule jobs =
     fold summarize_job (case jobs of Some js \<Rightarrow> js | None \<Rightarrow> [])
       \<lparr>su_jobCount = 0, su_enabledCount = 0, su_nextWakeAtMs = None\<rparr>"

definition nextWakeAtMs :: "CronJob list option \<Rightarrow> int option" where
  "nextWakeAtMs jobs = su_nextWakeAtMs (summarizeCronJobSchedule jobs)"

definition isJobDue :: "cron_ctx \<Rightarrow> bool \<Rightarrow> int \<Rightarrow> CronJob \<Rightarrow> bool" where
  "isJobDue C forced nowMs job =
     (if hasActiveCronRun C job then False
      else if forced then True
      else isJobEnabled job \<and> (case nextRunAtMs job of
             Some t \<Rightarrow> hasScheduledNextRunAtMs (Some t) \<and> t \<le> nowMs | None \<Rightarrow> False))"

section \<open>The jobs a tick or a restart runs\<close>

definition HEARTBEAT_SKIP_DISABLED :: string where "HEARTBEAT_SKIP_DISABLED = ''disabled''"

definition isScheduledTerminalOneShotRetry ::
  "CronJob \<Rightarrow> run_status \<Rightarrow> int option \<Rightarrow> int option \<Rightarrow> bool" where
  "isScheduledTerminalOneShotRetry job lastRunStatus lastRun nextRunMs =
     (case (nextRunMs, lastRun) of
        (Some n, Some l) \<Rightarrow>
          isJobEnabled job \<and> l < n \<and>
          (lastRunStatus = Run_error \<or>
           (lastRunStatus = Run_skipped \<and> cj_mainSession job \<and> cj_wakeNow job \<and>
            st_lastError (cj_state job) = Some HEARTBEAT_SKIP_DISABLED))
      | _ \<Rightarrow> False)"

definition isErrorBackoffPending :: "CronJob \<Rightarrow> int \<Rightarrow> run_status option \<Rightarrow> bool" where
  "isErrorBackoffPending job nowMs lastRunStatus =
     (if is_at (cj_schedule job) \<or> lastRunStatus \<noteq> Some Run_error then False
      else case resolveJobErrorBackoffUntilMs job of Some u \<Rightarrow> nowMs < u | None \<Rightarrow> False)"

definition hasMissedCronSlotSinceLastRun :: "cron_lib \<Rightarrow> CronJob \<Rightarrow> int \<Rightarrow> bool" where
  "hasMissedCronSlotSinceLastRun L job nowMs = (case st_lastRunAtMs (cj_state job) of
       None \<Rightarrow> False
     | Some lastRunAtMs \<Rightarrow>
         (case computeJobPreviousRunAtOrBeforeMs L job nowMs of
            Inr (Some previousRunAtMs) \<Rightarrow>
              if previousRunAtMs \<le> lastRunAtMs then False
              else (case st_scheduleActivatedAtMs (cj_state job) of
                      None \<Rightarrow> True
                    | Some activatedAtMs \<Rightarrow> activatedAtMs < previousRunAtMs)
          | _ \<Rightarrow> False))"

record runnable_options =
  ro_skipJobIds :: "string list"
  ro_skipAtIfAlreadyRan :: bool
  ro_allowCronMissedRunByLastRun :: bool

text \<open>A one-shot that has run: pending recovery, a newer occurrence, or a retry its owner scheduled.\<close>

definition terminal_one_shot_due :: "cron_lib \<Rightarrow> CronJob \<Rightarrow> int \<Rightarrow> run_status \<Rightarrow> bool" where
  "terminal_one_shot_due L job nowMs lastRunStatus =
     (let next = nextRunAtMs job; lastRun = st_lastRunAtMs (cj_state job);
          due = (case next of Some t \<Rightarrow> t \<le> nowMs | None \<Rightarrow> False);
          at = (case cj_schedule job of Sched_at text \<Rightarrow> parseAbsoluteTimeMs (lib_dateParse L) text | _ \<Rightarrow> None)
      in if hasScheduledNextRunAtMs next \<and> st_startupCatchupAtMs (cj_state job) = next then due
         else if (case (lastRun, next) of (Some l, Some n) \<Rightarrow> l < n \<and> at = Some n | _ \<Rightarrow> False) then due
         else isScheduledTerminalOneShotRetry job lastRunStatus lastRun next \<and> due)"

definition isRunnableJob :: "cron_ctx \<Rightarrow> runnable_options \<Rightarrow> int \<Rightarrow> CronJob \<Rightarrow> bool" where
  "isRunnableJob C opts nowMs job =
     (let L = cx_lib C; next = nextRunAtMs job; lastRunStatus = resolveJobLastRunStatus job;
          scheduled = hasScheduledNextRunAtMs next;
          future = (case next of Some t \<Rightarrow> scheduled \<and> nowMs < t | None \<Rightarrow> False);
          allowMissed = ro_allowCronMissedRunByLastRun opts
      in if \<not> isJobEnabled job \<or> cj_id job \<in> set (ro_skipJobIds opts) \<or> hasActiveCronRun C job then False
         else if future \<and> (\<not> allowMissed \<or> st_startupCatchupAtMs (cj_state job) = next) then False
         else if ro_skipAtIfAlreadyRan opts \<and> is_at (cj_schedule job) \<and> lastRunStatus \<noteq> None
         then terminal_one_shot_due L job nowMs (the lastRunStatus)
         else if isErrorBackoffPending job nowMs lastRunStatus then False
         else if scheduled \<and> \<not> future then
           (case st_lastRunAtMs (cj_state job) of
              Some lastRunAtMs \<Rightarrow>
                if allowMissed \<and> is_cron (cj_schedule job) \<and>
                   (lastRunStatus = Some Run_ok \<or> lastRunStatus = Some Run_skipped) \<and> the next \<le> lastRunAtMs
                then (case computeJobPreviousRunAtOrBeforeMs L job nowMs of
                        Inr (Some latestRunAtMs) \<Rightarrow> lastRunAtMs < latestRunAtMs
                      | _ \<Rightarrow> False)
                else True
            | None \<Rightarrow> True)
         else if \<not> allowMissed \<or> \<not> is_cron (cj_schedule job) then False
         else hasMissedCronSlotSinceLastRun L job nowMs)"

definition collectRunnableJobs :: "cron_ctx \<Rightarrow> runnable_options \<Rightarrow> int \<Rightarrow> CronJob list option \<Rightarrow> CronJob list" where
  "collectRunnableJobs C opts nowMs jobs =
     (case jobs of None \<Rightarrow> [] | Some js \<Rightarrow> filter (isRunnableJob C opts nowMs) js)"

end
