(* ===== verification/Cron_Laws.thy ===== *)
theory Cron_Laws
  imports Cron_Maintenance
begin

text \<open>
  The laws of the scheduler's operations. A \<open>slot_source\<close> answers a slot after the instant it is asked
  for; the schedules are one, and so is what the staggering makes of one. A \<open>job_step\<close> keeps the identity
  of a job and leaves a disabled job without a next run; both walks over the store are built from one.
\<close>

named_theorems job_simps "how the fields of a job react to the operations on it"

lemma set_state_fields [job_simps, simp]:
  "cj_id (set_state f job) = cj_id job" "cj_name (set_state f job) = cj_name job"
  "cj_enabled (set_state f job) = cj_enabled job"
  "cj_createdAtMs (set_state f job) = cj_createdAtMs job"
  "cj_schedule (set_state f job) = cj_schedule job" "cj_payload (set_state f job) = cj_payload job"
  "cj_pacing (set_state f job) = cj_pacing job" "cj_trigger (set_state f job) = cj_trigger job"
  "cj_state (set_state f job) = f (cj_state job)"
  "isJobEnabled (set_state f job) = isJobEnabled job"
  by (simp_all add: set_state_def isJobEnabled_def)

lemma set_next_fields [job_simps, simp]:
  "cj_createdAtMs (set_next t job) = cj_createdAtMs job"
  "cj_id (set_next t job) = cj_id job" "cj_enabled (set_next t job) = cj_enabled job"
  "cj_schedule (set_next t job) = cj_schedule job" "cj_payload (set_next t job) = cj_payload job"
  "cj_trigger (set_next t job) = cj_trigger job" "cj_pacing (set_next t job) = cj_pacing job"
  "cj_state (set_next t job) = (cj_state job)\<lparr>st_nextRunAtMs := t\<rparr>"
  "isJobEnabled (set_next t job) = isJobEnabled job"
  by (simp_all add: set_next_def)

section \<open>Sources of slots\<close>

locale slot_source =
  fixes slots :: "int \<Rightarrow> string + int option"
  assumes slot_future: "slots now = Inr (Some t) \<Longrightarrow> now < t \<and> isFiniteTimestamp t"
begin

text \<open>A staggered slot is a slot of the source moved by the offset, and it is still ahead.\<close>

lemma staggered_slot:
  assumes "staggered_next n slots offset now cursor = Inr (Some t)"
  shows "now < t \<and> isFiniteTimestamp t \<and> (\<exists>c. slots c = Inr (Some (t - offset)))"
  using assms
proof (induction n arbitrary: cursor)
  case (Suc n)
  then show ?case
    by (auto split: sum.splits option.splits if_splits)
qed simp

end

section \<open>The grid of an interval\<close>

lemma grid_step:
  fixes a e now :: int
  assumes "1 \<le> e"
  shows "now < a + ((now - a) div e + 1) * e" "a + (now - a) div e * e \<le> now"
proof -
  have eq: "now - a = (now - a) div e * e + (now - a) mod e"
    by simp
  moreover have "0 \<le> (now - a) mod e" "(now - a) mod e < e"
    using assms by auto
  moreover have "((now - a) div e + 1) * e = (now - a) div e * e + e"
    by (simp add: algebra_simps)
  ultimately show "now < a + ((now - a) div e + 1) * e" "a + (now - a) div e * e \<le> now"
    by linarith+
qed

text \<open>No point of the grid lies between now and the next one.\<close>

lemma grid_least:
  fixes a e now :: int
  assumes "1 \<le> e" "now < a + k * e"
  shows "a + ((now - a) div e + 1) * e \<le> a + k * e"
proof -
  have "(now - a) div e < k"
  proof (rule ccontr)
    assume "\<not> (now - a) div e < k"
    then have "k * e \<le> (now - a) div e * e"
      using assms(1) by (intro mult_right_mono) auto
    with grid_step(2) [OF assms(1), of a now] assms(2) show False
      by linarith
  qed
  then have "((now - a) div e + 1) * e \<le> k * e"
    using assms(1) by (intro mult_right_mono) auto
  then show ?thesis
    by simp
qed

lemma nextEvery_future:
  assumes "nextEveryRunAtMs e a now = Some t" "isFiniteTimestamp now"
  shows "now < t \<and> isFiniteTimestamp t"
proof -
  define anchor where "anchor = max 0 (case a of Some x \<Rightarrow> x | None \<Rightarrow> now)"
  from assms have t: "t = (if now < anchor then anchor else anchor + ((now - anchor) div e + 1) * e)"
      "1 \<le> e" "now < anchor \<or> isFiniteTimestamp t" "isFiniteTimestamp anchor"
    by (auto simp: nextEveryRunAtMs_def anchor_def Let_def isFiniteTimestamp_def max_def
        split: if_splits option.splits)
  then show ?thesis
    using grid_step(1) [OF t(2), of now anchor] by (auto split: if_splits)
qed

theorem computeNextRun_future:
  assumes "computeNextRunAtMs L schedule now = Inr (Some t)"
  shows "now < t \<and> isFiniteTimestamp t"
proof (cases schedule)
  case (Sched_cron expr tz st)
  with assms nextCron_future show ?thesis
    by (auto simp: computeNextRunAtMs_def split: if_splits sum.splits option.splits)
qed (use assms nextEvery_future parseAbsolute_valid in
     \<open>auto simp: computeNextRunAtMs_def split: if_splits option.splits\<close>)

interpretation schedule_slots: slot_source "computeNextRunAtMs L schedule" for L schedule
  by unfold_locales (rule computeNextRun_future)

theorem staggeredNext_future:
  assumes "computeStaggeredCronNextRunAtMs L job now = Inr (Some t)"
  shows "now < t \<and> isFiniteTimestamp t"
  using assms schedule_slots.staggered_slot computeNextRun_future
  unfolding computeStaggeredCronNextRunAtMs_def
  by (auto simp: Let_def split: CronSchedule.splits if_splits)

interpretation job_slots: slot_source "computeStaggeredCronNextRunAtMs L job" for L job
  by unfold_locales (rule staggeredNext_future)

text \<open>Only a one-shot may be due in the past: it stays due until it has run.\<close>

lemma jobNext_future:
  assumes "computeJobNextRunAtMs L job now = Inr (Some t)" "\<not> is_at (cj_schedule job)"
  shows "now < t \<and> isFiniteTimestamp t"
proof (cases "cj_schedule job")
  case (Sched_every e a)
  with assms have "nextEveryJobRunAtMs L job e a now = Some t"
    by (auto simp: computeJobNextRunAtMs_def split: if_splits)
  then show ?thesis
    using computeNextRun_future
    by (auto simp: nextEveryJobRunAtMs_def Let_def split: if_splits option.splits sum.splits)
next
  case (Sched_cron expr tz st)
  have "now < now div 1000 * 1000 + 1000"
    by presburger
  with Sched_cron assms job_slots.slot_future show ?thesis
    by (fastforce simp: computeJobNextRunAtMs_def split: if_splits sum.splits option.splits)
next
  case (Sched_on_exit c d)
  with assms job_slots.slot_future show ?thesis
    by (fastforce simp: computeJobNextRunAtMs_def split: if_splits sum.splits option.splits)
next
  case (Sched_stream a b c d e f)
  with assms job_slots.slot_future show ?thesis
    by (fastforce simp: computeJobNextRunAtMs_def split: if_splits sum.splits option.splits)
qed (use assms in simp)

end
