(* ===== verification/Cron_Steps.thy ===== *)
theory Cron_Steps
  imports Cron_Laws
begin

text \<open>
  The two operations the store is walked with keep the laws of a \<open>job_step\<close>, and what the normalization
  and the recomputation of a job do when they are repeated.
\<close>

section \<open>Operations on the state of a job\<close>

lemma set_state_id: "f (cj_state job) = cj_state job \<Longrightarrow> set_state f job = job"
  by (simp add: set_state_def)

lemma set_state_set_state [simp]: "set_state f (set_state g job) = set_state (\<lambda>s. f (g s)) job"
  by (simp add: set_state_def)

lemma slots_restored:
  "s\<lparr>st_startupCatchupAtMs := st_startupCatchupAtMs s, st_pacedNextRunAtMs := st_pacedNextRunAtMs s\<rparr> = s"
  by (cases s) simp

lemma next_restored: "s\<lparr>st_nextRunAtMs := st_nextRunAtMs s\<rparr> = s"
  by (cases s) simp

lemma set_next_same: "nextRunAtMs job = t \<Longrightarrow> set_next t job = job"
  by (auto simp: set_next_def set_state_id next_restored)

section \<open>Normalization\<close>

lemma with_stream_identity_fix:
  "with_stream_identity C job = job \<longleftrightarrow>
     (is_stream (cj_schedule job) \<and> blank (st_streamSourceIdentity (cj_state job)) \<longrightarrow>
      st_streamSourceIdentity (cj_state job) = Some (cx_uuid C (cj_id job)))"
proof -
  have "set_state (\<lambda>s. s\<lparr>st_streamSourceIdentity := x\<rparr>) job = job \<longleftrightarrow>
      st_streamSourceIdentity (cj_state job) = x" for x
    by (cases job; cases "cj_state job") (auto simp: set_state_def)
  then show ?thesis
    by (auto simp: with_stream_identity_def)
qed

lemma with_stream_identity_fields [simp]:
  "cj_id (with_stream_identity C job) = cj_id job"
  "cj_schedule (with_stream_identity C job) = cj_schedule job"
  "cj_createdAtMs (with_stream_identity C job) = cj_createdAtMs job"
  "isJobEnabled (with_stream_identity C job) = isJobEnabled job"
  "nextRunAtMs (with_stream_identity C job) = nextRunAtMs job"
  by (simp_all add: with_stream_identity_def)

lemma with_stream_identity_idem [simp]:
  "with_stream_identity C (with_stream_identity C job) = with_stream_identity C job"
  by (subst with_stream_identity_fix) (auto simp: with_stream_identity_def)

definition anchor_normal :: "int \<Rightarrow> CronJob \<Rightarrow> bool" where
  "anchor_normal now job \<longleftrightarrow> (case cj_schedule job of
       Sched_every e a \<Rightarrow>
         hasInvalidExplicitEveryAnchor a \<or> a = Some (resolveEveryAnchorMs a (fallback_anchor job now))
     | _ \<Rightarrow> True)"

lemma with_every_anchor_fix: "anchor_normal now job \<Longrightarrow> with_every_anchor now job = job"
  by (auto simp: anchor_normal_def with_every_anchor_def Let_def split: CronSchedule.splits)

lemma resolveEveryAnchor_again:
  "resolveEveryAnchorMs (Some (resolveEveryAnchorMs a fb)) fb' = resolveEveryAnchorMs a fb"
  by (cases a) (auto simp: resolveEveryAnchorMs_def isFiniteTimestamp_def asDateTimestampMs_def
      MAX_DATE_TIMESTAMP_MS_def max_def split: option.splits)

lemma with_every_anchor_normal: "anchor_normal now (with_every_anchor now job)"
  by (auto simp: anchor_normal_def with_every_anchor_def Let_def resolveEveryAnchor_again
      split: CronSchedule.splits)

lemma with_every_anchor_fields [simp]:
  "cj_id (with_every_anchor now job) = cj_id job"
  "cj_createdAtMs (with_every_anchor now job) = cj_createdAtMs job"
  "isJobEnabled (with_every_anchor now job) = isJobEnabled job"
  "nextRunAtMs (with_every_anchor now job) = nextRunAtMs job"
  "st_runningAtMs (cj_state (with_every_anchor now job)) = st_runningAtMs (cj_state job)"
  "st_queuedAtMs (cj_state (with_every_anchor now job)) = st_queuedAtMs (cj_state job)"
  "st_streamSourceIdentity (cj_state (with_every_anchor now job)) = st_streamSourceIdentity (cj_state job)"
  "is_stream (cj_schedule (with_every_anchor now job)) = is_stream (cj_schedule job)"
  "is_at (cj_schedule (with_every_anchor now job)) = is_at (cj_schedule job)"
  by (auto simp: with_every_anchor_def Let_def isJobEnabled_def split: CronSchedule.splits)

text \<open>What the normalization of an enabled job does after the identity and the anchor.\<close>

definition normalize_slots :: "cron_ctx \<Rightarrow> int \<Rightarrow> CronJob \<Rightarrow> CronJob" where
  "normalize_slots C now job = clear_stuck_queued C now (clear_force_preserved (clear_invalid_next job))"

lemma normalize_slots_fields [simp]:
  "cj_id (normalize_slots C now job) = cj_id job"
  "cj_schedule (normalize_slots C now job) = cj_schedule job"
  "cj_createdAtMs (normalize_slots C now job) = cj_createdAtMs job"
  "cj_enabled (normalize_slots C now job) = cj_enabled job"
  "isJobEnabled (normalize_slots C now job) = isJobEnabled job"
  "st_runningAtMs (cj_state (normalize_slots C now job)) = st_runningAtMs (cj_state job)"
  "st_streamSourceIdentity (cj_state (normalize_slots C now job)) = st_streamSourceIdentity (cj_state job)"
  by (simp_all add: normalize_slots_def clear_stuck_queued_def clear_force_preserved_def clear_invalid_next_def
      split: option.splits)

lemma normalize_slots_next [simp]:
  "nextRunAtMs (normalize_slots C now job) =
     (if hasScheduledNextRunAtMs (nextRunAtMs job) then nextRunAtMs job else None)"
  by (simp add: normalize_slots_def clear_stuck_queued_def clear_force_preserved_def clear_invalid_next_def
      split: option.splits)

definition slots_normal :: "cron_ctx \<Rightarrow> int \<Rightarrow> CronJob \<Rightarrow> bool" where
  "slots_normal C now job \<longleftrightarrow>
     (nextRunAtMs job \<noteq> None \<longrightarrow> hasScheduledNextRunAtMs (nextRunAtMs job)) \<and>
     (\<forall>t. st_forcePreservedNextRunAtMs (cj_state job) = Some t \<longrightarrow>
        isFiniteTimestamp t \<and> nextRunAtMs job = Some t) \<and>
     \<not> marker_stuck C now (cj_id job) (st_queuedAtMs (cj_state job))"

lemma normalize_slots_fix: "slots_normal C now job \<Longrightarrow> normalize_slots C now job = job"
  by (auto simp: set_next_same slots_normal_def normalize_slots_def clear_stuck_queued_def clear_force_preserved_def
      clear_invalid_next_def split: option.splits)

lemma normalize_slots_normal: "slots_normal C now (normalize_slots C now job)"
  by (auto simp: slots_normal_def normalize_slots_def clear_stuck_queued_def clear_force_preserved_def
      clear_invalid_next_def marker_stuck_def split: option.splits if_splits)

lemma normalize_enabled:
  assumes "isJobEnabled job"
    and "\<not> marker_stuck C now (cj_id job) (st_runningAtMs (cj_state job))"
  shows "normalizeJobTickState C now job =
    (let job' = normalize_slots C now (with_every_anchor now (with_stream_identity C job))
     in ((job' \<noteq> job, False), job'))"
proof -
  have "st_runningAtMs (cj_state (with_stream_identity C job)) = st_runningAtMs (cj_state job)"
    by (simp add: with_stream_identity_def)
  with assms show ?thesis
    by (simp add: normalizeJobTickState_def normalize_slots_def [symmetric] Let_def)
qed

lemma normalize_disabled_tick:
  assumes "\<not> isJobEnabled job"
  shows "\<exists>job'. normalizeJobTickState C now job = ((job' \<noteq> job, True), job') \<and> cj_id job' = cj_id job \<and>
           nextRunAtMs job' = None \<and> \<not> isJobEnabled job'"
  using assms by (simp add: normalizeJobTickState_def Let_def normalize_disabled_def)

lemma normalize_stuck:
  assumes "isJobEnabled job"
    and "marker_stuck C now (cj_id job) (st_runningAtMs (cj_state job))"
  shows "\<exists>skip job'. normalizeJobTickState C now job = ((True, skip), job') \<and> cj_id job' = cj_id job \<and>
           isJobEnabled job' \<and> cj_schedule job' = cj_schedule (with_every_anchor now job) \<and>
           nextRunAtMs job' = (if hasScheduledNextRunAtMs (nextRunAtMs job) then nextRunAtMs job else None)"
proof -
  have "st_runningAtMs (cj_state (with_stream_identity C job)) = st_runningAtMs (cj_state job)"
       "cj_schedule (with_every_anchor now (with_stream_identity C job)) = cj_schedule (with_every_anchor now job)"
    by (auto simp: with_stream_identity_def with_every_anchor_def fallback_anchor_def Let_def
        split: CronSchedule.splits)
  with assms show ?thesis
    by (simp add: normalizeJobTickState_def normalize_slots_def [symmetric] Let_def)
qed

lemma normalize_keeps:
  "cj_id (snd (normalizeJobTickState C now job)) = cj_id job"
  "isJobEnabled (snd (normalizeJobTickState C now job)) = isJobEnabled job"
  "\<not> isJobEnabled job \<Longrightarrow> nextRunAtMs (snd (normalizeJobTickState C now job)) = None"
  "\<not> isJobEnabled job \<Longrightarrow> snd (fst (normalizeJobTickState C now job))"
  "isJobEnabled job \<Longrightarrow> nextRunAtMs (snd (normalizeJobTickState C now job)) =
     (if hasScheduledNextRunAtMs (nextRunAtMs job) then nextRunAtMs job else None)"
  "\<not> fst (fst (normalizeJobTickState C now job)) \<Longrightarrow> snd (normalizeJobTickState C now job) = job"
proof -
  let ?r = "normalizeJobTickState C now job"
  consider (off) "\<not> isJobEnabled job"
    | (stuck) "isJobEnabled job" "marker_stuck C now (cj_id job) (st_runningAtMs (cj_state job))"
    | (on) "isJobEnabled job" "\<not> marker_stuck C now (cj_id job) (st_runningAtMs (cj_state job))"
    by blast
  then have "cj_id (snd ?r) = cj_id job \<and> isJobEnabled (snd ?r) = isJobEnabled job \<and>
      (\<not> isJobEnabled job \<longrightarrow> nextRunAtMs (snd ?r) = None \<and> snd (fst ?r)) \<and>
      (isJobEnabled job \<longrightarrow> nextRunAtMs (snd ?r) =
         (if hasScheduledNextRunAtMs (nextRunAtMs job) then nextRunAtMs job else None)) \<and>
      (\<not> fst (fst ?r) \<longrightarrow> snd ?r = job)"
  proof cases
    case off
    with normalize_disabled_tick [OF off, of C now] show ?thesis
      by auto
  next
    case stuck
    with normalize_stuck [OF stuck] show ?thesis
      by auto
  next
    case on
    then show ?thesis
      by (auto simp: normalize_enabled [OF on] Let_def)
  qed
  then show
    "cj_id (snd ?r) = cj_id job" "isJobEnabled (snd ?r) = isJobEnabled job"
    "\<not> isJobEnabled job \<Longrightarrow> nextRunAtMs (snd ?r) = None" "\<not> isJobEnabled job \<Longrightarrow> snd (fst ?r)"
    "isJobEnabled job \<Longrightarrow> nextRunAtMs (snd ?r) =
       (if hasScheduledNextRunAtMs (nextRunAtMs job) then nextRunAtMs job else None)"
    "\<not> fst (fst ?r) \<Longrightarrow> snd ?r = job"
    by blast+
qed

section \<open>Disabling and recomputing\<close>

lemma autoDisable_cases:
  obtains (kept) "autoDisableCronJob reason at n job = (False, job, [])"
  | (disabled) j where "autoDisableCronJob reason at n job =
        (True, j, [Note_auto_disabled (cj_id job) reason n])"
      "cj_id j = cj_id job" "cj_schedule j = cj_schedule job" "cj_enabled j = Some False"
      "nextRunAtMs j = None" "cj_enabled job = Some True"
  by (cases "isSystemOwnedCronPayloadKind (cj_payload job) \<or> cj_enabled job \<noteq> Some True \<or>
             st_autoDisabled (cj_state job) \<noteq> None")
     (auto simp: autoDisableCronJob_def)

lemma recordError_keeps:
  assumes "recordScheduleComputeError C err job = (j, notes)"
  shows "cj_id j = cj_id job" "cj_schedule j = cj_schedule job" "nextRunAtMs j = None"
    "isJobEnabled j \<longrightarrow> isJobEnabled job"
proof -
  define n where "n = (case st_scheduleErrorCount (cj_state job) of Some n \<Rightarrow> n | None \<Rightarrow> 0) + 1"
  define j1 where "j1 = set_state (\<lambda>s. s\<lparr>st_scheduleErrorCount := Some n, st_nextRunAtMs := None,
      st_lastError := Some (''schedule error: '' @ err)\<rparr>) job"
  have j: "(j, notes) = (if MAX_SCHEDULE_ERRORS \<le> n
      then snd (autoDisableCronJob Schedule_errors (cx_clock C) n j1) else (j1, []))"
    using assms unfolding recordScheduleComputeError_def n_def j1_def Let_def by (rule sym)
  have j1: "cj_id j1 = cj_id job" "cj_schedule j1 = cj_schedule job" "nextRunAtMs j1 = None"
    "isJobEnabled j1 = isJobEnabled job"
    by (simp_all add: j1_def)
  show "cj_id j = cj_id job" "cj_schedule j = cj_schedule job" "nextRunAtMs j = None"
    "isJobEnabled j \<longrightarrow> isJobEnabled job"
    using j j1
    by (cases rule: autoDisable_cases [of Schedule_errors "cx_clock C" n j1];
        auto simp: isJobEnabled_def split: if_splits)+
qed

definition backed_off :: "CronJob \<Rightarrow> int option \<Rightarrow> int option" where
  "backed_off job computed =
     (if \<not> is_at (cj_schedule job) \<and> resolveJobLastRunStatus job = Some Run_error
      then (case (computed, resolveJobErrorBackoffUntilMs job) of
              (Some t, Some backoffFloor) \<Rightarrow> Some (max t backoffFloor)
            | _ \<Rightarrow> computed)
      else computed)"

definition clear_schedule_errors :: "CronJob \<Rightarrow> CronJob" where
  "clear_schedule_errors job =
     (if (case st_scheduleErrorCount (cj_state job) of Some n \<Rightarrow> n \<noteq> 0 | None \<Rightarrow> False)
      then set_state (\<lambda>s. s\<lparr>st_scheduleErrorCount := None\<rparr>) job else job)"

lemma recompute_ok:
  assumes "computeJobNextRunAtMs (cx_lib C) job now = Inr computed"
  shows "snd (recomputeJobNextRunAtMs C skip now job) =
    (clear_schedule_errors (set_next (backed_off job computed) job), [])"
  using assms
  by (simp add: recomputeJobNextRunAtMs_def backed_off_def clear_schedule_errors_def Let_def)

lemma recompute_unchanged:
  assumes "\<not> fst (recomputeJobNextRunAtMs C skip now job)"
  shows "snd (recomputeJobNextRunAtMs C skip now job) = (job, [])"
proof (cases "computeJobNextRunAtMs (cx_lib C) job now")
  case (Inl e)
  with assms show ?thesis
    by (auto simp: recomputeJobNextRunAtMs_def split: if_splits)
next
  case (Inr computed)
  with assms have "nextRunAtMs job = backed_off job computed"
      "\<not> (case st_scheduleErrorCount (cj_state job) of Some n \<Rightarrow> n \<noteq> 0 | None \<Rightarrow> False)"
    by (auto simp: recomputeJobNextRunAtMs_def backed_off_def Let_def)
  then show ?thesis
    by (simp add: recompute_ok [OF Inr] clear_schedule_errors_def set_next_same)
qed

lemma clear_schedule_errors_fields [simp]:
  "cj_id (clear_schedule_errors job) = cj_id job" "cj_schedule (clear_schedule_errors job) = cj_schedule job"
  "cj_createdAtMs (clear_schedule_errors job) = cj_createdAtMs job"
  "isJobEnabled (clear_schedule_errors job) = isJobEnabled job"
  "nextRunAtMs (clear_schedule_errors job) = nextRunAtMs job"
  by (simp_all add: clear_schedule_errors_def)

lemma recompute_keeps:
  assumes "recomputeJobNextRunAtMs C skip now job = (c, j, notes)"
  shows "cj_id j = cj_id job" "isJobEnabled job \<longrightarrow> isJobEnabled j \<or> nextRunAtMs j = None"
proof -
  have "cj_id j = cj_id job \<and> (isJobEnabled job \<longrightarrow> isJobEnabled j \<or> nextRunAtMs j = None)"
  proof (cases "computeJobNextRunAtMs (cx_lib C) job now")
    case (Inl e)
    obtain j' notes' where r: "recordScheduleComputeError C e job = (j', notes')"
      by (cases "recordScheduleComputeError C e job") auto
    from recordError_keeps [OF r] Inl r assms show ?thesis
      by (auto simp: recomputeJobNextRunAtMs_def split: if_splits)
  next
    case (Inr computed)
    from recompute_ok [OF Inr, of skip] assms show ?thesis
      by auto
  qed
  then show "cj_id j = cj_id job" "isJobEnabled job \<longrightarrow> isJobEnabled j \<or> nextRunAtMs j = None"
    by auto
qed

section \<open>Walking the store\<close>

locale job_step =
  fixes step :: "CronJob \<Rightarrow> bool \<times> CronJob \<times> cron_note list"
  assumes keeps_id: "cj_id (fst (snd (step job))) = cj_id job"
    and reports_change: "\<not> fst (step job) \<Longrightarrow> snd (step job) = (job, [])"
    and unschedules_disabled:
      "\<not> isJobEnabled (fst (snd (step job))) \<Longrightarrow> nextRunAtMs (fst (snd (step job))) = None"
begin

lemma walk_keeps_ids: "map_option (map cj_id) (fst (snd (walk_jobs step jobs))) = map_option (map cj_id) jobs"
  by (simp add: walk_jobs_def keeps_id Let_def comp_def split: option.split)

lemma walk_unchanged: "\<not> fst (walk_jobs step jobs) \<Longrightarrow> snd (walk_jobs step jobs) = (jobs, [])"
  using reports_change
  by (auto simp: walk_jobs_def list_ex_iff Let_def intro!: map_idI split: option.splits)

lemma walk_disabled:
  "list_all (\<lambda>j. isJobEnabled j \<or> nextRunAtMs j = None)
     (case fst (snd (walk_jobs step jobs)) of Some js \<Rightarrow> js | None \<Rightarrow> [])"
proof -
  define P where "P = (\<lambda>j. isJobEnabled j \<or> nextRunAtMs j = None)"
  have "P (fst (snd (step job)))" for job
    by (cases "isJobEnabled (fst (snd (step job)))") (simp_all add: P_def unschedules_disabled)
  then have "list_all P (case fst (snd (walk_jobs step jobs)) of Some js \<Rightarrow> js | None \<Rightarrow> [])"
    by (auto simp: walk_jobs_def list_all_iff Let_def split: option.split)
  then show ?thesis
    by (simp only: P_def)
qed

lemmas walk_honest = walk_keeps_ids walk_unchanged walk_disabled

end

lemma recomputeNextRunOf_step: "job_step (recomputeNextRunOf C)"
proof (unfold_locales, goal_cases)
  case (1 job)
  obtain c skip job1 where n: "normalizeJobTickState C (cx_clock C) job = ((c, skip), job1)"
    by (metis prod.exhaust)
  obtain again job2 ns where r: "recomputeJobNextRunAtMs C False (cx_clock C) job1 = (again, job2, ns)"
    by (metis prod.exhaust)
  from n r normalize_keeps(1) [where C = C and now = "cx_clock C" and job = job] recompute_keeps(1) [OF r] show ?case
    by (auto simp: recomputeNextRunOf_def Let_def)
next
  case (2 job)
  obtain c skip job1 where n: "normalizeJobTickState C (cx_clock C) job = ((c, skip), job1)"
    by (metis prod.exhaust)
  obtain again job2 ns where r: "recomputeJobNextRunAtMs C False (cx_clock C) job1 = (again, job2, ns)"
    by (metis prod.exhaust)
  from 2 n r have "\<not> c"
    by (auto simp: recomputeNextRunOf_def Let_def split: if_splits)
  with n normalize_keeps(6) [where C = C and now = "cx_clock C" and job = job] have "job1 = job"
    by simp
  with 2 n r \<open>\<not> c\<close> recompute_unchanged [of C False "cx_clock C" job1] show ?case
    by (auto simp: recomputeNextRunOf_def Let_def split: if_splits)
next
  case (3 job)
  obtain c skip job1 where n: "normalizeJobTickState C (cx_clock C) job = ((c, skip), job1)"
    by (metis prod.exhaust)
  obtain again job2 ns where r: "recomputeJobNextRunAtMs C False (cx_clock C) job1 = (again, job2, ns)"
    by (metis prod.exhaust)
  from n normalize_keeps(2-4) [where C = C and now = "cx_clock C" and job = job]
  have "isJobEnabled job1 = isJobEnabled job" "\<not> isJobEnabled job \<longrightarrow> nextRunAtMs job1 = None \<and> skip"
    by auto
  with 3 n r recompute_keeps(2) [OF r] show ?case
    by (auto simp: recomputeNextRunOf_def Let_def split: if_splits)
qed

end
