(* ===== verification/Cron_Upkeep.thy ===== *)
theory Cron_Upkeep
  imports Cron_Steps
begin

text \<open>
  The maintenance of a job on a tick, taken apart: the normalization, the settling of the slots that have
  an owner (catch-up, pacing), and the recomputation of the next run if it is needed.
\<close>

definition maintenance_now :: "cron_ctx \<Rightarrow> CronMaintenanceOptions \<Rightarrow> int" where
  "maintenance_now C opts = (case mo_nowMs opts of Some t \<Rightarrow> t | None \<Rightarrow> cx_clock C)"

definition paced_pending :: "CronMaintenanceOptions \<Rightarrow> int \<Rightarrow> CronJob \<Rightarrow> bool" where
  "paced_pending opts now job \<longleftrightarrow> pending_slot (st_pacedNextRunAtMs (cj_state job)) job \<and>
     (now < the (st_pacedNextRunAtMs (cj_state job)) \<or>
      mo_preserveExpiredPacedNextRunJobId opts = Some (cj_id job))"

definition settle_slots :: "CronMaintenanceOptions \<Rightarrow> int \<Rightarrow> CronJob \<Rightarrow> CronJob" where
  "settle_slots opts now job = set_state (\<lambda>s. s\<lparr>
     st_startupCatchupAtMs :=
       (if pending_slot (st_startupCatchupAtMs (cj_state job)) job then st_startupCatchupAtMs (cj_state job) else None),
     st_pacedNextRunAtMs :=
       (if paced_pending opts now job then st_pacedNextRunAtMs (cj_state job) else None)\<rparr>) job"

definition needs_recompute :: "cron_ctx \<Rightarrow> CronMaintenanceOptions \<Rightarrow> int \<Rightarrow> CronJob \<Rightarrow> bool" where
  "needs_recompute C opts now job \<longleftrightarrow> \<not> hasScheduledNextRunAtMs (nextRunAtMs job) \<or>
     (mo_repairFutureCronNextRunAtMs opts \<and> \<not> pending_slot (st_startupCatchupAtMs (cj_state job)) job \<and>
      \<not> paced_pending opts now job \<and> \<not> hasForcePreservedNextRun job \<and>
      isStaleFutureCronSlot (cx_lib C) job now) \<or>
     (mo_recomputeExpired opts \<and> isExpiredCronScheduleRepairCandidate C now job)"

lemma settle_slots_fields [simp]:
  "cj_id (settle_slots opts now job) = cj_id job" "cj_schedule (settle_slots opts now job) = cj_schedule job"
  "cj_createdAtMs (settle_slots opts now job) = cj_createdAtMs job"
  "isJobEnabled (settle_slots opts now job) = isJobEnabled job"
  "nextRunAtMs (settle_slots opts now job) = nextRunAtMs job"
  "st_runningAtMs (cj_state (settle_slots opts now job)) = st_runningAtMs (cj_state job)"
  "st_queuedAtMs (cj_state (settle_slots opts now job)) = st_queuedAtMs (cj_state job)"
  "st_forcePreservedNextRunAtMs (cj_state (settle_slots opts now job)) =
     st_forcePreservedNextRunAtMs (cj_state job)"
  "st_streamSourceIdentity (cj_state (settle_slots opts now job)) = st_streamSourceIdentity (cj_state job)"
  by (simp_all add: settle_slots_def)

lemma settle_slots_force [simp]:
  "hasForcePreservedNextRun (settle_slots opts now job) = hasForcePreservedNextRun job"
  by (auto simp: hasForcePreservedNextRun_def split: option.split)

lemma pending_None [simp]: "\<not> pending_slot None job"
  by (simp add: pending_slot_def)

lemma settled_pending [simp]:
  "pending_slot (st_startupCatchupAtMs (cj_state (settle_slots opts now job))) (settle_slots opts now job) =
     pending_slot (st_startupCatchupAtMs (cj_state job)) job"
  "paced_pending opts now (settle_slots opts now job) = paced_pending opts now job"
  by (auto simp: settle_slots_def pending_slot_def paced_pending_def split: option.splits)

lemma settle_slots_fix:
  assumes "st_startupCatchupAtMs (cj_state job) = None \<or> pending_slot (st_startupCatchupAtMs (cj_state job)) job"
    and "st_pacedNextRunAtMs (cj_state job) = None \<or> paced_pending opts now job"
  shows "settle_slots opts now job = job"
proof -
  from assms have "settle_slots opts now job = set_state (\<lambda>s. s\<lparr>
     st_startupCatchupAtMs := st_startupCatchupAtMs (cj_state job),
     st_pacedNextRunAtMs := st_pacedNextRunAtMs (cj_state job)\<rparr>) job"
    by (auto simp: settle_slots_def)
  also have "\<dots> = job"
    by (simp add: set_state_id slots_restored)
  finally show ?thesis .
qed

lemma maintenance_eq:
  assumes "normalizeJobTickState C (maintenance_now C opts) job = ((c, False), job1)"
  defines "j \<equiv> settle_slots opts (maintenance_now C opts) job1"
  defines "r \<equiv> recomputeJobNextRunAtMs C (mo_skipScheduleErrorHandling opts) (maintenance_now C opts) j"
  shows "\<exists>ch. (\<not> ch \<longrightarrow> \<not> c \<and> j = job1) \<and>
    recomputeSingleJobForMaintenance C opts job =
      (if needs_recompute C opts (maintenance_now C opts) j then (fst r \<or> ch, snd r) else (ch, j, []))"
proof -
  let ?now = "maintenance_now C opts"
  define ch where "ch = (c \<or>
     (st_startupCatchupAtMs (cj_state job1) \<noteq> None \<and> \<not> pending_slot (st_startupCatchupAtMs (cj_state job1)) job1) \<or>
     (st_pacedNextRunAtMs (cj_state job1) \<noteq> None \<and> \<not> paced_pending opts ?now job1))"
  have id: "cj_id job1 = cj_id job"
    using assms(1) normalize_keeps(1) [where C = C and now = ?now and job = job] by simp
  have paced: "paced_pending opts ?now job1 \<longleftrightarrow> (pending_slot (st_pacedNextRunAtMs (cj_state job1)) job1 \<and>
      (?now < the (st_pacedNextRunAtMs (cj_state job1)) \<or>
       mo_preserveExpiredPacedNextRunJobId opts = Some (cj_id job)))"
    by (simp add: paced_pending_def id)
  have j: "set_state (\<lambda>s. s\<lparr>
     st_startupCatchupAtMs :=
       (if pending_slot (st_startupCatchupAtMs (cj_state job1)) job1 then st_startupCatchupAtMs (cj_state job1) else None),
     st_pacedNextRunAtMs :=
       (if paced_pending opts ?now job1 then st_pacedNextRunAtMs (cj_state job1) else None)\<rparr>) job1 = j"
    by (simp add: j_def settle_slots_def)
  have need: "needs_recompute C opts ?now j \<longleftrightarrow> (\<not> hasScheduledNextRunAtMs (nextRunAtMs j) \<or>
     (mo_repairFutureCronNextRunAtMs opts \<and> \<not> pending_slot (st_startupCatchupAtMs (cj_state job1)) job1 \<and>
      \<not> paced_pending opts ?now job1 \<and> \<not> hasForcePreservedNextRun job1 \<and>
      isStaleFutureCronSlot (cx_lib C) j ?now) \<or>
     (mo_recomputeExpired opts \<and> isExpiredCronScheduleRepairCandidate C ?now j))"
    by (simp add: needs_recompute_def j_def)
  have "recomputeSingleJobForMaintenance C opts job =
      (if needs_recompute C opts ?now j then (fst r \<or> ch, snd r) else (ch, j, []))"
    unfolding recomputeSingleJobForMaintenance_def maintenance_now_def [symmetric] assms(1) Let_def
    by (simp only: prod.case if_False paced [symmetric] j need [symmetric] r_def [symmetric] ch_def [symmetric]
          disj_assoc) (cases r; simp)
  moreover have "\<not> ch \<longrightarrow> \<not> c \<and> j = job1"
    using settle_slots_fix [of job1 opts ?now] by (auto simp: ch_def j_def)
  ultimately show ?thesis
    by blast
qed

lemma maintenance_skipped:
  assumes "normalizeJobTickState C (maintenance_now C opts) job = ((c, True), job1)"
  shows "recomputeSingleJobForMaintenance C opts job = (c, job1, [])"
  unfolding recomputeSingleJobForMaintenance_def maintenance_now_def [symmetric] assms Let_def
  by simp

lemma maintenance_step: "job_step (recomputeSingleJobForMaintenance C opts)"
proof -
  let ?now = "maintenance_now C opts"
  have all: "cj_id (fst (snd (recomputeSingleJobForMaintenance C opts job))) = cj_id job \<and>
      (\<not> fst (recomputeSingleJobForMaintenance C opts job) \<longrightarrow>
         snd (recomputeSingleJobForMaintenance C opts job) = (job, [])) \<and>
      (\<not> isJobEnabled (fst (snd (recomputeSingleJobForMaintenance C opts job))) \<longrightarrow>
         nextRunAtMs (fst (snd (recomputeSingleJobForMaintenance C opts job))) = None)" for job
  proof -
    obtain c skip job1 where n: "normalizeJobTickState C ?now job = ((c, skip), job1)"
      by (metis prod.exhaust)
    from n normalize_keeps [where C = C and now = ?now and job = job]
    have job1: "cj_id job1 = cj_id job" "isJobEnabled job1 = isJobEnabled job"
      "\<not> isJobEnabled job \<longrightarrow> nextRunAtMs job1 = None \<and> skip" "\<not> c \<longrightarrow> job1 = job"
      by auto
    show ?thesis
    proof (cases skip)
      case True
      with n have "recomputeSingleJobForMaintenance C opts job = (c, job1, [])"
        by (intro maintenance_skipped) simp
      with job1 show ?thesis
        by (cases "isJobEnabled job") simp_all
    next
      case False
      define j where "j = settle_slots opts ?now job1"
      obtain again j3 ns where r: "recomputeJobNextRunAtMs C (mo_skipScheduleErrorHandling opts) ?now j =
          (again, j3, ns)"
        by (metis prod.exhaust)
      from n False have n': "normalizeJobTickState C ?now job = ((c, False), job1)"
        by simp
      from maintenance_eq [OF n', folded j_def, unfolded r fst_conv snd_conv] obtain ch
        where ch: "\<not> ch \<longrightarrow> \<not> c \<and> j = job1"
          and eq: "recomputeSingleJobForMaintenance C opts job =
            (if needs_recompute C opts ?now j then (again \<or> ch, j3, ns) else (ch, j, []))"
        by (elim exE conjE)
      have "isJobEnabled j" "cj_id j = cj_id job"
        using job1 False by (auto simp: j_def)
      moreover have "\<not> again \<longrightarrow> j3 = j \<and> ns = []"
        using recompute_unchanged [of C "mo_skipScheduleErrorHandling opts" ?now j] r by simp
      ultimately show ?thesis
        using ch eq recompute_keeps [OF r] job1
        by (cases "needs_recompute C opts ?now j"; simp; blast)
    qed
  qed
  show ?thesis
  proof (unfold_locales, goal_cases)
    case (1 job)
    show ?case
      using all [of job] by (rule conjunct1)
  next
    case (2 job)
    with all [of job] show ?case
      by (simp only: simp_thms)
  next
    case (3 job)
    with all [of job] show ?case
      by (simp only: simp_thms)
  qed
qed

interpretation tick_walk: job_step "recomputeNextRunOf C" for C
  by (rule recomputeNextRunOf_step)

interpretation maintenance_walk: job_step "recomputeSingleJobForMaintenance C opts" for C opts
  by (rule maintenance_step)

section \<open>A due slot and a second pass\<close>

text \<open>Maintenance without the repair of expired slots leaves a slot that is due to the tick that runs it.\<close>

text \<open>What a slot that is due waits for: a slot already run, or one inside a backoff, is not waiting.\<close>

definition run_history ::
  "CronJob \<Rightarrow> int option \<times> run_status option \<times> run_status option \<times> int option \<times> int option" where
  "run_history job = (st_lastRunAtMs (cj_state job), st_lastRunStatus (cj_state job), st_lastStatus (cj_state job),
     st_consecutiveErrors (cj_state job), st_lastDurationMs (cj_state job))"

definition slot_waits :: "int \<Rightarrow> int \<Rightarrow> CronJob \<Rightarrow> bool" where
  "slot_waits now t job \<longleftrightarrow>
     (case st_lastRunAtMs (cj_state job) of Some l \<Rightarrow> l < t | None \<Rightarrow> True) \<and>
     (case resolveJobErrorBackoffUntilMs job of Some u \<Rightarrow> u \<le> now | None \<Rightarrow> True)"

lemma history_waits:
  assumes "run_history a = run_history b"
  shows "slot_waits now t a = slot_waits now t b"
proof -
  from assms have e: "st_lastRunAtMs (cj_state a) = st_lastRunAtMs (cj_state b)"
    "st_lastRunStatus (cj_state a) = st_lastRunStatus (cj_state b)"
    "st_lastStatus (cj_state a) = st_lastStatus (cj_state b)"
    "st_consecutiveErrors (cj_state a) = st_consecutiveErrors (cj_state b)"
    "st_lastDurationMs (cj_state a) = st_lastDurationMs (cj_state b)"
    by (simp_all add: run_history_def)
  show ?thesis
    unfolding slot_waits_def resolveJobErrorBackoffUntilMs_def resolveJobLastRunStatus_def e by (rule refl)
qed

lemma history_steps [simp]:
  "run_history (with_stream_identity C job) = run_history job"
  "run_history (with_every_anchor now job) = run_history job"
  "run_history (clear_invalid_next job) = run_history job"
  "run_history (clear_force_preserved job) = run_history job"
  "run_history (clear_stuck_queued C now job) = run_history job"
  "run_history (settle_slots opts now job) = run_history job"
  by (simp_all add: run_history_def with_stream_identity_def with_every_anchor_def
      clear_invalid_next_def clear_force_preserved_def clear_stuck_queued_def settle_slots_def set_next_def Let_def
      split: CronSchedule.split option.split)

lemma normalize_history: "run_history (snd (normalizeJobTickState C now job)) = run_history job"
proof -
  have "run_history (set_state (\<lambda>s. s\<lparr>st_runningAtMs := None\<rparr>) j) = run_history j"
    "run_history (normalize_disabled C j) = run_history j" for j
    by (simp_all add: run_history_def normalize_disabled_def Let_def)
  then show ?thesis
    by (simp add: normalizeJobTickState_def Let_def)
qed

lemma waiting_is_no_candidate:
  "slot_waits now t job \<Longrightarrow> nextRunAtMs job = Some t \<Longrightarrow> \<not> isExpiredCronScheduleRepairCandidate C now job"
  by (auto simp: slot_waits_def isExpiredCronScheduleRepairCandidate_def split: option.splits)

lemma maintenance_keeps_due:
  assumes "isJobEnabled job" "nextRunAtMs job = Some t" "hasScheduledNextRunAtMs (Some t)"
    and "t \<le> maintenance_now C opts" "\<not> mo_recomputeExpired opts \<or> slot_waits (maintenance_now C opts) t job"
  shows "nextRunAtMs (fst (snd (recomputeSingleJobForMaintenance C opts job))) = Some t \<and>
         isJobEnabled (fst (snd (recomputeSingleJobForMaintenance C opts job)))"
proof -
  let ?now = "maintenance_now C opts"
  obtain c skip job1 where n: "normalizeJobTickState C ?now job = ((c, skip), job1)"
    by (metis prod.exhaust)
  from n normalize_keeps [where C = C and now = ?now and job = job] assms(1-3)
  have job1: "nextRunAtMs job1 = Some t" "isJobEnabled job1"
    by auto
  show ?thesis
  proof (cases skip)
    case True
    with n have "recomputeSingleJobForMaintenance C opts job = (c, job1, [])"
      by (intro maintenance_skipped) simp
    with job1 show ?thesis
      by simp
  next
    case False
    define j where "j = settle_slots opts ?now job1"
    have "run_history j = run_history job"
      using normalize_history [where C = C and now = ?now and job = job] n by (simp add: j_def)
    then have "slot_waits ?now t j = slot_waits ?now t job"
      by (rule history_waits)
    moreover have next_j: "nextRunAtMs j = Some t"
      using job1(1) by (simp add: j_def)
    ultimately have "\<not> (mo_recomputeExpired opts \<and> isExpiredCronScheduleRepairCandidate C ?now j)"
      using assms(5) waiting_is_no_candidate by blast
    moreover have "\<not> isStaleFutureCronSlot (cx_lib C) j ?now"
      using next_j assms(4) by (simp add: isStaleFutureCronSlot_def)
    ultimately have "\<not> needs_recompute C opts ?now j"
      using next_j assms(3) by (simp add: needs_recompute_def)
    with maintenance_eq [of C opts job c job1] n False obtain ch
      where "recomputeSingleJobForMaintenance C opts job = (ch, j, [])"
      by (auto simp: j_def [symmetric])
    with job1 show ?thesis
      by (simp add: j_def)
  qed
qed

text \<open>The next run of a job depends on its schedule and its history, not on its slots.\<close>

lemma computeJobNext_cong:
  assumes "cj_id j = cj_id job" "cj_schedule j = cj_schedule job" "cj_createdAtMs j = cj_createdAtMs job"
    and "isJobEnabled j = isJobEnabled job"
    and "st_lastRunAtMs (cj_state j) = st_lastRunAtMs (cj_state job)"
    and "resolveJobLastRunStatus j = resolveJobLastRunStatus job"
  shows "computeJobNextRunAtMs L j now = computeJobNextRunAtMs L job now"
  unfolding computeJobNextRunAtMs_def nextEveryJobRunAtMs_def fallback_anchor_def
    computeStaggeredCronNextRunAtMs_def job_offset_def assms by (rule refl)

lemma status_cong:
  assumes "st_lastRunStatus (cj_state j) = st_lastRunStatus (cj_state job)"
    and "st_lastStatus (cj_state j) = st_lastStatus (cj_state job)"
  shows "resolveJobLastRunStatus j = resolveJobLastRunStatus job"
  unfolding resolveJobLastRunStatus_def assms by (rule refl)

lemma backoff_cong:
  assumes "resolveJobLastRunStatus j = resolveJobLastRunStatus job"
    and "st_lastRunAtMs (cj_state j) = st_lastRunAtMs (cj_state job)"
    and "st_consecutiveErrors (cj_state j) = st_consecutiveErrors (cj_state job)"
    and "st_lastDurationMs (cj_state j) = st_lastDurationMs (cj_state job)"
  shows "resolveJobErrorBackoffUntilMs j = resolveJobErrorBackoffUntilMs job"
  unfolding resolveJobErrorBackoffUntilMs_def assms by (rule refl)

lemma recomputed_history [simp]:
  "st_lastRunAtMs (cj_state (clear_schedule_errors j)) = st_lastRunAtMs (cj_state j)"
  "st_consecutiveErrors (cj_state (clear_schedule_errors j)) = st_consecutiveErrors (cj_state j)"
  "st_lastDurationMs (cj_state (clear_schedule_errors j)) = st_lastDurationMs (cj_state j)"
  "st_lastRunStatus (cj_state (clear_schedule_errors j)) = st_lastRunStatus (cj_state j)"
  "st_lastStatus (cj_state (clear_schedule_errors j)) = st_lastStatus (cj_state j)"
  by (simp_all add: clear_schedule_errors_def)

lemma recomputed_status [simp]:
  "resolveJobLastRunStatus (clear_schedule_errors (set_next t j)) = resolveJobLastRunStatus j"
  by (rule status_cong) simp_all

lemma recomputed_until [simp]:
  "resolveJobErrorBackoffUntilMs (clear_schedule_errors (set_next t j)) = resolveJobErrorBackoffUntilMs j"
  by (rule backoff_cong) simp_all

lemma recomputed_backoff [simp]:
  "backed_off (clear_schedule_errors (set_next t j)) computed = backed_off j computed"
  by (simp add: backed_off_def)

lemma recompute_twice:
  assumes "computeJobNextRunAtMs (cx_lib C) job now = Inr computed"
    and "j = clear_schedule_errors (set_next (backed_off job computed) job)"
  shows "snd (recomputeJobNextRunAtMs C skip now j) = (j, [])"
proof -
  have "computeJobNextRunAtMs (cx_lib C) j now = computeJobNextRunAtMs (cx_lib C) job now"
    by (rule computeJobNext_cong) (simp_all add: assms(2))
  with assms have eq: "computeJobNextRunAtMs (cx_lib C) j now = Inr computed"
    by simp
  have "set_next (backed_off j computed) j = j"
    by (rule set_next_same) (simp add: assms(2))
  moreover have "clear_schedule_errors j = j"
    by (simp add: assms(2) clear_schedule_errors_def)
  ultimately show ?thesis
    by (simp add: recompute_ok [OF eq])
qed

section \<open>Maintenance settles\<close>

text \<open>Where the schedule computes, a second pass at the same instant leaves the job as the first left it.\<close>

definition settled :: "cron_ctx \<Rightarrow> CronMaintenanceOptions \<Rightarrow> int \<Rightarrow> CronJob \<Rightarrow> bool" where
  "settled C opts now job \<longleftrightarrow> isJobEnabled job \<and> with_stream_identity C job = job \<and>
     anchor_normal now job \<and> slots_normal C now job \<and>
     \<not> marker_stuck C now (cj_id job) (st_runningAtMs (cj_state job)) \<and> settle_slots opts now job = job"

lemma settled_pass:
  assumes "settled C opts (maintenance_now C opts) job"
    and "needs_recompute C opts (maintenance_now C opts) job \<Longrightarrow>
      snd (recomputeJobNextRunAtMs C (mo_skipScheduleErrorHandling opts) (maintenance_now C opts) job) = (job, [])"
  shows "snd (recomputeSingleJobForMaintenance C opts job) = (job, [])"
proof -
  let ?now = "maintenance_now C opts"
  from assms(1) have "normalizeJobTickState C ?now job = ((False, False), job)"
    by (simp add: settled_def normalize_enabled with_every_anchor_fix normalize_slots_fix Let_def)
  from maintenance_eq [OF this] assms show ?thesis
    by (auto simp: settled_def)
qed

lemma settle_slots_slots:
  "st_startupCatchupAtMs (cj_state (settle_slots opts now job)) =
     (if pending_slot (st_startupCatchupAtMs (cj_state job)) job then st_startupCatchupAtMs (cj_state job) else None)"
  "st_pacedNextRunAtMs (cj_state (settle_slots opts now job)) =
     (if paced_pending opts now job then st_pacedNextRunAtMs (cj_state job) else None)"
  by (simp_all add: settle_slots_def)

lemma settle_slots_idem: "settle_slots opts now (settle_slots opts now job) = settle_slots opts now job"
proof (rule settle_slots_fix)
  let ?k = "settle_slots opts now job"
  show "st_startupCatchupAtMs (cj_state ?k) = None \<or> pending_slot (st_startupCatchupAtMs (cj_state ?k)) ?k"
    unfolding settled_pending by (simp add: settle_slots_slots)
  show "st_pacedNextRunAtMs (cj_state ?k) = None \<or> paced_pending opts now ?k"
    unfolding settled_pending by (simp add: settle_slots_slots)
qed

lemma anchor_normal_cong:
  assumes "cj_schedule j = cj_schedule job" "cj_createdAtMs j = cj_createdAtMs job"
  shows "anchor_normal now j = anchor_normal now job"
  unfolding anchor_normal_def fallback_anchor_def assms by (rule refl)

lemma normalized_settles:
  assumes "isJobEnabled job" "\<not> marker_stuck C now (cj_id job) (st_runningAtMs (cj_state job))"
  shows "settled C opts now (settle_slots opts now
           (normalize_slots C now (with_every_anchor now (with_stream_identity C job))))"
proof -
  define j where "j = with_every_anchor now (with_stream_identity C job)"
  define k where "k = settle_slots opts now (normalize_slots C now j)"
  have enabled: "isJobEnabled k"
    using assms(1) by (simp add: k_def j_def)
  have running: "\<not> marker_stuck C now (cj_id k) (st_runningAtMs (cj_state k))"
    using assms(2) by (simp add: k_def j_def with_stream_identity_def)
  have identity: "with_stream_identity C k = k"
    using with_stream_identity_idem [of C job]
    unfolding with_stream_identity_fix by (simp add: k_def j_def)
  have anchor: "anchor_normal now k"
  proof -
    have "anchor_normal now k = anchor_normal now j"
      by (rule anchor_normal_cong) (simp_all add: k_def)
    then show ?thesis
      using with_every_anchor_normal by (simp add: j_def)
  qed
  have slots: "slots_normal C now k"
    using normalize_slots_normal [of C now j] unfolding slots_normal_def by (simp add: k_def)
  have "settle_slots opts now k = k"
    unfolding k_def by (rule settle_slots_idem)
  with enabled running identity anchor slots show ?thesis
    unfolding settled_def k_def j_def by simp
qed

text \<open>Recomputing a settled job that needs it gives a settled job.\<close>

lemma recomputed_settles:
  assumes settled: "settled C opts now job" and need: "needs_recompute C opts now job"
    and expired: "\<not> mo_recomputeExpired opts" and t: "t = None \<or> hasScheduledNextRunAtMs t"
  shows "settled C opts now (clear_schedule_errors (set_next t job))"
proof -
  define k where "k = clear_schedule_errors (set_next t job)"
  have fields: "cj_id k = cj_id job" "cj_schedule k = cj_schedule job" "nextRunAtMs k = t"
    "cj_createdAtMs k = cj_createdAtMs job" "isJobEnabled k = isJobEnabled job"
    "st_runningAtMs (cj_state k) = st_runningAtMs (cj_state job)"
    "st_queuedAtMs (cj_state k) = st_queuedAtMs (cj_state job)"
    "st_streamSourceIdentity (cj_state k) = st_streamSourceIdentity (cj_state job)"
    "st_forcePreservedNextRunAtMs (cj_state k) = st_forcePreservedNextRunAtMs (cj_state job)"
    "st_startupCatchupAtMs (cj_state k) = st_startupCatchupAtMs (cj_state job)"
    "st_pacedNextRunAtMs (cj_state k) = st_pacedNextRunAtMs (cj_state job)"
    by (simp_all add: k_def clear_schedule_errors_def)
  have normal: "slots_normal C now job" and same: "settle_slots opts now job = job"
    using settled by (simp_all add: settled_def)
  from need expired have "\<not> hasScheduledNextRunAtMs (nextRunAtMs job) \<or>
      \<not> pending_slot (st_startupCatchupAtMs (cj_state job)) job \<and> \<not> paced_pending opts now job \<and>
      \<not> hasForcePreservedNextRun job"
    by (auto simp: needs_recompute_def)
  then have none: "\<not> pending_slot (st_startupCatchupAtMs (cj_state job)) job" "\<not> paced_pending opts now job"
      "\<not> hasForcePreservedNextRun job"
    by (auto simp: pending_slot_def paced_pending_def hasForcePreservedNextRun_def split: option.splits)
  have empty: "st_startupCatchupAtMs (cj_state job) = None" "st_pacedNextRunAtMs (cj_state job) = None"
    using settle_slots_slots [of opts now job] none same by simp_all
  have force: "st_forcePreservedNextRunAtMs (cj_state job) = None"
  proof (cases "st_forcePreservedNextRunAtMs (cj_state job)")
    case (Some x)
    with normal have "isFiniteTimestamp x" "nextRunAtMs job = Some x" "hasScheduledNextRunAtMs (Some x)"
      by (auto simp: slots_normal_def)
    with Some none(3) show ?thesis
      by (simp add: hasForcePreservedNextRun_def)
  qed
  have "with_stream_identity C k = k"
    using settled fields unfolding settled_def with_stream_identity_fix by simp
  moreover have "anchor_normal now k"
    using settled anchor_normal_cong [OF fields(2,4)] by (simp add: settled_def)
  moreover have "slots_normal C now k"
    using normal t force fields by (auto simp: slots_normal_def)
  moreover have "settle_slots opts now k = k"
    by (rule settle_slots_fix) (simp_all add: fields empty)
  ultimately show ?thesis
    using settled fields unfolding settled_def k_def by simp
qed

lemma settle_slots_history [simp]:
  "st_lastRunAtMs (cj_state (settle_slots opts now j)) = st_lastRunAtMs (cj_state j)"
  "st_consecutiveErrors (cj_state (settle_slots opts now j)) = st_consecutiveErrors (cj_state j)"
  "st_lastDurationMs (cj_state (settle_slots opts now j)) = st_lastDurationMs (cj_state j)"
  "st_lastRunStatus (cj_state (settle_slots opts now j)) = st_lastRunStatus (cj_state j)"
  "st_lastStatus (cj_state (settle_slots opts now j)) = st_lastStatus (cj_state j)"
  by (simp_all add: settle_slots_def)

lemma settle_slots_status [simp]:
  "resolveJobLastRunStatus (settle_slots opts now j) = resolveJobLastRunStatus j"
  by (rule status_cong) simp_all

lemma settle_slots_next:
  "computeJobNextRunAtMs L (settle_slots opts now j) t = computeJobNextRunAtMs L j t"
  "backed_off (settle_slots opts now j) = backed_off j"
proof -
  show "computeJobNextRunAtMs L (settle_slots opts now j) t = computeJobNextRunAtMs L j t"
    by (rule computeJobNext_cong) simp_all
  have "resolveJobErrorBackoffUntilMs (settle_slots opts now j) = resolveJobErrorBackoffUntilMs j"
    by (rule backoff_cong) simp_all
  then show "backed_off (settle_slots opts now j) = backed_off j"
    by (simp add: backed_off_def fun_eq_iff)
qed

lemma maintenance_settles_lemma:
  fixes C :: cron_ctx and opts :: CronMaintenanceOptions and job :: CronJob
  defines "now \<equiv> maintenance_now C opts"
  defines "job1 \<equiv> snd (normalizeJobTickState C now job)"
  assumes on: "isJobEnabled job"
    and running: "\<not> marker_stuck C now (cj_id job) (st_runningAtMs (cj_state job))"
    and expired: "\<not> mo_recomputeExpired opts"
    and computes: "computeJobNextRunAtMs (cx_lib C) job1 now = Inr computed"
    and positive: "backed_off job1 computed = None \<or> hasScheduledNextRunAtMs (backed_off job1 computed)"
    and r: "recomputeSingleJobForMaintenance C opts job = (c, j, ns)"
  shows "snd (recomputeSingleJobForMaintenance C opts j) = (j, [])"
proof -
  define job2 where "job2 = settle_slots opts now job1"
  have n: "normalizeJobTickState C now job = ((job1 \<noteq> job, False), job1)"
    and job1: "job1 = normalize_slots C now (with_every_anchor now (with_stream_identity C job))"
    by (simp_all add: job1_def normalize_enabled [OF on running] Let_def)
  have settled: "settled C opts now job2"
    unfolding job2_def job1 by (rule normalized_settles [OF on running])
  have next2: "computeJobNextRunAtMs (cx_lib C) job2 now = Inr computed" "backed_off job2 = backed_off job1"
    using computes by (simp_all add: job2_def settle_slots_next)
  let ?again = "clear_schedule_errors (set_next (backed_off job2 computed) job2)"
  obtain ch where eq: "recomputeSingleJobForMaintenance C opts job =
      (if needs_recompute C opts now job2 then
         (fst (recomputeJobNextRunAtMs C (mo_skipScheduleErrorHandling opts) now job2) \<or> ch,
          snd (recomputeJobNextRunAtMs C (mo_skipScheduleErrorHandling opts) now job2))
       else (ch, job2, []))"
    using maintenance_eq [OF n [unfolded now_def], folded now_def, folded job2_def] by blast
  show ?thesis
  proof (cases "needs_recompute C opts now job2")
    case False
    with eq r settled settled_pass [of C opts job2] show ?thesis
      by (simp add: now_def)
  next
    case True
    with eq r recompute_ok [OF next2(1)] have j: "j = ?again"
      by simp
    have "settled C opts now j"
      unfolding j using settled True expired by (rule recomputed_settles) (use positive next2 in simp)
    moreover have "snd (recomputeJobNextRunAtMs C skip now j) = (j, [])" for skip
      using next2(1) j by (rule recompute_twice)
    ultimately show ?thesis
      by (intro settled_pass) (simp_all add: now_def)
  qed
qed

end
