(* ===== verification/Cron_Outcomes.thy ===== *)
theory Cron_Outcomes
  imports Cron_Maintenance
begin

text \<open>
  What a finished run does to its job (\<open>src/cron/service/timer-outcomes.ts\<close>, \<open>timer-trigger.ts\<close>,
  \<open>failure-alerts.ts\<close>, \<open>src/cron/pacing.ts\<close>, \<open>retry-hint.ts\<close>, \<open>schedule-identity.ts\<close>,
  \<open>completion-status.ts\<close>): the recorded outcome, the counters, the retry or the next slot, the alert, and
  whether the job is deleted.

  A result carries its delivery state and its completion status, as the results of the timer do. The
  parameters are the regular expressions of the retry classifier, the inference of a failure reason
  from the text of an error, the parser of durations (package \<open>ms\<close>) and the alert policy a
  job resolves to. Diagnostics and the texts of notifications are left out.
\<close>

section \<open>Results\<close>

datatype error_classification = Classified_permanent | Classified_reason string

datatype completion_status = Succeeded | Failed | Completion_unknown

record trigger_eval =
  te_fired :: bool
  te_stateChanged :: bool
  te_state :: "string option"
  te_busy :: bool

record delivery_state =
  ds_delivered :: "bool option"
  ds_status :: delivery_status
  ds_suppression :: "string option"
  ds_error :: "string option"

record cron_result =
  jr_status :: run_status
  jr_error :: "string option"
  jr_classification :: "error_classification option"
  jr_executionStarted :: bool
  jr_startedAt :: int
  jr_endedAt :: int
  jr_nextCheckDelayMs :: "int option"
  jr_delivery :: delivery_state
  jr_completion :: completion_status
  jr_triggerEval :: "trigger_eval option"
  jr_scriptStateChanged :: bool
  jr_scriptState :: "string option"

record alert_config =
  ac_after :: int
  ac_cooldownMs :: int
  ac_includeSkipped :: bool
  ac_alternateRoute :: bool

datatype retry_on = Rate_limit | Overloaded | Network | Timeout | Server_error

record outcome_env =
  oe_ctx :: cron_ctx
  oe_inferReason :: "string \<Rightarrow> string option"
  oe_sessionLifecycleClaim :: "string \<Rightarrow> bool"
  oe_transient :: "retry_on \<Rightarrow> string \<Rightarrow> bool"
  oe_parseDuration :: "string \<Rightarrow> int option"
  oe_alertConfig :: "CronJob \<Rightarrow> alert_config option"

definition MIN_REFIRE_GAP_MS :: int where "MIN_REFIRE_GAP_MS = 2000"

definition TRIGGER_MIN_INTERVAL_MS :: int where "TRIGGER_MIN_INTERVAL_MS = 30000"

definition count_of :: "int option \<Rightarrow> int" where
  "count_of n = (case n of Some k \<Rightarrow> k | None \<Rightarrow> 0)"

text \<open>\<open>resolveCronCompletionStatus\<close> of the policy a run was admitted with.\<close>

definition resolveAdmittedCronCompletionStatus ::
  "CronJob \<Rightarrow> run_status \<Rightarrow> delivery_status \<Rightarrow> string option \<Rightarrow> completion_status" where
  "resolveAdmittedCronCompletionStatus job status deliveryStatus suppression =
     (let requiredDelivery = (\<not> cj_bestEffort job \<and> deliveryStatus \<noteq> Not_requested)
      in if status \<noteq> Run_ok then Failed
         else if \<not> requiredDelivery \<or> deliveryStatus = Delivered \<or>
                 deliveryStatus = Not_delivered \<and> suppression \<noteq> None then Succeeded
         else if deliveryStatus = Not_delivered then Failed
         else Completion_unknown)"

section \<open>Retry decisions\<close>

definition resolveCronRunErrorReason :: "outcome_env \<Rightarrow> string \<Rightarrow> error_classification option \<Rightarrow> string option" where
  "resolveCronRunErrorReason E err classification = (case classification of
       Some Classified_permanent \<Rightarrow> None
     | Some (Classified_reason r) \<Rightarrow> Some r
     | None \<Rightarrow> oe_inferReason E err)"

definition retry_key :: "retry_on \<Rightarrow> string" where
  "retry_key k = (case k of Rate_limit \<Rightarrow> ''rate_limit'' | Overloaded \<Rightarrow> ''overloaded''
     | Network \<Rightarrow> ''network'' | Timeout \<Rightarrow> ''timeout'' | Server_error \<Rightarrow> ''server_error'')"

definition transient_keys :: "retry_on list" where
  "transient_keys = [Rate_limit, Overloaded, Network, Timeout, Server_error]"

definition resolveCronExecutionRetryHint ::
  "outcome_env \<Rightarrow> string option \<Rightarrow> string option \<Rightarrow> bool \<Rightarrow> bool \<times> string option" where
  "resolveCronExecutionRetryHint E err classifiedReason executionStarted =
     (case err of
        None \<Rightarrow> (False, None)
      | Some text \<Rightarrow>
          if text = [] then (False, None)
          else if oe_sessionLifecycleClaim E text then (\<not> executionStarted, None)
          else (case classifiedReason of
                  Some (c # cs) \<Rightarrow>
                    if (c # cs) \<in> set (List.map retry_key transient_keys) then (True, Some (c # cs))
                    else (False, None)
                | _ \<Rightarrow>
                    (case find (\<lambda>k. oe_transient E k text) transient_keys of
                       Some k \<Rightarrow> (True, Some (retry_key k))
                     | None \<Rightarrow> (False, None))))"

definition DEFAULT_MAX_TRANSIENT_RETRIES :: nat where "DEFAULT_MAX_TRANSIENT_RETRIES = 3"

definition transient_backoff :: "int \<Rightarrow> int" where
  "transient_backoff n =
     errorBackoffMs n (take DEFAULT_MAX_TRANSIENT_RETRIES DEFAULT_ERROR_BACKOFF_SCHEDULE_MS)"

text \<open>\<open>Some\<close> the backoff of a retryable error.\<close>

definition resolveTransientCronRetryDecision :: "outcome_env \<Rightarrow> cron_result \<Rightarrow> CronJob \<Rightarrow> int option" where
  "resolveTransientCronRetryDecision E result job =
     (if jr_classification result = Some Classified_permanent then None
      else
        let reason = (case jr_classification result of
                        Some (Classified_reason r) \<Rightarrow> Some r
                      | _ \<Rightarrow> st_lastErrorReason (cj_state job));
            (retryable, category) =
              resolveCronExecutionRetryHint E (jr_error result) reason (jr_executionStarted result);
            consecutiveErrors = count_of (st_consecutiveErrors (cj_state job))
        in if \<not> retryable \<or> int DEFAULT_MAX_TRANSIENT_RETRIES < consecutiveErrors then None
           else Some (transient_backoff consecutiveErrors))"

definition resolveDisabledHeartbeatOneShotRetryDecision :: "CronJob \<Rightarrow> int option" where
  "resolveDisabledHeartbeatOneShotRetryDecision job =
     (let consecutiveSkipped = count_of (st_consecutiveSkipped (cj_state job))
      in if int DEFAULT_MAX_TRANSIENT_RETRIES < consecutiveSkipped then None
         else Some (transient_backoff consecutiveSkipped))"

definition shouldRetryDisabledHeartbeatOneShot :: "CronJob \<Rightarrow> cron_result \<Rightarrow> bool" where
  "shouldRetryDisabledHeartbeatOneShot job result \<longleftrightarrow>
     is_at (cj_schedule job) \<and> cj_mainSession job \<and> cj_wakeNow job \<and> jr_status result = Run_skipped \<and>
     jr_error result = Some HEARTBEAT_SKIP_DISABLED"

section \<open>Pacing\<close>

text \<open>\<open>Inl\<close> is a configuration error the function throws.\<close>

definition parsePositivePacingDuration :: "outcome_env \<Rightarrow> string \<Rightarrow> string \<Rightarrow> string + int" where
  "parsePositivePacingDuration E value bound =
     (case oe_parseDuration E value of
        Some d \<Rightarrow> if 0 < d then Inr d else Inl (''cron pacing '' @ bound @ '' must be a positive duration'')
      | None \<Rightarrow> Inl (''cron pacing '' @ bound @ '' must be a positive duration''))"

definition parse_bound :: "outcome_env \<Rightarrow> string option \<Rightarrow> string \<Rightarrow> string + int option" where
  "parse_bound E value bound = (case value of
       None \<Rightarrow> Inr None
     | Some v \<Rightarrow> (case parsePositivePacingDuration E v bound of Inl e \<Rightarrow> Inl e | Inr d \<Rightarrow> Inr (Some d)))"

definition parseCronPacingBounds :: "outcome_env \<Rightarrow> CronPacing \<Rightarrow> string + (int option \<times> int option)" where
  "parseCronPacingBounds E pacing =
     (if cp_min pacing = None \<and> cp_max pacing = None
      then Inl ''cron pacing requires at least one of min or max''
      else case parse_bound E (cp_min pacing) ''min'' of
          Inl e \<Rightarrow> Inl e
        | Inr minMs \<Rightarrow>
            (case parse_bound E (cp_max pacing) ''max'' of
               Inl e \<Rightarrow> Inl e
             | Inr maxMs \<Rightarrow>
                 (case (minMs, maxMs) of
                    (Some lo, Some hi) \<Rightarrow>
                      if hi < lo then Inl ''cron pacing min must not exceed max'' else Inr (minMs, maxMs)
                  | _ \<Rightarrow> Inr (minMs, maxMs))))"

definition resolvePacedNextRunAtMs :: "outcome_env \<Rightarrow> int \<Rightarrow> int \<Rightarrow> CronPacing \<Rightarrow> string + int option" where
  "resolvePacedNextRunAtMs E nowMs delayMs pacing =
     (case parseCronPacingBounds E pacing of
        Inl e \<Rightarrow> Inl e
      | Inr (minMs, maxMs) \<Rightarrow>
          let raised = max (nowMs + (case minMs of Some lo \<Rightarrow> lo | None \<Rightarrow> 0)) (nowMs + delayMs)
          in Inr (asDateTimestampMs (case maxMs of Some hi \<Rightarrow> min (nowMs + hi) raised | None \<Rightarrow> raised)))"

section \<open>Assigning a next run\<close>

text \<open>A job and the notifications queued so far.\<close>

type_synonym job_work = "CronJob \<times> cron_note list"

definition resolveNextRunAtMsOrDisable :: "cron_ctx \<Rightarrow> int option \<Rightarrow> job_work \<Rightarrow> int option \<times> job_work" where
  "resolveNextRunAtMsOrDisable C candidate w =
     (if hasScheduledNextRunAtMs candidate then (candidate, w)
      else let (_, job, notes) = autoDisableCronJob Schedule_errors (cx_clock C) 1 (fst w)
           in (None, (job, snd w @ notes)))"

definition assignNextRunAtMs :: "cron_ctx \<Rightarrow> int option \<Rightarrow> job_work \<Rightarrow> int option \<times> job_work" where
  "assignNextRunAtMs C candidate w =
     (let (t, (job, notes)) = resolveNextRunAtMsOrDisable C candidate w in (t, (set_next t job, notes)))"

definition assign :: "cron_ctx \<Rightarrow> int option \<Rightarrow> job_work \<Rightarrow> job_work" where
  "assign C candidate w = snd (assignNextRunAtMs C candidate w)"

definition resolveCronNextRunWithLowerBound ::
  "cron_ctx \<Rightarrow> int option \<Rightarrow> int \<Rightarrow> job_work \<Rightarrow> int option \<times> job_work" where
  "resolveCronNextRunWithLowerBound C naturalNext lowerBoundMs w =
     (case naturalNext of
        None \<Rightarrow> (None, w)
      | Some t \<Rightarrow> resolveNextRunAtMsOrDisable C (Some (max t lowerBoundMs)) w)"

definition on_job :: "(CronJob \<Rightarrow> CronJob) \<Rightarrow> job_work \<Rightarrow> job_work" where
  "on_job f w = (f (fst w), snd w)"

definition disable :: "CronJob \<Rightarrow> CronJob" where
  "disable job = set_next None (job\<lparr>cj_enabled := Some False\<rparr>)"

section \<open>Failure alerts\<close>

definition requestFailureNotification :: "cron_ctx \<Rightarrow> alert_config \<Rightarrow> CronJob \<Rightarrow> CronJob option" where
  "requestFailureNotification C cfg job =
     (let nowMs = cx_clock C;
          inCooldown = (case st_lastFailureAlertAtMs (cj_state job) of
              Some l \<Rightarrow> l \<le> nowMs \<and> nowMs - l < max 0 (ac_cooldownMs cfg) | None \<Rightarrow> False)
      in if inCooldown then None
         else Some (set_state (\<lambda>s. s\<lparr>st_delivery := (st_delivery s)\<lparr>
                      df_lastFailureNotificationDelivered := None,
                      df_lastFailureNotificationDeliveryStatus := Some Delivery_unknown,
                      df_lastFailureNotificationDeliveryError := None\<rparr>,
                    st_lastFailureAlertAtMs := Some nowMs\<rparr>) job))"

definition maybeEmitFailureAlert ::
  "cron_ctx \<Rightarrow> alert_config option \<Rightarrow> run_status \<Rightarrow> int \<Rightarrow> job_work \<Rightarrow> job_work" where
  "maybeEmitFailureAlert C cfg status consecutiveCount w = (case cfg of
       None \<Rightarrow> w
     | Some alert \<Rightarrow>
         if consecutiveCount < ac_after alert \<or> cj_bestEffort (fst w) \<and> \<not> cj_ownFailureAlert (fst w) then w
         else (case requestFailureNotification C alert (fst w) of
                 None \<Rightarrow> w
               | Some job \<Rightarrow> (job, snd w @ [Note_failure_alert (cj_id job) status consecutiveCount])))"

definition finalizeCronFailureNotifications ::
  "cron_ctx \<Rightarrow> alert_config option \<Rightarrow> cron_result \<Rightarrow> bool \<Rightarrow> bool \<Rightarrow> job_work \<Rightarrow> job_work" where
  "finalizeCronFailureNotifications C cfg result autoDisableOwnsFailure replay w =
     (if replay then w
      else if jr_status result = Run_error \<and> \<not> autoDisableOwnsFailure then
        maybeEmitFailureAlert C cfg Run_error (count_of (st_consecutiveErrors (cj_state (fst w)))) w
      else (case cfg of
              None \<Rightarrow> w
            | Some alert \<Rightarrow>
                if jr_status result = Run_ok \<and> jr_completion result = Failed \<and>
                   df_lastDeliveryStatus (st_delivery (cj_state (fst w))) = Some Not_delivered \<and>
                   ac_alternateRoute alert
                then (case requestFailureNotification C alert (fst w) of
                        None \<Rightarrow> w
                      | Some job \<Rightarrow> (job, snd w @ [Note_delivery_alert (cj_id job)]))
                else w))"

section \<open>Recording an outcome\<close>

definition record_outcome :: "outcome_env \<Rightarrow> cron_result \<Rightarrow> CronJob \<Rightarrow> CronJob" where
  "record_outcome E result job =
     set_state (\<lambda>s. s\<lparr>
        st_queuedAtMs := None, st_runningAtMs := None,
        st_pacedNextRunAtMs := None, st_forcePreservedNextRunAtMs := None,
        st_lastRunAtMs := Some (jr_startedAt result),
        st_lastRunStatus := Some (jr_status result), st_lastStatus := Some (jr_status result),
        st_lastDurationMs := Some (max 0 (jr_endedAt result - jr_startedAt result)),
        st_lastError := jr_error result,
        st_lastErrorReason := (case (jr_status result, jr_error result) of
            (Run_error, Some err) \<Rightarrow> resolveCronRunErrorReason E err (jr_classification result)
          | _ \<Rightarrow> None),
        st_delivery := \<lparr>
          df_lastDelivered = ds_delivered (jr_delivery result),
          df_lastDeliveryStatus = Some (ds_status (jr_delivery result)),
          df_deliverySuppressionReason = ds_suppression (jr_delivery result),
          df_lastDeliveryError = ds_error (jr_delivery result),
          df_lastFailureNotificationDelivered = None,
          df_lastFailureNotificationDeliveryStatus = Some Not_requested,
          df_lastFailureNotificationDeliveryError = None\<rparr>\<rparr>)
      (job\<lparr>cj_updatedAtMs := jr_endedAt result\<rparr>)"

definition count_outcome :: "outcome_env \<Rightarrow> alert_config option \<Rightarrow> cron_result \<Rightarrow> bool \<Rightarrow> CronJob \<Rightarrow> job_work" where
  "count_outcome E cfg result replay job = (case jr_status result of
       Run_error \<Rightarrow>
         (set_state (\<lambda>s. s\<lparr>st_consecutiveErrors := Some (count_of (st_consecutiveErrors s) + 1),
                           st_consecutiveSkipped := Some 0\<rparr>) job, [])
     | Run_skipped \<Rightarrow>
         (let job1 = set_state (\<lambda>s. s\<lparr>st_consecutiveErrors := Some 0,
                        st_consecutiveSkipped := Some (count_of (st_consecutiveSkipped s) + 1)\<rparr>) job
          in if (case cfg of Some a \<Rightarrow> ac_includeSkipped a | None \<Rightarrow> False) \<and> \<not> replay
             then maybeEmitFailureAlert (oe_ctx E) cfg Run_skipped
                    (count_of (st_consecutiveSkipped (cj_state job1))) (job1, [])
             else (job1, []))
     | Run_ok \<Rightarrow>
         (set_state (\<lambda>s. s\<lparr>st_consecutiveErrors := Some 0, st_consecutiveSkipped := Some 0,
             st_lastFailureAlertAtMs :=
               (if jr_completion result = Succeeded then None else st_lastFailureAlertAtMs s)\<rparr>) job, []))"

section \<open>The next run after an outcome\<close>

text \<open>A one-shot: a retry, or it is over.\<close>

definition schedule_one_shot :: "outcome_env \<Rightarrow> cron_result \<Rightarrow> job_work \<Rightarrow> job_work" where
  "schedule_one_shot E result w =
     (if shouldRetryDisabledHeartbeatOneShot (fst w) result then
        (case resolveDisabledHeartbeatOneShotRetryDecision (fst w) of
           Some backoffMs \<Rightarrow>
             assign (oe_ctx E) (Some (jr_endedAt result + backoffMs))
               (on_job (\<lambda>job. job\<lparr>cj_enabled := Some True\<rparr>) w)
         | None \<Rightarrow> on_job disable w)
      else (case jr_status result of
          Run_error \<Rightarrow>
            (case resolveTransientCronRetryDecision E result (fst w) of
               Some backoffMs \<Rightarrow> assign (oe_ctx E) (Some (jr_endedAt result + backoffMs)) w
             | None \<Rightarrow> on_job disable w)
        | _ \<Rightarrow> on_job disable w))"

text \<open>The natural next run; a schedule that throws is recorded as an error.\<close>

definition natural_next ::
  "outcome_env \<Rightarrow> bool \<Rightarrow> cron_result \<Rightarrow> job_work \<Rightarrow> int option \<times> job_work" where
  "natural_next E onGrid result w =
     (case (if onGrid \<and> is_every (cj_schedule (fst w))
            then computeNextRunAtMs (cx_lib (oe_ctx E)) (cj_schedule (fst w)) (jr_endedAt result)
            else computeJobNextRunAtMs (cx_lib (oe_ctx E)) (fst w) (jr_endedAt result)) of
        Inr t \<Rightarrow> (t, w)
      | Inl err \<Rightarrow>
          (let (job, notes) = recordScheduleComputeError (oe_ctx E) err (fst w)
           in (None, (job, snd w @ notes))))"

definition backoff_after_error :: "outcome_env \<Rightarrow> int option \<Rightarrow> cron_result \<Rightarrow> int \<Rightarrow> job_work \<Rightarrow> job_work" where
  "backoff_after_error E normalNext result backoffMs w =
     (if normalNext = None \<and> is_every (cj_schedule (fst w)) then assign (oe_ctx E) None w
      else (case assignNextRunAtMs (oe_ctx E) (Some (jr_endedAt result + backoffMs)) w of
              (None, w1) \<Rightarrow> w1
            | (Some backoffNext, w1) \<Rightarrow>
                if is_cron (cj_schedule (fst w1)) then
                  (let (t, w2) = resolveCronNextRunWithLowerBound (oe_ctx E) normalNext backoffNext w1
                   in on_job (set_next t) w2)
                else on_job (set_next (Some (case normalNext of Some t \<Rightarrow> max t backoffNext
                                                            | None \<Rightarrow> backoffNext))) w1))"

definition schedule_after_error :: "outcome_env \<Rightarrow> int \<Rightarrow> cron_result \<Rightarrow> job_work \<Rightarrow> job_work" where
  "schedule_after_error E previousConsecutiveErrors result w =
     (let retry = resolveTransientCronRetryDecision E result (fst w);
          backoffMs = errorBackoffMs (case st_consecutiveErrors (cj_state (fst w)) of Some n \<Rightarrow> n | None \<Rightarrow> 1)
                        DEFAULT_ERROR_BACKOFF_SCHEDULE_MS;
          (normalNext, w1) = natural_next E (retry \<noteq> None \<or> 0 < previousConsecutiveErrors) result w
      in case (retry, normalNext) of
           (Some retryMs, Some natural) \<Rightarrow>
             (case assignNextRunAtMs (oe_ctx E) (Some (jr_endedAt result + retryMs)) w1 of
                (None, w2) \<Rightarrow> w2
              | (Some retryNext, w2) \<Rightarrow>
                  if retryNext < natural then w2
                  else backoff_after_error E normalNext result backoffMs w2)
         | _ \<Rightarrow> backoff_after_error E normalNext result backoffMs w1)"

definition schedule_paced :: "outcome_env \<Rightarrow> CronPacing \<Rightarrow> int \<Rightarrow> cron_result \<Rightarrow> job_work \<Rightarrow> string + job_work" where
  "schedule_paced E pacing delayMs result w =
     (case resolvePacedNextRunAtMs E (jr_endedAt result) delayMs pacing of
        Inl e \<Rightarrow> Inl e
      | Inr paced \<Rightarrow>
          let candidate = (if cj_trigger (fst w) \<noteq> None
                           then map_option (\<lambda>t. max t (jr_endedAt result +
                                  max MIN_REFIRE_GAP_MS TRIGGER_MIN_INTERVAL_MS)) paced
                           else paced);
              (t, w1) = assignNextRunAtMs (oe_ctx E) candidate w
          in Inr (on_job (set_state (\<lambda>s. s\<lparr>st_pacedNextRunAtMs := t\<rparr>)) w1))"

definition schedule_next_slot :: "outcome_env \<Rightarrow> int \<Rightarrow> cron_result \<Rightarrow> job_work \<Rightarrow> job_work" where
  "schedule_next_slot E previousConsecutiveErrors result w =
     (let (natural, w1) = natural_next E (0 < previousConsecutiveErrors) result w;
          hasTrigger = (cj_trigger (fst w1) \<noteq> None)
      in if is_cron (cj_schedule (fst w1)) then
           (let minNext = jr_endedAt result +
                  max MIN_REFIRE_GAP_MS (if hasTrigger then TRIGGER_MIN_INTERVAL_MS else 0);
                (t, w2) = resolveCronNextRunWithLowerBound (oe_ctx E) natural minNext w1
            in on_job (set_next t) w2)
         else
           (let triggerNext = (if hasTrigger
                  then map_option (\<lambda>t. max t (jr_endedAt result + TRIGGER_MIN_INTERVAL_MS)) natural
                  else natural);
                w2 = on_job (set_next triggerNext) w1
            in if triggerNext \<noteq> None \<or> is_every (cj_schedule (fst w2))
               then assign (oe_ctx E) triggerNext w2 else w2))"

section \<open>Applying a result\<close>

record apply_options =
  ao_preserve :: bool
  ao_stale :: bool
  ao_scheduleOwnershipAtMs :: "int option"
  ao_replay :: bool
  ao_replaySchedule :: "int option option"

definition restore_slot :: "CronJob \<Rightarrow> int option \<Rightarrow> CronJob \<Rightarrow> CronJob" where
  "restore_slot previous forcePreserved =
     set_state (\<lambda>s. s\<lparr>st_nextRunAtMs := nextRunAtMs previous,
                      st_pacedNextRunAtMs := st_pacedNextRunAtMs (cj_state previous),
                      st_forcePreservedNextRunAtMs := forcePreserved\<rparr>)"

definition apply_replay_schedule :: "outcome_env \<Rightarrow> int option \<Rightarrow> job_work \<Rightarrow> job_work" where
  "apply_replay_schedule E replayNext w =
     (case (if st_autoDisabled (cj_state (fst w)) \<noteq> None then None else replayNext) of
        None \<Rightarrow> on_job (set_next None) w
      | Some t \<Rightarrow> assign (oe_ctx E) (Some t) w)"

text \<open>The branches of an owned schedule. The boolean: an auto-disable notification reports the failure.\<close>

definition schedule_owned ::
  "outcome_env \<Rightarrow> apply_options \<Rightarrow> int \<Rightarrow> CronJob \<Rightarrow> cron_result \<Rightarrow> job_work \<Rightarrow> string + (bool \<times> job_work)" where
  "schedule_owned E opts previousConsecutiveErrors previous result w =
     (let job = fst w;
          disabled = (if jr_status result = Run_error \<and> isJobEnabled job
                      then maybeAutoDisableCronJobAfterRunFailure (jr_endedAt result) job
                      else (False, job, []))
      in if is_at (cj_schedule job) then
           (case ao_replaySchedule opts of
              Some replayNext \<Rightarrow>
                (let w1 = apply_replay_schedule E replayNext w
                 in Inr (False, on_job (\<lambda>j. j\<lparr>cj_enabled := Some (nextRunAtMs j \<noteq> None)\<rparr>) w1))
            | None \<Rightarrow> Inr (False, schedule_one_shot E result w))
         else if ao_preserve opts then
           Inr (False, on_job (restore_slot previous (nextRunAtMs previous)) w)
         else if fst disabled then Inr (True, (fst (snd disabled), snd w @ snd (snd disabled)))
         else if jr_status result = Run_error \<and> isJobEnabled job then
           Inr (False, schedule_after_error E previousConsecutiveErrors result w)
         else (case (isJobEnabled job \<and> jr_status result = Run_ok, cj_pacing job, jr_nextCheckDelayMs result) of
                 (True, Some pacing, Some delayMs) \<Rightarrow>
                   (case schedule_paced E pacing delayMs result w of
                      Inl e \<Rightarrow> Inl e | Inr w1 \<Rightarrow> Inr (False, w1))
               | _ \<Rightarrow>
                   if isJobEnabled job
                   then Inr (False, schedule_next_slot E previousConsecutiveErrors result w)
                   else Inr (False, on_job (set_next None) w)))"

definition applyJobResult ::
  "outcome_env \<Rightarrow> apply_options \<Rightarrow> cron_result \<Rightarrow> CronJob \<Rightarrow> string + (bool \<times> job_work)" where
  "applyJobResult E opts result job =
     (let cfg = oe_alertConfig E job;
          previousConsecutiveErrors = count_of (st_consecutiveErrors (cj_state job));
          w = count_outcome E cfg result (ao_replay opts) (record_outcome E result job);
          preserveOneShotSchedule = (ao_preserve opts \<and> is_at (cj_schedule job) \<and>
            (case nextRunAtMs job of
               Some t \<Rightarrow> (case ao_scheduleOwnershipAtMs opts of Some o' \<Rightarrow> o' | None \<Rightarrow> jr_startedAt result) < t
             | None \<Rightarrow> False));
          shouldDelete = (\<not> ao_stale opts \<and> (is_at (cj_schedule job) \<or> is_on_exit (cj_schedule job)) \<and>
            \<not> preserveOneShotSchedule \<and> cj_deleteAfterRun job \<and> jr_completion result = Succeeded);
          scheduled =
            (if ao_stale opts then
               Inr (False, on_job (\<lambda>j. restore_slot job (st_forcePreservedNextRunAtMs (cj_state job))
                                         (j\<lparr>cj_enabled := cj_enabled job\<rparr>)) w)
             else if shouldDelete then Inr (False, w)
             else if preserveOneShotSchedule then
               Inr (False, on_job (restore_slot job (nextRunAtMs job)) w)
             else schedule_owned E opts previousConsecutiveErrors job result w)
      in case scheduled of
           Inl e \<Rightarrow> Inl e
         | Inr (ownsFailure, w1) \<Rightarrow>
             let w2 = (case ao_replaySchedule opts of
                         Some replayNext \<Rightarrow>
                           if is_at (cj_schedule (fst w1)) then w1 else apply_replay_schedule E replayNext w1
                       | None \<Rightarrow> w1)
             in Inr (shouldDelete,
                     finalizeCronFailureNotifications (oe_ctx E) cfg result ownsFailure (ao_replay opts) w2))"

end
