(* ===== verification/Cron_Finalize.thy ===== *)
theory Cron_Finalize
  imports Cron_Outcomes
begin

text \<open>
  Finishing a run on the stored job (\<open>applyOutcomeToAuthoritativeJob\<close>, \<open>applyOutcomeToStoredJob\<close> and the
  trigger results of \<open>src/cron/service/timer-outcomes.ts\<close> and \<open>timer-trigger.ts\<close>): a run keeps its
  outcome whatever happened meanwhile, but the schedule and the trigger state belong to the latest
  edit. The identity of a schedule is the value whose JSON text the code compares
  (\<open>src/cron/schedule-identity.ts\<close>). The history and event records of a run are left out.
\<close>

section \<open>Who owns the schedule and the trigger\<close>

definition readScheduleInteger :: "int option \<Rightarrow> int option" where
  "readScheduleInteger v = (case v of Some n \<Rightarrow> if \<bar>n\<bar> \<le> MAX_SAFE_INT then Some n else None | None \<Rightarrow> None)"

definition schedulePayloadFromRecord :: "CronSchedule \<Rightarrow> CronSchedule option" where
  "schedulePayloadFromRecord schedule = (case schedule of
       Sched_at at \<Rightarrow> map_option Sched_at (normalizeOptionalString (Some at))
     | Sched_every everyMs anchorMs \<Rightarrow>
         (if isFiniteTimestamp everyMs then Some (Sched_every everyMs (Option.bind anchorMs asDateTimestampMs))
          else None)
     | Sched_cron expr tz staggerMs \<Rightarrow>
         (case normalizeOptionalString expr of
            None \<Rightarrow> None
          | Some e \<Rightarrow> Some (Sched_cron (Some e) (normalizeOptionalString tz)
                        (map_option Stagger_number (normalizeCronStaggerMs staggerMs))))
     | Sched_on_exit command cwd \<Rightarrow>
         map_option (\<lambda>c. Sched_on_exit c (normalizeOptionalString cwd)) (normalizeOptionalString (Some command))
     | Sched_stream command cwd mode regex batchMs maxBatchBytes \<Rightarrow>
         (if command = [] \<or> [] \<in> set command then None
          else Some (Sched_stream command (normalizeOptionalString cwd)
                 (case normalizeOptionalString mode of
                    Some m \<Rightarrow> if m = ''line'' \<or> m = ''match'' then Some m else None | None \<Rightarrow> None)
                 regex (readScheduleInteger batchMs) (readScheduleInteger maxBatchBytes))))"

text \<open>The outer \<open>None\<close> is a pacing that cannot be parsed.\<close>

definition resolvePacingPayload :: "outcome_env \<Rightarrow> CronJob \<Rightarrow> (int option \<times> int option) option option" where
  "resolvePacingPayload E job = (case cj_pacing job of
       None \<Rightarrow> Some None
     | Some p \<Rightarrow>
         (case parseCronPacingBounds E \<lparr>cp_min = normalizeOptionalString (cp_min p),
                                        cp_max = normalizeOptionalString (cp_max p)\<rparr> of
            Inl _ \<Rightarrow> None
          | Inr bounds \<Rightarrow> Some (Some bounds)))"

type_synonym schedule_identity = "bool \<times> CronSchedule \<times> (int option \<times> int option) option \<times> bool"

definition tryCronScheduleIdentity :: "outcome_env \<Rightarrow> CronJob \<Rightarrow> schedule_identity option" where
  "tryCronScheduleIdentity E job =
     (case (schedulePayloadFromRecord (cj_schedule job), resolvePacingPayload E job) of
        (Some schedule, Some pacing) \<Rightarrow> Some (isJobEnabled job, schedule, pacing, cj_trigger job \<noteq> None)
      | _ \<Rightarrow> None)"

definition cronSchedulingInputsEqual :: "outcome_env \<Rightarrow> CronJob \<Rightarrow> CronJob \<Rightarrow> bool" where
  "cronSchedulingInputsEqual E previous next \<longleftrightarrow>
     tryCronScheduleIdentity E previous \<noteq> None \<and>
     tryCronScheduleIdentity E previous = tryCronScheduleIdentity E next"

record active_marker =
  am_scheduleMutated :: bool
  am_triggerMutated :: bool
  am_jobRemoved :: bool

definition resolveCronRunScheduleOwnership ::
  "outcome_env \<Rightarrow> CronJob \<Rightarrow> CronJob \<Rightarrow> active_marker option \<Rightarrow> bool" where
  "resolveCronRunScheduleOwnership E admittedJob currentJob marker \<longleftrightarrow>
     (case marker of Some m \<Rightarrow> \<not> am_scheduleMutated m | None \<Rightarrow> True) \<and>
     cronSchedulingInputsEqual E admittedJob currentJob"

definition resolveCronRunTriggerOwnership :: "CronJob \<Rightarrow> CronJob \<Rightarrow> active_marker option \<Rightarrow> bool" where
  "resolveCronRunTriggerOwnership admittedJob currentJob marker \<longleftrightarrow>
     (case marker of Some m \<Rightarrow> \<not> am_triggerMutated m | None \<Rightarrow> True) \<and>
     cj_trigger admittedJob = cj_trigger currentJob"

section \<open>Trigger results\<close>

definition applyTriggerEvaluationState :: "trigger_eval \<Rightarrow> int \<Rightarrow> CronJob \<Rightarrow> CronJob" where
  "applyTriggerEvaluationState ev evaluatedAtMs job =
     (if te_busy ev then job
      else set_state (\<lambda>s. s\<lparr>st_trigger := (st_trigger s)\<lparr>
               tf_lastTriggerEvalAtMs := Some evaluatedAtMs,
               tf_triggerEvalCount := Some (count_of (tf_triggerEvalCount (st_trigger s)) + 1),
               tf_triggerState := (if te_stateChanged ev then te_state ev else tf_triggerState (st_trigger s)),
               tf_lastTriggerFireAtMs :=
                 (if te_fired ev then Some evaluatedAtMs else tf_lastTriggerFireAtMs (st_trigger s))\<rparr>\<rparr>) job)"

definition applyTriggerRunResult :: "cron_ctx \<Rightarrow> cron_result \<Rightarrow> bool \<Rightarrow> bool \<Rightarrow> CronJob \<Rightarrow> CronJob" where
  "applyTriggerRunResult C result ownsSchedule ownsTrigger job = (case jr_triggerEval result of
       None \<Rightarrow> job
     | Some ev \<Rightarrow>
         if \<not> ownsTrigger then job
         else
           let persistedEval = (if jr_status result = Run_ok then ev
                                else ev\<lparr>te_stateChanged := False, te_state := None\<rparr>);
               job1 = applyTriggerEvaluationState persistedEval (jr_endedAt result) job
           in if ownsSchedule \<and> te_fired ev \<and> (case cj_trigger job1 of Some t \<Rightarrow> ct_once t = Some True | None \<Rightarrow> False) \<and>
                 jr_status result = Run_ok
              then disable (if is_stream (cj_schedule job1)
                            then set_state (\<lambda>s. s\<lparr>st_streamSourceIdentity := Some (cx_uuid C (cj_id job1))\<rparr>) job1
                            else job1)
              else job1)"

definition applyScriptRunResult :: "cron_result \<Rightarrow> bool \<Rightarrow> CronJob \<Rightarrow> CronJob" where
  "applyScriptRunResult result ownsTrigger job =
     (if ownsTrigger \<and> jr_status result = Run_ok \<and> jr_scriptStateChanged result
      then set_state (\<lambda>s. s\<lparr>st_trigger := (st_trigger s)\<lparr>tf_triggerState := jr_scriptState result\<rparr>\<rparr>) job
      else job)"

datatype schedule_mode = Advance | Immediate_preserve | Stale_preserve

definition applyTriggerNoFireResult ::
  "cron_ctx \<Rightarrow> schedule_mode \<Rightarrow> bool \<Rightarrow> trigger_eval \<Rightarrow> int \<Rightarrow> CronJob \<Rightarrow> job_work" where
  "applyTriggerNoFireResult C mode ownsTrigger ev endedAt job =
     (let job1 = set_state (\<lambda>s. s\<lparr>st_queuedAtMs := None, st_runningAtMs := None\<rparr>) (job\<lparr>cj_updatedAtMs := endedAt\<rparr>);
          job2 = (if \<not> te_busy ev \<and> ownsTrigger
                  then applyTriggerEvaluationState ev endedAt
                         (set_state (\<lambda>s. s\<lparr>st_consecutiveErrors := Some 0, st_scheduleErrorCount := Some 0\<rparr>) job1)
                  else job1)
      in case mode of
           Immediate_preserve \<Rightarrow> (restore_slot job (nextRunAtMs job) job2, [])
         | Stale_preserve \<Rightarrow> (restore_slot job (st_forcePreservedNextRunAtMs (cj_state job)) job2, [])
         | Advance \<Rightarrow>
             (let job3 = set_state (\<lambda>s. s\<lparr>st_pacedNextRunAtMs := None, st_forcePreservedNextRunAtMs := None\<rparr>) job2
              in case computeJobNextRunAtMs (cx_lib C) job3 endedAt of
                   Inl err \<Rightarrow> recordScheduleComputeError C err job3
                 | Inr naturalNext \<Rightarrow>
                     let floorMs = max MIN_REFIRE_GAP_MS TRIGGER_MIN_INTERVAL_MS; w = (set_next naturalNext job3, [])
                     in if naturalNext \<noteq> None \<or> is_every (cj_schedule job3)
                        then assign C (map_option (\<lambda>t. max t (endedAt + floorMs)) naturalNext) w
                        else w))"

section \<open>Applying an outcome to the store\<close>

record cron_outcome =
  co_job :: CronJob
  co_marker :: "active_marker option"
  co_result :: cron_result

definition timer_options :: "bool \<Rightarrow> apply_options" where
  "timer_options stale = \<lparr>ao_preserve = False, ao_stale = stale, ao_scheduleOwnershipAtMs = None,
     ao_replay = False, ao_replaySchedule = None\<rparr>"

definition quiet_tick :: "cron_result \<Rightarrow> trigger_eval option" where
  "quiet_tick result = (case jr_triggerEval result of
       Some ev \<Rightarrow> if jr_status result = Run_ok \<and> \<not> te_fired ev then Some ev else None
     | None \<Rightarrow> None)"

definition clear_catchup :: "CronJob \<Rightarrow> CronJob" where
  "clear_catchup = set_state (\<lambda>s. s\<lparr>st_startupCatchupAtMs := None\<rparr>)"

text \<open>The boolean: the job is to be deleted.\<close>

definition applyOutcomeToAuthoritativeJob ::
  "outcome_env \<Rightarrow> cron_outcome \<Rightarrow> CronJob \<Rightarrow> string + (bool \<times> job_work)" where
  "applyOutcomeToAuthoritativeJob E outcome job =
     (let result = co_result outcome;
          ownsSchedule = resolveCronRunScheduleOwnership E (co_job outcome) job (co_marker outcome);
          ownsTrigger = resolveCronRunTriggerOwnership (co_job outcome) job (co_marker outcome)
      in case quiet_tick result of
           Some ev \<Rightarrow>
             (let w = applyTriggerNoFireResult (oe_ctx E) (if ownsSchedule then Advance else Stale_preserve)
                        ownsTrigger ev (jr_endedAt result) job;
                  w1 = on_job clear_catchup w
              in Inr (False, if ownsSchedule
                             then on_job (set_state (\<lambda>s. s\<lparr>st_pacedNextRunAtMs := None\<rparr>)) w1 else w1))
         | None \<Rightarrow>
             (case applyJobResult E (timer_options (\<not> ownsSchedule)) result job of
                Inl e \<Rightarrow> Inl e
              | Inr (shouldDelete, w) \<Rightarrow>
                  Inr (shouldDelete, on_job (\<lambda>j. clear_catchup (applyScriptRunResult result ownsTrigger
                    (applyTriggerRunResult (oe_ctx E) result ownsSchedule ownsTrigger j))) w)))"

text \<open>\<open>find\<close>, and changing what it found in place.\<close>

fun update_first :: "('a \<Rightarrow> bool) \<Rightarrow> ('a \<Rightarrow> 'a) \<Rightarrow> 'a list \<Rightarrow> 'a list" where
  "update_first P f [] = []"
| "update_first P f (x # xs) = (if P x then f x # xs else x # update_first P f xs)"

text \<open>The jobs that stay, and the job that was deleted; a run whose job is gone leaves the store alone.\<close>

definition applyOutcomeToStoredJob ::
  "outcome_env \<Rightarrow> cron_outcome \<Rightarrow> CronJob list \<Rightarrow> string + (CronJob list \<times> CronJob option \<times> cron_note list)" where
  "applyOutcomeToStoredJob E outcome jobs =
     (let jobId = cj_id (co_job outcome);
          removed = (case co_marker outcome of Some m \<Rightarrow> am_jobRemoved m | None \<Rightarrow> False)
      in case find (\<lambda>j. cj_id j = jobId) jobs of
           Some job \<Rightarrow>
             if removed then
               (if quiet_tick (co_result outcome) \<noteq> None then Inr (jobs, None, [])
                else case applyJobResult E (timer_options True) (co_result outcome) (co_job outcome) of
                       Inl e \<Rightarrow> Inl e | Inr (_, _, notes) \<Rightarrow> Inr (jobs, None, notes))
             else (case applyOutcomeToAuthoritativeJob E outcome job of
                     Inl e \<Rightarrow> Inl e
                   | Inr (shouldDelete, job1, notes) \<Rightarrow>
                       if shouldDelete then Inr (filter (\<lambda>j. cj_id j \<noteq> cj_id job) jobs, Some job1, notes)
                       else Inr (update_first (\<lambda>j. cj_id j = jobId) (\<lambda>_. job1) jobs, None, notes))
         | None \<Rightarrow>
             if quiet_tick (co_result outcome) \<noteq> None then Inr (jobs, None, [])
             else case applyJobResult E (timer_options True) (co_result outcome) (co_job outcome) of
                    Inl e \<Rightarrow> Inl e | Inr (_, _, notes) \<Rightarrow> Inr (jobs, None, notes))"

end
