(* ===== verification/Cron_Outcome_Laws.thy ===== *)
theory Cron_Outcome_Laws
  imports Cron_Finalize Cron_Steps
begin

text \<open>
  What the outcome of a run may do to the slots of its job: alerts and history leave them alone, every
  assigned slot lies after the end of the run, and the branches of \<open>applyJobResult\<close> respect this.
\<close>

section \<open>What leaves the slots alone\<close>

definition slot_view ::
  "CronJob \<Rightarrow> string \<times> bool option \<times> CronSchedule \<times> CronTrigger option \<times> CronPacing option \<times> int option \<times> int option \<times> int option" where
  "slot_view job = (cj_id job, cj_enabled job, cj_schedule job, cj_trigger job, cj_pacing job,
     nextRunAtMs job, st_pacedNextRunAtMs (cj_state job), st_forcePreservedNextRunAtMs (cj_state job))"

lemma slot_viewD:
  assumes "slot_view a = slot_view b"
  shows "cj_id a = cj_id b" "cj_enabled a = cj_enabled b" "cj_schedule a = cj_schedule b"
    "cj_trigger a = cj_trigger b" "cj_pacing a = cj_pacing b" "nextRunAtMs a = nextRunAtMs b"
    "st_pacedNextRunAtMs (cj_state a) = st_pacedNextRunAtMs (cj_state b)"
    "st_forcePreservedNextRunAtMs (cj_state a) = st_forcePreservedNextRunAtMs (cj_state b)"
  using assms by (simp_all add: slot_view_def)

lemma request_view: "requestFailureNotification C cfg job = Some j \<Longrightarrow> slot_view j = slot_view job"
  by (auto simp: requestFailureNotification_def slot_view_def Let_def split: if_splits option.splits)

lemma emit_view: "slot_view (fst (maybeEmitFailureAlert C cfg status n w)) = slot_view (fst w)"
  by (auto simp: maybeEmitFailureAlert_def request_view split: option.split)

lemma finalize_view:
  "slot_view (fst (finalizeCronFailureNotifications C cfg result owns replay w)) = slot_view (fst w)"
  by (auto simp: finalizeCronFailureNotifications_def emit_view request_view split: option.split)

lemma record_fields [simp]:
  "cj_id (record_outcome E result job) = cj_id job" "cj_enabled (record_outcome E result job) = cj_enabled job"
  "cj_schedule (record_outcome E result job) = cj_schedule job"
  "cj_trigger (record_outcome E result job) = cj_trigger job"
  "cj_pacing (record_outcome E result job) = cj_pacing job"
  "cj_payload (record_outcome E result job) = cj_payload job"
  "st_autoDisabled (cj_state (record_outcome E result job)) = st_autoDisabled (cj_state job)"
  "st_consecutiveErrors (cj_state (record_outcome E result job)) = st_consecutiveErrors (cj_state job)"
  by (simp_all add: record_outcome_def)

lemma count_fields:
  "cj_id (fst (count_outcome E cfg result replay job)) = cj_id job"
  "cj_enabled (fst (count_outcome E cfg result replay job)) = cj_enabled job"
  "cj_schedule (fst (count_outcome E cfg result replay job)) = cj_schedule job"
  "cj_trigger (fst (count_outcome E cfg result replay job)) = cj_trigger job"
  "cj_pacing (fst (count_outcome E cfg result replay job)) = cj_pacing job"
proof -
  have "slot_view (fst (count_outcome E cfg result replay job)) = slot_view job"
    by (auto simp: count_outcome_def emit_view Let_def slot_view_def [of "set_state _ _"] slot_view_def [of job]
        split: run_status.split option.split)
  from slot_viewD [OF this] show
    "cj_id (fst (count_outcome E cfg result replay job)) = cj_id job"
    "cj_enabled (fst (count_outcome E cfg result replay job)) = cj_enabled job"
    "cj_schedule (fst (count_outcome E cfg result replay job)) = cj_schedule job"
    "cj_trigger (fst (count_outcome E cfg result replay job)) = cj_trigger job"
    "cj_pacing (fst (count_outcome E cfg result replay job)) = cj_pacing job"
    by simp_all
qed

section \<open>Assigned slots\<close>

lemma autoDisable_schedule:
  "cj_schedule (fst (snd (autoDisableCronJob reason at n job))) = cj_schedule job"
  "cj_trigger (fst (snd (autoDisableCronJob reason at n job))) = cj_trigger job"
  by (simp_all add: autoDisableCronJob_def)

lemma resolve_cases:
  assumes "resolveNextRunAtMsOrDisable C candidate w = (t, w1)"
  shows "cj_schedule (fst w1) = cj_schedule (fst w)" "t = None \<or> t = candidate \<and> w1 = w"
  using assms autoDisable_schedule [of Schedule_errors "cx_clock C" 1 "fst w"]
  by (auto simp: resolveNextRunAtMsOrDisable_def split: if_splits prod.splits)

lemma assign_cases:
  assumes "assignNextRunAtMs C candidate w = (t, w1)"
  shows "cj_schedule (fst w1) = cj_schedule (fst w)" "nextRunAtMs (fst w1) = t" "t = None \<or> t = candidate"
proof -
  obtain t' w' where r: "resolveNextRunAtMsOrDisable C candidate w = (t', w')"
    by (metis prod.exhaust)
  with assms have "t = t'" "fst w1 = set_next t' (fst w')"
    by (auto simp: assignNextRunAtMs_def split: prod.splits)
  with resolve_cases [OF r]
  show "cj_schedule (fst w1) = cj_schedule (fst w)" "nextRunAtMs (fst w1) = t" "t = None \<or> t = candidate"
    by auto
qed

lemma assign_next:
  "nextRunAtMs (fst (assign C candidate w)) = None \<or> nextRunAtMs (fst (assign C candidate w)) = candidate"
  using assign_cases(2,3) [of C candidate w "fst (assignNextRunAtMs C candidate w)" "assign C candidate w"]
  by (simp add: assign_def)

lemma lower_bound_cases:
  assumes "resolveCronNextRunWithLowerBound C natural lo w = (t, w1)"
  shows "case t of Some x \<Rightarrow> lo \<le> x | None \<Rightarrow> True"
proof (cases natural)
  case (Some x)
  with assms have "resolveNextRunAtMsOrDisable C (Some (max x lo)) w = (t, w1)"
    by (simp add: resolveCronNextRunWithLowerBound_def)
  from resolve_cases(2) [OF this] show ?thesis
    by auto
qed (use assms in \<open>simp add: resolveCronNextRunWithLowerBound_def\<close>)

text \<open>A next run is not before an instant.\<close>

definition not_before :: "int \<Rightarrow> CronJob \<Rightarrow> bool" where
  "not_before e job \<longleftrightarrow> (case nextRunAtMs job of Some t \<Rightarrow> e \<le> t | None \<Rightarrow> True)"

lemma not_before_simps [simp]:
  "not_before e (set_next t job) \<longleftrightarrow> (case t of Some x \<Rightarrow> e \<le> x | None \<Rightarrow> True)"
  "not_before e (disable job)"
  by (simp_all add: not_before_def disable_def)

lemma assign_not_before:
  "(case candidate of Some x \<Rightarrow> e \<le> x | None \<Rightarrow> True) \<Longrightarrow> not_before e (fst (assign C candidate w))"
  using assign_next [of C candidate w] by (auto simp: not_before_def)

lemma backoff_at_least: "30000 \<le> transient_backoff n" "30000 \<le> errorBackoffMs n DEFAULT_ERROR_BACKOFF_SCHEDULE_MS"
proof -
  have "nat (max 0 (min (n - 1) 2)) \<in> {0, 1, 2}" "nat (max 0 (min (n - 1) 4)) \<in> {0, 1, 2, 3, 4}"
    by (auto simp: max_def min_def)
  then show "30000 \<le> transient_backoff n" "30000 \<le> errorBackoffMs n DEFAULT_ERROR_BACKOFF_SCHEDULE_MS"
    by (auto simp: transient_backoff_def errorBackoffMs_def DEFAULT_MAX_TRANSIENT_RETRIES_def
        DEFAULT_ERROR_BACKOFF_SCHEDULE_MS_def numeral_eq_Suc)
qed

lemma retry_at_least:
  "resolveTransientCronRetryDecision E result job = Some b \<Longrightarrow> 30000 \<le> b"
  "resolveDisabledHeartbeatOneShotRetryDecision job = Some b \<Longrightarrow> 30000 \<le> b"
  by (auto simp: resolveTransientCronRetryDecision_def resolveDisabledHeartbeatOneShotRetryDecision_def Let_def
      backoff_at_least split: if_splits prod.splits)

lemma one_shot_not_before: "not_before (jr_endedAt result) (fst (schedule_one_shot E result w))"
proof (cases "shouldRetryDisabledHeartbeatOneShot (fst w) result")
  case True
  show ?thesis
  proof (cases "resolveDisabledHeartbeatOneShotRetryDecision (fst w)")
    case (Some b)
    with True retry_at_least(2) [OF Some] show ?thesis
      by (simp add: schedule_one_shot_def assign_not_before)
  qed (simp add: schedule_one_shot_def on_job_def True)
next
  case False
  show ?thesis
  proof (cases "resolveTransientCronRetryDecision E result (fst w)")
    case (Some b)
    with False retry_at_least(1) [OF Some] show ?thesis
      by (simp add: schedule_one_shot_def on_job_def assign_not_before split: run_status.split)
  qed (simp add: schedule_one_shot_def on_job_def False split: run_status.split)
qed

lemma natural_next_future:
  assumes "natural_next E onGrid result w = (t, w1)" "\<not> is_at (cj_schedule (fst w))"
  shows "case t of Some x \<Rightarrow> jr_endedAt result < x | None \<Rightarrow> True"
    "is_cron (cj_schedule (fst w1)) = is_cron (cj_schedule (fst w))"
    "is_every (cj_schedule (fst w1)) = is_every (cj_schedule (fst w))"
proof -
  define r where "r = (if onGrid \<and> is_every (cj_schedule (fst w))
      then computeNextRunAtMs (cx_lib (oe_ctx E)) (cj_schedule (fst w)) (jr_endedAt result)
      else computeJobNextRunAtMs (cx_lib (oe_ctx E)) (fst w) (jr_endedAt result))"
  have n: "natural_next E onGrid result w = (case r of Inr t \<Rightarrow> (t, w)
      | Inl err \<Rightarrow> (let (job, notes) = recordScheduleComputeError (oe_ctx E) err (fst w)
           in (None, (job, snd w @ notes))))"
    by (simp add: natural_next_def r_def)
  show "case t of Some x \<Rightarrow> jr_endedAt result < x | None \<Rightarrow> True"
  proof (cases r)
    case (Inr x)
    with n assms(1) have "r = Inr t"
      by simp
    with assms(2) computeNextRun_future jobNext_future show ?thesis
      by (fastforce simp: r_def split: option.split if_splits)
  qed (use n assms(1) in \<open>simp split: prod.splits\<close>)
  have "cj_schedule (fst w1) = cj_schedule (fst w)"
  proof (cases r)
    case (Inl e)
    obtain j ns where re: "recordScheduleComputeError (oe_ctx E) e (fst w) = (j, ns)"
      by (metis prod.exhaust)
    with n assms(1) Inl recordError_keeps(2) [OF re] show ?thesis
      by auto
  qed (use n assms(1) in simp)
  then show "is_cron (cj_schedule (fst w1)) = is_cron (cj_schedule (fst w))"
    "is_every (cj_schedule (fst w1)) = is_every (cj_schedule (fst w))"
    by simp_all
qed

lemma set_next_not_before:
  "not_before e (fst (on_job (set_next t) w)) \<longleftrightarrow> (case t of Some x \<Rightarrow> e \<le> x | None \<Rightarrow> True)"
  by (simp add: on_job_def)

lemma backoff_not_before:
  "not_before (jr_endedAt result + ms) (fst (backoff_after_error E natural result ms w))"
proof (cases "natural = None \<and> is_every (cj_schedule (fst w))")
  case True
  then show ?thesis
    by (simp add: backoff_after_error_def assign_not_before)
next
  case False
  obtain t w1 where a: "assignNextRunAtMs (oe_ctx E) (Some (jr_endedAt result + ms)) w = (t, w1)"
    by (metis prod.exhaust)
  note c = assign_cases [OF a]
  show ?thesis
  proof (cases t)
    case None
    with False a c show ?thesis
      by (auto simp: backoff_after_error_def not_before_def)
  next
    case (Some x)
    with c have x: "x = jr_endedAt result + ms"
      by simp
    obtain u w2 where l: "resolveCronNextRunWithLowerBound (oe_ctx E) natural x w1 = (u, w2)"
      by (metis prod.exhaust)
    from lower_bound_cases [OF l] False a Some x l show ?thesis
      by (auto simp: backoff_after_error_def set_next_not_before split: option.split)
  qed
qed

lemma after_error_not_before:
  assumes "\<not> is_at (cj_schedule (fst w))"
  shows "not_before (jr_endedAt result + MIN_REFIRE_GAP_MS) (fst (schedule_after_error E p result w))"
proof -
  define ms where "ms = errorBackoffMs (case st_consecutiveErrors (cj_state (fst w)) of Some n \<Rightarrow> n | None \<Rightarrow> 1)
                        DEFAULT_ERROR_BACKOFF_SCHEDULE_MS"
  have ms: "30000 \<le> ms"
    unfolding ms_def by (rule backoff_at_least)
  have weaken: "not_before (jr_endedAt result + ms) j \<Longrightarrow> not_before (jr_endedAt result + MIN_REFIRE_GAP_MS) j" for j
    using ms by (auto simp: not_before_def MIN_REFIRE_GAP_MS_def split: option.splits)
  have backoff: "not_before (jr_endedAt result + MIN_REFIRE_GAP_MS)
      (fst (backoff_after_error E natural result ms v))" for natural v
    by (rule weaken) (rule backoff_not_before)
  define retry where "retry = resolveTransientCronRetryDecision E result (fst w)"
  obtain t w1 where n: "natural_next E (retry \<noteq> None \<or> 0 < p) result w = (t, w1)"
    by (metis prod.exhaust)
  have eq: "schedule_after_error E p result w = (case (retry, t) of
           (Some retryMs, Some natural) \<Rightarrow>
             (case assignNextRunAtMs (oe_ctx E) (Some (jr_endedAt result + retryMs)) w1 of
                (None, w2) \<Rightarrow> w2
              | (Some retryNext, w2) \<Rightarrow>
                  if retryNext < natural then w2 else backoff_after_error E t result ms w2)
         | _ \<Rightarrow> backoff_after_error E t result ms w1)"
    unfolding schedule_after_error_def ms_def [symmetric] retry_def [symmetric] Let_def n by simp
  show ?thesis
  proof (cases "retry = None \<or> t = None")
    case True
    with eq backoff show ?thesis
      by (auto split: option.splits)
  next
    case False
    then obtain b x where b: "retry = Some b" "t = Some x"
      by auto
    have ge: "30000 \<le> b"
      using b(1) retry_at_least(1) by (simp add: retry_def)
    obtain u w2 where a: "assignNextRunAtMs (oe_ctx E) (Some (jr_endedAt result + b)) w1 = (u, w2)"
      by (metis prod.exhaust)
    from assign_cases(2,3) [OF a] ge have "not_before (jr_endedAt result + MIN_REFIRE_GAP_MS) (fst w2)"
      by (auto simp: not_before_def MIN_REFIRE_GAP_MS_def)
    with eq b a backoff show ?thesis
      by (auto split: option.splits)
  qed
qed

lemma next_slot_not_before:
  assumes "\<not> is_at (cj_schedule (fst w))"
  shows "not_before (jr_endedAt result) (fst (schedule_next_slot E p result w))"
    "is_cron (cj_schedule (fst w)) \<Longrightarrow>
       not_before (jr_endedAt result + MIN_REFIRE_GAP_MS) (fst (schedule_next_slot E p result w))"
proof -
  obtain t w1 where n: "natural_next E (0 < p) result w = (t, w1)"
    by (metis prod.exhaust)
  note f = natural_next_future [OF n assms]
  define lo where "lo = jr_endedAt result +
      max MIN_REFIRE_GAP_MS (if cj_trigger (fst w1) \<noteq> None then TRIGGER_MIN_INTERVAL_MS else 0)"
  obtain u w2 where l: "resolveCronNextRunWithLowerBound (oe_ctx E) t lo w1 = (u, w2)"
    by (metis prod.exhaust)
  have cron: "not_before (jr_endedAt result + MIN_REFIRE_GAP_MS) (fst (schedule_next_slot E p result w))"
    if "is_cron (cj_schedule (fst w))"
  proof -
    have "schedule_next_slot E p result w = on_job (set_next u) w2"
      using that f(2) l by (simp add: schedule_next_slot_def n lo_def Let_def)
    with lower_bound_cases [OF l] show ?thesis
      by (auto simp: set_next_not_before lo_def split: option.splits)
  qed
  then show "is_cron (cj_schedule (fst w)) \<Longrightarrow>
      not_before (jr_endedAt result + MIN_REFIRE_GAP_MS) (fst (schedule_next_slot E p result w))" .
  show "not_before (jr_endedAt result) (fst (schedule_next_slot E p result w))"
  proof (cases "is_cron (cj_schedule (fst w))")
    case True
    with cron show ?thesis
      by (auto simp: not_before_def MIN_REFIRE_GAP_MS_def split: option.splits)
  next
    case False
    define tn where "tn = (if cj_trigger (fst w1) \<noteq> None
        then map_option (\<lambda>t. max t (jr_endedAt result + TRIGGER_MIN_INTERVAL_MS)) t else t)"
    have tn: "case tn of Some x \<Rightarrow> jr_endedAt result \<le> x | None \<Rightarrow> True"
      using f(1) by (auto simp: tn_def split: option.splits)
    have "schedule_next_slot E p result w =
        (if tn \<noteq> None \<or> is_every (cj_schedule (fst w1)) then assign (oe_ctx E) tn (on_job (set_next tn) w1)
         else on_job (set_next tn) w1)"
      using False f(2) by (simp add: schedule_next_slot_def n tn_def on_job_def Let_def)
    with tn show ?thesis
      by (auto simp: set_next_not_before intro: assign_not_before)
  qed
qed

text \<open>A paced next run: the clamp of a proposal that is not negative.\<close>

lemma paced_not_before:
  assumes "schedule_paced E pacing d result w = Inr w1" "0 \<le> d"
  shows "not_before (jr_endedAt result) (fst w1)"
proof -
  obtain paced where p: "resolvePacedNextRunAtMs E (jr_endedAt result) d pacing = Inr paced"
    using assms(1) by (cases "resolvePacedNextRunAtMs E (jr_endedAt result) d pacing") (auto simp: schedule_paced_def)
  define candidate where "candidate = (if cj_trigger (fst w) \<noteq> None
      then map_option (\<lambda>t. max t (jr_endedAt result + max MIN_REFIRE_GAP_MS TRIGGER_MIN_INTERVAL_MS)) paced
      else paced)"
  obtain t w2 where a: "assignNextRunAtMs (oe_ctx E) candidate w = (t, w2)"
    by (metis prod.exhaust)
  have w1: "w1 = on_job (set_state (\<lambda>s. s\<lparr>st_pacedNextRunAtMs := t\<rparr>)) w2"
    using assms(1) a by (simp add: schedule_paced_def p candidate_def Let_def)
  have max_pos: "0 < hi" if "parseCronPacingBounds E pacing = Inr (lo, Some hi)" for lo hi
    using that by (auto simp: parseCronPacingBounds_def parse_bound_def parsePositivePacingDuration_def
        split: if_splits sum.splits option.splits prod.splits)
  have "case paced of Some x \<Rightarrow> jr_endedAt result \<le> x | None \<Rightarrow> True"
    using p assms(2) max_pos
    by (fastforce simp: resolvePacedNextRunAtMs_def Let_def min_def max_def asDateTimestampMs_def
        split: sum.splits prod.splits option.splits if_splits)
  then have "case candidate of Some x \<Rightarrow> jr_endedAt result \<le> x | None \<Rightarrow> True"
    by (auto simp: candidate_def split: option.splits)
  moreover have "nextRunAtMs (fst w1) = t" "t = None \<or> t = candidate"
    using assign_cases [OF a] by (simp_all add: w1 on_job_def)
  ultimately show ?thesis
    by (auto simp: not_before_def)
qed

lemma auto_disabled_not_before:
  assumes "maybeAutoDisableCronJobAfterRunFailure at job = (True, j, ns)"
  shows "not_before e j" "cj_enabled j = Some False"
  using assms
  by (cases rule: autoDisable_cases [of Consecutive_failures at "count_of (st_consecutiveErrors (cj_state job))" job];
      auto simp: maybeAutoDisableCronJobAfterRunFailure_def count_of_def not_before_def Let_def
      split: if_splits)+

lemma schedule_owned_not_before:
  assumes r: "schedule_owned E opts p previous result w = Inr (b, w1)"
    and opts: "\<not> ao_preserve opts" "ao_replaySchedule opts = None"
    and delay: "case jr_nextCheckDelayMs result of Some d \<Rightarrow> 0 \<le> d | None \<Rightarrow> True"
  shows "not_before (jr_endedAt result) (fst w1)"
    "is_cron (cj_schedule (fst w)) \<Longrightarrow> cj_pacing (fst w) = None \<Longrightarrow>
       not_before (jr_endedAt result + MIN_REFIRE_GAP_MS) (fst w1)"
proof -
  define disabled where "disabled = (if jr_status result = Run_error \<and> isJobEnabled (fst w)
      then maybeAutoDisableCronJobAfterRunFailure (jr_endedAt result) (fst w) else (False, fst w, []))"
  have weaken: "not_before (jr_endedAt result + MIN_REFIRE_GAP_MS) j \<Longrightarrow> not_before (jr_endedAt result) j" for j
    by (auto simp: not_before_def MIN_REFIRE_GAP_MS_def split: option.splits)
  consider (at) "is_at (cj_schedule (fst w))" "w1 = schedule_one_shot E result w"
    | (off) "\<not> is_at (cj_schedule (fst w))" "fst disabled" "fst w1 = fst (snd disabled)"
    | (err) "\<not> is_at (cj_schedule (fst w))" "w1 = schedule_after_error E p result w"
    | (paced) pacing d where "\<not> is_at (cj_schedule (fst w))" "cj_pacing (fst w) = Some pacing"
        "jr_nextCheckDelayMs result = Some d" "schedule_paced E pacing d result w = Inr w1"
    | (slot) "\<not> is_at (cj_schedule (fst w))" "w1 = schedule_next_slot E p result w"
    | (none) "\<not> is_at (cj_schedule (fst w))" "w1 = on_job (set_next None) w"
    using r opts
    by (auto simp: schedule_owned_def Let_def disabled_def [symmetric]
        split: if_splits option.splits bool.splits sum.splits)
  then have "not_before (jr_endedAt result) (fst w1) \<and>
    (is_cron (cj_schedule (fst w)) \<and> cj_pacing (fst w) = None \<longrightarrow>
       not_before (jr_endedAt result + MIN_REFIRE_GAP_MS) (fst w1))"
  proof cases
    case at
    then show ?thesis
      using one_shot_not_before [of result E w] by (cases "cj_schedule (fst w)") auto
  next
    case off
    then obtain j ns where "disabled = (True, j, ns)"
      by (cases disabled) auto
    moreover from this have "maybeAutoDisableCronJobAfterRunFailure (jr_endedAt result) (fst w) = (True, j, ns)"
      by (auto simp: disabled_def split: if_splits)
    ultimately show ?thesis
      using off auto_disabled_not_before(1) by auto
  next
    case err
    then show ?thesis
      using after_error_not_before [of w result E p] weaken by simp
  next
    case paced
    then show ?thesis
      using paced_not_before [OF paced(4)] delay by simp
  next
    case slot
    then show ?thesis
      using next_slot_not_before [of w result E p] by simp
  next
    case none
    then show ?thesis
      by (simp add: on_job_def)
  qed
  then show "not_before (jr_endedAt result) (fst w1)"
    "is_cron (cj_schedule (fst w)) \<Longrightarrow> cj_pacing (fst w) = None \<Longrightarrow>
       not_before (jr_endedAt result + MIN_REFIRE_GAP_MS) (fst w1)"
    by blast+
qed

section \<open>A run of the timer\<close>

lemma timer_options_simps [simp]:
  "ao_preserve (timer_options stale) = False" "ao_stale (timer_options stale) = stale"
  "ao_replay (timer_options stale) = False" "ao_replaySchedule (timer_options stale) = None"
  by (simp_all add: timer_options_def)

definition deletes_job :: "cron_result \<Rightarrow> CronJob \<Rightarrow> bool" where
  "deletes_job result job \<longleftrightarrow> (is_at (cj_schedule job) \<or> is_on_exit (cj_schedule job)) \<and>
     cj_deleteAfterRun job \<and> jr_completion result = Succeeded"

definition recorded :: "outcome_env \<Rightarrow> cron_result \<Rightarrow> CronJob \<Rightarrow> job_work" where
  "recorded E result job = count_outcome E (oe_alertConfig E job) result False (record_outcome E result job)"

lemma recorded_fields [simp]:
  "cj_id (fst (recorded E result job)) = cj_id job"
  "cj_enabled (fst (recorded E result job)) = cj_enabled job"
  "cj_schedule (fst (recorded E result job)) = cj_schedule job"
  "cj_trigger (fst (recorded E result job)) = cj_trigger job"
  "cj_pacing (fst (recorded E result job)) = cj_pacing job"
  by (simp_all add: recorded_def count_fields)

lemma stale_result:
  "applyJobResult E (timer_options True) result job =
     Inr (False, finalizeCronFailureNotifications (oe_ctx E) (oe_alertConfig E job) result False False
       (on_job (\<lambda>j. restore_slot job (st_forcePreservedNextRunAtMs (cj_state job))
                     (j\<lparr>cj_enabled := cj_enabled job\<rparr>)) (recorded E result job)))"
  by (simp add: applyJobResult_def recorded_def Let_def)

lemma owned_result:
  assumes "applyJobResult E (timer_options False) result job = Inr (deleted, w)"
  obtains (deleted) "deleted" "deletes_job result job"
  | (kept) b w1 where "\<not> deleted" "\<not> deletes_job result job"
      "schedule_owned E (timer_options False) (count_of (st_consecutiveErrors (cj_state job))) job result
         (recorded E result job) = Inr (b, w1)"
      "w = finalizeCronFailureNotifications (oe_ctx E) (oe_alertConfig E job) result b False w1"
proof (cases "deletes_job result job")
  case True
  with assms have "deleted"
    by (simp add: applyJobResult_def deletes_job_def Let_def)
  with True deleted show ?thesis
    by blast
next
  case False
  have eq: "applyJobResult E (timer_options False) result job =
     (case schedule_owned E (timer_options False) (count_of (st_consecutiveErrors (cj_state job))) job result
             (recorded E result job) of
        Inl e \<Rightarrow> Inl e
      | Inr (b, w1) \<Rightarrow> Inr (False, finalizeCronFailureNotifications (oe_ctx E) (oe_alertConfig E job) result b False w1))"
    using False unfolding applyJobResult_def deletes_job_def Let_def recorded_def
    by (auto split: sum.split)
  with assms show ?thesis
    by (cases "schedule_owned E (timer_options False) (count_of (st_consecutiveErrors (cj_state job))) job result
             (recorded E result job)")
       (auto intro: kept [OF _ False])
qed

lemma owned_not_before:
  assumes r: "applyJobResult E (timer_options False) result job = Inr (False, w)"
    and delay: "case jr_nextCheckDelayMs result of Some d \<Rightarrow> 0 \<le> d | None \<Rightarrow> True"
  shows "not_before (jr_endedAt result) (fst w) \<and>
    (is_cron (cj_schedule job) \<and> cj_pacing job = None \<longrightarrow>
       not_before (jr_endedAt result + MIN_REFIRE_GAP_MS) (fst w))"
  using r
proof (cases rule: owned_result)
  case (kept b w1)
  have view: "not_before e (fst w) = not_before e (fst w1)" for e
    using slot_viewD(6) [OF finalize_view] kept(4) by (simp add: not_before_def)
  note s = schedule_owned_not_before [OF kept(3) _ _ delay]
  have "not_before (jr_endedAt result) (fst w)"
    unfolding view by (rule s(1)) simp_all
  moreover have "not_before (jr_endedAt result + MIN_REFIRE_GAP_MS) (fst w)"
    if "is_cron (cj_schedule job)" "cj_pacing job = None"
    unfolding view by (rule s(2)) (use that in simp_all)
  ultimately show ?thesis
    by blast
qed simp

section \<open>Triggers and scripts\<close>

lemma trigger_state_view: "slot_view (applyTriggerEvaluationState ev t job) = slot_view job"
  by (simp add: applyTriggerEvaluationState_def slot_view_def)

lemma script_view: "slot_view (applyScriptRunResult result owns job) = slot_view job"
  by (simp add: applyScriptRunResult_def slot_view_def)

lemma catchup_view: "slot_view (clear_catchup job) = slot_view job"
  by (simp add: clear_catchup_def slot_view_def)

lemma trigger_run_cases:
  "slot_view (applyTriggerRunResult C result ownsSchedule ownsTrigger job) = slot_view job \<or>
   ownsSchedule \<and> nextRunAtMs (applyTriggerRunResult C result ownsSchedule ownsTrigger job) = None \<and>
   cj_enabled (applyTriggerRunResult C result ownsSchedule ownsTrigger job) = Some False"
  by (auto simp: applyTriggerRunResult_def Let_def trigger_state_view disable_def set_next_def set_state_def
      split: option.split)

lemma trigger_run_next:
  fixes C result ownsSchedule ownsTrigger job
  defines "j \<equiv> applyTriggerRunResult C result ownsSchedule ownsTrigger job"
  shows "nextRunAtMs j = nextRunAtMs job \<and> cj_enabled j = cj_enabled job \<or>
    nextRunAtMs j = None \<and> cj_enabled j = Some False"
proof (cases "slot_view j = slot_view job")
  case True
  from slot_viewD(2,6) [OF this] show ?thesis
    by simp
next
  case False
  have "slot_view j = slot_view job \<or> ownsSchedule \<and> nextRunAtMs j = None \<and> cj_enabled j = Some False"
    unfolding j_def by (rule trigger_run_cases)
  with False show ?thesis
    by simp
qed

lemma quiet_not_before:
  "not_before (jr_endedAt result + MIN_REFIRE_GAP_MS)
     (fst (applyTriggerNoFireResult C Advance owns ev (jr_endedAt result) job))"
proof -
  define j where "j = set_state (\<lambda>s. s\<lparr>st_pacedNextRunAtMs := None, st_forcePreservedNextRunAtMs := None\<rparr>)
    (if \<not> te_busy ev \<and> owns
     then applyTriggerEvaluationState ev (jr_endedAt result)
            (set_state (\<lambda>s. s\<lparr>st_consecutiveErrors := Some 0, st_scheduleErrorCount := Some 0\<rparr>)
              (set_state (\<lambda>s. s\<lparr>st_queuedAtMs := None, st_runningAtMs := None\<rparr>) (job\<lparr>cj_updatedAtMs := jr_endedAt result\<rparr>)))
     else set_state (\<lambda>s. s\<lparr>st_queuedAtMs := None, st_runningAtMs := None\<rparr>) (job\<lparr>cj_updatedAtMs := jr_endedAt result\<rparr>))"
  have eq: "applyTriggerNoFireResult C Advance owns ev (jr_endedAt result) job =
     (case computeJobNextRunAtMs (cx_lib C) j (jr_endedAt result) of
        Inl err \<Rightarrow> recordScheduleComputeError C err j
      | Inr t \<Rightarrow>
          if t \<noteq> None \<or> is_every (cj_schedule j)
          then assign C (map_option (\<lambda>t. max t (jr_endedAt result + max MIN_REFIRE_GAP_MS TRIGGER_MIN_INTERVAL_MS)) t)
                 (set_next t j, [])
          else (set_next t j, []))"
    unfolding applyTriggerNoFireResult_def j_def Let_def by simp
  show ?thesis
  proof (cases "computeJobNextRunAtMs (cx_lib C) j (jr_endedAt result)")
    case (Inl e)
    obtain k ns where re: "recordScheduleComputeError C e j = (k, ns)"
      by (metis prod.exhaust)
    from recordError_keeps(3) [OF re] eq Inl re show ?thesis
      by (simp add: not_before_def)
  next
    case (Inr t)
    show ?thesis
    proof (cases "t \<noteq> None \<or> is_every (cj_schedule j)")
      case True
      then show ?thesis
        by (auto simp: eq Inr split: option.splits intro!: assign_not_before)
    qed (simp add: eq Inr)
  qed
qed

end
