(* ===== verification/Cron_Claims.thy ===== *)
theory Cron_Claims
  imports Cron_Upkeep Cron_Outcome_Laws
begin

text \<open>
  What the cron scheduler promises: slots lie ahead and on the grid, failures hold a job back and then
  disable it, maintenance neither skips a due slot nor keeps changing the store, and the outcome of a
  run neither refires at once nor overrides an edit made while it ran.
\<close>

section \<open>Slots\<close>

text \<open>C28: The next run the scheduler computes for a job that is not a one-shot lies after the instant it is
  asked for and within the range of a \<open>Date\<close>, whatever the schedule, the stagger offset, the changes of
  the clock and the answers of the cron package.\<close>

theorem next_run_is_ahead:
  assumes "computeJobNextRunAtMs L job now = Inr (Some t)" "\<not> is_at (cj_schedule job)"
  shows "now < t \<and> isFiniteTimestamp t"
  using assms by (rule jobNext_future)

text \<open>The next run of an interval is the least point of the grid of its anchor after now; there is none
  exactly if that point lies beyond the last \<open>Date\<close>.\<close>

theorem every_next_is_least:
  assumes "isFiniteTimestamp now" "isFiniteTimestamp e" "1 \<le> e" "isFiniteTimestamp a" "0 \<le> a"
  shows "case computeNextRunAtMs L (Sched_every e (Some a)) now of
      Inl _ \<Rightarrow> False
    | Inr (Some t) \<Rightarrow> now < t \<and> (\<exists>k \<ge> 0. t = a + k * e) \<and> (\<forall>k \<ge> 0. now < a + k * e \<longrightarrow> t \<le> a + k * e)
    | Inr None \<Rightarrow> (\<forall>k \<ge> 0. now < a + k * e \<longrightarrow> MAX_DATE_TIMESTAMP_MS < a + k * e)"
proof (cases "now < a")
  case True
  with assms have "computeNextRunAtMs L (Sched_every e (Some a)) now = Inr (Some a)"
    by (simp add: computeNextRunAtMs_def nextEveryRunAtMs_def Let_def)
  moreover have "a \<le> a + k * e" if "0 \<le> k" for k
    using that assms(3) by simp
  moreover have "\<exists>k \<ge> 0. a = a + k * e"
    by (rule exI [of _ 0]) simp
  ultimately show ?thesis
    using True by auto
next
  case False
  define t where "t = a + ((now - a) div e + 1) * e"
  have k: "0 \<le> (now - a) div e + 1"
    using False assms(3) pos_imp_zdiv_nonneg_iff [of e "now - a"] by simp
  have eq: "computeNextRunAtMs L (Sched_every e (Some a)) now = Inr (asDateTimestampMs t)"
    using False assms by (simp add: computeNextRunAtMs_def nextEveryRunAtMs_def t_def Let_def)
  have least: "t \<le> a + k * e" if "now < a + k * e" for k
    unfolding t_def using grid_least [OF assms(3) that] .
  have ahead: "now < t"
    unfolding t_def by (rule grid_step(1) [OF assms(3)])
  show ?thesis
  proof (cases "isFiniteTimestamp t")
    case True
    with eq ahead least k show ?thesis
      by (auto simp: asDateTimestampMs_def t_def)
  next
    case False
    with ahead assms(1) have "MAX_DATE_TIMESTAMP_MS < t"
      by (auto simp: isFiniteTimestamp_def)
    with least False show ?thesis
      by (fastforce simp: eq asDateTimestampMs_def)
  qed
qed

section \<open>Errors hold a job back\<close>

text \<open>A recomputed next run lies ahead, and after a failed run it is not before the end of the error
  backoff, so no recomputation shortens the wait after a failure.\<close>

theorem recomputed_run_respects_backoff:
  assumes "computeJobNextRunAtMs (cx_lib C) job now = Inr computed" "\<not> is_at (cj_schedule job)"
    and "nextRunAtMs (fst (snd (recomputeJobNextRunAtMs C skip now job))) = Some t"
  shows "now < t \<and> (case resolveJobErrorBackoffUntilMs job of Some u \<Rightarrow> u \<le> t | None \<Rightarrow> True)"
proof -
  have t: "backed_off job computed = Some t"
    using assms(3) by (simp add: recompute_ok [OF assms(1)])
  then obtain x where x: "computed = Some x"
    by (cases computed) (auto simp: backed_off_def split: if_splits)
  have "now < x"
    using jobNext_future assms(1,2) x by blast
  moreover have "resolveJobLastRunStatus job = Some Run_error" if "resolveJobErrorBackoffUntilMs job = Some u" for u
    using that by (auto simp: resolveJobErrorBackoffUntilMs_def split: option.splits if_splits)
  ultimately show ?thesis
    using t x assms(2) by (auto simp: backed_off_def split: option.splits if_splits)
qed

lemma broken_schedule_throws:
  assumes "cj_schedule job = Sched_cron expr tz stagger" "isFiniteTimestamp now" "isJobEnabled job"
    and "resolveCronFromSchedule L expr tz = Inl err"
  shows "computeJobNextRunAtMs L job now = Inl err"
proof -
  have slot: "computeNextRunAtMs L (cj_schedule job) t = Inl err" if "isFiniteTimestamp t" for t
    using that assms by (simp add: computeNextRunAtMs_def)
  have "isFiniteTimestamp (max 0 (now - offset))" if "0 < offset" for offset
    using that assms(2) by (auto simp: isFiniteTimestamp_def MAX_DATE_TIMESTAMP_MS_def max_def)
  with slot assms show ?thesis
    by (auto simp: computeJobNextRunAtMs_def computeStaggeredCronNextRunAtMs_def numeral_eq_Suc Let_def)
qed

text \<open>A schedule that cannot be evaluated disables its job at the third recomputation in a row, not
  before, and the job records why.\<close>

theorem third_schedule_error_disables:
  assumes "cj_schedule job = Sched_cron expr tz stagger" "resolveCronFromSchedule (cx_lib C) expr tz = Inl err"
    and "isFiniteTimestamp now" "cj_enabled job = Some True" "\<not> isSystemOwnedCronPayloadKind (cj_payload job)"
    and "st_autoDisabled (cj_state job) = None" "st_scheduleErrorCount (cj_state job) = None"
  shows "let step = (\<lambda>j. fst (snd (recomputeJobNextRunAtMs C False now j)))
    in cj_enabled (step (step job)) = Some True \<and>
       cj_enabled (step (step (step job))) = Some False \<and>
       nextRunAtMs (step (step (step job))) = None \<and>
       st_autoDisabled (cj_state (step (step (step job)))) =
         Some \<lparr>ad_reason = Schedule_errors, ad_atMs = cx_clock C, ad_consecutiveErrors = 3\<rparr>"
proof -
  define step where "step = (\<lambda>j. fst (snd (recomputeJobNextRunAtMs C False now j)))"
  have throws: "step j = fst (recordScheduleComputeError C err j)"
    if "cj_schedule j = cj_schedule job" "cj_enabled j = Some True" for j
    using broken_schedule_throws [of j expr tz stagger now "cx_lib C" err] that assms
    by (simp add: step_def recomputeJobNextRunAtMs_def isJobEnabled_def)
  define failed where "failed = (\<lambda>n j. set_state (\<lambda>s. s\<lparr>st_scheduleErrorCount := Some n, st_nextRunAtMs := None,
      st_lastError := Some (''schedule error: '' @ err)\<rparr>) j)"
  have one: "step job = failed 1 job"
    using assms by (simp add: throws recordScheduleComputeError_def failed_def MAX_SCHEDULE_ERRORS_def Let_def)
  have two: "step (step job) = failed 2 (failed 1 job)"
    using assms unfolding one
    by (subst throws) (simp_all add: recordScheduleComputeError_def failed_def MAX_SCHEDULE_ERRORS_def Let_def)
  have three: "step (step (step job)) =
      fst (snd (autoDisableCronJob Schedule_errors (cx_clock C) 3 (failed 3 (failed 2 (failed 1 job)))))"
    using assms unfolding two
    by (subst throws) (simp_all add: recordScheduleComputeError_def failed_def MAX_SCHEDULE_ERRORS_def Let_def)
  have "cj_enabled (step (step job)) = Some True"
    using assms by (simp add: two failed_def)
  moreover have "cj_enabled (step (step (step job))) = Some False \<and>
      nextRunAtMs (step (step (step job))) = None \<and>
      st_autoDisabled (cj_state (step (step (step job)))) =
        Some \<lparr>ad_reason = Schedule_errors, ad_atMs = cx_clock C, ad_consecutiveErrors = 3\<rparr>"
    unfolding three using assms by (simp add: autoDisableCronJob_def failed_def)
  ultimately show ?thesis
    unfolding step_def [symmetric] Let_def by simp
qed

section \<open>Maintenance\<close>

text \<open>C15: Maintenance never moves a slot that is due: an enabled job keeps its place and its next run until a
  tick runs it, also if a stuck marker is cleared meanwhile. When expired slots are repaired too, this holds of
  every slot that has not run and is not inside the error backoff.\<close>

theorem maintenance_keeps_due_slots:
  assumes "fst (snd (recomputeNextRunsForMaintenance C opts (Some jobs))) = Some js" "i < length jobs"
    and "isJobEnabled (jobs ! i)" "nextRunAtMs (jobs ! i) = Some t" "0 < t" "isFiniteTimestamp t"
    and "t \<le> maintenance_now C opts"
    and "\<not> mo_recomputeExpired opts \<or> slot_waits (maintenance_now C opts) t (jobs ! i)"
  shows "i < length js \<and> cj_id (js ! i) = cj_id (jobs ! i) \<and> isJobEnabled (js ! i) \<and>
    nextRunAtMs (js ! i) = Some t"
proof -
  have js: "js = map (\<lambda>j. fst (snd (recomputeSingleJobForMaintenance C opts j))) jobs"
    using assms(1) by (simp add: recomputeNextRunsForMaintenance_def walk_jobs_def Let_def comp_def)
  have "hasScheduledNextRunAtMs (Some t)"
    using assms(5,6) by (simp add: hasScheduledNextRunAtMs_def)
  from maintenance_keeps_due [OF assms(3,4) this assms(7,8)] assms(2) show ?thesis
    by (simp add: js maintenance_walk.keeps_id)
qed


text \<open>Both walks over the store keep its jobs in their order, say that nothing changed only if the store is
  the same and nothing was queued, and leave no disabled job with a next run.\<close>

theorem store_walks_are_honest:
  "map_option (map cj_id) (fst (snd (recomputeNextRuns C jobs))) = map_option (map cj_id) jobs \<and>
   (fst (recomputeNextRuns C jobs) \<or> snd (recomputeNextRuns C jobs) = (jobs, [])) \<and>
   list_all (\<lambda>j. isJobEnabled j \<or> nextRunAtMs j = None)
     (case fst (snd (recomputeNextRuns C jobs)) of Some js \<Rightarrow> js | None \<Rightarrow> []) \<and>
   map_option (map cj_id) (fst (snd (recomputeNextRunsForMaintenance C opts jobs))) = map_option (map cj_id) jobs \<and>
   (fst (recomputeNextRunsForMaintenance C opts jobs) \<or>
    snd (recomputeNextRunsForMaintenance C opts jobs) = (jobs, [])) \<and>
   list_all (\<lambda>j. isJobEnabled j \<or> nextRunAtMs j = None)
     (case fst (snd (recomputeNextRunsForMaintenance C opts jobs)) of Some js \<Rightarrow> js | None \<Rightarrow> [])"
  unfolding recomputeNextRuns_def recomputeNextRunsForMaintenance_def
  by (intro conjI tick_walk.walk_honest(1,3) maintenance_walk.walk_honest(1,3)
      disjCI tick_walk.walk_honest(2) maintenance_walk.walk_honest(2); blast intro: tick_walk.walk_honest(2)
      maintenance_walk.walk_honest(2))

text \<open>C27: A job that a tick or a restart runs is enabled, has no queued or running marker, is past its error
  backoff unless it is a one-shot, and either is due or has missed a slot since its last run.\<close>

theorem runnable_jobs_are_idle_and_due:
  assumes "job \<in> set (collectRunnableJobs C opts now (Some jobs))"
  shows "job \<in> set jobs \<and> isJobEnabled job \<and> \<not> hasActiveCronRun C job \<and>
    cj_id job \<notin> set (ro_skipJobIds opts) \<and>
    (is_at (cj_schedule job) \<or> (case resolveJobErrorBackoffUntilMs job of Some u \<Rightarrow> u \<le> now | None \<Rightarrow> True)) \<and>
    ((case nextRunAtMs job of Some t \<Rightarrow> t \<le> now | None \<Rightarrow> False) \<or>
     ro_allowCronMissedRunByLastRun opts \<and> is_cron (cj_schedule job) \<and>
     hasMissedCronSlotSinceLastRun (cx_lib C) job now)"
proof -
  have run: "job \<in> set jobs" "isRunnableJob C opts now job"
    using assms by (auto simp: collectRunnableJobs_def)
  have late: "isErrorBackoffPending job now (resolveJobLastRunStatus job) \<or> is_at (cj_schedule job) \<or>
      (case resolveJobErrorBackoffUntilMs job of Some u \<Rightarrow> u \<le> now | None \<Rightarrow> True)"
    by (auto simp: isErrorBackoffPending_def resolveJobErrorBackoffUntilMs_def split: option.split if_splits)
  have due: "case nextRunAtMs job of Some t \<Rightarrow> t \<le> now | None \<Rightarrow> False"
    if "terminal_one_shot_due L job now st" for L st
    using that by (auto simp: terminal_one_shot_due_def Let_def split: if_splits option.splits)
  show ?thesis
    using run late due
    by (auto simp: isRunnableJob_def Let_def hasScheduledNextRunAtMs_def split: if_splits option.splits)
qed

section \<open>Outcomes\<close>

text \<open>C13: After a run that still owns the schedule of its job, the next run is not before the end of the run,
  and for a cron expression without pacing at least two seconds after it: a job never refires at once,
  whatever the outcome, the retry, the trigger or the schedule.\<close>

theorem outcome_never_refires_early:
  assumes "applyOutcomeToAuthoritativeJob E outcome job = Inr (False, j, ns)"
    and "resolveCronRunScheduleOwnership E (co_job outcome) job (co_marker outcome)"
    and "case jr_nextCheckDelayMs (co_result outcome) of Some d \<Rightarrow> 0 \<le> d | None \<Rightarrow> True"
    and "nextRunAtMs j = Some t"
  shows "jr_endedAt (co_result outcome) \<le> t \<and>
    (is_cron (cj_schedule job) \<and> cj_pacing job = None \<longrightarrow>
       jr_endedAt (co_result outcome) + MIN_REFIRE_GAP_MS \<le> t)"
proof (cases "quiet_tick (co_result outcome)")
  case (Some ev)
  define w where "w = applyTriggerNoFireResult (oe_ctx E) Advance
    (resolveCronRunTriggerOwnership (co_job outcome) job (co_marker outcome)) ev (jr_endedAt (co_result outcome)) job"
  have "nextRunAtMs j = nextRunAtMs (fst w)"
    using assms(1,2) Some by (auto simp: applyOutcomeToAuthoritativeJob_def Let_def on_job_def clear_catchup_def w_def)
  moreover have "not_before (jr_endedAt (co_result outcome) + MIN_REFIRE_GAP_MS) (fst w)"
    unfolding w_def by (rule quiet_not_before)
  ultimately show ?thesis
    using assms(4) by (auto simp: not_before_def MIN_REFIRE_GAP_MS_def split: option.splits)
next
  case None
  with assms(1,2) obtain w where w: "applyJobResult E (timer_options False) (co_result outcome) job = Inr (False, w)"
    and j: "j = clear_catchup (applyScriptRunResult (co_result outcome)
      (resolveCronRunTriggerOwnership (co_job outcome) job (co_marker outcome))
      (applyTriggerRunResult (oe_ctx E) (co_result outcome) True
        (resolveCronRunTriggerOwnership (co_job outcome) job (co_marker outcome)) (fst w)))"
    by (auto simp: applyOutcomeToAuthoritativeJob_def Let_def on_job_def split: sum.splits)
  have "nextRunAtMs j = nextRunAtMs (fst w) \<or> nextRunAtMs j = None"
    unfolding j slot_viewD(6) [OF catchup_view] slot_viewD(6) [OF script_view]
    using trigger_run_next [of "oe_ctx E" "co_result outcome" True
        "resolveCronRunTriggerOwnership (co_job outcome) job (co_marker outcome)" "fst w"] by auto
  with assms(4) owned_not_before [OF w assms(3)] show ?thesis
    by (auto simp: not_before_def split: option.splits)
qed

text \<open>C14: A run whose job was edited meanwhile keeps its outcome but not the schedule: enablement, schedule, next
  run, pacing and the marker of a forced slot are those of the edited job, and the job is not deleted.\<close>

theorem edited_schedule_survives_the_run:
  assumes "applyOutcomeToAuthoritativeJob E outcome job = Inr (deleted, j, ns)"
    and "\<not> resolveCronRunScheduleOwnership E (co_job outcome) job (co_marker outcome)"
  shows "\<not> deleted \<and> cj_enabled j = cj_enabled job \<and> cj_schedule j = cj_schedule job \<and>
    nextRunAtMs j = nextRunAtMs job \<and>
    st_pacedNextRunAtMs (cj_state j) = st_pacedNextRunAtMs (cj_state job) \<and>
    st_forcePreservedNextRunAtMs (cj_state j) = st_forcePreservedNextRunAtMs (cj_state job)"
proof -
  have "\<not> deleted \<and> slot_view j = slot_view job"
  proof (cases "quiet_tick (co_result outcome)")
    case (Some ev)
    have "slot_view (fst (applyTriggerNoFireResult (oe_ctx E) Stale_preserve owns ev t job)) = slot_view job" for owns t
      by (simp add: applyTriggerNoFireResult_def restore_slot_def slot_view_def applyTriggerEvaluationState_def Let_def)
    with Some assms show ?thesis
      by (auto simp: applyOutcomeToAuthoritativeJob_def Let_def on_job_def catchup_view)
  next
    case None
    define w where "w = on_job (\<lambda>j. restore_slot job (st_forcePreservedNextRunAtMs (cj_state job))
      (j\<lparr>cj_enabled := cj_enabled job\<rparr>)) (recorded E (co_result outcome) job)"
    have "slot_view (fst w) = slot_view job"
      by (simp add: w_def on_job_def slot_view_def restore_slot_def)
    moreover have "slot_view (applyTriggerRunResult C result False owns k) = slot_view k" for C result owns k
      using trigger_run_cases by blast
    ultimately show ?thesis
      using None assms
      by (auto simp: applyOutcomeToAuthoritativeJob_def Let_def on_job_def stale_result w_def catchup_view
          script_view finalize_view)
  qed
  then show ?thesis
    using slot_viewD by blast
qed

text \<open>A one-shot that completed is over: its job is deleted, or disabled without a next run, and no later tick
  or restart runs it.\<close>

theorem finished_one_shot_is_over:
  assumes "applyOutcomeToAuthoritativeJob E outcome job = Inr (deleted, j, ns)"
    and "resolveCronRunScheduleOwnership E (co_job outcome) job (co_marker outcome)"
    and "is_at (cj_schedule job)" "jr_status (co_result outcome) = Run_ok" "quiet_tick (co_result outcome) = None"
  shows "deleted \<or> cj_enabled j = Some False \<and> nextRunAtMs j = None \<and> \<not> isRunnableJob C opts now j"
proof (cases deleted)
  case False
  with assms obtain w where w: "applyJobResult E (timer_options False) (co_result outcome) job = Inr (False, w)"
    and j: "j = clear_catchup (applyScriptRunResult (co_result outcome)
      (resolveCronRunTriggerOwnership (co_job outcome) job (co_marker outcome))
      (applyTriggerRunResult (oe_ctx E) (co_result outcome) True
        (resolveCronRunTriggerOwnership (co_job outcome) job (co_marker outcome)) (fst w)))"
    by (auto simp: applyOutcomeToAuthoritativeJob_def Let_def on_job_def split: sum.splits)
  from w obtain b w1 where s: "schedule_owned E (timer_options False)
      (count_of (st_consecutiveErrors (cj_state job))) job (co_result outcome) (recorded E (co_result outcome) job) = Inr (b, w1)"
    and view: "slot_view (fst w) = slot_view (fst w1)"
    by (cases rule: owned_result) (auto simp: finalize_view)
  have "w1 = on_job disable (recorded E (co_result outcome) job)"
    using s assms(3,4)
    by (auto simp: schedule_owned_def schedule_one_shot_def shouldRetryDisabledHeartbeatOneShot_def Let_def)
  then have "cj_enabled (fst w1) = Some False" "nextRunAtMs (fst w1) = None"
    by (simp_all add: on_job_def disable_def)
  then have fw: "cj_enabled (fst w) = Some False" "nextRunAtMs (fst w) = None"
    using slot_viewD [OF view] by simp_all
  have "cj_enabled j = Some False \<and> nextRunAtMs j = None"
    unfolding j slot_viewD(6) [OF catchup_view] slot_viewD(6) [OF script_view]
      slot_viewD(2) [OF catchup_view] slot_viewD(2) [OF script_view]
    using trigger_run_next [of "oe_ctx E" "co_result outcome" True
        "resolveCronRunTriggerOwnership (co_job outcome) job (co_marker outcome)" "fst w"] fw by auto
  then show ?thesis
    by (simp add: isRunnableJob_def isJobEnabled_def Let_def)
qed simp

text \<open>The tenth failed run in a row of a recurring job disables it, clears its next run and queues one
  notification, which takes the place of the failure alert.\<close>

theorem tenth_failure_disables:
  assumes "applyOutcomeToAuthoritativeJob E outcome job = Inr (deleted, j, ns)"
    and "resolveCronRunScheduleOwnership E (co_job outcome) job (co_marker outcome)"
    and "is_cron (cj_schedule job) \<or> is_every (cj_schedule job)" "jr_status (co_result outcome) = Run_error"
    and "st_consecutiveErrors (cj_state job) = Some 9" "cj_enabled job = Some True"
    and "\<not> isSystemOwnedCronPayloadKind (cj_payload job)" "st_autoDisabled (cj_state job) = None"
  shows "\<not> deleted \<and> cj_enabled j = Some False \<and> nextRunAtMs j = None \<and>
    ns = [Note_auto_disabled (cj_id job) Consecutive_failures 10]"
proof -
  have kind: "\<not> is_at (cj_schedule job)" "\<not> is_on_exit (cj_schedule job)"
    using assms(3) by (cases "cj_schedule job"; simp)+
  define k where "k = fst (recorded E (co_result outcome) job)"
  have k: "recorded E (co_result outcome) job = (k, [])" "cj_enabled k = Some True" "cj_schedule k = cj_schedule job"
    "cj_payload k = cj_payload job" "st_autoDisabled (cj_state k) = None" "cj_id k = cj_id job"
    "st_consecutiveErrors (cj_state k) = Some 10"
    using assms(4-8) by (simp_all add: k_def recorded_def count_outcome_def count_of_def)
  define d where "d = set_state (\<lambda>s. s\<lparr>st_nextRunAtMs := None, st_autoDisabled := Some
    \<lparr>ad_reason = Consecutive_failures, ad_atMs = jr_endedAt (co_result outcome), ad_consecutiveErrors = 10\<rparr>\<rparr>)
    (k\<lparr>cj_enabled := Some False\<rparr>)"
  have auto: "maybeAutoDisableCronJobAfterRunFailure (jr_endedAt (co_result outcome)) k =
      (True, d, [Note_auto_disabled (cj_id job) Consecutive_failures 10])"
    using k assms(3,7)
    by (auto simp: maybeAutoDisableCronJobAfterRunFailure_def autoDisableCronJob_def d_def
        MAX_CONSECUTIVE_RUN_FAILURES_def)
  have "schedule_owned E (timer_options False) (count_of (st_consecutiveErrors (cj_state job))) job (co_result outcome)
      (recorded E (co_result outcome) job) = Inr (True, d, [Note_auto_disabled (cj_id job) Consecutive_failures 10])"
    using kind k auto assms(4) by (simp add: schedule_owned_def isJobEnabled_def Let_def)
  moreover have "\<not> deletes_job (co_result outcome) job"
    using kind by (simp add: deletes_job_def)
  moreover have quiet: "quiet_tick (co_result outcome) = None"
    using assms(4) by (simp add: quiet_tick_def split: option.split)
  moreover obtain w where w: "applyJobResult E (timer_options False) (co_result outcome) job = Inr (deleted, w)"
    and j: "ns = snd w" "j = clear_catchup (applyScriptRunResult (co_result outcome)
      (resolveCronRunTriggerOwnership (co_job outcome) job (co_marker outcome))
      (applyTriggerRunResult (oe_ctx E) (co_result outcome) True
        (resolveCronRunTriggerOwnership (co_job outcome) job (co_marker outcome)) (fst w)))"
    using assms(1,2) quiet by (auto simp: applyOutcomeToAuthoritativeJob_def Let_def on_job_def split: sum.splits)
  ultimately have "\<not> deleted" and fw: "w = (d, [Note_auto_disabled (cj_id job) Consecutive_failures 10])"
    by (auto simp: finalizeCronFailureNotifications_def assms(4) elim!: owned_result split: option.splits)
  have "cj_enabled d = Some False" "nextRunAtMs d = None"
    by (simp_all add: d_def)
  then have "cj_enabled j = Some False \<and> nextRunAtMs j = None"
    unfolding j(2) slot_viewD(6) [OF catchup_view] slot_viewD(6) [OF script_view]
      slot_viewD(2) [OF catchup_view] slot_viewD(2) [OF script_view]
    using trigger_run_next [of "oe_ctx E" "co_result outcome" True
        "resolveCronRunTriggerOwnership (co_job outcome) job (co_marker outcome)" "fst w"] fw by auto
  with \<open>\<not> deleted\<close> j(1) fw show ?thesis
    by simp
qed

end
