(* ===== verification/Cron_Runs.thy ===== *)
theory Cron_Runs
  imports Cron_Finalize
begin

text \<open>
  The runs of the cron scheduler in this process (\<open>src/cron/active-jobs.ts\<close>,
  \<open>src/cron/service/active-run-cancellation.ts\<close>): the marker of an active run, which keeps the edits made
  while it ran, the generations of the process lifecycle, and the handles by which a run is cancelled.

  A marker is referred to by its run after another run took its place: markers are kept in an append-only
  store and referred to by their token, less one. A promise, a callback, an abort controller and a waiter
  are numbers; \<open>cr_effects\<close> lists what was called, in order. A callback does not call back into the
  registry. The timers are operations.
\<close>

section \<open>Markers and handles\<close>

datatype cancellation =
    Cancel_bound nat string
  | Cancel_requested string

record active_run =
  mk_jobId :: string
  mk_payloadKind :: "string option"
  mk_generation :: nat
  mk_cancellation :: "cancellation option"
  mk_scheduleMutated :: bool
  mk_triggerMutated :: bool
  mk_jobRemoved :: bool
  mk_preserve :: bool
  mk_onInactive :: "nat list"
  mk_inactiveNotified :: bool
  mk_heartbeatWait :: "(nat \<times> nat option) option"

record task_handle =
  hd_controller :: nat
  hd_onCancel :: "nat option"

record settling_run =
  se_signal :: "nat option"
  se_retiring :: bool

datatype run_effect =
    Effect_inactive nat
  | Effect_jobs_drained nat
  | Effect_runs_drained nat
  | Effect_onCancel nat string

record cron_runs =
  cr_markers :: "active_run list"
  cr_activeJobs :: "(string, nat) jsmap"
  cr_generation :: nat
  cr_emptyWaiters :: "nat list"
  cr_waits :: nat
  cr_registrations :: nat
  cr_handles :: "(string, task_handle) jsmap"
  cr_aborted :: "(nat, string) jsmap"
  cr_settling :: "(nat, settling_run) jsmap"
  cr_suspensionVisible :: "nat list"
  cr_drainWaiters :: "nat list"
  cr_effects :: "run_effect list"

definition no_cron_runs :: cron_runs where
  "no_cron_runs = \<lparr>cr_markers = [], cr_activeJobs = [], cr_generation = 0, cr_emptyWaiters = [], cr_waits = 0,
     cr_registrations = 0, cr_handles = [], cr_aborted = [], cr_settling = [], cr_suspensionVisible = [],
     cr_drainWaiters = [], cr_effects = []\<rparr>"

definition run_effects :: "run_effect list \<Rightarrow> cron_runs \<Rightarrow> cron_runs" where
  "run_effects es s = s\<lparr>cr_effects := cr_effects s @ es\<rparr>"

definition set_marker :: "nat \<Rightarrow> (active_run \<Rightarrow> active_run) \<Rightarrow> cron_runs \<Rightarrow> cron_runs" where
  "set_marker k f s = s\<lparr>cr_markers := (cr_markers s)[k := f (cr_markers s ! k)]\<rparr>"

section \<open>The active jobs\<close>

definition isMarkerActiveInGeneration :: "active_run \<Rightarrow> nat \<Rightarrow> bool" where
  "isMarkerActiveInGeneration marker generation \<longleftrightarrow> mk_generation marker = generation \<or> mk_preserve marker"

definition active_tokens :: "cron_runs \<Rightarrow> nat list" where
  "active_tokens s = filter (\<lambda>k. isMarkerActiveInGeneration (cr_markers s ! k) (cr_generation s))
     (jm_values (cr_activeJobs s))"

definition getActiveCronJobCount :: "cron_runs \<Rightarrow> nat" where
  "getActiveCronJobCount s = length (active_tokens s)"

definition hasActiveCronJobs :: "cron_runs \<Rightarrow> bool" where
  "hasActiveCronJobs s \<longleftrightarrow> 0 < getActiveCronJobCount s"

definition getCurrentCronActiveJobMarker :: "string \<Rightarrow> cron_runs \<Rightarrow> nat option" where
  "getCurrentCronActiveJobMarker jobId s =
     (if jobId = [] then None
      else case jm_get (cr_activeJobs s) jobId of
          Some k \<Rightarrow> if isMarkerActiveInGeneration (cr_markers s ! k) (cr_generation s) then Some k else None
        | None \<Rightarrow> None)"

definition notifyActiveCronJobWaitersIfEmpty :: "cron_runs \<Rightarrow> cron_runs" where
  "notifyActiveCronJobWaitersIfEmpty s =
     (if 0 < getActiveCronJobCount s then s
      else (run_effects (map Effect_jobs_drained (cr_emptyWaiters s)) s)\<lparr>cr_emptyWaiters := []\<rparr>)"

definition notifyCronJobInactive :: "nat \<Rightarrow> cron_runs \<Rightarrow> cron_runs" where
  "notifyCronJobInactive k s =
     (if mk_inactiveNotified (cr_markers s ! k) then s
      else set_marker k (\<lambda>m. m\<lparr>mk_inactiveNotified := True, mk_onInactive := []\<rparr>)
             (run_effects (map Effect_inactive (mk_onInactive (cr_markers s ! k))) s))"

definition markCronJobActive ::
  "string \<Rightarrow> string option \<Rightarrow> bool \<Rightarrow> cron_runs \<Rightarrow> nat option \<times> cron_runs" where
  "markCronJobActive jobId payloadKind preserve s =
     (if jobId = [] then (None, s)
      else
        let k = length (cr_markers s);
            marker = \<lparr>mk_jobId = jobId, mk_payloadKind = payloadKind, mk_generation = cr_generation s,
              mk_cancellation = None, mk_scheduleMutated = False, mk_triggerMutated = False, mk_jobRemoved = False,
              mk_preserve = preserve, mk_onInactive = [], mk_inactiveNotified = False, mk_heartbeatWait = None\<rparr>
        in (Some k, s\<lparr>cr_markers := cr_markers s @ [marker], cr_activeJobs := jm_set jobId k (cr_activeJobs s)\<rparr>))"

definition clearCronJobActive :: "string \<Rightarrow> nat option \<Rightarrow> cron_runs \<Rightarrow> cron_runs" where
  "clearCronJobActive jobId marker s =
     (if jobId = [] then s
      else
        let own = (case marker of Some k \<Rightarrow> mk_jobId (cr_markers s ! k) = jobId | None \<Rightarrow> False);
            s1 = (case (jm_get (cr_activeJobs s) jobId, marker) of
                    (Some active, None) \<Rightarrow>
                      notifyCronJobInactive active (s\<lparr>cr_activeJobs := jm_delete jobId (cr_activeJobs s)\<rparr>)
                  | (Some active, Some k) \<Rightarrow>
                      if own \<and> k = active
                      then notifyCronJobInactive active (s\<lparr>cr_activeJobs := jm_delete jobId (cr_activeJobs s)\<rparr>)
                      else if own then notifyCronJobInactive k s else s
                  | (None, Some k) \<Rightarrow> if own then notifyCronJobInactive k s else s
                  | (None, None) \<Rightarrow> s)
        in notifyActiveCronJobWaitersIfEmpty s1)"

definition on_current :: "string \<Rightarrow> (active_run \<Rightarrow> active_run) \<Rightarrow> cron_runs \<Rightarrow> cron_runs" where
  "on_current jobId f s = (case getCurrentCronActiveJobMarker jobId s of
       Some k \<Rightarrow> set_marker k f s | None \<Rightarrow> s)"

definition noteActiveCronJobScheduleMutation :: "string \<Rightarrow> cron_runs \<Rightarrow> cron_runs" where
  "noteActiveCronJobScheduleMutation jobId = on_current jobId (\<lambda>m. m\<lparr>mk_scheduleMutated := True\<rparr>)"

definition noteActiveCronJobTriggerMutation :: "string \<Rightarrow> cron_runs \<Rightarrow> cron_runs" where
  "noteActiveCronJobTriggerMutation jobId = on_current jobId (\<lambda>m. m\<lparr>mk_triggerMutated := True\<rparr>)"

definition isCronJobActive :: "string \<Rightarrow> cron_runs \<Rightarrow> bool" where
  "isCronJobActive jobId s \<longleftrightarrow> getCurrentCronActiveJobMarker jobId s \<noteq> None"

definition onCronJobInactive :: "nat option \<Rightarrow> nat \<Rightarrow> cron_runs \<Rightarrow> cron_runs" where
  "onCronJobInactive marker callback s = (case marker of
       None \<Rightarrow> run_effects [Effect_inactive callback] s
     | Some k \<Rightarrow>
         if mk_inactiveNotified (cr_markers s ! k) then run_effects [Effect_inactive callback] s
         else set_marker k (\<lambda>m. m\<lparr>mk_onInactive := List.insert callback (mk_onInactive m)\<rparr>) s)"

definition isCronActiveJobMarkerCurrent :: "nat option \<Rightarrow> cron_runs \<Rightarrow> bool" where
  "isCronActiveJobMarkerCurrent marker s = (case marker of
       None \<Rightarrow> True
     | Some k \<Rightarrow> jm_get (cr_activeJobs s) (mk_jobId (cr_markers s ! k)) = Some k \<and>
                isMarkerActiveInGeneration (cr_markers s ! k) (cr_generation s))"

definition hasActiveCronJobsExceptMarkers :: "nat list \<Rightarrow> cron_runs \<Rightarrow> bool" where
  "hasActiveCronJobsExceptMarkers ignored s \<longleftrightarrow> list_ex (\<lambda>k. k \<notin> set ignored) (active_tokens s)"

text \<open>The wait of a run for its heartbeat; the second number is the task of the command lane that owns it. The
  returned function ends exactly this wait.\<close>

definition markCronJobWaitingForHeartbeat :: "nat option \<Rightarrow> nat option \<Rightarrow> cron_runs \<Rightarrow> cron_runs" where
  "markCronJobWaitingForHeartbeat marker lane s = (case marker of
       Some k \<Rightarrow>
         (if isCronActiveJobMarkerCurrent marker s
          then set_marker k (\<lambda>m. m\<lparr>mk_heartbeatWait := Some (cr_waits s, lane)\<rparr>) (s\<lparr>cr_waits := cr_waits s + 1\<rparr>)
          else s)
     | None \<Rightarrow> s)"

definition end_heartbeat_wait :: "nat \<Rightarrow> nat \<Rightarrow> cron_runs \<Rightarrow> cron_runs" where
  "end_heartbeat_wait k wait s =
     (if k < length (cr_markers s) \<and> map_option fst (mk_heartbeatWait (cr_markers s ! k)) = Some wait
      then set_marker k (\<lambda>m. m\<lparr>mk_heartbeatWait := None\<rparr>) s else s)"

definition listCronHeartbeatWaitOwners :: "cron_runs \<Rightarrow> nat list \<times> nat list" where
  "listCronHeartbeatWaitOwners s =
     (let ks = filter (\<lambda>k. mk_heartbeatWait (cr_markers s ! k) \<noteq> None) (active_tokens s)
      in (ks, List.map_filter (\<lambda>k. Option.bind (mk_heartbeatWait (cr_markers s ! k)) snd) ks))"

definition waitForActiveCronJobs :: "nat \<Rightarrow> cron_runs \<Rightarrow> cron_runs" where
  "waitForActiveCronJobs waiter s =
     (if getActiveCronJobCount s = 0 then run_effects [Effect_jobs_drained waiter] s
      else s\<lparr>cr_emptyWaiters := List.insert waiter (cr_emptyWaiters s)\<rparr>)"

definition jobs_wait_timeout :: "nat \<Rightarrow> cron_runs \<Rightarrow> cron_runs" where
  "jobs_wait_timeout waiter s =
     (if waiter \<in> set (cr_emptyWaiters s)
      then run_effects [Effect_jobs_drained waiter] (s\<lparr>cr_emptyWaiters := removeAll waiter (cr_emptyWaiters s)\<rparr>)
      else s)"

definition retire_old :: "string \<times> nat \<Rightarrow> cron_runs \<Rightarrow> cron_runs" where
  "retire_old entry s =
     (let marker = cr_markers s ! snd entry
      in if mk_preserve marker \<or> cr_generation s - 1 \<le> mk_generation marker then s
         else notifyCronJobInactive (snd entry) (s\<lparr>cr_activeJobs := jm_delete (fst entry) (cr_activeJobs s)\<rparr>))"

definition advanceCronActiveJobGeneration :: "cron_runs \<Rightarrow> cron_runs" where
  "advanceCronActiveJobGeneration s =
     (let s1 = s\<lparr>cr_generation := cr_generation s + 1\<rparr>
      in notifyActiveCronJobWaitersIfEmpty (fold retire_old (cr_activeJobs s1) s1))"

definition resetCronActiveJobs :: "cron_runs \<Rightarrow> cron_runs" where
  "resetCronActiveJobs s =
     (let s1 = fold notifyCronJobInactive (jm_values (cr_activeJobs s)) (s\<lparr>cr_generation := cr_generation s + 1\<rparr>)
      in notifyActiveCronJobWaitersIfEmpty (s1\<lparr>cr_activeJobs := []\<rparr>))"

section \<open>Cancellation\<close>

definition CANCELLED_BY_OPERATOR :: string where
  "CANCELLED_BY_OPERATOR = ''Cancelled by operator.''"

definition start_grace :: "nat \<Rightarrow> cron_runs \<Rightarrow> cron_runs" where
  "start_grace promise s = (case jm_get (cr_settling s) promise of
       Some e \<Rightarrow> s\<lparr>cr_settling := jm_set promise (e\<lparr>se_retiring := True\<rparr>) (cr_settling s)\<rparr>
     | None \<Rightarrow> s)"

text \<open>\<open>abort\<close> of a controller: the settling runs that listen to its signal start their grace.\<close>

definition abort_run_controller :: "nat \<Rightarrow> string \<Rightarrow> cron_runs \<Rightarrow> cron_runs" where
  "abort_run_controller controller reason s =
     fold start_grace (map fst (filter (\<lambda>(_, e). se_signal e = Some controller) (cr_settling s)))
       (s\<lparr>cr_aborted := jm_set controller reason (cr_aborted s)\<rparr>)"

definition cancel_handle :: "task_handle \<Rightarrow> string \<Rightarrow> cron_runs \<Rightarrow> cron_runs" where
  "cancel_handle handle reason s =
     run_effects (case hd_onCancel handle of Some c \<Rightarrow> [Effect_onCancel c reason] | None \<Rightarrow> [])
       (abort_run_controller (hd_controller handle) reason s)"

definition is_aborted :: "nat \<Rightarrow> cron_runs \<Rightarrow> bool" where
  "is_aborted controller s \<longleftrightarrow> jm_get (cr_aborted s) controller \<noteq> None"

definition cancelActiveCronTaskRun :: "string \<Rightarrow> string \<Rightarrow> cron_runs \<Rightarrow> bool \<times> cron_runs" where
  "cancelActiveCronTaskRun runIdRaw reasonRaw s =
     (let runId = js_trim runIdRaw
      in if runId = [] then (False, s)
         else case jm_get (cr_handles s) runId of
             None \<Rightarrow> (False, s)
           | Some handle \<Rightarrow>
               if is_aborted (hd_controller handle) s then (False, s)
               else (True, cancel_handle handle
                       (if js_trim reasonRaw = [] then CANCELLED_BY_OPERATOR else js_trim reasonRaw) s))"

definition requestCronActiveJobMarkerCancellation :: "nat \<Rightarrow> string \<Rightarrow> cron_runs \<Rightarrow> cron_runs" where
  "requestCronActiveJobMarkerCancellation k reason s =
     (case mk_cancellation (cr_markers s ! k) of
        Some (Cancel_requested _) \<Rightarrow> s
      | prior \<Rightarrow>
          let s1 = set_marker k (\<lambda>m. m\<lparr>mk_cancellation := Some (Cancel_requested reason)\<rparr>) s
          in (case prior of
                Some (Cancel_bound _ runId) \<Rightarrow> snd (cancelActiveCronTaskRun runId reason s1)
              | _ \<Rightarrow> s1))"

definition requestActiveCronJobCancellation :: "string \<Rightarrow> string \<Rightarrow> cron_runs \<Rightarrow> cron_runs" where
  "requestActiveCronJobCancellation jobId reason s = (case getCurrentCronActiveJobMarker jobId s of
       Some k \<Rightarrow> requestCronActiveJobMarkerCancellation k reason s
     | None \<Rightarrow> s)"

definition requestActiveCronJobCancellationByPayloadKind :: "string \<Rightarrow> string \<Rightarrow> cron_runs \<Rightarrow> cron_runs" where
  "requestActiveCronJobCancellationByPayloadKind payloadKind reason s =
     fold (\<lambda>k. requestCronActiveJobMarkerCancellation k reason)
       (filter (\<lambda>k. mk_payloadKind (cr_markers s ! k) = Some payloadKind) (active_tokens s)) s"

definition noteActiveCronJobRemoval :: "string \<Rightarrow> cron_runs \<Rightarrow> nat option \<times> cron_runs" where
  "noteActiveCronJobRemoval jobId s = (case getCurrentCronActiveJobMarker jobId s of
       None \<Rightarrow> (None, s)
     | Some k \<Rightarrow>
         (Some k, requestCronActiveJobMarkerCancellation k ''Cron job removed by operator.''
            (set_marker k (\<lambda>m. m\<lparr>mk_scheduleMutated := True, mk_jobRemoved := True\<rparr>) s)))"

section \<open>The runs of tasks\<close>

definition notifyActiveCronTaskRunDrainWaitersIfEmpty :: "cron_runs \<Rightarrow> cron_runs" where
  "notifyActiveCronTaskRunDrainWaitersIfEmpty s =
     (if cr_handles s \<noteq> [] \<or> cr_settling s \<noteq> [] then s
      else (run_effects (map Effect_runs_drained (cr_drainWaiters s)) s)\<lparr>cr_drainWaiters := []\<rparr>)"

text \<open>Answers the number of the registration, which its unregister function knows.\<close>

definition registerActiveCronTaskRun ::
  "string \<Rightarrow> nat \<Rightarrow> nat option \<Rightarrow> nat option \<Rightarrow> cron_runs \<Rightarrow> nat option \<times> cron_runs" where
  "registerActiveCronTaskRun runIdRaw controller marker onCancel s =
     (let runId = js_trim runIdRaw
      in if runId = [] then (None, s)
         else
           let r = cr_registrations s;
               s1 = s\<lparr>cr_registrations := r + 1,
                      cr_handles := jm_set runId \<lparr>hd_controller = controller, hd_onCancel = onCancel\<rparr> (cr_handles s)\<rparr>
           in (Some r, case marker of
                 None \<Rightarrow> s1
               | Some k \<Rightarrow>
                   (case mk_cancellation (cr_markers s1 ! k) of
                      Some (Cancel_requested reason) \<Rightarrow> snd (cancelActiveCronTaskRun runId reason s1)
                    | _ \<Rightarrow> set_marker k (\<lambda>m. m\<lparr>mk_cancellation := Some (Cancel_bound r runId)\<rparr>) s1)))"

definition unregister_run :: "nat \<Rightarrow> string \<Rightarrow> nat \<Rightarrow> nat option \<Rightarrow> cron_runs \<Rightarrow> cron_runs" where
  "unregister_run r runId controller marker s =
     (let s1 = (case marker of
                  Some k \<Rightarrow>
                    (case mk_cancellation (cr_markers s ! k) of
                       Some (Cancel_bound r' _) \<Rightarrow>
                         if r' = r then set_marker k (\<lambda>m. m\<lparr>mk_cancellation := None\<rparr>) s else s
                     | _ \<Rightarrow> s)
                | None \<Rightarrow> s)
      in if map_option hd_controller (jm_get (cr_handles s1) (js_trim runId)) = Some controller
         then notifyActiveCronTaskRunDrainWaitersIfEmpty
                (s1\<lparr>cr_handles := jm_delete (js_trim runId) (cr_handles s1)\<rparr>)
         else s1)"

definition abort_all :: "string \<Rightarrow> task_handle \<Rightarrow> nat \<times> cron_runs \<Rightarrow> nat \<times> cron_runs" where
  "abort_all reason handle w =
     (if is_aborted (hd_controller handle) (snd w) then w
      else (fst w + 1, cancel_handle handle reason (snd w)))"

definition abortActiveCronTaskRuns :: "string \<Rightarrow> cron_runs \<Rightarrow> nat \<times> cron_runs" where
  "abortActiveCronTaskRuns reason s =
     (let (aborted, s1) = fold (abort_all reason) (jm_values (cr_handles s)) (0, s)
      in (aborted, fold start_grace (jm_keys (cr_settling s1)) s1))"

definition trackActiveCronTaskRunSettlement :: "nat \<Rightarrow> nat option \<Rightarrow> cron_runs \<Rightarrow> cron_runs" where
  "trackActiveCronTaskRunSettlement promise signal s =
     (let s1 = s\<lparr>cr_settling := jm_set promise \<lparr>se_signal = signal, se_retiring = False\<rparr> (cr_settling s),
               cr_suspensionVisible := List.insert promise (cr_suspensionVisible s)\<rparr>
      in if (case signal of Some c \<Rightarrow> is_aborted c s1 | None \<Rightarrow> False) then start_grace promise s1 else s1)"

text \<open>The promise settles, and the timer of its grace fires.\<close>

definition settle_run :: "nat \<Rightarrow> cron_runs \<Rightarrow> cron_runs" where
  "settle_run promise s = notifyActiveCronTaskRunDrainWaitersIfEmpty
     (s\<lparr>cr_settling := jm_delete promise (cr_settling s),
        cr_suspensionVisible := removeAll promise (cr_suspensionVisible s)\<rparr>)"

definition grace_over :: "nat \<Rightarrow> cron_runs \<Rightarrow> cron_runs" where
  "grace_over promise s = (case jm_get (cr_settling s) promise of
       Some e \<Rightarrow>
         if se_retiring e
         then notifyActiveCronTaskRunDrainWaitersIfEmpty (s\<lparr>cr_settling := jm_delete promise (cr_settling s)\<rparr>)
         else s
     | None \<Rightarrow> s)"

definition getSuspensionVisibleCronTaskRunCount :: "cron_runs \<Rightarrow> nat" where
  "getSuspensionVisibleCronTaskRunCount s = length (cr_suspensionVisible s)"

definition retireActiveCronTaskRunTracking :: "cron_runs \<Rightarrow> cron_runs" where
  "retireActiveCronTaskRunTracking s =
     notifyActiveCronTaskRunDrainWaitersIfEmpty (s\<lparr>cr_handles := [], cr_settling := []\<rparr>)"

definition waitForActiveCronTaskRuns :: "int \<Rightarrow> nat \<Rightarrow> cron_runs \<Rightarrow> cron_runs" where
  "waitForActiveCronTaskRuns waitMs waiter s =
     (if 0 < waitMs \<and> (cr_handles s \<noteq> [] \<or> cr_settling s \<noteq> [])
      then s\<lparr>cr_drainWaiters := List.insert waiter (cr_drainWaiters s)\<rparr>
      else run_effects [Effect_runs_drained waiter] s)"

definition runs_wait_timeout :: "nat \<Rightarrow> cron_runs \<Rightarrow> cron_runs" where
  "runs_wait_timeout waiter s =
     (if waiter \<in> set (cr_drainWaiters s)
      then run_effects [Effect_runs_drained waiter] (s\<lparr>cr_drainWaiters := removeAll waiter (cr_drainWaiters s)\<rparr>)
      else s)"

section \<open>Any order of operations\<close>

datatype runs_event =
    Run_mark string "string option" bool
  | Run_clear string "nat option"
  | Run_note_schedule string
  | Run_note_trigger string
  | Run_note_removal string
  | Run_request string string
  | Run_request_kind string string
  | Run_on_inactive "nat option" nat
  | Run_heartbeat_wait "nat option" "nat option"
  | Run_heartbeat_end nat nat
  | Run_wait_jobs nat
  | Run_wait_jobs_timeout nat
  | Run_advance
  | Run_reset
  | Run_register string nat "nat option" "nat option"
  | Run_unregister nat string nat "nat option"
  | Run_abort_all string
  | Run_cancel string string
  | Run_track nat "nat option"
  | Run_settle nat
  | Run_grace_over nat
  | Run_retire
  | Run_wait int nat
  | Run_wait_timeout nat

text \<open>A marker an operation names has been handed out before.\<close>

definition known :: "nat option \<Rightarrow> cron_runs \<Rightarrow> bool" where
  "known marker s = (case marker of Some k \<Rightarrow> k < length (cr_markers s) | None \<Rightarrow> True)"

fun runs_step :: "runs_event \<Rightarrow> cron_runs \<Rightarrow> cron_runs" where
  "runs_step (Run_mark jobId kind preserve) s = snd (markCronJobActive jobId kind preserve s)"
| "runs_step (Run_clear jobId marker) s = (if known marker s then clearCronJobActive jobId marker s else s)"
| "runs_step (Run_note_schedule jobId) s = noteActiveCronJobScheduleMutation jobId s"
| "runs_step (Run_note_trigger jobId) s = noteActiveCronJobTriggerMutation jobId s"
| "runs_step (Run_note_removal jobId) s = snd (noteActiveCronJobRemoval jobId s)"
| "runs_step (Run_request jobId reason) s = requestActiveCronJobCancellation jobId reason s"
| "runs_step (Run_request_kind kind reason) s = requestActiveCronJobCancellationByPayloadKind kind reason s"
| "runs_step (Run_on_inactive marker callback) s = (if known marker s then onCronJobInactive marker callback s else s)"
| "runs_step (Run_heartbeat_wait marker lane) s =
     (if known marker s then markCronJobWaitingForHeartbeat marker lane s else s)"
| "runs_step (Run_heartbeat_end k wait) s = end_heartbeat_wait k wait s"
| "runs_step (Run_wait_jobs waiter) s = waitForActiveCronJobs waiter s"
| "runs_step (Run_wait_jobs_timeout waiter) s = jobs_wait_timeout waiter s"
| "runs_step Run_advance s = advanceCronActiveJobGeneration s"
| "runs_step Run_reset s = resetCronActiveJobs s"
| "runs_step (Run_register runId controller marker onCancel) s =
     (if known marker s then snd (registerActiveCronTaskRun runId controller marker onCancel s) else s)"
| "runs_step (Run_unregister r runId controller marker) s =
     (if known marker s then unregister_run r runId controller marker s else s)"
| "runs_step (Run_abort_all reason) s = snd (abortActiveCronTaskRuns reason s)"
| "runs_step (Run_cancel runId reason) s = snd (cancelActiveCronTaskRun runId reason s)"
| "runs_step (Run_track promise signal) s = trackActiveCronTaskRunSettlement promise signal s"
| "runs_step (Run_settle promise) s = settle_run promise s"
| "runs_step (Run_grace_over promise) s = grace_over promise s"
| "runs_step Run_retire s = retireActiveCronTaskRunTracking s"
| "runs_step (Run_wait waitMs waiter) s = waitForActiveCronTaskRuns waitMs waiter s"
| "runs_step (Run_wait_timeout waiter) s = runs_wait_timeout waiter s"

definition runs_after :: "runs_event list \<Rightarrow> cron_runs \<Rightarrow> cron_runs" where
  "runs_after events s = fold runs_step events s"

text \<open>What finishing a run reads of its marker.\<close>

definition marker_flags :: "nat \<Rightarrow> cron_runs \<Rightarrow> active_marker" where
  "marker_flags k s = \<lparr>am_scheduleMutated = mk_scheduleMutated (cr_markers s ! k),
     am_triggerMutated = mk_triggerMutated (cr_markers s ! k), am_jobRemoved = mk_jobRemoved (cr_markers s ! k)\<rparr>"

end
