(* ===== verification/Cron_Runs_Laws.thy ===== *)
theory Cron_Runs_Laws
  imports Cron_Runs
begin

text \<open>
  What the registry of runs keeps: a marker never forgets an edit, a removal or a requested cancellation,
  an aborted controller stays aborted, and nobody waits for runs when there are none.
\<close>

section \<open>Markers only gain facts\<close>

definition marker_le :: "active_run \<Rightarrow> active_run \<Rightarrow> bool" where
  "marker_le m m' \<longleftrightarrow> mk_jobId m' = mk_jobId m \<and> mk_generation m' = mk_generation m \<and> mk_preserve m' = mk_preserve m \<and>
     (mk_scheduleMutated m \<longrightarrow> mk_scheduleMutated m') \<and> (mk_triggerMutated m \<longrightarrow> mk_triggerMutated m') \<and>
     (mk_jobRemoved m \<longrightarrow> mk_jobRemoved m') \<and>
     (\<forall>r. mk_cancellation m = Some (Cancel_requested r) \<longrightarrow> mk_cancellation m' = Some (Cancel_requested r))"

definition runs_le :: "cron_runs \<Rightarrow> cron_runs \<Rightarrow> bool" where
  "runs_le s s' \<longleftrightarrow> length (cr_markers s) \<le> length (cr_markers s') \<and>
     (\<forall>k < length (cr_markers s). marker_le (cr_markers s ! k) (cr_markers s' ! k))"

lemma marker_le_refl [simp]: "marker_le m m"
  by (simp add: marker_le_def)

lemma marker_le_trans: "marker_le a b \<Longrightarrow> marker_le b c \<Longrightarrow> marker_le a c"
  by (simp add: marker_le_def)

lemma runs_le_trans: "runs_le a b \<Longrightarrow> runs_le b c \<Longrightarrow> runs_le a c"
  unfolding runs_le_def by (meson marker_le_trans less_le_trans order_trans)

lemma runs_le_same: "cr_markers s' = cr_markers s \<Longrightarrow> runs_le s s'"
  by (simp add: runs_le_def)

lemma runs_le_refl [simp]: "runs_le s s"
  by (simp add: runs_le_same)

lemma set_marker_fields [simp]:
  "cr_activeJobs (set_marker k f s) = cr_activeJobs s" "cr_generation (set_marker k f s) = cr_generation s"
  "cr_emptyWaiters (set_marker k f s) = cr_emptyWaiters s" "cr_aborted (set_marker k f s) = cr_aborted s"
  "cr_handles (set_marker k f s) = cr_handles s" "cr_settling (set_marker k f s) = cr_settling s"
  "cr_suspensionVisible (set_marker k f s) = cr_suspensionVisible s"
  "cr_drainWaiters (set_marker k f s) = cr_drainWaiters s"
  "length (cr_markers (set_marker k f s)) = length (cr_markers s)"
  by (simp_all add: set_marker_def)

lemma run_effects_fields [simp]:
  "cr_markers (run_effects es s) = cr_markers s"
  "cr_activeJobs (run_effects es s) = cr_activeJobs s" "cr_generation (run_effects es s) = cr_generation s"
  "cr_emptyWaiters (run_effects es s) = cr_emptyWaiters s" "cr_aborted (run_effects es s) = cr_aborted s"
  "cr_handles (run_effects es s) = cr_handles s" "cr_settling (run_effects es s) = cr_settling s"
  "cr_suspensionVisible (run_effects es s) = cr_suspensionVisible s"
  "cr_drainWaiters (run_effects es s) = cr_drainWaiters s"
  by (simp_all add: run_effects_def)

lemma set_marker_le: "marker_le (cr_markers s ! k) (f (cr_markers s ! k)) \<Longrightarrow> runs_le s (set_marker k f s)"
  by (cases "k < length (cr_markers s)") (auto simp: runs_le_def set_marker_def nth_list_update)

lemma fold_le: "(\<And>x s. runs_le s (f x s)) \<Longrightarrow> runs_le s (fold f xs s)"
  by (induction xs arbitrary: s) (auto intro: runs_le_trans)

section \<open>Aborting changes only what it should\<close>

lemma start_grace_fields [simp]:
  "cr_markers (start_grace p s) = cr_markers s"
  "cr_activeJobs (start_grace p s) = cr_activeJobs s" "cr_generation (start_grace p s) = cr_generation s"
  "cr_emptyWaiters (start_grace p s) = cr_emptyWaiters s" "cr_aborted (start_grace p s) = cr_aborted s"
  "cr_handles (start_grace p s) = cr_handles s"
  "cr_suspensionVisible (start_grace p s) = cr_suspensionVisible s"
  "cr_drainWaiters (start_grace p s) = cr_drainWaiters s"
  by (simp_all add: start_grace_def split: option.split)

lemma jm_set_Nil [simp]: "jm_set k v m \<noteq> []"
  using jm_set_keys [of k v m] by auto

lemma start_grace_settling [simp]: "cr_settling (start_grace p s) = [] \<longleftrightarrow> cr_settling s = []"
  by (auto simp: start_grace_def split: option.split)

lemma fold_grace_fields [simp]:
  "cr_markers (fold start_grace ps s) = cr_markers s"
  "cr_activeJobs (fold start_grace ps s) = cr_activeJobs s" "cr_generation (fold start_grace ps s) = cr_generation s"
  "cr_emptyWaiters (fold start_grace ps s) = cr_emptyWaiters s" "cr_aborted (fold start_grace ps s) = cr_aborted s"
  "cr_handles (fold start_grace ps s) = cr_handles s"
  "cr_suspensionVisible (fold start_grace ps s) = cr_suspensionVisible s"
  "cr_drainWaiters (fold start_grace ps s) = cr_drainWaiters s"
  "cr_settling (fold start_grace ps s) = [] \<longleftrightarrow> cr_settling s = []"
  by (induction ps arbitrary: s) simp_all

text \<open>What no cancellation of a run touches.\<close>

definition run_view :: "cron_runs \<Rightarrow>
    active_run list \<times> (string, nat) jsmap \<times> nat \<times> nat list \<times> (string, task_handle) jsmap \<times> nat list \<times> nat list \<times> bool" where
  "run_view s = (cr_markers s, cr_activeJobs s, cr_generation s, cr_emptyWaiters s, cr_handles s,
     cr_suspensionVisible s, cr_drainWaiters s, cr_settling s = [])"

lemma run_viewD:
  assumes "run_view a = run_view b"
  shows "cr_markers a = cr_markers b" "cr_activeJobs a = cr_activeJobs b" "cr_generation a = cr_generation b"
    "cr_emptyWaiters a = cr_emptyWaiters b" "cr_handles a = cr_handles b"
    "cr_suspensionVisible a = cr_suspensionVisible b" "cr_drainWaiters a = cr_drainWaiters b"
    "(cr_settling a = []) = (cr_settling b = [])"
  using assms by (simp_all add: run_view_def)

lemma cancel_handle_view [simp]: "run_view (cancel_handle h reason s) = run_view s"
  by (simp add: cancel_handle_def abort_run_controller_def run_view_def)

lemma cancel_view [simp]: "run_view (snd (cancelActiveCronTaskRun runId reason s)) = run_view s"
  by (simp add: cancelActiveCronTaskRun_def Let_def split: option.split)

lemma cancel_handle_aborts:
  "is_aborted (hd_controller h) (cancel_handle h reason s)"
  "is_aborted c s \<Longrightarrow> is_aborted c (cancel_handle h reason s)"
  by (simp_all add: cancel_handle_def abort_run_controller_def is_aborted_def)

lemma cancel_aborts:
  assumes "jm_get (cr_handles s) (js_trim runId) = Some h" "js_trim runId \<noteq> []"
  shows "is_aborted (hd_controller h) (snd (cancelActiveCronTaskRun runId reason s))"
  using assms by (simp add: cancelActiveCronTaskRun_def Let_def cancel_handle_aborts)

lemma abort_all_view: "run_view (snd (fold (abort_all reason) hs w)) = run_view (snd w)"
proof (induction hs arbitrary: w)
  case (Cons h hs)
  have "run_view (snd (abort_all reason h w)) = run_view (snd w)"
    by (simp add: abort_all_def)
  with Cons show ?case
    by simp
qed simp

lemma abort_runs_view [simp]: "run_view (snd (abortActiveCronTaskRuns reason s)) = run_view s"
  using abort_all_view [of reason "jm_values (cr_handles s)" "(0, s)"]
  by (auto simp: abortActiveCronTaskRuns_def Let_def split_beta run_view_def)

section \<open>Every step only adds facts\<close>

lemma notify_inactive_le [simp]: "runs_le s (notifyCronJobInactive k s)"
  by (auto simp: notifyCronJobInactive_def marker_le_def intro!: runs_le_trans [OF runs_le_same set_marker_le])

lemma notify_waiters_markers [simp]: "cr_markers (notifyActiveCronJobWaitersIfEmpty s) = cr_markers s"
  by (simp add: notifyActiveCronJobWaitersIfEmpty_def)

lemma notify_drain_markers [simp]: "cr_markers (notifyActiveCronTaskRunDrainWaitersIfEmpty s) = cr_markers s"
  by (simp add: notifyActiveCronTaskRunDrainWaitersIfEmpty_def)

lemma runs_le_cong:
  assumes "cr_markers a = cr_markers a'" "cr_markers b = cr_markers b'"
  shows "runs_le a b = runs_le a' b'"
  by (simp add: runs_le_def assms)

lemma clear_le: "runs_le s (clearCronJobActive jobId marker s)"
proof -
  have "runs_le s (notifyCronJobInactive k (s\<lparr>cr_activeJobs := x\<rparr>))" for k x
    using notify_inactive_le [of "s\<lparr>cr_activeJobs := x\<rparr>" k] by (simp add: runs_le_def)
  moreover have "runs_le a b \<Longrightarrow> runs_le a (notifyActiveCronJobWaitersIfEmpty b)" for a b
    by (simp add: runs_le_def)
  ultimately show ?thesis
    unfolding clearCronJobActive_def Let_def
    by (simp split: option.split)
qed

lemma request_le: "runs_le s (requestCronActiveJobMarkerCancellation k reason s)"
proof -
  have req: "runs_le s (set_marker k (\<lambda>m. m\<lparr>mk_cancellation := Some (Cancel_requested reason)\<rparr>) s)"
    if "\<forall>r. mk_cancellation (cr_markers s ! k) \<noteq> Some (Cancel_requested r)"
    using that by (intro set_marker_le) (simp add: marker_le_def)
  have view: "runs_le a (snd (cancelActiveCronTaskRun runId reason b)) = runs_le a b" for a b runId
    using run_viewD(1) [OF cancel_view] by (rule runs_le_cong [OF refl])
  show ?thesis
    using req by (simp add: requestCronActiveJobMarkerCancellation_def Let_def view split: option.split cancellation.split)
qed

lemma note_le:
  "runs_le s (noteActiveCronJobScheduleMutation jobId s)" "runs_le s (noteActiveCronJobTriggerMutation jobId s)"
  by (auto simp: noteActiveCronJobScheduleMutation_def noteActiveCronJobTriggerMutation_def on_current_def
      marker_le_def intro!: set_marker_le split: option.split)

lemma removal_le: "runs_le s (snd (noteActiveCronJobRemoval jobId s))"
proof -
  have "runs_le s (set_marker k (\<lambda>m. m\<lparr>mk_scheduleMutated := True, mk_jobRemoved := True\<rparr>) s)" for k
    by (intro set_marker_le) (simp add: marker_le_def)
  then show ?thesis
    by (auto simp: noteActiveCronJobRemoval_def intro: runs_le_trans [OF _ request_le] split: option.split)
qed

lemma register_le: "runs_le s (snd (registerActiveCronTaskRun runId c marker oc s))"
proof -
  let ?s1 = "s\<lparr>cr_registrations := cr_registrations s + 1,
    cr_handles := jm_set (js_trim runId) \<lparr>hd_controller = c, hd_onCancel = oc\<rparr> (cr_handles s)\<rparr>"
  have base: "runs_le s ?s1"
    by (simp add: runs_le_same)
  have "runs_le s (snd (cancelActiveCronTaskRun x reason ?s1))" for x reason
    using run_viewD(1) [OF cancel_view, of x reason ?s1] by (simp add: runs_le_same)
  moreover have "runs_le s (set_marker k (\<lambda>m. m\<lparr>mk_cancellation := Some (Cancel_bound r x)\<rparr>) ?s1)"
    if "\<forall>r. mk_cancellation (cr_markers s ! k) \<noteq> Some (Cancel_requested r)" for k r x
    using that by (intro runs_le_trans [OF base] set_marker_le) (simp add: marker_le_def)
  ultimately show ?thesis
    using base by (simp add: registerActiveCronTaskRun_def Let_def split: option.split cancellation.split)
qed

lemma unregister_le: "runs_le s (unregister_run r runId c marker s)"
proof -
  have "runs_le s (set_marker k (\<lambda>m. m\<lparr>mk_cancellation := None\<rparr>) s)"
    if "mk_cancellation (cr_markers s ! k) = Some (Cancel_bound r x)" for k x
    using that by (intro set_marker_le) (simp add: marker_le_def)
  then have "runs_le s (case marker of
      Some k \<Rightarrow> (case mk_cancellation (cr_markers s ! k) of
         Some (Cancel_bound r' _) \<Rightarrow> if r' = r then set_marker k (\<lambda>m. m\<lparr>mk_cancellation := None\<rparr>) s else s
       | _ \<Rightarrow> s)
    | None \<Rightarrow> s)"
    by (auto split: option.split cancellation.split)
  then show ?thesis
    by (simp add: unregister_run_def Let_def runs_le_def)
qed

lemma retire_le: "runs_le s (retire_old e s)"
proof -
  have "runs_le s (notifyCronJobInactive k (s\<lparr>cr_activeJobs := x\<rparr>))" for k x
    using notify_inactive_le [of "s\<lparr>cr_activeJobs := x\<rparr>" k] by (simp add: runs_le_def)
  then show ?thesis
    by (simp add: retire_old_def Let_def)
qed

lemma lifecycle_le:
  "runs_le s (advanceCronActiveJobGeneration s)" "runs_le s (resetCronActiveJobs s)"
proof -
  let ?g = "s\<lparr>cr_generation := cr_generation s + 1\<rparr>"
  have "runs_le ?g (fold retire_old es ?g)" "runs_le ?g (fold notifyCronJobInactive ks ?g)" for es ks
    by (simp_all add: fold_le retire_le)
  then show "runs_le s (advanceCronActiveJobGeneration s)" "runs_le s (resetCronActiveJobs s)"
    by (simp_all add: advanceCronActiveJobGeneration_def resetCronActiveJobs_def runs_le_def Let_def)
qed

lemma step_le: "runs_le s (runs_step e s)"
proof (cases e)
  case (Run_mark jobId kind preserve)
  then show ?thesis
    by (simp add: markCronJobActive_def runs_le_def Let_def nth_append)
next
  case (Run_request_kind kind reason)
  then show ?thesis
    by (simp add: requestActiveCronJobCancellationByPayloadKind_def fold_le request_le)
next
  case (Run_on_inactive marker callback)
  then show ?thesis
    by (auto simp: onCronJobInactive_def runs_le_same marker_le_def intro!: set_marker_le split: option.split)
next
  case (Run_heartbeat_wait marker lane)
  then show ?thesis
    by (auto simp: markCronJobWaitingForHeartbeat_def marker_le_def
        intro!: runs_le_trans [OF runs_le_same set_marker_le] split: option.split)
next
  case (Run_heartbeat_end k wait)
  then show ?thesis
    by (auto simp: end_heartbeat_wait_def marker_le_def intro!: set_marker_le)
next
  case (Run_abort_all reason)
  then show ?thesis
    by (simp add: runs_le_same run_viewD(1) [OF abort_runs_view])
next
  case (Run_cancel runId reason)
  then show ?thesis
    by (simp add: runs_le_same run_viewD(1) [OF cancel_view])
qed (simp_all add: clear_le note_le removal_le request_le register_le unregister_le lifecycle_le
    requestActiveCronJobCancellation_def waitForActiveCronJobs_def jobs_wait_timeout_def runs_le_same
    trackActiveCronTaskRunSettlement_def settle_run_def grace_over_def retireActiveCronTaskRunTracking_def
    waitForActiveCronTaskRuns_def runs_wait_timeout_def Let_def split: option.split)

lemma runs_after_le: "runs_le s (runs_after events s)"
  unfolding runs_after_def by (rule fold_le) (rule step_le)

end
