(* ===== verification/Step_Runs.thy ===== *)
theory Step_Runs
  imports Main
begin

text \<open>
  An invariant of a step function holds over every run: the contract of a machine whose operations come in
  any order, proved once and interpreted by the machines of the cron scheduler. An event is \<open>allowed\<close> where
  a property speaks of the runs without some events.
\<close>

locale step_invariant =
  fixes step :: "'e \<Rightarrow> 's \<Rightarrow> 's"
    and allowed :: "'e \<Rightarrow> bool"
    and inv :: "'s \<Rightarrow> bool"
  assumes step_keeps: "inv s \<Longrightarrow> allowed e \<Longrightarrow> inv (step e s)"
begin

lemma run_keeps: "inv s \<Longrightarrow> list_all allowed events \<Longrightarrow> inv (fold step events s)"
  by (induction events arbitrary: s) (simp_all add: step_keeps)

end

lemma list_all_True [simp]: "list_all (\<lambda>_. True) xs"
  by (induction xs) simp_all

lemma list_all_avoids: "list_all (\<lambda>e. e \<noteq> x) xs \<longleftrightarrow> x \<notin> set xs"
  by (induction xs) auto

end
