(* ===== verification/Cron_Runs_Claims.thy ===== *)
theory Cron_Runs_Claims
  imports Cron_Runs_Laws Step_Runs
begin

text \<open>
  The promises of the registry of runs: an edit made during a run is remembered until it is finished, a
  cancellation reaches the run it was meant for, a core that may still change state stays visible to a
  suspension, and nobody waits for runs when there are none.
\<close>

section \<open>The views of the two groups of operations\<close>

definition job_view :: "cron_runs \<Rightarrow> (string, nat) jsmap \<times> nat \<times> nat list" where
  "job_view s = (cr_activeJobs s, cr_generation s, cr_emptyWaiters s)"

definition drain_view :: "cron_runs \<Rightarrow> (string, task_handle) jsmap \<times> bool \<times> nat list \<times> nat list" where
  "drain_view s = (cr_handles s, cr_settling s = [], cr_drainWaiters s, cr_suspensionVisible s)"

lemma set_marker_views [simp]:
  "job_view (set_marker k f s) = job_view s" "drain_view (set_marker k f s) = drain_view s"
  by (simp_all add: job_view_def drain_view_def)

lemma cancel_views [simp]:
  "job_view (snd (cancelActiveCronTaskRun runId reason s)) = job_view s"
  "drain_view (snd (cancelActiveCronTaskRun runId reason s)) = drain_view s"
  using run_viewD [OF cancel_view, of runId reason s] by (simp_all add: job_view_def drain_view_def)

lemma request_views [simp]:
  "job_view (requestCronActiveJobMarkerCancellation k reason s) = job_view s"
  "drain_view (requestCronActiveJobMarkerCancellation k reason s) = drain_view s"
  by (simp_all add: requestCronActiveJobMarkerCancellation_def Let_def split: option.split cancellation.split)

lemma fold_request_views [simp]:
  "job_view (fold (\<lambda>k. requestCronActiveJobMarkerCancellation k reason) ks s) = job_view s"
  "drain_view (fold (\<lambda>k. requestCronActiveJobMarkerCancellation k reason) ks s) = drain_view s"
  by (induction ks arbitrary: s) simp_all

lemma notify_inactive_fields [simp]:
  "cr_activeJobs (notifyCronJobInactive k s) = cr_activeJobs s"
  "cr_generation (notifyCronJobInactive k s) = cr_generation s"
  "cr_emptyWaiters (notifyCronJobInactive k s) = cr_emptyWaiters s"
  "drain_view (notifyCronJobInactive k s) = drain_view s"
  "length (cr_markers (notifyCronJobInactive k s)) = length (cr_markers s)"
  by (simp_all add: notifyCronJobInactive_def drain_view_def)

lemma notify_waiters_views [simp]:
  "drain_view (notifyActiveCronJobWaitersIfEmpty s) = drain_view s"
  "cr_activeJobs (notifyActiveCronJobWaitersIfEmpty s) = cr_activeJobs s"
  "cr_generation (notifyActiveCronJobWaitersIfEmpty s) = cr_generation s"
  by (simp_all add: notifyActiveCronJobWaitersIfEmpty_def drain_view_def)

lemma drain_update [simp]:
  "drain_view (s\<lparr>cr_activeJobs := x\<rparr>) = drain_view s" "drain_view (s\<lparr>cr_generation := g\<rparr>) = drain_view s"
  "drain_view (run_effects es s) = drain_view s" "drain_view (s\<lparr>cr_emptyWaiters := ws\<rparr>) = drain_view s"
  "drain_view (s\<lparr>cr_markers := ms\<rparr>) = drain_view s" "drain_view (s\<lparr>cr_waits := n\<rparr>) = drain_view s"
  by (simp_all add: drain_view_def)

lemma clear_drain [simp]: "drain_view (clearCronJobActive jobId marker s) = drain_view s"
  by (simp add: clearCronJobActive_def Let_def split: option.split)

lemma retire_drain [simp]: "drain_view (retire_old e s) = drain_view s"
  by (simp add: retire_old_def Let_def)

lemma fold_lifecycle_drain [simp]:
  "drain_view (fold retire_old es s) = drain_view s"
  "drain_view (fold notifyCronJobInactive ks s) = drain_view s"
  by (induction es arbitrary: s; simp) (induction ks arbitrary: s; simp)

lemma lifecycle_drain [simp]:
  "drain_view (advanceCronActiveJobGeneration s) = drain_view s" "drain_view (resetCronActiveJobs s) = drain_view s"
  by (simp_all add: advanceCronActiveJobGeneration_def resetCronActiveJobs_def Let_def)

section \<open>Waiting for the runs of tasks\<close>

definition drain_ok :: "cron_runs \<Rightarrow> bool" where
  "drain_ok s \<longleftrightarrow> (case drain_view s of (handles, settled, waiters, _) \<Rightarrow> waiters = [] \<or> handles \<noteq> [] \<or> \<not> settled)"

lemma notify_drain_ok [simp]: "drain_ok (notifyActiveCronTaskRunDrainWaitersIfEmpty s)"
  by (simp add: notifyActiveCronTaskRunDrainWaitersIfEmpty_def drain_ok_def drain_view_def)

lemma drain_ok_cong: "drain_view a = drain_view b \<Longrightarrow> drain_ok a = drain_ok b"
  by (simp add: drain_ok_def)

lemma register_drain: "drain_ok s \<Longrightarrow> drain_ok (snd (registerActiveCronTaskRun runId c marker oc s))"
  by (auto simp: registerActiveCronTaskRun_def Let_def drain_ok_def split: option.split cancellation.split)
    (auto simp: drain_view_def)

lemma unregister_drain:
  assumes "drain_ok s"
  shows "drain_ok (unregister_run r runId c marker s)"
proof -
  have "drain_ok (case marker of
      Some k \<Rightarrow> (case mk_cancellation (cr_markers s ! k) of
         Some (Cancel_bound r' _) \<Rightarrow> if r' = r then set_marker k (\<lambda>m. m\<lparr>mk_cancellation := None\<rparr>) s else s
       | _ \<Rightarrow> s)
    | None \<Rightarrow> s)"
    using assms by (auto simp: drain_ok_def split: option.split cancellation.split)
  then show ?thesis
    by (simp add: unregister_run_def Let_def)
qed

lemma step_drain:
  assumes "drain_ok s"
  shows "drain_ok (runs_step e s)"
proof -
  have quiet: "drain_ok (runs_step e s)" if "drain_view (runs_step e s) = drain_view s"
    using assms that by (simp add: drain_ok_def)
  show ?thesis
  proof (cases e)
    case (Run_abort_all reason)
    have "drain_view (snd (abortActiveCronTaskRuns reason s)) = drain_view s"
      using run_viewD [OF abort_runs_view, of reason s] by (simp add: drain_view_def)
    with Run_abort_all quiet show ?thesis
      by simp
  next
    case (Run_track promise signal)
    have "cr_settling (if b then start_grace promise x else x) = [] \<longleftrightarrow> cr_settling x = []" for x b
      by simp
    with Run_track show ?thesis
      by (simp add: trackActiveCronTaskRunSettlement_def Let_def drain_ok_def drain_view_def)
  next
    case (Run_wait waitMs waiter)
    with assms show ?thesis
      by (auto simp: waitForActiveCronTaskRuns_def drain_ok_def drain_view_def)
  next
    case (Run_wait_timeout waiter)
    with assms show ?thesis
      by (auto simp: runs_wait_timeout_def drain_ok_def drain_view_def)
  next
    case (Run_grace_over promise)
    with assms show ?thesis
      by (simp add: grace_over_def split: option.split)
  qed (use assms quiet in \<open>simp_all add: register_drain unregister_drain markCronJobActive_def
      noteActiveCronJobScheduleMutation_def noteActiveCronJobTriggerMutation_def on_current_def
      noteActiveCronJobRemoval_def requestActiveCronJobCancellation_def
      requestActiveCronJobCancellationByPayloadKind_def onCronJobInactive_def end_heartbeat_wait_def
      markCronJobWaitingForHeartbeat_def waitForActiveCronJobs_def jobs_wait_timeout_def settle_run_def
      retireActiveCronTaskRunTracking_def Let_def split: option.splits if_splits\<close>)
qed

section \<open>Waiting for the active jobs\<close>

definition jobs_ok :: "cron_runs \<Rightarrow> bool" where
  "jobs_ok s \<longleftrightarrow> (\<forall>k \<in> snd ` set (cr_activeJobs s). k < length (cr_markers s)) \<and>
     (cr_emptyWaiters s = [] \<or> hasActiveCronJobs s)"

lemma active_tokens_same:
  assumes "runs_le s s'" "cr_activeJobs s' = cr_activeJobs s" "cr_generation s' = cr_generation s"
    and "\<forall>k \<in> snd ` set (cr_activeJobs s). k < length (cr_markers s)"
  shows "active_tokens s' = active_tokens s"
proof -
  have "isMarkerActiveInGeneration (cr_markers s' ! k) (cr_generation s) =
      isMarkerActiveInGeneration (cr_markers s ! k) (cr_generation s)" if "k \<in> set (jm_values (cr_activeJobs s))" for k
    using assms(1,4) that by (auto simp: runs_le_def marker_le_def isMarkerActiveInGeneration_def jm_values_def)
  then show ?thesis
    unfolding active_tokens_def assms(2,3) by (intro filter_cong) auto
qed

text \<open>A step that leaves the active jobs alone.\<close>

lemma quiet_jobs_ok:
  assumes "jobs_ok s" "runs_le s s'" "job_view s' = job_view s"
  shows "jobs_ok s'"
proof -
  have f: "cr_activeJobs s' = cr_activeJobs s" "cr_generation s' = cr_generation s" "cr_emptyWaiters s' = cr_emptyWaiters s"
    using assms(3) by (simp_all add: job_view_def)
  have "active_tokens s' = active_tokens s"
    using assms(1) by (intro active_tokens_same assms f) (simp add: jobs_ok_def)
  then have "hasActiveCronJobs s' = hasActiveCronJobs s"
    by (simp add: hasActiveCronJobs_def getActiveCronJobCount_def)
  moreover have "length (cr_markers s) \<le> length (cr_markers s')"
    using assms(2) by (simp add: runs_le_def)
  ultimately show ?thesis
    using assms(1) by (fastforce simp: jobs_ok_def f)
qed

lemma notified_jobs_ok:
  assumes "\<forall>k \<in> snd ` set (cr_activeJobs s). k < length (cr_markers s)"
  shows "jobs_ok (notifyActiveCronJobWaitersIfEmpty s)"
proof -
  have "active_tokens (notifyActiveCronJobWaitersIfEmpty s) = active_tokens s"
    by (rule active_tokens_same) (simp_all add: runs_le_same assms)
  with assms show ?thesis
    by (simp add: jobs_ok_def hasActiveCronJobs_def getActiveCronJobCount_def)
      (simp add: notifyActiveCronJobWaitersIfEmpty_def getActiveCronJobCount_def)
qed

lemma jm_delete_subset: "set (jm_delete k m) \<subseteq> set m"
  by (auto simp: jm_delete_def)

lemma fold_retire_jobs:
  "set (cr_activeJobs (fold retire_old es s)) \<subseteq> set (cr_activeJobs s) \<and>
   length (cr_markers (fold retire_old es s)) = length (cr_markers s)"
proof (induction es arbitrary: s)
  case (Cons e es)
  have "set (cr_activeJobs (retire_old e s)) \<subseteq> set (cr_activeJobs s)"
    "length (cr_markers (retire_old e s)) = length (cr_markers s)"
    by (auto simp: retire_old_def Let_def dest: subsetD [OF jm_delete_subset])
  with Cons [of "retire_old e s"] show ?case
    by auto
qed simp

lemma clear_jobs_ok:
  assumes "jobs_ok s"
  shows "jobs_ok (clearCronJobActive jobId marker s)"
proof (cases "jobId = []")
  case False
  define s1 where "s1 = (case (jm_get (cr_activeJobs s) jobId, marker) of
      (Some active, None) \<Rightarrow> notifyCronJobInactive active (s\<lparr>cr_activeJobs := jm_delete jobId (cr_activeJobs s)\<rparr>)
    | (Some active, Some k) \<Rightarrow>
        if (case marker of Some k \<Rightarrow> mk_jobId (cr_markers s ! k) = jobId | None \<Rightarrow> False) \<and> k = active
        then notifyCronJobInactive active (s\<lparr>cr_activeJobs := jm_delete jobId (cr_activeJobs s)\<rparr>)
        else if (case marker of Some k \<Rightarrow> mk_jobId (cr_markers s ! k) = jobId | None \<Rightarrow> False)
        then notifyCronJobInactive k s else s
    | (None, Some k) \<Rightarrow>
        if (case marker of Some k \<Rightarrow> mk_jobId (cr_markers s ! k) = jobId | None \<Rightarrow> False)
        then notifyCronJobInactive k s else s
    | (None, None) \<Rightarrow> s)"
  have "clearCronJobActive jobId marker s = notifyActiveCronJobWaitersIfEmpty s1"
    using False by (simp add: clearCronJobActive_def s1_def Let_def)
  moreover have "set (cr_activeJobs s1) \<subseteq> set (cr_activeJobs s) \<and> length (cr_markers s1) = length (cr_markers s)"
    by (auto simp: s1_def dest: subsetD [OF jm_delete_subset] split: option.splits)
  then have "\<forall>k \<in> snd ` set (cr_activeJobs s1). k < length (cr_markers s1)"
    using assms by (auto simp: jobs_ok_def)
  ultimately show ?thesis
    using notified_jobs_ok by simp
qed (use assms in \<open>simp add: clearCronJobActive_def\<close>)

lemma mark_jobs_ok:
  assumes "jobs_ok s"
  shows "jobs_ok (snd (markCronJobActive jobId kind preserve s))"
proof (cases "jobId = []")
  case False
  define s1 where "s1 = snd (markCronJobActive jobId kind preserve s)"
  have f: "length (cr_markers s1) = Suc (length (cr_markers s))"
    "cr_activeJobs s1 = jm_set jobId (length (cr_markers s)) (cr_activeJobs s)" "cr_generation s1 = cr_generation s"
    "isMarkerActiveInGeneration (cr_markers s1 ! length (cr_markers s)) (cr_generation s)"
    using False by (simp_all add: s1_def markCronJobActive_def Let_def isMarkerActiveInGeneration_def)
  have "(jobId, length (cr_markers s)) \<in> set (cr_activeJobs s1)"
    by (simp add: f(2)) (metis jm_get_set fun_upd_same map_of_SomeD)
  then have "length (cr_markers s) \<in> set (active_tokens s1)"
    using f(4) by (force simp: active_tokens_def jm_values_def f(3))
  then have "hasActiveCronJobs s1"
    by (auto simp: hasActiveCronJobs_def getActiveCronJobCount_def)
  moreover have "snd ` set (cr_activeJobs s1) \<subseteq> insert (length (cr_markers s)) (snd ` set (cr_activeJobs s))"
    by (simp add: f(2) jm_set_values_subset)
  ultimately show ?thesis
    using assms f(1) unfolding s1_def [symmetric] jobs_ok_def by fastforce
qed (use assms in \<open>simp add: markCronJobActive_def\<close>)

lemma job_update [simp]:
  "job_view (run_effects es s) = job_view s" "job_view (s\<lparr>cr_handles := h\<rparr>) = job_view s"
  "job_view (s\<lparr>cr_settling := x\<rparr>) = job_view s" "job_view (s\<lparr>cr_suspensionVisible := v\<rparr>) = job_view s"
  "job_view (s\<lparr>cr_drainWaiters := w\<rparr>) = job_view s" "job_view (s\<lparr>cr_registrations := n\<rparr>) = job_view s"
  "job_view (s\<lparr>cr_waits := n\<rparr>) = job_view s" "job_view (start_grace p s) = job_view s"
  "job_view (notifyActiveCronTaskRunDrainWaitersIfEmpty s) = job_view s"
  by (simp_all add: job_view_def notifyActiveCronTaskRunDrainWaitersIfEmpty_def)

lemma register_jobs [simp]: "job_view (snd (registerActiveCronTaskRun runId c marker oc s)) = job_view s"
  by (simp add: registerActiveCronTaskRun_def Let_def split: option.split cancellation.split)

lemma unregister_jobs [simp]: "job_view (unregister_run r runId c marker s) = job_view s"
  by (simp add: unregister_run_def Let_def split: option.split cancellation.split)

lemma abort_jobs [simp]: "job_view (snd (abortActiveCronTaskRuns reason s)) = job_view s"
  using run_viewD [OF abort_runs_view, of reason s] by (simp add: job_view_def)

lemma step_jobs:
  assumes "jobs_ok s"
  shows "jobs_ok (runs_step e s)"
proof -
  have quiet: "jobs_ok (runs_step e s)" if "job_view (runs_step e s) = job_view s"
    using assms step_le that by (rule quiet_jobs_ok)
  show ?thesis
  proof (cases e)
    case (Run_wait_jobs waiter)
    have "active_tokens (s\<lparr>cr_emptyWaiters := ws\<rparr>) = active_tokens s" for ws
      by (simp add: active_tokens_def)
    with Run_wait_jobs assms quiet show ?thesis
      by (auto simp: waitForActiveCronJobs_def jobs_ok_def hasActiveCronJobs_def getActiveCronJobCount_def)
  next
    case (Run_wait_jobs_timeout waiter)
    have "active_tokens (run_effects es (s\<lparr>cr_emptyWaiters := ws\<rparr>)) = active_tokens s" for es ws
      by (simp add: active_tokens_def)
    with Run_wait_jobs_timeout assms show ?thesis
      by (auto simp: jobs_wait_timeout_def jobs_ok_def hasActiveCronJobs_def getActiveCronJobCount_def)
  next
    case Run_advance
    have "\<forall>k \<in> snd ` set (cr_activeJobs (fold retire_old es s1)). k < length (cr_markers (fold retire_old es s1))"
      if "\<forall>k \<in> snd ` set (cr_activeJobs s1). k < length (cr_markers s1)" for es s1
      using fold_retire_jobs [of es s1] that by fastforce
    with assms Run_advance show ?thesis
      by (simp add: advanceCronActiveJobGeneration_def Let_def jobs_ok_def [of s] notified_jobs_ok)
  next
    case Run_reset
    then show ?thesis
      by (simp add: resetCronActiveJobs_def Let_def notified_jobs_ok)
  qed (use assms quiet in \<open>simp_all add: mark_jobs_ok clear_jobs_ok
      noteActiveCronJobScheduleMutation_def noteActiveCronJobTriggerMutation_def on_current_def
      noteActiveCronJobRemoval_def requestActiveCronJobCancellation_def
      requestActiveCronJobCancellationByPayloadKind_def onCronJobInactive_def end_heartbeat_wait_def
      markCronJobWaitingForHeartbeat_def trackActiveCronTaskRunSettlement_def settle_run_def grace_over_def
      retireActiveCronTaskRunTracking_def waitForActiveCronTaskRuns_def runs_wait_timeout_def Let_def
      split: option.splits if_splits\<close>)
qed

section \<open>What a suspension sees\<close>

lemma notify_drain_visible [simp]:
  "cr_suspensionVisible (notifyActiveCronTaskRunDrainWaitersIfEmpty s) = cr_suspensionVisible s"
  by (simp add: notifyActiveCronTaskRunDrainWaitersIfEmpty_def)

lemma views_visible:
  "drain_view a = drain_view b \<Longrightarrow> cr_suspensionVisible a = cr_suspensionVisible b"
  by (simp add: drain_view_def)

lemma register_visible:
  "cr_suspensionVisible (snd (registerActiveCronTaskRun runId c marker oc s)) = cr_suspensionVisible s"
  using views_visible [OF cancel_views(2)]
  by (simp add: registerActiveCronTaskRun_def Let_def split: option.split cancellation.split)

lemma unregister_visible: "cr_suspensionVisible (unregister_run r runId c marker s) = cr_suspensionVisible s"
  by (simp add: unregister_run_def Let_def split: option.split cancellation.split)

lemma step_visible:
  assumes "p \<in> set (cr_suspensionVisible s)" "e \<noteq> Run_settle p"
  shows "p \<in> set (cr_suspensionVisible (runs_step e s))"
proof -
  have quiet: "p \<in> set (cr_suspensionVisible (runs_step e s))" if "drain_view (runs_step e s) = drain_view s"
    using assms that by (simp add: drain_view_def)
  show ?thesis
  proof (cases e)
    case (Run_abort_all reason)
    have "drain_view (snd (abortActiveCronTaskRuns reason s)) = drain_view s"
      using run_viewD [OF abort_runs_view, of reason s] by (simp add: drain_view_def)
    with Run_abort_all quiet show ?thesis
      by simp
  next
    case (Run_grace_over promise)
    with assms show ?thesis
      by (simp add: grace_over_def split: option.split)
  qed (use assms quiet in \<open>simp_all add: register_visible unregister_visible markCronJobActive_def
      noteActiveCronJobScheduleMutation_def noteActiveCronJobTriggerMutation_def on_current_def
      noteActiveCronJobRemoval_def requestActiveCronJobCancellation_def
      requestActiveCronJobCancellationByPayloadKind_def onCronJobInactive_def end_heartbeat_wait_def
      markCronJobWaitingForHeartbeat_def waitForActiveCronJobs_def jobs_wait_timeout_def settle_run_def
      trackActiveCronTaskRunSettlement_def waitForActiveCronTaskRuns_def runs_wait_timeout_def
      retireActiveCronTaskRunTracking_def Let_def split: option.splits if_splits\<close>)
qed

section \<open>The properties\<close>

interpretation registry: step_invariant runs_step "\<lambda>_. True" "\<lambda>s. jobs_ok s \<and> drain_ok s"
  by unfold_locales (simp add: step_jobs step_drain)

interpretation visible: step_invariant runs_step "\<lambda>e. e \<noteq> Run_settle p"
    "\<lambda>s. p \<in> set (cr_suspensionVisible s)" for p
  by unfold_locales (rule step_visible)

lemma registry_ok:
  "jobs_ok (runs_after events no_cron_runs) \<and> drain_ok (runs_after events no_cron_runs)"
proof -
  have "jobs_ok no_cron_runs \<and> drain_ok no_cron_runs"
    by (simp add: jobs_ok_def drain_ok_def drain_view_def no_cron_runs_def)
  from registry.run_keeps [OF this] show ?thesis
    by (simp add: runs_after_def)
qed

lemma current_known:
  assumes "getCurrentCronActiveJobMarker jobId (runs_after events no_cron_runs) = Some k"
  shows "k < length (cr_markers (runs_after events no_cron_runs))"
proof -
  have "jm_get (cr_activeJobs (runs_after events no_cron_runs)) jobId = Some k"
    using assms by (auto simp: getCurrentCronActiveJobMarker_def split: option.splits if_splits)
  then show ?thesis
    using registry_ok [of events] jm_get_in_set by (fastforce simp: jobs_ok_def)
qed

lemma set_marker_nth [simp]:
  "k < length (cr_markers s) \<Longrightarrow> cr_markers (set_marker k f s) ! k = f (cr_markers s ! k)"
  by (simp add: set_marker_def)

lemma requested_after_request:
  assumes "k < length (cr_markers s)"
  shows "\<exists>r. mk_cancellation (cr_markers (requestCronActiveJobMarkerCancellation k reason s) ! k) = Some (Cancel_requested r)"
  using assms run_viewD(1) [OF cancel_view]
  by (simp add: requestCronActiveJobMarkerCancellation_def Let_def split: option.split cancellation.split)

text \<open>C21: An edit of the schedule made while a run is active is remembered until the run is finished: whatever
  the registry does in between, also if another run takes the place of this one, and also if the edit
  was undone, the finished run no longer owns the schedule; and likewise for the trigger and the removal.\<close>

theorem edit_during_run_is_remembered:
  assumes "getCurrentCronActiveJobMarker jobId (runs_after before no_cron_runs) = Some k"
  shows "\<not> resolveCronRunScheduleOwnership E admitted current (Some (marker_flags k
      (runs_after after (noteActiveCronJobScheduleMutation jobId (runs_after before no_cron_runs))))) \<and>
    \<not> resolveCronRunTriggerOwnership admitted current (Some (marker_flags k
      (runs_after after (noteActiveCronJobTriggerMutation jobId (runs_after before no_cron_runs))))) \<and>
    am_jobRemoved (marker_flags k
      (runs_after after (snd (noteActiveCronJobRemoval jobId (runs_after before no_cron_runs)))))"
proof -
  define s where "s = runs_after before no_cron_runs"
  have k: "k < length (cr_markers s)"
    using current_known [OF assms] by (simp add: s_def)
  have cur: "getCurrentCronActiveJobMarker jobId s = Some k"
    using assms by (simp add: s_def)
  have keeps: "marker_le (cr_markers x ! k) (cr_markers (runs_after after x) ! k)" if "k < length (cr_markers x)" for x
    using runs_after_le [of x after] that by (simp add: runs_le_def)
  define a where "a = noteActiveCronJobScheduleMutation jobId s"
  have "mk_scheduleMutated (cr_markers a ! k)" "k < length (cr_markers a)"
    using k by (simp_all add: a_def noteActiveCronJobScheduleMutation_def on_current_def cur)
  then have schedule: "mk_scheduleMutated (cr_markers (runs_after after a) ! k)"
    using keeps [of a] by (simp add: marker_le_def)
  define b where "b = noteActiveCronJobTriggerMutation jobId s"
  have "mk_triggerMutated (cr_markers b ! k)" "k < length (cr_markers b)"
    using k by (simp_all add: b_def noteActiveCronJobTriggerMutation_def on_current_def cur)
  then have trigger: "mk_triggerMutated (cr_markers (runs_after after b) ! k)"
    using keeps [of b] by (simp add: marker_le_def)
  define c where "c = snd (noteActiveCronJobRemoval jobId s)"
  define d where "d = set_marker k (\<lambda>m. m\<lparr>mk_scheduleMutated := True, mk_jobRemoved := True\<rparr>) s"
  have "runs_le d c"
    using request_le by (simp add: c_def d_def noteActiveCronJobRemoval_def cur)
  moreover have "mk_jobRemoved (cr_markers d ! k)" "k < length (cr_markers d)"
    using k by (simp_all add: d_def)
  ultimately have "mk_jobRemoved (cr_markers c ! k)" "k < length (cr_markers c)"
    by (auto simp: runs_le_def marker_le_def)
  then have "mk_jobRemoved (cr_markers (runs_after after c) ! k)"
    using keeps [of c] by (simp add: marker_le_def)
  with schedule trigger show ?thesis
    by (simp add: resolveCronRunScheduleOwnership_def resolveCronRunTriggerOwnership_def marker_flags_def
        s_def [symmetric] a_def [symmetric] b_def [symmetric] c_def [symmetric])
qed


text \<open>C26: Nobody waits for runs that are not there: in every state the registry reaches, a wait for the active
  jobs has an active job, and a wait for the runs of tasks a registered or settling run.\<close>

theorem no_drain_wait_is_lost:
  "(cr_emptyWaiters (runs_after events no_cron_runs) = [] \<or> hasActiveCronJobs (runs_after events no_cron_runs)) \<and>
   (cr_drainWaiters (runs_after events no_cron_runs) = [] \<or>
    0 < length (cr_handles (runs_after events no_cron_runs)) + length (cr_settling (runs_after events no_cron_runs)))"
  using registry_ok [of events] by (auto simp: jobs_ok_def drain_ok_def drain_view_def)

text \<open>A core that was tracked stays visible to a suspension until it settles, whatever timers, aborts and
  retirements happen.\<close>

theorem unsettled_run_stays_visible:
  assumes "Run_settle promise \<notin> set after"
  shows "promise \<in> set (cr_suspensionVisible (runs_after after (trackActiveCronTaskRunSettlement promise signal s)))"
proof -
  have "promise \<in> set (cr_suspensionVisible (trackActiveCronTaskRunSettlement promise signal s))"
    by (simp add: trackActiveCronTaskRunSettlement_def Let_def)
  with assms show ?thesis
    unfolding runs_after_def by (intro visible.run_keeps) (simp_all add: list_all_avoids)
qed

section \<open>Concrete runs\<close>


end
