(* ===== verification/Cron_Capacity.thy ===== *)
theory Cron_Capacity
  imports Prelude Step_Runs
begin

text \<open>
  The slots that cap the cron runs of a process (\<open>src/cron/service/run-admission-capacity.ts\<close>). A direct run
  waits for a slot, a timer tick takes only the slots that are free and leaves a listener for the rest.

  A slot is the number of its release function, which remembers whether it was called; a request is
  the number of its promise. \<open>ra_answers\<close> are the promises resolved so far, in order, with the slot
  or with \<open>None\<close>; \<open>ra_microtasks\<close> the listeners queued to run. What a run does between its slot and its
  release is not part of the pool: the events come in any order.
\<close>

section \<open>The pool\<close>

record cron_admission =
  ra_active :: int
  ra_waiters :: "nat list"
  ra_capacityListener :: "nat option"
  ra_stopped :: bool
  ra_released :: "bool list"
  ra_requests :: nat
  ra_answers :: "(nat \<times> nat option) list"
  ra_microtasks :: "nat list"

definition DEFAULT_CRON_MAX_CONCURRENT_RUNS :: int where
  "DEFAULT_CRON_MAX_CONCURRENT_RUNS = 8"

definition resolveRunConcurrency :: int where
  "resolveRunConcurrency = DEFAULT_CRON_MAX_CONCURRENT_RUNS"

definition new_cron_admission :: cron_admission where
  "new_cron_admission = \<lparr>ra_active = 0, ra_waiters = [], ra_capacityListener = None, ra_stopped = False,
     ra_released = [], ra_requests = 0, ra_answers = [], ra_microtasks = []\<rparr>"

definition acquireCronRunSlot :: "cron_admission \<Rightarrow> nat \<times> cron_admission" where
  "acquireCronRunSlot s =
     (length (ra_released s), s\<lparr>ra_active := ra_active s + 1, ra_released := ra_released s @ [False]\<rparr>)"

definition answer :: "nat \<Rightarrow> nat option \<Rightarrow> cron_admission \<Rightarrow> cron_admission" where
  "answer request slot s = s\<lparr>ra_answers := ra_answers s @ [(request, slot)]\<rparr>"

definition cancelCronRunAdmissionWaiters :: "cron_admission \<Rightarrow> cron_admission" where
  "cancelCronRunAdmissionWaiters s =
     fold (\<lambda>request. answer request None) (ra_waiters s) (s\<lparr>ra_capacityListener := None, ra_waiters := []\<rparr>)"

function admit_waiters :: "cron_admission \<Rightarrow> cron_admission" where
  "admit_waiters s =
     (case ra_waiters s of
        [] \<Rightarrow> s
      | request # rest \<Rightarrow>
          if ra_active s < resolveRunConcurrency
          then (let (slot, s1) = acquireCronRunSlot (s\<lparr>ra_waiters := rest\<rparr>)
                in admit_waiters (answer request (Some slot) s1))
          else s)"
  by auto
termination
  by (relation "measure (\<lambda>s. length (ra_waiters s))")
    (auto simp: acquireCronRunSlot_def answer_def)

declare admit_waiters.simps [simp del]

definition dispatchWaiters :: "cron_admission \<Rightarrow> cron_admission" where
  "dispatchWaiters s =
     (if ra_stopped s then cancelCronRunAdmissionWaiters s
      else
        let s1 = admit_waiters s
        in if ra_active s1 < resolveRunConcurrency \<and> ra_waiters s1 = []
           then (case ra_capacityListener s1 of
                   Some listener \<Rightarrow>
                     s1\<lparr>ra_capacityListener := None, ra_microtasks := ra_microtasks s1 @ [listener]\<rparr>
                 | None \<Rightarrow> s1)
           else s1)"

text \<open>The release function of a slot.\<close>

definition release_slot :: "nat \<Rightarrow> cron_admission \<Rightarrow> cron_admission" where
  "release_slot slot s =
     (if length (ra_released s) \<le> slot \<or> ra_released s ! slot then s
      else dispatchWaiters (s\<lparr>ra_released := (ra_released s)[slot := True], ra_active := ra_active s - 1\<rparr>))"

fun take_slots :: "nat \<Rightarrow> cron_admission \<Rightarrow> nat list \<times> cron_admission" where
  "take_slots 0 s = ([], s)"
| "take_slots (Suc n) s =
     (let (slot, s1) = acquireCronRunSlot s; (slots, s2) = take_slots n s1 in (slot # slots, s2))"

definition tryAcquireCronRunSlots :: "int \<Rightarrow> cron_admission \<Rightarrow> nat list \<times> cron_admission" where
  "tryAcquireCronRunSlots requested s =
     (if ra_stopped s \<or> requested \<le> 0 \<or> ra_waiters s \<noteq> [] then ([], s)
      else take_slots (nat (min requested (max 0 (resolveRunConcurrency - ra_active s)))) s)"

definition setCronRunCapacityListener :: "nat \<Rightarrow> cron_admission \<Rightarrow> cron_admission" where
  "setCronRunCapacityListener listener s =
     (case ra_capacityListener s of Some _ \<Rightarrow> s | None \<Rightarrow> s\<lparr>ra_capacityListener := Some listener\<rparr>)"

definition acquireCronRunAdmission :: "cron_admission \<Rightarrow> cron_admission" where
  "acquireCronRunAdmission s =
     (let request = ra_requests s; s0 = s\<lparr>ra_requests := Suc request\<rparr>
      in if ra_stopped s0 then answer request None s0
         else if ra_waiters s0 = [] \<and> ra_active s0 < resolveRunConcurrency
         then (let (slot, s1) = acquireCronRunSlot s0 in answer request (Some slot) s1)
         else s0\<lparr>ra_waiters := ra_waiters s0 @ [request]\<rparr>)"

section \<open>What the service does with it\<close>

text \<open>The slots a timer tick takes for its due jobs (\<open>timer-scheduler.ts\<close>), and the stop of the service.\<close>

definition tick_slots :: "int \<Rightarrow> nat \<Rightarrow> cron_admission \<Rightarrow> nat list \<times> cron_admission" where
  "tick_slots due listener s =
     (let (slots, s1) = tryAcquireCronRunSlots due s
      in if int (length slots) < due then (slots, setCronRunCapacityListener listener s1) else (slots, s1))"

definition stop_admission :: "cron_admission \<Rightarrow> cron_admission" where
  "stop_admission s = cancelCronRunAdmissionWaiters (s\<lparr>ra_stopped := True\<rparr>)"

datatype admission_event =
    Event_acquire
  | Event_release nat
  | Event_tick int nat
  | Event_stop
  | Event_start

fun admission_step :: "admission_event \<Rightarrow> cron_admission \<Rightarrow> cron_admission" where
  "admission_step Event_acquire s = acquireCronRunAdmission s"
| "admission_step (Event_release slot) s = release_slot slot s"
| "admission_step (Event_tick due listener) s = snd (tick_slots due listener s)"
| "admission_step Event_stop s = stop_admission s"
| "admission_step Event_start s = s\<lparr>ra_stopped := False\<rparr>"

definition run_events :: "admission_event list \<Rightarrow> cron_admission \<Rightarrow> cron_admission" where
  "run_events events s = fold admission_step events s"

section \<open>Every state the events reach\<close>

definition held :: "bool list \<Rightarrow> int" where
  "held released = int (length (filter Not released))"

lemma held_simps [simp]:
  "held [] = 0" "held (xs @ [False]) = held xs + 1"
  by (simp_all add: held_def)

lemma held_release:
  "i < length xs \<Longrightarrow> \<not> xs ! i \<Longrightarrow> held (xs[i := True]) = held xs - 1"
proof (induction xs arbitrary: i)
  case (Cons x xs)
  then show ?case
    by (cases i) (auto simp: held_def)
qed simp

text \<open>Accounts: the active runs are the slots not released, within the cap; the requests are answered in the
  order they came; whoever waits, waits for a full pool of a service that runs.\<close>

definition pool_accounts :: "cron_admission \<Rightarrow> bool" where
  "pool_accounts s \<longleftrightarrow> ra_active s = held (ra_released s) \<and> ra_active s \<le> resolveRunConcurrency \<and>
     map fst (ra_answers s) @ ra_waiters s = [0..<ra_requests s]"

definition pool_busy :: "cron_admission \<Rightarrow> bool" where
  "pool_busy s \<longleftrightarrow> (ra_waiters s = [] \<or> ra_active s = resolveRunConcurrency \<and> \<not> ra_stopped s)"

lemma answer_fields [simp]:
  "ra_active (answer r x s) = ra_active s" "ra_waiters (answer r x s) = ra_waiters s"
  "ra_released (answer r x s) = ra_released s" "ra_stopped (answer r x s) = ra_stopped s"
  "ra_requests (answer r x s) = ra_requests s" "ra_capacityListener (answer r x s) = ra_capacityListener s"
  "ra_microtasks (answer r x s) = ra_microtasks s"
  "map fst (ra_answers (answer r x s)) = map fst (ra_answers s) @ [r]"
  by (simp_all add: answer_def)

lemma acquire_slot:
  assumes "pool_accounts s" "ra_active s < resolveRunConcurrency"
  shows "pool_accounts (snd (acquireCronRunSlot s))"
  using assms by (simp add: pool_accounts_def acquireCronRunSlot_def)

lemma fold_answers:
  "ra_active (fold (\<lambda>r. answer r None) rs s) = ra_active s"
  "ra_waiters (fold (\<lambda>r. answer r None) rs s) = ra_waiters s"
  "ra_released (fold (\<lambda>r. answer r None) rs s) = ra_released s"
  "ra_requests (fold (\<lambda>r. answer r None) rs s) = ra_requests s"
  "map fst (ra_answers (fold (\<lambda>r. answer r None) rs s)) = map fst (ra_answers s) @ rs"
  by (induction rs arbitrary: s) simp_all

lemma cancel_accounts:
  assumes "pool_accounts s"
  shows "pool_accounts (cancelCronRunAdmissionWaiters s)" "ra_waiters (cancelCronRunAdmissionWaiters s) = []"
  using assms by (simp_all add: pool_accounts_def cancelCronRunAdmissionWaiters_def fold_answers)

lemma admit_waiters_laws:
  assumes "pool_accounts s"
  shows "pool_accounts (admit_waiters s) \<and> ra_stopped (admit_waiters s) = ra_stopped s \<and>
    ra_capacityListener (admit_waiters s) = ra_capacityListener s \<and>
    ra_microtasks (admit_waiters s) = ra_microtasks s \<and>
    (ra_waiters (admit_waiters s) = [] \<or> ra_active (admit_waiters s) = resolveRunConcurrency)"
  using assms
proof (induction s rule: admit_waiters.induct)
  case (1 s)
  show ?case
  proof (cases "ra_waiters s")
    case Nil
    with 1(2) show ?thesis
      by (simp add: admit_waiters.simps [of s])
  next
    case (Cons r rest)
    show ?thesis
    proof (cases "ra_active s < resolveRunConcurrency")
      case True
      define s1 where "s1 = answer r (Some (fst (acquireCronRunSlot (s\<lparr>ra_waiters := rest\<rparr>))))
        (snd (acquireCronRunSlot (s\<lparr>ra_waiters := rest\<rparr>)))"
      have eq: "admit_waiters s = admit_waiters s1"
        using Cons True by (simp add: admit_waiters.simps [of s] s1_def split_beta Let_def)
      have "pool_accounts s1"
        using 1(2) Cons True by (simp add: pool_accounts_def s1_def acquireCronRunSlot_def)
      moreover have "ra_stopped s1 = ra_stopped s" "ra_capacityListener s1 = ra_capacityListener s"
        "ra_microtasks s1 = ra_microtasks s"
        by (simp_all add: s1_def acquireCronRunSlot_def)
      ultimately show ?thesis
        using 1(1) [OF Cons True refl prod.collapse] by (simp add: eq s1_def)
    next
      case False
      with 1(2) Cons show ?thesis
        by (simp add: admit_waiters.simps [of s] pool_accounts_def)
    qed
  qed
qed

lemma dispatch_laws:
  assumes "pool_accounts s"
  shows "pool_accounts (dispatchWaiters s) \<and> pool_busy (dispatchWaiters s)"
proof (cases "ra_stopped s")
  case True
  with assms show ?thesis
    by (simp add: dispatchWaiters_def cancel_accounts pool_busy_def)
next
  case False
  with admit_waiters_laws [OF assms] show ?thesis
    by (auto simp: dispatchWaiters_def pool_busy_def pool_accounts_def Let_def split: option.split)
qed

lemma release_laws:
  assumes "pool_accounts s" "pool_busy s"
  shows "pool_accounts (release_slot slot s) \<and> pool_busy (release_slot slot s)"
proof (cases "length (ra_released s) \<le> slot \<or> ra_released s ! slot")
  case False
  with assms(1) have "pool_accounts (s\<lparr>ra_released := (ra_released s)[slot := True], ra_active := ra_active s - 1\<rparr>)"
    by (simp add: pool_accounts_def held_release)
  with False show ?thesis
    by (simp add: release_slot_def dispatch_laws)
qed (use assms in \<open>simp add: release_slot_def\<close>)

lemma take_laws:
  assumes "pool_accounts s" "ra_active s + int n \<le> resolveRunConcurrency"
  shows "pool_accounts (snd (take_slots n s)) \<and> length (fst (take_slots n s)) = n \<and>
    ra_active (snd (take_slots n s)) = ra_active s + int n \<and>
    ra_waiters (snd (take_slots n s)) = ra_waiters s \<and> ra_stopped (snd (take_slots n s)) = ra_stopped s \<and>
    ra_capacityListener (snd (take_slots n s)) = ra_capacityListener s \<and>
    ra_microtasks (snd (take_slots n s)) = ra_microtasks s"
  using assms
proof (induction n arbitrary: s)
  case (Suc n)
  then have "pool_accounts (snd (acquireCronRunSlot s))"
    by (intro acquire_slot) auto
  with Suc show ?case
    by (simp add: split_beta Let_def acquireCronRunSlot_def)
qed simp

lemma listener_fields [simp]:
  "pool_accounts (setCronRunCapacityListener l s) = pool_accounts s"
  "pool_busy (setCronRunCapacityListener l s) = pool_busy s"
  "ra_active (setCronRunCapacityListener l s) = ra_active s"
  "ra_stopped (setCronRunCapacityListener l s) = ra_stopped s"
  by (simp_all add: setCronRunCapacityListener_def pool_accounts_def pool_busy_def split: option.split)

text \<open>A tick of a service that runs gets every slot it asks for, or all that are free.\<close>

lemma try_laws:
  fixes due :: int
  assumes "pool_accounts s" "pool_busy s"
  defines "r \<equiv> tryAcquireCronRunSlots due s"
  shows "pool_accounts (snd r) \<and> pool_busy (snd r) \<and> ra_stopped (snd r) = ra_stopped s \<and>
    ra_capacityListener (snd r) = ra_capacityListener s \<and> ra_microtasks (snd r) = ra_microtasks s \<and>
    ra_active s \<le> ra_active (snd r) \<and>
    (ra_stopped s \<or> due \<le> int (length (fst r)) \<or> ra_active (snd r) = resolveRunConcurrency)"
proof (cases "ra_stopped s \<or> due \<le> 0 \<or> ra_waiters s \<noteq> []")
  case False
  define n where "n = nat (min due (max 0 (resolveRunConcurrency - ra_active s)))"
  have r: "r = take_slots n s"
    using False by (simp add: r_def tryAcquireCronRunSlots_def n_def)
  have "ra_active s + int n \<le> resolveRunConcurrency" "due \<le> int n \<or> ra_active s + int n = resolveRunConcurrency"
    using False assms(1) by (auto simp: n_def pool_accounts_def)
  with take_laws [OF assms(1), of n] False show ?thesis
    by (auto simp: r pool_busy_def)
qed (use assms in \<open>auto simp: r_def tryAcquireCronRunSlots_def pool_busy_def\<close>)

lemma tick_snd:
  "snd (tick_slots due l s) = snd (tryAcquireCronRunSlots due s) \<or>
   snd (tick_slots due l s) = setCronRunCapacityListener l (snd (tryAcquireCronRunSlots due s))"
  by (simp add: tick_slots_def split_beta Let_def)

lemma acquire_laws:
  assumes "pool_accounts s" "pool_busy s"
  shows "pool_accounts (acquireCronRunAdmission s) \<and> pool_busy (acquireCronRunAdmission s)"
  using assms
  by (auto simp: acquireCronRunAdmission_def acquireCronRunSlot_def pool_accounts_def pool_busy_def Let_def)

lemma step_laws:
  assumes "pool_accounts s" "pool_busy s"
  shows "pool_accounts (admission_step e s) \<and> pool_busy (admission_step e s)"
proof (cases e)
  case (Event_tick due l)
  with tick_snd [of due l s] try_laws [OF assms, of due] show ?thesis
    by auto
next
  case Event_stop
  have "pool_accounts (s\<lparr>ra_stopped := True\<rparr>)"
    using assms(1) by (simp add: pool_accounts_def)
  with Event_stop show ?thesis
    by (simp add: stop_admission_def cancel_accounts pool_busy_def)
next
  case Event_start
  with assms show ?thesis
    by (auto simp: pool_accounts_def pool_busy_def)
qed (use assms acquire_laws release_laws in simp_all)

interpretation pool: step_invariant admission_step "\<lambda>_. True" "\<lambda>s. pool_accounts s \<and> pool_busy s"
  by unfold_locales (simp add: step_laws)

lemma run_laws:
  "pool_accounts s \<Longrightarrow> pool_busy s \<Longrightarrow> pool_accounts (run_events events s) \<and> pool_busy (run_events events s)"
  by (simp add: run_events_def pool.run_keeps)

lemma new_laws: "pool_accounts new_cron_admission" "pool_busy new_cron_admission"
  by (simp_all add: pool_accounts_def pool_busy_def new_cron_admission_def resolveRunConcurrency_def
      DEFAULT_CRON_MAX_CONCURRENT_RUNS_def)

section \<open>The wake-up of a tick that got too few slots\<close>

definition wake_pending :: "nat \<Rightarrow> cron_admission \<Rightarrow> bool" where
  "wake_pending l s \<longleftrightarrow> l \<in> set (ra_microtasks s) \<or>
     ra_capacityListener s = Some l \<and> ra_active s = resolveRunConcurrency"

lemma wake_step:
  assumes "pool_accounts s" "pool_busy s" "\<not> ra_stopped s" "wake_pending l s" "e \<noteq> Event_stop"
  shows "wake_pending l (admission_step e s) \<and> \<not> ra_stopped (admission_step e s)"
proof (cases e)
  case Event_acquire
  with assms show ?thesis
    by (auto simp: acquireCronRunAdmission_def acquireCronRunSlot_def wake_pending_def answer_def Let_def)
next
  case (Event_tick due k)
  with tick_snd [of due k s] try_laws [OF assms(1,2), of due] assms(1,3,4)
  show ?thesis
    by (auto simp: wake_pending_def setCronRunCapacityListener_def pool_accounts_def split: option.splits)
next
  case (Event_release slot)
  show ?thesis
  proof (cases "length (ra_released s) \<le> slot \<or> ra_released s ! slot")
    case False
    define s1 where "s1 = s\<lparr>ra_released := (ra_released s)[slot := True], ra_active := ra_active s - 1\<rparr>"
    have "pool_accounts s1"
      using assms(1) False by (simp add: s1_def pool_accounts_def held_release)
    define a where "a = admit_waiters s1"
    have a: "pool_accounts a" "\<not> ra_stopped a" "ra_capacityListener a = ra_capacityListener s"
      "ra_microtasks a = ra_microtasks s" "ra_waiters a = [] \<or> ra_active a = resolveRunConcurrency"
      using admit_waiters_laws [OF \<open>pool_accounts s1\<close>] assms(3) by (simp_all add: a_def) (simp_all add: s1_def)
    have step: "admission_step e s = (if ra_active a < resolveRunConcurrency \<and> ra_waiters a = []
        then (case ra_capacityListener a of
                Some k \<Rightarrow> a\<lparr>ra_capacityListener := None, ra_microtasks := ra_microtasks a @ [k]\<rparr> | None \<Rightarrow> a)
        else a)"
      using Event_release False assms(3)
      by (simp add: release_slot_def dispatchWaiters_def s1_def [symmetric] a_def [symmetric] Let_def)
        (simp add: s1_def)
    have full: "ra_active a < resolveRunConcurrency \<and> ra_waiters a = [] \<or> ra_active a = resolveRunConcurrency"
      using a(1,5) by (auto simp: pool_accounts_def)
    have "wake_pending l a \<or> ra_capacityListener a = Some l"
      using assms(4) a(3,4) by (auto simp: wake_pending_def)
    then show ?thesis
      using a(2) full unfolding step by (auto simp: wake_pending_def split: option.split)
  qed (use assms Event_release in \<open>simp add: release_slot_def\<close>)
qed (use assms in \<open>auto simp: wake_pending_def\<close>)

interpretation wake: step_invariant admission_step "\<lambda>e. e \<noteq> Event_stop"
    "\<lambda>s. (pool_accounts s \<and> pool_busy s) \<and> \<not> ra_stopped s \<and> wake_pending l s" for l
  by unfold_locales (use step_laws wake_step in blast)

lemma wake_run:
  assumes "pool_accounts s" "pool_busy s" "\<not> ra_stopped s" "wake_pending l s" "Event_stop \<notin> set events"
  shows "wake_pending l (run_events events s)"
  using assms wake.run_keeps [of s l events] by (simp add: run_events_def list_all_avoids)

section \<open>The properties\<close>

text \<open>C25: In every state the service reaches, the active runs are exactly the slots handed out and not yet
  released, at most eight; the requests were answered in the order they came, each once; and nobody waits
  while a slot is free.\<close>

theorem cron_runs_share_the_cap:
  "ra_active (run_events events new_cron_admission) = held (ra_released (run_events events new_cron_admission)) \<and>
   ra_active (run_events events new_cron_admission) \<le> 8 \<and>
   map fst (ra_answers (run_events events new_cron_admission)) @ ra_waiters (run_events events new_cron_admission) =
     [0..<ra_requests (run_events events new_cron_admission)] \<and>
   (ra_waiters (run_events events new_cron_admission) = [] \<or>
    ra_active (run_events events new_cron_admission) = 8)"
  using run_laws [OF new_laws, of events]
  by (auto simp: pool_accounts_def pool_busy_def resolveRunConcurrency_def DEFAULT_CRON_MAX_CONCURRENT_RUNS_def)

text \<open>C24: A tick that gets fewer slots than it has due jobs is not forgotten: a listener is set, and whatever
  happens short of a stop, it stays set only while all slots are taken, and is queued as soon as one is free
  and nobody waits for it.\<close>

theorem blocked_tick_is_woken:
  assumes "\<not> ra_stopped (run_events before new_cron_admission)"
    and "tick_slots due listener (run_events before new_cron_admission) = (slots, s)"
    and "int (length slots) < due" "Event_stop \<notin> set after"
  shows "\<exists>l. ra_capacityListener s = Some l \<and>
    (l \<in> set (ra_microtasks (run_events after s)) \<or>
     ra_capacityListener (run_events after s) = Some l \<and> held (ra_released (run_events after s)) = 8)"
proof -
  define s0 where "s0 = run_events before new_cron_admission"
  note s0 = run_laws [OF new_laws, of before, folded s0_def]
  define s1 where "s1 = snd (tryAcquireCronRunSlots due s0)"
  have s: "s = setCronRunCapacityListener listener s1"
    using assms(2,3) by (auto simp: tick_slots_def s0_def [symmetric] s1_def split_beta Let_def split: if_splits)
  have slots: "slots = fst (tryAcquireCronRunSlots due s0)"
    using assms(2) by (auto simp: tick_slots_def s0_def [symmetric] split_beta Let_def split: if_splits)
  from try_laws [of s0 due] s0 assms(1,3) have full: "pool_accounts s" "pool_busy s" "\<not> ra_stopped s"
    "ra_active s = resolveRunConcurrency"
    by (auto simp: s slots s1_def [symmetric] s0_def [symmetric])
  obtain l where l: "ra_capacityListener s = Some l"
    by (cases "ra_capacityListener s1") (auto simp: s setCronRunCapacityListener_def)
  then have "wake_pending l s"
    using full(4) by (simp add: wake_pending_def)
  from wake_run [OF full(1-3) this assms(4)] run_laws [OF full(1,2), of after] l show ?thesis
    by (auto simp: wake_pending_def pool_accounts_def resolveRunConcurrency_def DEFAULT_CRON_MAX_CONCURRENT_RUNS_def)
qed

theorem blocked_tick_is_woken_witness:
  "fst (tick_slots 1 99 (run_events (replicate 8 Event_acquire) new_cron_admission)) = [] \<and>
   99 \<in> set (ra_microtasks (run_events [Event_release 3]
     (snd (tick_slots 1 99 (run_events (replicate 8 Event_acquire) new_cron_admission)))))"
proof -
  have v: "\<not> ra_stopped (run_events (replicate 8 Event_acquire) new_cron_admission)"
    "tick_slots 1 99 (run_events (replicate 8 Event_acquire) new_cron_admission) =
       ([], snd (tick_slots 1 99 (run_events (replicate 8 Event_acquire) new_cron_admission)))"
    "ra_capacityListener (snd (tick_slots 1 99 (run_events (replicate 8 Event_acquire) new_cron_admission))) = Some 99"
    "held (ra_released (run_events [Event_release 3]
       (snd (tick_slots 1 99 (run_events (replicate 8 Event_acquire) new_cron_admission))))) = 7"
    by code_simp+
  from blocked_tick_is_woken [OF v(1,2), of "[Event_release 3]"] v(3,4) show ?thesis
    by (subst v(2)) simp
qed

end
