(* ===== verification/Cron_Watchdog.thy ===== *)
theory Cron_Watchdog
  imports Prelude
begin

text \<open>
  The watchdog of an isolated agent run (\<open>src/cron/service/agent-watchdog.ts\<close>): it times the setup of the
  runner, the way to its first progress and the whole run, and tells the job runner once why the time is up.

  A timer handle keeps its deadline and whether the timer is still live (it has neither fired nor been
  cleared). Of the execution info the phase is kept, of the error texts the constant and the phase
  they end with. The start and every call of the watchdog read one clock; the firing of a timer is an event
  at or after its deadline.
\<close>

section \<open>Phases and reasons\<close>

datatype CronAgentExecutionPhase =
    Runner_entered | Workspace | Runtime_plugins | Before_agent_reply | Model_resolution | Auth
  | Context_engine | Attempt_dispatch | Context_assembled | Turn_accepted | Process_spawned
  | Tool_execution_started | Assistant_output_started | Model_call_started

datatype CronAgentPhaseWatchdogStage = Pre_execution | Execution

fun CRON_AGENT_PHASE_WATCHDOG_STAGE :: "CronAgentExecutionPhase \<Rightarrow> CronAgentPhaseWatchdogStage" where
  "CRON_AGENT_PHASE_WATCHDOG_STAGE Runner_entered = Pre_execution"
| "CRON_AGENT_PHASE_WATCHDOG_STAGE Workspace = Pre_execution"
| "CRON_AGENT_PHASE_WATCHDOG_STAGE Runtime_plugins = Pre_execution"
| "CRON_AGENT_PHASE_WATCHDOG_STAGE Before_agent_reply = Execution"
| "CRON_AGENT_PHASE_WATCHDOG_STAGE Model_resolution = Pre_execution"
| "CRON_AGENT_PHASE_WATCHDOG_STAGE Auth = Pre_execution"
| "CRON_AGENT_PHASE_WATCHDOG_STAGE Context_engine = Pre_execution"
| "CRON_AGENT_PHASE_WATCHDOG_STAGE Attempt_dispatch = Execution"
| "CRON_AGENT_PHASE_WATCHDOG_STAGE Context_assembled = Execution"
| "CRON_AGENT_PHASE_WATCHDOG_STAGE Turn_accepted = Execution"
| "CRON_AGENT_PHASE_WATCHDOG_STAGE Process_spawned = Execution"
| "CRON_AGENT_PHASE_WATCHDOG_STAGE Tool_execution_started = Execution"
| "CRON_AGENT_PHASE_WATCHDOG_STAGE Assistant_output_started = Execution"
| "CRON_AGENT_PHASE_WATCHDOG_STAGE Model_call_started = Execution"

record CronAgentExecutionStarted =
  ei_isFallback :: "bool option"
  ei_phase :: "CronAgentExecutionPhase option"

datatype timeout_reason =
    Job_timed_out "CronAgentExecutionPhase option"
  | Setup_timed_out "CronAgentExecutionPhase option"
  | Pre_execution_stalled "CronAgentExecutionPhase option"

definition CRON_AGENT_SETUP_WATCHDOG_MS :: int where "CRON_AGENT_SETUP_WATCHDOG_MS = 60000"

definition CRON_AGENT_PRE_EXECUTION_WATCHDOG_MS :: int where "CRON_AGENT_PRE_EXECUTION_WATCHDOG_MS = 60000"

definition CRON_AGENT_PRE_EXECUTION_MIN_WATCHDOG_MS :: int where
  "CRON_AGENT_PRE_EXECUTION_MIN_WATCHDOG_MS = 1000"

definition resolveCronAgentPreExecutionWatchdogMs :: "int \<Rightarrow> int" where
  "resolveCronAgentPreExecutionWatchdogMs jobTimeoutMs =
     max CRON_AGENT_PRE_EXECUTION_MIN_WATCHDOG_MS
       (min CRON_AGENT_PRE_EXECUTION_WATCHDOG_MS (jobTimeoutMs div 2))"

section \<open>The watchdog\<close>

datatype CronAgentWatchdogState =
    Waiting_for_runner | Waiting_for_initial_progress | Waiting_for_fallback_execution
  | Executing | Timed_out | Disposed

record timer_handle =
  th_deadline :: int
  th_live :: bool

record watchdog_params =
  wp_deferUntilRunner :: bool
  wp_jobTimeoutMs :: int

record cron_watchdog =
  wd_state :: CronAgentWatchdogState
  wd_timeoutId :: "timer_handle option"
  wd_setupTimeoutId :: "timer_handle option"
  wd_preExecutionTimeoutId :: "timer_handle option"
  wd_activeExecution :: "CronAgentExecutionStarted option"
  wd_observedLaneWait :: bool
  wd_waitingForLane :: bool
  wd_triggered :: "timeout_reason list"

definition createCronAgentWatchdog :: "watchdog_params \<Rightarrow> cron_watchdog" where
  "createCronAgentWatchdog P =
     \<lparr>wd_state = (if wp_deferUntilRunner P then Waiting_for_runner else Executing),
      wd_timeoutId = None, wd_setupTimeoutId = None, wd_preExecutionTimeoutId = None,
      wd_activeExecution = None, wd_observedLaneWait = False, wd_waitingForLane = False, wd_triggered = []\<rparr>"

text \<open>\<open>setTimeout\<close>; a delay outside 1 to 2147483647 is 1.\<close>

definition set_timer :: "int \<Rightarrow> int \<Rightarrow> timer_handle" where
  "set_timer now ms = \<lparr>th_deadline = now + (if 1 \<le> ms \<and> ms \<le> 2147483647 then ms else 1), th_live = True\<rparr>"

definition last_phase :: "cron_watchdog \<Rightarrow> CronAgentExecutionPhase option" where
  "last_phase s = Option.bind (wd_activeExecution s) ei_phase"

definition setTimedOut :: "timeout_reason \<Rightarrow> cron_watchdog \<Rightarrow> cron_watchdog" where
  "setTimedOut reason s =
     (if wd_state s = Timed_out \<or> wd_state s = Disposed then s
      else s\<lparr>wd_state := Timed_out, wd_triggered := wd_triggered s @ [reason]\<rparr>)"

definition startTimeout :: "watchdog_params \<Rightarrow> int \<Rightarrow> cron_watchdog \<Rightarrow> cron_watchdog" where
  "startTimeout P now s =
     (if wd_timeoutId s \<noteq> None \<or> wd_state s = Disposed then s
      else s\<lparr>wd_timeoutId := Some (set_timer now (wp_jobTimeoutMs P))\<rparr>)"

definition clearSetupTimeout :: "cron_watchdog \<Rightarrow> cron_watchdog" where
  "clearSetupTimeout s = s\<lparr>wd_setupTimeoutId := None\<rparr>"

definition startSetupTimeout :: "int \<Rightarrow> cron_watchdog \<Rightarrow> cron_watchdog" where
  "startSetupTimeout now s =
     (if wd_setupTimeoutId s \<noteq> None \<or> wd_state s \<noteq> Waiting_for_runner \<or> wd_waitingForLane s then s
      else s\<lparr>wd_setupTimeoutId := Some (set_timer now CRON_AGENT_SETUP_WATCHDOG_MS)\<rparr>)"

definition clearPreExecutionTimeout :: "cron_watchdog \<Rightarrow> cron_watchdog" where
  "clearPreExecutionTimeout s = s\<lparr>wd_preExecutionTimeoutId := None\<rparr>"

definition isWaitingForExecution :: "cron_watchdog \<Rightarrow> bool" where
  "isWaitingForExecution s \<longleftrightarrow>
     wd_state s = Waiting_for_initial_progress \<or> wd_state s = Waiting_for_fallback_execution"

definition startPreExecutionTimeout :: "watchdog_params \<Rightarrow> int \<Rightarrow> cron_watchdog \<Rightarrow> cron_watchdog" where
  "startPreExecutionTimeout P now s =
     (if wd_preExecutionTimeoutId s \<noteq> None \<or> \<not> isWaitingForExecution s then s
      else s\<lparr>wd_preExecutionTimeoutId :=
             Some (set_timer now (resolveCronAgentPreExecutionWatchdogMs (wp_jobTimeoutMs P)))\<rparr>)"

definition merge_execution ::
  "CronAgentExecutionStarted option \<Rightarrow> CronAgentExecutionStarted \<Rightarrow> CronAgentExecutionStarted" where
  "merge_execution active info = (case active of
       None \<Rightarrow> info
     | Some a \<Rightarrow> \<lparr>ei_isFallback = (if ei_isFallback info = None then ei_isFallback a else ei_isFallback info),
                  ei_phase = (if ei_phase info = None then ei_phase a else ei_phase info)\<rparr>)"

definition noteExecutionProgress :: "CronAgentExecutionStarted option \<Rightarrow> cron_watchdog \<Rightarrow> cron_watchdog" where
  "noteExecutionProgress info s = (case info of
       None \<Rightarrow> s
     | Some i \<Rightarrow>
         (let s1 = s\<lparr>wd_activeExecution := Some (merge_execution (wd_activeExecution s) i)\<rparr>;
              stage = map_option CRON_AGENT_PHASE_WATCHDOG_STAGE (ei_phase i);
              observedInitialProgress = (wd_state s1 = Waiting_for_initial_progress \<and>
                ei_phase i \<noteq> None \<and> ei_phase i \<noteq> Some Runner_entered);
              observedFallbackExecution = (wd_state s1 = Waiting_for_fallback_execution \<and> stage = Some Execution)
          in if observedInitialProgress \<or> observedFallbackExecution
             then clearPreExecutionTimeout (s1\<lparr>wd_state := Executing\<rparr>) else s1))"

section \<open>The calls\<close>

definition wd_start :: "watchdog_params \<Rightarrow> int \<Rightarrow> cron_watchdog \<Rightarrow> cron_watchdog" where
  "wd_start P now s = (if wp_deferUntilRunner P then startSetupTimeout now s else startTimeout P now s)"

definition replaceTimeout :: "int \<Rightarrow> int option \<Rightarrow> cron_watchdog \<Rightarrow> cron_watchdog" where
  "replaceTimeout now timeoutMs s =
     s\<lparr>wd_timeoutId := (case timeoutMs of
         Some ms \<Rightarrow> if wd_state s \<noteq> Timed_out \<and> wd_state s \<noteq> Disposed then Some (set_timer now ms) else None
       | None \<Rightarrow> None)\<rparr>"

definition noteLaneWait :: "cron_watchdog \<Rightarrow> cron_watchdog" where
  "noteLaneWait s =
     (if wd_state s = Waiting_for_runner
      then clearSetupTimeout (s\<lparr>wd_observedLaneWait := True, wd_waitingForLane := True\<rparr>) else s)"

definition noteLaneAdmitted :: "int \<Rightarrow> cron_watchdog \<Rightarrow> cron_watchdog" where
  "noteLaneAdmitted now s =
     (if wd_state s = Waiting_for_runner
      then startSetupTimeout now (s\<lparr>wd_observedLaneWait := False, wd_waitingForLane := False\<rparr>) else s)"

definition noteRunnerStarted ::
  "watchdog_params \<Rightarrow> int \<Rightarrow> CronAgentExecutionStarted option \<Rightarrow> cron_watchdog \<Rightarrow> cron_watchdog" where
  "noteRunnerStarted P now info s =
     (if wd_state s = Disposed \<or> wd_state s = Timed_out then s
      else
        let s1 = startTimeout P now (clearSetupTimeout s);
            s2 = (if (case info of Some i \<Rightarrow> ei_isFallback i = Some True | None \<Rightarrow> False)
                  then (clearPreExecutionTimeout s1)\<lparr>wd_state := Waiting_for_fallback_execution\<rparr>
                  else if wd_state s1 = Waiting_for_runner then s1\<lparr>wd_state := Waiting_for_initial_progress\<rparr>
                  else s1)
        in startPreExecutionTimeout P now (noteExecutionProgress info s2))"

definition notePhase :: "CronAgentExecutionStarted \<Rightarrow> cron_watchdog \<Rightarrow> cron_watchdog" where
  "notePhase info s =
     (if wd_state s = Disposed \<or> wd_state s = Timed_out then s else noteExecutionProgress (Some info) s)"

definition dispose_watchdog :: "cron_watchdog \<Rightarrow> cron_watchdog" where
  "dispose_watchdog s = clearPreExecutionTimeout (clearSetupTimeout
     (s\<lparr>wd_state := Disposed, wd_timeoutId := map_option (\<lambda>t. t\<lparr>th_live := False\<rparr>) (wd_timeoutId s)\<rparr>))"

section \<open>The timers\<close>

datatype watchdog_timer = Timer_setup | Timer_pre_execution | Timer_job

fun wd_timer :: "watchdog_timer \<Rightarrow> cron_watchdog \<Rightarrow> timer_handle option" where
  "wd_timer Timer_setup s = wd_setupTimeoutId s"
| "wd_timer Timer_pre_execution s = wd_preExecutionTimeoutId s"
| "wd_timer Timer_job s = wd_timeoutId s"

definition timer_live :: "watchdog_timer \<Rightarrow> cron_watchdog \<Rightarrow> bool" where
  "timer_live k s \<longleftrightarrow> (case wd_timer k s of Some t \<Rightarrow> th_live t | None \<Rightarrow> False)"

definition spent :: "timer_handle option \<Rightarrow> timer_handle option" where
  "spent = map_option (\<lambda>t. t\<lparr>th_live := False\<rparr>)"

fun timer_callback :: "watchdog_timer \<Rightarrow> cron_watchdog \<Rightarrow> cron_watchdog" where
  "timer_callback Timer_setup s =
     (let s1 = s\<lparr>wd_setupTimeoutId := spent (wd_setupTimeoutId s)\<rparr>
      in if wd_state s1 = Waiting_for_runner \<and> \<not> wd_waitingForLane s1
         then setTimedOut (Setup_timed_out (last_phase s1)) s1 else s1)"
| "timer_callback Timer_pre_execution s =
     (let s1 = s\<lparr>wd_preExecutionTimeoutId := spent (wd_preExecutionTimeoutId s)\<rparr>
      in if isWaitingForExecution s1 then setTimedOut (Pre_execution_stalled (last_phase s1)) s1 else s1)"
| "timer_callback Timer_job s =
     (let s1 = s\<lparr>wd_timeoutId := spent (wd_timeoutId s)\<rparr>
      in setTimedOut (Job_timed_out (last_phase s1)) s1)"

text \<open>A timer fires if it is live and its deadline has come.\<close>

definition fire_timeout :: "watchdog_timer \<Rightarrow> int \<Rightarrow> cron_watchdog \<Rightarrow> cron_watchdog" where
  "fire_timeout k now s =
     (if timer_live k s \<and> (case wd_timer k s of Some t \<Rightarrow> th_deadline t \<le> now | None \<Rightarrow> False)
      then timer_callback k s else s)"

section \<open>Runs\<close>

datatype watchdog_event =
    Wd_replaceTimeout "int option"
  | Wd_noteLaneWait
  | Wd_noteLaneAdmitted
  | Wd_noteRunnerStarted "CronAgentExecutionStarted option"
  | Wd_notePhase CronAgentExecutionStarted
  | Wd_dispose
  | Wd_fire watchdog_timer

fun watchdog_step :: "watchdog_params \<Rightarrow> int \<times> watchdog_event \<Rightarrow> cron_watchdog \<Rightarrow> cron_watchdog" where
  "watchdog_step P (now, Wd_replaceTimeout ms) s = replaceTimeout now ms s"
| "watchdog_step P (now, Wd_noteLaneWait) s = noteLaneWait s"
| "watchdog_step P (now, Wd_noteLaneAdmitted) s = noteLaneAdmitted now s"
| "watchdog_step P (now, Wd_noteRunnerStarted info) s = noteRunnerStarted P now info s"
| "watchdog_step P (now, Wd_notePhase info) s = notePhase info s"
| "watchdog_step P (now, Wd_dispose) s = dispose_watchdog s"
| "watchdog_step P (now, Wd_fire k) s = fire_timeout k now s"

text \<open>A watchdog is started once, when it is made.\<close>

definition watchdog_run ::
  "watchdog_params \<Rightarrow> int \<Rightarrow> (int \<times> watchdog_event) list \<Rightarrow> cron_watchdog" where
  "watchdog_run P t0 events =
     fold (watchdog_step P) events (wd_start P t0 (createCronAgentWatchdog P))"

end
