(* ===== verification/Cron_Watchdog_Laws.thy ===== *)
theory Cron_Watchdog_Laws
  imports Cron_Watchdog Step_Runs
begin

text \<open>
  What the watchdog promises: it reports one timeout at most and none after it was disposed, and a run that
  is neither over nor queued in its lane always has a timer that will end it.
\<close>

definition wd_over :: "cron_watchdog \<Rightarrow> bool" where
  "wd_over s \<longleftrightarrow> wd_state s = Timed_out \<or> wd_state s = Disposed"

definition live_or_none :: "timer_handle option \<Rightarrow> bool" where
  "live_or_none h = (case h of Some t \<Rightarrow> th_live t | None \<Rightarrow> True)"

lemma live_or_none_simps [simp]:
  "live_or_none None" "live_or_none (Some (set_timer now ms))"
  by (simp_all add: live_or_none_def set_timer_def)

text \<open>Every timer stands for the phase it times, and every phase has its timer; \<open>bounded\<close> says that the deadline
  of the run was not taken away.\<close>

definition wd_timed :: "bool \<Rightarrow> cron_watchdog \<Rightarrow> bool" where
  "wd_timed bounded s \<longleftrightarrow>
     live_or_none (wd_timeoutId s) \<and> live_or_none (wd_setupTimeoutId s) \<and> live_or_none (wd_preExecutionTimeoutId s) \<and>
     (wd_setupTimeoutId s \<noteq> None) = (wd_state s = Waiting_for_runner \<and> \<not> wd_waitingForLane s) \<and>
     (wd_preExecutionTimeoutId s \<noteq> None) = isWaitingForExecution s \<and>
     (bounded \<and> wd_state s \<noteq> Waiting_for_runner \<longrightarrow> wd_timeoutId s \<noteq> None)"

definition wd_supervised :: "bool \<Rightarrow> cron_watchdog \<Rightarrow> bool" where
  "wd_supervised bounded s \<longleftrightarrow> wd_over s \<or> wd_timed bounded s"

definition takes_deadline :: "int \<times> watchdog_event \<Rightarrow> bool" where
  "takes_deadline e \<longleftrightarrow> snd e = Wd_replaceTimeout None"

lemmas wd_defs = wd_supervised_def wd_timed_def wd_over_def isWaitingForExecution_def

lemma progress_supervised:
  assumes "\<not> wd_over s"
    and "live_or_none (wd_timeoutId s)" "wd_setupTimeoutId s = None" "live_or_none (wd_preExecutionTimeoutId s)"
    and "wd_state s \<noteq> Waiting_for_runner" "wd_preExecutionTimeoutId s \<noteq> None \<longrightarrow> isWaitingForExecution s"
    and "bounded \<longrightarrow> wd_timeoutId s \<noteq> None"
  shows "wd_timed bounded (startPreExecutionTimeout P now (noteExecutionProgress info s))"
  using assms
  by (cases "wd_state s"; cases info)
    (auto simp: wd_defs startPreExecutionTimeout_def noteExecutionProgress_def clearPreExecutionTimeout_def Let_def)

lemma runner_started_supervised:
  assumes "wd_supervised bounded s"
  shows "wd_supervised bounded (noteRunnerStarted P now info s)"
proof (cases "wd_over s")
  case True
  then show ?thesis
    by (auto simp: noteRunnerStarted_def wd_supervised_def wd_over_def)
next
  case False
  with assms have t: "wd_timed bounded s"
    by (simp add: wd_supervised_def)
  define s1 where "s1 = startTimeout P now (clearSetupTimeout s)"
  have s1: "wd_state s1 = wd_state s" "wd_setupTimeoutId s1 = None" "wd_timeoutId s1 \<noteq> None"
    "live_or_none (wd_timeoutId s1)" "wd_preExecutionTimeoutId s1 = wd_preExecutionTimeoutId s"
    using False t by (auto simp: s1_def startTimeout_def clearSetupTimeout_def wd_timed_def wd_over_def)
  define s2 where "s2 = (if (case info of Some i \<Rightarrow> ei_isFallback i = Some True | None \<Rightarrow> False)
     then (clearPreExecutionTimeout s1)\<lparr>wd_state := Waiting_for_fallback_execution\<rparr>
     else if wd_state s1 = Waiting_for_runner then s1\<lparr>wd_state := Waiting_for_initial_progress\<rparr> else s1)"
  have s2: "\<not> wd_over s2" "live_or_none (wd_timeoutId s2)" "wd_setupTimeoutId s2 = None"
    "live_or_none (wd_preExecutionTimeoutId s2)" "wd_state s2 \<noteq> Waiting_for_runner"
    "wd_preExecutionTimeoutId s2 \<noteq> None \<longrightarrow> isWaitingForExecution s2" "wd_timeoutId s2 \<noteq> None"
    using s1 t False by (simp_all add: s2_def wd_over_def wd_timed_def clearPreExecutionTimeout_def isWaitingForExecution_def)
  have "noteRunnerStarted P now info s = startPreExecutionTimeout P now (noteExecutionProgress info s2)"
    using False by (simp add: noteRunnerStarted_def wd_over_def s1_def s2_def Let_def)
  with progress_supervised [OF s2(1-6)] s2(7) show ?thesis
    by (simp add: wd_supervised_def)
qed

lemma phase_supervised:
  "wd_supervised bounded s \<Longrightarrow> wd_supervised bounded (notePhase info s)"
  by (cases "wd_state s") (auto simp: notePhase_def noteExecutionProgress_def wd_defs clearPreExecutionTimeout_def Let_def)

text \<open>A live timer of a run that is not over ends it.\<close>

lemma live_timer_ends:
  assumes "wd_timed bounded s" "\<not> wd_over s" "timer_live k s"
  shows "wd_state (timer_callback k s) = Timed_out"
  using assms
  by (cases k) (auto simp: wd_defs timer_live_def setTimedOut_def Let_def split: option.splits)

lemma fire_supervised:
  assumes "wd_supervised bounded s"
  shows "wd_supervised bounded (fire_timeout k now s)"
proof (cases "wd_over s")
  case True
  then have "wd_over (timer_callback k s)"
    by (cases k) (auto simp: wd_over_def setTimedOut_def Let_def)
  with True show ?thesis
    by (simp add: fire_timeout_def wd_supervised_def)
next
  case False
  with assms have "wd_timed bounded s"
    by (simp add: wd_supervised_def)
  with False live_timer_ends [of bounded s k] assms show ?thesis
    by (auto simp: fire_timeout_def wd_supervised_def wd_over_def)
qed

lemma step_supervised:
  assumes "wd_supervised bounded s" "\<not> (bounded \<and> takes_deadline e)"
  shows "wd_supervised bounded (watchdog_step P e s)"
proof (cases e)
  case (Pair now ev)
  show ?thesis
  proof (cases ev)
    case (Wd_replaceTimeout ms)
    with assms Pair show ?thesis
      by (cases ms) (auto simp: replaceTimeout_def wd_defs takes_deadline_def)
  next
    case Wd_noteLaneWait
    with assms(1) Pair show ?thesis
      by (cases "wd_state s") (auto simp: noteLaneWait_def clearSetupTimeout_def wd_defs)
  next
    case Wd_noteLaneAdmitted
    with assms(1) Pair show ?thesis
      by (cases "wd_state s") (auto simp: noteLaneAdmitted_def startSetupTimeout_def wd_defs)
  next
    case Wd_dispose
    with Pair show ?thesis
      by (simp add: dispose_watchdog_def clearPreExecutionTimeout_def clearSetupTimeout_def wd_supervised_def wd_over_def)
  qed (use assms(1) Pair in \<open>simp_all add: runner_started_supervised phase_supervised fire_supervised\<close>)
qed

lemma start_supervised: "wd_supervised bounded (wd_start P t0 (createCronAgentWatchdog P))"
  by (simp add: wd_start_def createCronAgentWatchdog_def startSetupTimeout_def startTimeout_def wd_defs)

interpretation supervision: step_invariant "watchdog_step P" "\<lambda>e. \<not> (bounded \<and> takes_deadline e)"
    "wd_supervised bounded" for P bounded
  by unfold_locales (rule step_supervised)

lemma run_supervised:
  assumes "list_all (\<lambda>e. \<not> (bounded \<and> takes_deadline e)) events"
  shows "wd_supervised bounded (watchdog_run P t0 events)"
  unfolding watchdog_run_def by (rule supervision.run_keeps [OF start_supervised assms])

section \<open>One report\<close>

text \<open>The reports so far: none while the run goes on, one once the time is up, none or one after the end.\<close>

definition reports_once :: "cron_watchdog \<Rightarrow> bool" where
  "reports_once s \<longleftrightarrow> length (wd_triggered s) =
     (if wd_state s = Timed_out then 1 else if wd_state s = Disposed then min 1 (length (wd_triggered s)) else 0)"

lemma quiet_calls [simp]:
  "wd_triggered (startTimeout P now s) = wd_triggered s" "wd_state (startTimeout P now s) = wd_state s"
  "wd_triggered (clearSetupTimeout s) = wd_triggered s" "wd_state (clearSetupTimeout s) = wd_state s"
  "wd_triggered (startSetupTimeout now s) = wd_triggered s" "wd_state (startSetupTimeout now s) = wd_state s"
  "wd_triggered (clearPreExecutionTimeout s) = wd_triggered s" "wd_state (clearPreExecutionTimeout s) = wd_state s"
  "wd_triggered (startPreExecutionTimeout P now s) = wd_triggered s"
  "wd_state (startPreExecutionTimeout P now s) = wd_state s"
  "wd_triggered (noteExecutionProgress info s) = wd_triggered s"
  by (simp_all add: startTimeout_def clearSetupTimeout_def startSetupTimeout_def clearPreExecutionTimeout_def
      startPreExecutionTimeout_def noteExecutionProgress_def Let_def split: option.split)

lemma progress_over [simp]: "\<not> wd_over s \<Longrightarrow> \<not> wd_over (noteExecutionProgress info s)"
  by (auto simp: noteExecutionProgress_def wd_over_def Let_def split: option.split)

lemma runner_started_quiet:
  "wd_triggered (noteRunnerStarted P now info s) = wd_triggered s"
  "wd_over s \<Longrightarrow> noteRunnerStarted P now info s = s"
  "\<not> wd_over s \<Longrightarrow> \<not> wd_over (noteRunnerStarted P now info s)"
proof -
  show "wd_triggered (noteRunnerStarted P now info s) = wd_triggered s"
    by (simp add: noteRunnerStarted_def Let_def)
  show "noteRunnerStarted P now info s = s" if "wd_over s"
    using that by (auto simp: noteRunnerStarted_def wd_over_def)
  show "\<not> wd_over (noteRunnerStarted P now info s)" if "\<not> wd_over s"
  proof -
    have started: "wd_over (startPreExecutionTimeout P now x) = wd_over x" for x
      by (simp add: wd_over_def)
    define s1 where "s1 = startTimeout P now (clearSetupTimeout s)"
    define s2 where "s2 = (if (case info of Some i \<Rightarrow> ei_isFallback i = Some True | None \<Rightarrow> False)
       then (clearPreExecutionTimeout s1)\<lparr>wd_state := Waiting_for_fallback_execution\<rparr>
       else if wd_state s1 = Waiting_for_runner then s1\<lparr>wd_state := Waiting_for_initial_progress\<rparr> else s1)"
    have "\<not> wd_over s2"
      using that by (simp add: s2_def s1_def wd_over_def)
    then have "\<not> wd_over (noteExecutionProgress info s2)"
      by simp
    moreover have "noteRunnerStarted P now info s = startPreExecutionTimeout P now (noteExecutionProgress info s2)"
      using that by (simp add: noteRunnerStarted_def wd_over_def s1_def s2_def Let_def)
    ultimately show ?thesis
      by (simp add: started)
  qed
qed

lemma step_reports:
  assumes "reports_once s"
  shows "reports_once (watchdog_step P e s) \<and>
    (wd_state s = Disposed \<longrightarrow> wd_state (watchdog_step P e s) = Disposed \<and>
       wd_triggered (watchdog_step P e s) = wd_triggered s)"
proof (cases e)
  case (Pair now ev)
  show ?thesis
  proof (cases ev)
    case (Wd_noteRunnerStarted info)
    with assms Pair runner_started_quiet [where P = P and now = now and info = info and s = s] show ?thesis
      by (cases "wd_over s") (auto simp: reports_once_def wd_over_def)
  next
    case (Wd_notePhase info)
    with assms Pair progress_over [of s "Some info"] show ?thesis
      by (auto simp: notePhase_def reports_once_def wd_over_def)
  next
    case (Wd_fire k)
    with assms Pair show ?thesis
      by (cases k) (auto simp: fire_timeout_def reports_once_def setTimedOut_def isWaitingForExecution_def Let_def)
  qed (use assms Pair in \<open>auto simp: reports_once_def replaceTimeout_def noteLaneWait_def noteLaneAdmitted_def
      dispose_watchdog_def split: if_splits\<close>)
qed

lemma start_reports: "reports_once (wd_start P t0 (createCronAgentWatchdog P))"
  by (simp add: reports_once_def wd_start_def createCronAgentWatchdog_def)

interpretation reports: step_invariant "watchdog_step P" "\<lambda>_. True" reports_once for P
  by unfold_locales (simp add: step_reports)

interpretation silence: step_invariant "watchdog_step P" "\<lambda>_. True"
    "\<lambda>s. reports_once s \<and> wd_state s = Disposed \<and> wd_triggered s = rs" for P rs
  by unfold_locales (use step_reports in auto)

section \<open>The properties\<close>

text \<open>C23: At every moment of a run whose deadline is not taken away, the run is over, or it waits for its lane
  before the runner has started, or some live timer ends it with a timeout when its deadline comes: no
  sequence of progress reports, lane waits and fallbacks leaves a run without a deadline.\<close>

theorem run_stays_supervised:
  assumes "list_all (\<lambda>e. \<not> takes_deadline e) events"
  shows "wd_over (watchdog_run P t0 events) \<or>
    wd_state (watchdog_run P t0 events) = Waiting_for_runner \<and> wd_waitingForLane (watchdog_run P t0 events) \<or>
    (\<exists>k t. wd_timer k (watchdog_run P t0 events) = Some t \<and> th_live t \<and>
       wd_state (fire_timeout k (th_deadline t) (watchdog_run P t0 events)) = Timed_out)"
proof -
  define s where "s = watchdog_run P t0 events"
  have sup: "wd_supervised True s"
    unfolding s_def using assms by (intro run_supervised) simp
  show ?thesis
  proof (cases "wd_over s \<or> wd_state s = Waiting_for_runner \<and> wd_waitingForLane s")
    case False
    with sup have t: "wd_timed True s"
      by (simp add: wd_supervised_def)
    define k where "k = (if wd_state s = Waiting_for_runner then Timer_setup else Timer_job)"
    from t False have "wd_timer k s \<noteq> None" "live_or_none (wd_timer k s)"
      by (auto simp: wd_timed_def k_def)
    then obtain h where h: "wd_timer k s = Some h" "th_live h"
      by (auto simp: live_or_none_def)
    then have "timer_live k s"
      by (simp add: timer_live_def)
    with live_timer_ends [OF t] False h have "wd_state (fire_timeout k (th_deadline h) s) = Timed_out"
      by (simp add: fire_timeout_def)
    with h show ?thesis
      unfolding s_def by blast
  qed (unfold s_def, blast)
qed

theorem run_stays_supervised_witness:
  "\<exists>k t. wd_timer k (watchdog_run \<lparr>wp_deferUntilRunner = True, wp_jobTimeoutMs = 600000\<rparr> 0
       [(1000, Wd_noteLaneWait), (5000, Wd_noteLaneAdmitted), (7000, Wd_noteRunnerStarted None)]) = Some t \<and> th_live t \<and>
     wd_state (fire_timeout k (th_deadline t) (watchdog_run \<lparr>wp_deferUntilRunner = True, wp_jobTimeoutMs = 600000\<rparr> 0
       [(1000, Wd_noteLaneWait), (5000, Wd_noteLaneAdmitted), (7000, Wd_noteRunnerStarted None)])) = Timed_out"
proof -
  have "list_all (\<lambda>e. \<not> takes_deadline e)
      [(1000, Wd_noteLaneWait), (5000, Wd_noteLaneAdmitted), (7000, Wd_noteRunnerStarted None)]"
    by (simp add: takes_deadline_def)
  from run_stays_supervised [OF this, of "\<lparr>wp_deferUntilRunner = True, wp_jobTimeoutMs = 600000\<rparr>" 0]
  have "wd_over (watchdog_run \<lparr>wp_deferUntilRunner = True, wp_jobTimeoutMs = 600000\<rparr> 0
       [(1000, Wd_noteLaneWait), (5000, Wd_noteLaneAdmitted), (7000, Wd_noteRunnerStarted None)]) \<or>
     wd_state (watchdog_run \<lparr>wp_deferUntilRunner = True, wp_jobTimeoutMs = 600000\<rparr> 0
       [(1000, Wd_noteLaneWait), (5000, Wd_noteLaneAdmitted), (7000, Wd_noteRunnerStarted None)]) = Waiting_for_runner \<or> ?thesis"
    by blast
  moreover have "wd_state (watchdog_run \<lparr>wp_deferUntilRunner = True, wp_jobTimeoutMs = 600000\<rparr> 0
       [(1000, Wd_noteLaneWait), (5000, Wd_noteLaneAdmitted), (7000, Wd_noteRunnerStarted None)]) =
     Waiting_for_initial_progress"
    by code_simp
  ultimately show ?thesis
    by (auto simp: wd_over_def)
qed

text \<open>The watchdog reports at most one timeout over the life of a run, and none after it was disposed.\<close>

theorem timeout_reported_once:
  "length (wd_triggered (watchdog_run P t0 events)) \<le> 1 \<and>
   wd_triggered (watchdog_run P t0 (before @ (now, Wd_dispose) # after)) = wd_triggered (watchdog_run P t0 before)"
proof -
  have r: "reports_once (watchdog_run P t0 es)" for es
    unfolding watchdog_run_def by (rule reports.run_keeps [OF start_reports]) simp
  define s where "s = dispose_watchdog (watchdog_run P t0 before)"
  have split: "watchdog_run P t0 (before @ (now, Wd_dispose) # after) = fold (watchdog_step P) after s"
    by (simp add: watchdog_run_def s_def)
  have "wd_state s = Disposed" "wd_triggered s = wd_triggered (watchdog_run P t0 before)"
    by (simp_all add: s_def dispose_watchdog_def)
  moreover from this have "reports_once s"
    using r [of before] by (simp add: reports_once_def split: if_splits)
  ultimately have "wd_triggered (fold (watchdog_step P) after s) = wd_triggered (watchdog_run P t0 before)"
    using silence.run_keeps [of s _ after] by simp
  moreover have "length (wd_triggered (watchdog_run P t0 events)) \<le> 1"
    using r [of events] by (auto simp: reports_once_def min_def split: if_splits)
  ultimately show ?thesis
    by (simp add: split)
qed

end
