(* ===== verification/Cron_Witnesses.thy ===== *)
theory Cron_Witnesses
  imports Cron_Claims Cron_Runs_Claims Cron_Capacity Cron_Watchdog_Laws
begin

text \<open>
  Concrete jobs at which the promises of the cron scheduler apply: a library whose expressions fire every
  minute in a zone without changes of the clock, and jobs whose fields the scheduler reads are set.
\<close>

definition minute_cron :: Cron where
  "minute_cron = \<lparr>cron_nextRun = (\<lambda>t. Inr (Some ((t div 60000 + 1) * 60000))),
     cron_match = (\<lambda>t. t mod 60000 = 0),
     cron_previousRun = (\<lambda>t. Inr (Some ((t - 1) div 60000 * 60000)))\<rparr>"

definition minute_lib :: cron_lib where
  "minute_lib = \<lparr>
     lib_Cron = (\<lambda>expr tz. if expr = ''bad'' then Inl ''CronPattern: invalid'' else Inr minute_cron),
     lib_localTimeZone = ''UTC'', lib_longOffset = (\<lambda>tz t. Some ''GMT''), lib_cronDate = (\<lambda>tz t. t),
     lib_zonedWall = (\<lambda>tz t. Some t), lib_dateParse = (\<lambda>s. None), lib_sha256_u32 = (\<lambda>s. 7)\<rparr>"

definition minute_ctx :: cron_ctx where
  "minute_ctx = \<lparr>cx_lib = minute_lib, cx_reservation = (\<lambda>id. None), cx_active = (\<lambda>id. False), cx_clock = 70000,
     cx_uuid = (\<lambda>id. ''uuid'')\<rparr>"

definition no_delivery :: delivery_facts where
  "no_delivery = \<lparr>df_lastDelivered = None, df_lastDeliveryStatus = None, df_deliverySuppressionReason = None,
     df_lastDeliveryError = None, df_lastFailureNotificationDelivered = None,
     df_lastFailureNotificationDeliveryStatus = None, df_lastFailureNotificationDeliveryError = None\<rparr>"

definition new_state :: CronJobState where
  "new_state = \<lparr>st_nextRunAtMs = None, st_scheduleActivatedAtMs = None, st_startupCatchupAtMs = None,
     st_pacedNextRunAtMs = None, st_forcePreservedNextRunAtMs = None, st_queuedAtMs = None, st_runningAtMs = None,
     st_lastRunAtMs = None, st_lastRunStatus = None, st_lastStatus = None, st_lastError = None,
     st_lastErrorReason = None, st_lastDurationMs = None, st_consecutiveErrors = None, st_consecutiveSkipped = None,
     st_autoDisabled = None, st_lastFailureAlertAtMs = None, st_scheduleErrorCount = None,
     st_streamSourceIdentity = None,
     st_trigger = \<lparr>tf_lastTriggerEvalAtMs = None, tf_triggerEvalCount = None, tf_lastTriggerFireAtMs = None,
                   tf_triggerState = None\<rparr>,
     st_delivery = no_delivery\<rparr>"

definition sample_job :: "CronSchedule \<Rightarrow> CronJobState \<Rightarrow> CronJob" where
  "sample_job schedule s = \<lparr>cj_id = ''job'', cj_name = ''Job'', cj_enabled = Some True, cj_deleteAfterRun = False,
     cj_createdAtMs = 0, cj_updatedAtMs = 0, cj_schedule = schedule, cj_pacing = None, cj_mainSession = True,
     cj_wakeNow = True, cj_payload = Payload_systemEvent ''ping'', cj_bestEffort = False,
     cj_ownFailureAlert = False, cj_trigger = None, cj_state = s\<rparr>"

definition minutely :: CronSchedule where
  "minutely = Sched_cron (Some ''* * * * *'') None None"

theorem next_run_is_ahead_witness:
  "computeJobNextRunAtMs minute_lib (sample_job minutely new_state) 61000 = Inr (Some 120000) \<and>
   61000 < (120000 :: int) \<and> isFiniteTimestamp 120000"
proof -
  have eq: "computeJobNextRunAtMs minute_lib (sample_job minutely new_state) 61000 = Inr (Some 120000)"
    by code_simp
  have "\<not> is_at (cj_schedule (sample_job minutely new_state))"
    by (simp add: sample_job_def minutely_def)
  from eq next_run_is_ahead [OF eq this] show ?thesis
    by blast
qed

theorem every_next_is_least_witness:
  "computeNextRunAtMs minute_lib (Sched_every 10 (Some 5)) 96 = Inr (Some 105) \<and> (\<exists>k. (105 :: int) = 5 + k * 10)"
proof -
  have "computeNextRunAtMs minute_lib (Sched_every 10 (Some 5)) 96 = Inr (Some 105)"
    by code_simp
  then show ?thesis
    using every_next_is_least [of 96 10 5 minute_lib]
    by (auto simp: isFiniteTimestamp_def MAX_DATE_TIMESTAMP_MS_def)
qed

definition failed_job :: CronJob where
  "failed_job = sample_job (Sched_every 10000 (Some 0))
     (new_state\<lparr>st_lastRunAtMs := Some 1000, st_lastRunStatus := Some Run_error, st_consecutiveErrors := Some 1\<rparr>)"

theorem recomputed_run_respects_backoff_witness:
  "nextRunAtMs (fst (snd (recomputeJobNextRunAtMs minute_ctx False 2000 failed_job))) = Some 31000 \<and>
   2000 < (31000 :: int)"
proof -
  have c: "computeJobNextRunAtMs (cx_lib minute_ctx) failed_job 2000 = Inr (Some 11000)"
    by code_simp
  have r: "nextRunAtMs (fst (snd (recomputeJobNextRunAtMs minute_ctx False 2000 failed_job))) = Some 31000"
    by code_simp
  have "\<not> is_at (cj_schedule failed_job)"
    by (simp add: failed_job_def sample_job_def)
  from r recomputed_run_respects_backoff [OF c this r] show ?thesis
    by blast
qed

definition broken_job :: CronJob where
  "broken_job = sample_job (Sched_cron (Some ''bad'') None None) new_state"

theorem third_schedule_error_disables_witness:
  "let step = (\<lambda>j. fst (snd (recomputeJobNextRunAtMs minute_ctx False 70000 j)))
   in cj_enabled (step (step (step broken_job))) = Some False"
proof -
  have r: "resolveCronFromSchedule (cx_lib minute_ctx) (Some ''bad'') None = Inl ''CronPattern: invalid''"
    by (simp add: resolveCronFromSchedule_def minute_ctx_def minute_lib_def js_trim_def js_space_def Let_def)
  have j: "cj_schedule broken_job = Sched_cron (Some ''bad'') None None" "cj_enabled broken_job = Some True"
    "\<not> isSystemOwnedCronPayloadKind (cj_payload broken_job)" "st_autoDisabled (cj_state broken_job) = None"
    "st_scheduleErrorCount (cj_state broken_job) = None"
    by (simp_all add: broken_job_def sample_job_def new_state_def isSystemOwnedCronPayloadKind_def)
  have "isFiniteTimestamp 70000"
    by (simp add: isFiniteTimestamp_def MAX_DATE_TIMESTAMP_MS_def)
  from third_schedule_error_disables [OF j(1) r this j(2-5)] show ?thesis
    unfolding Let_def by blast
qed

definition due_job :: CronJob where
  "due_job = sample_job minutely (new_state\<lparr>st_nextRunAtMs := Some 60000\<rparr>)"

definition tick_options :: CronMaintenanceOptions where
  "tick_options = \<lparr>mo_recomputeExpired = False, mo_nowMs = None, mo_repairFutureCronNextRunAtMs = True,
     mo_preserveExpiredPacedNextRunJobId = None, mo_skipScheduleErrorHandling = False\<rparr>"

theorem maintenance_keeps_due_slots_witness:
  "map_option (map nextRunAtMs) (fst (snd (recomputeNextRunsForMaintenance minute_ctx tick_options (Some [due_job])))) =
     Some [Some 60000]"
proof -
  obtain js where js: "fst (snd (recomputeNextRunsForMaintenance minute_ctx tick_options (Some [due_job]))) = Some js"
    by (simp add: recomputeNextRunsForMaintenance_def walk_jobs_def Let_def)
  have "map cj_id js = map cj_id [due_job]"
    using js maintenance_walk.walk_keeps_ids [of minute_ctx tick_options "Some [due_job]"]
    by (simp add: recomputeNextRunsForMaintenance_def)
  then have l: "length js = 1"
    by (metis length_map length_Cons list.size(3) One_nat_def)
  have d: "isJobEnabled ([due_job] ! 0)" "nextRunAtMs ([due_job] ! 0) = Some 60000"
    by (simp_all add: due_job_def sample_job_def isJobEnabled_def)
  have "isFiniteTimestamp 60000" "60000 \<le> maintenance_now minute_ctx tick_options"
    "\<not> mo_recomputeExpired tick_options \<or> slot_waits (maintenance_now minute_ctx tick_options) 60000 ([due_job] ! 0)"
    by (simp_all add: isFiniteTimestamp_def MAX_DATE_TIMESTAMP_MS_def maintenance_now_def minute_ctx_def tick_options_def)
  with maintenance_keeps_due_slots [OF js _ d] l have "nextRunAtMs (js ! 0) = Some 60000"
    by simp
  with js l show ?thesis
    by (cases js) auto
qed


definition plain_tick :: runnable_options where
  "plain_tick = \<lparr>ro_skipJobIds = [], ro_skipAtIfAlreadyRan = False, ro_allowCronMissedRunByLastRun = False\<rparr>"

theorem runnable_jobs_are_idle_and_due_witness:
  "due_job \<in> set (collectRunnableJobs minute_ctx plain_tick 70000 (Some [due_job])) \<and>
   isJobEnabled due_job \<and> \<not> hasActiveCronRun minute_ctx due_job"
proof -
  have "isRunnableJob minute_ctx plain_tick 70000 due_job"
    by code_simp
  then have "due_job \<in> set (collectRunnableJobs minute_ctx plain_tick 70000 (Some [due_job]))"
    by (simp add: collectRunnableJobs_def)
  with runnable_jobs_are_idle_and_due [OF this] show ?thesis
    by blast
qed

section \<open>Outcomes\<close>

definition sample_env :: outcome_env where
  "sample_env = \<lparr>oe_ctx = minute_ctx, oe_inferReason = (\<lambda>e. None), oe_sessionLifecycleClaim = (\<lambda>e. False),
     oe_transient = (\<lambda>k e. k = Timeout), oe_parseDuration = (\<lambda>s. None), oe_alertConfig = (\<lambda>j. None)\<rparr>"

definition sample_result :: "run_status \<Rightarrow> cron_result" where
  "sample_result status = \<lparr>jr_status = status, jr_error = (if status = Run_error then Some ''boom'' else None),
     jr_classification = None, jr_executionStarted = True, jr_startedAt = 61000, jr_endedAt = 65000,
     jr_nextCheckDelayMs = None,
     jr_delivery = \<lparr>ds_delivered = None, ds_status = Not_requested, ds_suppression = None, ds_error = None\<rparr>,
     jr_completion = (if status = Run_ok then Succeeded else Failed), jr_triggerEval = None,
     jr_scriptStateChanged = False, jr_scriptState = None\<rparr>"

definition sample_outcome :: "CronJob \<Rightarrow> active_marker option \<Rightarrow> run_status \<Rightarrow> cron_outcome" where
  "sample_outcome job marker status = \<lparr>co_job = job, co_marker = marker, co_result = sample_result status\<rparr>"

lemma sample_owned:
  "resolveCronRunScheduleOwnership sample_env due_job due_job None"
  "\<not> resolveCronRunScheduleOwnership sample_env due_job due_job
       (Some \<lparr>am_scheduleMutated = True, am_triggerMutated = False, am_jobRemoved = False\<rparr>)"
  by code_simp+

theorem outcome_never_refires_early_witness:
  "(case applyOutcomeToAuthoritativeJob sample_env (sample_outcome due_job None Run_error) due_job of
      Inr (False, j, _) \<Rightarrow> nextRunAtMs j = Some 95000 | _ \<Rightarrow> False) \<and> 65000 + MIN_REFIRE_GAP_MS \<le> 95000"
proof -
  let ?r = "applyOutcomeToAuthoritativeJob sample_env (sample_outcome due_job None Run_error) due_job"
  have v: "case ?r of Inr (False, j, _) \<Rightarrow> nextRunAtMs j = Some 95000 | _ \<Rightarrow> False"
    by code_simp
  then obtain j ns where r: "?r = Inr (False, j, ns)" "nextRunAtMs j = Some 95000"
    by (auto split: sum.splits prod.splits bool.splits)
  have s: "co_job (sample_outcome due_job None Run_error) = due_job" "co_marker (sample_outcome due_job None Run_error) = None"
    "jr_nextCheckDelayMs (co_result (sample_outcome due_job None Run_error)) = None"
    "jr_endedAt (co_result (sample_outcome due_job None Run_error)) = 65000"
    by (simp_all add: sample_outcome_def sample_result_def)
  have "is_cron (cj_schedule due_job)" "cj_pacing due_job = None"
    by (simp_all add: due_job_def sample_job_def minutely_def)
  with outcome_never_refires_early [OF r(1) _ _ r(2)] s sample_owned(1) v show ?thesis
    by simp
qed

definition edited_marker :: active_marker where
  "edited_marker = \<lparr>am_scheduleMutated = True, am_triggerMutated = False, am_jobRemoved = False\<rparr>"

lemma outcome_fields [simp]:
  "co_job (sample_outcome job marker status) = job" "co_marker (sample_outcome job marker status) = marker"
  "co_result (sample_outcome job marker status) = sample_result status"
  "jr_status (sample_result status) = status" "quiet_tick (sample_result status) = None"
  by (simp_all add: sample_outcome_def sample_result_def quiet_tick_def)

theorem edited_schedule_survives_the_run_witness:
  "\<exists>j ns. applyOutcomeToAuthoritativeJob sample_env (sample_outcome due_job (Some edited_marker) Run_ok) due_job =
       Inr (False, j, ns) \<and> nextRunAtMs j = nextRunAtMs due_job"
proof -
  have n: "\<not> resolveCronRunScheduleOwnership sample_env due_job due_job (Some edited_marker)"
    unfolding edited_marker_def by (rule sample_owned)
  then have "\<exists>x. applyOutcomeToAuthoritativeJob sample_env
      (sample_outcome due_job (Some edited_marker) Run_ok) due_job = Inr x"
    by (auto simp: applyOutcomeToAuthoritativeJob_def stale_result Let_def intro: exI [of _ False])
  then obtain del j ns where r: "applyOutcomeToAuthoritativeJob sample_env
      (sample_outcome due_job (Some edited_marker) Run_ok) due_job = Inr (del, j, ns)"
    by (metis prod.exhaust)
  from edited_schedule_survives_the_run [OF r] n r show ?thesis
    by simp
qed

definition reminder :: CronJob where
  "reminder = sample_job (Sched_at ''60000'') (new_state\<lparr>st_nextRunAtMs := Some 60000\<rparr>)"

theorem finished_one_shot_is_over_witness:
  "case applyOutcomeToAuthoritativeJob sample_env (sample_outcome reminder None Run_ok) reminder of
     Inr (False, j, _) \<Rightarrow> cj_enabled j = Some False \<and> nextRunAtMs j = None | _ \<Rightarrow> False"
proof -
  let ?r = "applyOutcomeToAuthoritativeJob sample_env (sample_outcome reminder None Run_ok) reminder"
  have own: "resolveCronRunScheduleOwnership sample_env reminder reminder None"
    by code_simp
  have "case ?r of Inr (False, j, _) \<Rightarrow> True | _ \<Rightarrow> False"
    by code_simp
  then obtain j ns where r: "?r = Inr (False, j, ns)"
    by (auto split: sum.splits prod.splits bool.splits)
  have "is_at (cj_schedule reminder)"
    by (simp add: reminder_def sample_job_def)
  with finished_one_shot_is_over [OF r, of minute_ctx plain_tick 70000] own r show ?thesis
    by simp
qed

definition failing_job :: CronJob where
  "failing_job = sample_job minutely (new_state\<lparr>st_nextRunAtMs := Some 60000, st_consecutiveErrors := Some 9\<rparr>)"

theorem tenth_failure_disables_witness:
  "case applyOutcomeToAuthoritativeJob sample_env (sample_outcome failing_job None Run_error) failing_job of
     Inr (_, j, ns) \<Rightarrow> cj_enabled j = Some False \<and> length ns = 1 | _ \<Rightarrow> False"
proof -
  let ?r = "applyOutcomeToAuthoritativeJob sample_env (sample_outcome failing_job None Run_error) failing_job"
  have own: "resolveCronRunScheduleOwnership sample_env failing_job failing_job None"
    by code_simp
  have "case ?r of Inr _ \<Rightarrow> True | _ \<Rightarrow> False"
    by code_simp
  then obtain del j ns where r: "?r = Inr (del, j, ns)"
    by (auto split: sum.splits)
  have "is_cron (cj_schedule failing_job)" "st_consecutiveErrors (cj_state failing_job) = Some 9"
    "cj_enabled failing_job = Some True" "\<not> isSystemOwnedCronPayloadKind (cj_payload failing_job)"
    "st_autoDisabled (cj_state failing_job) = None"
    by (simp_all add: failing_job_def sample_job_def minutely_def new_state_def isSystemOwnedCronPayloadKind_def)
  with tenth_failure_disables [OF r] own r show ?thesis
    by simp
qed

section \<open>Edits during a run\<close>

theorem edit_during_run_is_remembered_witness:
  "\<not> resolveCronRunScheduleOwnership sample_env due_job due_job (Some (marker_flags 0
     (runs_after [Run_advance, Run_mark ''j'' None False] (noteActiveCronJobScheduleMutation ''j''
       (runs_after [Run_mark ''j'' None False] no_cron_runs)))))"
proof -
  have "getCurrentCronActiveJobMarker ''j'' (runs_after [Run_mark ''j'' None False] no_cron_runs) = Some 0"
    by code_simp
  from edit_during_run_is_remembered [OF this] show ?thesis
    by blast
qed

end
