(* ===== verification/Spec2Isabelle.thy ===== *)
theory Spec2Isabelle
  imports Outcome_Witnesses Command_Queue_Witnesses Auth_Rate_Witnesses Pairing_Witnesses
    Session_Key_Witnesses Route_Claims Gateway_Witnesses Cron_Witnesses
begin

text \<open>
  A verification library of the state machines at the core of OpenClaw, a personal assistant whose
  gateway process accepts requests from clients and chat channels, runs agent turns for them, and
  keeps the durable records of what was asked and accepted.

  \<^bold>\<open>The parts and how they interact.\<close> A request reaches the gateway with a credential; failed
  credentials are counted by the rate limiter (\<open>src/gateway/auth-rate-limit.ts\<close>). A sender on a chat channel must be on
  the allow list of the account it writes to, where the approval of a pairing code puts it
  (\<open>src/pairing/pairing-store*.ts\<close>). The conversation it
  belongs to is named by a session key (\<open>src/routing/session-key.ts\<close>,
  \<open>src/sessions/session-key-utils.ts\<close>), and the agent that answers it is chosen by the bindings of the
  configuration (\<open>src/routing/resolve-route.ts\<close>). Before it may start work it needs a root admission of
  the gateway, which a suspension of the host or a pending restart closes
  (\<open>src/process/gateway-work-admission.ts\<close>, \<open>src/infra/gateway-suspend-coordinator.ts\<close>). The work it
  causes is queued in a command lane and admitted under the lane's width and its capacity group
  (\<open>src/process/command-queue*.ts\<close>); the suspension counts what those lanes hold. Work also starts
  by itself: the cron scheduler keeps the next run of every job, picks the due jobs on its ticks, and
  applies the outcome of their runs (\<open>src/cron\<close>). What the work
  was for is an Outcome (\<open>extensions/outcomes/src\<close>): a contract of criteria linked to Workboard
  cards, observed, decided by people, and accepted against a closure hash; its records live in a
  keyed store of the host (\<open>src/plugin-state\<close>). All paths are below \<open>src/\<close> of the repository.

  \<^bold>\<open>Values.\<close> A string is a list of UTF-16 code units below 256, a JavaScript number that the code
  requires to be a safe integer an \<open>int\<close>, one that is still to be checked a \<open>js_number\<close>, a
  \<open>Map\<close> an association list in insertion order, a thrown error the left of a sum. An
  operation gets the instants it reads from the clock as arguments. SHA-256 is a parameter; where a
  property needs its shape or that two texts do not collide, this is a hypothesis.

  \<^bold>\<open>Outcomes.\<close>
  \<^item> \<open>Prelude\<close>, \<open>Stable_Stringify\<close>: JavaScript values and the canonical JSON text
    (\<open>packages/normalization-core/src/stable-stringify.ts\<close>).
  \<^item> \<open>Outcome_Types\<close>, \<open>Outcome_Schema\<close>: the aggregate, its schemas and domain hashes
    (\<open>domain/types.ts\<close>, \<open>constants.ts\<close>, \<open>schema.ts\<close>, \<open>hash.ts\<close>).
  \<^item> \<open>Outcome_Reducer\<close>, \<open>Outcome_Closure\<close>, \<open>Outcome_Assurance\<close>: the eight reducers, the closure
    rule, decisions and acceptances (\<open>domain/reducer.ts\<close>, \<open>assurance/closure.ts\<close>,
    \<open>domain/assurance-reducer.ts\<close>, \<open>gateway/update-reducer.ts\<close>).
  \<^item> \<open>Outcome_Lifecycle\<close>, \<open>Outcome_Decisions\<close>: commands as one step function; the locale
    \<open>cas_reducer\<close> states the compare-and-set contract once and is interpreted for every reducer.
    Validity of the stored record, the phase machine, no lost update, append-only history,
    idempotent retries, one acceptance per closure.
  \<^item> \<open>Keyed_Store\<close>, \<open>Outcome_Repository\<close>: one namespace of the keyed store behind a locale of its
    laws, and the strict repository over it (\<open>store/plugin-state-repository.ts\<close>): atomic mutations,
    isolation of owners, idempotent creation, complete and paged listing.
  \<^item> \<open>Outcome_Workboard\<close>, \<open>Outcome_ReadModel\<close>, \<open>Outcome_Presentation\<close>: the observation built from
    a Workboard answer, attention and actions, summary and detail
    (\<open>adapters/workboard-adapter.ts\<close>, \<open>assurance/evidence.ts\<close>, \<open>assurance/attention.ts\<close>,
    \<open>domain/read-model.ts\<close>): what is shown agrees with what the reducers will do.
  \<^item> \<open>Outcome_Examples\<close>, \<open>Outcome_Witnesses\<close>: a concrete Outcome, and the properties at it.

  \<^bold>\<open>The command queue.\<close>
  \<^item> \<open>Lane_Queue\<close>: ring buffers and the three-priority queue of a lane, refining a list; the
    locale of the queue's laws is interpreted on the ring buffers.
  \<^item> \<open>Command_Lanes\<close>: the runtime state, with lane states in an explicit store of references since
    a lane can be retired and re-created while work of its old state still runs; group registry,
    admission and arbiter.
  \<^item> \<open>Command_Queue\<close>: every operation. Draining is recursion with a measure, the number of queued
    entries, which is why it ends.
  \<^item> \<open>Command_Queue_Wf\<close>, \<open>Command_Queue_Run\<close>, \<open>Command_Groups\<close>, \<open>Command_Admission\<close>,
    \<open>Command_Quiescence\<close>: draining as a nondeterministic scheduler (a step relation) that the
    executable drain refines; well-formedness and conservation of tasks over all runs; the registry
    invariant; load, widths and reservations; nothing admissible waits between operations.
  \<^item> \<open>Command_Queue_Claims\<close>, \<open>Command_Queue_Witnesses\<close>: the properties, and their examples.

  A task is identified by its sequence number. When a started task ends is not determined by the
  queue: the operation \<open>settleTask\<close> settles any running task at any time, which covers the timers
  of \<open>runQueueEntryTask\<close>. Widths and budgets are integers. An operation installing a group names a
  non-empty id: \<open>getLaneGroup\<close> reads an empty id as no group.

  \<^bold>\<open>The rate limiter.\<close> \<open>Auth_Rate_Limit\<close> has the options, the table of sliding windows with
  lockouts, its cap, the overflow lock and the delays of exempt clients; the pruning interval and
  the release timers are operations. \<open>Auth_Rate_Claims\<close> proves that the table stays bounded, that no
  traffic lifts a lockout early, and that exempt clients wait a bounded time. Address parsing is a
  parameter.

  \<^bold>\<open>Pairing.\<close> \<open>Js_Date\<close> has the calendar of ECMAScript, \<open>toISOString\<close> and its inverse for the years 1970 to
  9999. \<open>Pairing_Store\<close> is the store (\<open>src/pairing/pairing-store.ts\<close>, \<open>pairing-store-sqlite.ts\<close>,
  \<open>pairing-store-keys.ts\<close>): two tables with primary keys, every operation one transaction on the state of a
  channel, its random numbers and clock readings inputs. \<open>Pairing_Laws\<close> shows that what is stored is
  always the image of a well-formed state, that reading gives it back and writing violates no key, and carries this to
  any transaction in the locale \<open>channel_update\<close>, interpreted in \<open>Pairing_Updates\<close> for every operation.
  \<open>Pairing_Claims\<close>: over all runs nobody is on an allow list without approval, a code is good for one
  approval and works for an hour. \<open>Pairing_Cap\<close>: what the cap on pending requests drops.
  \<open>Pairing_Witnesses\<close>: the properties at concrete runs.

  \<^bold>\<open>Session keys.\<close> \<open>Session_Text\<close> has the string methods; \<open>Session_Key_Parse\<close> the canonical form with
  its cache and all parsers, regular expressions written as the functions they denote;
  \<open>Session_Key_Build\<close> agent ids, account ids and all builders. \<open>Session_Key_Laws\<close> states what keys rely
  on of ids as a locale, interpreted for agent and account ids, and the laws of scanning;
  \<open>Session_Key_Canonical\<close> shows that a key carrying an opaque peer id is a fixed point of the
  canonical form; \<open>Session_Key_Claims\<close> is the round trip of delivery routes.

  \<^bold>\<open>Routes.\<close> \<open>Route_Config\<close> has what resolution reads of the configuration: the agent roster and its
  default owner (\<open>src/agents/agent-scope-config.ts\<close>), bindings and their scopes
  (\<open>src/routing/binding-scope.ts\<close>). \<open>Route_Resolve\<close> is \<open>src/routing/resolve-route.ts\<close>: the bindings of a
  channel and account, their index, the search of the tiers, the route with its session keys, and
  the cache of routes. \<open>Route_Claims\<close> proves that all this machinery picks the first binding of the
  most specific tier, and that the cache never changes an answer, which rests on the injectivity of
  the canonical text of its key.

  \<^bold>\<open>Gateway admission and suspension.\<close>
  \<^item> \<open>Gateway_Admission\<close>: the admission state of the process (\<open>process/gateway-work-admission.ts\<close>):
    root admissions with their reference counts, the restart fence, the suspension leases, and the
    calls that wait for the fences to open. Root admissions and lease handles are kept in append-only
    stores, since released ones are still referred to; the admission an asynchronous context carries
    is an argument; a call of \<open>waitForGatewaySuspendAdmissionOpen\<close> is in one of three queues,
    \<open>ga_waiters\<close>, \<open>ga_resumed\<close> (its promise is resolved, its continuation still has to run)
    or \<open>ga_settled\<close>.
  \<^item> \<open>Gateway_Admission_Laws\<close>, \<open>Gateway_Admission_Calls\<close>, \<open>Gateway_Admission_Claims\<close>: its operations as
    events in any order, the invariants of the references, the fences and the waiting calls, and the
    locale of a lease that can be ended once, interpreted for the suspension leases and for the restart
    signal.
  \<^item> \<open>Gateway_Active_Work\<close>: the inventory of running work and its blockers
    (\<open>infra/gateway-active-work.ts\<close>).
  \<^item> \<open>Gateway_Suspend\<close>, \<open>Gateway_Suspend_Laws\<close>, \<open>Gateway_Suspend_System\<close>, \<open>Gateway_Suspend_Claims\<close>: the
    suspension coordinator (\<open>infra/gateway-suspend-coordinator.ts\<close>) composed with the admission, with its
    expiry and recovery timers; at every reachable state the two agree on who holds the lease, and
    every suspension can end by its timer.
  \<^item> \<open>Gateway_Witnesses\<close>: the properties at concrete runs.

  What a callback of the coordinator (pausing and resuming the scheduler, counting work) returns, or that
  it throws, is an input of the operation that calls it; a callback does not call the coordinator
  again while it runs. The lifecycle restart is the sequence of operations the gateway performs.

  \<^bold>\<open>The cron scheduler.\<close>
  \<^item> \<open>Cron_Time\<close>: absolute times (\<open>src/cron/parse.ts\<close>, \<open>src/shared/iso-time.ts\<close>): the ISO grammar, the
    Gregorian calendar of any year, wall times without an offset in a time zone.
  \<^item> \<open>Cron_Schedule\<close>: the next and previous run of a schedule (\<open>src/cron/schedule.ts\<close>), with the walk over
    changes of the clock, and the stagger of expressions that fire on the hour (\<open>stagger.ts\<close>). The walk to
    earlier changes recurses on a decreasing instant within the range of \<open>Date\<close>, so it ends; a staggered slot is
    looked for at four cursors, as in the code.
  \<^item> \<open>Cron_Jobs\<close>, \<open>Cron_Maintenance\<close>: a job and its state, backoff, auto-disable, the repair of the stored
    jobs, the timer's summary and the jobs a tick or a restart runs
    (\<open>src/cron/service/jobs-scheduling.ts\<close>, \<open>auto-disable.ts\<close>, \<open>timer-runnable.ts\<close>).
  \<^item> \<open>Cron_Outcomes\<close>, \<open>Cron_Finalize\<close>: what a finished run does to its job and to the store
    (\<open>timer-outcomes.ts\<close>, \<open>timer-trigger.ts\<close>, \<open>failure-alerts.ts\<close>, \<open>src/cron/schedule-identity.ts\<close>).
  \<^item> \<open>Cron_Laws\<close>, \<open>Cron_Steps\<close>, \<open>Cron_Upkeep\<close>, \<open>Cron_Outcome_Laws\<close>: a source of slots answers slots that
    lie ahead, and staggering keeps this (locale \<open>slot_source\<close>, interpreted for schedules and for jobs); both
    walks over the store are built of a \<open>job_step\<close> (a locale interpreted for the tick and for maintenance);
    what normalization, recomputation and the branches of an outcome do to the slots.
  \<^item> \<open>Cron_Capacity\<close>: the pool of run slots (\<open>service/run-admission-capacity.ts\<close>): direct runs wait in
    order, a tick takes what is free and is woken for the rest.
  \<^item> \<open>Cron_Watchdog\<close>, \<open>Cron_Watchdog_Laws\<close>: the watchdog of an agent run with its setup, progress and
    deadline timers (\<open>service/agent-watchdog.ts\<close>): one report at most, and no run without a timer.
  \<^item> \<open>Cron_Runs\<close>, \<open>Cron_Runs_Laws\<close>, \<open>Cron_Runs_Claims\<close>: the markers of active runs and the handles that
    cancel and drain them (\<open>active-jobs.ts\<close>, \<open>service/active-run-cancellation.ts\<close>). A finished run reads of its
    marker whether its schedule was edited; the markers never forget it. These machines take their
    operations in any order; the locale \<open>step_invariant\<close> (\<open>Step_Runs\<close>) carries an invariant over all runs and
    is interpreted for each.
  \<^item> \<open>Cron_Claims\<close>, \<open>Cron_Witnesses\<close>: no job refires at once or is skipped while it is due, a failure holds a
    job back, an edit made during a run wins, maintenance settles; and the examples.

  Instants and durations are whole milliseconds; a number that may lie outside \<open>Date\<close> is tested where the
  code tests it. The cron package (its matching, next and previous runs), time zones, \<open>Date.parse\<close> of other
  texts, the digest behind the stagger offset, the package \<open>ms\<close>, the regular expressions of the retry
  classifier and the alert policy of a job are parameters; no property assumes a law of them. Caches in
  front of them are left out, since they do not change an answer.

  \<^bold>\<open>Not modelled.\<close> Cyclic values and Error objects in canonical JSON; TTL, journals and eviction
  in the keyed store; the zod parsing of the Workboard answer (a predicate on it) and URL parsing (a
  parameter); conversion of array-backed lane queues of an older process; the text of
  log lines; whether the gateway admits subordinate work is an input of the queue. The gateway's transport, method
  registry and configuration, agent turns, model providers, channels, plugins, the command line,
  media pipelines and the native applications are driven by networks, files and vendor APIs, and
  are left out. Of the cron scheduler: the timer loop with the durable reservation of
  runs, the catch-up planned at startup, creating and patching jobs, its SQLite store, delivery, the
  watchers of streams and commands, and the texts of notifications. The Outcome gateway handlers are
  not covered.
\<close>

end
